(* ===== verification/Prelude.thy ===== *)
theory Prelude
  imports Main "HOL-Library.Word" "HOL-Library.Multiset"
begin

text \<open>
  The vocabulary every component shares: the machine integers, \<open>clonecore::Error\<close> and
  \<open>clonecore::Result\<close>, the overflow-checked arithmetic, little-endian access to byte buffers
  (\<open>read_little\<close> and \<open>write_little\<close>, which the sources define once per file), and programs that
  run against devices and callbacks: a program takes the state of the outside world and returns a
  result and the new state.  The last section is a small program logic for them.
\<close>

named_theorems prog_simps \<open>unfolding rules of the program combinators\<close>
named_theorems hoare_rules \<open>rules of the program logic\<close>
named_theorems byte_simps \<open>reads and writes of byte buffers\<close>

section \<open>Machine integers\<close>

type_synonym byte = "8 word"
type_synonym u8 = "8 word"
type_synonym u16 = "16 word"
type_synonym u32 = "32 word"
type_synonym u64 = "64 word"

text \<open>A \<open>std::wstring\<close> is a list of UTF-16 code units, a \<open>std::string\<close> a list of bytes.\<close>

type_synonym wide_string = "u16 list"
type_synonym narrow_string = "u8 list"

abbreviation (input) u64_max :: u64 where "u64_max \<equiv> 0xFFFFFFFFFFFFFFFF"
abbreviation (input) u32_max :: u32 where "u32_max \<equiv> 0xFFFFFFFF"

lemma unat_u64_bound: "unat (x :: u64) < 18446744073709551616"
  using unsigned_less [of x, where 'a = nat] by simp

lemma unat_u32_bound: "unat (x :: u32) < 4294967296"
  using unsigned_less [of x, where 'a = nat] by simp

lemma unat_u8_bound: "unat (x :: byte) < 256"
  using unsigned_less [of x, where 'a = nat] by simp

lemma unat_u64_le: "unat (x :: u64) \<le> 18446744073709551615"
  using unat_u64_bound [of x] by linarith

lemma unat_u32_le: "unat (x :: u32) \<le> 4294967295"
  using unat_u32_bound [of x] by linarith

lemma unat_ucast_u32_u64 [simp]: "unat (ucast (x :: u32) :: u64) = unat x"
  by (simp add: unsigned_ucast_eq take_bit_nat_eq_self_iff less_trans [OF unsigned_less])

lemma unat_ucast_u16_u32 [simp]: "unat (ucast (x :: u16) :: u32) = unat x"
  by (simp add: unsigned_ucast_eq take_bit_nat_eq_self_iff less_trans [OF unsigned_less])

lemma unat_ucast_u8_u32 [simp]: "unat (ucast (x :: u8) :: u32) = unat x"
  by (simp add: unsigned_ucast_eq take_bit_nat_eq_self_iff less_trans [OF unsigned_less])

lemma unat_ucast_u8_u64 [simp]: "unat (ucast (x :: u8) :: u64) = unat x"
  by (simp add: unsigned_ucast_eq take_bit_nat_eq_self_iff less_trans [OF unsigned_less])

lemma unat_add_u64: "unat a + unat b < 2 ^ 64 \<Longrightarrow> unat (a + b :: u64) = unat a + unat b"
  by (simp add: unat_word_ariths)

lemma unat_mult_u64: "unat a * unat b < 2 ^ 64 \<Longrightarrow> unat (a * b :: u64) = unat a * unat b"
  by (simp add: unat_word_ariths)

lemma unat_sub_u64: "b \<le> a \<Longrightarrow> unat (a - b :: u64) = unat a - unat b"
  by (rule unat_sub)

lemma unat_of_nat_u64: "n < 2 ^ 64 \<Longrightarrow> unat (of_nat n :: u64) = n"
  by (simp add: unat_of_nat)

lemma unat_of_nat_u32: "n < 2 ^ 32 \<Longrightarrow> unat (of_nat n :: u32) = n"
  by (simp add: unat_of_nat)

section \<open>Errors and results\<close>

text \<open>
  \<open>enum class ErrorCode\<close> and \<open>struct Error\<close> of \<open>error.h\<close>.  The two wide strings of an error
  (the localised name of the operation and the message) are diagnostics that no caller branches
  on; the model keeps the two fields the code decides with.
\<close>

datatype error_code =
    Invalid_argument | Invalid_data | Access_denied | Enumeration_failed | Query_failed
  | Io_failed | Identity_mismatch | Confirmation_required | Unsupported_layout
  | Verification_failed | Unsupported_platform | Internal_error | Cancelled

record error =
  err_code :: error_code
  err_native :: u32

definition mk_error :: "error_code \<Rightarrow> u32 \<Rightarrow> error" where
  "mk_error c n = \<lparr>err_code = c, err_native = n\<rparr>"

lemma mk_error_sel [simp]: "err_code (mk_error c n) = c" "err_native (mk_error c n) = n"
  by (simp_all add: mk_error_def)

lemma mk_error_eq [simp]: "mk_error c n = mk_error c' n' \<longleftrightarrow> c = c' \<and> n = n'"
  by (simp add: mk_error_def)

text \<open>The Win32 codes (\<open>winerror.h\<close>) the sources put into \<open>native_code\<close>.\<close>

abbreviation (input) ERROR_SUCCESS :: u32 where "ERROR_SUCCESS \<equiv> 0"
abbreviation (input) ERROR_FILE_NOT_FOUND :: u32 where "ERROR_FILE_NOT_FOUND \<equiv> 2"
abbreviation (input) ERROR_ACCESS_DENIED :: u32 where "ERROR_ACCESS_DENIED \<equiv> 5"
abbreviation (input) ERROR_NOT_ENOUGH_MEMORY :: u32 where "ERROR_NOT_ENOUGH_MEMORY \<equiv> 8"
abbreviation (input) ERROR_INVALID_DATA :: u32 where "ERROR_INVALID_DATA \<equiv> 13"
abbreviation (input) ERROR_INVALID_DRIVE :: u32 where "ERROR_INVALID_DRIVE \<equiv> 15"
abbreviation (input) ERROR_CRC :: u32 where "ERROR_CRC \<equiv> 23"
abbreviation (input) ERROR_SECTOR_NOT_FOUND :: u32 where "ERROR_SECTOR_NOT_FOUND \<equiv> 27"
abbreviation (input) ERROR_WRITE_FAULT :: u32 where "ERROR_WRITE_FAULT \<equiv> 29"
abbreviation (input) ERROR_READ_FAULT :: u32 where "ERROR_READ_FAULT \<equiv> 30"
abbreviation (input) ERROR_GEN_FAILURE :: u32 where "ERROR_GEN_FAILURE \<equiv> 31"
abbreviation (input) ERROR_HANDLE_EOF :: u32 where "ERROR_HANDLE_EOF \<equiv> 38"
abbreviation (input) ERROR_NOT_SUPPORTED :: u32 where "ERROR_NOT_SUPPORTED \<equiv> 50"
abbreviation (input) ERROR_DUP_NAME :: u32 where "ERROR_DUP_NAME \<equiv> 52"
abbreviation (input) ERROR_INVALID_PARAMETER :: u32 where "ERROR_INVALID_PARAMETER \<equiv> 87"
abbreviation (input) ERROR_FILE_EXISTS :: u32 where "ERROR_FILE_EXISTS \<equiv> 80"
abbreviation (input) ERROR_BAD_PATHNAME :: u32 where "ERROR_BAD_PATHNAME \<equiv> 161"
abbreviation (input) ERROR_FILE_INVALID :: u32 where "ERROR_FILE_INVALID \<equiv> 1006"
abbreviation (input) ERROR_REPARSE_TAG_INVALID :: u32 where "ERROR_REPARSE_TAG_INVALID \<equiv> 4393"
abbreviation (input) ERROR_DISK_FULL :: u32 where "ERROR_DISK_FULL \<equiv> 112"
abbreviation (input) ERROR_ARITHMETIC_OVERFLOW :: u32 where "ERROR_ARITHMETIC_OVERFLOW \<equiv> 534"
abbreviation (input) ERROR_UNHANDLED_EXCEPTION :: u32 where "ERROR_UNHANDLED_EXCEPTION \<equiv> 574"
abbreviation (input) ERROR_IO_DEVICE :: u32 where "ERROR_IO_DEVICE \<equiv> 1117"
abbreviation (input) ERROR_DEVICE_NOT_CONNECTED :: u32 where "ERROR_DEVICE_NOT_CONNECTED \<equiv> 1167"
abbreviation (input) ERROR_CANCELLED :: u32 where "ERROR_CANCELLED \<equiv> 1223"
abbreviation (input) ERROR_INVALID_STATE :: u32 where "ERROR_INVALID_STATE \<equiv> 5023"

text \<open>\<open>Result<T>\<close>: the error or the value; \<open>Status\<close> is \<open>Result<std::monostate>\<close>.\<close>

type_synonym 'a result = "error + 'a"
type_synonym status = "unit result"

abbreviation success_status :: status where "success_status \<equiv> Inr ()"

text \<open>The two helpers \<open>gpt.cpp\<close> and \<open>mbr.cpp\<close> both define.\<close>

definition data_error :: error where
  "data_error = mk_error Invalid_data ERROR_INVALID_DATA"

definition unsupported_error :: error where
  "unsupported_error = mk_error Unsupported_layout ERROR_NOT_SUPPORTED"

section \<open>Overflow-checked arithmetic\<close>

text \<open>The out parameter and the boolean of the C++ helpers become an option.\<close>

definition checked_add :: "u64 \<Rightarrow> u64 \<Rightarrow> u64 option" where
  "checked_add left right = (if right > u64_max - left then None else Some (left + right))"

definition checked_multiply :: "u64 \<Rightarrow> u64 \<Rightarrow> u64 option" where
  "checked_multiply left right =
     (if left \<noteq> 0 \<and> right > u64_max div left then None else Some (left * right))"

lemma unat_u64_max_minus: "unat (u64_max - a) = 18446744073709551615 - unat (a :: u64)"
proof -
  have "a \<le> u64_max" using unat_u64_le [of a] by (simp add: word_le_nat_alt)
  then show ?thesis by (simp add: unat_sub)
qed

lemma checked_add_Some_iff:
  "checked_add a b = Some c \<longleftrightarrow> unat a + unat b < 2 ^ 64 \<and> c = a + b"
proof -
  have "(b > u64_max - a) = (unat b > 18446744073709551615 - unat a)"
    by (simp add: word_less_nat_alt unat_u64_max_minus)
  moreover have "\<dots> = (\<not> unat a + unat b < 2 ^ 64)"
    using unat_u64_le [of a] by simp linarith
  ultimately show ?thesis by (auto simp: checked_add_def)
qed

lemma checked_add_SomeD:
  assumes "checked_add a b = Some c"
  shows "unat c = unat a + unat b" "unat a + unat b < 2 ^ 64" "c = a + b"
  using assms by (auto simp: checked_add_Some_iff unat_add_u64)

lemma checked_add_unat: "unat a + unat b < 2 ^ 64 \<Longrightarrow> checked_add a b = Some (a + b)"
  by (simp add: checked_add_Some_iff)

lemma checked_multiply_Some_iff:
  "checked_multiply a b = Some c \<longleftrightarrow> unat a * unat b < 2 ^ 64 \<and> c = a * b"
proof (cases "a = 0")
  case True
  then show ?thesis by (auto simp: checked_multiply_def)
next
  case False
  then have pos: "0 < unat a" by (simp add: unat_gt_0)
  have "(b > u64_max div a) = (unat b > 18446744073709551615 div unat a)"
    by (simp add: word_less_nat_alt unat_div)
  also have "\<dots> = (\<not> unat a * unat b < 2 ^ 64)"
  proof -
    have "(unat b \<le> 18446744073709551615 div unat a) = (unat b * unat a \<le> 18446744073709551615)"
      using pos by (simp add: less_eq_div_iff_mult_less_eq)
    then show ?thesis by (auto simp: mult.commute not_less not_le)
  qed
  finally show ?thesis using False by (auto simp: checked_multiply_def)
qed

lemma checked_multiply_SomeD:
  assumes "checked_multiply a b = Some c"
  shows "unat c = unat a * unat b" "unat a * unat b < 2 ^ 64" "c = a * b"
  using assms by (auto simp: checked_multiply_Some_iff unat_mult_u64)

lemma checked_multiply_unat:
  "unat a * unat b < 2 ^ 64 \<Longrightarrow> checked_multiply a b = Some (a * b)"
  by (simp add: checked_multiply_Some_iff)

section \<open>Byte buffers\<close>

text \<open>
  A \<open>std::vector<std::byte>\<close> is a byte list.  \<open>slice\<close> is the view of a subrange (a
  \<open>subspan\<close>), \<open>overwrite\<close> the effect of copying bytes into a buffer; both are used in bounds
  only, as \<open>std::memcpy\<close> is.  \<open>overwrite\<close> keeps the length of the buffer.
\<close>

definition slice :: "'a list \<Rightarrow> nat \<Rightarrow> nat \<Rightarrow> 'a list" where
  "slice xs off n = take n (drop off xs)"

definition overwrite :: "'a list \<Rightarrow> nat \<Rightarrow> 'a list \<Rightarrow> 'a list" where
  "overwrite xs off ys = take (length xs) (take off xs @ ys @ drop (off + length ys) xs)"

lemma overwrite_in_bounds:
  "off + length ys \<le> length xs \<Longrightarrow>
   overwrite xs off ys = take off xs @ ys @ drop (off + length ys) xs"
  by (simp add: overwrite_def)

lemma length_slice [simp]: "off + n \<le> length xs \<Longrightarrow> length (slice xs off n) = n"
  by (simp add: slice_def)

lemma nth_slice [simp]: "i < n \<Longrightarrow> off + n \<le> length xs \<Longrightarrow> slice xs off n ! i = xs ! (off + i)"
  by (simp add: slice_def)

lemma length_overwrite [simp]: "length (overwrite xs off ys) = length xs"
  by (simp add: overwrite_def min_def)

lemma nth_overwrite:
  "off + length ys \<le> length xs \<Longrightarrow> i < length xs \<Longrightarrow>
   overwrite xs off ys ! i =
     (if off \<le> i \<and> i < off + length ys then ys ! (i - off) else xs ! i)"
  by (auto simp: overwrite_in_bounds nth_append min_def not_le not_less)

lemma slice_overwrite_same [byte_simps]:
  "off + length ys \<le> length xs \<Longrightarrow> n = length ys \<Longrightarrow> slice (overwrite xs off ys) off n = ys"
  by (simp add: slice_def overwrite_in_bounds)

lemma slice_overwrite_other [byte_simps]:
  assumes "off + length ys \<le> length xs" "p + n \<le> off \<or> off + length ys \<le> p" "p + n \<le> length xs"
  shows "slice (overwrite xs off ys) p n = slice xs p n"
  using assms by (intro nth_equalityI) (auto simp: nth_overwrite)

lemma slice_overwrite_inside:
  assumes "off + length ys \<le> length xs" "off \<le> p" "p + n \<le> off + length ys"
  shows "slice (overwrite xs off ys) p n = slice ys (p - off) n"
  using assms by (intro nth_equalityI) (auto simp: nth_overwrite)

lemma slice_slice: "a + n \<le> m \<Longrightarrow> slice (slice xs off m) a n = slice xs (off + a) n"
  by (simp add: slice_def min_absorb2 add.commute take_drop)

lemma overwrite_same_id:
  assumes "slice xs off (length ys) = ys"
  shows "overwrite xs off ys = xs"
proof -
  have "take off xs @ ys @ drop (off + length ys) xs = xs"
    using assms by (metis append_take_drop_id drop_drop slice_def add.commute)
  then show ?thesis by (simp add: overwrite_def)
qed

lemma overwrite_overwrite:
  "off + length ys \<le> length xs \<Longrightarrow> length zs = length ys \<Longrightarrow>
   overwrite (overwrite xs off ys) off zs = overwrite xs off zs"
  by (simp add: overwrite_in_bounds)

lemma take_overwrite:
  "off + length ys \<le> n \<Longrightarrow> n \<le> length xs \<Longrightarrow>
   take n (overwrite xs off ys) = overwrite (take n xs) off ys"
  by (simp add: overwrite_in_bounds drop_take min_absorb1)

lemma slice_take: "off + n \<le> m \<Longrightarrow> slice (take m xs) off n = slice xs off n"
  by (simp add: slice_def drop_take min_absorb1)

lemma slice_replicate [byte_simps]:
  "off + n \<le> m \<Longrightarrow> slice (replicate m x) off n = replicate n x"
  by (simp add: slice_def)

lemma slice_append1: "off + n \<le> length xs \<Longrightarrow> slice (xs @ ys) off n = slice xs off n"
  by (simp add: slice_def)

lemma slice_all: "slice xs 0 (length xs) = xs"
  by (simp add: slice_def)

text \<open>Little-endian encoding, as \<open>memcpy\<close> of an integer does on x64.\<close>

fun le_nat :: "byte list \<Rightarrow> nat" where
  "le_nat [] = 0"
| "le_nat (b # bs) = unat b + 256 * le_nat bs"

fun le_bytes :: "nat \<Rightarrow> nat \<Rightarrow> byte list" where
  "le_bytes 0 v = []"
| "le_bytes (Suc n) v = of_nat v # le_bytes n (v div 256)"

lemma length_le_bytes [simp]: "length (le_bytes n v) = n"
  by (induction n arbitrary: v) auto

lemma le_nat_le_bytes: "le_nat (le_bytes n v) = v mod 256 ^ n"
proof (induction n arbitrary: v)
  case 0
  then show ?case by simp
next
  case (Suc n)
  have "unat (of_nat v :: byte) = v mod 256"
    by (simp add: unat_of_nat)
  then show ?case
    by (simp add: Suc.IH mod_mult2_eq [of v 256 "256 ^ n"])
qed

lemma le_nat_bound: "le_nat bs < 256 ^ length bs"
proof (induction bs)
  case (Cons b bs)
  have "unat b < 256" by (rule unat_u8_bound)
  moreover have "256 * (le_nat bs + 1) \<le> 256 * 256 ^ length bs"
    using Cons by (intro mult_le_mono2) simp
  ultimately show ?case by simp
qed simp

lemma le_bytes_le_nat: "length bs = n \<Longrightarrow> le_bytes n (le_nat bs) = bs"
proof (induction bs arbitrary: n)
  case (Cons b bs)
  have "(of_nat (unat b + 256 * le_nat bs) :: byte) = b"
  proof -
    have "(of_nat (unat b + 256 * le_nat bs) :: byte) = of_nat (unat b) + of_nat 256 * of_nat (le_nat bs)"
      by (simp only: of_nat_add of_nat_mult)
    moreover have "(of_nat 256 :: byte) = 0" by simp
    ultimately show ?thesis by (simp only: mult_zero_left add_0_right) simp
  qed
  with Cons show ?case by (auto simp: unat_u8_bound)
qed simp

lemma le_bytes_zero: "le_bytes n 0 = replicate n 0"
  by (induction n) auto

definition read_little :: "byte list \<Rightarrow> nat \<Rightarrow> 'a::len word" where
  "read_little bytes off = of_nat (le_nat (slice bytes off (LENGTH('a) div 8)))"

definition write_little :: "byte list \<Rightarrow> nat \<Rightarrow> 'a::len word \<Rightarrow> byte list" where
  "write_little bytes off v = overwrite bytes off (le_bytes (LENGTH('a) div 8) (unat v))"

lemma length_write_little [simp]: "length (write_little bs off v) = length bs"
  by (simp add: write_little_def)

lemma read_write_little_same [byte_simps]:
  fixes v :: "'a::len word"
  assumes "off + LENGTH('a) div 8 \<le> length bs" "8 dvd LENGTH('a)"
  shows "read_little (write_little bs off v) off = v"
proof -
  from assms(2) obtain k where k: "LENGTH('a) = 8 * k" by blast
  have "unat v < 2 ^ LENGTH('a)" by simp
  then have "unat v mod 256 ^ k = unat v"
    by (simp add: k power_mult)
  then show ?thesis
    using assms(1) k
    by (simp add: read_little_def write_little_def slice_overwrite_same le_nat_le_bytes)
qed

lemma read_write_little_other [byte_simps]:
  fixes v :: "'a::len word"
  assumes "off + LENGTH('a) div 8 \<le> length bs" "p + LENGTH('b) div 8 \<le> length bs"
    "p + LENGTH('b) div 8 \<le> off \<or> off + LENGTH('a) div 8 \<le> p"
  shows "(read_little (write_little bs off v) p :: 'b::len word) = read_little bs p"
  using assms by (simp add: read_little_def write_little_def slice_overwrite_other)

lemma slice_write_little_other [byte_simps]:
  fixes v :: "'a::len word"
  assumes "off + LENGTH('a) div 8 \<le> length bs" "p + n \<le> length bs"
    "p + n \<le> off \<or> off + LENGTH('a) div 8 \<le> p"
  shows "slice (write_little bs off v) p n = slice bs p n"
  using assms by (simp add: write_little_def slice_overwrite_other)

lemma nth_write_little_other [byte_simps]:
  fixes v :: "'a::len word"
  assumes "off + LENGTH('a) div 8 \<le> length bs" "i < off \<or> off + LENGTH('a) div 8 \<le> i" "i < length bs"
  shows "write_little bs off v ! i = bs ! i"
  using assms by (auto simp: write_little_def nth_overwrite)

lemma read_little_slice: "a + LENGTH('a) div 8 \<le> m \<Longrightarrow>
   (read_little (slice xs off m) a :: 'a::len word) = read_little xs (off + a)"
  by (simp add: read_little_def slice_slice)

lemma read_little_zeros [byte_simps]:
  "p + LENGTH('a) div 8 \<le> n \<Longrightarrow> (read_little (replicate n 0) p :: 'a::len word) = 0"
proof -
  have z: "le_nat (replicate k 0) = 0" for k by (induction k) auto
  assume "p + LENGTH('a) div 8 \<le> n"
  then show ?thesis by (simp add: read_little_def slice_replicate z)
qed

lemma le_bytes_read_little:
  fixes v :: "'a::len word"
  assumes "v = read_little bs off" "off + LENGTH('a) div 8 \<le> length bs" "8 dvd LENGTH('a)"
  shows "le_bytes (LENGTH('a) div 8) (unat v) = slice bs off (LENGTH('a) div 8)"
proof -
  from assms(3) obtain k where k: "LENGTH('a) = 8 * k" by blast
  have "le_nat (slice bs off k) < 256 ^ k"
    using le_nat_bound [of "slice bs off k"] assms(2) k by simp
  then have "unat v = le_nat (slice bs off k)"
    using assms(1) k by (simp add: read_little_def unat_of_nat power_mult)
  then show ?thesis using assms(2) k by (simp add: le_bytes_le_nat)
qed

section \<open>Lists\<close>

text \<open>A symmetric relation holds pairwise of a list in whatever order the list is.\<close>

lemma sorted_wrt_sym_mset:
  assumes sym: "\<And>x y. R x y \<Longrightarrow> R y x" and "sorted_wrt R xs" "mset xs = mset ys"
  shows "sorted_wrt R ys"
  using assms(2,3)
proof (induction xs arbitrary: ys)
  case Nil
  then show ?case by simp
next
  case (Cons x xs)
  have "x \<in> set ys" using Cons.prems(2) by (metis list.set_intros(1) mset_eq_setD)
  then obtain as bs where ys: "ys = as @ x # bs" by (auto dest: split_list)
  with Cons.prems(2) have m: "mset xs = mset (as @ bs)" by simp
  then have "sorted_wrt R (as @ bs)" using Cons by simp
  moreover have "\<forall>y \<in> set (as @ bs). R x y"
    using Cons.prems(1) mset_eq_setD [OF m] by auto
  ultimately show ?case using sym by (auto simp: ys sorted_wrt_append)
qed

lemma sorted_wrt_sym_sort_key:
  assumes "\<And>x y. R x y \<Longrightarrow> R y x"
  shows "sorted_wrt R (sort_key f xs) \<longleftrightarrow> sorted_wrt R xs"
  using sorted_wrt_sym_mset [of R, OF assms] by (metis mset_sort)

text \<open>
  Extents in the order of their starts are pairwise disjoint when neighbours are: what the code
  checks after sorting.
\<close>

lemma successively_disjoint_iff:
  fixes lo hi :: "'a \<Rightarrow> 'b::linorder" and key :: "'a \<Rightarrow> 'c::linorder"
  assumes "\<forall>x \<in> set xs. lo x \<le> hi x" and key: "\<And>x y. key x \<le> key y \<Longrightarrow> lo x \<le> lo y"
  shows "successively (\<lambda>x y. hi x < lo y) (sort_key key xs) \<longleftrightarrow>
    sorted_wrt (\<lambda>x y. hi x < lo y \<or> hi y < lo x) xs"
proof -
  let ?ys = "sort_key key xs" and ?D = "\<lambda>x y. hi x < lo y \<or> hi y < lo x"
  have "successively (\<lambda>x y. hi x < lo y) ?ys \<longleftrightarrow> sorted_wrt (\<lambda>x y. hi x < lo y) ?ys"
    by (rule successively_iff_sorted_wrt_strong) (use assms(1) in fastforce)
  also have "\<dots> \<longleftrightarrow> sorted_wrt ?D ?ys"
  proof
    assume d: "sorted_wrt ?D ?ys"
    have "sorted_wrt (\<lambda>x y. lo x \<le> lo y) ?ys"
      using sorted_sort_key [of key xs] key by (auto simp: sorted_wrt_map intro: sorted_wrt_mono_rel [rotated])
    with d have "sorted_wrt (\<lambda>x y. ?D x y \<and> lo x \<le> lo y) ?ys"
      by (auto simp: sorted_wrt_iff_nth_less)
    then show "sorted_wrt (\<lambda>x y. hi x < lo y) ?ys"
      by (rule sorted_wrt_mono_rel [rotated]) (use assms(1) in force)
  qed (auto elim!: sorted_wrt_mono_rel [rotated])
  also have "\<dots> \<longleftrightarrow> sorted_wrt ?D xs"
    by (rule sorted_wrt_sym_sort_key) auto
  finally show ?thesis .
qed

lemma sorted_wrt_mapI:
  "sorted_wrt P xs \<Longrightarrow> (\<And>x y. x \<in> set xs \<Longrightarrow> y \<in> set xs \<Longrightarrow> P x y \<Longrightarrow> Q (f x) (f y)) \<Longrightarrow>
   sorted_wrt Q (map f xs)"
  by (induction xs) auto

lemma strictly_sorted_distinct:
  fixes f :: "'a \<Rightarrow> 'b::linorder"
  shows "sorted_wrt (\<lambda>p q. f p < f q) xs \<Longrightarrow> distinct (map f xs)"
  by (induction xs) (auto simp: less_imp_neq)

lemma strict_sorted_key_unique:
  fixes f :: "'a \<Rightarrow> 'b::linorder"
  assumes "sorted_wrt (\<lambda>p q. f p < f q) xs" "sorted_wrt (\<lambda>p q. f p < f q) ys" "set xs = set ys"
  shows "xs = ys"
proof -
  have "sorted_wrt (<) (map f xs)" "sorted_wrt (<) (map f ys)"
    using assms by (simp_all add: sorted_wrt_map)
  then have m: "map f xs = map f ys"
    using assms(3) by (metis set_map strict_sorted_equal)
  have "x = y" if "x \<in> set xs" "y \<in> set xs" "f x = f y" for x y
  proof (rule ccontr)
    assume "x \<noteq> y"
    with that(1,2) assms(1) have "f x < f y \<or> f y < f x"
      by (induction xs) auto
    with that(3) show False by simp
  qed
  then have "inj_on f (set xs \<union> set ys)" using assms(3) by (auto intro: inj_onI)
  with m show ?thesis by (rule map_inj_on)
qed

text \<open>One step of a loop that collects elements with a fresh key.\<close>

lemma fresh_cons_iff:
  "(\<exists>qs. (qs = Q \<and> (\<forall>x \<in> set qs. V x \<and> g x \<notin> insert (g p) seen) \<and> distinct (map g qs)) \<and>
      ps = p # qs) \<and> g p \<notin> seen \<and> V p \<longleftrightarrow>
   ps = p # Q \<and> (\<forall>x \<in> set ps. V x \<and> g x \<notin> seen) \<and> distinct (map g ps)"
proof -
  have m: "g p \<in> g ` set Q \<longleftrightarrow> (\<exists>x \<in> set Q. g x = g p)" by (metis imageE imageI)
  show ?thesis
    by (cases "ps = p # Q") (simp_all add: m ball_conj_distrib conj_ac)
qed

section \<open>Programs\<close>

text \<open>
  A routine that calls a device, a generator or a callback is a program: it takes the state of the
  world those interfaces act on and returns its \<open>Result\<close> with the new state.  \<open>bindE\<close> is the
  sources' \<open>if (!x) return failure(x.error())\<close>.
\<close>

type_synonym ('s, 'a) prog = "'s \<Rightarrow> 'a result \<times> 's"

definition returnE :: "'a \<Rightarrow> ('s, 'a) prog" where
  "returnE x s = (Inr x, s)"

definition failE :: "error \<Rightarrow> ('s, 'a) prog" where
  "failE e s = (Inl e, s)"

definition bindE :: "('s, 'a) prog \<Rightarrow> ('a \<Rightarrow> ('s, 'b) prog) \<Rightarrow> ('s, 'b) prog" where
  "bindE m f s = (case m s of (Inl e, t) \<Rightarrow> (Inl e, t) | (Inr x, t) \<Rightarrow> f x t)"

definition of_result :: "'a result \<Rightarrow> ('s, 'a) prog" where
  "of_result r s = (r, s)"

definition guardE :: "bool \<Rightarrow> error \<Rightarrow> ('s, unit) prog" where
  "guardE c e = (if c then returnE () else failE e)"

text \<open>A call that cannot fail, such as a \<open>noexcept\<close> wrapper of a callback.\<close>

definition liftE :: "('s \<Rightarrow> 'a \<times> 's) \<Rightarrow> ('s, 'a) prog" where
  "liftE f s = (case f s of (x, t) \<Rightarrow> (Inr x, t))"

declare returnE_def [prog_simps] failE_def [prog_simps] of_result_def [prog_simps]
  guardE_def [prog_simps] liftE_def [prog_simps]

lemma bindE_cong [fundef_cong]:
  assumes "m = m'" "\<And>x s t. m' s = (Inr x, t) \<Longrightarrow> f x = f' x"
  shows "bindE m f = bindE m' f'"
  using assms by (auto simp: bindE_def fun_eq_iff split: prod.split sum.split)

lemma bindE_returnE [simp]: "bindE (returnE x) f = f x"
  by (simp add: fun_eq_iff bindE_def returnE_def)

lemma bindE_failE [simp]: "bindE (failE e) f = failE e"
  by (simp add: fun_eq_iff bindE_def failE_def)

lemma bindE_Inr: "m s = (Inr x, t) \<Longrightarrow> bindE m f s = f x t"
  by (simp add: bindE_def)

lemma bindE_Inl: "m s = (Inl e, t) \<Longrightarrow> bindE m f s = (Inl e, t)"
  by (simp add: bindE_def)

lemma bindE_eq_Inr [prog_simps]:
  "bindE m f s = (Inr y, t) \<longleftrightarrow> (\<exists>x u. m s = (Inr x, u) \<and> f x u = (Inr y, t))"
  by (auto simp: bindE_def split: prod.splits sum.splits)

lemma bindE_eq_Inl:
  "bindE m f s = (Inl e, t) \<longleftrightarrow>
   m s = (Inl e, t) \<or> (\<exists>x u. m s = (Inr x, u) \<and> f x u = (Inl e, t))"
  by (auto simp: bindE_def split: prod.splits sum.splits)

lemma guardE_eq_Inr [simp]: "guardE c e s = (Inr x, t) \<longleftrightarrow> c \<and> t = s"
  by (auto simp: guardE_def returnE_def failE_def)

lemma guardE_eq_Inl [simp]: "guardE c e s = (Inl e', t) \<longleftrightarrow> \<not> c \<and> e' = e \<and> t = s"
  by (auto simp: guardE_def returnE_def failE_def)

lemma returnE_eq [simp]: "returnE x s = (r, t) \<longleftrightarrow> r = Inr x \<and> t = s"
  by (auto simp: returnE_def)

lemma failE_eq [simp]: "failE e s = (r, t) \<longleftrightarrow> r = Inl e \<and> t = s"
  by (auto simp: failE_def)

lemma of_result_eq [simp]: "of_result r s = (r', t) \<longleftrightarrow> r' = r \<and> t = s"
  by (auto simp: of_result_def)

lemma guardE_True [simp]: "guardE True e = returnE ()"
  by (simp add: guardE_def)

lemma guardE_False [simp]: "guardE False e = failE e"
  by (simp add: guardE_def)

lemma of_result_Inr [simp]: "of_result (Inr x) = returnE x"
  by (simp add: fun_eq_iff of_result_def returnE_def)

lemma of_result_Inl [simp]: "of_result (Inl e) = failE e"
  by (simp add: fun_eq_iff of_result_def failE_def)

section \<open>Program logic\<close>

text \<open>
  \<open>hoare P m Q E\<close>: from a state with \<open>P\<close>, the program either returns a value, and then \<open>Q\<close>
  holds of it and the final state, or fails, and then \<open>E\<close> holds.  Programs are total functions,
  so this is total correctness.
\<close>

definition hoare ::
  "('s \<Rightarrow> bool) \<Rightarrow> ('s, 'a) prog \<Rightarrow> ('a \<Rightarrow> 's \<Rightarrow> bool) \<Rightarrow> (error \<Rightarrow> 's \<Rightarrow> bool) \<Rightarrow> bool" where
  "hoare P m Q E \<longleftrightarrow>
     (\<forall>s. P s \<longrightarrow> (case m s of (Inr x, t) \<Rightarrow> Q x t | (Inl e, t) \<Rightarrow> E e t))"

lemma hoareI:
  assumes "\<And>s x t. P s \<Longrightarrow> m s = (Inr x, t) \<Longrightarrow> Q x t"
    "\<And>s e t. P s \<Longrightarrow> m s = (Inl e, t) \<Longrightarrow> E e t"
  shows "hoare P m Q E"
  using assms by (auto simp: hoare_def split: prod.split sum.split)

lemma hoareD_Inr: "hoare P m Q E \<Longrightarrow> P s \<Longrightarrow> m s = (Inr x, t) \<Longrightarrow> Q x t"
  by (fastforce simp: hoare_def)

lemma hoareD_Inl: "hoare P m Q E \<Longrightarrow> P s \<Longrightarrow> m s = (Inl e, t) \<Longrightarrow> E e t"
  by (fastforce simp: hoare_def)

lemma hoare_conseq:
  assumes "hoare P' m Q' E'" "\<And>s. P s \<Longrightarrow> P' s" "\<And>x s. Q' x s \<Longrightarrow> Q x s" "\<And>e s. E' e s \<Longrightarrow> E e s"
  shows "hoare P m Q E"
  using assms by (fastforce simp: hoare_def split: prod.splits sum.splits)

lemma hoare_pre: "hoare P' m Q E \<Longrightarrow> (\<And>s. P s \<Longrightarrow> P' s) \<Longrightarrow> hoare P m Q E"
  by (rule hoare_conseq)

lemma hoare_returnE [hoare_rules]: "hoare (\<lambda>s. Q x s) (returnE x) Q E"
  by (simp add: hoare_def returnE_def)

lemma hoare_failE [hoare_rules]: "hoare (\<lambda>s. E e s) (failE e) Q E"
  by (simp add: hoare_def failE_def)

lemma hoare_guardE [hoare_rules]:
  "hoare (\<lambda>s. (c \<longrightarrow> Q () s) \<and> (\<not> c \<longrightarrow> E e s)) (guardE c e) Q E"
  by (simp add: hoare_def guardE_def returnE_def failE_def)

lemma hoare_of_result [hoare_rules]:
  "hoare (\<lambda>s. (\<forall>x. r = Inr x \<longrightarrow> Q x s) \<and> (\<forall>e. r = Inl e \<longrightarrow> E e s)) (of_result r) Q E"
  by (auto simp: hoare_def of_result_def split: sum.split)

lemma hoare_bindE:
  assumes "hoare P m R E" "\<And>x. hoare (R x) (f x) Q E"
  shows "hoare P (bindE m f) Q E"
  using assms unfolding hoare_def bindE_def
  by (fastforce split: prod.splits sum.splits)

lemma hoare_if [hoare_rules]:
  assumes "c \<Longrightarrow> hoare P m Q E" "\<not> c \<Longrightarrow> hoare P' m' Q E"
  shows "hoare (\<lambda>s. (c \<longrightarrow> P s) \<and> (\<not> c \<longrightarrow> P' s)) (if c then m else m') Q E"
  using assms by (auto simp: hoare_def)

lemma hoare_if_inv: "(c \<Longrightarrow> hoare P m Q E) \<Longrightarrow> (\<not> c \<Longrightarrow> hoare P m' Q E) \<Longrightarrow>
  hoare P (if c then m else m') Q E"
  by simp

lemma hoare_conj:
  "hoare P m Q E \<Longrightarrow> hoare P' m Q' E' \<Longrightarrow>
   hoare (\<lambda>s. P s \<and> P' s) m (\<lambda>x s. Q x s \<and> Q' x s) (\<lambda>e s. E e s \<and> E' e s)"
  by (fastforce simp: hoare_def split: prod.splits sum.splits)

lemma hoare_pure: "(p \<Longrightarrow> hoare P m Q E) \<Longrightarrow> hoare (\<lambda>s. p \<and> P s) m Q E"
  by (auto simp: hoare_def)

section \<open>Programs that leave a part of the world alone\<close>

text \<open>\<open>keeps v m\<close>: whatever \<open>m\<close> returns, the view \<open>v\<close> of the world is afterwards what it was.\<close>

definition keeps :: "('s \<Rightarrow> 'v) \<Rightarrow> ('s \<Rightarrow> 'r \<times> 's) \<Rightarrow> bool" where
  "keeps v m \<longleftrightarrow> (\<forall>s. v (snd (m s)) = v s)"

lemma keepsD: "keeps v m \<Longrightarrow> m s = (r, t) \<Longrightarrow> v t = v s"
  by (metis keeps_def snd_conv)

lemma keepsI: "(\<And>s r t. m s = (r, t) \<Longrightarrow> v t = v s) \<Longrightarrow> keeps v m"
  by (metis keeps_def prod.collapse)

lemma keeps_bindE:
  assumes m: "keeps v m" and f: "\<And>x. keeps v (f x)"
  shows "keeps v (bindE m f)"
proof (rule keepsI)
  fix s r t assume run: "bindE m f s = (r, t)"
  obtain r' u where u: "m s = (r', u)" by (cases "m s")
  then have "v u = v s" using m by (auto dest: keepsD)
  moreover have "v t = v u"
    using run u by (cases r') (auto simp: bindE_def dest: keepsD [OF f])
  ultimately show "v t = v s" by simp
qed

lemma keeps_simple [simp]: "keeps v (returnE x)" "keeps v (failE e)" "keeps v (of_result r)"
  "keeps v (guardE c e)"
  by (auto intro!: keepsI simp: of_result_def guardE_def)

lemma keeps_liftE: "keeps v m \<Longrightarrow> keeps v (liftE m)"
  unfolding liftE_def by (rule keepsI) (auto dest: keepsD split: prod.splits)

lemma hoare_keeps:
  "keeps v m \<Longrightarrow> hoare (\<lambda>s. P (v s)) m (\<lambda>x s. P (v s)) (\<lambda>e s. P (v s))"
  by (rule hoareI) (auto dest: keepsD)

end
