(* ===== verification/Crc32.thy ===== *)
theory Crc32
  imports Prelude
begin

text \<open>
  \<open>clonecore::crc32\<close> (\<open>CloneCore/src/crc32.cpp\<close>): the reflected CRC-32 that protects the GPT
  header and the partition entry array.  Besides the definition the theory shows that one step of
  the register is injective, so that a buffer in which a single byte has changed never keeps its
  checksum.
\<close>

unbundle bit_operations_syntax

definition crc32_bit :: "u32 \<Rightarrow> u32" where
  "crc32_bit value = drop_bit 1 value XOR (0xEDB88320 AND (- (value AND 1)))"

definition crc32_byte :: "u32 \<Rightarrow> byte \<Rightarrow> u32" where
  "crc32_byte value b = (crc32_bit ^^ 8) (value XOR ucast b)"

definition crc32 :: "byte list \<Rightarrow> u32" where
  "crc32 bytes = foldl crc32_byte 0xFFFFFFFF bytes XOR 0xFFFFFFFF"

lemma xor_cancel_right: "(a :: 'a::len word) XOR c = b XOR c \<longleftrightarrow> a = b"
  by (auto simp: bit_eq_iff bit_xor_iff)

lemma xor_cancel_left: "(c :: 'a::len word) XOR a = c XOR b \<longleftrightarrow> a = b"
  by (auto simp: bit_eq_iff bit_xor_iff)

lemma crc32_bit_even: "\<not> bit value 0 \<Longrightarrow> crc32_bit value = drop_bit 1 value"
  by (simp add: crc32_bit_def even_iff_mod_2_eq_zero and_one_eq bit_0)

lemma crc32_bit_odd: "bit value 0 \<Longrightarrow> crc32_bit value = drop_bit 1 value XOR 0xEDB88320"
  by (simp add: crc32_bit_def and_one_eq bit_0 odd_iff_mod_2_eq_one)

lemma bit_crc32_bit_31: "bit (crc32_bit value) 31 = bit value 0"
  by (cases "bit value 0")
    (simp_all add: crc32_bit_even crc32_bit_odd bit_drop_bit_eq bit_xor_iff not_le impossible_bit)

lemma drop_bit_1_inj:
  fixes u v :: u32
  assumes "drop_bit 1 u = drop_bit 1 v" "bit u 0 = bit v 0"
  shows "u = v"
proof (rule bit_eqI)
  fix n
  have "bit (drop_bit 1 u) (n - 1) = bit (drop_bit 1 v) (n - 1)" using assms(1) by simp
  then show "bit u n = bit v n" using assms(2) by (cases n) (simp_all add: bit_drop_bit_eq)
qed

lemma crc32_bit_inj: "crc32_bit u = crc32_bit v \<Longrightarrow> u = v"
proof -
  assume eq: "crc32_bit u = crc32_bit v"
  then have b: "bit u 0 = bit v 0" using bit_crc32_bit_31 [of u] bit_crc32_bit_31 [of v] by simp
  have "drop_bit 1 u = drop_bit 1 v"
  proof (cases "bit u 0")
    case True
    with b eq have "drop_bit 1 u XOR 0xEDB88320 = drop_bit 1 v XOR 0xEDB88320"
      by (simp add: crc32_bit_odd)
    then show ?thesis by (simp add: xor_cancel_right)
  next
    case False
    with b eq show ?thesis by (simp add: crc32_bit_even)
  qed
  from this b show "u = v" by (rule drop_bit_1_inj)
qed

lemma crc32_bits_inj: "(crc32_bit ^^ n) u = (crc32_bit ^^ n) v \<Longrightarrow> u = v"
  by (induction n) (auto dest: crc32_bit_inj)

lemma crc32_byte_inj_state: "crc32_byte u b = crc32_byte v b \<Longrightarrow> u = v"
  unfolding crc32_byte_def by (drule crc32_bits_inj) (simp add: xor_cancel_right)

lemma crc32_byte_inj_byte: "crc32_byte u b = crc32_byte u c \<Longrightarrow> b = c"
proof -
  assume "crc32_byte u b = crc32_byte u c"
  then have "u XOR (ucast b :: u32) = u XOR ucast c"
    unfolding crc32_byte_def by (rule crc32_bits_inj)
  then have "(ucast b :: u32) = ucast c" by (simp add: xor_cancel_left)
  then have "unat (ucast b :: u32) = unat (ucast c :: u32)" by simp
  then show "b = c" by (simp add: word_unat_eq_iff)
qed

lemma crc32_state_inj: "foldl crc32_byte u bs = foldl crc32_byte v bs \<Longrightarrow> u = v"
  by (induction bs arbitrary: u v) (auto dest: crc32_byte_inj_state)

text \<open>Changing one byte of a buffer always changes its CRC-32.\<close>

theorem crc32_detects_byte_change:
  "b \<noteq> c \<Longrightarrow> crc32 (xs @ b # ys) \<noteq> crc32 (xs @ c # ys)"
proof
  assume neq: "b \<noteq> c" and "crc32 (xs @ b # ys) = crc32 (xs @ c # ys)"
  then have "foldl crc32_byte (foldl crc32_byte 0xFFFFFFFF xs) (b # ys) =
      foldl crc32_byte (foldl crc32_byte 0xFFFFFFFF xs) (c # ys)"
    by (simp add: crc32_def xor_cancel_right)
  then have "crc32_byte (foldl crc32_byte 0xFFFFFFFF xs) b =
      crc32_byte (foldl crc32_byte 0xFFFFFFFF xs) c"
    by (auto dest: crc32_state_inj)
  with neq show False by (auto dest: crc32_byte_inj_byte)
qed

lemma crc32_byte_unfold:
  "crc32_byte v b = crc32_bit (crc32_bit (crc32_bit (crc32_bit
     (crc32_bit (crc32_bit (crc32_bit (crc32_bit (v XOR ucast b))))))))"
  by (simp add: crc32_byte_def eval_nat_numeral)

text \<open>The published check value of the CRC: the checksum of the digits 1 to 9.\<close>

lemma crc32_check_value:
  "crc32 [0x31, 0x32, 0x33, 0x34, 0x35, 0x36, 0x37, 0x38, 0x39] = 0xCBF43926"
  by (simp add: crc32_def crc32_byte_unfold crc32_bit_def)

text \<open>One changed digit of that buffer changes its checksum.\<close>

theorem crc32_detects_byte_change_witness:
  "crc32 ([0x31, 0x32] @ 0x33 # [0x34]) \<noteq> crc32 ([0x31, 0x32] @ 0x34 # [0x34])"
  by (rule crc32_detects_byte_change) simp

end
