(* ===== verification/BlockDevice.thy ===== *)
theory BlockDevice
  imports Prelude
begin

unbundle bit_operations_syntax

text \<open>
  The interfaces of \<open>block_device.h\<close>: \<open>ISourceDiskReader\<close> and \<open>ITargetDiskWriter\<close> as records of
  programs over the state \<open>'s\<close> of the world, and \<open>ByteRange\<close>.  The locales state what the
  engines rely on: a source whose successful reads return the bytes of a fixed image, and a target
  whose writes stay inside the written range and whose read-back is honest.  A write is
  \<^emph>\<open>not\<close> assumed to take effect, not even when it reports success: the engines must find that out by
  reading back.
\<close>

section \<open>The interfaces\<close>

record byte_range =
  range_offset :: u64
  range_length :: u64

record 's source_reader =
  src_size_bytes :: u64
  src_logical_sector_size :: u32
  src_read :: "u64 \<Rightarrow> u64 \<Rightarrow> ('s, byte list) prog"

record 's target_writer =
  tgt_size_bytes :: u64
  tgt_logical_sector_size :: u32
  tgt_write :: "u64 \<Rightarrow> byte list \<Rightarrow> ('s, unit) prog"
  tgt_read_back :: "u64 \<Rightarrow> u64 \<Rightarrow> ('s, byte list) prog"
  tgt_flush :: "('s, unit) prog"

section \<open>Disk images\<close>

text \<open>The contents of a disk: the byte at every offset.\<close>

type_synonym image = "nat \<Rightarrow> byte"

definition img_bytes :: "image \<Rightarrow> nat \<Rightarrow> nat \<Rightarrow> byte list" where
  "img_bytes img off n = map img [off..<off + n]"

definition img_update :: "image \<Rightarrow> nat \<Rightarrow> byte list \<Rightarrow> image" where
  "img_update img off bs = (\<lambda>i. if off \<le> i \<and> i < off + length bs then bs ! (i - off) else img i)"

lemma length_img_bytes [simp]: "length (img_bytes img off n) = n"
  by (simp add: img_bytes_def)

lemma nth_img_bytes [simp]: "i < n \<Longrightarrow> img_bytes img off n ! i = img (off + i)"
  by (simp add: img_bytes_def)

lemma img_bytes_eq_iff:
  "img_bytes a off n = img_bytes b off n \<longleftrightarrow> (\<forall>i. off \<le> i \<and> i < off + n \<longrightarrow> a i = b i)"
  by (auto simp: img_bytes_def)

lemma img_bytes_eqI: "(\<And>i. off \<le> i \<Longrightarrow> i < off + n \<Longrightarrow> a i = b i) \<Longrightarrow>
  img_bytes a off n = img_bytes b off n"
  by (simp add: img_bytes_eq_iff)

lemma img_bytes_update_same [simp]: "n = length bs \<Longrightarrow> img_bytes (img_update img off bs) off n = bs"
  by (intro nth_equalityI) (auto simp: img_update_def)

lemma img_bytes_update_other:
  "off + n \<le> p \<or> p + length bs \<le> off \<Longrightarrow>
   img_bytes (img_update img p bs) off n = img_bytes img off n"
  by (rule img_bytes_eqI) (auto simp: img_update_def)

lemma img_bytes_slice: "a + m \<le> n \<Longrightarrow> slice (img_bytes img off n) a m = img_bytes img (off + a) m"
  by (rule nth_equalityI) (auto simp: add.assoc)

lemma img_bytes_nth_eq: "img_bytes img off n = bs \<Longrightarrow> off \<le> i \<Longrightarrow> i < off + n \<Longrightarrow> img i = bs ! (i - off)"
  by (metis nth_img_bytes le_add_diff_inverse nat_add_left_cancel_less)

text \<open>The writes of a plan applied to an image in order.\<close>

fun img_updates :: "image \<Rightarrow> (nat \<times> byte list) list \<Rightarrow> image" where
  "img_updates img [] = img"
| "img_updates img ((off, bs) # ws) = img_updates (img_update img off bs) ws"

lemma img_bytes_updates_other:
  "\<forall>(p, bs) \<in> set ws. off + n \<le> p \<or> p + length bs \<le> off \<Longrightarrow>
   img_bytes (img_updates img ws) off n = img_bytes img off n"
  by (induction img ws rule: img_updates.induct) (auto simp: img_bytes_update_other)

section \<open>A reader of a fixed image\<close>

text \<open>
  The in-memory source of the integration tests (\<open>MemorySourceReader\<close>): it answers every read inside
  its storage with the stored bytes and refuses the others.
\<close>

definition memory_source_reader :: "u64 \<Rightarrow> u32 \<Rightarrow> image \<Rightarrow> 's source_reader" where
  "memory_source_reader sz sector img =
     \<lparr>src_size_bytes = sz, src_logical_sector_size = sector,
      src_read = (\<lambda>offset length.
        if offset > sz \<or> length > sz - offset
        then failE (mk_error Io_failed ERROR_INVALID_DATA)
        else returnE (img_bytes img (unat offset) (unat length)))\<rparr>"

lemma memory_source_reader_sel [simp]:
  "src_size_bytes (memory_source_reader sz sector img) = sz"
  "src_logical_sector_size (memory_source_reader sz sector img) = sector"
  by (simp_all add: memory_source_reader_def)

lemma memory_source_read:
  "unat offset + unat len \<le> unat sz \<Longrightarrow>
   src_read (memory_source_reader sz sector img) offset len =
     returnE (img_bytes img (unat offset) (unat len))"
  by (auto simp: memory_source_reader_def word_less_nat_alt word_le_nat_alt unat_sub not_less)

lemma memory_source_read_success:
  "src_read (memory_source_reader sz sector img) offset len s = (Inr bs, t) \<Longrightarrow>
   bs = img_bytes img (unat offset) (unat len) \<and> t = s"
  by (auto simp: memory_source_reader_def split: if_splits)

section \<open>What the engines rely on\<close>

text \<open>
  \<open>source_image rd img\<close>: whatever a successful read of the requested length returns is what the
  disk holds.  Reads may fail, may be short, and may change the world (an error counter, a retry).
\<close>

locale source_image =
  fixes rd :: "'s source_reader" and img :: image
  assumes read_honest:
    "src_read rd off len s = (Inr bs, t) \<Longrightarrow> length bs = unat len \<Longrightarrow>
     bs = img_bytes img (unat off) (unat len)"

text \<open>
  \<open>target_image tg img\<close>: \<open>img s\<close> is what the target holds in the world state \<open>s\<close>.  Whether it
  succeeds or not, a write changes nothing outside its range; reading back and flushing change
  nothing, and a read-back of the requested length returns what the disk holds.
\<close>

locale target_image =
  fixes tg :: "'s target_writer" and img :: "'s \<Rightarrow> image"
  assumes write_frame:
    "tgt_write tg off bs s = (r, t) \<Longrightarrow> i < unat off \<or> unat off + length bs \<le> i \<Longrightarrow>
     img t i = img s i"
  and read_back_frame: "tgt_read_back tg off len s = (r', t) \<Longrightarrow> img t = img s"
  and read_back_honest:
    "tgt_read_back tg off len s = (Inr bs', t) \<Longrightarrow> length bs' = unat len \<Longrightarrow>
     bs' = img_bytes (img s) (unat off) (unat len)"
  and flush_frame: "tgt_flush tg s = (r'', t) \<Longrightarrow> img t = img s"

interpretation memory_source: source_image "memory_source_reader sz sector img" img
  by unfold_locales (auto dest: memory_source_read_success)

section \<open>A writer of an image\<close>

text \<open>
  The in-memory target of the integration tests (\<open>MemoryTargetWriter\<close>).  Its storage and counters
  are part of the world; \<open>corrupt\<close> is \<open>corrupt_read_back_at\<close>, 0 for a device that works.
\<close>

record memory_world =
  mw_storage :: image
  mw_last_write_offset :: u64
  mw_write_count :: u32
  mw_flush_count :: u32

definition memory_target_writer :: "u64 \<Rightarrow> u32 \<Rightarrow> u64 \<Rightarrow> 'a memory_world_scheme target_writer" where
  "memory_target_writer sz sector corrupt =
     \<lparr>tgt_size_bytes = sz, tgt_logical_sector_size = sector,
      tgt_write = (\<lambda>offset bytes s.
        if offset > sz \<or> of_nat (length bytes) > sz - offset
        then failE (mk_error Io_failed ERROR_INVALID_DATA) s
        else returnE () (s\<lparr>mw_storage := img_update (mw_storage s) (unat offset) bytes,
          mw_write_count := mw_write_count s + 1, mw_last_write_offset := offset\<rparr>)),
      tgt_read_back = (\<lambda>offset length s.
        if offset > sz \<or> length > sz - offset
        then failE (mk_error Io_failed ERROR_INVALID_DATA) s
        else
          let result = img_bytes (mw_storage s) (unat offset) (unat length);
              result = (if corrupt \<noteq> 0 \<and> offset \<ge> corrupt \<and> result \<noteq> []
                then result[0 := result ! 0 XOR 1] else result)
          in returnE result s),
      tgt_flush = (\<lambda>s. returnE () (s\<lparr>mw_flush_count := mw_flush_count s + 1\<rparr>))\<rparr>"

lemma memory_target_writer_sel [simp]:
  "tgt_size_bytes (memory_target_writer sz sector corrupt) = sz"
  "tgt_logical_sector_size (memory_target_writer sz sector corrupt) = sector"
  by (simp_all add: memory_target_writer_def)

interpretation memory_target: target_image "memory_target_writer sz sector 0" mw_storage
  by unfold_locales
    (auto simp: memory_target_writer_def img_update_def returnE_def failE_def split: if_splits)

end
