(* ===== verification/Gpt.thy ===== *)
theory Gpt
  imports BlockDevice Crc32
begin

text \<open>
  Reading a GUID partition table (\<open>CloneCore/src/gpt.cpp\<close>, first half): the header, the partition
  entry array and \<open>parse_gpt\<close>, which accepts a disk only when its primary and backup tables agree.
  A \<open>GptGuid\<close>, an array of 16 bytes, is a 128-bit word whose little-endian bytes are the array.
\<close>

section \<open>Data\<close>

type_synonym guid = "128 word"

record gpt_partition =
  entry_index :: u32
  type_guid :: guid
  unique_guid :: guid
  first_lba :: u64
  last_lba :: u64
  attributes :: u64
  partition_name :: "u16 list"

record gpt_disk =
  gpt_sector_size :: u32
  gpt_sector_count :: u64
  disk_guid :: guid
  first_usable_lba :: u64
  last_usable_lba :: u64
  partition_entry_count :: u32
  partition_entry_size :: u32
  gpt_partitions :: "gpt_partition list"

abbreviation (input) kMinimumHeaderSize :: u32 where "kMinimumHeaderSize \<equiv> 92"
abbreviation (input) kSupportedEntrySize :: u32 where "kSupportedEntrySize \<equiv> 128"
abbreviation (input) kMaximumEntryCount :: u32 where "kMaximumEntryCount \<equiv> 16384"

definition kGptSignature :: "byte list" where
  "kGptSignature = [0x45, 0x46, 0x49, 0x20, 0x50, 0x41, 0x52, 0x54]"

record parsed_header =
  ph_header_size :: u32
  ph_current_lba :: u64
  ph_backup_lba :: u64
  ph_first_usable_lba :: u64
  ph_last_usable_lba :: u64
  ph_disk_guid :: guid
  ph_entry_lba :: u64
  ph_entry_count :: u32
  ph_entry_size :: u32
  ph_entry_crc :: u32

definition guid_of_bytes :: "byte list \<Rightarrow> guid" where
  "guid_of_bytes bs = of_nat (le_nat bs)"

definition kEfiSystem :: guid where
  "kEfiSystem = guid_of_bytes [0x28, 0x73, 0x2A, 0xC1, 0x1F, 0xF8, 0xD2, 0x11,
     0xBA, 0x4B, 0x00, 0xA0, 0xC9, 0x3E, 0xC9, 0x3B]"

definition kMicrosoftReserved :: guid where
  "kMicrosoftReserved = guid_of_bytes [0x16, 0xE3, 0xC9, 0xE3, 0x5C, 0x0B, 0xB8, 0x4D,
     0x81, 0x7D, 0xF9, 0x2D, 0xF0, 0x02, 0x15, 0xAE]"

definition kBasicData :: guid where
  "kBasicData = guid_of_bytes [0xA2, 0xA0, 0xD0, 0xEB, 0xE5, 0xB9, 0x33, 0x44,
     0x87, 0xC0, 0x68, 0xB6, 0xB7, 0x26, 0x99, 0xC7]"

definition kWindowsRecovery :: guid where
  "kWindowsRecovery = guid_of_bytes [0xA4, 0xBB, 0x94, 0xDE, 0xD1, 0x06, 0x40, 0x4D,
     0xA1, 0x6A, 0xBF, 0xD5, 0x01, 0x79, 0xD6, 0xAC]"

definition guid_is_zero :: "guid \<Rightarrow> bool" where
  "guid_is_zero g \<longleftrightarrow> g = 0"

section \<open>Reading the header and the entry array\<close>

definition read_exact :: "'s source_reader \<Rightarrow> u64 \<Rightarrow> u64 \<Rightarrow> ('s, byte list) prog" where
  "read_exact reader offset len =
     bindE (src_read reader offset len) (\<lambda>data.
     if length data \<noteq> unat len then failE data_error else returnE data)"

text \<open>The checks of \<open>parse_header\<close> on the sector it has read, and the fields it extracts.\<close>

definition decode_header :: "byte list \<Rightarrow> u32 \<Rightarrow> parsed_header result" where
  "decode_header sector sector_size =
     (if slice sector 0 8 \<noteq> kGptSignature then Inl data_error
      else
        let revision = (read_little sector 8 :: u32);
            header_size = (read_little sector 12 :: u32)
        in
        if revision \<noteq> 0x00010000 \<or> header_size < kMinimumHeaderSize \<or> header_size > sector_size
        then Inl data_error
        else
          let stored_crc = (read_little sector 16 :: u32);
              crc_bytes = overwrite (take (unat header_size) sector) 16 (replicate 4 0)
          in
          if crc32 crc_bytes \<noteq> stored_crc then Inl data_error
          else if (read_little sector 20 :: u32) \<noteq> 0 then Inl data_error
          else Inr \<lparr>ph_header_size = header_size,
                    ph_current_lba = read_little sector 24,
                    ph_backup_lba = read_little sector 32,
                    ph_first_usable_lba = read_little sector 40,
                    ph_last_usable_lba = read_little sector 48,
                    ph_disk_guid = read_little sector 56,
                    ph_entry_lba = read_little sector 72,
                    ph_entry_count = read_little sector 80,
                    ph_entry_size = read_little sector 84,
                    ph_entry_crc = read_little sector 88\<rparr>)"

definition parse_header :: "'s source_reader \<Rightarrow> u64 \<Rightarrow> u32 \<Rightarrow> ('s, parsed_header) prog" where
  "parse_header reader lba sector_size =
     (case checked_multiply lba (ucast sector_size) of
        None \<Rightarrow> failE data_error
      | Some offset \<Rightarrow>
          bindE (read_exact reader offset (ucast sector_size)) (\<lambda>sector.
          of_result (decode_header sector sector_size)))"

text \<open>The comparison of the byte count with the largest \<open>size_t\<close> is vacuous on x64.\<close>

definition read_entry_array ::
  "'s source_reader \<Rightarrow> parsed_header \<Rightarrow> u32 \<Rightarrow> u64 \<Rightarrow> ('s, byte list) prog" where
  "read_entry_array reader header sector_size sector_count =
     (if ph_entry_count header = 0 \<or> ph_entry_count header > kMaximumEntryCount \<or>
         ph_entry_size header \<noteq> kSupportedEntrySize
      then failE unsupported_error
      else
        case checked_multiply (ucast (ph_entry_count header)) (ucast (ph_entry_size header)) of
          None \<Rightarrow> failE data_error
        | Some byte_count \<Rightarrow>
        (case checked_multiply (ph_entry_lba header) (ucast sector_size) of
          None \<Rightarrow> failE data_error
        | Some offset \<Rightarrow>
        (case checked_add offset byte_count of
          None \<Rightarrow> failE data_error
        | Some end_offset \<Rightarrow>
          if end_offset > src_size_bytes reader \<or> ph_entry_lba header \<ge> sector_count
          then failE data_error
          else
            bindE (read_exact reader offset byte_count) (\<lambda>result.
            if crc32 result \<noteq> ph_entry_crc header then failE data_error
            else returnE result))))"

text \<open>The name ends at the first NUL character.\<close>

definition read_partition_name :: "byte list \<Rightarrow> u16 list" where
  "read_partition_name entry =
     takeWhile (\<lambda>c. c \<noteq> 0) (map (\<lambda>k. read_little entry (56 + 2 * k)) [0..<36])"

definition decode_partition :: "u32 \<Rightarrow> byte list \<Rightarrow> gpt_partition" where
  "decode_partition index entry =
     \<lparr>entry_index = index,
      type_guid = read_little entry 0,
      unique_guid = read_little entry 16,
      first_lba = read_little entry 32,
      last_lba = read_little entry 40,
      attributes = read_little entry 48,
      partition_name = read_partition_name entry\<rparr>"

text \<open>The loop of \<open>parse_partitions\<close> over the entry indexes, with the set of GUIDs seen so far.\<close>

fun parse_entries ::
  "byte list \<Rightarrow> parsed_header \<Rightarrow> guid set \<Rightarrow> nat list \<Rightarrow> gpt_partition list result" where
  "parse_entries entries header seen [] = Inr []"
| "parse_entries entries header seen (index # rest) =
     (let entry = slice entries (index * unat (ph_entry_size header)) (unat (ph_entry_size header));
          partition = decode_partition (of_nat index) entry
      in
      if guid_is_zero (type_guid partition) then parse_entries entries header seen rest
      else if guid_is_zero (unique_guid partition) \<or> unique_guid partition \<in> seen
      then Inl data_error
      else if first_lba partition > last_lba partition \<or>
              first_lba partition < ph_first_usable_lba header \<or>
              last_lba partition > ph_last_usable_lba header
      then Inl data_error
      else
        case parse_entries entries header (insert (unique_guid partition) seen) rest of
          Inl e \<Rightarrow> Inl e
        | Inr ps \<Rightarrow> Inr (partition # ps))"

text \<open>
  The overlap check on the list sorted by first LBA.  \<open>std::sort\<close> leaves the order of equal keys
  open; partitions with equal first LBA overlap and are refused in either order.
\<close>

fun gpt_ordered :: "gpt_partition list \<Rightarrow> bool" where
  "gpt_ordered (p # q # ps) \<longleftrightarrow> \<not> last_lba p \<ge> first_lba q \<and> gpt_ordered (q # ps)"
| "gpt_ordered _ \<longleftrightarrow> True"

definition parse_partitions :: "byte list \<Rightarrow> parsed_header \<Rightarrow> gpt_partition list result" where
  "parse_partitions entries header =
     (case parse_entries entries header {} [0..<unat (ph_entry_count header)] of
        Inl e \<Rightarrow> Inl e
      | Inr partitions \<Rightarrow>
          if gpt_ordered (sort_key first_lba partitions) then Inr partitions
          else Inl data_error)"

section \<open>The whole table\<close>

text \<open>\<open>(entry_bytes + sector_size - 1) / sector_size\<close>, as the sources compute it in 64 bits.\<close>

definition entry_sectors :: "u32 \<Rightarrow> u32 \<Rightarrow> u32 \<Rightarrow> u64" where
  "entry_sectors entry_count entry_size sector_size =
     (ucast entry_count * ucast entry_size + (ucast sector_size - 1)) div ucast sector_size"

definition protective_mbr_ok :: "byte list \<Rightarrow> bool" where
  "protective_mbr_ok mbr \<longleftrightarrow>
     mbr ! 510 = 0x55 \<and> mbr ! 511 = 0xAA \<and> mbr ! (446 + 4) = 0xEE \<and>
     (read_little mbr (446 + 8) :: u32) = 1 \<and> (read_little mbr (446 + 12) :: u32) \<noteq> 0"

definition primary_header_ok :: "parsed_header \<Rightarrow> u64 \<Rightarrow> u64 \<Rightarrow> bool" where
  "primary_header_ok primary sectors sector_count \<longleftrightarrow>
     \<not> (ph_current_lba primary \<noteq> 1 \<or> ph_backup_lba primary \<noteq> sector_count - 1 \<or>
        ph_first_usable_lba primary > ph_last_usable_lba primary \<or>
        ph_last_usable_lba primary \<ge> ph_backup_lba primary \<or>
        guid_is_zero (ph_disk_guid primary) \<or> ph_entry_lba primary \<noteq> 2 \<or>
        ph_first_usable_lba primary < ph_entry_lba primary + sectors)"

definition headers_match :: "parsed_header \<Rightarrow> parsed_header \<Rightarrow> u64 \<Rightarrow> bool" where
  "headers_match primary backup sectors \<longleftrightarrow>
     ph_current_lba backup = ph_backup_lba primary \<and> ph_backup_lba backup = 1 \<and>
     ph_first_usable_lba backup = ph_first_usable_lba primary \<and>
     ph_last_usable_lba backup = ph_last_usable_lba primary \<and>
     ph_disk_guid backup = ph_disk_guid primary \<and>
     ph_entry_count backup = ph_entry_count primary \<and>
     ph_entry_size backup = ph_entry_size primary \<and>
     ph_entry_crc backup = ph_entry_crc primary \<and>
     ph_entry_lba backup = ph_backup_lba primary - sectors \<and>
     ph_last_usable_lba primary < ph_entry_lba backup"

definition parse_gpt :: "'s source_reader \<Rightarrow> ('s, gpt_disk) prog" where
  "parse_gpt reader =
     (let sector_size = src_logical_sector_size reader in
      if (sector_size \<noteq> 512 \<and> sector_size \<noteq> 4096) \<or>
         src_size_bytes reader < ucast sector_size * 68 \<or>
         src_size_bytes reader mod ucast sector_size \<noteq> 0
      then failE unsupported_error
      else
        let sector_count = src_size_bytes reader div ucast sector_size in
        bindE (read_exact reader 0 (ucast sector_size)) (\<lambda>mbr.
        if \<not> protective_mbr_ok mbr then failE data_error else
        bindE (parse_header reader 1 sector_size) (\<lambda>primary.
        if ph_entry_count primary = 0 \<or> ph_entry_count primary > kMaximumEntryCount \<or>
           ph_entry_size primary \<noteq> kSupportedEntrySize
        then failE unsupported_error
        else
          case checked_multiply (ucast (ph_entry_count primary)) (ucast (ph_entry_size primary)) of
            None \<Rightarrow> failE data_error
          | Some entry_bytes \<Rightarrow>
          (case checked_add entry_bytes (ucast (sector_size - 1)) of
            None \<Rightarrow> failE data_error
          | Some rounded_entry_bytes \<Rightarrow>
          let sectors = rounded_entry_bytes div ucast sector_size in
          if \<not> primary_header_ok primary sectors sector_count then failE data_error else
          bindE (read_entry_array reader primary sector_size sector_count) (\<lambda>primary_entries.
          bindE (parse_header reader (ph_backup_lba primary) sector_size) (\<lambda>backup.
          if \<not> headers_match primary backup sectors then failE data_error else
          bindE (read_entry_array reader backup sector_size sector_count) (\<lambda>backup_entries.
          if backup_entries \<noteq> primary_entries then failE data_error else
          bindE (of_result (parse_partitions primary_entries primary)) (\<lambda>partitions.
          returnE \<lparr>gpt_sector_size = sector_size,
                   gpt_sector_count = sector_count,
                   disk_guid = ph_disk_guid primary,
                   first_usable_lba = ph_first_usable_lba primary,
                   last_usable_lba = ph_last_usable_lba primary,
                   partition_entry_count = ph_entry_count primary,
                   partition_entry_size = ph_entry_size primary,
                   gpt_partitions = partitions\<rparr>))))))))"

section \<open>What an accepted table satisfies\<close>

text \<open>
  \<open>gpt_table_wf\<close>: a supported sector size, a disk whose size fits 64 bits, room for the header and the
  entry array at both ends, and partitions with distinct entries and distinct non-zero identifiers,
  inside the usable range and pairwise disjoint.  \<open>gpt_wf\<close>: moreover in the order of their entries.
\<close>

definition entry_span :: "gpt_disk \<Rightarrow> nat" where
  "entry_span d =
     (unat (partition_entry_count d) * 128 + (unat (gpt_sector_size d) - 1)) div unat (gpt_sector_size d)"

definition partition_wf :: "gpt_disk \<Rightarrow> gpt_partition \<Rightarrow> bool" where
  "partition_wf d p \<longleftrightarrow>
     entry_index p < partition_entry_count d \<and> type_guid p \<noteq> 0 \<and> unique_guid p \<noteq> 0 \<and>
     first_lba p \<le> last_lba p \<and> first_usable_lba d \<le> first_lba p \<and>
     last_lba p \<le> last_usable_lba d \<and>
     length (partition_name p) \<le> 36 \<and> 0 \<notin> set (partition_name p)"

definition lba_disjoint :: "gpt_partition \<Rightarrow> gpt_partition \<Rightarrow> bool" where
  "lba_disjoint p q \<longleftrightarrow> last_lba p < first_lba q \<or> last_lba q < first_lba p"

definition gpt_frame_wf :: "gpt_disk \<Rightarrow> bool" where
  "gpt_frame_wf d \<longleftrightarrow>
     (gpt_sector_size d = 512 \<or> gpt_sector_size d = 4096) \<and>
     68 \<le> unat (gpt_sector_count d) \<and>
     unat (gpt_sector_count d) * unat (gpt_sector_size d) < 2 ^ 64 \<and>
     disk_guid d \<noteq> 0 \<and> partition_entry_size d = 128 \<and>
     partition_entry_count d \<noteq> 0 \<and> partition_entry_count d \<le> kMaximumEntryCount \<and>
     2 + entry_span d \<le> unat (first_usable_lba d) \<and>
     first_usable_lba d \<le> last_usable_lba d \<and>
     unat (last_usable_lba d) + 1 + entry_span d < unat (gpt_sector_count d)"

definition gpt_table_wf :: "gpt_disk \<Rightarrow> bool" where
  "gpt_table_wf d \<longleftrightarrow>
     gpt_frame_wf d \<and> list_all (partition_wf d) (gpt_partitions d) \<and>
     distinct (map entry_index (gpt_partitions d)) \<and>
     distinct (map unique_guid (gpt_partitions d)) \<and>
     sorted_wrt lba_disjoint (gpt_partitions d)"

definition gpt_wf :: "gpt_disk \<Rightarrow> bool" where
  "gpt_wf d \<longleftrightarrow>
     gpt_table_wf d \<and> sorted_wrt (\<lambda>p q. entry_index p < entry_index q) (gpt_partitions d)"

lemma lba_disjoint_sym: "lba_disjoint p q \<Longrightarrow> lba_disjoint q p"
  by (auto simp: lba_disjoint_def)

lemma gpt_ordered_successively: "gpt_ordered ps \<longleftrightarrow> successively (\<lambda>p q. last_lba p < first_lba q) ps"
  by (induction ps rule: gpt_ordered.induct) (auto simp: not_le)

text \<open>The check on the sorted list is pairwise disjointness.\<close>

lemma gpt_ordered_sort_iff:
  assumes "\<forall>p \<in> set ps. first_lba p \<le> last_lba p"
  shows "gpt_ordered (sort_key first_lba ps) \<longleftrightarrow> sorted_wrt lba_disjoint ps"
  using successively_disjoint_iff [OF assms, of first_lba]
  by (simp add: gpt_ordered_successively lba_disjoint_def [abs_def])

definition entry_at :: "byte list \<Rightarrow> nat \<Rightarrow> nat \<Rightarrow> gpt_partition" where
  "entry_at entries esize i = decode_partition (of_nat i) (slice entries (i * esize) esize)"

definition entry_ok :: "parsed_header \<Rightarrow> gpt_partition \<Rightarrow> bool" where
  "entry_ok h p \<longleftrightarrow> unique_guid p \<noteq> 0 \<and> first_lba p \<le> last_lba p \<and>
     ph_first_usable_lba h \<le> first_lba p \<and> last_lba p \<le> ph_last_usable_lba h"

lemma parse_entries_Cons:
  "parse_entries entries h seen (i # idxs) =
     (let p = entry_at entries (unat (ph_entry_size h)) i in
      if type_guid p = 0 then parse_entries entries h seen idxs
      else if \<not> (unique_guid p \<notin> seen \<and> entry_ok h p) then Inl data_error
      else case parse_entries entries h (insert (unique_guid p) seen) idxs of
          Inl e \<Rightarrow> Inl e | Inr ps \<Rightarrow> Inr (p # ps))"
  by (simp only: parse_entries.simps Let_def entry_at_def [symmetric] guid_is_zero_def entry_ok_def)
    (auto simp: not_less)

declare parse_entries.simps(2) [simp del]

text \<open>
  The loop accepts exactly when the used entries are valid and their GUIDs distinct, and then
  returns them in order.
\<close>

lemma parse_entries_iff:
  "parse_entries entries h seen idxs = Inr ps \<longleftrightarrow>
     ps = filter (\<lambda>p. type_guid p \<noteq> 0) (map (entry_at entries (unat (ph_entry_size h))) idxs) \<and>
     (\<forall>p \<in> set ps. entry_ok h p \<and> unique_guid p \<notin> seen) \<and> distinct (map unique_guid ps)"
proof (induction idxs arbitrary: seen ps)
  case Nil
  then show ?case by auto
next
  case (Cons i idxs)
  define p where "p = entry_at entries (unat (ph_entry_size h)) i"
  define Q where
    "Q = filter (\<lambda>p. type_guid p \<noteq> 0) (map (entry_at entries (unat (ph_entry_size h))) idxs)"
  have tl: "filter (\<lambda>p. type_guid p \<noteq> 0) (map (entry_at entries (unat (ph_entry_size h))) (i # idxs)) =
      (if type_guid p = 0 then Q else p # Q)"
    by (simp add: p_def Q_def)
  have case_eq: "(case r of Inl e \<Rightarrow> Inl e | Inr qs \<Rightarrow> Inr (p # qs)) = Inr ps \<longleftrightarrow>
      (\<exists>qs. r = Inr qs \<and> ps = p # qs)" for r :: "gpt_partition list result"
    by (cases r) auto
  have case_if: "(if \<not> c then Inl data_error else r) = Inr ps \<longleftrightarrow> r = Inr ps \<and> c"
    for c and r :: "gpt_partition list result" by simp
  show ?case
  proof (cases "type_guid p = 0")
    case True
    then show ?thesis
      by (simp add: parse_entries_Cons p_def [symmetric] Let_def tl Cons.IH Q_def)
  next
    case False
    then show ?thesis
      unfolding tl parse_entries_Cons p_def [symmetric] Let_def
      by (simp only: if_False case_eq case_if Cons.IH Q_def [symmetric] fresh_cons_iff)
  qed
qed

lemma read_partition_name_wf:
  "length (read_partition_name e) \<le> 36" "0 \<notin> set (read_partition_name e)"
  using length_takeWhile_le [of "\<lambda>c. c \<noteq> 0" "map (\<lambda>k. read_little e (56 + 2 * k) :: u16) [0..<36]"]
  by (auto simp: read_partition_name_def dest: set_takeWhileD)

lemma entry_at_sel [simp]:
  "entry_index (entry_at es n i) = of_nat i"
  "partition_name (entry_at es n i) = read_partition_name (slice es (i * n) n)"
  by (simp_all add: entry_at_def decode_partition_def)

lemma parse_partitions_wf:
  assumes "parse_partitions entries h = Inr ps" "unat (ph_entry_count h) \<le> 16384"
  shows "sorted_wrt (\<lambda>p q. entry_index p < entry_index q) ps"
    "distinct (map unique_guid ps)" "sorted_wrt lba_disjoint ps"
    "\<forall>p \<in> set ps. entry_index p < ph_entry_count h \<and> type_guid p \<noteq> 0 \<and> unique_guid p \<noteq> 0 \<and>
       first_lba p \<le> last_lba p \<and> ph_first_usable_lba h \<le> first_lba p \<and>
       last_lba p \<le> ph_last_usable_lba h \<and>
       length (partition_name p) \<le> 36 \<and> 0 \<notin> set (partition_name p)"
proof -
  let ?n = "unat (ph_entry_count h)"
  from assms(1) have pe: "parse_entries entries h {} [0..<?n] = Inr ps"
    and ord: "gpt_ordered (sort_key first_lba ps)"
    by (auto simp: parse_partitions_def split: sum.splits if_splits)
  note pe' = pe [unfolded parse_entries_iff]
  then show "distinct (map unique_guid ps)" by blast
  from pe' ord show "sorted_wrt lba_disjoint ps" by (simp add: gpt_ordered_sort_iff entry_ok_def)
  have "sorted_wrt (\<lambda>p q. entry_index p < entry_index q)
      (map (entry_at entries (unat (ph_entry_size h))) [0..<?n])"
    using assms(2)
    by (intro sorted_wrt_mapI [OF sorted_wrt_upt])
      (auto simp: word_less_nat_alt unat_of_nat_u32)
  with pe' show "sorted_wrt (\<lambda>p q. entry_index p < entry_index q) ps"
    by (simp add: sorted_wrt_filter)
  have "entry_index p < ph_entry_count h" if "p \<in> set ps" for p
    using pe' that assms(2) by (auto simp: word_less_nat_alt unat_of_nat_u32)
  moreover have "length (partition_name p) \<le> 36 \<and> 0 \<notin> set (partition_name p)" if "p \<in> set ps" for p
    using pe' that by (auto simp: read_partition_name_wf)
  ultimately show "\<forall>p \<in> set ps. entry_index p < ph_entry_count h \<and> type_guid p \<noteq> 0 \<and>
       unique_guid p \<noteq> 0 \<and>
       first_lba p \<le> last_lba p \<and> ph_first_usable_lba h \<le> first_lba p \<and>
       last_lba p \<le> ph_last_usable_lba h \<and>
       length (partition_name p) \<le> 36 \<and> 0 \<notin> set (partition_name p)"
    using pe' by (auto simp: entry_ok_def)
qed

lemma entry_span_word:
  fixes sz c :: u32
  assumes "sz = 512 \<or> sz = 4096" "unat n = unat c * 128" "checked_add n (ucast (sz - 1)) = Some r"
  shows "unat (r div ucast sz) = (unat c * 128 + (unat sz - 1)) div unat sz"
proof -
  have "unat (ucast (sz - 1) :: u64) = unat sz - 1"
    using assms(1) by (auto simp: unsigned_ucast_eq take_bit_nat_eq_self_iff)
  then show ?thesis using checked_add_SomeD(1) [OF assms(3)] assms(2) by (simp add: unat_div)
qed

lemma parse_gptE:
  assumes "parse_gpt rd s = (Inr d, t)"
  obtains mbr primary n r entries backup ps
  where "src_logical_sector_size rd = 512 \<or> src_logical_sector_size rd = 4096"
    "ucast (src_logical_sector_size rd) * 68 \<le> src_size_bytes rd"
    "src_size_bytes rd mod ucast (src_logical_sector_size rd) = 0"
    "ph_entry_count primary \<noteq> 0" "ph_entry_count primary \<le> kMaximumEntryCount"
    "ph_entry_size primary = kSupportedEntrySize"
    "checked_multiply (ucast (ph_entry_count primary)) (ucast (ph_entry_size primary)) = Some n"
    "checked_add n (ucast (src_logical_sector_size rd - 1)) = Some r"
    "primary_header_ok primary (r div ucast (src_logical_sector_size rd))
       (src_size_bytes rd div ucast (src_logical_sector_size rd))"
    "headers_match primary backup (r div ucast (src_logical_sector_size rd))"
    "parse_partitions entries primary = Inr ps"
    "d = \<lparr>gpt_sector_size = src_logical_sector_size rd,
          gpt_sector_count = src_size_bytes rd div ucast (src_logical_sector_size rd),
          disk_guid = ph_disk_guid primary,
          first_usable_lba = ph_first_usable_lba primary,
          last_usable_lba = ph_last_usable_lba primary,
          partition_entry_count = ph_entry_count primary,
          partition_entry_size = ph_entry_size primary,
          gpt_partitions = ps\<rparr>"
  using assms
  by (auto simp: parse_gpt_def Let_def prog_simps not_less split: if_splits option.splits)

lemma parse_gpt_frame:
  assumes "parse_gpt rd s = (Inr d, t)"
  shows "gpt_sector_size d = src_logical_sector_size rd"
    "unat (gpt_sector_count d) * unat (gpt_sector_size d) = unat (src_size_bytes rd)"
    "gpt_frame_wf d"
    "\<exists>es h. parse_partitions es h = Inr (gpt_partitions d) \<and>
       ph_entry_count h = partition_entry_count d \<and> ph_first_usable_lba h = first_usable_lba d \<and>
       ph_last_usable_lba h = last_usable_lba d"
proof -
  let ?sz = "src_logical_sector_size rd" and ?size = "src_size_bytes rd"
  let ?usz = "ucast ?sz :: u64"
  obtain primary n r entries backup ps where
    sz: "?sz = 512 \<or> ?sz = 4096" and big: "?usz * 68 \<le> ?size" and al: "?size mod ?usz = 0" and
    c: "ph_entry_count primary \<noteq> 0" "ph_entry_count primary \<le> kMaximumEntryCount"
      "ph_entry_size primary = kSupportedEntrySize" and
    n: "checked_multiply (ucast (ph_entry_count primary)) (ucast (ph_entry_size primary)) = Some n" and
    r: "checked_add n (ucast (?sz - 1)) = Some r" and
    ok: "primary_header_ok primary (r div ?usz) (?size div ?usz)" and
    hm: "headers_match primary backup (r div ?usz)" and
    pp: "parse_partitions entries primary = Inr ps" and
    d: "d = \<lparr>gpt_sector_size = ?sz, gpt_sector_count = ?size div ?usz,
      disk_guid = ph_disk_guid primary, first_usable_lba = ph_first_usable_lba primary,
      last_usable_lba = ph_last_usable_lba primary, partition_entry_count = ph_entry_count primary,
      partition_entry_size = ph_entry_size primary, gpt_partitions = ps\<rparr>"
    by (rule parse_gptE [OF assms]) (rule that; assumption)
  show szd: "gpt_sector_size d = ?sz" by (simp add: d)
  have mul: "unat (?size div ?usz) * unat ?sz = unat ?size"
  proof -
    have "unat ?size mod unat ?sz = 0"
      using arg_cong [OF al, of unat] by (simp add: unat_mod)
    then show ?thesis
      using div_mult_mod_eq [of "unat ?size" "unat ?sz"] by (simp add: unat_div)
  qed
  then show "unat (gpt_sector_count d) * unat (gpt_sector_size d) = unat ?size"
    by (simp add: d)
  have sixty: "68 \<le> unat (?size div ?usz)"
    using sz big by (auto simp: unat_div word_le_nat_alt)
  have span: "unat (r div ?usz) = entry_span d"
    using entry_span_word [OF sz _ r, of "ph_entry_count primary"] checked_multiply_SomeD(1) [OF n] c
    by (simp add: entry_span_def d)
  define es where "es = r div ?usz"
  define cnt where "cnt = ?size div ?usz"
  have ok': "ph_first_usable_lba primary \<le> ph_last_usable_lba primary"
    "ph_last_usable_lba primary < cnt - 1" "2 + es \<le> ph_first_usable_lba primary"
    "ph_disk_guid primary \<noteq> 0" "ph_backup_lba primary = cnt - 1"
    using ok by (simp_all add: primary_header_ok_def guid_is_zero_def es_def cnt_def not_less not_le)
  note hm' = hm [unfolded headers_match_def, folded es_def]
  have es_small: "unat es < 5000"
    using span c(2) sz by (auto simp: es_def entry_span_def d word_le_nat_alt)
  have cnt1: "unat (cnt - 1) = unat cnt - 1"
    using sixty by (simp add: cnt_def unat_sub word_le_nat_alt)
  have two: "unat (2 + es) = 2 + unat es"
    using es_small by (simp add: unat_word_ariths)
  have first: "2 + unat es \<le> unat (ph_first_usable_lba primary)"
    using ok'(3) two by (simp add: word_le_nat_alt)
  have last: "unat (ph_first_usable_lba primary) \<le> unat (ph_last_usable_lba primary)"
    "unat (ph_last_usable_lba primary) < unat cnt - 1"
    using ok'(1,2) cnt1 by (simp_all add: word_le_nat_alt word_less_nat_alt)
  have le: "es \<le> cnt - 1" using first last cnt1 by (simp add: word_le_nat_alt)
  have "ph_last_usable_lba primary < cnt - 1 - es"
    using hm' ok'(5) by (elim conjE) simp
  then have "unat (ph_last_usable_lba primary) < unat (cnt - 1 - es)"
    by (simp add: word_less_nat_alt)
  then have "unat (ph_last_usable_lba primary) + 1 + unat es < unat cnt"
    using le cnt1 by (simp add: unat_sub word_le_nat_alt)
  then show "gpt_frame_wf d"
    using sz sixty mul c ok'(1,4) first span unat_u64_bound [of ?size]
    by (simp add: gpt_frame_wf_def d es_def cnt_def)
  show "\<exists>es h. parse_partitions es h = Inr (gpt_partitions d) \<and>
       ph_entry_count h = partition_entry_count d \<and> ph_first_usable_lba h = first_usable_lba d \<and>
       ph_last_usable_lba h = last_usable_lba d"
    using pp by (auto simp: d)
qed

lemma parse_gpt_result_wf:
  assumes "parse_gpt rd s = (Inr d, t)"
  shows "gpt_wf d \<and> gpt_sector_size d = src_logical_sector_size rd \<and>
    unat (gpt_sector_count d) * unat (gpt_sector_size d) = unat (src_size_bytes rd)"
proof -
  note fr = parse_gpt_frame [OF assms]
  from fr(4) obtain es h where p: "parse_partitions es h = Inr (gpt_partitions d)"
    and h: "ph_entry_count h = partition_entry_count d" "ph_first_usable_lba h = first_usable_lba d"
      "ph_last_usable_lba h = last_usable_lba d" by blast
  have "unat (ph_entry_count h) \<le> 16384"
    using fr(3) h(1) by (simp add: gpt_frame_wf_def word_le_nat_alt)
  from parse_partitions_wf [OF p this] show ?thesis
    using fr h
    by (auto simp: gpt_wf_def gpt_table_wf_def list_all_iff partition_wf_def strictly_sorted_distinct)
qed

end
