(* ===== verification/GptPlan.thy ===== *)
theory GptPlan
  imports Gpt
begin

text \<open>
  Writing a GUID partition table (\<open>CloneCore/src/gpt.cpp\<close>, second half): the entry array, the
  headers and the protective MBR, \<open>make_gpt_write_plan\<close> (a fresh table for the target of a clone)
  and \<open>make_gpt_add_partition_plan\<close> (one more entry in an existing table), and the proof that
  \<open>parse_gpt\<close> reads back exactly the table that a plan has written.
\<close>

section \<open>Data\<close>

datatype gpt_metadata_kind =
  Protective_mbr | Primary_entries | Backup_entries | Backup_header | Primary_header_commit

record gpt_metadata_write =
  gw_kind :: gpt_metadata_kind
  gw_offset :: u64
  gw_bytes :: "byte list"

record gpt_write_plan =
  gwp_target_disk :: gpt_disk
  gwp_writes :: "gpt_metadata_write list"

record gpt_add_partition_request =
  req_first_lba :: u64
  req_sector_count :: u64
  req_type_guid :: guid
  req_attributes :: u64
  req_name :: "u16 list"

section \<open>Serialisation\<close>

fun write_name :: "byte list \<Rightarrow> nat \<Rightarrow> u16 list \<Rightarrow> byte list" where
  "write_name entry k [] = entry"
| "write_name entry k (c # cs) = write_name (write_little entry (56 + k * 2) c) (Suc k) cs"

definition fill_entry :: "gpt_partition \<Rightarrow> byte list \<Rightarrow> byte list" where
  "fill_entry p entry =
     (let e = write_little entry 0 (type_guid p);
          e = write_little e 16 (unique_guid p);
          e = write_little e 32 (first_lba p);
          e = write_little e 40 (last_lba p);
          e = write_little e 48 (attributes p)
      in write_name e 0 (take (min 36 (length (partition_name p))) (partition_name p)))"

text \<open>\<open>entry\<close> is a view into \<open>entries\<close>: the entry is edited in place.\<close>

definition put_entry :: "nat \<Rightarrow> byte list \<Rightarrow> gpt_partition \<Rightarrow> byte list" where
  "put_entry esize entries p =
     (let offset = unat (entry_index p) * esize
      in overwrite entries offset (fill_entry p (slice entries offset esize)))"

definition build_entry_array :: "gpt_disk \<Rightarrow> byte list" where
  "build_entry_array d =
     foldl (put_entry (unat (partition_entry_size d)))
       (replicate (unat (partition_entry_count d) * unat (partition_entry_size d)) 0)
       (gpt_partitions d)"

definition build_header :: "gpt_disk \<Rightarrow> u64 \<Rightarrow> u64 \<Rightarrow> u64 \<Rightarrow> u32 \<Rightarrow> byte list" where
  "build_header d current_lba backup_lba entry_lba entry_crc =
     (let b = replicate (unat (gpt_sector_size d)) 0;
          b = overwrite b 0 kGptSignature;
          b = write_little b 8 (0x00010000 :: u32);
          b = write_little b 12 kMinimumHeaderSize;
          b = write_little b 16 (0 :: u32);
          b = write_little b 20 (0 :: u32);
          b = write_little b 24 current_lba;
          b = write_little b 32 backup_lba;
          b = write_little b 40 (first_usable_lba d);
          b = write_little b 48 (last_usable_lba d);
          b = write_little b 56 (disk_guid d);
          b = write_little b 72 entry_lba;
          b = write_little b 80 (partition_entry_count d);
          b = write_little b 84 (partition_entry_size d);
          b = write_little b 88 entry_crc;
          header_crc = crc32 (take 92 b)
      in write_little b 16 header_crc)"

definition build_protective_mbr :: "gpt_disk \<Rightarrow> byte list" where
  "build_protective_mbr d =
     (let b = replicate (unat (gpt_sector_size d)) 0;
          b = overwrite b (446 + 4) [0xEE];
          b = write_little b (446 + 8) (1 :: u32);
          protected_sectors = gpt_sector_count d - 1;
          b = write_little b (446 + 12) (ucast (min protected_sectors (0xFFFFFFFF :: u64)) :: u32);
          b = overwrite b 510 [0x55]
      in overwrite b 511 [0xAA])"

text \<open>The entry array padded with zeros to whole sectors.\<close>

definition pad_entries :: "u64 \<Rightarrow> u32 \<Rightarrow> byte list \<Rightarrow> byte list" where
  "pad_entries sectors sector_size entries =
     overwrite (replicate (unat (sectors * ucast sector_size)) 0) 0 entries"

section \<open>A fresh table for a clone target\<close>

text \<open>
  Every partition gets a new GUID; the set holds the GUIDs handed out so far, the disk GUID
  included.
\<close>

fun assign_partition_guids ::
  "('s, guid) prog \<Rightarrow> guid set \<Rightarrow> gpt_partition list \<Rightarrow> ('s, gpt_partition list) prog" where
  "assign_partition_guids next_guid generated [] = returnE []"
| "assign_partition_guids next_guid generated (p # ps) =
     bindE next_guid (\<lambda>g.
     if guid_is_zero g \<or> g \<in> generated then failE data_error else
     bindE (assign_partition_guids next_guid (insert g generated) ps) (\<lambda>qs.
     returnE (p\<lparr>unique_guid := g\<rparr> # qs)))"

definition gpt_write_list :: "gpt_disk \<Rightarrow> u64 \<Rightarrow> gpt_metadata_write list" where
  "gpt_write_list target sectors =
     (let sector_size = gpt_sector_size target;
          backup_entry_lba = gpt_sector_count target - 1 - sectors;
          entries = build_entry_array target;
          entry_crc = crc32 entries;
          primary_header = build_header target 1 (gpt_sector_count target - 1) 2 entry_crc;
          backup_header =
            build_header target (gpt_sector_count target - 1) 1 backup_entry_lba entry_crc;
          padded_entries = pad_entries sectors sector_size entries
      in
      [\<lparr>gw_kind = Primary_entries, gw_offset = ucast sector_size * 2, gw_bytes = padded_entries\<rparr>,
       \<lparr>gw_kind = Backup_entries, gw_offset = backup_entry_lba * ucast sector_size,
        gw_bytes = padded_entries\<rparr>,
       \<lparr>gw_kind = Backup_header, gw_offset = (gpt_sector_count target - 1) * ucast sector_size,
        gw_bytes = backup_header\<rparr>,
       \<lparr>gw_kind = Protective_mbr, gw_offset = 0, gw_bytes = build_protective_mbr target\<rparr>,
       \<lparr>gw_kind = Primary_header_commit, gw_offset = ucast sector_size,
        gw_bytes = primary_header\<rparr>])"

definition make_gpt_write_plan ::
  "gpt_disk \<Rightarrow> u64 \<Rightarrow> u32 \<Rightarrow> ('s, guid) prog \<Rightarrow> ('s, gpt_write_plan) prog" where
  "make_gpt_write_plan source target_size_bytes target_sector_size next_guid =
     (if (target_sector_size \<noteq> 512 \<and> target_sector_size \<noteq> 4096) \<or>
         target_sector_size \<noteq> gpt_sector_size source \<or>
         target_size_bytes mod ucast target_sector_size \<noteq> 0 \<or>
         partition_entry_size source \<noteq> kSupportedEntrySize \<or>
         partition_entry_count source = 0 \<or>
         partition_entry_count source > kMaximumEntryCount
      then failE unsupported_error
      else
        case checked_multiply (gpt_sector_count source) (ucast (gpt_sector_size source)) of
          None \<Rightarrow> failE unsupported_error
        | Some source_size_bytes \<Rightarrow>
          if target_size_bytes < source_size_bytes then failE unsupported_error
          else
            let sector_count = target_size_bytes div ucast target_sector_size;
                sectors = (ucast (partition_entry_count source) * ucast (partition_entry_size source)
                  + ucast target_sector_size - 1) div ucast target_sector_size
            in
            if sector_count \<le> 3 + sectors * 2 then failE data_error
            else
              let backup_entry_lba = sector_count - 1 - sectors;
                  target = source\<lparr>gpt_sector_count := sector_count,
                    first_usable_lba := max (first_usable_lba source) (2 + sectors),
                    last_usable_lba := backup_entry_lba - 1\<rparr>
              in
              if list_ex (\<lambda>p. first_lba p < first_usable_lba target \<or>
                   last_lba p > last_usable_lba target) (gpt_partitions target)
              then failE data_error
              else
                bindE next_guid (\<lambda>dg.
                if guid_is_zero dg then failE data_error else
                bindE (assign_partition_guids next_guid {dg} (gpt_partitions target)) (\<lambda>ps.
                let target = target\<lparr>disk_guid := dg, gpt_partitions := ps\<rparr> in
                returnE \<lparr>gwp_target_disk = target, gwp_writes = gpt_write_list target sectors\<rparr>)))"

section \<open>One more partition in an existing table\<close>

text \<open>The loop that re-checks the existing entries and collects what is in use.\<close>

fun check_existing ::
  "gpt_disk \<Rightarrow> u64 \<Rightarrow> u64 \<Rightarrow> u32 set \<Rightarrow> guid set \<Rightarrow> gpt_partition list \<Rightarrow> (u32 set \<times> guid set) result"
where
  "check_existing current req_first requested_end used_entries used_guids [] =
     Inr (used_entries, used_guids)"
| "check_existing current req_first requested_end used_entries used_guids (p # ps) =
     (if entry_index p \<ge> partition_entry_count current \<or> entry_index p \<in> used_entries \<or>
         guid_is_zero (unique_guid p) \<or> unique_guid p \<in> used_guids \<or>
         first_lba p > last_lba p \<or> first_lba p < first_usable_lba current \<or>
         last_lba p > last_usable_lba current \<or>
         (req_first \<le> last_lba p \<and> first_lba p \<le> requested_end)
      then Inl data_error
      else check_existing current req_first requested_end
        (insert (entry_index p) used_entries) (insert (unique_guid p) used_guids) ps)"

text \<open>At most the given number of draws; 0 when none of them was usable.\<close>

fun draw_fresh_guid :: "nat \<Rightarrow> ('s, guid) prog \<Rightarrow> guid set \<Rightarrow> ('s, guid) prog" where
  "draw_fresh_guid 0 next_guid used = returnE 0"
| "draw_fresh_guid (Suc attempts) next_guid used =
     bindE next_guid (\<lambda>g.
     if \<not> guid_is_zero g \<and> g \<notin> used then returnE g
     else draw_fresh_guid attempts next_guid used)"

definition make_gpt_add_partition_plan ::
  "gpt_disk \<Rightarrow> gpt_add_partition_request \<Rightarrow> ('s, guid) prog \<Rightarrow> ('s, gpt_write_plan) prog" where
  "make_gpt_add_partition_plan current request next_guid =
     (if (gpt_sector_size current \<noteq> 512 \<and> gpt_sector_size current \<noteq> 4096) \<or>
         gpt_sector_count current = 0 \<or> guid_is_zero (disk_guid current) \<or>
         partition_entry_size current \<noteq> kSupportedEntrySize \<or>
         partition_entry_count current = 0 \<or>
         partition_entry_count current > kMaximumEntryCount \<or>
         req_sector_count request = 0 \<or> guid_is_zero (req_type_guid request) \<or>
         length (req_name request) > 36
      then failE unsupported_error
      else
        case checked_add (req_first_lba request) (req_sector_count request - 1) of
          None \<Rightarrow> failE data_error
        | Some requested_end \<Rightarrow>
          if req_first_lba request < first_usable_lba current \<or>
             requested_end > last_usable_lba current
          then failE data_error
          else
            bindE (of_result (check_existing current (req_first_lba request) requested_end
              {} {disk_guid current} (gpt_partitions current))) (\<lambda>(used_entries, used_guids).
            case find (\<lambda>i. i \<notin> used_entries)
                (map of_nat [0..<unat (partition_entry_count current)]) of
              None \<Rightarrow> failE unsupported_error
            | Some free_entry \<Rightarrow>
              bindE (draw_fresh_guid 32 next_guid used_guids) (\<lambda>new_guid.
              if guid_is_zero new_guid then failE data_error
              else
                let target = current\<lparr>gpt_partitions := gpt_partitions current @
                      [\<lparr>entry_index = free_entry, type_guid = req_type_guid request,
                        unique_guid = new_guid, first_lba = req_first_lba request,
                        last_lba = requested_end, attributes = req_attributes request,
                        partition_name = req_name request\<rparr>]\<rparr>;
                    sectors = (ucast (partition_entry_count target) *
                        ucast (partition_entry_size target)
                      + ucast (gpt_sector_size target) - 1) div ucast (gpt_sector_size target)
                in
                if gpt_sector_count target \<le> 2 + sectors \<or>
                   last_usable_lba target \<ge> gpt_sector_count target - 1 - sectors
                then failE data_error
                else returnE \<lparr>gwp_target_disk = target,
                  gwp_writes = filter (\<lambda>w. gw_kind w \<noteq> Protective_mbr)
                    (gpt_write_list target sectors)\<rparr>)))"

section \<open>Reading back what was written\<close>

subsection \<open>Entries\<close>

lemma length_write_name [simp]: "length (write_name e k cs) = length e"
  by (induction e k cs rule: write_name.induct) auto

lemma read_write_name_before:
  "p + LENGTH('a) div 8 \<le> 56 + 2 * k \<Longrightarrow> 56 + 2 * (k + length cs) \<le> length e \<Longrightarrow>
   (read_little (write_name e k cs) p :: 'a::len word) = read_little e p"
  by (induction e k cs rule: write_name.induct) (auto simp: read_write_little_other)

lemma read_write_name:
  "56 + 2 * (k + length cs) \<le> length e \<Longrightarrow> k \<le> j \<Longrightarrow> 56 + 2 * j + 2 \<le> length e \<Longrightarrow>
   (read_little (write_name e k cs) (56 + 2 * j) :: u16) =
     (if j < k + length cs then cs ! (j - k) else read_little e (56 + 2 * j))"
proof (induction e k cs rule: write_name.induct)
  case (2 e k c cs)
  show ?case
  proof (cases "j = k")
    case True
    with 2 show ?thesis
      by (simp add: read_write_name_before read_write_little_same mult.commute)
  next
    case False
    with 2 show ?thesis
      by (auto simp: read_write_little_other mult.commute nth_Cons')
  qed
qed auto

lemma length_fill_entry [simp]: "length (fill_entry p e) = length e"
  by (simp add: fill_entry_def Let_def)

lemma read_fill_entry:
  assumes "length e = 128" "off + LENGTH('a) div 8 \<le> 56"
  shows "(read_little (fill_entry p e) off :: 'a::len word) =
    read_little (write_little (write_little (write_little (write_little (write_little e
      0 (type_guid p)) 16 (unique_guid p)) 32 (first_lba p)) 40 (last_lba p)) 48 (attributes p)) off"
  using assms by (simp add: fill_entry_def Let_def read_write_name_before)

lemma takeWhile_name:
  assumes "0 \<notin> set cs" "length cs \<le> n"
  shows "takeWhile (\<lambda>c. c \<noteq> (0 :: u16)) (map (\<lambda>j. if j < length cs then cs ! j else 0) [0..<n]) = cs"
proof -
  have "map (\<lambda>j. if j < length cs then cs ! j else 0) [0..<n] = cs @ replicate (n - length cs) 0"
    using assms(2) by (intro nth_equalityI) (auto simp: nth_append)
  then show ?thesis
    using assms(1) by (cases "n - length cs") (auto simp: takeWhile_append takeWhile_eq_all_conv)
qed

lemma read_partition_name_fill:
  assumes "length e = 128" "length (partition_name p) \<le> 36" "0 \<notin> set (partition_name p)"
    "\<forall>j < 36. (read_little e (56 + 2 * j) :: u16) = 0"
  shows "read_partition_name (fill_entry p e) = partition_name p"
proof -
  have "(read_little (fill_entry p e) (56 + 2 * j) :: u16) =
      (if j < length (partition_name p) then partition_name p ! j else 0)" if "j < 36" for j
    using assms that
    by (simp add: fill_entry_def Let_def read_write_name read_write_little_other)
  then have "map (\<lambda>j. read_little (fill_entry p e) (56 + 2 * j)) [0..<36] =
      map (\<lambda>j. if j < length (partition_name p) then partition_name p ! j else 0) [0..<36]"
    by (intro map_cong) simp_all
  then show ?thesis
    using takeWhile_name [OF assms(3,2)] unfolding read_partition_name_def by (simp only:)
qed

text \<open>A serialised entry decodes to the partition it was made from.\<close>

lemma decode_fill_entry:
  assumes "length (partition_name p) \<le> 36" "0 \<notin> set (partition_name p)"
  shows "decode_partition (entry_index p) (fill_entry p (replicate 128 0)) = p"
  using assms
  by (simp add: decode_partition_def read_fill_entry read_partition_name_fill byte_simps)

lemma decode_zero_entry: "type_guid (decode_partition i (replicate 128 0)) = 0"
  by (simp add: decode_partition_def byte_simps)

subsection \<open>The entry array\<close>

definition entry_of :: "gpt_partition list \<Rightarrow> nat \<Rightarrow> byte list" where
  "entry_of ps i = (case find (\<lambda>p. unat (entry_index p) = i) ps of
     None \<Rightarrow> replicate 128 0 | Some p \<Rightarrow> fill_entry p (replicate 128 0))"

lemma length_put_entry [simp]: "length (put_entry n es p) = length es"
  by (simp add: put_entry_def Let_def)

lemma slice_put_entry:
  assumes "length es = n * 128" "unat (entry_index p) < n" "i < n"
  shows "slice (put_entry 128 es p) (i * 128) 128 =
    (if unat (entry_index p) = i then fill_entry p (slice es (i * 128) 128)
     else slice es (i * 128) 128)"
proof (cases "unat (entry_index p) = i")
  case True
  then show ?thesis using assms by (simp add: put_entry_def Let_def slice_overwrite_same)
next
  case False
  then have "i * 128 + 128 \<le> unat (entry_index p) * 128 \<or> unat (entry_index p) * 128 + 128 \<le> i * 128"
    by linarith
  then show ?thesis using False assms
    by (simp add: put_entry_def Let_def slice_overwrite_other)
qed

lemma length_foldl_put_entry [simp]: "length (foldl (put_entry n) es ps) = length es"
  by (induction ps arbitrary: es) auto

lemma slice_foldl_put_entry:
  assumes "\<forall>p \<in> set ps. unat (entry_index p) < n" "distinct (map entry_index ps)"
    "length es = n * 128" "i < n"
  shows "slice (foldl (put_entry 128) es ps) (i * 128) 128 =
    (case find (\<lambda>p. unat (entry_index p) = i) ps of
       None \<Rightarrow> slice es (i * 128) 128
     | Some p \<Rightarrow> fill_entry p (slice es (i * 128) 128))"
  using assms
proof (induction ps arbitrary: es)
  case Nil
  then show ?case by simp
next
  case (Cons p ps)
  have none: "find (\<lambda>q. unat (entry_index q) = i) ps = None" if "unat (entry_index p) = i"
    using Cons.prems(2) that
    by (auto simp: find_None_iff word_unat_eq_iff [symmetric]) (metis imageI)
  show ?case
    using Cons.prems
    by (subst foldl_Cons, subst Cons.IH)
      (auto simp: slice_put_entry none split: option.split)
qed

definition entries_wf :: "u32 \<Rightarrow> gpt_partition list \<Rightarrow> bool" where
  "entries_wf n ps \<longleftrightarrow> distinct (map entry_index ps) \<and>
     (\<forall>p \<in> set ps. entry_index p < n \<and> type_guid p \<noteq> 0 \<and>
        length (partition_name p) \<le> 36 \<and> 0 \<notin> set (partition_name p))"

lemma length_build_entry_array:
  "length (build_entry_array d) = unat (partition_entry_count d) * unat (partition_entry_size d)"
  by (simp add: build_entry_array_def)

lemma slice_build_entry_array:
  assumes "partition_entry_size d = 128" "entries_wf (partition_entry_count d) (gpt_partitions d)"
    "i < unat (partition_entry_count d)"
  shows "slice (build_entry_array d) (i * 128) 128 = entry_of (gpt_partitions d) i"
  using slice_foldl_put_entry [of "gpt_partitions d" "unat (partition_entry_count d)"
      "replicate (unat (partition_entry_count d) * 128) 0" i] assms
  by (simp add: build_entry_array_def entries_wf_def word_less_nat_alt entry_of_def slice_replicate
      cong: option.case_cong)

text \<open>
  Parsing a serialised entry array returns the partitions in the order of their entries.
\<close>

lemma parse_built_entries:
  assumes wf: "entries_wf n ps" and n: "unat n \<le> 16384"
    and es: "\<And>i. i < unat n \<Longrightarrow> slice es (i * 128) 128 = entry_of ps i"
  shows "filter (\<lambda>p. type_guid p \<noteq> 0) (map (entry_at es 128) [0..<unat n]) =
    sort_key entry_index ps"
proof (rule strict_sorted_key_unique [of entry_index])
  let ?xs = "filter (\<lambda>p. type_guid p \<noteq> 0) (map (entry_at es 128) [0..<unat n])"
  have "sorted_wrt (\<lambda>p q. entry_index p < entry_index q) (map (entry_at es 128) [0..<unat n])"
    using n by (intro sorted_wrt_mapI [OF sorted_wrt_upt])
      (auto simp: word_less_nat_alt unat_of_nat_u32)
  then show "sorted_wrt (\<lambda>p q. entry_index p < entry_index q) ?xs" by (simp add: sorted_wrt_filter)
  have d: "distinct (map entry_index (sort_key entry_index ps))"
    using wf by (simp add: entries_wf_def distinct_map)
  have "sorted_wrt (<) (map entry_index (sort_key entry_index ps))"
    using d sorted_sort_key [of entry_index ps] by (simp add: strict_sorted_iff)
  then show "sorted_wrt (\<lambda>p q. entry_index p < entry_index q) (sort_key entry_index ps)"
    by (simp add: sorted_wrt_map)
  have dec: "entry_at es 128 (unat (entry_index p)) = p" if "p \<in> set ps" for p
  proof -
    have "find (\<lambda>q. unat (entry_index q) = unat (entry_index p)) ps = Some p"
    proof (cases "find (\<lambda>q. unat (entry_index q) = unat (entry_index p)) ps")
      case None
      with that show ?thesis by (auto simp: find_None_iff)
    next
      case (Some q)
      then have "q \<in> set ps" "entry_index q = entry_index p"
        by (auto simp: find_Some_iff word_unat_eq_iff)
      with wf that Some show ?thesis by (auto simp: entries_wf_def distinct_map inj_on_def)
    qed
    then show ?thesis using wf that es [of "unat (entry_index p)"]
      by (simp add: entry_at_def entry_of_def entries_wf_def word_less_nat_alt decode_fill_entry)
  qed
  show "set ?xs = set (sort_key entry_index ps)"
  proof (intro set_eqI iffI)
    fix p assume "p \<in> set ?xs"
    then obtain i where i: "i < unat n" "p = entry_at es 128 i" "type_guid p \<noteq> 0" by auto
    then have "find (\<lambda>q. unat (entry_index q) = i) ps \<noteq> None"
      using es by (auto simp: entry_at_def entry_of_def decode_zero_entry split: option.splits)
    then obtain q where "q \<in> set ps" "unat (entry_index q) = i"
      by (metis (mono_tags, lifting) find_None_iff)
    with dec i show "p \<in> set (sort_key entry_index ps)" by auto
  next
    fix p assume p: "p \<in> set (sort_key entry_index ps)"
    with wf have "unat (entry_index p) < unat n" "type_guid p \<noteq> 0"
      by (auto simp: entries_wf_def word_less_nat_alt)
    with dec p show "p \<in> set ?xs" by (auto intro!: image_eqI [of _ _ "unat (entry_index p)"])
  qed
qed

subsection \<open>Headers\<close>

lemma length_kGptSignature [simp]: "length kGptSignature = 8"
  by (simp add: kGptSignature_def)

lemma length_build_header [simp]:
  "length (build_header d cur bak el crc) = unat (gpt_sector_size d)"
  by (simp add: build_header_def Let_def)

text \<open>Clearing the stored checksum restores the bytes the checksum was computed over.\<close>

lemma clear_stored_crc:
  fixes v :: u32
  assumes "92 \<le> length b" "slice b 16 4 = replicate 4 0"
  shows "overwrite (take 92 (write_little b 16 v)) 16 (replicate 4 0) = take 92 b"
  using assms
  by (simp add: write_little_def take_overwrite overwrite_overwrite overwrite_same_id slice_take)

text \<open>A serialised header decodes to its fields, whatever the table.\<close>

lemma decode_build_header:
  assumes "92 \<le> unat (gpt_sector_size d)"
  shows "decode_header (build_header d cur bak el crc) (gpt_sector_size d) =
    Inr \<lparr>ph_header_size = 92, ph_current_lba = cur, ph_backup_lba = bak,
      ph_first_usable_lba = first_usable_lba d, ph_last_usable_lba = last_usable_lba d,
      ph_disk_guid = disk_guid d, ph_entry_lba = el, ph_entry_count = partition_entry_count d,
      ph_entry_size = partition_entry_size d, ph_entry_crc = crc\<rparr>"
proof -
  define b where "b = write_little (write_little (write_little (write_little (write_little
    (write_little (write_little (write_little (write_little (write_little (write_little
    (write_little (write_little (overwrite (replicate (unat (gpt_sector_size d)) 0) 0 kGptSignature)
      8 (0x00010000 :: u32)) 12 kMinimumHeaderSize) 16 (0 :: u32)) 20 (0 :: u32)) 24 cur) 32 bak)
      40 (first_usable_lba d)) 48 (last_usable_lba d)) 56 (disk_guid d)) 72 el)
      80 (partition_entry_count d)) 84 (partition_entry_size d)) 88 crc"
  have len: "length b = unat (gpt_sector_size d)"
    using assms by (simp add: b_def)
  have bh: "build_header d cur bak el crc = write_little b 16 (crc32 (take 92 b))"
    by (simp add: build_header_def b_def Let_def)
  have z: "slice b 16 4 = replicate 4 0"
    using assms le_bytes_zero [of 4]
    by (simp add: b_def slice_write_little_other write_little_def [of _ 16]
        slice_overwrite_same)
  have flds: "slice b 0 8 = kGptSignature" "(read_little b 8 :: u32) = 0x00010000"
    "(read_little b 12 :: u32) = 92" "(read_little b 20 :: u32) = 0"
    "read_little b 24 = cur" "read_little b 32 = bak" "read_little b 40 = first_usable_lba d"
    "read_little b 48 = last_usable_lba d" "read_little b 56 = disk_guid d"
    "read_little b 72 = el" "read_little b 80 = partition_entry_count d"
    "read_little b 84 = partition_entry_size d" "read_little b 88 = crc"
    using assms by (simp_all add: b_def byte_simps)
  have "92 \<le> gpt_sector_size d"
    using assms by (simp add: word_le_nat_alt)
  then show ?thesis
    using assms len flds clear_stored_crc [OF _ z]
    by (simp add: bh decode_header_def Let_def byte_simps)
qed

lemma protective_mbr_build:
  assumes "512 \<le> unat (gpt_sector_size d)" "2 \<le> unat (gpt_sector_count d)"
  shows "protective_mbr_ok (build_protective_mbr d)"
    "length (build_protective_mbr d) = unat (gpt_sector_size d)"
proof -
  have "0 < unat (gpt_sector_count d - 1)"
    using assms(2) by (simp add: unat_sub word_le_nat_alt)
  then have "(0 :: u64) < min (gpt_sector_count d - 1) 0xFFFFFFFF"
    by (auto simp: min_def word_less_nat_alt)
  moreover have "min (gpt_sector_count d - 1) 0xFFFFFFFF \<le> (0xFFFFFFFF :: u64)" by simp
  ultimately have "unat (min (gpt_sector_count d - 1) 0xFFFFFFFF) \<in> {1..4294967295}"
    by (simp add: word_less_nat_alt word_le_nat_alt)
  then have "unat (ucast (min (gpt_sector_count d - 1) 0xFFFFFFFF) :: u32) \<noteq> 0"
    by (simp add: unsigned_ucast_eq take_bit_nat_eq_self)
  then have nz: "(ucast (min (gpt_sector_count d - 1) 0xFFFFFFFF) :: u32) \<noteq> 0" by auto
  show "length (build_protective_mbr d) = unat (gpt_sector_size d)"
    using assms by (simp add: build_protective_mbr_def Let_def)
  have rd: "(read_little (overwrite (overwrite b 510 [0x55]) 511 [0xAA]) p :: u32) = read_little b p"
    if "p + 4 \<le> 510" "512 \<le> length b" for b p
    using that by (simp add: read_little_def slice_overwrite_other)
  show "protective_mbr_ok (build_protective_mbr d)"
    using assms nz unfolding protective_mbr_ok_def
    by (intro conjI)
      (simp_all add: build_protective_mbr_def Let_def rd byte_simps nth_overwrite)
qed

subsection \<open>The whole table\<close>

text \<open>The metadata of the table \<open>d\<close> is what the image holds at the places the standard assigns.\<close>

definition gpt_on_image :: "gpt_disk \<Rightarrow> image \<Rightarrow> bool" where
  "gpt_on_image d img \<longleftrightarrow>
     (let sz = unat (gpt_sector_size d); cnt = unat (gpt_sector_count d);
          entries = build_entry_array d; crc = crc32 entries;
          bel = cnt - 1 - entry_span d
      in protective_mbr_ok (img_bytes img 0 sz) \<and>
         img_bytes img sz sz = build_header d 1 (gpt_sector_count d - 1) 2 crc \<and>
         img_bytes img (2 * sz) (length entries) = entries \<and>
         img_bytes img (bel * sz) (length entries) = entries \<and>
         img_bytes img ((cnt - 1) * sz) sz =
           build_header d (gpt_sector_count d - 1) 1 (of_nat bel) crc)"

lemma read_exact_memory:
  "unat off + unat len \<le> unat sz \<Longrightarrow>
   read_exact (memory_source_reader sz sector img) off len s =
     (Inr (img_bytes img (unat off) (unat len)), s)"
  by (simp add: read_exact_def memory_source_read returnE_def)

lemma parse_header_memory:
  assumes "unat lba * unat sector + unat sector \<le> unat sz"
  shows "parse_header (memory_source_reader sz sec img) lba sector s =
    (decode_header (img_bytes img (unat lba * unat sector) (unat sector)) sector, s)"
proof -
  have "unat lba * unat (ucast sector :: u64) < 2 ^ 64"
    using assms unat_u64_bound [of sz] by simp
  then show ?thesis
    using assms
    by (simp add: parse_header_def checked_multiply_unat unat_mult_u64 bindE_Inr read_exact_memory
        of_result_def)
qed

lemma read_entry_array_memory:
  assumes "ph_entry_count h \<noteq> 0" "ph_entry_count h \<le> kMaximumEntryCount" "ph_entry_size h = 128"
    "unat (ph_entry_lba h) * unat sector + unat (ph_entry_count h) * 128 \<le> unat sz"
    "ph_entry_lba h < cnt"
    "img_bytes img (unat (ph_entry_lba h) * unat sector) (unat (ph_entry_count h) * 128) = es"
    "crc32 es = ph_entry_crc h"
  shows "read_entry_array (memory_source_reader sz sec img) h sector cnt s = (Inr es, s)"
proof -
  let ?bc = "ucast (ph_entry_count h) * 128 :: u64" and ?off = "ph_entry_lba h * ucast sector"
  have b: "unat ?bc = unat (ph_entry_count h) * 128"
    using assms(2) by (subst unat_mult_u64) (simp_all add: word_le_nat_alt)
  have o: "unat ?off = unat (ph_entry_lba h) * unat sector"
    using assms(4) unat_u64_bound [of sz] by (subst unat_mult_u64) simp_all
  have "checked_multiply (ucast (ph_entry_count h)) (ucast (ph_entry_size h)) = Some ?bc"
    using assms(2,3) by (subst checked_multiply_unat) (simp_all add: word_le_nat_alt)
  moreover have "checked_multiply (ph_entry_lba h) (ucast sector) = Some ?off"
    using assms(4) unat_u64_bound [of sz] by (subst checked_multiply_unat) simp_all
  moreover have "checked_add ?off ?bc = Some (?off + ?bc)"
    using assms(4) unat_u64_bound [of sz] b o by (subst checked_add_unat) simp_all
  moreover have "unat (?off + ?bc) = unat ?off + unat ?bc"
    using assms(4) unat_u64_bound [of sz] b o by (subst unat_add_u64) simp_all
  moreover have "\<not> kMaximumEntryCount < ph_entry_count h" "\<not> cnt \<le> ph_entry_lba h"
    using assms(2,5) by simp_all
  moreover have "\<not> sz < ?off + ?bc"
    using assms(4) b o calculation(4) by (simp add: word_less_nat_alt)
  ultimately show ?thesis
    using assms b o
    by (simp add: read_entry_array_def bindE_Inr read_exact_memory returnE_def)
qed

lemma entries_wf_table:
  "gpt_table_wf d \<Longrightarrow> entries_wf (partition_entry_count d) (gpt_partitions d)"
  by (auto simp: gpt_table_wf_def entries_wf_def list_all_iff partition_wf_def)

lemma parse_built_table:
  assumes "gpt_table_wf d" "ph_entry_count h = partition_entry_count d" "ph_entry_size h = 128"
    "ph_first_usable_lba h = first_usable_lba d" "ph_last_usable_lba h = last_usable_lba d"
  shows "parse_partitions (build_entry_array d) h = Inr (sort_key entry_index (gpt_partitions d))"
proof -
  let ?ps = "gpt_partitions d"
  have fr: "partition_entry_size d = 128" "unat (partition_entry_count d) \<le> 16384"
    using assms(1) by (simp_all add: gpt_table_wf_def gpt_frame_wf_def word_le_nat_alt)
  have wf: "\<forall>p \<in> set ?ps. partition_wf d p" and du: "distinct (map unique_guid ?ps)"
    and dj: "sorted_wrt lba_disjoint ?ps"
    using assms(1) by (simp_all add: gpt_table_wf_def list_all_iff)
  have "parse_entries (build_entry_array d) h {} [0..<unat (ph_entry_count h)] =
      Inr (sort_key entry_index ?ps)"
    unfolding parse_entries_iff
    using parse_built_entries [OF entries_wf_table [OF assms(1)] fr(2)
        slice_build_entry_array [OF fr(1) entries_wf_table [OF assms(1)]]]
      assms wf du
    by (auto simp: entry_ok_def partition_wf_def distinct_map inj_on_def)
  moreover have "gpt_ordered (sort_key first_lba (sort_key entry_index ?ps))"
    using dj wf
    by (subst gpt_ordered_sort_iff) (auto simp: partition_wf_def sorted_wrt_sym_sort_key lba_disjoint_sym)
  ultimately show ?thesis by (simp add: parse_partitions_def)
qed

text \<open>
  \<open>parse_gpt\<close> on a disk that holds the metadata of a well-formed table returns that table, its
  partitions in the order of their entries.
\<close>

lemma parse_gpt_on_image:
  assumes wf: "gpt_table_wf d" and on: "gpt_on_image d img"
    and size: "unat size_bytes = unat (gpt_sector_count d) * unat (gpt_sector_size d)"
  shows "parse_gpt (memory_source_reader size_bytes (gpt_sector_size d) img) s =
    (Inr (d\<lparr>gpt_partitions := sort_key entry_index (gpt_partitions d)\<rparr>), s)"
proof -
  let ?rd = "memory_source_reader size_bytes (gpt_sector_size d) img :: 'a source_reader"
  let ?sec = "gpt_sector_size d" and ?cnt = "gpt_sector_count d"
  let ?sz = "unat ?sec" and ?n = "partition_entry_count d"
  let ?entries = "build_entry_array d"
  define bel where "bel = unat ?cnt - 1 - entry_span d"
  have frame: "gpt_frame_wf d" using wf by (simp add: gpt_table_wf_def)
  then have sec: "?sec = 512 \<or> ?sec = 4096" and c68: "68 \<le> unat ?cnt" and g: "disk_guid d \<noteq> 0"
    and esz: "partition_entry_size d = 128" and n: "?n \<noteq> 0" "?n \<le> kMaximumEntryCount"
    and first: "2 + entry_span d \<le> unat (first_usable_lba d)"
    and fl: "first_usable_lba d \<le> last_usable_lba d"
    and last: "unat (last_usable_lba d) + 1 + entry_span d < unat ?cnt"
    by (simp_all add: gpt_frame_wf_def)
  have pos: "0 < ?sz" using sec by auto
  have len: "length ?entries = unat ?n * 128" using esz by (simp add: length_build_entry_array)
  have span: "unat ?n * 128 \<le> entry_span d * ?sz"
  proof -
    have "unat ?n * 128 + (?sz - 1) < (entry_span d + 1) * ?sz"
      unfolding entry_span_def using pos by (simp add: dividend_less_div_times)
    then show ?thesis by simp
  qed
  have cnt1: "unat (?cnt - 1) = unat ?cnt - 1"
    using c68 by (simp add: unat_sub word_le_nat_alt)
  have belw: "unat (of_nat bel :: u64) = bel"
    using unat_u64_bound [of ?cnt] by (simp add: unat_of_nat_u64 bel_def)
  have count: "size_bytes div ucast ?sec = ?cnt"
    using size pos by (simp add: word_unat_eq_iff unat_div)
  have mult: "(unat ?cnt - 1) * ?sz + ?sz = unat size_bytes"
    using size c68 by (simp add: algebra_simps)
  have belsz: "bel * ?sz + entry_span d * ?sz + ?sz = unat size_bytes"
  proof -
    have "bel + entry_span d + 1 = unat ?cnt" using last by (simp add: bel_def)
    then have "(bel + entry_span d + 1) * ?sz = unat size_bytes" using size by simp
    then show ?thesis by (simp add: algebra_simps)
  qed
  have two: "2 * ?sz + unat ?n * 128 \<le> unat size_bytes"
  proof -
    have "(2 + entry_span d) * ?sz \<le> unat ?cnt * ?sz" using last first fl
      by (intro mult_le_mono1) (simp add: word_le_nat_alt)
    with span size show ?thesis by (simp add: algebra_simps)
  qed
  have sixty: "68 * ?sz \<le> unat size_bytes" using c68 size by simp
  define hd where "hd cur bak el = \<lparr>ph_header_size = 92, ph_current_lba = cur, ph_backup_lba = bak,
      ph_first_usable_lba = first_usable_lba d, ph_last_usable_lba = last_usable_lba d,
      ph_disk_guid = disk_guid d, ph_entry_lba = el, ph_entry_count = ?n,
      ph_entry_size = partition_entry_size d, ph_entry_crc = crc32 ?entries\<rparr>" for cur bak el
  let ?h1 = "hd 1 (?cnt - 1) 2" and ?h2 = "hd (?cnt - 1) 1 (of_nat bel)"
  have dec: "decode_header (build_header d cur bak el (crc32 ?entries)) ?sec = Inr (hd cur bak el)"
    for cur bak el
    using sec by (subst decode_build_header) (auto simp: hd_def)
  note on' = on [unfolded gpt_on_image_def Let_def, folded bel_def]
  have c0: "\<not> ((?sec \<noteq> 512 \<and> ?sec \<noteq> 4096) \<or> size_bytes < ucast ?sec * 68 \<or>
      size_bytes mod ucast ?sec \<noteq> 0)"
  proof -
    have "unat (ucast ?sec * 68 :: u64) = ?sz * 68"
      using sec by (subst unat_mult_u64) auto
    then show ?thesis
      using sec sixty size by (auto simp: word_less_nat_alt word_unat_eq_iff unat_mod)
  qed
  have r0: "read_exact ?rd 0 (ucast ?sec) s = (Inr (img_bytes img 0 ?sz), s)"
    using sixty pos by (simp add: read_exact_memory)
  have r1: "parse_header ?rd 1 ?sec s = (Inr ?h1, s)"
    using sixty on' by (simp add: parse_header_memory dec)
  have r2: "read_entry_array ?rd ?h1 ?sec ?cnt s = (Inr ?entries, s)"
    using n esz two c68 on' len
    by (intro read_entry_array_memory) (simp_all add: hd_def word_less_nat_alt)
  have r3: "parse_header ?rd (?cnt - 1) ?sec s = (Inr ?h2, s)"
    using mult cnt1 on' by (simp add: parse_header_memory dec)
  have r4: "read_entry_array ?rd ?h2 ?sec ?cnt s = (Inr ?entries, s)"
    using n esz c68 on' len belsz span belw last
    by (intro read_entry_array_memory) (simp_all add: hd_def word_less_nat_alt bel_def)
  have pp: "parse_partitions ?entries ?h1 = Inr (sort_key entry_index (gpt_partitions d))"
    using wf esz by (intro parse_built_table) (simp_all add: hd_def)
  define bc where "bc = (ucast ?n * ucast (partition_entry_size d) :: u64)"
  have bc: "checked_multiply (ucast ?n) (ucast (partition_entry_size d)) = Some bc" "unat bc = unat ?n * 128"
    using n(2) esz unfolding bc_def
    by (subst checked_multiply_unat unat_mult_u64; simp add: word_le_nat_alt)+
  define r where "r = bc + ucast (?sec - 1)"
  have r: "checked_add bc (ucast (?sec - 1)) = Some r"
    unfolding r_def using bc(2) n(2) sec
    by (subst checked_add_unat) (auto simp: word_le_nat_alt)
  have es: "unat (r div ucast ?sec) = entry_span d"
    using entry_span_word [OF sec bc(2) r] by (simp add: entry_span_def)
  have two_es: "unat (2 + r div ucast ?sec) = 2 + entry_span d"
    using es last unat_u64_bound [of ?cnt] first fl
    by (subst unat_add_u64) (simp_all add: word_le_nat_alt)
  have bel_eq: "of_nat bel = ?cnt - 1 - r div ucast ?sec"
    using es cnt1 last belw by (simp add: word_unat_eq_iff unat_sub word_le_nat_alt bel_def)
  have lastb: "last_usable_lba d < of_nat bel"
    using last belw by (simp add: word_less_nat_alt bel_def)
  then have "last_usable_lba d < ?cnt - 1"
    using belw cnt1 by (simp add: word_less_nat_alt bel_def)
  then have ok: "primary_header_ok ?h1 (r div ucast ?sec) ?cnt"
    using fl g first two_es
    by (simp add: primary_header_ok_def hd_def guid_is_zero_def not_less not_le word_le_nat_alt
        word_less_nat_alt)
  have hm: "headers_match ?h1 ?h2 (r div ucast ?sec)"
    using bel_eq lastb by (simp add: headers_match_def hd_def)
  have h: "ph_entry_count ?h1 = ?n" "ph_entry_size ?h1 = partition_entry_size d"
    "ph_backup_lba ?h1 = ?cnt - 1"
    by (simp_all add: hd_def)
  have n': "?n \<noteq> 0" "\<not> kMaximumEntryCount < ?n"
    using n by (simp_all add: not_less)
  have bc': "checked_multiply (ucast ?n) 128 = Some bc"
    using bc(1) esz by simp
  show ?thesis
    using c0 on' n' esz
    by (simp add: parse_gpt_def Let_def count bindE_Inr r0 r1 r2 r3 r4 pp bc' r ok hm h returnE_def)
      (simp add: hd_def esz)
qed

section \<open>Plans on disk\<close>

definition writes_on_image :: "gpt_metadata_write list \<Rightarrow> image \<Rightarrow> bool" where
  "writes_on_image ws img \<longleftrightarrow>
     list_all (\<lambda>w. img_bytes img (unat (gw_offset w)) (length (gw_bytes w)) = gw_bytes w) ws"

definition apply_writes :: "gpt_metadata_write list \<Rightarrow> image \<Rightarrow> image" where
  "apply_writes ws img = img_updates img (map (\<lambda>w. (unat (gw_offset w), gw_bytes w)) ws)"

definition write_disjoint :: "gpt_metadata_write \<Rightarrow> gpt_metadata_write \<Rightarrow> bool" where
  "write_disjoint v w \<longleftrightarrow>
     unat (gw_offset v) + length (gw_bytes v) \<le> unat (gw_offset w) \<or>
     unat (gw_offset w) + length (gw_bytes w) \<le> unat (gw_offset v)"

lemma apply_writes_on_image:
  "sorted_wrt write_disjoint ws \<Longrightarrow> writes_on_image ws (apply_writes ws img)"
proof (induction ws arbitrary: img)
  case Nil
  then show ?case by (simp add: writes_on_image_def)
next
  case (Cons w ws)
  let ?img = "img_update img (unat (gw_offset w)) (gw_bytes w)"
  have "img_bytes (apply_writes ws ?img) (unat (gw_offset w)) (length (gw_bytes w)) =
      img_bytes ?img (unat (gw_offset w)) (length (gw_bytes w))"
    using Cons.prems unfolding apply_writes_def
    by (intro img_bytes_updates_other) (auto simp: write_disjoint_def)
  then show ?case
    using Cons by (simp add: writes_on_image_def apply_writes_def)
qed

lemma apply_writes_outside:
  "list_all (\<lambda>w. i < unat (gw_offset w) \<or> unat (gw_offset w) + length (gw_bytes w) \<le> i) ws \<Longrightarrow>
   apply_writes ws img i = img i"
  by (induction ws arbitrary: img) (auto simp: apply_writes_def img_update_def)

lemma pad_entries_eq:
  assumes "length entries \<le> unat (sectors * ucast sector_size)"
  shows "pad_entries sectors sector_size entries =
    entries @ replicate (unat (sectors * ucast sector_size) - length entries) 0"
  using assms by (simp add: pad_entries_def overwrite_in_bounds)

text \<open>The layout of the five writes of a table whose frame is well-formed.\<close>

definition layout_ok :: "gpt_disk \<Rightarrow> u64 \<Rightarrow> bool" where
  "layout_ok d sectors \<longleftrightarrow> gpt_frame_wf d \<and> unat sectors = entry_span d"

lemma layout_sz: "gpt_frame_wf d \<Longrightarrow> 512 \<le> unat (gpt_sector_size d)"
  by (auto simp: gpt_frame_wf_def)

lemma layout_cnt:
  assumes "gpt_frame_wf d"
  shows "68 \<le> unat (gpt_sector_count d)" "2 * entry_span d + 3 < unat (gpt_sector_count d)"
    "unat (gpt_sector_count d - 1) = unat (gpt_sector_count d) - 1"
proof -
  show *: "68 \<le> unat (gpt_sector_count d)" "2 * entry_span d + 3 < unat (gpt_sector_count d)"
    using assms by (auto simp: gpt_frame_wf_def word_le_nat_alt)
  then show "unat (gpt_sector_count d - 1) = unat (gpt_sector_count d) - 1"
    by (simp add: unat_sub word_le_nat_alt)
qed

lemma unat_lba_bytes:
  fixes lba :: u64
  assumes "gpt_frame_wf d" "unat lba \<le> unat (gpt_sector_count d)"
  shows "unat (lba * ucast (gpt_sector_size d)) = unat lba * unat (gpt_sector_size d)"
proof -
  have "unat lba * unat (gpt_sector_size d) \<le> unat (gpt_sector_count d) * unat (gpt_sector_size d)"
    using assms(2) by (rule mult_le_mono1)
  also have "\<dots> < 2 ^ 64" using assms(1) by (simp add: gpt_frame_wf_def)
  finally have "unat lba * unat (ucast (gpt_sector_size d) :: u64) < 2 ^ 64"
    by (simp only: unat_ucast_u32_u64)
  then have "unat (lba * ucast (gpt_sector_size d)) = unat lba * unat (ucast (gpt_sector_size d) :: u64)"
    by (rule unat_mult_u64)
  then show ?thesis by simp
qed

lemma entries_fit:
  assumes "gpt_frame_wf d"
  shows "length (build_entry_array d) \<le> entry_span d * unat (gpt_sector_size d)"
proof -
  have "unat (partition_entry_count d) * 128 + (unat (gpt_sector_size d) - 1) <
      (entry_span d + 1) * unat (gpt_sector_size d)"
    unfolding entry_span_def using layout_sz [OF assms] by (simp add: dividend_less_div_times)
  moreover have "partition_entry_size d = 128" using assms by (simp add: gpt_frame_wf_def)
  ultimately show ?thesis by (simp add: length_build_entry_array)
qed

lemma length_protective_mbr:
  "gpt_frame_wf d \<Longrightarrow> length (build_protective_mbr d) = unat (gpt_sector_size d)"
  using protective_mbr_build(2) [of d] layout_sz [of d] layout_cnt(1) [of d] by simp

text \<open>The byte offsets and contents of the writes, in the order of the plan.\<close>

definition padded_built :: "gpt_disk \<Rightarrow> byte list" where
  "padded_built d = build_entry_array d @
     replicate (entry_span d * unat (gpt_sector_size d) - length (build_entry_array d)) 0"

lemma length_padded_built:
  "gpt_frame_wf d \<Longrightarrow> length (padded_built d) = entry_span d * unat (gpt_sector_size d)"
  using entries_fit [of d] by (simp add: padded_built_def)

lemma write_list_contents:
  assumes ok: "layout_ok d sectors"
  defines "sz \<equiv> unat (gpt_sector_size d)" and "cnt \<equiv> unat (gpt_sector_count d)"
    and "crc \<equiv> crc32 (build_entry_array d)"
  shows "map (\<lambda>w. (gw_kind w, unat (gw_offset w), gw_bytes w)) (gpt_write_list d sectors) =
    [(Primary_entries, 2 * sz, padded_built d),
     (Backup_entries, (cnt - 1 - entry_span d) * sz, padded_built d),
     (Backup_header, (cnt - 1) * sz,
       build_header d (gpt_sector_count d - 1) 1 (of_nat (cnt - 1 - entry_span d)) crc),
     (Protective_mbr, 0, build_protective_mbr d),
     (Primary_header_commit, sz, build_header d 1 (gpt_sector_count d - 1) 2 crc)]"
proof -
  have frame: "gpt_frame_wf d" and sec: "unat sectors = entry_span d"
    using ok by (simp_all add: layout_ok_def)
  note cnt = layout_cnt [OF frame]
  have bel: "unat (gpt_sector_count d - 1 - sectors) = cnt - 1 - entry_span d"
    using cnt sec by (simp add: unat_sub word_le_nat_alt cnt_def)
  then have bel': "gpt_sector_count d - 1 - sectors = of_nat (cnt - 1 - entry_span d)"
    using unat_u64_bound [of "gpt_sector_count d"]
    by (simp add: word_unat_eq_iff unat_of_nat_u64 cnt_def)
  have "unat (ucast (gpt_sector_size d) * 2 :: u64) = 2 * sz"
    using unat_lba_bytes [OF frame, of 2] cnt by (simp add: mult.commute sz_def)
  moreover have "unat ((gpt_sector_count d - 1 - sectors) * ucast (gpt_sector_size d)) =
      (cnt - 1 - entry_span d) * sz"
    using unat_lba_bytes [OF frame, of "gpt_sector_count d - 1 - sectors"] bel cnt
    by (simp add: sz_def cnt_def)
  moreover have "unat ((gpt_sector_count d - 1) * ucast (gpt_sector_size d)) = (cnt - 1) * sz"
    using unat_lba_bytes [OF frame, of "gpt_sector_count d - 1"] cnt by (simp add: sz_def cnt_def)
  moreover have "pad_entries sectors (gpt_sector_size d) (build_entry_array d) = padded_built d"
    using entries_fit [OF frame] unat_lba_bytes [OF frame, of sectors] sec cnt
    by (simp add: pad_entries_eq padded_built_def)
  ultimately show ?thesis
    unfolding gpt_write_list_def Let_def bel' by (simp add: bel' sz_def crc_def)
qed

lemma writes_on_image_layout:
  assumes ok: "layout_ok d sectors" and w: "writes_on_image (gpt_write_list d sectors) img"
  shows "gpt_on_image d img"
proof -
  let ?sz = "unat (gpt_sector_size d)" and ?es = "build_entry_array d"
  have frame: "gpt_frame_wf d" using ok by (simp add: layout_ok_def)
  have take_pad: "img_bytes img off (length ?es) = ?es"
    if "img_bytes img off (length (padded_built d)) = padded_built d" for off
  proof -
    have "slice (img_bytes img off (length (padded_built d))) 0 (length ?es) =
        slice (padded_built d) 0 (length ?es)"
      using that by simp
    moreover have "length ?es \<le> length (padded_built d)" by (simp add: padded_built_def)
    ultimately show ?thesis by (simp add: img_bytes_slice padded_built_def slice_append1 slice_all)
  qed
  have "list_all (\<lambda>(k, off, bs). img_bytes img off (length bs) = bs)
      (map (\<lambda>w. (gw_kind w, unat (gw_offset w), gw_bytes w)) (gpt_write_list d sectors))"
    using w by (simp add: writes_on_image_def list_all_iff)
  then show ?thesis
    using take_pad protective_mbr_build(1) [of d] layout_sz [OF frame] layout_cnt(1) [OF frame]
    unfolding write_list_contents [OF ok]
    by (simp add: gpt_on_image_def Let_def length_protective_mbr [OF frame])
qed

text \<open>
  The writes stay inside the disk, outside the usable range, and are pairwise disjoint.
\<close>

lemma write_list_extents:
  assumes ok: "layout_ok d sectors"
  shows "sorted_wrt write_disjoint (gpt_write_list d sectors)"
    "list_all (\<lambda>w. unat (gw_offset w) + length (gw_bytes w) \<le>
        unat (gpt_sector_count d) * unat (gpt_sector_size d)) (gpt_write_list d sectors)"
    "list_all (\<lambda>w. unat (gw_offset w) + length (gw_bytes w) \<le>
          unat (first_usable_lba d) * unat (gpt_sector_size d) \<or>
        (unat (last_usable_lba d) + 1) * unat (gpt_sector_size d) \<le> unat (gw_offset w))
      (gpt_write_list d sectors)"
proof -
  let ?sz = "unat (gpt_sector_size d)" and ?cnt = "unat (gpt_sector_count d)"
  let ?ws = "gpt_write_list d sectors"
  have frame: "gpt_frame_wf d" using ok by (simp add: layout_ok_def)
  define es where "es = entry_span d"
  define bel where "bel = ?cnt - 1 - es"
  have cnt: "?cnt = bel + es + 1" "2 + es < bel"
    using layout_cnt [OF frame] by (simp_all add: bel_def es_def)
  have us: "2 + es \<le> unat (first_usable_lba d)" "unat (last_usable_lba d) + 1 \<le> bel"
    using frame by (auto simp: gpt_frame_wf_def es_def bel_def)
  have fu: "2 * ?sz + es * ?sz \<le> unat (first_usable_lba d) * ?sz"
    using mult_le_mono1 [OF us(1), of ?sz] by (simp add: algebra_simps)
  have lu: "(unat (last_usable_lba d) + 1) * ?sz \<le> bel * ?sz"
    using us(2) by (rule mult_le_mono1)
  have bl: "2 * ?sz + es * ?sz \<le> bel * ?sz"
    using mult_le_mono1 [OF less_imp_le [OF cnt(2)], of ?sz] by (simp add: algebra_simps)
  have exts: "map (\<lambda>w. (unat (gw_offset w), length (gw_bytes w))) ?ws =
      [(2 * ?sz, es * ?sz), (bel * ?sz, es * ?sz), (bel * ?sz + es * ?sz, ?sz), (0, ?sz), (?sz, ?sz)]"
  proof -
    have "map (\<lambda>w. (unat (gw_offset w), length (gw_bytes w))) ?ws =
        map (\<lambda>(k, off, bs). (off, length bs)) (map (\<lambda>w. (gw_kind w, unat (gw_offset w), gw_bytes w)) ?ws)"
      by (simp add: comp_def)
    also have "\<dots> = [(2 * ?sz, es * ?sz), (bel * ?sz, es * ?sz), (bel * ?sz + es * ?sz, ?sz), (0, ?sz), (?sz, ?sz)]"
      unfolding write_list_contents [OF ok] using cnt
      by (simp add: length_padded_built frame length_protective_mbr es_def [symmetric] add_mult_distrib)
    finally show ?thesis .
  qed
  have total: "?cnt * ?sz = bel * ?sz + es * ?sz + ?sz" by (simp add: cnt(1) algebra_simps)
  have "sorted_wrt (\<lambda>(o1, n1) (o2, n2). o1 + n1 \<le> o2 \<or> o2 + n2 \<le> o1)
      (map (\<lambda>w. (unat (gw_offset w), length (gw_bytes w))) ?ws)"
    unfolding exts using bl cnt(2) by simp
  then show "sorted_wrt write_disjoint ?ws"
    by (simp add: sorted_wrt_map write_disjoint_def [abs_def])
  have "list_all (\<lambda>(off, n). off + n \<le> ?cnt * ?sz)
      (map (\<lambda>w. (unat (gw_offset w), length (gw_bytes w))) ?ws)"
    unfolding exts total using bl cnt(2) by simp
  then show "list_all (\<lambda>w. unat (gw_offset w) + length (gw_bytes w) \<le> ?cnt * ?sz) ?ws"
    by (simp add: list_all_iff)
  have "list_all (\<lambda>(off, n). off + n \<le> unat (first_usable_lba d) * ?sz \<or>
        (unat (last_usable_lba d) + 1) * ?sz \<le> off)
      (map (\<lambda>w. (unat (gw_offset w), length (gw_bytes w))) ?ws)"
    unfolding exts using fu lu us layout_sz [OF frame] by simp
  then show "list_all (\<lambda>w. unat (gw_offset w) + length (gw_bytes w) \<le>
          unat (first_usable_lba d) * ?sz \<or>
        (unat (last_usable_lba d) + 1) * ?sz \<le> unat (gw_offset w)) ?ws"
    by (simp add: list_all_iff)
qed

end
