(* ===== verification/GptPlanCorrect.thy ===== *)
theory GptPlanCorrect
  imports GptPlan
begin

text \<open>
  What the plans of \<open>GptPlan\<close> are worth: a clone's table is accepted and read back as planned, its
  writes are disjoint and stay off the partitions, nothing is valid before the commit, and adding
  a partition keeps what is there.
\<close>

section \<open>Fresh identifiers\<close>

definition without_guid :: "gpt_partition \<Rightarrow> gpt_partition" where
  "without_guid p = p\<lparr>unique_guid := 0\<rparr>"

lemma without_guid_update [simp]: "without_guid (p\<lparr>unique_guid := g\<rparr>) = without_guid p"
  by (simp add: without_guid_def)

lemma without_guid_sel [simp]:
  "entry_index (without_guid p) = entry_index p" "type_guid (without_guid p) = type_guid p"
  "first_lba (without_guid p) = first_lba p" "last_lba (without_guid p) = last_lba p"
  "attributes (without_guid p) = attributes p" "partition_name (without_guid p) = partition_name p"
  by (simp_all add: without_guid_def)

lemma map_without_guid:
  assumes "map without_guid qs = map without_guid ps" "\<And>p. f (without_guid p) = f p"
  shows "map f qs = map f ps"
proof -
  have "map f (map without_guid qs) = map f (map without_guid ps)" using assms(1) by simp
  then show ?thesis using assms(2) by (simp add: comp_def)
qed

lemma assign_partition_guids_success:
  assumes "assign_partition_guids next_guid generated ps s = (Inr qs, t)"
  shows "map without_guid qs = map without_guid ps \<and> distinct (map unique_guid qs) \<and>
    (\<forall>q \<in> set qs. unique_guid q \<noteq> 0 \<and> unique_guid q \<notin> generated)"
  using assms
proof (induction next_guid generated ps arbitrary: s t qs rule: assign_partition_guids.induct)
  case (2 next_guid generated p ps)
  then obtain g u qs' where g: "next_guid s = (Inr g, u)" "g \<noteq> 0" "g \<notin> generated"
    and qs': "assign_partition_guids next_guid (insert g generated) ps u = (Inr qs', t)"
    and qs: "qs = p\<lparr>unique_guid := g\<rparr> # qs'"
    by (auto simp: bindE_eq_Inr guid_is_zero_def split: if_splits)
  have "\<not> (guid_is_zero g \<or> g \<in> generated)"
    using g by (simp add: guid_is_zero_def)
  from "2.IH" [OF g(1) this qs'] show ?case using g qs by auto
qed simp

section \<open>The table of a write plan\<close>

text \<open>What a target at least as large as the source gives the new table.\<close>

definition plan_sectors :: "gpt_disk \<Rightarrow> u32 \<Rightarrow> u64" where
  "plan_sectors source sector =
     (ucast (partition_entry_count source) * ucast (partition_entry_size source)
        + ucast sector - 1) div ucast sector"

lemma unat_plan_sectors:
  assumes "gpt_frame_wf d"
  shows "unat (plan_sectors d (gpt_sector_size d)) = entry_span d"
proof -
  let ?sz = "gpt_sector_size d" and ?n = "partition_entry_count d"
  have sz: "unat ?sz = 512 \<or> unat ?sz = 4096" using assms by (auto simp: gpt_frame_wf_def)
  have esz: "partition_entry_size d = 128" and n: "unat ?n \<le> 16384"
    using assms by (simp_all add: gpt_frame_wf_def word_le_nat_alt)
  have "unat (ucast ?n * 128 :: u64) = unat ?n * 128"
    using n by (subst unat_mult_u64) simp_all
  then have "unat (ucast ?n * 128 + ucast ?sz :: u64) = unat ?n * 128 + unat ?sz"
    using n sz by (subst unat_add_u64) auto
  moreover from this have "(1 :: u64) \<le> ucast ?n * 128 + ucast ?sz"
    using sz by (auto simp: word_le_nat_alt)
  ultimately have "unat (ucast ?n * 128 + ucast ?sz - 1 :: u64) = unat ?n * 128 + (unat ?sz - 1)"
    using sz by (subst unat_sub_u64) auto
  then show ?thesis using esz by (simp add: plan_sectors_def unat_div entry_span_def)
qed

lemma clone_layout:
  assumes wf: "gpt_wf source" and sec: "sector = gpt_sector_size source"
    and aligned: "size_bytes mod ucast sector = 0"
    and size: "unat (gpt_sector_count source) * unat sector \<le> unat size_bytes"
  defines "cnt \<equiv> size_bytes div ucast sector" and "sectors \<equiv> plan_sectors source sector"
    and "es \<equiv> entry_span source"
  shows "unat cnt * unat sector = unat size_bytes" "unat (gpt_sector_count source) \<le> unat cnt"
    "unat sectors = es" "max (first_usable_lba source) (2 + sectors) = first_usable_lba source"
    "unat (cnt - 1 - sectors - 1) = unat cnt - 1 - es - 1" "\<not> cnt \<le> 3 + sectors * 2"
    "\<forall>p \<in> set (gpt_partitions source).
       first_usable_lba source \<le> first_lba p \<and> last_lba p \<le> cnt - 1 - sectors - 1"
proof -
  let ?sz = "unat sector" and ?scnt = "gpt_sector_count source"
  have table: "gpt_table_wf source" and frame: "gpt_frame_wf source"
    using wf by (simp_all add: gpt_wf_def gpt_table_wf_def)
  have sz: "?sz = 512 \<or> ?sz = 4096" using frame sec by (auto simp: gpt_frame_wf_def)
  show count: "unat cnt * ?sz = unat size_bytes"
  proof -
    have "unat size_bytes mod ?sz = 0"
      using arg_cong [OF aligned, of unat] by (simp add: unat_mod)
    then show ?thesis by (auto simp: unat_div mod_eq_0_iff_dvd cnt_def)
  qed
  show ge: "unat ?scnt \<le> unat cnt"
  proof -
    have "unat ?scnt * ?sz \<le> unat cnt * ?sz" using size count by simp
    then show ?thesis using sz by auto
  qed
  show sectors: "unat sectors = es"
    using unat_plan_sectors [OF frame] sec by (simp add: sectors_def es_def)
  have src: "68 \<le> unat ?scnt" "2 * es + 3 < unat ?scnt"
    "unat (last_usable_lba source) + 1 + es < unat ?scnt" "2 + es \<le> unat (first_usable_lba source)"
    using frame layout_cnt [OF frame] by (simp_all add: gpt_frame_wf_def es_def)
  show "max (first_usable_lba source) (2 + sectors) = first_usable_lba source"
  proof -
    have "unat (2 + sectors) = 2 + es"
      using sectors src(2) unat_u64_bound [of ?scnt] by (subst unat_add_u64) simp_all
    then show ?thesis using src(4) by (auto simp: max_def word_le_nat_alt word_unat_eq_iff)
  qed
  have "unat (cnt - 1) = unat cnt - 1"
    using src(1) ge by (subst unat_sub_u64) (simp_all add: word_le_nat_alt)
  then have "unat (cnt - 1 - sectors) = unat cnt - 1 - es"
    using src(2) ge sectors by (subst unat_sub_u64) (simp_all add: word_le_nat_alt)
  then show last: "unat (cnt - 1 - sectors - 1) = unat cnt - 1 - es - 1"
    using src(2) ge sectors by (subst unat_sub_u64) (simp_all add: word_le_nat_alt)
  show "\<not> cnt \<le> 3 + sectors * 2"
  proof -
    have "unat (sectors * 2) = es * 2"
      using sectors src(2) unat_u64_bound [of ?scnt] by (subst unat_mult_u64) simp_all
    then have "unat (3 + sectors * 2) = 3 + es * 2"
      using src(2) unat_u64_bound [of ?scnt] by (subst unat_add_u64) simp_all
    then show ?thesis using src(2) ge by (simp add: word_le_nat_alt)
  qed
  have "last_usable_lba source \<le> cnt - 1 - sectors - 1"
    using src(3) ge last by (simp add: word_le_nat_alt)
  then show "\<forall>p \<in> set (gpt_partitions source).
       first_usable_lba source \<le> first_lba p \<and> last_lba p \<le> cnt - 1 - sectors - 1"
    using table by (auto simp: gpt_table_wf_def list_all_iff partition_wf_def)
qed

definition clone_target :: "gpt_disk \<Rightarrow> u64 \<Rightarrow> u32 \<Rightarrow> guid \<Rightarrow> gpt_partition list \<Rightarrow> gpt_disk" where
  "clone_target source size_bytes sector dg ps =
     (let count = size_bytes div ucast sector
      in source\<lparr>gpt_sector_count := count,
           last_usable_lba := count - 1 - of_nat (entry_span source) - 1,
           disk_guid := dg, gpt_partitions := ps\<rparr>)"

text \<open>
  For a well-formed source table, \<open>make_gpt_write_plan\<close> refuses a different sector size, a target
  that is not a whole number of sectors and a target smaller than the source, as unsupported and
  before any identifier is drawn; in every other case the only thing left that can stop it is the
  generator: no bounds check of the new layout can fail, and the new table is the source's with
  the new size, the last usable sector moved to the new end, and the new identifiers.
\<close>

lemma make_gpt_write_plan_eq:
  assumes wf: "gpt_wf source"
  shows "make_gpt_write_plan source size_bytes sector next_guid s =
    (if sector \<noteq> gpt_sector_size source \<or> size_bytes mod ucast sector \<noteq> 0 \<or>
        unat size_bytes < unat (gpt_sector_count source) * unat (gpt_sector_size source)
     then (Inl unsupported_error, s)
     else bindE next_guid (\<lambda>dg. if guid_is_zero dg then failE data_error else
       bindE (assign_partition_guids next_guid {dg} (gpt_partitions source)) (\<lambda>ps.
         returnE \<lparr>gwp_target_disk = clone_target source size_bytes sector dg ps,
           gwp_writes = gpt_write_list (clone_target source size_bytes sector dg ps)
             (of_nat (entry_span source))\<rparr>)) s)"
proof -
  have frame: "gpt_frame_wf source" using wf by (simp add: gpt_wf_def gpt_table_wf_def)
  then have frame': "gpt_sector_size source = 512 \<or> gpt_sector_size source = 4096"
    "partition_entry_size source = 128" "partition_entry_count source \<noteq> 0"
    "\<not> partition_entry_count source > kMaximumEntryCount"
    "unat (gpt_sector_count source) * unat (gpt_sector_size source) < 2 ^ 64"
    by (simp_all add: gpt_frame_wf_def not_less)
  define size where "size = gpt_sector_count source * ucast (gpt_sector_size source)"
  have size: "checked_multiply (gpt_sector_count source) (ucast (gpt_sector_size source)) = Some size"
    "unat size = unat (gpt_sector_count source) * unat (gpt_sector_size source)"
    using frame'(5) unfolding size_def by (subst checked_multiply_unat unat_mult_u64; simp)+
  have small: "size_bytes < size \<longleftrightarrow>
      unat size_bytes < unat (gpt_sector_count source) * unat (gpt_sector_size source)"
    by (simp add: word_less_nat_alt size(2))
  show ?thesis
  proof (cases "sector \<noteq> gpt_sector_size source \<or> size_bytes mod ucast sector \<noteq> 0 \<or> size_bytes < size")
    case True
    then show ?thesis
      unfolding make_gpt_write_plan_def small [symmetric] using size(1) by (auto simp: failE_def)
  next
    case False
    then have c: "sector = gpt_sector_size source" "size_bytes mod ucast sector = 0"
      "\<not> size_bytes < size"
      by blast+
    then have c3: "unat (gpt_sector_count source) * unat sector \<le> unat size_bytes"
      by (simp add: small)
    note lay = clone_layout [OF wf c(1,2) c3, unfolded plan_sectors_def]
    have sec: "(ucast (partition_entry_count source) * ucast (partition_entry_size source)
        + ucast sector - 1) div ucast sector = (of_nat (entry_span source) :: u64)"
      using arg_cong [OF lay(3), of "of_nat :: nat \<Rightarrow> u64"] by simp
    have pre: "\<not> ((sector \<noteq> 512 \<and> sector \<noteq> 4096) \<or> sector \<noteq> gpt_sector_size source \<or>
         size_bytes mod ucast sector \<noteq> 0 \<or> partition_entry_size source \<noteq> kSupportedEntrySize \<or>
         partition_entry_count source = 0 \<or> partition_entry_count source > kMaximumEntryCount)"
      using c frame' by blast
    have in_bounds: "\<not> list_ex (\<lambda>p. first_lba p < first_usable_lba source \<or>
        size_bytes div ucast sector - 1 - of_nat (entry_span source) - 1 < last_lba p) (gpt_partitions source)"
      using lay(7) unfolding sec by (auto simp: list_ex_iff not_less)
    have upd: "source\<lparr>gpt_sector_count := c, first_usable_lba := first_usable_lba source\<rparr> =
        source\<lparr>gpt_sector_count := c\<rparr>" for c
      by (cases source) simp
    have enough: "\<not> size_bytes < size" "\<not> size_bytes div ucast sector \<le> 3 + of_nat (entry_span source) * 2"
      using False lay(6) unfolding sec by blast+
    show ?thesis
      using in_bounds
      unfolding make_gpt_write_plan_def if_not_P [OF pre] if_not_P [OF False] size(1) option.case Let_def sec
        small [symmetric] clone_target_def lay(4) [unfolded sec] upd if_not_P [OF enough(1)]
        if_not_P [OF enough(2)]
      by (simp cong: if_cong)
  qed
qed

lemma make_gpt_write_planE:
  assumes "gpt_wf source" "make_gpt_write_plan source size_bytes sector next_guid s = (Inr plan, t)"
  obtains dg ps u where "sector = gpt_sector_size source" "size_bytes mod ucast sector = 0"
    "unat (gpt_sector_count source) * unat sector \<le> unat size_bytes" "dg \<noteq> 0"
    "assign_partition_guids next_guid {dg} (gpt_partitions source) u = (Inr ps, t)"
    "gwp_target_disk plan = clone_target source size_bytes sector dg ps"
    "gwp_writes plan = gpt_write_list (gwp_target_disk plan) (of_nat (entry_span source))"
  using assms(2) unfolding make_gpt_write_plan_eq [OF assms(1)]
  by (auto simp: bindE_eq_Inr guid_is_zero_def not_less split: if_splits)

lemma make_gpt_write_plan_layout:
  assumes wf: "gpt_wf source"
    and plan: "make_gpt_write_plan source size_bytes sector next_guid s = (Inr plan, t)"
  shows "layout_ok (gwp_target_disk plan) (of_nat (entry_span source))"
    "gpt_wf (gwp_target_disk plan)"
proof -
  from make_gpt_write_planE [OF wf plan] obtain dg ps u where a: "sector = gpt_sector_size source"
    "size_bytes mod ucast sector = 0"
    "unat (gpt_sector_count source) * unat sector \<le> unat size_bytes" "dg \<noteq> 0"
    "assign_partition_guids next_guid {dg} (gpt_partitions source) u = (Inr ps, t)"
    "gwp_target_disk plan = clone_target source size_bytes sector dg ps" .
  note lay = clone_layout [OF wf a(1-3)] and guids = assign_partition_guids_success [OF a(5)]
  let ?t = "gwp_target_disk plan" and ?es = "entry_span source" and ?cnt = "size_bytes div ucast sector"
  have table: "gpt_table_wf source" and frame: "gpt_frame_wf source"
    and sorted: "sorted_wrt (\<lambda>p q. entry_index p < entry_index q) (gpt_partitions source)"
    using wf by (simp_all add: gpt_wf_def gpt_table_wf_def)
  have sec: "of_nat ?es = plan_sectors source sector"
    using arg_cong [OF lay(3), of "of_nat :: nat \<Rightarrow> u64"] by simp
  have last: "unat (?cnt - 1 - of_nat ?es - 1) = unat ?cnt - 1 - ?es - 1"
    using lay(5) by (simp only: sec)
  have tspan: "entry_span ?t = ?es" by (simp add: entry_span_def a(6) clone_target_def Let_def)
  have size: "unat ?cnt * unat (gpt_sector_size source) < 18446744073709551616"
    using lay(1) a(1) unat_u64_bound [of size_bytes] by simp
  have tframe: "gpt_frame_wf ?t"
    unfolding gpt_frame_wf_def tspan
    using frame lay(2) last size a(4)
    by (simp add: gpt_frame_wf_def a(6) clone_target_def Let_def word_le_nat_alt) arith
  show "layout_ok ?t (of_nat ?es)" using tframe tspan lay(3) sec by (simp add: layout_ok_def)
  have same: "map without_guid ps = map without_guid (gpt_partitions source)" using guids by simp
  have eqs: "map entry_index ps = map entry_index (gpt_partitions source)"
    "map (\<lambda>p. (first_lba p, last_lba p)) ps = map (\<lambda>p. (first_lba p, last_lba p)) (gpt_partitions source)"
    by (rule map_without_guid [OF same]; simp)+
  have idx: "sorted_wrt (\<lambda>p q. entry_index p < entry_index q) ps"
    using sorted eqs(1) sorted_wrt_map [of "(<)" entry_index ps]
      sorted_wrt_map [of "(<)" entry_index "gpt_partitions source"] by simp
  have dis: "sorted_wrt lba_disjoint ps"
  proof -
    let ?R = "\<lambda>(f, l) (f', l'). l < f' \<or> l' < (f :: u64)" and ?k = "\<lambda>p. (first_lba p, last_lba p)"
    have k: "sorted_wrt lba_disjoint qs = sorted_wrt ?R (map ?k qs)" for qs
      by (simp add: sorted_wrt_map lba_disjoint_def [abs_def])
    show ?thesis using table unfolding k eqs(2) by (simp add: gpt_table_wf_def k)
  qed
  have parts: "partition_wf ?t p" if "p \<in> set ps" for p
  proof -
    have "without_guid p \<in> without_guid ` set (gpt_partitions source)"
      using that arg_cong [OF same, of set] by force
    then obtain q where q: "q \<in> set (gpt_partitions source)" "without_guid p = without_guid q" by auto
    have same: "entry_index p = entry_index q" "type_guid p = type_guid q" "first_lba p = first_lba q"
      "last_lba p = last_lba q" "partition_name p = partition_name q"
      using q(2) without_guid_sel by metis+
    have "partition_wf source q" using table q(1) by (simp add: gpt_table_wf_def list_all_iff)
    then show ?thesis
      using lay(7) q(1) guids that
      by (auto simp: partition_wf_def a(6) clone_target_def Let_def same sec)
  qed
  have "gpt_partitions ?t = ps" by (simp add: a(6) clone_target_def Let_def)
  then show "gpt_wf ?t"
    using tframe parts idx dis guids strictly_sorted_distinct [OF idx]
    by (simp add: gpt_wf_def gpt_table_wf_def list_all_iff)
qed

lemma gpt_wf_sort_id: "gpt_wf d \<Longrightarrow> sort_key entry_index (gpt_partitions d) = gpt_partitions d"
  by (rule sort_key_id_if_sorted)
    (auto simp: gpt_wf_def sorted_wrt_map intro: sorted_wrt_mono_rel [rotated])

lemma parse_written_plan:
  assumes "gpt_wf source"
    and "make_gpt_write_plan source size_bytes sector next_guid s = (Inr plan, t)"
  shows "parse_gpt (memory_source_reader size_bytes sector (apply_writes (gwp_writes plan) img)) u =
    (Inr (gwp_target_disk plan), u)"
proof -
  let ?t = "gwp_target_disk plan"
  from make_gpt_write_planE [OF assms] obtain dg ps where a: "sector = gpt_sector_size source"
    "size_bytes mod ucast sector = 0"
    "unat (gpt_sector_count source) * unat sector \<le> unat size_bytes"
    "?t = clone_target source size_bytes sector dg ps"
    "gwp_writes plan = gpt_write_list ?t (of_nat (entry_span source))" .
  note lay = make_gpt_write_plan_layout [OF assms]
  have sz: "gpt_sector_size ?t = sector" "unat size_bytes = unat (gpt_sector_count ?t) * unat (gpt_sector_size ?t)"
    using a clone_layout(1) [OF assms(1) a(1-3)] by (simp_all add: clone_target_def Let_def)
  have "writes_on_image (gwp_writes plan) (apply_writes (gwp_writes plan) img)"
    unfolding a(5) using write_list_extents(1) [OF lay(1)] by (rule apply_writes_on_image)
  then have on: "gpt_on_image ?t (apply_writes (gwp_writes plan) img)"
    using writes_on_image_layout [OF lay(1)] by (simp add: a(5))
  have "gpt_table_wf ?t" using lay(2) by (simp add: gpt_wf_def)
  from parse_gpt_on_image [OF this on sz(2), of u] show ?thesis
    using gpt_wf_sort_id [OF lay(2)] by (simp add: sz(1))
qed

lemma parse_gpt_signature:
  assumes "parse_gpt (memory_source_reader sz sector img) s = (Inr d, t)"
  shows "img_bytes img (unat sector) 8 = kGptSignature"
proof -
  let ?rd = "memory_source_reader sz sector img :: 'a source_reader"
  obtain primary u v where "parse_header ?rd 1 sector u = (Inr primary, v)"
    and sec: "sector = 512 \<or> sector = 4096"
    using assms by (auto simp: parse_gpt_def Let_def prog_simps split: if_splits option.splits)
  then obtain bs where bs: "read_exact ?rd (ucast sector) (ucast sector) u = (Inr bs, v)"
    and dec: "decode_header bs sector = Inr primary"
    by (auto simp: parse_header_def prog_simps checked_multiply_Some_iff split: option.splits)
  have "bs = img_bytes img (unat sector) (unat sector)"
    using bs by (auto simp: read_exact_def bindE_eq_Inr dest: memory_source_read_success split: if_splits)
  moreover have "slice bs 0 8 = kGptSignature"
    using dec by (auto simp: decode_header_def split: if_splits)
  ultimately show ?thesis using sec by (auto simp: img_bytes_slice)
qed

text \<open>
  The plan keeps the partitions as they are, entry, type, extent, attributes and name, and gives
  the disk and every partition an identifier of its own: non-zero, pairwise distinct and distinct
  from the disk's.
\<close>

theorem make_gpt_write_plan_preserves:
  assumes "gpt_wf source"
    and "make_gpt_write_plan source size_bytes sector next_guid s = (Inr plan, t)"
  shows "map without_guid (gpt_partitions (gwp_target_disk plan)) =
      map without_guid (gpt_partitions source) \<and>
    distinct (disk_guid (gwp_target_disk plan) #
      map unique_guid (gpt_partitions (gwp_target_disk plan))) \<and>
    0 \<notin> set (disk_guid (gwp_target_disk plan) #
      map unique_guid (gpt_partitions (gwp_target_disk plan))) \<and>
    first_usable_lba (gwp_target_disk plan) = first_usable_lba source"
proof -
  from make_gpt_write_planE [OF assms] obtain dg ps u where a: "dg \<noteq> 0"
    "assign_partition_guids next_guid {dg} (gpt_partitions source) u = (Inr ps, t)"
    "gwp_target_disk plan = clone_target source size_bytes sector dg ps" .
  from assign_partition_guids_success [OF a(2)] a(1) show ?thesis
    by (auto simp: a(3) clone_target_def Let_def)
qed

text \<open>
  The plan writes the two entry arrays, the backup header and the protective MBR first and the
  primary header last; the five writes are pairwise disjoint, inside the disk, and none of them
  touches the usable range, where the partitions are.
\<close>

theorem make_gpt_write_plan_writes:
  assumes "gpt_wf source"
    and "make_gpt_write_plan source size_bytes sector next_guid s = (Inr plan, t)"
  shows "map gw_kind (gwp_writes plan) =
      [Primary_entries, Backup_entries, Backup_header, Protective_mbr, Primary_header_commit] \<and>
    sorted_wrt write_disjoint (gwp_writes plan) \<and>
    list_all (\<lambda>w. unat (gw_offset w) + length (gw_bytes w) \<le> unat size_bytes \<and>
        (unat (gw_offset w) + length (gw_bytes w) \<le>
           unat (first_usable_lba (gwp_target_disk plan)) * unat sector \<or>
         (unat (last_usable_lba (gwp_target_disk plan)) + 1) * unat sector \<le> unat (gw_offset w)))
      (gwp_writes plan)"
proof -
  let ?t = "gwp_target_disk plan"
  from make_gpt_write_planE [OF assms] obtain dg ps where a: "sector = gpt_sector_size source"
    "size_bytes mod ucast sector = 0"
    "unat (gpt_sector_count source) * unat sector \<le> unat size_bytes"
    "?t = clone_target source size_bytes sector dg ps"
    "gwp_writes plan = gpt_write_list ?t (of_nat (entry_span source))" .
  have sz: "gpt_sector_size ?t = sector" "unat (gpt_sector_count ?t) * unat sector = unat size_bytes"
    using a clone_layout(1) [OF assms(1) a(1-3)] by (simp_all add: clone_target_def Let_def)
  have "map gw_kind (gwp_writes plan) =
      [Primary_entries, Backup_entries, Backup_header, Protective_mbr, Primary_header_commit]"
    unfolding a(5) by (simp add: gpt_write_list_def Let_def)
  moreover note write_list_extents [OF make_gpt_write_plan_layout(1) [OF assms], unfolded sz, folded a(5)]
  ultimately show ?thesis by (auto simp: list_all_iff)
qed

text \<open>
  C29. Until the commit the target has no valid table: on a disk whose sector 1 does not hold the GPT
  signature, \<open>parse_gpt\<close> fails after any of the writes before the last.
\<close>

theorem make_gpt_write_plan_commit_last:
  assumes wf: "gpt_wf source"
    and plan: "make_gpt_write_plan source size_bytes sector next_guid s = (Inr plan, t)"
    and blank: "img_bytes img (unat sector) 8 \<noteq> kGptSignature"
    and k: "k < length (gwp_writes plan)"
  shows "\<exists>e v. parse_gpt (memory_source_reader size_bytes sector
    (apply_writes (take k (gwp_writes plan)) img)) u = (Inl e, v)"
proof -
  let ?t = "gwp_target_disk plan" and ?img = "apply_writes (take k (gwp_writes plan)) img"
  from make_gpt_write_planE [OF wf plan] obtain dg ps where a: "sector = gpt_sector_size source"
    "?t = clone_target source size_bytes sector dg ps"
    "gwp_writes plan = gpt_write_list ?t (of_nat (entry_span source))" .
  have sz: "gpt_sector_size ?t = sector" using a by (simp add: clone_target_def Let_def)
  note lay = make_gpt_write_plan_layout(1) [OF wf plan]
  have commit: "gwp_writes plan ! 4 = last (gwp_writes plan)" "length (gwp_writes plan) = 5"
    "unat (gw_offset (last (gwp_writes plan))) = unat sector"
    "length (gw_bytes (last (gwp_writes plan))) = unat sector"
  proof -
    have frame: "gpt_frame_wf ?t" using lay by (simp add: layout_ok_def)
    show "gwp_writes plan ! 4 = last (gwp_writes plan)" "length (gwp_writes plan) = 5"
      by (simp_all add: a(3) gpt_write_list_def Let_def)
    have "map (\<lambda>w. (gw_kind w, unat (gw_offset w), gw_bytes w)) (gwp_writes plan) ! 4 =
        (Primary_header_commit, unat sector, build_header ?t 1 (gpt_sector_count ?t - 1) 2
          (crc32 (build_entry_array ?t)))"
      unfolding a(3) write_list_contents [OF lay] by (simp add: sz)
    then show "unat (gw_offset (last (gwp_writes plan))) = unat sector"
      "length (gw_bytes (last (gwp_writes plan))) = unat sector"
      by (simp_all add: a(3) gpt_write_list_def Let_def sz build_header_def)
  qed
  have "sorted_wrt write_disjoint (gwp_writes plan)"
    unfolding a(3) using write_list_extents(1) [OF lay] .
  then have "\<forall>w \<in> set (take k (gwp_writes plan)). write_disjoint w (last (gwp_writes plan))"
    using k commit(2) unfolding commit(1) [symmetric]
    by (auto simp: sorted_wrt_iff_nth_less in_set_conv_nth)
  then have "?img i = img i" if "unat sector \<le> i" "i < unat sector + unat sector" for i
    using that by (intro apply_writes_outside) (auto simp: list_all_iff write_disjoint_def commit)
  moreover have "8 \<le> unat sector"
    using lay layout_sz [of ?t] sz by (simp add: layout_ok_def)
  ultimately have "img_bytes ?img (unat sector) 8 = img_bytes img (unat sector) 8"
    by (intro img_bytes_eqI) simp
  then have no_sig: "img_bytes ?img (unat sector) 8 \<noteq> kGptSignature" using blank by simp
  obtain r v where r: "parse_gpt (memory_source_reader size_bytes sector ?img) u = (r, v)"
    by (cases "parse_gpt (memory_source_reader size_bytes sector ?img) u")
  show ?thesis
  proof (cases r)
    case (Inl e)
    then show ?thesis using r by auto
  next
    case (Inr d)
    then show ?thesis using parse_gpt_signature [OF r [unfolded Inr]] no_sig by simp
  qed
qed

section \<open>One more partition\<close>

lemma check_existing_success:
  assumes "check_existing d f l entries guids ps = Inr (entries', guids')"
  shows "entries' = entries \<union> entry_index ` set ps" "guids' = guids \<union> unique_guid ` set ps"
    "\<forall>p \<in> set ps. l < first_lba p \<or> last_lba p < f"
    "\<forall>p \<in> set ps. unique_guid p \<notin> guids"
  using assms
  by (induction d f l entries guids ps rule: check_existing.induct)
    (auto split: if_splits simp: not_le)

lemma draw_fresh_guid_success:
  "draw_fresh_guid n next_guid used s = (Inr g, t) \<Longrightarrow> g = 0 \<or> g \<notin> used"
  by (induction n next_guid used arbitrary: s rule: draw_fresh_guid.induct)
    (auto simp: bindE_eq_Inr split: if_splits)

lemma make_gpt_add_partition_planE:
  assumes "make_gpt_add_partition_plan current request next_guid s = (Inr plan, t)"
  obtains new u where "gwp_target_disk plan = current\<lparr>gpt_partitions := gpt_partitions current @ [new]\<rparr>"
    "gwp_writes plan = filter (\<lambda>w. gw_kind w \<noteq> Protective_mbr)
       (gpt_write_list (gwp_target_disk plan) (plan_sectors current (gpt_sector_size current)))"
    "entry_index new \<notin> entry_index ` set (gpt_partitions current)"
    "entry_index new < partition_entry_count current"
    "\<forall>i < entry_index new. i \<in> entry_index ` set (gpt_partitions current)"
    "unique_guid new \<noteq> 0"
    "unique_guid new \<notin> insert (disk_guid current) (unique_guid ` set (gpt_partitions current))"
    "type_guid new = req_type_guid request" "type_guid new \<noteq> 0"
    "first_lba new = req_first_lba request"
    "unat (last_lba new) + 1 = unat (first_lba new) + unat (req_sector_count request)"
    "first_usable_lba current \<le> first_lba new" "last_lba new \<le> last_usable_lba current"
    "attributes new = req_attributes request" "partition_name new = req_name request"
    "length (req_name request) \<le> 36"
    "\<forall>p \<in> set (gpt_partitions current). lba_disjoint p new"
    "disk_guid current \<notin> unique_guid ` set (gpt_partitions current)"
    "req_sector_count request \<noteq> 0"
proof -
  let ?bad = "(gpt_sector_size current \<noteq> 512 \<and> gpt_sector_size current \<noteq> 4096) \<or>
         gpt_sector_count current = 0 \<or> guid_is_zero (disk_guid current) \<or>
         partition_entry_size current \<noteq> kSupportedEntrySize \<or>
         partition_entry_count current = 0 \<or>
         partition_entry_count current > kMaximumEntryCount \<or>
         req_sector_count request = 0 \<or> guid_is_zero (req_type_guid request) \<or>
         length (req_name request) > 36"
  have ok: "\<not> ?bad"
  proof
    assume ?bad
    then show False using assms by (simp only: make_gpt_add_partition_plan_def if_True failE_eq sum.distinct simp_thms)
  qed
  from assms [unfolded make_gpt_add_partition_plan_def if_not_P [OF ok]]
  obtain e entries guids i g u where a:
    "checked_add (req_first_lba request) (req_sector_count request - 1) = Some e"
    "Inr (entries, guids) =
       check_existing current (req_first_lba request) e {} {disk_guid current} (gpt_partitions current)"
    "find (\<lambda>i. i \<notin> entries) (map of_nat [0..<unat (partition_entry_count current)]) = Some i"
    "draw_fresh_guid 32 next_guid guids u = (Inr g, t)" "g \<noteq> 0"
    "first_usable_lba current \<le> req_first_lba request" "e \<le> last_usable_lba current"
    "gwp_target_disk plan = current\<lparr>gpt_partitions := gpt_partitions current @
       [\<lparr>entry_index = i, type_guid = req_type_guid request, unique_guid = g,
         first_lba = req_first_lba request, last_lba = e, attributes = req_attributes request,
         partition_name = req_name request\<rparr>]\<rparr>"
    "gwp_writes plan = filter (\<lambda>w. gw_kind w \<noteq> Protective_mbr)
       (gpt_write_list (gwp_target_disk plan) (plan_sectors current (gpt_sector_size current)))"
    unfolding Let_def plan_sectors_def
    by (auto simp: bindE_eq_Inr guid_is_zero_def not_less split: if_splits option.splits)
  have req: "req_sector_count request \<noteq> 0" "req_type_guid request \<noteq> 0" "length (req_name request) \<le> 36"
    using ok by (auto simp: guid_is_zero_def not_less)
  note ex = check_existing_success [OF a(2) [symmetric]]
  obtain k where k: "k < unat (partition_entry_count current)" "i = of_nat k" "i \<notin> entries"
    and below: "\<forall>j < k. of_nat j \<in> entries"
    using a(3) by (auto simp: find_Some_iff)
  have ik: "unat i = k"
    using k(1,2) unat_u32_bound [of "partition_entry_count current"] by (simp add: unat_of_nat_u32)
  have "j \<in> entries" if "j < i" for j
    using below [rule_format, of "unat j"] that ik by (simp add: word_less_nat_alt)
  moreover have "g \<notin> guids" using draw_fresh_guid_success [OF a(4)] a(5) by simp
  moreover have "unat e + 1 = unat (req_first_lba request) + unat (req_sector_count request)"
    using checked_add_SomeD(1) [OF a(1)] req(1) by (simp add: unat_minus_one unat_gt_0)
  moreover have "\<forall>p \<in> set (gpt_partitions current). e < first_lba p \<or> last_lba p < req_first_lba request"
    "disk_guid current \<notin> unique_guid ` set (gpt_partitions current)"
    using ex(3,4) by auto
  ultimately show ?thesis
    using a(5-9) k(1) ik ex(1,2) req k(3)
    by (intro that [of "\<lparr>entry_index = i, type_guid = req_type_guid request, unique_guid = g,
         first_lba = req_first_lba request, last_lba = e, attributes = req_attributes request,
         partition_name = req_name request\<rparr>"])
      (auto simp: word_less_nat_alt lba_disjoint_def)
qed

lemma make_gpt_add_partition_plan_wf:
  assumes wf: "gpt_wf current" and name: "0 \<notin> set (req_name request)"
    and plan: "make_gpt_add_partition_plan current request next_guid s = (Inr plan, t)"
  shows "gpt_table_wf (gwp_target_disk plan)"
    "layout_ok (gwp_target_disk plan) (plan_sectors current (gpt_sector_size current))"
    "gwp_writes plan = filter (\<lambda>w. gw_kind w \<noteq> Protective_mbr)
       (gpt_write_list (gwp_target_disk plan) (plan_sectors current (gpt_sector_size current)))"
    "gpt_sector_size (gwp_target_disk plan) = gpt_sector_size current"
    "gpt_sector_count (gwp_target_disk plan) = gpt_sector_count current"
proof -
  let ?t = "gwp_target_disk plan"
  from plan obtain new u where a: "?t = current\<lparr>gpt_partitions := gpt_partitions current @ [new]\<rparr>"
    "gwp_writes plan = filter (\<lambda>w. gw_kind w \<noteq> Protective_mbr)
       (gpt_write_list ?t (plan_sectors current (gpt_sector_size current)))"
    "entry_index new \<notin> entry_index ` set (gpt_partitions current)"
    "entry_index new < partition_entry_count current"
    "unique_guid new \<noteq> 0"
    "unique_guid new \<notin> insert (disk_guid current) (unique_guid ` set (gpt_partitions current))"
    "type_guid new \<noteq> 0" "first_lba new = req_first_lba request"
    "unat (last_lba new) + 1 = unat (first_lba new) + unat (req_sector_count request)"
    "first_usable_lba current \<le> first_lba new" "last_lba new \<le> last_usable_lba current"
    "partition_name new = req_name request" "length (req_name request) \<le> 36"
    "\<forall>p \<in> set (gpt_partitions current). lba_disjoint p new" "req_sector_count request \<noteq> 0"
    by (rule make_gpt_add_partition_planE) blast
  show w: "gwp_writes plan = filter (\<lambda>w. gw_kind w \<noteq> Protective_mbr)
       (gpt_write_list ?t (plan_sectors current (gpt_sector_size current)))" by (rule a)
  show "gpt_sector_size ?t = gpt_sector_size current" "gpt_sector_count ?t = gpt_sector_count current"
    by (simp_all add: a(1))
  have table: "gpt_table_wf current" and frame: "gpt_frame_wf current"
    using wf by (simp_all add: gpt_wf_def gpt_table_wf_def)
  have span: "entry_span ?t = entry_span current" by (simp add: entry_span_def a(1))
  have tframe: "gpt_frame_wf ?t" using frame by (simp add: gpt_frame_wf_def span) (simp add: a(1))
  then show "layout_ok ?t (plan_sectors current (gpt_sector_size current))"
    using unat_plan_sectors [OF frame] by (simp add: layout_ok_def span)
  have "first_lba new \<le> last_lba new"
    using a(9) unat_gt_0 [of "req_sector_count request"] a(15) by (simp add: word_le_nat_alt)
  then have "partition_wf ?t new"
    using a name by (simp add: partition_wf_def)
  moreover have "partition_wf ?t p" if "p \<in> set (gpt_partitions current)" for p
    using table that by (simp add: gpt_table_wf_def list_all_iff partition_wf_def a(1))
  ultimately show "gpt_table_wf ?t"
    using tframe table a(3,6,14)
    by (auto simp: gpt_table_wf_def list_all_iff a(1) sorted_wrt_append)
qed

lemma write_list_filter:
  "filter (\<lambda>w. gw_kind w \<noteq> Protective_mbr) (gpt_write_list d n) =
     take 3 (gpt_write_list d n) @ drop 4 (gpt_write_list d n)"
  "gw_kind (gpt_write_list d n ! 3) = Protective_mbr"
  by (simp_all add: gpt_write_list_def Let_def)

lemma gpt_on_image_writes:
  assumes ok: "layout_ok d sectors"
    and w: "writes_on_image (filter (\<lambda>w. gw_kind w \<noteq> Protective_mbr) (gpt_write_list d sectors)) img"
    and mbr: "protective_mbr_ok (img_bytes img 0 (unat (gpt_sector_size d)))"
  shows "gpt_on_image d img"
proof -
  let ?sz = "unat (gpt_sector_size d)" and ?es = "build_entry_array d"
  have frame: "gpt_frame_wf d" using ok by (simp add: layout_ok_def)
  have take_pad: "img_bytes img off (length ?es) = ?es"
    if "img_bytes img off (length (padded_built d)) = padded_built d" for off
  proof -
    have "slice (img_bytes img off (length (padded_built d))) 0 (length ?es) =
        slice (padded_built d) 0 (length ?es)"
      using that by simp
    moreover have "length ?es \<le> length (padded_built d)" by (simp add: padded_built_def)
    ultimately show ?thesis by (simp add: img_bytes_slice padded_built_def slice_append1 slice_all)
  qed
  have "list_all (\<lambda>(k, off, bs). k \<noteq> Protective_mbr \<longrightarrow> img_bytes img off (length bs) = bs)
      (map (\<lambda>w. (gw_kind w, unat (gw_offset w), gw_bytes w)) (gpt_write_list d sectors))"
    using w by (simp add: writes_on_image_def list_all_iff)
  then show ?thesis
    using take_pad mbr unfolding write_list_contents [OF ok]
    by (simp add: gpt_on_image_def Let_def length_protective_mbr [OF frame])
qed

lemma parse_gpt_protective:
  assumes "parse_gpt (memory_source_reader sz sector img) s = (Inr d, t)"
  shows "protective_mbr_ok (img_bytes img 0 (unat sector))"
proof -
  let ?rd = "memory_source_reader sz sector img :: 'a source_reader"
  obtain mbr u v where m: "read_exact ?rd 0 (ucast sector) u = (Inr mbr, v)" "protective_mbr_ok mbr"
    and sec: "sector = 512 \<or> sector = 4096"
    using assms by (auto simp: parse_gpt_def Let_def prog_simps split: if_splits option.splits)
  have "mbr = img_bytes img 0 (unat sector)"
    using m(1) by (auto simp: read_exact_def bindE_eq_Inr dest: memory_source_read_success split: if_splits)
  then show ?thesis using m(2) by simp
qed

text \<open>
  Adding a partition to a table read from a disk: after the four writes of the plan (the protective
  MBR stays as it is) \<open>parse_gpt\<close> accepts the disk and returns the old table with the new partition
  in it, in the order of the entries.
\<close>

theorem make_gpt_add_partition_plan_roundtrip:
  assumes parsed: "parse_gpt (memory_source_reader size_bytes sector img) u = (Inr current, u')"
    and name: "0 \<notin> set (req_name request)"
    and plan: "make_gpt_add_partition_plan current request next_guid s = (Inr plan, t)"
  shows "parse_gpt (memory_source_reader size_bytes sector (apply_writes (gwp_writes plan) img)) v =
    (Inr ((gwp_target_disk plan)\<lparr>gpt_partitions :=
       sort_key entry_index (gpt_partitions (gwp_target_disk plan))\<rparr>), v)"
proof -
  let ?t = "gwp_target_disk plan" and ?img = "apply_writes (gwp_writes plan) img"
  have wf: "gpt_wf current" and sz: "gpt_sector_size current = sector"
    and size: "unat (gpt_sector_count current) * unat sector = unat size_bytes"
    using parse_gpt_result_wf [OF parsed] by auto
  note pw = make_gpt_add_partition_plan_wf [OF wf name plan]
  let ?ws = "gpt_write_list ?t (plan_sectors current (gpt_sector_size current))"
  note ext = write_list_extents(1) [OF pw(2)]
  have "sorted_wrt write_disjoint (gwp_writes plan)"
    unfolding pw(3) using ext by (rule sorted_wrt_filter)
  then have on: "writes_on_image (gwp_writes plan) ?img" by (rule apply_writes_on_image)
  have keep: "img_bytes ?img 0 (unat sector) = img_bytes img 0 (unat sector)"
  proof (rule img_bytes_eqI)
    fix i assume "i < 0 + unat sector"
    have frame: "gpt_frame_wf ?t" using pw(1) by (simp add: gpt_table_wf_def)
    have "list_all (\<lambda>(k, off, bs). k \<noteq> Protective_mbr \<longrightarrow> unat sector \<le> off)
        (map (\<lambda>w. (gw_kind w, unat (gw_offset w), gw_bytes w)) ?ws)"
      unfolding write_list_contents [OF pw(2)] using layout_cnt [OF frame] pw(4) sz
      by (simp, linarith)
    then show "?img i = img i"
      using \<open>i < 0 + unat sector\<close>
      by (intro apply_writes_outside) (auto simp: pw(3) list_all_iff)
  qed
  have "gpt_on_image ?t ?img"
    using parse_gpt_protective [OF parsed] keep on pw(4) sz
    by (intro gpt_on_image_writes [OF pw(2)]) (simp_all add: pw(3))
  from parse_gpt_on_image [OF pw(1) this, of size_bytes v] show ?thesis
    using pw(4,5) sz size by simp
qed

text \<open>
  C31. Adding a partition keeps every existing partition and adds exactly one: at the requested place and of
  the requested length, inside the usable range, disjoint from all the others, in the first free
  entry, under an identifier that nothing on the disk has.
\<close>

theorem make_gpt_add_partition_plan_adds:
  assumes "make_gpt_add_partition_plan current request next_guid s = (Inr plan, t)"
  shows "\<exists>new. gwp_target_disk plan = current\<lparr>gpt_partitions := gpt_partitions current @ [new]\<rparr> \<and>
    first_lba new = req_first_lba request \<and>
    unat (last_lba new) + 1 = unat (req_first_lba request) + unat (req_sector_count request) \<and>
    type_guid new = req_type_guid request \<and> partition_name new = req_name request \<and>
    first_usable_lba current \<le> first_lba new \<and> last_lba new \<le> last_usable_lba current \<and>
    list_all (\<lambda>p. lba_disjoint p new) (gpt_partitions current) \<and>
    entry_index new \<notin> entry_index ` set (gpt_partitions current) \<and>
    list_all (\<lambda>i. of_nat i \<in> entry_index ` set (gpt_partitions current)) [0..<unat (entry_index new)] \<and>
    unique_guid new \<noteq> 0 \<and>
    unique_guid new \<notin> insert (disk_guid current) (unique_guid ` set (gpt_partitions current))"
proof -
  obtain new where new:
    "gwp_target_disk plan = current\<lparr>gpt_partitions := gpt_partitions current @ [new]\<rparr>"
    "entry_index new \<notin> entry_index ` set (gpt_partitions current)"
    "\<forall>i < entry_index new. i \<in> entry_index ` set (gpt_partitions current)"
    "unique_guid new \<noteq> 0"
    "unique_guid new \<notin> insert (disk_guid current) (unique_guid ` set (gpt_partitions current))"
    "type_guid new = req_type_guid request" "first_lba new = req_first_lba request"
    "unat (last_lba new) + 1 = unat (first_lba new) + unat (req_sector_count request)"
    "first_usable_lba current \<le> first_lba new" "last_lba new \<le> last_usable_lba current"
    "partition_name new = req_name request"
    "\<forall>p \<in> set (gpt_partitions current). lba_disjoint p new"
    by (rule make_gpt_add_partition_planE [OF assms]) (rule that; assumption)
  have "of_nat i < entry_index new" if "i < unat (entry_index new)" for i
    using that unat_u32_bound [of "entry_index new"] by (simp add: word_less_nat_alt unat_of_nat_u32)
  then have "list_all (\<lambda>i. of_nat i \<in> entry_index ` set (gpt_partitions current)) [0..<unat (entry_index new)]"
    using new(3) by (auto simp: list_all_iff)
  then show ?thesis
    using new by (intro exI [of _ new]) (simp add: list_all_iff)
qed

section \<open>Concrete tables\<close>

text \<open>The generator of the integration tests (\<open>SequentialGuidGenerator\<close>).\<close>

definition sequential_guid :: "u8 \<Rightarrow> guid" where
  "sequential_guid next = guid_of_bytes [next, 0, 0, 0, 0, 0, 0, 0, 0, 0, 0, 0, 0, 0, 0, 0xA5]"

definition sequential_guid_generator :: "(u8, guid) prog" where
  "sequential_guid_generator next = (Inr (sequential_guid next), next + 1)"

lemma sequential_guid_values [simp]:
  "sequential_guid 1 = 0xA5000000000000000000000000000001"
  "sequential_guid 2 = 0xA5000000000000000000000000000002"
  "sequential_guid 9 = 0xA5000000000000000000000000000009"
  by (simp_all add: sequential_guid_def guid_of_bytes_def)

definition example_disk :: gpt_disk where
  "example_disk = \<lparr>gpt_sector_size = 512, gpt_sector_count = 2048, disk_guid = 7,
     first_usable_lba = 34, last_usable_lba = 2014, partition_entry_count = 128,
     partition_entry_size = 128,
     gpt_partitions = [\<lparr>entry_index = 3, type_guid = kEfiSystem, unique_guid = 9, first_lba = 40,
       last_lba = 1039, attributes = 0, partition_name = [0x45, 0x46, 0x49]\<rparr>]\<rparr>"

lemma example_disk_wf: "gpt_wf example_disk"
  by (simp add: gpt_wf_def gpt_table_wf_def gpt_frame_wf_def partition_wf_def entry_span_def
      example_disk_def kEfiSystem_def guid_of_bytes_def)

definition example_target :: gpt_disk where
  "example_target = clone_target example_disk 2097152 512 (sequential_guid 1)
     (map (\<lambda>p. p\<lparr>unique_guid := sequential_guid 2\<rparr>)
       (gpt_partitions example_disk))"

definition example_clone_plan :: gpt_write_plan where
  "example_clone_plan = \<lparr>gwp_target_disk = example_target,
     gwp_writes = gpt_write_list example_target (of_nat (entry_span example_disk))\<rparr>"

lemma example_plan:
  "make_gpt_write_plan example_disk 2097152 512 sequential_guid_generator 1 = (Inr example_clone_plan, 3)"
  by (subst make_gpt_write_plan_eq [OF example_disk_wf])
    (simp add: example_clone_plan_def example_target_def example_disk_def bindE_def
      sequential_guid_generator_def guid_is_zero_def returnE_def)

lemma example_parse:
  "parse_gpt (memory_source_reader 2097152 512 (apply_writes (gwp_writes example_clone_plan) img)) s =
     (Inr example_target, s)"
  using parse_written_plan [OF example_disk_wf example_plan, of img s]
  by (simp add: example_clone_plan_def)

lemma example_target_eq:
  "example_target = \<lparr>gpt_sector_size = 512, gpt_sector_count = 4096,
     disk_guid = sequential_guid 1,
     first_usable_lba = 34, last_usable_lba = 4062, partition_entry_count = 128,
     partition_entry_size = 128,
     gpt_partitions = [\<lparr>entry_index = 3, type_guid = kEfiSystem,
       unique_guid = sequential_guid 2, first_lba = 40,
       last_lba = 1039, attributes = 0, partition_name = [0x45, 0x46, 0x49]\<rparr>]\<rparr>"
  by (simp add: example_target_def example_disk_def clone_target_def entry_span_def)

definition example_request :: gpt_add_partition_request where
  "example_request = \<lparr>req_first_lba = 2048, req_sector_count = 512, req_type_guid = kMicrosoftReserved,
     req_attributes = 1, req_name = [0x4D]\<rparr>"

lemma example_add_plan:
  "\<exists>plan. make_gpt_add_partition_plan example_target example_request sequential_guid_generator 9 =
     (Inr plan, 10)"
proof -
  have idx: "map of_nat [0..<128] = (0 :: u32) # map of_nat [1..<128]"
    by (simp add: upt_conv_Cons)
  have draw: "draw_fresh_guid 32 sequential_guid_generator {sequential_guid 1, sequential_guid 2} 9 =
      (Inr (sequential_guid 9), 10)"
    using draw_fresh_guid.simps(2) [of 31 sequential_guid_generator]
    by (simp add: bindE_def sequential_guid_generator_def guid_is_zero_def returnE_def)
  have type: "kMicrosoftReserved \<noteq> 0" by (simp add: kMicrosoftReserved_def guid_of_bytes_def)
  show ?thesis
    using draw type
    by (simp add: make_gpt_add_partition_plan_def example_target_eq example_request_def guid_is_zero_def
        checked_add_def bindE_Inr idx returnE_def insert_commute Let_def)
qed

section \<open>The properties of the two plans\<close>

text \<open>
  What \<open>parse_gpt\<close> accepts is a well-formed table for the disk it was read from: distinct entries
  and identifiers, partitions pairwise disjoint, ordered, inside a usable range that leaves room
  for both entry arrays, and a size that is the disk's.
\<close>

theorem parse_gpt_wf:
  assumes "parse_gpt rd s = (Inr d, t)"
  shows "gpt_wf d \<and> gpt_sector_size d = src_logical_sector_size rd \<and>
    unat (gpt_sector_count d) * unat (gpt_sector_size d) = unat (src_size_bytes rd)"
  using assms by (rule parse_gpt_result_wf)

theorem parse_gpt_wf_witness:
  "gpt_wf example_target \<and> gpt_sector_size example_target = 512"
  using parse_gpt_wf [OF example_parse [of "\<lambda>i. 0" "()"]] by simp

text \<open>
  For a well-formed source table, \<open>make_gpt_write_plan\<close> refuses a different sector size, a target
  that is not a whole number of sectors and a target smaller than the source, as unsupported and
  before any identifier is drawn; in every other case the only thing left that can stop it is the
  generator: no bounds check of the new layout can fail, and the new table is the source's with
  the new size, the last usable sector moved to the new end, and the new identifiers.
\<close>

theorem make_gpt_write_plan_decides:
  assumes "gpt_wf source"
  shows "make_gpt_write_plan source size_bytes sector next_guid s =
    (if sector \<noteq> gpt_sector_size source \<or> size_bytes mod ucast sector \<noteq> 0 \<or>
        unat size_bytes < unat (gpt_sector_count source) * unat (gpt_sector_size source)
     then (Inl unsupported_error, s)
     else bindE next_guid (\<lambda>dg. if guid_is_zero dg then failE data_error else
       bindE (assign_partition_guids next_guid {dg} (gpt_partitions source)) (\<lambda>ps.
         returnE \<lparr>gwp_target_disk = clone_target source size_bytes sector dg ps,
           gwp_writes = gpt_write_list (clone_target source size_bytes sector dg ps)
             (of_nat (entry_span source))\<rparr>)) s)"
  using assms by (rule make_gpt_write_plan_eq)

theorem make_gpt_write_plan_decides_witness:
  "gpt_wf example_disk \<and>
   make_gpt_write_plan example_disk 2097152 4096 sequential_guid_generator 1 = (Inl unsupported_error, 1)"
  by (subst make_gpt_write_plan_decides [OF example_disk_wf])
    (simp add: example_disk_wf, simp add: example_disk_def)

text \<open>
  C30. Whatever the target disk held before, once the five writes of a clone's plan are on it
  \<open>parse_gpt\<close> accepts it and returns exactly the planned table.
\<close>

theorem make_gpt_write_plan_roundtrip:
  assumes "gpt_wf source"
    and "make_gpt_write_plan source size_bytes sector next_guid s = (Inr plan, t)"
  shows "parse_gpt (memory_source_reader size_bytes sector (apply_writes (gwp_writes plan) img)) u =
    (Inr (gwp_target_disk plan), u)"
  using assms by (rule parse_written_plan)

theorem make_gpt_write_plan_roundtrip_witness:
  "make_gpt_write_plan example_disk 2097152 512 sequential_guid_generator 1 = (Inr example_clone_plan, 3) \<and>
   parse_gpt (memory_source_reader 2097152 512
     (apply_writes (gwp_writes example_clone_plan) (\<lambda>i. 0xFF))) () =
     (Inr (gwp_target_disk example_clone_plan), ())"
  using make_gpt_write_plan_roundtrip [OF example_disk_wf example_plan] example_plan by simp

theorem make_gpt_write_plan_preserves_witness:
  "make_gpt_write_plan example_disk 2097152 512 sequential_guid_generator 1 = (Inr example_clone_plan, 3) \<and>
   map without_guid (gpt_partitions (gwp_target_disk example_clone_plan)) =
     map without_guid (gpt_partitions example_disk)"
  using make_gpt_write_plan_preserves [OF example_disk_wf example_plan] example_plan by simp

theorem make_gpt_write_plan_writes_witness:
  "make_gpt_write_plan example_disk 2097152 512 sequential_guid_generator 1 = (Inr example_clone_plan, 3) \<and>
   sorted_wrt write_disjoint (gwp_writes example_clone_plan)"
  using make_gpt_write_plan_writes [OF example_disk_wf example_plan] example_plan by simp

theorem make_gpt_write_plan_commit_last_witness:
  "make_gpt_write_plan example_disk 2097152 512 sequential_guid_generator 1 = (Inr example_clone_plan, 3) \<and>
   (\<exists>e v. parse_gpt (memory_source_reader 2097152 512
     (apply_writes (take 4 (gwp_writes example_clone_plan)) (\<lambda>i. 0))) () = (Inl e, v))"
proof -
  have blank: "img_bytes (\<lambda>i. 0) (unat (512 :: u32)) 8 \<noteq> kGptSignature"
    by (simp add: img_bytes_def kGptSignature_def upt_conv_Cons)
  have "4 < length (gwp_writes example_clone_plan)"
    by (simp add: example_clone_plan_def gpt_write_list_def Let_def)
  from make_gpt_write_plan_commit_last [OF example_disk_wf example_plan blank this, where u = "()"] example_plan
  show ?thesis by simp
qed

theorem make_gpt_add_partition_plan_roundtrip_witness:
  "\<exists>plan img. parse_gpt (memory_source_reader 2097152 512 img) () = (Inr example_target, ()) \<and>
     make_gpt_add_partition_plan example_target example_request sequential_guid_generator 9 =
       (Inr plan, 10) \<and>
     parse_gpt (memory_source_reader 2097152 512 (apply_writes (gwp_writes plan) img)) () =
       (Inr ((gwp_target_disk plan)\<lparr>gpt_partitions :=
          sort_key entry_index (gpt_partitions (gwp_target_disk plan))\<rparr>), ())"
proof -
  let ?img = "apply_writes (gwp_writes example_clone_plan) (\<lambda>i. 0)"
  obtain plan where plan: "make_gpt_add_partition_plan example_target example_request
      sequential_guid_generator 9 = (Inr plan, 10)"
    using example_add_plan by blast
  have "0 \<notin> set (req_name example_request)" by (simp add: example_request_def)
  from make_gpt_add_partition_plan_roundtrip [OF example_parse [of "\<lambda>i. 0" "()"] this plan, where v = "()"]
  show ?thesis
    using plan example_parse [of "\<lambda>i. 0" "()"] by (intro exI [of _ plan] exI [of _ ?img] conjI)
qed

theorem make_gpt_add_partition_plan_adds_witness:
  "\<exists>plan. make_gpt_add_partition_plan example_target example_request sequential_guid_generator 9 =
       (Inr plan, 10) \<and>
     (\<exists>new. gwp_target_disk plan = example_target\<lparr>gpt_partitions := gpt_partitions example_target @ [new]\<rparr>)"
proof -
  obtain plan where plan: "make_gpt_add_partition_plan example_target example_request
      sequential_guid_generator 9 = (Inr plan, 10)"
    using example_add_plan by blast
  show ?thesis using make_gpt_add_partition_plan_adds [OF plan] plan by blast
qed

end
