(* ===== verification/Mbr.thy ===== *)
theory Mbr
  imports BlockDevice
begin

text \<open>
  The legacy BIOS partition table (\<open>CloneCore/src/mbr.cpp\<close>): \<open>parse_mbr\<close>, the table of a clone target
  and one more partition in an existing table.  The three-byte CHS addresses, which the code only
  copies, are 24-bit words; a byte at an offset is \<open>read_little\<close> at width 8.
\<close>

section \<open>Data\<close>

record mbr_partition =
  table_index :: u8
  mbr_active :: bool
  first_chs :: "24 word"
  mbr_type :: u8
  last_chs :: "24 word"
  mbr_first_lba :: u32
  mbr_sector_count :: u32

record mbr_disk =
  mbr_sector_size :: u32
  mbr_disk_sectors :: u64
  disk_signature :: u32
  bootstrap :: "byte list"
  mbr_partitions :: "mbr_partition list"

record mbr_write_plan =
  mwp_target_disk :: mbr_disk
  mwp_sector :: "byte list"

record mbr_add_partition_request =
  mreq_first_lba :: u32
  mreq_sector_count :: u32
  mreq_type :: u8

abbreviation (input) kMbrSize :: nat where "kMbrSize \<equiv> 512"
abbreviation (input) kDiskSignatureOffset :: nat where "kDiskSignatureOffset \<equiv> 440"
abbreviation (input) kReservedOffset :: nat where "kReservedOffset \<equiv> 444"
abbreviation (input) kPartitionTableOffset :: nat where "kPartitionTableOffset \<equiv> 446"
abbreviation (input) kPartitionEntrySize :: nat where "kPartitionEntrySize \<equiv> 16"
abbreviation (input) kPartitionEntryCount :: nat where "kPartitionEntryCount \<equiv> 4"
abbreviation (input) kMaximumMbrSectorCount :: u64 where "kMaximumMbrSectorCount \<equiv> 0x100000000"

definition is_extended_partition_type :: "u8 \<Rightarrow> bool" where
  "is_extended_partition_type t \<longleftrightarrow> t = 0x05 \<or> t = 0x0F \<or> t = 0x85"

text \<open>The sum of a first sector and a count, taken at 64 bits.\<close>

definition mbr_end :: "u32 \<Rightarrow> u32 \<Rightarrow> u64" where
  "mbr_end f n = ucast f + ucast n"

section \<open>Reading\<close>

text \<open>One turn of the loop over the table: an empty entry, a partition or an error.\<close>

definition decode_mbr_entry :: "u64 \<Rightarrow> u8 \<Rightarrow> byte list \<Rightarrow> mbr_partition option result" where
  "decode_mbr_entry sector_count index entry =
     (let boot_indicator = (read_little entry 0 :: u8); type = (read_little entry 4 :: u8)
      in
      if type = 0 then
        if \<not> list_all (\<lambda>value. value = 0) entry then Inl data_error else Inr None
      else if boot_indicator \<noteq> 0 \<and> boot_indicator \<noteq> 0x80 then Inl data_error
      else if type = 0xEE then Inl unsupported_error
      else if is_extended_partition_type type then Inl unsupported_error
      else
        let p = \<lparr>table_index = index, mbr_active = (boot_indicator = 0x80),
              first_chs = read_little entry 1, mbr_type = type, last_chs = read_little entry 5,
              mbr_first_lba = read_little entry 8, mbr_sector_count = read_little entry 12\<rparr>
        in
        if mbr_first_lba p = 0 \<or> mbr_sector_count p = 0 \<or>
           mbr_end (mbr_first_lba p) (mbr_sector_count p) > sector_count
        then Inl data_error
        else Inr (Some p))"

fun parse_mbr_entries :: "u64 \<Rightarrow> byte list \<Rightarrow> nat list \<Rightarrow> mbr_partition list result" where
  "parse_mbr_entries sector_count bytes [] = Inr []"
| "parse_mbr_entries sector_count bytes (index # rest) =
     (case decode_mbr_entry sector_count (of_nat index)
         (slice bytes (kPartitionTableOffset + index * kPartitionEntrySize) kPartitionEntrySize) of
        Inl e \<Rightarrow> Inl e
      | Inr None \<Rightarrow> parse_mbr_entries sector_count bytes rest
      | Inr (Some p) \<Rightarrow>
        (case parse_mbr_entries sector_count bytes rest of
           Inl e \<Rightarrow> Inl e
         | Inr ps \<Rightarrow> Inr (p # ps)))"

definition parse_mbr :: "'s source_reader \<Rightarrow> ('s, mbr_disk) prog" where
  "parse_mbr reader =
     (if src_logical_sector_size reader \<noteq> 512 \<or> src_size_bytes reader < 512 * 2 \<or>
         src_size_bytes reader mod 512 \<noteq> 0
      then failE unsupported_error
      else
        let sector_count = src_size_bytes reader div 512 in
        if sector_count > kMaximumMbrSectorCount then failE unsupported_error
        else
          bindE (src_read reader 0 512) (\<lambda>bytes.
          if length bytes \<noteq> kMbrSize then failE data_error
          else if (read_little bytes 510 :: u8) \<noteq> 0x55 \<or> (read_little bytes 511 :: u8) \<noteq> 0xAA
          then failE data_error
          else if (read_little bytes kReservedOffset :: u8) \<noteq> 0 \<or>
             (read_little bytes (kReservedOffset + 1) :: u8) \<noteq> 0
          then failE data_error
          else
            bindE (of_result (parse_mbr_entries sector_count bytes [0..<kPartitionEntryCount])) (\<lambda>ps.
            if length (filter mbr_active ps) > 1 then failE data_error
            else if \<not> successively (\<lambda>p q. \<not> mbr_end (mbr_first_lba p) (mbr_sector_count p) >
                ucast (mbr_first_lba q)) (sort_key mbr_first_lba ps)
            then failE data_error
            else returnE \<lparr>mbr_sector_size = 512, mbr_disk_sectors = sector_count,
              disk_signature = read_little bytes kDiskSignatureOffset,
              bootstrap = slice bytes 0 440, mbr_partitions = ps\<rparr>)))"

section \<open>Writing\<close>

definition put_mbr_entry :: "byte list \<Rightarrow> mbr_partition \<Rightarrow> byte list" where
  "put_mbr_entry bytes p =
     (let offset = kPartitionTableOffset + unat (table_index p) * kPartitionEntrySize;
          b = write_little bytes offset (if mbr_active p then 0x80 else (0 :: u8));
          b = write_little b (offset + 1) (first_chs p);
          b = write_little b (offset + 4) (mbr_type p);
          b = write_little b (offset + 5) (last_chs p);
          b = write_little b (offset + 8) (mbr_first_lba p)
      in write_little b (offset + 12) (mbr_sector_count p))"

text \<open>The sector before and after the loop over the partitions.\<close>

definition mbr_sector_start :: "mbr_disk \<Rightarrow> byte list" where
  "mbr_sector_start d =
     write_little (overwrite (replicate kMbrSize 0) 0 (bootstrap d)) kDiskSignatureOffset (disk_signature d)"

definition mbr_sector_finish :: "byte list \<Rightarrow> byte list" where
  "mbr_sector_finish bytes = write_little (write_little bytes 510 (0x55 :: u8)) 511 (0xAA :: u8)"

text \<open>The loop of \<open>make_mbr_write_plan\<close>, which refuses an index outside the table.\<close>

fun put_mbr_entries :: "byte list \<Rightarrow> mbr_partition list \<Rightarrow> byte list result" where
  "put_mbr_entries bytes [] = Inr bytes"
| "put_mbr_entries bytes (p # ps) =
     (if unat (table_index p) \<ge> kPartitionEntryCount then Inl data_error
      else put_mbr_entries (put_mbr_entry bytes p) ps)"

text \<open>The attempts to draw a signature that is not forbidden; 0 when there is none.\<close>

fun draw_signature :: "nat \<Rightarrow> ('s, u32) prog \<Rightarrow> u32 set \<Rightarrow> ('s, u32) prog" where
  "draw_signature 0 next_signature forbidden = returnE 0"
| "draw_signature (Suc attempts) next_signature forbidden =
     bindE next_signature (\<lambda>g.
     if g \<notin> forbidden then returnE g else draw_signature attempts next_signature forbidden)"

definition make_mbr_write_plan ::
  "mbr_disk \<Rightarrow> u64 \<Rightarrow> u32 \<Rightarrow> ('s, u32) prog \<Rightarrow> u32 list \<Rightarrow> bool \<Rightarrow> ('s, mbr_write_plan) prog" where
  "make_mbr_write_plan source size_bytes sector next_signature disallowed require_single_active =
     (if mbr_sector_size source \<noteq> 512 \<or> sector \<noteq> 512 \<or> size_bytes mod 512 \<noteq> 0 \<or>
         size_bytes div 512 < mbr_disk_sectors source \<or>
         size_bytes div 512 > kMaximumMbrSectorCount
      then failE unsupported_error
      else
        let active_count = length (filter mbr_active (mbr_partitions source)) in
        if mbr_partitions source = [] \<or>
           (if require_single_active then active_count \<noteq> 1 else active_count \<noteq> 0)
        then failE unsupported_error
        else
          let forbidden = insert (disk_signature source) (insert 0 (set disallowed)) in
          bindE (draw_signature 32 next_signature forbidden) (\<lambda>target_signature.
          if target_signature = 0 then failE (mk_error Identity_mismatch ERROR_DUP_NAME)
          else
            let target = source\<lparr>mbr_disk_sectors := size_bytes div 512,
                  disk_signature := target_signature\<rparr>
            in
            bindE (of_result (put_mbr_entries (mbr_sector_start target) (mbr_partitions target))) (\<lambda>bytes.
            returnE \<lparr>mwp_target_disk = target, mwp_sector = mbr_sector_finish bytes\<rparr>)))"

section \<open>One more partition\<close>

fun check_existing_mbr ::
  "mbr_disk \<Rightarrow> mbr_add_partition_request \<Rightarrow> u64 \<Rightarrow> u8 set \<Rightarrow> mbr_partition list \<Rightarrow> u8 set result" where
  "check_existing_mbr current request requested_end used [] = Inr used"
| "check_existing_mbr current request requested_end used (p # ps) =
     (let partition_end = mbr_end (mbr_first_lba p) (mbr_sector_count p) in
      if unat (table_index p) \<ge> kPartitionEntryCount \<or> table_index p \<in> used \<or>
         mbr_first_lba p = 0 \<or> mbr_sector_count p = 0 \<or>
         partition_end > mbr_disk_sectors current \<or>
         mbr_type p = 0 \<or> mbr_type p = 0xEE \<or> is_extended_partition_type (mbr_type p) \<or>
         (ucast (mreq_first_lba request) < partition_end \<and> ucast (mbr_first_lba p) < requested_end)
      then Inl data_error
      else check_existing_mbr current request requested_end (insert (table_index p) used) ps)"

definition make_mbr_add_partition_plan ::
  "mbr_disk \<Rightarrow> mbr_add_partition_request \<Rightarrow> mbr_write_plan result" where
  "make_mbr_add_partition_plan current request =
     (if mbr_sector_size current \<noteq> 512 \<or> mbr_disk_sectors current < 2 \<or>
         mbr_disk_sectors current > kMaximumMbrSectorCount \<or>
         mreq_first_lba request = 0 \<or> mreq_sector_count request = 0 \<or>
         mreq_type request = 0 \<or> mreq_type request = 0xEE \<or>
         is_extended_partition_type (mreq_type request)
      then Inl unsupported_error
      else
        let requested_end = mbr_end (mreq_first_lba request) (mreq_sector_count request) in
        if requested_end > mbr_disk_sectors current then Inl data_error
        else
          case check_existing_mbr current request requested_end {} (mbr_partitions current) of
            Inl e \<Rightarrow> Inl e
          | Inr used \<Rightarrow>
            (case find (\<lambda>i. i \<notin> used) (map of_nat [0..<kPartitionEntryCount]) of
               None \<Rightarrow> Inl unsupported_error
             | Some free_entry \<Rightarrow>
               let target = current\<lparr>mbr_partitions := mbr_partitions current @
                     [\<lparr>table_index = free_entry, mbr_active = False, first_chs = 0xFFFFFE,
                       mbr_type = mreq_type request, last_chs = 0xFFFFFE,
                       mbr_first_lba = mreq_first_lba request,
                       mbr_sector_count = mreq_sector_count request\<rparr>]\<rparr>
               in
               Inr \<lparr>mwp_target_disk = target,
                 mwp_sector = mbr_sector_finish
                   (foldl put_mbr_entry (mbr_sector_start target) (mbr_partitions target))\<rparr>))"

section \<open>Well-formed tables\<close>

definition mbr_partition_wf :: "mbr_disk \<Rightarrow> mbr_partition \<Rightarrow> bool" where
  "mbr_partition_wf d p \<longleftrightarrow>
     unat (table_index p) < 4 \<and> mbr_type p \<notin> {0, 0xEE, 0x05, 0x0F, 0x85} \<and>
     mbr_first_lba p \<noteq> 0 \<and> mbr_sector_count p \<noteq> 0 \<and>
     unat (mbr_first_lba p) + unat (mbr_sector_count p) \<le> unat (mbr_disk_sectors d)"

definition mbr_disjoint :: "mbr_partition \<Rightarrow> mbr_partition \<Rightarrow> bool" where
  "mbr_disjoint p q \<longleftrightarrow>
     unat (mbr_first_lba p) + unat (mbr_sector_count p) \<le> unat (mbr_first_lba q) \<or>
     unat (mbr_first_lba q) + unat (mbr_sector_count q) \<le> unat (mbr_first_lba p)"

text \<open>\<open>mbr_table_wf\<close> in any order of the entries, \<open>mbr_wf\<close> in the order of the table.\<close>

definition mbr_table_wf :: "mbr_disk \<Rightarrow> bool" where
  "mbr_table_wf d \<longleftrightarrow>
     mbr_sector_size d = 512 \<and> 2 \<le> mbr_disk_sectors d \<and> mbr_disk_sectors d \<le> kMaximumMbrSectorCount \<and>
     length (bootstrap d) = 440 \<and> list_all (mbr_partition_wf d) (mbr_partitions d) \<and>
     distinct (map table_index (mbr_partitions d)) \<and>
     sorted_wrt mbr_disjoint (mbr_partitions d) \<and>
     length (filter mbr_active (mbr_partitions d)) \<le> 1"

definition mbr_wf :: "mbr_disk \<Rightarrow> bool" where
  "mbr_wf d \<longleftrightarrow> mbr_table_wf d \<and>
     sorted_wrt (\<lambda>p q. table_index p < table_index q) (mbr_partitions d)"


lemma unat_mbr_end [simp]: "unat (mbr_end f n) = unat f + unat n"
  using unat_u32_bound [of f] unat_u32_bound [of n]
  by (simp add: mbr_end_def unat_add_u64)

lemma mbr_disjoint_sym: "mbr_disjoint p q \<Longrightarrow> mbr_disjoint q p"
  by (auto simp: mbr_disjoint_def)

lemma mbr_ordered_iff:
  assumes "\<forall>p \<in> set ps. mbr_sector_count p \<noteq> 0"
  shows "successively (\<lambda>p q. \<not> mbr_end (mbr_first_lba p) (mbr_sector_count p) > ucast (mbr_first_lba q))
      (sort_key mbr_first_lba ps) \<longleftrightarrow> sorted_wrt mbr_disjoint ps"
proof -
  let ?lo = "\<lambda>p. unat (mbr_first_lba p)" and ?n = "\<lambda>p. unat (mbr_sector_count p)"
  let ?hi = "\<lambda>p. ?lo p + ?n p - 1"
  have pos: "0 < ?n p" if "p \<in> set ps" for p using assms that by (simp add: unat_gt_0)
  have "successively (\<lambda>p q. \<not> mbr_end (mbr_first_lba p) (mbr_sector_count p) > ucast (mbr_first_lba q))
      (sort_key mbr_first_lba ps) \<longleftrightarrow> successively (\<lambda>p q. ?hi p < ?lo q) (sort_key mbr_first_lba ps)"
    by (rule successively_cong) (use pos in \<open>force simp: word_less_nat_alt\<close>)+
  also have "\<dots> \<longleftrightarrow> sorted_wrt (\<lambda>p q. ?hi p < ?lo q \<or> ?hi q < ?lo p) ps"
    using pos by (intro successively_disjoint_iff) (fastforce, simp add: word_le_nat_alt)
  also have "\<dots> \<longleftrightarrow> sorted_wrt mbr_disjoint ps"
  proof -
    have "(?hi p < ?lo q \<or> ?hi q < ?lo p) = mbr_disjoint p q" if "p \<in> set ps" "q \<in> set ps" for p q
      using pos [OF that(1)] pos [OF that(2)] by (auto simp: mbr_disjoint_def)
    then show ?thesis by (auto elim!: sorted_wrt_mono_rel [rotated])
  qed
  finally show ?thesis .
qed

lemma parse_mbr_entries_iff:
  defines "dec \<equiv> \<lambda>n bytes i. decode_mbr_entry n (of_nat i)
      (slice bytes (kPartitionTableOffset + i * kPartitionEntrySize) kPartitionEntrySize)"
  shows "parse_mbr_entries n bytes is = Inr ps \<longleftrightarrow>
     (\<forall>i \<in> set is. \<not> isl (dec n bytes i)) \<and> ps = List.map_filter (\<lambda>i. projr (dec n bytes i)) is"
proof (induction "is" arbitrary: ps)
  case Nil
  then show ?case by auto
next
  case (Cons i is')
  show ?case
  proof (cases "parse_mbr_entries n bytes is'")
    case (Inl e)
    with Cons have "\<not> (\<forall>i \<in> set is'. \<not> isl (dec n bytes i))" by auto
    with Inl show ?thesis by (auto simp: dec_def split: sum.splits option.splits)
  next
    case (Inr qs)
    with Cons show ?thesis by (auto simp: dec_def split: sum.splits option.splits)
  qed
qed

lemma decode_mbr_entry_SomeD:
  assumes "decode_mbr_entry n i e = Inr (Some p)"
  shows "table_index p = i" "mbr_type p \<notin> {0, 0xEE, 0x05, 0x0F, 0x85}" "mbr_first_lba p \<noteq> 0"
    "mbr_sector_count p \<noteq> 0" "unat (mbr_first_lba p) + unat (mbr_sector_count p) \<le> unat n"
  using assms
  by (auto simp: decode_mbr_entry_def Let_def is_extended_partition_type_def word_le_nat_alt not_less
      split: if_splits)

lemma set_map_filter_iff: "y \<in> set (List.map_filter f xs) \<longleftrightarrow> (\<exists>x \<in> set xs. f x = Some y)"
  by (induction xs) (auto split: option.splits)

lemma sorted_wrt_map_filter:
  assumes "sorted_wrt R xs" "\<And>x y u v. R x y \<Longrightarrow> f x = Some u \<Longrightarrow> f y = Some v \<Longrightarrow> Q u v"
  shows "sorted_wrt Q (List.map_filter f xs)"
  using assms(1)
proof (induction xs)
  case (Cons x xs)
  then show ?case
    by (auto simp: set_map_filter_iff split: option.splits) (blast intro: assms(2))
qed simp

text \<open>What \<open>parse_mbr\<close> accepts is well-formed.\<close>

lemma parse_mbr_result_wf:
  assumes "parse_mbr rd s = (Inr d, t)"
  shows "mbr_wf d" "mbr_sector_size d = src_logical_sector_size rd"
    "unat (mbr_disk_sectors d) * 512 = unat (src_size_bytes rd)"
proof -
  let ?n = "src_size_bytes rd div 512"
  from assms obtain bytes ps where a: "src_logical_sector_size rd = 512" "\<not> src_size_bytes rd < 1024"
    "src_size_bytes rd mod 512 = 0" "?n \<le> kMaximumMbrSectorCount" "length bytes = 512"
    "Inr ps = parse_mbr_entries ?n bytes [0..<4]" "length (filter mbr_active ps) \<le> 1"
    "successively (\<lambda>p q. \<not> mbr_end (mbr_first_lba p) (mbr_sector_count p) >
       ucast (mbr_first_lba q)) (sort_key mbr_first_lba ps)"
    "d = \<lparr>mbr_sector_size = 512, mbr_disk_sectors = ?n,
              disk_signature = read_little bytes kDiskSignatureOffset,
              bootstrap = slice bytes 0 440, mbr_partitions = ps\<rparr>"
    by (auto simp: parse_mbr_def Let_def bindE_eq_Inr not_less split: if_splits)
  show "mbr_sector_size d = src_logical_sector_size rd" using a(1,9) by simp
  have "unat (src_size_bytes rd) mod 512 = 0"
    using arg_cong [OF a(3), of unat] by (simp add: unat_mod)
  then show "unat (mbr_disk_sectors d) * 512 = unat (src_size_bytes rd)"
    by (auto simp: a(9) unat_div mod_eq_0_iff_dvd)
  let ?f = "\<lambda>i. projr (decode_mbr_entry ?n (of_nat i)
      (slice bytes (kPartitionTableOffset + i * kPartitionEntrySize) kPartitionEntrySize))"
  have ps: "ps = List.map_filter ?f [0..<4]"
    and ok: "\<forall>i \<in> set [0..<4]. \<not> isl (decode_mbr_entry ?n (of_nat i)
      (slice bytes (kPartitionTableOffset + i * kPartitionEntrySize) kPartitionEntrySize))"
    using a(6) [symmetric] unfolding parse_mbr_entries_iff by (blast, blast)
  have each: "table_index p = of_nat i \<and> mbr_type p \<notin> {0, 0xEE, 0x05, 0x0F, 0x85} \<and>
      mbr_first_lba p \<noteq> 0 \<and> mbr_sector_count p \<noteq> 0 \<and>
      unat (mbr_first_lba p) + unat (mbr_sector_count p) \<le> unat ?n"
    if "i < 4" "?f i = Some p" for i p
  proof -
    have "decode_mbr_entry ?n (of_nat i)
      (slice bytes (kPartitionTableOffset + i * kPartitionEntrySize) kPartitionEntrySize) = Inr (Some p)"
      using ok [rule_format, of i] that
      by (cases "decode_mbr_entry ?n (of_nat i)
        (slice bytes (kPartitionTableOffset + i * kPartitionEntrySize) kPartitionEntrySize)") simp_all
    from decode_mbr_entry_SomeD [OF this] show ?thesis by blast
  qed
  have "sorted_wrt (\<lambda>i j. i < j \<and> j < 4) [0..<4 :: nat]"
    by (rule sorted_wrt_mono_rel [OF _ sorted_wrt_upt]) auto
  then have idx: "sorted_wrt (\<lambda>p q. table_index p < table_index q) ps"
    unfolding ps
  proof (rule sorted_wrt_map_filter)
    fix i j p q assume "i < j \<and> j < (4 :: nat)" "?f i = Some p" "?f j = Some q"
    then show "table_index p < table_index q"
      using each [of i p] each [of j q] by (simp add: word_less_nat_alt unat_of_nat)
  qed
  have parts: "\<forall>p \<in> set ps. mbr_partition_wf d p"
    using each by (fastforce simp: ps set_map_filter_iff mbr_partition_wf_def a(9) unat_of_nat)
  then have "sorted_wrt mbr_disjoint ps"
    using a(8) by (subst (asm) mbr_ordered_iff) (auto simp: mbr_partition_wf_def)
  moreover have "1024 div 512 \<le> unat (src_size_bytes rd) div 512"
    using a(2) by (intro div_le_mono) (simp add: word_less_nat_alt)
  ultimately show "mbr_wf d"
    using a(2,4,5,7,9) parts idx strictly_sorted_distinct [OF idx]
    by (simp add: mbr_wf_def mbr_table_wf_def list_all_iff word_le_nat_alt unat_div)
qed


section \<open>Reading back what was written\<close>

lemma slice_write_little_inside:
  fixes v :: "'a::len word"
  assumes "off \<le> p" "p + LENGTH('a) div 8 \<le> off + n" "off + n \<le> length bs"
  shows "slice (write_little bs p v) off n = write_little (slice bs off n) (p - off) v"
  using assms unfolding write_little_def
  by (intro nth_equalityI) (auto simp: nth_overwrite add.commute)

text \<open>\<open>put_mbr_entry\<close> on the slice of its entry.\<close>

definition fill_mbr_entry :: "mbr_partition \<Rightarrow> byte list \<Rightarrow> byte list" where
  "fill_mbr_entry p e =
     (let e = write_little e 0 (if mbr_active p then 0x80 else (0 :: u8));
          e = write_little e 1 (first_chs p);
          e = write_little e 4 (mbr_type p);
          e = write_little e 5 (last_chs p);
          e = write_little e 8 (mbr_first_lba p)
      in write_little e 12 (mbr_sector_count p))"

lemma length_put_mbr_entry [simp]: "length (put_mbr_entry b p) = length b"
  by (simp add: put_mbr_entry_def Let_def)

lemma length_fill_mbr_entry [simp]: "length (fill_mbr_entry p b) = length b"
  by (simp add: fill_mbr_entry_def Let_def)

lemma slice_put_mbr_entry:
  assumes "length b = 512" "unat (table_index p) < 4" "i < 4"
  shows "slice (put_mbr_entry b p) (446 + i * 16) 16 =
    (if unat (table_index p) = i then fill_mbr_entry p (slice b (446 + i * 16) 16)
     else slice b (446 + i * 16) 16)"
proof (cases "unat (table_index p) = i")
  case True
  then show ?thesis
    using assms by (simp add: put_mbr_entry_def fill_mbr_entry_def Let_def slice_write_little_inside)
next
  case False
  then have "i + 1 \<le> unat (table_index p) \<or> unat (table_index p) + 1 \<le> i" by linarith
  then show ?thesis
    using assms by (auto simp: put_mbr_entry_def Let_def slice_write_little_other)
qed

lemma slice_put_mbr_entry_other:
  assumes "length b = 512" "unat (table_index p) < 4" "off + n \<le> 446 \<or> 510 \<le> off" "off + n \<le> 512"
  shows "slice (put_mbr_entry b p) off n = slice b off n"
  using assms by (auto simp: put_mbr_entry_def Let_def slice_write_little_other)

lemma length_foldl_put_mbr_entry [simp]: "length (foldl put_mbr_entry b ps) = length b"
  by (induction ps arbitrary: b) auto

lemma slice_foldl_put_mbr_entry_other:
  "\<lbrakk>length b = 512; \<forall>p \<in> set ps. unat (table_index p) < 4; off + n \<le> 446 \<or> 510 \<le> off;
    off + n \<le> 512\<rbrakk> \<Longrightarrow> slice (foldl put_mbr_entry b ps) off n = slice b off n"
  by (induction ps arbitrary: b) (auto simp: slice_put_mbr_entry_other)

lemma slice_foldl_put_mbr_entry:
  assumes "\<forall>p \<in> set ps. unat (table_index p) < 4" "distinct (map table_index ps)"
    "length b = 512" "i < 4"
  shows "slice (foldl put_mbr_entry b ps) (446 + i * 16) 16 =
    (case find (\<lambda>p. unat (table_index p) = i) ps of
       None \<Rightarrow> slice b (446 + i * 16) 16
     | Some p \<Rightarrow> fill_mbr_entry p (slice b (446 + i * 16) 16))"
  using assms
proof (induction ps arbitrary: b)
  case Nil
  then show ?case by simp
next
  case (Cons p ps)
  have none: "find (\<lambda>q. unat (table_index q) = i) ps = None" if "unat (table_index p) = i"
    using Cons.prems(2) that
    by (auto simp: find_None_iff word_unat_eq_iff [symmetric]) (metis imageI)
  show ?case
    using Cons.prems
    by (subst foldl_Cons, subst Cons.IH)
      (auto simp: slice_put_mbr_entry none split: option.split)
qed

lemma decode_fill_mbr_entry:
  assumes "mbr_partition_wf d p" "n = mbr_disk_sectors d"
  shows "decode_mbr_entry n (table_index p) (fill_mbr_entry p (replicate 16 0)) = Inr (Some p)"
proof -
  have "\<not> n < mbr_end (mbr_first_lba p) (mbr_sector_count p)"
    using assms by (simp add: mbr_partition_wf_def word_less_nat_alt)
  then show ?thesis
    using assms
    by (auto simp: decode_mbr_entry_def Let_def fill_mbr_entry_def read_write_little_other
        read_write_little_same mbr_partition_wf_def is_extended_partition_type_def)
qed

lemma decode_empty_mbr_entry: "decode_mbr_entry n i (replicate 16 0) = Inr None"
  by (simp add: decode_mbr_entry_def read_little_zeros list_all_iff)

text \<open>The sector of a table, whichever of the two plans makes it.\<close>

definition mbr_sector :: "mbr_disk \<Rightarrow> byte list" where
  "mbr_sector d = mbr_sector_finish (foldl put_mbr_entry (mbr_sector_start d) (mbr_partitions d))"

lemma length_mbr_sector [simp]: "length (mbr_sector d) = 512"
  by (simp add: mbr_sector_def mbr_sector_finish_def mbr_sector_start_def)

lemma put_mbr_entries_foldl:
  "\<forall>p \<in> set ps. unat (table_index p) < 4 \<Longrightarrow> put_mbr_entries b ps = Inr (foldl put_mbr_entry b ps)"
  by (induction ps arbitrary: b) (auto simp: not_le)


lemma read_little_via_slice:
  "slice a off (LENGTH('a) div 8) = slice b off (LENGTH('a) div 8) \<Longrightarrow>
   (read_little a off :: 'a::len word) = read_little b off"
  by (simp add: read_little_def)

lemma mbr_sector_fields:
  assumes "mbr_table_wf d"
  shows "(read_little (mbr_sector d) 510 :: u8) = 0x55" "(read_little (mbr_sector d) 511 :: u8) = 0xAA"
    "(read_little (mbr_sector d) 444 :: u8) = 0" "(read_little (mbr_sector d) 445 :: u8) = 0"
    "(read_little (mbr_sector d) 440 :: u32) = disk_signature d"
    "slice (mbr_sector d) 0 440 = bootstrap d"
    "i < 4 \<Longrightarrow> slice (mbr_sector d) (446 + i * 16) 16 =
       (case find (\<lambda>p. unat (table_index p) = i) (mbr_partitions d) of
          None \<Rightarrow> replicate 16 0 | Some p \<Rightarrow> fill_mbr_entry p (replicate 16 0))"
proof -
  let ?b = "foldl put_mbr_entry (mbr_sector_start d) (mbr_partitions d)"
  have idx: "\<forall>p \<in> set (mbr_partitions d). unat (table_index p) < 4"
    and dist: "distinct (map table_index (mbr_partitions d))" and boot: "length (bootstrap d) = 440"
    using assms by (auto simp: mbr_table_wf_def list_all_iff mbr_partition_wf_def)
  have len: "length ?b = 512" "length (mbr_sector_start d) = 512" by (simp_all add: mbr_sector_start_def)
  note other = slice_foldl_put_mbr_entry_other [OF len(2) idx]
  show "(read_little (mbr_sector d) 510 :: u8) = 0x55" "(read_little (mbr_sector d) 511 :: u8) = 0xAA"
    by (simp_all add: mbr_sector_def mbr_sector_finish_def read_write_little_other
        read_write_little_same len)
  have start: "slice (mbr_sector d) off n = slice (mbr_sector_start d) off n" if "off + n \<le> 446" for off n
    using that other [of off n]
    by (simp add: mbr_sector_def mbr_sector_finish_def slice_write_little_other len)
  have start_read: "(read_little (mbr_sector d) off :: 'a::len word) = read_little (mbr_sector_start d) off"
    if "off + LENGTH('a) div 8 \<le> 446" for off
    using start [OF that] by (rule read_little_via_slice)
  have zero: "(read_little (overwrite (replicate 512 0) 0 (bootstrap d)) off :: u8) = 0"
    if "440 \<le> off" "off < 512" for off
    using that boot by (simp add: read_little_def slice_overwrite_other slice_replicate)
  show "(read_little (mbr_sector d) 444 :: u8) = 0" "(read_little (mbr_sector d) 445 :: u8) = 0"
    "(read_little (mbr_sector d) 440 :: u32) = disk_signature d"
    by (simp_all add: start_read mbr_sector_start_def read_write_little_other read_write_little_same zero)
  show "slice (mbr_sector d) 0 440 = bootstrap d"
    using boot by (simp add: start mbr_sector_start_def slice_write_little_other slice_overwrite_same)
  assume i: "i < 4"
  have "slice (mbr_sector d) (446 + i * 16) 16 = slice ?b (446 + i * 16) 16"
    using i by (simp add: mbr_sector_def mbr_sector_finish_def slice_write_little_other len)
  moreover have "slice (mbr_sector_start d) (446 + i * 16) 16 = replicate 16 0"
    using i boot by (simp add: mbr_sector_start_def slice_write_little_other slice_overwrite_other slice_replicate)
  ultimately show "slice (mbr_sector d) (446 + i * 16) 16 =
       (case find (\<lambda>p. unat (table_index p) = i) (mbr_partitions d) of
          None \<Rightarrow> replicate 16 0 | Some p \<Rightarrow> fill_mbr_entry p (replicate 16 0))"
    using slice_foldl_put_mbr_entry [OF idx dist len(2) i] by (simp cong: option.case_cong)
qed

lemma parse_mbr_on_image:
  assumes wf: "mbr_table_wf d" and on: "img_bytes img 0 512 = mbr_sector d"
    and size: "unat size_bytes = unat (mbr_disk_sectors d) * 512"
  shows "parse_mbr (memory_source_reader size_bytes 512 img) s =
    (Inr (d\<lparr>mbr_partitions := sort_key table_index (mbr_partitions d)\<rparr>), s)"
proof -
  let ?ps = "mbr_partitions d" and ?n = "mbr_disk_sectors d"
  have parts: "\<forall>p \<in> set ?ps. mbr_partition_wf d p" and dist: "distinct (map table_index ?ps)"
    and n: "2 \<le> unat ?n" "unat ?n \<le> 4294967296" and disj: "sorted_wrt mbr_disjoint ?ps"
    and act: "length (filter mbr_active ?ps) \<le> 1"
    using wf by (simp_all add: mbr_table_wf_def list_all_iff word_le_nat_alt)
  have count: "size_bytes div 512 = ?n" using size by (simp add: word_unat_eq_iff unat_div)
  let ?f = "\<lambda>i. find (\<lambda>p. unat (table_index p) = i) ?ps"
  have dec: "decode_mbr_entry ?n (of_nat i) (slice (mbr_sector d) (446 + i * 16) 16) = Inr (?f i)"
    if "i < 4" for i
  proof (cases "?f i")
    case None
    then show ?thesis using mbr_sector_fields(7) [OF wf that] by (simp add: decode_empty_mbr_entry)
  next
    case (Some p)
    then have p: "p \<in> set ?ps" "unat (table_index p) = i" by (auto simp: find_Some_iff)
    then have "of_nat i = table_index p" by auto
    then show ?thesis
      using mbr_sector_fields(7) [OF wf that] Some decode_fill_mbr_entry [of d p ?n] parts p(1) by simp
  qed
  have "parse_mbr_entries ?n (mbr_sector d) [0..<4] = Inr (List.map_filter ?f [0..<4])"
    unfolding parse_mbr_entries_iff
    using dec by (auto simp: List.map_filter_def intro!: map_cong filter_cong)
  moreover have "List.map_filter ?f [0..<4] = sort_key table_index ?ps"
  proof (rule strict_sorted_key_unique [of table_index])
    show "sorted_wrt (\<lambda>p q. table_index p < table_index q) (List.map_filter ?f [0..<4])"
      by (rule sorted_wrt_map_filter [OF sorted_wrt_upt]) (auto simp: find_Some_iff word_less_nat_alt)
    show "sorted_wrt (\<lambda>p q. table_index p < table_index q) (sort_key table_index ?ps)"
      using dist sorted_sort_key [of table_index ?ps]
      by (auto simp: sorted_wrt_map [symmetric] strict_sorted_iff distinct_map)
    have "p \<in> set (List.map_filter ?f [0..<4])" if p: "p \<in> set ?ps" for p
    proof -
      obtain q where q: "?f (unat (table_index p)) = Some q"
        using p by (cases "?f (unat (table_index p))") (auto simp: find_None_iff)
      then have "q \<in> set ?ps" "table_index q = table_index p"
        by (auto simp: find_Some_iff word_unat_eq_iff)
      with dist p have "q = p" by (auto simp: distinct_map inj_on_def)
      with q p parts show ?thesis by (auto simp: set_map_filter_iff mbr_partition_wf_def)
    qed
    then show "set (List.map_filter ?f [0..<4]) = set (sort_key table_index ?ps)"
      by (auto simp: set_map_filter_iff find_Some_iff)
  qed
  ultimately have ps: "parse_mbr_entries ?n (mbr_sector d) [0..<4] = Inr (sort_key table_index ?ps)"
    by simp
  have "sorted_wrt mbr_disjoint (sort_key table_index ?ps)"
    using disj sorted_wrt_sym_sort_key [of mbr_disjoint, OF mbr_disjoint_sym] by blast
  then have ord: "successively (\<lambda>p q. \<not> mbr_end (mbr_first_lba p) (mbr_sector_count p) > ucast (mbr_first_lba q))
      (sort_key mbr_first_lba (sort_key table_index ?ps))"
    using parts by (subst mbr_ordered_iff) (auto simp: mbr_partition_wf_def)
  have act': "length (filter mbr_active (sort_key table_index ?ps)) \<le> 1"
    using act by (metis filter_sort length_sort)
  have dims: "\<not> size_bytes < 1024" "size_bytes mod 512 = 0" "\<not> kMaximumMbrSectorCount < ?n"
    using size n by (simp_all add: word_less_nat_alt word_unat_eq_iff unat_mod)
  have rd: "src_read (memory_source_reader size_bytes 512 img) 0 512 s = (Inr (mbr_sector d), s)"
    using size n on by (simp add: memory_source_read returnE_def)
  have boot: "mbr_sector_size d = 512" "length (bootstrap d) = 440" using wf by (simp_all add: mbr_table_wf_def)
  show ?thesis
    using dims ord act' boot
    by (simp add: parse_mbr_def Let_def count bindE_Inr rd ps mbr_sector_fields [OF wf] returnE_def)
qed


section \<open>The two plans\<close>

lemma draw_signature_success:
  "draw_signature n next_signature forbidden s = (Inr g, t) \<Longrightarrow> g = 0 \<or> g \<notin> forbidden"
  by (induction n next_signature forbidden arbitrary: s rule: draw_signature.induct)
    (auto simp: bindE_eq_Inr split: if_splits)

lemma make_mbr_write_planE:
  assumes wf: "mbr_wf source"
    and plan: "make_mbr_write_plan source size_bytes sector next_signature disallowed single s = (Inr plan, t)"
  obtains sig where "sig \<notin> insert 0 (insert (disk_signature source) (set disallowed))"
    "mwp_target_disk plan = source\<lparr>mbr_disk_sectors := size_bytes div 512, disk_signature := sig\<rparr>"
    "mwp_sector plan = mbr_sector (mwp_target_disk plan)" "mbr_wf (mwp_target_disk plan)"
    "sector = 512" "unat size_bytes = unat (mbr_disk_sectors (mwp_target_disk plan)) * 512"
    "length (filter mbr_active (mbr_partitions source)) = (if single then 1 else 0)"
proof -
  have table: "mbr_table_wf source" and idx: "\<forall>p \<in> set (mbr_partitions source). unat (table_index p) < 4"
    using wf by (auto simp: mbr_wf_def mbr_table_wf_def list_all_iff mbr_partition_wf_def)
  from plan obtain sig where a: "sector = 512" "size_bytes mod 512 = 0"
    "\<not> size_bytes div 512 < mbr_disk_sectors source" "\<not> size_bytes div 512 > kMaximumMbrSectorCount"
    "length (filter mbr_active (mbr_partitions source)) = (if single then 1 else 0)"
    "sig \<noteq> 0" "draw_signature 32 next_signature (insert (disk_signature source) (insert 0 (set disallowed))) s = (Inr sig, t)"
    "mwp_target_disk plan = source\<lparr>mbr_disk_sectors := size_bytes div 512, disk_signature := sig\<rparr>"
    "mwp_sector plan = mbr_sector (mwp_target_disk plan)"
    unfolding make_mbr_write_plan_def Let_def mbr_sector_def
    by (auto simp: bindE_eq_Inr put_mbr_entries_foldl [OF idx] split: if_splits)
  have "unat size_bytes mod 512 = 0" using arg_cong [OF a(2), of unat] by (simp add: unat_mod)
  then have size: "unat size_bytes = unat (size_bytes div 512) * 512"
    by (auto simp: unat_div mod_eq_0_iff_dvd)
  have ge: "unat (mbr_disk_sectors source) \<le> unat (size_bytes div 512)"
    using a(3) by (simp add: word_less_nat_alt not_less)
  have "mbr_wf (mwp_target_disk plan)"
    using wf ge a(4) by (auto simp: mbr_wf_def mbr_table_wf_def list_all_iff mbr_partition_wf_def a(8)
        word_le_nat_alt word_less_nat_alt not_less)
  then show ?thesis
    using that a draw_signature_success [OF a(7)] size by auto
qed

lemma parse_written_mbr:
  assumes "mbr_table_wf d" "unat size_bytes = unat (mbr_disk_sectors d) * 512"
  shows "parse_mbr (memory_source_reader size_bytes 512 (img_update img 0 (mbr_sector d))) s =
    (Inr (d\<lparr>mbr_partitions := sort_key table_index (mbr_partitions d)\<rparr>), s)"
  using assms by (intro parse_mbr_on_image) simp_all

lemma mbr_wf_sort_id: "mbr_wf d \<Longrightarrow> sort_key table_index (mbr_partitions d) = mbr_partitions d"
  by (rule sort_key_id_if_sorted)
    (auto simp: mbr_wf_def sorted_wrt_map intro: sorted_wrt_mono_rel [rotated])

text \<open>
  What \<open>parse_mbr\<close> accepts is a well-formed table of the disk: at most one active partition, only
  basic types, partitions pairwise disjoint and inside the disk.
\<close>

theorem parse_mbr_wf:
  assumes "parse_mbr rd s = (Inr d, t)"
  shows "mbr_wf d \<and> mbr_sector_size d = src_logical_sector_size rd \<and>
    unat (mbr_disk_sectors d) * 512 = unat (src_size_bytes rd)"
  using parse_mbr_result_wf [OF assms] by simp

text \<open>
  The sector of a clone's plan, written over whatever the target held, makes \<open>parse_mbr\<close> return
  the planned table: the source's bootstrap code and partitions under a signature that is neither
  zero nor the source's nor one of the disallowed ones.
\<close>

theorem make_mbr_write_plan_roundtrip:
  assumes "mbr_wf source"
    and "make_mbr_write_plan source size_bytes sector next_signature disallowed single s = (Inr plan, t)"
  shows "parse_mbr (memory_source_reader size_bytes sector (img_update img 0 (mwp_sector plan))) u =
      (Inr (mwp_target_disk plan), u) \<and>
    disk_signature (mwp_target_disk plan) \<notin> insert 0 (insert (disk_signature source) (set disallowed)) \<and>
    bootstrap (mwp_target_disk plan) = bootstrap source \<and>
    mbr_partitions (mwp_target_disk plan) = mbr_partitions source"
proof -
  obtain sig where a: "sig \<notin> insert 0 (insert (disk_signature source) (set disallowed))"
    "mwp_target_disk plan = source\<lparr>mbr_disk_sectors := size_bytes div 512, disk_signature := sig\<rparr>"
    "mwp_sector plan = mbr_sector (mwp_target_disk plan)" "mbr_wf (mwp_target_disk plan)"
    "sector = 512" "unat size_bytes = unat (mbr_disk_sectors (mwp_target_disk plan)) * 512"
    by (rule make_mbr_write_planE [OF assms]) (rule that; assumption)
  have "mbr_table_wf (mwp_target_disk plan)" using a(4) by (simp add: mbr_wf_def)
  from parse_written_mbr [OF this a(6), of img u] show ?thesis
    using a(1,5) mbr_wf_sort_id [OF a(4)] by (simp add: a(2,3))
qed

lemma check_existing_mbr_success:
  assumes "check_existing_mbr current request e used ps = Inr used'"
  shows "used' = used \<union> table_index ` set ps"
    "\<forall>p \<in> set ps. unat (mbr_end (mbr_first_lba p) (mbr_sector_count p)) \<le> unat (mreq_first_lba request) \<or>
       unat e \<le> unat (mbr_first_lba p)"
  using assms
  by (induction current request e used ps rule: check_existing_mbr.induct)
    (auto simp: Let_def word_less_nat_alt not_less split: if_splits)

lemma make_mbr_add_partition_planE:
  assumes wf: "mbr_wf current" and plan: "make_mbr_add_partition_plan current request = Inr plan"
  obtains new where
    "mwp_target_disk plan = current\<lparr>mbr_partitions := mbr_partitions current @ [new]\<rparr>"
    "mwp_sector plan = mbr_sector (mwp_target_disk plan)" "mbr_table_wf (mwp_target_disk plan)"
    "\<not> mbr_active new" "mbr_type new = mreq_type request" "mbr_first_lba new = mreq_first_lba request"
    "mbr_sector_count new = mreq_sector_count request"
    "\<forall>i < unat (table_index new). of_nat i \<in> table_index ` set (mbr_partitions current)"
proof -
  let ?e = "mbr_end (mreq_first_lba request) (mreq_sector_count request)"
  from plan obtain used i where a: "mreq_first_lba request \<noteq> 0" "mreq_sector_count request \<noteq> 0"
    "mreq_type request \<noteq> 0" "mreq_type request \<noteq> 0xEE" "\<not> is_extended_partition_type (mreq_type request)"
    "\<not> ?e > mbr_disk_sectors current"
    "check_existing_mbr current request ?e {} (mbr_partitions current) = Inr used"
    "find (\<lambda>i. i \<notin> used) (map of_nat [0..<4]) = Some i"
    "mwp_target_disk plan = current\<lparr>mbr_partitions := mbr_partitions current @
                     [\<lparr>table_index = i, mbr_active = False, first_chs = 0xFFFFFE,
                       mbr_type = mreq_type request, last_chs = 0xFFFFFE,
                       mbr_first_lba = mreq_first_lba request,
                       mbr_sector_count = mreq_sector_count request\<rparr>]\<rparr>"
    "mwp_sector plan = mbr_sector (mwp_target_disk plan)"
    unfolding make_mbr_add_partition_plan_def Let_def mbr_sector_def
    by (auto split: if_splits sum.splits option.splits)
  note ex = check_existing_mbr_success [OF a(7)]
  from a(8) obtain k where k: "k < 4" "i = of_nat k" "of_nat k \<notin> used" "\<forall>j < k. of_nat j \<in> used"
    by (auto simp: find_Some_iff)
  have ik: "unat i = k" using k(1,2) by (simp add: unat_of_nat)
  define new where "new = \<lparr>table_index = i, mbr_active = False, first_chs = 0xFFFFFE :: 24 word,
                       mbr_type = mreq_type request, last_chs = 0xFFFFFE,
                       mbr_first_lba = mreq_first_lba request,
                       mbr_sector_count = mreq_sector_count request\<rparr>"
  have t: "mwp_target_disk plan = current\<lparr>mbr_partitions := mbr_partitions current @ [new]\<rparr>"
    by (simp add: a(9) new_def)
  have "mbr_partition_wf (mwp_target_disk plan) new"
    using a(1-6) k(1) ik
    by (simp add: t) (simp add: new_def mbr_partition_wf_def is_extended_partition_type_def word_less_nat_alt not_less)
  moreover have "mbr_partition_wf (mwp_target_disk plan) p" if "p \<in> set (mbr_partitions current)" for p
    using wf that by (simp add: t mbr_wf_def mbr_table_wf_def list_all_iff mbr_partition_wf_def)
  moreover have "\<forall>p \<in> set (mbr_partitions current). mbr_disjoint p new"
    using ex(2) by (auto simp: new_def mbr_disjoint_def)
  moreover have "i \<notin> table_index ` set (mbr_partitions current)" using ex(1) k(2,3) by auto
  ultimately have "mbr_table_wf (mwp_target_disk plan)"
    using wf by (auto simp: mbr_wf_def mbr_table_wf_def list_all_iff t sorted_wrt_append new_def)
  moreover have "\<forall>j < unat (table_index new). of_nat j \<in> table_index ` set (mbr_partitions current)"
    using k(4) ex(1) ik by (simp add: new_def)
  ultimately show ?thesis
    using that [OF t a(10)] by (simp add: new_def)
qed

text \<open>
  Adding a partition to a table read from a disk: with the planned sector written, \<open>parse_mbr\<close>
  accepts the disk and returns the old table, bootstrap code, signature and all entries, with one
  more, inactive partition of the requested type and extent.
\<close>

theorem make_mbr_add_partition_plan_roundtrip:
  assumes parsed: "parse_mbr (memory_source_reader size_bytes 512 img) u = (Inr current, u')"
    and plan: "make_mbr_add_partition_plan current request = Inr plan"
  shows "\<exists>new. mwp_target_disk plan = current\<lparr>mbr_partitions := mbr_partitions current @ [new]\<rparr> \<and>
    \<not> mbr_active new \<and> mbr_type new = mreq_type request \<and>
    mbr_first_lba new = mreq_first_lba request \<and> mbr_sector_count new = mreq_sector_count request \<and>
    parse_mbr (memory_source_reader size_bytes 512 (img_update img 0 (mwp_sector plan))) v =
      (Inr (current\<lparr>mbr_partitions := sort_key table_index (mbr_partitions current @ [new])\<rparr>), v)"
proof -
  have wf: "mbr_wf current" and size: "unat size_bytes = unat (mbr_disk_sectors current) * 512"
    using parse_mbr_result_wf [OF parsed] by auto
  obtain new where a:
    "mwp_target_disk plan = current\<lparr>mbr_partitions := mbr_partitions current @ [new]\<rparr>"
    "mwp_sector plan = mbr_sector (mwp_target_disk plan)" "mbr_table_wf (mwp_target_disk plan)"
    "\<not> mbr_active new" "mbr_type new = mreq_type request" "mbr_first_lba new = mreq_first_lba request"
    "mbr_sector_count new = mreq_sector_count request"
    by (rule make_mbr_add_partition_planE [OF wf plan]) (rule that; assumption)
  from parse_written_mbr [OF a(3), of size_bytes img v] show ?thesis
    using a size by (intro exI [of _ new]) simp
qed

section \<open>A concrete table\<close>

definition example_mbr :: mbr_disk where
  "example_mbr = \<lparr>mbr_sector_size = 512, mbr_disk_sectors = 4096, disk_signature = 0x1234,
     bootstrap = replicate 440 0x90,
     mbr_partitions = [\<lparr>table_index = 1, mbr_active = True, first_chs = 0x200, mbr_type = 7,
       last_chs = 0x400, mbr_first_lba = 63, mbr_sector_count = 1000\<rparr>]\<rparr>"

lemma example_mbr_wf: "mbr_wf example_mbr"
  by (simp add: mbr_wf_def mbr_table_wf_def mbr_partition_wf_def example_mbr_def)

lemma example_mbr_parse:
  "parse_mbr (memory_source_reader 2097152 512 (img_update img 0 (mbr_sector example_mbr))) s =
     (Inr example_mbr, s)"
  using parse_written_mbr [of example_mbr 2097152 img s] example_mbr_wf mbr_wf_sort_id [OF example_mbr_wf]
  by (simp add: mbr_wf_def) (simp add: example_mbr_def)

text \<open>A generator that counts.\<close>

definition counting_signatures :: "(u32, u32) prog" where
  "counting_signatures n = (Inr n, n + 1)"

lemma example_mbr_plan:
  "\<exists>plan. make_mbr_write_plan example_mbr 4194304 512 counting_signatures [0x1235] True 0x1234 =
     (Inr plan, 0x1237)"
proof -
  have draw: "draw_signature 32 counting_signatures {0x1234, 0, 0x1235} 0x1234 = (Inr 0x1236, 0x1237)"
    using draw_signature.simps(2) [of 31 counting_signatures] draw_signature.simps(2) [of 30 counting_signatures]
      draw_signature.simps(2) [of 29 counting_signatures]
    by (simp add: bindE_def counting_signatures_def returnE_def)
  show ?thesis
    by (simp add: make_mbr_write_plan_def example_mbr_def Let_def bindE_Inr draw put_mbr_entries_foldl returnE_def)
qed

definition example_mbr_request :: mbr_add_partition_request where
  "example_mbr_request = \<lparr>mreq_first_lba = 2048, mreq_sector_count = 1024, mreq_type = 0x27\<rparr>"

lemma example_mbr_add: "\<exists>plan. make_mbr_add_partition_plan example_mbr example_mbr_request = Inr plan"
  by (simp add: make_mbr_add_partition_plan_def example_mbr_def example_mbr_request_def Let_def
      mbr_end_def is_extended_partition_type_def upt_conv_Cons)

theorem parse_mbr_wf_witness: "mbr_wf example_mbr \<and> mbr_sector_size example_mbr = 512"
  using parse_mbr_wf [OF example_mbr_parse [of "\<lambda>i. 0" "()"]] by simp

theorem make_mbr_write_plan_roundtrip_witness:
  "\<exists>plan. make_mbr_write_plan example_mbr 4194304 512 counting_signatures [0x1235] True 0x1234 =
       (Inr plan, 0x1237) \<and>
     parse_mbr (memory_source_reader 4194304 512 (img_update (\<lambda>i. 0xFF) 0 (mwp_sector plan))) () =
       (Inr (mwp_target_disk plan), ())"
proof -
  obtain plan where plan: "make_mbr_write_plan example_mbr 4194304 512 counting_signatures [0x1235] True 0x1234 =
       (Inr plan, 0x1237)"
    using example_mbr_plan by blast
  from make_mbr_write_plan_roundtrip [OF example_mbr_wf plan, where u = "()" and img = "\<lambda>i. 0xFF"]
  show ?thesis using plan by (intro exI [of _ plan]) simp
qed

theorem make_mbr_add_partition_plan_roundtrip_witness:
  "\<exists>plan new. make_mbr_add_partition_plan example_mbr example_mbr_request = Inr plan \<and>
     mwp_target_disk plan = example_mbr\<lparr>mbr_partitions := mbr_partitions example_mbr @ [new]\<rparr>"
proof -
  obtain plan where plan: "make_mbr_add_partition_plan example_mbr example_mbr_request = Inr plan"
    using example_mbr_add by blast
  from make_mbr_add_partition_plan_roundtrip [OF example_mbr_parse [of "\<lambda>i. 0" "()"] plan, where v = "()"]
  show ?thesis using plan by blast
qed

end
