(* ===== verification/DiskIdentity.thy ===== *)
theory DiskIdentity
  imports Prelude
begin

text \<open>
  The identity checks before a clone (\<open>CloneCore/src/disk_identity.cpp\<close>): a disk is the one the
  operator chose, source and target are different disks, the target is not the running system's,
  and the operator has confirmed the erasure.
\<close>

record stable_disk_identity =
  id_disk_number :: u32
  id_model :: wide_string
  id_size_bytes :: u64
  id_logical_sector_size :: u32
  id_serial_suffix :: narrow_string
  id_device_instance_id :: wide_string
  id_is_system_disk :: bool

record target_confirmation =
  first_step_acknowledged :: bool
  typed_token :: wide_string

definition has_secondary_identifier :: "stable_disk_identity \<Rightarrow> bool" where
  "has_secondary_identifier i \<longleftrightarrow> id_serial_suffix i \<noteq> [] \<or> id_device_instance_id i \<noteq> []"

definition same_device :: "stable_disk_identity \<Rightarrow> stable_disk_identity \<Rightarrow> bool" where
  "same_device l r =
     (if id_serial_suffix l \<noteq> [] \<and> id_serial_suffix r \<noteq> [] \<and>
         id_serial_suffix l = id_serial_suffix r \<and> id_model l = id_model r
      then True
      else id_device_instance_id l \<noteq> [] \<and> id_device_instance_id l = id_device_instance_id r)"

text \<open>\<open>L"OK"\<close>.\<close>

definition make_target_confirmation_token :: "stable_disk_identity \<Rightarrow> wide_string" where
  "make_target_confirmation_token i = [79, 75]"

definition validate_stable_identity :: "stable_disk_identity \<Rightarrow> stable_disk_identity \<Rightarrow> status" where
  "validate_stable_identity expected observed =
     (if id_model expected = [] \<or> id_size_bytes expected = 0 \<or> id_logical_sector_size expected = 0 \<or>
         \<not> has_secondary_identifier expected
      then Inl (mk_error Invalid_data ERROR_INVALID_DATA)
      else
        let matches = id_model expected = id_model observed \<and>
              id_size_bytes expected = id_size_bytes observed \<and>
              id_logical_sector_size expected = id_logical_sector_size observed \<and>
              id_serial_suffix expected = id_serial_suffix observed \<and>
              id_device_instance_id expected = id_device_instance_id observed
        in
        if \<not> matches then Inl (mk_error Identity_mismatch ERROR_DEVICE_NOT_CONNECTED)
        else success_status)"

definition validate_clone_selection ::
  "stable_disk_identity \<Rightarrow> stable_disk_identity \<Rightarrow> stable_disk_identity \<Rightarrow> stable_disk_identity \<Rightarrow>
   bool \<Rightarrow> status" where
  "validate_clone_selection expected_source observed_source expected_target observed_target
     require_target_same_or_larger =
     (case validate_stable_identity expected_source observed_source of
        Inl e \<Rightarrow> Inl e
      | Inr _ \<Rightarrow>
     (case validate_stable_identity expected_target observed_target of
        Inl e \<Rightarrow> Inl e
      | Inr _ \<Rightarrow>
        if same_device observed_source observed_target
        then Inl (mk_error Identity_mismatch ERROR_INVALID_DRIVE)
        else if id_is_system_disk observed_target
        then Inl (mk_error Unsupported_layout ERROR_ACCESS_DENIED)
        else if require_target_same_or_larger \<and>
           id_size_bytes observed_target < id_size_bytes observed_source
        then Inl (mk_error Unsupported_layout ERROR_DISK_FULL)
        else if id_logical_sector_size observed_target \<noteq> id_logical_sector_size observed_source
        then Inl (mk_error Unsupported_layout ERROR_NOT_SUPPORTED)
        else success_status))"

definition validate_clone_identities ::
  "stable_disk_identity \<Rightarrow> stable_disk_identity \<Rightarrow> stable_disk_identity \<Rightarrow> stable_disk_identity \<Rightarrow>
   target_confirmation \<Rightarrow> bool \<Rightarrow> status" where
  "validate_clone_identities expected_source observed_source expected_target observed_target
     confirmation require_target_same_or_larger =
     (case validate_clone_selection expected_source observed_source expected_target observed_target
         require_target_same_or_larger of
        Inl e \<Rightarrow> Inl e
      | Inr _ \<Rightarrow>
        if \<not> first_step_acknowledged confirmation \<or>
           typed_token confirmation \<noteq> make_target_confirmation_token observed_target
        then Inl (mk_error Confirmation_required ERROR_CANCELLED)
        else success_status)"

text \<open>The disks a success vouches for: both complete, both observed as expected, and different.\<close>

definition identity_complete :: "stable_disk_identity \<Rightarrow> bool" where
  "identity_complete i \<longleftrightarrow> id_model i \<noteq> [] \<and> id_size_bytes i \<noteq> 0 \<and> id_logical_sector_size i \<noteq> 0 \<and>
     (id_serial_suffix i \<noteq> [] \<or> id_device_instance_id i \<noteq> [])"

definition same_identity :: "stable_disk_identity \<Rightarrow> stable_disk_identity \<Rightarrow> bool" where
  "same_identity i j \<longleftrightarrow> id_model i = id_model j \<and> id_size_bytes i = id_size_bytes j \<and>
     id_logical_sector_size i = id_logical_sector_size j \<and>
     id_serial_suffix i = id_serial_suffix j \<and> id_device_instance_id i = id_device_instance_id j"

lemma validate_stable_identity_iff:
  "validate_stable_identity e i = Inr u \<longleftrightarrow> identity_complete e \<and> same_identity e i"
  by (auto simp: validate_stable_identity_def identity_complete_def same_identity_def Let_def
      has_secondary_identifier_def)

lemma sum_case_Inr_iff:
  "(case r of Inl e \<Rightarrow> Inl e | Inr x \<Rightarrow> f x) = Inr y \<longleftrightarrow> (\<exists>x. r = Inr x \<and> f x = Inr y)"
  by (cases r) auto

lemma validate_clone_identities_success:
  "validate_clone_identities es os et ot c larger = Inr u \<longleftrightarrow>
     identity_complete es \<and> same_identity es os \<and> identity_complete et \<and> same_identity et ot \<and>
     \<not> same_device os ot \<and> \<not> id_is_system_disk ot \<and>
     \<not> (larger \<and> id_size_bytes ot < id_size_bytes os) \<and>
     id_logical_sector_size ot = id_logical_sector_size os \<and>
     first_step_acknowledged c \<and> typed_token c = [79, 75]"
  unfolding validate_clone_identities_def validate_clone_selection_def sum_case_Inr_iff
    validate_stable_identity_iff make_target_confirmation_token_def
  by auto

lemma same_device_self:
  assumes "identity_complete e" "same_identity e i" "same_identity e j"
  shows "same_device i j"
proof -
  have "id_serial_suffix i \<noteq> [] \<or> id_device_instance_id i \<noteq> []"
    using assms(1,2) by (simp add: identity_complete_def same_identity_def)
  moreover have "id_serial_suffix i = id_serial_suffix j" "id_model i = id_model j"
    "id_device_instance_id i = id_device_instance_id j"
    using assms(2,3) by (simp_all add: same_identity_def)
  ultimately show ?thesis by (auto simp: same_device_def)
qed

text \<open>
  The checks succeed exactly when both disks are completely identified and observed as expected,
  the target is another device than the source, is not the running system's disk, is large
  enough where that is required, has the source's sector size, and the operator has confirmed.
\<close>

theorem validate_clone_identities_iff:
  "validate_clone_identities es os et ot c larger = success_status \<longleftrightarrow>
     identity_complete es \<and> same_identity es os \<and> identity_complete et \<and> same_identity et ot \<and>
     \<not> same_device os ot \<and> \<not> id_is_system_disk ot \<and>
     \<not> (larger \<and> id_size_bytes ot < id_size_bytes os) \<and>
     id_logical_sector_size ot = id_logical_sector_size os \<and>
     first_step_acknowledged c \<and> typed_token c = [79, 75]"
  by (rule validate_clone_identities_success)

text \<open>
  Whatever the operator chose and confirmed, a disk is never accepted as the target of its own
  clone: two observations of one expected identity are always refused.
\<close>

theorem validate_clone_identities_distinct:
  "validate_clone_identities e i e j c larger \<noteq> success_status"
  using same_device_self [of e i j] by (auto simp: validate_clone_identities_success)

end
