(* ===== verification/OperationProgress.thy ===== *)
theory OperationProgress
  imports Prelude
begin

text \<open>
  The observers of a disk operation (\<open>CloneCore/operation_progress.h\<close>): progress reports,
  cancellation requests and the control decisions at safe boundaries.  A \<open>std::function\<close> is an
  optional program over the world; \<open>None\<close> as its result is an exception leaving it.
\<close>

datatype disk_operation_stage =
  Planning | Verifying_source | Invalidating_target | Copying_data | Flushing_data |
  Staging_partition_table | Committing_partition_table | Validating_conversion |
  Converting_partition_style | Rebuilding_boot | Verifying_final | Completed

datatype safe_boundary_kind = Read_only_block | Verified_chunk | Verified_partition

record safe_boundary =
  sb_kind :: safe_boundary_kind
  sb_stage :: disk_operation_stage
  sb_partition_index :: "u32 option"
  sb_completed_bytes :: u64
  sb_completed_units :: u64

datatype control_decision = Continue_operation | Cancel_operation

record operation_progress =
  pr_stage :: disk_operation_stage
  pr_partition_index :: "u32 option"
  pr_total_read_bytes :: u64
  pr_total_write_bytes :: u64
  pr_total_verify_bytes :: u64
  pr_read_bytes :: u64
  pr_written_bytes :: u64
  pr_verified_bytes :: u64
  pr_cancellation_allowed :: bool
  pr_pause_allowed :: bool

definition initial_progress :: operation_progress where
  "initial_progress = \<lparr>pr_stage = Planning, pr_partition_index = None, pr_total_read_bytes = 0,
     pr_total_write_bytes = 0, pr_total_verify_bytes = 0, pr_read_bytes = 0, pr_written_bytes = 0,
     pr_verified_bytes = 0, pr_cancellation_allowed = False, pr_pause_allowed = False\<rparr>"

type_synonym ('s, 'a) observer = "'s \<Rightarrow> 'a option \<times> 's"

record 's operation_callbacks =
  cb_progress :: "(operation_progress \<Rightarrow> ('s, unit) observer) option"
  cb_cancellation_requested :: "('s, bool) observer option"
  cb_safe_boundary :: "(safe_boundary \<Rightarrow> ('s, control_decision) observer) option"

definition report_progress :: "'s operation_callbacks \<Rightarrow> operation_progress \<Rightarrow> 's \<Rightarrow> unit \<times> 's" where
  "report_progress callbacks progress s =
     (case cb_progress callbacks of
        None \<Rightarrow> ((), s)
      | Some f \<Rightarrow> ((), snd (f progress s)))"

definition cancellation_requested :: "'s operation_callbacks \<Rightarrow> 's \<Rightarrow> bool \<times> 's" where
  "cancellation_requested callbacks s =
     (case cb_cancellation_requested callbacks of
        None \<Rightarrow> (False, s)
      | Some f \<Rightarrow>
        (case f s of
           (Some b, t) \<Rightarrow> (b, t)
         | (None, t) \<Rightarrow> (True, t)))"

definition control_at_safe_boundary ::
  "'s operation_callbacks \<Rightarrow> safe_boundary \<Rightarrow> 's \<Rightarrow> control_decision \<times> 's" where
  "control_at_safe_boundary callbacks boundary s =
     (case cb_safe_boundary callbacks of
        None \<Rightarrow> (Continue_operation, s)
      | Some f \<Rightarrow>
        (case f boundary s of
           (Some d, t) \<Rightarrow> (d, t)
         | (None, t) \<Rightarrow> (Cancel_operation, t)))"

text \<open>A default-constructed \<open>DiskOperationCallbacks\<close>.\<close>

definition no_callbacks :: "'s operation_callbacks" where
  "no_callbacks = \<lparr>cb_progress = None, cb_cancellation_requested = None, cb_safe_boundary = None\<rparr>"

section \<open>Observers that leave a part of the world alone\<close>

definition callbacks_keep :: "('s \<Rightarrow> 'v) \<Rightarrow> 's operation_callbacks \<Rightarrow> bool" where
  "callbacks_keep v callbacks \<longleftrightarrow>
     (\<forall>p. keeps v (report_progress callbacks p)) \<and> keeps v (cancellation_requested callbacks) \<and>
     (\<forall>b. keeps v (control_at_safe_boundary callbacks b))"

lemma callbacks_keep_none [simp]: "callbacks_keep v no_callbacks"
  by (simp add: callbacks_keep_def no_callbacks_def keeps_def report_progress_def
      cancellation_requested_def control_at_safe_boundary_def)

end
