(* ===== verification/VerifiedDigest.thy ===== *)
theory VerifiedDigest
  imports Prelude
begin

unbundle bit_operations_syntax

text \<open>
  The evidence of a clone (\<open>CloneCore/src/verified_write_digest.cpp\<close>): a SHA-256 over one record per
  write that was read back and compared.  The hash itself is Windows CNG, a parameter: the five
  calls the builder makes, each with its \<open>NTSTATUS\<close>.  A handle is a number, 0 the null handle;
  the releases in the destructor are not modelled.
\<close>

section \<open>The CNG interface\<close>

datatype cng_property = BCRYPT_OBJECT_LENGTH | BCRYPT_HASH_LENGTH

record 's cng_api =
  bcrypt_open_algorithm_provider :: "'s \<Rightarrow> (u32 \<times> nat) \<times> 's"
  bcrypt_get_property :: "nat \<Rightarrow> cng_property \<Rightarrow> 's \<Rightarrow> (u32 \<times> u32 \<times> u32) \<times> 's"
  bcrypt_create_hash :: "nat \<Rightarrow> u32 \<Rightarrow> 's \<Rightarrow> (u32 \<times> nat) \<times> 's"
  bcrypt_hash_data :: "nat \<Rightarrow> byte list \<Rightarrow> 's \<Rightarrow> u32 \<times> 's"
  bcrypt_finish_hash :: "nat \<Rightarrow> u32 \<Rightarrow> 's \<Rightarrow> (u32 \<times> byte list) \<times> 's"

definition bcrypt_success :: "u32 \<Rightarrow> bool" where
  "bcrypt_success status \<longleftrightarrow> status < 0x80000000"

abbreviation (input) kMaximumHashObjectBytes :: u32 where "kMaximumHashObjectBytes \<equiv> 1048576"
abbreviation (input) kMaximumVerifiedWriteBytes :: nat where "kMaximumVerifiedWriteBytes \<equiv> 16777216"

definition cng_error :: "u32 \<Rightarrow> error" where
  "cng_error status = mk_error Verification_failed status"

section \<open>The builder\<close>

text \<open>\<open>VerifiedWriteDigestBuilder::State\<close> without the buffer CNG keeps its own state in.\<close>

record write_digest =
  wd_algorithm :: nat
  wd_hash :: nat
  wd_record_count :: u64
  wd_verified_payload_bytes :: u64
  wd_finished :: bool

definition digest_create :: "'s cng_api \<Rightarrow> ('s, write_digest) prog" where
  "digest_create cng =
     bindE (liftE (bcrypt_open_algorithm_provider cng)) (\<lambda>(status, algorithm).
     if \<not> bcrypt_success status then failE (cng_error status) else
     bindE (liftE (bcrypt_get_property cng algorithm BCRYPT_OBJECT_LENGTH))
       (\<lambda>(status, object_length, returned).
     if \<not> bcrypt_success status then failE (cng_error status)
     else if returned \<noteq> 4 \<or> object_length = 0 \<or> object_length > kMaximumHashObjectBytes
     then failE (mk_error Verification_failed ERROR_INVALID_DATA) else
     bindE (liftE (bcrypt_get_property cng algorithm BCRYPT_HASH_LENGTH))
       (\<lambda>(status, digest_length, returned).
     if \<not> bcrypt_success status then failE (cng_error status)
     else if returned \<noteq> 4 \<or> digest_length \<noteq> 32
     then failE (mk_error Verification_failed ERROR_INVALID_DATA) else
     bindE (liftE (bcrypt_create_hash cng algorithm object_length)) (\<lambda>(status, hash).
     if \<not> bcrypt_success status then failE (cng_error status)
     else returnE \<lparr>wd_algorithm = algorithm, wd_hash = hash, wd_record_count = 0,
       wd_verified_payload_bytes = 0, wd_finished = False\<rparr>))))"

text \<open>The loop of \<open>State::update\<close>: at most a \<open>ULONG\<close> of bytes per call.\<close>

function hash_all :: "'s cng_api \<Rightarrow> nat \<Rightarrow> byte list \<Rightarrow> ('s, unit) prog" where
  "hash_all cng hash bytes =
     (if bytes = [] then returnE ()
      else
        let amount = min (length bytes) 4294967295 in
        bindE (liftE (bcrypt_hash_data cng hash (take amount bytes))) (\<lambda>status.
        if \<not> bcrypt_success status then failE (cng_error status)
        else hash_all cng hash (drop amount bytes)))"
  by pat_completeness auto
termination
  by (relation "measure (\<lambda>(cng, hash, bytes). length bytes)") auto

declare hash_all.simps [simp del]

definition digest_update :: "'s cng_api \<Rightarrow> write_digest \<Rightarrow> byte list \<Rightarrow> ('s, unit) prog" where
  "digest_update cng d bytes =
     (if wd_finished d \<or> wd_hash d = 0 then failE (mk_error Internal_error ERROR_INVALID_STATE)
      else hash_all cng (wd_hash d) bytes)"

definition little_endian_bytes :: "u64 \<Rightarrow> byte list" where
  "little_endian_bytes value = map (\<lambda>index. ucast (drop_bit (index * 8) value AND 0xFF)) [0..<8]"

text \<open>\<open>kVerifiedWriteDomain\<close>, the string \<open>"Y-TEC:Tsumugi:offline-clone:verified-write:v1"\<close>.\<close>

definition kVerifiedWriteDomain :: "byte list" where
  "kVerifiedWriteDomain =
     [89, 45, 84, 69, 67, 58, 84, 115, 117, 109, 117, 103, 105, 58, 111, 102, 102, 108, 105, 110,
      101, 45, 99, 108, 111, 110, 101, 58, 118, 101, 114, 105, 102, 105, 101, 100, 45, 119, 114,
      105, 116, 101, 58, 118, 49]"

fun digest_components :: "'s cng_api \<Rightarrow> write_digest \<Rightarrow> byte list list \<Rightarrow> ('s, unit) prog" where
  "digest_components cng d [] = returnE ()"
| "digest_components cng d (c # cs) = bindE (digest_update cng d c) (\<lambda>u. digest_components cng d cs)"

text \<open>On a failure the fields of the builder stay as they were.\<close>

definition append_verified_write ::
  "'s cng_api \<Rightarrow> write_digest \<Rightarrow> u64 \<Rightarrow> byte list \<Rightarrow> ('s, write_digest) prog" where
  "append_verified_write cng d offset bytes =
     (if wd_finished d then failE (mk_error Internal_error ERROR_INVALID_STATE)
      else if bytes = [] \<or> length bytes > kMaximumVerifiedWriteBytes
      then failE (mk_error Invalid_argument ERROR_INVALID_PARAMETER)
      else
        let len = of_nat (length bytes) in
        if len > 0xFFFFFFFFFFFFFFFF - offset \<or> wd_record_count d = 0xFFFFFFFFFFFFFFFF \<or>
           len > 0xFFFFFFFFFFFFFFFF - wd_verified_payload_bytes d
        then failE (mk_error Invalid_data ERROR_ARITHMETIC_OVERFLOW)
        else
          bindE (digest_components cng d
            [kVerifiedWriteDomain, little_endian_bytes offset, little_endian_bytes len, bytes]) (\<lambda>u.
          returnE (d\<lparr>wd_record_count := wd_record_count d + 1,
            wd_verified_payload_bytes := wd_verified_payload_bytes d + len\<rparr>)))"

text \<open>\<open>finish\<close> changes the builder whether it succeeds or not: it returns both.\<close>

definition digest_finish ::
  "'s cng_api \<Rightarrow> write_digest \<Rightarrow> 's \<Rightarrow> (byte list result \<times> write_digest) \<times> 's" where
  "digest_finish cng d s =
     (if wd_finished d then ((Inl (mk_error Internal_error ERROR_INVALID_STATE), d), s)
      else if wd_record_count d = 0 then ((Inl (mk_error Verification_failed ERROR_INVALID_DATA), d), s)
      else
        case bcrypt_finish_hash cng (wd_hash d) 32 s of
          ((status, bytes), t) \<Rightarrow>
            ((if \<not> bcrypt_success status then Inl (cng_error status) else Inr bytes,
              d\<lparr>wd_finished := True\<rparr>), t))"

section \<open>What is hashed\<close>

definition write_record :: "u64 \<Rightarrow> byte list \<Rightarrow> byte list" where
  "write_record offset bytes =
     kVerifiedWriteDomain @ le_bytes 8 (unat offset) @ le_bytes 8 (length bytes) @ bytes"

lemma le_bytes_nth: "i < n \<Longrightarrow> le_bytes n v ! i = of_nat (v div 256 ^ i)"
proof (induction n arbitrary: v i)
  case (Suc n)
  show ?case
  proof (cases i)
    case 0
    then show ?thesis by simp
  next
    case (Suc j)
    then show ?thesis using Suc.IH [of j] Suc.prems by (simp add: div_mult2_eq)
  qed
qed simp

lemma little_endian_bytes_eq: "little_endian_bytes v = le_bytes 8 (unat v)"
proof (rule nth_equalityI)
  fix i assume "i < length (little_endian_bytes v)"
  then have i: "i < 8" by (simp add: little_endian_bytes_def)
  have "ucast (drop_bit (i * 8) v AND 0xFF) = (of_nat (unat v div 2 ^ (i * 8)) :: byte)"
  proof (rule bit_word_eqI)
    fix n assume n: "n < LENGTH(8)"
    have "n \<in> {0, 1, 2, 3, 4, 5, 6, 7}" using n by auto
    then have "bit (0xFF :: u64) n" by auto
    then show "bit (ucast (drop_bit (i * 8) v AND 0xFF) :: byte) n =
        bit (of_nat (unat v div 2 ^ (i * 8)) :: byte) n"
      using n unfolding drop_bit_eq_div [symmetric]
      by (simp add: bit_simps)
  qed
  then show "little_endian_bytes v ! i = le_bytes 8 (unat v) ! i"
    using i by (simp add: little_endian_bytes_def le_bytes_nth power_mult mult.commute [of i 8])
qed (simp add: little_endian_bytes_def)

text \<open>The bytes hashed for a sequence of writes.\<close>

definition evidence :: "(u64 \<times> byte list) list \<Rightarrow> byte list" where
  "evidence ws = concat (map (\<lambda>(offset, bytes). write_record offset bytes) ws)"

lemma evidence_simps [simp]:
  "evidence [] = []" "evidence ((offset, bytes) # ws) = write_record offset bytes @ evidence ws"
  "evidence (ws @ ws') = evidence ws @ evidence ws'"
  by (simp_all add: evidence_def)

lemma write_record_not_Nil [simp]: "write_record offset bytes \<noteq> []"
  by (simp add: write_record_def kVerifiedWriteDomain_def)

lemma le_bytes_inj: "le_bytes n a = le_bytes n b \<Longrightarrow> a < 256 ^ n \<Longrightarrow> b < 256 ^ n \<Longrightarrow> a = b"
  by (metis le_nat_le_bytes mod_less)

lemma write_record_append_inj:
  assumes "write_record offset bytes @ xs = write_record offset' bytes' @ xs'"
    "length bytes < 2 ^ 64" "length bytes' < 2 ^ 64"
  shows "offset = offset' \<and> bytes = bytes' \<and> xs = xs'"
proof -
  from assms(1) have *: "le_bytes 8 (unat offset) = le_bytes 8 (unat offset')"
    "le_bytes 8 (length bytes) = le_bytes 8 (length bytes')" "bytes @ xs = bytes' @ xs'"
    by (simp_all add: write_record_def append_eq_append_conv)
  have "unat offset = unat offset'"
    using le_bytes_inj [OF *(1)] unat_u64_bound [of offset] unat_u64_bound [of offset'] by simp
  moreover have "length bytes = length bytes'"
    using le_bytes_inj [OF *(2)] assms(2,3) by simp
  ultimately show ?thesis using *(3) by (simp add: word_unat_eq_iff)
qed

text \<open>
  The hashed bytes determine the writes: two different sequences of verified writes, whatever
  their offsets, lengths and number, are never hashed as the same bytes.
\<close>

theorem evidence_injective:
  "list_all (\<lambda>(offset, bytes). length bytes < 2 ^ 64) ws \<Longrightarrow>
   list_all (\<lambda>(offset, bytes). length bytes < 2 ^ 64) ws' \<Longrightarrow>
   evidence ws = evidence ws' \<Longrightarrow> ws = ws'"
proof (induction ws arbitrary: ws')
  case Nil
  then show ?case by (cases ws') auto
next
  case (Cons w ws)
  obtain offset bytes where w: "w = (offset, bytes)" by (cases w)
  with Cons.prems(3) obtain offset' bytes' ws'' where ws': "ws' = (offset', bytes') # ws''"
    by (cases ws') auto
  have "length bytes < 2 ^ 64" "length bytes' < 2 ^ 64"
    and eq: "write_record offset bytes @ evidence ws = write_record offset' bytes' @ evidence ws''"
    using Cons.prems w ws' by simp_all
  from write_record_append_inj [OF this(3,1,2)] have "w = (offset', bytes')" "evidence ws = evidence ws''"
    by (simp_all add: w)
  moreover from this(2) have "ws = ws''" using Cons.prems(1,2) by (intro Cons.IH) (simp_all add: ws')
  ultimately show ?case by (simp add: ws')
qed

theorem evidence_injective_witness:
  "evidence [(0, [1, 2]), (5, [3])] \<noteq> evidence [(0, [1]), (5, [2, 3])]"
  using evidence_injective [of "[(0, [1, 2]), (5, [3])]" "[(0, [1]), (5, [2, 3])]"] by auto

section \<open>What the digest is\<close>

text \<open>
  The documented behaviour of the provider: \<open>H\<close> is the hash, and \<open>absorbed s h\<close> what has been fed to
  the hash object \<open>h\<close> so far.
\<close>

definition cng_hashes :: "'s cng_api \<Rightarrow> (byte list \<Rightarrow> byte list) \<Rightarrow> ('s \<Rightarrow> nat \<Rightarrow> byte list) \<Rightarrow> bool" where
  "cng_hashes cng H absorbed \<longleftrightarrow>
     (\<forall>a n s status h t. bcrypt_create_hash cng a n s = ((status, h), t) \<longrightarrow> bcrypt_success status \<longrightarrow>
        absorbed t h = []) \<and>
     (\<forall>h bs s status t. bcrypt_hash_data cng h bs s = (status, t) \<longrightarrow> bcrypt_success status \<longrightarrow>
        absorbed t h = absorbed s h @ bs) \<and>
     (\<forall>h n s status bs t. bcrypt_finish_hash cng h n s = ((status, bs), t) \<longrightarrow> bcrypt_success status \<longrightarrow>
        bs = H (absorbed s h))"

lemma liftE_eq_Inr [simp]: "liftE m s = (Inr x, t) \<longleftrightarrow> m s = (x, t)"
  by (cases "m s") (auto simp: liftE_def)

lemma hash_all_success:
  assumes "cng_hashes cng H absorbed"
  shows "hash_all cng h bs s = (Inr u, t) \<Longrightarrow> absorbed t h = absorbed s h @ bs"
proof (induction bs arbitrary: s rule: length_induct)
  case (1 bs)
  show ?case
  proof (cases "bs = []")
    case True
    then show ?thesis using "1.prems" by (simp add: hash_all.simps)
  next
    case False
    let ?n = "min (length bs) 4294967295"
    from "1.prems" False obtain status v where
      step: "bcrypt_hash_data cng h (take ?n bs) s = (status, v)" "bcrypt_success status"
      and rest: "hash_all cng h (drop ?n bs) v = (Inr u, t)"
      by (subst (asm) hash_all.simps) (auto simp: Let_def bindE_eq_Inr split: if_splits)
    have "absorbed v h = absorbed s h @ take ?n bs"
      using assms step unfolding cng_hashes_def by blast
    moreover have "absorbed t h = absorbed v h @ drop ?n bs"
      using "1.IH" rest False by simp
    ultimately show ?thesis by simp
  qed
qed

lemma digest_components_success:
  assumes "cng_hashes cng H absorbed"
  shows "digest_components cng d cs s = (Inr u, t) \<Longrightarrow>
    absorbed t (wd_hash d) = absorbed s (wd_hash d) @ concat cs"
proof (induction cs arbitrary: s)
  case (Cons c cs)
  then obtain v where "digest_update cng d c s = (Inr (), v)" "digest_components cng d cs v = (Inr u, t)"
    by (auto simp: bindE_eq_Inr)
  moreover from this(1) have "absorbed v (wd_hash d) = absorbed s (wd_hash d) @ c"
    using hash_all_success [OF assms] by (auto simp: digest_update_def split: if_splits)
  ultimately show ?case using Cons.IH [of v] by simp
qed simp

lemma append_verified_write_success:
  assumes "cng_hashes cng H absorbed" "append_verified_write cng d offset bytes s = (Inr d', t)"
  shows "absorbed t (wd_hash d) = absorbed s (wd_hash d) @ write_record offset bytes"
    "wd_hash d' = wd_hash d" "wd_finished d' = wd_finished d" "\<not> wd_finished d"
    "unat (wd_record_count d') = unat (wd_record_count d) + 1"
    "bytes \<noteq> []" "length bytes \<le> kMaximumVerifiedWriteBytes"
proof -
  let ?len = "of_nat (length bytes) :: u64"
  from assms(2) have a: "\<not> wd_finished d" "bytes \<noteq> []" "length bytes \<le> kMaximumVerifiedWriteBytes"
    "wd_record_count d \<noteq> 0xFFFFFFFFFFFFFFFF"
    "digest_components cng d
       [kVerifiedWriteDomain, little_endian_bytes offset, little_endian_bytes ?len, bytes] s = (Inr (), t)"
    "d' = d\<lparr>wd_record_count := wd_record_count d + 1,
       wd_verified_payload_bytes := wd_verified_payload_bytes d + ?len\<rparr>"
    by (auto simp: append_verified_write_def Let_def bindE_eq_Inr split: if_splits)
  have "unat ?len = length bytes" using a(3) by (intro unat_of_nat_u64) simp
  then show "absorbed t (wd_hash d) = absorbed s (wd_hash d) @ write_record offset bytes"
    using digest_components_success [OF assms(1) a(5)]
    by (simp add: write_record_def little_endian_bytes_eq)
  show "wd_hash d' = wd_hash d" "wd_finished d' = wd_finished d" "\<not> wd_finished d"
    "bytes \<noteq> []" "length bytes \<le> kMaximumVerifiedWriteBytes"
    using a by simp_all
  have "unat (wd_record_count d) \<noteq> 18446744073709551615"
    using a(4) by (simp add: word_unat_eq_iff)
  then have "unat (wd_record_count d) + 1 < 2 ^ 64"
    using unat_u64_bound [of "wd_record_count d"] by simp
  then show "unat (wd_record_count d') = unat (wd_record_count d) + 1"
    by (simp add: a(6) unat_add_u64)
qed

fun append_writes ::
  "'s cng_api \<Rightarrow> write_digest \<Rightarrow> (u64 \<times> byte list) list \<Rightarrow> ('s, write_digest) prog" where
  "append_writes cng d [] = returnE d"
| "append_writes cng d ((offset, bytes) # ws) =
     bindE (append_verified_write cng d offset bytes) (\<lambda>d. append_writes cng d ws)"

lemma append_writes_success:
  assumes "cng_hashes cng H absorbed"
  shows "append_writes cng d ws s = (Inr d', t) \<Longrightarrow>
    absorbed t (wd_hash d) = absorbed s (wd_hash d) @ evidence ws \<and> wd_hash d' = wd_hash d"
proof (induction ws arbitrary: d s)
  case (Cons w ws)
  obtain offset bytes where w: "w = (offset, bytes)" by (cases w)
  with Cons.prems obtain e v where e: "append_verified_write cng d offset bytes s = (Inr e, v)"
    and rest: "append_writes cng e ws v = (Inr d', t)"
    by (auto simp: bindE_eq_Inr)
  from append_verified_write_success [OF assms e] Cons.IH [OF rest] w show ?case by simp
qed simp

text \<open>
  C38. The digest a builder returns is the hash of the records of the writes appended to it, in their
  order, and the builder is spent: whatever CNG does, it can neither be extended nor finished a
  second time.
\<close>

theorem digest_is_hash_of_writes:
  assumes "cng_hashes cng H absorbed"
    and create: "digest_create cng s = (Inr d, t)" and writes: "append_writes cng d ws t = (Inr d', u)"
    and finish: "digest_finish cng d' u = ((Inr bytes, d''), v)"
  shows "bytes = H (evidence ws) \<and> ws \<noteq> [] \<and>
    append_verified_write cng d'' offset bs x = (Inl (mk_error Internal_error ERROR_INVALID_STATE), x) \<and>
    digest_finish cng d'' x = ((Inl (mk_error Internal_error ERROR_INVALID_STATE), d''), x)"
proof -
  from create obtain a n w status where c: "bcrypt_create_hash cng a n w = ((status, wd_hash d), t)"
    "bcrypt_success status" and count: "wd_record_count d = 0"
    by (auto simp: digest_create_def bindE_eq_Inr split: if_splits)
  from c assms(1) have "absorbed t (wd_hash d) = []" by (auto simp: cng_hashes_def)
  then have absorbed: "absorbed u (wd_hash d') = evidence ws"
    using append_writes_success [OF assms(1) writes] by simp
  have "ws \<noteq> []"
    using finish writes count by (auto simp: digest_finish_def split: if_splits)
  moreover from finish obtain status' where "bcrypt_finish_hash cng (wd_hash d') 32 u = ((status', bytes), v)"
    "bcrypt_success status'" and d'': "d'' = d'\<lparr>wd_finished := True\<rparr>"
    by (auto simp: digest_finish_def split: if_splits prod.splits)
  then have "bytes = H (evidence ws)" using assms(1) absorbed unfolding cng_hashes_def by metis
  ultimately show ?thesis
    by (simp add: d'' append_verified_write_def digest_finish_def failE_def)
qed

section \<open>Frames\<close>

text \<open>The provider touches nothing that \<open>v\<close> shows of the world.\<close>

definition cng_keeps :: "('s \<Rightarrow> 'v) \<Rightarrow> 's cng_api \<Rightarrow> bool" where
  "cng_keeps v cng \<longleftrightarrow>
     keeps v (bcrypt_open_algorithm_provider cng) \<and>
     (\<forall>a p. keeps v (bcrypt_get_property cng a p)) \<and>
     (\<forall>a n. keeps v (bcrypt_create_hash cng a n)) \<and>
     (\<forall>h bs. keeps v (bcrypt_hash_data cng h bs)) \<and>
     (\<forall>h n. keeps v (bcrypt_finish_hash cng h n))"

lemma keeps_digest_create: "cng_keeps v cng \<Longrightarrow> keeps v (digest_create cng)"
  unfolding digest_create_def cng_keeps_def
  by (intro keeps_bindE) (auto intro!: keeps_liftE keeps_bindE)

lemma keeps_hash_all: "cng_keeps v cng \<Longrightarrow> keeps v (hash_all cng h bs)"
proof (induction bs rule: length_induct)
  case (1 bs)
  show ?case
  proof (cases "bs = []")
    case True
    then show ?thesis by (subst hash_all.simps) simp
  next
    case False
    with 1 show ?thesis
      by (subst hash_all.simps) (auto simp: Let_def cng_keeps_def intro!: keeps_bindE keeps_liftE)
  qed
qed

lemma keeps_append_verified_write:
  assumes "cng_keeps v cng"
  shows "keeps v (append_verified_write cng d offset bytes)"
proof -
  have u: "keeps v (digest_update cng d c)" for c
    using keeps_hash_all [OF assms] by (simp add: digest_update_def)
  have "keeps v (digest_components cng d cs)" for cs
    by (induction cs) (auto intro!: keeps_bindE u)
  then show ?thesis
    by (auto simp: append_verified_write_def Let_def intro!: keeps_bindE u)
qed

lemma keeps_digest_finish:
  assumes "cng_keeps v cng"
  shows "keeps v (digest_finish cng d)"
proof -
  have "keeps v (bcrypt_finish_hash cng (wd_hash d) 32)" using assms by (simp add: cng_keeps_def)
  note * = keepsD [OF this]
  show ?thesis
    by (rule keepsI) (auto simp: digest_finish_def dest: * split: if_splits prod.splits)
qed

section \<open>A provider in memory\<close>

text \<open>
  A provider that keeps what its one hash object has absorbed in a part of the world (\<open>get\<close>,
  \<open>put\<close>), and whose hash is a 32-byte checksum.
\<close>

definition checksum :: "byte list \<Rightarrow> byte list" where
  "checksum bytes = replicate 32 (foldl (\<lambda>v b. 31 * v + b) 0 bytes)"

definition memory_cng :: "('s \<Rightarrow> byte list) \<Rightarrow> (byte list \<Rightarrow> 's \<Rightarrow> 's) \<Rightarrow> 's cng_api" where
  "memory_cng get put = \<lparr>bcrypt_open_algorithm_provider = (\<lambda>s. ((0, 1), s)),
     bcrypt_get_property = (\<lambda>a p s. ((0, case p of BCRYPT_OBJECT_LENGTH \<Rightarrow> 256 | BCRYPT_HASH_LENGTH \<Rightarrow> 32, 4), s)),
     bcrypt_create_hash = (\<lambda>a n s. ((0, 1), put [] s)),
     bcrypt_hash_data = (\<lambda>h bs s. (0, put (get s @ bs) s)),
     bcrypt_finish_hash = (\<lambda>h n s. ((0, checksum (get s)), s))\<rparr>"

lemma memory_cng_hashes:
  "(\<And>b s. get (put b s) = b) \<Longrightarrow> cng_hashes (memory_cng get put) checksum (\<lambda>s h. get s)"
  by (simp add: cng_hashes_def memory_cng_def)

lemma memory_cng_keeps: "(\<And>b s. v (put b s) = v s) \<Longrightarrow> cng_keeps v (memory_cng get put)"
  by (simp add: cng_keeps_def memory_cng_def keeps_def)

lemma memory_cng_all:
  assumes "\<And>b s. get (put b s) = b" "\<And>b c s. put b (put c s) = put b s" "\<And>s. put (get s) s = s"
  shows "hash_all (memory_cng get put) h bs s = (Inr (), put (get s @ bs) s)"
proof (induction bs arbitrary: s rule: length_induct)
  case (1 bs)
  then show ?case
    by (subst hash_all.simps)
      (auto simp: Let_def bindE_def liftE_def memory_cng_def bcrypt_success_def returnE_def assms)
qed

definition example_digest :: write_digest where
  "example_digest = \<lparr>wd_algorithm = 1, wd_hash = 1, wd_record_count = 1,
     wd_verified_payload_bytes = 1, wd_finished = False\<rparr>"

theorem digest_is_hash_of_writes_witness:
  "\<exists>bytes d'' v. digest_finish (memory_cng (\<lambda>s. s) (\<lambda>b s. b)) example_digest (evidence [(512, [7])]) =
      ((Inr bytes, d''), v) \<and> bytes = checksum (evidence [(512, [7])])"
proof -
  let ?d = "\<lparr>wd_algorithm = 1, wd_hash = 1, wd_record_count = 0, wd_verified_payload_bytes = 0,
     wd_finished = False\<rparr>"
  have create: "digest_create (memory_cng (\<lambda>s. s) (\<lambda>b s. b)) [] = (Inr ?d, [])"
    by (simp add: digest_create_def memory_cng_def bindE_def liftE_def bcrypt_success_def returnE_def)
  have writes: "append_writes (memory_cng (\<lambda>s. s) (\<lambda>b s. b)) ?d [(512, [7])] [] =
      (Inr example_digest, evidence [(512, [7])])"
    by (simp add: append_verified_write_def digest_update_def memory_cng_all bindE_def returnE_def
        example_digest_def write_record_def little_endian_bytes_eq)
  have finish: "digest_finish (memory_cng (\<lambda>s. s) (\<lambda>b s. b)) example_digest (evidence [(512, [7])]) =
      ((Inr (checksum (evidence [(512, [7])])), example_digest\<lparr>wd_finished := True\<rparr>),
       evidence [(512, [7])])"
    by (simp add: digest_finish_def memory_cng_def example_digest_def bcrypt_success_def)
  from digest_is_hash_of_writes [OF memory_cng_hashes create writes finish, of 0 "[]" "[]"] finish
  show ?thesis by blast
qed

end
