(* ===== verification/CloneEngine.thy ===== *)
theory CloneEngine
  imports BlockDevice OperationProgress VerifiedDigest
begin

text \<open>
  The copying core that \<open>offline_gpt_clone.cpp\<close> and \<open>offline_mbr_clone.cpp\<close> each define with the same
  bodies: a write that is read back, compared and recorded, the chunked copy of a byte range with
  its cancellation points, and the erasure of a target's old partition information.
\<close>

section \<open>Routines\<close>

definition cancelled_status :: "('s, 'a) prog" where
  "cancelled_status = failE (mk_error Cancelled ERROR_CANCELLED)"

definition publish_progress ::
  "'s operation_callbacks \<Rightarrow> operation_progress \<Rightarrow> disk_operation_stage \<Rightarrow> u32 option \<Rightarrow> bool \<Rightarrow>
   ('s, operation_progress) prog" where
  "publish_progress callbacks progress stage partition_index cancellation_allowed =
     (let progress = progress\<lparr>pr_stage := stage, pr_partition_index := partition_index,
           pr_cancellation_allowed := cancellation_allowed,
           pr_pause_allowed := (stage = Copying_data)\<rparr>
      in bindE (liftE (report_progress callbacks progress)) (\<lambda>u. returnE progress))"

text \<open>The digest is absent when the write is not evidence.\<close>

definition write_and_verify ::
  "'s cng_api \<Rightarrow> 's target_writer \<Rightarrow> u64 \<Rightarrow> byte list \<Rightarrow> write_digest option \<Rightarrow>
   ('s, write_digest option) prog" where
  "write_and_verify cng target offset bytes digest =
     bindE (tgt_write target offset bytes) (\<lambda>u.
     bindE (tgt_read_back target offset (of_nat (length bytes))) (\<lambda>read_back.
     if length read_back \<noteq> length bytes \<or> read_back \<noteq> bytes
     then failE (mk_error Verification_failed ERROR_CRC)
     else
       case digest of
         None \<Rightarrow> returnE None
       | Some d \<Rightarrow>
         bindE (append_verified_write cng d offset read_back) (\<lambda>d. returnE (Some d))))"

text \<open>The variables that the copy of a range updates for its caller.\<close>

record copy_state =
  cs_progress :: operation_progress
  cs_digest :: write_digest
  cs_copied_bytes :: u64
  cs_verified_chunk_count :: u64

text \<open>A cancellation in the loop: what was written is flushed first.\<close>

definition flush_and_cancel :: "'s target_writer \<Rightarrow> ('s, 'a) prog" where
  "flush_and_cancel target = bindE (tgt_flush target) (\<lambda>u. cancelled_status)"

text \<open>What follows a verified chunk: the counters, the progress report and the safe boundary.\<close>

definition after_chunk ::
  "'s target_writer \<Rightarrow> u32 \<Rightarrow> 's operation_callbacks \<Rightarrow> u64 \<Rightarrow> write_digest option \<Rightarrow> copy_state \<Rightarrow>
   ('s, copy_state) prog" where
  "after_chunk target partition_index callbacks chunk digest cs =
     (let copied = cs_copied_bytes cs + chunk;
          chunks = cs_verified_chunk_count cs + 1;
          progress = (cs_progress cs)\<lparr>pr_read_bytes := copied, pr_written_bytes := copied,
            pr_verified_bytes := copied\<rparr>
      in
      bindE (publish_progress callbacks progress Copying_data (Some partition_index) True) (\<lambda>progress.
      bindE (liftE (control_at_safe_boundary callbacks
          \<lparr>sb_kind = Verified_chunk, sb_stage = Copying_data,
           sb_partition_index = Some partition_index, sb_completed_bytes = copied,
           sb_completed_units = chunks\<rparr>)) (\<lambda>decision.
      if decision = Cancel_operation then flush_and_cancel target
      else returnE \<lparr>cs_progress = progress,
        cs_digest = (case digest of None \<Rightarrow> cs_digest cs | Some d \<Rightarrow> d),
        cs_copied_bytes = copied, cs_verified_chunk_count = chunks\<rparr>)))"

lemma write_and_verify_nonempty:
  "write_and_verify cng target offset bytes (Some d) s = (Inr r, t) \<Longrightarrow> bytes \<noteq> []"
  by (auto simp: write_and_verify_def append_verified_write_def bindE_eq_Inr split: if_splits)

lemma chunk_progress:
  fixes position len :: u64
  assumes pos: "position < len" and chunk: "unat chunk \<le> unat (len - position)" "length bytes = unat chunk"
    and w: "write_and_verify cng target offset bytes (Some d) s = (Inr r, t)"
  shows "0 < unat chunk" "unat position + unat chunk \<le> unat len"
    "unat (position + chunk) = unat position + unat chunk"
proof -
  show "0 < unat chunk" using write_and_verify_nonempty [OF w] chunk(2) by (cases bytes) auto
  show le: "unat position + unat chunk \<le> unat len"
    using chunk(1) pos unat_sub_u64 [of position len] by (simp add: word_less_nat_alt word_le_nat_alt)
  then show "unat (position + chunk) = unat position + unat chunk"
    using unat_u64_bound [of len] by (intro unat_add_u64) simp
qed

lemma unat_min_le: "unat (min a b) \<le> unat a" "unat (min a b) \<le> unat b"
  by (simp_all add: min_def word_le_nat_alt)

text \<open>
  The loop ends because a chunk is never empty: the recorder refuses an empty write, so a zero
  chunk size is an error and not a loop.
\<close>

function copy_range_from ::
  "'s cng_api \<Rightarrow> 's source_reader \<Rightarrow> 's target_writer \<Rightarrow> byte_range \<Rightarrow> u64 \<Rightarrow> u32 \<Rightarrow>
   's operation_callbacks \<Rightarrow> u64 \<Rightarrow> copy_state \<Rightarrow> ('s, copy_state) prog" where
  "copy_range_from cng source target rng maximum_chunk_bytes partition_index callbacks position cs =
     (if \<not> position < range_length rng then returnE cs
      else
        bindE (liftE (cancellation_requested callbacks)) (\<lambda>cancel.
        if cancel then flush_and_cancel target
        else
          let remaining = range_length rng - position;
              chunk = min remaining maximum_chunk_bytes
          in
          bindE (src_read source (range_offset rng + position) chunk) (\<lambda>bytes.
          if length bytes \<noteq> unat chunk then failE (mk_error Io_failed ERROR_HANDLE_EOF)
          else
            bindE (write_and_verify cng target (range_offset rng + position) bytes
                (Some (cs_digest cs))) (\<lambda>digest.
            bindE (after_chunk target partition_index callbacks chunk digest cs) (\<lambda>cs.
            copy_range_from cng source target rng maximum_chunk_bytes partition_index callbacks
              (position + chunk) cs)))))"
  by pat_completeness auto
termination
proof (relation "measure (\<lambda>(cng, source, target, rng, m, i, callbacks, position, cs).
    unat (range_length rng) - unat position)", goal_cases)
  case (2 cng source target rng m i callbacks position cs x s t xa chunk bytes sa ta digest sb tb)
  then show ?case
    using chunk_progress [of position "range_length rng" chunk bytes] unat_min_le(1)
    by (fastforce simp: word_less_nat_alt)
qed simp

declare copy_range_from.simps [simp del]

text \<open>The sum of the planned lengths, \<open>None\<close> when it leaves 64 bits.\<close>

fun total_copy_bytes :: "u64 \<Rightarrow> byte_range list \<Rightarrow> u64 option" where
  "total_copy_bytes acc [] = Some acc"
| "total_copy_bytes acc (r # rs) =
     (case checked_add acc (range_length r) of
        None \<Rightarrow> None
      | Some acc \<Rightarrow> total_copy_bytes acc rs)"

fun copy_ranges ::
  "'s cng_api \<Rightarrow> 's source_reader \<Rightarrow> 's target_writer \<Rightarrow> u64 \<Rightarrow> u32 \<Rightarrow> 's operation_callbacks \<Rightarrow>
   byte_range list \<Rightarrow> copy_state \<Rightarrow> ('s, copy_state) prog" where
  "copy_ranges cng source target maximum_chunk_bytes partition_index callbacks [] cs = returnE cs"
| "copy_ranges cng source target maximum_chunk_bytes partition_index callbacks (r # rs) cs =
     bindE (copy_range_from cng source target r maximum_chunk_bytes partition_index callbacks 0 cs)
       (\<lambda>cs. copy_ranges cng source target maximum_chunk_bytes partition_index callbacks rs cs)"

abbreviation (input) kTargetMetadataInvalidationBytes :: nat where
  "kTargetMetadataInvalidationBytes \<equiv> 1048576"

fun invalidate_offsets ::
  "'s cng_api \<Rightarrow> 's target_writer \<Rightarrow> 's operation_callbacks \<Rightarrow> u64 list \<Rightarrow> ('s, unit) prog" where
  "invalidate_offsets cng target callbacks [] = returnE ()"
| "invalidate_offsets cng target callbacks (offset # offsets) =
     bindE (liftE (cancellation_requested callbacks)) (\<lambda>cancel.
     if cancel then flush_and_cancel target
     else
       bindE (write_and_verify cng target offset (replicate kTargetMetadataInvalidationBytes 0) None)
         (\<lambda>d. invalidate_offsets cng target callbacks offsets))"

definition invalidate_target ::
  "'s cng_api \<Rightarrow> 's target_writer \<Rightarrow> 's operation_callbacks \<Rightarrow> ('s, unit) prog" where
  "invalidate_target cng target callbacks =
     bindE (invalidate_offsets cng target callbacks
       [0, tgt_size_bytes target - of_nat kTargetMetadataInvalidationBytes]) (\<lambda>u. tgt_flush target)"

section \<open>What the routines leave on the target\<close>

text \<open>\<open>overlay src W img\<close>: the bytes of \<open>src\<close> at the positions in \<open>W\<close>, those of \<open>img\<close> elsewhere.\<close>

definition overlay :: "image \<Rightarrow> nat set \<Rightarrow> image \<Rightarrow> image" where
  "overlay src W img = (\<lambda>i. if i \<in> W then src i else img i)"

definition only_within :: "nat set \<Rightarrow> image \<Rightarrow> image \<Rightarrow> bool" where
  "only_within W img img' \<longleftrightarrow> (\<forall>i. i \<notin> W \<longrightarrow> img' i = img i)"

definition span :: "nat \<Rightarrow> nat \<Rightarrow> nat set" where
  "span off n = {off..<off + n}"

definition range_span :: "byte_range \<Rightarrow> nat set" where
  "range_span r = span (unat (range_offset r)) (unat (range_length r))"

definition ranges_span :: "byte_range list \<Rightarrow> nat set" where
  "ranges_span rs = (\<Union>r \<in> set rs. range_span r)"

definition range_fits :: "byte_range \<Rightarrow> bool" where
  "range_fits r \<longleftrightarrow> unat (range_offset r) + unat (range_length r) < 2 ^ 64"

lemma ranges_span_simps [simp]:
  "ranges_span [] = {}" "ranges_span (r # rs) = range_span r \<union> ranges_span rs"
  "ranges_span (rs @ rs') = ranges_span rs \<union> ranges_span rs'"
  by (auto simp: ranges_span_def)

lemma overlay_simps [simp]:
  "overlay src {} img = img" "overlay src V (overlay src W img) = overlay src (V \<union> W) img"
  by (auto simp: overlay_def)

lemma only_within_refl [simp]: "only_within W img img"
  by (simp add: only_within_def)

lemma only_within_trans:
  "only_within V img img' \<Longrightarrow> only_within W img' img'' \<Longrightarrow> only_within (V \<union> W) img img''"
  by (simp add: only_within_def)

lemma only_within_mono: "only_within V img img' \<Longrightarrow> V \<subseteq> W \<Longrightarrow> only_within W img img'"
  by (auto simp: only_within_def)

lemma only_within_overlay: "W \<subseteq> V \<Longrightarrow> only_within V img (overlay src W img)"
  by (auto simp: only_within_def overlay_def)

lemma only_within_update: "only_within (span off (length bs)) img (img_update img off bs)"
  by (auto simp: only_within_def img_update_def span_def)

lemma img_update_overlay:
  "n = length bs \<Longrightarrow> bs = img_bytes src off n \<Longrightarrow> img_update img off bs = overlay src (span off n) img"
  by (auto simp: img_update_def overlay_def span_def fun_eq_iff)

lemma overlay_eq_iff: "overlay src W img i = (if i \<in> W then src i else img i)"
  by (simp add: overlay_def)

definition copied_to :: "image \<Rightarrow> byte_range \<Rightarrow> image \<Rightarrow> u64 \<Rightarrow> image" where
  "copied_to src r img position = overlay src (span (unat (range_offset r)) (unat position)) img"

definition erased_span :: "u64 \<Rightarrow> nat set" where
  "erased_span size_bytes = span 0 kTargetMetadataInvalidationBytes \<union>
     span (unat (size_bytes - of_nat kTargetMetadataInvalidationBytes)) kTargetMetadataInvalidationBytes"

lemma card_disjoint_UN:
  "sorted_wrt (\<lambda>x y. f x \<inter> f y = {}) xs \<Longrightarrow> (\<And>x. x \<in> set xs \<Longrightarrow> finite (f x)) \<Longrightarrow>
   card (\<Union>x \<in> set xs. f x) = (\<Sum>x\<leftarrow>xs. card (f x))"
proof (induction xs)
  case (Cons x xs)
  have "f x \<inter> (\<Union>y \<in> set xs. f y) = {}" using Cons.prems(1) by auto
  then show ?case using Cons by (simp add: card_Un_disjoint)
qed simp

lemma span_simps [simp]: "finite (span k n)" "card (span k n) = n"
  by (simp_all add: span_def)

lemma finite_ranges_span [simp]: "finite (ranges_span rs)"
  by (simp add: ranges_span_def range_span_def)

definition erased_image :: "u64 \<Rightarrow> image \<Rightarrow> image" where
  "erased_image size_bytes img = overlay (\<lambda>i. 0) (erased_span size_bytes) img"

lemma only_within_eq: "only_within W img img' \<Longrightarrow> i \<notin> W \<Longrightarrow> img' i = img i"
  by (simp add: only_within_def)

text \<open>
  A write that is read back and compared: \<open>write_and_verify\<close> up to the recording of the evidence.
\<close>

definition reread_write :: "'s target_writer \<Rightarrow> u64 \<Rightarrow> byte list \<Rightarrow> ('s, byte list) prog" where
  "reread_write target offset bytes =
     bindE (tgt_write target offset bytes) (\<lambda>u.
     bindE (tgt_read_back target offset (of_nat (length bytes))) (\<lambda>read_back.
     if length read_back \<noteq> length bytes \<or> read_back \<noteq> bytes
     then failE (mk_error Verification_failed ERROR_CRC)
     else returnE read_back))"

lemma write_and_verify_reread:
  "write_and_verify cng target offset bytes digest =
     bindE (reread_write target offset bytes) (\<lambda>read_back.
       case digest of
         None \<Rightarrow> returnE None
       | Some d \<Rightarrow> bindE (append_verified_write cng d offset read_back) (\<lambda>d. returnE (Some d)))"
  by (rule ext) (simp add: write_and_verify_def reread_write_def bindE_def failE_def returnE_def
      split: prod.split sum.split)

context target_image
begin

lemma write_within:
  assumes "tgt_write tg off bytes s = (r, t)"
  shows "only_within (span (unat off) (length bytes)) (img s) (img t)"
  unfolding only_within_def span_def using write_frame [OF assms] by (simp add: not_le not_less)

lemma reread_write_spec:
  assumes len: "length bytes < 2 ^ 64"
  shows "hoare (\<lambda>s. img s = old) (reread_write tg off bytes)
    (\<lambda>rb s. rb = bytes \<and> img s = img_update old (unat off) bytes)
    (\<lambda>e s. only_within (span (unat off) (length bytes)) old (img s))"
proof -
  let ?W = "span (unat off) (length bytes)"
  have len': "unat (of_nat (length bytes) :: u64) = length bytes"
    using len by (rule unat_of_nat_u64)
  have written: "hoare (\<lambda>s. img s = old) (tgt_write tg off bytes)
      (\<lambda>u s. only_within ?W old (img s)) (\<lambda>e s. only_within ?W old (img s))"
    by (rule hoareI) (auto dest: write_within)
  have reread: "hoare (\<lambda>s. only_within ?W old (img s))
      (tgt_read_back tg off (of_nat (length bytes)))
      (\<lambda>rb s. only_within ?W old (img s) \<and>
         (length rb = length bytes \<longrightarrow> rb = img_bytes (img s) (unat off) (length bytes)))
      (\<lambda>e s. only_within ?W old (img s))"
  proof (rule hoareI)
    fix s rb t assume P: "only_within ?W old (img s)"
      and r: "tgt_read_back tg off (of_nat (length bytes)) s = (Inr rb, t)"
    have "img t = img s" using r by (rule read_back_frame)
    then show "only_within ?W old (img t) \<and>
        (length rb = length bytes \<longrightarrow> rb = img_bytes (img t) (unat off) (length bytes))"
      using P read_back_honest [OF r] len' by simp
  next
    fix s e t assume "only_within ?W old (img s)"
      "tgt_read_back tg off (of_nat (length bytes)) s = (Inl e, t)"
    then show "only_within ?W old (img t)" using read_back_frame by metis
  qed
  have exact: "img s = img_update old (unat off) bytes"
    if "only_within ?W old (img s)" "bytes = img_bytes (img s) (unat off) (length bytes)" for s
  proof
    fix i
    show "img s i = img_update old (unat off) bytes i"
      using that img_bytes_nth_eq [OF that(2) [symmetric], of i]
      by (auto simp: only_within_def img_update_def span_def)
  qed
  show ?thesis
    unfolding reread_write_def
    by (rule hoare_bindE [OF written], rule hoare_bindE [OF reread], rule hoare_if_inv)
      (auto intro: exact hoare_failE [THEN hoare_pre] hoare_returnE [THEN hoare_pre])
qed

end

text \<open>
  The world a clone runs in: honest devices, observers and a hash provider that do not write to the
  target.
\<close>

locale clone_world = source: source_image src simg + target: target_image tgt timg
  for src :: "'s source_reader" and simg :: image and tgt :: "'s target_writer" and timg :: "'s \<Rightarrow> image" +
  fixes cng :: "'s cng_api" and cbs :: "'s operation_callbacks"
  assumes source_keeps: "keeps timg (src_read src off len)"
    and cng_keep: "cng_keeps timg cng"
    and callbacks_keep: "callbacks_keep timg cbs"
begin

lemma flush_keeps: "keeps timg (tgt_flush tgt)"
  by (rule keepsI) (rule target.flush_frame)

lemma read_back_keeps: "keeps timg (tgt_read_back tgt off len)"
  by (rule keepsI) (rule target.read_back_frame)

lemma progress_keeps: "keeps timg (publish_progress cbs p st i c)"
  using callbacks_keep unfolding publish_progress_def callbacks_keep_def
  by (auto simp: Let_def intro!: keeps_bindE keeps_liftE)

lemma cancellation_keeps: "keeps timg (liftE (cancellation_requested cbs))"
  using callbacks_keep by (auto simp: callbacks_keep_def intro: keeps_liftE)

lemma boundary_keeps: "keeps timg (liftE (control_at_safe_boundary cbs b))"
  using callbacks_keep by (auto simp: callbacks_keep_def intro: keeps_liftE)

lemma flush_and_cancel_keeps: "keeps timg (flush_and_cancel tgt)"
  unfolding flush_and_cancel_def cancelled_status_def by (auto intro!: keeps_bindE flush_keeps)

lemma after_chunk_keeps: "keeps timg (after_chunk tgt i cbs chunk digest cs)"
  unfolding after_chunk_def Let_def
  by (auto intro!: keeps_bindE progress_keeps boundary_keeps flush_and_cancel_keeps)

lemmas engine_keeps = flush_keeps read_back_keeps progress_keeps cancellation_keeps boundary_keeps
  flush_and_cancel_keeps after_chunk_keeps source_keeps keeps_digest_create [OF cng_keep]
  keeps_append_verified_write [OF cng_keep] keeps_digest_finish [OF cng_keep]

text \<open>A verified write leaves exactly its bytes; a failed one has touched only its own range.\<close>

lemma write_and_verify_spec:
  assumes len: "length bytes < 2 ^ 64"
  shows "hoare (\<lambda>s. timg s = img) (write_and_verify cng tgt off bytes digest)
    (\<lambda>d s. timg s = img_update img (unat off) bytes)
    (\<lambda>e s. only_within (span (unat off) (length bytes)) img (timg s))"
  unfolding write_and_verify_reread
proof (rule hoare_bindE [OF target.reread_write_spec [OF len]])
  fix rb
  let ?m = "case digest of None \<Rightarrow> returnE None
     | Some d \<Rightarrow> bindE (append_verified_write cng d off rb) (\<lambda>d. returnE (Some d))"
  have "keeps timg ?m" by (auto split: option.split intro!: keeps_bindE engine_keeps)
  from hoare_keeps [OF this, where P = "\<lambda>j. j = img_update img (unat off) bytes"]
  show "hoare (\<lambda>s. rb = bytes \<and> timg s = img_update img (unat off) bytes) ?m
      (\<lambda>d s. timg s = img_update img (unat off) bytes)
      (\<lambda>e s. only_within (span (unat off) (length bytes)) img (timg s))"
    by (rule hoare_conseq) (auto simp: only_within_update)
qed

lemma hoare_same:
  assumes "keeps timg p" "only_within W img img'"
  shows "hoare (\<lambda>s. timg s = img') p (\<lambda>x s. timg s = img') (\<lambda>e s. only_within W img (timg s))"
  by (rule hoare_conseq [OF hoare_keeps [OF assms(1), where P = "\<lambda>j. j = img'"]]) (use assms(2) in auto)

lemma flush_and_cancel_spec:
  assumes "only_within W img img'"
  shows "hoare (\<lambda>s. timg s = img') (flush_and_cancel tgt) Q (\<lambda>e s. only_within W img (timg s))"
  unfolding flush_and_cancel_def cancelled_status_def
  by (rule hoare_bindE [OF hoare_same [OF flush_keeps assms]])
    (rule hoare_pre [OF hoare_failE], simp add: assms)

lemma source_read_spec:
  assumes "only_within W img img'"
  shows "hoare (\<lambda>s. timg s = img') (src_read src off len)
    (\<lambda>bytes s. timg s = img' \<and>
       (length bytes = unat len \<longrightarrow> bytes = img_bytes simg (unat off) (unat len)))
    (\<lambda>e s. only_within W img (timg s))"
  by (rule hoareI) (use assms in \<open>auto dest: keepsD [OF source_keeps] source.read_honest\<close>)

lemma recorded_write_spec:
  assumes "length bytes < 2 ^ 64"
  shows "hoare (\<lambda>s. timg s = img) (write_and_verify cng tgt off bytes (Some d))
    (\<lambda>d s. bytes \<noteq> [] \<and> timg s = img_update img (unat off) bytes)
    (\<lambda>e s. only_within (span (unat off) (length bytes)) img (timg s))"
proof (rule hoareI)
  fix s d' t assume a: "timg s = img" and b: "write_and_verify cng tgt off bytes (Some d) s = (Inr d', t)"
  show "bytes \<noteq> [] \<and> timg t = img_update img (unat off) bytes"
    using write_and_verify_nonempty [OF b] hoareD_Inr [OF write_and_verify_spec [OF assms] a b] by simp
next
  fix s e t assume a: "timg s = img" and b: "write_and_verify cng tgt off bytes (Some d) s = (Inl e, t)"
  show "only_within (span (unat off) (length bytes)) img (timg t)"
    by (rule hoareD_Inl [OF write_and_verify_spec [OF assms] a b])
qed

text \<open>
  The copy of a range: the bytes copied so far are the source's, nothing else has changed.
  \<open>copied_to simg r position\<close> is that image; the first lemma is one turn of the loop.
\<close>

lemma copied_to_within:
  "unat position \<le> unat (range_length r) \<Longrightarrow> only_within (range_span r) img (copied_to simg r img position)"
  unfolding copied_to_def by (intro only_within_overlay) (auto simp: span_def range_span_def)

lemma chunk_bounds:
  assumes "range_fits r" "position < range_length r" "chunk \<le> range_length r - position"
  shows "unat (range_offset r + position) = unat (range_offset r) + unat position"
    "unat position + unat chunk \<le> unat (range_length r)"
    "unat (position + chunk) = unat position + unat chunk"
proof -
  show "unat (range_offset r + position) = unat (range_offset r) + unat position"
    using assms(1,2) by (intro unat_add_u64) (simp add: range_fits_def word_less_nat_alt)
  show le: "unat position + unat chunk \<le> unat (range_length r)"
    using assms(2,3) unat_sub_u64 [of position "range_length r"]
    by (simp add: word_le_nat_alt word_less_nat_alt)
  show "unat (position + chunk) = unat position + unat chunk"
    using le unat_u64_bound [of "range_length r"] by (intro unat_add_u64) simp
qed

lemma copy_chunk_spec:
  assumes fits: "range_fits r" and pos: "position < range_length r"
    and chunk: "chunk \<le> range_length r - position"
    and bytes: "length bytes = unat chunk" "bytes = img_bytes simg (unat (range_offset r + position)) (unat chunk)"
    and rest: "\<And>cs. 0 < unat chunk \<Longrightarrow>
      hoare (\<lambda>s. timg s = copied_to simg r img (position + chunk)) (prog cs) Q
        (\<lambda>e s. only_within (range_span r) img (timg s))"
  shows "hoare (\<lambda>s. timg s = copied_to simg r img position)
    (bindE (write_and_verify cng tgt (range_offset r + position) bytes (Some d)) (\<lambda>digest.
     bindE (after_chunk tgt i cbs chunk digest cs) prog))
    Q (\<lambda>e s. only_within (range_span r) img (timg s))"
proof -
  let ?o = "unat (range_offset r)" and ?p = "unat position" and ?c = "unat chunk"
  let ?before = "copied_to simg r img position" and ?next = "copied_to simg r img (position + chunk)"
  let ?E = "\<lambda>e s. only_within (range_span r) img (timg s)"
  note b = chunk_bounds [OF fits pos chunk]
  have upd: "img_update ?before (?o + ?p) bytes = ?next"
    using bytes unfolding b(1) copied_to_def
    by (subst img_update_overlay [OF bytes(1) [symmetric]]) (auto simp: b(3) overlay_def span_def fun_eq_iff)
  have within: "only_within (range_span r) img j"
    if "only_within (span (?o + ?p) (length bytes)) ?before j" for j
    using only_within_trans [OF copied_to_within that] b(2) bytes(1)
    by (rule_tac only_within_mono) (auto simp: span_def range_span_def)
  have len: "length bytes < 2 ^ 64" using bytes(1) unat_u64_bound [of chunk] by simp
  show ?thesis
  proof (rule hoare_bindE [where R = "\<lambda>d s. bytes \<noteq> [] \<and> timg s = ?next"])
    show "hoare (\<lambda>s. timg s = ?before)
        (write_and_verify cng tgt (range_offset r + position) bytes (Some d))
        (\<lambda>d s. bytes \<noteq> [] \<and> timg s = ?next) ?E"
      by (rule hoare_conseq [OF recorded_write_spec [OF len]]) (auto simp: b(1) upd within)
  next
    fix digest
    show "hoare (\<lambda>s. bytes \<noteq> [] \<and> timg s = ?next) (bindE (after_chunk tgt i cbs chunk digest cs) prog) Q ?E"
    proof (rule hoare_pure, rule hoare_bindE [OF hoare_same [OF after_chunk_keeps copied_to_within]])
      show "unat (position + chunk) \<le> unat (range_length r)" using b by simp
      assume "bytes \<noteq> []"
      then have "0 < ?c" using bytes(1) by (cases bytes) auto
      then show "hoare (\<lambda>s. timg s = ?next) (prog cs) Q ?E" for cs by (rule rest)
    qed
  qed
qed

lemma copy_range_from_spec:
  assumes fits: "range_fits r"
  shows "position \<le> range_length r \<Longrightarrow>
    hoare (\<lambda>s. timg s = copied_to simg r img position)
      (copy_range_from cng src tgt r m i cbs position cs)
      (\<lambda>cs s. timg s = overlay simg (range_span r) img)
      (\<lambda>e s. only_within (range_span r) img (timg s))"
proof (induction "unat (range_length r) - unat position" arbitrary: position cs rule: less_induct)
  case less
  let ?before = "\<lambda>s. timg s = copied_to simg r img position"
  let ?Q = "\<lambda>cs s. timg s = overlay simg (range_span r) img"
  let ?E = "\<lambda>e s. only_within (range_span r) img (timg s)"
  have ple: "unat position \<le> unat (range_length r)" using less.prems by (simp add: word_le_nat_alt)
  note within = copied_to_within [OF ple, of img]
  show ?case
  proof (cases "position < range_length r")
    case False
    then have "unat position = unat (range_length r)" using ple by (simp add: word_less_nat_alt)
    then show ?thesis
      using False by (simp add: copy_range_from.simps [of _ _ _ _ _ _ _ position]
          hoare_pre [OF hoare_returnE] range_span_def copied_to_def)
  next
    case True
    define chunk where "chunk = min (range_length r - position) m"
    have chunk: "chunk \<le> range_length r - position" by (simp add: chunk_def)
    let ?loop = "copy_range_from cng src tgt r m i cbs (position + chunk)"
    have rest: "hoare (\<lambda>s. timg s = copied_to simg r img (position + chunk)) (?loop cs) ?Q ?E"
      if "0 < unat chunk" for cs
      using chunk_bounds [OF fits True chunk] that by (intro less.hyps) (simp_all add: word_le_nat_alt)
    have step: "hoare (\<lambda>s. ?before s \<and> (length bytes = unat chunk \<longrightarrow>
          bytes = img_bytes simg (unat (range_offset r + position)) (unat chunk)))
        (if length bytes \<noteq> unat chunk then failE (mk_error Io_failed ERROR_HANDLE_EOF)
         else bindE (write_and_verify cng tgt (range_offset r + position) bytes (Some (cs_digest cs)))
           (\<lambda>digest. bindE (after_chunk tgt i cbs chunk digest cs) ?loop)) ?Q ?E" for bytes
    proof (rule hoare_if_inv)
      assume len: "\<not> length bytes \<noteq> unat chunk"
      then show "hoare (\<lambda>s. ?before s \<and> (length bytes = unat chunk \<longrightarrow>
          bytes = img_bytes simg (unat (range_offset r + position)) (unat chunk)))
        (bindE (write_and_verify cng tgt (range_offset r + position) bytes (Some (cs_digest cs)))
           (\<lambda>digest. bindE (after_chunk tgt i cbs chunk digest cs) ?loop)) ?Q ?E"
        using copy_chunk_spec [OF fits True chunk _ _ rest, of bytes] by (simp add: hoare_def)
    qed (rule hoare_pre [OF hoare_failE], simp add: within)
    show ?thesis
      unfolding copy_range_from.simps [of _ _ _ _ _ _ _ position] Let_def chunk_def [symmetric]
      by (simp only: True not_True_eq_False if_False)
        (rule hoare_bindE [OF hoare_same [OF cancellation_keeps within]], rule hoare_if_inv,
          rule flush_and_cancel_spec [OF within], rule hoare_bindE [OF source_read_spec [OF within]], rule step)
  qed
qed

lemma copy_ranges_spec:
  "list_all range_fits rs \<Longrightarrow>
   hoare (\<lambda>s. timg s = img) (copy_ranges cng src tgt m i cbs rs cs)
     (\<lambda>cs s. timg s = overlay simg (ranges_span rs) img)
     (\<lambda>e s. only_within (ranges_span rs) img (timg s))"
proof (induction rs arbitrary: img cs)
  case Nil
  then show ?case by (simp add: hoare_pre [OF hoare_returnE])
next
  case (Cons r rs)
  let ?mid = "overlay simg (range_span r) img"
  have "copied_to simg r img 0 = img" by (simp add: copied_to_def span_def overlay_def)
  then have first: "hoare (\<lambda>s. timg s = img) (copy_range_from cng src tgt r m i cbs 0 cs)
      (\<lambda>cs s. timg s = ?mid) (\<lambda>e s. only_within (range_span r \<union> ranges_span rs) img (timg s))"
    using Cons.prems by (intro hoare_conseq [OF copy_range_from_spec [of r 0 img]])
      (auto elim: only_within_mono)
  have "hoare (\<lambda>s. timg s = ?mid) (copy_ranges cng src tgt m i cbs rs cs)
      (\<lambda>cs s. timg s = overlay simg (range_span r \<union> ranges_span rs) img)
      (\<lambda>e s. only_within (range_span r \<union> ranges_span rs) img (timg s))" for cs
    using Cons.prems by (intro hoare_conseq [OF Cons.IH])
      (auto simp: Un_commute intro: only_within_trans [OF only_within_overlay [OF order_refl]])
  with first show ?case by (simp add: hoare_bindE)
qed

text \<open>Erasing the old partition information.\<close>

lemma invalidate_offsets_spec:
  "hoare (\<lambda>s. timg s = img) (invalidate_offsets cng tgt cbs offs)
     (\<lambda>u s. timg s = overlay (\<lambda>i. 0) (\<Union>k\<in>set offs. span (unat k) kTargetMetadataInvalidationBytes) img)
     (\<lambda>e s. only_within (\<Union>k\<in>set offs. span (unat k) kTargetMetadataInvalidationBytes) img (timg s))"
proof (induction offs arbitrary: img)
  case Nil
  then show ?case by (simp add: hoare_pre [OF hoare_returnE])
next
  case (Cons off offs)
  let ?n = kTargetMetadataInvalidationBytes
  let ?V = "span (unat off) ?n" and ?W = "\<Union>k\<in>set offs. span (unat k) ?n"
  let ?mid = "overlay (\<lambda>i. 0) ?V img"
  let ?E = "\<lambda>e s. only_within (?V \<union> ?W) img (timg s)"
  have upd: "img_update img (unat off) (replicate ?n 0) = ?mid"
    by (rule img_update_overlay) (simp_all add: img_bytes_def map_replicate_const)
  have written: "hoare (\<lambda>s. timg s = img) (write_and_verify cng tgt off (replicate ?n 0) None)
      (\<lambda>d s. timg s = ?mid) ?E"
    by (rule hoare_conseq [OF write_and_verify_spec]) (auto simp: upd elim: only_within_mono)
  have rest: "hoare (\<lambda>s. timg s = ?mid) (invalidate_offsets cng tgt cbs offs)
      (\<lambda>u s. timg s = overlay (\<lambda>i. 0) (?V \<union> ?W) img) ?E"
    by (rule hoare_conseq [OF Cons.IH])
      (auto simp: Un_commute intro: only_within_trans [OF only_within_overlay [OF order_refl]])
  show ?case
    unfolding invalidate_offsets.simps list.set UN_insert
    by (rule hoare_bindE [OF hoare_same [OF cancellation_keeps only_within_refl]], rule hoare_if_inv,
        rule flush_and_cancel_spec [OF only_within_refl], rule hoare_bindE [OF written rest])
qed

lemma invalidate_target_spec:
  "hoare (\<lambda>s. timg s = img) (invalidate_target cng tgt cbs)
     (\<lambda>u s. timg s = overlay (\<lambda>i. 0) (erased_span (tgt_size_bytes tgt)) img)
     (\<lambda>e s. only_within (erased_span (tgt_size_bytes tgt)) img (timg s))"
proof -
  have "(\<Union>k\<in>set [0, tgt_size_bytes tgt - of_nat kTargetMetadataInvalidationBytes].
      span (unat k) kTargetMetadataInvalidationBytes) = (erased_span (tgt_size_bytes tgt))"
    by (simp add: erased_span_def)
  then show ?thesis
    unfolding invalidate_target_def
    using hoare_bindE [OF invalidate_offsets_spec
        hoare_same [OF flush_keeps only_within_overlay [OF order_refl]]] by metis
qed

end

section \<open>A clone in memory\<close>

text \<open>
  The devices of the integration tests, without observers, over a world that also holds what the
  in-memory hash provider has absorbed and the counter of a generator of identifiers.
\<close>

record clone_memory = memory_world +
  cm_absorbed :: "byte list"
  cm_next :: u8

abbreviation clone_memory_cng :: "clone_memory cng_api" where
  "clone_memory_cng \<equiv> memory_cng cm_absorbed (\<lambda>b s. s\<lparr>cm_absorbed := b\<rparr>)"

lemma keeps_memory_source: "keeps v (src_read (memory_source_reader sz sector img) off len)"
  by (rule keepsI) (auto simp: memory_source_reader_def split: if_splits)

interpretation memory_clone: clone_world "memory_source_reader sz sector simg" simg
    "memory_target_writer tsz tsector 0" mw_storage clone_memory_cng no_callbacks
  by unfold_locales
    (auto intro!: keeps_memory_source memory_cng_keeps)

end
