(* ===== verification/BootSectors.thy ===== *)
theory BootSectors
  imports BlockDevice
begin

text \<open>
  Recognising a file system by its boot sector (\<open>CloneCore/src/offline_gpt_clone.cpp\<close>, the
  \<open>parse_*_geometry\<close> functions and \<open>classify_basic_data_file_system\<close>).  A byte of the sector is
  \<open>read_little\<close> at width 8; \<open>memcmp\<close> of eight bytes is equality of a slice.
\<close>

unbundle bit_operations_syntax

section \<open>Geometries\<close>

record ntfs_geometry =
  ntfs_bytes_per_sector :: u32
  ntfs_sectors_per_cluster :: u32
  ntfs_total_sectors :: u64

definition ntfs_cluster_size :: "ntfs_geometry \<Rightarrow> u64" where
  "ntfs_cluster_size g = ucast (ntfs_bytes_per_sector g) * ucast (ntfs_sectors_per_cluster g)"

record fat32_geometry =
  fat32_bytes_per_sector :: u32
  fat32_sectors_per_cluster :: u32
  fat32_total_sectors :: u64

record exfat_geometry =
  exfat_bytes_per_sector :: u32
  exfat_sectors_per_cluster :: u32
  exfat_total_sectors :: u64
  exfat_fat_offset_sectors :: u32
  exfat_fat_length_sectors :: u32
  exfat_cluster_heap_offset_sectors :: u32
  exfat_cluster_count :: u32
  exfat_root_directory_cluster :: u32

datatype basic_data_file_system = Ntfs | Fat32 | Exfat

text \<open>The signatures \<open>"NTFS    "\<close>, \<open>"-FVE-FS-"\<close>, \<open>"FAT32   "\<close> and \<open>"EXFAT   "\<close>.\<close>

definition kNtfsSignature :: "byte list" where
  "kNtfsSignature = [0x4E, 0x54, 0x46, 0x53, 0x20, 0x20, 0x20, 0x20]"

definition kBitLockerSignature :: "byte list" where
  "kBitLockerSignature = [0x2D, 0x46, 0x56, 0x45, 0x2D, 0x46, 0x53, 0x2D]"

definition kFat32Signature :: "byte list" where
  "kFat32Signature = [0x46, 0x41, 0x54, 0x33, 0x32, 0x20, 0x20, 0x20]"

definition kExFatSignature :: "byte list" where
  "kExFatSignature = [0x45, 0x58, 0x46, 0x41, 0x54, 0x20, 0x20, 0x20]"

definition is_power_of_two :: "u64 \<Rightarrow> bool" where
  "is_power_of_two v \<longleftrightarrow> v \<noteq> 0 \<and> v AND (v - 1) = 0"

definition invalid_geometry :: error where
  "invalid_geometry = mk_error Invalid_data ERROR_INVALID_DATA"

definition no_boot_marker :: "byte list \<Rightarrow> bool" where
  "no_boot_marker b \<longleftrightarrow> (read_little b 510 :: u8) \<noteq> 0x55 \<or> (read_little b 511 :: u8) \<noteq> 0xAA"

definition parse_ntfs_geometry :: "byte list \<Rightarrow> u32 \<Rightarrow> u64 \<Rightarrow> ntfs_geometry result" where
  "parse_ntfs_geometry boot expected_sector_size partition_size_bytes =
     (if 512 \<le> length boot \<and> slice boot 3 8 = kBitLockerSignature then Inl unsupported_error
      else if length boot < 512 \<or> no_boot_marker boot \<or> slice boot 3 8 \<noteq> kNtfsSignature
      then Inl unsupported_error
      else
        let g = \<lparr>ntfs_bytes_per_sector = ucast (read_little boot 11 :: u16),
              ntfs_sectors_per_cluster = ucast (read_little boot 13 :: u8),
              ntfs_total_sectors = read_little boot 40\<rparr>
        in
        if ntfs_bytes_per_sector g \<noteq> expected_sector_size \<or>
           \<not> is_power_of_two (ucast (ntfs_sectors_per_cluster g)) \<or>
           ntfs_sectors_per_cluster g > 128 \<or> ntfs_total_sectors g = 0 \<or>
           (case checked_multiply (ntfs_total_sectors g) (ucast (ntfs_bytes_per_sector g)) of
              None \<Rightarrow> True
            | Some volume_bytes \<Rightarrow> volume_bytes > partition_size_bytes)
        then Inl invalid_geometry
        else Inr g)"

definition parse_fat32_geometry :: "byte list \<Rightarrow> u32 \<Rightarrow> u64 \<Rightarrow> fat32_geometry result" where
  "parse_fat32_geometry boot expected_sector_size partition_size_bytes =
     (if length boot < 512 \<or> no_boot_marker boot \<or> slice boot 82 8 \<noteq> kFat32Signature
      then Inl unsupported_error
      else
        let g = \<lparr>fat32_bytes_per_sector = ucast (read_little boot 11 :: u16),
              fat32_sectors_per_cluster = ucast (read_little boot 13 :: u8),
              fat32_total_sectors = ucast (read_little boot 32 :: u32)\<rparr>
        in
        if fat32_bytes_per_sector g \<noteq> expected_sector_size \<or>
           \<not> is_power_of_two (ucast (fat32_sectors_per_cluster g)) \<or>
           fat32_sectors_per_cluster g > 128 \<or> fat32_total_sectors g = 0 \<or>
           (case checked_multiply (fat32_total_sectors g) (ucast (fat32_bytes_per_sector g)) of
              None \<Rightarrow> True
            | Some volume_bytes \<Rightarrow> volume_bytes > partition_size_bytes)
        then Inl invalid_geometry
        else Inr g)"

definition validate_fat32_boot_sector :: "byte list \<Rightarrow> u32 \<Rightarrow> u64 \<Rightarrow> status" where
  "validate_fat32_boot_sector boot expected_sector_size partition_size_bytes =
     (case parse_fat32_geometry boot expected_sector_size partition_size_bytes of
        Inl e \<Rightarrow> Inl e
      | Inr g \<Rightarrow> success_status)"

text \<open>
  The checks of \<open>parse_exfat_geometry\<close> on the sums and products of the fields, in their order; a
  product or sum that leaves 64 bits is a failed check.
\<close>

definition exfat_layout_bad :: "exfat_geometry \<Rightarrow> u32 \<Rightarrow> u64 \<Rightarrow> u8 \<Rightarrow> bool" where
  "exfat_layout_bad g expected_sector_size partition_size_bytes fat_count \<longleftrightarrow>
     exfat_bytes_per_sector g \<noteq> expected_sector_size \<or> expected_sector_size = 0 \<or>
     exfat_total_sectors g = 0 \<or>
     (case checked_multiply (exfat_total_sectors g) (ucast (exfat_bytes_per_sector g)) of
        None \<Rightarrow> True
      | Some volume_bytes \<Rightarrow> volume_bytes > partition_size_bytes) \<or>
     exfat_fat_offset_sectors g < 24 \<or> exfat_fat_length_sectors g = 0 \<or>
     (fat_count \<noteq> 1 \<and> fat_count \<noteq> 2) \<or>
     (case checked_multiply (ucast (exfat_fat_length_sectors g)) (ucast fat_count) of
        None \<Rightarrow> True
      | Some all_fats_length \<Rightarrow>
        (case checked_add (ucast (exfat_fat_offset_sectors g)) all_fats_length of
           None \<Rightarrow> True
         | Some fat_end \<Rightarrow> ucast (exfat_cluster_heap_offset_sectors g) < fat_end)) \<or>
     exfat_cluster_count g = 0 \<or> exfat_cluster_count g > 0xFFFFFFF5 \<or>
     exfat_root_directory_cluster g < 2 \<or>
     ucast (exfat_root_directory_cluster g) > (ucast (exfat_cluster_count g) + 1 :: u64) \<or>
     (case checked_multiply (ucast (exfat_fat_length_sectors g)) (ucast (exfat_bytes_per_sector g)) of
        None \<Rightarrow> True
      | Some fat_bytes \<Rightarrow>
        (case checked_multiply (ucast (exfat_cluster_count g) + 2) 4 of
           None \<Rightarrow> True
         | Some required_fat_bytes \<Rightarrow> fat_bytes < required_fat_bytes)) \<or>
     (case checked_multiply (ucast (exfat_cluster_count g)) (ucast (exfat_sectors_per_cluster g)) of
        None \<Rightarrow> True
      | Some heap_length \<Rightarrow>
        (case checked_add (ucast (exfat_cluster_heap_offset_sectors g)) heap_length of
           None \<Rightarrow> True
         | Some heap_end \<Rightarrow> heap_end > exfat_total_sectors g))"

definition parse_exfat_geometry :: "byte list \<Rightarrow> u32 \<Rightarrow> u64 \<Rightarrow> exfat_geometry result" where
  "parse_exfat_geometry boot expected_sector_size partition_size_bytes =
     (if length boot < 512 \<or> slice boot 3 8 \<noteq> kExFatSignature \<or> no_boot_marker boot \<or>
         \<not> list_all (\<lambda>value. value = 0) (slice boot 11 53) \<or>
         \<not> list_all (\<lambda>value. value = 0) (slice boot 113 7)
      then Inl unsupported_error
      else
        let sector_shift = (read_little boot 108 :: u8);
            cluster_shift = (read_little boot 109 :: u8);
            fat_count = (read_little boot 110 :: u8);
            percent_in_use = (read_little boot 112 :: u8);
            revision = (read_little boot 104 :: u16);
            volume_flags = (read_little boot 106 :: u16)
        in
        if sector_shift \<ge> 32 \<or> cluster_shift \<ge> 32 \<or> unat sector_shift + unat cluster_shift > 25
        then Inl invalid_geometry
        else
          let g = \<lparr>exfat_bytes_per_sector = push_bit (unat sector_shift) 1,
                exfat_sectors_per_cluster = push_bit (unat cluster_shift) 1,
                exfat_total_sectors = read_little boot 72,
                exfat_fat_offset_sectors = read_little boot 80,
                exfat_fat_length_sectors = read_little boot 84,
                exfat_cluster_heap_offset_sectors = read_little boot 88,
                exfat_cluster_count = read_little boot 92,
                exfat_root_directory_cluster = read_little boot 96\<rparr>
          in
          if exfat_layout_bad g expected_sector_size partition_size_bytes fat_count \<or>
             drop_bit 8 revision \<noteq> 1 \<or> volume_flags AND 0xFFF0 \<noteq> 0 \<or>
             (fat_count = 1 \<and> volume_flags AND 1 \<noteq> 0) \<or>
             (percent_in_use > 100 \<and> percent_in_use \<noteq> 0xFF)
          then Inl invalid_geometry
          else Inr g)"

definition classify_basic_data_file_system ::
  "byte list \<Rightarrow> u32 \<Rightarrow> u64 \<Rightarrow> basic_data_file_system result" where
  "classify_basic_data_file_system boot expected_sector_size partition_size_bytes =
     (if length boot < 512 then Inl invalid_geometry
      else if slice boot 3 8 = kBitLockerSignature then Inl unsupported_error
      else if slice boot 3 8 = kNtfsSignature then
        (case parse_ntfs_geometry boot expected_sector_size partition_size_bytes of
           Inr g \<Rightarrow> Inr Ntfs | Inl e \<Rightarrow> Inl e)
      else if slice boot 3 8 = kExFatSignature then
        (case parse_exfat_geometry boot expected_sector_size partition_size_bytes of
           Inr g \<Rightarrow> Inr Exfat | Inl e \<Rightarrow> Inl e)
      else if slice boot 82 8 = kFat32Signature then
        (case parse_fat32_geometry boot expected_sector_size partition_size_bytes of
           Inr g \<Rightarrow> Inr Fat32 | Inl e \<Rightarrow> Inl e)
      else Inl unsupported_error)"

section \<open>What is known of an accepted volume\<close>

lemma signatures_distinct:
  "kNtfsSignature \<noteq> kBitLockerSignature" "kExFatSignature \<noteq> kBitLockerSignature"
  "kNtfsSignature \<noteq> kExFatSignature"
  by (simp_all add: kNtfsSignature_def kBitLockerSignature_def kExFatSignature_def)

lemma parse_ntfs_geometry_success:
  assumes "parse_ntfs_geometry boot sector part = Inr g"
  shows "ntfs_bytes_per_sector g = sector" "ntfs_total_sectors g \<noteq> 0"
    "is_power_of_two (ucast (ntfs_sectors_per_cluster g))" "ntfs_sectors_per_cluster g \<le> 128"
    "unat (ntfs_total_sectors g) * unat sector \<le> unat part"
    "512 \<le> length boot" "slice boot 3 8 = kNtfsSignature"
proof -
  from assms obtain v where a: "g = \<lparr>ntfs_bytes_per_sector = ucast (read_little boot 11 :: u16),
              ntfs_sectors_per_cluster = ucast (read_little boot 13 :: u8),
              ntfs_total_sectors = read_little boot 40\<rparr>"
    "512 \<le> length boot" "slice boot 3 8 = kNtfsSignature" "ntfs_bytes_per_sector g = sector"
    "is_power_of_two (ucast (ntfs_sectors_per_cluster g))" "\<not> ntfs_sectors_per_cluster g > 128"
    "ntfs_total_sectors g \<noteq> 0"
    "checked_multiply (ntfs_total_sectors g) (ucast (ntfs_bytes_per_sector g)) = Some v" "\<not> v > part"
    unfolding parse_ntfs_geometry_def Let_def by (auto split: if_splits option.splits)
  show "ntfs_bytes_per_sector g = sector" "ntfs_total_sectors g \<noteq> 0"
    "is_power_of_two (ucast (ntfs_sectors_per_cluster g))" "ntfs_sectors_per_cluster g \<le> 128"
    "512 \<le> length boot" "slice boot 3 8 = kNtfsSignature"
    using a by (simp_all add: not_less)
  show "unat (ntfs_total_sectors g) * unat sector \<le> unat part"
    using checked_multiply_SomeD(1) [OF a(8)] a(4,9) by (simp add: word_less_nat_alt not_less)
qed

text \<open>The layout an accepted exFAT volume has, in natural numbers: nothing wraps around.\<close>

lemma exfat_layout_good:
  assumes "\<not> exfat_layout_bad g sector part fat_count"
  shows "exfat_bytes_per_sector g = sector"
    "unat (exfat_total_sectors g) * unat sector \<le> unat part"
    "24 \<le> unat (exfat_fat_offset_sectors g)"
    "unat (exfat_fat_offset_sectors g) + unat (exfat_fat_length_sectors g) * unat fat_count \<le>
       unat (exfat_cluster_heap_offset_sectors g)"
    "unat (exfat_cluster_heap_offset_sectors g) +
       unat (exfat_cluster_count g) * unat (exfat_sectors_per_cluster g) \<le> unat (exfat_total_sectors g)"
    "(unat (exfat_cluster_count g) + 2) * 4 \<le> unat (exfat_fat_length_sectors g) * unat sector"
    "2 \<le> unat (exfat_root_directory_cluster g)"
    "unat (exfat_root_directory_cluster g) \<le> unat (exfat_cluster_count g) + 1"
    "unat fat_count = 1 \<or> unat fat_count = 2"
proof -
  from assms obtain volume fats fat_end fat_bytes need heap heap_end where a:
    "exfat_bytes_per_sector g = sector"
    "checked_multiply (exfat_total_sectors g) (ucast (exfat_bytes_per_sector g)) = Some volume"
    "\<not> volume > part" "\<not> exfat_fat_offset_sectors g < 24" "fat_count = 1 \<or> fat_count = 2"
    "checked_multiply (ucast (exfat_fat_length_sectors g)) (ucast fat_count) = Some fats"
    "checked_add (ucast (exfat_fat_offset_sectors g)) fats = Some fat_end"
    "\<not> ucast (exfat_cluster_heap_offset_sectors g) < fat_end"
    "\<not> exfat_root_directory_cluster g < 2"
    "\<not> ucast (exfat_root_directory_cluster g) > (ucast (exfat_cluster_count g) + 1 :: u64)"
    "checked_multiply (ucast (exfat_fat_length_sectors g)) (ucast (exfat_bytes_per_sector g)) = Some fat_bytes"
    "checked_multiply (ucast (exfat_cluster_count g) + 2) 4 = Some need" "\<not> fat_bytes < need"
    "checked_multiply (ucast (exfat_cluster_count g)) (ucast (exfat_sectors_per_cluster g)) = Some heap"
    "checked_add (ucast (exfat_cluster_heap_offset_sectors g)) heap = Some heap_end"
    "\<not> heap_end > exfat_total_sectors g"
    unfolding exfat_layout_bad_def by (auto split: option.splits)
  note sums = checked_multiply_SomeD(1) [OF a(2)] checked_multiply_SomeD(1) [OF a(6)]
    checked_add_SomeD(1) [OF a(7)] checked_multiply_SomeD(1) [OF a(11)]
    checked_multiply_SomeD(1) [OF a(12)] checked_multiply_SomeD(1) [OF a(14)]
    checked_add_SomeD(1) [OF a(15)]
  have plus: "unat (ucast (exfat_cluster_count g) + 2 :: u64) = unat (exfat_cluster_count g) + 2"
    "unat (ucast (exfat_cluster_count g) + 1 :: u64) = unat (exfat_cluster_count g) + 1"
    using unat_u32_bound [of "exfat_cluster_count g"] by (subst unat_add_u64; simp)+
  show "exfat_bytes_per_sector g = sector" by (rule a(1))
  show "unat (exfat_total_sectors g) * unat sector \<le> unat part"
    "24 \<le> unat (exfat_fat_offset_sectors g)" "2 \<le> unat (exfat_root_directory_cluster g)"
    "unat (exfat_root_directory_cluster g) \<le> unat (exfat_cluster_count g) + 1"
    using a(1,3,4,9,10) sums(1) plus by (simp_all add: word_less_nat_alt not_less)
  show "unat (exfat_fat_offset_sectors g) + unat (exfat_fat_length_sectors g) * unat fat_count \<le>
       unat (exfat_cluster_heap_offset_sectors g)"
    using a(8) sums(2,3) by (simp add: word_less_nat_alt not_less)
  show "unat (exfat_cluster_heap_offset_sectors g) +
       unat (exfat_cluster_count g) * unat (exfat_sectors_per_cluster g) \<le> unat (exfat_total_sectors g)"
    using a(16) sums(6,7) by (simp add: word_less_nat_alt not_less)
  show "(unat (exfat_cluster_count g) + 2) * 4 \<le> unat (exfat_fat_length_sectors g) * unat sector"
    using a(1,13) sums(4,5) plus by (simp add: word_less_nat_alt not_less)
  show "unat fat_count = 1 \<or> unat fat_count = 2" using a(5) by auto
qed

lemma parse_exfat_geometry_success:
  assumes "parse_exfat_geometry boot sector part = Inr g"
  obtains fat_count where "\<not> exfat_layout_bad g sector part fat_count"
    "unat (exfat_bytes_per_sector g) * unat (exfat_sectors_per_cluster g) \<le> 2 ^ 25"
    "512 \<le> length boot" "slice boot 3 8 = kExFatSignature"
proof -
  let ?s = "read_little boot 108 :: u8" and ?c = "read_little boot 109 :: u8"
  have p: "unat (push_bit n 1 :: u32) = 2 ^ n" if "n < 32" for n
  proof -
    have "(push_bit n 1 :: u32) = of_nat (2 ^ n)" by (simp add: push_bit_eq_mult)
    moreover have "(2 :: nat) ^ n < 2 ^ 32" using that by (intro power_strict_increasing) simp_all
    ultimately show ?thesis by (simp only: unat_of_nat_u32)
  qed
  from assms have a: "512 \<le> length boot" "slice boot 3 8 = kExFatSignature"
    "\<not> ?s \<ge> 32" "\<not> ?c \<ge> 32" "unat ?s + unat ?c \<le> 25"
    "\<not> exfat_layout_bad g sector part (read_little boot 110)"
    "exfat_bytes_per_sector g = push_bit (unat ?s) 1" "exfat_sectors_per_cluster g = push_bit (unat ?c) 1"
    unfolding parse_exfat_geometry_def Let_def by (auto split: if_splits)
  have "unat (exfat_bytes_per_sector g) * unat (exfat_sectors_per_cluster g) = 2 ^ (unat ?s + unat ?c)"
    using a(3,4) p [of "unat ?s"] p [of "unat ?c"] unfolding a(7,8) power_add
    by (simp add: word_le_nat_alt)
  also have "\<dots> \<le> 2 ^ 25" using a(5) by (intro power_increasing) simp_all
  finally show ?thesis using that a by blast
qed

text \<open>
  In an accepted exFAT volume, without any wrap-around: the FATs lie behind the boot regions and
  in front of the cluster heap, the heap lies inside the volume and the volume inside the
  partition, the first FAT has an entry for every cluster, the root directory is a cluster of the
  heap, and a cluster is at most 32 MiB.
\<close>

theorem parse_exfat_geometry_layout:
  assumes "parse_exfat_geometry boot sector part = Inr g"
  shows "24 \<le> unat (exfat_fat_offset_sectors g) \<and>
    unat (exfat_fat_offset_sectors g) + unat (exfat_fat_length_sectors g) \<le>
      unat (exfat_cluster_heap_offset_sectors g) \<and>
    unat (exfat_cluster_heap_offset_sectors g) +
      unat (exfat_cluster_count g) * unat (exfat_sectors_per_cluster g) \<le> unat (exfat_total_sectors g) \<and>
    unat (exfat_total_sectors g) * unat (exfat_bytes_per_sector g) \<le> unat part \<and>
    (unat (exfat_cluster_count g) + 2) * 4 \<le>
      unat (exfat_fat_length_sectors g) * unat (exfat_bytes_per_sector g) \<and>
    2 \<le> unat (exfat_root_directory_cluster g) \<and>
    unat (exfat_root_directory_cluster g) \<le> unat (exfat_cluster_count g) + 1 \<and>
    unat (exfat_bytes_per_sector g) * unat (exfat_sectors_per_cluster g) \<le> 2 ^ 25 \<and>
    exfat_bytes_per_sector g = sector"
proof -
  obtain n where n: "\<not> exfat_layout_bad g sector part n"
    "unat (exfat_bytes_per_sector g) * unat (exfat_sectors_per_cluster g) \<le> 2 ^ 25"
    by (rule parse_exfat_geometry_success [OF assms])
  note lay = exfat_layout_good [OF n(1)]
  have "unat (exfat_fat_length_sectors g) \<le> unat (exfat_fat_length_sectors g) * unat n"
    using lay(9) by auto
  then have "unat (exfat_fat_offset_sectors g) + unat (exfat_fat_length_sectors g) \<le>
      unat (exfat_cluster_heap_offset_sectors g)"
    using lay(4) by linarith
  then show ?thesis using lay n(2) by simp
qed

text \<open>
  The classification of a basic data partition: NTFS and exFAT exactly when their parser accepts
  the sector, FAT32 exactly when its parser accepts it and no other signature is in the OEM field;
  a BitLocker sector is never accepted as anything.
\<close>

theorem classify_basic_data_file_system_iff:
  "(classify_basic_data_file_system boot sector part = Inr Ntfs \<longleftrightarrow>
      (\<exists>g. parse_ntfs_geometry boot sector part = Inr g)) \<and>
   (classify_basic_data_file_system boot sector part = Inr Exfat \<longleftrightarrow>
      (\<exists>g. parse_exfat_geometry boot sector part = Inr g)) \<and>
   (classify_basic_data_file_system boot sector part = Inr Fat32 \<longleftrightarrow>
      (\<exists>g. parse_fat32_geometry boot sector part = Inr g) \<and>
      slice boot 3 8 \<notin> {kBitLockerSignature, kNtfsSignature, kExFatSignature}) \<and>
   \<not> (slice boot 3 8 = kBitLockerSignature \<and>
      (\<exists>fs. classify_basic_data_file_system boot sector part = Inr fs))"
proof -
  have n: "512 \<le> length boot \<and> slice boot 3 8 = kNtfsSignature"
    if "parse_ntfs_geometry boot sector part = Inr g" for g
    using parse_ntfs_geometry_success [OF that] by simp
  have e: "512 \<le> length boot \<and> slice boot 3 8 = kExFatSignature"
    if "parse_exfat_geometry boot sector part = Inr g" for g
    using that by (auto simp: parse_exfat_geometry_def split: if_splits)
  have f: "512 \<le> length boot \<and> slice boot 82 8 = kFat32Signature"
    if "parse_fat32_geometry boot sector part = Inr g" for g
    using that by (auto simp: parse_fat32_geometry_def split: if_splits)
  show ?thesis
    using n e f signatures_distinct
    by (auto simp: classify_basic_data_file_system_def not_less split: sum.splits if_splits)
qed

definition example_exfat_boot :: "byte list" where
  "example_exfat_boot =
     (let b = overwrite (replicate 512 0) 3 kExFatSignature;
          b = write_little b 72 (8192 :: u64);
          b = write_little b 80 (24 :: u32);
          b = write_little b 84 (8 :: u32);
          b = write_little b 88 (32 :: u32);
          b = write_little b 92 (1000 :: u32);
          b = write_little b 96 (2 :: u32);
          b = write_little b 104 (0x100 :: u16);
          b = write_little b 108 (9 :: u8);
          b = write_little b 110 (1 :: u8);
          b = write_little b 510 (0x55 :: u8)
      in write_little b 511 (0xAA :: u8))"

lemma example_exfat_boot_reads:
  "length example_exfat_boot = 512" "slice example_exfat_boot 3 8 = kExFatSignature"
  "\<not> no_boot_marker example_exfat_boot"
  "slice example_exfat_boot 11 53 = replicate 53 0" "slice example_exfat_boot 113 7 = replicate 7 0"
  "(read_little example_exfat_boot 72 :: u64) = 8192" "(read_little example_exfat_boot 80 :: u32) = 24"
  "(read_little example_exfat_boot 84 :: u32) = 8" "(read_little example_exfat_boot 88 :: u32) = 32"
  "(read_little example_exfat_boot 92 :: u32) = 1000" "(read_little example_exfat_boot 96 :: u32) = 2"
  "(read_little example_exfat_boot 104 :: u16) = 0x100" "(read_little example_exfat_boot 108 :: u8) = 9"
  "(read_little example_exfat_boot 110 :: u8) = 1"
  by (simp_all add: example_exfat_boot_def no_boot_marker_def Let_def kExFatSignature_def byte_simps)

lemma read_zero_overwritten:
  assumes "off + length bs \<le> p" "p + LENGTH('a) div 8 \<le> n"
  shows "(read_little (overwrite (replicate n 0) off bs) p :: 'a::len word) = 0"
proof -
  have "slice (overwrite (replicate n 0) off bs) p (LENGTH('a) div 8) = slice (replicate n 0) p (LENGTH('a) div 8)"
    using assms by (intro slice_overwrite_other) auto
  then have "(read_little (overwrite (replicate n 0) off bs) p :: 'a word) = read_little (replicate n 0) p"
    by (simp add: read_little_def)
  then show ?thesis using assms(2) by (simp add: read_little_zeros)
qed

lemma example_exfat_boot_zero:
  "(read_little example_exfat_boot 106 :: u16) = 0" "(read_little example_exfat_boot 109 :: u8) = 0"
  "(read_little example_exfat_boot 112 :: u8) = 0"
  by (simp_all add: example_exfat_boot_def Let_def kExFatSignature_def read_write_little_other
      read_zero_overwritten)

lemma example_exfat:
  "\<exists>g. parse_exfat_geometry example_exfat_boot 512 4194304 = Inr g \<and> exfat_cluster_count g = 1000"
  by (simp add: parse_exfat_geometry_def example_exfat_boot_reads example_exfat_boot_zero Let_def
      exfat_layout_bad_def checked_multiply_def checked_add_def list_all_iff drop_bit_eq_div)

theorem parse_exfat_geometry_layout_witness:
  "\<exists>g. parse_exfat_geometry example_exfat_boot 512 4194304 = Inr g \<and> exfat_bytes_per_sector g = 512"
proof -
  obtain g where g: "parse_exfat_geometry example_exfat_boot 512 4194304 = Inr g"
    using example_exfat by blast
  from parse_exfat_geometry_layout [OF g] g show ?thesis by blast
qed

end
