(* ===== verification/UsedRanges.thy ===== *)
theory UsedRanges
  imports BootSectors CloneEngine
begin

text \<open>
  What \<open>offline_gpt_clone.cpp\<close> and \<open>offline_mbr_clone.cpp\<close> both define for planning: the read of a
  partition's boot sector, and the check of the ranges a file system reports as used, which moves
  them from the start of the partition to the start of the disk.
\<close>

section \<open>Definitions\<close>

text \<open>\<open>INtfsUsedRangeProvider::query_used_ranges\<close>.\<close>

type_synonym 's used_range_provider = "u32 \<Rightarrow> ntfs_geometry \<Rightarrow> ('s, byte_range list) prog"

text \<open>
  The loop of \<open>validate_used_ranges\<close> over the sorted ranges, which also moves them from the start of
  the partition to the start of the disk; \<open>previous_end\<close> is absent in the first turn.
\<close>

fun check_used_ranges ::
  "byte_range \<Rightarrow> u64 \<Rightarrow> u64 option \<Rightarrow> byte_range list \<Rightarrow> byte_range list result" where
  "check_used_ranges part cluster_size previous_end [] = Inr []"
| "check_used_ranges part cluster_size previous_end (r # rs) =
     (if range_length r = 0 \<or> range_offset r mod cluster_size \<noteq> 0 \<or>
         range_length r mod cluster_size \<noteq> 0
      then Inl (mk_error Invalid_data ERROR_INVALID_DATA)
      else
        case checked_add (range_offset r) (range_length r) of
          None \<Rightarrow> Inl (mk_error Invalid_data ERROR_INVALID_DATA)
        | Some e \<Rightarrow>
          if e > range_length part \<or>
             (case previous_end of None \<Rightarrow> False | Some pe \<Rightarrow> range_offset r < pe)
          then Inl (mk_error Invalid_data ERROR_INVALID_DATA)
          else
            case check_used_ranges part cluster_size (Some e) rs of
              Inl err \<Rightarrow> Inl err
            | Inr rs' \<Rightarrow>
              Inr (r\<lparr>range_offset := range_offset r + range_offset part\<rparr> # rs'))"

definition validate_used_ranges ::
  "byte_range list \<Rightarrow> byte_range \<Rightarrow> ntfs_geometry \<Rightarrow> byte_range list result" where
  "validate_used_ranges ranges part geometry =
     (if ranges = [] then Inl (mk_error Invalid_data ERROR_INVALID_DATA)
      else
        case check_used_ranges part (ntfs_cluster_size geometry) None (sort_key range_offset ranges) of
          Inl e \<Rightarrow> Inl e
        | Inr ranges \<Rightarrow>
          if range_offset (hd ranges) \<noteq> range_offset part
          then Inl (mk_error Invalid_data ERROR_INVALID_DATA)
          else Inr ranges)"

definition read_boot_sector :: "'s source_reader \<Rightarrow> byte_range \<Rightarrow> ('s, byte list) prog" where
  "read_boot_sector source part =
     bindE (src_read source (range_offset part) (ucast (src_logical_sector_size source))) (\<lambda>boot.
     if length boot \<noteq> unat (src_logical_sector_size source)
     then failE (mk_error Io_failed ERROR_HANDLE_EOF)
     else returnE boot)"

section \<open>Which ranges are accepted\<close>

definition used_range_ok :: "byte_range \<Rightarrow> u64 \<Rightarrow> byte_range \<Rightarrow> bool" where
  "used_range_ok part cluster_size r \<longleftrightarrow>
     range_length r \<noteq> 0 \<and> range_offset r mod cluster_size = 0 \<and> range_length r mod cluster_size = 0 \<and>
     unat (range_offset r) + unat (range_length r) \<le> unat (range_length part)"

definition range_before :: "byte_range \<Rightarrow> byte_range \<Rightarrow> bool" where
  "range_before r r' \<longleftrightarrow> unat (range_offset r) + unat (range_length r) \<le> unat (range_offset r')"

definition on_disk :: "byte_range \<Rightarrow> byte_range \<Rightarrow> byte_range" where
  "on_disk part r = r\<lparr>range_offset := range_offset r + range_offset part\<rparr>"

lemma used_range_ok_add:
  "used_range_ok part c r \<longleftrightarrow> range_length r \<noteq> 0 \<and> range_offset r mod c = 0 \<and> range_length r mod c = 0 \<and>
     (\<exists>e. checked_add (range_offset r) (range_length r) = Some e \<and> e \<le> range_length part)"
  using unat_u64_bound [of "range_length part"]
  by (auto simp: used_range_ok_def checked_add_Some_iff word_le_nat_alt unat_add_u64 del: mod_0_imp_dvd)

lemma check_used_ranges_iff:
  "check_used_ranges part c previous rs = Inr out \<longleftrightarrow>
     out = map (on_disk part) rs \<and> list_all (used_range_ok part c) rs \<and> sorted_wrt range_before rs \<and>
     (\<forall>pe. previous = Some pe \<longrightarrow> list_all (\<lambda>r. pe \<le> range_offset r) rs)"
proof (induction part c previous rs arbitrary: out rule: check_used_ranges.induct)
  case (1 part c previous)
  then show ?case by auto
next
  case (2 part c previous r rs)
  show ?case
  proof (cases "used_range_ok part c r \<and> (\<forall>pe. previous = Some pe \<longrightarrow> pe \<le> range_offset r)")
    case False
    then show ?thesis
      by (auto simp: used_range_ok_add not_le not_less split: option.splits if_splits)
  next
    case True
    then obtain e where e: "checked_add (range_offset r) (range_length r) = Some e" "e \<le> range_length part"
      and r: "range_length r \<noteq> 0" "range_offset r mod c = 0" "range_length r mod c = 0"
      by (auto simp: used_range_ok_add)
    have before: "e \<le> range_offset r' \<longleftrightarrow> range_before r r'" for r'
      using checked_add_SomeD(1) [OF e(1)] by (simp add: range_before_def word_le_nat_alt)
    have trans: "list_all (\<lambda>r. pe \<le> range_offset r) rs"
      if "previous = Some pe" "list_all (range_before r) rs" for pe
      using that True by (fastforce simp: list_all_iff range_before_def word_le_nat_alt)
    have "check_used_ranges part c previous (r # rs) = Inr out \<longleftrightarrow>
        (\<exists>rs'. check_used_ranges part c (Some e) rs = Inr rs' \<and> out = on_disk part r # rs')"
      using True e r by (auto simp: on_disk_def not_less split: option.splits sum.splits)
    also have "\<dots> \<longleftrightarrow> out = map (on_disk part) (r # rs) \<and> list_all (used_range_ok part c) rs \<and>
        sorted_wrt range_before rs \<and> list_all (range_before r) rs"
      using 2 True e r by (auto simp: before not_less split: option.splits)
    finally show ?thesis using True trans by (auto simp: list_all_iff)
  qed
qed

lemma on_disk_span:
  assumes "used_range_ok part c r" "range_fits part"
  shows "unat (range_offset (on_disk part r)) = unat (range_offset part) + unat (range_offset r)"
    "range_length (on_disk part r) = range_length r"
    "range_span (on_disk part r) \<subseteq> range_span part" "range_fits (on_disk part r)"
proof -
  show off: "unat (range_offset (on_disk part r)) = unat (range_offset part) + unat (range_offset r)"
    using assms by (simp add: on_disk_def used_range_ok_def range_fits_def unat_add_u64)
  show len: "range_length (on_disk part r) = range_length r" by (simp add: on_disk_def)
  show "range_span (on_disk part r) \<subseteq> range_span part" "range_fits (on_disk part r)"
    using assms by (auto simp: range_span_def span_def off len used_range_ok_def range_fits_def)
qed

lemma card_ranges_span:
  assumes "sorted_wrt range_before rs"
  shows "card (ranges_span rs) = (\<Sum>r\<leftarrow>rs. unat (range_length r))"
proof -
  have "sorted_wrt (\<lambda>r r'. range_span r \<inter> range_span r' = {}) rs"
    using assms by (rule sorted_wrt_mono_rel [rotated]) (auto simp: range_before_def range_span_def span_def)
  from card_disjoint_UN [OF this] show ?thesis by (simp add: ranges_span_def range_span_def)
qed

lemma ranges_span_mono: "list_all (\<lambda>r. range_span r \<subseteq> W) rs \<Longrightarrow> ranges_span rs \<subseteq> W"
  by (auto simp: ranges_span_def list_all_iff)

lemma validate_used_ranges_success:
  assumes "validate_used_ranges ranges part g = Inr out"
  shows "out = map (on_disk part) (sort_key range_offset ranges)" "out \<noteq> []"
    "list_all (used_range_ok part (ntfs_cluster_size g)) ranges"
    "sorted_wrt range_before (sort_key range_offset ranges)"
    "range_offset (hd out) = range_offset part"
proof -
  from assms have c: "check_used_ranges part (ntfs_cluster_size g) None (sort_key range_offset ranges) = Inr out"
    and "range_offset (hd out) = range_offset part" "ranges \<noteq> []"
    by (auto simp: validate_used_ranges_def split: if_splits sum.splits)
  then show "range_offset (hd out) = range_offset part" by simp
  from c show "out = map (on_disk part) (sort_key range_offset ranges)"
    "sorted_wrt range_before (sort_key range_offset ranges)"
    "list_all (used_range_ok part (ntfs_cluster_size g)) ranges"
    by (auto simp: check_used_ranges_iff list_all_iff)
  then show "out \<noteq> []" using \<open>ranges \<noteq> []\<close> by (metis length_sort list.map_disc_iff length_0_conv)
qed

lemma validate_used_ranges_inside:
  assumes "validate_used_ranges ranges part g = Inr out" "range_fits part"
  shows "list_all (\<lambda>r. range_fits r \<and> range_span r \<subseteq> range_span part) out"
  using validate_used_ranges_success(1,3) [OF assms(1)] on_disk_span(3,4) [OF _ assms(2)]
  by (auto simp: list_all_iff)

lemma validate_used_ranges_first:
  assumes "validate_used_ranges ranges part g = Inr out"
  shows "unat (range_offset part) \<in> range_span (hd out)"
proof -
  note v = validate_used_ranges_success [OF assms]
  have "hd out \<in> set out" using v(2) by simp
  then have "range_length (hd out) \<noteq> 0"
    using v(1,3) by (auto simp: list_all_iff used_range_ok_def on_disk_def)
  then show ?thesis using v(5) by (simp add: range_span_def span_def unat_gt_0)
qed

lemma validate_used_ranges_ordered:
  assumes "validate_used_ranges ranges part g = Inr out" "range_fits part"
  shows "sorted_wrt range_before out"
proof -
  note v = validate_used_ranges_success [OF assms(1)]
  note ok = v(3) [unfolded list_all_iff, rule_format]
  have "sorted_wrt range_before (map (on_disk part) (sort_key range_offset ranges))"
    using v(4) by (rule sorted_wrt_mapI)
      (use on_disk_span(1,2) [OF ok assms(2)] in \<open>simp add: range_before_def\<close>)
  then show ?thesis by (simp add: v(1))
qed

lemma validate_used_ranges_span:
  assumes "validate_used_ranges ranges part g = Inr out" "range_fits part"
  shows "ranges_span out = (\<lambda>i. unat (range_offset part) + i) ` ranges_span ranges"
proof -
  note v = validate_used_ranges_success [OF assms(1)]
  note ok = v(3) [unfolded list_all_iff, rule_format]
  have "range_span (on_disk part r) = (\<lambda>i. unat (range_offset part) + i) ` range_span r"
    if "r \<in> set ranges" for r
    using on_disk_span(1,2) [OF ok [OF that] assms(2)]
    by (simp add: range_span_def span_def image_add_atLeastLessThan ac_simps)
  then show ?thesis by (simp add: v(1) ranges_span_def image_UN)
qed

section \<open>What a volume holds and what is reported of it\<close>

text \<open>The file system that the partition's boot sector shows.\<close>

definition boot_file_system :: "'s source_reader \<Rightarrow> byte_range \<Rightarrow> basic_data_file_system \<Rightarrow> bool" where
  "boot_file_system source part fs \<longleftrightarrow>
     (\<exists>s boot t. read_boot_sector source part s = (Inr boot, t) \<and>
        classify_basic_data_file_system boot (src_logical_sector_size source) (range_length part) = Inr fs)"

text \<open>
  The bytes of the disk that the provider reports as used: it is asked for the partition with the
  geometry its boot sector shows, and answers with ranges counted from the start of the partition.
\<close>

definition reported_used ::
  "'s source_reader \<Rightarrow> 's used_range_provider \<Rightarrow> u32 \<Rightarrow> byte_range \<Rightarrow> nat set \<Rightarrow> bool" where
  "reported_used source provider index part used \<longleftrightarrow>
     (\<exists>s boot t geometry u ranges v. read_boot_sector source part s = (Inr boot, t) \<and>
        parse_ntfs_geometry boot (src_logical_sector_size source) (range_length part) = Inr geometry \<and>
        provider index geometry u = (Inr ranges, v) \<and>
        used = (\<lambda>i. unat (range_offset part) + i) ` ranges_span ranges)"

section \<open>Property\<close>

text \<open>
  C32. The used ranges that \<open>validate_used_ranges\<close> accepts are the provider's, moved to the partition:
  in order, pairwise disjoint, of whole clusters, inside the partition, the first one at its boot
  sector, and covering exactly the reported bytes.
\<close>

theorem validate_used_ranges_sound:
  assumes "validate_used_ranges ranges part g = Inr out" "range_fits part"
  shows "sorted_wrt range_before out \<and>
    list_all (\<lambda>r. range_length r \<noteq> 0 \<and> range_length r mod ntfs_cluster_size g = 0 \<and>
      (range_offset r - range_offset part) mod ntfs_cluster_size g = 0 \<and> range_span r \<subseteq> range_span part) out \<and>
    range_offset (hd out) = range_offset part \<and>
    ranges_span out = (\<lambda>i. unat (range_offset part) + i) ` ranges_span ranges"
proof -
  note v = validate_used_ranges_success [OF assms(1)]
  note ok = v(3) [unfolded list_all_iff, rule_format]
  show ?thesis
    using v(5) validate_used_ranges_ordered [OF assms] validate_used_ranges_span [OF assms]
      on_disk_span(2,3) [OF ok assms(2)] ok
    by (auto simp: v(1) list_all_iff on_disk_def used_range_ok_def)
qed

theorem validate_used_ranges_sound_witness:
  "\<exists>out. validate_used_ranges [\<lparr>range_offset = 8192, range_length = 4096\<rparr>, \<lparr>range_offset = 0, range_length = 4096\<rparr>]
      \<lparr>range_offset = 1048576, range_length = 65536\<rparr>
      \<lparr>ntfs_bytes_per_sector = 512, ntfs_sectors_per_cluster = 8, ntfs_total_sectors = 128\<rparr> = Inr out \<and>
    sorted_wrt range_before out"
proof -
  let ?rs = "[\<lparr>range_offset = 8192, range_length = 4096\<rparr>, \<lparr>range_offset = 0, range_length = 4096\<rparr>]"
  let ?part = "\<lparr>range_offset = 1048576, range_length = 65536\<rparr>"
  let ?g = "\<lparr>ntfs_bytes_per_sector = 512, ntfs_sectors_per_cluster = 8, ntfs_total_sectors = 128\<rparr>"
  let ?out = "[\<lparr>range_offset = 1048576, range_length = 4096\<rparr>, \<lparr>range_offset = 1056768, range_length = 4096\<rparr>]"
  have v: "validate_used_ranges ?rs ?part ?g = Inr ?out"
    by (simp add: validate_used_ranges_def checked_add_def ntfs_cluster_size_def)
  have "range_fits ?part" by (simp add: range_fits_def)
  from validate_used_ranges_sound [OF v this] v show ?thesis by blast
qed

end
