(* ===== verification/OfflineGptClone.thy ===== *)
theory OfflineGptClone
  imports GptPlanCorrect UsedRanges CloneEngine DiskIdentity
begin

text \<open>
  The clone of a GPT disk (\<open>CloneCore/src/offline_gpt_clone.cpp\<close>): the plan, which says for every
  partition what will be copied, and its execution, in the phases of the code: prepare, erase the
  target's old table, copy, stage the new table, commit its primary header.
\<close>

section \<open>Data\<close>

datatype partition_copy_mode =
  Efi_fat32_raw | Microsoft_reserved_recreate | Ntfs_used_clusters | Basic_fat32_raw |
  Basic_exfat_raw | Recovery_ntfs_raw

record planned_partition_copy =
  pc_entry_index :: u32
  pc_mode :: partition_copy_mode
  pc_source_ranges :: "byte_range list"

record offline_gpt_clone_plan =
  ogp_source_gpt :: gpt_disk
  ogp_target_gpt :: gpt_write_plan
  ogp_partition_copies :: "planned_partition_copy list"

record 's offline_gpt_clone_request =
  ogr_expected_source :: stable_disk_identity
  ogr_observed_source :: stable_disk_identity
  ogr_expected_target :: stable_disk_identity
  ogr_observed_target :: stable_disk_identity
  ogr_confirmation :: target_confirmation
  ogr_maximum_chunk_bytes :: u64
  ogr_callbacks :: "'s operation_callbacks"

record offline_gpt_clone_report =
  ogt_copied_data_bytes :: u64
  ogt_copied_partition_count :: u32
  ogt_recreated_partition_count :: u32
  ogt_source_disk_guid :: guid
  ogt_target_disk_guid :: guid
  ogt_verified_write_digest :: "byte list"
  ogt_read_back_verified :: bool
  ogt_primary_gpt_committed :: bool

section \<open>Planning\<close>

definition partition_byte_range :: "gpt_partition \<Rightarrow> u32 \<Rightarrow> byte_range result" where
  "partition_byte_range p sector_size =
     (case checked_multiply (first_lba p) (ucast sector_size) of
        None \<Rightarrow> Inl (mk_error Invalid_data ERROR_ARITHMETIC_OVERFLOW)
      | Some offset \<Rightarrow>
     (case checked_add (last_lba p - first_lba p) 1 of
        None \<Rightarrow> Inl (mk_error Invalid_data ERROR_ARITHMETIC_OVERFLOW)
      | Some sector_count \<Rightarrow>
     (case checked_multiply sector_count (ucast sector_size) of
        None \<Rightarrow> Inl (mk_error Invalid_data ERROR_ARITHMETIC_OVERFLOW)
      | Some len \<Rightarrow> Inr \<lparr>range_offset = offset, range_length = len\<rparr>)))"

text \<open>
  One turn of the loop of \<open>build_offline_gpt_clone_plan\<close>, and the modes of a basic data partition.
\<close>

definition plan_basic_data ::
  "'s source_reader \<Rightarrow> 's used_range_provider \<Rightarrow> gpt_partition \<Rightarrow> byte_range \<Rightarrow> byte list \<Rightarrow>
   ('s, planned_partition_copy) prog" where
  "plan_basic_data source provider p part boot =
     bindE (of_result (classify_basic_data_file_system boot (src_logical_sector_size source)
       (range_length part))) (\<lambda>file_system.
     if file_system = Ntfs then
       bindE (of_result (parse_ntfs_geometry boot (src_logical_sector_size source) (range_length part)))
         (\<lambda>geometry.
       bindE (provider (entry_index p) geometry) (\<lambda>ranges.
       bindE (of_result (validate_used_ranges ranges part geometry)) (\<lambda>ranges.
       returnE \<lparr>pc_entry_index = entry_index p, pc_mode = Ntfs_used_clusters,
         pc_source_ranges = ranges\<rparr>)))
     else
       returnE \<lparr>pc_entry_index = entry_index p,
         pc_mode = (if file_system = Fat32 then Basic_fat32_raw else Basic_exfat_raw),
         pc_source_ranges = [part]\<rparr>)"

definition plan_partition ::
  "'s source_reader \<Rightarrow> 's used_range_provider \<Rightarrow> u32 \<Rightarrow> gpt_partition \<Rightarrow> ('s, planned_partition_copy) prog"
where
  "plan_partition source provider sector_size p =
     bindE (of_result (partition_byte_range p sector_size)) (\<lambda>part.
     if type_guid p = kMicrosoftReserved then
       returnE \<lparr>pc_entry_index = entry_index p, pc_mode = Microsoft_reserved_recreate,
         pc_source_ranges = []\<rparr>
     else
       bindE (read_boot_sector source part) (\<lambda>boot.
       if type_guid p = kEfiSystem then
         bindE (of_result (validate_fat32_boot_sector boot (src_logical_sector_size source)
           (range_length part))) (\<lambda>u.
         returnE \<lparr>pc_entry_index = entry_index p, pc_mode = Efi_fat32_raw, pc_source_ranges = [part]\<rparr>)
       else if type_guid p = kWindowsRecovery then
         bindE (of_result (parse_ntfs_geometry boot (src_logical_sector_size source)
           (range_length part))) (\<lambda>g.
         returnE \<lparr>pc_entry_index = entry_index p, pc_mode = Recovery_ntfs_raw,
           pc_source_ranges = [part]\<rparr>)
       else if type_guid p = kBasicData then plan_basic_data source provider p part boot
       else failE unsupported_error))"

fun plan_partitions ::
  "'s source_reader \<Rightarrow> 's used_range_provider \<Rightarrow> u32 \<Rightarrow> gpt_partition list \<Rightarrow>
   ('s, planned_partition_copy list) prog" where
  "plan_partitions source provider sector_size [] = returnE []"
| "plan_partitions source provider sector_size (p # ps) =
     bindE (plan_partition source provider sector_size p) (\<lambda>c.
     bindE (plan_partitions source provider sector_size ps) (\<lambda>cs.
     returnE (c # cs)))"

definition build_offline_gpt_clone_plan ::
  "'s source_reader \<Rightarrow> 's target_writer \<Rightarrow> 's used_range_provider \<Rightarrow> ('s, guid) prog \<Rightarrow>
   ('s, offline_gpt_clone_plan) prog" where
  "build_offline_gpt_clone_plan source target provider next_guid =
     bindE (parse_gpt source) (\<lambda>source_gpt.
     bindE (make_gpt_write_plan source_gpt (tgt_size_bytes target) (tgt_logical_sector_size target)
       next_guid) (\<lambda>target_gpt.
     bindE (plan_partitions source provider (gpt_sector_size source_gpt) (gpt_partitions source_gpt))
       (\<lambda>copies.
     returnE \<lparr>ogp_source_gpt = source_gpt, ogp_target_gpt = target_gpt,
       ogp_partition_copies = copies\<rparr>)))"

section \<open>Execution\<close>

text \<open>
  Up to the erasure of the target: the plan, the hash, the totals, and two cancellation points
  that leave the target as it was.
\<close>

definition prepare_gpt_clone ::
  "'s cng_api \<Rightarrow> 's offline_gpt_clone_request \<Rightarrow> 's source_reader \<Rightarrow> 's target_writer \<Rightarrow>
   's used_range_provider \<Rightarrow> ('s, guid) prog \<Rightarrow>
   ('s, offline_gpt_clone_plan \<times> write_digest \<times> operation_progress) prog" where
  "prepare_gpt_clone cng request source target provider next_guid =
     bindE (publish_progress (ogr_callbacks request) initial_progress Planning None True) (\<lambda>progress.
     bindE (liftE (cancellation_requested (ogr_callbacks request))) (\<lambda>cancel.
     if cancel then cancelled_status else
     bindE (build_offline_gpt_clone_plan source target provider next_guid) (\<lambda>plan.
     bindE (digest_create cng) (\<lambda>digest.
     case total_copy_bytes 0 (concat (map pc_source_ranges (ogp_partition_copies plan))) of
       None \<Rightarrow> failE (mk_error Invalid_data ERROR_ARITHMETIC_OVERFLOW)
     | Some planned \<Rightarrow>
       bindE (publish_progress (ogr_callbacks request)
         (progress\<lparr>pr_total_read_bytes := planned, pr_total_write_bytes := planned,
           pr_total_verify_bytes := planned\<rparr>) Invalidating_target None True) (\<lambda>progress.
       bindE (liftE (cancellation_requested (ogr_callbacks request))) (\<lambda>cancel.
       if cancel then cancelled_status else returnE (plan, digest, progress)))))))"

text \<open>The loop over the planned copies; the two counters are the report's.\<close>

fun copy_partitions ::
  "'s cng_api \<Rightarrow> 's source_reader \<Rightarrow> 's target_writer \<Rightarrow> u64 \<Rightarrow> 's operation_callbacks \<Rightarrow>
   planned_partition_copy list \<Rightarrow> copy_state \<times> u32 \<times> u32 \<Rightarrow> ('s, copy_state \<times> u32 \<times> u32) prog" where
  "copy_partitions cng source target m callbacks [] st = returnE st"
| "copy_partitions cng source target m callbacks (c # copies) (cs, copied, recreated) =
     (if pc_mode c = Microsoft_reserved_recreate
      then copy_partitions cng source target m callbacks copies (cs, copied, recreated + 1)
      else
        bindE (copy_ranges cng source target m (pc_entry_index c) callbacks (pc_source_ranges c) cs)
          (\<lambda>cs. copy_partitions cng source target m callbacks copies (cs, copied + 1, recreated)))"

fun stage_writes ::
  "'s cng_api \<Rightarrow> 's target_writer \<Rightarrow> 's operation_callbacks \<Rightarrow> gpt_metadata_write list \<Rightarrow>
   operation_progress \<times> write_digest \<Rightarrow> ('s, operation_progress \<times> write_digest) prog" where
  "stage_writes cng target callbacks [] st = returnE st"
| "stage_writes cng target callbacks (w # ws) (progress, digest) =
     (if gw_kind w = Primary_header_commit
      then stage_writes cng target callbacks ws (progress, digest)
      else
        bindE (publish_progress callbacks progress Staging_partition_table None True) (\<lambda>progress.
        bindE (liftE (cancellation_requested callbacks)) (\<lambda>cancel.
        if cancel then flush_and_cancel target
        else
          bindE (write_and_verify cng target (gw_offset w) (gw_bytes w) (Some digest)) (\<lambda>d.
          stage_writes cng target callbacks ws
            (progress, case d of None \<Rightarrow> digest | Some d \<Rightarrow> d)))))"

text \<open>From the erased target to the staged table.\<close>

definition copy_and_stage ::
  "'s cng_api \<Rightarrow> 's offline_gpt_clone_request \<Rightarrow> 's source_reader \<Rightarrow> 's target_writer \<Rightarrow>
   offline_gpt_clone_plan \<Rightarrow> write_digest \<Rightarrow> operation_progress \<Rightarrow>
   ('s, (copy_state \<times> u32 \<times> u32) \<times> operation_progress \<times> write_digest) prog" where
  "copy_and_stage cng request source target plan digest progress =
     bindE (copy_partitions cng source target (ogr_maximum_chunk_bytes request) (ogr_callbacks request)
       (ogp_partition_copies plan)
       (\<lparr>cs_progress = progress, cs_digest = digest, cs_copied_bytes = 0,
         cs_verified_chunk_count = 0\<rparr>, 0, 0)) (\<lambda>(cs, copied, recreated).
     bindE (publish_progress (ogr_callbacks request) (cs_progress cs) Flushing_data None False) (\<lambda>progress.
     bindE (tgt_flush target) (\<lambda>u.
     bindE (stage_writes cng target (ogr_callbacks request) (gwp_writes (ogp_target_gpt plan))
       (progress, cs_digest cs)) (\<lambda>(progress, digest).
     bindE (tgt_flush target) (\<lambda>u.
     bindE (liftE (cancellation_requested (ogr_callbacks request))) (\<lambda>cancel.
     if cancel then cancelled_status
     else returnE ((cs, copied, recreated), progress, digest)))))))"

definition commit_gpt ::
  "'s cng_api \<Rightarrow> 's offline_gpt_clone_request \<Rightarrow> 's target_writer \<Rightarrow> offline_gpt_clone_plan \<Rightarrow>
   (copy_state \<times> u32 \<times> u32) \<times> operation_progress \<times> write_digest \<Rightarrow>
   ('s, offline_gpt_clone_report) prog" where
  "commit_gpt cng request target plan = (\<lambda>((cs, copied, recreated), progress, digest).
     case find (\<lambda>w. gw_kind w = Primary_header_commit) (gwp_writes (ogp_target_gpt plan)) of
       None \<Rightarrow> failE (mk_error Internal_error ERROR_INVALID_DATA)
     | Some commit \<Rightarrow>
       bindE (publish_progress (ogr_callbacks request) progress Committing_partition_table None False)
         (\<lambda>progress.
       bindE (write_and_verify cng target (gw_offset commit) (gw_bytes commit) (Some digest)) (\<lambda>d.
       bindE (tgt_flush target) (\<lambda>u.
       bindE (liftE (digest_finish cng (case d of None \<Rightarrow> digest | Some d \<Rightarrow> d))) (\<lambda>(finished, d).
       bindE (of_result finished) (\<lambda>bytes.
       bindE (publish_progress (ogr_callbacks request) progress Completed None False) (\<lambda>progress.
       returnE \<lparr>ogt_copied_data_bytes = cs_copied_bytes cs, ogt_copied_partition_count = copied,
         ogt_recreated_partition_count = recreated,
         ogt_source_disk_guid = disk_guid (ogp_source_gpt plan),
         ogt_target_disk_guid = disk_guid (gwp_target_disk (ogp_target_gpt plan)),
         ogt_verified_write_digest = bytes, ogt_read_back_verified = True,
         ogt_primary_gpt_committed = True\<rparr>)))))))"

definition execute_offline_gpt_clone ::
  "'s cng_api \<Rightarrow> 's offline_gpt_clone_request \<Rightarrow> 's source_reader \<Rightarrow> 's target_writer \<Rightarrow>
   's used_range_provider \<Rightarrow> ('s, guid) prog \<Rightarrow> ('s, offline_gpt_clone_report) prog" where
  "execute_offline_gpt_clone cng request source target provider next_guid =
     bindE (of_result (validate_clone_identities (ogr_expected_source request)
       (ogr_observed_source request) (ogr_expected_target request) (ogr_observed_target request)
       (ogr_confirmation request) True)) (\<lambda>u.
     if ogr_maximum_chunk_bytes request = 0 \<or> ogr_maximum_chunk_bytes request > 16 * 1024 * 1024 \<or>
        id_size_bytes (ogr_observed_source request) \<noteq> src_size_bytes source \<or>
        id_size_bytes (ogr_observed_target request) \<noteq> tgt_size_bytes target \<or>
        id_logical_sector_size (ogr_observed_source request) \<noteq> src_logical_sector_size source \<or>
        id_logical_sector_size (ogr_observed_target request) \<noteq> tgt_logical_sector_size target \<or>
        tgt_size_bytes target < of_nat (2 * kTargetMetadataInvalidationBytes)
     then failE (mk_error Identity_mismatch ERROR_INVALID_DATA)
     else if src_logical_sector_size source \<noteq> 512 \<or> tgt_logical_sector_size target \<noteq> 512
     then failE unsupported_error
     else
       bindE (prepare_gpt_clone cng request source target provider next_guid)
         (\<lambda>(plan, digest, progress).
       bindE (invalidate_target cng target (ogr_callbacks request)) (\<lambda>u.
       bindE (copy_and_stage cng request source target plan digest progress) (\<lambda>staged.
       commit_gpt cng request target plan staged))))"

end
