(* ===== verification/OfflineGptCloneCorrect.thy ===== *)
theory OfflineGptCloneCorrect
  imports OfflineGptClone
begin

text \<open>
  What a GPT clone guarantees: which bytes are planned for which partition, that the target is
  untouched until the plan stands, that it has no valid table until the commit, and what it holds
  after a success.
\<close>

section \<open>Planning leaves the target alone\<close>

lemma keeps_read_exact: "(\<And>off len. keeps v (src_read rd off len)) \<Longrightarrow> keeps v (read_exact rd off len)"
  unfolding read_exact_def by (intro keeps_bindE) simp_all

lemma keeps_parse_gpt:
  assumes "\<And>off len. keeps v (src_read rd off len)"
  shows "keeps v (parse_gpt rd)"
  unfolding parse_gpt_def parse_header_def read_entry_array_def Let_def
  by (auto intro!: keeps_bindE keeps_read_exact assms split: option.split)

lemma keeps_assign_partition_guids:
  "keeps v next_guid \<Longrightarrow> keeps v (assign_partition_guids next_guid seen ps)"
  by (induction ps arbitrary: seen) (auto intro!: keeps_bindE)

lemma keeps_make_gpt_write_plan:
  "keeps v next_guid \<Longrightarrow> keeps v (make_gpt_write_plan d sz sector next_guid)"
  unfolding make_gpt_write_plan_def Let_def
  by (auto intro!: keeps_bindE keeps_assign_partition_guids split: option.split)

lemma keeps_plan_partitions:
  assumes "\<And>off len. keeps v (src_read source off len)" "\<And>i g. keeps v (provider i g)"
  shows "keeps v (plan_partitions source provider sector ps)"
proof (induction ps)
  case (Cons p ps)
  have "keeps v (plan_partition source provider sector p)"
    unfolding plan_partition_def plan_basic_data_def read_boot_sector_def
    by (auto intro!: keeps_bindE assms)
  then show ?case using Cons by (auto intro!: keeps_bindE)
qed simp

lemma keeps_build_offline_gpt_clone_plan:
  assumes "\<And>off len. keeps v (src_read source off len)" "\<And>i g. keeps v (provider i g)" "keeps v next_guid"
  shows "keeps v (build_offline_gpt_clone_plan source target provider next_guid)"
  unfolding build_offline_gpt_clone_plan_def
  by (intro keeps_bindE keeps_parse_gpt keeps_make_gpt_write_plan keeps_plan_partitions assms) simp

section \<open>What is planned\<close>

definition partition_span :: "u32 \<Rightarrow> gpt_partition \<Rightarrow> nat set" where
  "partition_span sector p = {unat (first_lba p) * unat sector ..< (unat (last_lba p) + 1) * unat sector}"

text \<open>What is copied of a planned partition: nothing of one that is only recreated.\<close>

definition copied_span :: "planned_partition_copy \<Rightarrow> nat set" where
  "copied_span c = (if pc_mode c = Microsoft_reserved_recreate then {} else ranges_span (pc_source_ranges c))"

definition planned_span :: "planned_partition_copy list \<Rightarrow> nat set" where
  "planned_span copies = (\<Union>c \<in> set copies. copied_span c)"

text \<open>
  The sum of the lengths is the number of bytes: no byte of a partition is copied twice.
\<close>

definition copy_of_partition :: "u32 \<Rightarrow> gpt_partition \<Rightarrow> planned_partition_copy \<Rightarrow> bool" where
  "copy_of_partition sector p c \<longleftrightarrow>
     pc_entry_index c = entry_index p \<and> list_all range_fits (pc_source_ranges c) \<and>
     copied_span c \<subseteq> partition_span sector p \<and>
     (\<Sum>r\<leftarrow>pc_source_ranges c. unat (range_length r)) = card (copied_span c) \<and>
     (pc_mode c = Microsoft_reserved_recreate \<longleftrightarrow> type_guid p = kMicrosoftReserved) \<and>
     (pc_mode c \<notin> {Microsoft_reserved_recreate, Ntfs_used_clusters} \<longrightarrow>
        copied_span c = partition_span sector p) \<and>
     (pc_mode c = Ntfs_used_clusters \<longrightarrow>
        type_guid p = kBasicData \<and> unat (first_lba p) * unat sector \<in> copied_span c)"

lemma partition_byte_range_success:
  assumes "partition_byte_range p sector = Inr part" "first_lba p \<le> last_lba p"
    "(unat (last_lba p) + 1) * unat sector < 2 ^ 64"
  shows "range_fits part" "range_span part = partition_span sector p"
    "unat (range_offset part) = unat (first_lba p) * unat sector"
proof -
  from assms(1) obtain o' n l where o': "checked_multiply (first_lba p) (ucast sector) = Some o'"
    and n: "checked_add (last_lba p - first_lba p) 1 = Some n"
    and l: "checked_multiply n (ucast sector) = Some l"
    and part: "part = \<lparr>range_offset = o', range_length = l\<rparr>"
    by (auto simp: partition_byte_range_def split: option.splits)
  have le: "unat (first_lba p) \<le> unat (last_lba p)" using assms(2) by (simp add: word_le_nat_alt)
  have off: "unat o' = unat (first_lba p) * unat sector" using checked_multiply_SomeD(1) [OF o'] by simp
  have "unat n = unat (last_lba p) - unat (first_lba p) + 1"
    using checked_add_SomeD(1) [OF n] unat_sub_u64 [OF assms(2)] by simp
  then have len: "unat l = (unat (last_lba p) - unat (first_lba p) + 1) * unat sector"
    using checked_multiply_SomeD(1) [OF l] by simp
  have e: "unat o' + unat l = (unat (last_lba p) + 1) * unat sector"
    unfolding off len add_mult_distrib [symmetric] using le by simp
  show "range_fits part" using assms(3) e by (simp add: range_fits_def part)
  show "range_span part = partition_span sector p"
    unfolding range_span_def span_def part partition_span_def e [symmetric] off [symmetric] by simp
  show "unat (range_offset part) = unat (first_lba p) * unat sector" by (simp add: part off)
qed

lemma plan_partition_success:
  assumes plan: "plan_partition source provider sector p s = (Inr c, t)"
    and p: "first_lba p \<le> last_lba p" "(unat (last_lba p) + 1) * unat sector < 2 ^ 64" "0 < unat sector"
  shows "copy_of_partition sector p c"
proof -
  from plan obtain part where part: "partition_byte_range p sector = Inr part"
    unfolding plan_partition_def bindE_eq_Inr of_result_eq by metis
  note pr = partition_byte_range_success [OF part p(1,2)]
  have whole: "ranges_span [part] = partition_span sector p" by (simp add: pr)
  show ?thesis
  proof (cases "type_guid p = kMicrosoftReserved")
    case True
    then show ?thesis
      using plan part by (auto simp: plan_partition_def bindE_eq_Inr copy_of_partition_def copied_span_def)
  next
    case False
    show ?thesis
    proof (cases "pc_mode c = Ntfs_used_clusters")
      case True
      then obtain ranges g where v: "validate_used_ranges ranges part g = Inr (pc_source_ranges c)"
        and b: "type_guid p = kBasicData" and i: "pc_entry_index c = entry_index p"
        using plan part False
        by (auto simp: plan_partition_def plan_basic_data_def bindE_eq_Inr split: if_splits)
      let ?r = "hd (pc_source_ranges c)"
      note in_part = validate_used_ranges_inside [OF v pr(1)]
      have ne: "?r \<in> set (pc_source_ranges c)" using validate_used_ranges_success(2) [OF v] by simp
      have "unat (range_offset part) \<in> range_span ?r" by (rule validate_used_ranges_first [OF v])
      then have "unat (first_lba p) * unat sector \<in> ranges_span (pc_source_ranges c)"
        using ne pr(3) by (auto simp: ranges_span_def)
      moreover have "ranges_span (pc_source_ranges c) \<subseteq> partition_span sector p"
        using in_part ranges_span_mono [of "partition_span sector p"] by (simp add: pr(2) list_all_iff)
      ultimately show ?thesis
        using True in_part b i False card_ranges_span [OF validate_used_ranges_ordered [OF v pr(1)]] by (simp add: copy_of_partition_def copied_span_def list_all_iff)
    next
      case nt: False
      then have "pc_source_ranges c = [part] \<and> pc_entry_index c = entry_index p \<and>
          pc_mode c \<noteq> Microsoft_reserved_recreate"
        using plan part False
        by (auto simp: plan_partition_def plan_basic_data_def bindE_eq_Inr split: if_splits)
      then show ?thesis
        using whole nt False pr(1) card_ranges_span [of "[part]"]
        by (auto simp: copy_of_partition_def copied_span_def)
    qed
  qed
qed

text \<open>
  Which mode a partition is planned in, by its type and its boot sector, and what is copied of an
  NTFS volume: exactly the bytes that the provider reported.
\<close>

definition volume_copied ::
  "'s source_reader \<Rightarrow> 's used_range_provider \<Rightarrow> u32 \<Rightarrow> gpt_partition \<Rightarrow> planned_partition_copy \<Rightarrow> bool" where
  "volume_copied source provider sector p c \<longleftrightarrow>
     (\<exists>part. partition_byte_range p sector = Inr part \<and>
       (case pc_mode c of
          Microsoft_reserved_recreate \<Rightarrow> type_guid p = kMicrosoftReserved
        | Efi_fat32_raw \<Rightarrow> type_guid p = kEfiSystem
        | Recovery_ntfs_raw \<Rightarrow> type_guid p = kWindowsRecovery
        | Basic_fat32_raw \<Rightarrow> type_guid p = kBasicData \<and> boot_file_system source part Fat32
        | Basic_exfat_raw \<Rightarrow> type_guid p = kBasicData \<and> boot_file_system source part Exfat
        | Ntfs_used_clusters \<Rightarrow> type_guid p = kBasicData \<and> boot_file_system source part Ntfs \<and>
            reported_used source provider (entry_index p) part (copied_span c)))"

lemma plan_partition_volume:
  assumes plan: "plan_partition source provider sector p s = (Inr c, t)"
    and p: "first_lba p \<le> last_lba p" "(unat (last_lba p) + 1) * unat sector < 2 ^ 64"
  shows "volume_copied source provider sector p c"
proof -
  from plan obtain part where part: "partition_byte_range p sector = Inr part"
    unfolding plan_partition_def bindE_eq_Inr of_result_eq by metis
  show ?thesis
  proof (cases "type_guid p = kBasicData")
    case False
    then show ?thesis
      using plan part
      by (auto simp: plan_partition_def bindE_eq_Inr volume_copied_def split: if_splits)
  next
    case True
    then have "type_guid p \<noteq> kMicrosoftReserved" "type_guid p \<noteq> kEfiSystem" "type_guid p \<noteq> kWindowsRecovery"
      by (simp_all add: kBasicData_def kMicrosoftReserved_def kEfiSystem_def kWindowsRecovery_def
          guid_of_bytes_def)
    then obtain boot u v where boot: "read_boot_sector source part u = (Inr boot, v)"
      and basic: "plan_basic_data source provider p part boot v = (Inr c, t)"
      using plan part True by (auto simp: plan_partition_def bindE_eq_Inr)
    from basic obtain fs where fs: "classify_basic_data_file_system boot (src_logical_sector_size source)
        (range_length part) = Inr fs"
      unfolding plan_basic_data_def bindE_eq_Inr of_result_eq by metis
    have shown: "boot_file_system source part fs" using boot fs by (auto simp: boot_file_system_def)
    show ?thesis
    proof (cases "fs = Ntfs")
      case False
      then have "pc_mode c = (if fs = Fat32 then Basic_fat32_raw else Basic_exfat_raw)"
        using basic fs by (auto simp: plan_basic_data_def bindE_eq_Inr)
      then show ?thesis using True False part shown by (cases fs) (auto simp: volume_copied_def)
    next
      case ntfs: True
      then obtain geometry ranges w x where
        g: "parse_ntfs_geometry boot (src_logical_sector_size source) (range_length part) = Inr geometry"
        and r: "provider (entry_index p) geometry w = (Inr ranges, x)"
        and v: "validate_used_ranges ranges part geometry = Inr (pc_source_ranges c)"
        and m: "pc_mode c = Ntfs_used_clusters"
        using basic fs unfolding plan_basic_data_def bindE_eq_Inr of_result_eq
        by (auto simp: bindE_eq_Inr ntfs dest: sym)
      have "copied_span c = (\<lambda>i. unat (range_offset part) + i) ` ranges_span ranges"
        using validate_used_ranges_span [OF v partition_byte_range_success(1) [OF part p]]
        by (simp add: copied_span_def m)
      then have "reported_used source provider (entry_index p) part (copied_span c)"
        unfolding reported_used_def using boot g r by blast
      then show ?thesis using True part shown by (simp add: volume_copied_def m ntfs)
    qed
  qed
qed

lemma plan_partitions_volumes:
  assumes "plan_partitions source provider sector ps s = (Inr cs, t)"
    and "list_all (\<lambda>p. first_lba p \<le> last_lba p \<and> (unat (last_lba p) + 1) * unat sector < 2 ^ 64) ps"
  shows "list_all2 (volume_copied source provider sector) ps cs"
  using assms
proof (induction ps arbitrary: s cs)
  case (Cons p ps)
  then obtain c cs' u v where "plan_partition source provider sector p s = (Inr c, u)"
    "plan_partitions source provider sector ps u = (Inr cs', v)" "cs = c # cs'"
    by (auto simp: bindE_eq_Inr)
  then show ?case using Cons.IH [of u cs'] Cons.prems plan_partition_volume by (auto simp: bindE_eq_Inr)
qed simp

lemma plan_partitions_success:
  assumes "plan_partitions source provider sector ps s = (Inr cs, t)" "0 < unat sector"
    and "list_all (\<lambda>p. first_lba p \<le> last_lba p \<and> (unat (last_lba p) + 1) * unat sector < 2 ^ 64) ps"
  shows "list_all2 (copy_of_partition sector) ps cs"
  using assms
proof (induction ps arbitrary: s cs)
  case (Cons p ps)
  then obtain c cs' u v where "plan_partition source provider sector p s = (Inr c, u)"
    "plan_partitions source provider sector ps u = (Inr cs', v)" "cs = c # cs'"
    by (auto simp: bindE_eq_Inr)
  then show ?case using Cons.IH [of u cs'] Cons.prems plan_partition_success by (auto simp: bindE_eq_Inr)
qed simp

lemma build_offline_gpt_clone_plan_success:
  assumes "build_offline_gpt_clone_plan source target provider next_guid s = (Inr plan, t)"
  shows "gpt_wf (ogp_source_gpt plan)"
    "\<exists>u v. make_gpt_write_plan (ogp_source_gpt plan) (tgt_size_bytes target)
       (tgt_logical_sector_size target) next_guid u = (Inr (ogp_target_gpt plan), v)"
    "list_all2 (copy_of_partition (gpt_sector_size (ogp_source_gpt plan)))
       (gpt_partitions (ogp_source_gpt plan)) (ogp_partition_copies plan)"
    "\<exists>u v. parse_gpt source u = (Inr (ogp_source_gpt plan), v)"
    "list_all2 (volume_copied source provider (gpt_sector_size (ogp_source_gpt plan)))
       (gpt_partitions (ogp_source_gpt plan)) (ogp_partition_copies plan)"
proof -
  from assms obtain d w cs u v where d: "parse_gpt source s = (Inr d, u)"
    and w: "make_gpt_write_plan d (tgt_size_bytes target) (tgt_logical_sector_size target) next_guid u = (Inr w, v)"
    and cs: "plan_partitions source provider (gpt_sector_size d) (gpt_partitions d) v = (Inr cs, t)"
    and plan: "plan = \<lparr>ogp_source_gpt = d, ogp_target_gpt = w, ogp_partition_copies = cs\<rparr>"
    by (auto simp: build_offline_gpt_clone_plan_def bindE_eq_Inr)
  have wf: "gpt_wf d" using parse_gpt_result_wf [OF d] by simp
  then have frame: "gpt_frame_wf d" by (simp add: gpt_wf_def gpt_table_wf_def)
  show "gpt_wf (ogp_source_gpt plan)" using wf by (simp add: plan)
  show "\<exists>u v. make_gpt_write_plan (ogp_source_gpt plan) (tgt_size_bytes target)
       (tgt_logical_sector_size target) next_guid u = (Inr (ogp_target_gpt plan), v)"
    using w by (auto simp: plan)
  show "\<exists>u v. parse_gpt source u = (Inr (ogp_source_gpt plan), v)"
    using d by (auto simp: plan)
  have "first_lba p \<le> last_lba p \<and> (unat (last_lba p) + 1) * unat (gpt_sector_size d) < 2 ^ 64"
    if "p \<in> set (gpt_partitions d)" for p
  proof -
    have "partition_wf d p" using wf that by (simp add: gpt_wf_def gpt_table_wf_def list_all_iff)
    then have "unat (last_lba p) + 1 \<le> unat (gpt_sector_count d)" "first_lba p \<le> last_lba p"
      using frame by (auto simp: partition_wf_def gpt_frame_wf_def word_le_nat_alt)
    moreover from this have "(unat (last_lba p) + 1) * unat (gpt_sector_size d) \<le>
        unat (gpt_sector_count d) * unat (gpt_sector_size d)"
      by (intro mult_le_mono1)
    moreover have "\<dots> < 2 ^ 64" using frame by (simp add: gpt_frame_wf_def)
    ultimately show ?thesis by simp
  qed
  moreover have "0 < unat (gpt_sector_size d)" using layout_sz [OF frame] by simp
  ultimately show "list_all2 (copy_of_partition (gpt_sector_size (ogp_source_gpt plan)))
       (gpt_partitions (ogp_source_gpt plan)) (ogp_partition_copies plan)"
    "list_all2 (volume_copied source provider (gpt_sector_size (ogp_source_gpt plan)))
       (gpt_partitions (ogp_source_gpt plan)) (ogp_partition_copies plan)"
    using plan_partitions_success [OF cs] plan_partitions_volumes [OF cs] by (simp_all add: plan list_all_iff)
qed

section \<open>The writes of the new table\<close>

definition staged_writes :: "gpt_metadata_write list \<Rightarrow> gpt_metadata_write list" where
  "staged_writes ws = filter (\<lambda>w. gw_kind w \<noteq> Primary_header_commit) ws"

definition writes_span :: "gpt_metadata_write list \<Rightarrow> nat set" where
  "writes_span ws = (\<Union>w \<in> set ws. span (unat (gw_offset w)) (length (gw_bytes w)))"

lemma staged_writes_simps [simp]:
  "staged_writes [] = []"
  "staged_writes (w # ws) =
    (if gw_kind w = Primary_header_commit then staged_writes ws else w # staged_writes ws)"
  by (simp_all add: staged_writes_def)

lemma writes_span_simps [simp]:
  "writes_span [] = {}" "writes_span (w # ws) = span (unat (gw_offset w)) (length (gw_bytes w)) \<union> writes_span ws"
  by (simp_all add: writes_span_def)

lemma apply_writes_simps [simp]:
  "apply_writes [] img = img"
  "apply_writes (w # ws) img = apply_writes ws (img_update img (unat (gw_offset w)) (gw_bytes w))"
  by (simp_all add: apply_writes_def)

lemma apply_writes_append: "apply_writes (ws @ ws') img = apply_writes ws' (apply_writes ws img)"
  by (induction ws arbitrary: img) simp_all

lemma apply_writes_within: "only_within (writes_span ws) img (apply_writes ws img)"
  unfolding only_within_def writes_span_def
  by (auto simp: span_def list_all_iff not_le not_less intro!: apply_writes_outside)

lemma write_disjoint_span:
  "write_disjoint v w \<Longrightarrow>
   span (unat (gw_offset v)) (length (gw_bytes v)) \<inter> span (unat (gw_offset w)) (length (gw_bytes w)) = {}"
  by (auto simp: write_disjoint_def span_def)

text \<open>The planned writes end with the only commit, which fills sector 1.\<close>

lemma plan_writes_commit:
  assumes "gpt_wf source" "make_gpt_write_plan source size_bytes sector next_guid s = (Inr plan, t)"
  obtains commit where "gwp_writes plan = staged_writes (gwp_writes plan) @ [commit]"
    "find (\<lambda>w. gw_kind w = Primary_header_commit) (gwp_writes plan) = Some commit"
    "unat (gw_offset commit) = unat sector" "length (gw_bytes commit) = unat sector"
    "list_all (\<lambda>w. length (gw_bytes w) < 2 ^ 64) (gwp_writes plan)"
    "writes_span (staged_writes (gwp_writes plan)) \<inter> span (unat sector) (unat sector) = {}"
proof -
  let ?t = "gwp_target_disk plan" and ?ws = "gwp_writes plan"
  from make_gpt_write_planE [OF assms] obtain dg ps where a: "sector = gpt_sector_size source"
    "?t = clone_target source size_bytes sector dg ps"
    "?ws = gpt_write_list ?t (of_nat (entry_span source))" .
  have sz: "gpt_sector_size ?t = sector" using a by (simp add: clone_target_def Let_def)
  note lay = make_gpt_write_plan_layout(1) [OF assms]
  note contents = write_list_contents [OF lay, folded a(3), unfolded sz]
  then obtain w1 w2 w3 w4 w5 where ws: "?ws = [w1, w2, w3, w4, w5]"
    by (auto simp: map_eq_Cons_conv)
  have hdr: "length (build_header ?t lba blba elba crc) = unat sector" for lba blba elba crc
    by (simp add: build_header_def Let_def sz)
  have w: "staged_writes ?ws = [w1, w2, w3, w4]" "gw_kind w5 = Primary_header_commit"
    "find (\<lambda>w. gw_kind w = Primary_header_commit) ?ws = Some w5"
    "unat (gw_offset w5) = unat sector" "length (gw_bytes w5) = unat sector"
    using contents by (simp_all add: ws hdr sz)
  have dis: "sorted_wrt write_disjoint ?ws" and inside: "list_all (\<lambda>w. unat (gw_offset w) + length (gw_bytes w) \<le>
        unat (gpt_sector_count ?t) * unat (gpt_sector_size ?t)) ?ws"
    unfolding a(3) using write_list_extents(1,2) [OF lay] by auto
  have "unat (gpt_sector_count ?t) * unat (gpt_sector_size ?t) < 2 ^ 64"
    using lay by (simp add: layout_ok_def gpt_frame_wf_def)
  then have "list_all (\<lambda>w. length (gw_bytes w) < 2 ^ 64) ?ws"
    using inside by (fastforce simp: list_all_iff)
  moreover have "writes_span (staged_writes ?ws) \<inter> span (unat sector) (unat sector) = {}"
  proof -
    have "list_all (\<lambda>w. write_disjoint w w5) (staged_writes ?ws)"
      using dis unfolding w(1) unfolding ws by simp
    then have "writes_span (staged_writes ?ws) \<inter> span (unat (gw_offset w5)) (length (gw_bytes w5)) = {}"
      unfolding writes_span_def list_all_iff using write_disjoint_span by fast
    then show ?thesis by (simp only: w(4,5))
  qed
  ultimately show ?thesis
    using w by (intro that [of w5]) (simp_all add: ws)
qed

lemma planned_off_writes:
  assumes wf: "gpt_wf source"
    and plan: "make_gpt_write_plan source size_bytes sector next_guid s = (Inr plan, t)"
    and copies: "list_all2 (copy_of_partition (gpt_sector_size source)) (gpt_partitions source) copies"
  shows "planned_span copies \<inter> writes_span (gwp_writes plan) = {}"
proof -
  let ?t = "gwp_target_disk plan"
  from make_gpt_write_planE [OF wf plan] obtain dg ps where a: "sector = gpt_sector_size source"
    "size_bytes mod ucast sector = 0"
    "unat (gpt_sector_count source) * unat sector \<le> unat size_bytes"
    "?t = clone_target source size_bytes sector dg ps"
    "gwp_writes plan = gpt_write_list ?t (of_nat (entry_span source))" .
  note lay = clone_layout [OF wf a(1-3)]
  have sec: "of_nat (entry_span source) = plan_sectors source sector"
    using arg_cong [OF lay(3), of "of_nat :: nat \<Rightarrow> u64"] by simp
  have t: "gpt_sector_size ?t = sector" "first_usable_lba ?t = first_usable_lba source"
    "last_usable_lba ?t = size_bytes div ucast sector - 1 - plan_sectors source sector - 1"
    using a(1) sec by (simp_all add: a(4) clone_target_def Let_def)
  have "i \<notin> writes_span (gwp_writes plan)" if i: "i \<in> planned_span copies" for i
  proof -
    from i obtain c where "c \<in> set copies" "i \<in> copied_span c" by (auto simp: planned_span_def)
    with copies obtain p where p: "p \<in> set (gpt_partitions source)" "i \<in> partition_span sector p"
      by (auto simp: list_all2_conv_all_nth in_set_conv_nth copy_of_partition_def a(1) dest!: spec)
    then have "unat (first_usable_lba ?t) \<le> unat (first_lba p)" "unat (last_lba p) + 1 \<le> unat (last_usable_lba ?t) + 1"
      using lay(7) by (auto simp: t word_le_nat_alt)
    from mult_le_mono1 [OF this(1), of "unat sector"] mult_le_mono1 [OF this(2), of "unat sector"] p(2)
    have "unat (first_usable_lba ?t) * unat sector \<le> i" "i < (unat (last_usable_lba ?t) + 1) * unat sector"
      unfolding partition_span_def atLeastLessThan_iff by linarith+
    then show ?thesis
      using write_list_extents(3) [OF make_gpt_write_plan_layout(1) [OF wf plan], folded a(5), unfolded t(1)]
      by (fastforce simp: writes_span_def list_all_iff span_def)
  qed
  then show ?thesis by auto
qed

text \<open>A disk whose sector 1 starts with zeros has no GPT.\<close>

definition no_gpt :: "u64 \<Rightarrow> image \<Rightarrow> bool" where
  "no_gpt size_bytes img \<longleftrightarrow>
     (\<forall>s. \<exists>e t. parse_gpt (memory_source_reader size_bytes 512 img) (s :: unit) = (Inl e, t))"

lemma no_gptI:
  assumes "\<And>i. i \<in> span 512 512 \<Longrightarrow> img i = 0"
  shows "no_gpt size_bytes img"
  unfolding no_gpt_def
proof (rule allI)
  fix s :: unit
  have "img_bytes img 512 8 ! 0 = 0" "kGptSignature ! 0 \<noteq> 0"
    using assms [of 512] by (simp_all add: span_def kGptSignature_def)
  then have "img_bytes img 512 8 \<noteq> kGptSignature" by metis
  then have "img_bytes img (unat (512 :: u32)) 8 \<noteq> kGptSignature" by simp
  then show "\<exists>e t. parse_gpt (memory_source_reader size_bytes 512 img) s = (Inl e, t)"
    using parse_gpt_signature [of size_bytes 512 img s]
    by (metis sumE surj_pair)
qed

section \<open>Execution\<close>

context clone_world
begin

lemma copy_partitions_spec:
  "list_all (\<lambda>c. list_all range_fits (pc_source_ranges c)) copies \<Longrightarrow>
   hoare (\<lambda>s. timg s = img) (copy_partitions cng src tgt m cbs copies st)
     (\<lambda>st s. timg s = overlay simg (planned_span copies) img)
     (\<lambda>e s. only_within (planned_span copies) img (timg s))"
proof (induction copies arbitrary: img st)
  case Nil
  then show ?case by (simp add: hoare_pre [OF hoare_returnE] planned_span_def)
next
  case (Cons c copies)
  obtain cs n k where st: "st = (cs, n, k)" by (cases st)
  have span: "planned_span (c # copies) = copied_span c \<union> planned_span copies"
    by (simp add: planned_span_def)
  show ?case
  proof (cases "pc_mode c = Microsoft_reserved_recreate")
    case True
    then show ?thesis using Cons by (simp add: st span copied_span_def)
  next
    case False
    then have cspan: "copied_span c = ranges_span (pc_source_ranges c)" by (simp add: copied_span_def)
    let ?mid = "overlay simg (copied_span c) img"
    have first: "hoare (\<lambda>s. timg s = img) (copy_ranges cng src tgt m (pc_entry_index c) cbs (pc_source_ranges c) cs)
        (\<lambda>cs s. timg s = ?mid) (\<lambda>e s. only_within (copied_span c \<union> planned_span copies) img (timg s))"
      using Cons.prems by (intro hoare_conseq [OF copy_ranges_spec]) (auto simp: cspan elim: only_within_mono)
    have "hoare (\<lambda>s. timg s = ?mid) (copy_partitions cng src tgt m cbs copies st)
        (\<lambda>st s. timg s = overlay simg (copied_span c \<union> planned_span copies) img)
        (\<lambda>e s. only_within (copied_span c \<union> planned_span copies) img (timg s))" for st
      using Cons.prems by (intro hoare_conseq [OF Cons.IH])
        (auto simp: Un_commute intro: only_within_trans [OF only_within_overlay [OF order_refl]])
    with first show ?thesis using False by (simp add: st span hoare_bindE)
  qed
qed

lemma stage_writes_spec:
  "list_all (\<lambda>w. length (gw_bytes w) < 2 ^ 64) ws \<Longrightarrow>
   hoare (\<lambda>s. timg s = img) (stage_writes cng tgt cbs ws st)
     (\<lambda>st s. timg s = apply_writes (staged_writes ws) img)
     (\<lambda>e s. only_within (writes_span (staged_writes ws)) img (timg s))"
proof (induction ws arbitrary: img st)
  case Nil
  then show ?case by (cases st) (simp add: hoare_pre [OF hoare_returnE])
next
  case (Cons w ws)
  obtain p d where st: "st = (p, d)" by (cases st)
  show ?case
  proof (cases "gw_kind w = Primary_header_commit")
    case True
    then show ?thesis using Cons by (simp add: st)
  next
    case False
    let ?V = "span (unat (gw_offset w)) (length (gw_bytes w))" and ?W = "writes_span (staged_writes ws)"
    let ?mid = "img_update img (unat (gw_offset w)) (gw_bytes w)"
    let ?E = "\<lambda>e s. only_within (?V \<union> ?W) img (timg s)"
    have written: "hoare (\<lambda>s. timg s = img) (write_and_verify cng tgt (gw_offset w) (gw_bytes w) (Some d))
        (\<lambda>d s. timg s = ?mid) ?E" for d
      using Cons.prems by (intro hoare_conseq [OF write_and_verify_spec]) (auto elim: only_within_mono)
    have rest: "hoare (\<lambda>s. timg s = ?mid) (stage_writes cng tgt cbs ws st)
        (\<lambda>st s. timg s = apply_writes (staged_writes ws) ?mid) ?E" for st
      using Cons.prems by (intro hoare_conseq [OF Cons.IH])
        (auto intro: only_within_trans [OF only_within_update])
    show ?thesis
      unfolding st stage_writes.simps staged_writes_simps apply_writes_simps writes_span_simps
        if_not_P [OF False]
      by (rule hoare_bindE [OF hoare_same [OF progress_keeps only_within_refl]],
          rule hoare_bindE [OF hoare_same [OF cancellation_keeps only_within_refl]], rule hoare_if_inv,
          rule flush_and_cancel_spec [OF only_within_refl], rule hoare_bindE [OF written rest])
  qed
qed

text \<open>The copy and the staging of the table: nothing outside the planned ranges and writes changes.\<close>

lemma copy_and_stage_spec:
  assumes cbs: "ogr_callbacks request = cbs"
    and fits: "list_all (\<lambda>c. list_all range_fits (pc_source_ranges c)) (ogp_partition_copies plan)"
    and len: "list_all (\<lambda>w. length (gw_bytes w) < 2 ^ 64) (gwp_writes (ogp_target_gpt plan))"
  defines "W \<equiv> planned_span (ogp_partition_copies plan) \<union>
      writes_span (staged_writes (gwp_writes (ogp_target_gpt plan)))"
  shows "hoare (\<lambda>s. timg s = img) (copy_and_stage cng request src tgt plan digest progress)
    (\<lambda>st s. timg s = apply_writes (staged_writes (gwp_writes (ogp_target_gpt plan)))
       (overlay simg (planned_span (ogp_partition_copies plan)) img))
    (\<lambda>e s. only_within W img (timg s))"
proof -
  let ?P = "planned_span (ogp_partition_copies plan)" and ?ws = "staged_writes (gwp_writes (ogp_target_gpt plan))"
  let ?mid = "overlay simg ?P img"
  have mid: "only_within W img ?mid" by (simp add: W_def only_within_overlay)
  have fin: "only_within W img (apply_writes ?ws ?mid)"
    unfolding W_def by (rule only_within_trans [OF only_within_overlay [OF order_refl] apply_writes_within])
  have copies: "hoare (\<lambda>s. timg s = img) (copy_partitions cng src tgt m cbs (ogp_partition_copies plan) st)
      (\<lambda>st s. timg s = ?mid) (\<lambda>e s. only_within W img (timg s))" for m st
    by (rule hoare_conseq [OF copy_partitions_spec [OF fits]]) (auto simp: W_def elim: only_within_mono)
  have staged: "hoare (\<lambda>s. timg s = ?mid) (stage_writes cng tgt cbs (gwp_writes (ogp_target_gpt plan)) st)
      (\<lambda>st s. timg s = apply_writes ?ws ?mid) (\<lambda>e s. only_within W img (timg s))" for st
    by (rule hoare_conseq [OF stage_writes_spec [OF len]])
      (auto simp: W_def intro: only_within_trans [OF only_within_overlay [OF order_refl]])
  show ?thesis
    unfolding copy_and_stage_def cbs cancelled_status_def
    by (auto simp: split_beta intro!: hoare_bindE [OF copies] hoare_bindE [OF staged]
        hoare_bindE [OF hoare_same [OF progress_keeps mid]] hoare_bindE [OF hoare_same [OF flush_keeps mid]]
        hoare_bindE [OF hoare_same [OF flush_keeps fin]] hoare_bindE [OF hoare_same [OF cancellation_keeps fin]]
        hoare_pre [OF hoare_returnE] hoare_pre [OF hoare_failE] fin)
qed

lemma commit_gpt_spec:
  assumes cbs: "ogr_callbacks request = cbs"
    and commit: "find (\<lambda>w. gw_kind w = Primary_header_commit) (gwp_writes (ogp_target_gpt plan)) = Some commit"
    and len: "length (gw_bytes commit) < 2 ^ 64"
  shows "hoare (\<lambda>s. timg s = img) (commit_gpt cng request tgt plan st)
    (\<lambda>report s. timg s = img_update img (unat (gw_offset commit)) (gw_bytes commit) \<and>
       ogt_source_disk_guid report = disk_guid (ogp_source_gpt plan) \<and>
       ogt_target_disk_guid report = disk_guid (gwp_target_disk (ogp_target_gpt plan)))
    (\<lambda>e s. only_within (span (unat (gw_offset commit)) (length (gw_bytes commit))) img (timg s))"
proof -
  let ?new = "img_update img (unat (gw_offset commit)) (gw_bytes commit)"
  note fin = only_within_update [of "unat (gw_offset commit)" "gw_bytes commit" img]
  have finish: "keeps timg (liftE (digest_finish cng d))" for d
    using keeps_digest_finish [OF cng_keep] by (rule keeps_liftE)
  show ?thesis
    unfolding commit_gpt_def cbs commit option.case
    by (auto simp: split_beta intro!: hoare_bindE [OF hoare_same [OF progress_keeps only_within_refl]]
        hoare_bindE [OF write_and_verify_spec [OF len]] hoare_bindE [OF hoare_same [OF flush_keeps fin]]
        hoare_bindE [OF hoare_same [OF finish fin]] hoare_bindE [OF hoare_same [OF keeps_simple(3) fin]]
        hoare_bindE [OF hoare_same [OF progress_keeps fin]] hoare_pre [OF hoare_returnE])
qed

end

section \<open>The whole clone\<close>

text \<open>What a plan is, and the image its execution leaves on a target that held \<open>img\<close>.\<close>

definition gpt_plan_of ::
  "'s source_reader \<Rightarrow> 's target_writer \<Rightarrow> 's used_range_provider \<Rightarrow> ('s, guid) prog \<Rightarrow>
   offline_gpt_clone_plan \<Rightarrow> bool" where
  "gpt_plan_of source target provider next_guid plan \<longleftrightarrow>
     (\<exists>s t. parse_gpt source s = (Inr (ogp_source_gpt plan), t)) \<and>
     (\<exists>s t. make_gpt_write_plan (ogp_source_gpt plan) (tgt_size_bytes target) 512 next_guid s =
        (Inr (ogp_target_gpt plan), t)) \<and>
     list_all2 (copy_of_partition 512) (gpt_partitions (ogp_source_gpt plan)) (ogp_partition_copies plan) \<and>
     list_all2 (volume_copied source provider 512) (gpt_partitions (ogp_source_gpt plan))
       (ogp_partition_copies plan)"

definition cloned_image :: "image \<Rightarrow> offline_gpt_clone_plan \<Rightarrow> image \<Rightarrow> image" where
  "cloned_image simg plan img =
     apply_writes (gwp_writes (ogp_target_gpt plan)) (overlay simg (planned_span (ogp_partition_copies plan)) img)"

lemma erased_image_span [simp]: "i \<in> span 512 512 \<Longrightarrow> erased_image size_bytes img i = 0"
  by (simp add: erased_image_def overlay_def erased_span_def span_def)

lemma gpt_plan_of_writes:
  assumes "gpt_plan_of source target provider next_guid plan"
  obtains commit where "gwp_writes (ogp_target_gpt plan) = staged_writes (gwp_writes (ogp_target_gpt plan)) @ [commit]"
    "find (\<lambda>w. gw_kind w = Primary_header_commit) (gwp_writes (ogp_target_gpt plan)) = Some commit"
    "unat (gw_offset commit) = 512" "length (gw_bytes commit) = 512"
    "list_all (\<lambda>w. length (gw_bytes w) < 2 ^ 64) (gwp_writes (ogp_target_gpt plan))"
    "writes_span (staged_writes (gwp_writes (ogp_target_gpt plan))) \<inter> span 512 512 = {}"
    "planned_span (ogp_partition_copies plan) \<inter> span 512 512 = {}"
    "planned_span (ogp_partition_copies plan) \<inter> writes_span (gwp_writes (ogp_target_gpt plan)) = {}"
proof -
  let ?ws = "gwp_writes (ogp_target_gpt plan)"
  from assms obtain u v u' v' where parse: "parse_gpt source u = (Inr (ogp_source_gpt plan), v)"
    and make: "make_gpt_write_plan (ogp_source_gpt plan) (tgt_size_bytes target) 512 next_guid u' =
        (Inr (ogp_target_gpt plan), v')"
    and copies: "list_all2 (copy_of_partition 512) (gpt_partitions (ogp_source_gpt plan)) (ogp_partition_copies plan)"
    by (auto simp: gpt_plan_of_def)
  have wf: "gpt_wf (ogp_source_gpt plan)" using parse_gpt_result_wf [OF parse] by simp
  have sz: "gpt_sector_size (ogp_source_gpt plan) = 512"
    by (rule make_gpt_write_planE [OF wf make]) simp
  note off = planned_off_writes [OF wf make, unfolded sz, OF copies]
  obtain commit where c: "?ws = staged_writes ?ws @ [commit]"
    "find (\<lambda>w. gw_kind w = Primary_header_commit) ?ws = Some commit"
    "unat (gw_offset commit) = 512" "length (gw_bytes commit) = 512"
    "list_all (\<lambda>w. length (gw_bytes w) < 2 ^ 64) ?ws"
    "writes_span (staged_writes ?ws) \<inter> span 512 512 = {}"
    using plan_writes_commit [OF wf make] by auto
  have "commit \<in> set ?ws" by (subst c(1)) simp
  then have "span 512 512 \<subseteq> writes_span ?ws"
    using c(3,4) by (auto simp: writes_span_def)
  then show ?thesis using off c by (intro that) blast+
qed

lemma build_offline_gpt_clone_plan_of:
  assumes "tgt_logical_sector_size target = 512"
    and "build_offline_gpt_clone_plan source target provider next_guid s = (Inr plan, t)"
  shows "gpt_plan_of source target provider next_guid plan"
proof -
  note ok = build_offline_gpt_clone_plan_success [OF assms(2)]
  then obtain u v where make: "make_gpt_write_plan (ogp_source_gpt plan) (tgt_size_bytes target) 512 next_guid u =
      (Inr (ogp_target_gpt plan), v)"
    unfolding assms(1) by auto
  have "gpt_sector_size (ogp_source_gpt plan) = 512"
    by (rule make_gpt_write_planE [OF ok(1) make]) simp
  then show ?thesis using ok(3,4,5) make by (auto simp: gpt_plan_of_def)
qed

context clone_world
begin

lemma prepare_gpt_clone_spec:
  assumes cbs: "ogr_callbacks request = cbs" and sizes: "tgt_logical_sector_size tgt = 512"
    and provider: "\<forall>i g. keeps timg (provider i g)" and guids: "keeps timg next_guid"
  shows "hoare (\<lambda>s. timg s = img) (prepare_gpt_clone cng request src tgt provider next_guid)
    (\<lambda>(plan, digest, progress) s. timg s = img \<and> gpt_plan_of src tgt provider next_guid plan)
    (\<lambda>e s. timg s = img)"
proof -
  have build: "keeps timg (build_offline_gpt_clone_plan src tgt provider next_guid)"
    using provider by (intro keeps_build_offline_gpt_clone_plan guids source_keeps) simp
  have keep: "keeps timg (prepare_gpt_clone cng request src tgt provider next_guid)"
    unfolding prepare_gpt_clone_def cbs cancelled_status_def
    by (auto split: option.split intro!: keeps_bindE engine_keeps build)
  have "\<exists>u v. build_offline_gpt_clone_plan src tgt provider next_guid u = (Inr (fst r), v)"
    if "prepare_gpt_clone cng request src tgt provider next_guid s = (Inr r, t)" for s r t
    using that unfolding prepare_gpt_clone_def
    by (auto simp: bindE_eq_Inr cancelled_status_def split: if_splits option.splits) blast
  then have "gpt_plan_of src tgt provider next_guid (fst r)"
    if "prepare_gpt_clone cng request src tgt provider next_guid s = (Inr r, t)" for s r t
    using build_offline_gpt_clone_plan_of [OF sizes] that by blast
  then show ?thesis
    by (intro hoareI) (auto dest: keepsD [OF keep])
qed

text \<open>
  After the erasure: a failure leaves a disk without a table, or everything in place but the commit
  sector; a success leaves the cloned image.
\<close>

lemma clone_after_erasure_spec:
  fixes size_bytes sz :: u64 and img :: image
  assumes cbs: "ogr_callbacks request = cbs" and plan: "gpt_plan_of src tgt provider next_guid plan"
  defines "img' \<equiv> erased_image size_bytes img"
  shows "hoare (\<lambda>s. timg s = img')
    (bindE (copy_and_stage cng request src tgt plan digest progress) (commit_gpt cng request tgt plan))
    (\<lambda>report s. timg s = cloned_image simg plan img' \<and>
       ogt_source_disk_guid report = disk_guid (ogp_source_gpt plan) \<and>
       ogt_target_disk_guid report = disk_guid (gwp_target_disk (ogp_target_gpt plan)))
    (\<lambda>e s. no_gpt sz (timg s) \<or> only_within (span 512 512) (cloned_image simg plan img') (timg s))"
proof -
  let ?ws = "gwp_writes (ogp_target_gpt plan)" and ?P = "planned_span (ogp_partition_copies plan)"
  obtain commit where c: "?ws = staged_writes ?ws @ [commit]"
    "find (\<lambda>w. gw_kind w = Primary_header_commit) ?ws = Some commit"
    "unat (gw_offset commit) = 512" "length (gw_bytes commit) = 512"
    "list_all (\<lambda>w. length (gw_bytes w) < 2 ^ 64) ?ws" "writes_span (staged_writes ?ws) \<inter> span 512 512 = {}"
    "?P \<inter> span 512 512 = {}"
    using plan by (rule gpt_plan_of_writes)
  have fits: "list_all (\<lambda>c. list_all range_fits (pc_source_ranges c)) (ogp_partition_copies plan)"
    using plan by (auto simp: gpt_plan_of_def list_all2_conv_all_nth list_all_length copy_of_partition_def)
  let ?staged = "apply_writes (staged_writes ?ws) (overlay simg ?P img')"
  have cloned: "cloned_image simg plan img' = img_update ?staged 512 (gw_bytes commit)"
    unfolding cloned_image_def by (subst c(1)) (simp add: apply_writes_append c(3))
  have none: "no_gpt sz j" if "only_within (?P \<union> writes_span (staged_writes ?ws)) img' j" for j
  proof (rule no_gptI)
    fix i assume i: "i \<in> span 512 512"
    then have "i \<notin> ?P \<union> writes_span (staged_writes ?ws)" using c(6,7) by blast
    then show "j i = 0" using only_within_eq [OF that] i by (simp add: img'_def)
  qed
  have "only_within (span 512 512) (cloned_image simg plan img') j"
    if "only_within (span 512 512) ?staged j" for j
    using that c(4) by (auto simp: cloned only_within_def img_update_def span_def)
  note within = this
  let ?E = "\<lambda>e s. no_gpt sz (timg s) \<or> only_within (span 512 512) (cloned_image simg plan img') (timg s)"
  have staged: "hoare (\<lambda>s. timg s = img') (copy_and_stage cng request src tgt plan digest progress)
      (\<lambda>st s. timg s = ?staged) ?E"
    by (rule hoare_conseq [OF copy_and_stage_spec [OF cbs fits c(5)]]) (auto intro: none)
  have "length (gw_bytes commit) < 2 ^ 64" using c(4) by simp
  note commit = commit_gpt_spec [OF cbs c(2) this, of ?staged, unfolded c(3,4) cloned [symmetric]]
  show ?thesis
    by (rule hoare_bindE [OF staged], rule hoare_conseq [OF commit]) (auto intro: within)
qed

end

text \<open>
  The whole engine, from the first check to the report.  \<open>interrupted\<close> is what a failure can leave
  once the target has been written to: an incomplete erasure, a disk without a table, or the whole
  clone but for the commit sector.
\<close>

definition interrupted :: "image \<Rightarrow> u64 \<Rightarrow> offline_gpt_clone_plan \<Rightarrow> image \<Rightarrow> image \<Rightarrow> bool" where
  "interrupted simg sz plan img img' \<longleftrightarrow>
     only_within (erased_span sz) img img' \<or> no_gpt sz img' \<or>
     only_within (span 512 512) (cloned_image simg plan (erased_image sz img)) img'"

context clone_world
begin

lemma execute_offline_gpt_clone_spec:
  assumes cbs: "ogr_callbacks request = cbs"
    and provider: "\<forall>i g. keeps timg (provider i g)" and guids: "keeps timg next_guid"
  defines "sz \<equiv> tgt_size_bytes tgt"
  shows "hoare (\<lambda>s. timg s = img) (execute_offline_gpt_clone cng request src tgt provider next_guid)
    (\<lambda>report s. \<exists>plan. gpt_plan_of src tgt provider next_guid plan \<and>
       timg s = cloned_image simg plan (erased_image sz img) \<and>
       ogt_source_disk_guid report = disk_guid (ogp_source_gpt plan) \<and>
       ogt_target_disk_guid report = disk_guid (gwp_target_disk (ogp_target_gpt plan)))
    (\<lambda>e s. timg s = img \<or>
       (\<exists>plan. gpt_plan_of src tgt provider next_guid plan \<and> interrupted simg sz plan img (timg s)))"
    (is "hoare ?pre _ ?Q ?E")
proof -
  have fail: "hoare ?pre (failE e) ?Q ?E" for e
    by (rule hoare_pre [OF hoare_failE]) simp
  have checks: "hoare ?pre (of_result r) (\<lambda>u. ?pre) ?E" for r :: status
    by (rule hoare_conseq [OF hoare_keeps [OF keeps_simple(3), where P = "\<lambda>j. j = img"]]) auto
  show ?thesis
    unfolding execute_offline_gpt_clone_def
  proof (rule hoare_bindE [OF checks], intro hoare_if_inv fail)
    assume "\<not> (src_logical_sector_size src \<noteq> 512 \<or> tgt_logical_sector_size tgt \<noteq> 512)"
    then have sector: "tgt_logical_sector_size tgt = 512" by simp
    have prepare: "hoare ?pre (prepare_gpt_clone cng request src tgt provider next_guid)
        (\<lambda>(plan, digest, progress) s. timg s = img \<and> gpt_plan_of src tgt provider next_guid plan) ?E"
      by (rule hoare_conseq [OF prepare_gpt_clone_spec [OF cbs sector provider guids]]) auto
    have rest: "hoare (\<lambda>s. timg s = img \<and> gpt_plan_of src tgt provider next_guid plan)
        (bindE (invalidate_target cng tgt cbs) (\<lambda>u.
         bindE (copy_and_stage cng request src tgt plan digest progress) (commit_gpt cng request tgt plan)))
        ?Q ?E" for plan digest progress
    proof (subst conj_commute, rule hoare_pure)
      assume plan: "gpt_plan_of src tgt provider next_guid plan"
      have erase: "hoare ?pre (invalidate_target cng tgt cbs) (\<lambda>u s. timg s = erased_image sz img) ?E"
        unfolding erased_image_def sz_def
        by (rule hoare_conseq [OF invalidate_target_spec]) (use plan in \<open>auto simp: interrupted_def\<close>)
      from clone_after_erasure_spec [OF cbs plan, where size_bytes = sz and sz = sz and img = img
          and digest = digest and progress = progress] plan
      have "hoare (\<lambda>s. timg s = erased_image sz img)
          (bindE (copy_and_stage cng request src tgt plan digest progress) (commit_gpt cng request tgt plan)) ?Q ?E"
        unfolding interrupted_def by (rule_tac hoare_conseq) blast+
      then show "hoare ?pre (bindE (invalidate_target cng tgt cbs) (\<lambda>u.
         bindE (copy_and_stage cng request src tgt plan digest progress) (commit_gpt cng request tgt plan)))
        ?Q ?E"
        by (rule hoare_bindE [OF erase])
    qed
    show "hoare ?pre (bindE (prepare_gpt_clone cng request src tgt provider next_guid)
         (\<lambda>(plan, digest, progress).
       bindE (invalidate_target cng tgt (ogr_callbacks request)) (\<lambda>u.
       bindE (copy_and_stage cng request src tgt plan digest progress) (\<lambda>staged.
       commit_gpt cng request tgt plan staged)))) ?Q ?E"
      unfolding cbs using rest by (intro hoare_bindE [OF prepare]) (auto simp: split_beta)
  qed
qed

end

section \<open>What the cloned image holds\<close>

lemma cloned_image_planned:
  assumes "gpt_plan_of source target provider next_guid plan" "i \<in> planned_span (ogp_partition_copies plan)"
  shows "cloned_image simg plan img i = simg i"
proof -
  from gpt_plan_of_writes [OF assms(1)]
  have "planned_span (ogp_partition_copies plan) \<inter> writes_span (gwp_writes (ogp_target_gpt plan)) = {}"
    by metis
  then have "i \<notin> writes_span (gwp_writes (ogp_target_gpt plan))" using assms(2) by blast
  from only_within_eq [OF apply_writes_within this] assms(2) show ?thesis
    by (simp add: cloned_image_def overlay_def)
qed

lemma cloned_image_table:
  assumes "gpt_plan_of source target provider next_guid plan"
  shows "parse_gpt (memory_source_reader (tgt_size_bytes target) 512 (cloned_image simg plan img)) s =
    (Inr (gwp_target_disk (ogp_target_gpt plan)), s)"
proof -
  from assms obtain u v u' v' where parse: "parse_gpt source u = (Inr (ogp_source_gpt plan), v)"
    and make: "make_gpt_write_plan (ogp_source_gpt plan) (tgt_size_bytes target) 512 next_guid u' =
        (Inr (ogp_target_gpt plan), v')"
    by (auto simp: gpt_plan_of_def)
  from parse_gpt_result_wf [OF parse] parse_written_plan [OF _ make] show ?thesis
    by (simp add: cloned_image_def)
qed

end
