(* ===== verification/CloneLive.thy ===== *)
theory CloneLive
  imports CloneEngine
begin

text \<open>
  That the copying core gets to its end: with devices that do what they are asked inside their size,
  a hash provider that accepts data and nobody cancelling, every routine returns a value.
\<close>

section \<open>Programs that return a value\<close>

definition never_fails :: "('s, 'a) prog \<Rightarrow> ('a \<Rightarrow> bool) \<Rightarrow> bool" where
  "never_fails m Q \<longleftrightarrow> (\<forall>s. \<exists>x t. m s = (Inr x, t) \<and> Q x)"

lemma never_failsD: "never_fails m Q \<Longrightarrow> \<exists>x t. m s = (Inr x, t) \<and> Q x"
  by (simp add: never_fails_def)

lemma never_fails_bindE:
  assumes "never_fails m R" "\<And>x. R x \<Longrightarrow> never_fails (f x) Q"
  shows "never_fails (bindE m f) Q"
  unfolding never_fails_def
proof
  fix s
  from never_failsD [OF assms(1)] obtain x t where x: "m s = (Inr x, t)" "R x" by blast
  from never_failsD [OF assms(2) [OF x(2)]] obtain y u where "f x t = (Inr y, u)" "Q y" by blast
  with x(1) show "\<exists>x t. bindE m f s = (Inr x, t) \<and> Q x" by (simp add: bindE_Inr)
qed

lemma never_fails_returnE: "Q x \<Longrightarrow> never_fails (returnE x) Q"
  by (simp add: never_fails_def)

lemma never_fails_mono: "never_fails m Q \<Longrightarrow> (\<And>x. Q x \<Longrightarrow> R x) \<Longrightarrow> never_fails m R"
  unfolding never_fails_def by blast

lemma never_fails_liftE: "(\<And>s. Q (fst (m s))) \<Longrightarrow> never_fails (liftE m) Q"
  unfolding never_fails_def liftE_def by (metis prod.case prod.collapse)

section \<open>A world that works\<close>

text \<open>\<open>digest_room k d\<close>: the recorder is open, and what it has counted so far is at most \<open>k\<close>.\<close>

definition digest_room :: "nat \<Rightarrow> write_digest \<Rightarrow> bool" where
  "digest_room k d \<longleftrightarrow> \<not> wd_finished d \<and> wd_hash d \<noteq> 0 \<and>
     unat (wd_verified_payload_bytes d) \<le> k \<and> unat (wd_record_count d) \<le> k"

locale reliable_world = clone_world +
  assumes read_ok: "unat off + unat len \<le> unat (src_size_bytes src) \<Longrightarrow>
      never_fails (src_read src off len) (\<lambda>bs. length bs = unat len)"
    and write_ok: "unat off + length bs \<le> unat (tgt_size_bytes tgt) \<Longrightarrow>
      \<exists>t. tgt_write tgt off bs s = (Inr (), t) \<and> timg t = img_update (timg s) (unat off) bs"
    and read_back_ok: "unat off + unat len \<le> unat (tgt_size_bytes tgt) \<Longrightarrow>
      never_fails (tgt_read_back tgt off len) (\<lambda>bs. length bs = unat len)"
    and flush_ok: "never_fails (tgt_flush tgt) (\<lambda>u. True)"
    and create_ok: "never_fails (digest_create cng) (digest_room 0)"
    and hash_ok: "bcrypt_hash_data cng h bs s = (status, t) \<Longrightarrow> bcrypt_success status"
    and finish_ok: "bcrypt_finish_hash cng h n s = ((status, bs), t) \<Longrightarrow> bcrypt_success status"
    and not_cancelled: "\<not> fst (cancellation_requested cbs s)"
    and not_stopped: "fst (control_at_safe_boundary cbs b s) = Continue_operation"
begin

lemma hash_all_ok: "never_fails (hash_all cng h bs) (\<lambda>u. True)"
proof (induction bs rule: length_induct)
  case (1 bs)
  show ?case
  proof (cases "bs = []")
    case True
    then show ?thesis by (simp add: hash_all.simps never_fails_returnE)
  next
    case False
    then have "never_fails (hash_all cng h (drop (min (length bs) 4294967295) bs)) (\<lambda>u. True)"
      using 1 by simp
    moreover have "never_fails (liftE (bcrypt_hash_data cng h cs)) bcrypt_success" for cs
      by (rule never_fails_liftE) (metis hash_ok prod.collapse)
    ultimately show ?thesis
      using False unfolding hash_all.simps [of _ _ bs] Let_def
      by (auto intro!: never_fails_bindE [where R = bcrypt_success])
  qed
qed

lemma append_verified_write_ok:
  assumes "digest_room k d" "bs \<noteq> []" "length bs \<le> kMaximumVerifiedWriteBytes"
    "unat off + length bs < 2 ^ 64" "k + length bs < 2 ^ 64"
  shows "never_fails (append_verified_write cng d off bs)
    (\<lambda>d. digest_room (k + length bs) d \<and> wd_record_count d \<noteq> 0)"
proof -
  define n :: u64 where "n = of_nat (length bs)"
  have n: "unat n = length bs" unfolding n_def using assms(4) by (intro unat_of_nat_u64) simp
  have pos: "0 < length bs" using assms(2) by simp
  have d: "\<not> wd_finished d" "wd_hash d \<noteq> 0" "unat (wd_verified_payload_bytes d) \<le> k"
    "unat (wd_record_count d) \<le> k"
    using assms(1) by (auto simp: digest_room_def)
  have count: "wd_record_count d \<noteq> 0xFFFFFFFFFFFFFFFF"
  proof
    assume "wd_record_count d = 0xFFFFFFFFFFFFFFFF"
    then have "18446744073709551615 \<le> k" using d(4) by simp
    moreover have "k + length bs < 18446744073709551616" using assms(5) by simp
    ultimately show False using pos by linarith
  qed
  have next_count: "unat (wd_record_count d + 1) = unat (wd_record_count d) + 1"
  proof (subst unat_add_u64)
    have "k + 1 < 2 ^ 64" using assms(5) pos by linarith
    then show "unat (wd_record_count d) + unat (1 :: u64) < 2 ^ 64" using d(4) by simp
  qed simp
  then have used: "wd_record_count d + 1 \<noteq> 0" by (metis Suc_eq_plus1 nat.distinct(1) unat_0)
  have "unat (wd_verified_payload_bytes d + n) = unat (wd_verified_payload_bytes d) + length bs"
    using d(3) assms(5) by (subst unat_add_u64) (simp_all add: n)
  with next_count have room: "digest_room (k + length bs) (d\<lparr>wd_record_count := wd_record_count d + 1,
      wd_verified_payload_bytes := wd_verified_payload_bytes d + n\<rparr>)"
    using d add_mono [OF d(4) Suc_leI [OF pos]] by (simp add: digest_room_def)
  have small: "\<not> n > 0xFFFFFFFFFFFFFFFF - a" if "unat a + length bs < 2 ^ 64" for a
    using that unat_u64_max_minus [of a] by (simp add: word_less_nat_alt n)
  have components: "never_fails (digest_components cng d cs) (\<lambda>u. True)" for cs
    using d(1,2)
    by (induction cs) (auto simp: digest_update_def intro!: never_fails_bindE [OF hash_all_ok] never_fails_returnE)
  show ?thesis
    unfolding append_verified_write_def Let_def n_def [symmetric]
    using d(1) assms(2,3) count small [of off] small [of "wd_verified_payload_bytes d"] d(3) assms(4,5)
    by (auto simp del: digest_components.simps simp: used
        intro!: never_fails_bindE [OF components] never_fails_returnE room)
qed

lemma digest_finish_ok:
  assumes "digest_room k d" "wd_record_count d \<noteq> 0"
  shows "never_fails (liftE (digest_finish cng d)) (\<lambda>(finished, d). \<exists>bytes. finished = Inr bytes)"
proof (rule never_fails_liftE)
  fix s
  obtain status bytes t where "bcrypt_finish_hash cng (wd_hash d) 32 s = ((status, bytes), t)"
    by (metis surj_pair)
  then show "case fst (digest_finish cng d s) of (finished, d) \<Rightarrow> \<exists>bytes. finished = Inr bytes"
    using assms finish_ok by (simp add: digest_finish_def digest_room_def)
qed

lemma write_and_verify_ok:
  assumes bytes: "bs \<noteq> []" "length bs \<le> kMaximumVerifiedWriteBytes"
    and fits: "unat off + length bs \<le> unat (tgt_size_bytes tgt)"
  shows "never_fails (write_and_verify cng tgt off bs None) (\<lambda>d. True)"
    "digest_room k d \<Longrightarrow> k + length bs < 2 ^ 64 \<Longrightarrow>
     never_fails (write_and_verify cng tgt off bs (Some d))
       (\<lambda>d. \<exists>d'. d = Some d' \<and> digest_room (k + length bs) d' \<and> wd_record_count d' \<noteq> 0)"
proof -
  have n: "unat (of_nat (length bs) :: u64) = length bs"
    using bytes(2) by (intro unat_of_nat_u64) simp
  have checked: "\<exists>u. write_and_verify cng tgt off bs digest s =
      (case digest of None \<Rightarrow> returnE None
       | Some d \<Rightarrow> bindE (append_verified_write cng d off bs) (\<lambda>d. returnE (Some d))) u" for digest s
  proof -
    obtain t where t: "tgt_write tgt off bs s = (Inr (), t)" "timg t = img_update (timg s) (unat off) bs"
      using write_ok [OF fits] by blast
    obtain rb u where u: "tgt_read_back tgt off (of_nat (length bs)) t = (Inr rb, u)" "length rb = length bs"
      using never_failsD [OF read_back_ok [of off "of_nat (length bs)"], of t] fits by (auto simp: n)
    have "rb = bs" using target.read_back_honest [OF u(1)] u(2) t(2) by (simp add: n)
    with t u have "write_and_verify cng tgt off bs digest s =
      (case digest of None \<Rightarrow> returnE None
       | Some d \<Rightarrow> bindE (append_verified_write cng d off bs) (\<lambda>d. returnE (Some d))) u"
      by (simp add: write_and_verify_def bindE_Inr)
    then show ?thesis ..
  qed
  show "never_fails (write_and_verify cng tgt off bs None) (\<lambda>d. True)"
    unfolding never_fails_def using checked [of None] by (metis option.case(1) returnE_def)
  assume "digest_room k d" "k + length bs < 2 ^ 64"
  then have "never_fails (bindE (append_verified_write cng d off bs) (\<lambda>d. returnE (Some d)))
      (\<lambda>d. \<exists>d'. d = Some d' \<and> digest_room (k + length bs) d' \<and> wd_record_count d' \<noteq> 0)"
    using fits unat_u64_bound [of "tgt_size_bytes tgt"] bytes
    by (intro never_fails_bindE [OF append_verified_write_ok] never_fails_returnE) auto
  then show "never_fails (write_and_verify cng tgt off bs (Some d))
       (\<lambda>d. \<exists>d'. d = Some d' \<and> digest_room (k + length bs) d' \<and> wd_record_count d' \<noteq> 0)"
    unfolding never_fails_def using checked [of "Some d"] by (metis option.case(2))
qed

lemma publish_progress_ok: "never_fails (publish_progress cbs p st i c) (\<lambda>p. True)"
  unfolding publish_progress_def Let_def
  by (intro never_fails_bindE [OF never_fails_liftE] never_fails_returnE) simp_all

lemma cancellation_ok: "never_fails (liftE (cancellation_requested cbs)) (\<lambda>c. \<not> c)"
  using not_cancelled by (intro never_fails_liftE)

lemma after_chunk_ok:
  "never_fails (after_chunk tgt i cbs chunk digest cs)
     (\<lambda>cs'. cs_digest cs' = (case digest of None \<Rightarrow> cs_digest cs | Some d \<Rightarrow> d))"
proof -
  have stop: "never_fails (liftE (control_at_safe_boundary cbs b)) (\<lambda>d. d = Continue_operation)" for b
    using not_stopped by (intro never_fails_liftE)
  show ?thesis
    unfolding after_chunk_def Let_def
    by (rule never_fails_bindE [OF publish_progress_ok], rule never_fails_bindE [OF stop])
      (simp add: never_fails_returnE)
qed

text \<open>What a range must be for its copy to succeed: inside both disks.\<close>

definition copyable :: "byte_range \<Rightarrow> bool" where
  "copyable r \<longleftrightarrow> range_span r \<subseteq> {0..<min (unat (src_size_bytes src)) (unat (tgt_size_bytes tgt))}"

lemma copyable_bound:
  assumes "copyable r" "range_length r \<noteq> 0"
  shows "unat (range_offset r) + unat (range_length r) \<le>
    min (unat (src_size_bytes src)) (unat (tgt_size_bytes tgt))"
proof -
  have "unat (range_offset r) + unat (range_length r) - 1 \<in> range_span r"
    using assms(2) by (auto simp: range_span_def span_def simp flip: unat_gt_0)
  with assms(1) have "unat (range_offset r) + unat (range_length r) - 1 <
      min (unat (src_size_bytes src)) (unat (tgt_size_bytes tgt))"
    by (auto simp: copyable_def)
  then show ?thesis by linarith
qed

lemma copy_range_from_ok:
  assumes m: "0 < unat m" "unat m \<le> kMaximumVerifiedWriteBytes" and r: "copyable r"
  shows "position \<le> range_length r \<Longrightarrow> k + (unat (range_length r) - unat position) < 2 ^ 64 \<Longrightarrow>
    digest_room k (cs_digest cs) \<Longrightarrow>
    never_fails (copy_range_from cng src tgt r m i cbs position cs)
      (\<lambda>cs'. digest_room (k + (unat (range_length r) - unat position)) (cs_digest cs'))"
proof (induction "unat (range_length r) - unat position" arbitrary: position cs k rule: less_induct)
  case less
  have fits: "range_fits r"
    using copyable_bound [OF r] unat_u64_bound [of "src_size_bytes src"] unat_u64_bound [of "range_offset r"]
    by (cases "range_length r = 0") (auto simp: range_fits_def)
  have ple: "unat position \<le> unat (range_length r)" using less.prems(1) by (simp add: word_le_nat_alt)
  show ?case
  proof (cases "position < range_length r")
    case False
    then have "unat position = unat (range_length r)" using ple by (simp add: word_less_nat_alt)
    then show ?thesis
      using False less.prems(3)
      by (simp add: copy_range_from.simps [of _ _ _ _ _ _ _ position] never_fails_returnE)
  next
    case True
    define chunk where "chunk = min (range_length r - position) m"
    have chunk: "chunk \<le> range_length r - position" by (simp add: chunk_def)
    note b = chunk_bounds [OF fits True chunk]
    have pos: "0 < unat chunk"
      using True m(1) by (auto simp: chunk_def min_def unat_gt_0 word_less_nat_alt unat_sub_u64 less.prems(1))
    have chunk_m: "unat chunk \<le> kMaximumVerifiedWriteBytes"
      using unat_min_le(2) [of "range_length r - position" m] m(2) by (simp add: chunk_def)
    let ?o = "range_offset r + position" and ?k = "k + unat chunk"
    have nz: "range_length r \<noteq> 0" using True by auto
    have inside: "unat ?o + unat chunk \<le> unat (src_size_bytes src)" "unat ?o + unat chunk \<le> unat (tgt_size_bytes tgt)"
      using copyable_bound [OF r nz] b by simp_all
    have rest: "never_fails (copy_range_from cng src tgt r m i cbs (position + chunk) cs')
        (\<lambda>cs'. digest_room (k + (unat (range_length r) - unat position)) (cs_digest cs'))"
      if room: "digest_room ?k (cs_digest cs')" for cs'
    proof (cases "position + chunk = range_length r")
      case True
      then show ?thesis
        using room b pos by (simp add: copy_range_from.simps [of _ _ _ _ _ _ _ "range_length r"]
            never_fails_returnE)
    next
      case False
      then have lt: "unat (position + chunk) < unat (range_length r)"
        using b by (metis le_neq_implies_less word_unat_eq_iff)
      have "never_fails (copy_range_from cng src tgt r m i cbs (position + chunk) cs')
          (\<lambda>cs'. digest_room (?k + (unat (range_length r) - unat (position + chunk))) (cs_digest cs'))"
        using less.prems(2) lt b pos room by (intro less.hyps) (simp_all add: word_le_nat_alt)
      then show ?thesis
        by (rule never_fails_mono) (use lt b pos in auto)
    qed
    have chunk_step: "never_fails (bindE (write_and_verify cng tgt ?o bytes (Some (cs_digest cs)))
        (\<lambda>digest. bindE (after_chunk tgt i cbs chunk digest cs)
          (copy_range_from cng src tgt r m i cbs (position + chunk))))
        (\<lambda>cs'. digest_room (k + (unat (range_length r) - unat position)) (cs_digest cs'))"
      if len: "length bytes = unat chunk" for bytes
    proof (rule never_fails_bindE [OF write_and_verify_ok(2)])
      show "bytes \<noteq> []" using len pos by auto
      show "length bytes \<le> kMaximumVerifiedWriteBytes" using len chunk_m by simp
      show "unat ?o + length bytes \<le> unat (tgt_size_bytes tgt)" using len inside by simp
      show "digest_room k (cs_digest cs)" by (rule less.prems(3))
      show "k + length bytes < 2 ^ 64" using len b(2) less.prems(2) by simp
    next
      fix d
      assume "\<exists>d'. d = Some d' \<and> digest_room (k + length bytes) d' \<and> wd_record_count d' \<noteq> 0"
      then show "never_fails (bindE (after_chunk tgt i cbs chunk d cs)
          (copy_range_from cng src tgt r m i cbs (position + chunk)))
        (\<lambda>cs'. digest_room (k + (unat (range_length r) - unat position)) (cs_digest cs'))"
        using len by (intro never_fails_bindE [OF after_chunk_ok] rest) auto
    qed
    show ?thesis
      unfolding copy_range_from.simps [of _ _ _ _ _ _ _ position] Let_def chunk_def [symmetric]
        if_not_P [OF True [THEN not_not [THEN iffD2]]]
      by (rule never_fails_bindE [OF cancellation_ok], simp,
          rule never_fails_bindE [OF read_ok [OF inside(1)]], simp add: chunk_step)
  qed
qed

lemma copy_ranges_ok:
  assumes m: "0 < unat m" "unat m \<le> kMaximumVerifiedWriteBytes"
  shows "list_all copyable rs \<Longrightarrow> k + (\<Sum>r\<leftarrow>rs. unat (range_length r)) < 2 ^ 64 \<Longrightarrow>
    digest_room k (cs_digest cs) \<Longrightarrow>
    never_fails (copy_ranges cng src tgt m i cbs rs cs)
      (\<lambda>cs'. digest_room (k + (\<Sum>r\<leftarrow>rs. unat (range_length r))) (cs_digest cs'))"
proof (induction rs arbitrary: k cs)
  case Nil
  then show ?case by (simp add: never_fails_returnE)
next
  case (Cons r rs)
  have "never_fails (copy_range_from cng src tgt r m i cbs 0 cs)
      (\<lambda>cs'. digest_room (k + unat (range_length r)) (cs_digest cs'))"
    using copy_range_from_ok [OF m, of r 0 k cs] Cons.prems by simp
  then show ?case
    using Cons.IH [of "k + unat (range_length r)"] Cons.prems
    by (auto simp: add.assoc intro: never_fails_bindE)
qed

lemma invalidate_target_ok:
  assumes "2 * kTargetMetadataInvalidationBytes \<le> unat (tgt_size_bytes tgt)"
  shows "never_fails (invalidate_target cng tgt cbs) (\<lambda>u. True)"
proof -
  have tail: "unat (tgt_size_bytes tgt - 1048576) = unat (tgt_size_bytes tgt) - 1048576"
    using assms by (subst unat_sub_u64) (simp_all add: word_le_nat_alt)
  have offs: "never_fails (invalidate_offsets cng tgt cbs offs) (\<lambda>u. True)"
    if "list_all (\<lambda>k. unat k + kTargetMetadataInvalidationBytes \<le> unat (tgt_size_bytes tgt)) offs" for offs
    using that
  proof (induction offs)
    case Nil
    then show ?case by (simp add: never_fails_returnE)
  next
    case (Cons k offs)
    then have "never_fails (write_and_verify cng tgt k (replicate kTargetMetadataInvalidationBytes 0) None) (\<lambda>d. True)"
      by (intro write_and_verify_ok(1)) simp_all
    with Cons show ?case
      by (auto intro!: never_fails_bindE [OF cancellation_ok] intro: never_fails_bindE)
  qed
  show ?thesis
    unfolding invalidate_target_def
    using assms by (intro never_fails_bindE [OF offs] flush_ok) (simp add: tail)
qed

end

lemma sum_list_concat_map:
  fixes f :: "'b \<Rightarrow> nat"
  shows "(\<Sum>x\<leftarrow>concat (map g cs). f x) = (\<Sum>c\<leftarrow>cs. \<Sum>x\<leftarrow>g c. f x)"
  by (induction cs) simp_all

lemma total_copy_bytes_sum:
  "unat acc + (\<Sum>r\<leftarrow>rs. unat (range_length r)) < 2 ^ 64 \<Longrightarrow> \<exists>n. total_copy_bytes acc rs = Some n"
proof (induction rs arbitrary: acc)
  case (Cons r rs)
  have "unat acc + unat (range_length r) < 2 ^ 64" using Cons.prems by simp
  with Cons.IH [of "acc + range_length r"] Cons.prems show ?case
    by (simp add: checked_add_unat unat_add_u64)
qed simp

section \<open>The devices in memory work\<close>

lemma memory_target_write:
  "unat off + length bs \<le> unat tsz \<Longrightarrow>
   tgt_write (memory_target_writer tsz sector 0) off bs s =
     (Inr (), s\<lparr>mw_storage := img_update (mw_storage s) (unat off) bs,
        mw_write_count := mw_write_count s + 1, mw_last_write_offset := off\<rparr>)"
  using unat_u64_bound [of tsz] unat_of_nat_u64 [of "length bs"]
  by (auto simp: memory_target_writer_def word_less_nat_alt word_le_nat_alt unat_sub_u64 returnE_def)

lemma memory_target_read_back:
  "unat off + unat len \<le> unat tsz \<Longrightarrow>
   tgt_read_back (memory_target_writer tsz sector 0) off len s =
     (Inr (img_bytes (mw_storage s) (unat off) (unat len)), s)"
  by (auto simp: memory_target_writer_def word_less_nat_alt word_le_nat_alt unat_sub_u64 returnE_def Let_def)

interpretation reliable_memory: reliable_world "memory_source_reader sz sector simg" simg
    "memory_target_writer tsz tsector 0" mw_storage clone_memory_cng no_callbacks
proof unfold_locales
  show "never_fails (src_read (memory_source_reader sz sector simg) off len) (\<lambda>bs. length bs = unat len)"
    if "unat off + unat len \<le> unat (src_size_bytes (memory_source_reader sz sector simg))" for off len
    using that by (simp add: memory_source_read never_fails_returnE)
next
  show "never_fails (digest_create clone_memory_cng) (digest_room 0)"
    by (auto simp: never_fails_def digest_create_def memory_cng_def bindE_def liftE_def bcrypt_success_def
        returnE_def digest_room_def)
  show "never_fails (tgt_flush (memory_target_writer tsz tsector 0)) (\<lambda>u. True)"
    by (simp add: never_fails_def memory_target_writer_def returnE_def)
qed (auto simp: memory_target_write memory_target_read_back never_fails_def memory_cng_def bcrypt_success_def no_callbacks_def cancellation_requested_def
    control_at_safe_boundary_def returnE_def)

end
