(* ===== verification/OfflineGptCloneRuns.thy ===== *)
theory OfflineGptCloneRuns
  imports OfflineGptCloneCorrect CloneLive
begin

text \<open>
  The runs of a GPT clone: with working devices and an accepted request the clone completes; what a
  completed and what a failed clone have left on the target; and a clone of a concrete disk.
\<close>

section \<open>The counters have room for every clone\<close>

definition planned_bytes :: "planned_partition_copy list \<Rightarrow> nat" where
  "planned_bytes copies = (\<Sum>c\<leftarrow>copies. \<Sum>r\<leftarrow>pc_source_ranges c. unat (range_length r))"

definition write_bytes :: "gpt_metadata_write list \<Rightarrow> nat" where
  "write_bytes ws = (\<Sum>w\<leftarrow>ws. length (gw_bytes w))"

lemma finite_copied_span: "finite (copied_span c)"
  by (auto simp: copied_span_def ranges_span_def range_span_def)

lemma partition_span_disjoint:
  assumes "lba_disjoint p q" shows "partition_span sector p \<inter> partition_span sector q = {}"
proof -
  have "(unat (last_lba p) + 1) * unat sector \<le> unat (first_lba q) * unat sector \<or>
      (unat (last_lba q) + 1) * unat sector \<le> unat (first_lba p) * unat sector"
    using assms by (intro disj_forward [OF _ mult_le_mono1 mult_le_mono1])
      (auto simp: lba_disjoint_def word_less_nat_alt)
  then show ?thesis unfolding partition_span_def by auto
qed

lemma planned_bytes_card:
  assumes "list_all2 (copy_of_partition sector) ps cs" "sorted_wrt lba_disjoint ps"
  shows "planned_bytes cs = card (planned_span cs)"
proof -
  have "sorted_wrt (\<lambda>c c'. copied_span c \<inter> copied_span c' = {}) cs"
    unfolding sorted_wrt_iff_nth_less
  proof (intro allI impI)
    fix i j assume ij: "i < j" "j < length cs"
    then have "lba_disjoint (ps ! i) (ps ! j)" "copied_span (cs ! i) \<subseteq> partition_span sector (ps ! i)"
      "copied_span (cs ! j) \<subseteq> partition_span sector (ps ! j)"
      using assms by (auto simp: sorted_wrt_iff_nth_less list_all2_conv_all_nth copy_of_partition_def)
    then show "copied_span (cs ! i) \<inter> copied_span (cs ! j) = {}"
      using partition_span_disjoint by blast
  qed
  from card_disjoint_UN [OF this finite_copied_span]
  have "card (planned_span cs) = (\<Sum>c\<leftarrow>cs. card (copied_span c))" by (simp add: planned_span_def)
  also have "\<dots> = planned_bytes cs"
    using assms(1) by (induction ps cs rule: list_all2_induct) (auto simp: planned_bytes_def copy_of_partition_def)
  finally show ?thesis by simp
qed

lemma write_bytes_card: "sorted_wrt write_disjoint ws \<Longrightarrow> write_bytes ws = card (writes_span ws)"
  using card_disjoint_UN [of "\<lambda>w. span (unat (gw_offset w)) (length (gw_bytes w))" ws]
    sorted_wrt_mono_rel [of ws write_disjoint] write_disjoint_span
  by (simp add: writes_span_def write_bytes_def)

lemma planned_bytes_concat:
  "planned_bytes copies = (\<Sum>r\<leftarrow>concat (map pc_source_ranges copies). unat (range_length r))"
  unfolding planned_bytes_def by (rule sum_list_concat_map [symmetric])

lemma write_list_sizes:
  assumes "layout_ok d sectors"
  shows "list_all (\<lambda>w. gw_bytes w \<noteq> [] \<and> length (gw_bytes w) \<le> kMaximumVerifiedWriteBytes)
    (gpt_write_list d sectors)"
proof -
  let ?ok = "\<lambda>(k :: gpt_metadata_kind, off :: nat, bs). bs \<noteq> [] \<and> length bs \<le> kMaximumVerifiedWriteBytes"
  have frame: "gpt_frame_wf d" using assms by (simp add: layout_ok_def)
  let ?sz = "unat (gpt_sector_size d)" and ?n = "unat (partition_entry_count d)"
  have sz: "?sz = 512 \<or> ?sz = 4096" and n: "0 < ?n" "?n \<le> 16384"
    using frame by (auto simp: gpt_frame_wf_def word_le_nat_alt unat_gt_0)
  have hdr: "length (build_header d lba blba elba crc) = ?sz" "length (build_protective_mbr d) = ?sz" for lba blba elba crc
    by (simp_all add: build_header_def build_protective_mbr_def Let_def)
  have "entry_span d * ?sz \<le> ?n * 128 + (?sz - 1)" "?sz \<le> entry_span d * ?sz"
    using sz n by (auto simp: entry_span_def)
  then have "0 < length (padded_built d)" "length (padded_built d) \<le> kMaximumVerifiedWriteBytes"
    using sz n by (auto simp: length_padded_built [OF frame])
  then have "list_all ?ok (map (\<lambda>w. (gw_kind w, unat (gw_offset w), gw_bytes w)) (gpt_write_list d sectors))"
    unfolding write_list_contents [OF assms] using hdr sz by (auto simp flip: length_greater_0_conv)
  then show ?thesis by (simp add: list_all_iff)
qed

text \<open>What a plan of a source and a target needs to be executed to the end.\<close>

definition executable_plan :: "'s source_reader \<Rightarrow> 's target_writer \<Rightarrow> offline_gpt_clone_plan \<Rightarrow> bool" where
  "executable_plan source target plan \<longleftrightarrow>
     planned_bytes (ogp_partition_copies plan) + write_bytes (gwp_writes (ogp_target_gpt plan)) < 2 ^ 64 \<and>
     planned_span (ogp_partition_copies plan) \<subseteq> {0..<min (unat (src_size_bytes source)) (unat (tgt_size_bytes target))} \<and>
     list_all (\<lambda>w. gw_bytes w \<noteq> [] \<and> length (gw_bytes w) \<le> kMaximumVerifiedWriteBytes \<and>
       unat (gw_offset w) + length (gw_bytes w) \<le> unat (tgt_size_bytes target)) (gwp_writes (ogp_target_gpt plan))"

lemma gpt_plan_executable:
  assumes "gpt_plan_of source target provider next_guid plan"
  shows "executable_plan source target plan"
proof -
  let ?cs = "ogp_partition_copies plan" and ?ws = "gwp_writes (ogp_target_gpt plan)"
  let ?d = "ogp_source_gpt plan" and ?t = "gwp_target_disk (ogp_target_gpt plan)"
  let ?n = "unat (tgt_size_bytes target)"
  from assms obtain u v u' v' where parse: "parse_gpt source u = (Inr ?d, v)"
    and make: "make_gpt_write_plan ?d (tgt_size_bytes target) 512 next_guid u' = (Inr (ogp_target_gpt plan), v')"
    and copies: "list_all2 (copy_of_partition 512) (gpt_partitions ?d) ?cs"
    by (auto simp: gpt_plan_of_def)
  have wf: "gpt_wf ?d" and size: "unat (gpt_sector_count ?d) * unat (gpt_sector_size ?d) = unat (src_size_bytes source)"
    using parse_gpt_result_wf [OF parse] by auto
  from make_gpt_write_planE [OF wf make] obtain dg ps where a: "512 = gpt_sector_size ?d"
    "tgt_size_bytes target mod ucast (512 :: u32) = 0"
    "unat (gpt_sector_count ?d) * unat (512 :: u32) \<le> ?n"
    "?t = clone_target ?d (tgt_size_bytes target) 512 dg ps"
    "?ws = gpt_write_list ?t (of_nat (entry_span ?d))" .
  have t: "gpt_sector_size ?t = 512" "unat (gpt_sector_count ?t) * 512 = ?n"
    using a clone_layout(1) [OF wf a(1-3)] by (simp_all add: clone_target_def Let_def)
  note lay = make_gpt_write_plan_layout(1) [OF wf make]
  have dis: "sorted_wrt write_disjoint ?ws"
    and inside: "list_all (\<lambda>w. unat (gw_offset w) + length (gw_bytes w) \<le> ?n) ?ws"
    unfolding a(5) using write_list_extents(1,2) [OF lay] by (auto simp: t)
  have "planned_span ?cs \<subseteq> {0..<unat (src_size_bytes source)}"
  proof
    fix i assume "i \<in> planned_span ?cs"
    then obtain c where "c \<in> set ?cs" "i \<in> copied_span c" by (auto simp: planned_span_def)
    with copies obtain p where p: "p \<in> set (gpt_partitions ?d)" "i \<in> partition_span 512 p"
      by (auto simp: list_all2_conv_all_nth in_set_conv_nth copy_of_partition_def dest!: spec)
    have "unat (last_lba p) + 1 \<le> unat (gpt_sector_count ?d)"
      using wf p(1) by (auto simp: gpt_wf_def gpt_table_wf_def gpt_frame_wf_def list_all_iff partition_wf_def
          word_le_nat_alt)
    from mult_le_mono1 [OF this, of 512] p(2) size a(1) show "i \<in> {0..<unat (src_size_bytes source)}"
      by (simp add: partition_span_def)
  qed
  then have planned: "planned_span ?cs \<subseteq> {0..<min (unat (src_size_bytes source)) ?n}"
    using size a(1,3) by fastforce
  have "planned_bytes ?cs = card (planned_span ?cs)" "write_bytes ?ws = card (writes_span ?ws)"
    using planned_bytes_card [OF copies] write_bytes_card [OF dis] wf by (simp_all add: gpt_wf_def gpt_table_wf_def)
  moreover have "planned_span ?cs \<inter> writes_span ?ws = {}"
    using planned_off_writes [OF wf make] copies a(1) by simp
  moreover have "planned_span ?cs \<union> writes_span ?ws \<subseteq> {0..<?n}"
    using planned inside by (fastforce simp: writes_span_def span_def list_all_iff)
  ultimately have "planned_bytes ?cs + write_bytes ?ws \<le> card {0..<?n}"
    by (metis card_Un_disjoint card_mono finite_Un finite_atLeastLessThan finite_subset)
  then have room: "planned_bytes ?cs + write_bytes ?ws < 2 ^ 64"
    using unat_u64_bound [of "tgt_size_bytes target"] by simp
  have "list_all (\<lambda>w. gw_bytes w \<noteq> [] \<and> length (gw_bytes w) \<le> kMaximumVerifiedWriteBytes) ?ws"
    using write_list_sizes [OF lay] unfolding a(5) .
  then show ?thesis using planned room inside by (simp add: executable_plan_def list_all_iff)
qed

section \<open>A clone on working devices completes\<close>

definition gpt_request_ok :: "'s offline_gpt_clone_request \<Rightarrow> 's source_reader \<Rightarrow> 's target_writer \<Rightarrow> bool" where
  "gpt_request_ok request source target \<longleftrightarrow>
     validate_clone_identities (ogr_expected_source request) (ogr_observed_source request)
       (ogr_expected_target request) (ogr_observed_target request) (ogr_confirmation request) True =
       success_status \<and>
     0 < unat (ogr_maximum_chunk_bytes request) \<and>
     unat (ogr_maximum_chunk_bytes request) \<le> 16 * 1024 * 1024 \<and>
     id_size_bytes (ogr_observed_source request) = src_size_bytes source \<and>
     id_size_bytes (ogr_observed_target request) = tgt_size_bytes target \<and>
     id_logical_sector_size (ogr_observed_source request) = 512 \<and>
     id_logical_sector_size (ogr_observed_target request) = 512 \<and>
     src_logical_sector_size source = 512 \<and> tgt_logical_sector_size target = 512 \<and>
     2 * kTargetMetadataInvalidationBytes \<le> unat (tgt_size_bytes target)"

lemma digest_room_mono: "digest_room k d \<Longrightarrow> k \<le> k' \<Longrightarrow> digest_room k' d"
  by (auto simp: digest_room_def)

context reliable_world
begin

lemma copy_partitions_ok:
  assumes m: "0 < unat m" "unat m \<le> kMaximumVerifiedWriteBytes"
  shows "planned_span copies \<subseteq> {0..<min (unat (src_size_bytes src)) (unat (tgt_size_bytes tgt))} \<Longrightarrow>
    k + planned_bytes copies < 2 ^ 64 \<Longrightarrow> digest_room k (cs_digest (fst st)) \<Longrightarrow>
    never_fails (copy_partitions cng src tgt m cbs copies st)
      (\<lambda>st. digest_room (k + planned_bytes copies) (cs_digest (fst st)))"
proof (induction copies arbitrary: k st)
  case Nil
  then show ?case by (simp add: never_fails_returnE planned_bytes_def)
next
  case (Cons c copies)
  obtain cs n z where st: "st = (cs, n, z)" by (cases st)
  let ?n = "\<Sum>r\<leftarrow>pc_source_ranges c. unat (range_length r)"
  have bytes: "planned_bytes (c # copies) = ?n + planned_bytes copies" by (simp add: planned_bytes_def)
  have span: "planned_span (c # copies) = copied_span c \<union> planned_span copies" by (simp add: planned_span_def)
  have rest: "never_fails (copy_partitions cng src tgt m cbs copies st')
      (\<lambda>st. digest_room (k + planned_bytes (c # copies)) (cs_digest (fst st)))"
    if "digest_room (k + ?n) (cs_digest (fst st'))" for st'
    using Cons.IH [of "k + ?n" st'] Cons.prems(1,2) that by (simp add: bytes span add.assoc)
  show ?case
  proof (cases "pc_mode c = Microsoft_reserved_recreate")
    case True
    then show ?thesis using rest Cons.prems(3) by (simp add: st digest_room_mono)
  next
    case False
    then have "list_all copyable (pc_source_ranges c)"
      using Cons.prems(1) by (auto simp: span copied_span_def ranges_span_def list_all_iff copyable_def)
    then have "never_fails (copy_ranges cng src tgt m (pc_entry_index c) cbs (pc_source_ranges c) cs)
        (\<lambda>cs'. digest_room (k + ?n) (cs_digest cs'))"
      using Cons.prems(2,3) by (intro copy_ranges_ok m) (simp_all add: bytes st)
    then show ?thesis using False rest by (auto simp: st intro: never_fails_bindE)
  qed
qed

lemma stage_writes_ok:
  "list_all (\<lambda>w. gw_bytes w \<noteq> [] \<and> length (gw_bytes w) \<le> kMaximumVerifiedWriteBytes \<and>
       unat (gw_offset w) + length (gw_bytes w) \<le> unat (tgt_size_bytes tgt)) ws \<Longrightarrow>
   k + write_bytes (staged_writes ws) < 2 ^ 64 \<Longrightarrow> digest_room k (snd st) \<Longrightarrow>
   never_fails (stage_writes cng tgt cbs ws st) (\<lambda>st. digest_room (k + write_bytes (staged_writes ws)) (snd st))"
proof (induction ws arbitrary: k st)
  case Nil
  then show ?case by (cases st) (simp add: never_fails_returnE write_bytes_def)
next
  case (Cons w ws)
  obtain p d where st: "st = (p, d)" by (cases st)
  show ?case
  proof (cases "gw_kind w = Primary_header_commit")
    case True
    then show ?thesis using Cons by (simp add: st)
  next
    case False
    then have bytes: "write_bytes (staged_writes (w # ws)) = length (gw_bytes w) + write_bytes (staged_writes ws)"
      by (simp add: write_bytes_def)
    have written: "never_fails (write_and_verify cng tgt (gw_offset w) (gw_bytes w) (Some d))
       (\<lambda>d. \<exists>d'. d = Some d' \<and> digest_room (k + length (gw_bytes w)) d' \<and> wd_record_count d' \<noteq> 0)"
      using Cons.prems(1,3) Cons.prems(2) [unfolded bytes] by (intro write_and_verify_ok(2)) (simp_all add: st)
    have rest: "never_fails (stage_writes cng tgt cbs ws (q, d'))
        (\<lambda>st. digest_room (k + write_bytes (staged_writes (w # ws))) (snd st))"
      if "digest_room (k + length (gw_bytes w)) d'" for q d'
      using Cons.IH [of "k + length (gw_bytes w)" "(q, d')"] Cons.prems(1) Cons.prems(2) [unfolded bytes] that
      unfolding bytes by (simp add: add.assoc)
    show ?thesis
      unfolding st stage_writes.simps if_not_P [OF False]
      by (auto simp del: staged_writes_simps intro!: never_fails_bindE [OF publish_progress_ok]
          never_fails_bindE [OF cancellation_ok] never_fails_bindE [OF written] rest)
  qed
qed

text \<open>
  Every request that passes the checks, over disks for which a plan can be made, is carried out to
  its report.
\<close>

lemma execute_offline_gpt_clone_ok:
  assumes request: "gpt_request_ok request src tgt" and cbs: "ogr_callbacks request = cbs"
    and plans: "never_fails (build_offline_gpt_clone_plan src tgt provider next_guid) (\<lambda>plan. True)"
  shows "never_fails (execute_offline_gpt_clone cng request src tgt provider next_guid)
    (\<lambda>report. ogt_read_back_verified report \<and> ogt_primary_gpt_committed report)"
proof -
  note req = request [unfolded gpt_request_ok_def]
  let ?m = "ogr_maximum_chunk_bytes request"
  have m: "0 < unat ?m" "unat ?m \<le> kMaximumVerifiedWriteBytes" using req by simp_all
  have commit: "never_fails (commit_gpt cng request tgt plan (st, p, d))
      (\<lambda>report. ogt_read_back_verified report \<and> ogt_primary_gpt_committed report)"
    if commit: "find (\<lambda>w. gw_kind w = Primary_header_commit) (gwp_writes (ogp_target_gpt plan)) = Some c"
      and c: "gw_bytes c \<noteq> []" "length (gw_bytes c) \<le> kMaximumVerifiedWriteBytes"
        "unat (gw_offset c) + length (gw_bytes c) \<le> unat (tgt_size_bytes tgt)"
      and room: "digest_room k d" "k + length (gw_bytes c) < 2 ^ 64" for plan st p d c k
  proof -
    obtain cs n z where st: "st = (cs, n, z)" by (cases st)
    have finish: "never_fails (liftE (digest_finish cng d)) (\<lambda>(finished, d). \<exists>bytes. finished = Inr bytes)"
      if "digest_room j d \<and> wd_record_count d \<noteq> 0" for j d
      using that by (intro digest_finish_ok) auto
    show ?thesis
      unfolding commit_gpt_def st commit cbs
      by (simp, rule never_fails_bindE [OF publish_progress_ok],
          rule never_fails_bindE [OF write_and_verify_ok(2) [OF c room]],
          rule never_fails_bindE [OF flush_ok])
        (auto split: prod.split intro!: never_fails_bindE [OF finish] never_fails_bindE [OF publish_progress_ok]
          never_fails_returnE)
  qed
  have execute: "never_fails (bindE (copy_and_stage cng request src tgt plan d p) (commit_gpt cng request tgt plan))
      (\<lambda>report. ogt_read_back_verified report \<and> ogt_primary_gpt_committed report)"
    if plan: "gpt_plan_of src tgt provider next_guid plan" and d: "digest_room 0 d" for plan d p
  proof -
    let ?cs = "ogp_partition_copies plan" and ?ws = "gwp_writes (ogp_target_gpt plan)"
    obtain c where c: "?ws = staged_writes ?ws @ [c]"
      "find (\<lambda>w. gw_kind w = Primary_header_commit) ?ws = Some c"
      using plan by (rule gpt_plan_of_writes)
    have x: "planned_bytes ?cs + write_bytes ?ws < 2 ^ 64"
      "planned_span ?cs \<subseteq> {0..<min (unat (src_size_bytes src)) (unat (tgt_size_bytes tgt))}"
      "list_all (\<lambda>w. gw_bytes w \<noteq> [] \<and> length (gw_bytes w) \<le> kMaximumVerifiedWriteBytes \<and>
         unat (gw_offset w) + length (gw_bytes w) \<le> unat (tgt_size_bytes tgt)) ?ws"
      using gpt_plan_executable [OF plan] by (simp_all add: executable_plan_def)
    have "write_bytes (staged_writes ?ws @ [c]) = write_bytes (staged_writes ?ws) + length (gw_bytes c)"
      by (simp add: write_bytes_def)
    then have bytes: "write_bytes ?ws = write_bytes (staged_writes ?ws) + length (gw_bytes c)"
      by (simp flip: c(1))
    have "c \<in> set ?ws" by (subst c(1)) simp
    then have cw: "gw_bytes c \<noteq> []" "length (gw_bytes c) \<le> kMaximumVerifiedWriteBytes"
      "unat (gw_offset c) + length (gw_bytes c) \<le> unat (tgt_size_bytes tgt)"
      using x(3) by (auto simp: list_all_iff)
    have copies: "never_fails (copy_partitions cng src tgt ?m cbs ?cs st)
        (\<lambda>st. digest_room (planned_bytes ?cs) (cs_digest (fst st)))" if "cs_digest (fst st) = d" for st
      using copy_partitions_ok [OF m x(2), of 0 st] x(1) d that by simp
    have stage: "never_fails (stage_writes cng tgt cbs ?ws (q, d'))
        (\<lambda>st. digest_room (planned_bytes ?cs + write_bytes (staged_writes ?ws)) (snd st))"
      if "digest_room (planned_bytes ?cs) d'" for q d'
      using stage_writes_ok [OF x(3), of "planned_bytes ?cs" "(q, d')"] x(1) bytes that by simp
    have staged: "never_fails (copy_and_stage cng request src tgt plan d p)
        (\<lambda>st. digest_room (planned_bytes ?cs + write_bytes (staged_writes ?ws)) (snd (snd st)))"
      unfolding copy_and_stage_def cbs
      by (rule never_fails_bindE [OF copies], simp)
        (auto simp: split_beta cancelled_status_def intro!: never_fails_bindE [OF publish_progress_ok]
          never_fails_bindE [OF flush_ok] never_fails_bindE [OF stage] never_fails_bindE [OF cancellation_ok]
          never_fails_returnE)
    show ?thesis
      by (rule never_fails_bindE [OF staged])
        (use commit [OF c(2) cw] x(1) bytes in \<open>auto simp: add.assoc\<close>)
  qed
  have total: "\<exists>n. total_copy_bytes 0 (concat (map pc_source_ranges (ogp_partition_copies plan))) = Some n"
    if "gpt_plan_of src tgt provider next_guid plan" for plan
    using gpt_plan_executable [OF that] total_copy_bytes_sum [of 0]
    by (simp add: executable_plan_def planned_bytes_concat)
  have build: "never_fails (build_offline_gpt_clone_plan src tgt provider next_guid) (gpt_plan_of src tgt provider next_guid)"
    using plans build_offline_gpt_clone_plan_of [of tgt src provider next_guid] req
    unfolding never_fails_def by blast
  have prepare: "never_fails (prepare_gpt_clone cng request src tgt provider next_guid)
      (\<lambda>(plan, d, p). gpt_plan_of src tgt provider next_guid plan \<and> digest_room 0 d)"
    unfolding prepare_gpt_clone_def cbs
    by (rule never_fails_bindE [OF publish_progress_ok], rule never_fails_bindE [OF cancellation_ok], simp,
        rule never_fails_bindE [OF build], rule never_fails_bindE [OF create_ok], frule total)
      (auto intro!: never_fails_bindE [OF publish_progress_ok] never_fails_bindE [OF cancellation_ok]
        never_fails_returnE)
  have checks: "of_result (validate_clone_identities (ogr_expected_source request)
       (ogr_observed_source request) (ogr_expected_target request) (ogr_observed_target request)
       (ogr_confirmation request) True) = returnE ()"
    using req by simp
  have big: "\<not> tgt_size_bytes tgt < of_nat (2 * kTargetMetadataInvalidationBytes)"
    using req by (simp add: word_less_nat_alt)
  have zero: "ogr_maximum_chunk_bytes request \<noteq> 0" "\<not> ogr_maximum_chunk_bytes request > 16 * 1024 * 1024"
    using m by (auto simp: word_less_nat_alt unat_gt_0)
  show ?thesis
    unfolding execute_offline_gpt_clone_def checks bindE_returnE
    using req big zero execute
    by (auto simp: cbs intro!: never_fails_bindE [OF prepare] never_fails_bindE [OF invalidate_target_ok])
qed

end

section \<open>The properties of the clone\<close>

text \<open>
  C17. The plan copies from every partition only bytes of that partition, no byte twice and no byte
  that the new table occupies.  What the boot sector shows of a basic data partition decides the
  mode: all of a FAT32, exFAT, EFI system or recovery partition is copied, of an NTFS volume exactly
  the bytes that the provider reports as used, with the boot sector among them, and nothing of a
  Microsoft reserved partition.
\<close>

theorem build_offline_gpt_clone_plan_sound:
  assumes "build_offline_gpt_clone_plan source target provider next_guid s = (Inr plan, t)"
    and "tgt_logical_sector_size target = 512"
  shows "list_all2 (copy_of_partition 512) (gpt_partitions (ogp_source_gpt plan)) (ogp_partition_copies plan) \<and>
    list_all2 (volume_copied source provider 512) (gpt_partitions (ogp_source_gpt plan))
      (ogp_partition_copies plan) \<and>
    planned_bytes (ogp_partition_copies plan) = card (planned_span (ogp_partition_copies plan)) \<and>
    planned_span (ogp_partition_copies plan) \<inter> writes_span (gwp_writes (ogp_target_gpt plan)) = {} \<and>
    planned_span (ogp_partition_copies plan) \<subseteq> {0..<min (unat (src_size_bytes source)) (unat (tgt_size_bytes target))}"
proof -
  note plan = build_offline_gpt_clone_plan_of [OF assms(2,1)]
  have copies: "list_all2 (copy_of_partition 512) (gpt_partitions (ogp_source_gpt plan)) (ogp_partition_copies plan)"
    and volumes: "list_all2 (volume_copied source provider 512) (gpt_partitions (ogp_source_gpt plan))
      (ogp_partition_copies plan)"
    using plan by (simp_all add: gpt_plan_of_def)
  have "sorted_wrt lba_disjoint (gpt_partitions (ogp_source_gpt plan))"
    using build_offline_gpt_clone_plan_success(1) [OF assms(1)] by (simp add: gpt_wf_def gpt_table_wf_def)
  with copies volumes show ?thesis
    using planned_bytes_card [OF copies] gpt_plan_executable [OF plan]
    by (auto intro: gpt_plan_of_writes [OF plan] simp: executable_plan_def)
qed

text \<open>
  C1. When the clone reports success, the target disk holds exactly the planned image: \<open>parse_gpt\<close> reads
  the planned table back from it, every planned byte is the source's, and every other byte is zero
  where the old partition information was erased and unchanged elsewhere.  The plan is that of the
  source's table, one copy for each partition: all of it, or of an NTFS volume exactly the bytes
  that the provider reported as used, or nothing where it is only recreated.
\<close>

theorem execute_offline_gpt_clone_correct:
  assumes "clone_world src simg tgt timg cng (ogr_callbacks request)"
    and "\<forall>i g. keeps timg (provider i g)" and "keeps timg next_guid"
    and "execute_offline_gpt_clone cng request src tgt provider next_guid s = (Inr report, t)"
  shows "\<exists>plan. gpt_plan_of src tgt provider next_guid plan \<and>
    parse_gpt (memory_source_reader (tgt_size_bytes tgt) 512 (timg t)) () =
      (Inr (gwp_target_disk (ogp_target_gpt plan)), ()) \<and>
    (\<forall>i. i \<in> planned_span (ogp_partition_copies plan) \<longrightarrow> timg t i = simg i) \<and>
    timg t = cloned_image simg plan (erased_image (tgt_size_bytes tgt) (timg s)) \<and>
    ogt_target_disk_guid report = disk_guid (gwp_target_disk (ogp_target_gpt plan))"
proof -
  from hoareD_Inr [OF clone_world.execute_offline_gpt_clone_spec [OF assms(1) refl assms(2,3)] refl assms(4)]
  obtain plan where plan: "gpt_plan_of src tgt provider next_guid plan"
    "timg t = cloned_image simg plan (erased_image (tgt_size_bytes tgt) (timg s))"
    "ogt_target_disk_guid report = disk_guid (gwp_target_disk (ogp_target_gpt plan))"
    by blast
  then show ?thesis
    using cloned_image_table [OF plan(1)] cloned_image_planned [OF plan(1)] by (intro exI [of _ plan]) simp
qed

text \<open>
  C16. A clone that fails or is cancelled never leaves a half-made disk that looks complete: either the
  target is as it was, or a plan had been made and then the erasure of the old partition
  information is incomplete and nothing else has changed, or the target has no valid table, or
  everything is in place and only the sector of the primary header may not be.
\<close>

theorem execute_offline_gpt_clone_failure:
  assumes "clone_world src simg tgt timg cng (ogr_callbacks request)"
    and "\<forall>i g. keeps timg (provider i g)" and "keeps timg next_guid"
    and "execute_offline_gpt_clone cng request src tgt provider next_guid s = (Inl e, t)"
  shows "timg t = timg s \<or>
    (\<exists>plan. gpt_plan_of src tgt provider next_guid plan \<and>
       interrupted simg (tgt_size_bytes tgt) plan (timg s) (timg t))"
  by (rule hoareD_Inl [OF clone_world.execute_offline_gpt_clone_spec [OF assms(1) refl assms(2,3)] refl assms(4)])

text \<open>
  C18. A clone between working devices completes: when the identities are confirmed, the request matches
  the disks, a plan can be made and nobody cancels, \<open>execute_offline_gpt_clone\<close> returns its report.
\<close>

theorem execute_offline_gpt_clone_completes:
  assumes "reliable_world src simg tgt timg cng (ogr_callbacks request)"
    and "gpt_request_ok request src tgt"
    and "never_fails (build_offline_gpt_clone_plan src tgt provider next_guid) (\<lambda>plan. True)"
  shows "\<exists>report t. execute_offline_gpt_clone cng request src tgt provider next_guid s = (Inr report, t) \<and>
    ogt_read_back_verified report \<and> ogt_primary_gpt_committed report"
  using reliable_world.execute_offline_gpt_clone_ok [OF assms(1,2) refl assms(3)] by (rule never_failsD)

section \<open>A concrete clone\<close>

text \<open>
  The source disk of the examples: a table with one EFI system partition at sector 40, which starts
  with a FAT32 boot sector.
\<close>

definition example_efi_boot :: "byte list" where
  "example_efi_boot =
     (let b = overwrite (replicate 512 0) 82 kFat32Signature;
          b = write_little b 11 (512 :: u16);
          b = write_little b 13 (8 :: u8);
          b = write_little b 32 (1000 :: u32);
          b = write_little b 510 (0x55 :: u8)
      in write_little b 511 (0xAA :: u8))"

definition example_source_image :: image where
  "example_source_image =
     apply_writes (gwp_writes example_clone_plan) (img_update (\<lambda>i. 0xC3) 20480 example_efi_boot)"

abbreviation example_source :: "'s source_reader" where
  "example_source \<equiv> memory_source_reader 2097152 512 example_source_image"

abbreviation example_writer :: "clone_memory target_writer" where
  "example_writer \<equiv> memory_target_writer 2097152 512 0"

definition example_guids :: "(clone_memory, guid) prog" where
  "example_guids s = (Inr (sequential_guid (cm_next s)), s\<lparr>cm_next := cm_next s + 1\<rparr>)"

definition example_identity :: "u8 \<Rightarrow> stable_disk_identity" where
  "example_identity serial = \<lparr>id_disk_number = 1, id_model = [68, 105, 115, 107], id_size_bytes = 2097152,
     id_logical_sector_size = 512, id_serial_suffix = [serial], id_device_instance_id = [ucast serial],
     id_is_system_disk = False\<rparr>"

definition example_clone_request :: "clone_memory offline_gpt_clone_request" where
  "example_clone_request = \<lparr>ogr_expected_source = example_identity 65,
     ogr_observed_source = example_identity 65, ogr_expected_target = example_identity 66,
     ogr_observed_target = example_identity 66,
     ogr_confirmation = \<lparr>first_step_acknowledged = True, typed_token = [79, 75]\<rparr>,
     ogr_maximum_chunk_bytes = 1048576, ogr_callbacks = no_callbacks\<rparr>"

abbreviation no_used_ranges :: "'s used_range_provider" where
  "no_used_ranges \<equiv> \<lambda>i g. failE unsupported_error"

definition example_world :: clone_memory where
  "example_world = \<lparr>mw_storage = (\<lambda>i. 0x11), mw_last_write_offset = 0, mw_write_count = 0,
     mw_flush_count = 0, cm_absorbed = [], cm_next = 5\<rparr>"

lemma example_efi_boot_reads:
  "length example_efi_boot = 512" "slice example_efi_boot 82 8 = kFat32Signature"
  "\<not> no_boot_marker example_efi_boot" "(read_little example_efi_boot 11 :: u16) = 512"
  "(read_little example_efi_boot 13 :: u8) = 8" "(read_little example_efi_boot 32 :: u32) = 1000"
  by (simp_all add: example_efi_boot_def no_boot_marker_def Let_def kFat32Signature_def byte_simps)

lemma example_efi_boot_valid: "validate_fat32_boot_sector example_efi_boot 512 512000 = success_status"
  by (simp add: validate_fat32_boot_sector_def parse_fat32_geometry_def example_efi_boot_reads Let_def
      is_power_of_two_def checked_multiply_def)

lemma example_source_boot: "img_bytes example_source_image 20480 512 = example_efi_boot"
proof -
  note lay = make_gpt_write_plan_layout(1) [OF example_disk_wf example_plan]
  have ws: "gwp_writes example_clone_plan = gpt_write_list example_target (of_nat (entry_span example_disk))"
    and t: "gwp_target_disk example_clone_plan = example_target"
    by (simp_all add: example_clone_plan_def)
  have "list_all (\<lambda>w. unat (gw_offset w) + length (gw_bytes w) \<le> 17408 \<or> 2080256 \<le> unat (gw_offset w))
      (gwp_writes example_clone_plan)"
    using write_list_extents(3) [OF lay] unfolding ws t by (simp add: example_target_eq)
  then have "example_source_image i = img_update (\<lambda>i. 0xC3) 20480 example_efi_boot i"
    if "20480 \<le> i" "i < 20480 + 512" for i
    using that unfolding example_source_image_def by (intro apply_writes_outside) (auto simp: list_all_iff)
  then have "img_bytes example_source_image 20480 512 =
      img_bytes (img_update (\<lambda>i. 0xC3) 20480 example_efi_boot) 20480 512"
    by (rule img_bytes_eqI)
  then show ?thesis by (simp add: example_efi_boot_reads)
qed

lemma sequential_guid_fresh: "sequential_guid n \<noteq> 0" "sequential_guid n = sequential_guid m \<Longrightarrow> n = m"
proof -
  have v: "unat (sequential_guid n) = unat n + 165 * 256 ^ 15" for n
  proof -
    have "le_nat [n, 0, 0, 0, 0, 0, 0, 0, 0, 0, 0, 0, 0, 0, 0, 0xA5] = unat n + 165 * 256 ^ 15" by simp
    then show ?thesis
      unfolding sequential_guid_def guid_of_bytes_def using unat_u8_bound [of n]
      by (simp only: unat_of_nat) simp
  qed
  show "sequential_guid n \<noteq> 0" using v [of n] by (metis add_is_0 mult_is_0 power_eq_0_iff unat_0 zero_neq_numeral)
  assume "sequential_guid n = sequential_guid m"
  then have "unat n = unat m" using v [of n] v [of m] by simp
  then show "n = m" by (simp add: word_unat_eq_iff)
qed

lemma example_partition_plan:
  "plan_partition example_source no_used_ranges 512 (hd (gpt_partitions example_target)) s =
    (Inr \<lparr>pc_entry_index = 3, pc_mode = Efi_fat32_raw,
       pc_source_ranges = [\<lparr>range_offset = 20480, range_length = 512000\<rparr>]\<rparr>, s)"
proof -
  have types: "kEfiSystem \<noteq> kMicrosoftReserved"
    by (simp add: kEfiSystem_def kMicrosoftReserved_def guid_of_bytes_def)
  show ?thesis
    using types
    by (simp add: plan_partition_def example_target_eq partition_byte_range_def checked_multiply_def
        checked_add_def read_boot_sector_def memory_source_read example_source_boot example_efi_boot_reads
        example_efi_boot_valid bindE_def returnE_def of_result_def)
qed

lemma example_builds:
  "never_fails (build_offline_gpt_clone_plan example_source example_writer no_used_ranges example_guids)
    (\<lambda>plan. True)"
  unfolding never_fails_def
proof
  fix s :: clone_memory
  have wf: "gpt_wf example_target"
    using make_gpt_write_plan_layout(2) [OF example_disk_wf example_plan] by (simp add: example_clone_plan_def)
  have parse: "parse_gpt example_source s = (Inr example_target, s)"
    unfolding example_source_image_def by (rule example_parse)
  have "\<exists>plan t. make_gpt_write_plan example_target 2097152 512 example_guids s = (Inr plan, t)"
    using sequential_guid_fresh(1) sequential_guid_fresh(2) [of "cm_next s + 1" "cm_next s"]
    unfolding make_gpt_write_plan_eq [OF wf]
    by (auto simp: example_target_eq bindE_def example_guids_def guid_is_zero_def returnE_def)
  then obtain plan t where plan: "make_gpt_write_plan example_target 2097152 512 example_guids s = (Inr plan, t)"
    by blast
  show "\<exists>plan t. build_offline_gpt_clone_plan example_source example_writer no_used_ranges example_guids s =
      (Inr plan, t) \<and> True"
    using parse plan example_partition_plan [of t]
    by (simp add: build_offline_gpt_clone_plan_def bindE_def example_target_eq returnE_def)
qed

lemma example_reliable:
  "reliable_world example_source example_source_image example_writer mw_storage clone_memory_cng
     (ogr_callbacks example_clone_request)"
  by (simp add: example_clone_request_def reliable_memory.reliable_world_axioms)

lemma example_request_ok: "gpt_request_ok example_clone_request example_source example_writer"
  by (simp add: gpt_request_ok_def validate_clone_identities_success example_clone_request_def
      example_identity_def identity_complete_def same_identity_def same_device_def)

lemma example_keeps: "keeps mw_storage example_guids" "\<forall>i g. keeps mw_storage (no_used_ranges i g)"
  by (simp add: keeps_def example_guids_def, simp)

lemma example_runs:
  "\<exists>report t. execute_offline_gpt_clone clone_memory_cng example_clone_request example_source example_writer
     no_used_ranges example_guids s = (Inr report, t)"
  using never_failsD [OF reliable_world.execute_offline_gpt_clone_ok
      [OF example_reliable example_request_ok refl example_builds]] by blast

theorem build_offline_gpt_clone_plan_sound_witness:
  "\<exists>plan t. build_offline_gpt_clone_plan example_source example_writer no_used_ranges example_guids
       example_world = (Inr plan, t) \<and>
     planned_bytes (ogp_partition_copies plan) = card (planned_span (ogp_partition_copies plan))"
proof -
  obtain plan t where plan: "build_offline_gpt_clone_plan example_source example_writer no_used_ranges
      example_guids example_world = (Inr plan, t)"
    using never_failsD [OF example_builds] by blast
  from build_offline_gpt_clone_plan_sound [OF plan] plan show ?thesis by simp
qed

theorem execute_offline_gpt_clone_correct_witness:
  "\<exists>report t (plan :: offline_gpt_clone_plan). execute_offline_gpt_clone clone_memory_cng example_clone_request example_source
       example_writer no_used_ranges example_guids example_world = (Inr report, t) \<and>
     parse_gpt (memory_source_reader 2097152 512 (mw_storage t)) () =
       (Inr (gwp_target_disk (ogp_target_gpt plan)), ())"
proof -
  obtain report t where run: "execute_offline_gpt_clone clone_memory_cng example_clone_request example_source
      example_writer no_used_ranges example_guids example_world = (Inr report, t)"
    using example_runs by blast
  have "clone_world example_source example_source_image example_writer mw_storage clone_memory_cng
     (ogr_callbacks example_clone_request)"
    using example_reliable by (rule reliable_world.axioms(1))
  from execute_offline_gpt_clone_correct [OF this example_keeps(2,1) run] obtain plan :: offline_gpt_clone_plan
    where "parse_gpt (memory_source_reader 2097152 512 (mw_storage t)) () =
       (Inr (gwp_target_disk (ogp_target_gpt plan)), ())"
    unfolding memory_target_writer_sel by blast
  then show ?thesis using run by (intro exI conjI)
qed

theorem execute_offline_gpt_clone_failure_witness:
  "\<exists>e t. execute_offline_gpt_clone clone_memory_cng (example_clone_request\<lparr>ogr_maximum_chunk_bytes := 0\<rparr>)
       example_source example_writer no_used_ranges example_guids example_world = (Inl e, t) \<and>
     (mw_storage t = mw_storage example_world \<or>
      (\<exists>plan. gpt_plan_of example_source example_writer no_used_ranges example_guids plan \<and>
        interrupted example_source_image 2097152 plan (mw_storage example_world) (mw_storage t)))"
proof -
  let ?request = "example_clone_request\<lparr>ogr_maximum_chunk_bytes := 0\<rparr>"
  have run: "execute_offline_gpt_clone clone_memory_cng ?request
       example_source example_writer no_used_ranges example_guids example_world =
       (Inl (mk_error Identity_mismatch ERROR_INVALID_DATA), example_world)"
    using example_request_ok
    by (simp add: execute_offline_gpt_clone_def gpt_request_ok_def failE_def)
  have world: "clone_world example_source example_source_image example_writer mw_storage clone_memory_cng
     (ogr_callbacks ?request)"
    using example_reliable by (simp add: reliable_world.axioms(1))
  from execute_offline_gpt_clone_failure [OF world example_keeps(2,1) run] run show ?thesis
    unfolding memory_target_writer_sel by (intro exI conjI)
qed

theorem execute_offline_gpt_clone_completes_witness:
  "\<exists>report t. execute_offline_gpt_clone clone_memory_cng example_clone_request example_source
       example_writer no_used_ranges example_guids example_world = (Inr report, t) \<and>
     ogt_primary_gpt_committed report"
  using execute_offline_gpt_clone_completes [OF example_reliable example_request_ok example_builds] by blast

end
