(* ===== verification/OfflineMbrClone.thy ===== *)
theory OfflineMbrClone
  imports Mbr UsedRanges CloneEngine DiskIdentity
begin

text \<open>
  The clone of an MBR disk (\<open>CloneCore/src/offline_mbr_clone.cpp\<close>).  It plans and copies like the clone
  of a GPT disk; the table it commits is the one sector at offset 0.
\<close>

section \<open>Data\<close>

datatype mbr_copy_mode = Mbr_fat32_raw | Mbr_exfat_raw | Mbr_ntfs_used_clusters | Mbr_recovery_ntfs_raw

record planned_mbr_partition_copy =
  mpc_table_index :: u8
  mpc_mode :: mbr_copy_mode
  mpc_source_ranges :: "byte_range list"

record offline_mbr_clone_plan =
  omp_source_mbr :: mbr_disk
  omp_target_mbr :: mbr_write_plan
  omp_partition_copies :: "planned_mbr_partition_copy list"

record 's offline_mbr_clone_request =
  omr_expected_source :: stable_disk_identity
  omr_observed_source :: stable_disk_identity
  omr_expected_target :: stable_disk_identity
  omr_observed_target :: stable_disk_identity
  omr_confirmation :: target_confirmation
  omr_maximum_chunk_bytes :: u64
  omr_connected_mbr_signatures :: "u32 list"
  omr_callbacks :: "'s operation_callbacks"

record offline_mbr_clone_report =
  omt_copied_data_bytes :: u64
  omt_copied_partition_count :: u32
  omt_source_disk_signature :: u32
  omt_target_disk_signature :: u32
  omt_verified_write_digest :: "byte list"
  omt_read_back_verified :: bool
  omt_target_mbr_committed :: bool

section \<open>Planning\<close>

definition mbr_partition_byte_range :: "mbr_partition \<Rightarrow> u32 \<Rightarrow> byte_range result" where
  "mbr_partition_byte_range p sector_size =
     (case checked_multiply (ucast (mbr_first_lba p)) (ucast sector_size) of
        None \<Rightarrow> Inl (mk_error Invalid_data ERROR_ARITHMETIC_OVERFLOW)
      | Some offset \<Rightarrow>
     (case checked_multiply (ucast (mbr_sector_count p)) (ucast sector_size) of
        None \<Rightarrow> Inl (mk_error Invalid_data ERROR_ARITHMETIC_OVERFLOW)
      | Some len \<Rightarrow> Inr \<lparr>range_offset = offset, range_length = len\<rparr>))"

text \<open>
  What is copied of a partition, by its type byte and what its boot sector says; type \<open>0x07\<close> may be
  NTFS or exFAT.
\<close>

definition plan_mbr_basic_data ::
  "'s source_reader \<Rightarrow> 's used_range_provider \<Rightarrow> mbr_partition \<Rightarrow> byte_range \<Rightarrow> byte list \<Rightarrow>
   ('s, planned_mbr_partition_copy) prog" where
  "plan_mbr_basic_data source provider p part boot =
     bindE (of_result (classify_basic_data_file_system boot (src_logical_sector_size source)
       (range_length part))) (\<lambda>file_system.
     if file_system = Ntfs then
       bindE (of_result (parse_ntfs_geometry boot (src_logical_sector_size source) (range_length part)))
         (\<lambda>geometry.
       bindE (provider (ucast (table_index p)) geometry) (\<lambda>ranges.
       bindE (of_result (validate_used_ranges ranges part geometry)) (\<lambda>used.
       returnE \<lparr>mpc_table_index = table_index p, mpc_mode = Mbr_ntfs_used_clusters,
         mpc_source_ranges = used\<rparr>)))
     else if file_system = Exfat then
       returnE \<lparr>mpc_table_index = table_index p, mpc_mode = Mbr_exfat_raw, mpc_source_ranges = [part]\<rparr>
     else failE unsupported_error)"

definition plan_mbr_partition ::
  "'s source_reader \<Rightarrow> 's used_range_provider \<Rightarrow> u32 \<Rightarrow> mbr_partition \<Rightarrow>
   ('s, planned_mbr_partition_copy) prog" where
  "plan_mbr_partition source provider sector_size p =
     bindE (of_result (mbr_partition_byte_range p sector_size)) (\<lambda>part.
     bindE (read_boot_sector source part) (\<lambda>boot.
     bindE
       (if mbr_type p = 0x07 then plan_mbr_basic_data source provider p part boot
        else if mbr_type p = 0x27 then
          bindE (of_result (parse_ntfs_geometry boot (src_logical_sector_size source)
            (range_length part))) (\<lambda>g.
          returnE \<lparr>mpc_table_index = table_index p, mpc_mode = Mbr_recovery_ntfs_raw,
            mpc_source_ranges = [part]\<rparr>)
        else if mbr_type p = 0x0B \<or> mbr_type p = 0x0C then
          bindE (of_result (validate_fat32_boot_sector boot (src_logical_sector_size source)
            (range_length part))) (\<lambda>u.
          returnE \<lparr>mpc_table_index = table_index p, mpc_mode = Mbr_fat32_raw,
            mpc_source_ranges = [part]\<rparr>)
        else failE unsupported_error)
       (\<lambda>copy.
     if mbr_active p \<and> mbr_type p = 0x27 then failE unsupported_error else returnE copy)))"

fun plan_mbr_partitions ::
  "'s source_reader \<Rightarrow> 's used_range_provider \<Rightarrow> u32 \<Rightarrow> mbr_partition list \<Rightarrow>
   ('s, planned_mbr_partition_copy list) prog" where
  "plan_mbr_partitions source provider sector_size [] = returnE []"
| "plan_mbr_partitions source provider sector_size (p # ps) =
     bindE (plan_mbr_partition source provider sector_size p) (\<lambda>c.
     bindE (plan_mbr_partitions source provider sector_size ps) (\<lambda>cs.
     returnE (c # cs)))"

definition build_offline_mbr_clone_plan ::
  "'s source_reader \<Rightarrow> 's target_writer \<Rightarrow> 's used_range_provider \<Rightarrow> ('s, u32) prog \<Rightarrow> u32 list \<Rightarrow>
   ('s, offline_mbr_clone_plan) prog" where
  "build_offline_mbr_clone_plan source target provider next_signature disallowed =
     bindE (parse_mbr source) (\<lambda>source_mbr.
     bindE (make_mbr_write_plan source_mbr (tgt_size_bytes target) (tgt_logical_sector_size target)
       next_signature disallowed (list_ex mbr_active (mbr_partitions source_mbr))) (\<lambda>target_mbr.
     bindE (plan_mbr_partitions source provider (mbr_sector_size source_mbr) (mbr_partitions source_mbr))
       (\<lambda>copies.
     returnE \<lparr>omp_source_mbr = source_mbr, omp_target_mbr = target_mbr,
       omp_partition_copies = copies\<rparr>)))"

section \<open>Execution\<close>

definition prepare_mbr_clone ::
  "'s cng_api \<Rightarrow> 's offline_mbr_clone_request \<Rightarrow> 's source_reader \<Rightarrow> 's target_writer \<Rightarrow>
   's used_range_provider \<Rightarrow> ('s, u32) prog \<Rightarrow>
   ('s, offline_mbr_clone_plan \<times> write_digest \<times> operation_progress) prog" where
  "prepare_mbr_clone cng request source target provider next_signature =
     bindE (publish_progress (omr_callbacks request) initial_progress Planning None True) (\<lambda>progress.
     bindE (liftE (cancellation_requested (omr_callbacks request))) (\<lambda>cancel.
     if cancel then cancelled_status else
     bindE (build_offline_mbr_clone_plan source target provider next_signature
       (omr_connected_mbr_signatures request)) (\<lambda>plan.
     bindE (digest_create cng) (\<lambda>digest.
     case total_copy_bytes 0 (concat (map mpc_source_ranges (omp_partition_copies plan))) of
       None \<Rightarrow> failE (mk_error Invalid_data ERROR_ARITHMETIC_OVERFLOW)
     | Some planned \<Rightarrow>
       bindE (publish_progress (omr_callbacks request)
         (progress\<lparr>pr_total_read_bytes := planned, pr_total_write_bytes := planned,
           pr_total_verify_bytes := planned\<rparr>) Invalidating_target None True) (\<lambda>progress.
       bindE (liftE (cancellation_requested (omr_callbacks request))) (\<lambda>cancel.
       if cancel then cancelled_status else returnE (plan, digest, progress)))))))"

fun copy_mbr_partitions ::
  "'s cng_api \<Rightarrow> 's source_reader \<Rightarrow> 's target_writer \<Rightarrow> u64 \<Rightarrow> 's operation_callbacks \<Rightarrow>
   planned_mbr_partition_copy list \<Rightarrow> copy_state \<times> u32 \<Rightarrow> ('s, copy_state \<times> u32) prog" where
  "copy_mbr_partitions cng source target m callbacks [] st = returnE st"
| "copy_mbr_partitions cng source target m callbacks (c # copies) (cs, copied) =
     bindE (copy_ranges cng source target m (ucast (mpc_table_index c)) callbacks (mpc_source_ranges c) cs)
       (\<lambda>cs. copy_mbr_partitions cng source target m callbacks copies (cs, copied + 1))"

text \<open>From the erased target to the last point where a cancellation is honoured.\<close>

definition copy_mbr_data ::
  "'s cng_api \<Rightarrow> 's offline_mbr_clone_request \<Rightarrow> 's source_reader \<Rightarrow> 's target_writer \<Rightarrow>
   offline_mbr_clone_plan \<Rightarrow> write_digest \<Rightarrow> operation_progress \<Rightarrow>
   ('s, (copy_state \<times> u32) \<times> operation_progress) prog" where
  "copy_mbr_data cng request source target plan digest progress =
     bindE (copy_mbr_partitions cng source target (omr_maximum_chunk_bytes request) (omr_callbacks request)
       (omp_partition_copies plan)
       (\<lparr>cs_progress = progress, cs_digest = digest, cs_copied_bytes = 0,
         cs_verified_chunk_count = 0\<rparr>, 0)) (\<lambda>(cs, copied).
     bindE (publish_progress (omr_callbacks request) (cs_progress cs) Flushing_data None False) (\<lambda>progress.
     bindE (tgt_flush target) (\<lambda>u.
     bindE (publish_progress (omr_callbacks request) progress Staging_partition_table None True) (\<lambda>progress.
     bindE (liftE (cancellation_requested (omr_callbacks request))) (\<lambda>cancel.
     if cancel then cancelled_status else returnE ((cs, copied), progress))))))"

definition commit_mbr ::
  "'s cng_api \<Rightarrow> 's offline_mbr_clone_request \<Rightarrow> 's target_writer \<Rightarrow> offline_mbr_clone_plan \<Rightarrow>
   (copy_state \<times> u32) \<times> operation_progress \<Rightarrow> ('s, offline_mbr_clone_report) prog" where
  "commit_mbr cng request target plan = (\<lambda>((cs, copied), progress).
     bindE (publish_progress (omr_callbacks request) progress Committing_partition_table None False)
       (\<lambda>progress.
     bindE (write_and_verify cng target 0 (mwp_sector (omp_target_mbr plan)) (Some (cs_digest cs))) (\<lambda>d.
     bindE (tgt_flush target) (\<lambda>u.
     bindE (liftE (digest_finish cng (case d of None \<Rightarrow> cs_digest cs | Some d \<Rightarrow> d))) (\<lambda>(finished, d).
     bindE (of_result finished) (\<lambda>bytes.
     bindE (publish_progress (omr_callbacks request) progress Completed None False) (\<lambda>progress.
     returnE \<lparr>omt_copied_data_bytes = cs_copied_bytes cs, omt_copied_partition_count = copied,
       omt_source_disk_signature = disk_signature (omp_source_mbr plan),
       omt_target_disk_signature = disk_signature (mwp_target_disk (omp_target_mbr plan)),
       omt_verified_write_digest = bytes, omt_read_back_verified = True,
       omt_target_mbr_committed = True\<rparr>)))))))"

definition execute_offline_mbr_clone ::
  "'s cng_api \<Rightarrow> 's offline_mbr_clone_request \<Rightarrow> 's source_reader \<Rightarrow> 's target_writer \<Rightarrow>
   's used_range_provider \<Rightarrow> ('s, u32) prog \<Rightarrow> ('s, offline_mbr_clone_report) prog" where
  "execute_offline_mbr_clone cng request source target provider next_signature =
     bindE (of_result (validate_clone_identities (omr_expected_source request)
       (omr_observed_source request) (omr_expected_target request) (omr_observed_target request)
       (omr_confirmation request) True)) (\<lambda>u.
     if omr_maximum_chunk_bytes request = 0 \<or> omr_maximum_chunk_bytes request > 16 * 1024 * 1024 \<or>
        src_logical_sector_size source \<noteq> 512 \<or> tgt_logical_sector_size target \<noteq> 512 \<or>
        id_size_bytes (omr_observed_source request) \<noteq> src_size_bytes source \<or>
        id_size_bytes (omr_observed_target request) \<noteq> tgt_size_bytes target \<or>
        id_logical_sector_size (omr_observed_source request) \<noteq> 512 \<or>
        id_logical_sector_size (omr_observed_target request) \<noteq> 512 \<or>
        tgt_size_bytes target < of_nat (2 * kTargetMetadataInvalidationBytes)
     then failE (mk_error Identity_mismatch ERROR_INVALID_DATA)
     else
       bindE (prepare_mbr_clone cng request source target provider next_signature)
         (\<lambda>(plan, digest, progress).
       bindE (invalidate_target cng target (omr_callbacks request)) (\<lambda>u.
       bindE (copy_mbr_data cng request source target plan digest progress) (\<lambda>copied.
       commit_mbr cng request target plan copied))))"

end
