(* ===== verification/OfflineMbrCloneCorrect.thy ===== *)
theory OfflineMbrCloneCorrect
  imports OfflineMbrClone CloneLive
begin

text \<open>
  What the clone of an MBR disk guarantees, along the lines of the GPT clone: the planned bytes, the
  untouched target until the plan stands, no boot sector until the last write, the image after a
  success, and that a clone on working devices completes.
\<close>

section \<open>Planning leaves the target alone\<close>

lemma keeps_parse_mbr:
  "(\<And>off len. keeps v (src_read rd off len)) \<Longrightarrow> keeps v (parse_mbr rd)"
  unfolding parse_mbr_def Let_def by (auto intro!: keeps_bindE)

lemma keeps_draw_signature: "keeps v next_signature \<Longrightarrow> keeps v (draw_signature n next_signature forbidden)"
  by (induction n) (auto intro!: keeps_bindE)

lemma keeps_make_mbr_write_plan:
  "keeps v next_signature \<Longrightarrow> keeps v (make_mbr_write_plan d sz sector next_signature disallowed single)"
  unfolding make_mbr_write_plan_def Let_def by (auto intro!: keeps_bindE keeps_draw_signature)

lemma keeps_plan_mbr_partitions:
  assumes "\<And>off len. keeps v (src_read source off len)" "\<And>i g. keeps v (provider i g)"
  shows "keeps v (plan_mbr_partitions source provider sector ps)"
proof (induction ps)
  case (Cons p ps)
  have "keeps v (plan_mbr_partition source provider sector p)"
    unfolding plan_mbr_partition_def plan_mbr_basic_data_def read_boot_sector_def
    by (auto intro!: keeps_bindE assms)
  then show ?case using Cons by (auto intro!: keeps_bindE)
qed simp

lemma keeps_build_offline_mbr_clone_plan:
  assumes "\<And>off len. keeps v (src_read source off len)" "\<And>i g. keeps v (provider i g)" "keeps v next_signature"
  shows "keeps v (build_offline_mbr_clone_plan source target provider next_signature disallowed)"
  unfolding build_offline_mbr_clone_plan_def
  by (intro keeps_bindE keeps_parse_mbr keeps_make_mbr_write_plan keeps_plan_mbr_partitions assms) simp

section \<open>What is planned\<close>

definition mbr_partition_span :: "mbr_partition \<Rightarrow> nat set" where
  "mbr_partition_span p =
     {unat (mbr_first_lba p) * 512 ..< (unat (mbr_first_lba p) + unat (mbr_sector_count p)) * 512}"

definition mbr_planned_span :: "planned_mbr_partition_copy list \<Rightarrow> nat set" where
  "mbr_planned_span copies = (\<Union>c \<in> set copies. ranges_span (mpc_source_ranges c))"

definition copy_of_mbr_partition :: "mbr_partition \<Rightarrow> planned_mbr_partition_copy \<Rightarrow> bool" where
  "copy_of_mbr_partition p c \<longleftrightarrow>
     mpc_table_index c = table_index p \<and> list_all range_fits (mpc_source_ranges c) \<and>
     ranges_span (mpc_source_ranges c) \<subseteq> mbr_partition_span p \<and>
     (\<Sum>r\<leftarrow>mpc_source_ranges c. unat (range_length r)) = card (ranges_span (mpc_source_ranges c)) \<and>
     (mpc_mode c \<noteq> Mbr_ntfs_used_clusters \<longrightarrow> ranges_span (mpc_source_ranges c) = mbr_partition_span p) \<and>
     (mpc_mode c = Mbr_ntfs_used_clusters \<longrightarrow>
        mbr_type p = 0x07 \<and> unat (mbr_first_lba p) * 512 \<in> ranges_span (mpc_source_ranges c))"

lemma mbr_partition_byte_range_success:
  assumes "mbr_partition_byte_range p 512 = Inr part"
  shows "range_fits part" "range_span part = mbr_partition_span p"
    "unat (range_offset part) = unat (mbr_first_lba p) * 512"
proof -
  from assms obtain o' l where o': "checked_multiply (ucast (mbr_first_lba p)) 512 = Some o'"
    and l: "checked_multiply (ucast (mbr_sector_count p)) 512 = Some l"
    and part: "part = \<lparr>range_offset = o', range_length = l\<rparr>"
    by (auto simp: mbr_partition_byte_range_def split: option.splits)
  have off: "unat o' = unat (mbr_first_lba p) * 512" and len: "unat l = unat (mbr_sector_count p) * 512"
    using checked_multiply_SomeD(1) [OF o'] checked_multiply_SomeD(1) [OF l] by simp_all
  have e: "unat o' + unat l = (unat (mbr_first_lba p) + unat (mbr_sector_count p)) * 512"
    by (simp add: off len)
  show "range_fits part"
    using unat_u32_bound [of "mbr_first_lba p"] unat_u32_bound [of "mbr_sector_count p"] e
    by (simp add: range_fits_def part)
  show "range_span part = mbr_partition_span p"
    unfolding range_span_def span_def part mbr_partition_span_def e [symmetric] off [symmetric] by simp
  show "unat (range_offset part) = unat (mbr_first_lba p) * 512" by (simp add: part off)
qed

lemma plan_mbr_partition_success:
  assumes plan: "plan_mbr_partition source provider 512 p s = (Inr c, t)"
  shows "copy_of_mbr_partition p c"
proof -
  from plan obtain part where part: "mbr_partition_byte_range p 512 = Inr part"
    unfolding plan_mbr_partition_def bindE_eq_Inr of_result_eq by metis
  note pr = mbr_partition_byte_range_success [OF part]
  show ?thesis
  proof (cases "mpc_mode c = Mbr_ntfs_used_clusters")
    case True
    then obtain ranges g where v: "validate_used_ranges ranges part g = Inr (mpc_source_ranges c)"
      and b: "mbr_type p = 0x07" and i: "mpc_table_index c = table_index p"
      using plan part
      by (auto simp: plan_mbr_partition_def plan_mbr_basic_data_def bindE_eq_Inr split: if_splits)
    let ?r = "hd (mpc_source_ranges c)"
    have ne: "?r \<in> set (mpc_source_ranges c)" using validate_used_ranges_success(2) [OF v] by simp
    have "unat (range_offset part) \<in> range_span ?r"
      using validate_used_ranges_first [OF v] by simp
    then have "unat (mbr_first_lba p) * 512 \<in> ranges_span (mpc_source_ranges c)"
      using ne pr(3) by (auto simp: ranges_span_def)
    moreover have "ranges_span (mpc_source_ranges c) \<subseteq> mbr_partition_span p"
      using validate_used_ranges_inside [OF v pr(1)] ranges_span_mono [of "mbr_partition_span p"]
      by (simp add: pr(2) list_all_iff)
    ultimately show ?thesis
      using True validate_used_ranges_inside [OF v pr(1)] b i
        card_ranges_span [OF validate_used_ranges_ordered [OF v pr(1)]]
      by (simp add: copy_of_mbr_partition_def list_all_iff)
  next
    case False
    then have "mpc_source_ranges c = [part] \<and> mpc_table_index c = table_index p"
      using plan part
      by (auto simp: plan_mbr_partition_def plan_mbr_basic_data_def bindE_eq_Inr split: if_splits)
    then show ?thesis
      using False pr card_ranges_span [of "[part]"] by (auto simp: copy_of_mbr_partition_def)
  qed
qed

text \<open>
  Which mode a partition is planned in, by its type byte and its boot sector, and what is copied of
  an NTFS volume: exactly the bytes that the provider reported.
\<close>

definition mbr_volume_copied ::
  "'s source_reader \<Rightarrow> 's used_range_provider \<Rightarrow> mbr_partition \<Rightarrow> planned_mbr_partition_copy \<Rightarrow> bool" where
  "mbr_volume_copied source provider p c \<longleftrightarrow>
     (\<exists>part. mbr_partition_byte_range p 512 = Inr part \<and>
       (case mpc_mode c of
          Mbr_fat32_raw \<Rightarrow> mbr_type p \<in> {0x0B, 0x0C}
        | Mbr_recovery_ntfs_raw \<Rightarrow> mbr_type p = 0x27 \<and> \<not> mbr_active p
        | Mbr_exfat_raw \<Rightarrow> mbr_type p = 0x07 \<and> boot_file_system source part Exfat
        | Mbr_ntfs_used_clusters \<Rightarrow> mbr_type p = 0x07 \<and> boot_file_system source part Ntfs \<and>
            reported_used source provider (ucast (table_index p)) part (ranges_span (mpc_source_ranges c))))"

lemma plan_mbr_partition_volume:
  assumes plan: "plan_mbr_partition source provider 512 p s = (Inr c, t)"
  shows "mbr_volume_copied source provider p c"
proof -
  from plan obtain part where part: "mbr_partition_byte_range p 512 = Inr part"
    unfolding plan_mbr_partition_def bindE_eq_Inr of_result_eq by metis
  show ?thesis
  proof (cases "mbr_type p = 0x07")
    case False
    then show ?thesis
      using plan part
      by (auto simp: plan_mbr_partition_def bindE_eq_Inr mbr_volume_copied_def split: if_splits)
  next
    case True
    then obtain boot u v w where boot: "read_boot_sector source part u = (Inr boot, v)"
      and basic: "plan_mbr_basic_data source provider p part boot v = (Inr c, w)"
      using plan part by (auto simp: plan_mbr_partition_def bindE_eq_Inr split: if_splits)
    from basic obtain fs where fs: "classify_basic_data_file_system boot (src_logical_sector_size source)
        (range_length part) = Inr fs"
      unfolding plan_mbr_basic_data_def bindE_eq_Inr of_result_eq by metis
    have shown: "boot_file_system source part fs" using boot fs by (auto simp: boot_file_system_def)
    show ?thesis
    proof (cases "fs = Ntfs")
      case False
      then have "mpc_mode c = Mbr_exfat_raw \<and> fs = Exfat"
        using basic fs by (auto simp: plan_mbr_basic_data_def bindE_eq_Inr split: if_splits)
      then show ?thesis using True part shown by (auto simp: mbr_volume_copied_def)
    next
      case ntfs: True
      then obtain geometry ranges x y where
        g: "parse_ntfs_geometry boot (src_logical_sector_size source) (range_length part) = Inr geometry"
        and r: "provider (ucast (table_index p)) geometry x = (Inr ranges, y)"
        and v: "validate_used_ranges ranges part geometry = Inr (mpc_source_ranges c)"
        and m: "mpc_mode c = Mbr_ntfs_used_clusters"
        using basic fs unfolding plan_mbr_basic_data_def bindE_eq_Inr of_result_eq
        by (auto simp: bindE_eq_Inr ntfs dest: sym)
      have "ranges_span (mpc_source_ranges c) = (\<lambda>i. unat (range_offset part) + i) ` ranges_span ranges"
        by (rule validate_used_ranges_span [OF v mbr_partition_byte_range_success(1) [OF part]])
      then have "reported_used source provider (ucast (table_index p)) part (ranges_span (mpc_source_ranges c))"
        unfolding reported_used_def using boot g r by blast
      then show ?thesis using True part shown by (simp add: mbr_volume_copied_def m ntfs)
    qed
  qed
qed

lemma plan_mbr_partitions_volumes:
  "plan_mbr_partitions source provider 512 ps s = (Inr cs, t) \<Longrightarrow>
   list_all2 (mbr_volume_copied source provider) ps cs"
  by (induction ps arbitrary: s cs)
    (auto simp: bindE_eq_Inr dest: plan_mbr_partition_volume)

lemma plan_mbr_partitions_success:
  "plan_mbr_partitions source provider 512 ps s = (Inr cs, t) \<Longrightarrow> list_all2 copy_of_mbr_partition ps cs"
  by (induction ps arbitrary: s cs)
    (auto simp: bindE_eq_Inr dest: plan_mbr_partition_success)

text \<open>What a plan is.\<close>

definition mbr_plan_of ::
  "'s source_reader \<Rightarrow> 's target_writer \<Rightarrow> 's used_range_provider \<Rightarrow> ('s, u32) prog \<Rightarrow> u32 list \<Rightarrow> offline_mbr_clone_plan \<Rightarrow> bool" where
  "mbr_plan_of source target provider next_signature disallowed plan \<longleftrightarrow>
     (\<exists>s t. parse_mbr source s = (Inr (omp_source_mbr plan), t)) \<and>
     (\<exists>s t. make_mbr_write_plan (omp_source_mbr plan) (tgt_size_bytes target) 512 next_signature disallowed
        (list_ex mbr_active (mbr_partitions (omp_source_mbr plan))) s = (Inr (omp_target_mbr plan), t)) \<and>
     list_all2 copy_of_mbr_partition (mbr_partitions (omp_source_mbr plan)) (omp_partition_copies plan) \<and>
     list_all2 (mbr_volume_copied source provider) (mbr_partitions (omp_source_mbr plan))
       (omp_partition_copies plan)"

lemma build_offline_mbr_clone_plan_of:
  assumes "tgt_logical_sector_size target = 512"
    and "build_offline_mbr_clone_plan source target provider next_signature disallowed s = (Inr plan, t)"
  shows "mbr_plan_of source target provider next_signature disallowed plan"
proof -
  from assms obtain d w cs u v where d: "parse_mbr source s = (Inr d, u)"
    and w: "make_mbr_write_plan d (tgt_size_bytes target) 512 next_signature disallowed
       (list_ex mbr_active (mbr_partitions d)) u = (Inr w, v)"
    and cs: "plan_mbr_partitions source provider (mbr_sector_size d) (mbr_partitions d) v = (Inr cs, t)"
    and plan: "plan = \<lparr>omp_source_mbr = d, omp_target_mbr = w, omp_partition_copies = cs\<rparr>"
    by (auto simp: build_offline_mbr_clone_plan_def bindE_eq_Inr)
  have "mbr_sector_size d = 512" using parse_mbr_result_wf(1) [OF d] by (simp add: mbr_wf_def mbr_table_wf_def)
  then have "list_all2 copy_of_mbr_partition (mbr_partitions d) cs"
    "list_all2 (mbr_volume_copied source provider) (mbr_partitions d) cs"
    using plan_mbr_partitions_success plan_mbr_partitions_volumes cs by metis+
  then show ?thesis using d w by (auto simp: mbr_plan_of_def plan)
qed

lemma interval_bounds:
  fixes lo hi :: nat
  shows "n \<le> lo \<Longrightarrow> hi \<le> a \<Longrightarrow> hi \<le> b \<Longrightarrow>
    {lo..<hi} \<inter> {0..<0 + n} = {} \<and> {lo..<hi} \<subseteq> {0..<a} \<and> {lo..<hi} \<subseteq> {0..<b}"
  by auto

lemma mbr_plan_facts:
  assumes "mbr_plan_of source target provider next_signature disallowed plan"
  shows "length (mwp_sector (omp_target_mbr plan)) = 512"
    "mbr_planned_span (omp_partition_copies plan) \<inter> span 0 512 = {}"
    "(\<Sum>c\<leftarrow>omp_partition_copies plan. \<Sum>r\<leftarrow>mpc_source_ranges c. unat (range_length r)) =
       card (mbr_planned_span (omp_partition_copies plan))"
    "mbr_planned_span (omp_partition_copies plan) \<subseteq>
       {0..<min (unat (src_size_bytes source)) (unat (tgt_size_bytes target))}"
    "parse_mbr (memory_source_reader (tgt_size_bytes target) 512 (img_update img 0 (mwp_sector (omp_target_mbr plan)))) s =
       (Inr (mwp_target_disk (omp_target_mbr plan)), s)"
    "mbr_partitions (mwp_target_disk (omp_target_mbr plan)) = mbr_partitions (omp_source_mbr plan)"
    "disk_signature (mwp_target_disk (omp_target_mbr plan)) \<notin> set disallowed"
proof -
  let ?d = "omp_source_mbr plan" and ?cs = "omp_partition_copies plan" and ?t = "mwp_target_disk (omp_target_mbr plan)"
  let ?ps = "mbr_partitions ?d"
  from assms obtain u v u' v' where parse: "parse_mbr source u = (Inr ?d, v)"
    and make: "make_mbr_write_plan ?d (tgt_size_bytes target) 512 next_signature disallowed
       (list_ex mbr_active ?ps) u' = (Inr (omp_target_mbr plan), v')"
    and copies: "list_all2 copy_of_mbr_partition ?ps ?cs"
    by (auto simp: mbr_plan_of_def)
  note wf = parse_mbr_result_wf [OF parse]
  obtain sig where a: "sig \<notin> insert 0 (insert (disk_signature ?d) (set disallowed))"
    "?t = ?d\<lparr>mbr_disk_sectors := tgt_size_bytes target div 512, disk_signature := sig\<rparr>"
    "mwp_sector (omp_target_mbr plan) = mbr_sector ?t" "mbr_wf ?t"
    "unat (tgt_size_bytes target) = unat (mbr_disk_sectors ?t) * 512"
    by (rule make_mbr_write_planE [OF wf(1) make]) (rule that; assumption)
  show "length (mwp_sector (omp_target_mbr plan)) = 512" by (simp add: a(3))
  show "mbr_partitions ?t = ?ps" "disk_signature ?t \<notin> set disallowed" using a(1) by (simp_all add: a(2))
  have "mbr_table_wf ?t" using a(4) by (simp add: mbr_wf_def)
  from parse_written_mbr [OF this a(5), of img s]
  show "parse_mbr (memory_source_reader (tgt_size_bytes target) 512 (img_update img 0 (mwp_sector (omp_target_mbr plan)))) s =
       (Inr ?t, s)"
    using mbr_wf_sort_id [OF a(4)] by (simp add: a(3))
  have part: "mbr_partition_span p \<inter> span 0 512 = {} \<and> mbr_partition_span p \<subseteq> {0..<unat (src_size_bytes source)} \<and>
      mbr_partition_span p \<subseteq> {0..<unat (tgt_size_bytes target)}" if "p \<in> set ?ps" for p
  proof -
    have "mbr_partition_wf ?d p" "mbr_partition_wf ?t p"
      using wf(1) a(4) that by (auto simp: mbr_wf_def mbr_table_wf_def list_all_iff a(2))
    then have p: "0 < unat (mbr_first_lba p)"
      "unat (mbr_first_lba p) + unat (mbr_sector_count p) \<le> unat (mbr_disk_sectors ?d)"
      "unat (mbr_first_lba p) + unat (mbr_sector_count p) \<le> unat (mbr_disk_sectors ?t)"
      by (auto simp: mbr_partition_wf_def unat_gt_0)
    let ?lo = "unat (mbr_first_lba p) * 512"
      and ?hi = "(unat (mbr_first_lba p) + unat (mbr_sector_count p)) * 512"
    have "512 \<le> ?lo" using p(1) by simp
    moreover have "?hi \<le> unat (src_size_bytes source)"
      using mult_le_mono1 [OF p(2), of 512] wf(3) by linarith
    moreover have "?hi \<le> unat (tgt_size_bytes target)"
      using mult_le_mono1 [OF p(3), of 512] a(5) by linarith
    ultimately have "{?lo..<?hi} \<inter> {0..<0 + 512} = {} \<and> {?lo..<?hi} \<subseteq> {0..<unat (src_size_bytes source)} \<and>
        {?lo..<?hi} \<subseteq> {0..<unat (tgt_size_bytes target)}"
      by (rule interval_bounds)
    then show ?thesis unfolding mbr_partition_span_def span_def .
  qed
  have source: "\<exists>p \<in> set ?ps. copy_of_mbr_partition p c" if "c \<in> set ?cs" for c
  proof -
    from that obtain i where i: "i < length ?cs" "c = ?cs ! i" by (auto simp: in_set_conv_nth)
    have "copy_of_mbr_partition (?ps ! i) c" "?ps ! i \<in> set ?ps"
      using list_all2_nthD2 [OF copies i(1)] list_all2_lengthD [OF copies] i by simp_all
    then show ?thesis by blast
  qed
  have inside: "\<exists>p \<in> set ?ps. ranges_span (mpc_source_ranges c) \<subseteq> mbr_partition_span p" if "c \<in> set ?cs" for c
    using source [OF that] unfolding copy_of_mbr_partition_def by blast
  show "mbr_planned_span ?cs \<inter> span 0 512 = {}"
    "mbr_planned_span ?cs \<subseteq> {0..<min (unat (src_size_bytes source)) (unat (tgt_size_bytes target))}"
    unfolding mbr_planned_span_def using part inside by fastforce+
  have dis: "sorted_wrt mbr_disjoint ?ps" using wf(1) by (simp add: mbr_wf_def mbr_table_wf_def)
  have dis_span: "mbr_partition_span p \<inter> mbr_partition_span q = {}" if "mbr_disjoint p q" for p q
    using that by (auto simp: mbr_disjoint_def mbr_partition_span_def)
  have "sorted_wrt (\<lambda>c c'. ranges_span (mpc_source_ranges c) \<inter> ranges_span (mpc_source_ranges c') = {}) ?cs"
    unfolding sorted_wrt_iff_nth_less
  proof (intro allI impI)
    fix i j assume ij: "i < j" "j < length ?cs"
    then have "mbr_disjoint (?ps ! i) (?ps ! j)"
      using dis list_all2_lengthD [OF copies] by (simp add: sorted_wrt_iff_nth_less)
    moreover have "ranges_span (mpc_source_ranges (?cs ! k)) \<subseteq> mbr_partition_span (?ps ! k)" if "k < length ?cs" for k
      using list_all2_nthD2 [OF copies that] by (simp add: copy_of_mbr_partition_def)
    ultimately show "ranges_span (mpc_source_ranges (?cs ! i)) \<inter> ranges_span (mpc_source_ranges (?cs ! j)) = {}"
      using dis_span ij by (meson disjoint_iff less_trans subsetD)
  qed
  from card_disjoint_UN [OF this]
  have "card (mbr_planned_span ?cs) = (\<Sum>c\<leftarrow>?cs. card (ranges_span (mpc_source_ranges c)))"
    by (simp add: mbr_planned_span_def finite_ranges_span)
  also have "\<dots> = (\<Sum>c\<leftarrow>?cs. \<Sum>r\<leftarrow>mpc_source_ranges c. unat (range_length r))"
    using source by (intro arg_cong [of _ _ sum_list] map_cong refl) (fastforce simp: copy_of_mbr_partition_def)
  finally show "(\<Sum>c\<leftarrow>?cs. \<Sum>r\<leftarrow>mpc_source_ranges c. unat (range_length r)) = card (mbr_planned_span ?cs)"
    by simp
qed

text \<open>A disk whose first sector ends with zeros has no MBR.\<close>

definition no_mbr :: "u64 \<Rightarrow> image \<Rightarrow> bool" where
  "no_mbr size_bytes img \<longleftrightarrow>
     (\<forall>s. \<exists>e t. parse_mbr (memory_source_reader size_bytes 512 img) (s :: unit) = (Inl e, t))"

lemma no_mbrI:
  assumes "\<And>i. i \<in> span 0 512 \<Longrightarrow> img i = 0"
  shows "no_mbr size_bytes img"
proof -
  have "img_bytes img 0 512 = replicate 512 0"
    using assms by (intro nth_equalityI) (auto simp: span_def)
  then have "(read_little (img_bytes img 0 512) 510 :: u8) = 0"
    by (simp add: read_little_zeros)
  then have "\<nexists>d t. parse_mbr (memory_source_reader size_bytes 512 img) s = (Inr d, t)" for s :: unit
    by (auto simp: parse_mbr_def Let_def bindE_eq_Inr dest!: memory_source_read_success split: if_splits)
  then show ?thesis unfolding no_mbr_def by (metis sumE surj_pair)
qed

section \<open>Execution\<close>

definition cloned_mbr_image :: "image \<Rightarrow> offline_mbr_clone_plan \<Rightarrow> image \<Rightarrow> image" where
  "cloned_mbr_image simg plan img =
     img_update (overlay simg (mbr_planned_span (omp_partition_copies plan)) img) 0 (mwp_sector (omp_target_mbr plan))"

definition mbr_interrupted :: "image \<Rightarrow> u64 \<Rightarrow> offline_mbr_clone_plan \<Rightarrow> image \<Rightarrow> image \<Rightarrow> bool" where
  "mbr_interrupted simg sz plan img img' \<longleftrightarrow>
     only_within (erased_span sz) img img' \<or> no_mbr sz img' \<or>
     only_within (span 0 512) (cloned_mbr_image simg plan (erased_image sz img)) img'"

lemma erased_image_sector [simp]: "i \<in> span 0 512 \<Longrightarrow> erased_image size_bytes img i = 0"
  by (simp add: erased_image_def overlay_def erased_span_def span_def)

lemma overlay_then_within:
  "only_within W (overlay src V img) img' \<Longrightarrow> only_within (W \<union> V) img img'"
  using only_within_trans [OF only_within_overlay [OF order_refl]] by (simp add: Un_commute [of W])

context clone_world
begin

lemma copy_mbr_partitions_spec:
  "list_all (\<lambda>c. list_all range_fits (mpc_source_ranges c)) copies \<Longrightarrow>
   hoare (\<lambda>s. timg s = img) (copy_mbr_partitions cng src tgt m cbs copies st)
     (\<lambda>st s. timg s = overlay simg (mbr_planned_span copies) img)
     (\<lambda>e s. only_within (mbr_planned_span copies) img (timg s))"
proof (induction copies arbitrary: img st)
  case Nil
  then show ?case by (simp add: hoare_pre [OF hoare_returnE] mbr_planned_span_def)
next
  case (Cons c copies)
  obtain cs n where st: "st = (cs, n)" by (cases st)
  let ?V = "ranges_span (mpc_source_ranges c)"
  let ?mid = "overlay simg ?V img"
  have span: "mbr_planned_span (c # copies) = ?V \<union> mbr_planned_span copies"
    by (simp add: mbr_planned_span_def)
  have first: "hoare (\<lambda>s. timg s = img)
      (copy_ranges cng src tgt m (ucast (mpc_table_index c)) cbs (mpc_source_ranges c) cs)
      (\<lambda>cs s. timg s = ?mid) (\<lambda>e s. only_within (?V \<union> mbr_planned_span copies) img (timg s))"
    using Cons.prems by (intro hoare_conseq [OF copy_ranges_spec]) (auto elim: only_within_mono)
  have "hoare (\<lambda>s. timg s = ?mid) (copy_mbr_partitions cng src tgt m cbs copies st)
      (\<lambda>st s. timg s = overlay simg (?V \<union> mbr_planned_span copies) img)
      (\<lambda>e s. only_within (?V \<union> mbr_planned_span copies) img (timg s))" for st
    using Cons.prems by (intro hoare_conseq [OF Cons.IH])
      (auto simp: Un_commute [of ?V] intro: overlay_then_within)
  with first show ?case by (simp add: st span hoare_bindE)
qed

lemma copy_mbr_data_spec:
  assumes cbs: "omr_callbacks request = cbs"
    and fits: "list_all (\<lambda>c. list_all range_fits (mpc_source_ranges c)) (omp_partition_copies plan)"
  defines "W \<equiv> mbr_planned_span (omp_partition_copies plan)"
  shows "hoare (\<lambda>s. timg s = img) (copy_mbr_data cng request src tgt plan digest progress)
    (\<lambda>st s. timg s = overlay simg W img) (\<lambda>e s. only_within W img (timg s))"
proof -
  have fin: "only_within W img (overlay simg W img)" by (simp add: only_within_overlay)
  have copies: "hoare (\<lambda>s. timg s = img) (copy_mbr_partitions cng src tgt m cbs (omp_partition_copies plan) st)
      (\<lambda>st s. timg s = overlay simg W img) (\<lambda>e s. only_within W img (timg s))" for m st
    unfolding W_def by (rule copy_mbr_partitions_spec [OF fits])
  show ?thesis
    unfolding copy_mbr_data_def cbs cancelled_status_def
    by (auto simp: split_beta intro!: hoare_bindE [OF copies]
        hoare_bindE [OF hoare_same [OF progress_keeps fin]] hoare_bindE [OF hoare_same [OF flush_keeps fin]]
        hoare_bindE [OF hoare_same [OF cancellation_keeps fin]]
        hoare_pre [OF hoare_returnE] hoare_pre [OF hoare_failE] fin)
qed

lemma commit_mbr_spec:
  assumes cbs: "omr_callbacks request = cbs" and len: "length (mwp_sector (omp_target_mbr plan)) = 512"
  shows "hoare (\<lambda>s. timg s = img) (commit_mbr cng request tgt plan st)
    (\<lambda>report s. timg s = img_update img 0 (mwp_sector (omp_target_mbr plan)) \<and>
       omt_target_disk_signature report = disk_signature (mwp_target_disk (omp_target_mbr plan)))
    (\<lambda>e s. only_within (span 0 512) img (timg s))"
proof -
  let ?new = "img_update img 0 (mwp_sector (omp_target_mbr plan))"
  have fin: "only_within (span 0 512) img ?new"
    using only_within_update [of 0 "mwp_sector (omp_target_mbr plan)" img] len by simp
  have written: "hoare (\<lambda>s. timg s = img)
      (write_and_verify cng tgt 0 (mwp_sector (omp_target_mbr plan)) d)
      (\<lambda>d s. timg s = ?new) (\<lambda>e s. only_within (span 0 512) img (timg s))" for d
    by (rule hoare_conseq [OF write_and_verify_spec]) (simp_all add: len)
  have finish: "keeps timg (liftE (digest_finish cng d))" for d
    using keeps_digest_finish [OF cng_keep] by (rule keeps_liftE)
  show ?thesis
    unfolding commit_mbr_def cbs
    by (auto simp: split_beta intro!: hoare_bindE [OF hoare_same [OF progress_keeps only_within_refl]]
        hoare_bindE [OF written] hoare_bindE [OF hoare_same [OF flush_keeps fin]]
        hoare_bindE [OF hoare_same [OF finish fin]] hoare_bindE [OF hoare_same [OF keeps_simple(3) fin]]
        hoare_bindE [OF hoare_same [OF progress_keeps fin]] hoare_pre [OF hoare_returnE])
qed

lemma prepare_mbr_clone_spec:
  assumes cbs: "omr_callbacks request = cbs" and sizes: "tgt_logical_sector_size tgt = 512"
    and provider: "\<forall>i g. keeps timg (provider i g)" and signatures: "keeps timg next_signature"
  shows "hoare (\<lambda>s. timg s = img) (prepare_mbr_clone cng request src tgt provider next_signature)
    (\<lambda>(plan, digest, progress) s. timg s = img \<and>
       mbr_plan_of src tgt provider next_signature (omr_connected_mbr_signatures request) plan)
    (\<lambda>e s. timg s = img)"
proof -
  have build: "keeps timg (build_offline_mbr_clone_plan src tgt provider next_signature ds)" for ds
    using provider by (intro keeps_build_offline_mbr_clone_plan signatures source_keeps) simp
  have keep: "keeps timg (prepare_mbr_clone cng request src tgt provider next_signature)"
    unfolding prepare_mbr_clone_def cbs cancelled_status_def
    by (auto split: option.split intro!: keeps_bindE engine_keeps build)
  have "\<exists>u v. build_offline_mbr_clone_plan src tgt provider next_signature
        (omr_connected_mbr_signatures request) u = (Inr (fst r), v)"
    if "prepare_mbr_clone cng request src tgt provider next_signature s = (Inr r, t)" for s r t
    using that unfolding prepare_mbr_clone_def
    by (auto simp: bindE_eq_Inr cancelled_status_def split: if_splits option.splits) blast
  then have "mbr_plan_of src tgt provider next_signature (omr_connected_mbr_signatures request) (fst r)"
    if "prepare_mbr_clone cng request src tgt provider next_signature s = (Inr r, t)" for s r t
    using build_offline_mbr_clone_plan_of [OF sizes] that by blast
  then show ?thesis
    by (intro hoareI) (auto dest: keepsD [OF keep])
qed

lemma execute_offline_mbr_clone_spec:
  assumes cbs: "omr_callbacks request = cbs"
    and provider: "\<forall>i g. keeps timg (provider i g)" and signatures: "keeps timg next_signature"
  defines "sz \<equiv> tgt_size_bytes tgt" and "ds \<equiv> omr_connected_mbr_signatures request"
  shows "hoare (\<lambda>s. timg s = img) (execute_offline_mbr_clone cng request src tgt provider next_signature)
    (\<lambda>report s. \<exists>plan. mbr_plan_of src tgt provider next_signature ds plan \<and>
       timg s = cloned_mbr_image simg plan (erased_image sz img) \<and>
       omt_target_disk_signature report = disk_signature (mwp_target_disk (omp_target_mbr plan)))
    (\<lambda>e s. timg s = img \<or>
       (\<exists>plan. mbr_plan_of src tgt provider next_signature ds plan \<and> mbr_interrupted simg sz plan img (timg s)))"
    (is "hoare ?pre _ ?Q ?E")
proof -
  have fail: "hoare ?pre (failE e) ?Q ?E" for e
    by (rule hoare_pre [OF hoare_failE]) simp
  have checks: "hoare ?pre (of_result r) (\<lambda>u. ?pre) ?E" for r :: status
    by (rule hoare_conseq [OF hoare_keeps [OF keeps_simple(3), where P = "\<lambda>j. j = img"]]) auto
  have rest: "hoare (\<lambda>s. timg s = img \<and> mbr_plan_of src tgt provider next_signature ds plan)
      (bindE (invalidate_target cng tgt cbs) (\<lambda>u.
       bindE (copy_mbr_data cng request src tgt plan digest progress) (commit_mbr cng request tgt plan)))
      ?Q ?E" for plan digest progress
  proof (subst conj_commute, rule hoare_pure)
    assume plan: "mbr_plan_of src tgt provider next_signature ds plan"
    note facts = mbr_plan_facts [OF plan]
    let ?W = "mbr_planned_span (omp_partition_copies plan)" and ?img = "erased_image sz img"
    have fits: "list_all (\<lambda>c. list_all range_fits (mpc_source_ranges c)) (omp_partition_copies plan)"
      using plan by (auto simp: mbr_plan_of_def list_all2_conv_all_nth list_all_length copy_of_mbr_partition_def)
    have erase: "hoare ?pre (invalidate_target cng tgt cbs) (\<lambda>u s. timg s = ?img) ?E"
      unfolding erased_image_def sz_def
      by (rule hoare_conseq [OF invalidate_target_spec]) (use plan in \<open>auto simp: mbr_interrupted_def\<close>)
    have none: "no_mbr sz j" if "only_within ?W ?img j" for j
    proof (rule no_mbrI)
      fix i assume i: "i \<in> span 0 512"
      then have "i \<notin> ?W" using facts(2) by blast
      then show "j i = 0" using only_within_eq [OF that] i by simp
    qed
    have copied: "hoare (\<lambda>s. timg s = ?img) (copy_mbr_data cng request src tgt plan digest progress)
        (\<lambda>st s. timg s = overlay simg ?W ?img) ?E"
      by (rule hoare_conseq [OF copy_mbr_data_spec [OF cbs fits]])
        (use plan none in \<open>auto simp: mbr_interrupted_def\<close>)
    have commit: "hoare (\<lambda>s. timg s = overlay simg ?W ?img) (commit_mbr cng request tgt plan st) ?Q ?E" for st
    proof (rule hoare_conseq [OF commit_mbr_spec [OF cbs facts(1)]])
      fix e s assume "only_within (span 0 512) (overlay simg ?W ?img) (timg s)"
      then have "only_within (span 0 512) (cloned_mbr_image simg plan ?img) (timg s)"
        using facts(1) by (auto simp: cloned_mbr_image_def only_within_def img_update_def span_def)
      then show "?E e s" using plan by (auto simp: mbr_interrupted_def)
    qed (use plan in \<open>auto simp: cloned_mbr_image_def\<close>)
    show "hoare ?pre (bindE (invalidate_target cng tgt cbs) (\<lambda>u.
       bindE (copy_mbr_data cng request src tgt plan digest progress) (commit_mbr cng request tgt plan))) ?Q ?E"
      by (rule hoare_bindE [OF erase], rule hoare_bindE [OF copied commit])
  qed
  show ?thesis
    unfolding execute_offline_mbr_clone_def
  proof (rule hoare_bindE [OF checks], intro hoare_if_inv fail)
    assume "\<not> (omr_maximum_chunk_bytes request = 0 \<or> omr_maximum_chunk_bytes request > 16 * 1024 * 1024 \<or>
        src_logical_sector_size src \<noteq> 512 \<or> tgt_logical_sector_size tgt \<noteq> 512 \<or>
        id_size_bytes (omr_observed_source request) \<noteq> src_size_bytes src \<or>
        id_size_bytes (omr_observed_target request) \<noteq> tgt_size_bytes tgt \<or>
        id_logical_sector_size (omr_observed_source request) \<noteq> 512 \<or>
        id_logical_sector_size (omr_observed_target request) \<noteq> 512 \<or>
        tgt_size_bytes tgt < of_nat (2 * kTargetMetadataInvalidationBytes))"
    then have sector: "tgt_logical_sector_size tgt = 512" by simp
    have prepare: "hoare ?pre (prepare_mbr_clone cng request src tgt provider next_signature)
        (\<lambda>(plan, digest, progress) s. timg s = img \<and> mbr_plan_of src tgt provider next_signature ds plan) ?E"
      unfolding ds_def
      by (rule hoare_conseq [OF prepare_mbr_clone_spec [OF cbs sector provider signatures]]) auto
    show "hoare ?pre (bindE (prepare_mbr_clone cng request src tgt provider next_signature)
         (\<lambda>(plan, digest, progress).
       bindE (invalidate_target cng tgt (omr_callbacks request)) (\<lambda>u.
       bindE (copy_mbr_data cng request src tgt plan digest progress) (\<lambda>copied.
       commit_mbr cng request tgt plan copied)))) ?Q ?E"
      unfolding cbs using rest by (intro hoare_bindE [OF prepare]) (auto simp: split_beta)
  qed
qed

end

section \<open>A clone on working devices completes\<close>

definition mbr_request_ok :: "'s offline_mbr_clone_request \<Rightarrow> 's source_reader \<Rightarrow> 's target_writer \<Rightarrow> bool" where
  "mbr_request_ok request source target \<longleftrightarrow>
     validate_clone_identities (omr_expected_source request) (omr_observed_source request)
       (omr_expected_target request) (omr_observed_target request) (omr_confirmation request) True =
       success_status \<and>
     0 < unat (omr_maximum_chunk_bytes request) \<and>
     unat (omr_maximum_chunk_bytes request) \<le> 16 * 1024 * 1024 \<and>
     id_size_bytes (omr_observed_source request) = src_size_bytes source \<and>
     id_size_bytes (omr_observed_target request) = tgt_size_bytes target \<and>
     id_logical_sector_size (omr_observed_source request) = 512 \<and>
     id_logical_sector_size (omr_observed_target request) = 512 \<and>
     src_logical_sector_size source = 512 \<and> tgt_logical_sector_size target = 512 \<and>
     2 * kTargetMetadataInvalidationBytes \<le> unat (tgt_size_bytes target)"

context reliable_world
begin

lemma copy_mbr_partitions_ok:
  assumes m: "0 < unat m" "unat m \<le> kMaximumVerifiedWriteBytes"
  shows "mbr_planned_span copies \<subseteq> {0..<min (unat (src_size_bytes src)) (unat (tgt_size_bytes tgt))} \<Longrightarrow>
    k + (\<Sum>c\<leftarrow>copies. \<Sum>r\<leftarrow>mpc_source_ranges c. unat (range_length r)) < 2 ^ 64 \<Longrightarrow>
    digest_room k (cs_digest (fst st)) \<Longrightarrow>
    never_fails (copy_mbr_partitions cng src tgt m cbs copies st)
      (\<lambda>st. digest_room (k + (\<Sum>c\<leftarrow>copies. \<Sum>r\<leftarrow>mpc_source_ranges c. unat (range_length r))) (cs_digest (fst st)))"
proof (induction copies arbitrary: k st)
  case Nil
  then show ?case by (simp add: never_fails_returnE)
next
  case (Cons c copies)
  obtain cs n where st: "st = (cs, n)" by (cases st)
  let ?n = "\<Sum>r\<leftarrow>mpc_source_ranges c. unat (range_length r)"
  have span: "mbr_planned_span (c # copies) = ranges_span (mpc_source_ranges c) \<union> mbr_planned_span copies"
    by (simp add: mbr_planned_span_def)
  have rest: "never_fails (copy_mbr_partitions cng src tgt m cbs copies st')
      (\<lambda>st. digest_room (k + (\<Sum>c\<leftarrow>c # copies. \<Sum>r\<leftarrow>mpc_source_ranges c. unat (range_length r)))
        (cs_digest (fst st)))"
    if "digest_room (k + ?n) (cs_digest (fst st'))" for st'
    using Cons.IH [of "k + ?n" st'] Cons.prems(1,2) that by (simp add: span add.assoc)
  have "list_all copyable (mpc_source_ranges c)"
    using Cons.prems(1) by (auto simp: span ranges_span_def list_all_iff copyable_def)
  then have "never_fails (copy_ranges cng src tgt m (ucast (mpc_table_index c)) cbs (mpc_source_ranges c) cs)
      (\<lambda>cs'. digest_room (k + ?n) (cs_digest cs'))"
    using Cons.prems(2,3) by (intro copy_ranges_ok m) (simp_all add: st)
  then show ?case using rest by (auto simp: st intro: never_fails_bindE)
qed

lemma execute_offline_mbr_clone_ok:
  assumes request: "mbr_request_ok request src tgt" and cbs: "omr_callbacks request = cbs"
    and plans: "never_fails (build_offline_mbr_clone_plan src tgt provider next_signature
      (omr_connected_mbr_signatures request)) (\<lambda>plan. True)"
  shows "never_fails (execute_offline_mbr_clone cng request src tgt provider next_signature)
    (\<lambda>report. omt_read_back_verified report \<and> omt_target_mbr_committed report)"
proof -
  note req = request [unfolded mbr_request_ok_def]
  let ?m = "omr_maximum_chunk_bytes request" and ?ds = "omr_connected_mbr_signatures request"
  have m: "0 < unat ?m" "unat ?m \<le> kMaximumVerifiedWriteBytes" using req by simp_all
  have execute: "never_fails (bindE (copy_mbr_data cng request src tgt plan d p) (commit_mbr cng request tgt plan))
      (\<lambda>report. omt_read_back_verified report \<and> omt_target_mbr_committed report)"
    if plan: "mbr_plan_of src tgt provider next_signature ?ds plan" and d: "digest_room 0 d" for plan d p
  proof -
    note facts = mbr_plan_facts [OF plan]
    let ?cs = "omp_partition_copies plan" and ?sector = "mwp_sector (omp_target_mbr plan)"
    let ?k = "\<Sum>c\<leftarrow>?cs. \<Sum>r\<leftarrow>mpc_source_ranges c. unat (range_length r)"
    have sector: "?sector \<noteq> []" using facts(1) by auto
    have size: "512 \<le> unat (tgt_size_bytes tgt)" using req by simp
    have "mbr_planned_span ?cs \<union> {0..<512} \<subseteq> {0..<unat (tgt_size_bytes tgt)}" using facts(4) size by auto
    moreover have "card (mbr_planned_span ?cs \<union> {0..<512}) = ?k + 512"
      using facts(2,3) by (subst card_Un_disjoint) (auto simp: mbr_planned_span_def span_def)
    ultimately have room: "?k + 512 < 2 ^ 64"
      using card_mono [of "{0..<unat (tgt_size_bytes tgt)}" "mbr_planned_span ?cs \<union> {0..<512}"]
        unat_u64_bound [of "tgt_size_bytes tgt"] by simp
    have copies: "never_fails (copy_mbr_partitions cng src tgt ?m cbs ?cs st)
        (\<lambda>st. digest_room ?k (cs_digest (fst st)))" if "cs_digest (fst st) = d" for st
      using copy_mbr_partitions_ok [OF m facts(4), of 0 st] room d that by simp
    have copied: "never_fails (copy_mbr_data cng request src tgt plan d p)
        (\<lambda>st. digest_room ?k (cs_digest (fst (fst st))))"
      unfolding copy_mbr_data_def cbs
      by (rule never_fails_bindE [OF copies], simp)
        (auto simp: split_beta cancelled_status_def intro!: never_fails_bindE [OF publish_progress_ok]
          never_fails_bindE [OF flush_ok] never_fails_bindE [OF cancellation_ok] never_fails_returnE)
    have commit: "never_fails (commit_mbr cng request tgt plan ((cs, n), q))
        (\<lambda>report. omt_read_back_verified report \<and> omt_target_mbr_committed report)"
      if "digest_room ?k (cs_digest cs)" for cs n q
    proof -
      have written: "never_fails (write_and_verify cng tgt 0 ?sector (Some (cs_digest cs)))
          (\<lambda>d. \<exists>d'. d = Some d' \<and> digest_room (?k + length ?sector) d' \<and> wd_record_count d' \<noteq> 0)"
        using that room facts(1) size by (intro write_and_verify_ok(2) sector) simp_all
      have finish: "never_fails (liftE (digest_finish cng d)) (\<lambda>(finished, d). \<exists>bytes. finished = Inr bytes)"
        if "digest_room j d \<and> wd_record_count d \<noteq> 0" for j d
        using that by (intro digest_finish_ok) auto
      show ?thesis
        unfolding commit_mbr_def cbs
        by (simp, rule never_fails_bindE [OF publish_progress_ok], rule never_fails_bindE [OF written],
            rule never_fails_bindE [OF flush_ok])
          (auto split: prod.split intro!: never_fails_bindE [OF finish] never_fails_bindE [OF publish_progress_ok]
            never_fails_returnE)
    qed
    show ?thesis
      by (rule never_fails_bindE [OF copied]) (use commit in auto)
  qed
  have total: "\<exists>n. total_copy_bytes 0 (concat (map mpc_source_ranges (omp_partition_copies plan))) = Some n"
    if plan: "mbr_plan_of src tgt provider next_signature ?ds plan" for plan
  proof -
    have "(\<Sum>r\<leftarrow>concat (map mpc_source_ranges (omp_partition_copies plan)). unat (range_length r)) =
        card (mbr_planned_span (omp_partition_copies plan))"
      unfolding mbr_plan_facts(3) [OF plan, symmetric] by (rule sum_list_concat_map)
    moreover have "card (mbr_planned_span (omp_partition_copies plan)) \<le> unat (tgt_size_bytes tgt)"
      using card_mono [OF _ mbr_plan_facts(4) [OF plan]] by simp
    ultimately show ?thesis
      using unat_u64_bound [of "tgt_size_bytes tgt"] by (intro total_copy_bytes_sum) simp
  qed
  have build: "never_fails (build_offline_mbr_clone_plan src tgt provider next_signature ?ds)
      (mbr_plan_of src tgt provider next_signature ?ds)"
    using plans build_offline_mbr_clone_plan_of [of tgt src provider next_signature] req
    unfolding never_fails_def by blast
  have prepare: "never_fails (prepare_mbr_clone cng request src tgt provider next_signature)
      (\<lambda>(plan, d, p). mbr_plan_of src tgt provider next_signature ?ds plan \<and> digest_room 0 d)"
    unfolding prepare_mbr_clone_def cbs
    by (rule never_fails_bindE [OF publish_progress_ok], rule never_fails_bindE [OF cancellation_ok], simp,
        rule never_fails_bindE [OF build], rule never_fails_bindE [OF create_ok], frule total)
      (auto intro!: never_fails_bindE [OF publish_progress_ok] never_fails_bindE [OF cancellation_ok]
        never_fails_returnE)
  have checks: "of_result (validate_clone_identities (omr_expected_source request)
       (omr_observed_source request) (omr_expected_target request) (omr_observed_target request)
       (omr_confirmation request) True) = returnE ()"
    using req by simp
  have big: "\<not> tgt_size_bytes tgt < of_nat (2 * kTargetMetadataInvalidationBytes)"
    using req by (simp add: word_less_nat_alt)
  have zero: "omr_maximum_chunk_bytes request \<noteq> 0" "\<not> omr_maximum_chunk_bytes request > 16 * 1024 * 1024"
    using m by (auto simp: word_less_nat_alt unat_gt_0)
  show ?thesis
    unfolding execute_offline_mbr_clone_def checks bindE_returnE
    using req big zero execute
    by (auto simp: cbs intro!: never_fails_bindE [OF prepare] never_fails_bindE [OF invalidate_target_ok])
qed

end

section \<open>The properties of the clone\<close>

text \<open>
  C4. When the MBR clone reports success, \<open>parse_mbr\<close> reads the planned table back from the target: the
  source's partitions under a signature that no connected disk has; every planned byte is the
  source's; the rest is zero where the old partition information was erased and unchanged
  elsewhere.  Planned is all of every FAT32, exFAT and recovery partition, and of an NTFS volume
  exactly the bytes that the provider reported as used.
\<close>

theorem execute_offline_mbr_clone_correct:
  assumes "clone_world src simg tgt timg cng (omr_callbacks request)"
    and "\<forall>i g. keeps timg (provider i g)" and "keeps timg next_signature"
    and "execute_offline_mbr_clone cng request src tgt provider next_signature s = (Inr report, t)"
  shows "\<exists>plan. mbr_plan_of src tgt provider next_signature (omr_connected_mbr_signatures request) plan \<and>
    parse_mbr (memory_source_reader (tgt_size_bytes tgt) 512 (timg t)) () =
      (Inr (mwp_target_disk (omp_target_mbr plan)), ()) \<and>
    mbr_partitions (mwp_target_disk (omp_target_mbr plan)) = mbr_partitions (omp_source_mbr plan) \<and>
    omt_target_disk_signature report \<notin> set (omr_connected_mbr_signatures request) \<and>
    (\<forall>i. i \<in> mbr_planned_span (omp_partition_copies plan) \<longrightarrow> timg t i = simg i) \<and>
    timg t = cloned_mbr_image simg plan (erased_image (tgt_size_bytes tgt) (timg s))"
proof -
  from hoareD_Inr [OF clone_world.execute_offline_mbr_clone_spec [OF assms(1) refl assms(2,3)] refl assms(4)]
  obtain plan where plan: "mbr_plan_of src tgt provider next_signature (omr_connected_mbr_signatures request) plan"
    "timg t = cloned_mbr_image simg plan (erased_image (tgt_size_bytes tgt) (timg s))"
    "omt_target_disk_signature report = disk_signature (mwp_target_disk (omp_target_mbr plan))"
    by blast
  note facts = mbr_plan_facts [OF plan(1)]
  have "timg t i = simg i" if "i \<in> mbr_planned_span (omp_partition_copies plan)" for i
  proof -
    have "i \<notin> span 0 512" using facts(2) that by blast
    then show ?thesis
      using that facts(1) by (auto simp: plan(2) cloned_mbr_image_def img_update_def overlay_def span_def)
  qed
  then show ?thesis
    using plan facts(5-7) by (intro exI [of _ plan]) (simp add: cloned_mbr_image_def)
qed

text \<open>
  C28. An MBR clone that fails or is cancelled leaves the target as it was, or, once a plan was made, an
  incomplete erasure and nothing else changed, a disk without a boot sector, or everything in
  place but the boot sector.
\<close>

theorem execute_offline_mbr_clone_failure:
  assumes "clone_world src simg tgt timg cng (omr_callbacks request)"
    and "\<forall>i g. keeps timg (provider i g)" and "keeps timg next_signature"
    and "execute_offline_mbr_clone cng request src tgt provider next_signature s = (Inl e, t)"
  shows "timg t = timg s \<or>
    (\<exists>plan. mbr_plan_of src tgt provider next_signature (omr_connected_mbr_signatures request) plan \<and>
       mbr_interrupted simg (tgt_size_bytes tgt) plan (timg s) (timg t))"
  by (rule hoareD_Inl [OF clone_world.execute_offline_mbr_clone_spec [OF assms(1) refl assms(2,3)] refl assms(4)])

text \<open>
  An MBR clone between working devices completes: when the identities are confirmed, the request
  matches the disks, a plan can be made and nobody cancels, it returns its report.
\<close>

theorem execute_offline_mbr_clone_completes:
  assumes "reliable_world src simg tgt timg cng (omr_callbacks request)"
    and "mbr_request_ok request src tgt"
    and "never_fails (build_offline_mbr_clone_plan src tgt provider next_signature
      (omr_connected_mbr_signatures request)) (\<lambda>plan. True)"
  shows "\<exists>report t. execute_offline_mbr_clone cng request src tgt provider next_signature s = (Inr report, t) \<and>
    omt_read_back_verified report \<and> omt_target_mbr_committed report"
  using reliable_world.execute_offline_mbr_clone_ok [OF assms(1,2) refl assms(3)] by (rule never_failsD)

section \<open>A concrete clone\<close>

text \<open>
  The source: the table of \<open>example_mbr\<close>, whose active partition at sector 63 is an NTFS volume of
  which the file system reports the first and the ninth cluster as used.
\<close>

definition example_ntfs_boot :: "byte list" where
  "example_ntfs_boot =
     (let b = overwrite (replicate 512 0) 3 kNtfsSignature;
          b = write_little b 11 (512 :: u16);
          b = write_little b 13 (8 :: u8);
          b = write_little b 40 (999 :: u64);
          b = write_little b 510 (0x55 :: u8)
      in write_little b 511 (0xAA :: u8))"

definition example_mbr_image :: image where
  "example_mbr_image = img_update (img_update (\<lambda>i. 0xC3) 32256 example_ntfs_boot) 0 (mbr_sector example_mbr)"

abbreviation example_mbr_source :: "'s source_reader" where
  "example_mbr_source \<equiv> memory_source_reader 2097152 512 example_mbr_image"

abbreviation example_mbr_writer :: "clone_memory target_writer" where
  "example_mbr_writer \<equiv> memory_target_writer 4194304 512 0"

definition example_signatures :: "(clone_memory, u32) prog" where
  "example_signatures s = (Inr (0xABCD0000 + ucast (cm_next s)), s\<lparr>cm_next := cm_next s + 1\<rparr>)"

definition example_used_ranges :: "'s used_range_provider" where
  "example_used_ranges i g = returnE [\<lparr>range_offset = 32768, range_length = 4096\<rparr>,
     \<lparr>range_offset = 0, range_length = 4096\<rparr>]"

definition example_mbr_clone_request :: "clone_memory offline_mbr_clone_request" where
  "example_mbr_clone_request =
     (let identity = \<lambda>serial size_bytes. \<lparr>id_disk_number = 1, id_model = [68, 105, 115, 107], id_size_bytes = size_bytes,
        id_logical_sector_size = 512, id_serial_suffix = [serial], id_device_instance_id = [ucast serial],
        id_is_system_disk = False\<rparr>
      in \<lparr>omr_expected_source = identity 65 2097152, omr_observed_source = identity 65 2097152,
        omr_expected_target = identity 66 4194304, omr_observed_target = identity 66 4194304,
        omr_confirmation = \<lparr>first_step_acknowledged = True, typed_token = [79, 75]\<rparr>,
        omr_maximum_chunk_bytes = 65536, omr_connected_mbr_signatures = [7],
        omr_callbacks = no_callbacks\<rparr>)"

definition example_mbr_world :: clone_memory where
  "example_mbr_world = \<lparr>mw_storage = (\<lambda>i. 0x11), mw_last_write_offset = 0, mw_write_count = 0,
     mw_flush_count = 0, cm_absorbed = [], cm_next = 5\<rparr>"

lemma example_ntfs_boot_reads:
  "length example_ntfs_boot = 512" "slice example_ntfs_boot 3 8 = kNtfsSignature"
  "\<not> no_boot_marker example_ntfs_boot" "(read_little example_ntfs_boot 11 :: u16) = 512"
  "(read_little example_ntfs_boot 13 :: u8) = 8" "(read_little example_ntfs_boot 40 :: u64) = 999"
  by (simp_all add: example_ntfs_boot_def no_boot_marker_def Let_def kNtfsSignature_def byte_simps)

lemma example_mbr_boot: "img_bytes example_mbr_image 32256 512 = example_ntfs_boot"
  unfolding example_mbr_image_def
  by (subst img_bytes_update_other) (simp_all add: example_ntfs_boot_reads)

lemma example_mbr_partition_plan:
  "plan_mbr_partition example_mbr_source example_used_ranges 512 (hd (mbr_partitions example_mbr)) s =
    (Inr \<lparr>mpc_table_index = 1, mpc_mode = Mbr_ntfs_used_clusters,
       mpc_source_ranges = [\<lparr>range_offset = 32256, range_length = 4096\<rparr>,
         \<lparr>range_offset = 65024, range_length = 4096\<rparr>]\<rparr>, s)"
proof -
  have geometry: "parse_ntfs_geometry example_ntfs_boot 512 512000 =
      Inr \<lparr>ntfs_bytes_per_sector = 512, ntfs_sectors_per_cluster = 8, ntfs_total_sectors = 999\<rparr>"
    by (simp add: parse_ntfs_geometry_def example_ntfs_boot_reads Let_def is_power_of_two_def
        checked_multiply_def signatures_distinct)
  have "classify_basic_data_file_system example_ntfs_boot 512 512000 = Inr Ntfs"
    using geometry signatures_distinct
    by (simp add: classify_basic_data_file_system_def example_ntfs_boot_reads)
  then show ?thesis
    using geometry
    by (simp add: plan_mbr_partition_def plan_mbr_basic_data_def example_mbr_def
        mbr_partition_byte_range_def checked_multiply_def checked_add_def read_boot_sector_def
        memory_source_read example_mbr_boot example_ntfs_boot_reads bindE_def returnE_def of_result_def
        example_used_ranges_def validate_used_ranges_def ntfs_cluster_size_def)
qed

lemma example_mbr_builds:
  "never_fails (build_offline_mbr_clone_plan example_mbr_source example_mbr_writer example_used_ranges
     example_signatures [7]) (\<lambda>plan. True)"
  unfolding never_fails_def
proof
  fix s :: clone_memory
  have parse: "parse_mbr example_mbr_source s = (Inr example_mbr, s)"
    unfolding example_mbr_image_def by (rule example_mbr_parse)
  have n: "unat (ucast (cm_next s) :: u32) < 256" using unat_u8_bound [of "cm_next s"] by simp
  have "unat (0xABCD0000 + ucast (cm_next s) :: u32) = 0xABCD0000 + unat (ucast (cm_next s) :: u32)"
    using n by (simp add: unat_word_ariths)
  then have fresh: "0xABCD0000 + ucast (cm_next s) \<notin> {0x1234, 0, 7 :: u32}"
    by (auto simp: word_unat_eq_iff)
  have draw: "draw_signature 32 example_signatures {0x1234, 0, 7} s =
      (Inr (0xABCD0000 + ucast (cm_next s)), s\<lparr>cm_next := cm_next s + 1\<rparr>)"
    using fresh draw_signature.simps(2) [of 31 example_signatures]
    by (simp add: bindE_def example_signatures_def returnE_def)
  have "\<exists>plan t. make_mbr_write_plan example_mbr 4194304 512 example_signatures [7] True s = (Inr plan, t)"
    using fresh
    by (simp add: make_mbr_write_plan_def example_mbr_def Let_def bindE_Inr draw put_mbr_entries_foldl returnE_def)
  then obtain plan t where plan: "make_mbr_write_plan example_mbr 4194304 512 example_signatures [7] True s = (Inr plan, t)"
    by blast
  show "\<exists>plan t. build_offline_mbr_clone_plan example_mbr_source example_mbr_writer example_used_ranges
     example_signatures [7] s = (Inr plan, t) \<and> True"
    using parse plan example_mbr_partition_plan [of t]
    by (simp add: build_offline_mbr_clone_plan_def bindE_def example_mbr_def returnE_def)
qed

lemma example_mbr_reliable:
  "reliable_world example_mbr_source example_mbr_image example_mbr_writer mw_storage clone_memory_cng
     (omr_callbacks example_mbr_clone_request)"
  by (simp add: example_mbr_clone_request_def Let_def reliable_memory.reliable_world_axioms)

lemma example_mbr_request_ok: "mbr_request_ok example_mbr_clone_request example_mbr_source example_mbr_writer"
  by (simp add: mbr_request_ok_def validate_clone_identities_success example_mbr_clone_request_def Let_def
      identity_complete_def same_identity_def same_device_def)

lemma example_mbr_keeps: "keeps mw_storage example_signatures" "\<forall>i g. keeps mw_storage (example_used_ranges i g)"
  by (simp add: keeps_def example_signatures_def, simp add: example_used_ranges_def)

lemma example_mbr_request_builds:
  "never_fails (build_offline_mbr_clone_plan example_mbr_source example_mbr_writer example_used_ranges
     example_signatures (omr_connected_mbr_signatures example_mbr_clone_request)) (\<lambda>plan. True)"
  using example_mbr_builds by (simp add: example_mbr_clone_request_def Let_def)

lemma example_mbr_runs:
  "\<exists>report t. execute_offline_mbr_clone clone_memory_cng example_mbr_clone_request example_mbr_source
     example_mbr_writer example_used_ranges example_signatures s = (Inr report, t)"
  using never_failsD [OF reliable_world.execute_offline_mbr_clone_ok
      [OF example_mbr_reliable example_mbr_request_ok refl example_mbr_request_builds]] by blast

theorem execute_offline_mbr_clone_correct_witness:
  "\<exists>report t (plan :: offline_mbr_clone_plan). execute_offline_mbr_clone clone_memory_cng
       example_mbr_clone_request example_mbr_source example_mbr_writer example_used_ranges
       example_signatures example_mbr_world = (Inr report, t) \<and>
     parse_mbr (memory_source_reader 4194304 512 (mw_storage t)) () =
       (Inr (mwp_target_disk (omp_target_mbr plan)), ()) \<and> omt_target_disk_signature report \<noteq> 7"
proof -
  obtain report t where run: "execute_offline_mbr_clone clone_memory_cng example_mbr_clone_request
      example_mbr_source example_mbr_writer example_used_ranges example_signatures example_mbr_world =
      (Inr report, t)"
    using example_mbr_runs by blast
  have "clone_world example_mbr_source example_mbr_image example_mbr_writer mw_storage clone_memory_cng
     (omr_callbacks example_mbr_clone_request)"
    using example_mbr_reliable by (rule reliable_world.axioms(1))
  from execute_offline_mbr_clone_correct [OF this example_mbr_keeps(2,1) run]
  obtain plan :: offline_mbr_clone_plan where "parse_mbr (memory_source_reader 4194304 512 (mw_storage t)) () =
       (Inr (mwp_target_disk (omp_target_mbr plan)), ())" and
    "omt_target_disk_signature report \<notin> set (omr_connected_mbr_signatures example_mbr_clone_request)"
    unfolding memory_target_writer_sel by blast
  then have "parse_mbr (memory_source_reader 4194304 512 (mw_storage t)) () =
       (Inr (mwp_target_disk (omp_target_mbr plan)), ()) \<and> omt_target_disk_signature report \<noteq> 7"
    by (simp add: example_mbr_clone_request_def Let_def)
  then show ?thesis using run by (intro exI conjI) (assumption, simp_all)
qed

theorem execute_offline_mbr_clone_failure_witness:
  "\<exists>e t. execute_offline_mbr_clone clone_memory_cng
       (example_mbr_clone_request\<lparr>omr_maximum_chunk_bytes := 0\<rparr>) example_mbr_source example_mbr_writer
       example_used_ranges example_signatures example_mbr_world = (Inl e, t) \<and>
     (mw_storage t = mw_storage example_mbr_world \<or>
      (\<exists>plan. mbr_plan_of example_mbr_source example_mbr_writer example_used_ranges example_signatures
          (omr_connected_mbr_signatures (example_mbr_clone_request\<lparr>omr_maximum_chunk_bytes := 0\<rparr>)) plan \<and>
        mbr_interrupted example_mbr_image 4194304 plan (mw_storage example_mbr_world) (mw_storage t)))"
proof -
  let ?request = "example_mbr_clone_request\<lparr>omr_maximum_chunk_bytes := 0\<rparr>"
  have run: "execute_offline_mbr_clone clone_memory_cng ?request
       example_mbr_source example_mbr_writer example_used_ranges example_signatures example_mbr_world =
       (Inl (mk_error Identity_mismatch ERROR_INVALID_DATA), example_mbr_world)"
    using example_mbr_request_ok
    by (simp add: execute_offline_mbr_clone_def mbr_request_ok_def failE_def)
  have world: "clone_world example_mbr_source example_mbr_image example_mbr_writer mw_storage clone_memory_cng
     (omr_callbacks ?request)"
    using example_mbr_reliable by (simp add: reliable_world.axioms(1))
  from execute_offline_mbr_clone_failure [OF world example_mbr_keeps(2,1) run] run show ?thesis
    unfolding memory_target_writer_sel by (intro exI conjI)
qed

theorem execute_offline_mbr_clone_completes_witness:
  "\<exists>report t. execute_offline_mbr_clone clone_memory_cng example_mbr_clone_request example_mbr_source
       example_mbr_writer example_used_ranges example_signatures example_mbr_world = (Inr report, t) \<and>
     omt_target_mbr_committed report"
  using execute_offline_mbr_clone_completes
    [OF example_mbr_reliable example_mbr_request_ok example_mbr_request_builds] by blast

end
