(* ===== verification/RescueCopy.thy ===== *)
theory RescueCopy
  imports CloneEngine
begin

unbundle bit_operations_syntax

text \<open>
  The rescue copy of a failing disk (\<open>CloneCore/src/rescue_copy.cpp\<close>): one pass forward in large
  blocks, one retry of the failed blocks in reverse order, one retry of what still fails sector by
  sector, in which an unreadable sector becomes zeroes and an entry of the map of missing ranges.
  \<open>std::size_t\<close> is a 64-bit integer, as on the platforms the program is built for.  An exception
  of an observer is the answer \<open>None\<close>; memory exhaustion is not modelled.
\<close>

section \<open>Data\<close>

datatype rescue_execution_environment = Windows | Winpe

datatype rescue_source_kind = Data_disk | System_disk

datatype rescue_copy_phase =
  Validating | Forward_read | Reverse_retry | Sector_retry | Flushing | Rescue_completed

record rescue_copy_progress =
  rp_phase :: rescue_copy_phase
  rp_source_extent_bytes :: u64
  rp_current_offset :: u64
  rp_settled_target_bytes :: u64
  rp_zero_filled_bytes :: u64
  rp_outstanding_failed_bytes :: u64
  rp_cancellation_allowed :: bool
  rp_pause_allowed :: bool

record 's rescue_copy_callbacks =
  rc_progress :: "(rescue_copy_progress \<Rightarrow> ('s, unit) observer) option"
  rc_cancellation_requested :: "('s, bool) observer option"
  rc_safe_boundary :: "(safe_boundary \<Rightarrow> ('s, control_decision) observer) option"

record rescue_missing_range =
  mr_bytes :: byte_range
  mr_first_lba :: u64
  mr_sector_count :: u64
  mr_forward_attempts :: u8
  mr_reverse_attempts :: u8
  mr_sector_attempts :: u8
  mr_forward_native_error :: u32
  mr_reverse_native_error :: u32
  mr_sector_native_error :: u32
  mr_zero_fill_read_back_verified :: bool

record 's rescue_raw_copy_request =
  rq_environment :: rescue_execution_environment
  rq_source_kind :: rescue_source_kind
  rq_rescue_mode_explicitly_confirmed :: bool
  rq_large_block_bytes :: u64
  rq_maximum_failed_block_count :: u64
  rq_maximum_missing_range_count :: u64
  rq_callbacks :: "'s rescue_copy_callbacks"

record rescue_raw_copy_report =
  rr_source_extent_bytes :: u64
  rr_copied_source_bytes :: u64
  rr_recovered_bytes :: u64
  rr_zero_filled_bytes :: u64
  rr_verified_bytes :: u64
  rr_forward_failed_block_count :: u64
  rr_reverse_recovered_block_count :: u64
  rr_reverse_failed_block_count :: u64
  rr_sector_recovered_count :: u64
  rr_exhausted_sector_count :: u64
  rr_missing_ranges :: "rescue_missing_range list"
  rr_layout_preserved_without_conversion :: bool
  rr_byte_exact_copy :: bool
  rr_target_flushed :: bool
  rr_all_writes_read_back_verified :: bool
  rr_partial_data_loss :: bool

record read_attempt =
  ra_media_failure :: bool
  ra_native_error :: u32
  ra_bytes :: "byte list"

record failed_block =
  fb_bytes :: byte_range
  fb_forward_native_error :: u32
  fb_reverse_native_error :: u32

section \<open>Helpers\<close>

abbreviation (input) kMaximumLargeBlockBytes :: u64 where
  "kMaximumLargeBlockBytes \<equiv> 16 * 1024 * 1024"

abbreviation (input) kMaximumBookkeepingEntries :: u64 where
  "kMaximumBookkeepingEntries \<equiv> 1048576"

definition rescue_sector_size_ok :: "u32 \<Rightarrow> bool" where
  "rescue_sector_size_ok value \<longleftrightarrow> value \<noteq> 0 \<and> value AND (value - 1) = 0"

definition add_counter :: "u64 \<Rightarrow> u64 \<Rightarrow> u64 result" where
  "add_counter counter amount =
     (case checked_add counter amount of
        None \<Rightarrow> Inl (mk_error Invalid_data ERROR_ARITHMETIC_OVERFLOW)
      | Some r \<Rightarrow> Inr r)"

definition is_recoverable_media_read_error :: "error \<Rightarrow> bool" where
  "is_recoverable_media_read_error e \<longleftrightarrow>
     err_code e = Io_failed \<and>
     err_native e \<in> {ERROR_CRC, ERROR_SECTOR_NOT_FOUND, ERROR_READ_FAULT, ERROR_GEN_FAILURE,
       ERROR_IO_DEVICE}"

definition attempt_source_read :: "'s source_reader \<Rightarrow> u64 \<Rightarrow> u64 \<Rightarrow> ('s, read_attempt) prog" where
  "attempt_source_read source offset len = (\<lambda>s.
     case src_read source offset len s of
       (Inl e, t) \<Rightarrow>
         if is_recoverable_media_read_error e
         then (Inr \<lparr>ra_media_failure = True, ra_native_error = err_native e, ra_bytes = []\<rparr>, t)
         else (Inl e, t)
     | (Inr bytes, t) \<Rightarrow>
         if length bytes > unat len then (Inl (mk_error Invalid_data ERROR_INVALID_DATA), t)
         else if length bytes \<noteq> unat len
         then (Inr \<lparr>ra_media_failure = True, ra_native_error = ERROR_HANDLE_EOF, ra_bytes = []\<rparr>, t)
         else (Inr \<lparr>ra_media_failure = False, ra_native_error = 0, ra_bytes = bytes\<rparr>, t))"

text \<open>The caller notes that the target may have changed before it calls this.\<close>

definition write_and_read_back_verify :: "'s target_writer \<Rightarrow> u64 \<Rightarrow> byte list \<Rightarrow> ('s, unit) prog" where
  "write_and_read_back_verify target offset bytes =
     bindE (tgt_write target offset bytes) (\<lambda>u.
     bindE (tgt_read_back target offset (of_nat (length bytes))) (\<lambda>read_back.
     if length read_back \<noteq> length bytes \<or> bytes \<noteq> read_back
     then failE (mk_error Verification_failed ERROR_CRC)
     else returnE ()))"

definition rescue_publish_progress ::
  "'s rescue_copy_callbacks \<Rightarrow> rescue_copy_progress \<Rightarrow> 's \<Rightarrow> unit \<times> 's" where
  "rescue_publish_progress callbacks progress s =
     (case rc_progress callbacks of
        None \<Rightarrow> ((), s)
      | Some f \<Rightarrow> ((), snd (f progress s)))"

definition rescue_cancellation_requested :: "'s rescue_copy_callbacks \<Rightarrow> 's \<Rightarrow> bool \<times> 's" where
  "rescue_cancellation_requested callbacks s =
     (case rc_cancellation_requested callbacks of
        None \<Rightarrow> (False, s)
      | Some f \<Rightarrow>
        (case f s of
           (Some b, t) \<Rightarrow> (b, t)
         | (None, t) \<Rightarrow> (True, t)))"

definition rescue_control_at_safe_boundary ::
  "'s rescue_copy_callbacks \<Rightarrow> safe_boundary \<Rightarrow> 's \<Rightarrow> control_decision \<times> 's" where
  "rescue_control_at_safe_boundary callbacks boundary s =
     (case rc_safe_boundary callbacks of
        None \<Rightarrow> (Continue_operation, s)
      | Some f \<Rightarrow>
        (case f boundary s of
           (Some d, t) \<Rightarrow> (d, t)
         | (None, t) \<Rightarrow> (Cancel_operation, t)))"

definition rescue_cancelled_error :: error where
  "rescue_cancelled_error = mk_error Cancelled ERROR_CANCELLED"

definition validate_request ::
  "'s rescue_raw_copy_request \<Rightarrow> 's source_reader \<Rightarrow> 's target_writer \<Rightarrow> status" where
  "validate_request request source target =
     (let source_bytes = src_size_bytes source; target_bytes = tgt_size_bytes target;
          source_sector = src_logical_sector_size source;
          target_sector = tgt_logical_sector_size target
      in
      if \<not> rq_rescue_mode_explicitly_confirmed request
      then Inl (mk_error Confirmation_required ERROR_CANCELLED)
      else if rq_source_kind request = System_disk \<and> rq_environment request \<noteq> Winpe
      then Inl (mk_error Unsupported_platform ERROR_NOT_SUPPORTED)
      else if source_bytes = 0 \<or> source_sector < 512 \<or> source_sector > 4096 \<or>
         \<not> rescue_sector_size_ok source_sector \<or> source_sector \<noteq> target_sector \<or>
         source_bytes mod ucast source_sector \<noteq> 0 \<or> target_bytes mod ucast target_sector \<noteq> 0 \<or>
         target_bytes < source_bytes
      then Inl (mk_error Unsupported_layout ERROR_NOT_SUPPORTED)
      else if rq_large_block_bytes request < ucast source_sector \<or>
         rq_large_block_bytes request > kMaximumLargeBlockBytes \<or>
         rq_large_block_bytes request mod ucast source_sector \<noteq> 0
      then Inl (mk_error Invalid_argument ERROR_INVALID_PARAMETER)
      else if rq_maximum_failed_block_count request = 0 \<or>
         rq_maximum_failed_block_count request > kMaximumBookkeepingEntries \<or>
         rq_maximum_missing_range_count request = 0 \<or>
         rq_maximum_missing_range_count request > kMaximumBookkeepingEntries
      then Inl (mk_error Invalid_argument ERROR_INVALID_PARAMETER)
      else success_status)"

section \<open>The map of missing ranges\<close>

text \<open>The comparison that decides whether two neighbours become one range.\<close>

definition same_native_errors :: "rescue_missing_range \<Rightarrow> u32 \<Rightarrow> u32 \<Rightarrow> u32 \<Rightarrow> bool" where
  "same_native_errors r forward_error reverse_error sector_error \<longleftrightarrow>
     mr_forward_native_error r = forward_error \<and> mr_reverse_native_error r = reverse_error \<and>
     mr_sector_native_error r = sector_error"

definition extend_missing_range ::
  "rescue_missing_range \<Rightarrow> u64 \<Rightarrow> u64 \<Rightarrow> rescue_missing_range result" where
  "extend_missing_range r bytes sectors =
     (case add_counter (range_length (mr_bytes r)) bytes of
        Inl e \<Rightarrow> Inl e
      | Inr len \<Rightarrow>
     (case add_counter (mr_sector_count r) sectors of
        Inl e \<Rightarrow> Inl e
      | Inr n \<Rightarrow> Inr (r\<lparr>mr_bytes := (mr_bytes r)\<lparr>range_length := len\<rparr>, mr_sector_count := n\<rparr>)))"

definition new_missing_range :: "u64 \<Rightarrow> u64 \<Rightarrow> u32 \<Rightarrow> u32 \<Rightarrow> u32 \<Rightarrow> rescue_missing_range" where
  "new_missing_range offset sector_size forward_error reverse_error sector_error =
     \<lparr>mr_bytes = \<lparr>range_offset = offset, range_length = sector_size\<rparr>,
      mr_first_lba = offset div sector_size, mr_sector_count = 1,
      mr_forward_attempts = 1, mr_reverse_attempts = 1, mr_sector_attempts = 1,
      mr_forward_native_error = forward_error, mr_reverse_native_error = reverse_error,
      mr_sector_native_error = sector_error, mr_zero_fill_read_back_verified = True\<rparr>"

definition append_missing_sector ::
  "rescue_missing_range list \<Rightarrow> u64 \<Rightarrow> u64 \<Rightarrow> u64 \<Rightarrow> u32 \<Rightarrow> u32 \<Rightarrow> u32 \<Rightarrow> rescue_missing_range list result"
where
  "append_missing_sector ranges maximum offset sector_size forward_error reverse_error sector_error =
     (let push =
        (if length ranges \<ge> unat maximum then Inl (mk_error Invalid_data ERROR_NOT_ENOUGH_MEMORY)
         else Inr (ranges @ [new_missing_range offset sector_size forward_error reverse_error sector_error]))
      in
      if ranges = [] then push
      else
        let previous = last ranges in
        case checked_add (range_offset (mr_bytes previous)) (range_length (mr_bytes previous)) of
          None \<Rightarrow> Inl (mk_error Invalid_data ERROR_ARITHMETIC_OVERFLOW)
        | Some previous_end \<Rightarrow>
          if previous_end = offset \<and> same_native_errors previous forward_error reverse_error sector_error
          then
            case extend_missing_range previous sector_size 1 of
              Inl e \<Rightarrow> Inl e
            | Inr r \<Rightarrow> Inr (butlast ranges @ [r])
          else push)"

definition ensure_missing_sector_can_be_recorded ::
  "rescue_missing_range list \<Rightarrow> u64 \<Rightarrow> u64 \<Rightarrow> u32 \<Rightarrow> u32 \<Rightarrow> u32 \<Rightarrow> status" where
  "ensure_missing_sector_can_be_recorded ranges maximum offset forward_error reverse_error sector_error =
     (let room =
        (if length ranges \<ge> unat maximum then Inl (mk_error Invalid_data ERROR_NOT_ENOUGH_MEMORY)
         else success_status)
      in
      if ranges = [] then room
      else
        let previous = last ranges in
        case checked_add (range_offset (mr_bytes previous)) (range_length (mr_bytes previous)) of
          None \<Rightarrow> Inl (mk_error Invalid_data ERROR_ARITHMETIC_OVERFLOW)
        | Some previous_end \<Rightarrow>
          if previous_end = offset \<and> same_native_errors previous forward_error reverse_error sector_error
          then success_status
          else room)"

text \<open>The merging loop of \<open>normalize_missing_ranges\<close>; the first argument is the output so far.\<close>

fun merge_missing_ranges ::
  "rescue_missing_range list \<Rightarrow> rescue_missing_range list \<Rightarrow> rescue_missing_range list result" where
  "merge_missing_ranges out [] = Inr out"
| "merge_missing_ranges out (r # rs) =
     (if out = [] then merge_missing_ranges [r] rs
      else
        let previous = last out in
        case checked_add (range_offset (mr_bytes previous)) (range_length (mr_bytes previous)) of
          None \<Rightarrow> Inl (mk_error Invalid_data ERROR_ARITHMETIC_OVERFLOW)
        | Some previous_end \<Rightarrow>
          if range_offset (mr_bytes r) < previous_end
          then Inl (mk_error Internal_error ERROR_INVALID_DATA)
          else if range_offset (mr_bytes r) = previous_end \<and>
            same_native_errors previous (mr_forward_native_error r) (mr_reverse_native_error r)
              (mr_sector_native_error r)
          then
            case extend_missing_range previous (range_length (mr_bytes r)) (mr_sector_count r) of
              Inl e \<Rightarrow> Inl e
            | Inr p \<Rightarrow> merge_missing_ranges (butlast out @ [p]) rs
          else merge_missing_ranges (out @ [r]) rs)"

definition missing_range_ok :: "u64 \<Rightarrow> rescue_missing_range \<Rightarrow> bool" where
  "missing_range_ok sector_size r \<longleftrightarrow>
     \<not> (range_length (mr_bytes r) = 0 \<or> range_offset (mr_bytes r) mod sector_size \<noteq> 0 \<or>
        range_length (mr_bytes r) mod sector_size \<noteq> 0 \<or>
        mr_first_lba r \<noteq> range_offset (mr_bytes r) div sector_size \<or>
        mr_sector_count r \<noteq> range_length (mr_bytes r) div sector_size \<or>
        \<not> mr_zero_fill_read_back_verified r)"

definition normalize_missing_ranges ::
  "rescue_missing_range list \<Rightarrow> u64 \<Rightarrow> rescue_missing_range list result" where
  "normalize_missing_ranges ranges sector_size =
     (case merge_missing_ranges [] (sort_key (\<lambda>r. range_offset (mr_bytes r)) ranges) of
        Inl e \<Rightarrow> Inl e
      | Inr ranges \<Rightarrow>
        if list_all (missing_range_ok sector_size) ranges then Inr ranges
        else Inl (mk_error Internal_error ERROR_INVALID_DATA))"

section \<open>The engine\<close>

text \<open>The variables that the passes share.\<close>

record rescue_state =
  rs_progress :: rescue_copy_progress
  rs_report :: rescue_raw_copy_report
  rs_mutation_started :: bool
  rs_boundary_count :: u64

definition initial_rescue_progress :: "u64 \<Rightarrow> rescue_copy_progress" where
  "initial_rescue_progress size_bytes =
     \<lparr>rp_phase = Validating, rp_source_extent_bytes = size_bytes, rp_current_offset = 0,
      rp_settled_target_bytes = 0, rp_zero_filled_bytes = 0, rp_outstanding_failed_bytes = 0,
      rp_cancellation_allowed = True, rp_pause_allowed = False\<rparr>"

definition initial_rescue_report :: "u64 \<Rightarrow> rescue_raw_copy_report" where
  "initial_rescue_report size_bytes =
     \<lparr>rr_source_extent_bytes = size_bytes, rr_copied_source_bytes = 0, rr_recovered_bytes = 0,
      rr_zero_filled_bytes = 0, rr_verified_bytes = 0, rr_forward_failed_block_count = 0,
      rr_reverse_recovered_block_count = 0, rr_reverse_failed_block_count = 0,
      rr_sector_recovered_count = 0, rr_exhausted_sector_count = 0, rr_missing_ranges = [],
      rr_layout_preserved_without_conversion = True, rr_byte_exact_copy = False,
      rr_target_flushed = False, rr_all_writes_read_back_verified = False,
      rr_partial_data_loss = False\<rparr>"

definition initial_rescue_state :: "u64 \<Rightarrow> rescue_state" where
  "initial_rescue_state size_bytes =
     \<lparr>rs_progress = initial_rescue_progress size_bytes, rs_report = initial_rescue_report size_bytes,
      rs_mutation_started = False, rs_boundary_count = 0\<rparr>"

definition fail_after_safe_flush :: "'s target_writer \<Rightarrow> bool \<Rightarrow> error \<Rightarrow> ('s, 'a) prog" where
  "fail_after_safe_flush target started e =
     (if started then bindE (tgt_flush target) (\<lambda>u. failE e) else failE e)"

text \<open>\<open>if (!status) return fail_after_safe_flush(status.error());\<close> around a call.\<close>

definition or_safe_flush :: "'s target_writer \<Rightarrow> bool \<Rightarrow> ('s, 'a) prog \<Rightarrow> ('s, 'a) prog" where
  "or_safe_flush target started m = (\<lambda>s.
     case m s of
       (Inl e, t) \<Rightarrow> fail_after_safe_flush target started e t
     | (Inr x, t) \<Rightarrow> (Inr x, t))"

definition stop_if_cancelled ::
  "'s rescue_copy_callbacks \<Rightarrow> 's target_writer \<Rightarrow> bool \<Rightarrow> ('s, unit) prog" where
  "stop_if_cancelled callbacks target started =
     bindE (liftE (rescue_cancellation_requested callbacks)) (\<lambda>cancel.
     if cancel then fail_after_safe_flush target started rescue_cancelled_error else returnE ())"

definition enter_phase ::
  "'s rescue_copy_callbacks \<Rightarrow> rescue_copy_phase \<Rightarrow> rescue_state \<Rightarrow> ('s, rescue_state) prog" where
  "enter_phase callbacks phase st =
     (let st = st\<lparr>rs_progress := (rs_progress st)\<lparr>rp_phase := phase, rp_pause_allowed := False\<rparr>\<rparr>
      in bindE (liftE (rescue_publish_progress callbacks (rs_progress st))) (\<lambda>u. returnE st))"

text \<open>The end of a turn that wrote nothing.\<close>

definition publish_unverified ::
  "'s rescue_copy_callbacks \<Rightarrow> rescue_state \<Rightarrow> ('s, rescue_state) prog" where
  "publish_unverified callbacks st =
     (let st = st\<lparr>rs_progress := (rs_progress st)\<lparr>rp_pause_allowed := False\<rparr>\<rparr>
      in bindE (liftE (rescue_publish_progress callbacks (rs_progress st))) (\<lambda>u. returnE st))"

definition stop_at_verified_boundary ::
  "'s rescue_copy_callbacks \<Rightarrow> 's target_writer \<Rightarrow> rescue_state \<Rightarrow> ('s, rescue_state) prog" where
  "stop_at_verified_boundary callbacks target st =
     (let st = st\<lparr>rs_boundary_count := rs_boundary_count st + 1,
                 rs_progress := (rs_progress st)\<lparr>rp_pause_allowed := True\<rparr>\<rparr>
      in
      bindE (liftE (rescue_publish_progress callbacks (rs_progress st))) (\<lambda>u.
      bindE (liftE (rescue_control_at_safe_boundary callbacks
          \<lparr>sb_kind = Verified_chunk, sb_stage = Copying_data, sb_partition_index = None,
           sb_completed_bytes = rp_settled_target_bytes (rs_progress st),
           sb_completed_units = rs_boundary_count st\<rparr>)) (\<lambda>decision.
      if decision = Cancel_operation
      then fail_after_safe_flush target (rs_mutation_started st) rescue_cancelled_error
      else returnE st)))"

definition account_verified_write :: "u64 \<Rightarrow> bool \<Rightarrow> bool \<Rightarrow> rescue_state \<Rightarrow> rescue_state result" where
  "account_verified_write byte_count zero_filled recovered st =
     (case add_counter (rr_verified_bytes (rs_report st)) byte_count of
        Inl e \<Rightarrow> Inl e
      | Inr verified \<Rightarrow>
     (case add_counter (rp_settled_target_bytes (rs_progress st)) byte_count of
        Inl e \<Rightarrow> Inl e
      | Inr settled \<Rightarrow>
        let report = (rs_report st)\<lparr>rr_verified_bytes := verified\<rparr>;
            progress = (rs_progress st)\<lparr>rp_settled_target_bytes := settled\<rparr>
        in
        if zero_filled then
          case add_counter (rr_zero_filled_bytes report) byte_count of
            Inl e \<Rightarrow> Inl e
          | Inr zeroes \<Rightarrow>
            Inr (st\<lparr>rs_report := report\<lparr>rr_zero_filled_bytes := zeroes\<rparr>,
                    rs_progress := progress\<lparr>rp_zero_filled_bytes := zeroes\<rparr>\<rparr>)
        else
          case add_counter (rr_copied_source_bytes report) byte_count of
            Inl e \<Rightarrow> Inl e
          | Inr copied \<Rightarrow>
            let report = report\<lparr>rr_copied_source_bytes := copied\<rparr> in
            if recovered then
              case add_counter (rr_recovered_bytes report) byte_count of
                Inl e \<Rightarrow> Inl e
              | Inr n \<Rightarrow>
                Inr (st\<lparr>rs_report := report\<lparr>rr_recovered_bytes := n\<rparr>, rs_progress := progress\<rparr>)
            else Inr (st\<lparr>rs_report := report, rs_progress := progress\<rparr>)))"

definition resolve_outstanding :: "u64 \<Rightarrow> rescue_state \<Rightarrow> rescue_state result" where
  "resolve_outstanding byte_count st =
     (let outstanding = rp_outstanding_failed_bytes (rs_progress st) in
      if byte_count > outstanding then Inl (mk_error Internal_error ERROR_ARITHMETIC_OVERFLOW)
      else Inr (st\<lparr>rs_progress :=
        (rs_progress st)\<lparr>rp_outstanding_failed_bytes := outstanding - byte_count\<rparr>\<rparr>))"

text \<open>The first pass.  A turn of its loop, then the loop.\<close>

definition note_forward_failure :: "u64 \<Rightarrow> rescue_state \<Rightarrow> rescue_state result" where
  "note_forward_failure len st =
     (case add_counter (rr_forward_failed_block_count (rs_report st)) 1 of
        Inl e \<Rightarrow> Inl e
      | Inr n \<Rightarrow>
     (case add_counter (rp_outstanding_failed_bytes (rs_progress st)) len of
        Inl e \<Rightarrow> Inl e
      | Inr outstanding \<Rightarrow>
        Inr (st\<lparr>rs_report := (rs_report st)\<lparr>rr_forward_failed_block_count := n\<rparr>,
          rs_progress := (rs_progress st)\<lparr>rp_outstanding_failed_bytes := outstanding\<rparr>\<rparr>)))"

definition forward_block ::
  "'s rescue_raw_copy_request \<Rightarrow> 's source_reader \<Rightarrow> 's target_writer \<Rightarrow> u64 \<Rightarrow> u64 \<Rightarrow>
   failed_block list \<Rightarrow> rescue_state \<Rightarrow> ('s, failed_block list \<times> rescue_state) prog" where
  "forward_block request source target offset len failed st =
     (let st = st\<lparr>rs_progress := (rs_progress st)\<lparr>rp_current_offset := offset\<rparr>\<rparr>;
          started = rs_mutation_started st
      in
      bindE (or_safe_flush target started (attempt_source_read source offset len)) (\<lambda>attempt.
      if ra_media_failure attempt then
        if length failed \<ge> unat (rq_maximum_failed_block_count request)
        then fail_after_safe_flush target started (mk_error Invalid_data ERROR_NOT_ENOUGH_MEMORY)
        else
          bindE (or_safe_flush target started (of_result (note_forward_failure len st))) (\<lambda>st.
          bindE (publish_unverified (rq_callbacks request) st) (\<lambda>st.
          returnE (failed @ [\<lparr>fb_bytes = \<lparr>range_offset = offset, range_length = len\<rparr>,
            fb_forward_native_error = ra_native_error attempt, fb_reverse_native_error = 0\<rparr>], st)))
      else
        bindE (or_safe_flush target True (write_and_read_back_verify target offset (ra_bytes attempt)))
          (\<lambda>u.
        bindE (or_safe_flush target True (of_result (account_verified_write len False False
          (st\<lparr>rs_mutation_started := True\<rparr>)))) (\<lambda>st.
        bindE (stop_at_verified_boundary (rq_callbacks request) target st) (\<lambda>st.
        returnE (failed, st))))))"

lemma next_offset:
  fixes offset size block :: u64
  assumes "offset < size" "block \<noteq> 0"
  defines "len \<equiv> min (size - offset) block"
  shows "unat (offset + len) = unat offset + unat len" "0 < unat len" "unat offset + unat len \<le> unat size"
proof -
  have le: "unat len \<le> unat size - unat offset"
    using assms by (metis less_imp_le unat_min_le(1) unat_sub_u64)
  show "0 < unat len" using assms by (auto simp: min_def unat_gt_0)
  show b: "unat offset + unat len \<le> unat size"
    using le assms(1) by (simp add: word_less_nat_alt)
  then show "unat (offset + len) = unat offset + unat len"
    using unat_u64_bound [of size] by (intro unat_add_u64) simp
qed

text \<open>
  The loop would not end for a block size of 0, which \<open>validate_request\<close> refuses
  (\<open>validated_request\<close> below); the model's loop returns there.
\<close>

function forward_pass ::
  "'s rescue_raw_copy_request \<Rightarrow> 's source_reader \<Rightarrow> 's target_writer \<Rightarrow> u64 \<Rightarrow>
   failed_block list \<Rightarrow> rescue_state \<Rightarrow> ('s, failed_block list \<times> rescue_state) prog" where
  "forward_pass request source target offset failed st =
     (if \<not> offset < src_size_bytes source \<or> rq_large_block_bytes request = 0 then returnE (failed, st)
      else
        let remaining = src_size_bytes source - offset;
            len = min remaining (rq_large_block_bytes request)
        in
        bindE (stop_if_cancelled (rq_callbacks request) target (rs_mutation_started st)) (\<lambda>u.
        bindE (forward_block request source target offset len failed st) (\<lambda>(failed, st).
        forward_pass request source target (offset + len) failed st)))"
  by pat_completeness auto

termination
proof (relation "measure (\<lambda>(request, source, target, offset, failed, st).
    unat (src_size_bytes source) - unat offset)", goal_cases)
  case (2 request source target offset failed st)
  then show ?case
    using next_offset [of offset "src_size_bytes source" "rq_large_block_bytes request"]
    by (auto simp: word_less_nat_alt)
qed simp

declare forward_pass.simps [simp del]

text \<open>The second pass: the failed blocks, the last one first.\<close>

definition count_reverse_failure :: "rescue_state \<Rightarrow> rescue_state result" where
  "count_reverse_failure st =
     (case add_counter (rr_reverse_failed_block_count (rs_report st)) 1 of
        Inl e \<Rightarrow> Inl e
      | Inr n \<Rightarrow> Inr (st\<lparr>rs_report := (rs_report st)\<lparr>rr_reverse_failed_block_count := n\<rparr>\<rparr>))"

definition account_reverse_recovery :: "u64 \<Rightarrow> rescue_state \<Rightarrow> rescue_state result" where
  "account_reverse_recovery len st =
     (case account_verified_write len False True st of
        Inl e \<Rightarrow> Inl e
      | Inr st \<Rightarrow>
     (case add_counter (rr_reverse_recovered_block_count (rs_report st)) 1 of
        Inl e \<Rightarrow> Inl e
      | Inr n \<Rightarrow>
        resolve_outstanding len
          (st\<lparr>rs_report := (rs_report st)\<lparr>rr_reverse_recovered_block_count := n\<rparr>\<rparr>)))"

definition reverse_block ::
  "'s rescue_raw_copy_request \<Rightarrow> 's source_reader \<Rightarrow> 's target_writer \<Rightarrow> failed_block \<Rightarrow>
   failed_block list \<Rightarrow> rescue_state \<Rightarrow> ('s, failed_block list \<times> rescue_state) prog" where
  "reverse_block request source target block retry st =
     (let offset = range_offset (fb_bytes block); len = range_length (fb_bytes block);
          st = st\<lparr>rs_progress := (rs_progress st)\<lparr>rp_current_offset := offset\<rparr>\<rparr>;
          started = rs_mutation_started st
      in
      bindE (or_safe_flush target started (attempt_source_read source offset len)) (\<lambda>attempt.
      if ra_media_failure attempt then
        bindE (or_safe_flush target started (of_result (count_reverse_failure st))) (\<lambda>st.
        bindE (publish_unverified (rq_callbacks request) st) (\<lambda>st.
        returnE (retry @ [block\<lparr>fb_reverse_native_error := ra_native_error attempt\<rparr>], st)))
      else
        bindE (or_safe_flush target True (write_and_read_back_verify target offset (ra_bytes attempt)))
          (\<lambda>u.
        bindE (or_safe_flush target True (of_result (account_reverse_recovery len
          (st\<lparr>rs_mutation_started := True\<rparr>)))) (\<lambda>st.
        bindE (stop_at_verified_boundary (rq_callbacks request) target st) (\<lambda>st.
        returnE (retry, st))))))"

text \<open>The blocks as the loop visits them: the caller passes them reversed.\<close>

fun reverse_pass ::
  "'s rescue_raw_copy_request \<Rightarrow> 's source_reader \<Rightarrow> 's target_writer \<Rightarrow> failed_block list \<Rightarrow>
   failed_block list \<Rightarrow> rescue_state \<Rightarrow> ('s, failed_block list \<times> rescue_state) prog" where
  "reverse_pass request source target [] retry st = returnE (retry, st)"
| "reverse_pass request source target (block # blocks) retry st =
     bindE (stop_if_cancelled (rq_callbacks request) target (rs_mutation_started st)) (\<lambda>u.
     bindE (reverse_block request source target block retry st) (\<lambda>(retry, st).
     reverse_pass request source target blocks retry st))"

text \<open>The third pass, sector by sector: a sector that still fails becomes zeroes.\<close>

definition account_exhausted_sector ::
  "u64 \<Rightarrow> u64 \<Rightarrow> u64 \<Rightarrow> failed_block \<Rightarrow> u32 \<Rightarrow> rescue_state \<Rightarrow> rescue_state result" where
  "account_exhausted_sector maximum sector_size offset block native_error st =
     (case append_missing_sector (rr_missing_ranges (rs_report st)) maximum offset sector_size
        (fb_forward_native_error block) (fb_reverse_native_error block) native_error of
        Inl e \<Rightarrow> Inl e
      | Inr ranges \<Rightarrow>
     (case account_verified_write sector_size True False
        (st\<lparr>rs_report := (rs_report st)\<lparr>rr_missing_ranges := ranges\<rparr>\<rparr>) of
        Inl e \<Rightarrow> Inl e
      | Inr st \<Rightarrow>
     (case add_counter (rr_exhausted_sector_count (rs_report st)) 1 of
        Inl e \<Rightarrow> Inl e
      | Inr n \<Rightarrow> Inr (st\<lparr>rs_report := (rs_report st)\<lparr>rr_exhausted_sector_count := n\<rparr>\<rparr>))))"

definition account_recovered_sector :: "u64 \<Rightarrow> rescue_state \<Rightarrow> rescue_state result" where
  "account_recovered_sector sector_size st =
     (case account_verified_write sector_size False True st of
        Inl e \<Rightarrow> Inl e
      | Inr st \<Rightarrow>
     (case add_counter (rr_sector_recovered_count (rs_report st)) 1 of
        Inl e \<Rightarrow> Inl e
      | Inr n \<Rightarrow> Inr (st\<lparr>rs_report := (rs_report st)\<lparr>rr_sector_recovered_count := n\<rparr>\<rparr>)))"

definition sector_turn ::
  "'s rescue_raw_copy_request \<Rightarrow> 's source_reader \<Rightarrow> 's target_writer \<Rightarrow> failed_block \<Rightarrow> u64 \<Rightarrow>
   rescue_state \<Rightarrow> ('s, rescue_state) prog" where
  "sector_turn request source target block offset st =
     (let sector_size = ucast (src_logical_sector_size source);
          maximum = rq_maximum_missing_range_count request;
          st = st\<lparr>rs_progress := (rs_progress st)\<lparr>rp_current_offset := offset\<rparr>\<rparr>;
          started = rs_mutation_started st
      in
      bindE (or_safe_flush target started (attempt_source_read source offset sector_size)) (\<lambda>attempt.
      bindE
        (if ra_media_failure attempt then
           bindE (or_safe_flush target started (of_result (ensure_missing_sector_can_be_recorded
             (rr_missing_ranges (rs_report st)) maximum offset (fb_forward_native_error block)
             (fb_reverse_native_error block) (ra_native_error attempt)))) (\<lambda>u.
           bindE (or_safe_flush target True (write_and_read_back_verify target offset
             (replicate (unat (src_logical_sector_size source)) 0))) (\<lambda>u.
           or_safe_flush target True (of_result (account_exhausted_sector maximum sector_size offset
             block (ra_native_error attempt) (st\<lparr>rs_mutation_started := True\<rparr>)))))
         else
           bindE (or_safe_flush target True (write_and_read_back_verify target offset (ra_bytes attempt)))
             (\<lambda>u.
           or_safe_flush target True (of_result (account_recovered_sector sector_size
             (st\<lparr>rs_mutation_started := True\<rparr>)))))
        (\<lambda>st.
      bindE (or_safe_flush target True (of_result (resolve_outstanding sector_size st))) (\<lambda>st.
      stop_at_verified_boundary (rq_callbacks request) target st))))"

text \<open>Every turn advances one of two counters that must not overflow, so the loop ends.\<close>

definition sector_room :: "rescue_state \<Rightarrow> nat" where
  "sector_room st = (2 ^ 64 - unat (rr_sector_recovered_count (rs_report st))) +
     (2 ^ 64 - unat (rr_exhausted_sector_count (rs_report st)))"

lemma add_counter_eq [simp]:
  "add_counter a b = Inr c \<longleftrightarrow> c = a + b \<and> unat a + unat b < 2 ^ 64"
proof (cases "checked_add a b")
  case None
  then have "\<not> unat a + unat b < 2 ^ 64" using checked_add_unat [of a b] by (metis option.distinct(1))
  then show ?thesis using None by (simp add: add_counter_def)
next
  case (Some d)
  then show ?thesis using checked_add_SomeD(2,3) [OF Some] by (auto simp: add_counter_def)
qed

lemma or_safe_flush_Inr [simp]: "or_safe_flush target started m s = (Inr x, t) \<longleftrightarrow> m s = (Inr x, t)"
  by (auto simp: or_safe_flush_def fail_after_safe_flush_def bindE_eq_Inr split: prod.splits sum.splits
      if_splits)

lemma stop_at_verified_boundary_room:
  "stop_at_verified_boundary callbacks target st s = (Inr st', t) \<Longrightarrow>
   sector_room st' = sector_room st"
  by (auto simp: sector_room_def stop_at_verified_boundary_def Let_def bindE_eq_Inr fail_after_safe_flush_def
      split: if_splits)

lemma account_verified_write_counts:
  assumes "account_verified_write n z r st = Inr st'"
  shows "rr_sector_recovered_count (rs_report st') = rr_sector_recovered_count (rs_report st) \<and>
    rr_exhausted_sector_count (rs_report st') = rr_exhausted_sector_count (rs_report st)"
  using assms by (auto simp: account_verified_write_def Let_def split: sum.splits if_splits)

lemma unat_Suc_u64: "unat (c :: u64) < 18446744073709551615 \<Longrightarrow> unat (c + 1) = unat c + 1"
  using unat_add_u64 [of c 1] by simp

lemma sector_turn_room:
  assumes "sector_turn request source target block offset st s = (Inr st', t)"
  shows "sector_room st' < sector_room st"
proof -
  have exhausted: "sector_room b < sector_room a"
    if "account_exhausted_sector m n p f e a = Inr b" for m n p f e a b
    using that
    by (auto simp: account_exhausted_sector_def sector_room_def unat_Suc_u64 dest!: account_verified_write_counts
        split: sum.splits)
  have recovered: "sector_room b < sector_room a" if "account_recovered_sector n a = Inr b" for n a b
    using that
    by (auto simp: account_recovered_sector_def sector_room_def unat_Suc_u64 dest!: account_verified_write_counts
        split: sum.splits)
  have resolved: "sector_room b = sector_room a" if "resolve_outstanding n a = Inr b" for n a b
    using that by (auto simp: resolve_outstanding_def sector_room_def Let_def split: if_splits)
  have same: "sector_room (a\<lparr>rs_progress := p, rs_mutation_started := q\<rparr>) = sector_room a" for a p q
    by (simp add: sector_room_def)
  show ?thesis
    using assms unfolding sector_turn_def Let_def
    by (auto simp: bindE_eq_Inr same dest!: stop_at_verified_boundary_room resolved [OF sym]
        exhausted [OF sym] recovered [OF sym] split: if_splits)
qed

function retry_sectors ::
  "'s rescue_raw_copy_request \<Rightarrow> 's source_reader \<Rightarrow> 's target_writer \<Rightarrow> failed_block \<Rightarrow> u64 \<Rightarrow> u64 \<Rightarrow>
   rescue_state \<Rightarrow> ('s, rescue_state) prog" where
  "retry_sectors request source target block failed_end offset st =
     (if \<not> offset < failed_end then returnE st
      else
        bindE (stop_if_cancelled (rq_callbacks request) target (rs_mutation_started st)) (\<lambda>u.
        bindE (sector_turn request source target block offset st) (\<lambda>st.
        retry_sectors request source target block failed_end
          (offset + ucast (src_logical_sector_size source)) st)))"
  by pat_completeness auto
termination
  by (relation "measure (\<lambda>(request, source, target, block, failed_end, offset, st). sector_room st)")
    (auto intro: sector_turn_room)

declare retry_sectors.simps [simp del]

fun sector_pass ::
  "'s rescue_raw_copy_request \<Rightarrow> 's source_reader \<Rightarrow> 's target_writer \<Rightarrow> failed_block list \<Rightarrow>
   rescue_state \<Rightarrow> ('s, rescue_state) prog" where
  "sector_pass request source target [] st = returnE st"
| "sector_pass request source target (block # blocks) st =
     (let overrun = fail_after_safe_flush target (rs_mutation_started st)
            (mk_error Internal_error ERROR_ARITHMETIC_OVERFLOW)
      in
      case checked_add (range_offset (fb_bytes block)) (range_length (fb_bytes block)) of
        None \<Rightarrow> overrun
      | Some failed_end \<Rightarrow>
        if failed_end > src_size_bytes source then overrun
        else
          bindE (retry_sectors request source target block failed_end (range_offset (fb_bytes block)) st)
            (\<lambda>st. sector_pass request source target blocks st))"

definition final_rescue_invariant :: "u64 \<Rightarrow> rescue_state \<Rightarrow> bool" where
  "final_rescue_invariant size_bytes st \<longleftrightarrow>
     (let report = rs_report st; progress = rs_progress st in
      \<not> (rp_settled_target_bytes progress \<noteq> size_bytes \<or>
         rp_outstanding_failed_bytes progress \<noteq> 0 \<or>
         rr_verified_bytes report \<noteq> size_bytes \<or>
         rr_copied_source_bytes report > size_bytes \<or>
         rr_zero_filled_bytes report > size_bytes - rr_copied_source_bytes report \<or>
         rr_copied_source_bytes report + rr_zero_filled_bytes report \<noteq> size_bytes \<or>
         (rr_missing_ranges report = []) \<noteq> (rr_zero_filled_bytes report = 0)))"

text \<open>What follows the three passes.\<close>

definition finish_rescue ::
  "'s rescue_raw_copy_request \<Rightarrow> 's source_reader \<Rightarrow> 's target_writer \<Rightarrow> rescue_state \<Rightarrow>
   ('s, rescue_raw_copy_report) prog" where
  "finish_rescue request source target st =
     bindE (publish_unverified (rq_callbacks request) st) (\<lambda>st.
     bindE (or_safe_flush target (rs_mutation_started st) (of_result (normalize_missing_ranges
       (rr_missing_ranges (rs_report st)) (ucast (src_logical_sector_size source))))) (\<lambda>ranges.
     let st = st\<lparr>rs_report := (rs_report st)\<lparr>rr_missing_ranges := ranges\<rparr>\<rparr> in
     if \<not> final_rescue_invariant (src_size_bytes source) st
     then fail_after_safe_flush target (rs_mutation_started st)
       (mk_error Internal_error ERROR_INVALID_DATA)
     else
       let progress = (rs_progress st)\<lparr>rp_phase := Flushing, rp_cancellation_allowed := False,
             rp_pause_allowed := False\<rparr>
       in
       bindE (liftE (rescue_publish_progress (rq_callbacks request) progress)) (\<lambda>u.
       bindE (tgt_flush target) (\<lambda>u.
       let lost = ranges \<noteq> [];
           report = (rs_report st)\<lparr>rr_target_flushed := True, rr_all_writes_read_back_verified := True,
             rr_partial_data_loss := lost, rr_byte_exact_copy := \<not> lost\<rparr>
       in
       if (rr_zero_filled_bytes report \<noteq> 0 \<or> rr_exhausted_sector_count report \<noteq> 0) \<and>
          \<not> rr_partial_data_loss report
       then failE (mk_error Internal_error ERROR_INVALID_DATA)
       else
         bindE (liftE (rescue_publish_progress (rq_callbacks request)
           (progress\<lparr>rp_phase := Rescue_completed\<rparr>))) (\<lambda>u.
         returnE report)))))"

definition rescue_passes ::
  "'s rescue_raw_copy_request \<Rightarrow> 's source_reader \<Rightarrow> 's target_writer \<Rightarrow> ('s, rescue_state) prog" where
  "rescue_passes request source target =
     bindE (enter_phase (rq_callbacks request) Forward_read
       (initial_rescue_state (src_size_bytes source))) (\<lambda>st.
     bindE (forward_pass request source target 0 [] st) (\<lambda>(failed, st).
     bindE (enter_phase (rq_callbacks request) Reverse_retry st) (\<lambda>st.
     bindE (reverse_pass request source target (rev failed) [] st) (\<lambda>(retry, st).
     bindE (enter_phase (rq_callbacks request) Sector_retry st) (\<lambda>st.
     sector_pass request source target retry st)))))"

definition execute_rescue_raw_copy ::
  "'s rescue_raw_copy_request \<Rightarrow> 's source_reader \<Rightarrow> 's target_writer \<Rightarrow>
   ('s, rescue_raw_copy_report) prog" where
  "execute_rescue_raw_copy request source target =
     bindE (liftE (rescue_publish_progress (rq_callbacks request)
       (initial_rescue_progress (src_size_bytes source)))) (\<lambda>u.
     bindE (of_result (validate_request request source target)) (\<lambda>u.
     bindE (liftE (rescue_cancellation_requested (rq_callbacks request))) (\<lambda>cancel.
     if cancel then failE rescue_cancelled_error
     else
       bindE (rescue_passes request source target) (\<lambda>st.
       finish_rescue request source target st))))"

end
