(* ===== verification/RescueMap.thy ===== *)
theory RescueMap
  imports RescueCopy UsedRanges
begin

text \<open>
  The map of missing ranges of the rescue copy: what \<open>append_missing_sector\<close> keeps of it, and that
  \<open>normalize_missing_ranges\<close> accepts every map the engine can have built and returns the same bytes
  as an ordered list.
\<close>

section \<open>Well-formed maps\<close>

definition missing_span :: "rescue_missing_range list \<Rightarrow> nat set" where
  "missing_span rs = ranges_span (map mr_bytes rs)"

definition range_end :: "byte_range \<Rightarrow> nat" where
  "range_end r = unat (range_offset r) + unat (range_length r)"

definition missing_map :: "u64 \<Rightarrow> nat \<Rightarrow> rescue_missing_range list \<Rightarrow> bool" where
  "missing_map z n rs \<longleftrightarrow>
     list_all (\<lambda>r. missing_range_ok z r \<and> range_end (mr_bytes r) \<le> n) rs \<and>
     sorted_wrt (\<lambda>r r'. range_span (mr_bytes r) \<inter> range_span (mr_bytes r') = {}) rs"

lemma missing_span_simps [simp]:
  "missing_span [] = {}" "missing_span (r # rs) = range_span (mr_bytes r) \<union> missing_span rs"
  "missing_span (rs @ rs') = missing_span rs \<union> missing_span rs'" "finite (missing_span rs)"
  by (simp_all add: missing_span_def)

lemma missing_span_sort [simp]: "missing_span (sort_key f rs) = missing_span rs"
  by (auto simp: missing_span_def ranges_span_def)

lemma missing_map_simps [simp]:
  "missing_map z n []"
  "missing_map z n (rs @ [r]) \<longleftrightarrow> missing_map z n rs \<and> missing_range_ok z r \<and>
     range_end (mr_bytes r) \<le> n \<and> missing_span rs \<inter> range_span (mr_bytes r) = {}"
  by (auto simp: missing_map_def sorted_wrt_append list_all_iff missing_span_def ranges_span_def)

lemma missing_range_ok_nat:
  "missing_range_ok z r \<longleftrightarrow>
     range_length (mr_bytes r) \<noteq> 0 \<and> unat (range_offset (mr_bytes r)) mod unat z = 0 \<and>
     unat (range_length (mr_bytes r)) mod unat z = 0 \<and>
     unat (mr_first_lba r) = unat (range_offset (mr_bytes r)) div unat z \<and>
     unat (mr_sector_count r) = unat (range_length (mr_bytes r)) div unat z \<and>
     mr_zero_fill_read_back_verified r"
  by (auto simp: missing_range_ok_def word_unat_eq_iff unat_div_distrib unat_mod_distrib
      simp del: mod_0_imp_dvd)

lemma missing_map_subset: "missing_map z n rs \<Longrightarrow> missing_span rs \<subseteq> {..<n}"
  by (fastforce simp: missing_map_def missing_span_def ranges_span_def range_span_def span_def
      range_end_def list_all_iff)

lemma missing_map_card:
  assumes "missing_map z n rs"
  shows "card (missing_span rs) = (\<Sum>r\<leftarrow>rs. unat (range_length (mr_bytes r)))"
proof -
  have "card (\<Union>r \<in> set rs. range_span (mr_bytes r)) = (\<Sum>r\<leftarrow>rs. card (range_span (mr_bytes r)))"
    using assms by (intro card_disjoint_UN) (auto simp: missing_map_def range_span_def)
  then show ?thesis by (simp add: missing_span_def ranges_span_def range_span_def)
qed

lemma missing_map_empty: "missing_map z n rs \<Longrightarrow> missing_span rs = {} \<longleftrightarrow> rs = []"
  by (cases rs) (simp_all add: missing_map_def missing_range_ok_def range_span_def span_def unat_gt_0)

section \<open>Adding a sector\<close>

lemma extend_missing_range_ok:
  assumes r: "missing_range_ok z r" and b: "unat b mod unat z = 0" "unat n = unat b div unat z"
    and room: "range_end (mr_bytes r) + unat b < 2 ^ 64"
  obtains r' where "extend_missing_range r b n = Inr r'" "missing_range_ok z r'"
    "range_offset (mr_bytes r') = range_offset (mr_bytes r)"
    "unat (range_length (mr_bytes r')) = unat (range_length (mr_bytes r)) + unat b"
proof -
  let ?len = "range_length (mr_bytes r)"
  have len: "unat ?len + unat b < 2 ^ 64" using room by (simp add: range_end_def)
  have k: "unat ?len div unat z + unat b div unat z = (unat ?len + unat b) div unat z"
    by (rule div_add [symmetric]) (use r b(1) in \<open>simp_all add: missing_range_ok_nat dvd_eq_mod_eq_0\<close>)
  have count: "unat (mr_sector_count r) + unat n < 2 ^ 64"
    using r b(2) le_less_trans [OF div_le_dividend len] by (simp add: missing_range_ok_nat k)
  show thesis
  proof (rule that)
    show "extend_missing_range r b n = Inr (r\<lparr>mr_bytes := (mr_bytes r)\<lparr>range_length := ?len + b\<rparr>,
        mr_sector_count := mr_sector_count r + n\<rparr>)" (is "_ = Inr ?r")
      using len count by (simp add: extend_missing_range_def add_counter_def checked_add_unat)
    have sums: "unat (?len + b) = unat ?len + unat b"
      "unat (mr_sector_count r + n) = unat (mr_sector_count r) + unat n"
      using len count by (simp_all add: unat_add_u64)
    then show "unat (range_length (mr_bytes ?r)) = unat ?len + unat b" by simp
    have "?len + b \<noteq> 0" using r sums(1) by (metis add_is_0 missing_range_ok_nat unat_eq_zero)
    moreover have "(unat ?len + unat b) mod unat z = 0"
      using r b(1) by (metis dvd_add dvd_eq_mod_eq_0 missing_range_ok_nat)
    ultimately show "missing_range_ok z ?r"
      using r b(2) sums k by (simp add: missing_range_ok_nat)
  qed simp
qed

lemma extend_missing_range_errors:
  assumes "extend_missing_range r b n = Inr r'"
  shows "mr_forward_native_error r' = mr_forward_native_error r"
    "mr_reverse_native_error r' = mr_reverse_native_error r"
    "mr_sector_native_error r' = mr_sector_native_error r"
    "same_native_errors r' = same_native_errors r"
  using assms
  by (auto simp: extend_missing_range_def same_native_errors_def fun_eq_iff split: sum.splits)

text \<open>What the two operations look at in the last range.\<close>

lemma last_range_cases [consumes 2, case_names empty extends pushes]:
  assumes "missing_map z n rs" "n < 2 ^ 64"
  obtains "rs = []"
  | rs' p where "rs = rs' @ [p]" "missing_map z n rs'" "missing_range_ok z p"
      "checked_add (range_offset (mr_bytes p)) (range_length (mr_bytes p)) = Some off"
      "range_end (mr_bytes p) = unat off" "same_native_errors p f r e"
      "missing_span rs' \<inter> range_span (mr_bytes p) = {}"
  | rs' p pe where "rs = rs' @ [p]"
      "checked_add (range_offset (mr_bytes p)) (range_length (mr_bytes p)) = Some pe"
      "\<not> (pe = off \<and> same_native_errors p f r e)"
proof (cases rs rule: rev_cases)
  case (snoc rs' p)
  with assms have "range_end (mr_bytes p) < 2 ^ 64" by simp
  then obtain pe where pe: "checked_add (range_offset (mr_bytes p)) (range_length (mr_bytes p)) = Some pe"
    by (auto simp: range_end_def checked_add_unat)
  show thesis
  proof (cases "pe = off \<and> same_native_errors p f r e")
    case True
    then show thesis
      using that(2) [OF snoc] snoc assms(1) pe checked_add_SomeD(1) [OF pe] by (simp add: range_end_def)
  next
    case False
    then show thesis using that(3) snoc pe by blast
  qed
qed (use that in blast)

lemma append_missing_sector_ok:
  assumes rs: "missing_map z n rs" "n < 2 ^ 64" and z: "z \<noteq> 0"
    and off: "unat off mod unat z = 0" "unat off + unat z \<le> n"
    and new: "missing_span rs \<inter> span (unat off) (unat z) = {}"
    and room: "ensure_missing_sector_can_be_recorded rs maximum off f r e = Inr ()"
  obtains rs' where "append_missing_sector rs maximum off z f r e = Inr rs'" "missing_map z n rs'"
    "missing_span rs' = missing_span rs \<union> span (unat off) (unat z)"
proof -
  let ?new = "new_missing_range off z f r e"
  have zpos: "0 < unat z" using z by (simp add: unat_gt_0)
  have ok: "missing_range_ok z ?new" "range_end (mr_bytes ?new) \<le> n"
    "range_span (mr_bytes ?new) = span (unat off) (unat z)"
    using z zpos off by (simp_all add: missing_range_ok_nat new_missing_range_def range_end_def
        range_span_def unat_div_distrib)
  note result = that
  have push: thesis if "append_missing_sector rs maximum off z f r e = Inr (rs @ [?new])"
    using rs(1) ok new by (intro result [OF that]) simp_all
  from rs show thesis
  proof (cases rule: last_range_cases [where off = off and f = f and r = r and e = e])
    case empty
    then show thesis
      using room push by (auto simp: append_missing_sector_def ensure_missing_sector_can_be_recorded_def
          split: if_splits)
  next
    case (extends rs' p)
    have "range_end (mr_bytes p) + unat z < 2 ^ 64" using extends(5) off(2) rs(2) by simp
    then obtain p' where p': "extend_missing_range p z 1 = Inr p'" "missing_range_ok z p'"
      "range_offset (mr_bytes p') = range_offset (mr_bytes p)"
      "unat (range_length (mr_bytes p')) = unat (range_length (mr_bytes p)) + unat z"
      using extend_missing_range_ok [OF extends(3), of z 1] zpos by auto
    have span: "range_span (mr_bytes p') = range_span (mr_bytes p) \<union> span (unat off) (unat z)"
      using extends(5) p'(3,4) by (auto simp: range_span_def span_def range_end_def)
    have "range_end (mr_bytes p') \<le> n" using extends(5) p'(3,4) off(2) by (simp add: range_end_def)
    moreover have "missing_span rs' \<inter> range_span (mr_bytes p') = {}"
      using extends(7) new span by (auto simp: extends(1))
    moreover have "append_missing_sector rs maximum off z f r e = Inr (rs' @ [p'])"
      using extends p'(1) by (simp add: append_missing_sector_def)
    ultimately show thesis
      using extends(1,2) p'(2) span by (intro result [of "rs' @ [p']"]) auto
  next
    case (pushes rs' p pe)
    then show thesis
      using room push by (auto simp: append_missing_sector_def ensure_missing_sector_can_be_recorded_def
          split: if_splits)
  qed
qed

lemma ensure_missing_sector_errors:
  assumes "missing_map z n rs" "n < 2 ^ 64"
    "ensure_missing_sector_can_be_recorded rs maximum off f r e = Inl err"
  shows "err = mk_error Invalid_data ERROR_NOT_ENOUGH_MEMORY \<and> unat maximum \<le> length rs"
  using assms(1,2)
  by (cases rule: last_range_cases [where off = off and f = f and r = r and e = e])
    (use assms(3) in \<open>auto simp: ensure_missing_sector_can_be_recorded_def split: if_splits\<close>)

section \<open>Normalisation\<close>

definition missing_before :: "rescue_missing_range \<Rightarrow> rescue_missing_range \<Rightarrow> bool" where
  "missing_before r r' \<longleftrightarrow> range_before (mr_bytes r) (mr_bytes r')"

text \<open>Neighbours that \<open>normalize_missing_ranges\<close> would make one range.\<close>

definition mergeable :: "rescue_missing_range \<Rightarrow> rescue_missing_range \<Rightarrow> bool" where
  "mergeable r r' \<longleftrightarrow> range_end (mr_bytes r) = unat (range_offset (mr_bytes r')) \<and>
     same_native_errors r (mr_forward_native_error r') (mr_reverse_native_error r')
       (mr_sector_native_error r')"

lemma missing_before_end: "missing_before r r' \<longleftrightarrow> range_end (mr_bytes r) \<le> unat (range_offset (mr_bytes r'))"
  by (simp add: missing_before_def range_before_def range_end_def)

lemma sorted_wrt_both: "sorted_wrt P xs \<Longrightarrow> sorted_wrt Q xs \<Longrightarrow> sorted_wrt (\<lambda>x y. P x y \<and> Q x y) xs"
  by (induction xs) auto

lemma missing_map_sorted:
  assumes "missing_map z n rs"
  shows "sorted_wrt missing_before (sort_key (\<lambda>r. range_offset (mr_bytes r)) rs)"
    "list_all (\<lambda>r. missing_range_ok z r \<and> range_end (mr_bytes r) \<le> n)
       (sort_key (\<lambda>r. range_offset (mr_bytes r)) rs)"
proof -
  let ?rs = "sort_key (\<lambda>r. range_offset (mr_bytes r)) rs"
  show "list_all (\<lambda>r. missing_range_ok z r \<and> range_end (mr_bytes r) \<le> n) ?rs"
    using assms by (simp add: missing_map_def list_all_iff)
  have "sorted_wrt (\<lambda>r r'. range_span (mr_bytes r) \<inter> range_span (mr_bytes r') = {}) ?rs"
    using assms unfolding missing_map_def
    by (subst sorted_wrt_sym_sort_key) auto
  moreover have "sorted_wrt (\<lambda>r r'. range_offset (mr_bytes r) \<le> range_offset (mr_bytes r')) ?rs"
    using sorted_sort_key [of "\<lambda>r. range_offset (mr_bytes r)" rs] by (simp add: sorted_wrt_map)
  ultimately have both: "sorted_wrt (\<lambda>r r'. range_span (mr_bytes r) \<inter> range_span (mr_bytes r') = {} \<and>
      range_offset (mr_bytes r) \<le> range_offset (mr_bytes r')) ?rs"
    by (rule sorted_wrt_both)
  show "sorted_wrt missing_before ?rs"
  proof (rule sorted_wrt_mono_rel [OF _ both])
    fix r r' assume rr: "r \<in> set ?rs" "r' \<in> set ?rs" and d: "range_span (mr_bytes r) \<inter> range_span (mr_bytes r') = {} \<and>
      range_offset (mr_bytes r) \<le> range_offset (mr_bytes r')"
    have "range_length (mr_bytes r') \<noteq> 0"
      using rr(2) assms by (auto simp: missing_map_def list_all_iff missing_range_ok_def)
    then have "unat (range_offset (mr_bytes r')) \<in> range_span (mr_bytes r')"
      by (simp add: range_span_def span_def unat_gt_0)
    then have "unat (range_offset (mr_bytes r')) \<notin> range_span (mr_bytes r)" using d by blast
    then show "missing_before r r'"
      using d by (auto simp: missing_before_end range_span_def span_def range_end_def word_le_nat_alt)
  qed
qed

lemma missing_before_map:
  assumes "sorted_wrt missing_before rs"
    "list_all (\<lambda>r. missing_range_ok z r \<and> range_end (mr_bytes r) \<le> n) rs"
  shows "missing_map z n rs"
  unfolding missing_map_def
  using assms(2) sorted_wrt_mono_rel [OF _ assms(1)]
  by (fastforce simp: missing_before_end range_end_def range_span_def span_def)

lemma merge_missing_ranges_ok:
  assumes "sorted_wrt missing_before (out @ rs)"
    "list_all (\<lambda>r. missing_range_ok z r \<and> range_end (mr_bytes r) \<le> n) (out @ rs)" "n < 2 ^ 64"
    "successively (\<lambda>r r'. \<not> mergeable r r') out"
  shows "\<exists>res. merge_missing_ranges out rs = Inr res \<and> sorted_wrt missing_before res \<and>
    list_all (\<lambda>r. missing_range_ok z r \<and> range_end (mr_bytes r) \<le> n) res \<and>
    missing_span res = missing_span (out @ rs) \<and> successively (\<lambda>r r'. \<not> mergeable r r') res"
  using assms
proof (induction rs arbitrary: out)
  case (Cons r rs)
  show ?case
  proof (cases out rule: rev_cases)
    case Nil
    then show ?thesis using Cons.IH [of "[r]"] Cons.prems by simp
  next
    case (snoc out' p)
    let ?P = "\<lambda>r. missing_range_ok z r \<and> range_end (mr_bytes r) \<le> n"
    have p: "?P p" "?P r" "list_all ?P out'" "list_all ?P rs" using Cons.prems(2) by (simp_all add: snoc)
    have sorted: "sorted_wrt missing_before out'" "sorted_wrt missing_before rs"
      "list_all (\<lambda>a. missing_before a p) out'" "list_all (\<lambda>a. list_all (missing_before a) rs) out'"
      "list_all (missing_before r) rs" "missing_before p r"
      using Cons.prems(1) by (auto simp: snoc sorted_wrt_append list_all_iff)
    obtain pe where pe: "checked_add (range_offset (mr_bytes p)) (range_length (mr_bytes p)) = Some pe"
      using p(1) Cons.prems(3) by (auto simp: range_end_def checked_add_unat)
    have pe_end: "unat pe = range_end (mr_bytes p)"
      using checked_add_SomeD(1) [OF pe] by (simp add: range_end_def)
    have ge: "\<not> range_offset (mr_bytes r) < pe"
      using sorted(6) by (simp add: missing_before_end pe_end word_less_nat_alt)
    have eq: "range_offset (mr_bytes r) = pe \<longleftrightarrow> range_end (mr_bytes p) = unat (range_offset (mr_bytes r))"
      by (auto simp: pe_end [symmetric] word_unat_eq_iff)
    show ?thesis
    proof (cases "mergeable p r")
      case False
      then have step: "merge_missing_ranges out (r # rs) = merge_missing_ranges (out @ [r]) rs"
        using pe ge eq by (auto simp: snoc mergeable_def)
      have "successively (\<lambda>r r'. \<not> mergeable r r') (out @ [r])"
        using False Cons.prems(4) by (simp add: snoc successively_append_iff)
      then show ?thesis using Cons.IH [of "out @ [r]"] Cons.prems(1-3) step by simp
    next
      case True
      then have adj: "range_end (mr_bytes p) = unat (range_offset (mr_bytes r))" by (simp add: mergeable_def)
      obtain q where q: "extend_missing_range p (range_length (mr_bytes r)) (mr_sector_count r) = Inr q"
        "missing_range_ok z q" "range_offset (mr_bytes q) = range_offset (mr_bytes p)"
        "unat (range_length (mr_bytes q)) = unat (range_length (mr_bytes p)) + unat (range_length (mr_bytes r))"
      proof (rule extend_missing_range_ok [of z p "range_length (mr_bytes r)" "mr_sector_count r"])
        show "range_end (mr_bytes p) + unat (range_length (mr_bytes r)) < 2 ^ 64"
          using p(2) Cons.prems(3) adj by (simp add: range_end_def)
      qed (use p in \<open>simp_all add: missing_range_ok_nat\<close>)
      have q_end: "range_end (mr_bytes q) = range_end (mr_bytes r)"
        using q(3,4) adj by (simp add: range_end_def)
      have step: "merge_missing_ranges out (r # rs) = merge_missing_ranges (out' @ [q]) rs"
        using pe ge eq True q(1) by (auto simp: snoc mergeable_def)
      have "sorted_wrt missing_before ((out' @ [q]) @ rs)"
        using sorted q(3) q_end by (auto simp: sorted_wrt_append missing_before_end list_all_iff)
      moreover have "list_all ?P ((out' @ [q]) @ rs)" using p q(2) q_end by simp
      moreover have "successively (\<lambda>r r'. \<not> mergeable r r') (out' @ [q])"
        using Cons.prems(4) q(3) extend_missing_range_errors [OF q(1)]
        by (cases out' rule: rev_cases) (auto simp: snoc successively_append_iff mergeable_def)
      ultimately have "\<exists>res. merge_missing_ranges (out' @ [q]) rs = Inr res \<and>
          sorted_wrt missing_before res \<and> list_all ?P res \<and>
          missing_span res = missing_span ((out' @ [q]) @ rs) \<and>
          successively (\<lambda>r r'. \<not> mergeable r r') res"
        using Cons.IH Cons.prems(3) by blast
      moreover have "range_span (mr_bytes q) = range_span (mr_bytes p) \<union> range_span (mr_bytes r)"
        using q(3,4) adj by (auto simp: range_span_def span_def range_end_def)
      ultimately show ?thesis using step by (simp add: snoc Un_assoc)
    qed
  qed
qed simp

lemma normalize_missing_ranges_ok:
  assumes "missing_map z n rs" "n < 2 ^ 64"
  obtains res where "normalize_missing_ranges rs z = Inr res" "sorted_wrt missing_before res"
    "list_all (\<lambda>r. missing_range_ok z r \<and> range_end (mr_bytes r) \<le> n) res"
    "missing_span res = missing_span rs" "successively (\<lambda>r r'. \<not> mergeable r r') res"
proof -
  from merge_missing_ranges_ok [of "[]" "sort_key (\<lambda>r. range_offset (mr_bytes r)) rs" z n]
    missing_map_sorted [OF assms(1)] assms(2)
  obtain res where res: "merge_missing_ranges [] (sort_key (\<lambda>r. range_offset (mr_bytes r)) rs) = Inr res"
    "sorted_wrt missing_before res"
    "list_all (\<lambda>r. missing_range_ok z r \<and> range_end (mr_bytes r) \<le> n) res"
    "missing_span res = missing_span rs" "successively (\<lambda>r r'. \<not> mergeable r r') res"
    by auto
  then have "normalize_missing_ranges rs z = Inr res"
    by (auto simp: normalize_missing_ranges_def list_all_iff)
  with res show thesis by (intro that)
qed

end
