(* ===== verification/RescueTally.thy ===== *)
theory RescueTally
  imports RescueMap
begin

text \<open>
  The counters of the rescue copy as cardinalities: \<open>S\<close> are the settled bytes, \<open>U\<close> the outstanding
  ones, \<open>M\<close> those that were zero filled.  Every bookkeeping step succeeds and keeps the tally, so the
  overflow and underflow checks of the engine never fire.
\<close>

text \<open>\<open>f\<close> and \<open>r\<close> are the numbers of blocks that failed in the first and in the second pass.\<close>

definition tallies ::
  "nat \<Rightarrow> u64 \<Rightarrow> nat \<Rightarrow> nat \<Rightarrow> nat set \<Rightarrow> nat set \<Rightarrow> nat set \<Rightarrow> rescue_state \<Rightarrow> bool" where
  "tallies n z f r S U M st \<longleftrightarrow>
     S \<subseteq> {..<n} \<and> U \<subseteq> {..<n} \<and> M \<subseteq> S \<and>
     unat (rp_settled_target_bytes (rs_progress st)) = card S \<and>
     unat (rp_outstanding_failed_bytes (rs_progress st)) = card U \<and>
     unat (rr_verified_bytes (rs_report st)) = card S \<and>
     unat (rr_zero_filled_bytes (rs_report st)) = card M \<and>
     unat (rr_copied_source_bytes (rs_report st)) = card (S - M) \<and>
     unat (rr_recovered_bytes (rs_report st)) \<le> card (S - M) \<and>
     unat (rr_reverse_recovered_block_count (rs_report st)) \<le> card S \<and>
     unat (rr_sector_recovered_count (rs_report st)) \<le> card S \<and>
     unat (rr_exhausted_sector_count (rs_report st)) * unat z = card M \<and>
     unat (rr_forward_failed_block_count (rs_report st)) = f \<and>
     unat (rr_reverse_failed_block_count (rs_report st)) = r \<and>
     missing_map z n (rr_missing_ranges (rs_report st)) \<and>
     missing_span (rr_missing_ranges (rs_report st)) = M \<and>
     rr_source_extent_bytes (rs_report st) = of_nat n \<and>
     rr_layout_preserved_without_conversion (rs_report st)"

lemma tallies_progress [simp]:
  "tallies n z f r S U M (st\<lparr>rs_progress := (rs_progress st)\<lparr>rp_current_offset := k\<rparr>\<rparr>) \<longleftrightarrow>
     tallies n z f r S U M st"
  "tallies n z f r S U M (st\<lparr>rs_progress := (rs_progress st)\<lparr>rp_pause_allowed := b\<rparr>\<rparr>) \<longleftrightarrow>
     tallies n z f r S U M st"
  "tallies n z f r S U M (st\<lparr>rs_progress := (rs_progress st)\<lparr>rp_phase := ph, rp_pause_allowed := b\<rparr>\<rparr>) \<longleftrightarrow>
     tallies n z f r S U M st"
  "tallies n z f r S U M (st\<lparr>rs_boundary_count := c, rs_progress := (rs_progress st)\<lparr>rp_pause_allowed := b\<rparr>\<rparr>) \<longleftrightarrow>
     tallies n z f r S U M st"
  "tallies n z f r S U M (st\<lparr>rs_mutation_started := b\<rparr>) \<longleftrightarrow> tallies n z f r S U M st"
  "tallies n z f r S U M (st\<lparr>rs_progress := (rs_progress st)\<lparr>rp_current_offset := k\<rparr>,
     rs_mutation_started := b\<rparr>) \<longleftrightarrow> tallies n z f r S U M st"
  by (simp_all add: tallies_def)

lemma tallies_initial: "n < 2 ^ 64 \<Longrightarrow> tallies n z 0 0 {} {} {} (initial_rescue_state (of_nat n))"
  by (simp add: tallies_def initial_rescue_state_def initial_rescue_progress_def
      initial_rescue_report_def)

lemma card_less_n: "W \<subseteq> {..<n} \<Longrightarrow> card W \<le> n"
  using card_mono [of "{..<n}" W] by simp

text \<open>The shape of a bookkeeping step that succeeds: it returns a state with a property.\<close>

definition succeeds :: "rescue_state result \<Rightarrow> (rescue_state \<Rightarrow> bool) \<Rightarrow> bool" where
  "succeeds m Q \<longleftrightarrow> (\<exists>st. m = Inr st \<and> Q st)"

lemma succeeds_case:
  assumes "succeeds m P" "\<And>st. P st \<Longrightarrow> succeeds (f st) Q"
  shows "succeeds (case m of Inl e \<Rightarrow> Inl e | Inr st \<Rightarrow> f st) Q"
  using assms by (auto simp: succeeds_def)

lemma succeeds_Inr: "Q st \<Longrightarrow> succeeds (Inr st) Q"
  by (simp add: succeeds_def)

lemma add_counter_Inr: "unat a + unat b < 2 ^ 64 \<Longrightarrow> add_counter a b = Inr (a + b)"
  by simp

lemma account_copied:
  assumes "tallies n z f r S U M st" "n < 2 ^ 64" "W \<inter> S = {}" "W \<subseteq> {..<n}" "card W = unat k"
  shows "succeeds (account_verified_write k False rec st) (\<lambda>st'. tallies n z f r (S \<union> W) U M st' \<and>
    rr_reverse_recovered_block_count (rs_report st') = rr_reverse_recovered_block_count (rs_report st) \<and>
    rr_sector_recovered_count (rs_report st') = rr_sector_recovered_count (rs_report st))"
proof -
  let ?p = "rs_progress st" and ?q = "rs_report st"
  have fin: "finite S" "finite W" using assms(1,4) by (auto simp: tallies_def intro: finite_subset)
  have M: "M \<subseteq> S" "finite M" using assms(1) fin(1) by (auto simp: tallies_def intro: finite_subset)
  have "card (S \<union> W) = card S + card W" using fin assms(3) by (intro card_Un_disjoint) auto
  moreover have "card ((S - M) \<union> W) = card (S - M) + card W"
    using fin assms(3) by (intro card_Un_disjoint) auto
  moreover have "S \<union> W - M = (S - M) \<union> W" using M(1) assms(3) by auto
  ultimately have c: "card (S \<union> W) = card S + unat k" "card (S \<union> W - M) = card (S - M) + unat k"
    using assms(5) by simp_all
  have "card (S \<union> W) \<le> n" using assms(1,4) by (intro card_less_n) (simp add: tallies_def)
  moreover have "card (S \<union> W - M) \<le> card (S \<union> W)" using fin by (intro card_mono) auto
  ultimately have b: "card S + unat k < 2 ^ 64" "card (S - M) + unat k < 2 ^ 64"
    using c assms(2) by linarith+
  have t: "unat (rp_settled_target_bytes ?p) = card S" "unat (rr_verified_bytes ?q) = card S"
    "unat (rr_copied_source_bytes ?q) = card (S - M)" "unat (rr_recovered_bytes ?q) \<le> card (S - M)"
    using assms(1) by (simp_all add: tallies_def)
  have ok: "add_counter (rr_verified_bytes ?q) k = Inr (rr_verified_bytes ?q + k)"
    "add_counter (rp_settled_target_bytes ?p) k = Inr (rp_settled_target_bytes ?p + k)"
    "add_counter (rr_copied_source_bytes ?q) k = Inr (rr_copied_source_bytes ?q + k)"
    "add_counter (rr_recovered_bytes ?q) k = Inr (rr_recovered_bytes ?q + k)"
    using t b by (simp_all del: add_counter_eq add: add_counter_Inr)
  have v: "unat (rr_verified_bytes ?q + k) = card S + unat k"
    "unat (rp_settled_target_bytes ?p + k) = card S + unat k"
    "unat (rr_copied_source_bytes ?q + k) = card (S - M) + unat k"
    "unat (rr_recovered_bytes ?q + k) \<le> card (S - M) + unat k"
    using t b by (simp_all add: unat_add_u64)
  note T = assms(1) [unfolded tallies_def]
  have w: "S \<union> W \<subseteq> {..<n}" "M \<subseteq> S \<union> W"
    "unat (rr_reverse_recovered_block_count ?q) \<le> card S + unat k"
    "unat (rr_sector_recovered_count ?q) \<le> card S + unat k"
    "unat (rr_recovered_bytes ?q) \<le> card (S - M) + unat k"
    using T assms(4) by auto
  show ?thesis
    unfolding account_verified_write_def Let_def ok sum.case if_False
    by (cases rec) (use T assms(4) in \<open>simp_all add: succeeds_def ok tallies_def c v w\<close>)
qed

lemma tallies_settled_less:
  assumes "tallies n z f r S U M st" "W \<inter> S = {}" "W \<subseteq> {..<n}" "W \<noteq> {}"
  shows "card S + 1 \<le> card (S \<union> W)" "card (S \<union> W) \<le> n"
proof -
  have fin: "finite S" "finite W" using assms(1,3) by (auto simp: tallies_def intro: finite_subset)
  then have "1 \<le> card W" using assms(4) by (simp add: Suc_le_eq card_gt_0_iff)
  then show "card S + 1 \<le> card (S \<union> W)" using fin assms(2) by (simp add: card_Un_disjoint Int_commute)
  show "card (S \<union> W) \<le> n" using assms(1,3) by (intro card_less_n) (simp add: tallies_def)
qed

lemma resolve_ok:
  assumes "tallies n z f r S U M st" "W \<subseteq> U" "card W = unat k"
  shows "succeeds (resolve_outstanding k st) (tallies n z f r S (U - W) M)"
proof -
  note T = assms(1) [unfolded tallies_def]
  have fin: "finite U" using T by (auto intro: finite_subset)
  then have "card W \<le> card U" "card (U - W) = card U - card W"
    using assms(2) by (simp_all add: card_mono card_Diff_subset finite_subset)
  then show ?thesis
    using T assms(3) unat_sub_u64 [of k "rp_outstanding_failed_bytes (rs_progress st)"]
    by (auto simp: resolve_outstanding_def Let_def succeeds_def tallies_def not_less word_le_nat_alt)
qed

lemma note_forward_failure_ok:
  assumes "tallies n z f r S U M st" "n < 2 ^ 64" "f + 1 < 2 ^ 64"
    "W \<inter> U = {}" "W \<subseteq> {..<n}" "card W = unat k"
  shows "succeeds (note_forward_failure k st) (tallies n z (f + 1) r S (U \<union> W) M)"
proof -
  note T = assms(1) [unfolded tallies_def]
  have fin: "finite U" "finite W" using T assms(5) by (auto intro: finite_subset)
  then have c: "card (U \<union> W) = card U + unat k"
    using assms(4,6) by (simp add: card_Un_disjoint Int_commute)
  moreover have "card (U \<union> W) \<le> n" using T assms(5) by (intro card_less_n) simp
  ultimately have b: "card U + unat k < 2 ^ 64" using assms(2) by simp
  have ok: "add_counter (rr_forward_failed_block_count (rs_report st)) 1 =
      Inr (rr_forward_failed_block_count (rs_report st) + 1)"
    "add_counter (rp_outstanding_failed_bytes (rs_progress st)) k =
      Inr (rp_outstanding_failed_bytes (rs_progress st) + k)"
    using T b assms(3) by (simp_all del: add_counter_eq add: add_counter_Inr)
  have v: "unat (rr_forward_failed_block_count (rs_report st) + 1) = f + 1"
    "unat (rp_outstanding_failed_bytes (rs_progress st) + k) = card U + unat k"
    using T b assms(3) by (simp_all add: unat_add_u64)
  show ?thesis
    using T assms(5) by (simp add: note_forward_failure_def ok succeeds_def tallies_def c v)
qed

lemma count_reverse_failure_ok:
  assumes "tallies n z f r S U M st" "r + 1 < 2 ^ 64"
  shows "succeeds (count_reverse_failure st) (tallies n z f (r + 1) S U M)"
proof -
  note T = assms(1) [unfolded tallies_def]
  have ok: "add_counter (rr_reverse_failed_block_count (rs_report st)) 1 =
      Inr (rr_reverse_failed_block_count (rs_report st) + 1)"
    "unat (rr_reverse_failed_block_count (rs_report st) + 1) = r + 1"
    using T assms(2) by (simp_all del: add_counter_eq add: add_counter_Inr unat_add_u64)
  show ?thesis using T by (simp add: count_reverse_failure_def ok succeeds_def tallies_def)
qed

lemma account_reverse_recovery_ok:
  assumes "tallies n z f r S U M st" "n < 2 ^ 64" "W \<inter> S = {}" "W \<subseteq> U" "W \<noteq> {}" "card W = unat k"
  shows "succeeds (account_reverse_recovery k st) (tallies n z f r (S \<union> W) (U - W) M)"
  unfolding account_reverse_recovery_def
proof (rule succeeds_case)
  have W: "W \<subseteq> {..<n}" using assms(1,4) by (auto simp: tallies_def)
  show "succeeds (account_verified_write k False True st) (\<lambda>st'. tallies n z f r (S \<union> W) U M st' \<and>
      rr_reverse_recovered_block_count (rs_report st') = rr_reverse_recovered_block_count (rs_report st) \<and>
      rr_sector_recovered_count (rs_report st') = rr_sector_recovered_count (rs_report st))"
    using account_copied [OF assms(1,2,3) W assms(6)] .
  fix st' assume st': "tallies n z f r (S \<union> W) U M st' \<and>
      rr_reverse_recovered_block_count (rs_report st') = rr_reverse_recovered_block_count (rs_report st) \<and>
      rr_sector_recovered_count (rs_report st') = rr_sector_recovered_count (rs_report st)"
  let ?c = "rr_reverse_recovered_block_count (rs_report st')"
  have "unat ?c + 1 \<le> card (S \<union> W)" "card (S \<union> W) < 2 ^ 64"
    using tallies_settled_less [OF assms(1,3) W assms(5)] assms(1,2) st' by (auto simp: tallies_def)
  then have ok: "add_counter ?c 1 = Inr (?c + 1)" "unat (?c + 1) \<le> card (S \<union> W)"
    by (simp_all del: add_counter_eq add: add_counter_Inr unat_add_u64)
  have "tallies n z f r (S \<union> W) U M
      (st'\<lparr>rs_report := (rs_report st')\<lparr>rr_reverse_recovered_block_count := ?c + 1\<rparr>\<rparr>)"
    using conjunct1 [OF st', unfolded tallies_def] ok(2) by (simp add: tallies_def)
  from resolve_ok [OF this assms(4,6)]
  show "succeeds (case add_counter ?c 1 of Inl e \<Rightarrow> Inl e | Inr m \<Rightarrow> resolve_outstanding k
      (st'\<lparr>rs_report := (rs_report st')\<lparr>rr_reverse_recovered_block_count := m\<rparr>\<rparr>))
    (tallies n z f r (S \<union> W) (U - W) M)"
    by (simp add: ok(1))
qed

lemma account_recovered_sector_ok:
  assumes "tallies n z f r S U M st" "n < 2 ^ 64" "W \<inter> S = {}" "W \<subseteq> {..<n}" "W \<noteq> {}" "card W = unat k"
  shows "succeeds (account_recovered_sector k st) (tallies n z f r (S \<union> W) U M)"
  unfolding account_recovered_sector_def
proof (rule succeeds_case [OF account_copied [OF assms(1-4,6)]])
  fix st' assume st': "tallies n z f r (S \<union> W) U M st' \<and>
      rr_reverse_recovered_block_count (rs_report st') = rr_reverse_recovered_block_count (rs_report st) \<and>
      rr_sector_recovered_count (rs_report st') = rr_sector_recovered_count (rs_report st)"
  let ?c = "rr_sector_recovered_count (rs_report st')"
  have "unat ?c + 1 \<le> card (S \<union> W)" "card (S \<union> W) < 2 ^ 64"
    using tallies_settled_less [OF assms(1,3,4,5)] assms(1,2) st' by (auto simp: tallies_def)
  then have ok: "add_counter ?c 1 = Inr (?c + 1)" "unat (?c + 1) \<le> card (S \<union> W)"
    by (simp_all del: add_counter_eq add: add_counter_Inr unat_add_u64)
  show "succeeds (case add_counter ?c 1 of Inl e \<Rightarrow> Inl e | Inr m \<Rightarrow>
      Inr (st'\<lparr>rs_report := (rs_report st')\<lparr>rr_sector_recovered_count := m\<rparr>\<rparr>))
    (tallies n z f r (S \<union> W) U M)"
    using conjunct1 [OF st', unfolded tallies_def] ok(2) by (simp add: succeeds_def tallies_def ok(1))
qed

lemma account_zeroes:
  assumes "tallies n z f r S U M st" "n < 2 ^ 64" "W \<inter> S = {}" "W \<subseteq> {..<n}" "W \<noteq> {}" "card W = unat z"
    and "missing_map z n rs" "missing_span rs = M \<union> W"
  shows "succeeds (case account_verified_write z True False
       (st\<lparr>rs_report := (rs_report st)\<lparr>rr_missing_ranges := rs\<rparr>\<rparr>) of
        Inl e \<Rightarrow> Inl e
      | Inr st \<Rightarrow>
     (case add_counter (rr_exhausted_sector_count (rs_report st)) 1 of
        Inl e \<Rightarrow> Inl e
      | Inr k \<Rightarrow> Inr (st\<lparr>rs_report := (rs_report st)\<lparr>rr_exhausted_sector_count := k\<rparr>\<rparr>)))
    (tallies n z f r (S \<union> W) U (M \<union> W))"
proof -
  note T = assms(1) [unfolded tallies_def]
  let ?p = "rs_progress st" and ?q = "rs_report st"
  have fin: "finite S" "finite W" "finite M" using T assms(4) by (auto intro: finite_subset)
  have c: "card (S \<union> W) = card S + unat z" "card (M \<union> W) = card M + unat z"
  proof -
    have "S \<inter> W = {}" "M \<inter> W = {}" using assms(3) T by auto
    then show "card (S \<union> W) = card S + unat z" "card (M \<union> W) = card M + unat z"
      using fin assms(6) by (simp_all add: card_Un_disjoint)
  qed
  have d: "S \<union> W - (M \<union> W) = S - M" using assms(3) by auto
  have "card (S \<union> W) \<le> n" "card (M \<union> W) \<le> n" using T assms(4) by (auto intro!: card_less_n)
  then have b: "card S + unat z < 2 ^ 64" "card M + unat z < 2 ^ 64"
    using c assms(2) by simp_all
  have z: "0 < unat z" using assms(5,6) fin(2) by (metis card_gt_0_iff)
  have e: "unat (rr_exhausted_sector_count ?q) + 1 < 2 ^ 64"
  proof -
    have "unat (rr_exhausted_sector_count ?q) \<le> unat (rr_exhausted_sector_count ?q) * unat z"
      using z by simp
    also have "\<dots> = card M" using T by simp
    finally show ?thesis using b(2) z by linarith
  qed
  have ok: "add_counter (rr_verified_bytes ?q) z = Inr (rr_verified_bytes ?q + z)"
    "add_counter (rp_settled_target_bytes ?p) z = Inr (rp_settled_target_bytes ?p + z)"
    "add_counter (rr_zero_filled_bytes ?q) z = Inr (rr_zero_filled_bytes ?q + z)"
    "add_counter (rr_exhausted_sector_count ?q) 1 = Inr (rr_exhausted_sector_count ?q + 1)"
    using T b e by (simp_all del: add_counter_eq add: add_counter_Inr)
  have v: "unat (rr_verified_bytes ?q + z) = card S + unat z"
    "unat (rp_settled_target_bytes ?p + z) = card S + unat z"
    "unat (rr_zero_filled_bytes ?q + z) = card M + unat z"
    "unat (rr_exhausted_sector_count ?q + 1) = unat (rr_exhausted_sector_count ?q) + 1"
    using T b e by (simp_all add: unat_add_u64)
  have w: "W \<subseteq> {..<n}" "M \<subseteq> S \<union> W"
    "unat (rr_reverse_recovered_block_count ?q) \<le> card S + unat z"
    "unat (rr_sector_recovered_count ?q) \<le> card S + unat z"
    using T assms(4) by auto
  have x: "(unat (rr_exhausted_sector_count ?q) + 1) * unat z = card M + unat z" using T by simp
  show ?thesis
    by (simp del: mult_Suc add: account_verified_write_def Let_def ok succeeds_def tallies_def)
      (use T assms(7,8) in \<open>simp add: c d v w x [simplified]\<close>)
qed

end
