(* ===== verification/RescueCopyCorrect.thy ===== *)
theory RescueCopyCorrect
  imports RescueTally
begin

text \<open>
  The program logic of the rescue copy.  At every moment the target holds the source's bytes on the
  settled bytes \<open>S\<close>, zeroes on the bytes \<open>M\<close> given up, and its old contents elsewhere.
\<close>

definition rescued :: "image \<Rightarrow> nat set \<Rightarrow> nat set \<Rightarrow> image \<Rightarrow> image" where
  "rescued src S M img = overlay (\<lambda>i. 0) M (overlay src S img)"

lemma rescued_empty [simp]: "rescued src {} {} img = img"
  by (simp add: rescued_def)

lemma rescued_within: "S \<subseteq> V \<Longrightarrow> M \<subseteq> S \<Longrightarrow> only_within V img (rescued src S M img)"
  by (auto simp: rescued_def overlay_def only_within_def)

lemma rescued_copy:
  assumes "M \<inter> span off n = {}" "length bs = n" "bs = img_bytes src off n"
  shows "img_update (rescued src S M img) off bs = rescued src (S \<union> span off n) M img"
  unfolding img_update_overlay [OF assms(2) [symmetric] assms(3)]
  using assms(1) by (auto simp: rescued_def overlay_def fun_eq_iff)

lemma rescued_zero:
  "img_update (rescued src S M img) off (replicate n 0) = rescued src (S \<union> span off n) (M \<union> span off n) img"
  by (auto simp: rescued_def overlay_def img_update_def span_def fun_eq_iff)

text \<open>The blocks that are still to be retried, with their bytes \<open>U\<close>.\<close>

definition failed_block_ok :: "nat \<Rightarrow> nat \<Rightarrow> failed_block \<Rightarrow> bool" where
  "failed_block_ok n z b \<longleftrightarrow> range_length (fb_bytes b) \<noteq> 0 \<and>
     unat (range_offset (fb_bytes b)) mod z = 0 \<and> unat (range_length (fb_bytes b)) mod z = 0 \<and>
     range_end (fb_bytes b) \<le> n"

abbreviation (input) block_span :: "failed_block \<Rightarrow> nat set" where
  "block_span b \<equiv> range_span (fb_bytes b)"

definition failed_blocks :: "nat \<Rightarrow> nat \<Rightarrow> nat set \<Rightarrow> failed_block list \<Rightarrow> bool" where
  "failed_blocks n z U bs \<longleftrightarrow> list_all (failed_block_ok n z) bs \<and>
     sorted_wrt (\<lambda>b c. block_span b \<inter> block_span c = {}) bs \<and> U = (\<Union>b \<in> set bs. block_span b)"

lemma failed_blocks_Nil [simp]: "failed_blocks n z U [] \<longleftrightarrow> U = {}"
  by (simp add: failed_blocks_def)

lemma failed_blocks_snoc:
  "failed_blocks n z U bs \<Longrightarrow> failed_block_ok n z b \<Longrightarrow> U \<inter> block_span b = {} \<Longrightarrow>
   failed_blocks n z (U \<union> block_span b) (bs @ [b])"
  by (auto simp: failed_blocks_def sorted_wrt_append)

lemma failed_blocks_Cons:
  assumes "failed_blocks n z U (b # bs)"
  shows "failed_block_ok n z b" "block_span b \<subseteq> U" "failed_blocks n z (U - block_span b) bs"
  using assms by (auto simp: failed_blocks_def)

lemma failed_blocks_rev [simp]: "failed_blocks n z U (rev bs) \<longleftrightarrow> failed_blocks n z U bs"
  by (simp add: failed_blocks_def sorted_wrt_rev Int_commute list_all_rev)

lemma failed_blocks_rotate:
  "failed_blocks n z U (b # bs @ cs) \<Longrightarrow> fb_bytes b' = fb_bytes b \<Longrightarrow>
   failed_blocks n z U (bs @ cs @ [b'])"
  by (auto simp: failed_blocks_def failed_block_ok_def sorted_wrt_append Int_commute)

lemma failed_block_span:
  assumes "failed_block_ok n z b"
  shows "card (block_span b) = unat (range_length (fb_bytes b))" "block_span b \<subseteq> {..<n}" "block_span b \<noteq> {}"
  using assms by (auto simp: failed_block_ok_def range_span_def span_def range_end_def unat_gt_0)

lemma missing_map_length:
  assumes "missing_map z n rs"
  shows "length rs * unat z \<le> card (missing_span rs)"
proof -
  have "unat z \<le> unat (range_length (mr_bytes r))" if "r \<in> set rs" for r
    using assms that by (auto simp: missing_map_def list_all_iff missing_range_ok_nat unat_gt_0
        intro!: dvd_imp_le)
  then have "(\<Sum>r\<leftarrow>rs. unat z) \<le> (\<Sum>r\<leftarrow>rs. unat (range_length (mr_bytes r)))"
    by (rule sum_list_mono)
  then show ?thesis by (simp add: missing_map_card [OF assms] sum_list_triv)
qed

text \<open>What a report says about the source, the target before and the target after.\<close>

definition rescue_result :: "nat \<Rightarrow> u64 \<Rightarrow> image \<Rightarrow> image \<Rightarrow> rescue_raw_copy_report \<Rightarrow> image \<Rightarrow> bool" where
  "rescue_result n z src old report new \<longleftrightarrow>
     (let missing = rr_missing_ranges report; lost = missing_span missing in
      new = (\<lambda>i. if i \<in> lost then 0 else if i < n then src i else old i) \<and>
      lost \<subseteq> {..<n} \<and> sorted_wrt missing_before missing \<and> list_all (missing_range_ok z) missing \<and>
      successively (\<lambda>r r'. \<not> mergeable r r') missing \<and>
      unat (rr_zero_filled_bytes report) = card lost \<and>
      unat (rr_exhausted_sector_count report) * unat z = card lost \<and>
      unat (rr_copied_source_bytes report) + card lost = n \<and>
      unat (rr_verified_bytes report) = n \<and>
      rr_partial_data_loss report = (lost \<noteq> {}) \<and> rr_byte_exact_copy report = (lost = {}) \<and>
      rr_target_flushed report \<and> rr_all_writes_read_back_verified report)"

section \<open>The world of a rescue copy\<close>

definition rescue_callbacks_keep :: "('s \<Rightarrow> 'v) \<Rightarrow> 's rescue_copy_callbacks \<Rightarrow> bool" where
  "rescue_callbacks_keep v callbacks \<longleftrightarrow>
     (\<forall>p. keeps v (rescue_publish_progress callbacks p)) \<and> keeps v (rescue_cancellation_requested callbacks) \<and>
     (\<forall>b. keeps v (rescue_control_at_safe_boundary callbacks b))"

text \<open>
  \<open>allowed\<close> are the errors a run can end with, beside those of \<open>validate_request\<close>; each assumption
  names one source of them: a device, a reader that returns too much, a cancellation, and the two
  limits on the bookkeeping when they are too small for the disk.
\<close>

locale rescue_world = source: source_image src simg + target: target_image tgt timg
  for src :: "'s source_reader" and simg :: image and tgt :: "'s target_writer" and timg :: "'s \<Rightarrow> image" +
  fixes request :: "'s rescue_raw_copy_request" and allowed :: "error set"
  assumes source_keeps: "keeps timg (src_read src off len)"
    and callbacks_keep: "rescue_callbacks_keep timg (rq_callbacks request)"
    and read_errors: "unat off + unat len \<le> unat (src_size_bytes src) \<Longrightarrow>
      src_read src off len s = (Inl e, t) \<Longrightarrow> is_recoverable_media_read_error e \<or> e \<in> allowed"
    and read_sizes: "unat off + unat len \<le> unat (src_size_bytes src) \<Longrightarrow>
      src_read src off len s = (Inr bs, t) \<Longrightarrow>
      length bs \<le> unat len \<or> mk_error Invalid_data ERROR_INVALID_DATA \<in> allowed"
    and write_errors: "unat off + length bs \<le> unat (tgt_size_bytes tgt) \<Longrightarrow>
      reread_write tgt off bs s = (Inl e, t) \<Longrightarrow> e \<in> allowed"
    and flush_errors: "tgt_flush tgt s = (Inl e, t) \<Longrightarrow> e \<in> allowed"
    and cancel_errors: "fst (rescue_cancellation_requested (rq_callbacks request) s) \<Longrightarrow>
      rescue_cancelled_error \<in> allowed"
    and boundary_errors: "fst (rescue_control_at_safe_boundary (rq_callbacks request) b s) = Cancel_operation \<Longrightarrow>
      rescue_cancelled_error \<in> allowed"
    and capacity: "mk_error Invalid_data ERROR_NOT_ENOUGH_MEMORY \<in> allowed \<or>
      unat (src_size_bytes src) \<le> unat (rq_maximum_failed_block_count request) * unat (rq_large_block_bytes request) \<and>
      unat (src_size_bytes src) \<le> unat (rq_maximum_missing_range_count request) * unat (src_logical_sector_size src)"
begin

abbreviation source_bytes :: nat where "source_bytes \<equiv> unat (src_size_bytes src)"
abbreviation sector_bytes :: u64 where "sector_bytes \<equiv> ucast (src_logical_sector_size src)"
abbreviation callbacks :: "'s rescue_copy_callbacks" where "callbacks \<equiv> rq_callbacks request"

definition stopped :: "image \<Rightarrow> error \<Rightarrow> 's \<Rightarrow> bool" where
  "stopped old e s \<longleftrightarrow> only_within {..<source_bytes} old (timg s) \<and> e \<in> allowed"

lemma publish_keeps: "keeps timg (liftE (rescue_publish_progress callbacks p))"
  using callbacks_keep by (auto simp: rescue_callbacks_keep_def intro: keeps_liftE)

lemma cancellation_keeps: "keeps timg (liftE (rescue_cancellation_requested callbacks))"
  using callbacks_keep by (auto simp: rescue_callbacks_keep_def intro: keeps_liftE)

lemma boundary_keeps: "keeps timg (liftE (rescue_control_at_safe_boundary callbacks b))"
  using callbacks_keep by (auto simp: rescue_callbacks_keep_def intro: keeps_liftE)

lemma lift_same: "keeps timg (liftE m) \<Longrightarrow> hoare (\<lambda>s. timg s = img) (liftE m) (\<lambda>x s. timg s = img) E"
  using hoare_keeps [of timg "liftE m" "\<lambda>j. j = img"]
  by (auto simp: hoare_def liftE_def split: prod.splits)

lemma lift_answer:
  assumes "keeps timg (liftE m)"
  shows "hoare (\<lambda>s. timg s = img) (liftE m) (\<lambda>x s. (\<exists>u. x = fst (m u)) \<and> timg s = img) E"
proof (rule hoareI)
  fix s x t assume "timg s = img" and run: "liftE m s = (Inr x, t)"
  then have "timg t = img" using keepsD [OF assms run] by simp
  moreover have "x = fst (m s)" using run by (auto simp: liftE_def split: prod.splits)
  ultimately show "(\<exists>u. x = fst (m u)) \<and> timg t = img" by blast
qed (auto simp: liftE_def split: prod.splits)

lemma cancellation_spec:
  "hoare (\<lambda>s. timg s = img) (liftE (rescue_cancellation_requested callbacks))
     (\<lambda>c s. (c \<longrightarrow> rescue_cancelled_error \<in> allowed) \<and> timg s = img) E"
  by (rule hoare_conseq [OF lift_answer [OF cancellation_keeps]]) (auto dest: cancel_errors)

lemma boundary_spec:
  "hoare (\<lambda>s. timg s = img) (liftE (rescue_control_at_safe_boundary callbacks b))
     (\<lambda>d s. (d = Cancel_operation \<longrightarrow> rescue_cancelled_error \<in> allowed) \<and> timg s = img) E"
  by (rule hoare_conseq [OF lift_answer [OF boundary_keeps]]) (auto dest: boundary_errors sym)

lemma flush_fail:
  assumes "e \<in> allowed"
  shows "hoare (\<lambda>s. only_within {..<source_bytes} old (timg s)) (fail_after_safe_flush tgt b e) Q (stopped old)"
proof -
  have "hoare (\<lambda>s. only_within {..<source_bytes} old (timg s)) (bindE (tgt_flush tgt) (\<lambda>u. failE e)) Q (stopped old)"
  proof (rule hoare_bindE [where R = "\<lambda>u s. only_within {..<source_bytes} old (timg s)"])
    show "hoare (\<lambda>s. only_within {..<source_bytes} old (timg s)) (tgt_flush tgt)
        (\<lambda>u s. only_within {..<source_bytes} old (timg s)) (stopped old)"
      by (rule hoareI) (auto simp: stopped_def target.flush_frame dest: flush_errors)
  qed (use assms in \<open>auto simp: stopped_def intro: hoare_pre [OF hoare_failE]\<close>)
  moreover have "hoare (\<lambda>s. only_within {..<source_bytes} old (timg s)) (failE e) Q (stopped old)"
    using assms by (auto simp: stopped_def intro: hoare_pre [OF hoare_failE])
  ultimately show ?thesis by (simp add: fail_after_safe_flush_def)
qed

lemma or_flush:
  fixes m :: "('s, 'b) prog"
  assumes "hoare P m Q (stopped old)"
  shows "hoare P (or_safe_flush tgt b m) Q (stopped old)"
proof (rule hoareI)
  fix s x t assume "P s" "or_safe_flush tgt b m s = (Inr x, t)"
  then show "Q x t" using hoareD_Inr [OF assms] by simp
next
  fix s e t assume P: "P s" and f: "or_safe_flush tgt b m s = (Inl e, t)"
  obtain r u where m: "m s = (r, u)" by fastforce
  show "stopped old e t"
  proof (cases r)
    case (Inl e')
    then have "only_within {..<source_bytes} old (timg u)" "e' \<in> allowed"
      using hoareD_Inl [OF assms P] m by (auto simp: stopped_def)
    moreover have "(fail_after_safe_flush tgt b e' :: ('s, 'b) prog) u = (Inl e, t)"
      using f m Inl by (simp add: or_safe_flush_def)
    ultimately show ?thesis using hoareD_Inl [OF flush_fail] by blast
  qed (use f m in \<open>simp add: or_safe_flush_def\<close>)
qed

lemma stop_if_cancelled_spec:
  assumes "only_within {..<source_bytes} old img"
  shows "hoare (\<lambda>s. timg s = img) (stop_if_cancelled callbacks tgt b) (\<lambda>u s. timg s = img) (stopped old)"
  unfolding stop_if_cancelled_def
  by (rule hoare_bindE [OF cancellation_spec], rule hoare_pure, rule hoare_if_inv)
    (use assms in \<open>auto intro: hoare_pre [OF flush_fail] hoare_pre [OF hoare_returnE]\<close>)

lemma attempt_spec:
  assumes "unat off + unat len \<le> source_bytes" "only_within {..<source_bytes} old img"
  shows "hoare (\<lambda>s. timg s = img) (attempt_source_read src off len)
    (\<lambda>a s. (\<not> ra_media_failure a \<longrightarrow> ra_bytes a = img_bytes simg (unat off) (unat len)) \<and> timg s = img)
    (stopped old)"
  using assms unfolding attempt_source_read_def
  by (intro hoareI) (auto simp: stopped_def dest: keepsD [OF source_keeps] source.read_honest
      read_errors [OF assms(1)] read_sizes [OF assms(1)] split: prod.splits sum.splits if_splits)

text \<open>Sector sizes, block sizes and device sizes as \<open>validate_request\<close> leaves them.\<close>

definition sound_geometry :: bool where
  "sound_geometry \<longleftrightarrow> sector_bytes \<noteq> 0 \<and> source_bytes mod unat sector_bytes = 0 \<and>
     rq_large_block_bytes request \<noteq> 0 \<and> unat (rq_large_block_bytes request) mod unat sector_bytes = 0 \<and>
     source_bytes \<le> unat (tgt_size_bytes tgt)"

lemma write_spec:
  assumes g: sound_geometry and in_range: "unat off + length bs \<le> source_bytes"
    and old: "only_within {..<source_bytes} old img"
  shows "hoare (\<lambda>s. timg s = img) (write_and_read_back_verify tgt off bs)
    (\<lambda>u s. timg s = img_update img (unat off) bs) (stopped old)"
proof -
  have eq: "write_and_read_back_verify tgt off bs = bindE (reread_write tgt off bs) (\<lambda>rb. returnE ())"
    by (rule ext) (simp add: write_and_read_back_verify_def reread_write_def bindE_def failE_def
        returnE_def eq_commute [of bs] split: prod.split sum.split)
  have len: "length bs < 2 ^ 64" using in_range unat_u64_bound [of "src_size_bytes src"] by simp
  have span: "span (unat off) (length bs) \<subseteq> {..<source_bytes}" using in_range by (auto simp: span_def)
  have in_target: "unat off + length bs \<le> unat (tgt_size_bytes tgt)"
    using in_range g by (simp add: sound_geometry_def)
  note within = only_within_trans [OF old, of "span (unat off) (length bs)"]
  show ?thesis
    unfolding eq
  proof (rule hoare_bindE [where R = "\<lambda>rb s. timg s = img_update img (unat off) bs"])
    show "hoare (\<lambda>s. timg s = img) (reread_write tgt off bs) (\<lambda>rb s. timg s = img_update img (unat off) bs)
        (stopped old)"
    proof (rule hoareI)
      fix s x t assume "timg s = img" "reread_write tgt off bs s = (Inr x, t)"
      then show "timg t = img_update img (unat off) bs"
        using hoareD_Inr [OF target.reread_write_spec [OF len]] by blast
    next
      fix s e t assume "timg s = img" and f: "reread_write tgt off bs s = (Inl e, t)"
      then have "only_within (span (unat off) (length bs)) img (timg t)"
        using hoareD_Inl [OF target.reread_write_spec [OF len]] by blast
      from within [OF this] show "stopped old e t"
        using span write_errors [OF in_target f] by (simp add: stopped_def Un_absorb2)
    qed
  qed (rule hoare_pre [OF hoare_returnE], simp)
qed

lemma succeeds_spec:
  "succeeds m Q \<Longrightarrow> hoare (\<lambda>s. timg s = img) (of_result m) (\<lambda>st s. Q st \<and> timg s = img) E"
  by (auto simp: succeeds_def intro: hoare_pre [OF hoare_returnE])

lemma enter_phase_spec:
  "tallies n z f r S U M st \<Longrightarrow>
   hoare (\<lambda>s. timg s = img) (enter_phase callbacks ph st) (\<lambda>st s. tallies n z f r S U M st \<and> timg s = img) E"
  unfolding enter_phase_def Let_def
  by (rule hoare_bindE [OF lift_same [OF publish_keeps]]) (auto intro: hoare_pre [OF hoare_returnE])

lemma publish_unverified_spec:
  "tallies n z f r S U M st \<Longrightarrow>
   hoare (\<lambda>s. timg s = img) (publish_unverified callbacks st) (\<lambda>st s. tallies n z f r S U M st \<and> timg s = img) E"
  unfolding publish_unverified_def Let_def
  by (rule hoare_bindE [OF lift_same [OF publish_keeps]]) (auto intro: hoare_pre [OF hoare_returnE])

lemma stop_at_verified_boundary_spec:
  assumes "tallies n z f r S U M st" "only_within {..<source_bytes} old img"
  shows "hoare (\<lambda>s. timg s = img) (stop_at_verified_boundary callbacks tgt st)
    (\<lambda>st s. tallies n z f r S U M st \<and> timg s = img) (stopped old)"
  unfolding stop_at_verified_boundary_def Let_def
  by (rule hoare_bindE [OF lift_same [OF publish_keeps]], rule hoare_bindE [OF boundary_spec],
      rule hoare_pure, rule hoare_if_inv)
    (use assms in \<open>auto intro: hoare_pre [OF flush_fail] hoare_pre [OF hoare_returnE]\<close>)

text \<open>A verified write followed by its bookkeeping.\<close>

lemma settle_spec:
  assumes g: sound_geometry and "unat off + length bs \<le> source_bytes" "S \<subseteq> {..<source_bytes}" "M \<subseteq> S"
    and img: "img_update (rescued simg S M old) (unat off) bs = rescued simg S' M' old"
    and m: "succeeds m P"
  shows "hoare (\<lambda>s. timg s = rescued simg S M old)
    (bindE (or_safe_flush tgt True (write_and_read_back_verify tgt off bs)) (\<lambda>u.
       or_safe_flush tgt True (of_result m)))
    (\<lambda>st s. P st \<and> timg s = rescued simg S' M' old) (stopped old)"
  by (rule hoare_bindE [OF or_flush [OF write_spec [OF g assms(2) rescued_within [OF assms(3,4)]]]])
    (use or_flush [OF succeeds_spec [OF m]] in \<open>simp add: img\<close>)

lemma bindE_assoc: "bindE (bindE m f) g = bindE m (\<lambda>x. bindE (f x) g)"
  by (rule ext) (simp add: bindE_def split: prod.split sum.split)

lemmas settle_bind = hoare_bindE [OF settle_spec, unfolded bindE_assoc]

lemma fail_spec:
  assumes "S \<subseteq> {..<source_bytes}" "M \<subseteq> S" "e \<in> allowed"
  shows "hoare (\<lambda>s. timg s = rescued simg S M old) (fail_after_safe_flush tgt b e) Q (stopped old)"
  by (rule hoare_pre [OF flush_fail [OF assms(3)]]) (use rescued_within [OF assms(1,2)] in simp)

lemma tallies_sets: "tallies n z f r S U M st \<Longrightarrow> S \<subseteq> {..<n} \<and> U \<subseteq> {..<n} \<and> M \<subseteq> S"
  by (simp add: tallies_def)

lemma source_bytes_bound: "source_bytes < 2 ^ 64"
  using unat_u64_bound [of "src_size_bytes src"] by simp

section \<open>The passes\<close>

text \<open>What holds between the turns of the first two passes, with the lists of failed blocks.\<close>

definition rescue_at ::
  "image \<Rightarrow> nat \<Rightarrow> nat \<Rightarrow> nat set \<Rightarrow> nat set \<Rightarrow> nat set \<Rightarrow> rescue_state \<Rightarrow> 's \<Rightarrow> bool" where
  "rescue_at old f r S U M st s \<longleftrightarrow> tallies source_bytes sector_bytes f r S U M st \<and> S \<inter> U = {} \<and>
     timg s = rescued simg S M old"

lemma rescue_at_hoare:
  assumes "tallies source_bytes sector_bytes f r S U M st \<Longrightarrow> S \<inter> U = {} \<Longrightarrow>
    hoare (\<lambda>s. timg s = rescued simg S M old) m Q E"
  shows "hoare (rescue_at old f r S U M st) m Q E"
  using assms by (auto simp: rescue_at_def hoare_def)

text \<open>
  The first \<open>k\<close> bytes have been visited.  Every failed block before the last one of the disk is a
  large block, which bounds their number.
\<close>

definition block_room :: "nat \<Rightarrow> failed_block list \<Rightarrow> bool" where
  "block_room k failed \<longleftrightarrow> length failed \<le> unat (rq_maximum_failed_block_count request) \<and>
     (k < source_bytes \<longrightarrow> length failed * unat (rq_large_block_bytes request) \<le> k)"

definition forward_at :: "image \<Rightarrow> nat \<Rightarrow> failed_block list \<Rightarrow> rescue_state \<Rightarrow> 's \<Rightarrow> bool" where
  "forward_at old k failed st s \<longleftrightarrow> (\<exists>S U. rescue_at old (length failed) 0 S U {} st s \<and> S \<union> U = {..<k} \<and>
     failed_blocks source_bytes (unat sector_bytes) U failed \<and> block_room k failed)"

lemma forward_atI:
  "rescue_at old (length failed) 0 S U {} st s \<Longrightarrow> S \<union> U = {..<k} \<Longrightarrow>
   failed_blocks source_bytes (unat sector_bytes) U failed \<Longrightarrow>
   block_room k failed \<Longrightarrow> forward_at old k failed st s"
  unfolding forward_at_def by blast

lemma forward_at_hoare:
  assumes "\<And>S U. tallies source_bytes sector_bytes (length failed) 0 S U {} st \<Longrightarrow> S \<inter> U = {} \<Longrightarrow>
    S \<union> U = {..<k} \<Longrightarrow> failed_blocks source_bytes (unat sector_bytes) U failed \<Longrightarrow>
    block_room k failed \<Longrightarrow>
    hoare (\<lambda>s. timg s = rescued simg S {} old) m Q E"
  shows "hoare (forward_at old k failed st) m Q E"
  unfolding hoare_def
proof (intro allI impI)
  fix s assume "forward_at old k failed st s"
  then obtain S U where "tallies source_bytes sector_bytes (length failed) 0 S U {} st" "S \<inter> U = {}"
    "S \<union> U = {..<k}" "failed_blocks source_bytes (unat sector_bytes) U failed"
    "block_room k failed" and s: "timg s = rescued simg S {} old"
    by (auto simp: forward_at_def rescue_at_def)
  from assms [OF this(1-5)] s
  show "case m s of (Inl e, t) \<Rightarrow> E e t | (Inr x, t) \<Rightarrow> Q x t" by (simp add: hoare_def)
qed

lemma span_lessThan: "{..<k} \<union> span k m = {..<k + m}" "span k m \<inter> {..<k} = {}"
  by (auto simp: span_def)

lemma forward_block_spec:
  assumes g: sound_geometry and inside: "unat off < source_bytes"
    and len: "len = min (src_size_bytes src - off) (rq_large_block_bytes request)"
    and block: "failed_block_ok source_bytes (unat sector_bytes)
      \<lparr>fb_bytes = \<lparr>range_offset = off, range_length = len\<rparr>, fb_forward_native_error = 0, fb_reverse_native_error = 0\<rparr>"
  shows "hoare (forward_at old (unat off) failed st) (forward_block request src tgt off len failed st)
    (\<lambda>(failed, st). forward_at old (unat off + unat len) failed st) (stopped old)"
    (is "hoare _ _ ?Q _")
proof (rule forward_at_hoare)
  fix S U
  let ?f = "length failed" and ?st = "st\<lparr>rs_progress := (rs_progress st)\<lparr>rp_current_offset := off\<rparr>\<rparr>"
    and ?max = "unat (rq_maximum_failed_block_count request)" and ?W = "span (unat off) (unat len)"
  assume T: "tallies source_bytes sector_bytes ?f 0 S U {} st" and SU: "S \<inter> U = {}" "S \<union> U = {..<unat off}"
    and failed: "failed_blocks source_bytes (unat sector_bytes) U failed" "block_room (unat off) failed"
  have S: "S \<subseteq> {..<source_bytes}" using tallies_sets [OF T] by simp
  have W: "?W \<subseteq> {..<source_bytes}" using block by (auto simp: failed_block_ok_def range_end_def span_def)
  have in_range: "unat off + unat len \<le> source_bytes"
    using block by (simp add: failed_block_ok_def range_end_def)
  have more: "block_room (unat off + unat len) failed'"
    if "length failed' \<le> ?max" "length failed' \<le> Suc ?f" for failed'
  proof -
    have "len = rq_large_block_bytes request" if "unat off + unat len < source_bytes"
      using that inside len unat_sub_u64 [of off "src_size_bytes src"]
      by (auto simp: min_def word_less_nat_alt word_le_nat_alt split: if_splits)
    moreover have "length failed' * k \<le> ?f * k + k" for k
      using mult_le_mono1 [OF that(2), of k] by simp
    ultimately show ?thesis
      using that(1) failed(2) inside unfolding block_room_def by (fastforce intro: le_trans)
  qed
  note within = rescued_within [OF _ empty_subsetI, where src = simg and img = old]
  have fresh: "?W \<inter> U = {}" "?W \<inter> S = {}" "S \<inter> (U \<union> ?W) = {}" "(S \<union> ?W) \<inter> U = {}"
    using span_lessThan(2) [of "unat off" "unat len"] SU by blast+
  have all: "S \<union> (U \<union> ?W) = {..<unat off + unat len}" "S \<union> ?W \<union> U = {..<unat off + unat len}"
    using span_lessThan(1) [of "unat off" "unat len"] SU by blast+
  have noted: "succeeds (note_forward_failure len ?st)
      (tallies source_bytes sector_bytes (?f + 1) 0 S (U \<union> ?W) {})" if "?f < ?max"
    using T that unat_u64_bound [of "rq_maximum_failed_block_count request"] W fresh(1) source_bytes_bound
    by (intro note_forward_failure_ok) simp_all
  have full: "mk_error Invalid_data ERROR_NOT_ENOUGH_MEMORY \<in> allowed" if "?max \<le> ?f"
  proof (rule ccontr)
    assume "\<not> ?thesis"
    then have "source_bytes \<le> ?max * unat (rq_large_block_bytes request)" using capacity by simp
    also have "\<dots> \<le> ?f * unat (rq_large_block_bytes request)" using that by (rule mult_le_mono1)
    finally show False using failed(2) inside by (simp add: block_room_def)
  qed
  have appended: "forward_at old (unat off + unat len) (failed @ [b]) st' s"
    if "tallies source_bytes sector_bytes (?f + 1) 0 S (U \<union> ?W) {} st' \<and> timg s = rescued simg S {} old"
      "fb_bytes b = \<lparr>range_offset = off, range_length = len\<rparr>" "?f < ?max" for st' s b
  proof (rule forward_atI)
    show "failed_blocks source_bytes (unat sector_bytes) (U \<union> ?W) (failed @ [b])"
      using failed_blocks_snoc [OF failed(1), of b] block fresh(1) that(2)
      by (simp add: failed_block_ok_def range_span_def Int_commute)
  qed (use that fresh(3) all(1) more [of "failed @ [b]"] in \<open>simp_all add: rescue_at_def\<close>)
  have copied: "succeeds (account_verified_write len False False (?st\<lparr>rs_mutation_started := True\<rparr>))
      (tallies source_bytes sector_bytes ?f 0 (S \<union> ?W) U {})"
    using account_copied [of source_bytes sector_bytes ?f 0 S U "{}"
        "?st\<lparr>rs_mutation_started := True\<rparr>" ?W len False] T W fresh(2) source_bytes_bound
    by (auto simp: succeeds_def)
  show "hoare (\<lambda>s. timg s = rescued simg S {} old) (forward_block request src tgt off len failed st) ?Q (stopped old)"
    unfolding forward_block_def Let_def
    apply (rule hoare_bindE [OF or_flush [OF attempt_spec [OF in_range within [OF S]]]], rule hoare_pure,
        rule hoare_if_inv, rule hoare_if_inv)
    subgoal using S full by (intro fail_spec) simp_all
    subgoal
      by (rule hoare_bindE [OF or_flush [OF succeeds_spec [OF noted]]], simp, rule hoare_pure,
          rule hoare_bindE [OF publish_unverified_spec], assumption, rule hoare_pre [OF hoare_returnE])
        (use appended in simp)
    subgoal premises bytes for a
    proof (rule settle_bind [where S' = "S \<union> ?W" and M' = "{}", OF g _ S empty_subsetI _ copied], goal_cases)
      case 1
      then show ?case using bytes in_range by simp
    next
      case 2
      then show ?case
        using bytes rescued_copy [of "{}" "unat off" "unat len" "ra_bytes a" simg S old] by simp
    next
      case (3 st')
      show ?case
        by (rule hoare_pure, rule hoare_bindE [OF stop_at_verified_boundary_spec [OF _ within]], assumption)
          (use S W fresh(4) all(2) failed(1) more [of failed] failed(2) [unfolded block_room_def] in \<open>auto simp: rescue_at_def
             intro!: hoare_pre [OF hoare_returnE] forward_atI [of _ _ "S \<union> ?W" U]\<close>)
    qed
    done
qed

lemma forward_at_end:
  assumes "forward_at old (unat off) failed st s" "\<not> off < src_size_bytes src"
  shows "forward_at old source_bytes failed st s"
proof -
  obtain S U where at: "rescue_at old (length failed) 0 S U {} st s" and all: "S \<union> U = {..<unat off}"
    using assms(1) unfolding forward_at_def by blast
  then have "S \<subseteq> {..<source_bytes}" "U \<subseteq> {..<source_bytes}"
    by (auto simp: rescue_at_def dest!: tallies_sets)
  then have "{..<unat off} \<subseteq> {..<source_bytes}" unfolding all [symmetric] by blast
  then have "unat off = source_bytes"
    using assms(2) by (simp add: word_less_nat_alt)
  then show ?thesis using assms(1) by simp
qed

lemma forward_at_stop:
  "hoare (forward_at old k failed st) (stop_if_cancelled callbacks tgt b) (\<lambda>u. forward_at old k failed st) (stopped old)"
proof (rule forward_at_hoare)
  fix S U
  assume T: "tallies source_bytes sector_bytes (length failed) 0 S U {} st" and a: "S \<inter> U = {}" "S \<union> U = {..<k}"
    "failed_blocks source_bytes (unat sector_bytes) U failed"
    "block_room k failed"
  have S: "S \<subseteq> {..<source_bytes}" using tallies_sets [OF T] by simp
  show "hoare (\<lambda>s. timg s = rescued simg S {} old) (stop_if_cancelled callbacks tgt b)
      (\<lambda>u. forward_at old k failed st) (stopped old)"
    by (rule hoare_conseq [OF stop_if_cancelled_spec [OF rescued_within [OF S empty_subsetI]]])
      (use T a in \<open>auto simp: rescue_at_def intro!: forward_atI [of _ _ S U]\<close>)
qed

lemma forward_pass_spec:
  assumes g: sound_geometry and off: "unat off mod unat sector_bytes = 0"
  shows "hoare (forward_at old (unat off) failed st) (forward_pass request src tgt off failed st)
    (\<lambda>(failed, st). forward_at old source_bytes failed st) (stopped old)"
  using off
proof (induction "source_bytes - unat off" arbitrary: off failed st rule: less_induct)
  case less
  show ?case
  proof (cases "off < src_size_bytes src")
    case False
    then show ?thesis
      by (auto simp: forward_pass.simps [of request src tgt off] intro!: hoare_pre [OF hoare_returnE] forward_at_end)
  next
    case True
    have inside: "unat off < source_bytes" using True by (simp add: word_less_nat_alt)
    have block: "rq_large_block_bytes request \<noteq> 0" using g by (simp add: sound_geometry_def)
    define len where "len = min (src_size_bytes src - off) (rq_large_block_bytes request)"
    note next_off = next_offset [OF True block, folded len_def]
    have "unat (src_size_bytes src - off) = source_bytes - unat off"
      using True by (intro unat_sub_u64) simp
    then have "unat len mod unat sector_bytes = 0"
      using g less.prems unfolding len_def sound_geometry_def
      by (auto simp: min_def dvd_eq_mod_eq_0 [symmetric] intro: dvd_diff_nat)
    then have "failed_block_ok source_bytes (unat sector_bytes)
        \<lparr>fb_bytes = \<lparr>range_offset = off, range_length = len\<rparr>, fb_forward_native_error = 0, fb_reverse_native_error = 0\<rparr>"
      and "unat (off + len) mod unat sector_bytes = 0"
      using next_off less.prems by (auto simp: failed_block_ok_def range_end_def mod_add_eq [symmetric])
    note turn = forward_block_spec [OF g inside len_def this(1)] and rest = less.hyps [OF _ this(2)]
    have smaller: "source_bytes - unat (off + len) < source_bytes - unat off" using next_off by simp
    have loop: "forward_pass request src tgt off failed st =
        bindE (stop_if_cancelled callbacks tgt (rs_mutation_started st)) (\<lambda>u.
        bindE (forward_block request src tgt off len failed st) (\<lambda>(failed, st).
        forward_pass request src tgt (off + len) failed st))"
      using True block unfolding forward_pass.simps [of request src tgt off failed] Let_def len_def by simp
    show ?thesis
      unfolding loop
      by (rule hoare_bindE [OF forward_at_stop], rule hoare_bindE [OF turn])
        (use rest [OF smaller] in \<open>simp add: next_off(1) split_def\<close>)
  qed
qed

definition reverse_at ::
  "image \<Rightarrow> nat \<Rightarrow> failed_block list \<Rightarrow> failed_block list \<Rightarrow> rescue_state \<Rightarrow> 's \<Rightarrow> bool" where
  "reverse_at old f blocks retry st s \<longleftrightarrow> (\<exists>S U. rescue_at old f (length retry) S U {} st s \<and>
     S \<union> U = {..<source_bytes} \<and> failed_blocks source_bytes (unat sector_bytes) U (blocks @ retry) \<and>
     length blocks + length retry \<le> unat (rq_maximum_failed_block_count request))"

lemma reverse_atI:
  "rescue_at old f (length retry) S U {} st s \<Longrightarrow> S \<union> U = {..<source_bytes} \<Longrightarrow>
   failed_blocks source_bytes (unat sector_bytes) U (blocks @ retry) \<Longrightarrow>
   length blocks + length retry \<le> unat (rq_maximum_failed_block_count request) \<Longrightarrow>
   reverse_at old f blocks retry st s"
  unfolding reverse_at_def by blast

lemma reverse_at_hoare:
  assumes "\<And>S U. tallies source_bytes sector_bytes f (length retry) S U {} st \<Longrightarrow> S \<inter> U = {} \<Longrightarrow>
    S \<union> U = {..<source_bytes} \<Longrightarrow> failed_blocks source_bytes (unat sector_bytes) U (blocks @ retry) \<Longrightarrow>
    length blocks + length retry \<le> unat (rq_maximum_failed_block_count request) \<Longrightarrow>
    hoare (\<lambda>s. timg s = rescued simg S {} old) m Q E"
  shows "hoare (reverse_at old f blocks retry st) m Q E"
  unfolding hoare_def
proof (intro allI impI)
  fix s assume "reverse_at old f blocks retry st s"
  then obtain S U where "tallies source_bytes sector_bytes f (length retry) S U {} st" "S \<inter> U = {}"
    "S \<union> U = {..<source_bytes}" "failed_blocks source_bytes (unat sector_bytes) U (blocks @ retry)"
    "length blocks + length retry \<le> unat (rq_maximum_failed_block_count request)"
    and s: "timg s = rescued simg S {} old"
    by (auto simp: reverse_at_def rescue_at_def)
  from assms [OF this(1-5)] s
  show "case m s of (Inl e, t) \<Rightarrow> E e t | (Inr x, t) \<Rightarrow> Q x t" by (simp add: hoare_def)
qed

lemma reverse_at_stop:
  "hoare (reverse_at old f blocks retry st) (stop_if_cancelled callbacks tgt b)
     (\<lambda>u. reverse_at old f blocks retry st) (stopped old)"
proof (rule reverse_at_hoare)
  fix S U
  assume T: "tallies source_bytes sector_bytes f (length retry) S U {} st" and a: "S \<inter> U = {}"
    "S \<union> U = {..<source_bytes}" "failed_blocks source_bytes (unat sector_bytes) U (blocks @ retry)"
    "length blocks + length retry \<le> unat (rq_maximum_failed_block_count request)"
  have S: "S \<subseteq> {..<source_bytes}" using tallies_sets [OF T] by simp
  show "hoare (\<lambda>s. timg s = rescued simg S {} old) (stop_if_cancelled callbacks tgt b)
      (\<lambda>u. reverse_at old f blocks retry st) (stopped old)"
    by (rule hoare_conseq [OF stop_if_cancelled_spec [OF rescued_within [OF S empty_subsetI]]])
      (use T a in \<open>auto simp: rescue_at_def intro!: reverse_atI [of _ _ _ S U]\<close>)
qed

lemma reverse_block_spec:
  assumes g: sound_geometry
  shows "hoare (reverse_at old f (block # blocks) retry st) (reverse_block request src tgt block retry st)
     (\<lambda>(retry, st). reverse_at old f blocks retry st) (stopped old)"
    (is "hoare _ _ ?Q _")
proof (rule reverse_at_hoare)
  fix S U
  let ?off = "range_offset (fb_bytes block)" and ?len = "range_length (fb_bytes block)"
  let ?st = "st\<lparr>rs_progress := (rs_progress st)\<lparr>rp_current_offset := ?off\<rparr>\<rparr>"
    and ?max = "unat (rq_maximum_failed_block_count request)" and ?W = "block_span block" and ?r = "length retry"
  assume T: "tallies source_bytes sector_bytes f ?r S U {} st" and SU: "S \<inter> U = {}" "S \<union> U = {..<source_bytes}"
    and failed: "failed_blocks source_bytes (unat sector_bytes) U ((block # blocks) @ retry)"
    "length (block # blocks) + ?r \<le> ?max"
  have S: "S \<subseteq> {..<source_bytes}" using tallies_sets [OF T] by simp
  note block = failed_blocks_Cons [OF failed(1) [unfolded append_Cons]]
  note W = failed_block_span [OF block(1)]
  have fresh: "?W \<inter> S = {}" "(S \<union> ?W) \<inter> (U - ?W) = {}" "S \<union> ?W \<union> (U - ?W) = {..<source_bytes}"
    using block(2) SU by auto
  have in_range: "unat ?off + unat ?len \<le> source_bytes"
    using block(1) by (simp add: failed_block_ok_def range_end_def)
  note within = rescued_within [OF _ empty_subsetI, where src = simg and img = old]
  have counted: "succeeds (count_reverse_failure ?st) (tallies source_bytes sector_bytes f (?r + 1) S U {})"
    using T failed(2) unat_u64_bound [of "rq_maximum_failed_block_count request"]
    by (intro count_reverse_failure_ok) simp_all
  have queued: "reverse_at old f blocks (retry @ [block\<lparr>fb_reverse_native_error := e\<rparr>]) st' s"
    if "tallies source_bytes sector_bytes f (?r + 1) S U {} st' \<and> timg s = rescued simg S {} old" for st' s e
  proof (rule reverse_atI)
    show "failed_blocks source_bytes (unat sector_bytes) U
        (blocks @ retry @ [block\<lparr>fb_reverse_native_error := e\<rparr>])"
      using failed(1) by (intro failed_blocks_rotate [where b = block]) simp_all
  qed (use that SU failed(2) in \<open>simp_all add: rescue_at_def\<close>)
  have copied: "succeeds (account_reverse_recovery ?len (?st\<lparr>rs_mutation_started := True\<rparr>))
      (tallies source_bytes sector_bytes f ?r (S \<union> ?W) (U - ?W) {})"
    using T W fresh(1) block(2) source_bytes_bound by (intro account_reverse_recovery_ok) simp_all
  have settled: "reverse_at old f blocks retry st' s"
    if "tallies source_bytes sector_bytes f ?r (S \<union> ?W) (U - ?W) {} st' \<and>
      timg s = rescued simg (S \<union> ?W) {} old" for st' s
    by (rule reverse_atI [of _ _ _ "S \<union> ?W" "U - ?W"])
      (use that fresh block(3) failed(2) in \<open>simp_all add: rescue_at_def\<close>)
  show "hoare (\<lambda>s. timg s = rescued simg S {} old) (reverse_block request src tgt block retry st) ?Q (stopped old)"
    unfolding reverse_block_def Let_def
    apply (rule hoare_bindE [OF or_flush [OF attempt_spec [OF in_range within [OF S]]]], rule hoare_pure,
        rule hoare_if_inv)
    subgoal
      by (rule hoare_bindE [OF or_flush [OF succeeds_spec [OF counted]]], rule hoare_pure,
          rule hoare_bindE [OF publish_unverified_spec], assumption, rule hoare_pre [OF hoare_returnE])
        (use queued in simp)
    subgoal premises bytes for a
    proof (rule settle_bind [where S' = "S \<union> ?W" and M' = "{}", OF g _ S empty_subsetI _ copied], goal_cases)
      case 1
      then show ?case using bytes in_range by simp
    next
      case 2
      then show ?case
        using bytes rescued_copy [of "{}" "unat ?off" "unat ?len" "ra_bytes a" simg S old]
        by (simp add: range_span_def)
    next
      case (3 st')
      show ?case
        by (rule hoare_pure, rule hoare_bindE [OF stop_at_verified_boundary_spec [OF _ within]], assumption)
          (use S W(2) settled in \<open>auto intro!: hoare_pre [OF hoare_returnE]\<close>)
    qed
    done
qed

lemma reverse_pass_spec:
  assumes g: sound_geometry
  shows "hoare (reverse_at old f blocks retry st) (reverse_pass request src tgt blocks retry st)
     (\<lambda>(retry, st). reverse_at old f [] retry st) (stopped old)"
proof (induction blocks arbitrary: retry st)
  case (Cons block blocks)
  show ?case
    unfolding reverse_pass.simps
    by (rule hoare_bindE [OF reverse_at_stop], rule hoare_bindE [OF reverse_block_spec [OF g]])
      (use Cons.IH in \<open>simp add: split_def\<close>)
qed (auto intro: hoare_pre [OF hoare_returnE])

text \<open>The third pass.  Its lists of failed blocks do not change any more.\<close>

definition sector_at :: "image \<Rightarrow> nat \<Rightarrow> nat \<Rightarrow> nat set \<Rightarrow> rescue_state \<Rightarrow> 's \<Rightarrow> bool" where
  "sector_at old f r U st s \<longleftrightarrow> (\<exists>S M. rescue_at old f r S U M st s \<and> S \<union> U = {..<source_bytes})"

lemma sector_atI: "rescue_at old f r S U M st s \<Longrightarrow> S \<union> U = {..<source_bytes} \<Longrightarrow> sector_at old f r U st s"
  unfolding sector_at_def by blast

lemma sector_at_hoare:
  assumes "\<And>S M. tallies source_bytes sector_bytes f r S U M st \<Longrightarrow> S \<inter> U = {} \<Longrightarrow>
    S \<union> U = {..<source_bytes} \<Longrightarrow> hoare (\<lambda>s. timg s = rescued simg S M old) m Q E"
  shows "hoare (sector_at old f r U st) m Q E"
  unfolding hoare_def
proof (intro allI impI)
  fix s assume "sector_at old f r U st s"
  then obtain S M where "tallies source_bytes sector_bytes f r S U M st" "S \<inter> U = {}"
    "S \<union> U = {..<source_bytes}" and s: "timg s = rescued simg S M old"
    by (auto simp: sector_at_def rescue_at_def)
  from assms [OF this(1-3)] s
  show "case m s of (Inl e, t) \<Rightarrow> E e t | (Inr x, t) \<Rightarrow> Q x t" by (simp add: hoare_def)
qed

lemma hoare_case_prod:
  "(\<And>a b. hoare (P a b) (m a b) Q E) \<Longrightarrow>
   hoare (case x of (a, b) \<Rightarrow> P a b) (case x of (a, b) \<Rightarrow> m a b) Q E"
  by (cases x) simp

lemma hoare_ex:
  assumes "\<And>y. hoare (P y) m Q E"
  shows "hoare (\<lambda>s. \<exists>y. P y s) m Q E"
  unfolding hoare_def
proof (intro allI impI)
  fix s assume "\<exists>y. P y s"
  then obtain y where "P y s" ..
  then show "case m s of (Inl e, t) \<Rightarrow> E e t | (Inr x, t) \<Rightarrow> Q x t"
    using assms [of y] by (simp add: hoare_def)
qed

lemma status_spec:
  assumes "only_within {..<source_bytes} old img" "\<And>e. m = Inl e \<Longrightarrow> e \<in> allowed"
  shows "hoare (\<lambda>s. timg s = img) (of_result m) (\<lambda>u s. m = Inr u \<and> timg s = img) (stopped old)"
  using assms by (auto simp: stopped_def intro: hoare_pre [OF hoare_of_result])

lemma sector_positive: "sector_bytes \<noteq> 0 \<Longrightarrow> 0 < unat (src_logical_sector_size src)"
  by (metis neq0_conv unat_eq_zero unat_ucast_u32_u64)

lemma span_in_range:
  assumes "span k m \<subseteq> {..<n}" "0 < m"
  shows "k + m \<le> n"
proof -
  have "k + m - 1 \<in> span k m" using assms(2) by (auto simp: span_def)
  then have "k + m - 1 < n" using assms(1) by blast
  then show ?thesis using assms(2) by simp
qed

lemma exhausted_ok:
  assumes T: "tallies source_bytes sector_bytes f r S U M st" and W: "W = span (unat off) (unat sector_bytes)"
    and sub: "W \<inter> S = {}" "W \<subseteq> {..<source_bytes}" and z: "sector_bytes \<noteq> 0" "unat off mod unat sector_bytes = 0"
    and room: "ensure_missing_sector_can_be_recorded (rr_missing_ranges (rs_report st)) maximum off
      (fb_forward_native_error block) (fb_reverse_native_error block) e = Inr ()"
  shows "succeeds (account_exhausted_sector maximum sector_bytes off block e st)
    (tallies source_bytes sector_bytes f r (S \<union> W) U (M \<union> W))"
proof -
  have M: "missing_map sector_bytes source_bytes (rr_missing_ranges (rs_report st))"
    "missing_span (rr_missing_ranges (rs_report st)) = M" "M \<subseteq> S"
    using T by (simp_all add: tallies_def)
  note zpos = sector_positive [OF z(1)]
  have "unat off + unat sector_bytes \<le> source_bytes"
    by (rule span_in_range [OF sub(2) [unfolded W] zpos [folded unat_ucast_u32_u64]])
  moreover have "missing_span (rr_missing_ranges (rs_report st)) \<inter> span (unat off) (unat sector_bytes) = {}"
    using M(2,3) sub(1) W by auto
  ultimately obtain rs' where rs': "append_missing_sector (rr_missing_ranges (rs_report st)) maximum off
      sector_bytes (fb_forward_native_error block) (fb_reverse_native_error block) e = Inr rs'"
    "missing_map sector_bytes source_bytes rs'" "missing_span rs' = M \<union> W"
    using append_missing_sector_ok [OF M(1) source_bytes_bound z _ _ room] M(2) W by metis
  have "W \<noteq> {}" using zpos by (simp add: W span_def)
  from account_zeroes [OF T source_bytes_bound sub this _ rs'(2,3)]
  show ?thesis by (simp add: account_exhausted_sector_def rs'(1) W)
qed

lemma missing_capacity:
  assumes T: "tallies source_bytes sector_bytes f r S U M st" and z: "sector_bytes \<noteq> 0"
    and W: "W \<inter> S = {}" "card W = unat sector_bytes" "W \<subseteq> {..<source_bytes}"
    and full: "ensure_missing_sector_can_be_recorded (rr_missing_ranges (rs_report st))
      (rq_maximum_missing_range_count request) off a b c = Inl e"
  shows "e \<in> allowed"
proof (rule ccontr)
  let ?rs = "rr_missing_ranges (rs_report st)" and ?z = "unat sector_bytes"
  let ?max = "unat (rq_maximum_missing_range_count request)"
  have rs: "missing_map sector_bytes source_bytes ?rs" "missing_span ?rs \<subseteq> S" "S \<subseteq> {..<source_bytes}"
    using T by (simp_all add: tallies_def)
  have e: "e = mk_error Invalid_data ERROR_NOT_ENOUGH_MEMORY" "?max \<le> length ?rs"
    using ensure_missing_sector_errors [OF rs(1) source_bytes_bound full] by simp_all
  assume "e \<notin> allowed"
  then have "source_bytes \<le> ?max * ?z" using e(1) capacity by simp
  also have "\<dots> \<le> length ?rs * ?z" using e(2) by (rule mult_le_mono1)
  also have "\<dots> \<le> card (missing_span ?rs)" by (rule missing_map_length [OF rs(1)])
  finally have le: "source_bytes \<le> card S"
    using card_mono [OF finite_subset [OF rs(3) finite_lessThan] rs(2)] by simp
  have "W \<noteq> {}" using W(2) sector_positive [OF z] by auto
  from tallies_settled_less [OF T W(1,3) this] le show False by simp
qed

lemma sector_turn_spec:
  assumes g: sound_geometry and off: "unat off mod unat sector_bytes = 0"
    and W: "W = span (unat off) (unat sector_bytes)" "W \<subseteq> U"
  shows "hoare (sector_at old f r U st) (sector_turn request src tgt block off st)
    (sector_at old f r (U - W)) (stopped old)"
proof (rule sector_at_hoare)
  have z: "sector_bytes \<noteq> 0" "unat off mod unat sector_bytes = 0"
    using g off by (simp_all add: sound_geometry_def)
  fix S M
  let ?st = "st\<lparr>rs_progress := (rs_progress st)\<lparr>rp_current_offset := off\<rparr>\<rparr>"
  assume T: "tallies source_bytes sector_bytes f r S U M st" and SU: "S \<inter> U = {}" "S \<union> U = {..<source_bytes}"
  have sets: "S \<subseteq> {..<source_bytes}" "M \<subseteq> S" "W \<subseteq> {..<source_bytes}" using tallies_sets [OF T] W(2) by auto
  note S = sets(1,2)
  have fresh: "W \<inter> S = {}" "M \<inter> W = {}" "(S \<union> W) \<inter> (U - W) = {}" "S \<union> W \<union> (U - W) = {..<source_bytes}"
    "W \<noteq> {}" using W SU S sector_positive [OF z(1)] by (auto simp: span_def)
  note within = rescued_within [where src = simg and img = old]
  have started: "tallies source_bytes sector_bytes f r S U M (?st\<lparr>rs_mutation_started := True\<rparr>)"
    using T by simp
  have len: "length (replicate (unat (src_logical_sector_size src)) (0 :: byte)) = unat sector_bytes" by simp
  let ?mid = "\<lambda>st s. \<exists>M'. (tallies source_bytes sector_bytes f r (S \<union> W) U M' st \<and> M' \<subseteq> S \<union> W) \<and>
    timg s = rescued simg (S \<union> W) M' old"
  have copied: "succeeds (account_recovered_sector sector_bytes (?st\<lparr>rs_mutation_started := True\<rparr>))
      (tallies source_bytes sector_bytes f r (S \<union> W) U M)"
    using fresh sets(3) W(1) source_bytes_bound
    by (intro account_recovered_sector_ok [OF started]) simp_all
  have in_range: "unat off + unat sector_bytes \<le> source_bytes"
    by (rule span_in_range [OF sets(3) [unfolded W(1)] sector_positive [OF z(1), folded unat_ucast_u32_u64]])
  have full: "e \<in> allowed" if "ensure_missing_sector_can_be_recorded
      (rr_missing_ranges (rs_report ?st)) (rq_maximum_missing_range_count request) off a b c = Inl e" for a b c e
    using missing_capacity [OF T z(1) fresh(1) _ sets(3) that [simplified]] W(1) by simp
  have tail: "hoare (?mid st') (bindE (or_safe_flush tgt True (of_result (resolve_outstanding sector_bytes st')))
      (stop_at_verified_boundary callbacks tgt)) (sector_at old f r (U - W)) (stopped old)" for st'
  proof (rule hoare_ex, rule hoare_pure)
    fix M' assume a: "tallies source_bytes sector_bytes f r (S \<union> W) U M' st' \<and> M' \<subseteq> S \<union> W"
    from resolve_ok [OF conjunct1 [OF a] W(2), of sector_bytes] W(1)
    have resolved: "succeeds (resolve_outstanding sector_bytes st')
        (tallies source_bytes sector_bytes f r (S \<union> W) (U - W) M')" by simp
    show "hoare (\<lambda>s. timg s = rescued simg (S \<union> W) M' old)
        (bindE (or_safe_flush tgt True (of_result (resolve_outstanding sector_bytes st')))
          (stop_at_verified_boundary callbacks tgt)) (sector_at old f r (U - W)) (stopped old)"
      by (rule hoare_bindE [OF or_flush [OF succeeds_spec [OF resolved]]], rule hoare_pure,
          rule hoare_conseq [OF stop_at_verified_boundary_spec [OF _ within]], assumption)
        (use a sets fresh(3,4) in \<open>auto simp: rescue_at_def intro!: sector_atI [of _ _ _ "S \<union> W" _ M']\<close>)
  qed
  show "hoare (\<lambda>s. timg s = rescued simg S M old) (sector_turn request src tgt block off st)
      (sector_at old f r (U - W)) (stopped old)"
    unfolding sector_turn_def Let_def
    apply (rule hoare_bindE [OF or_flush [OF attempt_spec [OF in_range within [OF S]]]], rule hoare_pure,
        rule hoare_bindE [OF _ tail], rule hoare_if_inv)
    subgoal premises media for a
      apply (rule hoare_bindE [OF or_flush [OF status_spec [OF within [OF S] full]]], assumption, rule hoare_pure)
      subgoal premises room for u
      proof (rule hoare_conseq [OF settle_spec [where S' = "S \<union> W" and M' = "M \<union> W" and old = old and
          P = "tallies source_bytes sector_bytes f r (S \<union> W) U (M \<union> W)", OF g _ S]], goal_cases)
        case 3
        show ?case
          using room by (intro exhausted_ok [OF started W(1) fresh(1) sets(3) z]) simp
      qed (use W(1) in_range sets rescued_zero [of simg S M old "unat off" "unat (src_logical_sector_size src)"]
          in \<open>auto simp: tallies_def\<close>)
      done
    subgoal premises bytes for a
    proof (rule hoare_conseq [OF settle_spec [where S' = "S \<union> W" and M' = M and old = old, OF g _ S _ copied]], goal_cases)
      case 2
      then show ?case
        using bytes rescued_copy [of M "unat off" "unat sector_bytes" "ra_bytes a" simg S old] fresh(2)
        by (simp add: W(1))
    qed (use bytes W(1) in_range sets in \<open>auto simp: tallies_def\<close>)
    done
qed

lemma sector_at_stop:
  "hoare (sector_at old f r U st) (stop_if_cancelled callbacks tgt b) (\<lambda>u. sector_at old f r U st) (stopped old)"
proof (rule sector_at_hoare)
  fix S M
  assume T: "tallies source_bytes sector_bytes f r S U M st" and a: "S \<inter> U = {}" "S \<union> U = {..<source_bytes}"
  have S: "S \<subseteq> {..<source_bytes}" "M \<subseteq> S" using tallies_sets [OF T] by simp_all
  show "hoare (\<lambda>s. timg s = rescued simg S M old) (stop_if_cancelled callbacks tgt b)
      (\<lambda>u. sector_at old f r U st) (stopped old)"
    by (rule hoare_conseq [OF stop_if_cancelled_spec [OF rescued_within [OF S]]])
      (use T a in \<open>auto simp: rescue_at_def intro!: sector_atI [of _ _ _ S U M]\<close>)
qed

lemma multiple_step:
  fixes a b z :: nat
  assumes "a mod z = 0" "b mod z = 0" "a < b"
  shows "a + z \<le> b"
  using assms by (metis add_diff_inverse_nat dvd_diff_nat dvd_imp_le mod_0_imp_dvd nat_add_left_cancel_le
      not_less_iff_gr_or_eq zero_less_diff)

lemma retry_sectors_spec:
  assumes g: sound_geometry and last: "unat failed_end mod unat sector_bytes = 0"
    and "unat off mod unat sector_bytes = 0" "{unat off..<unat failed_end} \<subseteq> U"
  shows "hoare (sector_at old f r U st) (retry_sectors request src tgt block failed_end off st)
    (sector_at old f r (U - {unat off..<unat failed_end})) (stopped old)"
  using assms(3,4)
proof (induction "unat failed_end - unat off" arbitrary: off U st rule: less_induct)
  case less
  show ?case
  proof (cases "off < failed_end")
    case False
    then show ?thesis
      by (auto simp: retry_sectors.simps [of request src tgt block failed_end off] word_less_nat_alt
          intro!: hoare_pre [OF hoare_returnE])
  next
    case True
    let ?W = "span (unat off) (unat sector_bytes)" and ?next = "off + sector_bytes"
    have z: "sector_bytes \<noteq> 0" using g by (simp add: sound_geometry_def)
    have lt: "unat off < unat failed_end" using True by (simp add: word_less_nat_alt)
    have le: "unat off + unat sector_bytes \<le> unat failed_end"
      by (rule multiple_step [OF less.prems(1) last lt])
    then have nxt: "unat ?next = unat off + unat sector_bytes"
      using unat_u64_bound [of failed_end] by (intro unat_add_u64) simp
    have W: "?W \<subseteq> U" using le less.prems(2) by (auto simp: span_def)
    have rest: "hoare (sector_at old f r (U - ?W) st') (retry_sectors request src tgt block failed_end ?next st')
        (sector_at old f r (U - ?W - {unat ?next..<unat failed_end})) (stopped old)" for st'
    proof (rule less.hyps)
      show "unat failed_end - unat ?next < unat failed_end - unat off"
        using sector_positive [OF z] lt nxt by simp
      show "unat ?next mod unat sector_bytes = 0" using less.prems(1) nxt by simp
      show "{unat ?next..<unat failed_end} \<subseteq> U - ?W"
        using less.prems(2) nxt by (auto simp: span_def)
    qed
    have "U - ?W - {unat ?next..<unat failed_end} = U - {unat off..<unat failed_end}"
      using le nxt by (auto simp: span_def)
    note rest = rest [unfolded this]
    have loop: "retry_sectors request src tgt block failed_end off st =
        bindE (stop_if_cancelled callbacks tgt (rs_mutation_started st)) (\<lambda>u.
        bindE (sector_turn request src tgt block off st) (\<lambda>st.
        retry_sectors request src tgt block failed_end ?next st))"
      using True unfolding retry_sectors.simps [of request src tgt block failed_end off] by simp
    show ?thesis
      unfolding loop
      by (rule hoare_bindE [OF sector_at_stop],
          rule hoare_bindE [OF sector_turn_spec [OF g less.prems(1) refl W] rest])
  qed
qed

lemma sector_pass_spec:
  assumes g: sound_geometry and "failed_blocks source_bytes (unat sector_bytes) U blocks"
  shows "hoare (sector_at old f r U st) (sector_pass request src tgt blocks st)
    (sector_at old f r {}) (stopped old)"
  using assms(2)
proof (induction blocks arbitrary: U st)
  case Nil
  then show ?case by (auto intro: hoare_pre [OF hoare_returnE])
next
  case (Cons block blocks)
  let ?off = "range_offset (fb_bytes block)" and ?len = "range_length (fb_bytes block)"
  note block = failed_blocks_Cons [OF Cons.prems]
  have le: "unat ?off + unat ?len \<le> source_bytes" and
    aligned: "unat ?off mod unat sector_bytes = 0" "unat ?len mod unat sector_bytes = 0"
    using block(1) by (simp_all add: failed_block_ok_def range_end_def)
  then have sum: "checked_add ?off ?len = Some (?off + ?len)" "unat (?off + ?len) = unat ?off + unat ?len"
    using source_bytes_bound by (simp_all add: checked_add_unat unat_add_u64)
  have over: "\<not> ?off + ?len > src_size_bytes src" using le sum(2) by (simp add: word_less_nat_alt)
  have W: "{unat ?off..<unat (?off + ?len)} = block_span block"
    by (auto simp: sum(2) range_span_def span_def)
  have "unat (?off + ?len) mod unat sector_bytes = 0"
    using aligned sum(2) by (metis dvd_add dvd_eq_mod_eq_0)
  from retry_sectors_spec [OF g this aligned(1), of U, unfolded W, OF block(2)]
  show ?case
    by (simp add: Let_def sum(1) over) (rule hoare_bindE [OF _ Cons.IH [OF block(3)]])
qed

lemma rescue_passes_spec:
  assumes g: sound_geometry
  shows "hoare (\<lambda>s. timg s = old) (rescue_passes request src tgt)
    (\<lambda>st s. \<exists>f r M. tallies source_bytes sector_bytes f r {..<source_bytes} {} M st \<and>
       timg s = rescued simg {..<source_bytes} M old) (stopped old)"
proof -
  have z: "sector_bytes \<noteq> 0" using g by (simp add: sound_geometry_def)
  have start: "tallies source_bytes sector_bytes 0 0 {} {} {} (initial_rescue_state (src_size_bytes src))"
    using tallies_initial [OF source_bytes_bound] by simp
  have forward: "hoare (\<lambda>s. timg s = old) (enter_phase callbacks Forward_read
      (initial_rescue_state (src_size_bytes src))) (\<lambda>st. forward_at old 0 [] st) (stopped old)"
    by (rule hoare_conseq [OF enter_phase_spec [OF start]])
      (auto intro!: forward_atI [of _ _ "{}" "{}"] simp: rescue_at_def block_room_def)
  have pass1: "hoare (forward_at old 0 [] st) (forward_pass request src tgt 0 [] st)
      (\<lambda>(failed, st). forward_at old source_bytes failed st) (stopped old)" for st
    using forward_pass_spec [OF g, of 0] by simp
  have reverse: "hoare (forward_at old source_bytes failed st) (enter_phase callbacks Reverse_retry st)
      (reverse_at old (length failed) (rev failed) []) (stopped old)" for failed st
    by (rule forward_at_hoare, rule hoare_conseq [OF enter_phase_spec], assumption)
      (auto intro!: reverse_atI simp: rescue_at_def block_room_def)
  have sector: "hoare (reverse_at old f [] retry st) (enter_phase callbacks Sector_retry st)
     (\<lambda>st s. \<exists>U. failed_blocks source_bytes (unat sector_bytes) U retry \<and> sector_at old f (length retry) U st s)
     (stopped old)" for f retry st
    by (rule reverse_at_hoare, rule hoare_conseq [OF enter_phase_spec], assumption)
      (auto intro!: sector_atI simp: rescue_at_def)
  have pass3: "hoare (\<lambda>s. \<exists>U. failed_blocks source_bytes (unat sector_bytes) U retry \<and>
        sector_at old f (length retry) U st s) (sector_pass request src tgt retry st)
      (\<lambda>st s. \<exists>f r M. tallies source_bytes sector_bytes f r {..<source_bytes} {} M st \<and>
         timg s = rescued simg {..<source_bytes} M old) (stopped old)" for f retry st
    by (rule hoare_ex, rule hoare_pure, rule hoare_conseq [OF sector_pass_spec [OF g]], assumption)
      (auto simp: sector_at_def rescue_at_def)
  show ?thesis
    unfolding rescue_passes_def
    by (rule hoare_bindE [OF forward], rule hoare_bindE [OF pass1], rule hoare_case_prod,
        rule hoare_bindE [OF reverse], rule hoare_bindE [OF reverse_pass_spec [OF g]], rule hoare_case_prod,
        rule hoare_bindE [OF sector pass3])
qed

lemma final_invariant:
  assumes T: "tallies source_bytes sector_bytes f r {..<source_bytes} {} M st"
    and ranges: "missing_span ranges = M" "ranges = [] \<longleftrightarrow> M = {}"
  shows "final_rescue_invariant (src_size_bytes src) (st\<lparr>rs_report := (rs_report st)\<lparr>rr_missing_ranges := ranges\<rparr>\<rparr>)"
proof -
  let ?q = "rs_report st"
  note t = T [unfolded tallies_def]
  have M: "M \<subseteq> {..<source_bytes}" "finite M" using t by (auto intro: finite_subset)
  have c: "card ({..<source_bytes} - M) = source_bytes - card M" "card M \<le> source_bytes"
    using M card_less_n [OF M(1)] by (simp_all add: card_Diff_subset)
  have copied: "unat (rr_copied_source_bytes ?q) = source_bytes - card M"
    and zero: "unat (rr_zero_filled_bytes ?q) = card M" using t c by simp_all
  have le: "rr_copied_source_bytes ?q \<le> src_size_bytes src" using copied by (simp add: word_le_nat_alt)
  have "unat (src_size_bytes src - rr_copied_source_bytes ?q) = card M"
    using unat_sub_u64 [OF le] copied c(2) by simp
  moreover have "unat (rr_copied_source_bytes ?q + rr_zero_filled_bytes ?q) = source_bytes"
    using copied zero c(2) source_bytes_bound by (subst unat_add_u64) simp_all
  ultimately have sum: "rr_zero_filled_bytes ?q = src_size_bytes src - rr_copied_source_bytes ?q"
    "rr_copied_source_bytes ?q + rr_zero_filled_bytes ?q = src_size_bytes src"
    using zero by (simp_all add: word_unat_eq_iff)
  have whole: "rp_settled_target_bytes (rs_progress st) = src_size_bytes src"
    "rp_outstanding_failed_bytes (rs_progress st) = 0" "rr_verified_bytes ?q = src_size_bytes src"
    using t by (simp_all add: word_unat_eq_iff)
  have "rr_zero_filled_bytes ?q = 0 \<longleftrightarrow> M = {}" using zero M(2) by (simp add: word_unat_eq_iff)
  then show ?thesis
    using le sum whole ranges(2) by (simp add: final_rescue_invariant_def Let_def not_less)
qed

lemma finish_rescue_spec:
  assumes g: sound_geometry and T: "tallies source_bytes sector_bytes f r {..<source_bytes} {} M st"
  shows "hoare (\<lambda>s. timg s = rescued simg {..<source_bytes} M old) (finish_rescue request src tgt st)
    (\<lambda>report s. rescue_result source_bytes sector_bytes simg old report (timg s)) (stopped old)"
proof -
  let ?img = "rescued simg {..<source_bytes} M old"
  have M: "M \<subseteq> {..<source_bytes}" using tallies_sets [OF T] by simp
  have within: "only_within {..<source_bytes} old ?img" using M by (intro rescued_within) simp_all
  have img: "?img = (\<lambda>i. if i \<in> M then 0 else if i < source_bytes then simg i else old i)"
    by (auto simp: rescued_def overlay_def)
  have flush: "hoare (\<lambda>s. timg s = ?img) (tgt_flush tgt) (\<lambda>u s. timg s = ?img) (stopped old)"
    using within by (intro hoareI) (auto simp: stopped_def target.flush_frame dest: flush_errors)
  have normalized: "\<exists>ranges. normalize_missing_ranges (rr_missing_ranges (rs_report st')) sector_bytes = Inr ranges \<and>
      missing_span ranges = M \<and> (ranges = [] \<longleftrightarrow> M = {}) \<and> sorted_wrt missing_before ranges \<and>
      list_all (missing_range_ok sector_bytes) ranges \<and> successively (\<lambda>r r'. \<not> mergeable r r') ranges"
    if t: "tallies source_bytes sector_bytes f r {..<source_bytes} {} M st'" for st'
  proof -
    have map: "missing_map sector_bytes source_bytes (rr_missing_ranges (rs_report st'))"
      "missing_span (rr_missing_ranges (rs_report st')) = M" using t by (simp_all add: tallies_def)
    obtain ranges where n: "normalize_missing_ranges (rr_missing_ranges (rs_report st')) sector_bytes = Inr ranges"
      "sorted_wrt missing_before ranges"
      "list_all (\<lambda>r. missing_range_ok sector_bytes r \<and> range_end (mr_bytes r) \<le> source_bytes) ranges"
      "missing_span ranges = missing_span (rr_missing_ranges (rs_report st'))"
      "successively (\<lambda>r r'. \<not> mergeable r r') ranges"
      using normalize_missing_ranges_ok [OF map(1) source_bytes_bound] .
    with missing_map_empty [OF missing_before_map [OF n(2,3)]] map(2) show ?thesis
      by (auto simp: list_all_iff)
  qed
  show ?thesis
    unfolding finish_rescue_def
    apply (rule hoare_bindE [OF publish_unverified_spec [OF T]], rule hoare_pure)
    subgoal premises t for st'
    proof -
      from normalized [OF t] obtain ranges where
        n: "normalize_missing_ranges (rr_missing_ranges (rs_report st')) sector_bytes = Inr ranges"
        and ranges: "missing_span ranges = M" "ranges = [] \<longleftrightarrow> M = {}" "sorted_wrt missing_before ranges"
          "list_all (missing_range_ok sector_bytes) ranges" "successively (\<lambda>r r'. \<not> mergeable r r') ranges"
        by blast
      have no_loss: "rr_zero_filled_bytes (rs_report st') = 0 \<and> rr_exhausted_sector_count (rs_report st') = 0"
        if "ranges = []"
        using t g that ranges(2) by (auto simp: tallies_def sound_geometry_def unat_eq_zero)
      have normal: "or_safe_flush tgt b (returnE ranges) = (returnE ranges :: ('s, rescue_missing_range list) prog)" for b
        by (rule ext) (simp add: or_safe_flush_def returnE_def)
      have result: "rescue_result source_bytes sector_bytes simg old
          ((rs_report st')\<lparr>rr_missing_ranges := ranges, rr_target_flushed := True,
             rr_all_writes_read_back_verified := True, rr_partial_data_loss := ranges \<noteq> [],
             rr_byte_exact_copy := ranges = []\<rparr>) ?img"
        using t ranges M card_less_n [OF M] card_Diff_subset [OF finite_subset [OF M finite_lessThan] M] img
        by (simp add: rescue_result_def Let_def tallies_def)
      show ?thesis
        unfolding n of_result_Inr normal bindE_returnE Let_def
        using final_invariant [OF t ranges(1,2)] no_loss result
        by (auto intro!: hoare_bindE [OF lift_same [OF publish_keeps]] hoare_bindE [OF flush] hoare_if_inv
            intro: hoare_pre [OF hoare_returnE])
    qed
    done
qed

lemma validated_geometry:
  assumes "validate_request request src tgt = Inr ()"
  shows sound_geometry
proof -
  have v: "src_size_bytes src mod sector_bytes = 0" "\<not> src_logical_sector_size src < 512"
    "\<not> rq_large_block_bytes request < sector_bytes" "rq_large_block_bytes request mod sector_bytes = 0"
    using assms by (auto simp: validate_request_def Let_def simp del: mod_0_imp_dvd split: if_splits)
  have pos: "512 \<le> unat sector_bytes" using v(2) by (simp add: word_less_nat_alt)
  have "rq_large_block_bytes request \<noteq> 0"
    using v(3) pos by (auto simp: word_less_nat_alt)
  moreover have "sector_bytes \<noteq> 0" using pos by (metis not_numeral_le_zero unat_0)
  moreover have "source_bytes mod unat sector_bytes = 0" "unat (rq_large_block_bytes request) mod unat sector_bytes = 0"
    using v(1,4) by (simp_all only: unat_mod_distrib [symmetric] unat_0)
  moreover have "source_bytes \<le> unat (tgt_size_bytes tgt)"
    using assms by (auto simp: validate_request_def Let_def not_less word_le_nat_alt simp del: mod_0_imp_dvd
        split: if_splits)
  ultimately show ?thesis by (simp add: sound_geometry_def)
qed

text \<open>The whole engine.\<close>

lemma execute_rescue_raw_copy_spec:
  assumes "validate_request request src tgt = Inr ()"
  shows "hoare (\<lambda>s. timg s = old) (execute_rescue_raw_copy request src tgt)
    (\<lambda>report s. rescue_result source_bytes sector_bytes simg old report (timg s)) (stopped old)"
  unfolding execute_rescue_raw_copy_def assms of_result_Inr bindE_returnE
proof (rule hoare_bindE [OF lift_same [OF publish_keeps]], rule hoare_bindE [OF cancellation_spec],
    rule hoare_pure, rule hoare_if_inv, goal_cases)
  case (1 u c)
  show ?case by (rule hoare_pre [OF hoare_failE]) (use 1 in \<open>simp add: stopped_def\<close>)
next
  case (2 u c)
  have pass: "hoare (\<lambda>s. \<exists>f r M. tallies source_bytes sector_bytes f r {..<source_bytes} {} M st \<and>
         timg s = rescued simg {..<source_bytes} M old) (finish_rescue request src tgt st)
      (\<lambda>report s. rescue_result source_bytes sector_bytes simg old report (timg s)) (stopped old)" for st
    by (intro hoare_ex hoare_pure finish_rescue_spec [OF validated_geometry [OF assms]])
  then show ?case by (rule hoare_bindE [OF rescue_passes_spec [OF validated_geometry [OF assms]]])
qed

lemma execute_rescue_raw_copy_refused:
  assumes "validate_request request src tgt = Inl e" "execute_rescue_raw_copy request src tgt s = (r, t)"
  shows "r = Inl e" "timg t = timg s"
  using assms keepsD [OF publish_keeps, of "initial_rescue_progress (src_size_bytes src)" s]
  by (auto simp: execute_rescue_raw_copy_def bindE_def liftE_def failE_def split: prod.splits)

end

end
