(* ===== verification/RescueCopyRuns.thy ===== *)
theory RescueCopyRuns
  imports RescueCopyCorrect
begin

text \<open>
  The properties of the rescue copy, and the disk with bad sectors of its unit tests
  (\<open>tests/Unit/rescue_copy_tests.cpp\<close>), on which they are instantiated.
\<close>

section \<open>A disk with bad sectors\<close>

text \<open>
  \<open>FailingMemorySource\<close>: its tables of injected failures and its log of reads are part of the world,
  beside the storage of the in-memory target.
\<close>

record failing_world = memory_world +
  fw_recoverable_failure_counts :: "u64 \<times> u64 \<Rightarrow> nat"
  fw_call_counts :: "u64 \<times> u64 \<Rightarrow> nat"
  fw_read_order :: "(u64 \<times> u64) list"

definition failing_memory_source ::
  "u64 \<Rightarrow> u32 \<Rightarrow> (u64 \<times> u64 \<Rightarrow> error option) \<Rightarrow> image \<Rightarrow> 'a failing_world_scheme source_reader" where
  "failing_memory_source sz sector fatal_errors img =
     \<lparr>src_size_bytes = sz, src_logical_sector_size = sector,
      src_read = (\<lambda>offset length s.
        let key = (offset, length);
            s = s\<lparr>fw_read_order := fw_read_order s @ [key],
                  fw_call_counts := (fw_call_counts s)(key := fw_call_counts s key + 1)\<rparr>
        in
        case fatal_errors key of
          Some e \<Rightarrow> (Inl e, s)
        | None \<Rightarrow>
          if fw_recoverable_failure_counts s key \<noteq> 0
          then (Inl (mk_error Io_failed ERROR_CRC),
            s\<lparr>fw_recoverable_failure_counts := (fw_recoverable_failure_counts s)
              (key := fw_recoverable_failure_counts s key - 1)\<rparr>)
          else if offset > sz \<or> length > sz - offset
          then (Inl (mk_error Invalid_argument ERROR_INVALID_PARAMETER), s)
          else (Inr (img_bytes img (unat offset) (unat length)), s))\<rparr>"

definition no_rescue_callbacks :: "'s rescue_copy_callbacks" where
  "no_rescue_callbacks =
     \<lparr>rc_progress = None, rc_cancellation_requested = None, rc_safe_boundary = None\<rparr>"

lemma rescue_callbacks_keep_none [simp]: "rescue_callbacks_keep v no_rescue_callbacks"
  by (simp add: rescue_callbacks_keep_def no_rescue_callbacks_def keeps_def rescue_publish_progress_def
      rescue_cancellation_requested_def rescue_control_at_safe_boundary_def)

lemma failing_memory_source_sel [simp]:
  "src_size_bytes (failing_memory_source sz sector fatal img) = sz"
  "src_logical_sector_size (failing_memory_source sz sector fatal img) = sector"
  by (simp_all add: failing_memory_source_def)

lemma failing_read_cases:
  assumes "src_read (failing_memory_source sz sector fatal img) off len s = (r, t)"
  shows "mw_storage t = mw_storage s"
    "r = Inr bs \<Longrightarrow> bs = img_bytes img (unat off) (unat len)"
    "r = Inl e \<Longrightarrow> unat off + unat len \<le> unat sz \<Longrightarrow> fatal = Map.empty \<Longrightarrow> e = mk_error Io_failed ERROR_CRC"
proof -
  show "mw_storage t = mw_storage s" "r = Inr bs \<Longrightarrow> bs = img_bytes img (unat off) (unat len)"
    using assms by (auto simp: failing_memory_source_def Let_def split: option.splits if_splits)
  assume "r = Inl e" "unat off + unat len \<le> unat sz" "fatal = Map.empty"
  moreover have "\<not> (off > sz \<or> len > sz - off)"
    using calculation(2) by (auto simp: word_less_nat_alt word_le_nat_alt unat_sub not_less)
  ultimately show "e = mk_error Io_failed ERROR_CRC"
    using assms by (auto simp: failing_memory_source_def Let_def split: if_splits)
qed

lemma failing_source_image: "source_image (failing_memory_source sz sector fatal img) img"
  by unfold_locales (auto dest: failing_read_cases(2))

interpretation failing_rescue: rescue_world "failing_memory_source sz sector fatal img" img
    "memory_target_writer tsz sector' 0" mw_storage "request\<lparr>rq_callbacks := no_rescue_callbacks\<rparr>" UNIV
  by (intro rescue_world.intro rescue_world_axioms.intro failing_source_image
      memory_target.target_image_axioms) (auto intro!: keepsI dest: failing_read_cases(1))

text \<open>The target of the tests never fails inside its size.\<close>

lemma memory_target_reread:
  assumes "unat off + length bs \<le> unat sz"
  shows "\<exists>t. reread_write (memory_target_writer sz sector 0) off bs s = (Inr bs, t)"
proof -
  have len: "unat (of_nat (length bs) :: u64) = length bs"
    using assms unat_u64_bound [of sz] by (intro unat_of_nat_u64) simp
  have ok: "\<not> (off > sz \<or> of_nat (length bs) > sz - off)"
    using assms len by (auto simp: word_less_nat_alt word_le_nat_alt unat_sub not_less)
  show ?thesis
    using ok by (auto simp: reread_write_def memory_target_writer_def bindE_def returnE_def len)
qed

lemma failing_rescue_works:
  assumes "rq_callbacks request = no_rescue_callbacks"
    "unat sz \<le> unat (rq_maximum_failed_block_count request) * unat (rq_large_block_bytes request)"
    "unat sz \<le> unat (rq_maximum_missing_range_count request) * unat sector"
  shows "rescue_world (failing_memory_source sz sector Map.empty img) img
    (memory_target_writer tsz sector' 0) mw_storage request allowed"
proof (intro rescue_world.intro rescue_world_axioms.intro failing_source_image
    memory_target.target_image_axioms, goal_cases)
  case (3 off len s e t)
  then show ?case
    using failing_read_cases(3) [OF 3(2)] by (simp add: is_recoverable_media_read_error_def)
next
  case (4 off len s bs t)
  then show ?case using failing_read_cases(2) [OF 4(2)] by auto
next
  case (5 off bs s e t)
  then show ?case using memory_target_reread [of off bs tsz sector' s] by auto
next
  case (6 s e t)
  then show ?case by (simp add: memory_target_writer_def)
qed (use assms in \<open>auto intro!: keepsI dest: failing_read_cases(1)
    simp: rescue_callbacks_keep_none [unfolded no_rescue_callbacks_def] no_rescue_callbacks_def
      rescue_cancellation_requested_def rescue_control_at_safe_boundary_def\<close>)

section \<open>Examples\<close>

text \<open>
  A disk of two sectors that is copied in one block; the block fails twice and then its second
  sector, so that the first is recovered and the second becomes zeroes.
\<close>

definition example_rescue_image :: image where
  "example_rescue_image i = of_nat (i mod 251 + 1)"

definition example_rescue_source :: "failing_world source_reader" where
  "example_rescue_source = failing_memory_source 1024 512 Map.empty example_rescue_image"

definition example_rescue_target :: "failing_world target_writer" where
  "example_rescue_target = memory_target_writer 2048 512 0"

definition example_rescue_request :: "failing_world rescue_raw_copy_request" where
  "example_rescue_request =
     \<lparr>rq_environment = Windows, rq_source_kind = Data_disk, rq_rescue_mode_explicitly_confirmed = True,
      rq_large_block_bytes = 1024, rq_maximum_failed_block_count = 32,
      rq_maximum_missing_range_count = 32, rq_callbacks = no_rescue_callbacks\<rparr>"

definition example_rescue_world :: failing_world where
  "example_rescue_world =
     \<lparr>mw_storage = (\<lambda>i. 0x7F), mw_last_write_offset = 0, mw_write_count = 0, mw_flush_count = 0,
      fw_recoverable_failure_counts = (\<lambda>key. if key = (0, 1024) then 2 else if key = (512, 512) then 1 else 0),
      fw_call_counts = (\<lambda>key. 0), fw_read_order = []\<rparr>"

lemma example_rescue_world:
  "rescue_world example_rescue_source example_rescue_image example_rescue_target mw_storage
     example_rescue_request allowed"
  unfolding example_rescue_source_def example_rescue_target_def
  by (rule failing_rescue_works) (simp_all add: example_rescue_request_def)

lemma example_rescue_valid:
  "validate_request example_rescue_request example_rescue_source example_rescue_target = Inr ()"
  by (simp add: validate_request_def Let_def example_rescue_request_def example_rescue_source_def
      example_rescue_target_def rescue_sector_size_ok_def)

text \<open>A request that does not confirm the rescue mode.\<close>

definition example_rescue_unconfirmed :: "failing_world rescue_raw_copy_request" where
  "example_rescue_unconfirmed = example_rescue_request\<lparr>rq_rescue_mode_explicitly_confirmed := False\<rparr>"

lemma example_rescue_refused:
  "validate_request example_rescue_unconfirmed example_rescue_source example_rescue_target =
     Inl (mk_error Confirmation_required ERROR_CANCELLED)"
  by (simp add: validate_request_def Let_def example_rescue_unconfirmed_def)

section \<open>Properties\<close>

lemma rescue_finishes:
  assumes "rescue_world src simg tgt timg request {}" "validate_request request src tgt = Inr ()"
  shows "\<exists>report t. execute_rescue_raw_copy request src tgt s = (Inr report, t)"
proof -
  obtain r t where run: "execute_rescue_raw_copy request src tgt s = (r, t)" by fastforce
  show ?thesis
  proof (cases r)
    case (Inl e)
    then have "rescue_world.stopped src timg {} (timg s) e t"
      using run hoareD_Inl [OF rescue_world.execute_rescue_raw_copy_spec [OF assms(1,2)] refl] by simp
    then show ?thesis by (simp add: rescue_world.stopped_def [OF assms(1)])
  qed (use run in blast)
qed

text \<open>
  C2. When the rescue copy reports success, the target holds the source's bytes wherever the report
  does not say they are missing, zeroes where it does, and its old contents beyond the source; the
  copy is called exact only when nothing is missing, and all of it was read back and flushed.
\<close>

theorem execute_rescue_raw_copy_correct:
  assumes "rescue_world src simg tgt timg request allowed"
    and "execute_rescue_raw_copy request src tgt s = (Inr report, t)"
  shows "timg t = (\<lambda>i. if i \<in> missing_span (rr_missing_ranges report) then 0
       else if i < unat (src_size_bytes src) then simg i else timg s i) \<and>
    rr_byte_exact_copy report = (missing_span (rr_missing_ranges report) = {}) \<and>
    rr_partial_data_loss report = (missing_span (rr_missing_ranges report) \<noteq> {}) \<and>
    rr_target_flushed report \<and> rr_all_writes_read_back_verified report \<and>
    unat (rr_verified_bytes report) = unat (src_size_bytes src)"
proof -
  have valid: "validate_request request src tgt = Inr ()"
    using rescue_world.execute_rescue_raw_copy_refused(1) [OF assms(1) _ assms(2)]
    by (cases "validate_request request src tgt") auto
  from hoareD_Inr [OF rescue_world.execute_rescue_raw_copy_spec [OF assms(1) valid] refl assms(2)]
  show ?thesis by (simp add: rescue_result_def Let_def)
qed

theorem execute_rescue_raw_copy_correct_witness:
  "\<exists>report t. execute_rescue_raw_copy example_rescue_request example_rescue_source example_rescue_target
       example_rescue_world = (Inr report, t) \<and> mw_storage t 2000 = 0x7F"
proof -
  obtain report t where run: "execute_rescue_raw_copy example_rescue_request example_rescue_source
      example_rescue_target example_rescue_world = (Inr report, t)"
    using rescue_finishes [OF example_rescue_world example_rescue_valid] by blast
  note result = execute_rescue_raw_copy_correct [OF example_rescue_world run]
  have "missing_span (rr_missing_ranges report) \<subseteq> {..<1024}"
    using hoareD_Inr [OF rescue_world.execute_rescue_raw_copy_spec [OF example_rescue_world example_rescue_valid] refl run]
    by (simp add: rescue_result_def Let_def example_rescue_source_def)
  then have "mw_storage t 2000 = 0x7F"
    using result by (auto simp: example_rescue_world_def example_rescue_source_def)
  with run show ?thesis by blast
qed

text \<open>
  C25. The map of missing ranges of a successful rescue copy is exact: ordered whole sectors of the
  source that do not overlap, neighbours joined unless their errors differ, each sector counted
  once, and what is not missing counted as copied.
\<close>

theorem execute_rescue_raw_copy_map:
  assumes "rescue_world src simg tgt timg request allowed"
    and "execute_rescue_raw_copy request src tgt s = (Inr report, t)"
  shows "list_all (missing_range_ok (ucast (src_logical_sector_size src))) (rr_missing_ranges report) \<and>
    sorted_wrt missing_before (rr_missing_ranges report) \<and>
    successively (\<lambda>r r'. \<not> mergeable r r') (rr_missing_ranges report) \<and>
    missing_span (rr_missing_ranges report) \<subseteq> {..<unat (src_size_bytes src)} \<and>
    unat (rr_zero_filled_bytes report) = card (missing_span (rr_missing_ranges report)) \<and>
    unat (rr_exhausted_sector_count report) * unat (src_logical_sector_size src) =
      card (missing_span (rr_missing_ranges report)) \<and>
    unat (rr_copied_source_bytes report) + card (missing_span (rr_missing_ranges report)) =
      unat (src_size_bytes src)"
proof -
  have valid: "validate_request request src tgt = Inr ()"
    using rescue_world.execute_rescue_raw_copy_refused(1) [OF assms(1) _ assms(2)]
    by (cases "validate_request request src tgt") auto
  from hoareD_Inr [OF rescue_world.execute_rescue_raw_copy_spec [OF assms(1) valid] refl assms(2)]
  show ?thesis by (simp add: rescue_result_def Let_def)
qed

theorem execute_rescue_raw_copy_map_witness:
  "\<exists>report t. execute_rescue_raw_copy example_rescue_request example_rescue_source example_rescue_target
       example_rescue_world = (Inr report, t) \<and>
     unat (rr_copied_source_bytes report) + unat (rr_zero_filled_bytes report) = 1024"
proof -
  obtain report t where run: "execute_rescue_raw_copy example_rescue_request example_rescue_source
      example_rescue_target example_rescue_world = (Inr report, t)"
    using rescue_finishes [OF example_rescue_world example_rescue_valid] by blast
  from execute_rescue_raw_copy_map [OF example_rescue_world run] run show ?thesis
    by (auto simp: example_rescue_source_def)
qed

text \<open>
  C26. A rescue copy that fails has changed nothing outside the source's extent, nothing at all when
  the request was refused, and its error comes from the outside: when no device reports an internal
  error or an arithmetic overflow, the engine does not either, so its bookkeeping checks never fire.
\<close>

theorem execute_rescue_raw_copy_errors:
  assumes "rescue_world src simg tgt timg request
      {e. err_code e \<noteq> Internal_error \<and> err_native e \<noteq> ERROR_ARITHMETIC_OVERFLOW}"
    and "execute_rescue_raw_copy request src tgt s = (Inl e, t)"
  shows "err_code e \<noteq> Internal_error \<and> err_native e \<noteq> ERROR_ARITHMETIC_OVERFLOW \<and>
    (\<forall>i. unat (src_size_bytes src) \<le> i \<longrightarrow> timg t i = timg s i) \<and>
    (validate_request request src tgt \<noteq> Inr () \<longrightarrow>
       validate_request request src tgt = Inl e \<and> timg t = timg s)"
proof (cases "validate_request request src tgt")
  case (Inl e')
  from rescue_world.execute_rescue_raw_copy_refused [OF assms(1) Inl assms(2)]
  have e: "e' = e" "timg t = timg s" by simp_all
  moreover have "err_code e \<noteq> Internal_error \<and> err_native e \<noteq> ERROR_ARITHMETIC_OVERFLOW"
    using Inl unfolding e(1) validate_request_def Let_def
    by (simp split: if_splits) (auto dest!: sym [of _ e])
  ultimately show ?thesis using Inl by simp
next
  case (Inr u)
  then have valid: "validate_request request src tgt = Inr ()" by simp
  from hoareD_Inl [OF rescue_world.execute_rescue_raw_copy_spec [OF assms(1) valid] refl assms(2)]
  show ?thesis
    using valid by (auto simp: rescue_world.stopped_def [OF assms(1)] only_within_def)
qed

theorem execute_rescue_raw_copy_errors_witness:
  "\<exists>e t. execute_rescue_raw_copy example_rescue_unconfirmed example_rescue_source example_rescue_target
       example_rescue_world = (Inl e, t) \<and> e = mk_error Confirmation_required ERROR_CANCELLED \<and>
     mw_storage t = mw_storage example_rescue_world"
proof -
  have world: "rescue_world example_rescue_source example_rescue_image example_rescue_target mw_storage
      example_rescue_unconfirmed {e. err_code e \<noteq> Internal_error \<and> err_native e \<noteq> ERROR_ARITHMETIC_OVERFLOW}"
    unfolding example_rescue_source_def example_rescue_target_def
    by (rule failing_rescue_works) (simp_all add: example_rescue_unconfirmed_def example_rescue_request_def)
  obtain r t where run: "execute_rescue_raw_copy example_rescue_unconfirmed example_rescue_source
      example_rescue_target example_rescue_world = (r, t)" by fastforce
  have "r = Inl (mk_error Confirmation_required ERROR_CANCELLED)"
    by (rule rescue_world.execute_rescue_raw_copy_refused(1) [OF world example_rescue_refused run])
  with execute_rescue_raw_copy_errors [OF world run [unfolded this]] run show ?thesis
    by (simp add: example_rescue_refused)
qed

text \<open>
  C27. A rescue copy gets to its end whatever sectors are bad: when every failing read is a media
  failure, the target works, nobody cancels, and the limits allow one failed block per block and one
  missing range per sector, an accepted request ends with a report.
\<close>

theorem execute_rescue_raw_copy_completes:
  assumes "rescue_world src simg tgt timg request {}"
    and "validate_request request src tgt = Inr ()"
  shows "\<exists>report t. execute_rescue_raw_copy request src tgt s = (Inr report, t)"
  by (rule rescue_finishes [OF assms])

theorem execute_rescue_raw_copy_completes_witness:
  "\<exists>report t. execute_rescue_raw_copy example_rescue_request example_rescue_source example_rescue_target
     example_rescue_world = (Inr report, t)"
  by (rule execute_rescue_raw_copy_completes [OF example_rescue_world example_rescue_valid])

end
