(* ===== verification/ManualPause.thy ===== *)
theory ManualPause
  imports RescueCopyRuns
begin

text \<open>
  The pause of a running operation (\<open>CloneCore/src/manual_pause.cpp\<close>).  Every method of the
  controller is one or more critical sections under its mutex: each is a function on the protected
  state, which also says whether a notification is emitted after the lock is released.  The threads
  are a step relation over these sections and the emissions between them: the user interface may
  act at any moment, the worker waits at a safe boundary by checking, sleeping on the condition
  variable and probing, and a notification is delivered in a step of its own after the section
  that made it, so that two threads can deliver theirs in either order.
\<close>

section \<open>The controller\<close>

datatype manual_pause_state = Mp_running | Pause_requested | Paused | Cancelling | Mp_completed

datatype manual_pause_availability = Unavailable | Available_at_safe_boundary

text \<open>\<open>ManualPauseSnapshot\<close>, and the fields of \<open>Impl\<close> that it copies.\<close>

record manual_pause =
  mp_state :: manual_pause_state
  mp_availability :: manual_pause_availability
  mp_sequence :: u64
  mp_last_safe_boundary :: "safe_boundary option"

definition initial_manual_pause :: manual_pause where
  "initial_manual_pause = \<lparr>mp_state = Mp_running, mp_availability = Unavailable, mp_sequence = 0,
     mp_last_safe_boundary = None\<rparr>"

definition changed_locked :: "manual_pause \<Rightarrow> manual_pause" where
  "changed_locked st = st\<lparr>mp_sequence := mp_sequence st + 1\<rparr>"

text \<open>A critical section: its answer, the snapshot it emits, the state it leaves.\<close>

type_synonym 'a critical = "manual_pause \<Rightarrow> 'a \<times> manual_pause option \<times> manual_pause"

definition finish_locked :: "'a \<Rightarrow> bool \<Rightarrow> manual_pause \<Rightarrow> 'a \<times> manual_pause option \<times> manual_pause" where
  "finish_locked answer notify st =
     (if notify then (answer, Some (changed_locked st), changed_locked st) else (answer, None, st))"

definition request_pause :: "bool critical" where
  "request_pause st =
     (if mp_state st \<noteq> Mp_running \<or> mp_availability st \<noteq> Available_at_safe_boundary
      then (False, None, st)
      else finish_locked True True (st\<lparr>mp_state := Pause_requested\<rparr>))"

definition resume_pause :: "bool critical" where
  "resume_pause st =
     (if mp_state st \<noteq> Pause_requested \<and> mp_state st \<noteq> Paused then (False, None, st)
      else finish_locked True True (st\<lparr>mp_state := Mp_running\<rparr>))"

definition request_cancel :: "bool critical" where
  "request_cancel st =
     (if mp_state st = Mp_completed \<or> mp_state st = Cancelling then (False, None, st)
      else finish_locked True True (st\<lparr>mp_state := Cancelling, mp_availability := Unavailable,
        mp_last_safe_boundary := None\<rparr>))"

definition mark_completed :: "unit critical" where
  "mark_completed st =
     (if mp_state st \<noteq> Mp_completed \<or> mp_availability st \<noteq> Unavailable \<or> mp_last_safe_boundary st \<noteq> None
      then finish_locked () True (st\<lparr>mp_state := Mp_completed, mp_availability := Unavailable,
        mp_last_safe_boundary := None\<rparr>)
      else ((), None, st))"

definition pause_cancellation_requested :: "manual_pause \<Rightarrow> bool" where
  "pause_cancellation_requested st \<longleftrightarrow> mp_state st = Cancelling"

definition observe_progress :: "operation_progress \<Rightarrow> unit critical" where
  "observe_progress progress st =
     (let next_availability =
        (if pr_pause_allowed progress then Available_at_safe_boundary else Unavailable)
      in
      if pr_stage progress = Completed then mark_completed st
      else if mp_state st \<noteq> Mp_completed \<and> mp_state st \<noteq> Cancelling then
        let notify = (mp_availability st \<noteq> next_availability);
            st = st\<lparr>mp_availability := next_availability\<rparr>
        in
        if \<not> pr_pause_allowed progress then
          let notify = (notify \<or> mp_last_safe_boundary st \<noteq> None \<or> mp_state st = Pause_requested);
              st = st\<lparr>mp_last_safe_boundary := None\<rparr>;
              st = (if mp_state st = Pause_requested then st\<lparr>mp_state := Mp_running\<rparr> else st)
          in finish_locked () notify st
        else finish_locked () notify st
      else ((), None, st))"

text \<open>
  The first critical section of \<open>wait_at_safe_boundary\<close>, with its early return.  The code compares
  the five fields of the boundary one by one.
\<close>

definition arrive_at_boundary :: "safe_boundary \<Rightarrow> control_decision option critical" where
  "arrive_at_boundary boundary st =
     (if mp_state st = Cancelling \<or> mp_state st = Mp_completed
      then (Some Cancel_operation, None, st)
      else
        let stale = (mp_availability st \<noteq> Available_at_safe_boundary \<or>
              mp_last_safe_boundary st \<noteq> Some boundary);
            st = (if stale then st\<lparr>mp_availability := Available_at_safe_boundary,
              mp_last_safe_boundary := Some boundary\<rparr> else st);
            pausing = (mp_state st = Pause_requested);
            st = (if pausing then st\<lparr>mp_state := Paused\<rparr> else st)
        in finish_locked None (stale \<or> pausing) st)"

text \<open>The test that its loop makes before and after it sleeps; \<open>None\<close>: still paused.\<close>

definition poll_pause :: "manual_pause \<Rightarrow> control_decision option" where
  "poll_pause st =
     (if mp_state st = Cancelling \<or> mp_state st = Mp_completed then Some Cancel_operation
      else if mp_state st \<noteq> Paused then Some Continue_operation
      else None)"

section \<open>The threads\<close>

text \<open>What the worker does once its notification is delivered.\<close>

datatype emission_return =
  Back_to_engine
| Into_loop
| With_decision control_decision

text \<open>
  Where the worker is: in the engine, or between two critical sections of its wait.  With
  \<open>Emitting\<close> it has left a critical section and its mutex, and has still to call the event callback.
\<close>

datatype pause_worker =
  Engine
| Arriving safe_boundary
| Emitting manual_pause emission_return
| Checking
| Asleep
| Probing
| Giving_up
| Decided control_decision

fun returned :: "emission_return \<Rightarrow> pause_worker" where
  "returned Back_to_engine = Engine"
| "returned Into_loop = Checking"
| "returned (With_decision d) = Decided d"

text \<open>
  \<open>ps_pending\<close> holds the notifications that other threads have made under the lock and not yet
  emitted, \<open>ps_published\<close> what the event callback has received, in the order it received it.
  \<open>ps_changes\<close> is a history variable that no step reads: the snapshots in the order of the lock.
\<close>

record pause_system =
  ps_controller :: manual_pause
  ps_worker :: pause_worker
  ps_pending :: "manual_pause list"
  ps_published :: "manual_pause list"
  ps_changes :: "manual_pause list"

definition initial_pause_system :: pause_system where
  "initial_pause_system =
     \<lparr>ps_controller = initial_manual_pause, ps_worker = Engine, ps_pending = [], ps_published = [],
      ps_changes = []\<rparr>"

definition notified :: "'a critical \<Rightarrow> pause_system \<Rightarrow> manual_pause list" where
  "notified section sys =
     (case section (ps_controller sys) of (answer, notification, st) \<Rightarrow>
        case notification of None \<Rightarrow> [] | Some n \<Rightarrow> [n])"

text \<open>One critical section, from taking the lock to releasing it: nothing is emitted in it.\<close>

definition locked :: "'a critical \<Rightarrow> pause_system \<Rightarrow> pause_system" where
  "locked section sys =
     (case section (ps_controller sys) of (answer, notification, st) \<Rightarrow>
        sys\<lparr>ps_controller := st, ps_changes := ps_changes sys @ notified section sys\<rparr>)"

text \<open>The section of another thread, and of the worker; each leaves its notification to be emitted.\<close>

definition requested :: "'a critical \<Rightarrow> pause_system \<Rightarrow> pause_system" where
  "requested section sys = (locked section sys)\<lparr>ps_pending := ps_pending sys @ notified section sys\<rparr>"

definition performed :: "'a critical \<Rightarrow> emission_return \<Rightarrow> pause_system \<Rightarrow> pause_system" where
  "performed section r sys = (locked section sys)\<lparr>ps_worker :=
     (case notified section sys of [] \<Rightarrow> returned r | n # _ \<Rightarrow> Emitting n r)\<rparr>"

definition emitted :: "manual_pause \<Rightarrow> pause_system \<Rightarrow> pause_system" where
  "emitted n sys = sys\<lparr>ps_published := ps_published sys @ [n]\<rparr>"

definition after_poll :: "pause_worker \<Rightarrow> pause_system \<Rightarrow> pause_system" where
  "after_poll otherwise sys =
     sys\<lparr>ps_worker := (case poll_pause (ps_controller sys) of Some d \<Rightarrow> Decided d | None \<Rightarrow> otherwise)\<rparr>"

datatype pause_action =
  Ui_pause | Ui_resume | Ui_cancel | Ui_complete | Ui_emit manual_pause
| Worker_progress operation_progress
| Worker_boundary safe_boundary
| Worker_step

text \<open>
  Any thread may run the four methods of the user interface, and any of the notifications that are
  pending may be the next to be delivered.  The rules of the worker that ask the external cancellation probe have two outcomes, as the probe
  may answer anything.  The sleep may end at any time: it has a timeout.
\<close>

inductive pause_step :: "pause_system \<Rightarrow> pause_action \<Rightarrow> pause_system \<Rightarrow> bool" where
  pause: "pause_step sys Ui_pause (requested request_pause sys)"
| resume: "pause_step sys Ui_resume (requested resume_pause sys)"
| cancel: "pause_step sys Ui_cancel (requested request_cancel sys)"
| complete: "pause_step sys Ui_complete (requested mark_completed sys)"
| emit_other: "n \<in> set (ps_pending sys) \<Longrightarrow>
    pause_step sys (Ui_emit n) ((emitted n sys)\<lparr>ps_pending := remove1 n (ps_pending sys)\<rparr>)"
| progress: "ps_worker sys = Engine \<Longrightarrow>
    pause_step sys (Worker_progress p) (performed (observe_progress p) Back_to_engine sys)"
| boundary: "ps_worker sys = Engine \<Longrightarrow>
    pause_step sys (Worker_boundary b) (sys\<lparr>ps_worker := Arriving b\<rparr>)"
| boundary_cancelled: "ps_worker sys = Engine \<Longrightarrow>
    pause_step sys (Worker_boundary b) (sys\<lparr>ps_worker := Giving_up\<rparr>)"
| arrive: "ps_worker sys = Arriving b \<Longrightarrow>
    pause_step sys Worker_step (performed (arrive_at_boundary b)
      (case fst (arrive_at_boundary b (ps_controller sys)) of
         Some d \<Rightarrow> With_decision d | None \<Rightarrow> Into_loop) sys)"
| emit: "ps_worker sys = Emitting n r \<Longrightarrow>
    pause_step sys Worker_step ((emitted n sys)\<lparr>ps_worker := returned r\<rparr>)"
| check: "ps_worker sys = Checking \<Longrightarrow> pause_step sys Worker_step (after_poll Asleep sys)"
| wake: "ps_worker sys = Asleep \<Longrightarrow> pause_step sys Worker_step (after_poll Probing sys)"
| probe: "ps_worker sys = Probing \<Longrightarrow> pause_step sys Worker_step (sys\<lparr>ps_worker := Checking\<rparr>)"
| probe_cancelled: "ps_worker sys = Probing \<Longrightarrow>
    pause_step sys Worker_step (sys\<lparr>ps_worker := Giving_up\<rparr>)"
| give_up: "ps_worker sys = Giving_up \<Longrightarrow>
    pause_step sys Worker_step (performed request_cancel (With_decision Cancel_operation) sys)"
| proceed: "ps_worker sys = Decided Continue_operation \<Longrightarrow>
    pause_step sys Worker_step (sys\<lparr>ps_worker := Engine\<rparr>)"

inductive_cases pause_stepE: "pause_step sys a sys'"
inductive_simps worker_step_simps: "pause_step sys Worker_step sys'"

inductive pause_reachable :: "pause_system \<Rightarrow> bool" where
  start: "pause_reachable initial_pause_system"
| step: "pause_reachable sys \<Longrightarrow> pause_step sys a sys' \<Longrightarrow> pause_reachable sys'"

section \<open>Invariant\<close>

lemmas critical_defs = request_pause_def resume_pause_def request_cancel_def mark_completed_def
  observe_progress_def arrive_at_boundary_def finish_locked_def changed_locked_def Let_def

text \<open>
  A pause is only ever requested or in force while it is available, the operation's end and its
  cancellation clear everything, and while the controller is paused the worker is in its wait.
\<close>

definition controller_ok :: "manual_pause \<Rightarrow> bool" where
  "controller_ok st \<longleftrightarrow>
     (mp_state st \<in> {Pause_requested, Paused} \<longrightarrow> mp_availability st = Available_at_safe_boundary) \<and>
     (mp_last_safe_boundary st \<noteq> None \<longrightarrow> mp_availability st = Available_at_safe_boundary) \<and>
     (mp_state st = Paused \<longrightarrow> mp_last_safe_boundary st \<noteq> None) \<and>
     (mp_state st \<in> {Cancelling, Mp_completed} \<longrightarrow> mp_availability st = Unavailable)"

definition waiting :: "pause_worker \<Rightarrow> bool" where
  "waiting w \<longleftrightarrow> w \<in> {Checking, Asleep, Probing, Giving_up} \<or> (\<exists>n. w = Emitting n Into_loop)"

text \<open>The notifications that have been made and not yet emitted.\<close>

definition outstanding :: "pause_system \<Rightarrow> manual_pause list" where
  "outstanding sys = ps_pending sys @ (case ps_worker sys of Emitting n r \<Rightarrow> [n] | _ \<Rightarrow> [])"

text \<open>
  The history has every snapshot under its own number and ends with the current state, and each of
  them has been delivered or is outstanding: in which order, the threads decide.
\<close>

definition history_ok :: "manual_pause list \<Rightarrow> manual_pause \<Rightarrow> bool" where
  "history_ok changes st \<longleftrightarrow>
     mp_sequence st = of_nat (length changes) \<and> st = last (initial_manual_pause # changes) \<and>
     map mp_sequence changes = map of_nat [1 ..< Suc (length changes)] \<and> list_all controller_ok changes"

definition pause_inv :: "pause_system \<Rightarrow> bool" where
  "pause_inv sys \<longleftrightarrow>
     controller_ok (ps_controller sys) \<and>
     (mp_state (ps_controller sys) = Paused \<longrightarrow> waiting (ps_worker sys)) \<and>
     history_ok (ps_changes sys) (ps_controller sys) \<and>
     mset (ps_published sys) + mset (outstanding sys) = mset (ps_changes sys)"

text \<open>What every critical section does: it keeps the invariant, and it notifies of every change.\<close>

definition sound_section :: "'a critical \<Rightarrow> manual_pause \<Rightarrow> bool" where
  "sound_section section st \<longleftrightarrow>
     (case section st of (answer, notification, st') \<Rightarrow>
        controller_ok st' \<and>
        (case notification of
           None \<Rightarrow> st' = st
         | Some n \<Rightarrow> n = st' \<and> mp_sequence st' = mp_sequence st + 1))"

lemma sound_finish:
  "controller_ok st' \<Longrightarrow> (\<not> notify \<Longrightarrow> st' = st) \<Longrightarrow> mp_sequence st' = mp_sequence st \<Longrightarrow>
   section st = finish_locked answer notify st' \<Longrightarrow> sound_section section st"
  by (cases notify) (simp_all add: sound_section_def finish_locked_def changed_locked_def controller_ok_def)

lemma sound_arrival:
  assumes "controller_ok st"
  shows "sound_section (arrive_at_boundary b) st"
proof (cases "mp_state st \<in> {Cancelling, Mp_completed}")
  case True
  then show ?thesis using assms by (auto simp: sound_section_def arrive_at_boundary_def)
next
  case False
  let ?stale = "mp_availability st \<noteq> Available_at_safe_boundary \<or> mp_last_safe_boundary st \<noteq> Some b"
  let ?st = "if ?stale then st\<lparr>mp_availability := Available_at_safe_boundary, mp_last_safe_boundary := Some b\<rparr> else st"
  let ?st' = "if mp_state ?st = Pause_requested then ?st\<lparr>mp_state := Paused\<rparr> else ?st"
  have "arrive_at_boundary b st = finish_locked None (?stale \<or> mp_state ?st = Pause_requested) ?st'"
    using False by (simp add: arrive_at_boundary_def Let_def)
  moreover have "controller_ok ?st'" using assms False by (simp add: controller_ok_def)
  ultimately show ?thesis by (intro sound_finish) auto
qed

lemma sound_observation:
  assumes "controller_ok st" "mp_state st \<noteq> Paused" "sound_section mark_completed st"
  shows "sound_section (observe_progress p) st"
proof (cases "pr_stage p = Completed \<or> mp_state st \<in> {Cancelling, Mp_completed}")
  case True
  then show ?thesis using assms by (auto simp: sound_section_def observe_progress_def)
next
  case False
  show ?thesis
  proof (cases "pr_pause_allowed p")
    case True
    then have "observe_progress p st = finish_locked () (mp_availability st \<noteq> Available_at_safe_boundary)
        (st\<lparr>mp_availability := Available_at_safe_boundary\<rparr>)"
      using False by (simp add: observe_progress_def Let_def)
    then show ?thesis using assms False by (intro sound_finish) (auto simp: controller_ok_def)
  next
    case forbidden: False
    let ?st = "st\<lparr>mp_availability := Unavailable, mp_last_safe_boundary := None,
      mp_state := if mp_state st = Pause_requested then Mp_running else mp_state st\<rparr>"
    have "observe_progress p st = finish_locked () (mp_availability st \<noteq> Unavailable \<or>
        mp_last_safe_boundary st \<noteq> None \<or> mp_state st = Pause_requested) ?st"
      using False forbidden by (simp add: observe_progress_def Let_def)
    then show ?thesis using assms(1,2) False by (intro sound_finish) (auto simp: controller_ok_def)
  qed
qed

lemma sound_requests:
  assumes "controller_ok st"
  shows "sound_section request_pause st" "sound_section request_cancel st" "sound_section mark_completed st"
    "sound_section resume_pause st"
  using assms
  by (auto simp: sound_section_def controller_ok_def request_pause_def request_cancel_def
      mark_completed_def resume_pause_def finish_locked_def changed_locked_def)

lemma history_snoc:
  "history_ok changes st \<Longrightarrow> mp_sequence st' = mp_sequence st + 1 \<Longrightarrow> controller_ok st' \<Longrightarrow>
   history_ok (changes @ [st']) st'"
  by (auto simp: history_ok_def add.commute initial_manual_pause_def)

lemma locked_simps [simp]:
  "ps_controller (locked section sys) = snd (snd (section (ps_controller sys)))"
  "ps_worker (locked section sys) = ps_worker sys"
  "ps_pending (locked section sys) = ps_pending sys"
  "ps_published (locked section sys) = ps_published sys"
  "ps_changes (locked section sys) = ps_changes sys @ notified section sys"
  by (simp_all add: locked_def split: prod.split)

lemma requested_simps [simp]:
  "ps_controller (requested section sys) = snd (snd (section (ps_controller sys)))"
  "ps_worker (requested section sys) = ps_worker sys"
  by (simp_all add: requested_def)

lemma performed_controller [simp]:
  "ps_controller (performed section r sys) = snd (snd (section (ps_controller sys)))"
  by (simp add: performed_def)

lemma performed_worker:
  "ps_worker (performed section r sys) \<in> {returned r} \<union> range (\<lambda>n. Emitting n r)"
  by (auto simp: performed_def split: list.split)

lemma notified_single: "notified section sys = [] \<or> (\<exists>n. notified section sys = [n])"
  by (simp add: notified_def split: prod.split option.split)

lemma locked_history:
  assumes "history_ok (ps_changes sys) (ps_controller sys)" "sound_section section (ps_controller sys)"
  shows "history_ok (ps_changes (locked section sys)) (ps_controller (locked section sys))"
    "controller_ok (ps_controller (locked section sys))"
  using assms
  by (auto simp: sound_section_def notified_def intro!: history_snoc split: prod.splits option.splits)

definition unsent :: "pause_worker \<Rightarrow> manual_pause list" where
  "unsent w = (case w of Emitting n r \<Rightarrow> [n] | _ \<Rightarrow> [])"

lemma unsent_simps [simp]:
  "unsent Engine = []" "unsent (Arriving b) = []" "unsent (Emitting n r) = [n]" "unsent Checking = []"
  "unsent Asleep = []" "unsent Probing = []" "unsent Giving_up = []" "unsent (Decided d) = []"
  "unsent (returned r) = []"
  by (simp_all add: unsent_def) (cases r; simp)

text \<open>The invariant, by the parts of the state it depends on.\<close>

lemma pause_inv_alt:
  "pause_inv sys \<longleftrightarrow>
     controller_ok (ps_controller sys) \<and>
     (mp_state (ps_controller sys) = Paused \<longrightarrow> waiting (ps_worker sys)) \<and>
     history_ok (ps_changes sys) (ps_controller sys) \<and>
     mset (ps_published sys) + (mset (ps_pending sys) + mset (unsent (ps_worker sys))) = mset (ps_changes sys)"
  by (simp add: pause_inv_def outstanding_def unsent_def)

lemma requested_inv:
  assumes inv: "pause_inv sys" and ok: "sound_section section (ps_controller sys)"
    and "mp_state (ps_controller (requested section sys)) = Paused \<Longrightarrow> mp_state (ps_controller sys) = Paused"
  shows "pause_inv (requested section sys)"
  using inv assms(3) locked_history [OF _ ok] unfolding pause_inv_alt requested_def by (auto simp: ac_simps)

lemma performed_inv:
  assumes inv: "pause_inv sys" and ok: "sound_section section (ps_controller sys)"
    and idle: "unsent (ps_worker sys) = []"
    and r: "mp_state (ps_controller (performed section r sys)) = Paused \<Longrightarrow> r = Into_loop"
  shows "pause_inv (performed section r sys)"
proof -
  have "unsent (ps_worker (performed section r sys)) = notified section sys"
    using notified_single [of "section" sys] by (auto simp: performed_def)
  moreover have "mp_state (ps_controller (performed section r sys)) = Paused \<Longrightarrow>
      waiting (ps_worker (performed section r sys))"
    using r performed_worker [of "section" r sys] by (auto simp: waiting_def)
  moreover have "ps_pending (performed section r sys) = ps_pending sys"
    "ps_published (performed section r sys) = ps_published sys"
    "ps_changes (performed section r sys) = ps_changes sys @ notified section sys"
    by (simp_all add: performed_def)
  ultimately show ?thesis
    using inv idle locked_history [OF _ ok] unfolding pause_inv_alt by (simp add: ac_simps)
qed

lemma emitted_other_inv:
  assumes "pause_inv sys" "n \<in> set (ps_pending sys)"
  shows "pause_inv ((emitted n sys)\<lparr>ps_pending := remove1 n (ps_pending sys)\<rparr>)"
proof -
  obtain rest where "mset (ps_pending sys) = add_mset n rest"
    using assms(2) by (metis mset_add set_mset_mset)
  then show ?thesis using assms(1) unfolding pause_inv_alt emitted_def by simp
qed

lemma emitted_inv:
  assumes "pause_inv sys" "ps_worker sys = Emitting n r"
  shows "pause_inv ((emitted n sys)\<lparr>ps_worker := returned r\<rparr>)"
  using assms unfolding pause_inv_alt emitted_def
  by (cases r) (simp_all add: waiting_def)

lemma paused_sections:
  "mp_state (snd (snd (request_pause st))) = Paused \<Longrightarrow> mp_state st = Paused"
  "mp_state (snd (snd (resume_pause st))) = Paused \<Longrightarrow> mp_state st = Paused"
  "mp_state (snd (snd (request_cancel st))) \<noteq> Paused \<or> mp_state st = Paused"
  "mp_state (snd (snd (mark_completed st))) = Paused \<Longrightarrow> mp_state st = Paused"
  "mp_state (snd (snd (observe_progress p st))) = Paused \<Longrightarrow> mp_state st = Paused"
  by (auto simp: critical_defs split: if_splits)

lemma poll_paused: "poll_pause st = None \<longleftrightarrow> mp_state st = Paused"
  by (simp add: poll_pause_def)

lemma pause_invD:
  assumes "pause_inv sys"
  shows "controller_ok (ps_controller sys)" "mp_state (ps_controller sys) = Paused \<Longrightarrow> waiting (ps_worker sys)"
  using assms by (simp_all add: pause_inv_def)

lemma worker_inv:
  "pause_inv sys \<Longrightarrow> (mp_state (ps_controller sys) = Paused \<Longrightarrow> waiting w) \<Longrightarrow>
   unsent (ps_worker sys) = [] \<Longrightarrow> unsent w = [] \<Longrightarrow> pause_inv (sys\<lparr>ps_worker := w\<rparr>)"
  by (simp add: pause_inv_alt)

lemma after_poll_inv:
  "pause_inv sys \<Longrightarrow> waiting w \<Longrightarrow> unsent (ps_worker sys) = [] \<Longrightarrow> unsent w = [] \<Longrightarrow>
   pause_inv (after_poll w sys)"
  unfolding after_poll_def by (rule worker_inv) (auto simp: poll_pause_def split: option.split)

lemma pause_step_inv:
  assumes step: "pause_step sys a sys'" and inv: "pause_inv sys"
  shows "pause_inv sys'"
proof -
  note st = pause_invD(1) [OF inv]
  note ok = sound_requests(1,2,3,4) [OF st] sound_arrival [OF st] sound_observation [OF st _ sound_requests(3) [OF st]]
  note busy = pause_invD(2) [OF inv]
  from step show ?thesis
  proof cases
    case pause
    then show ?thesis using requested_inv [OF inv ok(1)] paused_sections(1) by simp
  next
    case resume
    then show ?thesis using requested_inv [OF inv ok(4)] paused_sections(2) by simp
  next
    case cancel
    then show ?thesis using requested_inv [OF inv ok(2)] paused_sections(3) by auto
  next
    case complete
    then show ?thesis using requested_inv [OF inv ok(3)] paused_sections(4) by simp
  next
    case (emit_other n)
    then show ?thesis using emitted_other_inv [OF inv] by simp
  next
    case (emit n r)
    then show ?thesis using emitted_inv [OF inv] by simp
  next
    case (progress p)
    then have run: "mp_state (ps_controller sys) \<noteq> Paused" using busy by (auto simp: waiting_def)
    show ?thesis unfolding progress(2)
      by (rule performed_inv [OF inv ok(6) [OF run]]) (use progress run paused_sections(5) in auto)
  next
    case (arrive b)
    have "fst (arrive_at_boundary b (ps_controller sys)) = None"
      if "mp_state (snd (snd (arrive_at_boundary b (ps_controller sys)))) = Paused"
      using that by (auto simp: arrive_at_boundary_def finish_locked_def Let_def)
    then show ?thesis
      unfolding arrive(2) using performed_inv [OF inv ok(5)] arrive by simp
  next
    case give_up
    have "mp_state (snd (snd (request_cancel (ps_controller sys)))) \<noteq> Paused"
      by (auto simp: critical_defs)
    then show ?thesis
      unfolding give_up(2) using performed_inv [OF inv ok(2)] give_up by (simp add: outstanding_def)
  qed (use inv busy in \<open>auto intro!: worker_inv after_poll_inv simp: waiting_def\<close>)
qed

lemma reachable_inv: "pause_reachable sys \<Longrightarrow> pause_inv sys"
proof (induction rule: pause_reachable.induct)
  case start
  show ?case
    by (simp add: pause_inv_def initial_pause_system_def initial_manual_pause_def controller_ok_def
        history_ok_def outstanding_def)
qed (rule pause_step_inv)

section \<open>Binding a controller to an operation\<close>

text \<open>
  A controller that lives in the world of the operation, by its methods as the adapters call them.
  \<open>ph_wait\<close> is the outcome of a wait that returns, with whatever the other threads did meanwhile.
\<close>

record 's pause_handle =
  ph_observe_progress :: "operation_progress \<Rightarrow> 's \<Rightarrow> 's"
  ph_cancellation_requested :: "'s \<Rightarrow> bool"
  ph_request_cancel :: "'s \<Rightarrow> 's"
  ph_wait_at_safe_boundary :: "safe_boundary \<Rightarrow> ('s, bool) observer option \<Rightarrow> 's \<Rightarrow> control_decision \<times> 's"

text \<open>The cancellation and boundary callbacks, which the two adapters define alike.\<close>

definition bound_cancellation :: "'s pause_handle \<Rightarrow> ('s, bool) observer option \<Rightarrow> ('s, bool) observer" where
  "bound_cancellation h existing s =
     (if ph_cancellation_requested h s then (Some True, s)
      else
        case existing of
          None \<Rightarrow> (Some False, s)
        | Some f \<Rightarrow>
          (case f s of (answer, t) \<Rightarrow>
            let requested = (case answer of None \<Rightarrow> True | Some b \<Rightarrow> b)
            in (Some requested, if requested then ph_request_cancel h t else t)))"

definition bound_safe_boundary ::
  "'s pause_handle \<Rightarrow> ('s, bool) observer option \<Rightarrow> (safe_boundary \<Rightarrow> ('s, control_decision) observer) option \<Rightarrow>
   safe_boundary \<Rightarrow> ('s, control_decision) observer" where
  "bound_safe_boundary h existing_cancellation existing boundary s =
     (case ph_wait_at_safe_boundary h boundary existing_cancellation s of (decision, t) \<Rightarrow>
        if decision = Cancel_operation then (Some decision, t)
        else
          case existing of
            None \<Rightarrow> (Some Continue_operation, t)
          | Some f \<Rightarrow>
            (case f boundary t of
               (None, u) \<Rightarrow> (Some Cancel_operation, ph_request_cancel h u)
             | (Some d, u) \<Rightarrow> (Some d, if d = Cancel_operation then ph_request_cancel h u else u)))"

definition bind_manual_pause_controller ::
  "'s operation_callbacks \<Rightarrow> 's pause_handle option \<Rightarrow> 's operation_callbacks" where
  "bind_manual_pause_controller callbacks controller =
     (case controller of
        None \<Rightarrow> callbacks
      | Some h \<Rightarrow>
        \<lparr>cb_progress = Some (\<lambda>progress s.
           case cb_progress callbacks of
             None \<Rightarrow> (Some (), ph_observe_progress h progress s)
           | Some f \<Rightarrow> f progress (ph_observe_progress h progress s)),
         cb_cancellation_requested = Some (bound_cancellation h (cb_cancellation_requested callbacks)),
         cb_safe_boundary = Some (bound_safe_boundary h (cb_cancellation_requested callbacks)
           (cb_safe_boundary callbacks))\<rparr>)"

definition rescue_stage :: "rescue_copy_phase \<Rightarrow> disk_operation_stage" where
  "rescue_stage phase =
     (case phase of
        Validating \<Rightarrow> Verifying_source
      | Forward_read \<Rightarrow> Copying_data
      | Reverse_retry \<Rightarrow> Copying_data
      | Sector_retry \<Rightarrow> Copying_data
      | Flushing \<Rightarrow> Flushing_data
      | Rescue_completed \<Rightarrow> Completed)"

definition rescue_operation_progress :: "rescue_copy_progress \<Rightarrow> operation_progress" where
  "rescue_operation_progress p =
     \<lparr>pr_stage = rescue_stage (rp_phase p), pr_partition_index = None,
      pr_total_read_bytes = rp_source_extent_bytes p, pr_total_write_bytes = rp_source_extent_bytes p,
      pr_total_verify_bytes = rp_source_extent_bytes p, pr_read_bytes = rp_settled_target_bytes p,
      pr_written_bytes = rp_settled_target_bytes p, pr_verified_bytes = rp_settled_target_bytes p,
      pr_cancellation_allowed = rp_cancellation_allowed p, pr_pause_allowed = rp_pause_allowed p\<rparr>"

definition bind_rescue_pause_controller ::
  "'s rescue_copy_callbacks \<Rightarrow> 's pause_handle option \<Rightarrow> 's rescue_copy_callbacks" where
  "bind_rescue_pause_controller callbacks controller =
     (case controller of
        None \<Rightarrow> callbacks
      | Some h \<Rightarrow>
        \<lparr>rc_progress = Some (\<lambda>progress s.
           case rc_progress callbacks of
             None \<Rightarrow> (Some (), ph_observe_progress h (rescue_operation_progress progress) s)
           | Some f \<Rightarrow> f progress (ph_observe_progress h (rescue_operation_progress progress) s)),
         rc_cancellation_requested = Some (bound_cancellation h (rc_cancellation_requested callbacks)),
         rc_safe_boundary = Some (bound_safe_boundary h (rc_cancellation_requested callbacks)
           (rc_safe_boundary callbacks))\<rparr>)"

section \<open>Cancellation is final\<close>

definition ended :: "manual_pause \<Rightarrow> bool" where
  "ended st \<longleftrightarrow> mp_state st \<in> {Cancelling, Mp_completed}"

lemma ended_sections:
  assumes "ended st"
  shows "ended (snd (snd (request_pause st)))" "ended (snd (snd (resume_pause st)))"
    "ended (snd (snd (request_cancel st)))" "ended (snd (snd (mark_completed st)))"
    "ended (snd (snd (observe_progress p st)))" "ended (snd (snd (arrive_at_boundary b st)))"
    "fst (arrive_at_boundary b st) = Some Cancel_operation" "poll_pause st = Some Cancel_operation"
  using assms
  by (auto simp: ended_def request_pause_def resume_pause_def request_cancel_def mark_completed_def
      observe_progress_def arrive_at_boundary_def poll_pause_def finish_locked_def changed_locked_def Let_def)

text \<open>The worker has been told to go on and has not yet returned to the engine.\<close>

definition past_decision :: "pause_worker \<Rightarrow> bool" where
  "past_decision w \<longleftrightarrow> w = Decided Continue_operation \<or> (\<exists>n. w = Emitting n (With_decision Continue_operation))"

lemma emitted_simps [simp]:
  "ps_controller (emitted n sys) = ps_controller sys" "ps_worker (emitted n sys) = ps_worker sys"
  by (simp_all add: emitted_def)

lemma past_decision_performed:
  "r \<noteq> With_decision Continue_operation \<Longrightarrow> \<not> past_decision (ps_worker (performed section r sys))"
  using performed_worker [of "section" r sys] by (cases r) (auto simp: past_decision_def)

lemma ended_step:
  assumes "pause_step sys a sys'" "ended (ps_controller sys)" "\<not> past_decision (ps_worker sys)"
  shows "ended (ps_controller sys') \<and> \<not> past_decision (ps_worker sys')"
  using assms
proof cases
  case (emit n r)
  then show ?thesis using assms(2,3) by (cases r) (auto simp: past_decision_def)
qed (auto simp: ended_sections after_poll_def past_decision_performed,
  auto simp: past_decision_def)

section \<open>The wait ends\<close>

text \<open>
  How many critical sections, probes and emissions a waiting worker is away from its decision when
  it is not paused.
\<close>

fun wait_rank :: "pause_worker \<Rightarrow> nat" where
  "wait_rank Engine = 0"
| "wait_rank (Decided d) = 0"
| "wait_rank (Arriving b) = 3"
| "wait_rank (Emitting n Into_loop) = 2"
| "wait_rank (Emitting n r) = 1"
| "wait_rank Probing = 3"
| "wait_rank Checking = 1"
| "wait_rank Asleep = 1"
| "wait_rank Giving_up = 2"

lemma worker_step_enabled:
  assumes "0 < wait_rank (ps_worker sys)"
  shows "\<exists>sys'. pause_step sys Worker_step sys'"
  using assms by (cases "ps_worker sys") (auto simp: worker_step_simps)

lemma worker_step_rank:
  assumes "pause_step sys Worker_step sys'" "0 < wait_rank (ps_worker sys)"
    "mp_state (ps_controller sys) \<notin> {Pause_requested, Paused}"
  shows "wait_rank (ps_worker sys') < wait_rank (ps_worker sys)"
    "mp_state (ps_controller sys') \<notin> {Pause_requested, Paused}"
proof -
  have quiet: "fst (arrive_at_boundary b (ps_controller sys)) \<in> {None, Some Cancel_operation}" for b
    by (simp add: arrive_at_boundary_def finish_locked_def Let_def)
  have run: "mp_state (snd (snd (arrive_at_boundary b (ps_controller sys)))) \<notin> {Pause_requested, Paused}"
    "mp_state (snd (snd (request_cancel (ps_controller sys)))) \<notin> {Pause_requested, Paused}" for b
    using assms(3) by (auto simp: arrive_at_boundary_def request_cancel_def finish_locked_def changed_locked_def Let_def)
  from assms(1) show "mp_state (ps_controller sys') \<notin> {Pause_requested, Paused}"
    by cases (use assms(3) run in \<open>auto simp: after_poll_def\<close>)
  from assms(1) show "wait_rank (ps_worker sys') < wait_rank (ps_worker sys)"
  proof cases
    case (arrive b)
    from quiet [of b] obtain r where "sys' = performed (arrive_at_boundary b) r sys"
        "r \<in> {Into_loop, With_decision Cancel_operation}"
      unfolding arrive(1) by (auto simp del: insert_iff) auto
    then show ?thesis
      using performed_worker [of "arrive_at_boundary b" r sys] arrive(2) by auto
  next
    case (emit n r)
    then show ?thesis by (cases r) auto
  next
    case give_up
    then show ?thesis using performed_worker [of request_cancel "With_decision Cancel_operation" sys] by auto
  qed (use assms(2,3) in \<open>auto simp: after_poll_def poll_pause_def split: if_splits\<close>)
qed

section \<open>Properties\<close>

text \<open>
  C36. Whatever the threads do, a pause is requested or in force only while the operation allows it at
  a safe boundary, and the end of the operation and its cancellation clear the pause.  Every change
  of the controller is numbered in the order of the lock and notified exactly once: what the event
  callback has received and what is still to be emitted are the changes made so far, in whatever
  order the threads emit, and once nothing is left to emit the current state has been received.
\<close>

theorem manual_pause_invariant:
  assumes "pause_reachable sys"
  shows "(mp_state (ps_controller sys) \<in> {Pause_requested, Paused} \<longrightarrow>
       mp_availability (ps_controller sys) = Available_at_safe_boundary) \<and>
    (mp_state (ps_controller sys) = Paused \<longrightarrow> mp_last_safe_boundary (ps_controller sys) \<noteq> None) \<and>
    (mp_state (ps_controller sys) \<in> {Cancelling, Mp_completed} \<longrightarrow>
       mp_availability (ps_controller sys) = Unavailable \<and> mp_last_safe_boundary (ps_controller sys) = None) \<and>
    ps_controller sys = last (initial_manual_pause # ps_changes sys) \<and>
    map mp_sequence (ps_changes sys) = map of_nat [1 ..< Suc (length (ps_changes sys))] \<and>
    mp_sequence (ps_controller sys) = of_nat (length (ps_changes sys)) \<and>
    mset (ps_published sys) + mset (outstanding sys) = mset (ps_changes sys) \<and>
    (outstanding sys = [] \<longrightarrow> ps_controller sys \<in> insert initial_manual_pause (set (ps_published sys)))"
proof -
  note inv = reachable_inv [OF assms]
  have "set (ps_published sys) = set (ps_changes sys)" if "outstanding sys = []"
    using inv that mset_eq_setD [of "ps_published sys" "ps_changes sys"] by (simp add: pause_inv_def)
  moreover have "ps_controller sys = last (initial_manual_pause # ps_changes sys)"
    using inv by (simp add: pause_inv_def history_ok_def)
  ultimately have "ps_controller sys \<in> insert initial_manual_pause (set (ps_published sys))"
    if "outstanding sys = []"
    using that by simp
  moreover have "(mp_state (ps_controller sys) \<in> {Pause_requested, Paused} \<longrightarrow>
       mp_availability (ps_controller sys) = Available_at_safe_boundary) \<and>
    (mp_state (ps_controller sys) = Paused \<longrightarrow> mp_last_safe_boundary (ps_controller sys) \<noteq> None) \<and>
    (mp_state (ps_controller sys) \<in> {Cancelling, Mp_completed} \<longrightarrow>
       mp_availability (ps_controller sys) = Unavailable \<and> mp_last_safe_boundary (ps_controller sys) = None)"
    using pause_invD(1) [OF inv] by (auto simp: controller_ok_def)
  ultimately show ?thesis using inv unfolding pause_inv_def history_ok_def by blast
qed

definition example_boundary :: safe_boundary where
  "example_boundary = \<lparr>sb_kind = Verified_chunk, sb_stage = Copying_data, sb_partition_index = None,
     sb_completed_bytes = 4096, sb_completed_units = 1\<rparr>"

definition example_progress :: operation_progress where
  "example_progress = initial_progress\<lparr>pr_stage := Copying_data, pr_pause_allowed := True\<rparr>"

text \<open>
  The worker reports progress and leaves the lock; before it emits, the user interface asks for a
  pause and emits its own notification first.
\<close>

definition example_overtaken :: pause_system where
  "example_overtaken =
     (let sys = requested request_pause (performed (observe_progress example_progress) Back_to_engine
            initial_pause_system)
      in (emitted (ps_controller sys) sys)\<lparr>ps_pending := []\<rparr>)"

definition example_delivered :: pause_system where
  "example_delivered = (emitted (hd (ps_changes example_overtaken)) example_overtaken)\<lparr>ps_worker := Engine\<rparr>"

text \<open>The worker then comes to a boundary, where it finds the request and pauses.\<close>

definition example_paused :: pause_system where
  "example_paused =
     (let sys = performed (arrive_at_boundary example_boundary) Into_loop
            (example_delivered\<lparr>ps_worker := Arriving example_boundary\<rparr>)
      in (emitted (ps_controller sys) sys)\<lparr>ps_worker := Checking\<rparr>)"

lemmas example_pause_defs = example_paused_def example_delivered_def example_overtaken_def
  example_progress_def initial_pause_system_def initial_manual_pause_def initial_progress_def
  requested_def performed_def emitted_def notified_def locked_def critical_defs

lemma example_delivered_reachable: "pause_reachable example_delivered"
proof -
  let ?a = "performed (observe_progress example_progress) Back_to_engine initial_pause_system"
  let ?b = "requested request_pause ?a"
  have "pause_reachable ?a"
    by (rule pause_reachable.step [OF pause_reachable.start pause_step.progress])
      (simp add: initial_pause_system_def)
  then have "pause_reachable ?b" by (rule pause_reachable.step [OF _ pause_step.pause])
  moreover have "pause_step ?b (Ui_emit (ps_controller ?b)) example_overtaken"
    using pause_step.emit_other [of "ps_controller ?b" ?b] by (simp add: example_pause_defs)
  ultimately have "pause_reachable example_overtaken" by (rule pause_reachable.step)
  moreover have "pause_step example_overtaken Worker_step example_delivered"
    using pause_step.emit [of example_overtaken "hd (ps_changes example_overtaken)" Back_to_engine]
    by (simp add: example_pause_defs)
  ultimately show ?thesis by (rule pause_reachable.step)
qed

lemma example_paused_reachable: "pause_reachable example_paused"
proof -
  let ?c = "example_delivered\<lparr>ps_worker := Arriving example_boundary\<rparr>"
  let ?d = "performed (arrive_at_boundary example_boundary) Into_loop ?c"
  have "pause_reachable ?c"
    by (rule pause_reachable.step [OF example_delivered_reachable pause_step.boundary])
      (simp add: example_delivered_def)
  moreover have "pause_step ?c Worker_step ?d"
    using pause_step.arrive [of ?c example_boundary] by (simp add: example_pause_defs)
  ultimately have "pause_reachable ?d" by (rule pause_reachable.step)
  moreover have "pause_step ?d Worker_step example_paused"
    using pause_step.emit [of ?d "ps_controller ?d" Into_loop] by (simp add: example_pause_defs)
  ultimately show ?thesis by (rule pause_reachable.step)
qed

lemma example_paused_state [simp]:
  "mp_state (ps_controller example_paused) = Paused" "ps_worker example_paused = Checking"
  by (simp_all add: example_pause_defs)

text \<open>
  The event callback may receive the snapshots out of order, as here, where the last one delivered
  is older than the controller: a user interface has to go by the sequence numbers or by
  \<open>snapshot\<close>.
\<close>

lemma notifications_can_overtake:
  "pause_reachable example_delivered \<and> outstanding example_delivered = [] \<and>
   map mp_sequence (ps_published example_delivered) = [2, 1] \<and>
   mp_state (last (ps_published example_delivered)) = Mp_running \<and>
   mp_state (ps_controller example_delivered) = Pause_requested"
  using example_delivered_reachable by (simp add: example_pause_defs outstanding_def)

theorem manual_pause_invariant_witness:
  "mp_state (ps_controller example_paused) = Paused \<and>
   mp_availability (ps_controller example_paused) = Available_at_safe_boundary \<and>
   mset (map mp_sequence (ps_published example_paused)) = {#1, 2, 3#}"
proof -
  have "outstanding example_paused = []" "length (ps_changes example_paused) = 3"
    "mp_state (ps_controller example_paused) = Paused"
    by (simp_all add: example_pause_defs outstanding_def)
  note facts = this manual_pause_invariant [OF example_paused_reachable]
  have "mset (ps_published example_paused) = mset (ps_changes example_paused)"
    "map mp_sequence (ps_changes example_paused) = map of_nat [1 ..< Suc 3]"
    using facts by simp_all
  then have "mset (map mp_sequence (ps_published example_paused)) = mset (map of_nat [1 ..< Suc 3])"
    by (metis mset_map)
  also have "\<dots> = {#1, 2, 3#}" by (simp add: upt_rec)
  finally have sent: "mset (map mp_sequence (ps_published example_paused)) = {#1, 2, 3#}" .
  from facts(3) facts(4) [THEN conjunct1]
  have "mp_availability (ps_controller example_paused) = Available_at_safe_boundary" by blast
  with sent facts(3) show ?thesis by blast
qed

text \<open>
  While the controller is paused the engine stands still: no step of any thread reports progress,
  starts a boundary or returns the worker to the engine, and only a resumption, a cancellation or
  the end of the operation leaves the state.
\<close>

theorem manual_pause_holds:
  assumes "pause_reachable sys" and "mp_state (ps_controller sys) = Paused" and "pause_step sys a sys'"
  shows "ps_worker sys' \<noteq> Engine \<and> ps_worker sys' \<noteq> Decided Continue_operation \<and>
    (\<forall>p. a \<noteq> Worker_progress p) \<and> (\<forall>b. a \<noteq> Worker_boundary b) \<and>
    (mp_state (ps_controller sys') \<noteq> Paused \<longrightarrow>
       a \<in> {Ui_resume, Ui_cancel, Ui_complete} \<or>
       (\<exists>n. ps_worker sys' = Emitting n (With_decision Cancel_operation)))"
proof -
  have "waiting (ps_worker sys)" using reachable_inv [OF assms(1)] assms(2) by (simp add: pause_inv_def)
  from assms(3) this assms(2) show ?thesis
  proof cases
    case give_up
    then show ?thesis
      using assms(2) by (simp add: performed_def notified_def critical_defs)
  qed (auto simp: waiting_def after_poll_def poll_pause_def request_pause_def)
qed

theorem manual_pause_holds_witness:
  "ps_worker (requested resume_pause example_paused) \<noteq> Engine"
  using manual_pause_holds [OF example_paused_reachable example_paused_state(1) pause_step.resume] by blast

text \<open>
  A cancellation is final: once the controller is cancelling or completed it stays so, and a worker
  that is not already past its decision is told to cancel and never to continue.
\<close>

theorem manual_pause_cancel_final:
  assumes "(\<lambda>s t. \<exists>a. pause_step s a t)\<^sup>*\<^sup>* sys sys'"
    and "mp_state (ps_controller sys) \<in> {Cancelling, Mp_completed}"
    and "\<not> past_decision (ps_worker sys)"
  shows "mp_state (ps_controller sys') \<in> {Cancelling, Mp_completed} \<and>
    \<not> past_decision (ps_worker sys')"
  using assms
proof (induction rule: rtranclp_induct)
  case (step sys' sys'')
  then show ?case using ended_step [of sys' _ sys''] by (auto simp: ended_def)
qed simp

theorem manual_pause_cancel_final_witness:
  "mp_state (ps_controller (after_poll Asleep (requested request_cancel example_paused))) \<in> {Cancelling, Mp_completed} \<and>
   ps_worker (after_poll Asleep (requested request_cancel example_paused)) = Decided Cancel_operation"
proof -
  let ?c = "requested request_cancel example_paused"
  have c: "mp_state (ps_controller ?c) \<in> {Cancelling, Mp_completed}" "ps_worker ?c = Checking"
    by (simp_all add: request_cancel_def finish_locked_def changed_locked_def)
  have run: "(\<lambda>s t. \<exists>a. pause_step s a t)\<^sup>*\<^sup>* ?c (after_poll Asleep ?c)"
    using pause_step.check [OF c(2)] by (intro r_into_rtranclp) blast
  have p: "\<not> past_decision (ps_worker ?c)" by (simp add: past_decision_def)
  from manual_pause_cancel_final [OF run c(1) p] c show ?thesis
    by (auto simp: after_poll_def poll_pause_def)
qed

text \<open>
  C37. A worker in its wait is never stuck: it always has a step, and while no pause is requested or in
  force every step brings it nearer to its decision, which it reaches after at most three.
\<close>

theorem manual_pause_wait_ends:
  assumes "0 < wait_rank (ps_worker sys)"
  shows "(\<exists>sys'. pause_step sys Worker_step sys') \<and> wait_rank (ps_worker sys) \<le> 3 \<and>
    (mp_state (ps_controller sys) \<notin> {Pause_requested, Paused} \<longrightarrow>
       (\<forall>sys'. pause_step sys Worker_step sys' \<longrightarrow>
          wait_rank (ps_worker sys') < wait_rank (ps_worker sys) \<and>
          mp_state (ps_controller sys') \<notin> {Pause_requested, Paused}))"
proof (intro conjI impI allI)
  show "wait_rank (ps_worker sys) \<le> 3" by (cases "ps_worker sys" rule: wait_rank.cases) auto
qed (use worker_step_enabled [OF assms] worker_step_rank [OF _ assms] in auto)

theorem manual_pause_wait_ends_witness:
  "\<exists>sys'. pause_step (requested resume_pause example_paused) Worker_step sys' \<and> wait_rank (ps_worker sys') = 0"
proof -
  let ?r = "requested resume_pause example_paused"
  have r: "0 < wait_rank (ps_worker ?r)" "mp_state (ps_controller ?r) \<notin> {Pause_requested, Paused}"
    by (simp_all add: resume_pause_def finish_locked_def changed_locked_def)
  from manual_pause_wait_ends [OF r(1)] r(2) show ?thesis by fastforce
qed

text \<open>
  As the engines see them, the callbacks with a controller bound are the controller followed by the
  old callbacks: progress goes to both, a cancellation comes from either and is recorded in the
  controller, and a boundary continues only when both say so; an exception of an old callback
  counts as a cancellation.
\<close>

lemma bind_manual_pause_controller_equiv:
  "snd (report_progress (bind_manual_pause_controller cbs (Some h)) p s) =
     snd (report_progress cbs p (ph_observe_progress h p s)) \<and>
   cancellation_requested (bind_manual_pause_controller cbs (Some h)) s =
     (if ph_cancellation_requested h s then (True, s)
      else case cancellation_requested cbs s of (c, t) \<Rightarrow> (c, if c then ph_request_cancel h t else t)) \<and>
   control_at_safe_boundary (bind_manual_pause_controller cbs (Some h)) b s =
     (case ph_wait_at_safe_boundary h b (cb_cancellation_requested cbs) s of (d, t) \<Rightarrow>
        if d = Cancel_operation then (d, t)
        else case control_at_safe_boundary cbs b t of (d, u) \<Rightarrow>
          (d, if d = Cancel_operation then ph_request_cancel h u else u)) \<and>
   bind_manual_pause_controller cbs None = cbs"
  by (auto simp: bind_manual_pause_controller_def report_progress_def cancellation_requested_def
      control_at_safe_boundary_def bound_cancellation_def bound_safe_boundary_def Let_def
      split: option.split prod.split)

text \<open>The adapter of the rescue copy composes in the same way.\<close>

lemma bind_rescue_pause_controller_equiv:
  "snd (rescue_publish_progress (bind_rescue_pause_controller cbs (Some h)) p s) =
     snd (rescue_publish_progress cbs p (ph_observe_progress h (rescue_operation_progress p) s)) \<and>
   rescue_cancellation_requested (bind_rescue_pause_controller cbs (Some h)) s =
     (if ph_cancellation_requested h s then (True, s)
      else case rescue_cancellation_requested cbs s of (c, t) \<Rightarrow> (c, if c then ph_request_cancel h t else t)) \<and>
   rescue_control_at_safe_boundary (bind_rescue_pause_controller cbs (Some h)) b s =
     (case ph_wait_at_safe_boundary h b (rc_cancellation_requested cbs) s of (d, t) \<Rightarrow>
        if d = Cancel_operation then (d, t)
        else case rescue_control_at_safe_boundary cbs b t of (d, u) \<Rightarrow>
          (d, if d = Cancel_operation then ph_request_cancel h u else u))"
  by (auto simp: bind_rescue_pause_controller_def rescue_publish_progress_def rescue_cancellation_requested_def
      rescue_control_at_safe_boundary_def bound_cancellation_def bound_safe_boundary_def Let_def
      split: option.split prod.split)

end
