(* ===== verification/ShrinkLayout.thy ===== *)
theory ShrinkLayout
  imports Prelude
begin

text \<open>
  The layout of a shrinking migration (\<open>MigrationCore/src/shrink_layout.cpp\<close>): how large every
  partition must be on the target, where it goes, and who gets the room that is left.  The enumerations
  are datatypes, so the checks that reject values outside them have no counterpart; the notes of a
  plan are fixed text and are left out; a label is the list of its UTF-16 code units.
\<close>

section \<open>Data\<close>

datatype migration_partition_style = Style_mbr | Style_gpt

datatype migration_file_system = Fs_none | Fs_ntfs | Fs_fat32 | Fs_exfat | Fs_unsupported

datatype shrink_file_system_disposition = Metadata_only | File_archive | Exact_raw_only

datatype shrink_surplus_allocation =
  Automatic_proportional | Leave_unallocated | Selected_data_partition

datatype migration_partition_role =
  Role_efi_system | Role_microsoft_reserved | Role_bios_system | Role_windows | Role_recovery | Role_data

datatype migration_partition_action =
  Create_fat32 | Create_reserved | Apply_file_image | Create_empty_ntfs | Create_empty_exfat |
  Create_empty_fat32 | Copy_exact_raw

record shrink_source_partition =
  ssp_source_table_index :: u32
  ssp_role :: migration_partition_role
  ssp_file_system :: migration_file_system
  ssp_source_size_bytes :: u64
  ssp_used_bytes :: u64
  ssp_minimum_target_bytes :: u64
  ssp_cluster_size :: u64
  ssp_label :: "u16 list"
  ssp_active :: bool

record shrink_migration_request =
  smr_source_style :: migration_partition_style
  smr_target_style :: migration_partition_style
  smr_target_size_bytes :: u64
  smr_target_logical_sector_size :: u32
  smr_source_is_windows_system :: bool
  smr_windows_is_amd64 :: bool
  smr_bitlocker_fully_decrypted :: bool
  smr_surplus_allocation :: shrink_surplus_allocation
  smr_surplus_target_source_table_index :: "u32 option"
  smr_source_partitions :: "shrink_source_partition list"

record shrink_planned_partition =
  spp_target_number :: u32
  spp_source_table_index :: "u32 option"
  spp_role :: migration_partition_role
  spp_file_system :: migration_file_system
  spp_action :: migration_partition_action
  spp_offset_bytes :: u64
  spp_size_bytes :: u64
  spp_source_size_bytes :: u64
  spp_source_used_bytes :: u64
  spp_label :: "u16 list"
  spp_active :: bool

record shrink_migration_plan =
  smp_target_style :: migration_partition_style
  smp_alignment_bytes :: u64
  smp_minimum_target_size_bytes :: u64
  smp_target_size_bytes :: u64
  smp_unallocated_tail_bytes :: u64
  smp_surplus_target_source_table_index :: "u32 option"
  smp_source_remains_unchanged :: bool
  smp_boot_finalization_required :: bool
  smp_target_partitions :: "shrink_planned_partition list"

section \<open>Arithmetic\<close>

abbreviation (input) kMiB :: u64 where "kMiB \<equiv> 0x100000"
abbreviation (input) kGiB :: u64 where "kGiB \<equiv> 0x40000000"
abbreviation (input) kAlignment :: u64 where "kAlignment \<equiv> kMiB"
abbreviation (input) kMbrMetadataReserve :: u64 where "kMbrMetadataReserve \<equiv> kMiB"
abbreviation (input) kGptMetadataReserve :: u64 where "kGptMetadataReserve \<equiv> 2 * kMiB"
abbreviation (input) kMsrSize :: u64 where "kMsrSize \<equiv> 16 * kMiB"
abbreviation (input) kRecoveryMinimum :: u64 where "kRecoveryMinimum \<equiv> 990 * kMiB"

text \<open>\<open>_umul128\<close> and \<open>_udiv128\<close> multiply and divide with 128 bits.\<close>

definition multiply_divide_floor :: "u64 \<Rightarrow> u64 \<Rightarrow> u64 \<Rightarrow> u64 result" where
  "multiply_divide_floor left right divisor =
     (if divisor = 0 \<or> right > divisor then Inl (mk_error Invalid_data ERROR_INVALID_PARAMETER)
      else
        let product = (ucast left :: 128 word) * ucast right
        in Inr (ucast (product div ucast divisor)))"

definition align_up :: "u64 \<Rightarrow> u64 \<Rightarrow> u64 result" where
  "align_up val alignment =
     (if alignment = 0 \<or> val > u64_max - (alignment - 1)
      then Inl (mk_error Invalid_data ERROR_ARITHMETIC_OVERFLOW)
      else Inr ((val + alignment - 1) div alignment * alignment))"

definition esp_size :: "u32 \<Rightarrow> u64" where
  "esp_size logical_sector_size = (if logical_sector_size = 4096 then 300 * kMiB else 200 * kMiB)"

section \<open>One partition\<close>

definition classify_shrink_file_system :: "migration_file_system \<Rightarrow> shrink_file_system_disposition" where
  "classify_shrink_file_system file_system =
     (case file_system of
        Fs_none \<Rightarrow> Metadata_only
      | Fs_ntfs \<Rightarrow> File_archive
      | Fs_fat32 \<Rightarrow> File_archive
      | Fs_exfat \<Rightarrow> File_archive
      | Fs_unsupported \<Rightarrow> Exact_raw_only)"

definition content_minimum_size :: "shrink_source_partition \<Rightarrow> u64 result" where
  "content_minimum_size p =
     (if ssp_used_bytes p > ssp_source_size_bytes p \<or>
         (ssp_minimum_target_bytes p \<noteq> 0 \<and> ssp_minimum_target_bytes p < ssp_used_bytes p)
      then Inl (mk_error Invalid_data ERROR_INVALID_DATA)
      else if classify_shrink_file_system (ssp_file_system p) = Exact_raw_only then
        (if ssp_minimum_target_bytes p \<noteq> 0 \<and> ssp_minimum_target_bytes p \<noteq> ssp_source_size_bytes p
         then Inl (mk_error Invalid_data ERROR_INVALID_DATA)
         else Inr (ssp_source_size_bytes p))
      else
        let percentage_reserve = ssp_used_bytes p div 8;
            fixed_reserve = (if ssp_role p = Role_windows then 10 * kGiB else kGiB);
            reserve = max percentage_reserve fixed_reserve
        in
        case checked_add (ssp_used_bytes p) reserve of
          None \<Rightarrow> Inl (mk_error Invalid_data ERROR_ARITHMETIC_OVERFLOW)
        | Some requested \<Rightarrow>
          let requested = (if ssp_role p = Role_recovery then max requested kRecoveryMinimum else requested);
              requested = (if ssp_used_bytes p = 0
                then (if ssp_role p = Role_recovery then kRecoveryMinimum else kGiB)
                else requested);
              requested = max requested (ssp_minimum_target_bytes p)
          in align_up requested kAlignment)"

definition minimum_shrink_partition_bytes :: "shrink_source_partition \<Rightarrow> u64 result" where
  "minimum_shrink_partition_bytes p = content_minimum_size p"

definition is_content_role :: "migration_partition_role \<Rightarrow> bool" where
  "is_content_role role \<longleftrightarrow> role = Role_bios_system \<or> role = Role_windows \<or> role = Role_recovery \<or> role = Role_data"

definition valid_file_archive_cluster :: "shrink_source_partition \<Rightarrow> u32 \<Rightarrow> bool" where
  "valid_file_archive_cluster p target_logical_sector_size \<longleftrightarrow>
     ssp_cluster_size p \<ge> ucast target_logical_sector_size \<and> ssp_cluster_size p \<le> 2 * kMiB \<and>
     ssp_cluster_size p mod ucast target_logical_sector_size = 0"

definition empty_partition_action :: "migration_file_system \<Rightarrow> migration_partition_action" where
  "empty_partition_action file_system =
     (case file_system of
        Fs_ntfs \<Rightarrow> Create_empty_ntfs
      | Fs_exfat \<Rightarrow> Create_empty_exfat
      | Fs_fat32 \<Rightarrow> Create_empty_fat32
      | _ \<Rightarrow> Copy_exact_raw)"

section \<open>The request\<close>

definition check_shrink_request :: "shrink_migration_request \<Rightarrow> status" where
  "check_shrink_request request =
     (let sector = smr_target_logical_sector_size request; selected =
        (smr_surplus_allocation request = Selected_data_partition) in
      if smr_target_size_bytes request = 0 \<or> (sector \<noteq> 512 \<and> sector \<noteq> 4096) \<or>
         smr_target_size_bytes request mod ucast sector \<noteq> 0 \<or> smr_source_partitions request = [] \<or>
         length (smr_source_partitions request) > 128 \<or> \<not> smr_bitlocker_fully_decrypted request
      then Inl (mk_error Unsupported_layout ERROR_NOT_SUPPORTED)
      else if selected \<noteq> (smr_surplus_target_source_table_index request \<noteq> None)
      then Inl (mk_error Invalid_argument ERROR_INVALID_PARAMETER)
      else if smr_source_style request = Style_gpt \<and> smr_target_style request = Style_mbr
      then Inl (mk_error Unsupported_layout ERROR_NOT_SUPPORTED)
      else if smr_target_style request = Style_mbr \<and>
         smr_target_size_bytes request div ucast sector > 0x100000000
      then Inl (mk_error Unsupported_layout ERROR_NOT_SUPPORTED)
      else if smr_source_is_windows_system request \<and> \<not> smr_windows_is_amd64 request
      then Inl (mk_error Unsupported_layout ERROR_NOT_SUPPORTED)
      else success_status)"

text \<open>The counters and the list that the loop over the source partitions builds.\<close>

record shrink_scan =
  sc_windows_count :: nat
  sc_bios_system_count :: nat
  sc_efi_count :: nat
  sc_msr_count :: nat
  sc_active_count :: nat
  sc_content :: "shrink_source_partition list"

definition initial_scan :: shrink_scan where
  "initial_scan = \<lparr>sc_windows_count = 0, sc_bios_system_count = 0, sc_efi_count = 0, sc_msr_count = 0,
     sc_active_count = 0, sc_content = []\<rparr>"

definition scan_content :: "u32 \<Rightarrow> shrink_source_partition \<Rightarrow> shrink_scan \<Rightarrow> shrink_scan result" where
  "scan_content sector p st =
     (let disposition = classify_shrink_file_system (ssp_file_system p) in
      if \<not> is_content_role (ssp_role p) \<or> disposition = Metadata_only \<or>
         (disposition = File_archive \<and> \<not> valid_file_archive_cluster p sector)
      then Inl (mk_error Unsupported_layout ERROR_NOT_SUPPORTED)
      else
        Inr (st\<lparr>sc_windows_count := sc_windows_count st + (if ssp_role p = Role_windows then 1 else 0),
               sc_bios_system_count := sc_bios_system_count st + (if ssp_role p = Role_bios_system then 1 else 0),
               sc_active_count := sc_active_count st + (if ssp_active p then 1 else 0),
               sc_content := sc_content st @ [p]\<rparr>))"

fun scan_sources ::
  "u32 \<Rightarrow> shrink_source_partition list \<Rightarrow> shrink_source_partition list \<Rightarrow> shrink_scan \<Rightarrow> shrink_scan result"
where
  "scan_sources sector previous [] st = Inr st"
| "scan_sources sector previous (p # ps) st =
     (if ssp_source_size_bytes p = 0 \<or> ssp_source_size_bytes p mod ucast sector \<noteq> 0 \<or>
         ssp_used_bytes p > ssp_source_size_bytes p \<or>
         (ssp_minimum_target_bytes p \<noteq> 0 \<and> ssp_minimum_target_bytes p mod ucast sector \<noteq> 0) \<or>
         length (ssp_label p) > 32
      then Inl (mk_error Invalid_data ERROR_INVALID_DATA)
      else if \<exists>q \<in> set previous. ssp_source_table_index q = ssp_source_table_index p
      then Inl (mk_error Identity_mismatch ERROR_DUP_NAME)
      else if ssp_role p = Role_efi_system
      then scan_sources sector (previous @ [p]) ps (st\<lparr>sc_efi_count := sc_efi_count st + 1\<rparr>)
      else if ssp_role p = Role_microsoft_reserved
      then scan_sources sector (previous @ [p]) ps (st\<lparr>sc_msr_count := sc_msr_count st + 1\<rparr>)
      else
        case scan_content sector p st of
          Inl e \<Rightarrow> Inl e
        | Inr st \<Rightarrow> scan_sources sector (previous @ [p]) ps st)"

definition roles_invalid :: "shrink_migration_request \<Rightarrow> shrink_scan \<Rightarrow> bool" where
  "roles_invalid request sc \<longleftrightarrow>
     (let gpt = (smr_source_style request = Style_gpt) in
      if smr_source_is_windows_system request then
        sc_windows_count sc \<noteq> 1 \<or>
        (if gpt then sc_efi_count sc \<noteq> 1 \<or> sc_msr_count sc \<noteq> 1 \<or> sc_bios_system_count sc \<noteq> 0
         else sc_efi_count sc \<noteq> 0 \<or> sc_msr_count sc \<noteq> 0 \<or> sc_bios_system_count sc > 1 \<or>
           sc_active_count sc \<noteq> 1)
      else
        sc_windows_count sc \<noteq> 0 \<or> sc_bios_system_count sc \<noteq> 0 \<or> sc_efi_count sc \<noteq> 0 \<or>
        sc_active_count sc \<noteq> 0 \<or> (if gpt then sc_msr_count sc > 1 else sc_msr_count sc \<noteq> 0))"

definition surplus_target_ok :: "shrink_migration_request \<Rightarrow> shrink_source_partition list \<Rightarrow> bool" where
  "surplus_target_ok request content \<longleftrightarrow>
     (smr_surplus_allocation request = Selected_data_partition \<longrightarrow>
       (case find (\<lambda>p. Some (ssp_source_table_index p) = smr_surplus_target_source_table_index request) content of
          None \<Rightarrow> False
        | Some p \<Rightarrow> ssp_role p = Role_data \<and> classify_shrink_file_system (ssp_file_system p) = File_archive))"

section \<open>Placing the partitions\<close>

record layout_state =
  ls_cursor :: u64
  ls_target_number :: u32
  ls_partitions :: "shrink_planned_partition list"

definition append_fixed ::
  "migration_partition_role \<Rightarrow> migration_file_system \<Rightarrow> migration_partition_action \<Rightarrow> u64 \<Rightarrow> u16 list \<Rightarrow>
   layout_state \<Rightarrow> layout_state result" where
  "append_fixed role file_system action bytes label st =
     (case align_up (ls_cursor st) kAlignment of
        Inl e \<Rightarrow> Inl e
      | Inr aligned \<Rightarrow>
     (case checked_add aligned bytes of
        None \<Rightarrow> Inl (mk_error Invalid_data ERROR_ARITHMETIC_OVERFLOW)
      | Some cursor \<Rightarrow>
        Inr \<lparr>ls_cursor = cursor, ls_target_number = ls_target_number st + 1,
             ls_partitions = ls_partitions st @
               [\<lparr>spp_target_number = ls_target_number st, spp_source_table_index = None, spp_role = role,
                 spp_file_system = file_system, spp_action = action, spp_offset_bytes = aligned,
                 spp_size_bytes = bytes, spp_source_size_bytes = 0, spp_source_used_bytes = 0,
                 spp_label = label, spp_active = False\<rparr>]\<rparr>))"

text \<open>\<open>L"SYSTEM"\<close>.\<close>

definition system_label :: "u16 list" where
  "system_label = [83, 89, 83, 84, 69, 77]"

definition place_fixed :: "shrink_migration_request \<Rightarrow> nat \<Rightarrow> layout_state \<Rightarrow> layout_state result" where
  "place_fixed request msr_count st =
     (let reserved = append_fixed Role_microsoft_reserved Fs_none Create_reserved kMsrSize [] in
      if smr_target_style request = Style_gpt \<and> smr_source_is_windows_system request then
        case append_fixed Role_efi_system Fs_fat32 Create_fat32
            (esp_size (smr_target_logical_sector_size request)) system_label st of
          Inl e \<Rightarrow> Inl e
        | Inr st \<Rightarrow> reserved st
      else if smr_source_style request = Style_gpt \<and> smr_target_style request = Style_gpt \<and> msr_count = 1
      then reserved st
      else Inr st)"

definition role_rank :: "migration_partition_role \<Rightarrow> nat" where
  "role_rank role =
     (case role of
        Role_bios_system \<Rightarrow> 0
      | Role_windows \<Rightarrow> 1
      | Role_recovery \<Rightarrow> 2
      | Role_data \<Rightarrow> 3
      | _ \<Rightarrow> 4)"

text \<open>The content in the order it is placed; \<open>sort_key\<close> is stable, as \<open>std::stable_sort\<close> is.\<close>

definition order_content ::
  "shrink_migration_request \<Rightarrow> shrink_source_partition list \<Rightarrow> shrink_source_partition list" where
  "order_content request content =
     (let content = (if smr_source_is_windows_system request
        then sort_key (\<lambda>p. role_rank (ssp_role p)) content else content)
      in
      if smr_source_style request = Style_mbr \<and> smr_target_style request = Style_gpt
      then filter (\<lambda>p. ssp_role p \<noteq> Role_bios_system) content
      else content)"

definition too_many_partitions :: "shrink_migration_request \<Rightarrow> nat \<Rightarrow> nat \<Rightarrow> bool" where
  "too_many_partitions request msr_count content_count \<longleftrightarrow>
     (let generated =
        (if smr_target_style request = Style_gpt \<and> smr_source_is_windows_system request then 2
         else if smr_source_style request = Style_gpt \<and> smr_target_style request = Style_gpt \<and>
           \<not> smr_source_is_windows_system request \<and> msr_count = 1 then 1
         else 0)
      in
      (smr_target_style request = Style_mbr \<and> content_count > 4) \<or>
      (smr_target_style request = Style_gpt \<and> content_count > 128 - generated))"

definition content_action :: "shrink_source_partition \<Rightarrow> migration_partition_action" where
  "content_action p =
     (if classify_shrink_file_system (ssp_file_system p) = Exact_raw_only then Copy_exact_raw
      else if ssp_used_bytes p = 0 then empty_partition_action (ssp_file_system p)
      else Apply_file_image)"

fun place_content ::
  "migration_partition_style \<Rightarrow> shrink_source_partition list \<Rightarrow> layout_state \<Rightarrow> layout_state result" where
  "place_content target_style [] st = Inr st"
| "place_content target_style (p # ps) st =
     (let overflow = Inl (mk_error Invalid_data ERROR_ARITHMETIC_OVERFLOW) in
      case minimum_shrink_partition_bytes p of
        Inl e \<Rightarrow> overflow
      | Inr minimum \<Rightarrow>
     (case align_up (ls_cursor st) kAlignment of
        Inl e \<Rightarrow> overflow
      | Inr aligned \<Rightarrow>
     (case checked_add aligned minimum of
        None \<Rightarrow> overflow
      | Some cursor \<Rightarrow>
        place_content target_style ps
          \<lparr>ls_cursor = cursor, ls_target_number = ls_target_number st + 1,
           ls_partitions = ls_partitions st @
             [\<lparr>spp_target_number = ls_target_number st,
               spp_source_table_index = Some (ssp_source_table_index p), spp_role = ssp_role p,
               spp_file_system = ssp_file_system p, spp_action = content_action p,
               spp_offset_bytes = aligned, spp_size_bytes = minimum,
               spp_source_size_bytes = ssp_source_size_bytes p, spp_source_used_bytes = ssp_used_bytes p,
               spp_label = ssp_label p, spp_active = (target_style = Style_mbr \<and> ssp_active p)\<rparr>]\<rparr>)))"


text \<open>The fixed partitions, then the content, all of minimum size, from behind the metadata of the target.\<close>

definition place_minimum :: "shrink_migration_request \<Rightarrow> shrink_scan \<Rightarrow> layout_state result" where
  "place_minimum request sc =
     (case place_fixed request (sc_msr_count sc)
         \<lparr>ls_cursor = (if smr_target_style request = Style_gpt then kGptMetadataReserve else kMbrMetadataReserve),
          ls_target_number = 1, ls_partitions = []\<rparr> of
        Inl e \<Rightarrow> Inl e
      | Inr st \<Rightarrow>
        let content = order_content request (sc_content sc) in
        if too_many_partitions request (sc_msr_count sc) (length content)
        then Inl (mk_error Unsupported_layout ERROR_NOT_SUPPORTED)
        else place_content (smr_target_style request) content st)"

definition minimum_target_size :: "u64 \<Rightarrow> u64 result" where
  "minimum_target_size cursor =
     (case checked_add cursor kGptMetadataReserve of
        None \<Rightarrow> Inl (mk_error Invalid_data ERROR_ARITHMETIC_OVERFLOW)
      | Some minimum_target \<Rightarrow> align_up minimum_target kAlignment)"

section \<open>The surplus\<close>

definition expandable_partition :: "shrink_planned_partition \<Rightarrow> bool" where
  "expandable_partition p \<longleftrightarrow> spp_source_table_index p \<noteq> None \<and> spp_action p \<noteq> Copy_exact_raw"

definition expandable_indexes :: "shrink_planned_partition list \<Rightarrow> nat list" where
  "expandable_indexes ps = filter (\<lambda>i. expandable_partition (ps ! i)) [0..<length ps]"

definition surplus_weight :: "shrink_planned_partition \<Rightarrow> u64" where
  "surplus_weight p = max (spp_source_size_bytes p) kAlignment"

fun add_weights :: "shrink_planned_partition list \<Rightarrow> nat list \<Rightarrow> u64 \<Rightarrow> u64 result" where
  "add_weights ps [] total_weight = Inr total_weight"
| "add_weights ps (i # ix) total_weight =
     (case checked_add total_weight (surplus_weight (ps ! i)) of
        None \<Rightarrow> Inl (mk_error Invalid_data ERROR_ARITHMETIC_OVERFLOW)
      | Some total_weight \<Rightarrow> add_weights ps ix total_weight)"

text \<open>\<open>growth\<close> is a vector as long as the list of partitions, so every index is in range.\<close>

fun add_shares ::
  "shrink_planned_partition list \<Rightarrow> u64 \<Rightarrow> u64 \<Rightarrow> nat list \<Rightarrow> u64 list \<Rightarrow> u64 \<Rightarrow> (u64 list \<times> u64) result" where
  "add_shares ps distributable total_weight [] growth allocated = Inr (growth, allocated)"
| "add_shares ps distributable total_weight (i # ix) growth allocated =
     (case multiply_divide_floor distributable (surplus_weight (ps ! i)) total_weight of
        Inl e \<Rightarrow> Inl e
      | Inr share \<Rightarrow>
        let growth = growth[i := share div kAlignment * kAlignment] in
        case checked_add allocated (growth ! i) of
          None \<Rightarrow> Inl (mk_error Invalid_data ERROR_ARITHMETIC_OVERFLOW)
        | Some allocated \<Rightarrow> add_shares ps distributable total_weight ix growth allocated)"

fun add_remaining :: "nat list \<Rightarrow> u64 \<Rightarrow> u64 list \<Rightarrow> u64 list" where
  "add_remaining [] remaining growth = growth"
| "add_remaining (i # ix) remaining growth =
     (if remaining < kAlignment then growth
      else add_remaining ix (remaining - kAlignment) (growth[i := growth ! i + kAlignment]))"

definition surplus_growth ::
  "shrink_migration_request \<Rightarrow> u64 \<Rightarrow> shrink_planned_partition list \<Rightarrow> u64 list result" where
  "surplus_growth request distributable ps =
     (let expandable = expandable_indexes ps; growth = replicate (length ps) 0 in
      if smr_surplus_allocation request = Selected_data_partition then
        case find (\<lambda>i. spp_source_table_index (ps ! i) = smr_surplus_target_source_table_index request)
            expandable of
          None \<Rightarrow> Inl (mk_error Internal_error ERROR_INVALID_DATA)
        | Some i \<Rightarrow> Inr (growth[i := distributable])
      else
        case add_weights ps expandable 0 of
          Inl e \<Rightarrow> Inl e
        | Inr total_weight \<Rightarrow>
       (case add_shares ps distributable total_weight expandable growth 0 of
          Inl e \<Rightarrow> Inl e
        | Inr (growth, allocated) \<Rightarrow> Inr (add_remaining expandable (distributable - allocated) growth)))"

text \<open>The loop over the partitions and their growth; the number is the growth before the first of them.\<close>

fun apply_growth ::
  "(shrink_planned_partition \<times> u64) list \<Rightarrow> u64 \<Rightarrow> (shrink_planned_partition list \<times> u64) result" where
  "apply_growth [] preceding = Inr ([], preceding)"
| "apply_growth ((p, g) # ps) preceding =
     (case (checked_add (spp_offset_bytes p) preceding, checked_add (spp_size_bytes p) g,
         checked_add preceding g) of
        (Some offset, Some bytes, Some next) \<Rightarrow>
         (case apply_growth ps next of
            Inl e \<Rightarrow> Inl e
          | Inr (qs, final) \<Rightarrow>
              Inr (p\<lparr>spp_offset_bytes := offset, spp_size_bytes := bytes\<rparr> # qs, final))
      | _ \<Rightarrow> Inl (mk_error Invalid_data ERROR_ARITHMETIC_OVERFLOW))"

definition distribute_surplus ::
  "shrink_migration_request \<Rightarrow> u64 \<Rightarrow> layout_state \<Rightarrow> layout_state result" where
  "distribute_surplus request extra st =
     (if smr_surplus_allocation request \<noteq> Leave_unallocated \<and> extra \<ge> kAlignment then
        let distributable = extra div kAlignment * kAlignment in
        case surplus_growth request distributable (ls_partitions st) of
          Inl e \<Rightarrow> Inl e
        | Inr growth \<Rightarrow>
       (case apply_growth (zip (ls_partitions st) growth) 0 of
          Inl e \<Rightarrow> Inl e
        | Inr (ps, preceding) \<Rightarrow>
         (case checked_add (ls_cursor st) preceding of
            None \<Rightarrow> Inl (mk_error Invalid_data ERROR_ARITHMETIC_OVERFLOW)
          | Some cursor \<Rightarrow> Inr (st\<lparr>ls_cursor := cursor, ls_partitions := ps\<rparr>)))
      else Inr st)"

section \<open>The plan\<close>

definition shrink_plan ::
  "shrink_migration_request \<Rightarrow> u64 \<Rightarrow> layout_state \<Rightarrow> shrink_migration_plan result" where
  "shrink_plan request minimum_target st =
     (if ls_cursor st > smr_target_size_bytes request - kGptMetadataReserve
      then Inl (mk_error Invalid_data ERROR_ARITHMETIC_OVERFLOW)
      else Inr
        \<lparr>smp_target_style = smr_target_style request, smp_alignment_bytes = kAlignment,
         smp_minimum_target_size_bytes = minimum_target,
         smp_target_size_bytes = smr_target_size_bytes request,
         smp_unallocated_tail_bytes = smr_target_size_bytes request - kGptMetadataReserve - ls_cursor st,
         smp_surplus_target_source_table_index = smr_surplus_target_source_table_index request,
         smp_source_remains_unchanged = True,
         smp_boot_finalization_required = smr_source_is_windows_system request,
         smp_target_partitions = ls_partitions st\<rparr>)"

text \<open>The checks and the scan, up to the point from which the layout is computed.\<close>

definition scan_request :: "shrink_migration_request \<Rightarrow> shrink_scan result" where
  "scan_request request =
     (case check_shrink_request request of
        Inl e \<Rightarrow> Inl e
      | Inr _ \<Rightarrow>
     (case scan_sources (smr_target_logical_sector_size request) [] (smr_source_partitions request)
         initial_scan of
        Inl e \<Rightarrow> Inl e
      | Inr sc \<Rightarrow>
        if sc_content sc = [] \<or> roles_invalid request sc
        then Inl (mk_error Unsupported_layout ERROR_NOT_SUPPORTED)
        else if \<not> surplus_target_ok request (sc_content sc)
        then Inl (mk_error Unsupported_layout ERROR_NOT_SUPPORTED)
        else Inr sc))"

definition plan_shrink_migration :: "shrink_migration_request \<Rightarrow> shrink_migration_plan result" where
  "plan_shrink_migration request =
     (case scan_request request of
        Inl e \<Rightarrow> Inl e
      | Inr sc \<Rightarrow>
     (case place_minimum request sc of
        Inl e \<Rightarrow> Inl e
      | Inr st \<Rightarrow>
     (case minimum_target_size (ls_cursor st) of
        Inl e \<Rightarrow> Inl e
      | Inr minimum_target \<Rightarrow>
        if smr_target_size_bytes request < minimum_target
        then Inl (mk_error Unsupported_layout ERROR_DISK_FULL)
        else
          case distribute_surplus request (smr_target_size_bytes request - minimum_target) st of
            Inl e \<Rightarrow> Inl e
          | Inr st \<Rightarrow> shrink_plan request minimum_target st)))"

end
