(* ===== verification/ShrinkLayoutCorrect.thy ===== *)
theory ShrinkLayoutCorrect
  imports ShrinkLayout
begin

text \<open>
  What a plan of \<open>plan_shrink_migration\<close> guarantees: the partitions follow each other on 1 MiB
  boundaries inside the usable part of the target, every partition with content keeps at least the
  size it needs, and the surplus goes where the request asks for.  Sizes are compared as natural
  numbers, so every statement also says that no sum wraps around.
\<close>

lemma case_result_Inr_iff:
  "(case x of Inl e \<Rightarrow> Inl e | Inr y \<Rightarrow> f y) = Inr z \<longleftrightarrow> (\<exists>y. x = Inr y \<and> f y = Inr z)"
  "(case x of Inl e \<Rightarrow> Inl e' | Inr y \<Rightarrow> f y) = Inr z \<longleftrightarrow> (\<exists>y. x = Inr y \<and> f y = Inr z)"
  "(case v of None \<Rightarrow> Inl e' | Some w \<Rightarrow> g w) = Inr z \<longleftrightarrow> (\<exists>w. v = Some w \<and> g w = Inr z)"
  "(if b then Inl e' else u) = Inr z \<longleftrightarrow> \<not> b \<and> u = Inr z"
  by (auto split: sum.split option.split)

section \<open>Aligned sizes\<close>

abbreviation mib :: nat where "mib \<equiv> 1048576"

lemma align_up_spec:
  assumes "align_up v kAlignment = Inr a"
  shows "unat v \<le> unat a" "unat a < unat v + mib" "mib dvd unat a"
proof -
  have bound: "unat v \<le> 18446744073708503040"
    using assms by (simp add: align_up_def word_le_nat_alt word_less_nat_alt split: if_splits)
  have val: "a = (v + 0xFFFFF) div kMiB * kMiB"
    using assms by (simp add: align_up_def add.commute split: if_splits)
  have sum: "unat (v + 0xFFFFF) = unat v + 1048575"
    by (subst unat_add_u64) (use bound in simp_all)
  have "unat ((v + 0xFFFFF) div kMiB) = (unat v + 1048575) div mib"
    by (simp add: unat_div sum)
  moreover have "(unat v + 1048575) div mib * mib \<le> unat v + 1048575" by simp
  ultimately have eq: "unat a = (unat v + 1048575) div mib * mib"
    unfolding val using bound by (subst unat_mult_u64) simp_all
  show "unat v \<le> unat a" "unat a < unat v + mib" "mib dvd unat a"
    unfolding eq by simp_all
qed


lemma multiply_divide_floor_spec:
  assumes "right \<le> divisor" "0 < divisor"
  shows "\<exists>q. multiply_divide_floor left right divisor = Inr q \<and>
    unat q = unat left * unat right div unat divisor"
proof -
  have r: "unat right \<le> unat divisor" and d: "0 < unat divisor"
    using assms by (simp_all add: word_le_nat_alt word_less_nat_alt)
  have wide: "take_bit 128 (unat x) = unat x" for x :: u64
    using unat_u64_bound [of x] by (simp add: take_bit_nat_eq_self_iff)
  have cast: "unat (ucast x :: 128 word) = unat x" for x :: u64
    by (simp add: unsigned_ucast_eq wide)
  have "unat left * unat right \<le> 18446744073709551615 * 18446744073709551615"
    by (rule mult_le_mono) (rule unat_u64_le)+
  then have prod: "unat ((ucast left :: 128 word) * ucast right) = unat left * unat right"
    by (simp add: unat_word_ariths cast)
  have "unat left * unat right div unat divisor \<le> unat left * unat divisor div unat divisor"
    by (intro div_le_mono mult_le_mono2 r)
  then have small: "unat left * unat right div unat divisor \<le> unat left" using d by simp
  have "unat (ucast ((ucast left * ucast right :: 128 word) div ucast divisor) :: u64) =
    take_bit 64 (unat left * unat right div unat divisor)"
    by (simp add: unsigned_ucast_eq unat_div prod cast wide)
  also have "\<dots> = unat left * unat right div unat divisor"
    using small unat_u64_bound [of left] by (simp add: take_bit_nat_eq_self_iff)
  finally show ?thesis
    using assms by (simp add: multiply_divide_floor_def Let_def not_less)
qed

section \<open>Chains of partitions\<close>

text \<open>
  Partitions that start on 1 MiB boundaries and follow each other without overlap, from \<open>lo\<close> on
  and ending at \<open>hi\<close> at the latest.
\<close>

fun chained :: "nat \<Rightarrow> shrink_planned_partition list \<Rightarrow> nat \<Rightarrow> bool" where
  "chained lo [] hi \<longleftrightarrow> lo \<le> hi"
| "chained lo (p # ps) hi \<longleftrightarrow>
     lo \<le> unat (spp_offset_bytes p) \<and> mib dvd unat (spp_offset_bytes p) \<and>
     chained (unat (spp_offset_bytes p) + unat (spp_size_bytes p)) ps hi"

lemma chained_le: "chained lo ps hi \<Longrightarrow> lo \<le> hi"
  by (induction ps arbitrary: lo) (simp, fastforce)

lemma chained_snoc:
  "chained lo ps mid \<Longrightarrow> mid \<le> unat (spp_offset_bytes p) \<Longrightarrow> mib dvd unat (spp_offset_bytes p) \<Longrightarrow>
   unat (spp_offset_bytes p) + unat (spp_size_bytes p) \<le> hi \<Longrightarrow> chained lo (ps @ [p]) hi"
  by (induction ps arbitrary: lo) auto

lemma chained_mono: "chained lo ps hi \<Longrightarrow> hi \<le> hi' \<Longrightarrow> chained lo ps hi'"
  by (induction ps arbitrary: lo) auto

definition partition_before :: "shrink_planned_partition \<Rightarrow> shrink_planned_partition \<Rightarrow> bool" where
  "partition_before p q \<longleftrightarrow>
     unat (spp_offset_bytes p) + unat (spp_size_bytes p) \<le> unat (spp_offset_bytes q)"

lemma chained_in:
  "chained lo ps hi \<Longrightarrow> p \<in> set ps \<Longrightarrow>
   lo \<le> unat (spp_offset_bytes p) \<and> mib dvd unat (spp_offset_bytes p) \<and>
   unat (spp_offset_bytes p) + unat (spp_size_bytes p) \<le> hi"
proof (induction ps arbitrary: lo)
  case (Cons q qs)
  then show ?case by (fastforce dest: chained_le)
qed simp

lemma chained_sorted: "chained lo ps hi \<Longrightarrow> sorted_wrt partition_before ps"
  by (induction ps arbitrary: lo) (auto simp: partition_before_def dest: chained_in)

section \<open>The minimal layout\<close>

lemma append_fixed_spec:
  assumes "append_fixed role fs action bytes label st = Inr st'"
    and "chained lo (ls_partitions st) (unat (ls_cursor st))"
  shows "\<exists>q. ls_partitions st' = ls_partitions st @ [q] \<and> spp_source_table_index q = None \<and>
    spp_role q = role \<and> chained lo (ls_partitions st') (unat (ls_cursor st'))"
proof -
  obtain a c where a: "align_up (ls_cursor st) kAlignment = Inr a" and c: "checked_add a bytes = Some c"
    and st': "ls_cursor st' = c" "ls_partitions st' = ls_partitions st @
      [\<lparr>spp_target_number = ls_target_number st, spp_source_table_index = None, spp_role = role,
        spp_file_system = fs, spp_action = action, spp_offset_bytes = a, spp_size_bytes = bytes,
        spp_source_size_bytes = 0, spp_source_used_bytes = 0, spp_label = label, spp_active = False\<rparr>]"
    using assms(1) by (auto simp: append_fixed_def case_result_Inr_iff)
  show ?thesis
    unfolding st'
    by (rule exI, rule conjI [OF refl], simp,
      rule chained_snoc [OF assms(2)]) (use align_up_spec [OF a] checked_add_SomeD [OF c] in simp_all)
qed

definition fixed_roles :: "shrink_migration_request \<Rightarrow> nat \<Rightarrow> migration_partition_role list" where
  "fixed_roles request msr_count =
     (if smr_target_style request = Style_gpt \<and> smr_source_is_windows_system request
      then [Role_efi_system, Role_microsoft_reserved]
      else if smr_source_style request = Style_gpt \<and> smr_target_style request = Style_gpt \<and> msr_count = 1
      then [Role_microsoft_reserved] else [])"

lemma place_fixed_spec:
  assumes "place_fixed request n st = Inr st'" "ls_partitions st = []"
    and "chained lo [] (unat (ls_cursor st))"
  shows "map spp_role (ls_partitions st') = fixed_roles request n \<and>
    (\<forall>q \<in> set (ls_partitions st'). spp_source_table_index q = None) \<and>
    chained lo (ls_partitions st') (unat (ls_cursor st'))"
proof (cases "smr_target_style request = Style_gpt \<and> smr_source_is_windows_system request")
  case True
  obtain st1 where
    1: "append_fixed Role_efi_system Fs_fat32 Create_fat32 (esp_size (smr_target_logical_sector_size request))
      system_label st = Inr st1"
    and 2: "append_fixed Role_microsoft_reserved Fs_none Create_reserved kMsrSize [] st1 = Inr st'"
    using assms(1) True by (auto simp: place_fixed_def case_result_Inr_iff Let_def)
  have c: "chained lo (ls_partitions st) (unat (ls_cursor st))" using assms by simp
  obtain q1 where q1: "ls_partitions st1 = ls_partitions st @ [q1]" "spp_source_table_index q1 = None"
    "spp_role q1 = Role_efi_system" and c1: "chained lo (ls_partitions st1) (unat (ls_cursor st1))"
    using append_fixed_spec [OF 1 c] by blast
  show ?thesis
    using append_fixed_spec [OF 2 c1] q1 True assms(2) by (auto simp: fixed_roles_def)
next
  case False
  have c: "chained lo (ls_partitions st) (unat (ls_cursor st))" using assms by simp
  show ?thesis
  proof (cases "smr_source_style request = Style_gpt \<and> smr_target_style request = Style_gpt \<and> n = 1")
    case T: True
    then have "append_fixed Role_microsoft_reserved Fs_none Create_reserved kMsrSize [] st = Inr st'"
      using assms(1) False by (simp add: place_fixed_def split: if_split_asm)
    from append_fixed_spec [OF this c] T False assms(2) show ?thesis by (auto simp: fixed_roles_def)
  next
    case F: False
    then have "st' = st" using assms(1) False by (auto simp: place_fixed_def split: if_split_asm)
    then show ?thesis using F False assms by (auto simp: fixed_roles_def)
  qed
qed

definition planned_from :: "migration_partition_style \<Rightarrow> shrink_source_partition \<Rightarrow> shrink_planned_partition \<Rightarrow> bool"
where
  "planned_from target_style p q \<longleftrightarrow>
     spp_source_table_index q = Some (ssp_source_table_index p) \<and> spp_role q = ssp_role p \<and>
     spp_file_system q = ssp_file_system p \<and> spp_action q = content_action p \<and>
     spp_source_size_bytes q = ssp_source_size_bytes p \<and> spp_source_used_bytes q = ssp_used_bytes p \<and>
     spp_label q = ssp_label p \<and> spp_active q = (target_style = Style_mbr \<and> ssp_active p)"

definition placed_minimal ::
  "migration_partition_style \<Rightarrow> shrink_source_partition \<Rightarrow> shrink_planned_partition \<Rightarrow> bool" where
  "placed_minimal target_style p q \<longleftrightarrow>
     planned_from target_style p q \<and> content_minimum_size p = Inr (spp_size_bytes q)"

lemma place_content_spec:
  assumes "place_content style ps st = Inr st'"
    and "chained lo (ls_partitions st) (unat (ls_cursor st))"
  shows "\<exists>qs. ls_partitions st' = ls_partitions st @ qs \<and> list_all2 (placed_minimal style) ps qs \<and>
    chained lo (ls_partitions st') (unat (ls_cursor st'))"
  using assms
proof (induction ps arbitrary: st)
  case (Cons p ps)
  obtain m a c where m: "content_minimum_size p = Inr m" and a: "align_up (ls_cursor st) kAlignment = Inr a"
    and c: "checked_add a m = Some c"
    and rest: "place_content style ps
      \<lparr>ls_cursor = c, ls_target_number = ls_target_number st + 1,
       ls_partitions = ls_partitions st @
         [\<lparr>spp_target_number = ls_target_number st,
           spp_source_table_index = Some (ssp_source_table_index p), spp_role = ssp_role p,
           spp_file_system = ssp_file_system p, spp_action = content_action p,
           spp_offset_bytes = a, spp_size_bytes = m,
           spp_source_size_bytes = ssp_source_size_bytes p, spp_source_used_bytes = ssp_used_bytes p,
           spp_label = ssp_label p, spp_active = (style = Style_mbr \<and> ssp_active p)\<rparr>]\<rparr> = Inr st'"
    (is "place_content _ _ \<lparr>ls_cursor = c, ls_target_number = _, ls_partitions = _ @ [?q]\<rparr> = _")
    using Cons.prems(1)
    by (auto simp: Let_def case_result_Inr_iff minimum_shrink_partition_bytes_def)
  have q: "placed_minimal style p ?q" using m by (simp add: placed_minimal_def planned_from_def)
  have "chained lo (ls_partitions st @ [?q]) (unat c)"
    by (rule chained_snoc [OF Cons.prems(2)]) (use align_up_spec [OF a] checked_add_SomeD [OF c] in simp_all)
  from Cons.IH [OF rest, simplified, OF this] obtain qs
    where "ls_partitions st' = (ls_partitions st @ [?q]) @ qs" "list_all2 (placed_minimal style) ps qs"
      "chained lo (ls_partitions st') (unat (ls_cursor st'))" by auto
  then show ?case using q by (intro exI [of _ "?q # qs"]) simp
qed simp

definition first_usable_byte :: "migration_partition_style \<Rightarrow> nat" where
  "first_usable_byte style = (if style = Style_gpt then 2 * mib else mib)"

lemma place_minimum_spec:
  assumes "place_minimum request sc = Inr st"
  shows "\<exists>fixed qs. ls_partitions st = fixed @ qs \<and>
    map spp_role fixed = fixed_roles request (sc_msr_count sc) \<and>
    (\<forall>q \<in> set fixed. spp_source_table_index q = None) \<and>
    list_all2 (placed_minimal (smr_target_style request)) (order_content request (sc_content sc)) qs \<and>
    chained (first_usable_byte (smr_target_style request)) (ls_partitions st) (unat (ls_cursor st))"
proof -
  let ?st = "\<lparr>ls_cursor = (if smr_target_style request = Style_gpt then kGptMetadataReserve else kMbrMetadataReserve),
          ls_target_number = 1, ls_partitions = []\<rparr>"
  obtain st1 where 1: "place_fixed request (sc_msr_count sc) ?st = Inr st1"
    and 2: "place_content (smr_target_style request) (order_content request (sc_content sc)) st1 = Inr st"
    using assms by (auto simp: place_minimum_def case_result_Inr_iff Let_def)
  have "chained (first_usable_byte (smr_target_style request)) [] (unat (ls_cursor ?st))"
    by (simp add: first_usable_byte_def)
  from place_fixed_spec [OF 1 _ this] place_content_spec [OF 2] show ?thesis
    by (metis layout_state.select_convs(3))
qed

section \<open>Growing the partitions\<close>

definition total_bytes :: "u64 list \<Rightarrow> nat" where
  "total_bytes growth = sum_list (map unat growth)"

lemma total_bytes_simps [simp]:
  "total_bytes [] = 0" "total_bytes (g # gs) = unat g + total_bytes gs"
  "total_bytes (replicate n 0) = 0"
  by (simp_all add: total_bytes_def map_replicate sum_list_replicate)

lemma total_bytes_update:
  "i < length gs \<Longrightarrow> total_bytes (gs[i := x]) + unat (gs ! i) = total_bytes gs + unat x"
proof (induction gs arbitrary: i)
  case (Cons g gs)
  then show ?case by (cases i) fastforce+
qed simp

lemma total_bytes_nth: "i < length gs \<Longrightarrow> unat (gs ! i) \<le> total_bytes gs"
  using total_bytes_update [of i gs 0] by simp

definition grown_from :: "shrink_planned_partition \<Rightarrow> u64 \<Rightarrow> shrink_planned_partition \<Rightarrow> bool" where
  "grown_from p g q \<longleftrightarrow>
     q = p\<lparr>spp_offset_bytes := spp_offset_bytes q, spp_size_bytes := spp_size_bytes q\<rparr> \<and>
     unat (spp_size_bytes q) = unat (spp_size_bytes p) + unat g"

lemma apply_growth_spec:
  assumes "chained lo ps hi" "length gs = length ps" "mib dvd unat pre"
    "\<forall>g \<in> set gs. mib dvd unat g" "hi + unat pre + total_bytes gs < 2 ^ 64"
  shows "\<exists>qs fin. apply_growth (zip ps gs) pre = Inr (qs, fin) \<and> unat fin = unat pre + total_bytes gs \<and>
    chained (lo + unat pre) qs (hi + unat fin) \<and> length qs = length ps \<and>
    (\<forall>i < length ps. grown_from (ps ! i) (gs ! i) (qs ! i))"
  using assms
proof (induction ps arbitrary: lo gs pre)
  case (Cons p ps)
  obtain g gs' where gs: "gs = g # gs'" using Cons.prems(2) by (cases gs) auto
  have ch: "lo \<le> unat (spp_offset_bytes p)" "mib dvd unat (spp_offset_bytes p)"
    "chained (unat (spp_offset_bytes p) + unat (spp_size_bytes p)) ps hi"
    using Cons.prems(1) by auto
  note le = chained_le [OF ch(3)]
  define pre' where "pre' = pre + g"
  have o: "checked_add (spp_offset_bytes p) pre = Some (spp_offset_bytes p + pre)"
    "unat (spp_offset_bytes p + pre) = unat (spp_offset_bytes p) + unat pre"
    using le Cons.prems(5) gs by (auto intro!: checked_add_unat unat_add_u64)
  have s: "checked_add (spp_size_bytes p) g = Some (spp_size_bytes p + g)"
    "unat (spp_size_bytes p + g) = unat (spp_size_bytes p) + unat g"
    using le Cons.prems(5) gs by (auto intro!: checked_add_unat unat_add_u64)
  have n: "checked_add pre g = Some pre'" "unat pre' = unat pre + unat g"
    using Cons.prems(5) gs unfolding pre'_def by (auto intro!: checked_add_unat unat_add_u64)
  have "mib dvd unat pre'" using Cons.prems(3,4) gs n(2) by simp
  with Cons.IH [OF ch(3), of gs' pre'] obtain qs fin
    where IH: "apply_growth (zip ps gs') pre' = Inr (qs, fin)" "unat fin = unat pre' + total_bytes gs'"
      "chained (unat (spp_offset_bytes p) + unat (spp_size_bytes p) + unat pre') qs (hi + unat fin)"
      "length qs = length ps" "\<forall>i < length ps. grown_from (ps ! i) (gs' ! i) (qs ! i)"
    using Cons.prems gs n(2) by auto
  let ?q = "p\<lparr>spp_offset_bytes := spp_offset_bytes p + pre, spp_size_bytes := spp_size_bytes p + g\<rparr>"
  have c: "chained (lo + unat pre) (?q # qs) (hi + unat fin)"
    using IH(3) ch(1,2) Cons.prems(3) o(2) s(2) n(2) by (simp add: add_ac)
  have q: "grown_from p g ?q" using s(2) by (simp add: grown_from_def)
  have "\<forall>i < length (p # ps). grown_from ((p # ps) ! i) (gs ! i) ((?q # qs) ! i)"
    using IH(5) q gs by (simp add: All_less_Suc2)
  then show ?case
    using IH(1,2,4) c n(2) gs o(1) s(1) n(1)
    by (intro exI [of _ "?q # qs"] exI [of _ fin]) simp
qed simp

section \<open>Sharing the surplus\<close>

text \<open>A share is the proportional part, rounded down to whole MiB.\<close>

definition share_bytes :: "nat \<Rightarrow> nat \<Rightarrow> nat \<Rightarrow> nat" where
  "share_bytes d w tw = d * w div tw div mib * mib"

lemma share_bytes_le: "share_bytes d w tw * tw \<le> d * w"
proof -
  have "share_bytes d w tw * tw \<le> (d * w div tw) * tw"
    unfolding share_bytes_def by (intro mult_le_mono1) (simp add: div_times_less_eq_dividend)
  also have "\<dots> \<le> d * w" by (simp add: div_times_less_eq_dividend)
  finally show ?thesis .
qed

lemma share_bytes_gt: "0 < tw \<Longrightarrow> d * w < (share_bytes d w tw + mib) * tw"
proof -
  assume "0 < tw"
  then have "d * w < (d * w div (tw * mib) + 1) * (tw * mib)"
    by (metis dividend_less_div_times add.commute mult.commute mult_Suc_right nat_0_less_mult_iff
      Suc_eq_plus1 zero_less_numeral)
  then show ?thesis by (simp add: share_bytes_def div_mult2_eq [symmetric] algebra_simps)
qed

lemma share_bytes_sum_le:
  "0 < sum_list ws \<Longrightarrow> sum_list (map (\<lambda>w. share_bytes d w (sum_list ws)) ws) \<le> d"
proof -
  assume pos: "0 < sum_list ws"
  have "sum_list (map (\<lambda>w. share_bytes d w (sum_list ws)) vs) * sum_list ws \<le> d * sum_list vs" for vs
  proof (induction vs)
    case (Cons v vs)
    then show ?case
      using share_bytes_le [of d v "sum_list ws"] by (simp add: algebra_simps)
  qed simp
  from this [of ws] pos show ?thesis by simp
qed

lemma share_bytes_sum_gt:
  "0 < sum_list ws \<Longrightarrow>
   d < sum_list (map (\<lambda>w. share_bytes d w (sum_list ws)) ws) + mib * length ws"
proof -
  assume pos: "0 < sum_list ws"
  have "vs \<noteq> [] \<Longrightarrow> d * sum_list vs <
    (sum_list (map (\<lambda>w. share_bytes d w (sum_list ws)) vs) + mib * length vs) * sum_list ws" for vs
  proof (induction vs)
    case (Cons v vs)
    then show ?case
      using share_bytes_gt [OF pos, of d v] by (cases "vs = []") (auto simp: algebra_simps)
  qed simp
  from this [of ws] pos show ?thesis by (cases "ws = []") auto
qed

definition weights :: "shrink_planned_partition list \<Rightarrow> nat list \<Rightarrow> nat list" where
  "weights ps ix = map (\<lambda>i. unat (surplus_weight (ps ! i))) ix"

lemma weights_simps [simp]:
  "weights ps [] = []" "weights ps (i # ix) = unat (surplus_weight (ps ! i)) # weights ps ix"
  "length (weights ps ix) = length ix"
  by (simp_all add: weights_def)

lemma surplus_weight_pos: "0 < unat (surplus_weight p)"
proof -
  have "kMiB \<le> surplus_weight p" by (simp add: surplus_weight_def)
  then show ?thesis by (simp add: word_le_nat_alt)
qed

lemma add_weights_fits:
  "unat t + sum_list (weights ps ix) < 2 ^ 64 \<Longrightarrow>
   \<exists>w. add_weights ps ix t = Inr w \<and> unat w = unat t + sum_list (weights ps ix)"
proof (induction ix arbitrary: t)
  case (Cons i ix)
  then have "checked_add t (surplus_weight (ps ! i)) = Some (t + surplus_weight (ps ! i))"
    "unat (t + surplus_weight (ps ! i)) = unat t + unat (surplus_weight (ps ! i))"
    by (auto intro!: checked_add_unat unat_add_u64)
  with Cons.IH [of "t + surplus_weight (ps ! i)"] Cons.prems show ?case by (simp add: add.assoc)
qed simp

lemma add_weights_overflows:
  "2 ^ 64 \<le> unat t + sum_list (weights ps ix) \<Longrightarrow>
   add_weights ps ix t = Inl (mk_error Invalid_data ERROR_ARITHMETIC_OVERFLOW)"
proof (induction ix arbitrary: t)
  case Nil
  then show ?case using unat_u64_bound [of t] by simp
next
  case (Cons i ix)
  show ?case
  proof (cases "checked_add t (surplus_weight (ps ! i))")
    case (Some t')
    from Cons.IH [of t'] Cons.prems checked_add_SomeD [OF Some] show ?thesis by (simp add: Some)
  qed simp
qed

lemma share_word:
  assumes "unat q = d * w div tw" 
  shows "unat (q div kMiB * kMiB) = share_bytes d w tw"
proof -
  have "unat (q div kMiB) = unat q div mib" by (simp add: unat_div)
  moreover have "unat q div mib * mib \<le> unat q" by simp
  ultimately show ?thesis
    using unat_u64_bound [of q] by (subst unat_mult_u64) (simp_all add: share_bytes_def assms)
qed

definition whole_mib :: "u64 list \<Rightarrow> bool" where
  "whole_mib growth \<longleftrightarrow> (\<forall>g \<in> set growth. mib dvd unat g)"

lemma whole_mib_update: "whole_mib gs \<Longrightarrow> mib dvd unat x \<Longrightarrow> whole_mib (gs[i := x])"
  unfolding whole_mib_def using set_update_subset_insert by fastforce

lemma add_shares_spec:
  assumes "distinct ix" "\<forall>i \<in> set ix. i < length gs \<and> gs ! i = 0 \<and> surplus_weight (ps ! i) \<le> tw"
    "unat allocated + sum_list (map (\<lambda>w. share_bytes (unat d) w (unat tw)) (weights ps ix)) < 2 ^ 64"
    "whole_mib gs"
  shows "\<exists>gs' a. add_shares ps d tw ix gs allocated = Inr (gs', a) \<and>
    unat a = unat allocated + sum_list (map (\<lambda>w. share_bytes (unat d) w (unat tw)) (weights ps ix)) \<and>
    total_bytes gs' = total_bytes gs + sum_list (map (\<lambda>w. share_bytes (unat d) w (unat tw)) (weights ps ix)) \<and>
    length gs' = length gs \<and> (\<forall>j. j \<notin> set ix \<longrightarrow> gs' ! j = gs ! j) \<and> whole_mib gs'"
  using assms
proof (induction ix arbitrary: gs allocated)
  case (Cons i ix)
  have i: "i < length gs" "gs ! i = 0" "surplus_weight (ps ! i) \<le> tw" using Cons.prems(2) by auto
  have pos: "0 < tw" using i(3) surplus_weight_pos [of "ps ! i"] by (simp add: word_le_nat_alt word_less_nat_alt)
  obtain q where q: "multiply_divide_floor d (surplus_weight (ps ! i)) tw = Inr q"
    "unat q = unat d * unat (surplus_weight (ps ! i)) div unat tw"
    using multiply_divide_floor_spec [OF i(3) pos] by blast
  define g where "g = q div kMiB * kMiB"
  have g: "unat g = share_bytes (unat d) (unat (surplus_weight (ps ! i))) (unat tw)"
    unfolding g_def by (rule share_word) (rule q(2))
  have dvd: "mib dvd unat g" unfolding g by (simp add: share_bytes_def)
  have fit: "unat allocated + unat g < 2 ^ 64" using Cons.prems(3) by (simp add: g)
  note a = checked_add_unat [OF fit] unat_add_u64 [OF fit]
  have others: "\<forall>j \<in> set ix. j < length (gs[i := g]) \<and> gs[i := g] ! j = 0 \<and> surplus_weight (ps ! j) \<le> tw"
    using Cons.prems(1,2) by (auto simp: nth_list_update)
  have "unat (allocated + g) +
    sum_list (map (\<lambda>w. share_bytes (unat d) w (unat tw)) (weights ps ix)) < 2 ^ 64"
    using Cons.prems(3) a(2) g by simp
  from Cons.IH [OF _ others this whole_mib_update [OF Cons.prems(4) dvd]] Cons.prems(1)
  obtain gs' b where IH: "add_shares ps d tw ix (gs[i := g]) (allocated + g) = Inr (gs', b)"
    "unat b = unat (allocated + g) + sum_list (map (\<lambda>w. share_bytes (unat d) w (unat tw)) (weights ps ix))"
    "total_bytes gs' = total_bytes (gs[i := g]) +
      sum_list (map (\<lambda>w. share_bytes (unat d) w (unat tw)) (weights ps ix))"
    "length gs' = length (gs[i := g])" "\<forall>j. j \<notin> set ix \<longrightarrow> gs' ! j = gs[i := g] ! j" "whole_mib gs'"
    by auto
  have "total_bytes (gs[i := g]) = total_bytes gs + unat g"
    using total_bytes_update [OF i(1), of g] i(2) by simp
  then show ?case
    using IH a g i(1) by (intro exI [of _ gs'] exI [of _ b]) (simp add: q(1) Let_def flip: g_def)
qed simp

lemma add_remaining_spec:
  assumes "distinct ix" "\<forall>i \<in> set ix. i < length gs" "total_bytes gs + unat rest < 2 ^ 64" "whole_mib gs"
  shows "total_bytes (add_remaining ix rest gs) =
      total_bytes gs + mib * min (length ix) (unat rest div mib) \<and>
    length (add_remaining ix rest gs) = length gs \<and>
    (\<forall>j. j \<notin> set ix \<longrightarrow> add_remaining ix rest gs ! j = gs ! j) \<and> whole_mib (add_remaining ix rest gs)"
  using assms
proof (induction ix arbitrary: gs rest)
  case (Cons i ix)
  show ?case
  proof (cases "rest < kMiB")
    case True
    then have "unat rest div mib = 0" by (simp add: word_less_nat_alt)
    then show ?thesis using True Cons.prems(4) by simp
  next
    case False
    then have ge: "mib \<le> unat rest" by (simp add: word_le_nat_alt not_less)
    have i: "i < length gs" using Cons.prems(2) by simp
    have r: "unat (rest - kMiB) = unat rest - mib"
      using False by (simp add: unat_sub_u64 not_less)
    have g: "unat (gs ! i + kMiB) = unat (gs ! i) + mib"
      using total_bytes_nth [OF i] ge Cons.prems(3) by (subst unat_add_u64) simp_all
    have t: "total_bytes (gs[i := gs ! i + kMiB]) = total_bytes gs + mib"
      using total_bytes_update [OF i, of "gs ! i + kMiB"] g by simp
    have "mib dvd unat (gs ! i + kMiB)"
      using Cons.prems(4) i unfolding g by (simp add: whole_mib_def)
    note w = whole_mib_update [OF Cons.prems(4) this]
    have d: "unat rest div mib = Suc ((unat rest - mib) div mib)"
      using ge by (simp add: le_div_geq)
    have sum: "total_bytes (gs[i := gs ! i + kMiB]) + unat (rest - kMiB) < 2 ^ 64"
      using t r ge Cons.prems(3) by simp
    have "distinct ix" "\<forall>j \<in> set ix. j < length (gs[i := gs ! i + kMiB])" using Cons.prems(1,2) by auto
    from Cons.IH [OF this sum w [of i]] show ?thesis using False t r d by simp
  qed
qed simp

lemma expandable_indexes_iff:
  "i \<in> set (expandable_indexes ps) \<longleftrightarrow> i < length ps \<and> expandable_partition (ps ! i)"
  by (auto simp: expandable_indexes_def)

lemma distinct_expandable: "distinct (expandable_indexes ps)"
  by (simp add: expandable_indexes_def)

definition surplus_weights :: "shrink_planned_partition list \<Rightarrow> nat" where
  "surplus_weights ps = sum_list (weights ps (expandable_indexes ps))"

lemma weight_le_sum: "i \<in> set ix \<Longrightarrow> unat (surplus_weight (ps ! i)) \<le> sum_list (weights ps ix)"
  by (induction ix) auto

definition may_grow :: "shrink_migration_request \<Rightarrow> shrink_planned_partition \<Rightarrow> bool" where
  "may_grow request p \<longleftrightarrow>
     expandable_partition p \<and> smr_surplus_allocation request \<noteq> Leave_unallocated \<and>
     (smr_surplus_allocation request = Selected_data_partition \<longrightarrow>
       spp_source_table_index p = smr_surplus_target_source_table_index request)"

text \<open>A growth of the partitions that hands out exactly \<open>d\<close> bytes where the request wants them.\<close>

definition proper_growth :: "shrink_migration_request \<Rightarrow> nat \<Rightarrow> shrink_planned_partition list \<Rightarrow> u64 list \<Rightarrow> bool"
where
  "proper_growth request d ps gs \<longleftrightarrow>
     length gs = length ps \<and> whole_mib gs \<and>
     total_bytes gs = (if expandable_indexes ps = [] then 0 else d) \<and>
     (\<forall>i < length ps. \<not> may_grow request (ps ! i) \<longrightarrow> gs ! i = 0)"

lemma whole_mib_zeros: "whole_mib (replicate n 0)"
  by (simp add: whole_mib_def)

lemma surplus_growth_proportional:
  assumes "smr_surplus_allocation request = Automatic_proportional" "surplus_weights ps < 2 ^ 64"
    "mib dvd unat d"
  shows "\<exists>gs. surplus_growth request d ps = Inr gs \<and> proper_growth request (unat d) ps gs"
proof -
  let ?ix = "expandable_indexes ps" and ?zeros = "replicate (length ps) 0 :: u64 list"
  obtain tw where tw: "add_weights ps ?ix 0 = Inr tw" "unat tw = sum_list (weights ps ?ix)"
    using add_weights_fits [of 0 ps ?ix] assms(2) by (auto simp: surplus_weights_def)
  let ?shares = "sum_list (map (\<lambda>w. share_bytes (unat d) w (unat tw)) (weights ps ?ix))"
  show ?thesis
  proof (cases "?ix = []")
    case True
    have "surplus_growth request d ps = Inr ?zeros"
      using assms(1) True tw by (simp add: surplus_growth_def)
    then show ?thesis using True by (simp add: proper_growth_def whole_mib_zeros)
  next
    case False
    then obtain i ix where ix: "?ix = i # ix" by (cases ?ix) auto
    have pos: "0 < sum_list (weights ps ?ix)" using surplus_weight_pos [of "ps ! i"] by (simp add: ix)
    have le: "?shares \<le> unat d" unfolding tw(2) by (rule share_bytes_sum_le [OF pos])
    have gt: "unat d < ?shares + mib * length ?ix"
      using share_bytes_sum_gt [OF pos, of "unat d"] by (simp add: tw(2))
    have ok: "\<forall>i \<in> set ?ix. i < length ?zeros \<and> ?zeros ! i = 0 \<and> surplus_weight (ps ! i) \<le> tw"
      using weight_le_sum [of _ ?ix ps] by (auto simp: expandable_indexes_iff word_le_nat_alt tw(2))
    have "unat (0 :: u64) + ?shares < 2 ^ 64" using le unat_u64_bound [of d] by simp
    from add_shares_spec [OF distinct_expandable ok this whole_mib_zeros]
    obtain gs a where gs: "add_shares ps d tw ?ix ?zeros 0 = Inr (gs, a)" "unat a = ?shares"
      "total_bytes gs = ?shares" "length gs = length ps" "\<forall>j. j \<notin> set ?ix \<longrightarrow> gs ! j = ?zeros ! j" "whole_mib gs"
      by auto
    have rest: "unat (d - a) = unat d - ?shares"
      using le gs(2) by (simp add: unat_sub_u64 word_le_nat_alt)
    have ok2: "\<forall>i \<in> set ?ix. i < length gs" using gs(4) by (simp add: expandable_indexes_iff)
    have "total_bytes gs + unat (d - a) < 2 ^ 64" using gs(3) rest le unat_u64_bound [of d] by simp
    from add_remaining_spec [OF distinct_expandable ok2 this gs(6)]
    have r: "total_bytes (add_remaining ?ix (d - a) gs) =
        ?shares + mib * min (length ?ix) ((unat d - ?shares) div mib)"
      "length (add_remaining ?ix (d - a) gs) = length ps"
      "\<forall>j. j \<notin> set ?ix \<longrightarrow> add_remaining ?ix (d - a) gs ! j = ?zeros ! j"
      "whole_mib (add_remaining ?ix (d - a) gs)"
      using gs rest by simp_all
    have "mib dvd sum_list (map (\<lambda>w. share_bytes (unat d) w (unat tw)) ws)" for ws
      by (induction ws) (simp_all add: share_bytes_def)
    then have "mib dvd ?shares" .
    then have dvd: "mib dvd unat d - ?shares" using assms(3) by (simp add: dvd_diff_nat)
    have "unat d - ?shares < mib * length ?ix" using gt le by linarith
    then have "(unat d - ?shares) div mib < length ?ix" by (simp add: less_mult_imp_div_less mult.commute)
    then have all: "total_bytes (add_remaining ?ix (d - a) gs) = unat d"
      using r(1) dvd le by (simp add: min_absorb2)
    have "surplus_growth request d ps = Inr (add_remaining ?ix (d - a) gs)"
      using assms(1) gs(1) tw(1) by (simp add: surplus_growth_def Let_def)
    moreover have "proper_growth request (unat d) ps (add_remaining ?ix (d - a) gs)"
      using all r False assms(1) by (auto simp: proper_growth_def may_grow_def expandable_indexes_iff)
    ultimately show ?thesis by blast
  qed
qed

lemma surplus_growth_selected:
  assumes "smr_surplus_allocation request = Selected_data_partition" "mib dvd unat d"
    "\<exists>p \<in> set ps. expandable_partition p \<and>
      spp_source_table_index p = smr_surplus_target_source_table_index request"
  shows "\<exists>gs. surplus_growth request d ps = Inr gs \<and> proper_growth request (unat d) ps gs"
proof -
  let ?sel = "\<lambda>i. spp_source_table_index (ps ! i) = smr_surplus_target_source_table_index request"
  obtain k where "k < length ps" "expandable_partition (ps ! k)" "?sel k"
    using assms(3) by (metis in_set_conv_nth)
  then have "k \<in> set (expandable_indexes ps)" "?sel k" by (simp_all add: expandable_indexes_iff)
  then obtain i where i: "find ?sel (expandable_indexes ps) = Some i"
    by (cases "find ?sel (expandable_indexes ps)") (auto simp: find_None_iff)
  then have i: "find ?sel (expandable_indexes ps) = Some i" "i \<in> set (expandable_indexes ps)" "?sel i"
    by (auto simp: find_Some_iff)
  then have "expandable_indexes ps \<noteq> []" by auto
  with i(2,3) have i': "i < length ps" "expandable_partition (ps ! i)" "?sel i" "expandable_indexes ps \<noteq> []"
    by (simp_all add: expandable_indexes_iff)
  let ?gs = "(replicate (length ps) 0)[i := d]"
  have "proper_growth request (unat d) ps ?gs"
    using i' assms total_bytes_update [of i "replicate (length ps) 0" d]
    by (auto simp: proper_growth_def may_grow_def nth_list_update
      intro!: whole_mib_update whole_mib_zeros)
  moreover have "surplus_growth request d ps = Inr ?gs"
    using assms(1) i by (simp add: surplus_growth_def Let_def)
  ultimately show ?thesis by blast
qed

lemma minimum_target_size_spec:
  assumes "minimum_target_size c = Inr m"
  shows "unat c + 2 * mib \<le> unat m" "unat m < unat c + 3 * mib"
proof -
  obtain t where t: "checked_add c kGptMetadataReserve = Some t" "align_up t kAlignment = Inr m"
    using assms by (auto simp: minimum_target_size_def case_result_Inr_iff)
  show "unat c + 2 * mib \<le> unat m" "unat m < unat c + 3 * mib"
    using align_up_spec [OF t(2)] checked_add_SomeD [OF t(1)] by simp_all
qed

lemma rounded_down_mib:
  fixes x :: u64
  shows "unat (x div kAlignment * kAlignment) = unat x div mib * mib"
  by (subst unat_mult_u64) (use unat_u64_bound [of x] in \<open>simp_all add: unat_div\<close>)

text \<open>Every partition of the final layout is one of the minimal layout, moved and perhaps grown.\<close>

definition grown_as_allowed ::
  "shrink_migration_request \<Rightarrow> shrink_planned_partition \<Rightarrow> shrink_planned_partition \<Rightarrow> bool" where
  "grown_as_allowed request p q \<longleftrightarrow> (\<exists>g. grown_from p g q \<and> (g \<noteq> 0 \<longrightarrow> may_grow request p))"

definition selection_placed :: "shrink_migration_request \<Rightarrow> shrink_planned_partition list \<Rightarrow> bool" where
  "selection_placed request ps \<longleftrightarrow>
     (smr_surplus_allocation request = Selected_data_partition \<longrightarrow>
       (\<exists>p \<in> set ps. expandable_partition p \<and>
         spp_source_table_index p = smr_surplus_target_source_table_index request))"

definition surplus_weights_fit ::
  "shrink_migration_request \<Rightarrow> u64 \<Rightarrow> shrink_planned_partition list \<Rightarrow> bool" where
  "surplus_weights_fit request m ps \<longleftrightarrow>
     (smr_surplus_allocation request = Automatic_proportional \<and>
      unat m + mib \<le> unat (smr_target_size_bytes request) \<longrightarrow> surplus_weights ps < 2 ^ 64)"

lemma distribute_surplus_spec:
  assumes ch: "chained lo (ls_partitions st) (unat (ls_cursor st))"
    and m: "minimum_target_size (ls_cursor st) = Inr m" and fits: "m \<le> smr_target_size_bytes request"
    and sel: "selection_placed request (ls_partitions st)"
    and w: "surplus_weights_fit request m (ls_partitions st)"
  shows "\<exists>st'. distribute_surplus request (smr_target_size_bytes request - m) st = Inr st' \<and>
    chained lo (ls_partitions st') (unat (ls_cursor st')) \<and>
    unat (ls_cursor st') + 2 * mib \<le> unat (smr_target_size_bytes request) \<and>
    list_all2 (grown_as_allowed request) (ls_partitions st) (ls_partitions st') \<and>
    (smr_surplus_allocation request \<noteq> Leave_unallocated \<longrightarrow>
     (\<exists>p \<in> set (ls_partitions st). expandable_partition p) \<longrightarrow>
     unat (smr_target_size_bytes request) < unat (ls_cursor st') + 4 * mib)"
proof -
  let ?target = "smr_target_size_bytes request" and ?ps = "ls_partitions st"
  define extra where "extra = ?target - m"
  have extra: "unat extra = unat ?target - unat m" "unat m \<le> unat ?target"
    using fits unfolding extra_def by (simp_all add: unat_sub_u64 word_le_nat_alt)
  note bounds = minimum_target_size_spec [OF m]
  have same: "list_all2 (grown_as_allowed request) ?ps ?ps"
    by (rule list_all2_refl) (auto simp: grown_as_allowed_def grown_from_def intro: exI [of _ 0])
  show ?thesis
  proof (cases "smr_surplus_allocation request \<noteq> Leave_unallocated \<and> extra \<ge> kAlignment")
    case False
    then have "distribute_surplus request extra st = Inr st" by (auto simp: distribute_surplus_def)
    moreover have "smr_surplus_allocation request \<noteq> Leave_unallocated \<Longrightarrow> unat extra < mib"
      using False by (simp add: word_le_nat_alt not_le)
    ultimately show ?thesis using ch bounds extra same unfolding extra_def [symmetric] by auto
  next
    case True
    define d where "d = extra div kAlignment * kAlignment"
    have d: "unat d = unat extra div mib * mib" unfolding d_def by (rule rounded_down_mib)
    have near: "unat d \<le> unat extra" "unat extra < unat d + mib" unfolding d
      by (simp, metis add.commute dividend_less_div_times zero_less_numeral)
    have dvd: "mib dvd unat d" unfolding d by simp
    have "unat m + mib \<le> unat ?target" using True extra by (auto simp: word_le_nat_alt)
    with w have w': "smr_surplus_allocation request = Automatic_proportional \<Longrightarrow> surplus_weights ?ps < 2 ^ 64"
      by (simp add: surplus_weights_fit_def)
    obtain gs where gs: "surplus_growth request d ?ps = Inr gs" "proper_growth request (unat d) ?ps gs"
    proof (cases "smr_surplus_allocation request")
      case Automatic_proportional
      then show thesis using surplus_growth_proportional [OF _ w' dvd] that by auto
    next
      case Selected_data_partition
      then show thesis using surplus_growth_selected [OF _ dvd] sel that
        by (auto simp: selection_placed_def)
    qed (use True in simp)
    have len: "length gs = length ?ps" and whole: "\<forall>g \<in> set gs. mib dvd unat g"
      and le: "total_bytes gs \<le> unat d" and total: "expandable_indexes ?ps \<noteq> [] \<Longrightarrow> total_bytes gs = unat d"
      and zero: "\<And>i. i < length ?ps \<Longrightarrow> gs ! i \<noteq> 0 \<Longrightarrow> may_grow request (?ps ! i)"
      using gs(2) by (auto simp: proper_growth_def whole_mib_def split: if_splits)
    have room: "unat (ls_cursor st) + unat (0 :: u64) + total_bytes gs < 2 ^ 64"
      using bounds extra near le unat_u64_bound [of ?target] by simp
    obtain qs fin where qs: "apply_growth (zip ?ps gs) 0 = Inr (qs, fin)" "unat fin = total_bytes gs"
      "chained lo qs (unat (ls_cursor st) + unat fin)" "length qs = length ?ps"
      "\<forall>i < length ?ps. grown_from (?ps ! i) (gs ! i) (qs ! i)"
      using apply_growth_spec [OF ch len _ whole room] by auto
    have "unat (ls_cursor st) + unat fin < 2 ^ 64" using room qs(2) by simp
    note c = checked_add_unat [OF this] unat_add_u64 [OF this]
    have dist: "distribute_surplus request extra st =
      Inr (st\<lparr>ls_cursor := ls_cursor st + fin, ls_partitions := qs\<rparr>)"
      using True gs(1) qs(1) c(1) by (simp add: distribute_surplus_def Let_def flip: d_def)
    have grown: "list_all2 (grown_as_allowed request) ?ps qs"
      using qs(4,5) zero unfolding list_all2_conv_all_nth grown_as_allowed_def by metis
    have inside: "unat (ls_cursor st + fin) + 2 * mib \<le> unat ?target"
      using c(2) qs(2) le near bounds extra by simp
    have full: "\<exists>p \<in> set ?ps. expandable_partition p \<Longrightarrow>
      unat ?target < unat (ls_cursor st + fin) + 4 * mib"
    proof -
      assume "\<exists>p \<in> set ?ps. expandable_partition p"
      then obtain i where "i < length ?ps" "expandable_partition (?ps ! i)" by (metis in_set_conv_nth)
      then have "i \<in> set (expandable_indexes ?ps)" by (simp add: expandable_indexes_iff)
      then have "expandable_indexes ?ps \<noteq> []" by auto
      from total [OF this] show ?thesis using c(2) qs(2) near bounds extra by simp
    qed
    show ?thesis
      unfolding extra_def [symmetric] dist
      using qs(3) c(2) inside full grown by auto
  qed
qed

section \<open>The scan of the source\<close>

definition content_of :: "shrink_migration_request \<Rightarrow> shrink_source_partition list" where
  "content_of request = filter (\<lambda>p. is_content_role (ssp_role p)) (smr_source_partitions request)"

lemma scan_sources_content:
  "scan_sources sector previous ps st = Inr sc \<Longrightarrow>
   sc_content sc = sc_content st @ filter (\<lambda>p. is_content_role (ssp_role p)) ps"
proof (induction ps arbitrary: previous st)
  case (Cons p ps)
  show ?case
  proof (cases "ssp_role p = Role_efi_system \<or> ssp_role p = Role_microsoft_reserved")
    case True
    then show ?thesis using Cons.prems
      by (auto simp: case_result_Inr_iff is_content_role_def dest!: Cons.IH split: if_split_asm)
  next
    case False
    then obtain st1 where "scan_content sector p st = Inr st1"
      and rest: "scan_sources sector (previous @ [p]) ps st1 = Inr sc"
      using Cons.prems by (auto simp: case_result_Inr_iff)
    then have "is_content_role (ssp_role p)" "sc_content st1 = sc_content st @ [p]"
      by (auto simp: scan_content_def Let_def case_result_Inr_iff)
    with Cons.IH [OF rest] show ?thesis by simp
  qed
qed simp

lemma scan_request_spec:
  assumes "scan_request request = Inr sc"
  shows "check_shrink_request request = success_status" "sc_content sc = content_of request"
    "surplus_target_ok request (content_of request)" "content_of request \<noteq> []"
proof -
  from assms show c: "check_shrink_request request = success_status"
    by (auto simp: scan_request_def case_result_Inr_iff)
  from assms show e: "sc_content sc = content_of request"
    by (auto simp: scan_request_def case_result_Inr_iff content_of_def initial_scan_def
      dest!: scan_sources_content)
  from assms show "surplus_target_ok request (content_of request)" "content_of request \<noteq> []"
    unfolding e [symmetric] by (auto simp: scan_request_def case_result_Inr_iff)
qed

lemma set_order_content:
  "set (order_content request ps) =
   {p \<in> set ps. \<not> (smr_source_style request = Style_mbr \<and> smr_target_style request = Style_gpt \<and>
     ssp_role p = Role_bios_system)}"
  by (auto simp: order_content_def Let_def)

lemma data_archive_grows:
  "classify_shrink_file_system (ssp_file_system p) = File_archive \<Longrightarrow> content_action p \<noteq> Copy_exact_raw"
  by (cases "ssp_file_system p")
    (simp_all add: content_action_def empty_partition_action_def classify_shrink_file_system_def)

lemma find_SomeD: "find P xs = Some x \<Longrightarrow> x \<in> set xs \<and> P x"
  by (induction xs) (auto split: if_splits)

lemma list_all2_in: "list_all2 P xs ys \<Longrightarrow> x \<in> set xs \<Longrightarrow> \<exists>y \<in> set ys. P x y"
  by (induction rule: list_all2_induct) auto

lemma selection_is_placed:
  assumes scan: "scan_request request = Inr sc" and place: "place_minimum request sc = Inr st"
  shows "selection_placed request (ls_partitions st)"
  unfolding selection_placed_def
proof
  assume sel: "smr_surplus_allocation request = Selected_data_partition"
  note s = scan_request_spec [OF scan]
  from s(3) sel obtain p where p: "p \<in> set (content_of request)"
    "Some (ssp_source_table_index p) = smr_surplus_target_source_table_index request"
    "ssp_role p = Role_data" "classify_shrink_file_system (ssp_file_system p) = File_archive"
    by (auto simp: surplus_target_ok_def split: option.split_asm dest!: find_SomeD)
  have "p \<in> set (order_content request (sc_content sc))"
    using p(1,3) by (simp add: set_order_content s(2))
  moreover obtain fixed qs where qs: "ls_partitions st = fixed @ qs"
    "list_all2 (placed_minimal (smr_target_style request)) (order_content request (sc_content sc)) qs"
    using place_minimum_spec [OF place] by blast
  ultimately obtain q where "q \<in> set qs" "placed_minimal (smr_target_style request) p q"
    using list_all2_in [of "placed_minimal (smr_target_style request)"] by blast
  then show "\<exists>q \<in> set (ls_partitions st). expandable_partition q \<and>
      spp_source_table_index q = smr_surplus_target_source_table_index request"
    unfolding p(2) [symmetric] using data_archive_grows [OF p(4)] qs(1)
    by (auto simp: placed_minimal_def planned_from_def expandable_partition_def intro!: bexI [of _ q])
qed

lemma shrink_plan_fits:
  assumes "unat (ls_cursor st) + 2 * mib \<le> unat (smr_target_size_bytes request)"
  shows "shrink_plan request m st = Inr
    \<lparr>smp_target_style = smr_target_style request, smp_alignment_bytes = kAlignment,
     smp_minimum_target_size_bytes = m, smp_target_size_bytes = smr_target_size_bytes request,
     smp_unallocated_tail_bytes = smr_target_size_bytes request - kGptMetadataReserve - ls_cursor st,
     smp_surplus_target_source_table_index = smr_surplus_target_source_table_index request,
     smp_source_remains_unchanged = True,
     smp_boot_finalization_required = smr_source_is_windows_system request,
     smp_target_partitions = ls_partitions st\<rparr>"
    "unat (smr_target_size_bytes request - kGptMetadataReserve - ls_cursor st) =
     unat (smr_target_size_bytes request) - 2 * mib - unat (ls_cursor st)"
proof -
  have "kGptMetadataReserve \<le> smr_target_size_bytes request"
    using assms by (simp add: word_le_nat_alt)
  then have t: "unat (smr_target_size_bytes request - kGptMetadataReserve) =
    unat (smr_target_size_bytes request) - 2 * mib"
    by (simp add: unat_sub_u64)
  then have "ls_cursor st \<le> smr_target_size_bytes request - kGptMetadataReserve"
    using assms by (simp add: word_le_nat_alt)
  then show "shrink_plan request m st = Inr
    \<lparr>smp_target_style = smr_target_style request, smp_alignment_bytes = kAlignment,
     smp_minimum_target_size_bytes = m, smp_target_size_bytes = smr_target_size_bytes request,
     smp_unallocated_tail_bytes = smr_target_size_bytes request - kGptMetadataReserve - ls_cursor st,
     smp_surplus_target_source_table_index = smr_surplus_target_source_table_index request,
     smp_source_remains_unchanged = True,
     smp_boot_finalization_required = smr_source_is_windows_system request,
     smp_target_partitions = ls_partitions st\<rparr>"
    "unat (smr_target_size_bytes request - kGptMetadataReserve - ls_cursor st) =
     unat (smr_target_size_bytes request) - 2 * mib - unat (ls_cursor st)"
    using t by (simp_all add: shrink_plan_def unat_sub_u64 not_less)
qed

text \<open>The outcome of the planner, once the minimal layout is known.\<close>

lemma plan_outcome:
  assumes scan: "scan_request request = Inr sc" and place: "place_minimum request sc = Inr st"
    and m: "minimum_target_size (ls_cursor st) = Inr m"
    and fits: "m \<le> smr_target_size_bytes request"
    and w: "surplus_weights_fit request m (ls_partitions st)"
  obtains plan hi where "plan_shrink_migration request = Inr plan"
    "chained (first_usable_byte (smr_target_style request)) (smp_target_partitions plan) hi"
    "hi + 2 * mib + unat (smp_unallocated_tail_bytes plan) = unat (smr_target_size_bytes request)"
    "list_all2 (grown_as_allowed request) (ls_partitions st) (smp_target_partitions plan)"
    "smr_surplus_allocation request \<noteq> Leave_unallocated \<Longrightarrow>
     \<exists>p \<in> set (ls_partitions st). expandable_partition p \<Longrightarrow>
     unat (smp_unallocated_tail_bytes plan) < 2 * mib"
proof -
  have ch: "chained (first_usable_byte (smr_target_style request)) (ls_partitions st) (unat (ls_cursor st))"
    using place_minimum_spec [OF place] by blast
  obtain st' where d: "distribute_surplus request (smr_target_size_bytes request - m) st = Inr st'"
    and ch': "chained (first_usable_byte (smr_target_style request)) (ls_partitions st') (unat (ls_cursor st'))"
    and fits': "unat (ls_cursor st') + 2 * mib \<le> unat (smr_target_size_bytes request)"
    and g: "list_all2 (grown_as_allowed request) (ls_partitions st) (ls_partitions st')"
    and tail: "smr_surplus_allocation request \<noteq> Leave_unallocated \<longrightarrow>
     (\<exists>p \<in> set (ls_partitions st). expandable_partition p) \<longrightarrow>
     unat (smr_target_size_bytes request) < unat (ls_cursor st') + 4 * mib"
    using distribute_surplus_spec [OF ch m fits selection_is_placed [OF scan place] w] by blast
  note sp = shrink_plan_fits [OF fits']
  obtain plan where plan: "shrink_plan request m st' = Inr plan" "smp_target_partitions plan = ls_partitions st'"
    "unat (smp_unallocated_tail_bytes plan) = unat (smr_target_size_bytes request) - 2 * mib - unat (ls_cursor st')"
    using sp by simp
  have run: "plan_shrink_migration request = Inr plan"
    using scan place m fits d plan(1) by (simp add: plan_shrink_migration_def not_less)
  show thesis
    by (rule that [OF run, of "unat (ls_cursor st')"]) (use ch' fits' g tail in \<open>auto simp: plan\<close>)
qed

lemma surplus_weights_overflow:
  assumes "\<not> surplus_weights_fit request m (ls_partitions st)" "m \<le> smr_target_size_bytes request"
  shows "distribute_surplus request (smr_target_size_bytes request - m) st =
    Inl (mk_error Invalid_data ERROR_ARITHMETIC_OVERFLOW)"
proof -
  have "smr_surplus_allocation request = Automatic_proportional"
    "unat m + mib \<le> unat (smr_target_size_bytes request)"
    and w: "2 ^ 64 \<le> unat (0 :: u64) + sum_list (weights (ls_partitions st) (expandable_indexes (ls_partitions st)))"
    using assms(1) by (auto simp: surplus_weights_fit_def surplus_weights_def)
  then show ?thesis
    using assms(2) add_weights_overflows [OF w]
    by (simp add: distribute_surplus_def surplus_growth_def Let_def word_le_nat_alt unat_sub_u64)
qed

lemma plan_success:
  assumes "plan_shrink_migration request = Inr plan"
  obtains sc st m hi where "scan_request request = Inr sc" "place_minimum request sc = Inr st"
    "chained (first_usable_byte (smr_target_style request)) (smp_target_partitions plan) hi"
    "hi + 2 * mib + unat (smp_unallocated_tail_bytes plan) = unat (smr_target_size_bytes request)"
    "list_all2 (grown_as_allowed request) (ls_partitions st) (smp_target_partitions plan)"
    "smr_surplus_allocation request \<noteq> Leave_unallocated \<Longrightarrow>
     \<exists>p \<in> set (ls_partitions st). expandable_partition p \<Longrightarrow>
     unat (smp_unallocated_tail_bytes plan) < 2 * mib"
proof -
  obtain sc st m where s: "scan_request request = Inr sc" "place_minimum request sc = Inr st"
    "minimum_target_size (ls_cursor st) = Inr m" "m \<le> smr_target_size_bytes request"
    and d: "distribute_surplus request (smr_target_size_bytes request - m) st \<noteq>
      Inl (mk_error Invalid_data ERROR_ARITHMETIC_OVERFLOW)"
    using assms by (auto simp: plan_shrink_migration_def case_result_Inr_iff not_less)
  have "surplus_weights_fit request m (ls_partitions st)"
    using d surplus_weights_overflow s(4) by blast
  from plan_outcome [OF s this] assms that [OF s(1,2)] show thesis by (metis sum.inject(2))
qed

section \<open>The numbers of the partitions\<close>

definition numbered :: "shrink_planned_partition list \<Rightarrow> bool" where
  "numbered ps \<longleftrightarrow> (\<forall>i < length ps. spp_target_number (ps ! i) = of_nat (Suc i))"

definition numbered_state :: "layout_state \<Rightarrow> bool" where
  "numbered_state st \<longleftrightarrow>
     numbered (ls_partitions st) \<and> ls_target_number st = of_nat (Suc (length (ls_partitions st)))"

lemma numbered_state_snoc:
  "numbered_state st \<Longrightarrow> spp_target_number q = ls_target_number st \<Longrightarrow>
   numbered_state \<lparr>ls_cursor = c, ls_target_number = ls_target_number st + 1,
     ls_partitions = ls_partitions st @ [q]\<rparr>"
  by (simp add: numbered_state_def numbered_def nth_append less_Suc_eq)

lemma append_fixed_numbered:
  "append_fixed role fs action bytes label st = Inr st' \<Longrightarrow> numbered_state st \<Longrightarrow> numbered_state st'"
  by (auto simp: append_fixed_def case_result_Inr_iff intro!: numbered_state_snoc)

lemma place_fixed_numbered:
  "place_fixed request n st = Inr st' \<Longrightarrow> numbered_state st \<Longrightarrow> numbered_state st'"
  by (auto simp: place_fixed_def case_result_Inr_iff Let_def intro: append_fixed_numbered
    split: if_split_asm)

lemma place_content_numbered:
  "place_content style ps st = Inr st' \<Longrightarrow> numbered_state st \<Longrightarrow> numbered_state st'"
proof (induction ps arbitrary: st)
  case (Cons p ps)
  then show ?case
    by (auto simp: Let_def case_result_Inr_iff intro!: Cons.IH numbered_state_snoc)
qed simp

lemma place_minimum_numbered:
  assumes "place_minimum request sc = Inr st"
  shows "numbered (ls_partitions st)"
proof -
  have "numbered_state \<lparr>ls_cursor = c, ls_target_number = 1, ls_partitions = []\<rparr>" for c
    by (simp add: numbered_state_def numbered_def)
  then have "numbered_state st"
    using assms by (auto simp: place_minimum_def case_result_Inr_iff Let_def
      intro: place_content_numbered place_fixed_numbered)
  then show ?thesis by (simp add: numbered_state_def)
qed

lemma grown_numbered:
  assumes "list_all2 (grown_as_allowed request) ps qs" "numbered ps"
  shows "numbered qs"
proof -
  have same: "grown_as_allowed request p q \<Longrightarrow> spp_target_number q = spp_target_number p" for p q
    by (cases q) (auto simp: grown_as_allowed_def grown_from_def)
  show ?thesis
    using assms same by (auto simp: numbered_def list_all2_conv_all_nth)
qed

section \<open>A concrete request\<close>

text \<open>
  A data disk with a large NTFS partition, a partition of an unknown file system and an empty exFAT
  partition moves to a disk of 60 GiB.
\<close>

definition sample_source :: "u32 \<Rightarrow> migration_file_system \<Rightarrow> u64 \<Rightarrow> u64 \<Rightarrow> shrink_source_partition" where
  "sample_source index fs bytes used =
     \<lparr>ssp_source_table_index = index, ssp_role = Role_data, ssp_file_system = fs,
      ssp_source_size_bytes = bytes, ssp_used_bytes = used, ssp_minimum_target_bytes = 0,
      ssp_cluster_size = 4096, ssp_label = [], ssp_active = False\<rparr>"

definition sample_request :: "shrink_surplus_allocation \<Rightarrow> u64 \<Rightarrow> shrink_migration_request" where
  "sample_request allocation target =
     \<lparr>smr_source_style = Style_gpt, smr_target_style = Style_gpt, smr_target_size_bytes = target,
      smr_target_logical_sector_size = 512, smr_source_is_windows_system = False,
      smr_windows_is_amd64 = False, smr_bitlocker_fully_decrypted = True,
      smr_surplus_allocation = allocation,
      smr_surplus_target_source_table_index =
        (if allocation = Selected_data_partition then Some 0 else None),
      smr_source_partitions =
        [sample_source 0 Fs_ntfs (100 * kGiB) (10 * kGiB),
         sample_source 1 Fs_unsupported (2 * kGiB + 512) kGiB,
         sample_source 2 Fs_exfat (20 * kGiB) 0]\<rparr>"

lemmas sample_simps =
  plan_shrink_migration_def scan_request_def check_shrink_request_def sample_request_def sample_source_def
  initial_scan_def scan_content_def is_content_role_def classify_shrink_file_system_def
  valid_file_archive_cluster_def roles_invalid_def surplus_target_ok_def Let_def place_minimum_def
  place_fixed_def order_content_def too_many_partitions_def minimum_shrink_partition_bytes_def
  content_minimum_size_def checked_add_def align_up_def minimum_target_size_def distribute_surplus_def
  surplus_growth_def expandable_indexes_def expandable_partition_def content_action_def
  empty_partition_action_def surplus_weight_def multiply_divide_floor_def shrink_plan_def upt_rec

lemma sample_plan_exists:
  "\<exists>plan. plan_shrink_migration (sample_request Automatic_proportional (60 * kGiB)) = Inr plan"
  by (simp add: sample_simps)

lemma sample_selected_plan_exists:
  "\<exists>plan. plan_shrink_migration (sample_request Selected_data_partition (60 * kGiB)) = Inr plan"
  by (simp add: sample_simps)

section \<open>Properties\<close>

lemma plan_layout_spec:
  assumes "plan_shrink_migration request = Inr plan"
  shows "sorted_wrt partition_before (smp_target_partitions plan) \<and>
    (\<forall>p \<in> set (smp_target_partitions plan).
      mib dvd unat (spp_offset_bytes p) \<and>
      first_usable_byte (smr_target_style request) \<le> unat (spp_offset_bytes p) \<and>
      unat (spp_offset_bytes p) + unat (spp_size_bytes p) + unat (smp_unallocated_tail_bytes plan) + 2 * mib
        \<le> unat (smr_target_size_bytes request)) \<and>
    numbered (smp_target_partitions plan)"
proof (rule plan_success [OF assms], intro conjI ballI)
  fix sc st m hi
  assume place: "place_minimum request sc = Inr st"
    and ch: "chained (first_usable_byte (smr_target_style request)) (smp_target_partitions plan) hi"
    and hi: "hi + 2 * mib + unat (smp_unallocated_tail_bytes plan) = unat (smr_target_size_bytes request)"
    and g: "list_all2 (grown_as_allowed request) (ls_partitions st) (smp_target_partitions plan)"
  show "sorted_wrt partition_before (smp_target_partitions plan)" by (rule chained_sorted [OF ch])
  show "numbered (smp_target_partitions plan)"
    by (rule grown_numbered [OF g place_minimum_numbered [OF place]])
  fix p assume p: "p \<in> set (smp_target_partitions plan)"
  from chained_in [OF ch p]
  show "mib dvd unat (spp_offset_bytes p)"
    "first_usable_byte (smr_target_style request) \<le> unat (spp_offset_bytes p)"
    "unat (spp_offset_bytes p) + unat (spp_size_bytes p) + unat (smp_unallocated_tail_bytes plan) + 2 * mib
        \<le> unat (smr_target_size_bytes request)"
    using hi by simp_all
qed

text \<open>C33. A plan places its partitions one behind the other, on 1 MiB boundaries, behind the metadata of
  the target, without overlap, and leaves the reserve of 2 MiB and the reported unallocated tail free at
  the end; the partitions are numbered from 1 in this order.\<close>

theorem plan_shrink_migration_layout:
  assumes "plan_shrink_migration request = Inr plan"
  shows "sorted_wrt partition_before (smp_target_partitions plan) \<and>
    (\<forall>p \<in> set (smp_target_partitions plan).
      mib dvd unat (spp_offset_bytes p) \<and>
      first_usable_byte (smr_target_style request) \<le> unat (spp_offset_bytes p) \<and>
      unat (spp_offset_bytes p) + unat (spp_size_bytes p) + unat (smp_unallocated_tail_bytes plan) + 2 * mib
        \<le> unat (smr_target_size_bytes request)) \<and>
    numbered (smp_target_partitions plan)"
  by (rule plan_layout_spec [OF assms])

theorem plan_shrink_migration_layout_witness:
  "\<exists>plan. plan_shrink_migration (sample_request Automatic_proportional (60 * kGiB)) = Inr plan \<and>
    sorted_wrt partition_before (smp_target_partitions plan) \<and> numbered (smp_target_partitions plan)"
  using sample_plan_exists plan_shrink_migration_layout by blast

lemma content_minimum_size_ge: "content_minimum_size p = Inr m \<Longrightarrow> ssp_used_bytes p \<le> m"
proof -
  assume m: "content_minimum_size p = Inr m"
  show ?thesis
  proof (cases "classify_shrink_file_system (ssp_file_system p) = Exact_raw_only")
    case True
    then show ?thesis using m by (auto simp: content_minimum_size_def split: if_split_asm)
  next
    case False
    then obtain s where s: "checked_add (ssp_used_bytes p)
        (max (ssp_used_bytes p div 8) (if ssp_role p = Role_windows then 10 * kGiB else kGiB)) = Some s"
      and eq: "align_up (max
        (if ssp_used_bytes p = 0 then (if ssp_role p = Role_recovery then kRecoveryMinimum else kGiB)
         else if ssp_role p = Role_recovery then max s kRecoveryMinimum else s)
        (ssp_minimum_target_bytes p)) kAlignment = Inr m"
      using m unfolding content_minimum_size_def by (auto simp: Let_def case_result_Inr_iff split: if_split_asm)
    have r: "\<exists>r. align_up r kAlignment = Inr m \<and> (ssp_used_bytes p \<noteq> 0 \<longrightarrow> s \<le> r)"
      by (rule exI, rule conjI [OF eq]) (simp add: le_max_iff_disj)
    have "ssp_used_bytes p \<le> s" using checked_add_SomeD [OF s] by (simp add: word_le_nat_alt)
    then show ?thesis using r align_up_spec(1)
      by (cases "ssp_used_bytes p = 0") (auto simp: word_le_nat_alt intro: order_trans)
  qed
qed

definition keeps_minimum :: "shrink_migration_request \<Rightarrow> shrink_source_partition \<Rightarrow> bool" where
  "keeps_minimum request p \<longleftrightarrow>
     ssp_file_system p = Fs_unsupported \<or> smr_surplus_allocation request = Leave_unallocated \<or>
     (smr_surplus_allocation request = Selected_data_partition \<and>
      Some (ssp_source_table_index p) \<noteq> smr_surplus_target_source_table_index request)"

lemma grown_from_planned:
  assumes p: "placed_minimal style p q" and g: "grown_as_allowed request q q'"
  shows "planned_from style p q' \<and> ssp_used_bytes p \<le> spp_size_bytes q' \<and>
    (\<exists>m. content_minimum_size p = Inr m \<and> m \<le> spp_size_bytes q' \<and>
      (keeps_minimum request p \<longrightarrow> spp_size_bytes q' = m))"
proof -
  obtain g where grown: "grown_from q g q'" and may: "g \<noteq> 0 \<longrightarrow> may_grow request q"
    using g by (auto simp only: grown_as_allowed_def)
  have sz: "unat (spp_size_bytes q') = unat (spp_size_bytes q) + unat g"
    using grown by (simp only: grown_from_def)
  have pl: "planned_from style p q" and m: "content_minimum_size p = Inr (spp_size_bytes q)"
    using p by (auto simp: placed_minimal_def)
  have pl': "planned_from style p q'"
    using grown pl by (cases q; cases q') (simp add: grown_from_def planned_from_def)
  have le: "spp_size_bytes q \<le> spp_size_bytes q'" using sz by (simp add: word_le_nat_alt)
  have "keeps_minimum request p \<Longrightarrow> \<not> may_grow request q"
    using pl by (auto simp: keeps_minimum_def may_grow_def expandable_partition_def planned_from_def
      content_action_def classify_shrink_file_system_def)
  then have "keeps_minimum request p \<Longrightarrow> spp_size_bytes q' = spp_size_bytes q"
    using may sz by (auto simp: word_unat_eq_iff)
  then show ?thesis using pl' le m content_minimum_size_ge [OF m] by auto
qed

definition msr_count :: "shrink_migration_request \<Rightarrow> nat" where
  "msr_count request =
     length (filter (\<lambda>p. ssp_role p = Role_microsoft_reserved) (smr_source_partitions request))"

lemma scan_sources_msr:
  "scan_sources sector previous ps st = Inr sc \<Longrightarrow>
   sc_msr_count sc = sc_msr_count st + length (filter (\<lambda>p. ssp_role p = Role_microsoft_reserved) ps)"
proof (induction ps arbitrary: previous st)
  case (Cons p ps)
  then show ?case
    by (auto simp: case_result_Inr_iff scan_content_def Let_def dest!: Cons.IH split: if_split_asm)
qed simp

lemma plan_content_spec:
  assumes "plan_shrink_migration request = Inr plan"
  shows "\<exists>fixed qs. smp_target_partitions plan = fixed @ qs \<and>
    map spp_role fixed = fixed_roles request (msr_count request) \<and>
    (\<forall>q \<in> set fixed. spp_source_table_index q = None) \<and>
    list_all2 (\<lambda>p q. planned_from (smr_target_style request) p q \<and> ssp_used_bytes p \<le> spp_size_bytes q \<and>
      (\<exists>m. content_minimum_size p = Inr m \<and> m \<le> spp_size_bytes q \<and>
        (keeps_minimum request p \<longrightarrow> spp_size_bytes q = m)))
      (order_content request (content_of request)) qs"
proof (rule plan_success [OF assms])
  fix sc st m hi
  assume scan: "scan_request request = Inr sc" and place: "place_minimum request sc = Inr st"
    and g: "list_all2 (grown_as_allowed request) (ls_partitions st) (smp_target_partitions plan)"
  have msr: "sc_msr_count sc = msr_count request"
    using scan by (auto simp: scan_request_def case_result_Inr_iff msr_count_def initial_scan_def
      dest!: scan_sources_msr)
  from place_minimum_spec [OF place] obtain fixed qs where st: "ls_partitions st = fixed @ qs"
    and roles: "map spp_role fixed = fixed_roles request (msr_count request)"
    and none: "\<forall>q \<in> set fixed. spp_source_table_index q = None"
    and qs: "list_all2 (placed_minimal (smr_target_style request)) (order_content request (content_of request)) qs"
    unfolding scan_request_spec(2) [OF scan] msr by blast
  obtain fixed' qs' where plan: "smp_target_partitions plan = fixed' @ qs'"
    and f: "list_all2 (grown_as_allowed request) fixed fixed'"
    and q: "list_all2 (grown_as_allowed request) qs qs'"
    using g unfolding st by (auto simp: list_all2_append1)
  have same: "grown_as_allowed request a b \<Longrightarrow>
    spp_role b = spp_role a \<and> spp_source_table_index b = spp_source_table_index a" for a b
    by (cases a; cases b) (auto simp: grown_as_allowed_def grown_from_def)
  have "map spp_role fixed' = map spp_role fixed \<and>
    ((\<forall>q \<in> set fixed. spp_source_table_index q = None) \<longrightarrow> (\<forall>q \<in> set fixed'. spp_source_table_index q = None))"
    using f by (induction rule: list_all2_induct) (auto simp: same)
  then have fixed': "map spp_role fixed' = fixed_roles request (msr_count request)"
    "\<forall>q \<in> set fixed'. spp_source_table_index q = None"
    using roles none by simp_all
  have "list_all2 (\<lambda>p q. planned_from (smr_target_style request) p q \<and> ssp_used_bytes p \<le> spp_size_bytes q \<and>
      (\<exists>m. content_minimum_size p = Inr m \<and> m \<le> spp_size_bytes q \<and>
        (keeps_minimum request p \<longrightarrow> spp_size_bytes q = m)))
      (order_content request (content_of request)) qs'"
    by (rule list_all2_trans [OF _ qs q]) (rule grown_from_planned)
  with plan fixed' show ?thesis by blast
qed

section \<open>What a plan holds, by natural numbers\<close>

text \<open>
  The contract of the content, on its own terms.  \<open>migrated\<close>: every source partition is, but for the
  EFI system and reserved ones, which the target gets anew, and the BIOS system partition, which a
  disk that boots by GPT does not need.
\<close>

definition migrated :: "shrink_migration_request \<Rightarrow> shrink_source_partition \<Rightarrow> bool" where
  "migrated request p \<longleftrightarrow>
     ssp_role p \<noteq> Role_efi_system \<and> ssp_role p \<noteq> Role_microsoft_reserved \<and>
     \<not> (smr_source_style request = Style_mbr \<and> smr_target_style request = Style_gpt \<and>
       ssp_role p = Role_bios_system)"

text \<open>A Windows disk is laid out by role, each role in the order of the source.\<close>

definition in_order :: "shrink_migration_request \<Rightarrow> shrink_source_partition list \<Rightarrow> shrink_source_partition list" where
  "in_order request ps =
     (if smr_source_is_windows_system request
      then concat (map (\<lambda>role. filter (\<lambda>p. ssp_role p = role) ps)
        [Role_bios_system, Role_windows, Role_recovery, Role_data])
      else ps)"

text \<open>
  The least size of a partition: a raw copy has the size of its source; anything else has its used
  bytes and a reserve of an eighth of them or of 1 GiB, for Windows 10 GiB, a recovery partition at
  least 990 MiB, an empty one 1 GiB, and what the file system asked for, in whole MiB.
\<close>

definition least_bytes :: "shrink_source_partition \<Rightarrow> nat" where
  "least_bytes p =
     (if ssp_file_system p = Fs_unsupported then unat (ssp_source_size_bytes p)
      else
        let used = unat (ssp_used_bytes p);
            recovery = (if ssp_role p = Role_recovery then 990 * mib else 0);
            wanted =
              (if used = 0 then (if ssp_role p = Role_recovery then 990 * mib else 1024 * mib)
               else max (used + max (used div 8) ((if ssp_role p = Role_windows then 10 else 1) * 1024 * mib))
                 recovery)
        in (max wanted (unat (ssp_minimum_target_bytes p)) + (mib - 1)) div mib * mib)"

text \<open>The planned partition \<open>q\<close> takes over the source partition \<open>p\<close>.\<close>

definition takes_over ::
  "shrink_migration_request \<Rightarrow> shrink_source_partition \<Rightarrow> shrink_planned_partition \<Rightarrow> bool" where
  "takes_over request p q \<longleftrightarrow>
     spp_source_table_index q = Some (ssp_source_table_index p) \<and> spp_role q = ssp_role p \<and>
     spp_file_system q = ssp_file_system p \<and> spp_label q = ssp_label p \<and>
     spp_active q = (smr_target_style request = Style_mbr \<and> ssp_active p) \<and>
     spp_source_size_bytes q = ssp_source_size_bytes p \<and> spp_source_used_bytes q = ssp_used_bytes p \<and>
     spp_action q =
       (case ssp_file_system p of
          Fs_ntfs \<Rightarrow> if ssp_used_bytes p = 0 then Create_empty_ntfs else Apply_file_image
        | Fs_exfat \<Rightarrow> if ssp_used_bytes p = 0 then Create_empty_exfat else Apply_file_image
        | Fs_fat32 \<Rightarrow> if ssp_used_bytes p = 0 then Create_empty_fat32 else Apply_file_image
        | _ \<Rightarrow> Copy_exact_raw) \<and>
     unat (ssp_used_bytes p) \<le> unat (spp_size_bytes q) \<and> least_bytes p \<le> unat (spp_size_bytes q) \<and>
     (keeps_minimum request p \<longrightarrow> unat (spp_size_bytes q) = least_bytes p)"

lemma align_up_value:
  assumes "align_up v kAlignment = Inr a"
  shows "unat a = (unat v + (mib - 1)) div mib * mib"
proof -
  obtain k where k: "unat a = mib * k" using align_up_spec(3) [OF assms] by (auto elim: dvdE)
  have "(unat v + (mib - 1)) div mib = k"
    using align_up_spec(1,2) [OF assms] unfolding k by (intro div_nat_eqI) simp_all
  then show ?thesis by (simp add: k)
qed

lemma content_minimum_size_least:
  assumes "content_minimum_size p = Inr m" "ssp_file_system p \<noteq> Fs_none"
  shows "unat m = least_bytes p"
proof (cases "ssp_file_system p = Fs_unsupported")
  case True
  then show ?thesis
    using assms(1) by (auto simp: content_minimum_size_def classify_shrink_file_system_def least_bytes_def
      split: if_split_asm)
next
  case False
  then have "classify_shrink_file_system (ssp_file_system p) = File_archive"
    using assms(2) by (cases "ssp_file_system p") (simp_all add: classify_shrink_file_system_def)
  then obtain s where s: "checked_add (ssp_used_bytes p)
      (max (ssp_used_bytes p div 8) (if ssp_role p = Role_windows then 10 * kGiB else kGiB)) = Some s"
    and eq: "align_up (max
      (if ssp_used_bytes p = 0 then (if ssp_role p = Role_recovery then kRecoveryMinimum else kGiB)
       else if ssp_role p = Role_recovery then max s kRecoveryMinimum else s)
      (ssp_minimum_target_bytes p)) kAlignment = Inr m"
    using assms(1) unfolding content_minimum_size_def
    by (auto simp: Let_def case_result_Inr_iff split: if_split_asm)
  have max: "unat (max a b) = max (unat a) (unat b)" for a b :: u64
    by (simp add: max_def word_le_nat_alt)
  have "unat s = unat (ssp_used_bytes p) + max (unat (ssp_used_bytes p) div 8)
      ((if ssp_role p = Role_windows then 10 else 1) * 1024 * mib)"
    using checked_add_SomeD(1) [OF s] by (simp add: max unat_div)
  note sum = this
  have "unat (max
      (if ssp_used_bytes p = 0 then (if ssp_role p = Role_recovery then kRecoveryMinimum else kGiB)
       else if ssp_role p = Role_recovery then max s kRecoveryMinimum else s)
      (ssp_minimum_target_bytes p)) =
    max (if unat (ssp_used_bytes p) = 0 then (if ssp_role p = Role_recovery then 990 * mib else 1024 * mib)
         else max (unat (ssp_used_bytes p) + max (unat (ssp_used_bytes p) div 8)
             ((if ssp_role p = Role_windows then 10 else 1) * 1024 * mib))
           (if ssp_role p = Role_recovery then 990 * mib else 0)) (unat (ssp_minimum_target_bytes p))"
    unfolding max sum [symmetric] by (simp add: unat_eq_0 max)
  then show ?thesis
    using False unfolding align_up_value [OF eq] least_bytes_def Let_def by (simp only: if_False)
qed

lemma content_action_cases:
  "ssp_file_system p \<noteq> Fs_none \<Longrightarrow> content_action p =
     (case ssp_file_system p of
        Fs_ntfs \<Rightarrow> if ssp_used_bytes p = 0 then Create_empty_ntfs else Apply_file_image
      | Fs_exfat \<Rightarrow> if ssp_used_bytes p = 0 then Create_empty_exfat else Apply_file_image
      | Fs_fat32 \<Rightarrow> if ssp_used_bytes p = 0 then Create_empty_fat32 else Apply_file_image
      | _ \<Rightarrow> Copy_exact_raw)"
  by (simp add: content_action_def empty_partition_action_def classify_shrink_file_system_def
    split: migration_file_system.split)

lemma scan_sources_roles:
  "scan_sources sector previous ps st = Inr sc \<Longrightarrow>
   \<forall>p \<in> set ps. ssp_role p = Role_efi_system \<or> ssp_role p = Role_microsoft_reserved \<or>
     is_content_role (ssp_role p) \<and> ssp_file_system p \<noteq> Fs_none"
proof (induction ps arbitrary: previous st)
  case (Cons p ps)
  then show ?case
    by (auto simp: case_result_Inr_iff scan_content_def Let_def classify_shrink_file_system_def
        dest!: Cons.IH split: if_split_asm)
qed simp

lemma plan_sources_known:
  assumes "plan_shrink_migration request = Inr plan" "p \<in> set (content_of request)"
  shows "ssp_file_system p \<noteq> Fs_none"
proof (rule plan_success [OF assms(1)])
  fix sc assume "scan_request request = Inr sc"
  then show ?thesis
    using assms(2) by (auto simp: scan_request_def case_result_Inr_iff content_of_def is_content_role_def
      dest!: scan_sources_roles)
qed

lemma same_role_sorted: "sorted (map (\<lambda>p. role_rank (ssp_role p)) (filter (\<lambda>p. ssp_role p = r) ps))"
  by (induction ps) auto

lemma order_content_in_order:
  assumes "\<forall>p \<in> set ps. is_content_role (ssp_role p)"
  shows "order_content request ps =
    in_order request (filter (\<lambda>p. \<not> (smr_source_style request = Style_mbr \<and> smr_target_style request = Style_gpt \<and>
      ssp_role p = Role_bios_system)) ps)"
proof -
  let ?roles = "\<lambda>ps. concat (map (\<lambda>role. filter (\<lambda>p. ssp_role p = role) ps)
    [Role_bios_system, Role_windows, Role_recovery, Role_data])"
  have "mset (?roles ps) = mset ps"
    using assms by (induction ps) (auto simp: is_content_role_def)
  moreover have "filter (\<lambda>q. role_rank (ssp_role p) = role_rank (ssp_role q)) (?roles ps) =
      filter (\<lambda>q. role_rank (ssp_role p) = role_rank (ssp_role q)) ps" if p: "p \<in> set (?roles ps)" for p
  proof -
    have "ssp_role p \<in> {Role_bios_system, Role_windows, Role_recovery, Role_data}" using p by auto
    moreover from this have "(role_rank (ssp_role p) = role_rank (ssp_role q)) = (ssp_role q = ssp_role p)"
      if "q \<in> set ps" for q
      using that assms by (auto simp: is_content_role_def role_rank_def split: migration_partition_role.splits)
    then have "filter (\<lambda>q. role_rank (ssp_role p) = role_rank (ssp_role q)) xs =
        filter (\<lambda>q. ssp_role q = ssp_role p) xs" if "set xs \<subseteq> set ps" for xs
      by (rule filter_cong [OF refl]) (use that in blast)
    moreover have "set (?roles ps) \<subseteq> set ps" by auto
    ultimately show ?thesis by (elim insertE emptyE) (simp_all add: role_rank_def cong: conj_cong)
  qed
  moreover have "sorted (map (\<lambda>p. role_rank (ssp_role p)) (?roles ps))"
    by (simp add: sorted_append same_role_sorted) (auto simp: role_rank_def)
  ultimately have "sort_key (\<lambda>p. role_rank (ssp_role p)) ps = ?roles ps"
    by (intro properties_for_sort_key) auto
  then have "order_content request ps = filter (\<lambda>p. \<not> (smr_source_style request = Style_mbr \<and>
      smr_target_style request = Style_gpt \<and> ssp_role p = Role_bios_system)) (in_order request ps)"
    by (cases "smr_source_style request = Style_mbr"; cases "smr_target_style request = Style_gpt")
      (simp_all add: order_content_def in_order_def Let_def)
  also have "\<dots> = in_order request (filter (\<lambda>p. \<not> (smr_source_style request = Style_mbr \<and>
      smr_target_style request = Style_gpt \<and> ssp_role p = Role_bios_system)) ps)"
    by (simp add: in_order_def conj_commute)
  finally show ?thesis .
qed

section \<open>What a plan promises\<close>

text \<open>C34. A plan creates the fixed partitions the target needs, an EFI system and a reserved one for
  Windows on GPT, and then takes over every source partition but the EFI system, reserved and, from MBR
  to GPT, BIOS system ones, each exactly once: a disk with Windows by role, any other in the order of
  the source.  A partition keeps the index, role, file system and label of its source; an unknown file
  system is copied raw at the size of the source, a known one is rebuilt from its files, or empty if it
  holds none, with room for the used bytes and the reserve of its role.  It has exactly that least size
  when the surplus is meant for others.\<close>

theorem plan_shrink_migration_content:
  assumes "plan_shrink_migration request = Inr plan"
  shows "\<exists>fixed qs. smp_target_partitions plan = fixed @ qs \<and>
    map spp_role fixed = fixed_roles request (msr_count request) \<and>
    (\<forall>q \<in> set fixed. spp_source_table_index q = None) \<and>
    list_all2 (takes_over request) (in_order request (filter (migrated request) (smr_source_partitions request))) qs"
proof (rule plan_success [OF assms])
  fix sc
  assume scan: "scan_request request = Inr sc"
  then have roles: "\<forall>p \<in> set (smr_source_partitions request). ssp_role p = Role_efi_system \<or>
      ssp_role p = Role_microsoft_reserved \<or> is_content_role (ssp_role p) \<and> ssp_file_system p \<noteq> Fs_none"
    by (auto simp: scan_request_def case_result_Inr_iff dest!: scan_sources_roles)
  have "order_content request (content_of request) =
      in_order request (filter (migrated request) (smr_source_partitions request))"
  proof -
    have "filter (migrated request) (smr_source_partitions request) =
        filter (\<lambda>p. \<not> (smr_source_style request = Style_mbr \<and> smr_target_style request = Style_gpt \<and>
          ssp_role p = Role_bios_system)) (content_of request)"
      using roles by (auto simp: content_of_def migrated_def is_content_role_def intro!: filter_cong)
    then show ?thesis by (simp add: order_content_in_order content_of_def)
  qed
  note same = this
  have "takes_over request p q"
    if p: "p \<in> set (order_content request (content_of request))"
    and q: "planned_from (smr_target_style request) p q \<and> ssp_used_bytes p \<le> spp_size_bytes q \<and>
      (\<exists>m. content_minimum_size p = Inr m \<and> m \<le> spp_size_bytes q \<and>
        (keeps_minimum request p \<longrightarrow> spp_size_bytes q = m))" for p q
  proof -
    have "ssp_file_system p \<noteq> Fs_none"
      using p roles by (auto simp: set_order_content content_of_def is_content_role_def)
    note action = content_action_cases [OF this] and least = content_minimum_size_least [OF _ this]
    obtain m where "unat m = least_bytes p" "m \<le> spp_size_bytes q" "keeps_minimum request p \<longrightarrow> spp_size_bytes q = m"
      using q least by blast
    then show ?thesis
      using q unfolding takes_over_def planned_from_def action [symmetric] by (simp add: word_le_nat_alt)
  qed
  note taken = this
  obtain fixed qs where plan: "smp_target_partitions plan = fixed @ qs"
    "map spp_role fixed = fixed_roles request (msr_count request)" "\<forall>q \<in> set fixed. spp_source_table_index q = None"
    and qs: "list_all2 (\<lambda>p q. planned_from (smr_target_style request) p q \<and> ssp_used_bytes p \<le> spp_size_bytes q \<and>
      (\<exists>m. content_minimum_size p = Inr m \<and> m \<le> spp_size_bytes q \<and>
        (keeps_minimum request p \<longrightarrow> spp_size_bytes q = m)))
      (order_content request (content_of request)) qs"
    using plan_content_spec [OF assms] by blast
  have "list_all2 (takes_over request) (order_content request (content_of request)) qs"
    using qs by (rule list.rel_mono_strong) (rule taken)
  with plan show ?thesis unfolding same by blast
qed

theorem plan_shrink_migration_content_witness:
  "\<exists>plan. plan_shrink_migration (sample_request Selected_data_partition (60 * kGiB)) = Inr plan \<and>
    length (smp_target_partitions plan) = 3"
proof -
  obtain plan where plan: "plan_shrink_migration (sample_request Selected_data_partition (60 * kGiB)) = Inr plan"
    using sample_selected_plan_exists by blast
  from plan_shrink_migration_content [OF plan] have "length (smp_target_partitions plan) = 3"
    by (auto simp: fixed_roles_def msr_count_def in_order_def migrated_def sample_request_def
      sample_source_def dest!: list_all2_lengthD)
  with plan show ?thesis by blast
qed

text \<open>C35. Unless the surplus is to stay unallocated, a plan with a partition that can grow leaves less
  than 2 MiB unallocated in front of the reserve at the end: the proportional shares, rounded down to
  MiB and topped up in order, hand out every whole MiB there is.\<close>

theorem plan_shrink_migration_surplus:
  assumes "plan_shrink_migration request = Inr plan"
    and "smr_surplus_allocation request \<noteq> Leave_unallocated"
    and "\<exists>p \<in> set (order_content request (content_of request)). content_action p \<noteq> Copy_exact_raw"
  shows "unat (smp_unallocated_tail_bytes plan) < 2 * mib"
proof (rule plan_success [OF assms(1)])
  fix sc st m hi
  assume scan: "scan_request request = Inr sc" and place: "place_minimum request sc = Inr st"
    and tail: "smr_surplus_allocation request \<noteq> Leave_unallocated \<Longrightarrow>
     \<exists>p \<in> set (ls_partitions st). expandable_partition p \<Longrightarrow>
     unat (smp_unallocated_tail_bytes plan) < 2 * mib"
  obtain p where p: "p \<in> set (order_content request (content_of request))" "content_action p \<noteq> Copy_exact_raw"
    using assms(3) by blast
  obtain fixed qs where st: "ls_partitions st = fixed @ qs"
    and qs: "list_all2 (placed_minimal (smr_target_style request)) (order_content request (content_of request)) qs"
    using place_minimum_spec [OF place] unfolding scan_request_spec(2) [OF scan] by blast
  obtain q where q: "q \<in> set qs" "placed_minimal (smr_target_style request) p q"
    using list_all2_in [OF qs p(1)] by blast
  then have "expandable_partition q"
    using p(2) by (simp add: expandable_partition_def placed_minimal_def planned_from_def)
  then show ?thesis using tail assms(2) q(1) st by auto
qed

theorem plan_shrink_migration_surplus_witness:
  "\<exists>plan. plan_shrink_migration (sample_request Automatic_proportional (60 * kGiB)) = Inr plan \<and>
    unat (smp_unallocated_tail_bytes plan) < 2 * mib"
proof -
  obtain plan where plan: "plan_shrink_migration (sample_request Automatic_proportional (60 * kGiB)) = Inr plan"
    using sample_plan_exists by blast
  have "\<exists>p \<in> set (order_content (sample_request Automatic_proportional (60 * kGiB))
      (content_of (sample_request Automatic_proportional (60 * kGiB)))). content_action p \<noteq> Copy_exact_raw"
    by (simp add: order_content_def content_of_def sample_request_def sample_source_def is_content_role_def
      content_action_def classify_shrink_file_system_def)
  from plan_shrink_migration_surplus [OF plan _ this] plan show ?thesis
    by (auto simp: sample_request_def)
qed

text \<open>Once the minimal layout of an accepted request is known, the planner refuses it exactly when
  the target is smaller than the minimal size or when the surplus is to be shared and the sizes of the
  sources do not add up in 64 bits; the remaining checks (the internal error of the selected partition,
  the overflows and the tail reserve) never refuse a plan.\<close>

theorem plan_shrink_migration_refuses:
  assumes "scan_request request = Inr sc" "place_minimum request sc = Inr st"
    and "minimum_target_size (ls_cursor st) = Inr m"
  shows "plan_shrink_migration request = Inl e \<longleftrightarrow>
    (smr_target_size_bytes request < m \<and> e = mk_error Unsupported_layout ERROR_DISK_FULL) \<or>
    (m \<le> smr_target_size_bytes request \<and> \<not> surplus_weights_fit request m (ls_partitions st) \<and>
      e = mk_error Invalid_data ERROR_ARITHMETIC_OVERFLOW)"
proof (cases "m \<le> smr_target_size_bytes request")
  case False
  then show ?thesis using assms by (auto simp: plan_shrink_migration_def)
next
  case fits: True
  show ?thesis
  proof (cases "surplus_weights_fit request m (ls_partitions st)")
    case True
    obtain plan where "plan_shrink_migration request = Inr plan" by (rule plan_outcome [OF assms fits True])
    then show ?thesis using True fits by simp
  next
    case False
    from surplus_weights_overflow [OF this fits] show ?thesis
      using assms fits False by (auto simp: plan_shrink_migration_def not_less)
  qed
qed


theorem plan_shrink_migration_refuses_witness:
  "plan_shrink_migration (sample_request Automatic_proportional (10 * kGiB)) =
     Inl (mk_error Unsupported_layout ERROR_DISK_FULL)"
proof -
  have "\<exists>sc st m. scan_request (sample_request Automatic_proportional (10 * kGiB)) = Inr sc \<and>
    place_minimum (sample_request Automatic_proportional (10 * kGiB)) sc = Inr st \<and>
    minimum_target_size (ls_cursor st) = Inr m \<and> 10 * kGiB < m"
    by (simp add: sample_simps)
  then obtain sc st m where run: "scan_request (sample_request Automatic_proportional (10 * kGiB)) = Inr sc"
    "place_minimum (sample_request Automatic_proportional (10 * kGiB)) sc = Inr st"
    "minimum_target_size (ls_cursor st) = Inr m" and less: "10 * kGiB < m" by blast
  have target: "smr_target_size_bytes (sample_request Automatic_proportional (10 * kGiB)) = 10 * kGiB"
    by (simp add: sample_request_def)
  show ?thesis
    unfolding plan_shrink_migration_refuses [OF run] target using less by simp
qed

end
