(* ===== verification/DirectClonePlan.thy ===== *)
theory DirectClonePlan
  imports ShrinkLayout
begin

text \<open>
  The plan of a direct clone (\<open>MigrationCore/src/direct_clone_plan.cpp\<close>): which partitions of the source
  are copied, whether the clone keeps every size (exact) or shrinks, and the layout of the target, which
  \<^theory_text>\<open>ShrinkLayout\<close> computes for both modes.  The enumerations are datatypes, so the checks that reject
  values outside them have no counterpart.
\<close>

section \<open>Data\<close>

datatype direct_clone_mode_choice = Choice_automatic | Choice_exact | Choice_shrink

datatype direct_clone_mode = Mode_exact | Mode_shrink

datatype direct_clone_style_choice = Style_preserve | Style_mbr_to_gpt

datatype direct_clone_transfer = Transfer_recreate | Transfer_exact_content | Transfer_file_system_content

record direct_clone_source =
  dcs_partition :: shrink_source_partition
  dcs_selected :: bool
  dcs_required_for_windows :: bool

record direct_clone_request =
  dcr_mode_choice :: direct_clone_mode_choice
  dcr_partition_style_choice :: direct_clone_style_choice
  dcr_source_style :: migration_partition_style
  dcr_source_size_bytes :: u64
  dcr_source_logical_sector_size :: u32
  dcr_target_size_bytes :: u64
  dcr_target_logical_sector_size :: u32
  dcr_source_is_windows_system :: bool
  dcr_windows_is_amd64 :: bool
  dcr_bitlocker_fully_decrypted :: bool
  dcr_mbr_to_gpt_eligible :: bool
  dcr_surplus_allocation :: shrink_surplus_allocation
  dcr_surplus_target_source_table_index :: "u32 option"
  dcr_source_partitions :: "direct_clone_source list"

record direct_clone_selection =
  dsel_source_table_index :: u32
  dsel_role :: migration_partition_role
  dsel_file_system :: migration_file_system
  dsel_requested :: bool
  dsel_selected :: bool
  dsel_required :: bool

record direct_clone_partition =
  dcp_target_number :: u32
  dcp_source_table_index :: "u32 option"
  dcp_role :: migration_partition_role
  dcp_file_system :: migration_file_system
  dcp_transfer :: direct_clone_transfer
  dcp_offset_bytes :: u64
  dcp_minimum_size_bytes :: u64
  dcp_size_bytes :: u64
  dcp_source_size_bytes :: u64
  dcp_source_used_bytes :: u64
  dcp_label :: "u16 list"
  dcp_active :: bool
  dcp_required :: bool

record direct_clone_plan =
  dp_requested_mode_choice :: direct_clone_mode_choice
  dp_recommended_mode :: direct_clone_mode
  dp_mode :: direct_clone_mode
  dp_mode_was_overridden :: bool
  dp_partition_style_choice :: direct_clone_style_choice
  dp_source_style :: migration_partition_style
  dp_target_style :: migration_partition_style
  dp_source_size_bytes :: u64
  dp_source_logical_sector_size :: u32
  dp_target_logical_sector_size :: u32
  dp_surplus_allocation :: shrink_surplus_allocation
  dp_surplus_target_source_table_index :: "u32 option"
  dp_minimum_target_size_bytes :: u64
  dp_target_size_bytes :: u64
  dp_unallocated_tail_bytes :: u64
  dp_source_remains_unchanged :: bool
  dp_boot_finalization_required :: bool
  dp_partition_selection :: "direct_clone_selection list"
  dp_target_partitions :: "direct_clone_partition list"

record normalized_planning_input =
  npi_target_style :: migration_partition_style
  npi_windows_selected :: bool
  npi_selections :: "direct_clone_selection list"

section \<open>The request\<close>

definition check_direct_request :: "direct_clone_request \<Rightarrow> status" where
  "check_direct_request request =
     (let source_sector = dcr_source_logical_sector_size request;
          target_sector = dcr_target_logical_sector_size request in
      if (source_sector \<noteq> 512 \<and> source_sector \<noteq> 4096) \<or> (target_sector \<noteq> 512 \<and> target_sector \<noteq> 4096) \<or>
         dcr_source_size_bytes request = 0 \<or> dcr_target_size_bytes request = 0 \<or>
         dcr_source_size_bytes request mod ucast source_sector \<noteq> 0 \<or>
         dcr_target_size_bytes request mod ucast target_sector \<noteq> 0 \<or>
         dcr_source_partitions request = [] \<or> length (dcr_source_partitions request) > 128
      then Inl (mk_error Invalid_data ERROR_INVALID_DATA)
      else if (dcr_surplus_allocation request = Selected_data_partition) \<noteq>
         (dcr_surplus_target_source_table_index request \<noteq> None)
      then Inl (mk_error Invalid_argument ERROR_INVALID_PARAMETER)
      else if dcr_partition_style_choice request = Style_mbr_to_gpt \<and>
         (dcr_source_style request \<noteq> Style_mbr \<or> \<not> dcr_mbr_to_gpt_eligible request)
      then Inl (mk_error Unsupported_layout ERROR_NOT_SUPPORTED)
      else if dcr_source_style request = Style_mbr \<and>
         dcr_source_size_bytes request div ucast source_sector > 0x100000000
      then Inl (mk_error Unsupported_layout ERROR_NOT_SUPPORTED)
      else success_status)"

definition direct_target_style :: "direct_clone_request \<Rightarrow> migration_partition_style" where
  "direct_target_style request =
     (if dcr_partition_style_choice request = Style_mbr_to_gpt then Style_gpt else dcr_source_style request)"

record direct_scan =
  dsc_windows_count :: nat
  dsc_efi_count :: nat
  dsc_msr_count :: nat
  dsc_bios_system_count :: nat
  dsc_active_count :: nat
  dsc_total_partition_bytes :: u64
  dsc_windows_selected :: bool

definition count_partition :: "direct_clone_source \<Rightarrow> direct_scan \<Rightarrow> direct_scan" where
  "count_partition entry st =
     (let role = ssp_role (dcs_partition entry) in
      st\<lparr>dsc_windows_count := dsc_windows_count st + (if role = Role_windows then 1 else 0),
         dsc_windows_selected := dsc_windows_selected st \<or> (role = Role_windows \<and> dcs_selected entry),
         dsc_efi_count := dsc_efi_count st + (if role = Role_efi_system then 1 else 0),
         dsc_msr_count := dsc_msr_count st + (if role = Role_microsoft_reserved then 1 else 0),
         dsc_bios_system_count := dsc_bios_system_count st + (if role = Role_bios_system then 1 else 0),
         dsc_active_count := dsc_active_count st +
           (if is_content_role role \<and> ssp_active (dcs_partition entry) then 1 else 0)\<rparr>)"

fun scan_direct_sources ::
  "u32 \<Rightarrow> direct_clone_source list \<Rightarrow> direct_clone_source list \<Rightarrow> direct_scan \<Rightarrow> direct_scan result"
where
  "scan_direct_sources sector previous [] st = Inr st"
| "scan_direct_sources sector previous (entry # entries) st =
     (let partition = dcs_partition entry in
      if ssp_source_size_bytes partition = 0 \<or> ssp_source_size_bytes partition mod ucast sector \<noteq> 0 \<or>
         ssp_used_bytes partition > ssp_source_size_bytes partition \<or>
         (ssp_minimum_target_bytes partition \<noteq> 0 \<and>
          ssp_minimum_target_bytes partition < ssp_used_bytes partition) \<or>
         length (ssp_label partition) > 32 \<or> 0 \<in> set (ssp_label partition) \<or>
         (dcs_required_for_windows entry \<and> ssp_role partition \<noteq> Role_recovery)
      then Inl (mk_error Invalid_data ERROR_INVALID_DATA)
      else
        case checked_add (dsc_total_partition_bytes st) (ssp_source_size_bytes partition) of
          None \<Rightarrow> Inl (mk_error Invalid_data ERROR_ARITHMETIC_OVERFLOW)
        | Some added \<Rightarrow>
          if \<exists>q \<in> set previous. ssp_source_table_index (dcs_partition q) = ssp_source_table_index partition
          then Inl (mk_error Identity_mismatch ERROR_DUP_NAME)
          else
            scan_direct_sources sector (previous @ [entry]) entries
              (count_partition entry (st\<lparr>dsc_total_partition_bytes := added\<rparr>)))"

definition direct_roles_invalid :: "direct_clone_request \<Rightarrow> direct_scan \<Rightarrow> bool" where
  "direct_roles_invalid request sc \<longleftrightarrow>
     (let gpt = (dcr_source_style request = Style_gpt) in
      if dcr_source_is_windows_system request then
        dsc_windows_count sc \<noteq> 1 \<or>
        (if gpt then dsc_efi_count sc \<noteq> 1 \<or> dsc_msr_count sc \<noteq> 1 \<or> dsc_bios_system_count sc \<noteq> 0
         else dsc_efi_count sc \<noteq> 0 \<or> dsc_msr_count sc \<noteq> 0 \<or> dsc_bios_system_count sc > 1 \<or>
           dsc_active_count sc \<noteq> 1)
      else
        dsc_windows_count sc \<noteq> 0 \<or> dsc_bios_system_count sc \<noteq> 0 \<or> dsc_efi_count sc \<noteq> 0 \<or>
        dsc_active_count sc \<noteq> 0 \<or> (if gpt then dsc_msr_count sc > 1 else dsc_msr_count sc \<noteq> 0))"

definition partition_required :: "direct_clone_request \<Rightarrow> bool \<Rightarrow> direct_clone_source \<Rightarrow> bool" where
  "partition_required request windows_selected entry \<longleftrightarrow>
     (let role = ssp_role (dcs_partition entry) in
      windows_selected \<and>
      (role = Role_windows \<or>
       (dcr_source_style request = Style_gpt \<and> (role = Role_efi_system \<or> role = Role_microsoft_reserved)) \<or>
       (dcr_source_style request = Style_mbr \<and> role = Role_bios_system) \<or>
       (role = Role_recovery \<and> dcs_required_for_windows entry)))"

definition select_partition :: "direct_clone_request \<Rightarrow> bool \<Rightarrow> direct_clone_source \<Rightarrow> direct_clone_selection" where
  "select_partition request windows_selected entry =
     (let required = partition_required request windows_selected entry in
      \<lparr>dsel_source_table_index = ssp_source_table_index (dcs_partition entry),
       dsel_role = ssp_role (dcs_partition entry), dsel_file_system = ssp_file_system (dcs_partition entry),
       dsel_requested = dcs_selected entry, dsel_selected = dcs_selected entry \<or> required,
       dsel_required = required\<rparr>)"

definition find_source_partition :: "direct_clone_request \<Rightarrow> u32 \<Rightarrow> direct_clone_source option" where
  "find_source_partition request i =
     find (\<lambda>entry. ssp_source_table_index (dcs_partition entry) = i) (dcr_source_partitions request)"

definition find_selection :: "direct_clone_selection list \<Rightarrow> u32 \<Rightarrow> direct_clone_selection option" where
  "find_selection selections i = find (\<lambda>s. dsel_source_table_index s = i) selections"

definition check_surplus_target :: "direct_clone_request \<Rightarrow> direct_clone_selection list \<Rightarrow> status" where
  "check_surplus_target request selections =
     (case dcr_surplus_target_source_table_index request of
        None \<Rightarrow> success_status
      | Some i \<Rightarrow>
         (case (find_source_partition request i, find_selection selections i) of
            (Some source, Some selection) \<Rightarrow>
              if \<not> dsel_selected selection then Inl (mk_error Invalid_argument ERROR_INVALID_PARAMETER)
              else if ssp_role (dcs_partition source) \<noteq> Role_data \<or>
                classify_shrink_file_system (ssp_file_system (dcs_partition source)) \<noteq> File_archive
              then Inl (mk_error Unsupported_layout ERROR_NOT_SUPPORTED)
              else success_status
          | _ \<Rightarrow> Inl (mk_error Invalid_argument ERROR_INVALID_PARAMETER)))"

definition normalize_request :: "direct_clone_request \<Rightarrow> normalized_planning_input result" where
  "normalize_request request =
     (case check_direct_request request of
        Inl e \<Rightarrow> Inl e
      | Inr _ \<Rightarrow>
     (case scan_direct_sources (dcr_source_logical_sector_size request) [] (dcr_source_partitions request)
         \<lparr>dsc_windows_count = 0, dsc_efi_count = 0, dsc_msr_count = 0, dsc_bios_system_count = 0,
          dsc_active_count = 0, dsc_total_partition_bytes = 0, dsc_windows_selected = False\<rparr> of
        Inl e \<Rightarrow> Inl e
      | Inr sc \<Rightarrow>
        if dsc_total_partition_bytes sc > dcr_source_size_bytes request
        then Inl (mk_error Invalid_data ERROR_INVALID_DATA)
        else if direct_roles_invalid request sc then Inl (mk_error Unsupported_layout ERROR_NOT_SUPPORTED)
        else
          let selections = map (select_partition request (dsc_windows_selected sc)) (dcr_source_partitions request) in
          if \<not> (\<exists>s \<in> set selections. dsel_selected s)
          then Inl (mk_error Invalid_argument ERROR_INVALID_PARAMETER)
          else
            case check_surplus_target request selections of
              Inl e \<Rightarrow> Inl e
            | Inr _ \<Rightarrow>
                Inr \<lparr>npi_target_style = direct_target_style request,
                  npi_windows_selected = dsc_windows_selected sc, npi_selections = selections\<rparr>))"

section \<open>The layout of one mode\<close>

definition layout_partition :: "direct_clone_request \<Rightarrow> direct_clone_mode \<Rightarrow> direct_clone_source \<Rightarrow> shrink_source_partition" where
  "layout_partition request mode entry =
     (let partition = dcs_partition entry in
      if mode = Mode_exact \<and> is_content_role (ssp_role partition) then
        let partition = partition\<lparr>ssp_used_bytes := 0,
              ssp_minimum_target_bytes := ssp_source_size_bytes partition\<rparr> in
        if ssp_file_system partition = Fs_ntfs \<or> ssp_file_system partition = Fs_fat32 \<or>
           ssp_file_system partition = Fs_exfat
        then partition\<lparr>ssp_cluster_size := ucast (dcr_target_logical_sector_size request)\<rparr>
        else partition
      else partition)"

definition layout_request ::
  "direct_clone_request \<Rightarrow> normalized_planning_input \<Rightarrow> direct_clone_mode \<Rightarrow> shrink_surplus_allocation \<Rightarrow>
   shrink_migration_request" where
  "layout_request request normalized mode surplus_allocation =
     \<lparr>smr_source_style = dcr_source_style request, smr_target_style = npi_target_style normalized,
      smr_target_size_bytes = dcr_target_size_bytes request,
      smr_target_logical_sector_size = dcr_target_logical_sector_size request,
      smr_source_is_windows_system = npi_windows_selected normalized,
      smr_windows_is_amd64 = dcr_windows_is_amd64 request,
      smr_bitlocker_fully_decrypted = dcr_bitlocker_fully_decrypted request,
      smr_surplus_allocation = surplus_allocation,
      smr_surplus_target_source_table_index =
        (if surplus_allocation = Selected_data_partition
         then dcr_surplus_target_source_table_index request else None),
      smr_source_partitions =
        map (\<lambda>(entry, selection). layout_partition request mode entry)
          (filter (\<lambda>(entry, selection). dsel_selected selection)
            (zip (dcr_source_partitions request) (npi_selections normalized)))\<rparr>"

definition build_layout ::
  "direct_clone_request \<Rightarrow> normalized_planning_input \<Rightarrow> direct_clone_mode \<Rightarrow> shrink_surplus_allocation \<Rightarrow>
   shrink_migration_plan result" where
  "build_layout request normalized mode surplus_allocation =
     (if mode = Mode_exact \<and>
         dcr_source_logical_sector_size request \<noteq> dcr_target_logical_sector_size request
      then Inl (mk_error Unsupported_layout ERROR_NOT_SUPPORTED)
      else plan_shrink_migration (layout_request request normalized mode surplus_allocation))"

section \<open>The plan\<close>

text \<open>Source and selection of a partition of the layout, or nothing when it is a new one.\<close>

definition source_of ::
  "direct_clone_request \<Rightarrow> normalized_planning_input \<Rightarrow> shrink_planned_partition \<Rightarrow>
   (direct_clone_source \<times> direct_clone_selection) option result" where
  "source_of request normalized planned =
     (case spp_source_table_index planned of
        None \<Rightarrow> Inr None
      | Some i \<Rightarrow>
         (case (find_source_partition request i, find_selection (npi_selections normalized) i) of
            (Some source, Some selection) \<Rightarrow>
              if \<not> dsel_selected selection then Inl (mk_error Internal_error ERROR_INVALID_DATA)
              else Inr (Some (source, selection))
          | _ \<Rightarrow> Inl (mk_error Internal_error ERROR_INVALID_DATA)))"

definition planned_partition ::
  "normalized_planning_input \<Rightarrow> direct_clone_mode \<Rightarrow> shrink_planned_partition \<Rightarrow> shrink_planned_partition \<Rightarrow>
   (direct_clone_source \<times> direct_clone_selection) option \<Rightarrow> direct_clone_partition" where
  "planned_partition normalized mode planned minimum source =
     \<lparr>dcp_target_number = spp_target_number planned,
      dcp_source_table_index = spp_source_table_index planned, dcp_role = spp_role planned,
      dcp_file_system = spp_file_system planned,
      dcp_transfer =
        (case source of
           None \<Rightarrow> Transfer_recreate
         | Some _ \<Rightarrow>
             if mode = Mode_exact \<or> spp_action planned = Copy_exact_raw then Transfer_exact_content
             else Transfer_file_system_content),
      dcp_offset_bytes = spp_offset_bytes planned, dcp_minimum_size_bytes = spp_size_bytes minimum,
      dcp_size_bytes = spp_size_bytes planned,
      dcp_source_size_bytes = (case source of None \<Rightarrow> 0 | Some (s, _) \<Rightarrow> ssp_source_size_bytes (dcs_partition s)),
      dcp_source_used_bytes = (case source of None \<Rightarrow> 0 | Some (s, _) \<Rightarrow> ssp_used_bytes (dcs_partition s)),
      dcp_label = spp_label planned, dcp_active = spp_active planned,
      dcp_required =
        (case source of
           None \<Rightarrow> npi_windows_selected normalized \<and>
             (spp_role planned = Role_efi_system \<or> spp_role planned = Role_microsoft_reserved)
         | Some (_, selection) \<Rightarrow> dsel_required selection)\<rparr>"

fun plan_direct_partitions ::
  "direct_clone_request \<Rightarrow> normalized_planning_input \<Rightarrow> direct_clone_mode \<Rightarrow>
   (shrink_planned_partition \<times> shrink_planned_partition) list \<Rightarrow> direct_clone_partition list result"
where
  "plan_direct_partitions request normalized mode [] = Inr []"
| "plan_direct_partitions request normalized mode ((planned, minimum) # pairs) =
     (if spp_target_number planned \<noteq> spp_target_number minimum \<or>
         spp_source_table_index planned \<noteq> spp_source_table_index minimum \<or>
         spp_role planned \<noteq> spp_role minimum \<or> spp_file_system planned \<noteq> spp_file_system minimum \<or>
         spp_offset_bytes planned < spp_offset_bytes minimum \<or>
         spp_size_bytes planned < spp_size_bytes minimum
      then Inl (mk_error Internal_error ERROR_INVALID_DATA)
      else
        case source_of request normalized planned of
          Inl e \<Rightarrow> Inl e
        | Inr source \<Rightarrow>
         (case plan_direct_partitions request normalized mode pairs of
            Inl e \<Rightarrow> Inl e
          | Inr ps \<Rightarrow> Inr (planned_partition normalized mode planned minimum source # ps)))"

text \<open>Recommended mode, mode and layout of a request, whose layouts are given.\<close>

definition choose_mode ::
  "direct_clone_mode_choice \<Rightarrow> shrink_migration_plan result \<Rightarrow> shrink_migration_plan result \<Rightarrow>
   (direct_clone_mode \<times> direct_clone_mode \<times> shrink_migration_plan) result" where
  "choose_mode choice exact_layout shrink_layout =
     (case choice of
        Choice_automatic \<Rightarrow>
         (case exact_layout of
            Inr layout \<Rightarrow> Inr (Mode_exact, Mode_exact, layout)
          | Inl _ \<Rightarrow> map_sum id (\<lambda>layout. (Mode_shrink, Mode_shrink, layout)) shrink_layout)
      | Choice_exact \<Rightarrow> map_sum id (\<lambda>layout. (Mode_exact, Mode_exact, layout)) exact_layout
      | Choice_shrink \<Rightarrow>
          map_sum id (\<lambda>layout. (if isl exact_layout then Mode_shrink else Mode_exact, Mode_shrink, layout))
            shrink_layout)"

definition plan_direct_clone :: "direct_clone_request \<Rightarrow> direct_clone_plan result" where
  "plan_direct_clone request =
     (case normalize_request request of
        Inl e \<Rightarrow> Inl e
      | Inr normalized \<Rightarrow>
     (case choose_mode (dcr_mode_choice request)
         (build_layout request normalized Mode_exact (dcr_surplus_allocation request))
         (build_layout request normalized Mode_shrink (dcr_surplus_allocation request)) of
        Inl e \<Rightarrow> Inl e
      | Inr (recommended_mode, mode, layout) \<Rightarrow>
     (case build_layout request normalized mode Leave_unallocated of
        Inl e \<Rightarrow> Inl e
      | Inr minimum_layout \<Rightarrow>
        if length (smp_target_partitions minimum_layout) \<noteq> length (smp_target_partitions layout)
        then Inl (mk_error Internal_error ERROR_INVALID_DATA)
        else
          case plan_direct_partitions request normalized mode
              (zip (smp_target_partitions layout) (smp_target_partitions minimum_layout)) of
            Inl e \<Rightarrow> Inl e
          | Inr partitions \<Rightarrow>
              Inr \<lparr>dp_requested_mode_choice = dcr_mode_choice request, dp_recommended_mode = recommended_mode,
                dp_mode = mode,
                dp_mode_was_overridden =
                  (dcr_mode_choice request \<noteq> Choice_automatic \<and> mode \<noteq> recommended_mode),
                dp_partition_style_choice = dcr_partition_style_choice request,
                dp_source_style = dcr_source_style request, dp_target_style = npi_target_style normalized,
                dp_source_size_bytes = dcr_source_size_bytes request,
                dp_source_logical_sector_size = dcr_source_logical_sector_size request,
                dp_target_logical_sector_size = dcr_target_logical_sector_size request,
                dp_surplus_allocation = dcr_surplus_allocation request,
                dp_surplus_target_source_table_index = dcr_surplus_target_source_table_index request,
                dp_minimum_target_size_bytes = smp_minimum_target_size_bytes layout,
                dp_target_size_bytes = smp_target_size_bytes layout,
                dp_unallocated_tail_bytes = smp_unallocated_tail_bytes layout,
                dp_source_remains_unchanged = smp_source_remains_unchanged layout,
                dp_boot_finalization_required = smp_boot_finalization_required layout,
                dp_partition_selection = npi_selections normalized, dp_target_partitions = partitions\<rparr>)))"

end
