(* ===== verification/DirectClonePlanCorrect.thy ===== *)
theory DirectClonePlanCorrect
  imports DirectClonePlan ShrinkLayoutCorrect
begin

text \<open>
  What a plan of \<open>plan_direct_clone\<close> guarantees, resting on the lemmas about the shrink layout: the two
  layouts it compares always correspond, so its internal errors cannot occur.
\<close>

section \<open>The layout without a surplus\<close>

text \<open>The same partition, perhaps moved back and perhaps larger.\<close>

definition enlarges :: "shrink_planned_partition \<Rightarrow> shrink_planned_partition \<Rightarrow> bool" where
  "enlarges p q \<longleftrightarrow>
     q = p\<lparr>spp_offset_bytes := spp_offset_bytes q, spp_size_bytes := spp_size_bytes q\<rparr> \<and>
     spp_offset_bytes p \<le> spp_offset_bytes q \<and> spp_size_bytes p \<le> spp_size_bytes q"

lemma enlarges_refl: "enlarges p p"
  by (simp add: enlarges_def)

lemma enlargesD:
  assumes "enlarges p q"
  shows "spp_target_number q = spp_target_number p" "spp_source_table_index q = spp_source_table_index p"
    "spp_role q = spp_role p" "spp_file_system q = spp_file_system p" "spp_action q = spp_action p"
    "spp_offset_bytes p \<le> spp_offset_bytes q" "spp_size_bytes p \<le> spp_size_bytes q"
proof -
  have q: "q = p\<lparr>spp_offset_bytes := spp_offset_bytes q, spp_size_bytes := spp_size_bytes q\<rparr>"
    using assms by (simp add: enlarges_def)
  show "spp_target_number q = spp_target_number p" "spp_source_table_index q = spp_source_table_index p"
    "spp_role q = spp_role p" "spp_file_system q = spp_file_system p" "spp_action q = spp_action p"
    by (subst q, simp)+
  show "spp_offset_bytes p \<le> spp_offset_bytes q" "spp_size_bytes p \<le> spp_size_bytes q"
    using assms by (simp_all add: enlarges_def)
qed

lemma checked_add_le: "checked_add a b = Some c \<Longrightarrow> a \<le> c"
  using checked_add_SomeD [of a b c] by (simp add: word_le_nat_alt)

lemma apply_growth_enlarges:
  assumes "apply_growth pairs pre = Inr (qs, fin)"
  shows "list_all2 enlarges (map fst pairs) qs"
  using assms
proof (induction pairs arbitrary: pre qs fin)
  case (Cons pair ps)
  obtain p g where pair: "pair = (p, g)" by (cases pair)
  with Cons.prems obtain a b c qs' where step: "checked_add (spp_offset_bytes p) pre = Some a"
    "checked_add (spp_size_bytes p) g = Some b" "checked_add pre g = Some c"
    "apply_growth ps c = Inr (qs', fin)" and qs: "qs = p\<lparr>spp_offset_bytes := a, spp_size_bytes := b\<rparr> # qs'"
    by (auto split: option.split_asm sum.split_asm)
  then show ?case
    using Cons.IH [OF step(4)] pair checked_add_le [OF step(1)] checked_add_le [OF step(2)]
    by (simp add: enlarges_def)
qed simp

lemma distribute_surplus_enlarges:
  assumes "distribute_surplus request extra st = Inr st'"
  shows "list_all2 enlarges (ls_partitions st) (ls_partitions st')"
proof (cases "smr_surplus_allocation request \<noteq> Leave_unallocated \<and> extra \<ge> kAlignment")
  case True
  then obtain growth ps pre where g: "surplus_growth request (extra div kAlignment * kAlignment) (ls_partitions st) = Inr growth"
    and a: "apply_growth (zip (ls_partitions st) growth) 0 = Inr (ps, pre)" and st': "ls_partitions st' = ps"
    using assms by (auto simp: distribute_surplus_def Let_def case_result_Inr_iff split: sum.split_asm prod.split_asm option.split_asm)
  have shares: "add_shares ps d w ix gs a = Inr (gs', r) \<Longrightarrow> length gs' = length gs" for ps d w ix gs a gs' r
    by (induction ix arbitrary: gs a) (auto simp: Let_def split: sum.split_asm option.split_asm dest!: meta_spec)
  have remaining: "length (add_remaining ix m gs) = length gs" for ix m gs
    by (induction ix arbitrary: m gs) auto
  have "length growth = length (ls_partitions st)"
    using g by (auto simp: surplus_growth_def Let_def remaining split: if_split_asm option.split_asm sum.split_asm prod.split_asm
      dest!: shares)
  with apply_growth_enlarges [OF a] st' show ?thesis by simp
next
  case False
  then have "st' = st" using assms by (auto simp: distribute_surplus_def)
  then show ?thesis by (simp add: list_all2_refl enlarges_refl)
qed

definition without_surplus :: "shrink_migration_request \<Rightarrow> shrink_migration_request" where
  "without_surplus request =
     request\<lparr>smr_surplus_allocation := Leave_unallocated, smr_surplus_target_source_table_index := None\<rparr>"

lemma scan_without_surplus:
  assumes "scan_request request = Inr sc"
  shows "scan_request (without_surplus request) = Inr sc"
proof -
  have "check_shrink_request (without_surplus request) = success_status"
    using scan_request_spec(1) [OF assms] by (auto simp: check_shrink_request_def without_surplus_def Let_def split: if_split_asm)
  moreover have "surplus_target_ok (without_surplus request) content" for content
    by (simp add: surplus_target_ok_def without_surplus_def)
  moreover have "roles_invalid (without_surplus request) sc = roles_invalid request sc" for sc
    by (simp add: roles_invalid_def without_surplus_def)
  ultimately show ?thesis
    using assms by (auto simp: scan_request_def case_result_Inr_iff without_surplus_def)
qed

lemma place_without_surplus: "place_minimum (without_surplus request) sc = place_minimum request sc"
proof -
  have same: "smr_target_style (without_surplus request) = smr_target_style request"
    "smr_source_style (without_surplus request) = smr_source_style request"
    "smr_source_is_windows_system (without_surplus request) = smr_source_is_windows_system request"
    "smr_target_logical_sector_size (without_surplus request) = smr_target_logical_sector_size request"
    by (simp_all add: without_surplus_def)
  have "place_fixed (without_surplus request) n st = place_fixed request n st"
    "order_content (without_surplus request) content = order_content request content"
    "too_many_partitions (without_surplus request) n k = too_many_partitions request n k" for n st content k
    by (simp_all only: place_fixed_def order_content_def too_many_partitions_def same)
  then show ?thesis by (simp only: place_minimum_def same)
qed

lemma plan_without_surplus:
  assumes "plan_shrink_migration request = Inr plan"
  shows "\<exists>least. plan_shrink_migration (without_surplus request) = Inr least \<and>
    list_all2 enlarges (smp_target_partitions least) (smp_target_partitions plan) \<and>
    smp_minimum_target_size_bytes least = smp_minimum_target_size_bytes plan"
proof -
  obtain sc st m st' where s: "scan_request request = Inr sc" "place_minimum request sc = Inr st"
    and m: "minimum_target_size (ls_cursor st) = Inr m" "m \<le> smr_target_size_bytes request"
    and d: "distribute_surplus request (smr_target_size_bytes request - m) st = Inr st'"
    and plan: "shrink_plan request m st' = Inr plan"
    using assms by (auto simp: plan_shrink_migration_def case_result_Inr_iff not_less)
  have size: "smr_target_size_bytes (without_surplus request) = smr_target_size_bytes request"
    by (simp add: without_surplus_def)
  have "unat (ls_cursor st) + 2 * mib \<le> unat (smr_target_size_bytes (without_surplus request))"
    using minimum_target_size_spec(1) [OF m(1)] m(2) by (simp add: size word_le_nat_alt)
  note fits = shrink_plan_fits(1) [OF this, of m]
  have keep: "distribute_surplus (without_surplus request) x st = Inr st" for x
    by (simp add: distribute_surplus_def without_surplus_def)
  have "\<exists>least. plan_shrink_migration (without_surplus request) = Inr least \<and>
      smp_target_partitions least = ls_partitions st \<and> smp_minimum_target_size_bytes least = m"
    using scan_without_surplus [OF s(1)] s(2) m fits
    by (simp add: plan_shrink_migration_def place_without_surplus keep size not_less)
  moreover have "smp_target_partitions plan = ls_partitions st'" "smp_minimum_target_size_bytes plan = m"
    using plan by (auto simp: shrink_plan_def split: if_split_asm)
  ultimately show ?thesis using distribute_surplus_enlarges [OF d] by auto
qed

section \<open>The request\<close>

abbreviation (input) source_index :: "direct_clone_source \<Rightarrow> u32" where
  "source_index entry \<equiv> ssp_source_table_index (dcs_partition entry)"

definition source_valid :: "u32 \<Rightarrow> direct_clone_source \<Rightarrow> bool" where
  "source_valid sector entry \<longleftrightarrow>
     ssp_source_size_bytes (dcs_partition entry) \<noteq> 0 \<and>
     ssp_source_size_bytes (dcs_partition entry) mod ucast sector = 0 \<and>
     ssp_used_bytes (dcs_partition entry) \<le> ssp_source_size_bytes (dcs_partition entry) \<and>
     (dcs_required_for_windows entry \<longrightarrow> ssp_role (dcs_partition entry) = Role_recovery)"

definition any_windows_selected :: "direct_clone_request \<Rightarrow> bool" where
  "any_windows_selected request \<longleftrightarrow>
     (\<exists>entry \<in> set (dcr_source_partitions request). ssp_role (dcs_partition entry) = Role_windows \<and> dcs_selected entry)"

lemma scan_direct_spec:
  assumes "scan_direct_sources sector previous entries st = Inr sc"
  shows "distinct (map source_index entries)"
    "\<forall>entry \<in> set entries. source_valid sector entry \<and> (\<forall>q \<in> set previous. source_index q \<noteq> source_index entry)"
    "dsc_windows_selected sc \<longleftrightarrow> dsc_windows_selected st \<or>
      (\<exists>entry \<in> set entries. ssp_role (dcs_partition entry) = Role_windows \<and> dcs_selected entry)"
proof -
  have "distinct (map source_index entries) \<and>
    (\<forall>entry \<in> set entries. source_valid sector entry \<and> (\<forall>q \<in> set previous. source_index q \<noteq> source_index entry)) \<and>
    (dsc_windows_selected sc \<longleftrightarrow> dsc_windows_selected st \<or>
      (\<exists>entry \<in> set entries. ssp_role (dcs_partition entry) = Role_windows \<and> dcs_selected entry))"
    using assms
  proof (induction entries arbitrary: previous st)
    case (Cons entry entries)
    let ?p = "dcs_partition entry"
    from Cons.prems obtain added where valid: "source_valid sector entry"
      and fresh: "(\<forall>q \<in> set previous. source_index q \<noteq> source_index entry)"
      and rest: "scan_direct_sources sector (previous @ [entry]) entries
        (count_partition entry (st\<lparr>dsc_total_partition_bytes := added\<rparr>)) = Inr sc"
      by (auto simp: Let_def case_result_Inr_iff source_valid_def not_less simp del: mod_0_imp_dvd)
    have w: "dsc_windows_selected (count_partition entry (st\<lparr>dsc_total_partition_bytes := added\<rparr>)) \<longleftrightarrow>
      dsc_windows_selected st \<or> (ssp_role ?p = Role_windows \<and> dcs_selected entry)"
      by (simp add: count_partition_def Let_def)
    show ?case using Cons.IH [OF rest] valid fresh w by auto
  qed simp
  then show "distinct (map source_index entries)"
    "\<forall>entry \<in> set entries. source_valid sector entry \<and> (\<forall>q \<in> set previous. source_index q \<noteq> source_index entry)"
    "dsc_windows_selected sc \<longleftrightarrow> dsc_windows_selected st \<or>
      (\<exists>entry \<in> set entries. ssp_role (dcs_partition entry) = Role_windows \<and> dcs_selected entry)"
    by blast+
qed

lemma normalize_success:
  assumes "normalize_request request = Inr n"
  shows "check_direct_request request = success_status"
    "npi_target_style n = direct_target_style request"
    "npi_windows_selected n = any_windows_selected request"
    "npi_selections n = map (select_partition request (any_windows_selected request)) (dcr_source_partitions request)"
    "distinct (map source_index (dcr_source_partitions request))"
    "\<forall>entry \<in> set (dcr_source_partitions request). source_valid (dcr_source_logical_sector_size request) entry"
    "\<exists>s \<in> set (npi_selections n). dsel_selected s"
    "check_surplus_target request (npi_selections n) = success_status"
proof -
  let ?st = "\<lparr>dsc_windows_count = 0, dsc_efi_count = 0, dsc_msr_count = 0, dsc_bios_system_count = 0,
          dsc_active_count = 0, dsc_total_partition_bytes = 0, dsc_windows_selected = False\<rparr>"
  obtain sc where c: "check_direct_request request = success_status"
    and scan: "scan_direct_sources (dcr_source_logical_sector_size request) [] (dcr_source_partitions request) ?st = Inr sc"
    and n: "npi_target_style n = direct_target_style request" "npi_windows_selected n = dsc_windows_selected sc"
      "npi_selections n = map (select_partition request (dsc_windows_selected sc)) (dcr_source_partitions request)"
      "\<exists>s \<in> set (npi_selections n). dsel_selected s" "check_surplus_target request (npi_selections n) = success_status"
    using assms by (auto simp: normalize_request_def case_result_Inr_iff Let_def) blast
  note s = scan_direct_spec [OF scan]
  have w: "dsc_windows_selected sc = any_windows_selected request" using s(3) by (simp add: any_windows_selected_def)
  show "check_direct_request request = success_status" by (rule c)
  show "npi_target_style n = direct_target_style request" by (rule n(1))
  show "npi_windows_selected n = any_windows_selected request"
    "npi_selections n = map (select_partition request (any_windows_selected request)) (dcr_source_partitions request)"
    using n(2,3) w by simp_all
  show "distinct (map source_index (dcr_source_partitions request))" by (rule s(1))
  show "\<forall>entry \<in> set (dcr_source_partitions request). source_valid (dcr_source_logical_sector_size request) entry"
    using s(2) by blast
  show "\<exists>s \<in> set (npi_selections n). dsel_selected s" by (rule n(4))
  show "check_surplus_target request (npi_selections n) = success_status" by (rule n(5))
qed

text \<open>The entries that take part in a layout.\<close>

definition selected_sources :: "direct_clone_request \<Rightarrow> direct_clone_source list" where
  "selected_sources request =
     filter (\<lambda>entry. dcs_selected entry \<or> partition_required request (any_windows_selected request) entry)
       (dcr_source_partitions request)"

lemma dsel_simps [simp]:
  "dsel_source_table_index (select_partition request w entry) = source_index entry"
  "dsel_role (select_partition request w entry) = ssp_role (dcs_partition entry)"
  "dsel_requested (select_partition request w entry) = dcs_selected entry"
  "dsel_required (select_partition request w entry) = partition_required request w entry"
  "dsel_selected (select_partition request w entry) \<longleftrightarrow> dcs_selected entry \<or> partition_required request w entry"
  by (simp_all add: select_partition_def Let_def)

lemma filter_zip_map:
  "map (\<lambda>(x, y). g x) (filter (\<lambda>(x, y). P y) (zip xs (map f xs))) = map g (filter (\<lambda>x. P (f x)) xs)"
  by (induction xs) auto

lemma layout_sources:
  assumes "normalize_request request = Inr n"
  shows "smr_source_partitions (layout_request request n mode a) = map (layout_partition request mode) (selected_sources request)"
  by (simp add: layout_request_def normalize_success(4) [OF assms] filter_zip_map selected_sources_def)

lemma find_distinct:
  "distinct (map f xs) \<Longrightarrow> x \<in> set xs \<Longrightarrow> find (\<lambda>y. f y = f x) xs = Some x"
  by (induction xs) force+

lemma find_entry:
  assumes "normalize_request request = Inr n" "entry \<in> set (dcr_source_partitions request)"
  shows "find_source_partition request (source_index entry) = Some entry"
    "find_selection (npi_selections n) (source_index entry) =
      Some (select_partition request (any_windows_selected request) entry)"
proof -
  note n = normalize_success [OF assms(1)]
  show "find_source_partition request (source_index entry) = Some entry"
    unfolding find_source_partition_def by (rule find_distinct [OF n(5) assms(2)])
  have m: "map dsel_source_table_index (npi_selections n) = map source_index (dcr_source_partitions request)"
    by (simp add: n(4))
  then have "distinct (map dsel_source_table_index (npi_selections n))" using n(5) by simp
  moreover have "select_partition request (any_windows_selected request) entry \<in> set (npi_selections n)"
    using assms(2) by (simp add: n(4))
  ultimately have "find (\<lambda>s. dsel_source_table_index s =
      dsel_source_table_index (select_partition request (any_windows_selected request) entry)) (npi_selections n) =
    Some (select_partition request (any_windows_selected request) entry)" by (rule find_distinct)
  then show "find_selection (npi_selections n) (source_index entry) =
      Some (select_partition request (any_windows_selected request) entry)" by (simp add: find_selection_def)
qed

lemma layout_partition_simps [simp]:
  "ssp_source_table_index (layout_partition request mode entry) = source_index entry"
  "ssp_role (layout_partition request mode entry) = ssp_role (dcs_partition entry)"
  "ssp_file_system (layout_partition request mode entry) = ssp_file_system (dcs_partition entry)"
  "ssp_source_size_bytes (layout_partition request mode entry) = ssp_source_size_bytes (dcs_partition entry)"
  "ssp_label (layout_partition request mode entry) = ssp_label (dcs_partition entry)"
  "ssp_active (layout_partition request mode entry) = ssp_active (dcs_partition entry)"
  by (simp_all add: layout_partition_def Let_def)

section \<open>The layouts of a plan correspond\<close>

lemma build_layout_least:
  assumes "build_layout request n mode a = Inr layout"
  shows "\<exists>least. build_layout request n mode Leave_unallocated = Inr least \<and>
    list_all2 enlarges (smp_target_partitions least) (smp_target_partitions layout)"
proof -
  have sector: "\<not> (mode = Mode_exact \<and> dcr_source_logical_sector_size request \<noteq> dcr_target_logical_sector_size request)"
    and plan: "plan_shrink_migration (layout_request request n mode a) = Inr layout"
    using assms by (simp_all add: build_layout_def case_result_Inr_iff)
  have "without_surplus (layout_request request n mode a) = layout_request request n mode Leave_unallocated"
    by (simp add: layout_request_def without_surplus_def)
  then show ?thesis using plan_without_surplus [OF plan] sector by (auto simp: build_layout_def)
qed

text \<open>The fixed partitions of a layout, and those that come from the source.\<close>

definition planned_for ::
  "direct_clone_request \<Rightarrow> normalized_planning_input \<Rightarrow> direct_clone_mode \<Rightarrow> direct_clone_source \<Rightarrow>
   shrink_planned_partition \<Rightarrow> bool" where
  "planned_for request n mode entry q \<longleftrightarrow>
     planned_from (npi_target_style n) (layout_partition request mode entry) q \<and>
     ssp_file_system (dcs_partition entry) \<noteq> Fs_none \<and>
     (\<exists>m. content_minimum_size (layout_partition request mode entry) = Inr m \<and> m \<le> spp_size_bytes q)"

text \<open>The selected entries with content that a layout places, in its order.\<close>

definition placed_sources ::
  "direct_clone_request \<Rightarrow> normalized_planning_input \<Rightarrow> direct_clone_mode \<Rightarrow> shrink_surplus_allocation \<Rightarrow>
   shrink_source_partition list" where
  "placed_sources request n mode a =
     (let layout = layout_request request n mode a in order_content layout (content_of layout))"

lemma set_placed_sources:
  assumes "normalize_request request = Inr n"
  shows "set (placed_sources request n mode a) = layout_partition request mode `
    {entry \<in> set (selected_sources request). is_content_role (ssp_role (dcs_partition entry)) \<and>
      \<not> (dcr_source_style request = Style_mbr \<and> npi_target_style n = Style_gpt \<and>
        ssp_role (dcs_partition entry) = Role_bios_system)}"
proof -
  have "smr_source_style (layout_request request n mode a) = dcr_source_style request"
    "smr_target_style (layout_request request n mode a) = npi_target_style n"
    by (simp_all add: layout_request_def)
  then show ?thesis
    by (auto simp: placed_sources_def Let_def set_order_content content_of_def layout_sources [OF assms])
qed

lemma list_all2_in_right: "list_all2 P xs ys \<Longrightarrow> y \<in> set ys \<Longrightarrow> \<exists>x \<in> set xs. P x y"
  by (induction rule: list_all2_induct) auto

lemma build_layout_content:
  assumes norm: "normalize_request request = Inr n" and layout: "build_layout request n mode a = Inr layout"
  shows "\<exists>fixed qs. smp_target_partitions layout = fixed @ qs \<and>
    map spp_role fixed = fixed_roles (layout_request request n mode a) (msr_count (layout_request request n mode a)) \<and>
    (\<forall>q \<in> set fixed. spp_source_table_index q = None) \<and>
    map spp_source_table_index qs = map (Some \<circ> ssp_source_table_index) (placed_sources request n mode a) \<and>
    (\<forall>q \<in> set qs. \<exists>entry \<in> set (selected_sources request).
      is_content_role (ssp_role (dcs_partition entry)) \<and> planned_for request n mode entry q)"
proof -
  let ?r = "layout_request request n mode a"
  have plan: "plan_shrink_migration ?r = Inr layout"
    using layout by (simp add: build_layout_def case_result_Inr_iff)
  obtain fixed qs where split: "smp_target_partitions layout = fixed @ qs"
    and roles: "map spp_role fixed = fixed_roles ?r (msr_count ?r)"
    and none: "\<forall>q \<in> set fixed. spp_source_table_index q = None"
    and qs: "list_all2 (\<lambda>p q. planned_from (smr_target_style ?r) p q \<and> ssp_used_bytes p \<le> spp_size_bytes q \<and>
      (\<exists>m. content_minimum_size p = Inr m \<and> m \<le> spp_size_bytes q \<and> (keeps_minimum ?r p \<longrightarrow> spp_size_bytes q = m)))
      (placed_sources request n mode a) qs"
    using plan_content_spec [OF plan] unfolding placed_sources_def Let_def by blast
  have "map spp_source_table_index qs = map (Some \<circ> ssp_source_table_index) (placed_sources request n mode a)"
    using qs by (induction rule: list_all2_induct) (auto simp: planned_from_def)
  moreover have "\<exists>entry \<in> set (selected_sources request).
      is_content_role (ssp_role (dcs_partition entry)) \<and> planned_for request n mode entry q" if q: "q \<in> set qs" for q
  proof -
    obtain p where p: "p \<in> set (placed_sources request n mode a)" "planned_from (smr_target_style ?r) p q"
      "\<exists>m. content_minimum_size p = Inr m \<and> m \<le> spp_size_bytes q"
      using list_all2_in_right [OF qs q] by blast
    then obtain entry where "entry \<in> set (selected_sources request)" "p = layout_partition request mode entry"
      "is_content_role (ssp_role (dcs_partition entry))"
      using set_placed_sources [OF norm] by auto
    moreover from this have "ssp_file_system (dcs_partition entry) \<noteq> Fs_none"
      using plan_sources_known [OF plan, of p] p(1)
      by (simp add: placed_sources_def Let_def set_order_content layout_partition_def split: if_split_asm)
    ultimately show ?thesis using p by (auto simp: planned_for_def layout_request_def)
  qed
  ultimately show ?thesis using split roles none by blast
qed

definition source_in ::
  "direct_clone_request \<Rightarrow> normalized_planning_input \<Rightarrow> shrink_planned_partition \<Rightarrow>
   (direct_clone_source \<times> direct_clone_selection) option" where
  "source_in request n q = (case source_of request n q of Inl e \<Rightarrow> None | Inr source \<Rightarrow> source)"

lemma source_of_planned:
  assumes norm: "normalize_request request = Inr n" and entry: "entry \<in> set (selected_sources request)"
    and q: "planned_for request n mode entry q"
  shows "source_of request n q = Inr (Some (entry, select_partition request (any_windows_selected request) entry))"
proof -
  have "spp_source_table_index q = Some (source_index entry)" using q by (simp add: planned_for_def planned_from_def)
  moreover have "entry \<in> set (dcr_source_partitions request)"
    "dcs_selected entry \<or> partition_required request (any_windows_selected request) entry"
    using entry by (simp_all add: selected_sources_def)
  ultimately show ?thesis by (simp add: source_of_def find_entry [OF norm])
qed

lemma source_of_layout:
  assumes norm: "normalize_request request = Inr n" and layout: "build_layout request n mode a = Inr layout"
    and q: "q \<in> set (smp_target_partitions layout)"
  shows "source_of request n q = Inr (source_in request n q)"
proof -
  obtain fixed qs where split: "smp_target_partitions layout = fixed @ qs"
    "\<forall>q \<in> set fixed. spp_source_table_index q = None"
    "\<forall>q \<in> set qs. \<exists>entry \<in> set (selected_sources request).
      is_content_role (ssp_role (dcs_partition entry)) \<and> planned_for request n mode entry q"
    using build_layout_content [OF norm layout] by blast
  from q split consider "spp_source_table_index q = None" |
    entry where "entry \<in> set (selected_sources request)" "planned_for request n mode entry q" by auto
  then show ?thesis
  proof cases
    case 1
    then show ?thesis by (simp add: source_in_def source_of_def)
  next
    case (2 entry)
    then show ?thesis by (simp add: source_in_def source_of_planned [OF norm])
  qed
qed

lemma plan_direct_partitions_total:
  assumes "list_all2 enlarges least layout" "\<forall>q \<in> set layout. source_of request n q = Inr (source_in request n q)"
  shows "plan_direct_partitions request n mode (zip layout least) =
    Inr (map (\<lambda>(q, m). planned_partition n mode q m (source_in request n q)) (zip layout least))"
  using assms by (induction rule: list_all2_induct) (auto simp: enlargesD not_less)

text \<open>The outcome of the planner: its internal errors are unreachable.\<close>

definition chosen_layout ::
  "direct_clone_request \<Rightarrow> normalized_planning_input \<Rightarrow>
   (direct_clone_mode \<times> direct_clone_mode \<times> shrink_migration_plan) result" where
  "chosen_layout request n =
     choose_mode (dcr_mode_choice request)
       (build_layout request n Mode_exact (dcr_surplus_allocation request))
       (build_layout request n Mode_shrink (dcr_surplus_allocation request))"

lemma chosen_layout_built:
  "chosen_layout request n = Inr (recommended, mode, layout) \<Longrightarrow>
   build_layout request n mode (dcr_surplus_allocation request) = Inr layout"
  by (auto simp: chosen_layout_def choose_mode_def map_sum_def split: direct_clone_mode_choice.split_asm sum.split_asm)

lemma plan_direct_clone_success:
  assumes norm: "normalize_request request = Inr n" and chosen: "chosen_layout request n = Inr (recommended, mode, layout)"
  shows "\<exists>(least :: shrink_migration_plan) plan. plan_direct_clone request = Inr plan \<and> dp_mode plan = mode \<and> dp_recommended_mode plan = recommended \<and>
    dp_mode_was_overridden plan = (dcr_mode_choice request \<noteq> Choice_automatic \<and> mode \<noteq> recommended) \<and>
    dp_target_style plan = npi_target_style n \<and> dp_partition_selection plan = npi_selections n \<and>
    dp_unallocated_tail_bytes plan = smp_unallocated_tail_bytes layout \<and>
    list_all2 enlarges (smp_target_partitions least) (smp_target_partitions layout) \<and>
    dp_target_partitions plan = map (\<lambda>(q, m). planned_partition n mode q m (source_in request n q))
      (zip (smp_target_partitions layout) (smp_target_partitions least))"
proof -
  note built = chosen_layout_built [OF chosen]
  obtain least where least: "build_layout request n mode Leave_unallocated = Inr least"
    "list_all2 enlarges (smp_target_partitions least) (smp_target_partitions layout)"
    using build_layout_least [OF built] by blast
  have parts: "plan_direct_partitions request n mode (zip (smp_target_partitions layout) (smp_target_partitions least)) =
      Inr (map (\<lambda>(q, m). planned_partition n mode q m (source_in request n q))
        (zip (smp_target_partitions layout) (smp_target_partitions least)))"
    by (rule plan_direct_partitions_total [OF least(2)]) (use source_of_layout [OF norm built] in blast)
  show ?thesis
    by (rule exI [of _ least])
      (use norm chosen least list_all2_lengthD [OF least(2)] in
        \<open>simp_all add: plan_direct_clone_def chosen_layout_def parts\<close>)
qed

section \<open>What a plan is worth\<close>

lemma exact_size_kept:
  assumes "content_minimum_size p = Inr m" "ssp_minimum_target_bytes p = ssp_source_size_bytes p"
    "ssp_used_bytes p = 0" "ssp_source_size_bytes p \<noteq> 0"
  shows "ssp_source_size_bytes p \<le> m"
proof (cases "classify_shrink_file_system (ssp_file_system p) = Exact_raw_only")
  case True
  then show ?thesis using assms by (simp add: content_minimum_size_def)
next
  case False
  then obtain r where r: "align_up (max r (ssp_source_size_bytes p)) kAlignment = Inr m"
    using assms by (auto simp: content_minimum_size_def Let_def case_result_Inr_iff)
  have "unat (max r (ssp_source_size_bytes p)) \<le> unat m" using align_up_spec(1) [OF r] .
  then show ?thesis by (metis max.cobounded2 order_trans word_le_nat_alt)
qed

lemma layout_partition_exact:
  "is_content_role (ssp_role (dcs_partition entry)) \<Longrightarrow>
   ssp_minimum_target_bytes (layout_partition request Mode_exact entry) = ssp_source_size_bytes (dcs_partition entry) \<and>
   ssp_used_bytes (layout_partition request Mode_exact entry) = 0"
  by (simp add: layout_partition_def Let_def)

lemma layout_partition_shrink: "layout_partition request Mode_shrink entry = dcs_partition entry"
  by (simp add: layout_partition_def Let_def)

definition direct_partition_before :: "direct_clone_partition \<Rightarrow> direct_clone_partition \<Rightarrow> bool" where
  "direct_partition_before p q \<longleftrightarrow>
     unat (dcp_offset_bytes p) + unat (dcp_size_bytes p) \<le> unat (dcp_offset_bytes q)"

text \<open>A planned partition that takes over one of the source, in the mode of the plan.\<close>

definition clones_entry ::
  "direct_clone_request \<Rightarrow> direct_clone_mode \<Rightarrow> direct_clone_source \<Rightarrow> direct_clone_partition \<Rightarrow> bool" where
  "clones_entry request mode entry p \<longleftrightarrow>
     dcp_source_table_index p = Some (source_index entry) \<and> dcp_role p = ssp_role (dcs_partition entry) \<and>
     dcp_file_system p = ssp_file_system (dcs_partition entry) \<and> dcp_label p = ssp_label (dcs_partition entry) \<and>
     dcp_source_size_bytes p = ssp_source_size_bytes (dcs_partition entry) \<and>
     dcp_source_used_bytes p = ssp_used_bytes (dcs_partition entry) \<and>
     dcp_required p = partition_required request (any_windows_selected request) entry \<and>
     ssp_used_bytes (dcs_partition entry) \<le> dcp_size_bytes p \<and> dcp_minimum_size_bytes p \<le> dcp_size_bytes p \<and>
     (if mode = Mode_exact \<or> ssp_file_system (dcs_partition entry) = Fs_unsupported
      then dcp_transfer p = Transfer_exact_content \<and>
        ssp_source_size_bytes (dcs_partition entry) \<le> dcp_size_bytes p
      else dcp_transfer p = Transfer_file_system_content \<and>
        ssp_file_system (dcs_partition entry) \<in> {Fs_ntfs, Fs_fat32, Fs_exfat} \<and>
        least_bytes (dcs_partition entry) \<le> unat (dcp_size_bytes p))"

lemma planned_clones_entry:
  assumes norm: "normalize_request request = Inr n" and entry: "entry \<in> set (selected_sources request)"
    and content: "is_content_role (ssp_role (dcs_partition entry))"
    and q: "planned_for request n mode entry q" and m: "enlarges m q"
  shows "clones_entry request mode entry (planned_partition n mode q m (source_in request n q))"
proof -
  have src: "source_in request n q = Some (entry, select_partition request (any_windows_selected request) entry)"
    by (simp add: source_in_def source_of_planned [OF norm entry q])
  have valid: "source_valid (dcr_source_logical_sector_size request) entry"
    using normalize_success(6) [OF norm] entry by (auto simp: selected_sources_def)
  obtain min where min: "content_minimum_size (layout_partition request mode entry) = Inr min" "min \<le> spp_size_bytes q"
    and taken: "planned_from (npi_target_style n) (layout_partition request mode entry) q"
    using q unfolding planned_for_def by blast
  have used: "ssp_used_bytes (dcs_partition entry) \<le> spp_size_bytes q \<and>
      (mode = Mode_exact \<longrightarrow> ssp_source_size_bytes (dcs_partition entry) \<le> spp_size_bytes q)"
  proof (cases mode)
    case Mode_exact
    have "ssp_source_size_bytes (dcs_partition entry) \<le> min"
      using exact_size_kept [OF min(1)] layout_partition_exact [OF content] valid Mode_exact
      by (simp add: source_valid_def)
    then show ?thesis using min(2) valid by (auto simp: source_valid_def)
  next
    case Mode_shrink
    then show ?thesis using content_minimum_size_ge [OF min(1)] min(2) by (simp add: layout_partition_shrink)
  qed
  have known: "ssp_file_system (dcs_partition entry) \<noteq> Fs_none" using q by (simp add: planned_for_def)
  have raw: "spp_action q = Copy_exact_raw \<longleftrightarrow> ssp_file_system (dcs_partition entry) = Fs_unsupported"
    if "mode = Mode_shrink"
    using taken known that
    by (simp add: planned_from_def layout_partition_shrink content_action_cases split: migration_file_system.split)
  have least: "least_bytes (dcs_partition entry) \<le> unat (spp_size_bytes q)" if "mode = Mode_shrink"
    using content_minimum_size_least [OF min(1)] min(2) known that
    by (simp add: layout_partition_shrink word_le_nat_alt)
  have "ssp_source_size_bytes (dcs_partition entry) \<le> spp_size_bytes q"
    if "mode = Mode_shrink" "ssp_file_system (dcs_partition entry) = Fs_unsupported"
    using least [OF that(1)] that(2) by (simp add: least_bytes_def word_le_nat_alt)
  moreover have "ssp_file_system (dcs_partition entry) \<in> {Fs_ntfs, Fs_fat32, Fs_exfat}"
    if "ssp_file_system (dcs_partition entry) \<noteq> Fs_unsupported"
    using known that by (cases "ssp_file_system (dcs_partition entry)") simp_all
  ultimately show ?thesis
    using src used taken enlargesD(7) [OF m] raw least
    by (cases mode) (simp_all add: clones_entry_def planned_partition_def planned_from_def)
qed

lemma zip_in_list_all2: "list_all2 P xs ys \<Longrightarrow> (y, x) \<in> set (zip ys xs) \<Longrightarrow> P x y \<and> y \<in> set ys"
  by (induction rule: list_all2_induct) auto

lemma map_zip_first:
  "length xs = length ys \<Longrightarrow> (\<And>x y. f (g x y) = h x) \<Longrightarrow>
   map f (map (\<lambda>(x, y). g x y) (zip xs ys)) = map h xs"
  by (induction xs ys rule: list_induct2) auto

lemma plan_offsets:
  assumes "list_all2 enlarges least layout"
    "ps = map (\<lambda>(q, m). planned_partition n mode q m (source_in request n q)) (zip layout least)"
  shows "map dcp_offset_bytes ps = map spp_offset_bytes layout" "map dcp_size_bytes ps = map spp_size_bytes layout"
    "map dcp_source_table_index ps = map spp_source_table_index layout" "map dcp_role ps = map spp_role layout"
proof -
  have len: "length layout = length least" using list_all2_lengthD [OF assms(1)] by simp
  show "map dcp_offset_bytes ps = map spp_offset_bytes layout" "map dcp_size_bytes ps = map spp_size_bytes layout"
    "map dcp_source_table_index ps = map spp_source_table_index layout" "map dcp_role ps = map spp_role layout"
    unfolding assms(2) by (rule map_zip_first [OF len], simp add: planned_partition_def)+
qed

lemma plan_direct_clone_cases:
  assumes "plan_direct_clone request = Inr plan"
  obtains n recommended layout least where "normalize_request request = Inr n"
    "chosen_layout request n = Inr (recommended, dp_mode plan, layout)"
    "build_layout request n (dp_mode plan) (dcr_surplus_allocation request) = Inr layout"
    "dp_recommended_mode plan = recommended"
    "dp_mode_was_overridden plan = (dcr_mode_choice request \<noteq> Choice_automatic \<and> dp_mode plan \<noteq> recommended)"
    "dp_target_style plan = npi_target_style n" "dp_partition_selection plan = npi_selections n"
    "dp_unallocated_tail_bytes plan = smp_unallocated_tail_bytes layout"
    "list_all2 enlarges (smp_target_partitions least) (smp_target_partitions layout)"
    "dp_target_partitions plan = map (\<lambda>(q, m). planned_partition n (dp_mode plan) q m (source_in request n q))
      (zip (smp_target_partitions layout) (smp_target_partitions (least :: shrink_migration_plan)))"
proof -
  obtain n where n: "normalize_request request = Inr n"
    using assms by (auto simp: plan_direct_clone_def case_result_Inr_iff)
  then obtain recommended mode layout where c: "chosen_layout request n = Inr (recommended, mode, layout)"
    using assms by (auto simp: plan_direct_clone_def chosen_layout_def case_result_Inr_iff)
  obtain least :: shrink_migration_plan and plan' where p: "plan_direct_clone request = Inr plan'" "dp_mode plan' = mode"
    "dp_recommended_mode plan' = recommended"
    "dp_mode_was_overridden plan' = (dcr_mode_choice request \<noteq> Choice_automatic \<and> mode \<noteq> recommended)"
    "dp_target_style plan' = npi_target_style n" "dp_partition_selection plan' = npi_selections n"
    "dp_unallocated_tail_bytes plan' = smp_unallocated_tail_bytes layout"
    "list_all2 enlarges (smp_target_partitions least) (smp_target_partitions layout)"
    "dp_target_partitions plan' = map (\<lambda>(q, m). planned_partition n mode q m (source_in request n q))
      (zip (smp_target_partitions layout) (smp_target_partitions least))"
    using plan_direct_clone_success [OF n c] by blast
  have "plan' = plan" using assms p(1) by simp
  then show thesis using that [OF n, of recommended layout least] p c chosen_layout_built [OF c] by simp
qed

lemma distinct_placed:
  assumes "normalize_request request = Inr n"
  shows "distinct (map ssp_source_table_index (placed_sources request n mode a))"
proof -
  have keep: "distinct (map f (order_content r ps))" if "distinct (map f ps)" for r f and ps :: "shrink_source_partition list"
  proof -
    have "mset (map f (sort_key k ps)) = mset (map f ps)" for k :: "shrink_source_partition \<Rightarrow> nat" by simp
    then have "distinct (map f (sort_key k ps))" for k :: "shrink_source_partition \<Rightarrow> nat"
      using that mset_eq_imp_distinct_iff by blast
    then show ?thesis using that by (simp add: order_content_def Let_def distinct_map_filter)
  qed
  have "distinct (map source_index (selected_sources request))"
    using normalize_success(5) [OF assms] by (simp add: selected_sources_def distinct_map_filter)
  then have "distinct (map ssp_source_table_index (smr_source_partitions (layout_request request n mode a)))"
    by (simp add: layout_sources [OF assms] comp_def)
  then show ?thesis by (simp add: placed_sources_def Let_def keep content_of_def distinct_map_filter)
qed

section \<open>A concrete request\<close>

text \<open>The disk of the sample of \<^theory_text>\<open>ShrinkLayoutCorrect\<close>, to be cloned to a smaller one.\<close>

definition sample_direct_request :: direct_clone_request where
  "sample_direct_request =
     \<lparr>dcr_mode_choice = Choice_automatic, dcr_partition_style_choice = Style_preserve,
      dcr_source_style = Style_gpt, dcr_source_size_bytes = 200 * kGiB, dcr_source_logical_sector_size = 512,
      dcr_target_size_bytes = 60 * kGiB, dcr_target_logical_sector_size = 512,
      dcr_source_is_windows_system = False, dcr_windows_is_amd64 = False,
      dcr_bitlocker_fully_decrypted = True, dcr_mbr_to_gpt_eligible = False,
      dcr_surplus_allocation = Automatic_proportional, dcr_surplus_target_source_table_index = None,
      dcr_source_partitions =
        map (\<lambda>p. \<lparr>dcs_partition = p, dcs_selected = True, dcs_required_for_windows = False\<rparr>)
          (smr_source_partitions (sample_request Automatic_proportional (60 * kGiB)))\<rparr>"

lemma sample_direct_normalized:
  "\<exists>n. normalize_request sample_direct_request = Inr n \<and>
    layout_request sample_direct_request n Mode_shrink Automatic_proportional =
      sample_request Automatic_proportional (60 * kGiB)"
  by (simp add: normalize_request_def check_direct_request_def sample_direct_request_def sample_request_def
    sample_source_def Let_def checked_add_def count_partition_def is_content_role_def direct_roles_invalid_def
    select_partition_def partition_required_def check_surplus_target_def direct_target_style_def
    layout_request_def layout_partition_def)

lemma sample_direct_plan: "\<exists>plan. plan_direct_clone sample_direct_request = Inr plan"
proof -
  obtain n where n: "normalize_request sample_direct_request = Inr n"
    and r: "layout_request sample_direct_request n Mode_shrink Automatic_proportional =
      sample_request Automatic_proportional (60 * kGiB)" using sample_direct_normalized by blast
  obtain layout where "build_layout sample_direct_request n Mode_shrink Automatic_proportional = Inr layout"
    using sample_plan_exists by (auto simp: build_layout_def r)
  then have "\<exists>x. chosen_layout sample_direct_request n = Inr x"
    by (auto simp: chosen_layout_def choose_mode_def sample_direct_request_def split: sum.split)
  then show ?thesis using plan_direct_clone_success [OF n] by (metis prod_cases3)
qed

section \<open>Properties\<close>

text \<open>C15. When a direct clone is refused: exactly when the request is, or the layout of the chosen mode
  is; an automatic choice is refused only when both layouts are.  The consistency checks that end in an
  internal error never fail.\<close>

theorem plan_direct_clone_refuses:
  "plan_direct_clone request = Inl e \<longleftrightarrow>
   normalize_request request = Inl e \<or>
   (\<exists>n. normalize_request request = Inr n \<and>
     (case dcr_mode_choice request of
        Choice_exact \<Rightarrow> build_layout request n Mode_exact (dcr_surplus_allocation request) = Inl e
      | Choice_shrink \<Rightarrow> build_layout request n Mode_shrink (dcr_surplus_allocation request) = Inl e
      | Choice_automatic \<Rightarrow>
          isl (build_layout request n Mode_exact (dcr_surplus_allocation request)) \<and>
          build_layout request n Mode_shrink (dcr_surplus_allocation request) = Inl e))"
proof (cases "normalize_request request")
  case (Inl x)
  then show ?thesis by (simp add: plan_direct_clone_def)
next
  case (Inr n)
  have chosen: "chosen_layout request n = Inl e \<longleftrightarrow>
     (case dcr_mode_choice request of
        Choice_exact \<Rightarrow> build_layout request n Mode_exact (dcr_surplus_allocation request) = Inl e
      | Choice_shrink \<Rightarrow> build_layout request n Mode_shrink (dcr_surplus_allocation request) = Inl e
      | Choice_automatic \<Rightarrow>
          isl (build_layout request n Mode_exact (dcr_surplus_allocation request)) \<and>
          build_layout request n Mode_shrink (dcr_surplus_allocation request) = Inl e)"
    by (auto simp: chosen_layout_def choose_mode_def map_sum_def
      split: direct_clone_mode_choice.split sum.split)
  have "plan_direct_clone request = Inl e \<longleftrightarrow> chosen_layout request n = Inl e"
  proof (cases "chosen_layout request n")
    case (Inl x)
    then show ?thesis using Inr by (simp add: plan_direct_clone_def chosen_layout_def)
  next
    case chosen: (Inr x)
    then obtain r m l where "chosen_layout request n = Inr (r, m, l)" by (metis prod_cases3)
    from plan_direct_clone_success [OF Inr this] show ?thesis by (auto simp: chosen)
  qed
  then show ?thesis using chosen Inr by simp
qed

text \<open>Which mode a direct clone has: it is exact exactly when the exact layout exists and the caller has
  not asked for the shrinking one; the existence of the exact layout decides the recommendation, and
  only an explicit shrink against it counts as an override.\<close>

theorem plan_direct_clone_mode:
  assumes "plan_direct_clone request = Inr plan"
  shows "\<exists>n exact_exists. normalize_request request = Inr n \<and>
    exact_exists = (\<not> isl (build_layout request n Mode_exact (dcr_surplus_allocation request))) \<and>
    (dp_mode plan = Mode_exact \<longleftrightarrow> exact_exists \<and> dcr_mode_choice request \<noteq> Choice_shrink) \<and>
    (dp_recommended_mode plan = Mode_exact \<longleftrightarrow> exact_exists) \<and>
    (dp_mode_was_overridden plan \<longleftrightarrow> exact_exists \<and> dcr_mode_choice request = Choice_shrink) \<and>
    (dp_mode plan = Mode_exact \<longrightarrow>
       dcr_source_logical_sector_size request = dcr_target_logical_sector_size request)"
proof (rule plan_direct_clone_cases [OF assms])
  fix n recommended layout
  assume n: "normalize_request request = Inr n" and c: "chosen_layout request n = Inr (recommended, dp_mode plan, layout)"
    and built: "build_layout request n (dp_mode plan) (dcr_surplus_allocation request) = Inr layout"
    and r: "dp_recommended_mode plan = recommended"
    and o: "dp_mode_was_overridden plan = (dcr_mode_choice request \<noteq> Choice_automatic \<and> dp_mode plan \<noteq> recommended)"
  let ?exact = "\<not> isl (build_layout request n Mode_exact (dcr_surplus_allocation request))"
  have "(dp_mode plan = Mode_exact \<longleftrightarrow> ?exact \<and> dcr_mode_choice request \<noteq> Choice_shrink) \<and>
    (recommended = Mode_exact \<longleftrightarrow> ?exact)"
    using c by (auto simp: chosen_layout_def choose_mode_def map_sum_def
      split: direct_clone_mode_choice.split_asm sum.split_asm if_split_asm)
  moreover have "dp_mode plan \<noteq> recommended \<longleftrightarrow> ?exact \<and> dcr_mode_choice request = Choice_shrink"
    using c by (auto simp: chosen_layout_def choose_mode_def map_sum_def
      split: direct_clone_mode_choice.split_asm sum.split_asm if_split_asm)
  moreover have "dp_mode plan = Mode_exact \<longrightarrow>
       dcr_source_logical_sector_size request = dcr_target_logical_sector_size request"
    using built by (auto simp: build_layout_def split: if_split_asm)
  ultimately show ?thesis using n r o by auto
qed

theorem plan_direct_clone_mode_witness:
  "\<exists>plan. plan_direct_clone sample_direct_request = Inr plan \<and> \<not> dp_mode_was_overridden plan"
proof -
  obtain plan where plan: "plan_direct_clone sample_direct_request = Inr plan" using sample_direct_plan by blast
  from plan_direct_clone_mode [OF plan] plan show ?thesis by (auto simp: sample_direct_request_def)
qed

text \<open>The planned partitions by their origin.\<close>

lemma planned_origin:
  assumes norm: "normalize_request request = Inr n" and m: "enlarges m q"
    and q: "(spp_source_table_index q = None \<and> (spp_role q = Role_efi_system \<or> spp_role q = Role_microsoft_reserved)) \<or>
      (\<exists>entry \<in> set (selected_sources request). is_content_role (ssp_role (dcs_partition entry)) \<and>
        planned_for request n mode entry q)"
    and p: "p = planned_partition n mode q m (source_in request n q)"
  shows "(dcp_source_table_index p = None \<and> dcp_transfer p = Transfer_recreate \<and>
        (dcp_role p = Role_efi_system \<or> dcp_role p = Role_microsoft_reserved)) \<or>
      (\<exists>entry \<in> set (selected_sources request). is_content_role (ssp_role (dcs_partition entry)) \<and>
        clones_entry request mode entry p)"
  using q
proof
  assume "spp_source_table_index q = None \<and> (spp_role q = Role_efi_system \<or> spp_role q = Role_microsoft_reserved)"
  then show ?thesis by (simp add: p planned_partition_def source_in_def source_of_def)
next
  assume "\<exists>entry \<in> set (selected_sources request). is_content_role (ssp_role (dcs_partition entry)) \<and>
    planned_for request n mode entry q"
  then show ?thesis using planned_clones_entry [OF norm _ _ _ m] unfolding p by blast
qed

lemma plan_direct_clone_parts:
  assumes "plan_direct_clone request = Inr plan"
  obtains n and fixed :: "shrink_planned_partition list" and placed where "normalize_request request = Inr n" "dp_target_style plan = npi_target_style n"
    "placed = placed_sources request n (dp_mode plan) (dcr_surplus_allocation request)"
    "map dcp_source_table_index (dp_target_partitions plan) =
      map (\<lambda>_. None) fixed @ map (Some \<circ> ssp_source_table_index) placed"
    "any_windows_selected request \<and> dp_target_style plan = Style_gpt \<longrightarrow>
      (\<exists>rest. map dcp_role (dp_target_partitions plan) = [Role_efi_system, Role_microsoft_reserved] @ rest)"
    "\<forall>p \<in> set (dp_target_partitions plan).
      (dcp_source_table_index p = None \<and> dcp_transfer p = Transfer_recreate \<and>
        (dcp_role p = Role_efi_system \<or> dcp_role p = Role_microsoft_reserved)) \<or>
      (\<exists>entry \<in> set (selected_sources request). is_content_role (ssp_role (dcs_partition entry)) \<and>
        clones_entry request (dp_mode plan) entry p)"
proof -
  obtain n layout least where norm: "normalize_request request = Inr n"
    and built: "build_layout request n (dp_mode plan) (dcr_surplus_allocation request) = Inr layout"
    and style: "dp_target_style plan = npi_target_style n"
    and enl: "list_all2 enlarges (smp_target_partitions least) (smp_target_partitions layout)"
    and ps: "dp_target_partitions plan = map (\<lambda>(q, m). planned_partition n (dp_mode plan) q m (source_in request n q))
      (zip (smp_target_partitions layout) (smp_target_partitions (least :: shrink_migration_plan)))"
    by (rule plan_direct_clone_cases [OF assms])
  let ?r = "layout_request request n (dp_mode plan) (dcr_surplus_allocation request)"
  let ?placed = "placed_sources request n (dp_mode plan) (dcr_surplus_allocation request)"
  obtain fixed qs where split: "smp_target_partitions layout = fixed @ qs"
    and roles: "map spp_role fixed = fixed_roles ?r (msr_count ?r)"
    and none: "\<forall>q \<in> set fixed. spp_source_table_index q = None"
    and index: "map spp_source_table_index qs = map (Some \<circ> ssp_source_table_index) ?placed"
    and qs: "\<forall>q \<in> set qs. \<exists>entry \<in> set (selected_sources request).
      is_content_role (ssp_role (dcs_partition entry)) \<and> planned_for request n (dp_mode plan) entry q"
    using build_layout_content [OF norm built] by blast
  note offs = plan_offsets [OF enl ps]
  have indexes: "map dcp_source_table_index (dp_target_partitions plan) =
      map (\<lambda>_. None) fixed @ map (Some \<circ> ssp_source_table_index) ?placed"
    using offs(3) none by (simp add: split index [symmetric])
  have boot: "any_windows_selected request \<and> dp_target_style plan = Style_gpt \<longrightarrow>
      (\<exists>rest. map dcp_role (dp_target_partitions plan) = [Role_efi_system, Role_microsoft_reserved] @ rest)"
    using offs(4) roles normalize_success(3) [OF norm] style
    by (simp add: split fixed_roles_def layout_request_def)
  have fixed: "spp_role q = Role_efi_system \<or> spp_role q = Role_microsoft_reserved" if "q \<in> set fixed" for q
  proof -
    have "spp_role q \<in> set (fixed_roles ?r (msr_count ?r))" using roles that by (metis image_eqI list.set_map)
    then show ?thesis by (auto simp: fixed_roles_def split: if_split_asm)
  qed
  have each: "(dcp_source_table_index p = None \<and> dcp_transfer p = Transfer_recreate \<and>
        (dcp_role p = Role_efi_system \<or> dcp_role p = Role_microsoft_reserved)) \<or>
      (\<exists>entry \<in> set (selected_sources request). is_content_role (ssp_role (dcs_partition entry)) \<and>
        clones_entry request (dp_mode plan) entry p)" if member: "p \<in> set (dp_target_partitions plan)" for p
  proof -
    obtain x where x: "x \<in> set (zip (smp_target_partitions layout) (smp_target_partitions least))"
      "p = (\<lambda>(q, m). planned_partition n (dp_mode plan) q m (source_in request n q)) x"
      using member unfolding ps set_map by blast
    obtain q m where "x = (q, m)" by (cases x)
    with x have qm: "(q, m) \<in> set (zip (smp_target_partitions layout) (smp_target_partitions least))"
      and p: "p = planned_partition n (dp_mode plan) q m (source_in request n q)" by simp_all
    have "enlarges m q" "q \<in> set fixed \<or> q \<in> set qs" using zip_in_list_all2 [OF enl qm] by (auto simp: split)
    then show ?thesis using planned_origin [OF norm _ _ p] fixed none qs by blast
  qed
  show thesis by (rule that [OF norm style refl indexes boot]) (use each in blast)
qed

text \<open>C14. What a direct clone plans to copy: every selected partition with content is planned once, but for
  the BIOS system partition of an MBR disk that is cloned to GPT.  A planned partition is either a new EFI
  or reserved partition or takes over one selected source partition with its index, role, file system
  and label.  In exact mode, and whenever the file system is unknown, it is at least as large as its
  source and copied exactly; in shrink mode an NTFS, FAT32 or exFAT partition is copied by its files
  into at least the least size of a migration.  A clone of Windows to GPT starts with a new EFI and a
  new reserved partition, whether the caller has selected them or not.\<close>

theorem plan_direct_clone_content:
  assumes "plan_direct_clone request = Inr plan"
  shows "distinct (filter (\<lambda>i. i \<noteq> None) (map dcp_source_table_index (dp_target_partitions plan))) \<and>
    (\<forall>p \<in> set (dp_target_partitions plan).
      (dcp_source_table_index p = None \<and> dcp_transfer p = Transfer_recreate \<and>
        (dcp_role p = Role_efi_system \<or> dcp_role p = Role_microsoft_reserved)) \<or>
      (\<exists>entry \<in> set (selected_sources request). is_content_role (ssp_role (dcs_partition entry)) \<and>
        clones_entry request (dp_mode plan) entry p)) \<and>
    (\<forall>entry \<in> set (selected_sources request). is_content_role (ssp_role (dcs_partition entry)) \<and>
      \<not> (dcr_source_style request = Style_mbr \<and> dp_target_style plan = Style_gpt \<and>
        ssp_role (dcs_partition entry) = Role_bios_system) \<longrightarrow>
      Some (source_index entry) \<in> dcp_source_table_index ` set (dp_target_partitions plan)) \<and>
    (any_windows_selected request \<and> dp_target_style plan = Style_gpt \<longrightarrow>
      (\<exists>rest. map dcp_role (dp_target_partitions plan) = [Role_efi_system, Role_microsoft_reserved] @ rest))"
proof (rule plan_direct_clone_parts [OF assms], intro conjI)
  fix n fixed placed
  assume norm: "normalize_request request = Inr n" and style: "dp_target_style plan = npi_target_style n"
    and placed: "placed = placed_sources request n (dp_mode plan) (dcr_surplus_allocation request)"
    and indexes: "map dcp_source_table_index (dp_target_partitions plan) =
      map (\<lambda>_. None) fixed @ map (Some \<circ> ssp_source_table_index) placed"
  have "filter (\<lambda>i. i \<noteq> None) (map (\<lambda>_. None) xs) = []" "filter (\<lambda>i. i \<noteq> None) (map (Some \<circ> f) ys) = map (Some \<circ> f) ys"
    for xs :: "shrink_planned_partition list" and f :: "shrink_source_partition \<Rightarrow> u32" and ys
    by (simp_all add: filter_empty_conv filter_id_conv)
  then show "distinct (filter (\<lambda>i. i \<noteq> None) (map dcp_source_table_index (dp_target_partitions plan)))"
    using distinct_placed [OF norm] unfolding indexes placed by (simp add: distinct_map inj_on_def)
  show "\<forall>entry \<in> set (selected_sources request). is_content_role (ssp_role (dcs_partition entry)) \<and>
      \<not> (dcr_source_style request = Style_mbr \<and> dp_target_style plan = Style_gpt \<and>
        ssp_role (dcs_partition entry) = Role_bios_system) \<longrightarrow>
      Some (source_index entry) \<in> dcp_source_table_index ` set (dp_target_partitions plan)"
  proof (intro ballI impI)
    fix entry assume "entry \<in> set (selected_sources request)" "is_content_role (ssp_role (dcs_partition entry)) \<and>
      \<not> (dcr_source_style request = Style_mbr \<and> dp_target_style plan = Style_gpt \<and>
        ssp_role (dcs_partition entry) = Role_bios_system)"
    then have "layout_partition request (dp_mode plan) entry \<in> set placed"
      unfolding placed using set_placed_sources [OF norm] style by auto
    then have "Some (source_index entry) \<in> set (map dcp_source_table_index (dp_target_partitions plan))"
      unfolding indexes by (force simp: image_iff intro: bexI [of _ "layout_partition request (dp_mode plan) entry"])
    then show "Some (source_index entry) \<in> dcp_source_table_index ` set (dp_target_partitions plan)" by simp
  qed
qed (simp_all only:)

theorem plan_direct_clone_content_witness:
  "\<exists>plan. plan_direct_clone sample_direct_request = Inr plan \<and>
    Some 1 \<in> dcp_source_table_index ` set (dp_target_partitions plan)"
proof -
  obtain plan where plan: "plan_direct_clone sample_direct_request = Inr plan" using sample_direct_plan by blast
  have "\<lparr>dcs_partition = sample_source 1 Fs_unsupported (2 * kGiB + 512) kGiB, dcs_selected = True,
      dcs_required_for_windows = False\<rparr> \<in> set (selected_sources sample_direct_request)"
    by (simp add: selected_sources_def sample_direct_request_def sample_request_def)
  with plan_direct_clone_content [OF plan] have "Some 1 \<in> dcp_source_table_index ` set (dp_target_partitions plan)"
    by (force simp: sample_source_def is_content_role_def)
  with plan show ?thesis by blast
qed

text \<open>Where a direct clone puts its partitions: in order, without overlap, on 1 MiB boundaries behind the
  metadata of the target, with the reported tail and a reserve of 2 MiB left free at the end.\<close>

theorem plan_direct_clone_layout:
  assumes "plan_direct_clone request = Inr plan"
  shows "sorted_wrt direct_partition_before (dp_target_partitions plan) \<and>
    (\<forall>p \<in> set (dp_target_partitions plan).
      mib dvd unat (dcp_offset_bytes p) \<and> first_usable_byte (dp_target_style plan) \<le> unat (dcp_offset_bytes p) \<and>
      unat (dcp_offset_bytes p) + unat (dcp_size_bytes p) + unat (dp_unallocated_tail_bytes plan) + 2 * mib
        \<le> unat (dcr_target_size_bytes request))"
proof (rule plan_direct_clone_cases [OF assms])
  fix n layout and least :: shrink_migration_plan
  assume built: "build_layout request n (dp_mode plan) (dcr_surplus_allocation request) = Inr layout"
    and style: "dp_target_style plan = npi_target_style n"
    and tail: "dp_unallocated_tail_bytes plan = smp_unallocated_tail_bytes layout"
    and enl: "list_all2 enlarges (smp_target_partitions least) (smp_target_partitions layout)"
    and ps: "dp_target_partitions plan = map (\<lambda>(q, m). planned_partition n (dp_mode plan) q m (source_in request n q))
      (zip (smp_target_partitions layout) (smp_target_partitions least))"
  let ?r = "layout_request request n (dp_mode plan) (dcr_surplus_allocation request)"
  have run: "plan_shrink_migration ?r = Inr layout" using built by (simp add: build_layout_def case_result_Inr_iff)
  have r: "smr_target_style ?r = npi_target_style n" "smr_target_size_bytes ?r = dcr_target_size_bytes request"
    by (simp_all add: layout_request_def)
  note l = plan_layout_spec [OF run, unfolded r, folded style, folded tail]
  have len: "length (dp_target_partitions plan) = length (smp_target_partitions layout)"
    using list_all2_lengthD [OF enl] by (simp add: ps)
  have at: "dcp_offset_bytes (dp_target_partitions plan ! i) = spp_offset_bytes (smp_target_partitions layout ! i)"
    "dcp_size_bytes (dp_target_partitions plan ! i) = spp_size_bytes (smp_target_partitions layout ! i)"
    if "i < length (dp_target_partitions plan)" for i
    using plan_offsets(1,2) [OF enl ps] that len by (metis nth_map)+
  have "sorted_wrt direct_partition_before (dp_target_partitions plan)"
    using l len by (simp add: sorted_wrt_iff_nth_less direct_partition_before_def partition_before_def at)
  moreover have "mib dvd unat (dcp_offset_bytes p) \<and> first_usable_byte (dp_target_style plan) \<le> unat (dcp_offset_bytes p) \<and>
      unat (dcp_offset_bytes p) + unat (dcp_size_bytes p) + unat (dp_unallocated_tail_bytes plan) + 2 * mib
        \<le> unat (dcr_target_size_bytes request)" if p: "p \<in> set (dp_target_partitions plan)" for p
  proof -
    from p obtain i where i: "i < length (dp_target_partitions plan)" "p = dp_target_partitions plan ! i"
      by (auto simp: in_set_conv_nth)
    then have "smp_target_partitions layout ! i \<in> set (smp_target_partitions layout)" using len by simp
    with l show ?thesis unfolding i(2) at [OF i(1)] by blast
  qed
  ultimately show ?thesis by blast
qed

theorem plan_direct_clone_layout_witness:
  "\<exists>plan. plan_direct_clone sample_direct_request = Inr plan \<and>
    sorted_wrt direct_partition_before (dp_target_partitions plan)"
  using sample_direct_plan plan_direct_clone_layout by blast

end
