(* ===== verification/Wire.thy ===== *)
theory Wire
  imports DiskIdentity
begin

unbundle bit_operations_syntax

text \<open>
  The byte format of operation plans and checkpoints: the \<open>append_\<close> functions that
  \<open>OperationCore/src/operation.cpp\<close> and \<open>checkpoint.cpp\<close> both define, and the bounded \<open>Reader\<close> of
  \<open>checkpoint.cpp\<close>.  A reader is the bytes it has not consumed yet; a failed read is \<open>None\<close>, after
  which no caller goes on reading.
\<close>

section \<open>Integers\<close>

text \<open>The loops over \<open>shift\<close>, in steps of 8 bits.\<close>

definition shifted_bytes :: "nat \<Rightarrow> 'a::len word \<Rightarrow> byte list" where
  "shifted_bytes n value = map (\<lambda>i. ucast (drop_bit (8 * i) value AND 0xFF)) [0..<n]"

definition combine_bytes :: "byte list \<Rightarrow> 'a::len word" where
  "combine_bytes bytes = foldl (\<lambda>value i. value OR push_bit (8 * i) (ucast (bytes ! i))) 0 [0..<length bytes]"

lemma length_shifted_bytes [simp]: "length (shifted_bytes n v) = n"
  by (simp add: shifted_bytes_def)

lemma bit_foldl_or:
  fixes v :: "'a::len word"
  shows "bit (foldl (\<lambda>v i. v OR f i) v xs) n \<longleftrightarrow> bit v n \<or> (\<exists>i \<in> set xs. bit (f i) n)"
  by (induction xs arbitrary: v) (auto simp: bit_simps)

lemma bit_low_byte: "bit (w AND 0xFF :: 'a::len word) n \<longleftrightarrow> n < 8 \<and> bit w n"
proof -
  have "(0xFF :: 'a word) = mask 8" by (simp add: mask_eq_exp_minus_1)
  then have "bit (w AND 0xFF) n \<longleftrightarrow> bit w n \<and> bit (mask 8 :: 'a word) n" by (simp only: bit_and_iff)
  then show ?thesis by (auto simp: bit_mask_iff dest: bit_imp_le_length)
qed

lemma bit_shifted_bytes:
  fixes v :: "'a::len word"
  assumes "i < n" "j < 8"
  shows "bit (shifted_bytes n v ! i) j \<longleftrightarrow> bit v (8 * i + j)"
  using assms by (auto simp: shifted_bytes_def bit_unsigned_iff bit_low_byte bit_drop_bit_eq)

lemma bit_combine_bytes:
  "bit (combine_bytes bytes :: 'a::len word) n \<longleftrightarrow>
   n < LENGTH('a) \<and> n div 8 < length bytes \<and> bit (bytes ! (n div 8)) (n mod 8)"
proof -
  have "bit (combine_bytes bytes :: 'a word) n \<longleftrightarrow>
    (\<exists>i < length bytes. n < LENGTH('a) \<and> 8 * i \<le> n \<and> bit (bytes ! i) (n - 8 * i))"
    by (auto simp: combine_bytes_def bit_foldl_or bit_simps)
  also have "\<dots> \<longleftrightarrow> n < LENGTH('a) \<and> n div 8 < length bytes \<and> bit (bytes ! (n div 8)) (n mod 8)"
  proof -
    have "8 * i \<le> n \<and> bit (bytes ! i) (n - 8 * i) \<Longrightarrow> i = n div 8" for i
    proof -
      assume i: "8 * i \<le> n \<and> bit (bytes ! i) (n - 8 * i)"
      then have "n - 8 * i < LENGTH(8)" by (blast intro: bit_imp_le_length)
      then show "i = n div 8" using i by simp linarith
    qed
    then show ?thesis by (metis minus_mult_div_eq_mod times_div_less_eq_dividend)
  qed
  finally show ?thesis .
qed

lemma combine_shifted_bytes:
  fixes v :: "'a::len word"
  assumes "LENGTH('a) = 8 * n"
  shows "combine_bytes (shifted_bytes n v) = v"
proof (rule bit_word_eqI)
  fix k assume "k < LENGTH('a)"
  then have "k div 8 < n" using assms by auto
  then show "bit (combine_bytes (shifted_bytes n v) :: 'a word) k = bit v k"
    using \<open>k < LENGTH('a)\<close> by (simp add: bit_combine_bytes bit_shifted_bytes)
qed

lemma shifted_combine_bytes:
  assumes "LENGTH('a) = 8 * n" "length bytes = n"
  shows "shifted_bytes n (combine_bytes bytes :: 'a::len word) = bytes"
proof (rule nth_equalityI)
  fix i assume i: "i < length (shifted_bytes n (combine_bytes bytes :: 'a word))"
  show "shifted_bytes n (combine_bytes bytes :: 'a word) ! i = bytes ! i"
  proof (rule bit_word_eqI)
    fix j assume "j < LENGTH(8)"
    then show "bit (shifted_bytes n (combine_bytes bytes :: 'a word) ! i) j = bit (bytes ! i) j"
      using i assms by (simp add: bit_shifted_bytes bit_combine_bytes)
  qed
qed (use assms in simp)

section \<open>Writing\<close>

definition append_u8 :: "byte list \<Rightarrow> u8 \<Rightarrow> byte list" where
  "append_u8 bytes value = bytes @ [value]"

definition append_u16 :: "byte list \<Rightarrow> u16 \<Rightarrow> byte list" where
  "append_u16 bytes value = bytes @ [ucast (value AND 0xFF), ucast (drop_bit 8 value AND 0xFF)]"

definition append_u32 :: "byte list \<Rightarrow> u32 \<Rightarrow> byte list" where
  "append_u32 bytes value = bytes @ shifted_bytes 4 value"

definition append_u64 :: "byte list \<Rightarrow> u64 \<Rightarrow> byte list" where
  "append_u64 bytes value = bytes @ shifted_bytes 8 value"

definition append_array :: "byte list \<Rightarrow> byte list \<Rightarrow> byte list" where
  "append_array bytes value = bytes @ value"

definition append_wstring :: "byte list \<Rightarrow> wide_string \<Rightarrow> byte list" where
  "append_wstring bytes value = foldl append_u16 (append_u32 bytes (of_nat (length value))) value"

definition append_string :: "byte list \<Rightarrow> narrow_string \<Rightarrow> byte list" where
  "append_string bytes value = foldl append_u8 (append_u32 bytes (of_nat (length value))) value"

definition append_identity :: "byte list \<Rightarrow> stable_disk_identity \<Rightarrow> byte list" where
  "append_identity bytes identity =
     (let bytes = append_u32 bytes (id_disk_number identity);
          bytes = append_u64 bytes (id_size_bytes identity);
          bytes = append_u32 bytes (id_logical_sector_size identity);
          bytes = append_u8 bytes (if id_is_system_disk identity then 1 else 0);
          bytes = append_wstring bytes (id_model identity);
          bytes = append_string bytes (id_serial_suffix identity)
      in append_wstring bytes (id_device_instance_id identity))"

section \<open>Reading\<close>

type_synonym 'a reader = "byte list \<Rightarrow> ('a \<times> byte list) option"

text \<open>\<open>has(n)\<close> and the advance of the offset.\<close>

definition read_bytes :: "nat \<Rightarrow> byte list reader" where
  "read_bytes n bytes = (if n \<le> length bytes then Some (take n bytes, drop n bytes) else None)"

definition bindR :: "'a reader \<Rightarrow> ('a \<Rightarrow> 'b reader) \<Rightarrow> 'b reader" where
  "bindR m f bytes = (case m bytes of None \<Rightarrow> None | Some (x, rest) \<Rightarrow> f x rest)"

definition returnR :: "'a \<Rightarrow> 'a reader" where
  "returnR x rest = Some (x, rest)"

definition failR :: "'a reader" where
  "failR bytes = None"

definition read_array :: "nat \<Rightarrow> byte list reader" where
  "read_array n = read_bytes n"

definition read_u8 :: "u8 reader" where
  "read_u8 = bindR (read_bytes 1) (\<lambda>b. returnR (b ! 0))"

definition read_u16 :: "u16 reader" where
  "read_u16 = bindR (read_bytes 2) (\<lambda>b. returnR (ucast (b ! 0) OR push_bit 8 (ucast (b ! 1))))"

definition read_u32 :: "u32 reader" where
  "read_u32 = bindR (read_bytes 4) (\<lambda>b. returnR (combine_bytes b))"

definition read_u64 :: "u64 reader" where
  "read_u64 = bindR (read_bytes 8) (\<lambda>b. returnR (combine_bytes b))"

primrec read_code_units :: "nat \<Rightarrow> wide_string reader" where
  "read_code_units 0 = returnR []"
| "read_code_units (Suc n) =
     bindR read_u16 (\<lambda>c. if c = 0 then failR else bindR (read_code_units n) (\<lambda>cs. returnR (c # cs)))"

definition read_wstring :: "nat \<Rightarrow> wide_string reader" where
  "read_wstring maximum_characters =
     bindR read_u32 (\<lambda>n bytes.
       if unat n > maximum_characters \<or> unat n > 0xFFFFFFFFFFFFFFFF div 2 \<or> unat n * 2 > length bytes
       then None
       else read_code_units (unat n) bytes)"

definition invalid_serial_byte :: "u8 \<Rightarrow> bool" where
  "invalid_serial_byte c \<longleftrightarrow> c = 0 \<or> c < 0x20 \<or> c = 0x7F"

definition read_string :: "nat \<Rightarrow> narrow_string reader" where
  "read_string maximum_characters =
     bindR read_u32 (\<lambda>n. if unat n > maximum_characters then failR
       else bindR (read_bytes (unat n)) (\<lambda>cs. if list_ex invalid_serial_byte cs then failR else returnR cs))"

abbreviation (input) kMaximumModelCharacters :: nat where "kMaximumModelCharacters \<equiv> 256"
abbreviation (input) kMaximumSerialCharacters :: nat where "kMaximumSerialCharacters \<equiv> 128"
abbreviation (input) kMaximumDeviceIdCharacters :: nat where "kMaximumDeviceIdCharacters \<equiv> 1024"

definition read_identity :: "stable_disk_identity reader" where
  "read_identity =
     bindR read_u32 (\<lambda>disk_number.
     bindR read_u64 (\<lambda>size_bytes.
     bindR read_u32 (\<lambda>logical_sector_size.
     bindR read_u8 (\<lambda>is_system. if is_system > 1 then failR else
     bindR (read_wstring kMaximumModelCharacters) (\<lambda>model.
     bindR (read_string kMaximumSerialCharacters) (\<lambda>serial_suffix.
     bindR (read_wstring kMaximumDeviceIdCharacters) (\<lambda>device_instance_id.
       returnR \<lparr>id_disk_number = disk_number, id_model = model, id_size_bytes = size_bytes,
         id_logical_sector_size = logical_sector_size, id_serial_suffix = serial_suffix,
         id_device_instance_id = device_instance_id, id_is_system_disk = is_system \<noteq> 0\<rparr>)))))))"

section \<open>Codecs\<close>

text \<open>
  What a writer and a reader of one field promise each other: reading gives back what was written and
  leaves the rest, and only what was written is read.  Then no encoding is a prefix of another one.
\<close>

locale codec =
  fixes encode :: "'a \<Rightarrow> byte list" and decode :: "'a reader" and encodable :: "'a \<Rightarrow> bool"
  assumes decode_encode: "encodable x \<Longrightarrow> decode (encode x @ rest) = Some (x, rest)"
    and encode_decode: "decode bytes = Some (x, rest) \<Longrightarrow> bytes = encode x @ rest \<and> encodable x"
begin

lemma prefix_free:
  assumes "encodable x" "encodable y" "encode x @ xs = encode y @ ys"
  shows "x = y \<and> xs = ys"
proof -
  have "Some (x, xs) = decode (encode y @ ys)"
    using decode_encode [OF assms(1), of xs] unfolding assms(3) by (rule sym)
  then show ?thesis using decode_encode [OF assms(2), of ys] by simp
qed

lemma bind_encode: "encodable x \<Longrightarrow> bindR decode f (encode x @ rest) = f x rest"
  by (simp add: bindR_def decode_encode)

lemma bind_decode:
  "bindR decode f bytes = Some y \<longleftrightarrow>
   (\<exists>x rest. bytes = encode x @ rest \<and> encodable x \<and> f x rest = Some y)"
proof
  assume run: "bindR decode f bytes = Some y"
  then obtain x rest where d: "decode bytes = Some (x, rest)" and f: "f x rest = Some y"
    by (auto simp: bindR_def split: option.splits)
  from encode_decode [OF d] f show "\<exists>x rest. bytes = encode x @ rest \<and> encodable x \<and> f x rest = Some y"
    by blast
qed (auto simp: bind_encode)

end

lemma bindR_Some:
  "bindR m f bytes = Some y \<longleftrightarrow> (\<exists>x rest. m bytes = Some (x, rest) \<and> f x rest = Some y)"
  by (auto simp: bindR_def split: option.splits)

lemma bindR_step: "m bytes = Some (x, rest) \<Longrightarrow> bindR m f bytes = f x rest"
  by (simp add: bindR_def)

lemma returnR_eq [simp]: "returnR x rest = Some y \<longleftrightarrow> y = (x, rest)"
  by (auto simp: returnR_def)

lemma failR_eq [simp]: "failR bytes = None"
  by (simp add: failR_def)

lemma read_bytes_append [simp]: "length xs = n \<Longrightarrow> read_bytes n (xs @ ys) = Some (xs, ys)"
  by (simp add: read_bytes_def)

lemma read_bytes_Some: "read_bytes n bytes = Some (xs, rest) \<longleftrightarrow> bytes = xs @ rest \<and> length xs = n"
  by (auto simp: read_bytes_def)

interpretation array: codec "\<lambda>a. a" "read_array n" "\<lambda>a. length a = n" for n
  by unfold_locales (auto simp: read_array_def read_bytes_Some)

lemma read_u8_Some: "read_u8 bytes = Some (v, rest) \<longleftrightarrow> bytes = v # rest"
  by (auto simp: read_u8_def bindR_Some read_bytes_Some length_Suc_conv)

interpretation u8: codec "\<lambda>v. [v]" read_u8 "\<lambda>v. True"
  by unfold_locales (auto simp: read_u8_Some)


text \<open>The bytes each writer appends.\<close>

definition wstring_bytes :: "wide_string \<Rightarrow> byte list" where
  "wstring_bytes cs = shifted_bytes 4 (of_nat (length cs) :: u32) @ concat (map (shifted_bytes 2) cs)"

definition string_bytes :: "narrow_string \<Rightarrow> byte list" where
  "string_bytes cs = shifted_bytes 4 (of_nat (length cs) :: u32) @ cs"

definition identity_bytes :: "stable_disk_identity \<Rightarrow> byte list" where
  "identity_bytes i =
     shifted_bytes 4 (id_disk_number i) @ shifted_bytes 8 (id_size_bytes i) @
     shifted_bytes 4 (id_logical_sector_size i) @ [if id_is_system_disk i then 1 else 0] @
     wstring_bytes (id_model i) @ string_bytes (id_serial_suffix i) @
     wstring_bytes (id_device_instance_id i)"

named_theorems append_simps \<open>what a writer appends\<close>

lemma append_u16_eq: "append_u16 bytes c = bytes @ shifted_bytes 2 c"
  by (simp add: append_u16_def shifted_bytes_def numeral_2_eq_2)

lemma foldl_append: "(\<And>b x. f b x = b @ g x) \<Longrightarrow> foldl f bytes xs = bytes @ concat (map g xs)"
  by (induction xs arbitrary: bytes) auto

lemma append_eqs [append_simps]:
  "append_u8 bytes b = bytes @ [b]"
  "append_u32 bytes v = bytes @ shifted_bytes 4 v"
  "append_u64 bytes w = bytes @ shifted_bytes 8 w"
  "append_array bytes a = bytes @ a"
  "append_wstring bytes cs = bytes @ wstring_bytes cs"
  "append_string bytes s = bytes @ string_bytes s"
proof -
  have "concat (map (\<lambda>x. [x]) s) = s" by (induction s) auto
  then show "append_string bytes s = bytes @ string_bytes s"
    by (simp add: append_string_def string_bytes_def append_u32_def foldl_append [OF append_u8_def])
qed (simp_all add: append_u8_def append_u32_def append_u64_def append_array_def append_wstring_def
  wstring_bytes_def foldl_append [OF append_u16_eq])

lemma append_u16_eqs [append_simps]: "append_u16 bytes c = bytes @ shifted_bytes 2 c"
  by (rule append_u16_eq)

lemma append_identity_eq [append_simps]: "append_identity bytes i = bytes @ identity_bytes i"
  by (simp add: append_identity_def identity_bytes_def append_simps Let_def)

interpretation u32: codec "shifted_bytes 4" read_u32 "\<lambda>v. True"
proof
  show "read_u32 (shifted_bytes 4 v @ rest) = Some (v, rest)" for v rest
    by (simp add: read_u32_def bindR_def combine_shifted_bytes)
  show "bytes = shifted_bytes 4 v @ rest \<and> True" if "read_u32 bytes = Some (v, rest)" for bytes v rest
    using that by (auto simp: read_u32_def bindR_Some read_bytes_Some shifted_combine_bytes)
qed

interpretation u64: codec "shifted_bytes 8" read_u64 "\<lambda>v. True"
proof
  show "read_u64 (shifted_bytes 8 v @ rest) = Some (v, rest)" for v rest
    by (simp add: read_u64_def bindR_def combine_shifted_bytes)
  show "bytes = shifted_bytes 8 v @ rest \<and> True" if "read_u64 bytes = Some (v, rest)" for bytes v rest
    using that by (auto simp: read_u64_def bindR_Some read_bytes_Some shifted_combine_bytes)
qed

lemma combine_pair: "length b = 2 \<Longrightarrow> ucast (b ! 0) OR push_bit 8 (ucast (b ! 1)) = (combine_bytes b :: u16)"
  by (simp add: combine_bytes_def numeral_2_eq_2)

interpretation u16: codec "shifted_bytes 2" read_u16 "\<lambda>v. True"
proof
  show "read_u16 (shifted_bytes 2 v @ rest) = Some (v, rest)" for v rest
    by (simp add: read_u16_def bindR_def combine_pair [simplified] combine_shifted_bytes)
  show "bytes = shifted_bytes 2 v @ rest \<and> True" if "read_u16 bytes = Some (v, rest)" for bytes v rest
    using that by (auto simp: read_u16_def bindR_Some read_bytes_Some combine_pair [simplified] shifted_combine_bytes)
qed

interpretation code_units: codec "\<lambda>cs. concat (map (shifted_bytes 2) cs)" "read_code_units n"
  "\<lambda>cs. length cs = n \<and> 0 \<notin> set cs" for n
proof
  show "read_code_units n (concat (map (shifted_bytes 2) cs) @ rest) = Some (cs, rest)"
    if "length cs = n \<and> 0 \<notin> set cs" for cs rest
    using that
  proof (induction cs arbitrary: n)
    case (Cons c cs)
    then show ?case by (cases n) (auto simp: u16.bind_encode bindR_step returnR_def)
  qed (simp add: returnR_def)
  show "bytes = concat (map (shifted_bytes 2) cs) @ rest \<and> length cs = n \<and> 0 \<notin> set cs"
    if "read_code_units n bytes = Some (cs, rest)" for bytes cs rest
    using that
  proof (induction n arbitrary: bytes cs)
    case (Suc n)
    from Suc.prems obtain c cs' more where c: "read_u16 bytes = Some (c, more)" "c \<noteq> 0"
      and cs': "read_code_units n more = Some (cs', rest)" "cs = c # cs'"
      by (auto simp: bindR_Some split: if_splits)
    from Suc.IH [OF cs'(1)] u16.encode_decode [OF c(1)] c(2) cs'(2) show ?case by simp
  qed simp
qed

lemma length_code_units: "length (concat (map (shifted_bytes 2) cs)) = 2 * length cs"
  by (induction cs) auto

interpretation wstring: codec wstring_bytes "read_wstring m"
  "\<lambda>cs. length cs \<le> m \<and> length cs < 2 ^ 32 \<and> 0 \<notin> set cs" for m
proof
  show "read_wstring m (wstring_bytes cs @ rest) = Some (cs, rest)"
    if "length cs \<le> m \<and> length cs < 2 ^ 32 \<and> 0 \<notin> set cs" for cs rest
  proof -
    have "unat (of_nat (length cs) :: u32) = length cs" using that by (intro unat_of_nat_u32) simp
    then show ?thesis
      using that by (simp add: read_wstring_def wstring_bytes_def u32.bind_encode length_code_units
        code_units.decode_encode)
  qed
  show "bytes = wstring_bytes cs @ rest \<and> length cs \<le> m \<and> length cs < 2 ^ 32 \<and> 0 \<notin> set cs"
    if run: "read_wstring m bytes = Some (cs, rest)" for bytes cs rest
  proof -
    from run obtain n more where n: "read_u32 bytes = Some (n, more)" "unat n \<le> m"
      and cs: "read_code_units (unat n) more = Some (cs, rest)"
      by (auto simp: read_wstring_def bindR_Some not_less split: if_splits)
    from code_units.encode_decode [OF cs] u32.encode_decode [OF n(1)] n(2) unat_u32_bound [of n] show ?thesis
      by (auto simp: wstring_bytes_def)
  qed
qed

interpretation narrow: codec string_bytes "read_string m"
  "\<lambda>cs. length cs \<le> m \<and> length cs < 2 ^ 32 \<and> \<not> list_ex invalid_serial_byte cs" for m
proof
  show "read_string m (string_bytes cs @ rest) = Some (cs, rest)"
    if "length cs \<le> m \<and> length cs < 2 ^ 32 \<and> \<not> list_ex invalid_serial_byte cs" for cs rest
  proof -
    have "unat (of_nat (length cs) :: u32) = length cs" using that by (intro unat_of_nat_u32) simp
    then show ?thesis
      using that by (simp add: read_string_def string_bytes_def u32.bind_encode
        bindR_step returnR_def)
  qed
  show "bytes = string_bytes cs @ rest \<and> length cs \<le> m \<and> length cs < 2 ^ 32 \<and>
      \<not> list_ex invalid_serial_byte cs"
    if "read_string m bytes = Some (cs, rest)" for bytes cs rest
    using that
    by (auto simp: read_string_def bindR_Some read_bytes_Some string_bytes_def
      unat_u32_bound [simplified] dest: u32.encode_decode split: if_splits)
qed

text \<open>The identities whose strings a reader accepts.\<close>

definition identity_encodable :: "stable_disk_identity \<Rightarrow> bool" where
  "identity_encodable i \<longleftrightarrow>
     length (id_model i) \<le> kMaximumModelCharacters \<and> 0 \<notin> set (id_model i) \<and>
     length (id_serial_suffix i) \<le> kMaximumSerialCharacters \<and>
     \<not> list_ex invalid_serial_byte (id_serial_suffix i) \<and>
     length (id_device_instance_id i) \<le> kMaximumDeviceIdCharacters \<and> 0 \<notin> set (id_device_instance_id i)"

lemma u8_flag: "\<not> 1 < v \<Longrightarrow> v \<noteq> 0 \<Longrightarrow> v = (1 :: u8)"
  by (simp add: word_less_nat_alt word_unat_eq_iff)

interpretation identity: codec identity_bytes read_identity identity_encodable
proof
  show "read_identity (identity_bytes i @ rest) = Some (i, rest)" if "identity_encodable i" for i rest
    using that
    by (simp add: read_identity_def identity_bytes_def identity_encodable_def u32.bind_encode
      u64.bind_encode u8.bind_encode [simplified] wstring.bind_encode narrow.bind_encode returnR_def)
  show "bytes = identity_bytes i @ rest \<and> identity_encodable i"
    if "read_identity bytes = Some (i, rest)" for bytes i rest
    using that
    by (auto simp: read_identity_def u32.bind_decode u64.bind_decode u8.bind_decode wstring.bind_decode
      narrow.bind_decode identity_bytes_def identity_encodable_def u8_flag split: if_splits)
qed

end
