(* ===== verification/Operation.thy ===== *)
theory Operation
  imports Wire OperationProgress VerifiedDigest
begin

text \<open>
  The coordinator of an operation (\<open>OperationCore/src/operation.cpp\<close>, with \<open>sha256.cpp\<close>): the checks
  of a plan, its hash, the renewed identification of the disks, the confirmation, and
  \<open>run_operation\<close>, which calls an engine in between and demands evidence of what it did.  The engine
  is a set of callbacks; \<open>None\<close> as the result of one is an exception.  An enumeration that is read
  from bytes can hold any of them, so it has a constructor for the values without a name.  A
  \<open>std::array\<close> of bytes is a byte list; its length is stated where it matters.
\<close>

section \<open>SHA-256\<close>

definition sha256 :: "'s cng_api \<Rightarrow> byte list \<Rightarrow> ('s, byte list) prog" where
  "sha256 cng bytes =
     bindE (liftE (bcrypt_open_algorithm_provider cng)) (\<lambda>(status, algorithm).
     if \<not> bcrypt_success status then failE (cng_error status) else
     bindE (liftE (bcrypt_get_property cng algorithm BCRYPT_OBJECT_LENGTH))
       (\<lambda>(status, object_length, returned).
     if \<not> bcrypt_success status \<or> returned \<noteq> 4 \<or> object_length = 0 then failE (cng_error status) else
     bindE (liftE (bcrypt_get_property cng algorithm BCRYPT_HASH_LENGTH))
       (\<lambda>(status, hash_length, returned).
     if \<not> bcrypt_success status \<or> returned \<noteq> 4 \<or> hash_length \<noteq> 32 then failE (cng_error status) else
     bindE (liftE (bcrypt_create_hash cng algorithm object_length)) (\<lambda>(status, hash).
     if \<not> bcrypt_success status then failE (cng_error status) else
     bindE (hash_all cng hash bytes) (\<lambda>u.
     bindE (liftE (bcrypt_finish_hash cng hash 32)) (\<lambda>(status, digest).
     if \<not> bcrypt_success status then failE (cng_error status) else returnE digest))))))"

definition digest_is_zero :: "byte list \<Rightarrow> bool" where
  "digest_is_zero digest \<longleftrightarrow> foldl (\<lambda>combined v. combined OR (ucast v :: u32)) 0 digest = 0"

definition digest_equal :: "byte list \<Rightarrow> byte list \<Rightarrow> bool" where
  "digest_equal left right \<longleftrightarrow>
     foldl (\<lambda>difference (l, r). difference OR (ucast (l XOR r) :: u32)) 0 (zip left right) = 0"

section \<open>Plans\<close>

datatype operation_kind =
  Clone | Image_create | Image_restore | Boot_repair | Rescue_clone | Rescue_image | Unknown_kind u8

datatype operation_environment = Windows | Winpe | Unknown_environment u8

record operation_plan =
  op_schema_version :: u32
  op_operation_id :: "byte list"
  op_kind :: operation_kind
  op_environment :: operation_environment
  op_source :: "stable_disk_identity option"
  op_target :: "stable_disk_identity option"
  op_expected_work_bytes :: u64
  op_immutable_payload_hash :: "byte list"

abbreviation (input) kOperationPlanSchemaVersion :: u32 where "kOperationPlanSchemaVersion \<equiv> 1"

definition id_is_zero :: "byte list \<Rightarrow> bool" where
  "id_is_zero i \<longleftrightarrow> foldl (\<lambda>combined v. combined OR (ucast v :: u32)) 0 i = 0"

definition known_kind :: "operation_kind \<Rightarrow> bool" where
  "known_kind kind \<longleftrightarrow> (case kind of Unknown_kind n \<Rightarrow> False | _ \<Rightarrow> True)"

definition known_environment :: "operation_environment \<Rightarrow> bool" where
  "known_environment environment \<longleftrightarrow> (case environment of Unknown_environment n \<Rightarrow> False | _ \<Rightarrow> True)"

definition allows_bounded_sparse_work :: "operation_kind \<Rightarrow> bool" where
  "allows_bounded_sparse_work kind \<longleftrightarrow> kind = Clone \<or> kind = Rescue_clone"

definition has_embedded_null :: "wide_string \<Rightarrow> bool" where
  "has_embedded_null value \<longleftrightarrow> 0 \<in> set value"

definition has_invalid_serial_character :: "narrow_string \<Rightarrow> bool" where
  "has_invalid_serial_character value \<longleftrightarrow> list_ex (\<lambda>c. c < 0x20 \<or> c = 0x7F) value"

definition validate_identity_shape :: "stable_disk_identity \<Rightarrow> status" where
  "validate_identity_shape identity =
     (if length (id_model identity) > kMaximumModelCharacters \<or>
         length (id_serial_suffix identity) > kMaximumSerialCharacters \<or>
         length (id_device_instance_id identity) > kMaximumDeviceIdCharacters \<or>
         has_embedded_null (id_model identity) \<or> has_embedded_null (id_device_instance_id identity) \<or>
         0 \<in> set (id_serial_suffix identity) \<or> has_invalid_serial_character (id_serial_suffix identity)
      then Inl (mk_error Invalid_data ERROR_INVALID_DATA)
      else validate_stable_identity identity identity)"

definition same_operation_device :: "stable_disk_identity \<Rightarrow> stable_disk_identity \<Rightarrow> bool" where
  "same_operation_device left right \<longleftrightarrow>
     (id_device_instance_id left \<noteq> [] \<and> id_device_instance_id left = id_device_instance_id right) \<or>
     (id_serial_suffix left \<noteq> [] \<and> id_serial_suffix left = id_serial_suffix right \<and>
      id_model left = id_model right)"

text \<open>Whether a kind of operation needs a source and a target; no answer for an unknown kind.\<close>

definition needed_roles :: "operation_kind \<Rightarrow> (bool \<times> bool) option" where
  "needed_roles kind =
     (case kind of
        Clone \<Rightarrow> Some (True, True)
      | Rescue_clone \<Rightarrow> Some (True, True)
      | Image_create \<Rightarrow> Some (True, False)
      | Rescue_image \<Rightarrow> Some (True, False)
      | Image_restore \<Rightarrow> Some (False, True)
      | Boot_repair \<Rightarrow> Some (False, True)
      | Unknown_kind n \<Rightarrow> None)"

definition validate_optional_shape :: "stable_disk_identity option \<Rightarrow> status" where
  "validate_optional_shape identity =
     (case identity of None \<Rightarrow> success_status | Some i \<Rightarrow> validate_identity_shape i)"

definition validate_identity_roles ::
  "operation_kind \<Rightarrow> stable_disk_identity option \<Rightarrow> stable_disk_identity option \<Rightarrow> status" where
  "validate_identity_roles kind source target =
     (case needed_roles kind of
        None \<Rightarrow> Inl (mk_error Invalid_data ERROR_INVALID_DATA)
      | Some (needs_source, needs_target) \<Rightarrow>
        if (source \<noteq> None) \<noteq> needs_source \<or> (target \<noteq> None) \<noteq> needs_target
        then Inl (mk_error Invalid_data ERROR_INVALID_DATA)
        else
          case validate_optional_shape source of
            Inl e \<Rightarrow> Inl e
          | Inr _ \<Rightarrow>
         (case validate_optional_shape target of
            Inl e \<Rightarrow> Inl e
          | Inr _ \<Rightarrow>
            (case (source, target) of
               (Some s, Some t) \<Rightarrow>
                 if same_operation_device s t then Inl (mk_error Identity_mismatch ERROR_INVALID_DRIVE)
                 else success_status
             | _ \<Rightarrow> success_status)))"

definition validate_operation_plan :: "operation_plan \<Rightarrow> status" where
  "validate_operation_plan plan =
     (if op_schema_version plan \<noteq> kOperationPlanSchemaVersion \<or> \<not> known_kind (op_kind plan) \<or>
         \<not> known_environment (op_environment plan) \<or> id_is_zero (op_operation_id plan) \<or>
         op_expected_work_bytes plan = 0 \<or> digest_is_zero (op_immutable_payload_hash plan)
      then Inl (mk_error Invalid_data ERROR_INVALID_DATA)
      else validate_identity_roles (op_kind plan) (op_source plan) (op_target plan))"

section \<open>The hash of a plan\<close>

definition kind_byte :: "operation_kind \<Rightarrow> u8" where
  "kind_byte kind =
     (case kind of
        Clone \<Rightarrow> 0 | Image_create \<Rightarrow> 1 | Image_restore \<Rightarrow> 2 | Boot_repair \<Rightarrow> 3 | Rescue_clone \<Rightarrow> 4
      | Rescue_image \<Rightarrow> 5 | Unknown_kind n \<Rightarrow> n)"

definition environment_byte :: "operation_environment \<Rightarrow> u8" where
  "environment_byte environment =
     (case environment of Windows \<Rightarrow> 0 | Winpe \<Rightarrow> 1 | Unknown_environment n \<Rightarrow> n)"

text \<open>\<open>"YTECOPL1"\<close>.\<close>

definition kPlanMagic :: "byte list" where
  "kPlanMagic = [89, 84, 69, 67, 79, 80, 76, 49]"

definition append_optional_identity :: "byte list \<Rightarrow> stable_disk_identity option \<Rightarrow> byte list" where
  "append_optional_identity bytes identity =
     (case identity of None \<Rightarrow> bytes | Some i \<Rightarrow> append_identity bytes i)"

definition operation_plan_bytes :: "operation_plan \<Rightarrow> byte list" where
  "operation_plan_bytes plan =
     (let bytes = append_array [] kPlanMagic;
          bytes = append_u32 bytes (op_schema_version plan);
          bytes = append_u8 bytes (kind_byte (op_kind plan));
          bytes = append_u8 bytes (environment_byte (op_environment plan));
          bytes = append_u8 bytes ((if op_source plan \<noteq> None then 1 else 0) OR
                    (if op_target plan \<noteq> None then 2 else 0));
          bytes = append_u8 bytes 0;
          bytes = append_u64 bytes (op_expected_work_bytes plan);
          bytes = append_array bytes (op_operation_id plan);
          bytes = append_array bytes (op_immutable_payload_hash plan);
          bytes = append_optional_identity bytes (op_source plan)
      in append_optional_identity bytes (op_target plan))"

definition hash_operation_plan :: "'s cng_api \<Rightarrow> operation_plan \<Rightarrow> ('s, byte list) prog" where
  "hash_operation_plan cng plan =
     (case validate_operation_plan plan of
        Inl e \<Rightarrow> failE e
      | Inr _ \<Rightarrow> sha256 cng (operation_plan_bytes plan))"

section \<open>Confirmation and renewed identification\<close>

definition operation_requires_confirmation :: "operation_kind \<Rightarrow> bool" where
  "operation_requires_confirmation kind \<longleftrightarrow> kind \<noteq> Image_create \<and> kind \<noteq> Rescue_image"

text \<open>\<open>L"OK"\<close>.\<close>

definition kDestructiveConfirmationToken :: wide_string where
  "kDestructiveConfirmationToken = [79, 75]"

definition validate_operation_confirmation :: "operation_plan \<Rightarrow> wide_string \<Rightarrow> status" where
  "validate_operation_confirmation plan typed =
     (case validate_operation_plan plan of
        Inl e \<Rightarrow> Inl e
      | Inr _ \<Rightarrow>
        if operation_requires_confirmation (op_kind plan) \<and> typed \<noteq> kDestructiveConfirmationToken
        then Inl (mk_error Confirmation_required ERROR_CANCELLED)
        else success_status)"

record reidentified_operation =
  ro_source :: "stable_disk_identity option"
  ro_target :: "stable_disk_identity option"

text \<open>The two blocks for source and target; the presence of both has been compared before.\<close>

definition validate_reidentified_disk ::
  "stable_disk_identity option \<Rightarrow> stable_disk_identity option \<Rightarrow> status" where
  "validate_reidentified_disk planned observed =
     (case (planned, observed) of
        (Some p, Some obs) \<Rightarrow>
         (case validate_stable_identity p obs of
            Inl e \<Rightarrow> Inl e
          | Inr _ \<Rightarrow>
            if id_is_system_disk p \<noteq> id_is_system_disk obs
            then Inl (mk_error Identity_mismatch ERROR_DEVICE_NOT_CONNECTED)
            else success_status)
      | _ \<Rightarrow> success_status)"

definition validate_reidentified_operation :: "operation_plan \<Rightarrow> reidentified_operation \<Rightarrow> status" where
  "validate_reidentified_operation plan observed =
     (case validate_operation_plan plan of
        Inl e \<Rightarrow> Inl e
      | Inr _ \<Rightarrow>
        if (op_source plan \<noteq> None) \<noteq> (ro_source observed \<noteq> None) \<or>
           (op_target plan \<noteq> None) \<noteq> (ro_target observed \<noteq> None)
        then Inl (mk_error Identity_mismatch ERROR_DEVICE_NOT_CONNECTED)
        else
          case validate_reidentified_disk (op_source plan) (ro_source observed) of
            Inl e \<Rightarrow> Inl e
          | Inr _ \<Rightarrow>
         (case validate_reidentified_disk (op_target plan) (ro_target observed) of
            Inl e \<Rightarrow> Inl e
          | Inr _ \<Rightarrow>
            (case (ro_source observed, ro_target observed) of
               (Some s, Some t) \<Rightarrow>
                 if same_operation_device s t then Inl (mk_error Identity_mismatch ERROR_INVALID_DRIVE)
                 else success_status
             | _ \<Rightarrow> success_status)))"

section \<open>Running an operation\<close>

record execution_evidence =
  ee_processed_work_bytes :: u64
  ee_output_hash :: "byte list"

record verification_evidence =
  ve_verified_work_bytes :: u64
  ve_output_hash :: "byte list"

datatype operation_phase =
  Phase_planning | Phase_reidentifying | Phase_awaiting_confirmation | Phase_executing |
  Phase_verifying | Phase_completed

datatype operation_outcome = Outcome_completed | Outcome_failed | Outcome_cancelled

record operation_result =
  or_operation_id :: "byte list"
  or_plan_hash :: "byte list"
  or_phase :: operation_phase
  or_outcome :: operation_outcome
  or_processed_work_bytes :: u64
  or_verified_work_bytes :: u64
  or_error :: "error option"

text \<open>An empty \<open>std::function\<close> is \<open>None\<close>; what a callback returns is \<open>None\<close> when it throws.\<close>

record 's engine_callbacks =
  ec_reidentify :: "(operation_plan \<Rightarrow> 's \<Rightarrow> reidentified_operation result option \<times> 's) option"
  ec_execute :: "(operation_plan \<Rightarrow> 's operation_callbacks \<Rightarrow> 's \<Rightarrow>
    execution_evidence result option \<times> 's) option"
  ec_verify :: "(operation_plan \<Rightarrow> execution_evidence \<Rightarrow> 's operation_callbacks \<Rightarrow> 's \<Rightarrow>
    verification_evidence result option \<times> 's) option"
  ec_disk_operation :: "'s operation_callbacks"

definition outcome_for_error :: "error \<Rightarrow> operation_outcome" where
  "outcome_for_error e = (if err_code e = Cancelled then Outcome_cancelled else Outcome_failed)"

definition failed_result ::
  "operation_plan \<Rightarrow> byte list \<Rightarrow> operation_phase \<Rightarrow> error \<Rightarrow> u64 \<Rightarrow> u64 \<Rightarrow> operation_result" where
  "failed_result plan plan_hash phase e processed verified =
     \<lparr>or_operation_id = op_operation_id plan, or_plan_hash = plan_hash, or_phase = phase,
      or_outcome = outcome_for_error e, or_processed_work_bytes = processed,
      or_verified_work_bytes = verified, or_error = Some e\<rparr>"

definition callback_error :: error where
  "callback_error = mk_error Internal_error ERROR_UNHANDLED_EXCEPTION"

definition cancelled_error :: error where
  "cancelled_error = mk_error Cancelled ERROR_CANCELLED"

text \<open>A callback in its \<open>try\<close> block.\<close>

definition guarded_call :: "('s \<Rightarrow> 'a result option \<times> 's) \<Rightarrow> ('s, 'a) prog" where
  "guarded_call f s =
     (case f s of (Some r, t) \<Rightarrow> (r, t) | (None, t) \<Rightarrow> (Inl callback_error, t))"

lemma keeps_guarded_call: "keeps v f \<Longrightarrow> keeps v (guarded_call f)"
  by (rule keepsI) (auto simp: guarded_call_def dest: keepsD split: prod.splits option.splits)

definition report_operation_progress ::
  "'s operation_callbacks \<Rightarrow> disk_operation_stage \<Rightarrow> operation_plan \<Rightarrow> u64 \<Rightarrow> u64 \<Rightarrow> bool \<Rightarrow> 's \<Rightarrow> 's" where
  "report_operation_progress callbacks stage plan processed verified cancellation_allowed s =
     (let actual_total_known = allows_bounded_sparse_work (op_kind plan) \<and> processed \<noteq> 0 \<and>
            (stage = Verifying_final \<or> stage = Completed);
          total_bytes = (if actual_total_known then processed else op_expected_work_bytes plan)
      in snd (report_progress callbacks
        \<lparr>pr_stage = stage, pr_partition_index = None, pr_total_read_bytes = total_bytes,
         pr_total_write_bytes = total_bytes, pr_total_verify_bytes = total_bytes,
         pr_read_bytes = processed, pr_written_bytes = processed, pr_verified_bytes = verified,
         pr_cancellation_allowed = cancellation_allowed, pr_pause_allowed = False\<rparr> s))"

text \<open>
  \<open>run_operation\<close> in its four stages; a stage that stops the operation returns its result on the
  left.
\<close>

type_synonym ('s, 'a) stage = "'s \<Rightarrow> (operation_result + 'a) \<times> 's"

definition reidentify_stage ::
  "operation_plan \<Rightarrow> byte list \<Rightarrow> 's operation_callbacks \<Rightarrow>
   (operation_plan \<Rightarrow> 's \<Rightarrow> reidentified_operation result option \<times> 's) \<Rightarrow> ('s, unit) stage" where
  "reidentify_stage plan digest disk_operation reidentify s0 =
     (let stop = (\<lambda>e s. (Inl (failed_result plan digest Phase_reidentifying e 0 0), s));
          s1 = report_operation_progress disk_operation Planning plan 0 0 True s0
      in
      case cancellation_requested disk_operation s1 of
        (True, s2) \<Rightarrow> stop cancelled_error s2
      | (False, s2) \<Rightarrow>
        let s3 = report_operation_progress disk_operation Verifying_source plan 0 0 True s2 in
        case guarded_call (reidentify plan) s3 of
          (Inl e, s4) \<Rightarrow> stop e s4
        | (Inr reidentified, s4) \<Rightarrow>
         (case validate_reidentified_operation plan reidentified of
            Inl e \<Rightarrow> stop e s4
          | Inr _ \<Rightarrow> (Inr (), s4)))"

definition confirmation_stage ::
  "operation_plan \<Rightarrow> byte list \<Rightarrow> wide_string \<Rightarrow> 's operation_callbacks \<Rightarrow> ('s, unit) stage" where
  "confirmation_stage plan digest typed disk_operation s =
     (let stop = (\<lambda>e s. (Inl (failed_result plan digest Phase_awaiting_confirmation e 0 0), s)) in
      case validate_operation_confirmation plan typed of
        Inl e \<Rightarrow> stop e s
      | Inr _ \<Rightarrow>
       (case cancellation_requested disk_operation s of
          (True, t) \<Rightarrow> stop cancelled_error t
        | (False, t) \<Rightarrow> (Inr (), t)))"

definition execution_amount_valid :: "operation_plan \<Rightarrow> execution_evidence \<Rightarrow> bool" where
  "execution_amount_valid plan executed \<longleftrightarrow>
     (if allows_bounded_sparse_work (op_kind plan)
      then ee_processed_work_bytes executed \<noteq> 0 \<and>
        ee_processed_work_bytes executed \<le> op_expected_work_bytes plan
      else ee_processed_work_bytes executed = op_expected_work_bytes plan)"

definition execute_stage ::
  "operation_plan \<Rightarrow> byte list \<Rightarrow> 's operation_callbacks \<Rightarrow>
   (operation_plan \<Rightarrow> 's operation_callbacks \<Rightarrow> 's \<Rightarrow> execution_evidence result option \<times> 's) \<Rightarrow>
   ('s, execution_evidence) stage" where
  "execute_stage plan digest disk_operation execute s0 =
     (let stop = (\<lambda>e processed s. (Inl (failed_result plan digest Phase_executing e processed 0), s));
          s1 = report_operation_progress disk_operation Copying_data plan 0 0 True s0
      in
      case guarded_call (execute plan disk_operation) s1 of
        (Inl e, s2) \<Rightarrow> stop e 0 s2
      | (Inr executed, s2) \<Rightarrow>
        if \<not> execution_amount_valid plan executed \<or> digest_is_zero (ee_output_hash executed)
        then stop (mk_error Verification_failed ERROR_WRITE_FAULT) (ee_processed_work_bytes executed) s2
        else (Inr executed, s2))"

definition verify_stage ::
  "operation_plan \<Rightarrow> byte list \<Rightarrow> 's operation_callbacks \<Rightarrow>
   (operation_plan \<Rightarrow> execution_evidence \<Rightarrow> 's operation_callbacks \<Rightarrow> 's \<Rightarrow>
     verification_evidence result option \<times> 's) \<Rightarrow>
   execution_evidence \<Rightarrow> ('s, verification_evidence) stage" where
  "verify_stage plan digest disk_operation verify executed s0 =
     (let processed = ee_processed_work_bytes executed;
          stop = (\<lambda>e verified s. (Inl (failed_result plan digest Phase_verifying e processed verified), s));
          s1 = report_operation_progress disk_operation Verifying_final plan processed 0 False s0
      in
      case guarded_call (verify plan executed disk_operation) s1 of
        (Inl e, s2) \<Rightarrow> stop e 0 s2
      | (Inr verified, s2) \<Rightarrow>
        let required = (if allows_bounded_sparse_work (op_kind plan) then processed
              else op_expected_work_bytes plan)
        in
        if ve_verified_work_bytes verified \<noteq> required \<or>
           \<not> digest_equal (ee_output_hash executed) (ve_output_hash verified)
        then stop (mk_error Verification_failed ERROR_CRC) (ve_verified_work_bytes verified) s2
        else (Inr verified, s2))"

definition run_operation ::
  "'s cng_api \<Rightarrow> operation_plan \<Rightarrow> wide_string \<Rightarrow> 's engine_callbacks \<Rightarrow> 's \<Rightarrow> operation_result \<times> 's" where
  "run_operation cng plan typed callbacks s0 =
     (let disk_operation = ec_disk_operation callbacks in
      case hash_operation_plan cng plan s0 of
        (Inl e, s1) \<Rightarrow> (failed_result plan (replicate 32 0) Phase_planning e 0 0, s1)
      | (Inr digest, s1) \<Rightarrow>
     (case (ec_reidentify callbacks, ec_execute callbacks, ec_verify callbacks) of
        (Some reidentify, Some execute, Some verify) \<Rightarrow>
         (case reidentify_stage plan digest disk_operation reidentify s1 of
            (Inl r, s2) \<Rightarrow> (r, s2)
          | (Inr _, s2) \<Rightarrow>
         (case confirmation_stage plan digest typed disk_operation s2 of
            (Inl r, s3) \<Rightarrow> (r, s3)
          | (Inr _, s3) \<Rightarrow>
         (case execute_stage plan digest disk_operation execute s3 of
            (Inl r, s4) \<Rightarrow> (r, s4)
          | (Inr executed, s4) \<Rightarrow>
         (case verify_stage plan digest disk_operation verify executed s4 of
            (Inl r, s5) \<Rightarrow> (r, s5)
          | (Inr verified, s5) \<Rightarrow>
            let processed = ee_processed_work_bytes executed;
                confirmed = ve_verified_work_bytes verified;
                s6 = report_operation_progress disk_operation Completed plan processed confirmed False s5
            in (\<lparr>or_operation_id = op_operation_id plan, or_plan_hash = digest,
                 or_phase = Phase_completed, or_outcome = Outcome_completed,
                 or_processed_work_bytes = processed, or_verified_work_bytes = confirmed,
                 or_error = None\<rparr>, s6)))))
      | _ \<Rightarrow> (failed_result plan digest Phase_planning
              (mk_error Invalid_argument ERROR_INVALID_PARAMETER) 0 0, s1)))"

end
