(* ===== verification/OperationCorrect.thy ===== *)
theory OperationCorrect
  imports Operation
begin

text \<open>
  What the coordinator guarantees: the bytes that are hashed determine the plan; nothing but a
  confirmed operation on re-identified disks reaches the engine; and an operation is completed only
  with matching evidence of a verification.
\<close>

section \<open>Digests\<close>

lemma foldl_or_zero:
  "foldl (\<lambda>c x. c OR f x) a xs = (0 :: u32) \<longleftrightarrow> a = 0 \<and> (\<forall>x \<in> set xs. f x = 0)"
  by (induction xs arbitrary: a) (auto simp: or_eq_0_iff)

lemma ucast_byte_zero: "(ucast (b :: byte) :: u32) = 0 \<longleftrightarrow> b = 0"
  by (metis ucast_0 unat_eq_zero unat_ucast_u8_u32)

lemma digest_is_zero_iff: "digest_is_zero d \<longleftrightarrow> (\<forall>b \<in> set d. b = 0)"
  by (simp add: digest_is_zero_def foldl_or_zero ucast_byte_zero)

lemma xor_byte_zero: "a XOR b = (0 :: byte) \<longleftrightarrow> a = b"
  by (metis xor.assoc xor.right_neutral xor_self_eq)

lemma digest_equal_iff:
  assumes "length l = length r"
  shows "digest_equal l r \<longleftrightarrow> l = r"
proof -
  have "digest_equal l r \<longleftrightarrow> (\<forall>(x, y) \<in> set (zip l r). x = y)"
    unfolding digest_equal_def case_prod_unfold foldl_or_zero ucast_byte_zero
    by (auto simp: xor_byte_zero)
  also have "\<dots> \<longleftrightarrow> l = r"
    using assms by (auto simp: list_eq_iff_zip_eq)
  finally show ?thesis .
qed

section \<open>The bytes of a plan\<close>

definition optional_identity_bytes :: "stable_disk_identity option \<Rightarrow> byte list" where
  "optional_identity_bytes identity = (case identity of None \<Rightarrow> [] | Some i \<Rightarrow> identity_bytes i)"

lemma append_optional_identity_eq [append_simps]:
  "append_optional_identity bytes i = bytes @ optional_identity_bytes i"
  by (simp add: append_optional_identity_def optional_identity_bytes_def append_simps split: option.split)

lemma operation_plan_bytes_eq:
  "operation_plan_bytes plan =
     kPlanMagic @ shifted_bytes 4 (op_schema_version plan) @
     [kind_byte (op_kind plan), environment_byte (op_environment plan),
      (if op_source plan \<noteq> None then 1 else 0) OR (if op_target plan \<noteq> None then 2 else 0), 0] @
     shifted_bytes 8 (op_expected_work_bytes plan) @ op_operation_id plan @
     op_immutable_payload_hash plan @ optional_identity_bytes (op_source plan) @
     optional_identity_bytes (op_target plan)"
  by (simp add: operation_plan_bytes_def append_simps Let_def)

lemma validate_identity_shape_encodable:
  "validate_identity_shape i = Inr u \<Longrightarrow> identity_encodable i"
  by (auto simp: validate_identity_shape_def identity_encodable_def has_embedded_null_def
    has_invalid_serial_character_def invalid_serial_byte_def list_ex_iff not_less split: if_split_asm)

lemma result_case_Inr:
  "(case x of Inl e \<Rightarrow> Inl e | Inr y \<Rightarrow> f y) = Inr z \<longleftrightarrow> (\<exists>y. x = Inr y \<and> f y = Inr z)"
  by (cases x) auto

text \<open>What an accepted plan fixes.\<close>

lemma valid_plan_roles:
  assumes "validate_identity_roles kind source target = success_status"
  obtains needs_source needs_target where "needed_roles kind = Some (needs_source, needs_target)"
    "(source \<noteq> None) = needs_source" "(target \<noteq> None) = needs_target"
    "\<And>i. source = Some i \<Longrightarrow> validate_identity_shape i = success_status"
    "\<And>i. target = Some i \<Longrightarrow> validate_identity_shape i = success_status"
    "\<And>i j. source = Some i \<Longrightarrow> target = Some j \<Longrightarrow> \<not> same_operation_device i j"
proof -
  obtain ns nt where n: "needed_roles kind = Some (ns, nt)"
    using assms by (auto simp: validate_identity_roles_def split: option.split_asm)
  have a: "(source \<noteq> None) = ns" "(target \<noteq> None) = nt"
    "validate_optional_shape source = success_status" "validate_optional_shape target = success_status"
    and d: "(case (source, target) of
      (Some s, Some t) \<Rightarrow>
        if same_operation_device s t then Inl (mk_error Identity_mismatch ERROR_INVALID_DRIVE)
        else success_status
      | _ \<Rightarrow> success_status) = success_status"
    using assms n by (auto simp: validate_identity_roles_def result_case_Inr split: if_split_asm)
  show thesis
    by (rule that [OF n a(1,2)]) (use a(3,4) d in \<open>auto simp: validate_optional_shape_def split: if_split_asm\<close>)
qed

lemma valid_plan:
  assumes "validate_operation_plan plan = success_status"
  shows "op_schema_version plan = kOperationPlanSchemaVersion" "known_kind (op_kind plan)"
    "known_environment (op_environment plan)"
    "validate_identity_roles (op_kind plan) (op_source plan) (op_target plan) = success_status"
  using assms by (auto simp: validate_operation_plan_def split: if_split_asm)

lemma kind_byte_inj: "known_kind k \<Longrightarrow> known_kind l \<Longrightarrow> kind_byte k = kind_byte l \<Longrightarrow> k = l"
  by (cases k; cases l) (simp_all add: kind_byte_def known_kind_def)

lemma environment_byte_inj:
  "known_environment k \<Longrightarrow> known_environment l \<Longrightarrow> environment_byte k = environment_byte l \<Longrightarrow> k = l"
  by (cases k; cases l) (simp_all add: environment_byte_def known_environment_def)

definition identity_option_ok :: "stable_disk_identity option \<Rightarrow> bool" where
  "identity_option_ok x \<longleftrightarrow> (case x of None \<Rightarrow> True | Some i \<Rightarrow> identity_encodable i)"

lemma optional_identity_prefix_free:
  assumes "identity_option_ok x" "identity_option_ok y" "(x = None) = (y = None)"
    "optional_identity_bytes x @ xs = optional_identity_bytes y @ ys"
  shows "x = y \<and> xs = ys"
proof (cases x)
  case None
  then show ?thesis using assms by (simp add: optional_identity_bytes_def)
next
  case (Some i)
  with assms(3) obtain j where y: "y = Some j" by auto
  show ?thesis
    using assms(1,2,4) identity.prefix_free [of i j xs ys]
    by (simp add: Some y identity_option_ok_def optional_identity_bytes_def)
qed

lemma valid_plan_identities:
  assumes "validate_operation_plan plan = success_status"
  shows "identity_option_ok (op_source plan)" "identity_option_ok (op_target plan)"
proof -
  from valid_plan(4) [OF assms] show "identity_option_ok (op_source plan)"
    by (rule valid_plan_roles)
      (auto simp: identity_option_ok_def intro: validate_identity_shape_encodable split: option.split)
  from valid_plan(4) [OF assms] show "identity_option_ok (op_target plan)"
    by (rule valid_plan_roles)
      (auto simp: identity_option_ok_def intro: validate_identity_shape_encodable split: option.split)
qed

text \<open>The sizes of the arrays in the C++ type.\<close>

definition plan_arrays :: "operation_plan \<Rightarrow> bool" where
  "plan_arrays plan \<longleftrightarrow> length (op_operation_id plan) = 16 \<and> length (op_immutable_payload_hash plan) = 32"

text \<open>The hashed bytes bind everything: two accepted plans with the same bytes are the same plan,
  in every field.\<close>

theorem operation_plan_bytes_injective:
  assumes p: "validate_operation_plan p = success_status" "plan_arrays p"
    and q: "validate_operation_plan q = success_status" "plan_arrays q"
    and eq: "operation_plan_bytes p = operation_plan_bytes q"
  shows "p = q"
proof -
  note vp = valid_plan [OF p(1)] and vq = valid_plan [OF q(1)]
  from eq p(2) q(2) have parts: "kind_byte (op_kind p) = kind_byte (op_kind q)"
    "environment_byte (op_environment p) = environment_byte (op_environment q)"
    "shifted_bytes 8 (op_expected_work_bytes p) = shifted_bytes 8 (op_expected_work_bytes q)"
    "op_operation_id p = op_operation_id q" "op_immutable_payload_hash p = op_immutable_payload_hash q"
    and ids: "optional_identity_bytes (op_source p) @ optional_identity_bytes (op_target p) =
      optional_identity_bytes (op_source q) @ optional_identity_bytes (op_target q)"
    by (simp_all add: operation_plan_bytes_eq plan_arrays_def append_eq_append_conv)
  have kind: "op_kind p = op_kind q" by (rule kind_byte_inj) (use vp vq parts in simp_all)
  have env: "op_environment p = op_environment q" by (rule environment_byte_inj) (use vp vq parts in simp_all)
  have work: "op_expected_work_bytes p = op_expected_work_bytes q"
    using u64.prefix_free [where x = "op_expected_work_bytes p" and y = "op_expected_work_bytes q" and
      xs = "[]" and ys = "[]"] parts(3)
    by simp
  obtain ns nt where n: "needed_roles (op_kind p) = Some (ns, nt)"
    "(op_source p \<noteq> None) = ns" "(op_target p \<noteq> None) = nt"
    using vp(4) by (rule valid_plan_roles)
  obtain ns' nt' where n': "needed_roles (op_kind q) = Some (ns', nt')"
    "(op_source q \<noteq> None) = ns'" "(op_target q \<noteq> None) = nt'"
    using vq(4) by (rule valid_plan_roles)
  have none: "(op_source p = None) = (op_source q = None)" "(op_target p = None) = (op_target q = None)"
    using n n' kind by auto
  from optional_identity_prefix_free [OF valid_plan_identities(1) [OF p(1)] valid_plan_identities(1) [OF q(1)]
      none(1) ids]
  have src: "op_source p = op_source q"
    and tgt: "optional_identity_bytes (op_target p) @ [] = optional_identity_bytes (op_target q) @ []"
    by simp_all
  from optional_identity_prefix_free [OF valid_plan_identities(2) [OF p(1)] valid_plan_identities(2) [OF q(1)]
      none(2) tgt]
  have "op_target p = op_target q" by simp
  with kind env work src parts(4,5) vp(1) vq(1) show ?thesis by simp
qed

section \<open>Runs\<close>

lemma guarded_call_Inr: "guarded_call f s = (Inr x, t) \<longleftrightarrow> f s = (Some (Inr x), t)"
  by (auto simp: guarded_call_def split: prod.splits option.splits)

lemma keeps_report:
  "callbacks_keep v d \<Longrightarrow> v (report_operation_progress d stage plan a b c s) = v s"
  unfolding report_operation_progress_def Let_def callbacks_keep_def keeps_def by blast

lemma keeps_sha256: "cng_keeps v cng \<Longrightarrow> keeps v (sha256 cng bytes)"
  unfolding sha256_def
  by (intro keeps_bindE) (auto simp: cng_keeps_def intro!: keeps_liftE keeps_bindE keeps_hash_all)

lemma keeps_hash_operation_plan: "cng_keeps v cng \<Longrightarrow> keeps v (hash_operation_plan cng plan)"
  by (cases "validate_operation_plan plan") (simp_all add: hash_operation_plan_def keeps_sha256)

text \<open>What each stage has seen when it lets the operation go on.\<close>

lemma keeps_cancellation: "callbacks_keep v d \<Longrightarrow> cancellation_requested d s = (b, t) \<Longrightarrow> v t = v s"
  unfolding callbacks_keep_def by (blast dest: keepsD)

lemma reidentify_stage_Inr:
  assumes "reidentify_stage plan digest d f s = (Inr u, t)"
  shows "\<exists>obs x. f plan x = (Some (Inr obs), t) \<and> validate_reidentified_operation plan obs = success_status"
  using assms
  by (auto simp: reidentify_stage_def Let_def guarded_call_Inr split: prod.splits sum.splits bool.splits)

lemma reidentify_stage_keeps:
  assumes "callbacks_keep v d" "keeps v (f plan)"
  shows "keeps v (reidentify_stage plan digest d f)"
proof (rule keepsI)
  fix s r t assume run: "reidentify_stage plan digest d f s = (r, t)"
  note k = keepsD [OF keeps_guarded_call [OF assms(2)]]
  show "v t = v s"
    using run
    by (auto simp: reidentify_stage_def Let_def keeps_report [OF assms(1)]
      dest!: k keeps_cancellation [OF assms(1)] split: prod.splits sum.splits bool.splits)
qed

lemma confirmation_stage_Inr:
  "confirmation_stage plan digest typed d s = (Inr u, t) \<Longrightarrow>
   validate_operation_confirmation plan typed = success_status"
  by (auto simp: confirmation_stage_def Let_def split: sum.splits)

lemma confirmation_stage_keeps:
  assumes "callbacks_keep v d"
  shows "keeps v (confirmation_stage plan digest typed d)"
  by (rule keepsI) (auto simp: confirmation_stage_def Let_def dest!: keeps_cancellation [OF assms]
    split: prod.splits sum.splits bool.splits)

lemma execute_stage_Inr:
  assumes "execute_stage plan digest d f s = (Inr e, t)"
  shows "\<exists>x. f plan d x = (Some (Inr e), t) \<and> execution_amount_valid plan e \<and>
    \<not> digest_is_zero (ee_output_hash e)"
  using assms
  by (auto simp: execute_stage_def Let_def guarded_call_Inr split: prod.splits sum.splits if_splits)

lemma verify_stage_Inr:
  assumes "verify_stage plan digest d f e s = (Inr w, t)" "execution_amount_valid plan e"
  shows "\<exists>x. f plan e d x = (Some (Inr w), t) \<and> ve_verified_work_bytes w = ee_processed_work_bytes e \<and>
    digest_equal (ee_output_hash e) (ve_output_hash w)"
  using assms
  by (auto simp: verify_stage_def Let_def guarded_call_Inr execution_amount_valid_def
    split: prod.splits sum.splits if_splits)

definition stopped_in :: "operation_phase set \<Rightarrow> operation_result + 'a \<Rightarrow> bool" where
  "stopped_in phases r \<longleftrightarrow>
     (case r of Inl x \<Rightarrow> or_phase x \<in> phases \<and> or_outcome x \<noteq> Outcome_completed | Inr y \<Rightarrow> True)"

lemma failed_result_stops:
  "or_phase (failed_result plan h p e a b) = p" "or_outcome (failed_result plan h p e a b) \<noteq> Outcome_completed"
  by (simp_all add: failed_result_def outcome_for_error_def)

lemma stages_stop:
  "stopped_in {Phase_reidentifying} (fst (reidentify_stage plan digest d f s))"
  "stopped_in {Phase_awaiting_confirmation} (fst (confirmation_stage plan digest typed d s))"
  "stopped_in {Phase_executing} (fst (execute_stage plan digest d g s))"
  "stopped_in {Phase_verifying} (fst (verify_stage plan digest d h e s))"
  by (simp_all add: reidentify_stage_def confirmation_stage_def execute_stage_def verify_stage_def
    stopped_in_def Let_def failed_result_stops split: prod.split sum.split bool.split)

lemma stage_stops:
  "reidentify_stage plan digest d f s = (Inl r, t) \<Longrightarrow>
     or_phase r = Phase_reidentifying \<and> or_outcome r \<noteq> Outcome_completed"
  "confirmation_stage plan digest typed d s = (Inl r, t) \<Longrightarrow>
     or_phase r = Phase_awaiting_confirmation \<and> or_outcome r \<noteq> Outcome_completed"
  "execute_stage plan digest d g s = (Inl r, t) \<Longrightarrow>
     or_phase r = Phase_executing \<and> or_outcome r \<noteq> Outcome_completed"
  "verify_stage plan digest d h e s = (Inl r, t) \<Longrightarrow>
     or_phase r = Phase_verifying \<and> or_outcome r \<noteq> Outcome_completed"
  using stages_stop(1) [of plan digest d f s] stages_stop(2) [of plan digest typed d s]
    stages_stop(3) [of plan digest d g s] stages_stop(4) [of plan digest d h e s]
  by (simp_all add: stopped_in_def)

text \<open>The ways a run ends: before the engine is called, or after.\<close>

lemma run_operation_cases:
  assumes run: "run_operation cng plan typed callbacks s = (r, t)"
  obtains (planning) "or_phase r = Phase_planning" "or_outcome r \<noteq> Outcome_completed"
      "\<exists>x. hash_operation_plan cng plan s = (x, t)"
  | (reidentifying) digest f u where "hash_operation_plan cng plan s = (Inr digest, u)"
      "ec_reidentify callbacks = Some f"
      "reidentify_stage plan digest (ec_disk_operation callbacks) f u = (Inl r, t)"
  | (confirming) digest f u w where "hash_operation_plan cng plan s = (Inr digest, u)"
      "ec_reidentify callbacks = Some f"
      "reidentify_stage plan digest (ec_disk_operation callbacks) f u = (Inr (), w)"
      "confirmation_stage plan digest typed (ec_disk_operation callbacks) w = (Inl r, t)"
  | (engine) digest f g u w x where "hash_operation_plan cng plan s = (Inr digest, u)"
      "ec_reidentify callbacks = Some f" "ec_execute callbacks = Some g"
      "reidentify_stage plan digest (ec_disk_operation callbacks) f u = (Inr (), w)"
      "confirmation_stage plan digest typed (ec_disk_operation callbacks) w = (Inr (), x)"
      "execute_stage plan digest (ec_disk_operation callbacks) g x = (Inl r, t)"
  | (verifying) digest f g h u w x e y where "hash_operation_plan cng plan s = (Inr digest, u)"
      "ec_reidentify callbacks = Some f" "ec_execute callbacks = Some g" "ec_verify callbacks = Some h"
      "reidentify_stage plan digest (ec_disk_operation callbacks) f u = (Inr (), w)"
      "confirmation_stage plan digest typed (ec_disk_operation callbacks) w = (Inr (), x)"
      "execute_stage plan digest (ec_disk_operation callbacks) g x = (Inr e, y)"
      "verify_stage plan digest (ec_disk_operation callbacks) h e y = (Inl r, t)"
  | (completed) digest f g h u w x e y z ev where "hash_operation_plan cng plan s = (Inr digest, u)"
      "ec_reidentify callbacks = Some f" "ec_execute callbacks = Some g" "ec_verify callbacks = Some h"
      "reidentify_stage plan digest (ec_disk_operation callbacks) f u = (Inr (), w)"
      "confirmation_stage plan digest typed (ec_disk_operation callbacks) w = (Inr (), x)"
      "execute_stage plan digest (ec_disk_operation callbacks) g x = (Inr e, y)"
      "verify_stage plan digest (ec_disk_operation callbacks) h e y = (Inr ev, z)"
      "t = report_operation_progress (ec_disk_operation callbacks) Completed plan
        (ee_processed_work_bytes e) (ve_verified_work_bytes ev) False z"
      "r = \<lparr>or_operation_id = op_operation_id plan, or_plan_hash = digest,
         or_phase = Phase_completed, or_outcome = Outcome_completed,
         or_processed_work_bytes = ee_processed_work_bytes e,
         or_verified_work_bytes = ve_verified_work_bytes ev, or_error = None\<rparr>"
proof -
  obtain x u where h: "hash_operation_plan cng plan s = (x, u)" by fastforce
  show thesis
  proof (cases x)
    case (Inl e)
    then show thesis using run h planning
      by (auto simp: run_operation_def failed_result_stops)
  next
    case (Inr digest)
    show thesis
    proof (cases "ec_reidentify callbacks = None \<or> ec_execute callbacks = None \<or> ec_verify callbacks = None")
      case True
      then have "r = failed_result plan digest Phase_planning
          (mk_error Invalid_argument ERROR_INVALID_PARAMETER) 0 0 \<and> t = u"
        using run h Inr by (auto simp: run_operation_def Let_def split: option.splits)
      then show thesis using h planning by (auto simp: failed_result_stops)
    next
      case False
      then obtain f g hh where c: "ec_reidentify callbacks = Some f" "ec_execute callbacks = Some g"
        "ec_verify callbacks = Some hh" by auto
      have h': "hash_operation_plan cng plan s = (Inr digest, u)" using h Inr by simp
      obtain x1 w where r1: "reidentify_stage plan digest (ec_disk_operation callbacks) f u = (x1, w)"
        by fastforce
      obtain x2 y where r2: "confirmation_stage plan digest typed (ec_disk_operation callbacks) w = (x2, y)"
        by fastforce
      obtain x3 z where r3: "execute_stage plan digest (ec_disk_operation callbacks) g y = (x3, z)"
        by fastforce
      note body = run [unfolded run_operation_def Let_def h' c prod.case sum.case option.case r1]
      show thesis
      proof (cases x1)
        case (Inl r')
        then show thesis using body reidentifying [OF h' c(1)] r1 by auto
      next
        case 1: (Inr u1)
        note body = body [unfolded 1 sum.case r2 prod.case]
        show thesis
        proof (cases x2)
          case (Inl r')
          then show thesis using body confirming [OF h' c(1)] r1 r2 1 by auto
        next
          case 2: (Inr u2)
          note body = body [unfolded 2 sum.case r3 prod.case]
          show thesis
          proof (cases x3)
            case (Inl r')
            then show thesis using body engine [OF h' c(1,2)] r1 r2 r3 1 2 by auto
          next
            case 3: (Inr e)
            obtain x4 z' where r4: "verify_stage plan digest (ec_disk_operation callbacks) hh e z = (x4, z')"
              by fastforce
            note body = body [unfolded 3 sum.case r4 prod.case]
            show thesis
            proof (cases x4)
              case (Inl r')
              then show thesis using body verifying [OF h' c] r1 r2 r3 r4 1 2 3 by auto
            next
              case 4: (Inr ev)
              show thesis
                by (rule completed [OF h' c, of w y e z ev z'])
                  (use body r1 r2 r3 r4 1 2 3 4 in auto)
            qed
          qed
        qed
      qed
    qed
  qed
qed

section \<open>A concrete operation\<close>

definition sample_disk :: stable_disk_identity where
  "sample_disk = \<lparr>id_disk_number = 1, id_model = [68, 105, 115, 107], id_size_bytes = 1048576,
     id_logical_sector_size = 512, id_serial_suffix = [65], id_device_instance_id = [65],
     id_is_system_disk = False\<rparr>"

definition sample_plan :: operation_plan where
  "sample_plan = \<lparr>op_schema_version = 1, op_operation_id = replicate 16 7, op_kind = Image_restore,
     op_environment = Winpe, op_source = None, op_target = Some sample_disk,
     op_expected_work_bytes = 4096, op_immutable_payload_hash = replicate 32 9\<rparr>"

text \<open>An engine whose world is the buffer of the hash provider and the number of its writes.\<close>

definition sample_engine :: "(byte list \<times> nat) engine_callbacks" where
  "sample_engine =
     \<lparr>ec_reidentify = Some (\<lambda>plan s. (Some (Inr \<lparr>ro_source = None, ro_target = Some sample_disk\<rparr>), s)),
      ec_execute = Some (\<lambda>plan d s. (Some (Inr \<lparr>ee_processed_work_bytes = 4096,
        ee_output_hash = replicate 32 5\<rparr>), (fst s, snd s + 1))),
      ec_verify = Some (\<lambda>plan e d s. (Some (Inr \<lparr>ve_verified_work_bytes = 4096,
        ve_output_hash = replicate 32 5\<rparr>), s)),
      ec_disk_operation = no_callbacks\<rparr>"

abbreviation sample_cng :: "(byte list \<times> nat) cng_api" where
  "sample_cng \<equiv> memory_cng fst (\<lambda>b s. (b, snd s))"

lemma sample_sha256: "sha256 sample_cng bytes s = (Inr (checksum bytes), (bytes, snd s))"
proof -
  have "hash_all sample_cng 1 bytes ([], snd s) = (Inr (), (bytes, snd s))"
    by (subst memory_cng_all) simp_all
  then show ?thesis
    by (simp add: sha256_def bindE_def liftE_def bcrypt_success_def returnE_def memory_cng_def)
qed

lemma sample_plan_valid: "validate_operation_plan sample_plan = success_status"
proof -
  have "\<not> digest_is_zero (replicate 32 9)" "\<not> id_is_zero (replicate 16 7)"
    unfolding id_is_zero_def foldl_or_zero by (simp_all add: digest_is_zero_iff ucast_byte_zero)
  then show ?thesis
    by (simp add: validate_operation_plan_def sample_plan_def known_kind_def known_environment_def
      validate_identity_roles_def needed_roles_def validate_optional_shape_def validate_identity_shape_def
      sample_disk_def has_embedded_null_def has_invalid_serial_character_def validate_stable_identity_def
      has_secondary_identifier_def)
qed

lemma sample_run:
  "run_operation sample_cng sample_plan [79, 75] sample_engine s =
     (\<lparr>or_operation_id = replicate 16 7, or_plan_hash = checksum (operation_plan_bytes sample_plan),
       or_phase = Phase_completed, or_outcome = Outcome_completed, or_processed_work_bytes = 4096,
       or_verified_work_bytes = 4096, or_error = None\<rparr>, (operation_plan_bytes sample_plan, snd s + 1))"
proof -
  have id: "validate_reidentified_operation sample_plan \<lparr>ro_source = None, ro_target = Some sample_disk\<rparr> =
      success_status"
    using sample_plan_valid
    by (simp add: validate_reidentified_operation_def validate_reidentified_disk_def sample_plan_def
      validate_stable_identity_def sample_disk_def has_secondary_identifier_def)
  have ok: "validate_operation_confirmation sample_plan [79, 75] = success_status"
    using sample_plan_valid by (simp add: validate_operation_confirmation_def kDestructiveConfirmationToken_def)
  have digest: "\<not> digest_is_zero (replicate 32 5)" "digest_equal (replicate 32 5) (replicate 32 5)"
    by (simp_all add: digest_is_zero_iff digest_equal_iff)
  have "op_kind sample_plan = Image_restore" "op_expected_work_bytes sample_plan = 4096"
    "op_operation_id sample_plan = replicate 16 7"
    by (simp_all add: sample_plan_def)
  then show ?thesis
    by (simp add: run_operation_def hash_operation_plan_def sample_plan_valid sample_sha256 sample_engine_def
      reidentify_stage_def confirmation_stage_def execute_stage_def verify_stage_def guarded_call_def
      report_operation_progress_def report_progress_def cancellation_requested_def no_callbacks_def
      id ok digest execution_amount_valid_def allows_bounded_sparse_work_def Let_def)
qed

section \<open>Properties\<close>

theorem operation_plan_bytes_injective_witness:
  "operation_plan_bytes (sample_plan\<lparr>op_expected_work_bytes := 4097\<rparr>) \<noteq> operation_plan_bytes sample_plan"
proof
  assume eq: "operation_plan_bytes (sample_plan\<lparr>op_expected_work_bytes := 4097\<rparr>) =
    operation_plan_bytes sample_plan"
  have "validate_operation_plan (sample_plan\<lparr>op_expected_work_bytes := 4097\<rparr>) = success_status"
    using sample_plan_valid by (simp add: validate_operation_plan_def sample_plan_def split: if_split_asm)
  from operation_plan_bytes_injective [OF this _ sample_plan_valid _ eq] show False
    by (simp add: plan_arrays_def sample_plan_def)
qed

text \<open>C7. An operation is reported as completed only when the plan was hashed, the disks were identified
  again and accepted, the operator's confirmation was accepted, the engine processed an amount the plan
  allows, and the verification read back exactly that amount with the hash of what was written; the
  report carries these values.\<close>

theorem run_operation_completed:
  assumes "run_operation cng plan typed callbacks s = (r, t)" "or_outcome r = Outcome_completed"
  shows "\<exists>digest f g h obs e ev s1 s2 s3 s4 s5 s6 s7.
    hash_operation_plan cng plan s = (Inr digest, s1) \<and>
    ec_reidentify callbacks = Some f \<and> f plan s2 = (Some (Inr obs), s3) \<and>
    validate_reidentified_operation plan obs = success_status \<and>
    validate_operation_confirmation plan typed = success_status \<and>
    ec_execute callbacks = Some g \<and> g plan (ec_disk_operation callbacks) s4 = (Some (Inr e), s5) \<and>
    execution_amount_valid plan e \<and>
    ec_verify callbacks = Some h \<and> h plan e (ec_disk_operation callbacks) s6 = (Some (Inr ev), s7) \<and>
    ve_verified_work_bytes ev = ee_processed_work_bytes e \<and>
    digest_equal (ee_output_hash e) (ve_output_hash ev) \<and> \<not> digest_is_zero (ee_output_hash e) \<and>
    r = \<lparr>or_operation_id = op_operation_id plan, or_plan_hash = digest, or_phase = Phase_completed,
      or_outcome = Outcome_completed, or_processed_work_bytes = ee_processed_work_bytes e,
      or_verified_work_bytes = ee_processed_work_bytes e, or_error = None\<rparr>"
  using assms(1)
proof (cases rule: run_operation_cases)
  case (completed digest f g h u w x e y z ev)
  note e = execute_stage_Inr [OF completed(7)]
  then have amount: "execution_amount_valid plan e" by blast
  from reidentify_stage_Inr [OF completed(5)] confirmation_stage_Inr [OF completed(6)] e
    verify_stage_Inr [OF completed(8) amount] completed(1-4,10)
  show ?thesis by metis
next
  case planning
  with assms(2) show ?thesis by simp
next
  case (reidentifying digest f u)
  with stage_stops(1) [OF reidentifying(3)] assms(2) show ?thesis by simp
next
  case (confirming digest f u w)
  with stage_stops(2) [OF confirming(4)] assms(2) show ?thesis by simp
next
  case (engine digest f g u w x)
  with stage_stops(3) [OF engine(6)] assms(2) show ?thesis by simp
next
  case (verifying digest f g h u w x e y)
  with stage_stops(4) [OF verifying(8)] assms(2) show ?thesis by simp
qed

theorem run_operation_completed_witness:
  "\<exists>r t e. run_operation sample_cng sample_plan [79, 75] sample_engine ([], 0) = (r, t) \<and>
    or_outcome r = Outcome_completed \<and> execution_amount_valid sample_plan e \<and>
    or_verified_work_bytes r = ee_processed_work_bytes e"
proof -
  from run_operation_completed [OF sample_run] show ?thesis
    by (simp add: sample_run) metis
qed

text \<open>C6. Whatever part of the world the observers, the hash provider and the renewed identification
  leave alone changes only in an operation whose disks were identified again and accepted and whose
  confirmation was accepted; such a run ends in the execution, in the verification or complete.\<close>

theorem run_operation_guards:
  assumes "callbacks_keep v (ec_disk_operation callbacks)" "cng_keeps v cng"
    and "\<And>f. ec_reidentify callbacks = Some f \<Longrightarrow> keeps v (f plan)"
    and "run_operation cng plan typed callbacks s = (r, t)" and "v t \<noteq> v s"
  shows "validate_operation_confirmation plan typed = success_status \<and>
    (\<exists>f obs s1 s2. ec_reidentify callbacks = Some f \<and> f plan s1 = (Some (Inr obs), s2) \<and>
      validate_reidentified_operation plan obs = success_status) \<and>
    or_phase r \<in> {Phase_executing, Phase_verifying, Phase_completed}"
proof -
  note hash = keepsD [OF keeps_hash_operation_plan [OF assms(2)]]
  note rei = keepsD [OF reidentify_stage_keeps [OF assms(1) assms(3)]]
  note conf = keepsD [OF confirmation_stage_keeps [OF assms(1)]]
  show ?thesis
    using assms(4)
  proof (cases rule: run_operation_cases)
    case planning
    then show ?thesis using hash assms(5) by auto
  next
    case (reidentifying digest f u)
    then show ?thesis using hash [OF reidentifying(1)] rei [OF reidentifying(2,3)] assms(5) by simp
  next
    case (confirming digest f u w)
    then show ?thesis
      using hash [OF confirming(1)] rei [OF confirming(2,3)] conf [OF confirming(4)] assms(5) by simp
  next
    case (engine digest f g u w x)
    then show ?thesis
      using reidentify_stage_Inr [OF engine(4)] confirmation_stage_Inr [OF engine(5)]
        stage_stops(3) [OF engine(6)] by auto
  next
    case (verifying digest f g h u w x e y)
    then show ?thesis
      using reidentify_stage_Inr [OF verifying(5)] confirmation_stage_Inr [OF verifying(6)]
        stage_stops(4) [OF verifying(8)] by auto
  next
    case (completed digest f g h u w x e y z ev)
    then show ?thesis
      using reidentify_stage_Inr [OF completed(5)] confirmation_stage_Inr [OF completed(6)] by auto
  qed
qed

theorem run_operation_guards_witness:
  "\<exists>r t. run_operation sample_cng sample_plan [79, 75] sample_engine ([], 0) = (r, t) \<and> snd t \<noteq> 0 \<and>
    or_phase r \<in> {Phase_executing, Phase_verifying, Phase_completed}"
proof -
  have "callbacks_keep snd (ec_disk_operation sample_engine)" by (simp add: sample_engine_def)
  moreover have "cng_keeps snd sample_cng" by (rule memory_cng_keeps) simp
  moreover have "ec_reidentify sample_engine = Some f \<Longrightarrow> keeps snd (f sample_plan)" for f
    by (auto simp: sample_engine_def keeps_def)
  ultimately show ?thesis
    using run_operation_guards [OF _ _ _ sample_run, of snd "([], 0)"] by (simp add: sample_run)
qed

end
