(* ===== verification/Checkpoint.thy ===== *)
theory Checkpoint
  imports Operation
begin

text \<open>
  The checkpoint of an interrupted operation (\<open>OperationCore/src/checkpoint.cpp\<close>): when a checkpoint
  is consistent, which successor may replace it, for which plan it may be resumed, and its byte
  format.  The file on disk that holds the bytes is modelled in \<^theory_text>\<open>CheckpointStore\<close>.
\<close>

abbreviation (input) ERROR_FILE_TOO_LARGE :: u32 where "ERROR_FILE_TOO_LARGE \<equiv> 223"
abbreviation (input) ERROR_REVISION_MISMATCH :: u32 where "ERROR_REVISION_MISMATCH \<equiv> 1306"

section \<open>Data\<close>

datatype checkpoint_phase =
  Cp_executing | Cp_verifying | Cp_preparing | Cp_prepared | Cp_commit_ready | Cp_unknown u8

record preparation_sector =
  cps_offset :: u64
  cps_length :: u64
  cps_original_hash :: "byte list"

record preparation_evidence =
  cpe_initial_layout_hash :: "byte list"
  cpe_logical_sector_size :: u32
  cpe_original_sectors :: "preparation_sector list"

record output_progress_evidence =
  cpo_verified_prefix_hash :: "byte list"
  cpo_primary_output_length :: u64
  cpo_journal_length :: u64
  cpo_auxiliary_output_length :: u64

record interruption_checkpoint =
  ic_schema_version :: u32
  ic_operation_id :: "byte list"
  ic_kind :: operation_kind
  ic_environment :: operation_environment
  ic_phase :: checkpoint_phase
  ic_revision :: u64
  ic_expected_work_bytes :: u64
  ic_verified_work_bytes :: u64
  ic_verified_chunk_count :: u64
  ic_plan_hash :: "byte list"
  ic_output_identity_hash :: "byte list"
  ic_source :: "stable_disk_identity option"
  ic_target :: "stable_disk_identity option"
  ic_continuity_token :: wide_string
  ic_preparation_evidence :: "preparation_evidence option"
  ic_output_progress_evidence :: "output_progress_evidence option"

record parsed_checkpoint =
  pc_checkpoint :: interruption_checkpoint
  pc_record_hash :: "byte list"

abbreviation (input) kCheckpointSchemaVersionV1 :: u32 where "kCheckpointSchemaVersionV1 \<equiv> 1"
abbreviation (input) kCheckpointSchemaVersionV2 :: u32 where "kCheckpointSchemaVersionV2 \<equiv> 2"
abbreviation (input) kCheckpointSchemaVersionV3 :: u32 where "kCheckpointSchemaVersionV3 \<equiv> 3"
abbreviation (input) kMaximumCheckpointBytes :: nat where "kMaximumCheckpointBytes \<equiv> 262144"
abbreviation (input) kMaximumCheckpointPreparationSectors :: nat where
  "kMaximumCheckpointPreparationSectors \<equiv> 4096"
abbreviation (input) kMaximumContinuityCharacters :: nat where "kMaximumContinuityCharacters \<equiv> 512"
abbreviation (input) kDigestBytes :: nat where "kDigestBytes \<equiv> 32"
abbreviation (input) kPreparationSectorWireBytes :: nat where "kPreparationSectorWireBytes \<equiv> 48"

section \<open>Consistent checkpoints\<close>

definition operation_id_equal :: "byte list \<Rightarrow> byte list \<Rightarrow> bool" where
  "operation_id_equal left right \<longleftrightarrow>
     foldl (\<lambda>difference (l, r). difference OR (ucast (l XOR r) :: u32)) 0 (zip left right) = 0"

definition identity_equal :: "stable_disk_identity \<Rightarrow> stable_disk_identity \<Rightarrow> bool" where
  "identity_equal left right \<longleftrightarrow>
     id_model left = id_model right \<and> id_size_bytes left = id_size_bytes right \<and>
     id_logical_sector_size left = id_logical_sector_size right \<and>
     id_serial_suffix left = id_serial_suffix right \<and>
     id_device_instance_id left = id_device_instance_id right \<and>
     id_is_system_disk left = id_is_system_disk right"

definition optional_identity_equal ::
  "stable_disk_identity option \<Rightarrow> stable_disk_identity option \<Rightarrow> bool" where
  "optional_identity_equal left right \<longleftrightarrow>
     (case (left, right) of
        (None, None) \<Rightarrow> True
      | (Some l, Some r) \<Rightarrow> identity_equal l r
      | _ \<Rightarrow> False)"

definition checkpoint_phase_known :: "checkpoint_phase \<Rightarrow> bool" where
  "checkpoint_phase_known phase \<longleftrightarrow> (case phase of Cp_unknown n \<Rightarrow> False | _ \<Rightarrow> True)"

definition legacy_checkpoint_phase :: "checkpoint_phase \<Rightarrow> bool" where
  "legacy_checkpoint_phase phase \<longleftrightarrow> phase = Cp_executing \<or> phase = Cp_verifying"

definition preparation_checkpoint_phase :: "checkpoint_phase \<Rightarrow> bool" where
  "preparation_checkpoint_phase phase \<longleftrightarrow>
     phase = Cp_preparing \<or> phase = Cp_prepared \<or> phase = Cp_commit_ready"

definition valid_continuity_token :: "wide_string \<Rightarrow> bool" where
  "valid_continuity_token value \<longleftrightarrow>
     value \<noteq> [] \<and> length value \<le> kMaximumContinuityCharacters \<and>
     \<not> list_ex (\<lambda>c. c = 0 \<or> c < 32 \<or> c = 0x7F) value"

text \<open>The loop over the sectors; the option is \<open>previous_end\<close>, absent for the first one.\<close>

fun preparation_sectors_valid ::
  "u32 \<Rightarrow> u64 \<Rightarrow> u64 option \<Rightarrow> preparation_sector list \<Rightarrow> bool" where
  "preparation_sectors_valid sector_size target_bytes previous_end [] \<longleftrightarrow> True"
| "preparation_sectors_valid sector_size target_bytes previous_end (s # ss) \<longleftrightarrow>
     \<not> (cps_length s \<noteq> ucast sector_size \<or> cps_offset s mod ucast sector_size \<noteq> 0 \<or>
        cps_offset s > target_bytes \<or> cps_length s > target_bytes - cps_offset s \<or>
        (case previous_end of None \<Rightarrow> False | Some pe \<Rightarrow> cps_offset s < pe) \<or>
        digest_is_zero (cps_original_hash s)) \<and>
     preparation_sectors_valid sector_size target_bytes (Some (cps_offset s + cps_length s)) ss"

definition validate_preparation_evidence :: "interruption_checkpoint \<Rightarrow> status" where
  "validate_preparation_evidence c =
     (let schema_v1 = (ic_schema_version c = kCheckpointSchemaVersionV1);
          schema_v2 = (ic_schema_version c = kCheckpointSchemaVersionV2);
          schema_v3 = (ic_schema_version c = kCheckpointSchemaVersionV3);
          legacy_phase = legacy_checkpoint_phase (ic_phase c);
          preparation_phase = preparation_checkpoint_phase (ic_phase c);
          evidence_present = (ic_preparation_evidence c \<noteq> None)
      in
      if (\<not> schema_v1 \<and> \<not> schema_v2 \<and> \<not> schema_v3) \<or>
         (schema_v1 \<and> (\<not> legacy_phase \<or> evidence_present)) \<or>
         (schema_v2 \<and> preparation_phase \<noteq> evidence_present) \<or> (schema_v3 \<and> evidence_present)
      then Inl (mk_error Invalid_data ERROR_REVISION_MISMATCH)
      else
        case ic_preparation_evidence c of
          None \<Rightarrow> success_status
        | Some ev \<Rightarrow>
         (case ic_target c of
            None \<Rightarrow> Inl (mk_error Invalid_data ERROR_INVALID_DATA)
          | Some target \<Rightarrow>
            if digest_is_zero (cpe_initial_layout_hash ev) \<or> cpe_logical_sector_size ev = 0 \<or>
               cpe_logical_sector_size ev \<noteq> id_logical_sector_size target \<or>
               cpe_original_sectors ev = [] \<or>
               length (cpe_original_sectors ev) > kMaximumCheckpointPreparationSectors
            then Inl (mk_error Invalid_data ERROR_INVALID_DATA)
            else if \<not> preparation_sectors_valid (cpe_logical_sector_size ev) (id_size_bytes target)
                 None (cpe_original_sectors ev)
            then Inl (mk_error Invalid_data ERROR_INVALID_DATA)
            else success_status))"

definition validate_output_progress_evidence :: "interruption_checkpoint \<Rightarrow> status" where
  "validate_output_progress_evidence c =
     (let schema_v3 = (ic_schema_version c = kCheckpointSchemaVersionV3) in
      if schema_v3 \<noteq> (ic_output_progress_evidence c \<noteq> None)
      then Inl (mk_error Invalid_data ERROR_REVISION_MISMATCH)
      else
        case ic_output_progress_evidence c of
          None \<Rightarrow> success_status
        | Some ev \<Rightarrow>
          if ic_kind c \<noteq> Image_create \<or> ic_environment c \<noteq> Winpe \<or>
             \<not> preparation_checkpoint_phase (ic_phase c) \<or>
             digest_is_zero (cpo_verified_prefix_hash ev) \<or>
             cpo_auxiliary_output_length ev \<noteq> 0 \<or>
             (ic_phase c \<noteq> Cp_preparing \<and> cpo_journal_length ev = 0) \<or>
             (ic_verified_work_bytes c \<noteq> 0 \<and> cpo_primary_output_length ev = 0)
          then Inl (mk_error Invalid_data ERROR_INVALID_DATA)
          else success_status)"

definition checkpoint_plan_shape :: "interruption_checkpoint \<Rightarrow> operation_plan" where
  "checkpoint_plan_shape c =
     \<lparr>op_schema_version = kOperationPlanSchemaVersion, op_operation_id = ic_operation_id c,
      op_kind = ic_kind c, op_environment = ic_environment c, op_source = ic_source c,
      op_target = ic_target c, op_expected_work_bytes = ic_expected_work_bytes c,
      op_immutable_payload_hash = ic_plan_hash c\<rparr>"

definition validate_checkpoint :: "interruption_checkpoint \<Rightarrow> status" where
  "validate_checkpoint c =
     (if (ic_schema_version c \<noteq> kCheckpointSchemaVersionV1 \<and>
          ic_schema_version c \<noteq> kCheckpointSchemaVersionV2 \<and>
          ic_schema_version c \<noteq> kCheckpointSchemaVersionV3) \<or>
         \<not> checkpoint_phase_known (ic_phase c) \<or> ic_revision c = 0 \<or> ic_expected_work_bytes c = 0 \<or>
         ic_verified_work_bytes c > ic_expected_work_bytes c \<or>
         (ic_verified_work_bytes c = 0 \<and> ic_verified_chunk_count c \<noteq> 0) \<or>
         (ic_verified_work_bytes c \<noteq> 0 \<and> ic_verified_chunk_count c = 0) \<or>
         (ic_phase c = Cp_preparing \<and>
          (ic_verified_work_bytes c \<noteq> 0 \<or> ic_verified_chunk_count c \<noteq> 0)) \<or>
         (ic_phase c = Cp_commit_ready \<and>
          (ic_verified_work_bytes c \<noteq> ic_expected_work_bytes c \<or> ic_verified_chunk_count c = 0)) \<or>
         digest_is_zero (ic_plan_hash c) \<or> digest_is_zero (ic_output_identity_hash c) \<or>
         \<not> valid_continuity_token (ic_continuity_token c)
      then Inl (mk_error Invalid_data ERROR_INVALID_DATA)
      else
        case validate_preparation_evidence c of
          Inl e \<Rightarrow> Inl e
        | Inr _ \<Rightarrow>
       (case validate_output_progress_evidence c of
          Inl e \<Rightarrow> Inl e
        | Inr _ \<Rightarrow> validate_operation_plan (checkpoint_plan_shape c)))"

section \<open>Updating a checkpoint\<close>

definition same_progress :: "interruption_checkpoint \<Rightarrow> interruption_checkpoint \<Rightarrow> bool" where
  "same_progress current next \<longleftrightarrow>
     ic_verified_work_bytes next = ic_verified_work_bytes current \<and>
     ic_verified_chunk_count next = ic_verified_chunk_count current"

definition advanced_progress :: "interruption_checkpoint \<Rightarrow> interruption_checkpoint \<Rightarrow> bool" where
  "advanced_progress current next \<longleftrightarrow>
     ic_verified_work_bytes next > ic_verified_work_bytes current \<or>
     ic_verified_chunk_count next > ic_verified_chunk_count current"

definition legacy_schema_upgrade :: "interruption_checkpoint \<Rightarrow> interruption_checkpoint \<Rightarrow> bool" where
  "legacy_schema_upgrade current next \<longleftrightarrow>
     ic_schema_version current = kCheckpointSchemaVersionV1 \<and>
     ic_schema_version next = kCheckpointSchemaVersionV2 \<and>
     ic_phase current = Cp_executing \<and> same_progress current next \<and>
     ic_preparation_evidence next \<noteq> None \<and>
     (ic_phase next = Cp_prepared \<or>
      (ic_phase next = Cp_preparing \<and> ic_verified_work_bytes current = 0 \<and>
       ic_verified_chunk_count current = 0))"

definition allowed_phase_transition :: "interruption_checkpoint \<Rightarrow> interruption_checkpoint \<Rightarrow> bool" where
  "allowed_phase_transition current next \<longleftrightarrow>
     (case ic_phase current of
        Cp_executing \<Rightarrow>
          (ic_phase next = Cp_executing \<and> advanced_progress current next) \<or>
          ic_phase next = Cp_verifying \<or> legacy_schema_upgrade current next
      | Cp_verifying \<Rightarrow> ic_phase next = Cp_verifying \<and> advanced_progress current next
      | Cp_preparing \<Rightarrow> ic_phase next = Cp_prepared \<and> same_progress current next
      | Cp_prepared \<Rightarrow>
          (ic_phase next = Cp_prepared \<and> advanced_progress current next) \<or>
          (ic_phase next = Cp_commit_ready \<and> same_progress current next \<and>
           ic_verified_work_bytes current = ic_expected_work_bytes current \<and>
           ic_verified_chunk_count current \<noteq> 0)
      | Cp_commit_ready \<Rightarrow> False
      | Cp_unknown n \<Rightarrow> False)"

text \<open>The extra conditions on the output of an image; both checkpoints have passed the checks, so the
  evidence is there.\<close>

definition output_transition_ok :: "interruption_checkpoint \<Rightarrow> interruption_checkpoint \<Rightarrow> bool" where
  "output_transition_ok current next \<longleftrightarrow>
     (case (ic_output_progress_evidence current, ic_output_progress_evidence next) of
        (Some a, Some b) \<Rightarrow>
          let monotonic = cpo_primary_output_length b \<ge> cpo_primary_output_length a \<and>
                cpo_journal_length b \<ge> cpo_journal_length a \<and>
                cpo_auxiliary_output_length b \<ge> cpo_auxiliary_output_length a;
              changed = (b \<noteq> a)
          in \<not> (\<not> monotonic \<or> (advanced_progress current next \<and> \<not> changed) \<or>
             (ic_phase current = Cp_preparing \<and> ic_phase next = Cp_prepared \<and> \<not> changed) \<or>
             (ic_phase current = Cp_prepared \<and> ic_phase next = Cp_commit_ready \<and> \<not> changed))
      | _ \<Rightarrow> True)"

definition validate_checkpoint_transition ::
  "interruption_checkpoint \<Rightarrow> interruption_checkpoint \<Rightarrow> status" where
  "validate_checkpoint_transition current next =
     (case validate_checkpoint current of
        Inl e \<Rightarrow> Inl e
      | Inr _ \<Rightarrow>
     (case validate_checkpoint next of
        Inl e \<Rightarrow> Inl e
      | Inr _ \<Rightarrow>
        let output_schema_v3 = (ic_schema_version current = kCheckpointSchemaVersionV3 \<and>
              ic_schema_version next = kCheckpointSchemaVersionV3);
            phase_ok = (allowed_phase_transition current next \<and>
              (output_schema_v3 \<longrightarrow> output_transition_ok current next))
        in
        if (ic_schema_version current \<noteq> ic_schema_version next \<and> \<not> legacy_schema_upgrade current next) \<or>
           \<not> operation_id_equal (ic_operation_id current) (ic_operation_id next) \<or>
           ic_kind current \<noteq> ic_kind next \<or> ic_environment current \<noteq> ic_environment next \<or>
           ic_expected_work_bytes current \<noteq> ic_expected_work_bytes next \<or>
           \<not> digest_equal (ic_plan_hash current) (ic_plan_hash next) \<or>
           \<not> digest_equal (ic_output_identity_hash current) (ic_output_identity_hash next) \<or>
           \<not> optional_identity_equal (ic_source current) (ic_source next) \<or>
           \<not> optional_identity_equal (ic_target current) (ic_target next) \<or>
           ic_continuity_token current \<noteq> ic_continuity_token next \<or>
           (ic_preparation_evidence current \<noteq> ic_preparation_evidence next \<and>
            \<not> legacy_schema_upgrade current next) \<or>
           (\<not> output_schema_v3 \<and>
            ic_output_progress_evidence current \<noteq> ic_output_progress_evidence next) \<or>
           ic_revision current = u64_max \<or> ic_revision next \<noteq> ic_revision current + 1 \<or>
           ic_verified_work_bytes next < ic_verified_work_bytes current \<or>
           ic_verified_chunk_count next < ic_verified_chunk_count current \<or> \<not> phase_ok
        then Inl (mk_error Verification_failed ERROR_REVISION_MISMATCH)
        else success_status))"

definition validate_checkpoint_for_resume ::
  "'s cng_api \<Rightarrow> interruption_checkpoint \<Rightarrow> operation_plan \<Rightarrow> reidentified_operation \<Rightarrow> wide_string \<Rightarrow>
   byte list \<Rightarrow> ('s, unit) prog" where
  "validate_checkpoint_for_resume cng c plan observed continuity_token output_identity_hash =
     bindE (of_result (validate_checkpoint c)) (\<lambda>_.
     bindE (of_result (validate_reidentified_operation plan observed)) (\<lambda>_.
     bindE (hash_operation_plan cng plan) (\<lambda>plan_hash.
     if \<not> operation_id_equal (ic_operation_id c) (op_operation_id plan) \<or>
        ic_kind c \<noteq> op_kind plan \<or> ic_environment c \<noteq> op_environment plan \<or>
        ic_expected_work_bytes c \<noteq> op_expected_work_bytes plan \<or>
        \<not> digest_equal (ic_plan_hash c) plan_hash \<or>
        \<not> optional_identity_equal (ic_source c) (op_source plan) \<or>
        \<not> optional_identity_equal (ic_target c) (op_target plan) \<or>
        ic_continuity_token c \<noteq> continuity_token \<or>
        \<not> digest_equal (ic_output_identity_hash c) output_identity_hash
     then failE (mk_error Identity_mismatch ERROR_DEVICE_NOT_CONNECTED)
     else returnE ())))"

section \<open>Writing a checkpoint\<close>

definition phase_byte :: "checkpoint_phase \<Rightarrow> u8" where
  "phase_byte phase =
     (case phase of
        Cp_executing \<Rightarrow> 0 | Cp_verifying \<Rightarrow> 1 | Cp_preparing \<Rightarrow> 2 | Cp_prepared \<Rightarrow> 3
      | Cp_commit_ready \<Rightarrow> 4 | Cp_unknown n \<Rightarrow> n)"

text \<open>\<open>"YTECCP1"\<close> and a zero byte.\<close>

definition kCheckpointMagic :: "byte list" where
  "kCheckpointMagic = [0x59, 0x54, 0x45, 0x43, 0x43, 0x50, 0x31, 0x00]"

definition schema_minor :: "u32 \<Rightarrow> u16" where
  "schema_minor version =
     (if version = kCheckpointSchemaVersionV1 then 0
      else if version = kCheckpointSchemaVersionV2 then 1 else 2)"

definition checkpoint_flags :: "interruption_checkpoint \<Rightarrow> u8" where
  "checkpoint_flags c =
     (if ic_source c \<noteq> None then 0x01 else 0) OR (if ic_target c \<noteq> None then 0x02 else 0) OR
     (if ic_preparation_evidence c \<noteq> None then 0x04 else 0) OR
     (if ic_output_progress_evidence c \<noteq> None then 0x08 else 0)"

definition append_sector :: "byte list \<Rightarrow> preparation_sector \<Rightarrow> byte list" where
  "append_sector bytes s =
     append_array (append_u64 (append_u64 bytes (cps_offset s)) (cps_length s)) (cps_original_hash s)"

definition append_preparation :: "byte list \<Rightarrow> preparation_evidence \<Rightarrow> byte list" where
  "append_preparation bytes ev =
     (let bytes = append_array bytes (cpe_initial_layout_hash ev);
          bytes = append_u32 bytes (cpe_logical_sector_size ev);
          bytes = append_u32 bytes (of_nat (length (cpe_original_sectors ev)))
      in foldl append_sector bytes (cpe_original_sectors ev))"

definition append_output_progress :: "byte list \<Rightarrow> output_progress_evidence \<Rightarrow> byte list" where
  "append_output_progress bytes ev =
     (let bytes = append_array bytes (cpo_verified_prefix_hash ev);
          bytes = append_u64 bytes (cpo_primary_output_length ev);
          bytes = append_u64 bytes (cpo_journal_length ev)
      in append_u64 bytes (cpo_auxiliary_output_length ev))"

definition checkpoint_payload :: "interruption_checkpoint \<Rightarrow> byte list" where
  "checkpoint_payload c =
     (let bytes = append_array [] kCheckpointMagic;
          bytes = append_u16 bytes 1;
          bytes = append_u16 bytes (schema_minor (ic_schema_version c));
          bytes = append_u32 bytes 0;
          bytes = append_u8 bytes (kind_byte (ic_kind c));
          bytes = append_u8 bytes (environment_byte (ic_environment c));
          bytes = append_u8 bytes (phase_byte (ic_phase c));
          bytes = append_u8 bytes (checkpoint_flags c);
          bytes = append_u32 bytes 0;
          bytes = append_u64 bytes (ic_revision c);
          bytes = append_u64 bytes (ic_expected_work_bytes c);
          bytes = append_u64 bytes (ic_verified_work_bytes c);
          bytes = append_u64 bytes (ic_verified_chunk_count c);
          bytes = append_array bytes (ic_operation_id c);
          bytes = append_array bytes (ic_plan_hash c);
          bytes = append_array bytes (ic_output_identity_hash c);
          bytes = append_wstring bytes (ic_continuity_token c);
          bytes = append_optional_identity bytes (ic_source c);
          bytes = append_optional_identity bytes (ic_target c);
          bytes = (case ic_preparation_evidence c of None \<Rightarrow> bytes | Some e \<Rightarrow> append_preparation bytes e)
      in (case ic_output_progress_evidence c of None \<Rightarrow> bytes | Some e \<Rightarrow> append_output_progress bytes e))"

abbreviation (input) kTotalSizeOffset :: nat where "kTotalSizeOffset \<equiv> 12"

text \<open>The loop of \<open>set_u32\<close>, in place.\<close>

definition set_u32 :: "byte list \<Rightarrow> nat \<Rightarrow> u32 \<Rightarrow> byte list" where
  "set_u32 bytes offset value =
     foldl (\<lambda>bytes i. bytes[offset + i := ucast (drop_bit (8 * i) value AND 0xFF)]) bytes [0..<4]"

definition serialize_checkpoint :: "'s cng_api \<Rightarrow> interruption_checkpoint \<Rightarrow> ('s, byte list) prog" where
  "serialize_checkpoint cng c =
     bindE (of_result (validate_checkpoint c)) (\<lambda>_.
       let bytes = checkpoint_payload c in
       if length bytes > kMaximumCheckpointBytes - kDigestBytes
       then failE (mk_error Invalid_data ERROR_FILE_TOO_LARGE)
       else
         let bytes = set_u32 bytes kTotalSizeOffset (of_nat (length bytes + kDigestBytes)) in
         bindE (sha256 cng bytes) (\<lambda>digest. returnE (append_array bytes digest)))"

section \<open>Reading a checkpoint\<close>

definition kind_of_byte :: "u8 \<Rightarrow> operation_kind" where
  "kind_of_byte b =
     (if b = 0 then Clone else if b = 1 then Image_create else if b = 2 then Image_restore
      else if b = 3 then Boot_repair else if b = 4 then Rescue_clone else if b = 5 then Rescue_image
      else Unknown_kind b)"

definition environment_of_byte :: "u8 \<Rightarrow> operation_environment" where
  "environment_of_byte b = (if b = 0 then Windows else if b = 1 then Winpe else Unknown_environment b)"

definition phase_of_byte :: "u8 \<Rightarrow> checkpoint_phase" where
  "phase_of_byte b =
     (if b = 0 then Cp_executing else if b = 1 then Cp_verifying else if b = 2 then Cp_preparing
      else if b = 3 then Cp_prepared else if b = 4 then Cp_commit_ready else Cp_unknown b)"

definition read_header :: "nat \<Rightarrow> u16 reader" where
  "read_header total_bytes =
     bindR (read_array 8) (\<lambda>magic. if magic \<noteq> kCheckpointMagic then failR else
     bindR read_u16 (\<lambda>major.
     bindR read_u16 (\<lambda>minor.
     bindR read_u32 (\<lambda>total_size.
       if major \<noteq> 1 \<or> (minor \<noteq> 0 \<and> minor \<noteq> 1 \<and> minor \<noteq> 2) \<or> unat total_size \<noteq> total_bytes
       then failR else returnR minor))))"

definition allowed_flags :: "u16 \<Rightarrow> u8" where
  "allowed_flags minor = (if minor = 0 then 0x03 else if minor = 1 then 0x07 else 0x0B)"

definition minor_schema :: "u16 \<Rightarrow> u32" where
  "minor_schema minor =
     (if minor = 0 then kCheckpointSchemaVersionV1
      else if minor = 1 then kCheckpointSchemaVersionV2 else kCheckpointSchemaVersionV3)"

text \<open>The fixed fields and the continuity token; the flags say what follows.\<close>

definition read_fixed_fields :: "u16 \<Rightarrow> (u8 \<times> interruption_checkpoint) reader" where
  "read_fixed_fields minor =
     bindR read_u8 (\<lambda>kind.
     bindR read_u8 (\<lambda>environment.
     bindR read_u8 (\<lambda>phase.
     bindR read_u8 (\<lambda>flags. if flags AND NOT (allowed_flags minor) \<noteq> 0 then failR else
     bindR read_u32 (\<lambda>reserved. if reserved \<noteq> 0 then failR else
     bindR read_u64 (\<lambda>revision.
     bindR read_u64 (\<lambda>expected_work_bytes.
     bindR read_u64 (\<lambda>verified_work_bytes.
     bindR read_u64 (\<lambda>verified_chunk_count.
     bindR (read_array 16) (\<lambda>operation_id.
     bindR (read_array 32) (\<lambda>plan_hash.
     bindR (read_array 32) (\<lambda>output_identity_hash.
     bindR (read_wstring kMaximumContinuityCharacters) (\<lambda>continuity_token.
       returnR (flags,
         \<lparr>ic_schema_version = minor_schema minor, ic_operation_id = operation_id,
          ic_kind = kind_of_byte kind, ic_environment = environment_of_byte environment,
          ic_phase = phase_of_byte phase, ic_revision = revision,
          ic_expected_work_bytes = expected_work_bytes, ic_verified_work_bytes = verified_work_bytes,
          ic_verified_chunk_count = verified_chunk_count, ic_plan_hash = plan_hash,
          ic_output_identity_hash = output_identity_hash, ic_source = None, ic_target = None,
          ic_continuity_token = continuity_token, ic_preparation_evidence = None,
          ic_output_progress_evidence = None\<rparr>))))))))))))))"

definition read_sector :: "preparation_sector reader" where
  "read_sector =
     bindR read_u64 (\<lambda>offset.
     bindR read_u64 (\<lambda>len.
     bindR (read_array 32) (\<lambda>original_hash.
       returnR \<lparr>cps_offset = offset, cps_length = len, cps_original_hash = original_hash\<rparr>)))"

primrec read_sectors :: "nat \<Rightarrow> preparation_sector list reader" where
  "read_sectors 0 = returnR []"
| "read_sectors (Suc n) = bindR read_sector (\<lambda>s. bindR (read_sectors n) (\<lambda>ss. returnR (s # ss)))"

definition read_preparation :: "preparation_evidence reader" where
  "read_preparation =
     bindR (read_array 32) (\<lambda>initial_layout_hash.
     bindR read_u32 (\<lambda>logical_sector_size.
     bindR read_u32 (\<lambda>sector_count rest.
       if sector_count = 0 \<or> unat sector_count > kMaximumCheckpointPreparationSectors \<or>
          unat sector_count > length rest div kPreparationSectorWireBytes \<or>
          length rest \<noteq> unat sector_count * kPreparationSectorWireBytes
       then None
       else
         bindR (read_sectors (unat sector_count)) (\<lambda>sectors.
           returnR \<lparr>cpe_initial_layout_hash = initial_layout_hash,
             cpe_logical_sector_size = logical_sector_size, cpe_original_sectors = sectors\<rparr>) rest)))"

definition read_output_progress :: "output_progress_evidence reader" where
  "read_output_progress =
     bindR (read_array 32) (\<lambda>verified_prefix_hash.
     bindR read_u64 (\<lambda>primary_output_length.
     bindR read_u64 (\<lambda>journal_length.
     bindR read_u64 (\<lambda>auxiliary_output_length.
       returnR \<lparr>cpo_verified_prefix_hash = verified_prefix_hash,
         cpo_primary_output_length = primary_output_length, cpo_journal_length = journal_length,
         cpo_auxiliary_output_length = auxiliary_output_length\<rparr>))))"

text \<open>A block that is read when its flag is set.\<close>

definition read_optional :: "bool \<Rightarrow> 'a reader \<Rightarrow> 'a option reader" where
  "read_optional present m = (if present then bindR m (\<lambda>x. returnR (Some x)) else returnR None)"

definition read_body :: "u16 \<Rightarrow> interruption_checkpoint reader" where
  "read_body minor =
     bindR (read_fixed_fields minor) (\<lambda>(flags, checkpoint).
     bindR (read_optional (flags AND 0x01 \<noteq> 0) read_identity) (\<lambda>source.
     bindR (read_optional (flags AND 0x02 \<noteq> 0) read_identity) (\<lambda>target.
     bindR (read_optional (flags AND 0x04 \<noteq> 0) read_preparation) (\<lambda>preparation.
     bindR (read_optional (flags AND 0x08 \<noteq> 0) read_output_progress) (\<lambda>output.
       returnR (checkpoint\<lparr>ic_source := source, ic_target := target,
         ic_preparation_evidence := preparation, ic_output_progress_evidence := output\<rparr>))))))"

definition parse_checkpoint :: "'s cng_api \<Rightarrow> byte list \<Rightarrow> ('s, parsed_checkpoint) prog" where
  "parse_checkpoint cng bytes s =
     (if length bytes < 172 \<or> length bytes > kMaximumCheckpointBytes
      then (Inl (mk_error Invalid_data ERROR_INVALID_DATA), s)
      else
        let payload = take (length bytes - kDigestBytes) bytes;
            stored_hash = drop (length bytes - kDigestBytes) bytes
        in
        case read_header (length bytes) payload of
          None \<Rightarrow> (Inl (mk_error Invalid_data ERROR_REVISION_MISMATCH), s)
        | Some (minor, rest) \<Rightarrow>
         (case sha256 cng payload s of
            (Inl e, t) \<Rightarrow> (Inl (mk_error Verification_failed ERROR_CRC), t)
          | (Inr calculated, t) \<Rightarrow>
            if \<not> digest_equal calculated stored_hash
            then (Inl (mk_error Verification_failed ERROR_CRC), t)
            else
              case read_body minor rest of
                None \<Rightarrow> (Inl (mk_error Invalid_data ERROR_INVALID_DATA), t)
              | Some (checkpoint, remaining) \<Rightarrow>
                if remaining \<noteq> [] then (Inl (mk_error Invalid_data ERROR_INVALID_DATA), t)
                else
                  case validate_checkpoint checkpoint of
                    Inl e \<Rightarrow> (Inl e, t)
                  | Inr _ \<Rightarrow>
                    (Inr \<lparr>pc_checkpoint = checkpoint, pc_record_hash = stored_hash\<rparr>, t)))"

end
