(* ===== verification/CheckpointCodec.thy ===== *)
theory CheckpointCodec
  imports Checkpoint OperationCorrect
begin

text \<open>
  The blocks of a checkpoint as codecs: what the writer appends and the reader takes back, block by
  block, and the body they make up.
\<close>

section \<open>Evidence\<close>

definition sector_bytes :: "preparation_sector \<Rightarrow> byte list" where
  "sector_bytes s = shifted_bytes 8 (cps_offset s) @ shifted_bytes 8 (cps_length s) @ cps_original_hash s"

definition sectors_bytes :: "preparation_sector list \<Rightarrow> byte list" where
  "sectors_bytes ss = concat (map sector_bytes ss)"

definition preparation_bytes :: "preparation_evidence \<Rightarrow> byte list" where
  "preparation_bytes p = cpe_initial_layout_hash p @ shifted_bytes 4 (cpe_logical_sector_size p) @
     shifted_bytes 4 (of_nat (length (cpe_original_sectors p)) :: u32) @
     sectors_bytes (cpe_original_sectors p)"

definition output_bytes :: "output_progress_evidence \<Rightarrow> byte list" where
  "output_bytes p = cpo_verified_prefix_hash p @ shifted_bytes 8 (cpo_primary_output_length p) @
     shifted_bytes 8 (cpo_journal_length p) @ shifted_bytes 8 (cpo_auxiliary_output_length p)"

lemma append_evidence_eq [append_simps]:
  "append_preparation bytes p = bytes @ preparation_bytes p"
  "append_output_progress bytes q = bytes @ output_bytes q"
proof -
  have "append_sector bytes s = bytes @ sector_bytes s" for bytes s
    by (simp add: append_sector_def sector_bytes_def append_simps)
  then show "append_preparation bytes p = bytes @ preparation_bytes p"
    by (simp add: append_preparation_def preparation_bytes_def sectors_bytes_def append_simps foldl_append Let_def)
qed (simp add: append_output_progress_def output_bytes_def append_simps Let_def)

interpretation sector: codec sector_bytes read_sector "\<lambda>s. length (cps_original_hash s) = 32"
proof
  show "read_sector (sector_bytes s @ rest) = Some (s, rest)" if "length (cps_original_hash s) = 32" for s rest
    using that by (simp add: read_sector_def sector_bytes_def u64.bind_encode array.bind_encode returnR_def)
  show "bytes = sector_bytes s @ rest \<and> length (cps_original_hash s) = 32"
    if "read_sector bytes = Some (s, rest)" for bytes s rest
    using that by (auto simp: read_sector_def u64.bind_decode array.bind_decode sector_bytes_def)
qed

interpretation sectors: codec sectors_bytes "read_sectors n"
  "\<lambda>ss. length ss = n \<and> (\<forall>s \<in> set ss. length (cps_original_hash s) = 32)" for n
proof
  show "read_sectors n (sectors_bytes ss @ rest) = Some (ss, rest)"
    if "length ss = n \<and> (\<forall>s \<in> set ss. length (cps_original_hash s) = 32)" for ss rest
    using that
  proof (induction ss arbitrary: n)
    case (Cons s ss)
    then show ?case
      by (cases n) (auto simp: sectors_bytes_def sector.bind_encode bindR_step returnR_def)
  qed (simp add: sectors_bytes_def returnR_def)
  show "bytes = sectors_bytes ss @ rest \<and> length ss = n \<and> (\<forall>s \<in> set ss. length (cps_original_hash s) = 32)"
    if "read_sectors n bytes = Some (ss, rest)" for bytes ss rest
    using that
  proof (induction n arbitrary: bytes ss)
    case (Suc n)
    from Suc.prems obtain s more ss' where s: "read_sector bytes = Some (s, more)"
      and ss': "read_sectors n more = Some (ss', rest)" "ss = s # ss'"
      by (auto simp: bindR_Some)
    from Suc.IH [OF ss'(1)] sector.encode_decode [OF s] ss'(2) show ?case
      by (simp add: sectors_bytes_def)
  qed (simp add: sectors_bytes_def)
qed

lemma length_sectors_bytes:
  "\<forall>s \<in> set ss. length (cps_original_hash s) = 32 \<Longrightarrow> length (sectors_bytes ss) = length ss * 48"
  by (induction ss) (simp_all add: sectors_bytes_def sector_bytes_def)

definition preparation_ok :: "preparation_evidence \<Rightarrow> bool" where
  "preparation_ok p \<longleftrightarrow>
     length (cpe_initial_layout_hash p) = 32 \<and> cpe_original_sectors p \<noteq> [] \<and>
     length (cpe_original_sectors p) \<le> kMaximumCheckpointPreparationSectors \<and>
     (\<forall>s \<in> set (cpe_original_sectors p). length (cps_original_hash s) = 32)"

text \<open>The preparation evidence must be the last block, so it is read with nothing behind it.\<close>

lemma read_preparation_bytes:
  assumes "preparation_ok p"
  shows "read_preparation (preparation_bytes p) = Some (p, [])"
proof -
  let ?ss = "cpe_original_sectors p"
  note ok = assms [unfolded preparation_ok_def]
  have n: "unat (of_nat (length ?ss) :: u32) = length ?ss" using ok by (intro unat_of_nat_u32) simp
  then have nz: "(of_nat (length ?ss) :: u32) \<noteq> 0" using ok by (metis length_0_conv unat_0)
  have "read_sectors (length ?ss) (sectors_bytes ?ss @ []) = Some (?ss, [])"
    by (rule sectors.decode_encode) (use ok in simp)
  then have "bindR (read_sectors (length ?ss)) f (sectors_bytes ?ss) = f ?ss []"
    for f :: "preparation_sector list \<Rightarrow> preparation_evidence reader"
    by (simp add: bindR_step)
  then show ?thesis
    using ok n nz length_sectors_bytes [of ?ss]
    by (simp add: read_preparation_def preparation_bytes_def array.bind_encode u32.bind_encode returnR_def)
qed

lemma read_preparation_Some:
  assumes "read_preparation bytes = Some (p, rest)"
  shows "bytes = preparation_bytes p \<and> rest = [] \<and> preparation_ok p"
proof -
  from assms obtain h ls n more ss b1 b2 where b1: "read_array 32 bytes = Some (h, b1)"
    and b2: "read_u32 b1 = Some (ls, b2)" and b3: "read_u32 b2 = Some (n, more)" and n: "n \<noteq> 0" "unat n \<le> kMaximumCheckpointPreparationSectors"
    and len: "length more = unat n * 48" and ss: "read_sectors (unat n) more = Some (ss, rest)"
    and p: "p = \<lparr>cpe_initial_layout_hash = h, cpe_logical_sector_size = ls, cpe_original_sectors = ss\<rparr>"
    by (auto simp: read_preparation_def bindR_Some not_less split: if_split_asm)
  have b: "bytes = h @ shifted_bytes 4 ls @ shifted_bytes 4 n @ more" "length h = 32"
    using array.encode_decode [OF b1] u32.encode_decode [OF b2] u32.encode_decode [OF b3] by simp_all
  from sectors.encode_decode [OF ss] have s: "more = sectors_bytes ss @ rest" "length ss = unat n"
    "\<forall>s \<in> set ss. length (cps_original_hash s) = 32" by auto
  have "rest = []" using length_sectors_bytes [OF s(3)] s(1,2) len by simp
  moreover have "ss \<noteq> []" using s(2) n(1) by (auto simp: unat_eq_zero)
  moreover have "(of_nat (length ss) :: u32) = n" using s(2) by simp
  ultimately show ?thesis
    using b n(2) s p by (simp add: preparation_bytes_def preparation_ok_def)
qed

interpretation progress: codec output_bytes read_output_progress "\<lambda>p. length (cpo_verified_prefix_hash p) = 32"
proof
  show "read_output_progress (output_bytes p @ rest) = Some (p, rest)"
    if "length (cpo_verified_prefix_hash p) = 32" for p rest
    using that
    by (simp add: read_output_progress_def output_bytes_def u64.bind_encode array.bind_encode returnR_def)
  show "bytes = output_bytes p @ rest \<and> length (cpo_verified_prefix_hash p) = 32"
    if "read_output_progress bytes = Some (p, rest)" for bytes p rest
    using that by (auto simp: read_output_progress_def u64.bind_decode array.bind_decode output_bytes_def)
qed

section \<open>Fixed fields\<close>

definition fixed_bytes :: "u8 \<Rightarrow> interruption_checkpoint \<Rightarrow> byte list" where
  "fixed_bytes flags c =
     [kind_byte (ic_kind c), environment_byte (ic_environment c), phase_byte (ic_phase c), flags] @
     shifted_bytes 4 (0 :: u32) @ shifted_bytes 8 (ic_revision c) @
     shifted_bytes 8 (ic_expected_work_bytes c) @ shifted_bytes 8 (ic_verified_work_bytes c) @
     shifted_bytes 8 (ic_verified_chunk_count c) @ ic_operation_id c @ ic_plan_hash c @
     ic_output_identity_hash c @ wstring_bytes (ic_continuity_token c)"

lemma byte_conversions:
  "known_kind k \<Longrightarrow> kind_of_byte (kind_byte k) = k"
  "known_environment e \<Longrightarrow> environment_of_byte (environment_byte e) = e"
  "checkpoint_phase_known p \<Longrightarrow> phase_of_byte (phase_byte p) = p"
  "kind_byte (kind_of_byte b) = b" "environment_byte (environment_of_byte b) = b"
  "phase_byte (phase_of_byte b) = b"
proof -
  show "known_kind k \<Longrightarrow> kind_of_byte (kind_byte k) = k"
    by (cases k) (simp_all add: kind_of_byte_def kind_byte_def known_kind_def)
  show "known_environment e \<Longrightarrow> environment_of_byte (environment_byte e) = e"
    by (cases e) (simp_all add: environment_of_byte_def environment_byte_def known_environment_def)
  show "checkpoint_phase_known p \<Longrightarrow> phase_of_byte (phase_byte p) = p"
    by (cases p) (simp_all add: phase_of_byte_def phase_byte_def checkpoint_phase_known_def)
qed (simp_all add: kind_of_byte_def kind_byte_def environment_of_byte_def environment_byte_def
  phase_of_byte_def phase_byte_def)

definition fixed_ok :: "interruption_checkpoint \<Rightarrow> bool" where
  "fixed_ok c \<longleftrightarrow>
     length (ic_operation_id c) = 16 \<and> length (ic_plan_hash c) = 32 \<and>
     length (ic_output_identity_hash c) = 32 \<and>
     length (ic_continuity_token c) \<le> kMaximumContinuityCharacters \<and> 0 \<notin> set (ic_continuity_token c)"

definition without_blocks :: "interruption_checkpoint \<Rightarrow> interruption_checkpoint" where
  "without_blocks c = c\<lparr>ic_source := None, ic_target := None, ic_preparation_evidence := None,
     ic_output_progress_evidence := None\<rparr>"

lemma read_fixed_bytes:
  assumes "fixed_ok c" "known_kind (ic_kind c)" "known_environment (ic_environment c)"
    "checkpoint_phase_known (ic_phase c)" "ic_schema_version c = minor_schema minor"
    "flags AND NOT (allowed_flags minor) = 0"
  shows "read_fixed_fields minor (fixed_bytes flags c @ rest) = Some ((flags, without_blocks c), rest)"
  using assms
  by (simp add: read_fixed_fields_def fixed_bytes_def fixed_ok_def u8.bind_encode [simplified]
    u32.bind_encode u64.bind_encode array.bind_encode wstring.bind_encode byte_conversions returnR_def
    without_blocks_def)

lemma read_fixed_Some:
  assumes "read_fixed_fields minor bytes = Some ((flags, c), rest)"
  shows "bytes = fixed_bytes flags c @ rest \<and> fixed_ok c \<and> ic_schema_version c = minor_schema minor \<and>
    flags AND NOT (allowed_flags minor) = 0"
  using assms
  by (auto simp: read_fixed_fields_def u8.bind_decode u32.bind_decode u64.bind_decode array.bind_decode
    wstring.bind_decode fixed_bytes_def fixed_ok_def byte_conversions split: if_split_asm)

lemma fixed_bytes_blocks [simp]:
  "fixed_bytes flags (without_blocks c) = fixed_bytes flags c"
  by (simp add: fixed_bytes_def without_blocks_def)

end
