(* ===== verification/CheckpointCorrect.thy ===== *)
theory CheckpointCorrect
  imports CheckpointCodec
begin

text \<open>
  What a checkpoint file is worth: it is read back as it was written, one checkpoint has one byte
  string, and every sequence of accepted updates keeps what identifies the operation and only moves
  forward.
\<close>

section \<open>The body\<close>

definition checkpoint_arrays :: "interruption_checkpoint \<Rightarrow> bool" where
  "checkpoint_arrays c \<longleftrightarrow>
     length (ic_operation_id c) = 16 \<and> length (ic_plan_hash c) = 32 \<and>
     length (ic_output_identity_hash c) = 32 \<and>
     (\<forall>p. ic_preparation_evidence c = Some p \<longrightarrow> length (cpe_initial_layout_hash p) = 32 \<and>
       (\<forall>s \<in> set (cpe_original_sectors p). length (cps_original_hash s) = 32)) \<and>
     (\<forall>p. ic_output_progress_evidence c = Some p \<longrightarrow> length (cpo_verified_prefix_hash p) = 32)"

definition optional_bytes :: "('a \<Rightarrow> byte list) \<Rightarrow> 'a option \<Rightarrow> byte list" where
  "optional_bytes encode x = (case x of None \<Rightarrow> [] | Some y \<Rightarrow> encode y)"

definition body_bytes :: "interruption_checkpoint \<Rightarrow> byte list" where
  "body_bytes c = fixed_bytes (checkpoint_flags c) c @ optional_bytes identity_bytes (ic_source c) @
     optional_bytes identity_bytes (ic_target c) @
     optional_bytes preparation_bytes (ic_preparation_evidence c) @
     optional_bytes output_bytes (ic_output_progress_evidence c)"

text \<open>What the checks of a valid checkpoint say about its blocks.\<close>

definition body_ok :: "u16 \<Rightarrow> interruption_checkpoint \<Rightarrow> bool" where
  "body_ok minor c \<longleftrightarrow> fixed_ok c \<and> ic_schema_version c = minor_schema minor \<and>
     checkpoint_flags c AND NOT (allowed_flags minor) = 0 \<and>
     identity_option_ok (ic_source c) \<and> identity_option_ok (ic_target c) \<and>
     (\<forall>p. ic_preparation_evidence c = Some p \<longrightarrow> preparation_ok p \<and> ic_output_progress_evidence c = None) \<and>
     (\<forall>p. ic_output_progress_evidence c = Some p \<longrightarrow> length (cpo_verified_prefix_hash p) = 32)"

lemma checkpoint_flag_bits:
  "checkpoint_flags c AND 0x01 \<noteq> 0 \<longleftrightarrow> ic_source c \<noteq> None"
  "checkpoint_flags c AND 0x02 \<noteq> 0 \<longleftrightarrow> ic_target c \<noteq> None"
  "checkpoint_flags c AND 0x04 \<noteq> 0 \<longleftrightarrow> ic_preparation_evidence c \<noteq> None"
  "checkpoint_flags c AND 0x08 \<noteq> 0 \<longleftrightarrow> ic_output_progress_evidence c \<noteq> None"
  by (simp_all add: checkpoint_flags_def)

lemma read_optional_encode:
  "(\<And>y. x = Some y \<Longrightarrow> m (encode y @ rest) = Some (y, rest)) \<Longrightarrow>
   read_optional (x \<noteq> None) m (optional_bytes encode x @ rest) = Some (x, rest)"
  by (cases x) (auto simp: read_optional_def optional_bytes_def returnR_def bindR_step)

lemma read_optional_Some:
  assumes "read_optional b m bytes = Some (x, rest)"
    and "\<And>y. m bytes = Some (y, rest) \<Longrightarrow> bytes = encode y @ rest \<and> ok y"
  shows "bytes = optional_bytes encode x @ rest \<and> (x \<noteq> None) = b \<and> (\<forall>y. x = Some y \<longrightarrow> ok y)"
  using assms by (auto simp: read_optional_def optional_bytes_def bindR_Some split: if_split_asm)

lemma identity_option_okD: "identity_option_ok x \<Longrightarrow> x = Some i \<Longrightarrow> identity_encodable i"
  by (simp add: identity_option_ok_def)

lemma read_body_bytes:
  assumes ok: "body_ok minor c"
    and known: "known_kind (ic_kind c)" "known_environment (ic_environment c)" "checkpoint_phase_known (ic_phase c)"
  shows "read_body minor (body_bytes c) = Some (c, [])"
proof -
  note ok = ok [unfolded body_ok_def]
  let ?out = "optional_bytes output_bytes (ic_output_progress_evidence c)"
  let ?prep = "optional_bytes preparation_bytes (ic_preparation_evidence c) @ ?out"
  have source: "read_optional (ic_source c \<noteq> None) read_identity (optional_bytes identity_bytes (ic_source c) @ rest) =
      Some (ic_source c, rest)" for rest
    by (rule read_optional_encode) (rule identity.decode_encode, use ok in \<open>blast intro: identity_option_okD\<close>)
  have target: "read_optional (ic_target c \<noteq> None) read_identity (optional_bytes identity_bytes (ic_target c) @ rest) =
      Some (ic_target c, rest)" for rest
    by (rule read_optional_encode) (rule identity.decode_encode, use ok in \<open>blast intro: identity_option_okD\<close>)
  have prep: "read_optional (ic_preparation_evidence c \<noteq> None) read_preparation ?prep =
      Some (ic_preparation_evidence c, ?out)"
    by (rule read_optional_encode) (use ok in \<open>auto simp: read_preparation_bytes optional_bytes_def\<close>)
  have out: "read_optional (ic_output_progress_evidence c \<noteq> None) read_output_progress (?out @ []) =
      Some (ic_output_progress_evidence c, [])"
    by (rule read_optional_encode) (rule progress.decode_encode, use ok in blast)
  have fixed: "read_fixed_fields minor (fixed_bytes (checkpoint_flags c) c @ rest) =
      Some ((checkpoint_flags c, without_blocks c), rest)" for rest
    by (rule read_fixed_bytes) (use ok known in auto)
  have all: "(without_blocks c)\<lparr>ic_source := ic_source c, ic_target := ic_target c,
      ic_preparation_evidence := ic_preparation_evidence c,
      ic_output_progress_evidence := ic_output_progress_evidence c\<rparr> = c"
    by (simp add: without_blocks_def)
  show ?thesis
    unfolding read_body_def body_bytes_def
    by (simp only: bindR_step fixed prod.case checkpoint_flag_bits source target prep
      out [unfolded append_Nil2] all returnR_def)
qed

lemma flag_cases:
  assumes "(flags :: u8) AND NOT (allowed_flags minor) = 0"
  shows "flags = (if flags AND 1 \<noteq> 0 then 1 else 0) OR (if flags AND 2 \<noteq> 0 then 2 else 0) OR
      (if flags AND 4 \<noteq> 0 then 4 else 0) OR (if flags AND 8 \<noteq> 0 then 8 else 0)"
    and "flags AND 4 \<noteq> 0 \<longrightarrow> flags AND 8 = 0"
proof -
  let ?m = "allowed_flags minor"
  have "flags AND ?m = flags"
  proof (rule bit_word_eqI)
    fix n assume n: "n < LENGTH(8)"
    have "\<not> bit (flags AND NOT ?m) n" using assms by simp
    then show "bit (flags AND ?m) n = bit flags n" using n by (auto simp: bit_simps)
  qed
  then have "flags \<le> ?m" by (metis word_and_le1)
  moreover have "?m \<le> 11" by (simp add: allowed_flags_def)
  ultimately have "flags \<le> 11" by (rule order_trans)
  then have "unat flags < 16" by (simp add: word_le_nat_alt)
  then have "unat flags \<in> {0, 1, 2, 3, 4, 5, 6, 7, 8, 9, 10, 11, 12, 13, 14, 15}"
    unfolding insert_iff empty_iff by presburger
  then have e: "flags \<in> {0, 1, 2, 3, 4, 5, 6, 7, 8, 9, 10, 11, 12, 13, 14, 15}"
    by (auto simp: word_unat_eq_iff)
  then show "flags = (if flags AND 1 \<noteq> 0 then 1 else 0) OR (if flags AND 2 \<noteq> 0 then 2 else 0) OR
      (if flags AND 4 \<noteq> 0 then 4 else 0) OR (if flags AND 8 \<noteq> 0 then 8 else 0)"
    by auto
  show "flags AND 4 \<noteq> 0 \<longrightarrow> flags AND 8 = 0"
    using e assms by (auto simp: allowed_flags_def split: if_split_asm)
qed

lemma read_body_Some:
  assumes "read_body minor bytes = Some (c, [])"
  shows "bytes = body_bytes c \<and> body_ok minor c"
proof -
  from assms obtain flags c0 src tgt prep out b1 b2 b3 b4
    where f: "read_fixed_fields minor bytes = Some ((flags, c0), b1)"
      and s: "read_optional (flags AND 0x01 \<noteq> 0) read_identity b1 = Some (src, b2)"
      and t: "read_optional (flags AND 0x02 \<noteq> 0) read_identity b2 = Some (tgt, b3)"
      and p: "read_optional (flags AND 0x04 \<noteq> 0) read_preparation b3 = Some (prep, b4)"
      and q: "read_optional (flags AND 0x08 \<noteq> 0) read_output_progress b4 = Some (out, [])"
      and c: "c = c0\<lparr>ic_source := src, ic_target := tgt, ic_preparation_evidence := prep,
        ic_output_progress_evidence := out\<rparr>"
    by (auto simp: read_body_def bindR_Some)
  note f' = read_fixed_Some [OF f]
  note s' = read_optional_Some [where encode = identity_bytes and ok = identity_encodable, OF s identity.encode_decode]
  note t' = read_optional_Some [where encode = identity_bytes and ok = identity_encodable, OF t identity.encode_decode]
  have "bytes' = preparation_bytes y @ rest \<and> (preparation_ok y \<and> rest = [])"
    if "read_preparation bytes' = Some (y, rest)" for bytes' y rest
    using read_preparation_Some [OF that] by simp
  note p' = read_optional_Some [where encode = preparation_bytes and ok = "\<lambda>y. preparation_ok y \<and> b4 = []", OF p this]
  note q' = read_optional_Some [where encode = output_bytes and ok = "\<lambda>p. length (cpo_verified_prefix_hash p) = 32",
    OF q progress.encode_decode]
  have blocks: "ic_source c = src" "ic_target c = tgt" "ic_preparation_evidence c = prep"
    "ic_output_progress_evidence c = out" "ic_schema_version c = ic_schema_version c0" "fixed_ok c = fixed_ok c0"
    "fixed_bytes flags c = fixed_bytes flags c0"
    by (simp_all add: c fixed_ok_def fixed_bytes_def)
  have flags: "checkpoint_flags c = flags"
    unfolding checkpoint_flags_def blocks
    using flag_cases(1) [of flags minor] f' s' t' p' q' by simp
  have bytes: "bytes = body_bytes c"
    using f' s' t' p' q' by (simp add: body_bytes_def blocks flags)
  have out: "out = None" if "prep = Some y" for y
    using that flag_cases(2) [of flags minor] f' p' q' by auto
  have "body_ok minor c"
    unfolding body_ok_def blocks flags
    using f' s' t' p' q' out by (auto simp: identity_option_ok_def split: option.split)
  with bytes show ?thesis by simp
qed

section \<open>The file\<close>

definition header_bytes :: "u16 \<Rightarrow> nat \<Rightarrow> byte list" where
  "header_bytes minor total_bytes =
     kCheckpointMagic @ shifted_bytes 2 (1 :: u16) @ shifted_bytes 2 minor @
     shifted_bytes 4 (of_nat total_bytes :: u32)"

lemma length_header [simp]: "length (header_bytes minor n) = 16"
  by (simp add: header_bytes_def kCheckpointMagic_def)

lemma read_header_bytes:
  assumes "minor = 0 \<or> minor = 1 \<or> minor = 2" "n < 2 ^ 32"
  shows "read_header n (header_bytes minor n @ rest) = Some (minor, rest)"
proof -
  have "unat (of_nat n :: u32) = n" using assms(2) by (intro unat_of_nat_u32) simp
  moreover have "length kCheckpointMagic = 8" by (simp add: kCheckpointMagic_def)
  ultimately show ?thesis
    using assms(1)
    by (auto simp: read_header_def header_bytes_def array.bind_encode u16.bind_encode u32.bind_encode returnR_def)
qed

lemma read_header_Some:
  assumes "read_header n bytes = Some (minor, rest)"
  shows "bytes = header_bytes minor n @ rest \<and> (minor = 0 \<or> minor = 1 \<or> minor = 2)"
  using assms
  by (auto simp: read_header_def header_bytes_def array.bind_decode u16.bind_decode u32.bind_decode
    split: if_split_asm)

lemma checkpoint_payload_eq:
  "checkpoint_payload c = header_bytes (schema_minor (ic_schema_version c)) 0 @ body_bytes c"
  by (simp add: checkpoint_payload_def header_bytes_def body_bytes_def fixed_bytes_def optional_bytes_def
    append_simps optional_identity_bytes_def Let_def split: option.split)

lemma set_u32_eq:
  assumes "offset + 4 \<le> length bytes"
  shows "set_u32 bytes offset v = take offset bytes @ shifted_bytes 4 v @ drop (offset + 4) bytes"
proof -
  obtain xs a b c d ys where "bytes = xs @ [a, b, c, d] @ ys" "length xs = offset"
  proof
    show "bytes = take offset bytes @ [bytes ! offset, bytes ! (offset + 1), bytes ! (offset + 2),
        bytes ! (offset + 3)] @ drop (offset + 4) bytes"
      using assms by (simp add: Cons_nth_drop_Suc numeral_eq_Suc flip: id_take_nth_drop)
  qed (use assms in simp)
  then show ?thesis
    by (simp add: set_u32_def shifted_bytes_def upt_rec numeral_eq_Suc list_update_append)
qed

lemma set_total_size:
  "set_u32 (header_bytes minor m @ rest) kTotalSizeOffset (of_nat n) = header_bytes minor n @ rest"
proof -
  have "take 12 (header_bytes minor m) = kCheckpointMagic @ shifted_bytes 2 (1 :: u16) @ shifted_bytes 2 minor"
    by (simp add: header_bytes_def kCheckpointMagic_def)
  moreover have "drop 16 (header_bytes minor m @ rest) = rest" by simp
  ultimately show ?thesis
    by (subst set_u32_eq) (simp_all add: header_bytes_def kCheckpointMagic_def)
qed

text \<open>A provider that always answers, and with the 32 bytes of one hash function.\<close>

definition hash_provider :: "'s cng_api \<Rightarrow> (byte list \<Rightarrow> byte list) \<Rightarrow> bool" where
  "hash_provider cng H \<longleftrightarrow> (\<forall>bytes s. \<exists>t. sha256 cng bytes s = (Inr (H bytes), t) \<and> length (H bytes) = 32)"

definition checkpoint_file :: "(byte list \<Rightarrow> byte list) \<Rightarrow> interruption_checkpoint \<Rightarrow> byte list" where
  "checkpoint_file H c =
     (let signed = header_bytes (schema_minor (ic_schema_version c)) (48 + length (body_bytes c)) @ body_bytes c
      in signed @ H signed)"

lemma minor_schema_minor:
  "v = 1 \<or> v = 2 \<or> v = 3 \<Longrightarrow> minor_schema (schema_minor v) = v"
  "m = 0 \<or> m = 1 \<or> m = 2 \<Longrightarrow> schema_minor (minor_schema m) = m"
  by (auto simp: minor_schema_def schema_minor_def)

lemma valid_checkpoint:
  assumes "validate_checkpoint c = success_status"
  shows "ic_schema_version c = 1 \<or> ic_schema_version c = 2 \<or> ic_schema_version c = 3"
    "checkpoint_phase_known (ic_phase c)" "valid_continuity_token (ic_continuity_token c)"
    "validate_preparation_evidence c = success_status" "validate_output_progress_evidence c = success_status"
    "validate_operation_plan (checkpoint_plan_shape c) = success_status"
    "ic_verified_work_bytes c \<le> ic_expected_work_bytes c"
    "ic_phase c = Cp_preparing \<Longrightarrow> ic_verified_work_bytes c = 0 \<and> ic_verified_chunk_count c = 0"
    "ic_phase c = Cp_commit_ready \<Longrightarrow> ic_verified_work_bytes c = ic_expected_work_bytes c"
  using assms
  by (auto simp: validate_checkpoint_def result_case_Inr not_less split: if_split_asm)

lemma valid_preparation:
  assumes "validate_preparation_evidence c = success_status" "ic_preparation_evidence c = Some p"
  shows "ic_schema_version c = 2" "cpe_original_sectors p \<noteq> []"
    "length (cpe_original_sectors p) \<le> kMaximumCheckpointPreparationSectors"
  using assms
  by (auto simp: validate_preparation_evidence_def Let_def not_less split: if_split_asm option.split_asm)

lemma valid_output:
  assumes "validate_output_progress_evidence c = success_status"
  shows "(ic_output_progress_evidence c \<noteq> None) = (ic_schema_version c = 3)"
  using assms by (auto simp: validate_output_progress_evidence_def Let_def split: if_split_asm)

lemma valid_body_ok:
  assumes valid: "validate_checkpoint c = success_status" and arrays: "checkpoint_arrays c"
  shows "body_ok (schema_minor (ic_schema_version c)) c"
proof -
  note v = valid_checkpoint [OF valid]
  have ids: "identity_option_ok (ic_source c)" "identity_option_ok (ic_target c)"
    using valid_plan_identities [OF v(6)] by (simp_all add: checkpoint_plan_shape_def)
  have token: "length (ic_continuity_token c) \<le> 512 \<and> 0 \<notin> set (ic_continuity_token c)"
    using v(3) by (auto simp: valid_continuity_token_def list_ex_iff)
  have prep: "preparation_ok p \<and> ic_output_progress_evidence c = None"
    if "ic_preparation_evidence c = Some p" for p
    using valid_preparation [OF v(4) that] valid_output [OF v(5)] arrays that
    by (auto simp: preparation_ok_def checkpoint_arrays_def)
  have "ic_preparation_evidence c \<noteq> None \<Longrightarrow> ic_schema_version c = 2"
    using valid_preparation [OF v(4)] by auto
  then have flags: "checkpoint_flags c AND NOT (allowed_flags (schema_minor (ic_schema_version c))) = 0"
    using v(1) valid_output [OF v(5)]
    by (auto simp: checkpoint_flags_def allowed_flags_def schema_minor_def)
  show ?thesis
    using ids token prep flags arrays v(1)
    by (auto simp: body_ok_def fixed_ok_def checkpoint_arrays_def minor_schema_minor)
qed

lemma valid_known:
  assumes "validate_checkpoint c = success_status"
  shows "known_kind (ic_kind c)" "known_environment (ic_environment c)" "checkpoint_phase_known (ic_phase c)"
  using valid_plan [OF valid_checkpoint(6) [OF assms]] valid_checkpoint(2) [OF assms]
  by (simp_all add: checkpoint_plan_shape_def)

lemma length_payload: "length (checkpoint_payload c) = 16 + length (body_bytes c)"
  by (simp add: checkpoint_payload_eq)

lemma length_body_ge: "fixed_ok c \<Longrightarrow> 124 \<le> length (body_bytes c)"
  by (simp add: body_bytes_def fixed_bytes_def fixed_ok_def wstring_bytes_def)

lemma serialize_checkpoint_file:
  assumes H: "hash_provider cng H" and valid: "validate_checkpoint c = success_status"
    and fits: "48 + length (body_bytes c) \<le> kMaximumCheckpointBytes"
  shows "\<exists>t. serialize_checkpoint cng c s = (Inr (checkpoint_file H c), t)"
proof -
  let ?signed = "header_bytes (schema_minor (ic_schema_version c)) (48 + length (body_bytes c)) @ body_bytes c"
  obtain t where t: "sha256 cng ?signed s = (Inr (H ?signed), t)" using H unfolding hash_provider_def by blast
  have "set_u32 (checkpoint_payload c) kTotalSizeOffset (of_nat (length (checkpoint_payload c) + kDigestBytes)) = ?signed"
    unfolding length_payload unfolding checkpoint_payload_eq set_total_size by (simp add: add.commute)
  then show ?thesis
    using fits t valid
    by (auto simp: serialize_checkpoint_def Let_def length_payload checkpoint_file_def append_simps
      bindE_Inr returnE_def)
qed

lemma serialize_checkpoint_success:
  assumes H: "hash_provider cng H" and run: "serialize_checkpoint cng c s = (Inr bytes, t)"
  shows "validate_checkpoint c = success_status" "bytes = checkpoint_file H c"
    "48 + length (body_bytes c) \<le> kMaximumCheckpointBytes"
proof -
  show v: "validate_checkpoint c = success_status" and l: "48 + length (body_bytes c) \<le> kMaximumCheckpointBytes"
    using run by (auto simp: serialize_checkpoint_def bindE_eq_Inr Let_def length_payload split: if_split_asm)
  from serialize_checkpoint_file [OF H v l, of s] run show "bytes = checkpoint_file H c" by auto
qed

lemma length_checkpoint_file:
  "hash_provider cng H \<Longrightarrow> length (checkpoint_file H c) = 48 + length (body_bytes c)"
  unfolding hash_provider_def checkpoint_file_def Let_def by (auto dest!: spec)

lemma parse_checkpoint_file:
  assumes H: "hash_provider cng H" and valid: "validate_checkpoint c = success_status"
    and arrays: "checkpoint_arrays c" and fits: "48 + length (body_bytes c) \<le> kMaximumCheckpointBytes"
  shows "\<exists>t. parse_checkpoint cng (checkpoint_file H c) s =
    (Inr \<lparr>pc_checkpoint = c,
      pc_record_hash = H (take (16 + length (body_bytes c)) (checkpoint_file H c))\<rparr>, t)"
proof -
  let ?m = "schema_minor (ic_schema_version c)" and ?n = "48 + length (body_bytes c)"
  let ?signed = "header_bytes ?m ?n @ body_bytes c"
  note ok = valid_body_ok [OF valid arrays]
  have min: "172 \<le> ?n" using ok length_body_ge by (fastforce simp: body_ok_def)
  obtain t where t: "sha256 cng ?signed s = (Inr (H ?signed), t)" and h: "length (H ?signed) = 32"
    using H unfolding hash_provider_def by blast
  have len: "length (checkpoint_file H c) = ?n" by (rule length_checkpoint_file [OF H])
  have split: "take (?n - 32) (checkpoint_file H c) = ?signed" "drop (?n - 32) (checkpoint_file H c) = H ?signed"
    by (simp_all add: checkpoint_file_def Let_def)
  have m: "?m = 0 \<or> ?m = 1 \<or> ?m = 2" by (simp add: schema_minor_def)
  have "?n < 2 ^ 32" using fits by simp
  from read_header_bytes [OF m this] have head: "read_header ?n ?signed = Some (?m, body_bytes c)" .
  have body: "read_body ?m (body_bytes c) = Some (c, [])" by (rule read_body_bytes [OF ok valid_known [OF valid]])
  have take: "take (16 + length (body_bytes c)) (checkpoint_file H c) = ?signed"
    by (simp add: checkpoint_file_def Let_def)
  have "digest_equal (H ?signed) (H ?signed)" by (simp add: digest_equal_iff)
  then show ?thesis
    using min fits valid t
    unfolding parse_checkpoint_def len Let_def split take head
    by (simp add: body)
qed

lemma parse_checkpoint_success:
  assumes H: "hash_provider cng H" and run: "parse_checkpoint cng bytes s = (Inr p, t)"
  shows "validate_checkpoint (pc_checkpoint p) = success_status \<and> checkpoint_arrays (pc_checkpoint p) \<and>
    bytes = checkpoint_file H (pc_checkpoint p) \<and> length bytes \<le> kMaximumCheckpointBytes"
proof -
  let ?pay = "take (length bytes - 32) bytes" and ?stored = "drop (length bytes - 32) bytes"
  obtain u where u: "sha256 cng ?pay s = (Inr (H ?pay), u)" and h: "length (H ?pay) = 32"
    using H unfolding hash_provider_def by blast
  from run have len: "172 \<le> length bytes" "length bytes \<le> kMaximumCheckpointBytes"
    by (auto simp: parse_checkpoint_def not_less split: if_split_asm)
  from run len u obtain minor rest c where head: "read_header (length bytes) ?pay = Some (minor, rest)"
    and eq: "digest_equal (H ?pay) ?stored" and body: "read_body minor rest = Some (c, [])"
    and valid: "validate_checkpoint c = success_status" and p: "pc_checkpoint p = c"
    by (auto simp: parse_checkpoint_def Let_def split: option.split_asm prod.split_asm if_split_asm sum.split_asm)
  have stored: "?stored = H ?pay" using eq h len(1) by (simp add: digest_equal_iff)
  note b = read_body_Some [OF body] and hd = read_header_Some [OF head]
  have ok: "body_ok minor c" and rest: "rest = body_bytes c" using b by simp_all
  have m: "schema_minor (ic_schema_version c) = minor"
    using ok hd minor_schema_minor(2) [of minor] by (simp add: body_ok_def)
  have pay: "?pay = header_bytes minor (length bytes) @ body_bytes c" using hd rest by simp
  have "length ?pay = 16 + length (body_bytes c)" using pay by (metis length_append length_header)
  then have n: "length bytes = 48 + length (body_bytes c)" using len(1) by simp
  have "checkpoint_file H c = ?pay @ H ?pay"
    unfolding pay by (simp add: checkpoint_file_def m n Let_def)
  also have "\<dots> = bytes" unfolding stored [symmetric] by simp
  finally have "bytes = checkpoint_file H c" by (rule sym)
  moreover have "checkpoint_arrays c"
    using ok by (auto simp: body_ok_def fixed_ok_def checkpoint_arrays_def preparation_ok_def)
  ultimately show ?thesis using valid len(2) p by simp
qed

section \<open>Sequences of updates\<close>

text \<open>\<open>checkpoint_updates c n d\<close>: \<open>n\<close> accepted updates lead from \<open>c\<close> to \<open>d\<close>.\<close>

inductive checkpoint_updates :: "interruption_checkpoint \<Rightarrow> nat \<Rightarrow> interruption_checkpoint \<Rightarrow> bool" where
  no_update: "checkpoint_arrays c \<Longrightarrow> checkpoint_updates c 0 c"
| one_update: "checkpoint_updates c n d \<Longrightarrow> checkpoint_arrays e \<Longrightarrow>
    validate_checkpoint_transition d e = success_status \<Longrightarrow> checkpoint_updates c (Suc n) e"

definition phase_rank :: "checkpoint_phase \<Rightarrow> nat" where
  "phase_rank phase =
     (case phase of Cp_executing \<Rightarrow> 0 | Cp_verifying \<Rightarrow> 1 | Cp_preparing \<Rightarrow> 1 | Cp_prepared \<Rightarrow> 2
      | Cp_commit_ready \<Rightarrow> 3 | Cp_unknown n \<Rightarrow> 0)"

text \<open>What identifies the operation; the disk number is not part of a disk's identity.\<close>

definition same_operation :: "interruption_checkpoint \<Rightarrow> interruption_checkpoint \<Rightarrow> bool" where
  "same_operation c d \<longleftrightarrow>
     ic_operation_id d = ic_operation_id c \<and> ic_kind d = ic_kind c \<and>
     ic_environment d = ic_environment c \<and> ic_expected_work_bytes d = ic_expected_work_bytes c \<and>
     ic_plan_hash d = ic_plan_hash c \<and> ic_output_identity_hash d = ic_output_identity_hash c \<and>
     optional_identity_equal (ic_source c) (ic_source d) \<and>
     optional_identity_equal (ic_target c) (ic_target d) \<and>
     ic_continuity_token d = ic_continuity_token c"

definition progress_of :: "interruption_checkpoint \<Rightarrow> nat" where
  "progress_of c =
     unat (ic_verified_work_bytes c) + unat (ic_verified_chunk_count c) + phase_rank (ic_phase c)"

lemma optional_identity_equal_refl: "optional_identity_equal x x"
  by (cases x) (simp_all add: optional_identity_equal_def identity_equal_def)

lemma optional_identity_equal_trans:
  "optional_identity_equal x y \<Longrightarrow> optional_identity_equal y z \<Longrightarrow> optional_identity_equal x z"
  by (cases x; cases y; cases z) (simp_all add: optional_identity_equal_def identity_equal_def)

lemma same_operation_refl: "same_operation c c"
  by (simp add: same_operation_def optional_identity_equal_refl)

lemma same_operation_trans: "same_operation c d \<Longrightarrow> same_operation d e \<Longrightarrow> same_operation c e"
  by (auto simp: same_operation_def intro: optional_identity_equal_trans)

lemma operation_id_equal_iff: "length l = length r \<Longrightarrow> operation_id_equal l r \<longleftrightarrow> l = r"
  using digest_equal_iff [of l r] by (simp add: digest_equal_def operation_id_equal_def)

text \<open>One update.\<close>

lemma transition_success:
  assumes "validate_checkpoint_transition c d = success_status" "checkpoint_arrays c" "checkpoint_arrays d"
  shows "validate_checkpoint c = success_status" "validate_checkpoint d = success_status" "same_operation c d"
    "unat (ic_revision d) = unat (ic_revision c) + 1"
    "ic_verified_work_bytes c \<le> ic_verified_work_bytes d" "ic_verified_chunk_count c \<le> ic_verified_chunk_count d"
    "allowed_phase_transition c d"
proof -
  note defs = validate_checkpoint_transition_def result_case_Inr Let_def not_less
  show "validate_checkpoint c = success_status" "validate_checkpoint d = success_status"
    using assms(1) by (auto simp: defs)
  show "ic_verified_work_bytes c \<le> ic_verified_work_bytes d" "ic_verified_chunk_count c \<le> ic_verified_chunk_count d"
    "allowed_phase_transition c d"
    using assms(1) by (auto simp: defs split: if_split_asm)
  have "ic_revision c \<noteq> u64_max" and rev: "ic_revision d = ic_revision c + 1"
    using assms(1) by (auto simp: defs split: if_split_asm)
  then have "unat (ic_revision c) \<noteq> 18446744073709551615" by (simp add: word_unat_eq_iff)
  then have "unat (ic_revision c) + 1 < 2 ^ 64" using unat_u64_bound [of "ic_revision c"] by simp
  then show "unat (ic_revision d) = unat (ic_revision c) + 1" unfolding rev by (subst unat_add_u64) simp_all
  have "operation_id_equal (ic_operation_id c) (ic_operation_id d)" "ic_kind c = ic_kind d"
    "ic_environment c = ic_environment d" "ic_expected_work_bytes c = ic_expected_work_bytes d"
    "digest_equal (ic_plan_hash c) (ic_plan_hash d)"
    "digest_equal (ic_output_identity_hash c) (ic_output_identity_hash d)"
    "optional_identity_equal (ic_source c) (ic_source d)" "optional_identity_equal (ic_target c) (ic_target d)"
    "ic_continuity_token c = ic_continuity_token d"
    using assms(1) by (auto simp: defs split: if_split_asm)
  then show "same_operation c d"
    using assms(2,3) by (simp add: same_operation_def operation_id_equal_iff digest_equal_iff checkpoint_arrays_def)
qed

lemma transition_moves:
  assumes "allowed_phase_transition c d" "ic_verified_work_bytes c \<le> ic_verified_work_bytes d"
    "ic_verified_chunk_count c \<le> ic_verified_chunk_count d"
  shows "phase_rank (ic_phase c) \<le> phase_rank (ic_phase d) \<and> progress_of c < progress_of d \<and>
    ic_phase c \<noteq> Cp_commit_ready"
  using assms
  by (cases "ic_phase c") (auto simp: allowed_phase_transition_def phase_rank_def progress_of_def
    advanced_progress_def same_progress_def legacy_schema_upgrade_def word_le_nat_alt word_less_nat_alt)

lemma checkpoint_updates_arrays: "checkpoint_updates c n d \<Longrightarrow> checkpoint_arrays d"
  by (induction rule: checkpoint_updates.induct)

inductive_cases checkpoint_updatesE: "checkpoint_updates c n d"

section \<open>A concrete checkpoint\<close>

definition sample_checkpoint :: "u64 \<Rightarrow> u64 \<Rightarrow> interruption_checkpoint" where
  "sample_checkpoint revision verified =
     \<lparr>ic_schema_version = 1, ic_operation_id = replicate 16 7, ic_kind = Image_restore,
      ic_environment = Winpe, ic_phase = Cp_executing, ic_revision = revision,
      ic_expected_work_bytes = 4096, ic_verified_work_bytes = verified,
      ic_verified_chunk_count = (if verified = 0 then 0 else 1), ic_plan_hash = replicate 32 9,
      ic_output_identity_hash = replicate 32 5, ic_source = None, ic_target = Some sample_disk,
      ic_continuity_token = [112, 101], ic_preparation_evidence = None,
      ic_output_progress_evidence = None\<rparr>"

lemma sample_provider: "hash_provider sample_cng checksum"
  by (simp add: hash_provider_def sample_sha256 checksum_def)

lemma sample_checkpoint_arrays: "checkpoint_arrays (sample_checkpoint r v)"
  by (simp add: checkpoint_arrays_def sample_checkpoint_def)

lemma sample_checkpoint_valid:
  assumes "r \<noteq> 0" "v \<le> 4096"
  shows "validate_checkpoint (sample_checkpoint r v) = success_status"
proof -
  have "validate_operation_plan (checkpoint_plan_shape (sample_checkpoint r v)) =
      validate_operation_plan sample_plan"
    by (simp add: checkpoint_plan_shape_def sample_checkpoint_def sample_plan_def)
  then show ?thesis
    using assms sample_plan_valid
    by (simp add: validate_checkpoint_def sample_checkpoint_def checkpoint_phase_known_def
      digest_is_zero_iff valid_continuity_token_def validate_preparation_evidence_def
      validate_output_progress_evidence_def legacy_checkpoint_phase_def preparation_checkpoint_phase_def
      Let_def not_less)
qed

lemma sample_serialized:
  "\<exists>bytes t. serialize_checkpoint sample_cng (sample_checkpoint 1 0) s = (Inr bytes, t)"
proof -
  have "48 + length (body_bytes (sample_checkpoint 1 0)) \<le> kMaximumCheckpointBytes"
    by (simp add: body_bytes_def fixed_bytes_def sample_checkpoint_def optional_bytes_def identity_bytes_def
      sample_disk_def wstring_bytes_def string_bytes_def)
  from serialize_checkpoint_file [OF sample_provider sample_checkpoint_valid this, of s] show ?thesis by auto
qed

lemma sample_checkpoint_update:
  "validate_checkpoint_transition (sample_checkpoint 1 0) (sample_checkpoint 2 4096) = success_status"
proof -
  have "digest_equal (replicate 32 x) (replicate 32 x)" for x by (simp add: digest_equal_iff)
  moreover have "operation_id_equal (replicate 16 7) (replicate 16 7)" by (simp add: operation_id_equal_iff)
  moreover have "allowed_phase_transition (sample_checkpoint 1 0) (sample_checkpoint 2 4096)"
    by (simp add: allowed_phase_transition_def advanced_progress_def sample_checkpoint_def)
  ultimately show ?thesis
    using sample_checkpoint_valid [of 1 0] sample_checkpoint_valid [of 2 4096]
    by (simp add: validate_checkpoint_transition_def Let_def optional_identity_equal_refl sample_checkpoint_def)
qed

section \<open>Properties\<close>

text \<open>What was written is read back: parsing the bytes of a serialized checkpoint gives the same
  checkpoint, in every field, and the hash at its end as the record hash.\<close>

theorem checkpoint_roundtrip:
  assumes "hash_provider cng H" "checkpoint_arrays c" "serialize_checkpoint cng c s = (Inr bytes, t)"
  shows "\<exists>u. parse_checkpoint cng bytes s' =
    (Inr \<lparr>pc_checkpoint = c, pc_record_hash = H (take (length bytes - 32) bytes)\<rparr>, u)"
proof -
  note ser = serialize_checkpoint_success [OF assms(1,3)]
  have "length bytes - 32 = 16 + length (body_bytes c)"
    using length_checkpoint_file [OF assms(1)] ser(2) by simp
  then show ?thesis
    using parse_checkpoint_file [OF assms(1) ser(1) assms(2) ser(3), of s'] ser(2) by simp
qed

theorem checkpoint_roundtrip_witness:
  "\<exists>bytes t u h. serialize_checkpoint sample_cng (sample_checkpoint 1 0) ([], 0) = (Inr bytes, t) \<and>
    parse_checkpoint sample_cng bytes t = (Inr \<lparr>pc_checkpoint = sample_checkpoint 1 0, pc_record_hash = h\<rparr>, u)"
proof -
  obtain bytes t where b: "serialize_checkpoint sample_cng (sample_checkpoint 1 0) ([], 0) = (Inr bytes, t)"
    using sample_serialized by blast
  from checkpoint_roundtrip [OF sample_provider sample_checkpoint_arrays b, of t] b show ?thesis by blast
qed

text \<open>C8. A checkpoint has one byte string: whatever bytes are accepted, they are a valid checkpoint and
  exactly what serializing it again gives, so no second file stands for the same checkpoint.\<close>

theorem parse_checkpoint_canonical:
  assumes "hash_provider cng H" "parse_checkpoint cng bytes s = (Inr p, t)"
  shows "validate_checkpoint (pc_checkpoint p) = success_status \<and>
    (\<exists>u. serialize_checkpoint cng (pc_checkpoint p) s' = (Inr bytes, u))"
proof -
  note ok = parse_checkpoint_success [OF assms]
  then have "48 + length (body_bytes (pc_checkpoint p)) \<le> kMaximumCheckpointBytes"
    using length_checkpoint_file [OF assms(1), of "pc_checkpoint p"] by auto
  from serialize_checkpoint_file [OF assms(1) _ this, of s'] ok show ?thesis by auto
qed

theorem parse_checkpoint_canonical_witness:
  "\<exists>bytes p t u. parse_checkpoint sample_cng bytes ([], 0) = (Inr p, t) \<and>
    serialize_checkpoint sample_cng (pc_checkpoint p) ([], 0) = (Inr bytes, u)"
proof -
  have "48 + length (body_bytes (sample_checkpoint 1 0)) \<le> kMaximumCheckpointBytes"
    using sample_serialized serialize_checkpoint_success(3) [OF sample_provider] by blast
  from parse_checkpoint_file [OF sample_provider sample_checkpoint_valid sample_checkpoint_arrays this,
      of "([], 0)"]
  obtain p t where
    "parse_checkpoint sample_cng (checkpoint_file checksum (sample_checkpoint 1 0)) ([], 0) = (Inr p, t)"
    by auto
  with parse_checkpoint_canonical [OF sample_provider this, of "([], 0)"] show ?thesis by blast
qed

text \<open>C9. Any number of accepted updates keeps what identifies the operation, counts the revision up by
  one each, never takes progress back, never leaves the final phase, and none of them is idle: there
  are at most as many updates as bytes, chunks and phases gained.\<close>

theorem checkpoint_updates_progress:
  assumes "checkpoint_updates c n d"
  shows "same_operation c d \<and> unat (ic_revision d) = unat (ic_revision c) + n \<and>
    ic_verified_work_bytes c \<le> ic_verified_work_bytes d \<and>
    ic_verified_chunk_count c \<le> ic_verified_chunk_count d \<and>
    phase_rank (ic_phase c) \<le> phase_rank (ic_phase d) \<and>
    n + progress_of c \<le> progress_of d \<and>
    (ic_phase c = Cp_commit_ready \<longrightarrow> n = 0) \<and>
    (0 < n \<longrightarrow> ic_verified_work_bytes d \<le> ic_expected_work_bytes d \<and>
      (ic_phase d = Cp_commit_ready \<longrightarrow> ic_verified_work_bytes d = ic_expected_work_bytes d))"
  using assms
proof induction
  case (no_update c)
  show ?case by (simp add: same_operation_refl)
next
  case (one_update c n d e)
  note t = transition_success [OF one_update.hyps(3) checkpoint_updates_arrays [OF one_update.hyps(1)]
      one_update.hyps(2)]
  note moves = transition_moves [OF t(7,5,6)]
  have "ic_phase c \<noteq> Cp_commit_ready"
    using one_update.IH moves one_update.hyps(1) by (auto elim: checkpoint_updatesE)
  then show ?case
    using one_update.IH t moves same_operation_trans [OF _ t(3), of c] valid_checkpoint(7,9) [OF t(2)]
    by auto
qed

theorem checkpoint_updates_progress_witness:
  "checkpoint_updates (sample_checkpoint 1 0) 1 (sample_checkpoint 2 4096) \<and>
    same_operation (sample_checkpoint 1 0) (sample_checkpoint 2 4096)"
proof -
  from one_update [OF no_update [OF sample_checkpoint_arrays] sample_checkpoint_arrays sample_checkpoint_update]
  have "checkpoint_updates (sample_checkpoint 1 0) (Suc 0) (sample_checkpoint 2 4096)" .
  with checkpoint_updates_progress [OF this] show ?thesis by simp
qed

end
