(* ===== verification/CheckpointStore.thy ===== *)
theory CheckpointStore
  imports CheckpointCorrect "HOL-Library.Sublist"
begin

text \<open>
  The file that holds one checkpoint (\<open>OperationCore/src/checkpoint.cpp\<close>, from \<open>validate_path\<close> on):
  the checks of its path, reading it, and creating, replacing and discarding it through a staged
  file that is written, flushed and read back before it takes the place of the checkpoint.

  The Windows file functions are a parameter of the model, one field of \<open>checkpoint_files\<close> each.  A
  failing call gives its \<open>GetLastError\<close>; \<open>ReadFile\<close> and \<open>WriteFile\<close> give their result, what they
  transferred and the last error, because the source reads it after a short transfer as well.
\<close>

type_synonym ('s, 'a) os_call = "'s \<Rightarrow> (u32 + 'a) \<times> 's"

record 's checkpoint_files =
  cf_iswalpha :: "u16 \<Rightarrow> bool"
  cf_equal_ordinal_ignore_case :: "wide_string \<Rightarrow> wide_string \<Rightarrow> bool"
  cf_get_attributes :: "wide_string \<Rightarrow> ('s, u32) os_call"
  cf_create_file :: "wide_string \<Rightarrow> u32 \<Rightarrow> u32 \<Rightarrow> u32 \<Rightarrow> u32 \<Rightarrow> ('s, nat) os_call"
  cf_get_information :: "nat \<Rightarrow> ('s, u32) os_call"
  cf_get_size :: "nat \<Rightarrow> ('s, int) os_call"
  cf_set_pointer :: "nat \<Rightarrow> nat \<Rightarrow> ('s, unit) os_call"
  cf_read_file :: "nat \<Rightarrow> nat \<Rightarrow> 's \<Rightarrow> (bool \<times> byte list \<times> u32) \<times> 's"
  cf_write_file :: "nat \<Rightarrow> byte list \<Rightarrow> 's \<Rightarrow> (bool \<times> nat \<times> u32) \<times> 's"
  cf_flush :: "nat \<Rightarrow> ('s, unit) os_call"
  cf_set_delete :: "nat \<Rightarrow> ('s, unit) os_call"
  cf_close :: "nat \<Rightarrow> 's \<Rightarrow> 's"
  cf_move_file :: "wide_string \<Rightarrow> wide_string \<Rightarrow> u32 \<Rightarrow> ('s, unit) os_call"
  cf_replace_file :: "wide_string \<Rightarrow> wide_string \<Rightarrow> wide_string option \<Rightarrow> u32 \<Rightarrow> ('s, unit) os_call"

definition osE :: "('s, 'a) os_call \<Rightarrow> (u32 \<Rightarrow> error) \<Rightarrow> ('s, 'a) prog" where
  "osE call err s = (case call s of (Inl native, t) \<Rightarrow> (Inl (err native), t) | (Inr x, t) \<Rightarrow> (Inr x, t))"

definition wide :: "string \<Rightarrow> wide_string" where
  "wide = map of_char"

abbreviation (input) GENERIC_READ :: u32 where "GENERIC_READ \<equiv> 0x80000000"
abbreviation (input) GENERIC_WRITE :: u32 where "GENERIC_WRITE \<equiv> 0x40000000"
abbreviation (input) DELETE_ACCESS :: u32 where "DELETE_ACCESS \<equiv> 0x00010000"
abbreviation (input) FILE_SHARE_READ :: u32 where "FILE_SHARE_READ \<equiv> 1"
abbreviation (input) CREATE_NEW :: u32 where "CREATE_NEW \<equiv> 1"
abbreviation (input) OPEN_EXISTING :: u32 where "OPEN_EXISTING \<equiv> 3"
abbreviation (input) FILE_ATTRIBUTE_HIDDEN :: u32 where "FILE_ATTRIBUTE_HIDDEN \<equiv> 2"
abbreviation (input) FILE_ATTRIBUTE_DIRECTORY :: u32 where "FILE_ATTRIBUTE_DIRECTORY \<equiv> 0x10"
abbreviation (input) FILE_ATTRIBUTE_REPARSE_POINT :: u32 where "FILE_ATTRIBUTE_REPARSE_POINT \<equiv> 0x400"
abbreviation (input) FILE_FLAG_WRITE_THROUGH :: u32 where "FILE_FLAG_WRITE_THROUGH \<equiv> 0x80000000"
abbreviation (input) FILE_FLAG_OPEN_REPARSE_POINT :: u32 where "FILE_FLAG_OPEN_REPARSE_POINT \<equiv> 0x00200000"
abbreviation (input) FILE_FLAG_SEQUENTIAL_SCAN :: u32 where "FILE_FLAG_SEQUENTIAL_SCAN \<equiv> 0x08000000"
abbreviation (input) MOVEFILE_WRITE_THROUGH :: u32 where "MOVEFILE_WRITE_THROUGH \<equiv> 8"
abbreviation (input) REPLACEFILE_WRITE_THROUGH :: u32 where "REPLACEFILE_WRITE_THROUGH \<equiv> 1"
abbreviation (input) ERROR_PATH_NOT_FOUND :: u32 where "ERROR_PATH_NOT_FOUND \<equiv> 3"

section \<open>The path\<close>

abbreviation (input) backslash :: u16 where "backslash \<equiv> 92"

definition path_shape_ok :: "'s checkpoint_files \<Rightarrow> wide_string \<Rightarrow> bool" where
  "path_shape_ok api path \<longleftrightarrow>
     \<not> (length path < 16 \<or> length path \<ge> 32 * 1024 \<or>
        \<not> cf_iswalpha api (path ! 0) \<or> path ! 1 \<noteq> of_char CHR '':'' \<or> path ! 2 \<noteq> backslash \<or>
        of_char CHR ''/'' \<in> set path \<or> of_char CHR '':'' \<in> set (drop 2 path) \<or>
        sublist [backslash, of_char CHR ''.'', of_char CHR ''.'', backslash] path \<or>
        suffix [backslash, of_char CHR ''.'', of_char CHR ''.''] path \<or> suffix [backslash] path \<or>
        suffix (wide '' '') path \<or> suffix (wide ''.'') path \<or>
        length path \<le> length (wide ''.checkpoint''))"

text \<open>The loop over the path's elements: the positions of its separators, from the left.\<close>

definition separators :: "wide_string \<Rightarrow> nat \<Rightarrow> nat list" where
  "separators path from = [i \<leftarrow> [from..<length path]. path ! i = backslash]"

fun validate_parents :: "'s checkpoint_files \<Rightarrow> wide_string \<Rightarrow> nat list \<Rightarrow> ('s, unit) prog" where
  "validate_parents api path [] = returnE ()"
| "validate_parents api path (separator # rest) =
     bindE (osE (cf_get_attributes api (take separator path)) (mk_error Query_failed)) (\<lambda>attributes.
     bindE (guardE (\<not> (attributes AND FILE_ATTRIBUTE_DIRECTORY = 0 \<or>
                       attributes AND FILE_ATTRIBUTE_REPARSE_POINT \<noteq> 0))
              (mk_error Unsupported_layout ERROR_REPARSE_TAG_INVALID)) (\<lambda>_.
       validate_parents api path rest))"

definition validate_path :: "'s checkpoint_files \<Rightarrow> wide_string \<Rightarrow> ('s, unit) prog" where
  "validate_path api path =
     bindE (guardE (path_shape_ok api path) (mk_error Invalid_argument ERROR_BAD_PATHNAME)) (\<lambda>_.
     bindE (guardE (cf_equal_ordinal_ignore_case api
                      (drop (length path - length (wide ''.checkpoint'')) path) (wide ''.checkpoint''))
              (mk_error Invalid_argument ERROR_BAD_PATHNAME)) (\<lambda>_.
       validate_parents api path (separators path 3)))"

section \<open>Reading\<close>

definition read_whole :: "'s checkpoint_files \<Rightarrow> nat \<Rightarrow> nat \<Rightarrow> ('s, byte list) prog" where
  "read_whole api handle wanted s =
     (case cf_read_file api handle wanted s of ((ok, bytes, last_error), t) \<Rightarrow>
        if \<not> ok \<or> length bytes \<noteq> wanted
        then (Inl (mk_error Io_failed (if last_error = ERROR_SUCCESS then ERROR_HANDLE_EOF else last_error)), t)
        else (Inr bytes, t))"

definition read_checkpoint_handle ::
  "'s cng_api \<Rightarrow> 's checkpoint_files \<Rightarrow> nat \<Rightarrow> ('s, parsed_checkpoint) prog" where
  "read_checkpoint_handle cng api handle =
     bindE (osE (cf_get_information api handle) (mk_error Query_failed)) (\<lambda>attributes.
     bindE (guardE (attributes AND (FILE_ATTRIBUTE_DIRECTORY OR FILE_ATTRIBUTE_REPARSE_POINT) = 0)
              (mk_error Unsupported_layout ERROR_REPARSE_TAG_INVALID)) (\<lambda>_.
     bindE (osE (cf_get_size api handle) (mk_error Query_failed)) (\<lambda>file_size.
     bindE (guardE (\<not> (file_size \<le> 0 \<or> nat file_size > kMaximumCheckpointBytes))
              (mk_error Invalid_data ERROR_FILE_TOO_LARGE)) (\<lambda>_.
     bindE (osE (cf_set_pointer api handle 0) (mk_error Io_failed)) (\<lambda>_.
     bindE (read_whole api handle (nat file_size)) (\<lambda>bytes.
       parse_checkpoint cng bytes))))))"

text \<open>The result, and the handle left in the caller's \<open>UniqueHandle\<close>, whose end of scope closes it.\<close>

definition read_existing ::
  "'s cng_api \<Rightarrow> 's checkpoint_files \<Rightarrow> wide_string \<Rightarrow> u32 \<Rightarrow> 's \<Rightarrow>
   (parsed_checkpoint option result \<times> nat option) \<times> 's" where
  "read_existing cng api path desired_access s =
     (case cf_create_file api path desired_access FILE_SHARE_READ OPEN_EXISTING
             (FILE_FLAG_OPEN_REPARSE_POINT OR FILE_FLAG_SEQUENTIAL_SCAN) s of
        (Inl native, t) \<Rightarrow>
          if native = ERROR_FILE_NOT_FOUND \<or> native = ERROR_PATH_NOT_FOUND
          then ((Inr None, None), t)
          else ((Inl (mk_error Io_failed native), None), t)
      | (Inr handle, t) \<Rightarrow>
          case read_checkpoint_handle cng api handle t of
            (Inl e, u) \<Rightarrow> ((Inl e, Some handle), u)
          | (Inr parsed, u) \<Rightarrow> ((Inr (Some parsed), Some handle), u))"

fun reset_handle :: "'s checkpoint_files \<Rightarrow> nat option \<Rightarrow> 's \<Rightarrow> 's" where
  "reset_handle api None s = s"
| "reset_handle api (Some handle) s = cf_close api handle s"

definition read_and_close ::
  "'s cng_api \<Rightarrow> 's checkpoint_files \<Rightarrow> wide_string \<Rightarrow> ('s, parsed_checkpoint option) prog" where
  "read_and_close cng api path s =
     (case read_existing cng api path GENERIC_READ s of ((r, file), t) \<Rightarrow> (r, reset_handle api file t))"

definition read_single_checkpoint ::
  "'s cng_api \<Rightarrow> 's checkpoint_files \<Rightarrow> wide_string \<Rightarrow> ('s, parsed_checkpoint option) prog" where
  "read_single_checkpoint cng api path =
     bindE (validate_path api path) (\<lambda>_. read_and_close cng api path)"

section \<open>The staged file\<close>

definition mark_owned_file_for_deletion :: "'s checkpoint_files \<Rightarrow> nat \<Rightarrow> 's \<Rightarrow> 's" where
  "mark_owned_file_for_deletion api handle s = snd (cf_set_delete api handle s)"

definition write_stage_bytes :: "'s checkpoint_files \<Rightarrow> nat \<Rightarrow> byte list \<Rightarrow> ('s, unit) prog" where
  "write_stage_bytes api file bytes s =
     (case cf_write_file api file bytes s of ((ok, written, last_error), t) \<Rightarrow>
        if \<not> ok \<or> written \<noteq> length bytes
        then (Inl (mk_error Io_failed (if last_error = ERROR_SUCCESS then ERROR_WRITE_FAULT else last_error)), t)
        else (Inr (), t))"

definition verify_stage_file ::
  "'s cng_api \<Rightarrow> 's checkpoint_files \<Rightarrow> nat \<Rightarrow> byte list \<Rightarrow> ('s, unit) prog" where
  "verify_stage_file cng api file expected_hash s =
     (case read_checkpoint_handle cng api file s of
        (Inl e, t) \<Rightarrow> (Inl (mk_error Verification_failed ERROR_CRC), t)
      | (Inr parsed, t) \<Rightarrow>
          if digest_equal (pc_record_hash parsed) expected_hash then (Inr (), t)
          else (Inl (mk_error Verification_failed ERROR_CRC), t))"

definition write_verified_stage ::
  "'s cng_api \<Rightarrow> 's checkpoint_files \<Rightarrow> wide_string \<Rightarrow> byte list \<Rightarrow> byte list \<Rightarrow> ('s, unit) prog" where
  "write_verified_stage cng api stage_path bytes expected_hash s =
     (case cf_create_file api stage_path (GENERIC_READ OR GENERIC_WRITE OR DELETE_ACCESS) 0 CREATE_NEW
             (FILE_ATTRIBUTE_HIDDEN OR FILE_FLAG_WRITE_THROUGH) s of
        (Inl native, t) \<Rightarrow> (Inl (mk_error Io_failed native), t)
      | (Inr file, t) \<Rightarrow>
          case bindE (write_stage_bytes api file bytes) (\<lambda>_.
               bindE (osE (cf_flush api file) (mk_error Io_failed)) (\<lambda>_.
                 verify_stage_file cng api file expected_hash)) t of
            (Inl e, u) \<Rightarrow> (Inl e, cf_close api file (mark_owned_file_for_deletion api file u))
          | (Inr _, u) \<Rightarrow> (Inr (), cf_close api file u))"

definition discard_owned_stage_if_matching ::
  "'s cng_api \<Rightarrow> 's checkpoint_files \<Rightarrow> wide_string \<Rightarrow> byte list \<Rightarrow> 's \<Rightarrow> 's" where
  "discard_owned_stage_if_matching cng api stage_path expected_hash s =
     (case cf_create_file api stage_path (GENERIC_READ OR DELETE_ACCESS) FILE_SHARE_READ OPEN_EXISTING
             (FILE_FLAG_OPEN_REPARSE_POINT OR FILE_FLAG_SEQUENTIAL_SCAN) s of
        (Inl native, t) \<Rightarrow> t
      | (Inr file, t) \<Rightarrow>
          case read_checkpoint_handle cng api file t of
            (Inl e, u) \<Rightarrow> cf_close api file u
          | (Inr parsed, u) \<Rightarrow>
              if \<not> digest_equal (pc_record_hash parsed) expected_hash then cf_close api file u
              else cf_close api file (mark_owned_file_for_deletion api file u))"

definition verify_committed_file ::
  "'s cng_api \<Rightarrow> 's checkpoint_files \<Rightarrow> wide_string \<Rightarrow> byte list \<Rightarrow> ('s, unit) prog" where
  "verify_committed_file cng api path expected_hash s =
     (case read_and_close cng api path s of
        (Inr (Some parsed), t) \<Rightarrow>
          if digest_equal (pc_record_hash parsed) expected_hash then (Inr (), t)
          else (Inl (mk_error Verification_failed ERROR_CRC), t)
      | (_, t) \<Rightarrow> (Inl (mk_error Verification_failed ERROR_CRC), t))"

section \<open>Creating, replacing and discarding\<close>

definition stage_path_of :: "wide_string \<Rightarrow> wide_string" where
  "stage_path_of path = path @ wide ''.new''"

definition create_single_checkpoint ::
  "'s cng_api \<Rightarrow> 's checkpoint_files \<Rightarrow> wide_string \<Rightarrow> interruption_checkpoint \<Rightarrow> ('s, unit) prog" where
  "create_single_checkpoint cng api path checkpoint =
     bindE (validate_path api path) (\<lambda>_.
     bindE (read_single_checkpoint cng api path) (\<lambda>existing.
     bindE (guardE (existing = None) (mk_error Access_denied ERROR_FILE_EXISTS)) (\<lambda>_.
     bindE (serialize_checkpoint cng checkpoint) (\<lambda>bytes.
     bindE (parse_checkpoint cng bytes) (\<lambda>parsed.
     bindE (write_verified_stage cng api (stage_path_of path) bytes (pc_record_hash parsed)) (\<lambda>_ s.
       case cf_move_file api (stage_path_of path) path MOVEFILE_WRITE_THROUGH s of
         (Inl native, t) \<Rightarrow>
           (Inl (mk_error Io_failed native),
            discard_owned_stage_if_matching cng api (stage_path_of path) (pc_record_hash parsed) t)
       | (Inr _, t) \<Rightarrow> verify_committed_file cng api path (pc_record_hash parsed) t))))))"

definition holds_expected :: "parsed_checkpoint option \<Rightarrow> byte list \<Rightarrow> bool" where
  "holds_expected observed expected_hash \<longleftrightarrow>
     (case observed of None \<Rightarrow> False | Some p \<Rightarrow> digest_equal (pc_record_hash p) expected_hash)"

text \<open>The exchange of the staged file for the checkpoint, with the last look at the target before it.\<close>

definition exchange_stage ::
  "'s cng_api \<Rightarrow> 's checkpoint_files \<Rightarrow> wide_string \<Rightarrow> byte list \<Rightarrow> byte list \<Rightarrow> ('s, unit) prog" where
  "exchange_stage cng api path expected_current next_hash s =
     (case read_single_checkpoint cng api path s of (last_observation, t) \<Rightarrow>
        if \<not> (case last_observation of Inl e \<Rightarrow> False | Inr observed \<Rightarrow> holds_expected observed expected_current)
        then (Inl (mk_error Identity_mismatch ERROR_FILE_INVALID),
              discard_owned_stage_if_matching cng api (stage_path_of path) next_hash t)
        else
          case cf_replace_file api path (stage_path_of path) None REPLACEFILE_WRITE_THROUGH t of
            (Inl native, u) \<Rightarrow>
              (Inl (mk_error Io_failed native),
               discard_owned_stage_if_matching cng api (stage_path_of path) next_hash u)
          | (Inr _, u) \<Rightarrow> verify_committed_file cng api path next_hash u)"

definition replace_single_checkpoint ::
  "'s cng_api \<Rightarrow> 's checkpoint_files \<Rightarrow> wide_string \<Rightarrow> byte list \<Rightarrow> interruption_checkpoint \<Rightarrow> ('s, unit) prog" where
  "replace_single_checkpoint cng api path expected_current_record_hash successor =
     bindE (validate_path api path) (\<lambda>_.
     bindE (read_single_checkpoint cng api path) (\<lambda>current.
     bindE (guardE (holds_expected current expected_current_record_hash)
              (mk_error Identity_mismatch ERROR_FILE_INVALID)) (\<lambda>_.
     bindE (of_result (validate_checkpoint_transition (pc_checkpoint (the current)) successor)) (\<lambda>_.
     bindE (serialize_checkpoint cng successor) (\<lambda>bytes.
     bindE (parse_checkpoint cng bytes) (\<lambda>next_parsed.
     bindE (write_verified_stage cng api (stage_path_of path) bytes (pc_record_hash next_parsed)) (\<lambda>_.
       exchange_stage cng api path expected_current_record_hash (pc_record_hash next_parsed))))))))"

definition discard_single_checkpoint ::
  "'s cng_api \<Rightarrow> 's checkpoint_files \<Rightarrow> wide_string \<Rightarrow> byte list \<Rightarrow> ('s, unit) prog" where
  "discard_single_checkpoint cng api path expected_record_hash =
     bindE (validate_path api path) (\<lambda>_ s.
       case read_existing cng api path (GENERIC_READ OR DELETE_ACCESS) s of
         ((Inl e, file), t) \<Rightarrow> (Inl e, reset_handle api file t)
       | ((Inr existing, file), t) \<Rightarrow>
           if \<not> holds_expected existing expected_record_hash
           then (Inl (mk_error Identity_mismatch ERROR_FILE_INVALID), reset_handle api file t)
           else
             case cf_set_delete api (the file) t of
               (Inl native, u) \<Rightarrow> (Inl (mk_error Io_failed native), reset_handle api file u)
             | (Inr _, u) \<Rightarrow> (Inr (), reset_handle api file u))"

end
