(* ===== verification/CheckpointStoreRuns.thy ===== *)
theory CheckpointStoreRuns
  imports CheckpointStore
begin

text \<open>
  What the Windows file functions promise the checkpoint file, as a locale, and what each routine of
  \<^theory_text>\<open>CheckpointStore\<close> then does to the files of the volume.  No other process is at work on the
  files meanwhile; every call may fail at any time.
\<close>

section \<open>The file functions\<close>

record 'k open_file =
  of_key :: 'k
  of_position :: nat
  of_delete :: bool

definition fresh_open :: "'k \<Rightarrow> 'k open_file" where
  "fresh_open k = \<lparr>of_key = k, of_position = 0, of_delete = False\<rparr>"

definition overwrite :: "byte list \<Rightarrow> nat \<Rightarrow> byte list \<Rightarrow> byte list" where
  "overwrite content position bytes =
     take position content @ bytes @ drop (position + length bytes) content"

abbreviation (input) ERROR_UNABLE_TO_MOVE_REPLACEMENT :: u32 where "ERROR_UNABLE_TO_MOVE_REPLACEMENT \<equiv> 1176"
abbreviation (input) ERROR_UNABLE_TO_MOVE_REPLACEMENT_2 :: u32 where "ERROR_UNABLE_TO_MOVE_REPLACEMENT_2 \<equiv> 1177"

text \<open>
  \<open>key\<close> gives the file a path names, \<open>files\<close> the content of each existing file and \<open>opened\<close> the open
  handles of the process.  A failed \<open>ReplaceFileW\<close> without a backup name leaves both files as they were, except for the two
  documented errors: after \<open>ERROR_UNABLE_TO_MOVE_REPLACEMENT\<close> the replaced file no longer exists, and
  after \<open>ERROR_UNABLE_TO_MOVE_REPLACEMENT_2\<close> it exists under a different name.
\<close>

locale checkpoint_disk =
  fixes cng :: "'s cng_api" and H :: "byte list \<Rightarrow> byte list" and api :: "'s checkpoint_files"
    and key :: "wide_string \<Rightarrow> 'k" and files :: "'s \<Rightarrow> 'k \<Rightarrow> byte list option"
    and opened :: "'s \<Rightarrow> nat \<Rightarrow> 'k open_file option"
  assumes hash: "\<forall>b s. \<exists>t. sha256 cng b s = (Inr (H b), t) \<and> length (H b) = 32 \<and>
      files t = files s \<and> opened t = opened s"
    and stage_key: "\<forall>p. key (stage_path_of p) \<noteq> key p"
    and query: "\<forall>p s. files (snd (cf_get_attributes api p s)) = files s \<and>
        opened (snd (cf_get_attributes api p s)) = opened s"
      "\<forall>h s. files (snd (cf_get_information api h s)) = files s \<and> opened (snd (cf_get_information api h s)) = opened s"
      "\<forall>h s. files (snd (cf_get_size api h s)) = files s \<and> opened (snd (cf_get_size api h s)) = opened s"
      "\<forall>h s. files (snd (cf_flush api h s)) = files s \<and> opened (snd (cf_flush api h s)) = opened s"
    and get_size: "\<forall>h s f c n t. opened s h = Some f \<and> files s (of_key f) = Some c \<and>
        cf_get_size api h s = (Inr n, t) \<longrightarrow> n = int (length c)"
    and set_pointer: "\<forall>h s f n r t. opened s h = Some f \<and> cf_set_pointer api h n s = (r, t) \<longrightarrow>
        files t = files s \<and>
        opened t = (case r of Inl e \<Rightarrow> opened s | Inr _ \<Rightarrow> (opened s)(h \<mapsto> f\<lparr>of_position := n\<rparr>))"
    and read_file: "\<forall>h s f c n ok bytes e t. opened s h = Some f \<and> files s (of_key f) = Some c \<and>
        cf_read_file api h n s = ((ok, bytes, e), t) \<longrightarrow>
        files t = files s \<and> (\<exists>p. opened t = (opened s)(h \<mapsto> f\<lparr>of_position := p\<rparr>)) \<and>
        (ok \<longrightarrow> bytes = take n (drop (of_position f) c))"
    and write_file: "\<forall>h s f c bytes ok n e t. opened s h = Some f \<and> files s (of_key f) = Some c \<and>
        cf_write_file api h bytes s = ((ok, n, e), t) \<longrightarrow>
        (\<exists>c' p. files t = (files s)(of_key f \<mapsto> c') \<and> opened t = (opened s)(h \<mapsto> f\<lparr>of_position := p\<rparr>) \<and>
          (ok \<longrightarrow> c' = overwrite c (of_position f) (take n bytes)))"
    and set_delete: "\<forall>h s f r t. opened s h = Some f \<and> cf_set_delete api h s = (r, t) \<longrightarrow>
        files t = files s \<and>
        opened t = (case r of Inl e \<Rightarrow> opened s | Inr _ \<Rightarrow> (opened s)(h \<mapsto> f\<lparr>of_delete := True\<rparr>))"
    and close: "\<forall>h s f. opened s = [h \<mapsto> f] \<longrightarrow> opened (cf_close api h s) = Map.empty \<and>
        files (cf_close api h s) = (if of_delete f then (files s)(of_key f := None) else files s)"
    and open_existing: "\<forall>p a sh fl s r t. opened s = Map.empty \<and>
        cf_create_file api p a sh OPEN_EXISTING fl s = (r, t) \<longrightarrow> files t = files s \<and>
        (case r of
           Inl e \<Rightarrow> opened t = opened s \<and>
             (e = ERROR_FILE_NOT_FOUND \<or> e = ERROR_PATH_NOT_FOUND \<longrightarrow> files s (key p) = None)
         | Inr h \<Rightarrow> files s (key p) \<noteq> None \<and> opened t = [h \<mapsto> fresh_open (key p)])"
    and create_new: "\<forall>p a sh fl s r t. opened s = Map.empty \<and>
        cf_create_file api p a sh CREATE_NEW fl s = (r, t) \<longrightarrow>
        (case r of
           Inl e \<Rightarrow> files t = files s \<and> opened t = opened s
         | Inr h \<Rightarrow> files s (key p) = None \<and> files t = (files s)(key p \<mapsto> []) \<and>
             opened t = [h \<mapsto> fresh_open (key p)])"
    and move_file: "\<forall>p q s r t. opened s = Map.empty \<and>
        cf_move_file api p q MOVEFILE_WRITE_THROUGH s = (r, t) \<longrightarrow> opened t = opened s \<and>
        (case r of
           Inl e \<Rightarrow> files t = files s
         | Inr _ \<Rightarrow> files s (key q) = None \<and> files s (key p) \<noteq> None \<and>
             files t = (files s)(key p := None, key q := files s (key p)))"
    and replace_file: "\<forall>p q s r t. opened s = Map.empty \<and>
        cf_replace_file api p q None REPLACEFILE_WRITE_THROUGH s = (r, t) \<longrightarrow> opened t = opened s \<and>
        (case r of
           Inl e \<Rightarrow>
             if e = ERROR_UNABLE_TO_MOVE_REPLACEMENT then files t = (files s)(key p := None)
             else if e = ERROR_UNABLE_TO_MOVE_REPLACEMENT_2
             then (\<exists>k. files s k = None \<and> files t = (files s)(key p := None, k := files s (key p)))
             else files t = files s
         | Inr _ \<Rightarrow> files s (key p) \<noteq> None \<and> files s (key q) \<noteq> None \<and>
             files t = (files s)(key p := files s (key q), key q := None))"

text \<open>The record a file's bytes are.\<close>

definition is_record :: "(byte list \<Rightarrow> byte list) \<Rightarrow> byte list \<Rightarrow> parsed_checkpoint \<Rightarrow> bool" where
  "is_record H bytes p \<longleftrightarrow>
     validate_checkpoint (pc_checkpoint p) = success_status \<and> checkpoint_arrays (pc_checkpoint p) \<and>
     bytes = checkpoint_file H (pc_checkpoint p) \<and> length bytes \<le> kMaximumCheckpointBytes \<and>
     pc_record_hash p = drop (length bytes - 32) bytes \<and> length (pc_record_hash p) = 32"

lemma parse_checkpoint_record_hash:
  assumes "parse_checkpoint cng bytes s = (Inr p, t)"
  shows "pc_record_hash p = drop (length bytes - 32) bytes" "172 \<le> length bytes"
  using assms
  by (auto simp: parse_checkpoint_def Let_def not_less split: option.split_asm prod.split_asm if_split_asm sum.split_asm)

lemma parse_checkpoint_record:
  assumes "hash_provider cng H" "parse_checkpoint cng bytes s = (Inr p, t)"
  shows "is_record H bytes p"
proof -
  have "length (drop (length bytes - 32) bytes) = 32" using parse_checkpoint_record_hash [OF assms(2)] by simp
  then show ?thesis
    using parse_checkpoint_success [OF assms] parse_checkpoint_record_hash(1) [OF assms(2)]
    unfolding is_record_def by metis
qed

lemma keeps_parse_checkpoint: "(\<And>b. keeps v (sha256 cng b)) \<Longrightarrow> keeps v (parse_checkpoint cng bytes)"
  unfolding parse_checkpoint_def
  by (rule keepsI)
    (fastforce simp: Let_def split: option.split_asm prod.split_asm if_split_asm sum.split_asm dest: keepsD)

lemma keeps_serialize_checkpoint: "(\<And>b. keeps v (sha256 cng b)) \<Longrightarrow> keeps v (serialize_checkpoint cng c)"
  by (auto simp: serialize_checkpoint_def Let_def intro!: keeps_bindE)

lemma osE_eq_Inr [simp]: "osE call err s = (Inr x, t) \<longleftrightarrow> call s = (Inr x, t)"
  by (auto simp: osE_def split: prod.splits sum.splits)

lemma osE_eq_Inl: "osE call err s = (Inl e, t) \<longleftrightarrow> (\<exists>n. call s = (Inl n, t) \<and> e = err n)"
  by (auto simp: osE_def split: prod.splits sum.splits)

lemma keeps_osE: "(\<And>s. v (snd (call s)) = v s) \<Longrightarrow> keeps v (osE call err)"
  by (rule keepsI) (auto simp: osE_def split: prod.split_asm sum.split_asm; metis snd_conv)

section \<open>Reading\<close>

text \<open>A handle on a file with a given content, wherever its file pointer stands.\<close>

definition handle_on ::
  "('s \<Rightarrow> 'k \<Rightarrow> byte list option) \<Rightarrow> ('s \<Rightarrow> nat \<Rightarrow> 'k open_file option) \<Rightarrow> ('k \<Rightarrow> byte list option) \<Rightarrow>
   (nat \<Rightarrow> 'k open_file option) \<Rightarrow> nat \<Rightarrow> 'k open_file \<Rightarrow> 's \<Rightarrow> bool" where
  "handle_on files opened F Op h f s \<longleftrightarrow> files s = F \<and> (\<exists>p. opened s = Op(h \<mapsto> f\<lparr>of_position := p\<rparr>))"

definition disk_world ::
  "('s \<Rightarrow> 'k \<Rightarrow> byte list option) \<Rightarrow> ('s \<Rightarrow> nat \<Rightarrow> 'k open_file option) \<Rightarrow> 's \<Rightarrow>
   ('k \<Rightarrow> byte list option) \<times> (nat \<Rightarrow> 'k open_file option)" where
  "disk_world files opened s = (files s, opened s)"

context checkpoint_disk
begin

abbreviation world where "world \<equiv> disk_world files opened"

lemma provider: "hash_provider cng H"
  using hash unfolding hash_provider_def by blast

lemma disk_keeps_sha256: "keeps world (sha256 cng b)"
proof (rule keepsI)
  fix s r t assume run: "sha256 cng b s = (r, t)"
  then show "world t = world s" using hash [rule_format, of b s] by (auto simp: disk_world_def)
qed

lemma keeps_queries: "keeps world (osE (cf_get_attributes api p) e)" "keeps world (osE (cf_get_information api h) e)"
  "keeps world (osE (cf_get_size api h) e)" "keeps world (osE (cf_flush api h) e)"
  by (rule keeps_osE, simp add: disk_world_def query)+

lemma disk_keeps_parse: "keeps world (parse_checkpoint cng bytes)"
  by (rule keeps_parse_checkpoint [OF disk_keeps_sha256])

lemma disk_keeps_serialize: "keeps world (serialize_checkpoint cng c)"
  by (rule keeps_serialize_checkpoint [OF disk_keeps_sha256])

lemma keeps_validate_path: "keeps world (validate_path api path)"
proof -
  have "keeps world (validate_parents api path ps)" for ps
    by (induction ps) (auto intro!: keeps_bindE keeps_queries)
  then show ?thesis by (auto simp: validate_path_def intro!: keeps_bindE)
qed

abbreviation on where "on \<equiv> handle_on files opened"

lemma on_world: "on F Op h f s \<longleftrightarrow> (\<exists>p. world s = (F, Op(h \<mapsto> f\<lparr>of_position := p\<rparr>)))"
  by (auto simp: handle_on_def disk_world_def)

lemma hoare_on_keeps: "keeps world m \<Longrightarrow> hoare (on F Op h f) m (\<lambda>_. on F Op h f) (\<lambda>_. on F Op h f)"
  unfolding on_world by (rule hoare_keeps)

lemma hoare_size:
  assumes "F (of_key f) = Some c"
  shows "hoare (on F Op h f) (osE (cf_get_size api h) e) (\<lambda>n s. on F Op h f s \<and> n = int (length c)) (\<lambda>_. on F Op h f)"
proof -
  have "hoare (on F Op h f) (osE (cf_get_size api h) e) (\<lambda>n s. n = int (length c)) (\<lambda>_ s. True)"
  proof (rule hoareI)
    fix s n t assume "on F Op h f s" "osE (cf_get_size api h) e s = (Inr n, t)"
    then show "n = int (length c)" using assms get_size [rule_format, of s h _ c n t] by (auto simp: handle_on_def)
  qed simp
  from hoare_conj [OF hoare_on_keeps [OF keeps_queries(3)] this, of F Op h f] show ?thesis by simp
qed

lemma hoare_rewind:
  "hoare (on F Op h f) (osE (cf_set_pointer api h 0) e)
     (\<lambda>_ s. files s = F \<and> opened s = Op(h \<mapsto> f\<lparr>of_position := 0\<rparr>)) (\<lambda>_. on F Op h f)"
proof (rule hoareI)
  fix s x t assume "on F Op h f s" "osE (cf_set_pointer api h 0) e s = (Inr x, t)"
  then show "files t = F \<and> opened t = Op(h \<mapsto> f\<lparr>of_position := 0\<rparr>)"
    using set_pointer [rule_format, of s h _ 0 "Inr x" t] by (auto simp: handle_on_def)
next
  fix s e' t assume "on F Op h f s" "osE (cf_set_pointer api h 0) e s = (Inl e', t)"
  then show "on F Op h f t"
    using set_pointer [rule_format, of s h _ 0 _ t] by (fastforce simp: handle_on_def osE_eq_Inl)
qed

lemma hoare_read_whole:
  assumes "F (of_key f) = Some c"
  shows "hoare (\<lambda>s. files s = F \<and> opened s = Op(h \<mapsto> f\<lparr>of_position := 0\<rparr>)) (read_whole api h n)
     (\<lambda>b s. on F Op h f s \<and> b = take n c) (\<lambda>_. on F Op h f)"
proof (rule hoareI)
  fix s b t assume "files s = F \<and> opened s = Op(h \<mapsto> f\<lparr>of_position := 0\<rparr>)" "read_whole api h n s = (Inr b, t)"
  then show "on F Op h f t \<and> b = take n c"
    using assms read_file [rule_format, of s h "f\<lparr>of_position := 0\<rparr>" c n True b _ t]
    by (auto simp: handle_on_def read_whole_def split: prod.split_asm if_split_asm)
next
  fix s e t assume "files s = F \<and> opened s = Op(h \<mapsto> f\<lparr>of_position := 0\<rparr>)" "read_whole api h n s = (Inl e, t)"
  then show "on F Op h f t"
    using assms read_file [rule_format, of s h "f\<lparr>of_position := 0\<rparr>" c n _ _ _ t]
    by (fastforce simp: handle_on_def read_whole_def split: prod.split_asm if_split_asm)
qed

lemma hoare_parse:
  "hoare (on F Op h f) (parse_checkpoint cng b) (\<lambda>q s. on F Op h f s \<and> is_record H b q) (\<lambda>_. on F Op h f)"
proof -
  have "hoare (on F Op h f) (parse_checkpoint cng b) (\<lambda>q s. is_record H b q) (\<lambda>_ s. True)"
    by (auto intro!: hoareI intro: parse_checkpoint_record [OF provider])
  from hoare_conj [OF hoare_on_keeps [OF disk_keeps_parse] this, of F Op h f] show ?thesis by simp
qed

lemma hoare_read_handle:
  assumes c: "F (of_key f) = Some c"
  shows "hoare (on F Op h f) (read_checkpoint_handle cng api h)
     (\<lambda>q s. on F Op h f s \<and> is_record H c q) (\<lambda>_. on F Op h f)"
proof -
  have all: "hoare (\<lambda>s. on F Op h f s \<and> n = int (length c))
      (bindE (guardE (\<not> (n \<le> 0 \<or> nat n > kMaximumCheckpointBytes)) (mk_error Invalid_data ERROR_FILE_TOO_LARGE)) (\<lambda>_.
       bindE (osE (cf_set_pointer api h 0) (mk_error Io_failed)) (\<lambda>_.
       bindE (read_whole api h (nat n)) (parse_checkpoint cng))))
      (\<lambda>q s. on F Op h f s \<and> is_record H c q) (\<lambda>_. on F Op h f)" for n
  proof (cases "n = int (length c)")
    case True
    have parse: "hoare (\<lambda>s. on F Op h f s \<and> b = take (nat n) c) (parse_checkpoint cng b)
        (\<lambda>q s. on F Op h f s \<and> is_record H c q) (\<lambda>_. on F Op h f)" for b
      using hoare_parse [of F Op h f c] True by (auto simp: hoare_def)
    show ?thesis
      by (intro hoare_bindE [where R = "\<lambda>_. on F Op h f"]
          hoare_bindE [OF hoare_rewind hoare_bindE [OF hoare_read_whole [where F = F and f = f, OF c] parse]])
        (simp add: hoare_def guardE_def returnE_def failE_def)
  qed (simp add: hoare_def)
  show ?thesis
    unfolding read_checkpoint_handle_def
    by (intro hoare_bindE [OF hoare_on_keeps [OF keeps_queries(2)]]
        hoare_bindE [OF hoare_on_keeps [OF keeps_simple(4)]] hoare_bindE [OF hoare_size [where F = F and f = f, OF c]] all)
qed

end

context checkpoint_disk
begin

lemma read_handle_on:
  assumes "on F Op h f s" "F (of_key f) = Some c" "read_checkpoint_handle cng api h s = (r, t)"
  shows "on F Op h f t"
  using hoareD_Inr [OF hoare_read_handle [where F = F and f = f, OF assms(2)] assms(1)]
    hoareD_Inl [OF hoare_read_handle [where F = F and f = f, OF assms(2)] assms(1)] assms(3)
  by (cases r) auto

end

section \<open>Routines that open and close files\<close>

text \<open>No handle is open and the files are \<open>F\<close>, or \<open>F\<close> up to one of them.\<close>

definition idle ::
  "('s \<Rightarrow> 'k \<Rightarrow> byte list option) \<Rightarrow> ('s \<Rightarrow> nat \<Rightarrow> 'k open_file option) \<Rightarrow> ('k \<Rightarrow> byte list option) \<Rightarrow> 's \<Rightarrow> bool" where
  "idle files opened F s \<longleftrightarrow> files s = F \<and> opened s = Map.empty"

definition idle_but ::
  "('s \<Rightarrow> 'k \<Rightarrow> byte list option) \<Rightarrow> ('s \<Rightarrow> nat \<Rightarrow> 'k open_file option) \<Rightarrow> 'k \<Rightarrow> ('k \<Rightarrow> byte list option) \<Rightarrow> 's \<Rightarrow> bool" where
  "idle_but files opened k F s \<longleftrightarrow> (\<exists>x. files s = F(k := x)) \<and> opened s = Map.empty"

text \<open>What a reading of a file has found.\<close>

definition observed_in ::
  "(byte list \<Rightarrow> byte list) \<Rightarrow> byte list option \<Rightarrow> parsed_checkpoint option \<Rightarrow> bool" where
  "observed_in H content q \<longleftrightarrow>
     (case q of None \<Rightarrow> content = None | Some p \<Rightarrow> \<exists>c. content = Some c \<and> is_record H c p)"

lemma idle_idle_but: "idle files opened F s \<Longrightarrow> idle_but files opened k F s"
  unfolding idle_def idle_but_def by (metis fun_upd_triv)

lemma idle_but_upd [simp]: "idle_but files opened k (F(k := x)) s = idle_but files opened k F s"
  by (simp add: idle_but_def)

lemma hoare_at: "(\<And>s. P s \<Longrightarrow> hoare (\<lambda>u. u = s) m Q E) \<Longrightarrow> hoare P m Q E"
  by (simp add: hoare_def)

context checkpoint_disk
begin

abbreviation idle_at where "idle_at \<equiv> idle files opened"
abbreviation idle_at_but where "idle_at_but \<equiv> idle_but files opened"

lemma hoare_idle_keeps: "keeps world m \<Longrightarrow> hoare (idle_at F) m (\<lambda>_. idle_at F) (\<lambda>_. idle_at F)"
proof -
  have "idle_at F = (\<lambda>s. world s = (F, Map.empty))" by (auto simp: idle_def disk_world_def)
  then show "keeps world m \<Longrightarrow> ?thesis" using hoare_keeps [of world m "\<lambda>w. w = (F, Map.empty)"] by simp
qed

lemma on_fresh: "opened s = [h \<mapsto> f] \<Longrightarrow> on (files s) Map.empty h f s"
  unfolding handle_on_def by (cases f) (auto intro!: exI [of _ "of_position f"])

lemma close_on:
  assumes "on F Map.empty h f s"
  shows "idle_at (if of_delete f then F(of_key f := None) else F) (cf_close api h s)"
  using assms close [rule_format, of s h] by (auto simp: handle_on_def idle_def)

lemma mark_position: "f\<lparr>of_position := p, of_delete := d\<rparr> = f\<lparr>of_delete := d, of_position := p\<rparr>"
  by (cases f) simp

lemma mark_on:
  assumes "on F Map.empty h f s"
  shows "\<exists>d. on F Map.empty h (f\<lparr>of_delete := d\<rparr>) (mark_owned_file_for_deletion api h s)"
proof -
  from assms obtain p where p: "files s = F" "opened s = [h \<mapsto> f\<lparr>of_position := p\<rparr>]"
    unfolding handle_on_def by blast
  obtain r t where run: "cf_set_delete api h s = (r, t)" by (cases "cf_set_delete api h s")
  show ?thesis
  proof (cases r)
    case (Inl e)
    then have "on F Map.empty h (f\<lparr>of_delete := of_delete f\<rparr>) t"
      using p set_delete [rule_format, of s h _ r t] run by (auto simp: handle_on_def)
    then show ?thesis using run by (intro exI [of _ "of_delete f"]) (simp add: mark_owned_file_for_deletion_def)
  next
    case (Inr u)
    then have "files t = F" "opened t = [h \<mapsto> f\<lparr>of_position := p, of_delete := True\<rparr>]"
      using p set_delete [rule_format, of s h _ r t] run by auto
    then have "on F Map.empty h (f\<lparr>of_delete := True\<rparr>) t"
      unfolding handle_on_def by (intro conjI exI [of _ p]) (simp_all add: mark_position)
    then show ?thesis using run by (auto simp: mark_owned_file_for_deletion_def)
  qed
qed

lemma read_existing_spec:
  assumes "idle_at F s" "read_existing cng api path access s = ((r, left), t)"
  shows "case left of
      None \<Rightarrow> idle_at F t \<and> (\<forall>q. r = Inr q \<longrightarrow> q = None \<and> F (key path) = None)
    | Some h \<Rightarrow> on F Map.empty h (fresh_open (key path)) t \<and>
        (\<forall>q. r = Inr q \<longrightarrow> q \<noteq> None \<and> observed_in H (F (key path)) q)"
proof -
  obtain res u where created: "cf_create_file api path access FILE_SHARE_READ OPEN_EXISTING
      (FILE_FLAG_OPEN_REPARSE_POINT OR FILE_FLAG_SEQUENTIAL_SCAN) s = (res, u)"
    by (cases "cf_create_file api path access FILE_SHARE_READ OPEN_EXISTING
      (FILE_FLAG_OPEN_REPARSE_POINT OR FILE_FLAG_SEQUENTIAL_SCAN) s")
  note law = open_existing [rule_format, OF conjI [OF _ created]]
  show ?thesis
  proof (cases res)
    case (Inl e)
    then show ?thesis
      using assms created law by (auto simp: read_existing_def idle_def split: if_split_asm)
  next
    case (Inr h)
    then have u: "files u = F" "opened u = [h \<mapsto> fresh_open (key path)]" and "F (key path) \<noteq> None"
      using assms(1) law by (auto simp: idle_def)
    then obtain c where c: "F (of_key (fresh_open (key path))) = Some c" by (auto simp: fresh_open_def)
    have on: "on F Map.empty h (fresh_open (key path)) u" using on_fresh [OF u(2)] u(1) by simp
    obtain r' v where read: "read_checkpoint_handle cng api h u = (r', v)"
      by (cases "read_checkpoint_handle cng api h u")
    note spec = hoare_read_handle [where F = F and f = "fresh_open (key path)", OF c]
    show ?thesis
      using assms(2) created Inr read hoareD_Inr [OF spec on] hoareD_Inl [OF spec on] c
      by (cases r') (auto simp: read_existing_def observed_in_def fresh_open_def)
  qed
qed

lemma read_and_close_spec:
  "hoare (idle_at F) (read_and_close cng api path)
     (\<lambda>q s. idle_at F s \<and> observed_in H (F (key path)) q) (\<lambda>_. idle_at F)"
proof -
  have "idle_at F t \<and> (\<forall>q. r = Inr q \<longrightarrow> observed_in H (F (key path)) q)"
    if run: "idle_at F s" "read_and_close cng api path s = (r, t)" for s r t
  proof -
    obtain left u where u: "read_existing cng api path GENERIC_READ s = ((r, left), u)"
      and t: "t = reset_handle api left u"
      using run(2) by (auto simp: read_and_close_def split: prod.split_asm)
    show ?thesis
      using read_existing_spec [OF run(1) u] t close_on [of F _ "fresh_open (key path)" u]
      by (cases left) (auto simp: observed_in_def fresh_open_def)
  qed
  then show ?thesis by (blast intro: hoareI)
qed

lemma read_single_spec:
  "hoare (idle_at F) (read_single_checkpoint cng api path)
     (\<lambda>q s. idle_at F s \<and> observed_in H (F (key path)) q) (\<lambda>_. idle_at F)"
  unfolding read_single_checkpoint_def
  by (intro hoare_bindE [OF hoare_idle_keeps [OF keeps_validate_path] read_and_close_spec])

lemma verify_committed_spec:
  "hoare (idle_at F) (verify_committed_file cng api path hash) (\<lambda>_. idle_at F) (\<lambda>_. idle_at F)"
proof -
  have "idle_at F t" if "idle_at F s" "verify_committed_file cng api path hash s = (r, t)" for s r t
    using that hoareD_Inr [OF read_and_close_spec that(1)] hoareD_Inl [OF read_and_close_spec that(1)]
    by (fastforce simp: verify_committed_file_def split: prod.split_asm sum.split_asm option.split_asm if_split_asm)
  then show ?thesis by (blast intro: hoareI)
qed

end

section \<open>The staged file\<close>

text \<open>The stage is open, with whatever was written of it so far.\<close>

definition stage_open ::
  "('s \<Rightarrow> 'k \<Rightarrow> byte list option) \<Rightarrow> ('s \<Rightarrow> nat \<Rightarrow> 'k open_file option) \<Rightarrow> ('k \<Rightarrow> byte list option) \<Rightarrow>
   'k \<Rightarrow> nat \<Rightarrow> 's \<Rightarrow> bool" where
  "stage_open files opened F k h s \<longleftrightarrow>
     (\<exists>c. handle_on files opened (F(k \<mapsto> c)) Map.empty h (fresh_open k) s)"

context checkpoint_disk
begin

lemma close_on_but:
  assumes "on F Map.empty h f s" "of_key f = k"
  shows "idle_at_but k F (cf_close api h s)"
proof -
  from close_on [OF assms(1)] have "files (cf_close api h s) = F \<or> files (cf_close api h s) = F(k := None)"
    "opened (cf_close api h s) = Map.empty"
    using assms(2) by (auto simp: idle_def)
  then show ?thesis unfolding idle_but_def by (metis fun_upd_triv)
qed

lemma mark_close_but:
  assumes "on F Map.empty h f s" "of_key f = k"
  shows "idle_at_but k F (cf_close api h (mark_owned_file_for_deletion api h s))"
proof -
  obtain d where "on F Map.empty h (f\<lparr>of_delete := d\<rparr>) (mark_owned_file_for_deletion api h s)"
    using mark_on [OF assms(1)] by blast
  from close_on_but [OF this] show ?thesis using assms(2) by simp
qed

abbreviation stage_on where "stage_on \<equiv> stage_open files opened"

lemma hoare_write_stage:
  "hoare (\<lambda>s. files s = F(k \<mapsto> []) \<and> opened s = [h \<mapsto> fresh_open k]) (write_stage_bytes api h bytes)
     (\<lambda>_. on (F(k \<mapsto> bytes)) Map.empty h (fresh_open k)) (\<lambda>_. stage_on F k h)"
proof -
  have "on (F(k \<mapsto> c')) Map.empty h (fresh_open k) t \<and> (ok \<longrightarrow> c' = take n bytes)"
    if "files s = F(k \<mapsto> [])" "opened s = [h \<mapsto> fresh_open k]" "cf_write_file api h bytes s = ((ok, n, e), t)"
      "files t = (files s)(k \<mapsto> c')" "opened t = (opened s)(h \<mapsto> (fresh_open k)\<lparr>of_position := p\<rparr>)"
      "ok \<longrightarrow> c' = overwrite [] 0 (take n bytes)" for s ok n e t c' p
    using that by (auto simp: handle_on_def overwrite_def)
  then have run: "\<exists>c'. on (F(k \<mapsto> c')) Map.empty h (fresh_open k) t \<and> (ok \<longrightarrow> c' = take n bytes)"
    if "files s = F(k \<mapsto> [])" "opened s = [h \<mapsto> fresh_open k]" "cf_write_file api h bytes s = ((ok, n, e), t)"
    for s ok n e t
    using that write_file [rule_format, of s h "fresh_open k" "[]" bytes ok n e t]
    by (fastforce simp: fresh_open_def)
  show ?thesis
  proof (rule hoareI)
    fix s x t assume "files s = F(k \<mapsto> []) \<and> opened s = [h \<mapsto> fresh_open k]"
      "write_stage_bytes api h bytes s = (Inr x, t)"
    then show "on (F(k \<mapsto> bytes)) Map.empty h (fresh_open k) t"
      using run [of s True "length bytes" _ t]
      by (fastforce simp: write_stage_bytes_def split: prod.split_asm if_split_asm)
  next
    fix s e t assume "files s = F(k \<mapsto> []) \<and> opened s = [h \<mapsto> fresh_open k]"
      "write_stage_bytes api h bytes s = (Inl e, t)"
    then show "stage_on F k h t"
      using run [of s _ _ _ t] unfolding stage_open_def
      by (fastforce simp: write_stage_bytes_def split: prod.split_asm if_split_asm)
  qed
qed

lemma hoare_verify_stage_file:
  "hoare (on (F(k \<mapsto> bytes)) Map.empty h (fresh_open k)) (verify_stage_file cng api h hash)
     (\<lambda>_. on (F(k \<mapsto> bytes)) Map.empty h (fresh_open k)) (\<lambda>_. stage_on F k h)"
proof -
  have c: "(F(k \<mapsto> bytes)) (of_key (fresh_open k)) = Some bytes" by (simp add: fresh_open_def)
  have "on (F(k \<mapsto> bytes)) Map.empty h (fresh_open k) t"
    if "on (F(k \<mapsto> bytes)) Map.empty h (fresh_open k) s" "verify_stage_file cng api h hash s = (r, t)" for s r t
    using that(2) read_handle_on [OF that(1) c]
    by (auto simp: verify_stage_file_def fun_upd_def split: prod.split_asm sum.split_asm if_split_asm)
  then show ?thesis unfolding stage_open_def by (blast intro: hoareI)
qed

lemma write_verified_stage_spec:
  "hoare (idle_at F) (write_verified_stage cng api path bytes hash)
     (\<lambda>_ s. idle_at (F(key path \<mapsto> bytes)) s \<and> F (key path) = None)
     (\<lambda>_ s. idle_at_but (key path) F s \<and> (F (key path) \<noteq> None \<longrightarrow> idle_at F s))"
proof -
  let ?k = "key path"
  have stage: "hoare (\<lambda>s. files s = F(?k \<mapsto> []) \<and> opened s = [h \<mapsto> fresh_open ?k])
      (bindE (write_stage_bytes api h bytes) (\<lambda>_. bindE (osE (cf_flush api h) (mk_error Io_failed)) (\<lambda>_.
        verify_stage_file cng api h hash)))
      (\<lambda>_. on (F(?k \<mapsto> bytes)) Map.empty h (fresh_open ?k)) (\<lambda>_. stage_on F ?k h)" for h
    by (intro hoare_bindE [OF hoare_write_stage] hoare_bindE [OF _ hoare_verify_stage_file]
        hoare_conseq [OF hoare_on_keeps [OF keeps_queries(4)]]) (auto simp: stage_open_def fun_upd_def)
  let ?open = "\<lambda>s. cf_create_file api path (GENERIC_READ OR GENERIC_WRITE OR DELETE_ACCESS) 0 CREATE_NEW
      (FILE_ATTRIBUTE_HIDDEN OR FILE_FLAG_WRITE_THROUGH) s"
  have "case r of Inr u \<Rightarrow> idle_at (F(?k \<mapsto> bytes)) t \<and> F ?k = None
      | Inl e \<Rightarrow> idle_at_but ?k F t \<and> (F ?k \<noteq> None \<longrightarrow> idle_at F t)"
    if idle: "idle_at F s" and run: "write_verified_stage cng api path bytes hash s = (r, t)" for s r t
  proof -
    obtain res v where created: "?open s = (res, v)" by (cases "?open s")
    note law = create_new [rule_format, OF conjI [OF _ created]]
    show ?thesis
    proof (cases res)
      case (Inl e)
      then have "idle_at F v" using idle law by (simp add: idle_def)
      then show ?thesis using run created Inl by (auto simp: write_verified_stage_def idle_idle_but)
    next
      case (Inr h)
      then have v: "files v = F(?k \<mapsto> []) \<and> opened v = [h \<mapsto> fresh_open ?k]" and none: "F ?k = None"
        using idle law by (auto simp: idle_def)
      obtain r' w where body: "bindE (write_stage_bytes api h bytes) (\<lambda>_.
          bindE (osE (cf_flush api h) (mk_error Io_failed)) (\<lambda>_. verify_stage_file cng api h hash)) v = (r', w)"
        by (metis prod.exhaust)
      show ?thesis
      proof (cases r')
        case (Inl e)
        from hoareD_Inl [OF stage v body [unfolded Inl]] obtain c where
          "on (F(?k \<mapsto> c)) Map.empty h (fresh_open ?k) w" unfolding stage_open_def by blast
        from mark_close_but [OF this, of ?k] show ?thesis
          using run created body \<open>res = Inr h\<close> Inl none by (auto simp add: write_verified_stage_def fresh_open_def)
      next
        case (Inr u)
        from close_on [OF hoareD_Inr [OF stage v body [unfolded Inr]]] show ?thesis
          using run created body \<open>res = Inr h\<close> Inr none by (auto simp: write_verified_stage_def fresh_open_def)
      qed
    qed
  qed
  then show ?thesis by (fastforce intro: hoareI)
qed

lemma discard_stage_spec:
  assumes "idle_at_but k F s" "key path = k"
  shows "idle_at_but k F (discard_owned_stage_if_matching cng api path hash s)"
proof -
  obtain x where "files s = F(k := x)" "opened s = Map.empty" using assms(1) unfolding idle_but_def by blast
  moreover obtain G where g: "G = F(k := x)" by blast
  ultimately have s: "idle_at G s" by (simp add: idle_def)
  have G: "idle_at_but k G = idle_at_but k F" unfolding g by (rule ext) simp
  let ?open = "\<lambda>s. cf_create_file api path (GENERIC_READ OR DELETE_ACCESS) FILE_SHARE_READ OPEN_EXISTING
      (FILE_FLAG_OPEN_REPARSE_POINT OR FILE_FLAG_SEQUENTIAL_SCAN) s"
  obtain res v where created: "?open s = (res, v)" by (cases "?open s")
  note law = open_existing [rule_format, OF conjI [OF _ created]]
  show ?thesis
  proof (cases res)
    case (Inl e)
    then have "idle_at G v" using s law by (simp add: idle_def)
    from idle_idle_but [OF this, of k] show ?thesis
      using created Inl G by (simp add: discard_owned_stage_if_matching_def)
  next
    case (Inr h)
    then have v: "on G Map.empty h (fresh_open k) v" and "G k \<noteq> None"
      using s law on_fresh [of v h "fresh_open k"] assms(2) by (auto simp: idle_def)
    then obtain c where c: "G (of_key (fresh_open k)) = Some c" by (auto simp: fresh_open_def)
    obtain r w where read: "read_checkpoint_handle cng api h v = (r, w)" by (cases "read_checkpoint_handle cng api h v")
    then have "on G Map.empty h (fresh_open k) w"
      by (rule read_handle_on [OF v c])
    from close_on_but [OF this, of k] mark_close_but [OF this, of k] show ?thesis
      using created Inr read G
      by (auto simp: discard_owned_stage_if_matching_def fresh_open_def split: sum.split)
  qed
qed

end

end
