(* ===== verification/CheckpointStoreCorrect.thy ===== *)
theory CheckpointStoreCorrect
  imports CheckpointStoreRuns
begin

text \<open>
  What creating, replacing and discarding the checkpoint file do to the volume, on every branch.
\<close>

section \<open>The operations\<close>

text \<open>The content \<open>old\<close> is the checkpoint the caller has seen, and \<open>d\<close> may take its place.\<close>

definition accepts_successor ::
  "(byte list \<Rightarrow> byte list) \<Rightarrow> byte list option \<Rightarrow> byte list \<Rightarrow> interruption_checkpoint \<Rightarrow> bool" where
  "accepts_successor H old expected d \<longleftrightarrow>
     (\<exists>bytes p. old = Some bytes \<and> is_record H bytes p \<and> digest_equal (pc_record_hash p) expected \<and>
       validate_checkpoint_transition (pc_checkpoint p) d = success_status)"

lemma hoare_guard_step:
  assumes "c \<Longrightarrow> hoare P (f ()) Q E" "\<And>s. P s \<Longrightarrow> E e s"
  shows "hoare P (bindE (guardE c e) f) Q E"
  using assms by (cases c) (simp_all add: hoare_def failE_def)

lemma hoare_result_step:
  assumes "\<And>x. r = Inr x \<Longrightarrow> hoare P (f x) Q E" "\<And>e s. P s \<Longrightarrow> E e s"
  shows "hoare P (bindE (of_result r) f) Q E"
  using assms by (cases r) (simp_all add: hoare_def failE_def)

text \<open>A step that returns to \<open>P\<close>, with a fact about what it gives.\<close>

lemma hoare_fact_step:
  assumes "hoare P m (\<lambda>x s. P s \<and> A x) (\<lambda>_. P)" "\<And>x. A x \<Longrightarrow> hoare P (f x) Q E" "\<And>e s. P s \<Longrightarrow> E e s"
  shows "hoare P (bindE m f) Q E"
proof (rule hoare_bindE)
  show "hoare P m (\<lambda>x s. A x \<and> P s) E" by (rule hoare_conseq [OF assms(1)]) (auto intro: assms(3))
  show "hoare (\<lambda>s. A x \<and> P s) (f x) Q E" for x by (rule hoare_pure [OF assms(2)])
qed

context checkpoint_disk
begin

lemma hoare_keeps_step:
  assumes "keeps world m" "\<And>x. hoare (idle_at F) (f x) Q E" "\<And>e s. idle_at F s \<Longrightarrow> E e s"
  shows "hoare (idle_at F) (bindE m f) Q E"
proof (rule hoare_bindE)
  show "hoare (idle_at F) m (\<lambda>_. idle_at F) E"
    by (rule hoare_conseq [OF hoare_idle_keeps [OF assms(1), of F]]) (auto intro: assms(3))
qed (rule assms(2))

lemma hoare_stage_step:
  assumes "F (key path) = None \<Longrightarrow> hoare (idle_at (F(key path \<mapsto> bytes))) f Q E"
    "\<And>e s. idle_at_but (key path) F s \<Longrightarrow> E e s"
  shows "hoare (idle_at F) (bindE (write_verified_stage cng api path bytes hash) (\<lambda>_. f)) Q E"
proof (rule hoare_bindE)
  show "hoare (idle_at F) (write_verified_stage cng api path bytes hash)
      (\<lambda>_ s. F (key path) = None \<and> idle_at (F(key path \<mapsto> bytes)) s) E"
    by (rule hoare_conseq [OF write_verified_stage_spec]) (auto intro: assms(2))
qed (rule hoare_pure [OF assms(1)])

lemma hoare_serialize:
  "hoare (idle_at F) (serialize_checkpoint cng c)
     (\<lambda>bytes s. idle_at F s \<and> validate_checkpoint c = success_status \<and> bytes = checkpoint_file H c)
     (\<lambda>_. idle_at F)"
proof -
  have "hoare (idle_at F) (serialize_checkpoint cng c)
     (\<lambda>bytes s. validate_checkpoint c = success_status \<and> bytes = checkpoint_file H c) (\<lambda>_ s. True)"
    by (auto intro!: hoareI dest: serialize_checkpoint_success [OF provider])
  from hoare_conj [OF hoare_idle_keeps [OF disk_keeps_serialize, of F] this] show ?thesis
    by (rule hoare_conseq) auto
qed

lemma commit_create_spec:
  assumes "F (key path) = None" "F (key (stage_path_of path)) = None"
  shows "hoare (idle_at (F(key (stage_path_of path) \<mapsto> bytes)))
     (\<lambda>s. case cf_move_file api (stage_path_of path) path MOVEFILE_WRITE_THROUGH s of
         (Inl native, t) \<Rightarrow>
           (Inl (mk_error Io_failed native), discard_owned_stage_if_matching cng api (stage_path_of path) hash t)
       | (Inr _, t) \<Rightarrow> verify_committed_file cng api path hash t)
     (\<lambda>_. idle_at (F(key path \<mapsto> bytes)))
     (\<lambda>_ s. idle_at_but (key (stage_path_of path)) F s \<or> idle_at (F(key path \<mapsto> bytes)) s)"
    (is "hoare (idle_at ?G) ?commit _ ?E")
proof (rule hoare_at)
  fix s assume s: "idle_at ?G s"
  let ?move = "cf_move_file api (stage_path_of path) path MOVEFILE_WRITE_THROUGH"
  obtain r u where move: "?move s = (r, u)" by (cases "?move s")
  note law = move_file [rule_format, OF conjI [OF _ move]]
  show "hoare (\<lambda>v. v = s) ?commit (\<lambda>_. idle_at (F(key path \<mapsto> bytes))) ?E"
  proof (cases r)
    case (Inl e)
    then have "idle_at ?G u" using s law by (simp add: idle_def)
    from discard_stage_spec [OF idle_idle_but [OF this] refl, of "stage_path_of path" hash] show ?thesis
      using move Inl by (simp add: hoare_def)
  next
    case (Inr x)
    then have "files u = F(key path \<mapsto> bytes)"
      using s law assms stage_key [rule_format, of path] by (auto simp: idle_def fun_eq_iff)
    then have u: "idle_at (F(key path \<mapsto> bytes)) u" using s law by (simp add: idle_def)
    have "hoare (\<lambda>v. v = u) (verify_committed_file cng api path hash) (\<lambda>_. idle_at (F(key path \<mapsto> bytes))) ?E"
      by (rule hoare_conseq [OF verify_committed_spec]) (use u in auto)
    then show ?thesis using move Inr by (simp add: hoare_def)
  qed
qed

lemma create_single_spec:
  fixes path defines "stage \<equiv> stage_path_of path"
  shows "hoare (idle_at F) (create_single_checkpoint cng api path c)
     (\<lambda>_ s. (validate_checkpoint c = success_status \<and> F (key path) = None) \<and>
        idle_at (F(key path \<mapsto> checkpoint_file H c)) s)
     (\<lambda>_ s. idle_at_but (key stage) F s \<or>
        (validate_checkpoint c = success_status \<and> F (key path) = None) \<and>
        idle_at (F(key path \<mapsto> checkpoint_file H c)) s)"
    (is "hoare _ _ ?Q ?E")
proof -
  have fail: "?E e s" if "idle_at F s" for e s using that by (simp add: idle_idle_but)
  have fail': "?E e s" if "idle_at_but (key stage) F s" for e s using that by simp
  show ?thesis
    unfolding create_single_checkpoint_def stage_def [symmetric]
  proof (intro hoare_keeps_step [OF keeps_validate_path _ fail] hoare_fact_step [OF read_single_spec _ fail]
      hoare_guard_step [OF _ fail] hoare_fact_step [OF hoare_serialize _ fail]
      hoare_keeps_step [OF disk_keeps_parse _ fail] hoare_stage_step [OF _ fail'])
    fix existing bytes parsed
    assume seen: "observed_in H (F (key path)) existing" "existing = None"
      and ser: "validate_checkpoint c = success_status \<and> bytes = checkpoint_file H c"
      and free: "F (key stage) = None"
    from seen have none: "F (key path) = None" by (simp add: observed_in_def)
    note commit = commit_create_spec [where F = F, OF none, folded stage_def, OF free, of "checkpoint_file H c" "pc_record_hash parsed"]
    show "hoare (idle_at (F(key stage \<mapsto> bytes)))
       (\<lambda>s. case cf_move_file api stage path MOVEFILE_WRITE_THROUGH s of
         (Inl native, t) \<Rightarrow>
           (Inl (mk_error Io_failed native),
            discard_owned_stage_if_matching cng api stage (pc_record_hash parsed) t)
       | (Inr _, t) \<Rightarrow> verify_committed_file cng api path (pc_record_hash parsed) t) ?Q ?E"
      by (rule hoare_conseq [OF commit]) (use ser none in auto)
  qed
qed

end

text \<open>
  What a failed replacement leaves: the volume up to the stage as it was, or already with the accepted
  successor, or, after one of the two documented errors of \<open>ReplaceFileW\<close>, without the checkpoint.
\<close>

definition replace_failed ::
  "('s \<Rightarrow> 'k \<Rightarrow> byte list option) \<Rightarrow> ('s \<Rightarrow> nat \<Rightarrow> 'k open_file option) \<Rightarrow> 'k \<Rightarrow> 'k \<Rightarrow>
   ('k \<Rightarrow> byte list option) \<Rightarrow> bool \<Rightarrow> byte list \<Rightarrow> error \<Rightarrow> 's \<Rightarrow> bool" where
  "replace_failed files opened k stage F accepted successor e s \<longleftrightarrow>
     idle_but files opened stage F s \<or>
     accepted \<and> idle files opened (F(k \<mapsto> successor)) s \<or>
     accepted \<and> e = mk_error Io_failed ERROR_UNABLE_TO_MOVE_REPLACEMENT \<and> idle_but files opened stage (F(k := None)) s \<or>
     accepted \<and> e = mk_error Io_failed ERROR_UNABLE_TO_MOVE_REPLACEMENT_2 \<and>
       (\<exists>m. m \<noteq> stage \<and> F m = None \<and> idle_but files opened stage (F(k := None, m := F k)) s)"

context checkpoint_disk
begin

lemma read_single_idle:
  assumes "idle_at F s" "read_single_checkpoint cng api path s = (q, t)"
  shows "idle_at F t"
proof (cases q)
  case (Inl e)
  show ?thesis by (rule hoareD_Inl [OF read_single_spec assms(1) assms(2) [unfolded Inl]])
next
  case (Inr x)
  show ?thesis by (rule conjunct1 [OF hoareD_Inr [OF read_single_spec assms(1) assms(2) [unfolded Inr]]])
qed

lemma exchange_spec:
  fixes path defines "stage \<equiv> stage_path_of path"
  assumes free: "F (key stage) = None" and ok: "accepted"
  shows "hoare (idle_at (F(key stage \<mapsto> bytes))) (exchange_stage cng api path expected hash)
     (\<lambda>_. idle_at (F(key path \<mapsto> bytes)))
     (replace_failed files opened (key path) (key stage) F accepted bytes)"
    (is "hoare (idle_at ?G) _ ?Q ?E")
proof (rule hoare_at)
  fix s assume s: "idle_at ?G s"
  have keys: "key stage \<noteq> key path" using stage_key by (simp add: stage_def)
  let ?discard = "discard_owned_stage_if_matching cng api stage hash"
  have discard: "idle_at_but (key stage) K (?discard v)" if "files v = K(key stage := x)" "opened v = Map.empty"
    for K v x
    by (rule discard_stage_spec [OF _ refl]) (use that in \<open>auto simp: idle_but_def\<close>)
  obtain q t where look: "read_single_checkpoint cng api path s = (q, t)"
    by (cases "read_single_checkpoint cng api path s")
  from read_single_idle [OF s look] have t: "idle_at ?G t" .
  show "hoare (\<lambda>v. v = s) (exchange_stage cng api path expected hash) ?Q ?E"
  proof (cases "case q of Inl e \<Rightarrow> False | Inr observed \<Rightarrow> holds_expected observed expected")
    case False
    then show ?thesis
      using look t discard [of t F "Some bytes"] unfolding idle_def
      by (simp add: hoare_def exchange_stage_def replace_failed_def stage_def)
  next
    case seen: True
    let ?replace = "cf_replace_file api path stage None REPLACEFILE_WRITE_THROUGH"
    obtain r u where run: "?replace t = (r, u)" by (cases "?replace t")
    note law = replace_file [rule_format, OF conjI [OF _ run]]
    have result: "exchange_stage cng api path expected hash s =
        (case r of Inl native \<Rightarrow> (Inl (mk_error Io_failed native), ?discard u)
         | Inr _ \<Rightarrow> verify_committed_file cng api path hash u)"
      using seen look run unfolding exchange_stage_def stage_def by simp
    show ?thesis
    proof (cases r)
      case (Inr x)
      then have "files u = F(key path \<mapsto> bytes)" "opened u = Map.empty"
        using t law free keys by (auto simp: idle_def fun_eq_iff)
      then have u: "idle_at (F(key path \<mapsto> bytes)) u" by (simp add: idle_def)
      have "hoare (\<lambda>v. v = u) (verify_committed_file cng api path hash) ?Q ?E"
        by (rule hoare_conseq [OF verify_committed_spec]) (use u ok in \<open>auto simp: replace_failed_def\<close>)
      then show ?thesis using result Inr by (simp add: hoare_def)
    next
      case (Inl e)
      have o: "opened u = Map.empty" using t law by (simp add: idle_def)
      have "?E (mk_error Io_failed e) (?discard u)"
      proof (cases "e = ERROR_UNABLE_TO_MOVE_REPLACEMENT")
        case True
        then have "files u = (F(key path := None))(key stage \<mapsto> bytes)"
          using t law Inl keys by (simp add: idle_def fun_upd_twist)
        from discard [OF this o] show ?thesis using True ok by (simp add: replace_failed_def)
      next
        case not_first: False
        show ?thesis
        proof (cases "e = ERROR_UNABLE_TO_MOVE_REPLACEMENT_2")
          case True
          then obtain m where m: "?G m = None" "files u = ?G(key path := None, m := ?G (key path))"
            using t law Inl by (auto simp: idle_def)
          then have k: "m \<noteq> key stage" "F m = None" by (auto split: if_split_asm)
          have "files u = (F(key path := None, m := F (key path)))(key stage \<mapsto> bytes)"
            using m(2) keys k by (auto simp: fun_eq_iff)
          from discard [OF this o] show ?thesis using True ok k unfolding replace_failed_def by blast
        next
          case False
          then have "files u = ?G" using t law Inl not_first by (simp add: idle_def)
          from discard [OF this o] show ?thesis by (simp add: replace_failed_def)
        qed
      qed
      then show ?thesis using result Inl by (simp add: hoare_def)
    qed
  qed
qed

lemma replace_single_spec:
  fixes path F expected d
  defines "stage \<equiv> stage_path_of path" and "accepted \<equiv> accepts_successor H (F (key path)) expected d"
  shows "hoare (idle_at F) (replace_single_checkpoint cng api path expected d)
     (\<lambda>_ s. accepted \<and> idle_at (F(key path \<mapsto> checkpoint_file H d)) s)
     (replace_failed files opened (key path) (key stage) F accepted (checkpoint_file H d))"
    (is "hoare _ _ ?Q ?E")
proof -
  have fail': "?E e s" if "idle_at_but (key stage) F s" for e s using that by (simp add: replace_failed_def)
  then have fail: "?E e s" if "idle_at F s" for e s using that by (simp add: idle_idle_but)
  show ?thesis
    unfolding replace_single_checkpoint_def stage_def [symmetric]
  proof (intro hoare_keeps_step [OF keeps_validate_path _ fail] hoare_fact_step [OF read_single_spec _ fail]
      hoare_guard_step [OF _ fail] hoare_result_step [OF _ fail] hoare_fact_step [OF hoare_serialize _ fail]
      hoare_keeps_step [OF disk_keeps_parse _ fail] hoare_stage_step [OF _ fail'])
    fix current u bytes parsed
    assume seen: "observed_in H (F (key path)) current" "holds_expected current expected"
      and valid: "validate_checkpoint_transition (pc_checkpoint (the current)) d = Inr u"
      and ser: "validate_checkpoint d = success_status \<and> bytes = checkpoint_file H d"
      and free: "F (key stage) = None"
    have ok: accepted
      using seen valid unfolding accepted_def accepts_successor_def
      by (auto simp: observed_in_def holds_expected_def split: option.splits)
    note exchange = exchange_spec [where F = F and path = path, folded stage_def, OF free ok]
    show "hoare (idle_at (F(key stage \<mapsto> bytes))) (exchange_stage cng api path expected (pc_record_hash parsed)) ?Q ?E"
      by (rule hoare_conseq [OF exchange]) (use ser ok in auto)
  qed
qed

lemma discard_single_spec:
  "hoare (idle_at F) (discard_single_checkpoint cng api path expected)
     (\<lambda>_ s. (\<exists>c p. F (key path) = Some c \<and> is_record H c p \<and> digest_equal (pc_record_hash p) expected) \<and>
        idle_at (F(key path := None)) s)
     (\<lambda>_. idle_at F)"
    (is "hoare _ _ ?Q ?E")
  unfolding discard_single_checkpoint_def
proof (intro hoare_keeps_step [OF keeps_validate_path], rule hoare_at)
  fix s assume s: "idle_at F s"
  obtain r left t where run: "read_existing cng api path (GENERIC_READ OR DELETE_ACCESS) s = ((r, left), t)"
    by (cases "read_existing cng api path (GENERIC_READ OR DELETE_ACCESS) s") auto
  note spec = read_existing_spec [OF s run]
  have reset: "idle_at F (reset_handle api left t)"
    using spec close_on [of F _ "fresh_open (key path)" t] by (cases left) (auto simp: fresh_open_def)
  let ?rest = "\<lambda>s. case read_existing cng api path (GENERIC_READ OR DELETE_ACCESS) s of
         ((Inl e, left), t) \<Rightarrow> (Inl e, reset_handle api left t)
       | ((Inr existing, left), t) \<Rightarrow>
           if \<not> holds_expected existing expected
           then (Inl (mk_error Identity_mismatch ERROR_FILE_INVALID), reset_handle api left t)
           else
             case cf_set_delete api (the left) t of
               (Inl native, u) \<Rightarrow> (Inl (mk_error Io_failed native), reset_handle api left u)
             | (Inr _, u) \<Rightarrow> (Inr (), reset_handle api left u)"
  show "hoare (\<lambda>v. v = s) ?rest ?Q ?E"
  proof (cases "\<exists>p. r = Inr (Some p) \<and> digest_equal (pc_record_hash p) expected")
    case False
    then show ?thesis
      using run reset by (auto simp: hoare_def holds_expected_def split: sum.split option.split)
  next
    case True
    then obtain p where r: "r = Inr (Some p)" and p: "digest_equal (pc_record_hash p) expected" by blast
    with spec obtain h where l: "left = Some h" and on: "on F Map.empty h (fresh_open (key path)) t"
      and seen: "observed_in H (F (key path)) (Some p)"
      by (cases left) auto
    obtain x u where del: "cf_set_delete api h t = (x, u)" by (cases "cf_set_delete api h t")
    have closed: "case x of Inl e \<Rightarrow> idle_at F (cf_close api h u)
        | Inr _ \<Rightarrow> idle_at (F(key path := None)) (cf_close api h u)"
    proof -
      from on obtain n where n: "files t = F" "opened t = [h \<mapsto> (fresh_open (key path))\<lparr>of_position := n\<rparr>]"
        unfolding handle_on_def by blast
      then show ?thesis
        using set_delete [rule_format, of t h _ x u] del close [rule_format, of u h]
        by (auto simp: idle_def fresh_open_def split: sum.split)
    qed
    show ?thesis
      using run r p l del closed seen
      by (auto simp: hoare_def holds_expected_def observed_in_def split: sum.split_asm sum.split)
  qed
qed auto

end

section \<open>A file that holds one checkpoint\<close>

text \<open>The record hash by which a caller names the checkpoint it has seen.\<close>

definition record_hash_of :: "(byte list \<Rightarrow> byte list) \<Rightarrow> interruption_checkpoint \<Rightarrow> byte list" where
  "record_hash_of H c = drop (length (checkpoint_file H c) - 32) (checkpoint_file H c)"

definition cell_content :: "(byte list \<Rightarrow> byte list) \<Rightarrow> interruption_checkpoint option \<Rightarrow> byte list option" where
  "cell_content H = map_option (checkpoint_file H)"

definition cell_ok :: "interruption_checkpoint option \<Rightarrow> bool" where
  "cell_ok cell \<longleftrightarrow> (\<forall>c. cell = Some c \<longrightarrow> validate_checkpoint c = success_status \<and> checkpoint_arrays c)"

text \<open>What the callers may ask for, in any order, and how a cell for one checkpoint answers.\<close>

datatype store_request =
    Read_request
  | Create_request interruption_checkpoint
  | Replace_request "byte list" interruption_checkpoint
  | Discard_request "byte list"

definition perform_request ::
  "'s cng_api \<Rightarrow> 's checkpoint_files \<Rightarrow> wide_string \<Rightarrow> store_request \<Rightarrow> ('s, parsed_checkpoint option) prog" where
  "perform_request cng api path request =
     (case request of
        Read_request \<Rightarrow> read_single_checkpoint cng api path
      | Create_request c \<Rightarrow> bindE (create_single_checkpoint cng api path c) (\<lambda>_. returnE None)
      | Replace_request h d \<Rightarrow> bindE (replace_single_checkpoint cng api path h d) (\<lambda>_. returnE None)
      | Discard_request h \<Rightarrow> bindE (discard_single_checkpoint cng api path h) (\<lambda>_. returnE None))"

fun perform_requests ::
  "'s cng_api \<Rightarrow> 's checkpoint_files \<Rightarrow> wide_string \<Rightarrow> store_request list \<Rightarrow> 's \<Rightarrow>
   parsed_checkpoint option result list \<times> 's" where
  "perform_requests cng api path [] s = ([], s)"
| "perform_requests cng api path (request # requests) s =
     (case perform_request cng api path request s of (x, t) \<Rightarrow>
        case perform_requests cng api path requests t of (xs, u) \<Rightarrow> (x # xs, u))"

fun request_arrays :: "store_request \<Rightarrow> bool" where
  "request_arrays (Create_request c) \<longleftrightarrow> checkpoint_arrays c"
| "request_arrays (Replace_request h d) \<longleftrightarrow> checkpoint_arrays d"
| "request_arrays _ \<longleftrightarrow> True"

definition may_replace ::
  "(byte list \<Rightarrow> byte list) \<Rightarrow> interruption_checkpoint option \<Rightarrow> byte list \<Rightarrow> interruption_checkpoint \<Rightarrow> bool" where
  "may_replace H cell h d \<longleftrightarrow>
     (case cell of None \<Rightarrow> False | Some c \<Rightarrow>
        digest_equal (record_hash_of H c) h \<and> validate_checkpoint_transition c d = success_status)"

definition cell_response ::
  "(byte list \<Rightarrow> byte list) \<Rightarrow> store_request \<Rightarrow> interruption_checkpoint option \<Rightarrow>
   parsed_checkpoint option result \<Rightarrow> interruption_checkpoint option \<Rightarrow> bool" where
  "cell_response H request cell x cell' \<longleftrightarrow>
     (case request of
        Read_request \<Rightarrow> cell' = cell \<and> (\<forall>q. x = Inr q \<longrightarrow> map_option pc_checkpoint q = cell)
      | Create_request c \<Rightarrow>
          cell = None \<and> validate_checkpoint c = success_status \<and> cell' = Some c \<or> isl x \<and> cell' = cell
      | Replace_request h d \<Rightarrow> may_replace H cell h d \<and> cell' = Some d \<or> isl x \<and> cell' = cell
      | Discard_request h \<Rightarrow>
          if isl x then cell' = cell
          else (\<exists>c. cell = Some c \<and> digest_equal (record_hash_of H c) h) \<and> cell' = None)"

inductive cell_run ::
  "(byte list \<Rightarrow> byte list) \<Rightarrow> interruption_checkpoint option \<Rightarrow> store_request list \<Rightarrow>
   parsed_checkpoint option result list \<Rightarrow> interruption_checkpoint option \<Rightarrow> bool"
  for H :: "byte list \<Rightarrow> byte list" where
  run_end: "cell_run H cell [] [] cell"
| run_request: "cell_response H request cell x mid \<Longrightarrow> cell_run H mid requests xs cell' \<Longrightarrow>
    cell_run H cell (request # requests) (x # xs) cell'"

text \<open>The two errors of \<open>ReplaceFileW\<close> after which the replaced file is not where it was.\<close>

definition replaced_file_lost :: "'a result \<Rightarrow> bool" where
  "replaced_file_lost x \<longleftrightarrow>
     x = Inl (mk_error Io_failed ERROR_UNABLE_TO_MOVE_REPLACEMENT) \<or>
     x = Inl (mk_error Io_failed ERROR_UNABLE_TO_MOVE_REPLACEMENT_2)"

lemma cell_response_ok:
  "cell_response H request cell x cell' \<Longrightarrow> request_arrays request \<Longrightarrow> cell_ok cell \<Longrightarrow> cell_ok cell'"
proof -
  have "validate_checkpoint d = success_status" if "validate_checkpoint_transition c d = success_status" for c d
    using that by (auto simp: validate_checkpoint_transition_def Let_def split: if_split_asm sum.split_asm)
  then show "cell_response H request cell x cell' \<Longrightarrow> request_arrays request \<Longrightarrow> cell_ok cell \<Longrightarrow> cell_ok cell'"
    by (auto simp: cell_response_def cell_ok_def may_replace_def split: store_request.split_asm option.split_asm
      if_split_asm)
qed

text \<open>The records of a cell's content are the cell.\<close>

context checkpoint_disk
begin

lemma record_unique:
  assumes "is_record H (checkpoint_file H c) p" "cell_ok (Some c)"
  shows "pc_checkpoint p = c"
proof -
  fix s
  have c: "validate_checkpoint c = success_status" "checkpoint_arrays c" using assms(2) by (simp_all add: cell_ok_def)
  have p: "validate_checkpoint (pc_checkpoint p) = success_status" "checkpoint_arrays (pc_checkpoint p)"
    "checkpoint_file H (pc_checkpoint p) = checkpoint_file H c" "length (checkpoint_file H c) \<le> kMaximumCheckpointBytes"
    using assms(1) unfolding is_record_def by metis+
  have fits: "48 + length (body_bytes c) \<le> kMaximumCheckpointBytes"
    "48 + length (body_bytes (pc_checkpoint p)) \<le> kMaximumCheckpointBytes"
    using p(3,4) length_checkpoint_file [OF provider, of c] length_checkpoint_file [OF provider, of "pc_checkpoint p"]
    by simp_all
  from parse_checkpoint_file [OF provider c fits(1), of s] parse_checkpoint_file [OF provider p(1,2) fits(2), of s] p(3)
  show ?thesis by auto
qed

lemma observed_cell:
  assumes "observed_in H (cell_content H cell) q" "cell_ok cell"
  shows "map_option pc_checkpoint q = cell"
  using assms record_unique by (cases q; cases cell) (auto simp: observed_in_def cell_content_def)

lemma accepts_cell:
  assumes "accepts_successor H (cell_content H cell) h d" "cell_ok cell"
  shows "may_replace H cell h d"
proof -
  from assms(1) obtain c p where c: "cell = Some c" and p: "is_record H (checkpoint_file H c) p"
    "digest_equal (pc_record_hash p) h" "validate_checkpoint_transition (pc_checkpoint p) d = success_status"
    by (auto simp: accepts_successor_def cell_content_def)
  from record_unique [OF p(1)] p c assms(2) show ?thesis
    by (simp add: may_replace_def record_hash_of_def is_record_def)
qed

end

text \<open>One request and a sequence of them, seen from the file \<open>key path\<close>.\<close>

definition cell_state ::
  "(byte list \<Rightarrow> byte list) \<Rightarrow> ('s \<Rightarrow> 'k \<Rightarrow> byte list option) \<Rightarrow> ('s \<Rightarrow> nat \<Rightarrow> 'k open_file option) \<Rightarrow> 'k \<Rightarrow> 'k \<Rightarrow>
   ('k \<Rightarrow> byte list option) \<Rightarrow> interruption_checkpoint option \<Rightarrow> 's \<Rightarrow> bool" where
  "cell_state H files opened k stage F cell s \<longleftrightarrow>
     opened s = Map.empty \<and> files s k = cell_content H cell \<and>
     (\<forall>m. m \<noteq> k \<and> m \<noteq> stage \<longrightarrow> files s m = F m)"

context checkpoint_disk
begin

lemma idle_but_cell:
  assumes "idle_at_but (key (stage_path_of path)) G t" "G (key path) = cell_content H cell"
    "\<forall>m. m \<noteq> key path \<and> m \<noteq> key (stage_path_of path) \<longrightarrow> G m = F m"
  shows "cell_state H files opened (key path) (key (stage_path_of path)) F cell t"
  using assms stage_key [rule_format, of path] by (auto simp: idle_but_def cell_state_def)

lemma idle_cell:
  assumes "idle_at G t" "G (key path) = cell_content H cell"
    "\<forall>m. m \<noteq> key path \<and> m \<noteq> key (stage_path_of path) \<longrightarrow> G m = F m"
  shows "cell_state H files opened (key path) (key (stage_path_of path)) F cell t"
  by (rule idle_but_cell [OF idle_idle_but [OF assms(1)] assms(2,3)])

lemma perform_request_cell:
  fixes path defines "st \<equiv> cell_state H files opened (key path) (key (stage_path_of path))"
  assumes s: "st F cell s" and ok: "cell_ok cell" and arrays: "request_arrays request"
    and run: "perform_request cng api path request s = (x, t)" and kept: "\<not> replaced_file_lost x"
  shows "\<exists>cell'. cell_response H request cell x cell' \<and> st F cell' t"
proof -
  have idle: "idle_at (files s) s" and cell: "files s (key path) = cell_content H cell"
    and others: "\<forall>m. m \<noteq> key path \<and> m \<noteq> key (stage_path_of path) \<longrightarrow> files s m = F m"
    using s by (simp_all add: st_def cell_state_def idle_def)
  note same = idle_cell [OF _ cell others, folded st_def] and same' = idle_but_cell [OF _ cell others, folded st_def]
  have changed: "st F (Some c) v" if "idle_at ((files s)(key path \<mapsto> checkpoint_file H c)) v" for c v
    unfolding st_def by (rule idle_cell [OF that]) (use others in \<open>auto simp: cell_content_def\<close>)
  show ?thesis
  proof (cases request)
    case Read_request
    then have "read_single_checkpoint cng api path s = (x, t)" using run by (simp add: perform_request_def)
    note read = this
    have "map_option pc_checkpoint q = cell" if "x = Inr q" for q
    proof -
      from hoareD_Inr [OF read_single_spec idle read [unfolded that]] have "observed_in H (cell_content H cell) q"
        using cell by simp
      then show ?thesis by (rule observed_cell [OF _ ok])
    qed
    then show ?thesis
      using same [OF read_single_idle [OF idle read]] Read_request
      by (intro exI [of _ cell]) (simp add: cell_response_def)
  next
    case (Create_request c)
    show ?thesis
    proof (cases x)
      case (Inl e)
      then have "create_single_checkpoint cng api path c s = (Inl e, t)"
        using run Create_request by (auto simp: perform_request_def bindE_eq_Inl)
      from hoareD_Inl [OF create_single_spec idle this] show ?thesis
        using same' [of t] changed [of c t] cell Create_request Inl ok
        by (auto simp: cell_response_def cell_content_def)
    next
      case (Inr q)
      then have "create_single_checkpoint cng api path c s = (Inr (), t)"
        using run Create_request by (auto simp: perform_request_def bindE_eq_Inr)
      from hoareD_Inr [OF create_single_spec idle this] show ?thesis
        using changed [of c t] cell Create_request Inr by (auto simp: cell_response_def cell_content_def)
    qed
  next
    case (Replace_request h d)
    note accepts = accepts_cell [OF _ ok, of h d]
    show ?thesis
    proof (cases x)
      case (Inl e)
      then have "replace_single_checkpoint cng api path h d s = (Inl e, t)"
        using run Replace_request by (auto simp: perform_request_def bindE_eq_Inl)
      from hoareD_Inl [OF replace_single_spec idle this] show ?thesis
        using same' [of t] changed [of d t] cell Replace_request Inl accepts kept
        by (auto simp: cell_response_def replace_failed_def replaced_file_lost_def)
    next
      case (Inr q)
      then have "replace_single_checkpoint cng api path h d s = (Inr (), t)"
        using run Replace_request by (auto simp: perform_request_def bindE_eq_Inr)
      from hoareD_Inr [OF replace_single_spec idle this] show ?thesis
        using changed [of d t] cell Replace_request accepts by (auto simp: cell_response_def)
    qed
  next
    case (Discard_request h)
    show ?thesis
    proof (cases x)
      case (Inl e)
      then have "discard_single_checkpoint cng api path h s = (Inl e, t)"
        using run Discard_request by (auto simp: perform_request_def bindE_eq_Inl)
      from same [OF hoareD_Inl [OF discard_single_spec idle this]] show ?thesis
        using Discard_request Inl by (intro exI [of _ cell]) (simp add: cell_response_def)
    next
      case (Inr q)
      then have "discard_single_checkpoint cng api path h s = (Inr (), t)"
        using run Discard_request by (auto simp: perform_request_def bindE_eq_Inr)
      note gone = hoareD_Inr [OF discard_single_spec idle this]
      have "st F None t"
        unfolding st_def by (rule idle_cell [OF conjunct2 [OF gone]]) (use others in \<open>auto simp: cell_content_def\<close>)
      moreover have "\<exists>c. cell = Some c \<and> digest_equal (record_hash_of H c) h"
        using gone cell by (auto simp: cell_content_def is_record_def record_hash_of_def)
      ultimately show ?thesis
        using Discard_request Inr by (intro exI [of _ None]) (simp add: cell_response_def)
    qed
  qed
qed

lemma perform_requests_cell:
  fixes path defines "st \<equiv> cell_state H files opened (key path) (key (stage_path_of path))"
  assumes "perform_requests cng api path requests s = (results, t)" "st F cell s" "cell_ok cell"
    "\<forall>request \<in> set requests. request_arrays request" "\<forall>x \<in> set results. \<not> replaced_file_lost x"
  shows "\<exists>cell'. cell_run H cell requests results cell' \<and> st F cell' t"
  using assms(2-)
proof (induction requests arbitrary: cell s results)
  case Nil
  then show ?case by (auto intro: run_end)
next
  case (Cons request requests)
  obtain x u xs where one: "perform_request cng api path request s = (x, u)"
    and rest: "perform_requests cng api path requests u = (xs, t)" and results: "results = x # xs"
    using Cons.prems(1) by (auto split: prod.split_asm)
  obtain mid where mid: "cell_response H request cell x mid" "st F mid u"
    using perform_request_cell [of path F cell s request x u] one Cons.prems results
    unfolding st_def by auto
  have "cell_ok mid" using cell_response_ok [OF mid(1)] Cons.prems by simp
  from Cons.IH [OF rest mid(2) this] Cons.prems results obtain cell'
    where "cell_run H mid requests xs cell'" "st F cell' t" by auto
  then show ?case using run_request [OF mid(1)] results by blast
qed

end

section \<open>Without discarding\<close>

fun is_discard :: "store_request \<Rightarrow> bool" where
  "is_discard (Discard_request h) \<longleftrightarrow> True"
| "is_discard _ \<longleftrightarrow> False"

lemma cell_run_updates:
  assumes "cell_run H cell requests results cell'" "cell = Some c" "checkpoint_updates a n c"
    "\<forall>request \<in> set requests. request_arrays request \<and> \<not> is_discard request"
  shows "\<exists>k d. cell' = Some d \<and> checkpoint_updates a k d"
  using assms
proof (induction arbitrary: c n)
  case (run_end cell)
  then show ?case by blast
next
  case (run_request request cell x mid requests xs cell')
  have "\<exists>k d. mid = Some d \<and> checkpoint_updates a k d"
    using run_request.hyps(1) run_request.prems one_update [OF run_request.prems(2)]
    by (cases request) (auto simp: cell_response_def may_replace_def)
  then show ?case using run_request.IH run_request.prems(3) by auto
qed

section \<open>A file that is not a checkpoint\<close>

definition foreign_content :: "(byte list \<Rightarrow> byte list) \<Rightarrow> byte list \<Rightarrow> bool" where
  "foreign_content H bytes \<longleftrightarrow> \<not> (\<exists>p. is_record H bytes p)"

context checkpoint_disk
begin

lemma perform_request_foreign:
  assumes s: "opened s = Map.empty" "files s (key path) = Some bytes" and foreign: "foreign_content H bytes"
    and run: "perform_request cng api path request s = (x, t)"
  shows "isl x \<and> idle_at_but (key (stage_path_of path)) (files s) t"
proof -
  have idle: "idle_at (files s) s" using s by (simp add: idle_def)
  have seen: "\<not> observed_in H (files s (key path)) q" for q
    using s(2) foreign by (auto simp: observed_in_def foreign_content_def split: option.split)
  have no: "\<not> accepts_successor H (files s (key path)) h d" for h d
    using s(2) foreign by (auto simp: accepts_successor_def foreign_content_def)
  show ?thesis
  proof (cases request)
    case Read_request
    then show ?thesis
      using run hoareD_Inr [OF read_single_spec [of "files s" path] idle] hoareD_Inl [OF read_single_spec [of "files s" path] idle] seen
      by (cases x) (auto simp: perform_request_def idle_idle_but)
  next
    case (Create_request c)
    note spec = create_single_spec [of "files s" path c]
    show ?thesis
      using run Create_request hoareD_Inr [OF spec idle] hoareD_Inl [OF spec idle] s(2)
      by (cases x) (auto simp: perform_request_def bindE_eq_Inr bindE_eq_Inl)
  next
    case (Replace_request h d)
    note spec = replace_single_spec [of "files s" path h d]
    show ?thesis
      using run Replace_request hoareD_Inr [OF spec idle] hoareD_Inl [OF spec idle] no
      by (cases x) (auto simp: perform_request_def bindE_eq_Inr bindE_eq_Inl replace_failed_def)
  next
    case (Discard_request h)
    note spec = discard_single_spec [of "files s" path h]
    show ?thesis
      using run Discard_request hoareD_Inr [OF spec idle] hoareD_Inl [OF spec idle] s(2) foreign
      by (cases x) (auto simp: perform_request_def bindE_eq_Inr bindE_eq_Inl foreign_content_def idle_idle_but)
  qed
qed

lemma perform_requests_foreign:
  assumes "perform_requests cng api path requests s = (results, t)" "opened s = Map.empty"
    "files s (key path) = Some bytes" "foreign_content H bytes"
  shows "(\<forall>x \<in> set results. isl x) \<and> idle_at_but (key (stage_path_of path)) (files s) t"
  using assms
proof (induction requests arbitrary: s results)
  case Nil
  then have "idle_at (files s) t" by (simp add: idle_def)
  then show ?case using Nil.prems by (simp add: idle_idle_but)
next
  case (Cons request requests)
  obtain x u xs where one: "perform_request cng api path request s = (x, u)"
    and rest: "perform_requests cng api path requests u = (xs, t)" and results: "results = x # xs"
    using Cons.prems(1) by (auto split: prod.split_asm)
  note first = perform_request_foreign [OF Cons.prems(2,3,4) one]
  then obtain v where v: "files u = (files s)(key (stage_path_of path) := v)" "opened u = Map.empty"
    by (auto simp: idle_but_def)
  then have "files u (key path) = Some bytes" using Cons.prems(3) stage_key [rule_format, of path] by simp
  from Cons.IH [OF rest v(2) this Cons.prems(4)] first show ?case
    unfolding v(1) idle_but_upd results by simp
qed

end

end
