(* ===== verification/CheckpointStoreMemory.thy ===== *)
theory CheckpointStoreMemory
  imports CheckpointStoreCorrect
begin

text \<open>
  A volume in memory, which keeps the laws of \<^theory_text>\<open>checkpoint_disk\<close> and can be told to fail a
  \<open>ReplaceFileW\<close> the way Windows documents it, and the properties of the checkpoint file.
\<close>

section \<open>A volume in memory\<close>

record memory_volume =
  mv_files :: "wide_string \<Rightarrow> byte list option"
  mv_open :: "nat \<Rightarrow> wide_string open_file option"
  mv_replacement_fails :: bool
  mv_hash_buffer :: "byte list"

abbreviation volume_cng :: "memory_volume cng_api" where
  "volume_cng \<equiv> memory_cng mv_hash_buffer (\<lambda>b v. v\<lparr>mv_hash_buffer := b\<rparr>)"

definition mv_create :: "wide_string \<Rightarrow> u32 \<Rightarrow> u32 \<Rightarrow> u32 \<Rightarrow> u32 \<Rightarrow> (memory_volume, nat) os_call" where
  "mv_create path access share disposition flags v =
     (if mv_open v 1 \<noteq> None then (Inl 4, v)
      else if disposition = CREATE_NEW then
        if mv_files v path \<noteq> None then (Inl ERROR_FILE_EXISTS, v)
        else (Inr 1, v\<lparr>mv_files := (mv_files v)(path \<mapsto> []), mv_open := (mv_open v)(1 \<mapsto> fresh_open path)\<rparr>)
      else if mv_files v path = None then (Inl ERROR_FILE_NOT_FOUND, v)
      else (Inr 1, v\<lparr>mv_open := (mv_open v)(1 \<mapsto> fresh_open path)\<rparr>))"

text \<open>The open file of a handle and its content.\<close>

definition mv_content :: "memory_volume \<Rightarrow> nat \<Rightarrow> (wide_string open_file \<times> byte list) option" where
  "mv_content v h =
     (case mv_open v h of None \<Rightarrow> None | Some f \<Rightarrow> map_option (Pair f) (mv_files v (of_key f)))"

definition mv_update_open :: "nat \<Rightarrow> (wide_string open_file \<Rightarrow> wide_string open_file) \<Rightarrow> (memory_volume, unit) os_call" where
  "mv_update_open h g v =
     (case mv_open v h of None \<Rightarrow> (Inl 6, v) | Some f \<Rightarrow> (Inr (), v\<lparr>mv_open := (mv_open v)(h \<mapsto> g f)\<rparr>))"

definition mv_size :: "nat \<Rightarrow> (memory_volume, int) os_call" where
  "mv_size h v = (case mv_content v h of None \<Rightarrow> (Inl 6, v) | Some (f, c) \<Rightarrow> (Inr (int (length c)), v))"

definition mv_read :: "nat \<Rightarrow> nat \<Rightarrow> memory_volume \<Rightarrow> (bool \<times> byte list \<times> u32) \<times> memory_volume" where
  "mv_read h n v =
     (case mv_content v h of None \<Rightarrow> ((False, [], 6), v)
      | Some (f, c) \<Rightarrow>
          ((True, take n (drop (of_position f) c), 0),
           v\<lparr>mv_open := (mv_open v)(h \<mapsto> f\<lparr>of_position := of_position f + n\<rparr>)\<rparr>))"

definition mv_write :: "nat \<Rightarrow> byte list \<Rightarrow> memory_volume \<Rightarrow> (bool \<times> nat \<times> u32) \<times> memory_volume" where
  "mv_write h bytes v =
     (case mv_content v h of None \<Rightarrow> ((False, 0, 6), v)
      | Some (f, c) \<Rightarrow>
          ((True, length bytes, 0),
           v\<lparr>mv_files := (mv_files v)(of_key f \<mapsto> overwrite c (of_position f) bytes),
             mv_open := (mv_open v)(h \<mapsto> f\<lparr>of_position := of_position f + length bytes\<rparr>)\<rparr>))"

definition mv_close :: "nat \<Rightarrow> memory_volume \<Rightarrow> memory_volume" where
  "mv_close h v =
     (case mv_open v h of None \<Rightarrow> v
      | Some f \<Rightarrow>
          v\<lparr>mv_files := (if of_delete f then (mv_files v)(of_key f := None) else mv_files v),
            mv_open := (mv_open v)(h := None)\<rparr>)"

definition mv_move :: "wide_string \<Rightarrow> wide_string \<Rightarrow> u32 \<Rightarrow> (memory_volume, unit) os_call" where
  "mv_move p q flags v =
     (if mv_files v p = None then (Inl ERROR_FILE_NOT_FOUND, v)
      else if mv_files v q \<noteq> None then (Inl 183, v)
      else (Inr (), v\<lparr>mv_files := (mv_files v)(p := None, q := mv_files v p)\<rparr>))"

definition mv_replace :: "wide_string \<Rightarrow> wide_string \<Rightarrow> wide_string option \<Rightarrow> u32 \<Rightarrow> (memory_volume, unit) os_call" where
  "mv_replace p q backup flags v =
     (if mv_files v p = None \<or> mv_files v q = None then (Inl ERROR_FILE_NOT_FOUND, v)
      else if mv_replacement_fails v
      then (Inl ERROR_UNABLE_TO_MOVE_REPLACEMENT, v\<lparr>mv_files := (mv_files v)(p := None)\<rparr>)
      else (Inr (), v\<lparr>mv_files := (mv_files v)(p := mv_files v q, q := None)\<rparr>))"

definition volume_files :: "memory_volume checkpoint_files" where
  "volume_files =
     \<lparr>cf_iswalpha = (\<lambda>c. 65 \<le> c \<and> c \<le> 90 \<or> 97 \<le> c \<and> c \<le> 122),
      cf_equal_ordinal_ignore_case = (\<lambda>x y. x = y),
      cf_get_attributes = (\<lambda>p v. (Inr FILE_ATTRIBUTE_DIRECTORY, v)),
      cf_create_file = mv_create,
      cf_get_information = (\<lambda>h v. (Inr 0x80, v)),
      cf_get_size = mv_size,
      cf_set_pointer = (\<lambda>h n. mv_update_open h (\<lambda>f. f\<lparr>of_position := n\<rparr>)),
      cf_read_file = mv_read,
      cf_write_file = mv_write,
      cf_flush = (\<lambda>h v. (Inr (), v)),
      cf_set_delete = (\<lambda>h. mv_update_open h (\<lambda>f. f\<lparr>of_delete := True\<rparr>)),
      cf_close = mv_close,
      cf_move_file = mv_move,
      cf_replace_file = mv_replace\<rparr>"

lemmas volume_defs = volume_files_def mv_create_def mv_content_def mv_update_open_def mv_size_def mv_read_def
  mv_write_def mv_close_def mv_move_def mv_replace_def

lemma volume_sha256: "sha256 volume_cng bytes v = (Inr (checksum bytes), v\<lparr>mv_hash_buffer := bytes\<rparr>)"
proof -
  have "hash_all volume_cng 1 bytes (v\<lparr>mv_hash_buffer := []\<rparr>) = (Inr (), v\<lparr>mv_hash_buffer := bytes\<rparr>)"
    by (subst memory_cng_all) simp_all
  then show ?thesis
    by (simp add: sha256_def bindE_def liftE_def bcrypt_success_def returnE_def memory_cng_def)
qed

interpretation volume_disk: checkpoint_disk volume_cng checksum volume_files id mv_files mv_open
proof
  show "\<forall>b s. \<exists>t. sha256 volume_cng b s = (Inr (checksum b), t) \<and> length (checksum b) = 32 \<and>
      mv_files t = mv_files s \<and> mv_open t = mv_open s"
    by (simp add: volume_sha256 checksum_def)
  show "\<forall>p. id (stage_path_of p) \<noteq> id p"
    by (simp add: stage_path_of_def wide_def)
qed (auto simp: volume_defs overwrite_def fresh_open_def fun_upd_twist split: option.split option.split_asm if_split_asm sum.split)

section \<open>Runs on the volume\<close>

text \<open>All of the volume but the hash buffer, and the checkpoints that can be stored.\<close>

definition volume_view :: "memory_volume \<Rightarrow> (wide_string \<Rightarrow> byte list option) \<times> (nat \<Rightarrow> wide_string open_file option) \<times> bool" where
  "volume_view v = (mv_files v, mv_open v, mv_replacement_fails v)"

definition storable :: "interruption_checkpoint \<Rightarrow> bool" where
  "storable c \<longleftrightarrow> validate_checkpoint c = success_status \<and> checkpoint_arrays c \<and>
     48 + length (body_bytes c) \<le> kMaximumCheckpointBytes"

abbreviation volume_file :: "interruption_checkpoint \<Rightarrow> byte list" where
  "volume_file \<equiv> checkpoint_file checksum"

definition volume_record :: "interruption_checkpoint \<Rightarrow> parsed_checkpoint" where
  "volume_record c = \<lparr>pc_checkpoint = c, pc_record_hash = record_hash_of checksum c\<rparr>"

definition usable_path :: "wide_string \<Rightarrow> bool" where
  "usable_path path \<longleftrightarrow> (\<forall>v. validate_path volume_files path v = (Inr (), v))"

lemma volume_length_file: "length (volume_file c) = 48 + length (body_bytes c)"
  by (rule length_checkpoint_file [OF volume_disk.provider])

lemma volume_hash_equal: "digest_equal (record_hash_of checksum c) (record_hash_of checksum c)"
  by (simp add: digest_equal_iff)

lemma volume_keeps_sha256: "keeps volume_view (sha256 volume_cng b)"
  by (rule keepsI) (auto simp: volume_sha256 volume_view_def)

lemma volume_parse:
  assumes "storable c"
  shows "\<exists>t. parse_checkpoint volume_cng (volume_file c) v = (Inr (volume_record c), t) \<and> volume_view t = volume_view v"
proof -
  from parse_checkpoint_file [OF volume_disk.provider, of c v] assms
  obtain t h where run: "parse_checkpoint volume_cng (volume_file c) v = (Inr \<lparr>pc_checkpoint = c, pc_record_hash = h\<rparr>, t)"
    by (auto simp: storable_def)
  have t: "parse_checkpoint volume_cng (volume_file c) v = (Inr (volume_record c), t)"
    using run parse_checkpoint_record_hash(1) [OF run] by (simp add: volume_record_def record_hash_of_def)
  with keepsD [OF keeps_parse_checkpoint [OF volume_keeps_sha256] t] show ?thesis by blast
qed

lemma volume_serialize:
  assumes "storable c"
  shows "\<exists>t. serialize_checkpoint volume_cng c v = (Inr (volume_file c), t) \<and> volume_view t = volume_view v"
proof -
  from serialize_checkpoint_file [OF volume_disk.provider, of c v] assms
  obtain t where t: "serialize_checkpoint volume_cng c v = (Inr (volume_file c), t)"
    by (auto simp: storable_def)
  with keepsD [OF keeps_serialize_checkpoint [OF volume_keeps_sha256] t] show ?thesis by blast
qed

lemma volume_read_handle:
  assumes "mv_open v h = Some f" "mv_files v (of_key f) = Some (volume_file c)" "storable c"
  shows "\<exists>t. read_checkpoint_handle volume_cng volume_files h v = (Inr (volume_record c), t) \<and>
    volume_view t = (mv_files v, (mv_open v)(h \<mapsto> f\<lparr>of_position := length (volume_file c)\<rparr>), mv_replacement_fails v)"
proof -
  let ?n = "length (volume_file c)"
  have size: "0 < ?n" "?n \<le> kMaximumCheckpointBytes" using assms(3) by (simp_all add: volume_length_file storable_def)
  let ?w = "v\<lparr>mv_open := (mv_open v)(h \<mapsto> f\<lparr>of_position := ?n\<rparr>)\<rparr>"
  have read: "read_whole volume_files h ?n (v\<lparr>mv_open := (mv_open v)(h \<mapsto> f\<lparr>of_position := 0\<rparr>)\<rparr>) = (Inr (volume_file c), ?w)"
    using assms by (simp add: read_whole_def volume_files_def mv_read_def mv_content_def)
  have point: "osE (cf_set_pointer volume_files h 0) e v = (Inr (), v\<lparr>mv_open := (mv_open v)(h \<mapsto> f\<lparr>of_position := 0\<rparr>)\<rparr>)" for e
    using assms by (simp add: volume_files_def mv_update_open_def)
  have sized: "osE (cf_get_size volume_files h) e v = (Inr (int ?n), v)" for e
    using assms by (simp add: volume_files_def mv_size_def mv_content_def)
  have info: "osE (cf_get_information volume_files h) e v = (Inr 0x80, v)" for e
    by (simp add: volume_files_def)
  obtain t where "parse_checkpoint volume_cng (volume_file c) ?w = (Inr (volume_record c), t)"
    "volume_view t = volume_view ?w"
    using volume_parse [OF assms(3)] by blast
  then show ?thesis
    using size read point sized info
    by (simp add: read_checkpoint_handle_def bindE_def guardE_def returnE_def info sized point read volume_view_def)
qed

text \<open>Opening a file that exists, and closing it again.\<close>

lemma volume_open:
  assumes "mv_open v = Map.empty" "mv_files v path = Some bytes"
  shows "cf_create_file volume_files path access share OPEN_EXISTING flags v =
    (Inr 1, v\<lparr>mv_open := [1 \<mapsto> fresh_open path]\<rparr>)"
  using assms by (simp add: volume_files_def mv_create_def)

lemma volume_close:
  assumes "volume_view t = (F, [1 \<mapsto> f], x)"
  shows "volume_view (cf_close volume_files 1 t) = (if of_delete f then F(of_key f := None) else F, Map.empty, x)"
  using assms by (auto simp: volume_view_def volume_files_def mv_close_def)

lemma volume_read:
  assumes "usable_path path" "mv_open v = Map.empty" "mv_files v path = Some (volume_file c)" "storable c"
  shows "\<exists>t. read_single_checkpoint volume_cng volume_files path v = (Inr (Some (volume_record c)), t) \<and>
    volume_view t = volume_view v"
proof -
  let ?w = "v\<lparr>mv_open := [1 \<mapsto> fresh_open path]\<rparr>"
  obtain t where t: "read_checkpoint_handle volume_cng volume_files 1 ?w = (Inr (volume_record c), t)"
    "volume_view t = (mv_files v, [1 \<mapsto> (fresh_open path)\<lparr>of_position := length (volume_file c)\<rparr>], mv_replacement_fails v)"
    using volume_read_handle [of ?w 1 "fresh_open path" c] assms by (auto simp: fresh_open_def)
  have "read_single_checkpoint volume_cng volume_files path v = (Inr (Some (volume_record c)), cf_close volume_files 1 t)"
    using assms(1) t(1) volume_open [OF assms(2,3)]
    by (simp add: read_single_checkpoint_def usable_path_def bindE_Inr read_and_close_def read_existing_def)
  then show ?thesis using volume_close [OF t(2)] assms(2) by (simp add: fresh_open_def volume_view_def)
qed

lemma volume_read_absent:
  assumes "usable_path path" "mv_open v = Map.empty" "mv_files v path = None"
  shows "read_single_checkpoint volume_cng volume_files path v = (Inr None, v)"
  using assms
  by (simp add: read_single_checkpoint_def usable_path_def bindE_Inr read_and_close_def read_existing_def
    volume_files_def mv_create_def)

lemma volume_stage:
  assumes "mv_open v = Map.empty" "mv_files v path = None" "storable c"
  shows "\<exists>t. write_verified_stage volume_cng volume_files path (volume_file c) (record_hash_of checksum c) v = (Inr (), t) \<and>
    volume_view t = ((mv_files v)(path \<mapsto> volume_file c), Map.empty, mv_replacement_fails v)"
proof -
  let ?u = "v\<lparr>mv_files := (mv_files v)(path \<mapsto> []), mv_open := [1 \<mapsto> fresh_open path]\<rparr>"
  let ?w = "v\<lparr>mv_files := (mv_files v)(path \<mapsto> volume_file c),
      mv_open := [1 \<mapsto> (fresh_open path)\<lparr>of_position := length (volume_file c)\<rparr>]\<rparr>"
  have created: "cf_create_file volume_files path a sh CREATE_NEW fl v = (Inr 1, ?u)" for a sh fl
    using assms by (simp add: volume_files_def mv_create_def)
  have written: "write_stage_bytes volume_files 1 (volume_file c) ?u = (Inr (), ?w)"
    by (simp add: write_stage_bytes_def volume_files_def mv_write_def mv_content_def fresh_open_def overwrite_def)
  have flushed: "osE (cf_flush volume_files 1) e ?w = (Inr (), ?w)" for e by (simp add: volume_files_def)
  obtain t where t: "read_checkpoint_handle volume_cng volume_files 1 ?w = (Inr (volume_record c), t)"
    "volume_view t = ((mv_files v)(path \<mapsto> volume_file c),
      [1 \<mapsto> (fresh_open path)\<lparr>of_position := length (volume_file c)\<rparr>], mv_replacement_fails v)"
    using volume_read_handle [of ?w 1 "(fresh_open path)\<lparr>of_position := length (volume_file c)\<rparr>" c] assms(3)
    by (auto simp: fresh_open_def)
  have verify: "verify_stage_file volume_cng volume_files 1 (record_hash_of checksum c) ?w = (Inr (), t)"
    using t(1) volume_hash_equal by (simp add: verify_stage_file_def volume_record_def)
  have "write_verified_stage volume_cng volume_files path (volume_file c) (record_hash_of checksum c) v =
      (Inr (), cf_close volume_files 1 t)"
    by (simp add: write_verified_stage_def created bindE_def written flushed verify del: One_nat_def)
  then show ?thesis using volume_close [OF t(2)] by (simp add: fresh_open_def)
qed

lemma volume_discard_stage:
  assumes "mv_open v = Map.empty" "mv_files v path = Some (volume_file c)" "storable c"
  shows "volume_view (discard_owned_stage_if_matching volume_cng volume_files path (record_hash_of checksum c) v) =
    ((mv_files v)(path := None), Map.empty, mv_replacement_fails v)"
proof -
  let ?w = "v\<lparr>mv_open := [1 \<mapsto> fresh_open path]\<rparr>"
  let ?f = "(fresh_open path)\<lparr>of_position := length (volume_file c)\<rparr>"
  obtain t where t: "read_checkpoint_handle volume_cng volume_files 1 ?w = (Inr (volume_record c), t)"
    "volume_view t = (mv_files v, [1 \<mapsto> ?f], mv_replacement_fails v)"
    using volume_read_handle [of ?w 1 "fresh_open path" c] assms by (auto simp: fresh_open_def)
  have "volume_view (mark_owned_file_for_deletion volume_files 1 t) =
      (mv_files v, [1 \<mapsto> ?f\<lparr>of_delete := True\<rparr>], mv_replacement_fails v)"
    using t(2) by (auto simp: mark_owned_file_for_deletion_def volume_files_def mv_update_open_def volume_view_def)
  from volume_close [OF this] show ?thesis
    using t(1) volume_open [OF assms(1,2)] volume_hash_equal
    by (simp add: discard_owned_stage_if_matching_def volume_record_def fresh_open_def)
qed

lemma volume_replace_file: "cf_replace_file volume_files = mv_replace"
  by (simp add: volume_files_def)

lemma volume_replace:
  assumes path: "usable_path path" and idle: "mv_open v = Map.empty"
    and files: "mv_files v path = Some (volume_file c)" "mv_files v (stage_path_of path) = None"
    and c: "storable c" "storable d" and step: "validate_checkpoint_transition c d = success_status"
  shows "\<exists>t. replace_single_checkpoint volume_cng volume_files path (record_hash_of checksum c) d v =
      (if mv_replacement_fails v then Inl (mk_error Io_failed ERROR_UNABLE_TO_MOVE_REPLACEMENT) else Inr (), t) \<and>
    mv_files t = (mv_files v)(path := if mv_replacement_fails v then None else Some (volume_file d)) \<and>
    mv_open t = Map.empty \<and> mv_replacement_fails t = mv_replacement_fails v"
proof -
  let ?stage = "stage_path_of path" and ?h = "record_hash_of checksum d"
  have ne: "?stage \<noteq> path" by (simp add: stage_path_of_def wide_def)
  obtain t1 where t1: "read_single_checkpoint volume_cng volume_files path v = (Inr (Some (volume_record c)), t1)"
    "volume_view t1 = volume_view v"
    using volume_read [OF path idle files(1) c(1)] by blast
  obtain t2 where t2: "serialize_checkpoint volume_cng d t1 = (Inr (volume_file d), t2)" "volume_view t2 = volume_view v"
    using volume_serialize [OF c(2), of t1] t1(2) by auto
  obtain t3 where t3: "parse_checkpoint volume_cng (volume_file d) t2 = (Inr (volume_record d), t3)"
    "volume_view t3 = volume_view v"
    using volume_parse [OF c(2), of t2] t2(2) by auto
  obtain t4 where t4: "write_verified_stage volume_cng volume_files ?stage (volume_file d) ?h t3 = (Inr (), t4)"
    "volume_view t4 = ((mv_files v)(?stage \<mapsto> volume_file d), Map.empty, mv_replacement_fails v)"
    using volume_stage [of t3 ?stage d] t3(2) idle files(2) c(2) by (auto simp: volume_view_def)
  obtain t5 where t5: "read_single_checkpoint volume_cng volume_files path t4 = (Inr (Some (volume_record c)), t5)"
    "volume_view t5 = volume_view t4"
    using volume_read [OF path, of t4 c] t4(2) ne files(1) c(1) by (auto simp: volume_view_def)
  have run: "replace_single_checkpoint volume_cng volume_files path (record_hash_of checksum c) d v =
      (case mv_replace path ?stage None REPLACEFILE_WRITE_THROUGH t5 of
         (Inl native, u) \<Rightarrow>
           (Inl (mk_error Io_failed native), discard_owned_stage_if_matching volume_cng volume_files ?stage ?h u)
       | (Inr _, u) \<Rightarrow> verify_committed_file volume_cng volume_files path ?h u)"
    using path t1(1) t2(1) t3(1) t4(1) t5(1) step volume_hash_equal
    by (simp add: replace_single_checkpoint_def bindE_Inr usable_path_def holds_expected_def volume_record_def
      exchange_stage_def volume_replace_file)
  have v5: "mv_files t5 = (mv_files v)(?stage \<mapsto> volume_file d)" "mv_open t5 = Map.empty"
    "mv_replacement_fails t5 = mv_replacement_fails v"
    using t4(2) t5(2) by (simp_all add: volume_view_def)
  show ?thesis
  proof (cases "mv_replacement_fails v")
    case True
    let ?u = "t5\<lparr>mv_files := (mv_files t5)(path := None)\<rparr>"
    have failed: "mv_replace path ?stage None REPLACEFILE_WRITE_THROUGH t5 = (Inl ERROR_UNABLE_TO_MOVE_REPLACEMENT, ?u)"
      using v5 True files ne by (simp add: mv_replace_def)
    have "volume_view (discard_owned_stage_if_matching volume_cng volume_files ?stage ?h ?u) =
        ((mv_files ?u)(?stage := None), Map.empty, mv_replacement_fails ?u)"
      by (rule volume_discard_stage) (use v5 ne c(2) in auto)
    moreover have "(mv_files ?u)(?stage := None) = (mv_files v)(path := None)"
      using v5(1) files(2) ne by (auto simp: fun_eq_iff)
    ultimately show ?thesis using run failed True v5(3) by (simp add: volume_view_def)
  next
    case False
    let ?u = "t5\<lparr>mv_files := (mv_files t5)(path := mv_files t5 ?stage, ?stage := None)\<rparr>"
    have exchanged: "mv_replace path ?stage None REPLACEFILE_WRITE_THROUGH t5 = (Inr (), ?u)"
      using v5 False files ne by (simp add: mv_replace_def)
    have u: "mv_files ?u = (mv_files v)(path \<mapsto> volume_file d)"
      using v5(1) files(2) ne by (auto simp: fun_eq_iff)
    obtain t6 where t6: "read_single_checkpoint volume_cng volume_files path ?u = (Inr (Some (volume_record d)), t6)"
      "volume_view t6 = volume_view ?u"
      using volume_read [OF path, of ?u d] u v5(2) c(2) by auto
    have "read_and_close volume_cng volume_files path ?u = (Inr (Some (volume_record d)), t6)"
      using t6(1) path by (simp add: read_single_checkpoint_def bindE_def usable_path_def)
    then have "verify_committed_file volume_cng volume_files path ?h ?u = (Inr (), t6)"
      using volume_hash_equal by (simp add: verify_committed_file_def volume_record_def)
    then show ?thesis using run exchanged False t6(2) u v5 by (simp add: volume_view_def)
  qed
qed

section \<open>A concrete path\<close>

definition sample_path :: wide_string where
  "sample_path = wide (''C:'' @ [CHR 0x5C] @ ''tsumugi'' @ [CHR 0x5C] @ ''job.checkpoint'')"

lemma sample_path_eq: "sample_path = [67, 58, 92, 116, 115, 117, 109, 117, 103, 105, 92,
    106, 111, 98, 46, 99, 104, 101, 99, 107, 112, 111, 105, 110, 116]"
  by (simp add: sample_path_def wide_def)

lemma sample_path_usable: "usable_path sample_path"
proof -
  have shape: "path_shape_ok volume_files sample_path"
    unfolding sample_path_eq
    by (simp add: path_shape_ok_def volume_files_def wide_def suffix_def sublist_Cons_right)
  have parents: "separators sample_path 3 = [10]"
    unfolding sample_path_eq separators_def by (simp add: upt_rec)
  show ?thesis
    unfolding usable_path_def validate_path_def parents
    using shape by (simp add: bindE_def guardE_def returnE_def sample_path_eq wide_def volume_files_def osE_def)
qed

section \<open>Creating and discarding on the volume\<close>

lemma volume_verify_committed:
  assumes "usable_path path" "mv_open v = Map.empty" "mv_files v path = Some (volume_file c)" "storable c"
  shows "\<exists>t. verify_committed_file volume_cng volume_files path (record_hash_of checksum c) v = (Inr (), t) \<and>
    volume_view t = volume_view v"
proof -
  obtain t where t: "read_single_checkpoint volume_cng volume_files path v = (Inr (Some (volume_record c)), t)"
    "volume_view t = volume_view v"
    using volume_read [OF assms] by blast
  have "read_and_close volume_cng volume_files path v = (Inr (Some (volume_record c)), t)"
    using t(1) assms(1) by (simp add: read_single_checkpoint_def bindE_def usable_path_def)
  then show ?thesis using t(2) volume_hash_equal by (simp add: verify_committed_file_def volume_record_def)
qed

lemma volume_create:
  assumes path: "usable_path path" and idle: "mv_open v = Map.empty"
    and files: "mv_files v path = None" "mv_files v (stage_path_of path) = None" and c: "storable c"
  shows "\<exists>t. create_single_checkpoint volume_cng volume_files path c v = (Inr (), t) \<and>
    volume_view t = ((mv_files v)(path \<mapsto> volume_file c), Map.empty, mv_replacement_fails v)"
proof -
  let ?stage = "stage_path_of path" and ?h = "record_hash_of checksum c"
  have ne: "?stage \<noteq> path" by (simp add: stage_path_of_def wide_def)
  obtain t2 where t2: "serialize_checkpoint volume_cng c v = (Inr (volume_file c), t2)" "volume_view t2 = volume_view v"
    using volume_serialize [OF c, of v] by auto
  obtain t3 where t3: "parse_checkpoint volume_cng (volume_file c) t2 = (Inr (volume_record c), t3)"
    "volume_view t3 = volume_view v"
    using volume_parse [OF c, of t2] t2(2) by auto
  obtain t4 where t4: "write_verified_stage volume_cng volume_files ?stage (volume_file c) ?h t3 = (Inr (), t4)"
    "volume_view t4 = ((mv_files v)(?stage \<mapsto> volume_file c), Map.empty, mv_replacement_fails v)"
    using volume_stage [of t3 ?stage c] t3(2) idle files(2) c by (auto simp: volume_view_def)
  let ?u = "t4\<lparr>mv_files := (mv_files t4)(?stage := None, path := mv_files t4 ?stage)\<rparr>"
  have moved: "cf_move_file volume_files ?stage path MOVEFILE_WRITE_THROUGH t4 = (Inr (), ?u)"
    using t4(2) files(1) ne by (auto simp: volume_files_def mv_move_def volume_view_def)
  have u: "mv_files ?u = (mv_files v)(path \<mapsto> volume_file c)"
    using t4(2) files(2) ne by (auto simp: fun_eq_iff volume_view_def)
  obtain t5 where t5: "verify_committed_file volume_cng volume_files path ?h ?u = (Inr (), t5)"
    "volume_view t5 = volume_view ?u"
    using volume_verify_committed [OF path, of ?u c] u t4(2) c by (auto simp: volume_view_def)
  show ?thesis
    using path volume_read_absent [OF path idle files(1)] t2(1) t3(1) t4 moved t5 u
    by (simp add: create_single_checkpoint_def bindE_def guardE_def returnE_def usable_path_def volume_record_def
      volume_view_def)
qed

lemma volume_discard:
  assumes "usable_path path" "mv_open v = Map.empty" "mv_files v path = Some (volume_file c)" "storable c"
  shows "\<exists>t. discard_single_checkpoint volume_cng volume_files path (record_hash_of checksum c) v = (Inr (), t) \<and>
    volume_view t = ((mv_files v)(path := None), Map.empty, mv_replacement_fails v)"
proof -
  let ?w = "v\<lparr>mv_open := [1 \<mapsto> fresh_open path]\<rparr>"
  let ?f = "(fresh_open path)\<lparr>of_position := length (volume_file c)\<rparr>"
  obtain t where t: "read_checkpoint_handle volume_cng volume_files 1 ?w = (Inr (volume_record c), t)"
    "volume_view t = (mv_files v, [1 \<mapsto> ?f], mv_replacement_fails v)"
    using volume_read_handle [of ?w 1 "fresh_open path" c] assms by (auto simp: fresh_open_def)
  let ?u = "t\<lparr>mv_open := [1 \<mapsto> ?f\<lparr>of_delete := True\<rparr>]\<rparr>"
  have marked: "cf_set_delete volume_files 1 t = (Inr (), ?u)"
    using t(2) by (auto simp: volume_files_def mv_update_open_def volume_view_def)
  have u: "volume_view ?u = (mv_files v, [1 \<mapsto> ?f\<lparr>of_delete := True\<rparr>], mv_replacement_fails v)"
    using t(2) by (simp add: volume_view_def)
  have "discard_single_checkpoint volume_cng volume_files path (record_hash_of checksum c) v =
      (Inr (), cf_close volume_files 1 ?u)"
    using assms(1) t(1) volume_open [OF assms(2,3)] marked volume_hash_equal
    by (simp add: discard_single_checkpoint_def bindE_def usable_path_def read_existing_def holds_expected_def
      volume_record_def del: One_nat_def)
  then show ?thesis using volume_close [OF u] by (simp add: fresh_open_def)
qed

section \<open>Samples\<close>

lemma sample_storable: "r \<noteq> 0 \<Longrightarrow> v \<le> 4096 \<Longrightarrow> storable (sample_checkpoint r v)"
  unfolding storable_def
  by (simp add: sample_checkpoint_valid sample_checkpoint_arrays)
    (simp add: body_bytes_def fixed_bytes_def sample_checkpoint_def optional_bytes_def identity_bytes_def
      sample_disk_def wstring_bytes_def string_bytes_def)

abbreviation (input) old_sample where "old_sample \<equiv> sample_checkpoint 1 0"
abbreviation (input) new_sample where "new_sample \<equiv> sample_checkpoint 2 4096"

definition sample_volume :: "bool \<Rightarrow> memory_volume" where
  "sample_volume fails =
     \<lparr>mv_files = [sample_path \<mapsto> volume_file old_sample], mv_open = Map.empty, mv_replacement_fails = fails,
      mv_hash_buffer = []\<rparr>"

lemma sample_volume_idle: "mv_open (sample_volume b) = Map.empty"
  "mv_files (sample_volume b) = [sample_path \<mapsto> volume_file old_sample]"
  by (simp_all add: sample_volume_def)

lemma sample_replace:
  "\<exists>t. replace_single_checkpoint volume_cng volume_files sample_path (record_hash_of checksum old_sample) new_sample
      (sample_volume False) = (Inr (), t) \<and> mv_files t = [sample_path \<mapsto> volume_file new_sample] \<and> mv_open t = Map.empty"
  "\<exists>t. replace_single_checkpoint volume_cng volume_files sample_path (record_hash_of checksum old_sample) new_sample
      (sample_volume True) = (Inl (mk_error Io_failed ERROR_UNABLE_TO_MOVE_REPLACEMENT), t) \<and>
    mv_files t = Map.empty \<and> mv_open t = Map.empty"
proof -
  have free: "mv_files (sample_volume b) (stage_path_of sample_path) = None" for b
    by (simp add: sample_volume_def stage_path_of_def wide_def)
  have old: "mv_files (sample_volume b) sample_path = Some (volume_file old_sample)" for b
    by (simp add: sample_volume_def)
  have ok: "storable old_sample" "storable new_sample" by (simp_all add: sample_storable)
  note run = volume_replace [OF sample_path_usable sample_volume_idle(1) old free ok sample_checkpoint_update]
  have fails: "mv_replacement_fails (sample_volume b) = b" for b by (simp add: sample_volume_def)
  show "\<exists>t. replace_single_checkpoint volume_cng volume_files sample_path (record_hash_of checksum old_sample) new_sample
      (sample_volume False) = (Inr (), t) \<and> mv_files t = [sample_path \<mapsto> volume_file new_sample] \<and> mv_open t = Map.empty"
    using run [of False] by (auto simp: fails sample_volume_idle)
  show "\<exists>t. replace_single_checkpoint volume_cng volume_files sample_path (record_hash_of checksum old_sample) new_sample
      (sample_volume True) = (Inl (mk_error Io_failed ERROR_UNABLE_TO_MOVE_REPLACEMENT), t) \<and>
    mv_files t = Map.empty \<and> mv_open t = Map.empty"
    using run [of True] by (auto simp: fails sample_volume_idle)
qed

section \<open>Properties\<close>

text \<open>C11. Replacing the checkpoint: whatever call fails, the file is afterwards either the old
  checkpoint or the complete accepted successor, and no file but it and the stage has changed, unless
  \<open>ReplaceFileW\<close> reports one of its two errors that displace the replaced file.  Success means that
  the old file was the checkpoint the caller named, the successor may follow it, and it is now in
  place with no stage left.\<close>

theorem replace_single_checkpoint_atomic:
  assumes "checkpoint_disk cng H api key files opened" "opened s = Map.empty"
    "replace_single_checkpoint cng api path expected d s = (r, t)"
  shows "opened t = Map.empty \<and>
    (r = Inr () \<longrightarrow> accepts_successor H (files s (key path)) expected d \<and>
       files t = (files s)(key path \<mapsto> checkpoint_file H d)) \<and>
    (\<not> replaced_file_lost r \<longrightarrow>
       (\<forall>k. k \<noteq> key path \<and> k \<noteq> key (stage_path_of path) \<longrightarrow> files t k = files s k) \<and>
       (files t (key path) = files s (key path) \<or>
        accepts_successor H (files s (key path)) expected d \<and> files t (key path) = Some (checkpoint_file H d)))"
proof -
  have idle: "idle files opened (files s) s" using assms(2) by (simp add: idle_def)
  note spec = checkpoint_disk.replace_single_spec [OF assms(1), of "files s" path expected d]
  have keys: "key path \<noteq> key (stage_path_of path)" using checkpoint_disk.stage_key [OF assms(1)] by metis
  show ?thesis
  proof (cases r)
    case (Inl e)
    from hoareD_Inl [OF spec idle assms(3) [unfolded Inl]] keys Inl show ?thesis
      by (auto simp: replace_failed_def idle_def idle_but_def replaced_file_lost_def)
  next
    case (Inr u)
    from hoareD_Inr [OF spec idle assms(3) [unfolded Inr]] Inr show ?thesis by (auto simp: idle_def)
  qed
qed

theorem replace_single_checkpoint_atomic_witness:
  "\<exists>t. replace_single_checkpoint volume_cng volume_files sample_path (record_hash_of checksum old_sample) new_sample
      (sample_volume False) = (Inr (), t) \<and>
    mv_files t = [sample_path \<mapsto> volume_file new_sample] \<and>
    accepts_successor checksum (Some (volume_file old_sample)) (record_hash_of checksum old_sample) new_sample"
proof -
  obtain t where t: "replace_single_checkpoint volume_cng volume_files sample_path (record_hash_of checksum old_sample)
      new_sample (sample_volume False) = (Inr (), t)" using sample_replace(1) by blast
  from replace_single_checkpoint_atomic [OF volume_disk.checkpoint_disk_axioms sample_volume_idle(1) t] t
  show ?thesis by (auto simp: sample_volume_idle)
qed

text \<open>C10. The file of one checkpoint refines a cell, as long as no replacement ends with the two errors
  after which Windows has moved the replaced file away (1176 and 1177): any sequence of readings,
  creations, replacements and discards without them, each failing or not, is answered as a cell answers
  that holds at most one checkpoint.  A reading gives the checkpoint, creating never overwrites, replacing and discarding act
  only on the checkpoint the caller has named by its hash, and a failed request has either not happened
  or happened completely.\<close>

theorem checkpoint_requests_refine_cell:
  assumes "checkpoint_disk cng H api key files opened" "opened s = Map.empty"
    "files s (key path) = cell_content H cell" "cell_ok cell" "\<forall>request \<in> set requests. request_arrays request"
    "perform_requests cng api path requests s = (results, t)" "\<forall>x \<in> set results. \<not> replaced_file_lost x"
  shows "\<exists>cell'. cell_run H cell requests results cell' \<and> files t (key path) = cell_content H cell' \<and>
    opened t = Map.empty \<and> (\<forall>k. k \<noteq> key path \<and> k \<noteq> key (stage_path_of path) \<longrightarrow> files t k = files s k)"
  using checkpoint_disk.perform_requests_cell [OF assms(1,6) _ assms(4,5,7), of "files s"] assms(2,3)
  by (auto simp: cell_state_def)

theorem checkpoint_requests_refine_cell_witness:
  "\<exists>q t cell'. perform_requests volume_cng volume_files sample_path
      [Replace_request (record_hash_of checksum old_sample) new_sample, Read_request] (sample_volume False) =
      ([Inr None, Inr q], t) \<and>
    cell_run checksum (Some old_sample)
      [Replace_request (record_hash_of checksum old_sample) new_sample, Read_request] [Inr None, Inr q] cell' \<and>
    mv_files t sample_path = cell_content checksum cell' \<and> map_option pc_checkpoint q = Some new_sample"
proof -
  let ?requests = "[Replace_request (record_hash_of checksum old_sample) new_sample, Read_request]"
  obtain u where u: "replace_single_checkpoint volume_cng volume_files sample_path (record_hash_of checksum old_sample)
      new_sample (sample_volume False) = (Inr (), u)" "mv_files u = [sample_path \<mapsto> volume_file new_sample]"
    "mv_open u = Map.empty" using sample_replace(1) by blast
  have "storable new_sample" by (simp add: sample_storable)
  with volume_read [OF sample_path_usable u(3), of new_sample] u(2) obtain t where
    t: "read_single_checkpoint volume_cng volume_files sample_path u = (Inr (Some (volume_record new_sample)), t)"
    by auto
  have run: "perform_requests volume_cng volume_files sample_path ?requests (sample_volume False) =
      ([Inr None, Inr (Some (volume_record new_sample))], t)"
    using u(1) t by (simp add: perform_request_def bindE_def returnE_def)
  have ok: "cell_ok (Some old_sample)" by (simp add: cell_ok_def sample_checkpoint_valid sample_checkpoint_arrays)
  from checkpoint_requests_refine_cell [OF volume_disk.checkpoint_disk_axioms sample_volume_idle(1) _ ok _ run]
  obtain cell' where "cell_run checksum (Some old_sample) ?requests [Inr None, Inr (Some (volume_record new_sample))] cell'"
    "mv_files t sample_path = cell_content checksum cell'"
    by (auto simp: sample_volume_idle cell_content_def sample_checkpoint_arrays replaced_file_lost_def)
  with run show ?thesis by (auto simp: volume_record_def)
qed

text \<open>As long as nobody discards it, a stored checkpoint only moves forward: whatever sequence of
  requests is made, the file is afterwards a checkpoint that accepted updates lead to.\<close>

theorem checkpoint_file_only_advances:
  assumes "checkpoint_disk cng H api key files opened" "opened s = Map.empty"
    "files s (key path) = Some (checkpoint_file H c)" "validate_checkpoint c = success_status" "checkpoint_arrays c"
    "\<forall>request \<in> set requests. request_arrays request \<and> \<not> is_discard request"
    "perform_requests cng api path requests s = (results, t)" "\<forall>x \<in> set results. \<not> replaced_file_lost x"
  shows "\<exists>n d. checkpoint_updates c n d \<and> files t (key path) = Some (checkpoint_file H d)"
proof -
  have "cell_ok (Some c)" using assms(4,5) by (simp add: cell_ok_def)
  then obtain cell' where "cell_run H (Some c) requests results cell'" "files t (key path) = cell_content H cell'"
    using checkpoint_disk.perform_requests_cell [OF assms(1,7), of "files s" "Some c"] assms(2,3,6,8)
    by (auto simp: cell_state_def cell_content_def)
  with cell_run_updates [OF _ refl no_update [OF assms(5)] assms(6)] show ?thesis
    by (fastforce simp: cell_content_def)
qed

theorem checkpoint_file_only_advances_witness:
  "\<exists>t n d. perform_requests volume_cng volume_files sample_path
      [Replace_request (record_hash_of checksum old_sample) new_sample] (sample_volume False) = ([Inr None], t) \<and>
    checkpoint_updates old_sample n d \<and> mv_files t sample_path = Some (volume_file d)"
proof -
  let ?requests = "[Replace_request (record_hash_of checksum old_sample) new_sample]"
  obtain t where "replace_single_checkpoint volume_cng volume_files sample_path (record_hash_of checksum old_sample)
      new_sample (sample_volume False) = (Inr (), t)" using sample_replace(1) by blast
  then have run: "perform_requests volume_cng volume_files sample_path ?requests (sample_volume False) = ([Inr None], t)"
    by (simp add: perform_request_def bindE_def returnE_def)
  have "mv_files (sample_volume False) (id sample_path) = Some (volume_file old_sample)" by (simp add: sample_volume_def)
  from checkpoint_file_only_advances [OF volume_disk.checkpoint_disk_axioms sample_volume_idle(1) this _ _ _ run] run
  show ?thesis by (auto simp: sample_checkpoint_valid sample_checkpoint_arrays replaced_file_lost_def)
qed

text \<open>C13. Fail closed: a file at the checkpoint's path that is not a checkpoint makes every request fail,
  and neither its bytes nor any file but the stage are changed.\<close>

theorem checkpoint_foreign_file_kept:
  assumes "checkpoint_disk cng H api key files opened" "opened s = Map.empty" "files s (key path) = Some bytes"
    "foreign_content H bytes" "perform_requests cng api path requests s = (results, t)"
  shows "(\<forall>x \<in> set results. isl x) \<and> files t (key path) = Some bytes \<and>
    (\<forall>k. k \<noteq> key (stage_path_of path) \<longrightarrow> files t k = files s k)"
proof -
  have "key path \<noteq> key (stage_path_of path)" using checkpoint_disk.stage_key [OF assms(1)] by metis
  then show ?thesis
    using checkpoint_disk.perform_requests_foreign [OF assms(1,5,2,3,4)] assms(3) by (auto simp: idle_but_def)
qed

definition foreign_volume :: memory_volume where
  "foreign_volume = (sample_volume False)\<lparr>mv_files := [sample_path \<mapsto> [1, 2, 3]]\<rparr>"

theorem checkpoint_foreign_file_kept_witness:
  "\<exists>x y t. perform_requests volume_cng volume_files sample_path [Create_request old_sample, Discard_request []]
      foreign_volume = ([Inl x, Inl y], t) \<and> mv_files t sample_path = Some [1, 2, 3]"
proof -
  obtain x u where "perform_request volume_cng volume_files sample_path (Create_request old_sample) foreign_volume = (x, u)"
    by (metis prod.exhaust)
  moreover obtain y t where "perform_request volume_cng volume_files sample_path (Discard_request []) u = (y, t)"
    by (metis prod.exhaust)
  ultimately have run: "perform_requests volume_cng volume_files sample_path
      [Create_request old_sample, Discard_request []] foreign_volume = ([x, y], t)" by simp
  have open_file: "mv_open foreign_volume = Map.empty" "mv_files foreign_volume (id sample_path) = Some [1, 2, 3]"
    by (simp_all add: foreign_volume_def sample_volume_def)
  have "foreign_content checksum [1, 2, 3]"
  proof -
    have "is_record checksum bytes p \<Longrightarrow> 48 \<le> length bytes" for bytes p
      by (auto simp: is_record_def volume_length_file)
    then show ?thesis by (fastforce simp: foreign_content_def)
  qed
  from checkpoint_foreign_file_kept [OF volume_disk.checkpoint_disk_axioms open_file this run] run
  show ?thesis by (cases x; cases y) auto
qed

text \<open>C12. The exception to atomicity is real: on a volume where \<open>ReplaceFileW\<close> fails as documented with
  \<open>ERROR_UNABLE_TO_MOVE_REPLACEMENT\<close>, which without a backup name leaves the new record as the only
  copy, the failed replacement deletes that copy too, and no checkpoint is left under either name.\<close>

theorem replace_can_lose_checkpoint:
  "checkpoint_disk volume_cng checksum volume_files id mv_files mv_open \<and>
   (\<exists>t. mv_files (sample_volume True) sample_path = Some (volume_file old_sample) \<and>
     replace_single_checkpoint volume_cng volume_files sample_path (record_hash_of checksum old_sample) new_sample
       (sample_volume True) = (Inl (mk_error Io_failed ERROR_UNABLE_TO_MOVE_REPLACEMENT), t) \<and>
     mv_files t sample_path = None \<and> mv_files t (stage_path_of sample_path) = None)"
  using volume_disk.checkpoint_disk_axioms sample_replace(2) by (auto simp: sample_volume_idle)

text \<open>On a volume whose calls do not fail the operations do their work: a checkpoint that can be
  stored is created, read back, replaced by an accepted successor, read back, and discarded, and the
  files are then as they were.\<close>

lemma checkpoint_session_completes:
  assumes "usable_path path" "mv_open v = Map.empty" "mv_files v path = None" "mv_files v (stage_path_of path) = None"
    "\<not> mv_replacement_fails v" "storable c" "storable d" "validate_checkpoint_transition c d = success_status"
  shows "\<exists>t. perform_requests volume_cng volume_files path
      [Read_request, Create_request c, Read_request, Replace_request (record_hash_of checksum c) d, Read_request,
       Discard_request (record_hash_of checksum d)] v =
      ([Inr None, Inr None, Inr (Some (volume_record c)), Inr None, Inr (Some (volume_record d)), Inr None], t) \<and>
    mv_files t = mv_files v \<and> mv_open t = Map.empty"
proof -
  have ne: "stage_path_of path \<noteq> path" by (simp add: stage_path_of_def wide_def)
  obtain t1 where t1: "create_single_checkpoint volume_cng volume_files path c v = (Inr (), t1)"
    "volume_view t1 = ((mv_files v)(path \<mapsto> volume_file c), Map.empty, False)"
    using volume_create [OF assms(1-4,6)] assms(5) by auto
  obtain t2 where t2: "read_single_checkpoint volume_cng volume_files path t1 = (Inr (Some (volume_record c)), t2)"
    "volume_view t2 = ((mv_files v)(path \<mapsto> volume_file c), Map.empty, False)"
    using volume_read [OF assms(1), of t1 c] t1(2) assms(6) by (auto simp: volume_view_def)
  have "\<exists>t. replace_single_checkpoint volume_cng volume_files path (record_hash_of checksum c) d t2 = (Inr (), t) \<and>
      volume_view t = ((mv_files v)(path \<mapsto> volume_file d), Map.empty, False)"
    using volume_replace [OF assms(1), of t2 c d] t2(2) assms(4,6,7,8) ne by (auto simp: volume_view_def)
  then obtain t3 where
    t3: "replace_single_checkpoint volume_cng volume_files path (record_hash_of checksum c) d t2 = (Inr (), t3)"
      "volume_view t3 = ((mv_files v)(path \<mapsto> volume_file d), Map.empty, False)" by blast
  obtain t4 where t4: "read_single_checkpoint volume_cng volume_files path t3 = (Inr (Some (volume_record d)), t4)"
    "volume_view t4 = ((mv_files v)(path \<mapsto> volume_file d), Map.empty, False)"
    using volume_read [OF assms(1), of t3 d] t3(2) assms(7) by (auto simp: volume_view_def)
  obtain t5 where t5: "discard_single_checkpoint volume_cng volume_files path (record_hash_of checksum d) t4 = (Inr (), t5)"
    "volume_view t5 = ((mv_files v)(path := None), Map.empty, False)"
    using volume_discard [OF assms(1), of t4 d] t4(2) assms(7) by (auto simp: volume_view_def)
  have "(mv_files v)(path := None) = mv_files v" using assms(3) by (simp add: fun_upd_idem)
  then show ?thesis
    using volume_read_absent [OF assms(1-3)] t1(1) t2(1) t3(1) t4(1) t5
    by (simp add: perform_request_def bindE_def returnE_def volume_view_def)
qed

lemma checkpoint_session_completes_example:
  "\<exists>v t. perform_requests volume_cng volume_files sample_path
      [Read_request, Create_request old_sample, Read_request,
       Replace_request (record_hash_of checksum old_sample) new_sample, Read_request,
       Discard_request (record_hash_of checksum new_sample)] v =
      ([Inr None, Inr None, Inr (Some (volume_record old_sample)), Inr None, Inr (Some (volume_record new_sample)), Inr None], t)"
proof -
  let ?v = "(sample_volume False)\<lparr>mv_files := Map.empty\<rparr>"
  have v: "mv_open ?v = Map.empty" "mv_files ?v sample_path = None" "mv_files ?v (stage_path_of sample_path) = None"
    "\<not> mv_replacement_fails ?v" "storable old_sample" "storable new_sample"
    by (simp_all add: sample_volume_def sample_storable)
  from checkpoint_session_completes [OF sample_path_usable v sample_checkpoint_update] show ?thesis by blast
qed

end
