(* ===== verification/ResumeSlot.thy ===== *)
theory ResumeSlot
  imports Checkpoint
begin

text \<open>
  The single resume slot (\<open>OperationCore/src/resume_slot.cpp\<close>): the one file in which an interrupted
  operation leaves its checkpoint, together with the objects that belong to it.  The platform that
  reaches the files is an interface of four operations; every one of them may fail or throw, and none
  is trusted to have done what it reports.  The two further operations of that interface, whose default
  bodies only refuse, are left out.
\<close>

abbreviation (input) ERROR_BUSY :: u32 where "ERROR_BUSY \<equiv> 170"

section \<open>Data\<close>

text \<open>\<open>L"active.checkpoint"\<close>.\<close>

definition kResumeSlotFileName :: wide_string where
  "kResumeSlotFileName =
     [97, 99, 116, 105, 118, 101, 46, 99, 104, 101, 99, 107, 112, 111, 105, 110, 116]"

datatype resume_capability =
    Persistent_exact_restore | Persistent_rescue_restore | Same_process_only_vss_image_create
  | Same_process_only_vss_clone | Same_process_only_pe_image_create | Same_process_only_pe_clone
  | Unsupported_shrink_migration | Unsupported_raw_rescue | Persistent_pe_exact_image_create
  | Unknown_capability u8

datatype resume_lifetime_class = Persistent | Same_process_only | Unsupported

record resume_identity_binding =
  rib_source_identity_hash :: "byte list"
  rib_target_identity_hash :: "byte list"
  rib_output_identity_hash :: "byte list"

record owned_partial_binding =
  rop_operation_id :: "byte list"
  rop_identities :: resume_identity_binding
  rop_file_object_identity_hash :: "byte list"

datatype owned_object_role = Image_partial | Image_resume_journal | Rescue_stage | Unknown_role u8

abbreviation (input) kMaximumResumeOwnedObjects :: nat where "kMaximumResumeOwnedObjects \<equiv> 3"

record owned_object_binding =
  roo_role :: owned_object_role
  roo_operation_id :: "byte list"
  roo_identities :: resume_identity_binding
  roo_file_object_identity_hash :: "byte list"

record owned_object_review_binding =
  rov_role :: owned_object_role
  rov_file_object_identity_hash :: "byte list"

record resume_slot_record =
  rr_capability :: resume_capability
  rr_checkpoint :: parsed_checkpoint
  rr_identities :: resume_identity_binding
  rr_owned_partial :: "owned_partial_binding option"
  rr_owned_objects :: "owned_object_binding list"

record resume_slot_binding =
  rb_capability :: resume_capability
  rb_operation_id :: "byte list"
  rb_identities :: resume_identity_binding
  rb_checkpoint_record_hash :: "byte list"
  rb_partial_file_object_identity_hash :: "byte list option"
  rb_owned_object_file_bindings :: "owned_object_review_binding list"

record file_storage_proof =
  fsp_exists :: bool
  fsp_is_regular_file :: bool
  fsp_is_reparse_free :: bool
  fsp_hard_link_count :: u32

record slot_storage_proof =
  ssp_checkpoint_path :: wide_string
  ssp_paths_are_canonical_local :: bool
  ssp_parent_chain_reparse_free :: bool
  ssp_placement_separated_from_source :: bool
  ssp_checkpoint_and_partial_paths_distinct :: bool
  ssp_checkpoint_file :: file_storage_proof
  ssp_owned_partial_file :: file_storage_proof
  ssp_owned_object_files :: "file_storage_proof list"

record slot_observation =
  so_storage :: slot_storage_proof
  so_slot :: "resume_slot_record option"
  so_observed_owned_partial :: "owned_partial_binding option"
  so_observed_owned_objects :: "owned_object_binding list"

text \<open>\<open>IResumeSlotPlatform\<close>; what an operation returns is \<open>None\<close> when it throws.\<close>

record 's resume_slot_platform =
  observe_fixed_slot :: "'s \<Rightarrow> slot_observation result option \<times> 's"
  create_fixed_slot :: "resume_slot_record \<Rightarrow> 's \<Rightarrow> status option \<times> 's"
  replace_fixed_slot :: "byte list \<Rightarrow> resume_slot_record \<Rightarrow> 's \<Rightarrow> status option \<times> 's"
  discard_fixed_slot :: "resume_slot_binding \<Rightarrow> 's \<Rightarrow> status option \<times> 's"

section \<open>Comparing\<close>

definition identities_equal :: "resume_identity_binding \<Rightarrow> resume_identity_binding \<Rightarrow> bool" where
  "identities_equal left right \<longleftrightarrow>
     digest_equal (rib_source_identity_hash left) (rib_source_identity_hash right) \<and>
     digest_equal (rib_target_identity_hash left) (rib_target_identity_hash right) \<and>
     digest_equal (rib_output_identity_hash left) (rib_output_identity_hash right)"

definition partial_equal :: "owned_partial_binding \<Rightarrow> owned_partial_binding \<Rightarrow> bool" where
  "partial_equal left right \<longleftrightarrow>
     operation_id_equal (rop_operation_id left) (rop_operation_id right) \<and>
     identities_equal (rop_identities left) (rop_identities right) \<and>
     digest_equal (rop_file_object_identity_hash left) (rop_file_object_identity_hash right)"

definition optional_partial_equal ::
  "owned_partial_binding option \<Rightarrow> owned_partial_binding option \<Rightarrow> bool" where
  "optional_partial_equal left right \<longleftrightarrow>
     (case (left, right) of
        (None, None) \<Rightarrow> True
      | (Some l, Some r) \<Rightarrow> partial_equal l r
      | _ \<Rightarrow> False)"

definition owned_object_role_known :: "owned_object_role \<Rightarrow> bool" where
  "owned_object_role_known role \<longleftrightarrow> (case role of Unknown_role n \<Rightarrow> False | _ \<Rightarrow> True)"

definition owned_object_equal :: "owned_object_binding \<Rightarrow> owned_object_binding \<Rightarrow> bool" where
  "owned_object_equal left right \<longleftrightarrow>
     roo_role left = roo_role right \<and>
     operation_id_equal (roo_operation_id left) (roo_operation_id right) \<and>
     identities_equal (roo_identities left) (roo_identities right) \<and>
     digest_equal (roo_file_object_identity_hash left) (roo_file_object_identity_hash right)"

definition owned_objects_equal ::
  "owned_object_binding list \<Rightarrow> owned_object_binding list \<Rightarrow> bool" where
  "owned_objects_equal left right \<longleftrightarrow> list_all2 owned_object_equal left right"

definition review_bindings_equal ::
  "owned_object_review_binding list \<Rightarrow> owned_object_review_binding list \<Rightarrow> bool" where
  "review_bindings_equal left right \<longleftrightarrow>
     list_all2 (\<lambda>l r. rov_role l = rov_role r \<and>
       digest_equal (rov_file_object_identity_hash l) (rov_file_object_identity_hash r)) left right"

definition binding_equal :: "resume_slot_binding \<Rightarrow> resume_slot_binding \<Rightarrow> bool" where
  "binding_equal left right \<longleftrightarrow>
     rb_capability left = rb_capability right \<and>
     operation_id_equal (rb_operation_id left) (rb_operation_id right) \<and>
     identities_equal (rb_identities left) (rb_identities right) \<and>
     digest_equal (rb_checkpoint_record_hash left) (rb_checkpoint_record_hash right) \<and>
     (rb_partial_file_object_identity_hash left \<noteq> None) =
       (rb_partial_file_object_identity_hash right \<noteq> None) \<and>
     review_bindings_equal (rb_owned_object_file_bindings left) (rb_owned_object_file_bindings right) \<and>
     (case (rb_partial_file_object_identity_hash left, rb_partial_file_object_identity_hash right) of
        (Some l, Some r) \<Rightarrow> digest_equal l r
      | _ \<Rightarrow> True)"

definition records_equal :: "resume_slot_record \<Rightarrow> resume_slot_record \<Rightarrow> bool" where
  "records_equal left right \<longleftrightarrow>
     rr_capability left = rr_capability right \<and>
     operation_id_equal (ic_operation_id (pc_checkpoint (rr_checkpoint left)))
       (ic_operation_id (pc_checkpoint (rr_checkpoint right))) \<and>
     identities_equal (rr_identities left) (rr_identities right) \<and>
     digest_equal (pc_record_hash (rr_checkpoint left)) (pc_record_hash (rr_checkpoint right)) \<and>
     optional_partial_equal (rr_owned_partial left) (rr_owned_partial right) \<and>
     owned_objects_equal (rr_owned_objects left) (rr_owned_objects right)"

section \<open>Where the slot lies\<close>

text \<open>The part after the last \<open>\\<close> or \<open>/\<close>.\<close>

definition is_fixed_checkpoint_path :: "wide_string \<Rightarrow> bool" where
  "is_fixed_checkpoint_path path \<longleftrightarrow>
     path \<noteq> [] \<and> last path \<noteq> 92 \<and> last path \<noteq> 47 \<and>
     rev (takeWhile (\<lambda>c. c \<noteq> 92 \<and> c \<noteq> 47) (rev path)) = kResumeSlotFileName"

definition validate_existing_file_proof :: "file_storage_proof \<Rightarrow> status" where
  "validate_existing_file_proof proof_of =
     (if \<not> fsp_exists proof_of then success_status
      else if \<not> fsp_is_regular_file proof_of \<or> \<not> fsp_is_reparse_free proof_of \<or>
        fsp_hard_link_count proof_of \<noteq> 1
      then Inl (mk_error Unsupported_layout ERROR_REPARSE_TAG_INVALID)
      else success_status)"

fun validate_object_files :: "file_storage_proof list \<Rightarrow> status" where
  "validate_object_files [] = success_status"
| "validate_object_files (f # fs) =
     (case validate_existing_file_proof f of Inl e \<Rightarrow> Inl e | Inr _ \<Rightarrow> validate_object_files fs)"

definition validate_storage_shape :: "slot_storage_proof \<Rightarrow> status" where
  "validate_storage_shape storage =
     (if \<not> is_fixed_checkpoint_path (ssp_checkpoint_path storage)
      then Inl (mk_error Invalid_argument ERROR_BAD_PATHNAME)
      else if \<not> ssp_paths_are_canonical_local storage \<or> \<not> ssp_parent_chain_reparse_free storage \<or>
        \<not> ssp_placement_separated_from_source storage \<or>
        \<not> ssp_checkpoint_and_partial_paths_distinct storage
      then Inl (mk_error Unsupported_layout ERROR_REPARSE_TAG_INVALID)
      else
        case validate_existing_file_proof (ssp_checkpoint_file storage) of
          Inl e \<Rightarrow> Inl e
        | Inr _ \<Rightarrow>
       (case validate_existing_file_proof (ssp_owned_partial_file storage) of
          Inl e \<Rightarrow> Inl e
        | Inr _ \<Rightarrow>
          if length (ssp_owned_object_files storage) > kMaximumResumeOwnedObjects
          then Inl (mk_error Invalid_data ERROR_INVALID_DATA)
          else validate_object_files (ssp_owned_object_files storage)))"

section \<open>Records\<close>

definition resume_lifetime :: "resume_capability \<Rightarrow> resume_lifetime_class" where
  "resume_lifetime capability =
     (case capability of
        Persistent_exact_restore \<Rightarrow> Persistent
      | Persistent_rescue_restore \<Rightarrow> Persistent
      | Persistent_pe_exact_image_create \<Rightarrow> Persistent
      | Same_process_only_vss_image_create \<Rightarrow> Same_process_only
      | Same_process_only_vss_clone \<Rightarrow> Same_process_only
      | Same_process_only_pe_image_create \<Rightarrow> Same_process_only
      | Same_process_only_pe_clone \<Rightarrow> Same_process_only
      | Unsupported_shrink_migration \<Rightarrow> Unsupported
      | Unsupported_raw_rescue \<Rightarrow> Unsupported
      | Unknown_capability n \<Rightarrow> Unsupported)"

definition capability_shape_matches ::
  "resume_capability \<Rightarrow> operation_kind \<Rightarrow> operation_environment \<Rightarrow> bool" where
  "capability_shape_matches capability kind environment \<longleftrightarrow>
     (case capability of
        Persistent_exact_restore \<Rightarrow> kind = Image_restore
      | Persistent_rescue_restore \<Rightarrow> kind = Image_restore
      | Persistent_pe_exact_image_create \<Rightarrow> kind = Image_create \<and> environment = Winpe
      | Same_process_only_vss_image_create \<Rightarrow> kind = Image_create \<and> environment = Windows
      | Same_process_only_vss_clone \<Rightarrow> kind = Clone \<and> environment = Windows
      | Same_process_only_pe_image_create \<Rightarrow> kind = Image_create \<and> environment = Winpe
      | Same_process_only_pe_clone \<Rightarrow> kind = Clone \<and> environment = Winpe
      | Unsupported_shrink_migration \<Rightarrow> kind = Clone \<or> kind = Image_create \<or> kind = Image_restore
      | Unsupported_raw_rescue \<Rightarrow> kind = Rescue_clone \<or> kind = Rescue_image
      | Unknown_capability n \<Rightarrow> False)"

definition validate_resume_capability ::
  "resume_capability \<Rightarrow> operation_kind \<Rightarrow> operation_environment \<Rightarrow> status" where
  "validate_resume_capability capability kind environment =
     (if \<not> capability_shape_matches capability kind environment
      then Inl (mk_error Invalid_data ERROR_INVALID_DATA)
      else success_status)"

definition role_byte :: "owned_object_role \<Rightarrow> u8" where
  "role_byte role =
     (case role of Image_partial \<Rightarrow> 1 | Image_resume_journal \<Rightarrow> 2 | Rescue_stage \<Rightarrow> 3 | Unknown_role n \<Rightarrow> n)"

definition owned_partial_ok :: "resume_slot_record \<Rightarrow> bool" where
  "owned_partial_ok r \<longleftrightarrow>
     (case rr_owned_partial r of
        None \<Rightarrow> True
      | Some p \<Rightarrow>
        operation_id_equal (ic_operation_id (pc_checkpoint (rr_checkpoint r))) (rop_operation_id p) \<and>
        identities_equal (rr_identities r) (rop_identities p) \<and>
        \<not> digest_is_zero (rop_file_object_identity_hash p))"

text \<open>The loop over the objects; \<open>prior\<close> holds those before the current one.\<close>

fun validate_owned_objects ::
  "resume_slot_record \<Rightarrow> owned_object_binding list \<Rightarrow> owned_object_binding list \<Rightarrow> status" where
  "validate_owned_objects r prior [] = success_status"
| "validate_owned_objects r prior (object # objects) =
     (if \<not> owned_object_role_known (roo_role object) \<or>
         \<not> operation_id_equal (ic_operation_id (pc_checkpoint (rr_checkpoint r))) (roo_operation_id object) \<or>
         \<not> identities_equal (rr_identities r) (roo_identities object) \<or>
         digest_is_zero (roo_file_object_identity_hash object)
      then Inl (mk_error Identity_mismatch ERROR_FILE_INVALID)
      else if list_ex (\<lambda>p. roo_role p = roo_role object) prior
      then Inl (mk_error Invalid_data ERROR_DUP_NAME)
      else if prior \<noteq> [] \<and> role_byte (roo_role (last prior)) \<ge> role_byte (roo_role object)
      then Inl (mk_error Invalid_data ERROR_INVALID_DATA)
      else validate_owned_objects r (prior @ [object]) objects)"

definition owned_objects_fit_capability :: "resume_slot_record \<Rightarrow> status" where
  "owned_objects_fit_capability r =
     (if rr_capability r = Persistent_pe_exact_image_create
      then
        let has_partial = list_ex (\<lambda>object. roo_role object = Image_partial) (rr_owned_objects r);
            has_journal = list_ex (\<lambda>object. roo_role object = Image_resume_journal) (rr_owned_objects r)
        in
        if ic_schema_version (pc_checkpoint (rr_checkpoint r)) \<noteq> kCheckpointSchemaVersionV3 \<or>
           length (rr_owned_objects r) \<noteq> 2 \<or> \<not> has_partial \<or> \<not> has_journal \<or>
           rr_owned_partial r \<noteq> None
        then Inl (mk_error Invalid_data ERROR_INVALID_DATA)
        else success_status
      else if rr_owned_objects r \<noteq> []
      then Inl (mk_error Invalid_data ERROR_NOT_SUPPORTED)
      else success_status)"

text \<open>The checks after the record hash.\<close>

definition validate_record_objects :: "resume_slot_record \<Rightarrow> status" where
  "validate_record_objects r =
     (if \<not> owned_partial_ok r then Inl (mk_error Identity_mismatch ERROR_FILE_INVALID)
      else if rr_owned_partial r \<noteq> None \<and> rr_owned_objects r \<noteq> []
      then Inl (mk_error Invalid_data ERROR_INVALID_DATA)
      else if length (rr_owned_objects r) > kMaximumResumeOwnedObjects
      then Inl (mk_error Invalid_data ERROR_INVALID_DATA)
      else
        case validate_owned_objects r [] (rr_owned_objects r) of
          Inl e \<Rightarrow> Inl e
        | Inr _ \<Rightarrow> owned_objects_fit_capability r)"

definition validate_record_hash :: "'s cng_api \<Rightarrow> parsed_checkpoint \<Rightarrow> ('s, unit) prog" where
  "validate_record_hash cng parsed =
     bindE (serialize_checkpoint cng (pc_checkpoint parsed)) (\<lambda>serialized.
     bindE (liftE (parse_checkpoint cng serialized)) (\<lambda>reparsed.
       case reparsed of
         Inl e \<Rightarrow> failE (mk_error Verification_failed ERROR_CRC)
       | Inr p \<Rightarrow>
         guardE (digest_equal (pc_record_hash p) (pc_record_hash parsed))
           (mk_error Verification_failed ERROR_CRC)))"

definition validate_resume_slot_record :: "'s cng_api \<Rightarrow> resume_slot_record \<Rightarrow> ('s, unit) prog" where
  "validate_resume_slot_record cng r =
     (let checkpoint = pc_checkpoint (rr_checkpoint r); identities = rr_identities r in
      if resume_lifetime (rr_capability r) \<noteq> Persistent
      then failE (mk_error Unsupported_layout ERROR_NOT_SUPPORTED)
      else
        bindE (of_result (validate_resume_capability (rr_capability r) (ic_kind checkpoint)
          (ic_environment checkpoint))) (\<lambda>_.
        if digest_is_zero (rib_source_identity_hash identities) \<or>
           digest_is_zero (rib_target_identity_hash identities) \<or>
           digest_is_zero (rib_output_identity_hash identities) \<or>
           \<not> digest_equal (rib_output_identity_hash identities) (ic_output_identity_hash checkpoint)
        then failE (mk_error Invalid_data ERROR_INVALID_DATA)
        else
          bindE (validate_record_hash cng (rr_checkpoint r)) (\<lambda>_.
          of_result (validate_record_objects r))))"

definition make_resume_slot_binding ::
  "'s cng_api \<Rightarrow> resume_slot_record \<Rightarrow> ('s, resume_slot_binding) prog" where
  "make_resume_slot_binding cng r =
     bindE (validate_resume_slot_record cng r) (\<lambda>_.
     returnE \<lparr>rb_capability = rr_capability r,
       rb_operation_id = ic_operation_id (pc_checkpoint (rr_checkpoint r)),
       rb_identities = rr_identities r,
       rb_checkpoint_record_hash = pc_record_hash (rr_checkpoint r),
       rb_partial_file_object_identity_hash =
         map_option rop_file_object_identity_hash (rr_owned_partial r),
       rb_owned_object_file_bindings =
         map (\<lambda>object. \<lparr>rov_role = roo_role object,
           rov_file_object_identity_hash = roo_file_object_identity_hash object\<rparr>) (rr_owned_objects r)\<rparr>)"

section \<open>Observations\<close>

definition validate_observation_relationship ::
  "'s cng_api \<Rightarrow> slot_observation \<Rightarrow> bool \<Rightarrow> ('s, unit) prog" where
  "validate_observation_relationship cng observation allow_unattached_partial =
     (let storage = so_storage observation; files = ssp_owned_object_files storage;
          partial = so_observed_owned_partial observation;
          objects = so_observed_owned_objects observation
      in
      if fsp_exists (ssp_checkpoint_file storage) \<noteq> (so_slot observation \<noteq> None) \<or>
         fsp_exists (ssp_owned_partial_file storage) \<noteq> (partial \<noteq> None) \<or>
         length files \<noteq> length objects \<or> list_ex (\<lambda>f. \<not> fsp_exists f) files
      then failE (mk_error Invalid_data ERROR_FILE_INVALID)
      else
        case so_slot observation of
          None \<Rightarrow>
            if (partial \<noteq> None \<or> objects \<noteq> []) \<and> \<not> allow_unattached_partial
            then failE (mk_error Access_denied ERROR_FILE_EXISTS)
            else returnE ()
        | Some r \<Rightarrow>
            bindE (validate_resume_slot_record cng r) (\<lambda>_.
            guardE (optional_partial_equal (rr_owned_partial r) partial \<and>
                owned_objects_equal (rr_owned_objects r) objects)
              (mk_error Identity_mismatch ERROR_FILE_INVALID)))"

section \<open>The slot\<close>

text \<open>\<open>SingleResumeSlot\<close> in its world: the path it has bound itself to, and what the platform sees.\<close>

record 's single_slot =
  bound_checkpoint_path :: "wide_string option"
  slot_world :: 's

definition in_world :: "('s \<Rightarrow> 'r \<times> 's) \<Rightarrow> 's single_slot \<Rightarrow> 'r \<times> 's single_slot" where
  "in_world m st = (case m (slot_world st) of (r, w) \<Rightarrow> (r, st\<lparr>slot_world := w\<rparr>))"

definition bind_checkpoint_path :: "wide_string \<Rightarrow> ('s single_slot, unit) prog" where
  "bind_checkpoint_path path st =
     (case bound_checkpoint_path st of
        None \<Rightarrow> (success_status, st\<lparr>bound_checkpoint_path := Some path\<rparr>)
      | Some bound \<Rightarrow>
        if bound \<noteq> path then (Inl (mk_error Identity_mismatch ERROR_BAD_PATHNAME), st)
        else (success_status, st))"

definition observe_slot :: "'s resume_slot_platform \<Rightarrow> ('s single_slot, slot_observation) prog" where
  "observe_slot platform =
     bindE (in_world (guarded_call (observe_fixed_slot platform))) (\<lambda>observed.
     bindE (of_result (validate_storage_shape (so_storage observed))) (\<lambda>_.
     bindE (bind_checkpoint_path (ssp_checkpoint_path (so_storage observed))) (\<lambda>_.
       returnE observed)))"

definition inspect_slot ::
  "'s cng_api \<Rightarrow> 's resume_slot_platform \<Rightarrow> ('s single_slot, resume_slot_record option) prog" where
  "inspect_slot cng platform =
     bindE (observe_slot platform) (\<lambda>observed.
     bindE (in_world (validate_observation_relationship cng observed False)) (\<lambda>_.
       returnE (so_slot observed)))"

definition guard_new_operation_start ::
  "'s cng_api \<Rightarrow> 's resume_slot_platform \<Rightarrow> operation_plan \<Rightarrow> ('s single_slot, unit) prog" where
  "guard_new_operation_start cng platform plan =
     bindE (of_result (validate_operation_plan plan)) (\<lambda>_.
     bindE (inspect_slot cng platform) (\<lambda>active.
       guardE (active = None) (mk_error Access_denied ERROR_BUSY)))"

definition open_bound ::
  "'s cng_api \<Rightarrow> 's resume_slot_platform \<Rightarrow> resume_slot_binding \<Rightarrow>
   ('s single_slot, resume_slot_record) prog" where
  "open_bound cng platform expected =
     bindE (inspect_slot cng platform) (\<lambda>current.
       case current of
         None \<Rightarrow> failE (mk_error Identity_mismatch ERROR_FILE_NOT_FOUND)
       | Some r \<Rightarrow>
         bindE (liftE (in_world (make_resume_slot_binding cng r))) (\<lambda>actual.
           case actual of
             Inl e \<Rightarrow> failE (mk_error Identity_mismatch ERROR_FILE_INVALID)
           | Inr b \<Rightarrow>
             if \<not> binding_equal b expected then failE (mk_error Identity_mismatch ERROR_FILE_INVALID)
             else returnE r))"

text \<open>Reading the slot again after a change.\<close>

definition confirm_slot ::
  "'s cng_api \<Rightarrow> 's resume_slot_platform \<Rightarrow> resume_slot_record \<Rightarrow> ('s single_slot, unit) prog" where
  "confirm_slot cng platform r =
     bindE (liftE (inspect_slot cng platform)) (\<lambda>after.
       guardE (case after of Inr (Some r') \<Rightarrow> records_equal r' r | _ \<Rightarrow> False)
         (mk_error Verification_failed ERROR_CRC))"

definition create_slot ::
  "'s cng_api \<Rightarrow> 's resume_slot_platform \<Rightarrow> resume_slot_record \<Rightarrow> ('s single_slot, unit) prog" where
  "create_slot cng platform r =
     bindE (in_world (validate_resume_slot_record cng r)) (\<lambda>_.
     bindE (observe_slot platform) (\<lambda>before.
     bindE (in_world (validate_observation_relationship cng before True)) (\<lambda>_.
     if so_slot before \<noteq> None then failE (mk_error Access_denied ERROR_FILE_EXISTS)
     else if \<not> optional_partial_equal (rr_owned_partial r) (so_observed_owned_partial before)
     then failE (mk_error Identity_mismatch ERROR_FILE_INVALID)
     else if \<not> owned_objects_equal (rr_owned_objects r) (so_observed_owned_objects before)
     then failE (mk_error Identity_mismatch ERROR_FILE_INVALID)
     else
       bindE (in_world (guarded_call (create_fixed_slot platform r))) (\<lambda>_.
       confirm_slot cng platform r))))"

definition replace_slot ::
  "'s cng_api \<Rightarrow> 's resume_slot_platform \<Rightarrow> resume_slot_binding \<Rightarrow> parsed_checkpoint \<Rightarrow>
   ('s single_slot, unit) prog" where
  "replace_slot cng platform expected next_checkpoint =
     bindE (open_bound cng platform expected) (\<lambda>current.
     bindE (of_result (validate_checkpoint_transition (pc_checkpoint (rr_checkpoint current))
       (pc_checkpoint next_checkpoint))) (\<lambda>_.
     let next_record = current\<lparr>rr_checkpoint := next_checkpoint\<rparr> in
     bindE (in_world (validate_resume_slot_record cng next_record)) (\<lambda>_.
     bindE (in_world (guarded_call (replace_fixed_slot platform (rb_checkpoint_record_hash expected)
       next_record))) (\<lambda>_.
     confirm_slot cng platform next_record))))"

definition discard_slot ::
  "'s cng_api \<Rightarrow> 's resume_slot_platform \<Rightarrow> resume_slot_binding \<Rightarrow> ('s single_slot, unit) prog" where
  "discard_slot cng platform expected =
     bindE (open_bound cng platform expected) (\<lambda>_.
     bindE (in_world (guarded_call (discard_fixed_slot platform expected))) (\<lambda>_.
     bindE (observe_slot platform) (\<lambda>after.
     bindE (liftE (in_world (validate_observation_relationship cng after False))) (\<lambda>relationship.
       guardE (relationship = success_status \<and> so_slot after = None \<and>
           so_observed_owned_partial after = None \<and> so_observed_owned_objects after = [])
         (mk_error Verification_failed ERROR_FILE_INVALID)))))"

end
