(* ===== verification/ResumeSlotCorrect.thy ===== *)
theory ResumeSlotCorrect
  imports ResumeSlot CheckpointCorrect
begin

text \<open>
  What the resume slot is worth.  Whatever the platform does with the files, as long as it observes
  them honestly, a success of an operation means that the slot was what the caller had reviewed and is
  now what was asked for; and while the slot lives, its checkpoints are one sequence of accepted
  updates.
\<close>

section \<open>Records\<close>

text \<open>The lengths of the arrays, which the types of the sources fix.\<close>

definition identities_arrays :: "resume_identity_binding \<Rightarrow> bool" where
  "identities_arrays i \<longleftrightarrow> length (rib_source_identity_hash i) = 32 \<and>
     length (rib_target_identity_hash i) = 32 \<and> length (rib_output_identity_hash i) = 32"

definition partial_arrays :: "owned_partial_binding \<Rightarrow> bool" where
  "partial_arrays p \<longleftrightarrow> length (rop_operation_id p) = 16 \<and> identities_arrays (rop_identities p) \<and>
     length (rop_file_object_identity_hash p) = 32"

definition object_arrays :: "owned_object_binding \<Rightarrow> bool" where
  "object_arrays x \<longleftrightarrow> length (roo_operation_id x) = 16 \<and> identities_arrays (roo_identities x) \<and>
     length (roo_file_object_identity_hash x) = 32"

definition parsed_arrays :: "parsed_checkpoint \<Rightarrow> bool" where
  "parsed_arrays p \<longleftrightarrow> checkpoint_arrays (pc_checkpoint p) \<and> length (pc_record_hash p) = 32"

definition record_arrays :: "resume_slot_record \<Rightarrow> bool" where
  "record_arrays r \<longleftrightarrow> parsed_arrays (rr_checkpoint r) \<and> identities_arrays (rr_identities r) \<and>
     (\<forall>p. rr_owned_partial r = Some p \<longrightarrow> partial_arrays p) \<and> (\<forall>x \<in> set (rr_owned_objects r). object_arrays x)"

definition binding_arrays :: "resume_slot_binding \<Rightarrow> bool" where
  "binding_arrays b \<longleftrightarrow> length (rb_operation_id b) = 16 \<and> identities_arrays (rb_identities b) \<and>
     length (rb_checkpoint_record_hash b) = 32 \<and>
     (\<forall>h. rb_partial_file_object_identity_hash b = Some h \<longrightarrow> length h = 32) \<and>
     (\<forall>v \<in> set (rb_owned_object_file_bindings b). length (rov_file_object_identity_hash v) = 32)"

text \<open>On arrays the comparisons are equality.\<close>

lemma case_failE_eq_Inr:
  "(case x of Inl e \<Rightarrow> failE (f e) | Inr a \<Rightarrow> g a) s = (Inr y, t) \<longleftrightarrow> (\<exists>a. x = Inr a \<and> g a s = (Inr y, t))"
  by (cases x) simp_all

lemma identities_equal_iff:
  "identities_arrays i \<Longrightarrow> identities_arrays j \<Longrightarrow> identities_equal i j \<longleftrightarrow> i = j"
  by (auto simp: identities_equal_def identities_arrays_def digest_equal_iff)

lemma partial_equal_iff: "partial_arrays p \<Longrightarrow> partial_arrays q \<Longrightarrow> partial_equal p q \<longleftrightarrow> p = q"
  by (auto simp: partial_equal_def partial_arrays_def digest_equal_iff operation_id_equal_iff identities_equal_iff)

lemma optional_partial_equal_iff:
  "(\<And>p. x = Some p \<Longrightarrow> partial_arrays p) \<Longrightarrow> (\<And>p. y = Some p \<Longrightarrow> partial_arrays p) \<Longrightarrow>
   optional_partial_equal x y \<longleftrightarrow> x = y"
  by (cases x; cases y) (simp_all add: optional_partial_equal_def partial_equal_iff)

lemma owned_object_equal_iff: "object_arrays x \<Longrightarrow> object_arrays y \<Longrightarrow> owned_object_equal x y \<longleftrightarrow> x = y"
  by (auto simp: owned_object_equal_def object_arrays_def digest_equal_iff operation_id_equal_iff identities_equal_iff)

lemma owned_objects_equal_iff:
  "(\<And>x. x \<in> set xs \<Longrightarrow> object_arrays x) \<Longrightarrow> (\<And>x. x \<in> set ys \<Longrightarrow> object_arrays x) \<Longrightarrow>
   owned_objects_equal xs ys \<longleftrightarrow> xs = ys"
proof (induction xs arbitrary: ys)
  case (Cons x xs)
  then show ?case
    by (cases ys) (simp_all add: owned_objects_equal_def owned_object_equal_iff)
qed (auto simp: owned_objects_equal_def)

lemma review_bindings_equal_iff:
  "(\<And>v. v \<in> set xs \<Longrightarrow> length (rov_file_object_identity_hash v) = 32) \<Longrightarrow>
   (\<And>v. v \<in> set ys \<Longrightarrow> length (rov_file_object_identity_hash v) = 32) \<Longrightarrow>
   review_bindings_equal xs ys \<longleftrightarrow> xs = ys"
proof (induction xs arbitrary: ys)
  case (Cons x xs)
  then show ?case
    by (cases ys) (auto simp: review_bindings_equal_def digest_equal_iff)
qed (auto simp: review_bindings_equal_def)

lemma binding_equal_iff:
  assumes "binding_arrays a" "binding_arrays b"
  shows "binding_equal a b \<longleftrightarrow> a = b"
proof -
  have "identities_equal (rb_identities a) (rb_identities b) \<longleftrightarrow> rb_identities a = rb_identities b"
    "review_bindings_equal (rb_owned_object_file_bindings a) (rb_owned_object_file_bindings b) \<longleftrightarrow>
      rb_owned_object_file_bindings a = rb_owned_object_file_bindings b"
    using assms by (simp_all add: binding_arrays_def identities_equal_iff review_bindings_equal_iff)
  then show ?thesis
    using assms
    by (auto simp: binding_equal_def binding_arrays_def digest_equal_iff operation_id_equal_iff
      resume_slot_binding.equality split: option.splits)
qed

text \<open>The bytes that a checkpoint's hash is taken of, and what an accepted record is.\<close>

definition signed_bytes :: "interruption_checkpoint \<Rightarrow> byte list" where
  "signed_bytes c =
     header_bytes (schema_minor (ic_schema_version c)) (48 + length (body_bytes c)) @ body_bytes c"

lemma checkpoint_file_signed: "checkpoint_file H c = signed_bytes c @ H (signed_bytes c)"
  by (simp add: checkpoint_file_def signed_bytes_def Let_def)

lemma take_checkpoint_file: "take (16 + length (body_bytes c)) (checkpoint_file H c) = signed_bytes c"
  by (simp add: checkpoint_file_signed signed_bytes_def)

definition checkpoint_storable :: "interruption_checkpoint \<Rightarrow> bool" where
  "checkpoint_storable c \<longleftrightarrow> validate_checkpoint c = success_status \<and>
     48 + length (body_bytes c) \<le> kMaximumCheckpointBytes"

lemma signed_bytes_inject:
  assumes "hash_provider cng H" "checkpoint_storable c" "checkpoint_arrays c" "checkpoint_storable d"
    "checkpoint_arrays d" "signed_bytes c = signed_bytes d"
  shows "c = d"
proof -
  have "checkpoint_file H c = checkpoint_file H d" by (simp add: checkpoint_file_signed assms(6))
  with parse_checkpoint_file [OF assms(1) _ assms(3), of undefined]
    parse_checkpoint_file [OF assms(1) _ assms(5), of undefined] assms(2,4)
  obtain p q t where "parse_checkpoint cng (checkpoint_file H d) undefined = (Inr p, t)"
    "parse_checkpoint cng (checkpoint_file H d) undefined = (Inr q, t)"
    "pc_checkpoint p = c" "pc_checkpoint q = d"
    unfolding checkpoint_storable_def by (metis Pair_inject parsed_checkpoint.select_convs(1))
  then show ?thesis by simp
qed

definition record_ok :: "(byte list \<Rightarrow> byte list) \<Rightarrow> resume_slot_record \<Rightarrow> bool" where
  "record_ok H r \<longleftrightarrow>
     (let c = pc_checkpoint (rr_checkpoint r); i = rr_identities r in
      resume_lifetime (rr_capability r) = Persistent \<and>
      capability_shape_matches (rr_capability r) (ic_kind c) (ic_environment c) \<and>
      \<not> digest_is_zero (rib_source_identity_hash i) \<and> \<not> digest_is_zero (rib_target_identity_hash i) \<and>
      \<not> digest_is_zero (rib_output_identity_hash i) \<and> rib_output_identity_hash i = ic_output_identity_hash c \<and>
      checkpoint_storable c \<and> pc_record_hash (rr_checkpoint r) = H (signed_bytes c) \<and>
      validate_record_objects r = success_status)"

lemma validate_record_hash_iff:
  assumes H: "hash_provider cng H" and p: "parsed_arrays p"
  shows "(\<exists>t. validate_record_hash cng p s = (Inr u, t)) \<longleftrightarrow>
    checkpoint_storable (pc_checkpoint p) \<and> pc_record_hash p = H (signed_bytes (pc_checkpoint p))"
proof
  let ?c = "pc_checkpoint p"
  have len: "length (H bytes) = 32" for bytes using H unfolding hash_provider_def by blast
  note parsed = parse_checkpoint_file [OF H, of ?c, unfolded take_checkpoint_file]
  { assume "\<exists>t. validate_record_hash cng p s = (Inr u, t)"
    then obtain bytes t1 q t2 where ser: "serialize_checkpoint cng ?c s = (Inr bytes, t1)"
      and par: "parse_checkpoint cng bytes t1 = (Inr q, t2)"
      and eq: "digest_equal (pc_record_hash q) (pc_record_hash p)"
      by (auto simp: validate_record_hash_def bindE_eq_Inr case_failE_eq_Inr)
    note ser' = serialize_checkpoint_success [OF H ser]
    have "pc_record_hash q = H (signed_bytes ?c)"
      using parsed [of t1] ser' p par by (auto simp: parsed_arrays_def)
    with eq ser' p len show "checkpoint_storable ?c \<and> pc_record_hash p = H (signed_bytes ?c)"
      by (simp add: checkpoint_storable_def digest_equal_iff parsed_arrays_def) }
  { assume ok: "checkpoint_storable ?c \<and> pc_record_hash p = H (signed_bytes ?c)"
    then obtain t1 where ser: "serialize_checkpoint cng ?c s = (Inr (checkpoint_file H ?c), t1)"
      using serialize_checkpoint_file [OF H, of ?c s] by (auto simp: checkpoint_storable_def)
    obtain t2 where par: "parse_checkpoint cng (checkpoint_file H ?c) t1 =
        (Inr \<lparr>pc_checkpoint = ?c, pc_record_hash = H (signed_bytes ?c)\<rparr>, t2)"
      using parsed [of t1] ok p by (auto simp: checkpoint_storable_def parsed_arrays_def)
    show "\<exists>t. validate_record_hash cng p s = (Inr u, t)"
      using ok by (simp add: validate_record_hash_def bindE_eq_Inr case_failE_eq_Inr ser par digest_equal_iff) }
qed

lemma validate_resume_slot_record_iff:
  assumes H: "hash_provider cng H" and r: "record_arrays r"
  shows "(\<exists>t. validate_resume_slot_record cng r s = (Inr u, t)) \<longleftrightarrow> record_ok H r"
proof -
  have p: "parsed_arrays (rr_checkpoint r)" using r by (simp add: record_arrays_def)
  have out: "digest_equal (rib_output_identity_hash (rr_identities r))
      (ic_output_identity_hash (pc_checkpoint (rr_checkpoint r))) \<longleftrightarrow>
    rib_output_identity_hash (rr_identities r) = ic_output_identity_hash (pc_checkpoint (rr_checkpoint r))"
    using r by (simp add: record_arrays_def parsed_arrays_def checkpoint_arrays_def identities_arrays_def
      digest_equal_iff)
  show ?thesis
    using validate_record_hash_iff [OF H p, of s "()"]
    by (auto simp: validate_resume_slot_record_def record_ok_def Let_def bindE_eq_Inr out
      validate_resume_capability_def)
qed

definition record_binding :: "resume_slot_record \<Rightarrow> resume_slot_binding" where
  "record_binding r =
     \<lparr>rb_capability = rr_capability r,
      rb_operation_id = ic_operation_id (pc_checkpoint (rr_checkpoint r)),
      rb_identities = rr_identities r,
      rb_checkpoint_record_hash = pc_record_hash (rr_checkpoint r),
      rb_partial_file_object_identity_hash = map_option rop_file_object_identity_hash (rr_owned_partial r),
      rb_owned_object_file_bindings =
        map (\<lambda>x. \<lparr>rov_role = roo_role x, rov_file_object_identity_hash = roo_file_object_identity_hash x\<rparr>)
          (rr_owned_objects r)\<rparr>"

lemma record_binding_arrays: "record_arrays r \<Longrightarrow> binding_arrays (record_binding r)"
  by (auto simp: binding_arrays_def record_arrays_def record_binding_def partial_arrays_def object_arrays_def
    parsed_arrays_def checkpoint_arrays_def)

text \<open>Two records that the code takes for the same one: they agree in everything but possibly the
  checkpoint, and in the hash of that.\<close>

definition same_record :: "(byte list \<Rightarrow> byte list) \<Rightarrow> resume_slot_record \<Rightarrow> resume_slot_record \<Rightarrow> bool" where
  "same_record H q r \<longleftrightarrow>
     q = r\<lparr>rr_checkpoint := rr_checkpoint q\<rparr> \<and>
     ic_operation_id (pc_checkpoint (rr_checkpoint q)) = ic_operation_id (pc_checkpoint (rr_checkpoint r)) \<and>
     H (signed_bytes (pc_checkpoint (rr_checkpoint q))) = H (signed_bytes (pc_checkpoint (rr_checkpoint r)))"

lemma records_equal_same:
  assumes "records_equal q r" "record_arrays q" "record_arrays r" "record_ok H q" "record_ok H r"
  shows "same_record H q r"
proof -
  have "rr_identities q = rr_identities r" "rr_owned_partial q = rr_owned_partial r"
    "rr_owned_objects q = rr_owned_objects r"
    "ic_operation_id (pc_checkpoint (rr_checkpoint q)) = ic_operation_id (pc_checkpoint (rr_checkpoint r))"
    "pc_record_hash (rr_checkpoint q) = pc_record_hash (rr_checkpoint r)"
    using assms(1-3)
    by (simp_all add: records_equal_def record_arrays_def identities_equal_iff optional_partial_equal_iff
      owned_objects_equal_iff parsed_arrays_def checkpoint_arrays_def operation_id_equal_iff digest_equal_iff)
  moreover have "rr_capability q = rr_capability r" using assms(1) by (simp add: records_equal_def)
  ultimately show ?thesis
    using assms(4,5) by (simp add: same_record_def record_ok_def Let_def resume_slot_record.equality)
qed

lemma make_binding_success:
  assumes "hash_provider cng H" "record_arrays r"
  shows "(\<exists>t. make_resume_slot_binding cng r s = (Inr b, t)) \<longleftrightarrow> record_ok H r \<and> b = record_binding r"
  using validate_resume_slot_record_iff [OF assms, of s "()"]
  by (auto simp: make_resume_slot_binding_def record_binding_def bindE_eq_Inr)

end
