(* ===== verification/ResumeSlotRuns.thy ===== *)
theory ResumeSlotRuns
  imports ResumeSlotCorrect
begin

text \<open>
  The operations of the resume slot against a platform that observes honestly, the refinement of a
  store with one cell, and the history of a slot from its creation.
\<close>

section \<open>What is left alone\<close>

lemma keeps_in_world: "keeps f m \<Longrightarrow> keeps (\<lambda>st. f (slot_world st)) (in_world m)"
  unfolding in_world_def by (rule keepsI) (auto dest: keepsD split: prod.splits)

lemma keeps_bind_path: "keeps (\<lambda>st. f (slot_world st)) (bind_checkpoint_path path)"
  unfolding bind_checkpoint_path_def by (rule keepsI) (auto split: option.splits if_splits)

lemma keeps_serialize: "(\<And>bytes. keeps f (sha256 cng bytes)) \<Longrightarrow> keeps f (serialize_checkpoint cng c)"
  unfolding serialize_checkpoint_def Let_def by (auto intro!: keeps_bindE)

lemma keeps_parse: "(\<And>bytes. keeps f (sha256 cng bytes)) \<Longrightarrow> keeps f (parse_checkpoint cng bytes)"
  unfolding parse_checkpoint_def Let_def
  by (rule keepsI) (auto dest: keepsD split: prod.splits sum.splits option.splits if_splits)

lemma keeps_validate_record:
  assumes "\<And>bytes. keeps f (sha256 cng bytes)"
  shows "keeps f (validate_resume_slot_record cng r)"
proof -
  have "keeps f (validate_record_hash cng p)" for p
    unfolding validate_record_hash_def
    by (intro keeps_bindE keeps_serialize keeps_liftE keeps_parse assms) (simp split: sum.split)
  then show ?thesis
    unfolding validate_resume_slot_record_def Let_def by (auto intro!: keeps_bindE)
qed

lemma keeps_relationship:
  "(\<And>bytes. keeps f (sha256 cng bytes)) \<Longrightarrow> keeps f (validate_observation_relationship cng obs allow)"
  unfolding validate_observation_relationship_def Let_def
  by (auto intro!: keeps_bindE keeps_validate_record split: option.split)

lemma keeps_make_binding:
  "(\<And>bytes. keeps f (sha256 cng bytes)) \<Longrightarrow> keeps f (make_resume_slot_binding cng r)"
  unfolding make_resume_slot_binding_def by (auto intro!: keeps_bindE keeps_validate_record)

text \<open>Looking at the slot leaves alone whatever observing and hashing leave alone.\<close>

lemma keeps_looking:
  assumes "keeps f (observe_fixed_slot platform)" "\<And>bytes. keeps f (sha256 cng bytes)"
  shows "keeps (\<lambda>st. f (slot_world st)) (observe_slot platform)"
    "keeps (\<lambda>st. f (slot_world st)) (inspect_slot cng platform)"
    "keeps (\<lambda>st. f (slot_world st)) (guard_new_operation_start cng platform plan)"
    "keeps (\<lambda>st. f (slot_world st)) (open_bound cng platform b)"
    "keeps (\<lambda>st. f (slot_world st)) (confirm_slot cng platform r)"
proof -
  note rules = keeps_bindE keeps_in_world keeps_guarded_call keeps_bind_path keeps_relationship
    keeps_make_binding keeps_liftE assms
  show obs: "keeps (\<lambda>st. f (slot_world st)) (observe_slot platform)"
    unfolding observe_slot_def by (intro rules) simp_all
  show ins: "keeps (\<lambda>st. f (slot_world st)) (inspect_slot cng platform)"
    unfolding inspect_slot_def by (intro rules obs) simp_all
  show "keeps (\<lambda>st. f (slot_world st)) (guard_new_operation_start cng platform plan)"
    unfolding guard_new_operation_start_def by (intro rules ins) simp_all
  show "keeps (\<lambda>st. f (slot_world st)) (open_bound cng platform b)"
    unfolding open_bound_def
    by (intro rules ins) (auto intro!: rules split: option.split sum.split)
  show "keeps (\<lambda>st. f (slot_world st)) (confirm_slot cng platform r)"
    unfolding confirm_slot_def by (intro rules ins) simp_all
qed

section \<open>An honest platform\<close>

text \<open>
  What lies in the files: the record of the slot, the partial file, the other objects.  A slot that an
  operation finds in order holds nothing, or a record with exactly what it declares.  A world is
  \<open>typed\<close> when the arrays in the files have the lengths their types fix.
\<close>

type_synonym slot_files =
  "resume_slot_record option \<times> owned_partial_binding option \<times> owned_object_binding list"

definition observed_files :: "slot_observation \<Rightarrow> slot_files" where
  "observed_files obs = (so_slot obs, so_observed_owned_partial obs, so_observed_owned_objects obs)"

definition slot_content :: "resume_slot_record option \<Rightarrow> slot_files" where
  "slot_content x =
     (case x of None \<Rightarrow> (None, None, []) | Some r \<Rightarrow> (Some r, rr_owned_partial r, rr_owned_objects r))"

definition files_arrays :: "slot_files \<Rightarrow> bool" where
  "files_arrays fs \<longleftrightarrow>
     (case fs of (r, p, xs) \<Rightarrow> (\<forall>y. r = Some y \<longrightarrow> record_arrays y) \<and>
       (\<forall>y. p = Some y \<longrightarrow> partial_arrays y) \<and> (\<forall>x \<in> set xs. object_arrays x))"

section \<open>A store with one cell\<close>

text \<open>What a caller can ask of the slot, when the cell allows it, and what the cell then holds.\<close>

datatype slot_request =
    Request_start operation_plan
  | Request_create resume_slot_record
  | Request_replace resume_slot_binding parsed_checkpoint
  | Request_discard resume_slot_binding

primrec run_request ::
  "'s cng_api \<Rightarrow> 's resume_slot_platform \<Rightarrow> slot_request \<Rightarrow> ('s single_slot, unit) prog" where
  "run_request cng platform (Request_start plan) = guard_new_operation_start cng platform plan"
| "run_request cng platform (Request_create r) = create_slot cng platform r"
| "run_request cng platform (Request_replace b p) = replace_slot cng platform b p"
| "run_request cng platform (Request_discard b) = discard_slot cng platform b"

primrec request_arrays :: "slot_request \<Rightarrow> bool" where
  "request_arrays (Request_start plan) = True"
| "request_arrays (Request_create r) = record_arrays r"
| "request_arrays (Request_replace b p) = (binding_arrays b \<and> parsed_arrays p)"
| "request_arrays (Request_discard b) = binding_arrays b"

definition bound_cell :: "(byte list \<Rightarrow> byte list) \<Rightarrow> resume_slot_binding \<Rightarrow> resume_slot_record \<Rightarrow> slot_files \<Rightarrow> bool" where
  "bound_cell H b q fs \<longleftrightarrow> fs = slot_content (Some q) \<and> record_ok H q \<and> record_binding q = b"

primrec cell_allows :: "(byte list \<Rightarrow> byte list) \<Rightarrow> slot_request \<Rightarrow> slot_files \<Rightarrow> bool" where
  "cell_allows H (Request_start plan) fs \<longleftrightarrow>
     validate_operation_plan plan = success_status \<and> fs = slot_content None"
| "cell_allows H (Request_create r) fs \<longleftrightarrow>
     fs = (None, rr_owned_partial r, rr_owned_objects r) \<and> record_ok H r"
| "cell_allows H (Request_replace b p) fs \<longleftrightarrow>
     (\<exists>q. bound_cell H b q fs \<and>
       validate_checkpoint_transition (pc_checkpoint (rr_checkpoint q)) (pc_checkpoint p) = success_status \<and>
       record_ok H (q\<lparr>rr_checkpoint := p\<rparr>))"
| "cell_allows H (Request_discard b) fs \<longleftrightarrow> (\<exists>q. bound_cell H b q fs)"

primrec cell_target :: "slot_request \<Rightarrow> slot_files \<Rightarrow> resume_slot_record option" where
  "cell_target (Request_start plan) fs = None"
| "cell_target (Request_create r) fs = Some r"
| "cell_target (Request_replace b p) fs = map_option (\<lambda>q. q\<lparr>rr_checkpoint := p\<rparr>) (fst fs)"
| "cell_target (Request_discard b) fs = None"

text \<open>The cell holds what was asked for, as far as the code can tell two records apart.\<close>

definition cell_holds :: "(byte list \<Rightarrow> byte list) \<Rightarrow> resume_slot_record option \<Rightarrow> slot_files \<Rightarrow> bool" where
  "cell_holds H target fs \<longleftrightarrow>
     (case target of
        None \<Rightarrow> fs = slot_content None
      | Some r \<Rightarrow> \<exists>q. fs = slot_content (Some q) \<and> record_ok H q \<and> same_record H q r)"

locale honest_platform =
  fixes cng :: "'s cng_api" and H :: "byte list \<Rightarrow> byte list" and platform :: "'s resume_slot_platform"
    and files :: "'s \<Rightarrow> slot_files" and typed :: "'s \<Rightarrow> bool"
  assumes provider: "hash_provider cng H"
    and hashing: "keeps files (sha256 cng bytes)" "keeps typed (sha256 cng bytes)"
    and observing: "keeps files (observe_fixed_slot platform)" "keeps typed (observe_fixed_slot platform)"
    and honest: "observe_fixed_slot platform w = (Some (Inr obs), w') \<Longrightarrow> observed_files obs = files w"
    and arrays: "typed w \<Longrightarrow> files_arrays (files w)"
    and creating: "typed w \<Longrightarrow> record_arrays r \<Longrightarrow> typed (snd (create_fixed_slot platform r w))"
    and replacing: "typed w \<Longrightarrow> record_arrays r \<Longrightarrow> typed (snd (replace_fixed_slot platform h r w))"
    and discarding: "typed w \<Longrightarrow> typed (snd (discard_fixed_slot platform b w))"
begin

lemmas looking = keeps_looking [of files, OF observing(1) hashing(1)]
lemmas looking_typed = keeps_looking [of typed, OF observing(2) hashing(2)]

lemma call_typed:
  assumes "in_world (guarded_call m) st = (r, st')" "typed (snd (m (slot_world st)))"
  shows "typed (slot_world st')"
  using assms by (auto simp: in_world_def guarded_call_def split: prod.split_asm option.split_asm)

lemma observe_files:
  assumes "observe_slot platform st = (Inr obs, st')"
  shows "observed_files obs = files (slot_world st)"
  using assms
  by (auto simp: observe_slot_def bindE_eq_Inr in_world_def guarded_call_def
    split: prod.split_asm option.split_asm intro: honest)

lemma relationship_content:
  assumes "validate_observation_relationship cng obs False w = (Inr u, w')" "files_arrays (observed_files obs)"
  shows "observed_files obs = slot_content (so_slot obs) \<and> (\<forall>r. so_slot obs = Some r \<longrightarrow> record_ok H r)"
proof (cases "so_slot obs")
  case None
  then show ?thesis
    using assms(1) by (auto simp: validate_observation_relationship_def Let_def observed_files_def
      slot_content_def split: if_split_asm)
next
  case (Some r)
  then have r: "record_arrays r" using assms(2) by (simp add: files_arrays_def observed_files_def)
  from assms(1) Some obtain w1 where valid: "validate_resume_slot_record cng r w = (Inr (), w1)"
    and eq: "optional_partial_equal (rr_owned_partial r) (so_observed_owned_partial obs)"
      "owned_objects_equal (rr_owned_objects r) (so_observed_owned_objects obs)"
    by (auto simp: validate_observation_relationship_def Let_def bindE_eq_Inr split: if_split_asm)
  from valid have "record_ok H r" using validate_resume_slot_record_iff [OF provider r] by blast
  moreover have "rr_owned_partial r = so_observed_owned_partial obs"
    using eq(1) r assms(2) Some
    by (subst (asm) optional_partial_equal_iff) (auto simp: record_arrays_def files_arrays_def observed_files_def)
  moreover have "rr_owned_objects r = so_observed_owned_objects obs"
    using eq(2) r assms(2) Some
    by (subst (asm) owned_objects_equal_iff) (auto simp: record_arrays_def files_arrays_def observed_files_def)
  ultimately show ?thesis using Some by (simp add: observed_files_def slot_content_def)
qed

lemma inspect_success:
  assumes "inspect_slot cng platform st = (Inr x, st')" "typed (slot_world st)"
  shows "files (slot_world st) = slot_content x" "files (slot_world st') = files (slot_world st)"
    "x = Some r \<Longrightarrow> record_ok H r \<and> record_arrays r"
proof -
  from assms(1) obtain obs st1 u st2 where obs: "observe_slot platform st = (Inr obs, st1)"
    and rel: "in_world (validate_observation_relationship cng obs False) st1 = (Inr u, st2)"
    and x: "x = so_slot obs"
    by (auto simp: inspect_slot_def bindE_eq_Inr)
  note fs = observe_files [OF obs]
  from rel obtain w' where "validate_observation_relationship cng obs False (slot_world st1) = (Inr u, w')"
    by (auto simp: in_world_def split: prod.split_asm)
  note c = relationship_content [OF this, unfolded fs, OF arrays [OF assms(2)]]
  show f: "files (slot_world st) = slot_content x" using c x by simp
  show "files (slot_world st') = files (slot_world st)" by (rule keepsD [OF looking(2) assms(1)])
  show "record_ok H r \<and> record_arrays r" if "x = Some r"
  proof -
    have "so_slot obs = Some r" using that x by simp
    with c show ?thesis
      using arrays [OF assms(2), unfolded f that] by (simp add: files_arrays_def slot_content_def)
  qed
qed

lemma guard_success:
  assumes "guard_new_operation_start cng platform plan st = (Inr u, st')" "typed (slot_world st)"
  shows "validate_operation_plan plan = success_status \<and> files (slot_world st) = slot_content None \<and>
    files (slot_world st') = slot_content None"
proof -
  from assms(1) have plan: "validate_operation_plan plan = success_status"
    and ins: "inspect_slot cng platform st = (Inr None, st')"
    by (auto simp: guard_new_operation_start_def bindE_eq_Inr)
  show ?thesis using plan inspect_success(1,2) [OF ins assms(2)] by simp
qed

lemma open_bound_success:
  assumes "open_bound cng platform b st = (Inr r, st')" "binding_arrays b" "typed (slot_world st)"
  shows "files (slot_world st) = slot_content (Some r)" "files (slot_world st') = files (slot_world st)"
    "record_ok H r" "record_arrays r" "record_binding r = b"
proof -
  from assms(1) obtain st1 b' st2 where ins: "inspect_slot cng platform st = (Inr (Some r), st1)"
    and mk: "in_world (make_resume_slot_binding cng r) st1 = (Inr b', st2)" and eq: "binding_equal b' b"
    by (auto simp: open_bound_def bindE_eq_Inr case_failE_eq_Inr split: option.split_asm if_split_asm)
  note i = inspect_success [OF ins assms(3)]
  show "files (slot_world st) = slot_content (Some r)" by (rule i)
  show "files (slot_world st') = files (slot_world st)" by (rule keepsD [OF looking(4) assms(1)])
  show r: "record_ok H r" "record_arrays r" using i(3) by simp_all
  from mk obtain w' where "make_resume_slot_binding cng r (slot_world st1) = (Inr b', w')"
    by (auto simp: in_world_def split: prod.split_asm)
  then have "b' = record_binding r" using make_binding_success [OF provider r(2)] by blast
  with eq show "record_binding r = b"
    using binding_equal_iff [OF record_binding_arrays [OF r(2)] assms(2)] by simp
qed

lemma confirm_success:
  assumes "confirm_slot cng platform r st = (Inr u, st')" "typed (slot_world st)" "record_arrays r" "record_ok H r"
  shows "typed (slot_world st') \<and> (\<exists>r'. files (slot_world st') = slot_content (Some r') \<and> record_ok H r' \<and>
    record_arrays r' \<and> same_record H r' r)"
proof -
  from assms(1) obtain x where x: "inspect_slot cng platform st = (x, st')"
      "case x of Inr (Some r') \<Rightarrow> records_equal r' r | _ \<Rightarrow> False"
    by (auto simp: confirm_slot_def bindE_eq_Inr)
  then obtain r' where ins: "inspect_slot cng platform st = (Inr (Some r'), st')" and eq: "records_equal r' r"
    by (auto split: sum.split_asm option.split_asm)
  note i = inspect_success [OF ins assms(2)]
  have "typed (slot_world st')" using keepsD [OF looking_typed(2) ins] assms(2) by simp
  then show ?thesis using i i(3) [of r'] records_equal_same [OF eq _ assms(3) _ assms(4)] by auto
qed

lemma create_success:
  assumes "create_slot cng platform r st = (Inr u, st')" "record_arrays r" "typed (slot_world st)"
  shows "files (slot_world st) = (None, rr_owned_partial r, rr_owned_objects r)" "record_ok H r"
    "typed (slot_world st') \<and> (\<exists>r'. files (slot_world st') = slot_content (Some r') \<and> record_ok H r' \<and>
      record_arrays r' \<and> same_record H r' r)"
proof -
  from assms(1) obtain st1 obs st2 st3 st4 u1 u2 u3 u4
    where valid: "in_world (validate_resume_slot_record cng r) st = (Inr u1, st1)"
      and obs: "observe_slot platform st1 = (Inr obs, st2)"
      and rel: "in_world (validate_observation_relationship cng obs True) st2 = (Inr u2, st3)"
      and eq: "so_slot obs = None" "optional_partial_equal (rr_owned_partial r) (so_observed_owned_partial obs)"
        "owned_objects_equal (rr_owned_objects r) (so_observed_owned_objects obs)"
      and call: "in_world (guarded_call (create_fixed_slot platform r)) st3 = (Inr u3, st4)"
      and confirm: "confirm_slot cng platform r st4 = (Inr u4, st')"
    by (auto simp: create_slot_def bindE_eq_Inr split: if_split_asm)
  have "files (slot_world st1) = files (slot_world st)"
    by (rule keepsD [OF keeps_in_world [OF keeps_validate_record [OF hashing(1)]] valid])
  then have fs: "observed_files obs = files (slot_world st)" using observe_files [OF obs] by simp
  have arr: "files_arrays (observed_files obs)" unfolding fs by (rule arrays [OF assms(3)])
  have "rr_owned_partial r = so_observed_owned_partial obs"
    using eq(2) assms(2) arr
    by (subst (asm) optional_partial_equal_iff) (auto simp: record_arrays_def files_arrays_def observed_files_def)
  moreover have "rr_owned_objects r = so_observed_owned_objects obs"
    using eq(3) assms(2) arr
    by (subst (asm) owned_objects_equal_iff) (auto simp: record_arrays_def files_arrays_def observed_files_def)
  ultimately show "files (slot_world st) = (None, rr_owned_partial r, rr_owned_objects r)"
    using fs eq(1) by (simp add: observed_files_def)
  show ok: "record_ok H r"
    using valid validate_resume_slot_record_iff [OF provider assms(2), of "slot_world st" u1]
    by (auto simp: in_world_def split: prod.split_asm)
  have "typed (slot_world st1) = typed (slot_world st)"
    by (rule keepsD [OF keeps_in_world [OF keeps_validate_record [OF hashing(2)]] valid])
  moreover have "typed (slot_world st2) = typed (slot_world st1)" by (rule keepsD [OF looking_typed(1) obs])
  moreover have "typed (slot_world st3) = typed (slot_world st2)"
    by (rule keepsD [OF keeps_in_world [OF keeps_relationship [OF hashing(2)]] rel])
  ultimately have "typed (slot_world st3)" using assms(3) by simp
  then have "typed (slot_world st4)" by (intro call_typed [OF call] creating assms(2))
  from confirm_success [OF confirm this assms(2) ok] show "typed (slot_world st') \<and>
      (\<exists>r'. files (slot_world st') = slot_content (Some r') \<and> record_ok H r' \<and> record_arrays r' \<and>
      same_record H r' r)" .
qed

lemma replace_success:
  assumes "replace_slot cng platform b p st = (Inr u, st')" "binding_arrays b" "parsed_arrays p"
    "typed (slot_world st)"
  shows "\<exists>r. (\<exists>st1. open_bound cng platform b st = (Inr r, st1)) \<and>
    files (slot_world st) = slot_content (Some r) \<and> record_binding r = b \<and> record_ok H r \<and> record_arrays r \<and>
    validate_checkpoint_transition (pc_checkpoint (rr_checkpoint r)) (pc_checkpoint p) = success_status \<and>
    record_ok H (r\<lparr>rr_checkpoint := p\<rparr>) \<and> typed (slot_world st') \<and>
    (\<exists>r'. files (slot_world st') = slot_content (Some r') \<and> record_ok H r' \<and> record_arrays r' \<and>
      same_record H r' (r\<lparr>rr_checkpoint := p\<rparr>))"
proof -
  let ?next = "\<lambda>r. r\<lparr>rr_checkpoint := p\<rparr>"
  from assms(1) obtain r st1 st2 st3 u1 u2 u3
    where opened: "open_bound cng platform b st = (Inr r, st1)"
      and step: "validate_checkpoint_transition (pc_checkpoint (rr_checkpoint r)) (pc_checkpoint p) = success_status"
      and valid: "in_world (validate_resume_slot_record cng (?next r)) st1 = (Inr u1, st2)"
      and call: "in_world (guarded_call (replace_fixed_slot platform (rb_checkpoint_record_hash b) (?next r))) st2 =
        (Inr u2, st3)"
      and confirm: "confirm_slot cng platform (?next r) st3 = (Inr u3, st')"
    by (auto simp: replace_slot_def bindE_eq_Inr Let_def)
  note o = open_bound_success [OF opened assms(2,4)]
  have arr: "record_arrays (?next r)" using o(4) assms(3) by (simp add: record_arrays_def)
  have ok: "record_ok H (?next r)"
    using valid validate_resume_slot_record_iff [OF provider arr, of "slot_world st1" u1]
    by (auto simp: in_world_def split: prod.split_asm)
  have "typed (slot_world st1) = typed (slot_world st)" by (rule keepsD [OF looking_typed(4) opened])
  moreover have "typed (slot_world st2) = typed (slot_world st1)"
    by (rule keepsD [OF keeps_in_world [OF keeps_validate_record [OF hashing(2)]] valid])
  ultimately have "typed (slot_world st2)" using assms(4) by simp
  then have "typed (slot_world st3)" by (intro call_typed [OF call] replacing arr)
  from confirm_success [OF confirm this arr ok] o opened step ok show ?thesis by blast
qed

lemma discard_success:
  assumes "discard_slot cng platform b st = (Inr u, st')" "binding_arrays b" "typed (slot_world st)"
  shows "(\<exists>r. files (slot_world st) = slot_content (Some r) \<and> record_binding r = b \<and> record_ok H r) \<and>
    files (slot_world st') = slot_content None"
proof -
  from assms(1) obtain r st1 st2 st3 obs
    where opened: "open_bound cng platform b st = (Inr r, st1)"
      and obs: "observe_slot platform st2 = (Inr obs, st3)"
      and rel: "in_world (validate_observation_relationship cng obs False) st3 = (success_status, st')"
      and gone: "so_slot obs = None" "so_observed_owned_partial obs = None" "so_observed_owned_objects obs = []"
    by (auto simp: discard_slot_def bindE_eq_Inr)
  have "files (slot_world st') = files (slot_world st3)"
    by (rule keepsD [OF keeps_in_world [OF keeps_relationship [OF hashing(1)]] rel])
  also have "\<dots> = files (slot_world st2)" by (rule keepsD [OF looking(1) obs])
  also have "\<dots> = slot_content None"
    using observe_files [OF obs] gone by (simp add: observed_files_def slot_content_def)
  finally show ?thesis using open_bound_success [OF opened assms(2,3)] by blast
qed

lemma request_success:
  assumes "run_request cng platform request st = (Inr (), st')" "request_arrays request" "typed (slot_world st)"
  shows "cell_allows H request (files (slot_world st)) \<and>
    cell_holds H (cell_target request (files (slot_world st))) (files (slot_world st'))"
proof (cases request)
  case (Request_start plan)
  then show ?thesis using guard_success [of plan st "()" st'] assms by (simp add: cell_holds_def)
next
  case (Request_create r)
  then show ?thesis using create_success [of r st "()" st'] assms by (simp add: cell_holds_def) blast
next
  case (Request_replace b p)
  with assms replace_success [of b p st "()" st'] obtain r r' where
    "bound_cell H b r (files (slot_world st))"
    "validate_checkpoint_transition (pc_checkpoint (rr_checkpoint r)) (pc_checkpoint p) = success_status"
    "record_ok H (r\<lparr>rr_checkpoint := p\<rparr>)" "files (slot_world st') = slot_content (Some r')"
    "record_ok H r'" "same_record H r' (r\<lparr>rr_checkpoint := p\<rparr>)"
    by (auto simp: bound_cell_def)
  then show ?thesis
    using Request_replace by (auto simp: cell_holds_def bound_cell_def slot_content_def)
next
  case (Request_discard b)
  then show ?thesis
    using discard_success [of b st "()" st'] assms by (auto simp: cell_holds_def bound_cell_def)
qed

text \<open>The part of an operation before the platform is asked to change anything.\<close>

lemma create_checks:
  assumes "keeps v (observe_fixed_slot platform)" "\<And>bytes. keeps v (sha256 cng bytes)"
    and "record_arrays r" "typed (slot_world st)" "\<not> cell_allows H (Request_create r) (files (slot_world st))"
  shows "\<exists>e st1. create_slot cng platform r st = (Inl e, st1) \<and> v (slot_world st1) = v (slot_world st)"
proof -
  let ?valid = "in_world (validate_resume_slot_record cng r)" and ?observe = "observe_slot platform"
    and ?relate = "\<lambda>obs. in_world (validate_observation_relationship cng obs True)"
  have kept: "keeps (\<lambda>st. v (slot_world st)) ?valid" "keeps (\<lambda>st. v (slot_world st)) ?observe"
    "keeps (\<lambda>st. v (slot_world st)) (?relate obs)" for obs
    by (rule keeps_in_world [OF keeps_validate_record [OF assms(2)]] keeps_looking(1) [OF assms(1,2)]
      keeps_in_world [OF keeps_relationship [OF assms(2)]])+
  obtain x1 st1 where 1: "?valid st = (x1, st1)" by force
  show ?thesis
  proof (cases x1)
    case (Inl e)
    then show ?thesis using 1 keepsD [OF kept(1) 1] by (simp add: create_slot_def bindE_def)
  next
    case (Inr u1)
    obtain x2 st2 where 2: "?observe st1 = (x2, st2)" by force
    show ?thesis
    proof (cases x2)
      case (Inl e)
      then show ?thesis
        using 1 2 \<open>x1 = Inr u1\<close> keepsD [OF kept(1) 1] keepsD [OF kept(2) 2] by (simp add: create_slot_def bindE_def)
    next
      case (Inr obs)
      obtain x3 st3 where 3: "?relate obs st2 = (x3, st3)" by force
      have v: "v (slot_world st3) = v (slot_world st)"
        using keepsD [OF kept(1) 1] keepsD [OF kept(2) 2] keepsD [OF kept(3) 3] by simp
      have "files (slot_world st1) = files (slot_world st)"
        by (rule keepsD [OF keeps_in_world [OF keeps_validate_record [OF hashing(1)]] 1])
      then have fs: "observed_files obs = files (slot_world st)" using observe_files 2 Inr by simp
      have arr: "files_arrays (observed_files obs)" unfolding fs by (rule arrays [OF assms(4)])
      have eq: "optional_partial_equal (rr_owned_partial r) (so_observed_owned_partial obs) \<longleftrightarrow>
          rr_owned_partial r = so_observed_owned_partial obs"
        "owned_objects_equal (rr_owned_objects r) (so_observed_owned_objects obs) \<longleftrightarrow>
          rr_owned_objects r = so_observed_owned_objects obs"
        using assms(3) arr
        by (subst optional_partial_equal_iff owned_objects_equal_iff;
          auto simp: record_arrays_def files_arrays_def observed_files_def)+
      have "record_ok H r"
        using 1 \<open>x1 = Inr u1\<close> validate_resume_slot_record_iff [OF provider assms(3), of "slot_world st" u1]
        by (auto simp: in_world_def split: prod.split_asm)
      then have "\<not> (so_slot obs = None \<and> rr_owned_partial r = so_observed_owned_partial obs \<and>
          rr_owned_objects r = so_observed_owned_objects obs)"
        using assms(5) fs by (auto simp: observed_files_def)
      then have "\<exists>e. create_slot cng platform r st = (Inl e, st3)"
        using 1 2 3 \<open>x1 = Inr u1\<close> Inr eq by (cases x3) (auto simp: create_slot_def bindE_def failE_def)
      then show ?thesis using v by blast
    qed
  qed
qed

lemma replace_checks:
  assumes "keeps v (observe_fixed_slot platform)" "\<And>bytes. keeps v (sha256 cng bytes)"
    and "binding_arrays b" "parsed_arrays p" "typed (slot_world st)"
    and "\<not> cell_allows H (Request_replace b p) (files (slot_world st))"
  shows "\<exists>e st1. replace_slot cng platform b p st = (Inl e, st1) \<and> v (slot_world st1) = v (slot_world st)"
proof -
  note kept = keeps_looking(4) [OF assms(1,2)]
  obtain x1 st1 where 1: "open_bound cng platform b st = (x1, st1)" by force
  show ?thesis
  proof (cases x1)
    case (Inl e)
    then show ?thesis using 1 keepsD [OF kept 1] by (simp add: replace_slot_def bindE_def)
  next
    case (Inr q)
    let ?next = "q\<lparr>rr_checkpoint := p\<rparr>"
    note o = open_bound_success [OF 1 [unfolded Inr] assms(3,5)]
    have arr: "record_arrays ?next" using o(4) assms(4) by (simp add: record_arrays_def)
    obtain x2 st2 where 2: "in_world (validate_resume_slot_record cng ?next) st1 = (x2, st2)" by force
    have v: "v (slot_world st1) = v (slot_world st)" "v (slot_world st2) = v (slot_world st1)"
      using keepsD [OF kept 1] keepsD [OF keeps_in_world [OF keeps_validate_record [OF assms(2)]] 2] by simp_all
    have ok: "record_ok H ?next" if "x2 = Inr u" for u
      using 2 that validate_resume_slot_record_iff [OF provider arr, of "slot_world st1" u]
      by (auto simp: in_world_def split: prod.split_asm)
    have "bound_cell H b q (files (slot_world st))" using o by (simp add: bound_cell_def)
    with assms(6) have "validate_checkpoint_transition (pc_checkpoint (rr_checkpoint q)) (pc_checkpoint p) \<noteq>
        success_status \<or> \<not> record_ok H ?next"
      by auto
    then show ?thesis
    proof
      assume "validate_checkpoint_transition (pc_checkpoint (rr_checkpoint q)) (pc_checkpoint p) \<noteq> success_status"
      then obtain e where "validate_checkpoint_transition (pc_checkpoint (rr_checkpoint q)) (pc_checkpoint p) = Inl e"
        by (cases "validate_checkpoint_transition (pc_checkpoint (rr_checkpoint q)) (pc_checkpoint p)") auto
      then show ?thesis using 1 Inr v by (simp add: replace_slot_def bindE_def failE_def)
    next
      assume "\<not> record_ok H ?next"
      with ok obtain e where "x2 = Inl e" by (cases x2) auto
      then show ?thesis
        using 1 2 Inr v
        by (cases "validate_checkpoint_transition (pc_checkpoint (rr_checkpoint q)) (pc_checkpoint p)")
          (auto simp: replace_slot_def bindE_def failE_def returnE_def Let_def)
    qed
  qed
qed

lemma request_refused:
  assumes "keeps v (observe_fixed_slot platform)" "\<And>bytes. keeps v (sha256 cng bytes)"
    and "request_arrays request" "typed (slot_world st)" "\<not> cell_allows H request (files (slot_world st))"
  shows "\<exists>e st1. run_request cng platform request st = (Inl e, st1) \<and> v (slot_world st1) = v (slot_world st)"
proof (cases request)
  case (Request_start plan)
  obtain x st1 where run: "guard_new_operation_start cng platform plan st = (x, st1)" by force
  moreover have "v (slot_world st1) = v (slot_world st)" by (rule keepsD [OF keeps_looking(3) [OF assms(1,2)] run])
  moreover obtain e where "x = Inl e"
    using request_success [of request st st1] assms(3-5) run Request_start by (cases x) auto
  ultimately show ?thesis using Request_start by simp
next
  case (Request_create r)
  with create_checks [OF assms(1,2), of r st] assms(3-5) show ?thesis by simp
next
  case (Request_replace b p)
  with replace_checks [OF assms(1,2), of b p st] assms(3-5) show ?thesis by simp
next
  case (Request_discard b)
  obtain x st1 where run: "open_bound cng platform b st = (x, st1)" by force
  moreover have "v (slot_world st1) = v (slot_world st)" by (rule keepsD [OF keeps_looking(4) [OF assms(1,2)] run])
  moreover obtain e where "x = Inl e"
    using open_bound_success [of b st _ st1] assms(3-5) run Request_discard
    by (cases x) (auto simp: bound_cell_def)
  ultimately show ?thesis using Request_discard by (simp add: discard_slot_def bindE_def)
qed

end

section \<open>A working platform\<close>

text \<open>
  A platform that in a \<open>ready\<close> world does what it is asked: it observes a slot at a fixed, suitable path
  and stores and removes records.
\<close>

definition storage_matches :: "slot_observation \<Rightarrow> bool" where
  "storage_matches obs \<longleftrightarrow>
     fsp_exists (ssp_checkpoint_file (so_storage obs)) = (so_slot obs \<noteq> None) \<and>
     fsp_exists (ssp_owned_partial_file (so_storage obs)) = (so_observed_owned_partial obs \<noteq> None) \<and>
     length (ssp_owned_object_files (so_storage obs)) = length (so_observed_owned_objects obs) \<and>
     list_all fsp_exists (ssp_owned_object_files (so_storage obs))"

definition slot_usable :: "('s \<Rightarrow> bool) \<Rightarrow> ('s \<Rightarrow> bool) \<Rightarrow> wide_string \<Rightarrow> 's single_slot \<Rightarrow> bool" where
  "slot_usable ready typed path st \<longleftrightarrow> ready (slot_world st) \<and> typed (slot_world st) \<and>
     (bound_checkpoint_path st = None \<or> bound_checkpoint_path st = Some path)"

locale working_platform = honest_platform cng H platform files typed
  for cng :: "'s cng_api" and H platform and files :: "'s \<Rightarrow> slot_files" and typed +
  fixes ready :: "'s \<Rightarrow> bool" and path :: wide_string
  assumes stays_ready: "keeps ready (sha256 cng bytes)" "keeps ready (observe_fixed_slot platform)"
    and observes: "ready w \<Longrightarrow> length (snd (snd (files w))) \<le> kMaximumResumeOwnedObjects \<Longrightarrow>
      \<exists>obs w'. observe_fixed_slot platform w = (Some (Inr obs), w') \<and>
        validate_storage_shape (so_storage obs) = success_status \<and>
        ssp_checkpoint_path (so_storage obs) = path \<and> storage_matches obs"
    and creates: "ready w \<Longrightarrow> files w = (None, p, xs) \<Longrightarrow>
      \<exists>w'. create_fixed_slot platform r w = (Some success_status, w') \<and> ready w' \<and> files w' = (Some r, p, xs)"
    and replaces: "ready w \<Longrightarrow> files w = (Some q, p, xs) \<Longrightarrow>
      \<exists>w'. replace_fixed_slot platform (pc_record_hash (rr_checkpoint q)) r w = (Some success_status, w') \<and>
        ready w' \<and> files w' = (Some r, p, xs)"
    and discards: "ready w \<Longrightarrow> files w = slot_content (Some q) \<Longrightarrow> record_ok H q \<Longrightarrow> record_arrays q \<Longrightarrow>
      \<exists>w'. discard_fixed_slot platform (record_binding q) w = (Some success_status, w') \<and>
        ready w' \<and> files w' = slot_content None"
begin

lemma record_ok_objects:
  "record_ok H r \<Longrightarrow> length (rr_owned_objects r) \<le> kMaximumResumeOwnedObjects"
  by (auto simp: record_ok_def Let_def validate_record_objects_def not_less split: if_split_asm)

lemma in_world_keeps:
  assumes "in_world m st = (x, st')" "slot_usable ready typed path st" "keeps files m" "keeps ready m" "keeps typed m"
  shows "slot_usable ready typed path st' \<and> files (slot_world st') = files (slot_world st)"
  using assms by (auto simp: in_world_def slot_usable_def split: prod.split_asm dest: keepsD)

lemma validate_works:
  assumes "slot_usable ready typed path st" "record_arrays r" "record_ok H r"
  shows "\<exists>st'. in_world (validate_resume_slot_record cng r) st = (Inr (), st') \<and> slot_usable ready typed path st' \<and>
    files (slot_world st') = files (slot_world st)"
proof -
  obtain w' where "validate_resume_slot_record cng r (slot_world st) = (Inr (), w')"
    using validate_resume_slot_record_iff [OF provider assms(2), of "slot_world st" "()"] assms(3) by blast
  then have run: "in_world (validate_resume_slot_record cng r) st = (Inr (), st\<lparr>slot_world := w'\<rparr>)"
    by (simp add: in_world_def)
  from in_world_keeps [OF run assms(1)] run show ?thesis
    using keeps_validate_record [OF hashing(1)] keeps_validate_record [OF hashing(2)]
      keeps_validate_record [OF stays_ready(1)] by blast
qed

lemma observe_works:
  assumes "slot_usable ready typed path st" "length (snd (snd (files (slot_world st)))) \<le> kMaximumResumeOwnedObjects"
  shows "\<exists>obs st'. observe_slot platform st = (Inr obs, st') \<and> slot_usable ready typed path st' \<and>
    files (slot_world st') = files (slot_world st) \<and> observed_files obs = files (slot_world st) \<and>
    storage_matches obs"
proof -
  have "ready (slot_world st)" using assms(1) by (simp add: slot_usable_def)
  from observes [OF this assms(2)] obtain obs w'
    where run: "observe_fixed_slot platform (slot_world st) = (Some (Inr obs), w')"
      and ok: "validate_storage_shape (so_storage obs) = success_status"
        "ssp_checkpoint_path (so_storage obs) = path" "storage_matches obs"
    by blast
  have "ready w' \<and> typed w' \<and> files w' = files (slot_world st)"
    using keepsD [OF stays_ready(2) run] keepsD [OF observing(1) run] keepsD [OF observing(2) run] assms(1)
    by (simp add: slot_usable_def)
  then show ?thesis
    using assms(1) ok honest [OF run]
    by (auto simp: observe_slot_def bindE_def in_world_def guarded_call_def run bind_checkpoint_path_def
      returnE_def slot_usable_def)
qed

lemma relationship_works:
  assumes "slot_usable ready typed path st" "storage_matches obs" "files_arrays (observed_files obs)"
    "observed_files obs = slot_content x" "\<And>r. x = Some r \<Longrightarrow> record_ok H r"
  shows "\<exists>st'. in_world (validate_observation_relationship cng obs allow) st = (Inr (), st') \<and> slot_usable ready typed path st' \<and>
    files (slot_world st') = files (slot_world st)"
proof -
  have pre: "\<not> (fsp_exists (ssp_checkpoint_file (so_storage obs)) \<noteq> (so_slot obs \<noteq> None) \<or>
      fsp_exists (ssp_owned_partial_file (so_storage obs)) \<noteq> (so_observed_owned_partial obs \<noteq> None) \<or>
      length (ssp_owned_object_files (so_storage obs)) \<noteq> length (so_observed_owned_objects obs) \<or>
      list_ex (\<lambda>f. \<not> fsp_exists f) (ssp_owned_object_files (so_storage obs)))"
    using assms(2) by (auto simp: storage_matches_def list_all_iff list_ex_iff)
  obtain w' where run: "validate_observation_relationship cng obs allow (slot_world st) = (Inr (), w')"
  proof (cases x)
    case None
    with assms(4) pre show ?thesis
      by (intro that) (auto simp: validate_observation_relationship_def Let_def observed_files_def
        slot_content_def returnE_def)
  next
    case (Some r)
    have r: "so_slot obs = Some r" "so_observed_owned_partial obs = rr_owned_partial r"
      "so_observed_owned_objects obs = rr_owned_objects r"
      using assms(4) Some by (simp_all add: observed_files_def slot_content_def)
    have arr: "record_arrays r" using assms(3) r(1) by (simp add: files_arrays_def observed_files_def)
    then have eq: "optional_partial_equal (rr_owned_partial r) (rr_owned_partial r)"
      "owned_objects_equal (rr_owned_objects r) (rr_owned_objects r)"
      by (subst optional_partial_equal_iff owned_objects_equal_iff; auto simp: record_arrays_def)+
    obtain w' where "validate_resume_slot_record cng r (slot_world st) = (Inr (), w')"
      using validate_resume_slot_record_iff [OF provider arr, of "slot_world st" "()"] assms(5) [OF Some] by blast
    with pre r eq show ?thesis
      by (intro that [of w']) (simp add: validate_observation_relationship_def Let_def bindE_def returnE_def)
  qed
  then have "in_world (validate_observation_relationship cng obs allow) st = (Inr (), st\<lparr>slot_world := w'\<rparr>)"
    by (simp add: in_world_def)
  from in_world_keeps [OF this assms(1)] this show ?thesis
    using keeps_relationship [OF hashing(1)] keeps_relationship [OF hashing(2)]
      keeps_relationship [OF stays_ready(1)] by blast
qed

lemma inspect_works:
  assumes "slot_usable ready typed path st" "files (slot_world st) = slot_content x"
    "\<And>r. x = Some r \<Longrightarrow> record_ok H r"
  shows "\<exists>st'. inspect_slot cng platform st = (Inr x, st') \<and> slot_usable ready typed path st' \<and>
    files (slot_world st') = files (slot_world st)"
proof -
  have "length (snd (snd (files (slot_world st)))) \<le> kMaximumResumeOwnedObjects"
    using assms(2,3) record_ok_objects by (auto simp: slot_content_def split: option.split)
  from observe_works [OF assms(1) this] obtain obs st1
    where obs: "observe_slot platform st = (Inr obs, st1)" "slot_usable ready typed path st1"
      "files (slot_world st1) = files (slot_world st)"
      and fs: "observed_files obs = files (slot_world st)" and ok: "storage_matches obs"
    by blast
  have "typed (slot_world st)" using assms(1) by (simp add: slot_usable_def)
  then have "files_arrays (observed_files obs)" unfolding fs by (rule arrays)
  from relationship_works [OF obs(2) ok this, of x False] assms(2,3) fs obtain st2
    where rel: "in_world (validate_observation_relationship cng obs False) st1 = (Inr (), st2)"
      "slot_usable ready typed path st2" "files (slot_world st2) = files (slot_world st1)"
    by auto
  have "so_slot obs = x" using fs assms(2) by (auto simp: observed_files_def slot_content_def split: option.split_asm)
  then show ?thesis using obs rel by (simp add: inspect_slot_def bindE_def returnE_def)
qed

lemma open_works:
  assumes "slot_usable ready typed path st" "files (slot_world st) = slot_content (Some r)" "record_ok H r"
  shows "\<exists>st'. open_bound cng platform (record_binding r) st = (Inr r, st') \<and>
    slot_usable ready typed path st' \<and> files (slot_world st') = files (slot_world st)"
proof -
  have arr: "record_arrays r"
    using arrays [of "slot_world st"] assms(1,2) by (simp add: slot_usable_def files_arrays_def slot_content_def)
  from inspect_works [OF assms(1,2)] assms(3) obtain st1
    where ins: "inspect_slot cng platform st = (Inr (Some r), st1)" "slot_usable ready typed path st1"
      "files (slot_world st1) = files (slot_world st)"
    by auto
  obtain w' where mk: "make_resume_slot_binding cng r (slot_world st1) = (Inr (record_binding r), w')"
    using make_binding_success [OF provider arr] assms(3) by blast
  then have run: "in_world (make_resume_slot_binding cng r) st1 = (Inr (record_binding r), st1\<lparr>slot_world := w'\<rparr>)"
    by (simp add: in_world_def)
  have kept: "slot_usable ready typed path (st1\<lparr>slot_world := w'\<rparr>) \<and>
      files (slot_world (st1\<lparr>slot_world := w'\<rparr>)) = files (slot_world st1)"
    by (rule in_world_keeps [OF run ins(2) keeps_make_binding keeps_make_binding keeps_make_binding])
      (rule hashing stays_ready)+
  have "binding_equal (record_binding r) (record_binding r)"
    using binding_equal_iff [OF record_binding_arrays [OF arr] record_binding_arrays [OF arr]] by simp
  then show ?thesis
    using ins kept by (simp add: open_bound_def bindE_def liftE_def run returnE_def)
qed

lemma confirm_works:
  assumes "slot_usable ready typed path st" "files (slot_world st) = slot_content (Some r)" "record_ok H r"
  shows "\<exists>st'. confirm_slot cng platform r st = (Inr (), st') \<and> slot_usable ready typed path st' \<and>
    files (slot_world st') = slot_content (Some r)"
proof -
  have arr: "record_arrays r"
    using arrays [of "slot_world st"] assms(1,2) by (simp add: slot_usable_def files_arrays_def slot_content_def)
  then have "records_equal r r"
    by (simp add: records_equal_def record_arrays_def identities_equal_iff optional_partial_equal_iff
      owned_objects_equal_iff parsed_arrays_def checkpoint_arrays_def operation_id_equal_iff digest_equal_iff)
  with inspect_works [OF assms(1,2)] assms(2,3) show ?thesis
    by (auto simp: confirm_slot_def bindE_def liftE_def returnE_def)
qed

lemma call_works:
  assumes "slot_usable ready typed path st" "m (slot_world st) = (Some success_status, w)" "ready w" "typed w"
  shows "in_world (guarded_call m) st = (Inr (), st\<lparr>slot_world := w\<rparr>) \<and>
    slot_usable ready typed path (st\<lparr>slot_world := w\<rparr>)"
  using assms by (simp add: in_world_def guarded_call_def slot_usable_def)

lemma create_works:
  assumes "slot_usable ready typed path st" "record_arrays r" "record_ok H r"
    "files (slot_world st) = (None, rr_owned_partial r, rr_owned_objects r)"
  shows "\<exists>st'. create_slot cng platform r st = (Inr (), st') \<and> slot_usable ready typed path st' \<and>
    files (slot_world st') = slot_content (Some r)"
proof -
  from validate_works [OF assms(1-3)] obtain st1
    where valid: "in_world (validate_resume_slot_record cng r) st = (Inr (), st1)"
      and u1: "slot_usable ready typed path st1" and f1: "files (slot_world st1) = files (slot_world st)" by blast
  have "length (snd (snd (files (slot_world st1)))) \<le> kMaximumResumeOwnedObjects"
    using record_ok_objects [OF assms(3)] assms(4) f1 by simp
  from observe_works [OF u1 this] obtain obs st2
    where obs: "observe_slot platform st1 = (Inr obs, st2)" and u2: "slot_usable ready typed path st2"
      and f2: "files (slot_world st2) = files (slot_world st1)"
      and fs: "observed_files obs = files (slot_world st1)" and ok: "storage_matches obs" by blast
  have so: "so_slot obs = None" "so_observed_owned_partial obs = rr_owned_partial r"
    "so_observed_owned_objects obs = rr_owned_objects r"
    using fs f1 assms(4) by (simp_all add: observed_files_def)
  have rel: "in_world (validate_observation_relationship cng obs True) st2 = (Inr (), st2)"
    using ok so by (auto simp: in_world_def validate_observation_relationship_def Let_def storage_matches_def
      list_all_iff list_ex_iff returnE_def)
  have eq: "optional_partial_equal (rr_owned_partial r) (rr_owned_partial r)"
      "owned_objects_equal (rr_owned_objects r) (rr_owned_objects r)"
    using assms(2) by (subst optional_partial_equal_iff owned_objects_equal_iff; auto simp: record_arrays_def)+
  have "ready (slot_world st2)" "typed (slot_world st2)" using u2 by (simp_all add: slot_usable_def)
  moreover from creates [OF this(1), of "rr_owned_partial r" "rr_owned_objects r" r] f1 f2 assms(4) obtain w
    where w: "create_fixed_slot platform r (slot_world st2) = (Some success_status, w)" "ready w"
      "files w = slot_content (Some r)"
    by (auto simp: slot_content_def)
  ultimately have "typed w" using creating [of "slot_world st2" r] assms(2) by simp
  note c = call_works [OF u2, of "create_fixed_slot platform r", OF w(1,2) this]
  from confirm_works [OF c [THEN conjunct2] _ assms(3)] w(3) obtain st3
    where "confirm_slot cng platform r (st2\<lparr>slot_world := w\<rparr>) = (Inr (), st3)"
      "slot_usable ready typed path st3" "files (slot_world st3) = slot_content (Some r)"
    by auto
  then show ?thesis using valid obs rel so eq c by (simp add: create_slot_def bindE_def)
qed

lemma replace_works:
  assumes "slot_usable ready typed path st" "files (slot_world st) = slot_content (Some r)" "record_ok H r"
    "validate_checkpoint_transition (pc_checkpoint (rr_checkpoint r)) (pc_checkpoint p) = success_status"
    "parsed_arrays p" "record_ok H (r\<lparr>rr_checkpoint := p\<rparr>)"
  shows "\<exists>st'. replace_slot cng platform (record_binding r) p st = (Inr (), st') \<and>
    slot_usable ready typed path st' \<and> files (slot_world st') = slot_content (Some (r\<lparr>rr_checkpoint := p\<rparr>))"
proof -
  let ?next = "r\<lparr>rr_checkpoint := p\<rparr>"
  have "record_arrays r"
    using arrays [of "slot_world st"] assms(1,2) by (simp add: slot_usable_def files_arrays_def slot_content_def)
  then have arr: "record_arrays ?next" using assms(5) by (simp add: record_arrays_def)
  from open_works [OF assms(1-3)] obtain st1
    where opened: "open_bound cng platform (record_binding r) st = (Inr r, st1)"
      and u1: "slot_usable ready typed path st1" and f1: "files (slot_world st1) = files (slot_world st)" by blast
  from validate_works [OF u1 arr assms(6)] obtain st2
    where valid: "in_world (validate_resume_slot_record cng ?next) st1 = (Inr (), st2)"
      and u2: "slot_usable ready typed path st2" and f2: "files (slot_world st2) = files (slot_world st1)" by blast
  have "ready (slot_world st2)" "typed (slot_world st2)" using u2 by (simp_all add: slot_usable_def)
  moreover from replaces [OF this(1), of r "rr_owned_partial r" "rr_owned_objects r" ?next] f1 f2 assms(2) obtain w
    where w: "replace_fixed_slot platform (pc_record_hash (rr_checkpoint r)) ?next (slot_world st2) =
        (Some success_status, w)" "ready w" "files w = slot_content (Some ?next)"
    by (auto simp: slot_content_def)
  ultimately have "typed w"
    using replacing [of "slot_world st2" ?next "pc_record_hash (rr_checkpoint r)"] arr by simp
  note c = call_works [OF u2, of "replace_fixed_slot platform (pc_record_hash (rr_checkpoint r)) ?next",
      OF w(1,2) this]
  from confirm_works [OF c [THEN conjunct2] _ assms(6)] w(3) obtain st3
    where "confirm_slot cng platform ?next (st2\<lparr>slot_world := w\<rparr>) = (Inr (), st3)"
      "slot_usable ready typed path st3" "files (slot_world st3) = slot_content (Some ?next)"
    by auto
  then show ?thesis
    using opened valid c assms(4) by (simp add: replace_slot_def bindE_def Let_def returnE_def record_binding_def)
qed

lemma discard_works:
  assumes "slot_usable ready typed path st" "files (slot_world st) = slot_content (Some r)" "record_ok H r"
  shows "\<exists>st'. discard_slot cng platform (record_binding r) st = (Inr (), st') \<and>
    slot_usable ready typed path st' \<and> files (slot_world st') = slot_content None"
proof -
  from open_works [OF assms] obtain st1
    where opened: "open_bound cng platform (record_binding r) st = (Inr r, st1)"
      and u1: "slot_usable ready typed path st1" and f1: "files (slot_world st1) = files (slot_world st)" by blast
  have t: "ready (slot_world st1)" "typed (slot_world st1)" using u1 by (simp_all add: slot_usable_def)
  have "record_arrays r" using arrays [OF t(2)] f1 assms(2) by (simp add: files_arrays_def slot_content_def)
  with discards [OF t(1), of r] f1 assms(2,3) obtain w
    where w: "discard_fixed_slot platform (record_binding r) (slot_world st1) = (Some success_status, w)" "ready w"
      "files w = slot_content None"
    by auto
  have "typed w" using discarding [OF t(2), of "record_binding r"] w(1) by simp
  note c = call_works [OF u1, of "discard_fixed_slot platform (record_binding r)", OF w(1,2) this]
  let ?st = "st1\<lparr>slot_world := w\<rparr>"
  have u: "slot_usable ready typed path ?st" and f: "files (slot_world ?st) = slot_content None"
    using c w(3) by simp_all
  from observe_works [OF u] f obtain obs st2
    where obs: "observe_slot platform ?st = (Inr obs, st2)" and u2: "slot_usable ready typed path st2"
      and f2: "files (slot_world st2) = slot_content None"
      and fs: "observed_files obs = slot_content None" and ok: "storage_matches obs"
    by (auto simp: slot_content_def)
  have "files_arrays (observed_files obs)" by (simp add: fs files_arrays_def slot_content_def)
  from relationship_works [OF u2 ok this fs, of False] f2 obtain st3
    where rel: "in_world (validate_observation_relationship cng obs False) st2 = (Inr (), st3)"
      "slot_usable ready typed path st3" "files (slot_world st3) = slot_content None"
    by auto
  have "so_slot obs = None" "so_observed_owned_partial obs = None" "so_observed_owned_objects obs = []"
    using fs by (simp_all add: observed_files_def slot_content_def)
  then show ?thesis using opened c obs rel by (simp add: discard_slot_def bindE_def liftE_def returnE_def)
qed

lemma start_works:
  assumes "slot_usable ready typed path st" "files (slot_world st) = slot_content None"
    "validate_operation_plan plan = success_status"
  shows "\<exists>st'. guard_new_operation_start cng platform plan st = (Inr (), st') \<and>
    slot_usable ready typed path st' \<and> files (slot_world st') = slot_content None"
  using inspect_works [OF assms(1,2)] assms(2,3)
  by (auto simp: guard_new_operation_start_def bindE_def returnE_def)

lemma request_works:
  assumes "slot_usable ready typed path st" "request_arrays request"
    "cell_allows H request (files (slot_world st))"
  shows "\<exists>st'. run_request cng platform request st = (Inr (), st') \<and> slot_usable ready typed path st' \<and>
    files (slot_world st') = slot_content (cell_target request (files (slot_world st)))"
proof (cases request)
  case (Request_start plan)
  then show ?thesis using start_works [OF assms(1), of plan] assms(3) by simp
next
  case (Request_create r)
  then show ?thesis using create_works [OF assms(1), of r] assms(2,3) by simp
next
  case (Request_replace b p)
  then obtain q where q: "bound_cell H b q (files (slot_world st))" and
    "validate_checkpoint_transition (pc_checkpoint (rr_checkpoint q)) (pc_checkpoint p) = success_status"
    "record_ok H (q\<lparr>rr_checkpoint := p\<rparr>)"
    using assms(3) by auto
  with replace_works [OF assms(1), of q p] assms(2) Request_replace show ?thesis
    by (auto simp: bound_cell_def slot_content_def)
next
  case (Request_discard b)
  then show ?thesis using discard_works [OF assms(1)] assms(3) by (auto simp: bound_cell_def)
qed

end

end
