(* ===== verification/ResumeSlotMemory.thy ===== *)
theory ResumeSlotMemory
  imports ResumeSlotRuns
begin

text \<open>
  The in-memory platform of the unit tests (\<open>tests/Unit/resume_slot_tests.cpp\<close>), which is an honest
  platform, the history of a slot, and the properties of the resume slot.
\<close>

section \<open>The platform of the tests\<close>

record memory_platform =
  mp_path :: wide_string
  mp_paths_canonical :: bool
  mp_parent_reparse_free :: bool
  mp_placement_separated :: bool
  mp_paths_distinct :: bool
  mp_checkpoint_regular :: bool
  mp_checkpoint_reparse_free :: bool
  mp_checkpoint_links :: u32
  mp_partial_regular :: bool
  mp_partial_reparse_free :: bool
  mp_partial_links :: u32
  mp_fail_observe :: bool
  mp_slot :: "resume_slot_record option"
  mp_partial :: "owned_partial_binding option"
  mp_objects :: "owned_object_binding list"
  mp_observe_calls :: int
  mp_create_calls :: int
  mp_replace_calls :: int
  mp_discard_calls :: int
  mp_hash_buffer :: "byte list"

definition synthetic_error :: "error_code \<Rightarrow> error" where
  "synthetic_error code = mk_error code ERROR_GEN_FAILURE"

definition memory_observe :: "memory_platform \<Rightarrow> slot_observation result option \<times> memory_platform" where
  "memory_observe w =
     (if mp_fail_observe w
      then (Some (Inl (synthetic_error Invalid_data)), w\<lparr>mp_observe_calls := mp_observe_calls w + 1\<rparr>)
      else
        (Some (Inr
          \<lparr>so_storage =
            \<lparr>ssp_checkpoint_path = mp_path w, ssp_paths_are_canonical_local = mp_paths_canonical w,
             ssp_parent_chain_reparse_free = mp_parent_reparse_free w,
             ssp_placement_separated_from_source = mp_placement_separated w,
             ssp_checkpoint_and_partial_paths_distinct = mp_paths_distinct w,
             ssp_checkpoint_file =
              \<lparr>fsp_exists = mp_slot w \<noteq> None, fsp_is_regular_file = mp_checkpoint_regular w,
               fsp_is_reparse_free = mp_checkpoint_reparse_free w,
               fsp_hard_link_count = mp_checkpoint_links w\<rparr>,
             ssp_owned_partial_file =
              \<lparr>fsp_exists = mp_partial w \<noteq> None, fsp_is_regular_file = mp_partial_regular w,
               fsp_is_reparse_free = mp_partial_reparse_free w,
               fsp_hard_link_count = mp_partial_links w\<rparr>,
             ssp_owned_object_files =
               map (\<lambda>x. \<lparr>fsp_exists = True, fsp_is_regular_file = True, fsp_is_reparse_free = True,
                 fsp_hard_link_count = 1\<rparr>) (mp_objects w)\<rparr>,
           so_slot = mp_slot w, so_observed_owned_partial = mp_partial w,
           so_observed_owned_objects = mp_objects w\<rparr>),
         w\<lparr>mp_observe_calls := mp_observe_calls w + 1\<rparr>))"

definition memory_create :: "resume_slot_record \<Rightarrow> memory_platform \<Rightarrow> status option \<times> memory_platform" where
  "memory_create r w =
     (let w = w\<lparr>mp_create_calls := mp_create_calls w + 1\<rparr> in
      if mp_slot w \<noteq> None then (Some (Inl (synthetic_error Access_denied)), w)
      else (Some success_status, w\<lparr>mp_slot := Some r\<rparr>))"

definition memory_replace ::
  "byte list \<Rightarrow> resume_slot_record \<Rightarrow> memory_platform \<Rightarrow> status option \<times> memory_platform" where
  "memory_replace expected_hash r w =
     (let w = w\<lparr>mp_replace_calls := mp_replace_calls w + 1\<rparr> in
      case mp_slot w of
        None \<Rightarrow> (Some (Inl (synthetic_error Identity_mismatch)), w)
      | Some old \<Rightarrow>
        if pc_record_hash (rr_checkpoint old) \<noteq> expected_hash
        then (Some (Inl (synthetic_error Identity_mismatch)), w)
        else (Some success_status, w\<lparr>mp_slot := Some r\<rparr>))"

abbreviation memory_slot_cng :: "memory_platform cng_api" where
  "memory_slot_cng \<equiv> memory_cng mp_hash_buffer (\<lambda>b w. w\<lparr>mp_hash_buffer := b\<rparr>)"

definition memory_discard ::
  "resume_slot_binding \<Rightarrow> memory_platform \<Rightarrow> status option \<times> memory_platform" where
  "memory_discard b w0 =
     (let w = w0\<lparr>mp_discard_calls := mp_discard_calls w0 + 1\<rparr> in
      case mp_slot w of
        None \<Rightarrow> (Some (Inl (synthetic_error Identity_mismatch)), w)
      | Some r \<Rightarrow>
       (case make_resume_slot_binding memory_slot_cng r w of
          (Inl e, w) \<Rightarrow> (Some (Inl (synthetic_error Identity_mismatch)), w)
        | (Inr actual, w) \<Rightarrow>
          if actual \<noteq> b \<or> (rb_partial_file_object_identity_hash b \<noteq> None) \<noteq> (mp_partial w \<noteq> None) \<or>
             length (rb_owned_object_file_bindings b) \<noteq> length (mp_objects w) \<or>
             (\<exists>p. mp_partial w = Some p \<and>
               rb_partial_file_object_identity_hash b \<noteq> Some (rop_file_object_identity_hash p)) \<or>
             \<not> list_all2 (\<lambda>x v. roo_role x = rov_role v \<and>
                 roo_file_object_identity_hash x = rov_file_object_identity_hash v)
               (mp_objects w) (rb_owned_object_file_bindings b)
          then (Some (Inl (synthetic_error Identity_mismatch)), w)
          else (Some success_status, w\<lparr>mp_slot := None, mp_partial := None, mp_objects := []\<rparr>)))"

definition memory_slot_platform :: "memory_platform resume_slot_platform" where
  "memory_slot_platform =
     \<lparr>observe_fixed_slot = memory_observe, create_fixed_slot = memory_create,
      replace_fixed_slot = memory_replace, discard_fixed_slot = memory_discard\<rparr>"

definition memory_files :: "memory_platform \<Rightarrow> slot_files" where
  "memory_files w = (mp_slot w, mp_partial w, mp_objects w)"

lemma memory_slot_sha256:
  "sha256 memory_slot_cng bytes w = (Inr (checksum bytes), w\<lparr>mp_hash_buffer := bytes\<rparr>)"
proof -
  have "hash_all memory_slot_cng 1 bytes (w\<lparr>mp_hash_buffer := []\<rparr>) = (Inr (), w\<lparr>mp_hash_buffer := bytes\<rparr>)"
    by (subst memory_cng_all) simp_all
  then show ?thesis
    by (simp add: sha256_def bindE_def liftE_def bcrypt_success_def returnE_def memory_cng_def)
qed

lemma memory_slot_provider: "hash_provider memory_slot_cng checksum"
  by (simp add: hash_provider_def memory_slot_sha256 checksum_def)

lemma memory_hash_keeps:
  "(\<And>b w. v (w\<lparr>mp_hash_buffer := b\<rparr>) = v w) \<Longrightarrow> keeps v (sha256 memory_slot_cng bytes)"
  by (simp add: keeps_def memory_slot_sha256)

lemma memory_observe_keeps:
  "(\<And>n w. v (w\<lparr>mp_observe_calls := n\<rparr>) = v w) \<Longrightarrow> keeps v (observe_fixed_slot memory_slot_platform)"
  by (simp add: keeps_def memory_slot_platform_def memory_observe_def)

lemma memory_discard_typed:
  assumes "files_arrays (memory_files w)"
  shows "files_arrays (memory_files (snd (memory_discard b w)))"
proof -
  have kept: "memory_files w' = memory_files w"
    if "make_resume_slot_binding memory_slot_cng r (w\<lparr>mp_discard_calls := n\<rparr>) = (x, w')" for r n x w'
  proof -
    have "keeps memory_files (make_resume_slot_binding memory_slot_cng r)"
      by (rule keeps_make_binding [OF memory_hash_keeps]) (simp add: memory_files_def)
    from keepsD [OF this that] show ?thesis by (simp add: memory_files_def)
  qed
  have "memory_files (w\<lparr>mp_discard_calls := n\<rparr>) = memory_files w"
    "memory_files (v\<lparr>mp_slot := None, mp_partial := None, mp_objects := []\<rparr>) = (None, None, [])" for n v
    by (simp_all add: memory_files_def)
  moreover have "files_arrays (None, None, [])" by (simp add: files_arrays_def)
  ultimately show ?thesis
    using assms by (auto simp: memory_discard_def Let_def split: option.split prod.split sum.split dest!: kept)
qed

interpretation memory_slot: honest_platform memory_slot_cng checksum memory_slot_platform memory_files
  "\<lambda>w. files_arrays (memory_files w)"
proof unfold_locales
  show "keeps memory_files (observe_fixed_slot memory_slot_platform)"
    "keeps (\<lambda>w. files_arrays (memory_files w)) (observe_fixed_slot memory_slot_platform)"
    by (simp_all add: memory_observe_keeps memory_files_def)
  show "keeps memory_files (sha256 memory_slot_cng bytes)"
    "keeps (\<lambda>w. files_arrays (memory_files w)) (sha256 memory_slot_cng bytes)" for bytes
    by (simp_all add: memory_hash_keeps memory_files_def)
  show "observed_files obs = memory_files w"
    if "observe_fixed_slot memory_slot_platform w = (Some (Inr obs), w')" for w obs w'
    using that by (auto simp: memory_slot_platform_def memory_observe_def observed_files_def memory_files_def
      split: if_split_asm)
  show "files_arrays (memory_files (snd (create_fixed_slot memory_slot_platform r w)))"
    if "files_arrays (memory_files w)" "record_arrays r" for w r
    using that by (auto simp: memory_slot_platform_def memory_create_def Let_def memory_files_def files_arrays_def)
  show "files_arrays (memory_files (snd (replace_fixed_slot memory_slot_platform h r w)))"
    if "files_arrays (memory_files w)" "record_arrays r" for w r h
    using that by (auto simp: memory_slot_platform_def memory_replace_def Let_def memory_files_def
      files_arrays_def split: option.split)
  show "files_arrays (memory_files (snd (discard_fixed_slot memory_slot_platform b w)))"
    if "files_arrays (memory_files w)" for w b
    using memory_discard_typed [OF that] by (simp add: memory_slot_platform_def)
qed (simp_all add: memory_slot_provider)

text \<open>A world in which every proof of the storage is as it should be.\<close>

definition memory_ready :: "memory_platform \<Rightarrow> bool" where
  "memory_ready w \<longleftrightarrow> mp_paths_canonical w \<and> mp_parent_reparse_free w \<and> mp_placement_separated w \<and>
     mp_paths_distinct w \<and> mp_checkpoint_regular w \<and> mp_checkpoint_reparse_free w \<and> mp_checkpoint_links w = 1 \<and>
     mp_partial_regular w \<and> mp_partial_reparse_free w \<and> mp_partial_links w = 1 \<and> \<not> mp_fail_observe w \<and>
     mp_path w = [67, 58, 92] @ kResumeSlotFileName"

lemma object_files_valid:
  "validate_object_files (map (\<lambda>x. \<lparr>fsp_exists = True, fsp_is_regular_file = True, fsp_is_reparse_free = True,
     fsp_hard_link_count = 1\<rparr>) xs) = success_status"
  by (induction xs) (simp_all add: validate_existing_file_proof_def)

lemma slot_path_fixed: "is_fixed_checkpoint_path ([67, 58, 92] @ kResumeSlotFileName)"
  by (simp add: is_fixed_checkpoint_path_def kResumeSlotFileName_def)

lemma memory_discard_works:
  assumes "memory_ready w" "memory_files w = slot_content (Some q)" "record_ok checksum q" "record_arrays q"
  shows "\<exists>w'. memory_discard (record_binding q) w = (Some success_status, w') \<and> memory_ready w' \<and>
    memory_files w' = slot_content None"
proof -
  let ?w = "w\<lparr>mp_discard_calls := mp_discard_calls w + 1\<rparr>"
  obtain w' where mk: "make_resume_slot_binding memory_slot_cng q ?w = (Inr (record_binding q), w')"
    using make_binding_success [OF memory_slot_provider assms(4)] assms(3) by blast
  have "keeps memory_files (make_resume_slot_binding memory_slot_cng q)"
    "keeps memory_ready (make_resume_slot_binding memory_slot_cng q)"
    by (rule keeps_make_binding [OF memory_hash_keeps]; simp add: memory_files_def memory_ready_def)+
  from keepsD [OF this(1) mk] keepsD [OF this(2) mk] assms(1,2)
  have "memory_files w' = slot_content (Some q)" "memory_ready w'"
    by (simp_all add: memory_files_def memory_ready_def)
  moreover have "mp_slot w = Some q" using assms(2) by (simp add: memory_files_def slot_content_def)
  ultimately show ?thesis
    using mk by (auto simp: memory_discard_def Let_def record_binding_def memory_files_def slot_content_def
      memory_ready_def list_all2_map2 list.rel_refl split: option.split)
qed

interpretation memory_working: working_platform memory_slot_cng checksum memory_slot_platform memory_files
  "\<lambda>w. files_arrays (memory_files w)" memory_ready "[67, 58, 92] @ kResumeSlotFileName"
proof unfold_locales
  show "keeps memory_ready (sha256 memory_slot_cng bytes)" for bytes
    by (simp add: memory_hash_keeps memory_ready_def)
  show "keeps memory_ready (observe_fixed_slot memory_slot_platform)"
    by (simp add: memory_observe_keeps memory_ready_def)
  show "\<exists>obs w'. observe_fixed_slot memory_slot_platform w = (Some (Inr obs), w') \<and>
      validate_storage_shape (so_storage obs) = success_status \<and>
      ssp_checkpoint_path (so_storage obs) = [67, 58, 92] @ kResumeSlotFileName \<and> storage_matches obs"
    if "memory_ready w" "length (snd (snd (memory_files w))) \<le> kMaximumResumeOwnedObjects" for w
    using that slot_path_fixed
    by (simp add: memory_slot_platform_def memory_observe_def memory_ready_def validate_storage_shape_def
      validate_existing_file_proof_def object_files_valid memory_files_def storage_matches_def list_all_iff)
  show "\<exists>w'. create_fixed_slot memory_slot_platform r w = (Some success_status, w') \<and> memory_ready w' \<and>
      memory_files w' = (Some r, p, xs)"
    if "memory_ready w" "memory_files w = (None, p, xs)" for w p xs r
    using that by (simp add: memory_slot_platform_def memory_create_def Let_def memory_files_def memory_ready_def)
  show "\<exists>w'. replace_fixed_slot memory_slot_platform (pc_record_hash (rr_checkpoint q)) r w =
      (Some success_status, w') \<and> memory_ready w' \<and> memory_files w' = (Some r, p, xs)"
    if "memory_ready w" "memory_files w = (Some q, p, xs)" for w p xs r q
    using that by (simp add: memory_slot_platform_def memory_replace_def Let_def memory_files_def memory_ready_def)
  show "\<exists>w'. discard_fixed_slot memory_slot_platform (record_binding q) w = (Some success_status, w') \<and>
      memory_ready w' \<and> memory_files w' = slot_content None"
    if "memory_ready w" "memory_files w = slot_content (Some q)" "record_ok checksum q" "record_arrays q" for w q
    using memory_discard_works [OF that] by (simp add: memory_slot_platform_def)
qed

section \<open>The history of a slot\<close>

text \<open>
  \<open>slot_history cng platform typed r seen c st\<close>: in \<open>st\<close> the slot was created from the record \<open>r\<close> and
  lives on; \<open>c\<close> is the checkpoint written last, and \<open>seen\<close> pairs every earlier one with the one that
  was read when it was replaced.
\<close>

inductive slot_history ::
  "'s cng_api \<Rightarrow> 's resume_slot_platform \<Rightarrow> ('s \<Rightarrow> bool) \<Rightarrow> resume_slot_record \<Rightarrow>
   (interruption_checkpoint \<times> interruption_checkpoint) list \<Rightarrow> interruption_checkpoint \<Rightarrow> 's single_slot \<Rightarrow> bool"
  for cng platform typed r where
  slot_created: "typed (slot_world st) \<Longrightarrow> record_arrays r \<Longrightarrow> create_slot cng platform r st = (Inr (), st') \<Longrightarrow>
    slot_history cng platform typed r [] (pc_checkpoint (rr_checkpoint r)) st'"
| slot_inspected: "slot_history cng platform typed r seen c st \<Longrightarrow> inspect_slot cng platform st = (x, st') \<Longrightarrow>
    slot_history cng platform typed r seen c st'"
| slot_guarded: "slot_history cng platform typed r seen c st \<Longrightarrow>
    guard_new_operation_start cng platform plan st = (y, st') \<Longrightarrow> slot_history cng platform typed r seen c st'"
| slot_opened: "slot_history cng platform typed r seen c st \<Longrightarrow> open_bound cng platform b st = (z, st') \<Longrightarrow>
    slot_history cng platform typed r seen c st'"
| slot_replaced: "slot_history cng platform typed r seen c st \<Longrightarrow> binding_arrays b \<Longrightarrow> parsed_arrays p \<Longrightarrow>
    open_bound cng platform b st = (Inr q, st1) \<Longrightarrow> replace_slot cng platform b p st = (Inr (), st') \<Longrightarrow>
    slot_history cng platform typed r ((c, pc_checkpoint (rr_checkpoint q)) # seen) (pc_checkpoint p) st'"

text \<open>The slot holds a record of the same operation, with a checkpoint that has the hash of the last one.\<close>

definition slot_holds ::
  "(byte list \<Rightarrow> byte list) \<Rightarrow> resume_slot_record \<Rightarrow> interruption_checkpoint \<Rightarrow> slot_files \<Rightarrow> bool" where
  "slot_holds H r c fs \<longleftrightarrow>
     (\<exists>q. fs = slot_content (Some q) \<and> record_ok H q \<and> q = r\<lparr>rr_checkpoint := rr_checkpoint q\<rparr> \<and>
       ic_operation_id (pc_checkpoint (rr_checkpoint q)) = ic_operation_id (pc_checkpoint (rr_checkpoint r)) \<and>
       H (signed_bytes (pc_checkpoint (rr_checkpoint q))) = H (signed_bytes c))"

text \<open>Which requests the history of a slot consists of, and that it is one sequence of updates.\<close>

definition slot_chain ::
  "(byte list \<Rightarrow> byte list) \<Rightarrow> resume_slot_record \<Rightarrow>
   (interruption_checkpoint \<times> interruption_checkpoint) list \<Rightarrow> interruption_checkpoint \<Rightarrow> bool" where
  "slot_chain H r seen c \<longleftrightarrow>
     (\<forall>(w, d) \<in> set seen. H (signed_bytes w) = H (signed_bytes d)) \<and>
     ((\<forall>(w, d) \<in> set seen. w = d) \<longrightarrow>
       checkpoint_updates (pc_checkpoint (rr_checkpoint r)) (length seen) c)"

lemma slot_holds_created:
  assumes "same_record H q r" "record_ok H q"
  shows "slot_holds H r (pc_checkpoint (rr_checkpoint r)) (slot_content (Some q))"
  using assms by (auto simp: slot_holds_def same_record_def)

lemma slot_holds_replaced:
  assumes "slot_holds H r c (slot_content (Some q))" "same_record H q' (q\<lparr>rr_checkpoint := p\<rparr>)" "record_ok H q'"
    "ic_operation_id (pc_checkpoint p) = ic_operation_id (pc_checkpoint (rr_checkpoint q))"
  shows "slot_holds H r (pc_checkpoint p) (slot_content (Some q'))"
proof -
  from assms(1) have q: "q = r\<lparr>rr_checkpoint := rr_checkpoint q\<rparr>"
    "ic_operation_id (pc_checkpoint (rr_checkpoint q)) = ic_operation_id (pc_checkpoint (rr_checkpoint r))"
    by (auto simp: slot_holds_def slot_content_def)
  from assms(2) have q': "q' = q\<lparr>rr_checkpoint := rr_checkpoint q'\<rparr>"
    "ic_operation_id (pc_checkpoint (rr_checkpoint q')) = ic_operation_id (pc_checkpoint p)"
    "H (signed_bytes (pc_checkpoint (rr_checkpoint q'))) = H (signed_bytes (pc_checkpoint p))"
    by (auto simp: same_record_def)
  have "q' = r\<lparr>rr_checkpoint := rr_checkpoint q'\<rparr>" by (subst q'(1), subst q(1)) simp
  then show ?thesis
    using q q' assms(3,4) by (auto simp: slot_holds_def)
qed

context honest_platform
begin

lemma history_holds:
  assumes "slot_history cng platform typed r seen c st"
  shows "typed (slot_world st) \<and> slot_holds H r c (files (slot_world st)) \<and> slot_chain H r seen c"
  using assms
proof induction
  case (slot_created st st')
  note c = create_success [OF slot_created.hyps(3,2,1)]
  then obtain q where "files (slot_world st') = slot_content (Some q)" "record_ok H q" "same_record H q r"
    "typed (slot_world st')"
    by blast
  moreover have "slot_chain H r [] (pc_checkpoint (rr_checkpoint r))"
    using no_update slot_created.hyps(2) by (simp add: slot_chain_def record_arrays_def parsed_arrays_def)
  ultimately show ?case using slot_holds_created [of H q r] by simp
next
  case (slot_inspected seen c st x st')
  then show ?case using keepsD [OF looking(2)] keepsD [OF looking_typed(2)] by metis
next
  case (slot_guarded seen c st plan y st')
  then show ?case using keepsD [OF looking(3)] keepsD [OF looking_typed(3)] by metis
next
  case (slot_opened seen c st b z st')
  then show ?case using keepsD [OF looking(4)] keepsD [OF looking_typed(4)] by metis
next
  case (slot_replaced seen c st b p q st1 st')
  have typed: "typed (slot_world st)" and holds: "slot_holds H r c (files (slot_world st))"
    and chain: "slot_chain H r seen c"
    using slot_replaced.IH by blast+
  from replace_success [OF slot_replaced.hyps(5,2,3) typed] slot_replaced.hyps(4) obtain r'
    where fs: "files (slot_world st) = slot_content (Some q)" and arr: "record_arrays q"
      and step: "validate_checkpoint_transition (pc_checkpoint (rr_checkpoint q)) (pc_checkpoint p) = success_status"
      and after: "files (slot_world st') = slot_content (Some r')" "record_ok H r'"
        "same_record H r' (q\<lparr>rr_checkpoint := p\<rparr>)" "typed (slot_world st')"
    by auto
  have c_arr: "checkpoint_arrays (pc_checkpoint (rr_checkpoint q))" "checkpoint_arrays (pc_checkpoint p)"
    using arr slot_replaced.hyps(3) by (simp_all add: record_arrays_def parsed_arrays_def)
  have "ic_operation_id (pc_checkpoint p) = ic_operation_id (pc_checkpoint (rr_checkpoint q))"
    using transition_success(3) [OF step c_arr] by (simp add: same_operation_def)
  from slot_holds_replaced [OF holds [unfolded fs] after(3,2) this]
  have "slot_holds H r (pc_checkpoint p) (files (slot_world st'))" by (simp add: after(1))
  moreover have "H (signed_bytes c) = H (signed_bytes (pc_checkpoint (rr_checkpoint q)))"
    using holds fs by (auto simp: slot_holds_def slot_content_def)
  then have "slot_chain H r ((c, pc_checkpoint (rr_checkpoint q)) # seen) (pc_checkpoint p)"
    using chain one_update [OF _ c_arr(2) step] by (auto simp: slot_chain_def)
  ultimately show ?case using after(4) by simp
qed

end

section \<open>A concrete slot\<close>

definition sample_slot_record :: "u64 \<Rightarrow> u64 \<Rightarrow> resume_slot_record" where
  "sample_slot_record revision verified =
     \<lparr>rr_capability = Persistent_exact_restore,
      rr_checkpoint =
        \<lparr>pc_checkpoint = sample_checkpoint revision verified,
         pc_record_hash = checksum (signed_bytes (sample_checkpoint revision verified))\<rparr>,
      rr_identities = \<lparr>rib_source_identity_hash = replicate 32 1, rib_target_identity_hash = replicate 32 2,
        rib_output_identity_hash = replicate 32 5\<rparr>,
      rr_owned_partial = None, rr_owned_objects = []\<rparr>"

definition sample_memory :: memory_platform where
  "sample_memory =
     \<lparr>mp_path = [67, 58, 92] @ kResumeSlotFileName, mp_paths_canonical = True, mp_parent_reparse_free = True,
      mp_placement_separated = True, mp_paths_distinct = True, mp_checkpoint_regular = True,
      mp_checkpoint_reparse_free = True, mp_checkpoint_links = 1, mp_partial_regular = True,
      mp_partial_reparse_free = True, mp_partial_links = 1, mp_fail_observe = False, mp_slot = None,
      mp_partial = None, mp_objects = [], mp_observe_calls = 0, mp_create_calls = 0, mp_replace_calls = 0,
      mp_discard_calls = 0, mp_hash_buffer = []\<rparr>"

definition sample_slot :: "memory_platform single_slot" where
  "sample_slot = \<lparr>bound_checkpoint_path = None, slot_world = sample_memory\<rparr>"

lemma sample_slot_usable:
  "slot_usable memory_ready (\<lambda>w. files_arrays (memory_files w)) ([67, 58, 92] @ kResumeSlotFileName) sample_slot"
  "files_arrays (memory_files (slot_world sample_slot))"
  "memory_files (slot_world sample_slot) = slot_content None"
  by (simp_all add: slot_usable_def sample_slot_def sample_memory_def memory_ready_def memory_files_def
    files_arrays_def slot_content_def)

lemma sample_checkpoint_storable:
  assumes "r \<noteq> 0" "v \<le> 4096"
  shows "checkpoint_storable (sample_checkpoint r v)"
proof -
  have "48 + length (body_bytes (sample_checkpoint r v)) \<le> kMaximumCheckpointBytes"
    by (simp add: body_bytes_def fixed_bytes_def sample_checkpoint_def optional_bytes_def identity_bytes_def
      sample_disk_def wstring_bytes_def string_bytes_def)
  then show ?thesis using sample_checkpoint_valid [OF assms] by (simp add: checkpoint_storable_def)
qed

lemma sample_slot_record_arrays: "record_arrays (sample_slot_record r v)"
  using sample_checkpoint_arrays [of r v]
  by (simp add: record_arrays_def sample_slot_record_def parsed_arrays_def checksum_def identities_arrays_def)

lemma sample_slot_record_ok:
  assumes "r \<noteq> 0" "v \<le> 4096"
  shows "record_ok checksum (sample_slot_record r v)"
proof -
  have "ic_kind (sample_checkpoint r v) = Image_restore"
    "ic_output_identity_hash (sample_checkpoint r v) = replicate 32 5"
    by (simp_all add: sample_checkpoint_def)
  then show ?thesis
    using sample_checkpoint_storable [OF assms]
    by (simp add: record_ok_def sample_slot_record_def Let_def resume_lifetime_def capability_shape_matches_def
      digest_is_zero_iff validate_record_objects_def owned_partial_ok_def owned_objects_fit_capability_def)
qed

lemma sample_slot_create:
  "\<exists>st. create_slot memory_slot_cng memory_slot_platform (sample_slot_record 1 0) sample_slot = (Inr (), st) \<and>
    slot_usable memory_ready (\<lambda>w. files_arrays (memory_files w)) ([67, 58, 92] @ kResumeSlotFileName) st \<and>
    memory_files (slot_world st) = slot_content (Some (sample_slot_record 1 0))"
  using memory_working.request_works [OF sample_slot_usable(1), of "Request_create (sample_slot_record 1 0)"]
    sample_slot_record_arrays [of 1 0] sample_slot_record_ok [of 1 0] sample_slot_usable(3)
  by (simp add: slot_content_def sample_slot_record_def)

section \<open>Properties\<close>

text \<open>C3. The slot is a store with one cell: if a request succeeds, the cell was in the state that allows
  it, empty for a new operation or a new record, holding exactly the reviewed record for an update or
  a removal, and afterwards it holds what was asked for.  The platform may do anything with the files,
  as long as it observes them honestly.\<close>

theorem resume_slot_sound:
  assumes "honest_platform cng H platform files typed" "typed (slot_world st)" "request_arrays request"
    and "run_request cng platform request st = (Inr (), st')"
  shows "cell_allows H request (files (slot_world st)) \<and>
    cell_holds H (cell_target request (files (slot_world st))) (files (slot_world st'))"
  by (rule honest_platform.request_success [OF assms(1,4,3,2)])

theorem resume_slot_sound_witness:
  "\<exists>st. run_request memory_slot_cng memory_slot_platform (Request_create (sample_slot_record 1 0)) sample_slot =
      (Inr (), st) \<and>
    cell_holds checksum (Some (sample_slot_record 1 0)) (memory_files (slot_world st))"
proof -
  obtain st where run: "run_request memory_slot_cng memory_slot_platform (Request_create (sample_slot_record 1 0))
      sample_slot = (Inr (), st)"
    using sample_slot_create by auto
  from resume_slot_sound [OF memory_slot.honest_platform_axioms sample_slot_usable(2) _ run]
    sample_slot_record_arrays run show ?thesis by auto
qed

text \<open>C21. A request the cell does not allow, a stale or foreign binding, an update that is not a valid
  successor, a second slot, a new operation while one is interrupted, fails before the platform is
  asked to change anything: every part of the world that observing and hashing leave alone is as before.\<close>

theorem resume_slot_refuses:
  assumes "honest_platform cng H platform files typed" "typed (slot_world st)" "request_arrays request"
    and "keeps v (observe_fixed_slot platform)" "\<forall>bytes. keeps v (sha256 cng bytes)"
    and "\<not> cell_allows H request (files (slot_world st))"
  shows "\<exists>e st'. run_request cng platform request st = (Inl e, st') \<and> v (slot_world st') = v (slot_world st)"
  by (rule honest_platform.request_refused [OF assms(1,4) assms(5) [rule_format] assms(3,2,6)])

theorem resume_slot_refuses_witness:
  "\<exists>e st. run_request memory_slot_cng memory_slot_platform
      (Request_discard (record_binding (sample_slot_record 1 0))) sample_slot = (Inl e, st) \<and>
    mp_discard_calls (slot_world st) = 0"
proof -
  let ?request = "Request_discard (record_binding (sample_slot_record 1 0))"
  have "\<not> cell_allows checksum ?request (memory_files (slot_world sample_slot))"
    by (simp add: sample_slot_usable(3) bound_cell_def slot_content_def)
  moreover have "request_arrays ?request" by (simp add: record_binding_arrays sample_slot_record_arrays)
  moreover have "keeps mp_discard_calls (observe_fixed_slot memory_slot_platform)"
    by (rule memory_observe_keeps) simp
  moreover have "\<forall>bytes. keeps mp_discard_calls (sha256 memory_slot_cng bytes)"
    by (intro allI memory_hash_keeps) simp
  ultimately show ?thesis
    using resume_slot_refuses [OF memory_slot.honest_platform_axioms sample_slot_usable(2)]
    by (fastforce simp: sample_slot_def sample_memory_def)
qed

text \<open>C22. On a working platform every request the cell allows succeeds, and the cell then holds exactly
  the record that was asked for.\<close>

theorem resume_slot_complete:
  assumes "working_platform cng H platform files typed ready path" "slot_usable ready typed path st"
    and "request_arrays request" "cell_allows H request (files (slot_world st))"
  shows "\<exists>st'. run_request cng platform request st = (Inr (), st') \<and> slot_usable ready typed path st' \<and>
    files (slot_world st') = slot_content (cell_target request (files (slot_world st)))"
  by (rule working_platform.request_works [OF assms])

theorem resume_slot_complete_witness:
  "\<exists>st. run_request memory_slot_cng memory_slot_platform (Request_create (sample_slot_record 1 0)) sample_slot =
      (Inr (), st) \<and>
    memory_files (slot_world st) = slot_content (Some (sample_slot_record 1 0))"
proof -
  have "cell_allows checksum (Request_create (sample_slot_record 1 0)) (memory_files (slot_world sample_slot))"
    using sample_slot_record_ok [of 1 0]
    by (simp add: sample_slot_usable(3) slot_content_def) (simp add: sample_slot_record_def)
  from resume_slot_complete [OF memory_working.working_platform_axioms sample_slot_usable(1) _ this]
    sample_slot_record_arrays show ?thesis by auto
qed

text \<open>C23. From its creation on, a slot belongs to one operation: capability, identities, owned files and
  operation never change, and the checkpoint it holds has the hash of the one written last.  If at
  every replacement the record that was read is the one that had been written, which could only fail by
  a collision of their hashes, the checkpoints are one sequence of accepted updates.\<close>

theorem resume_slot_life:
  assumes "honest_platform cng H platform files typed" "slot_history cng platform typed r seen c st"
  shows "slot_holds H r c (files (slot_world st)) \<and> slot_chain H r seen c"
  using honest_platform.history_holds [OF assms] by simp

theorem resume_slot_life_witness:
  "\<exists>seen st. slot_history memory_slot_cng memory_slot_platform (\<lambda>w. files_arrays (memory_files w))
      (sample_slot_record 1 0) seen (sample_checkpoint 2 4096) st \<and> length seen = 1 \<and>
    slot_chain checksum (sample_slot_record 1 0) seen (sample_checkpoint 2 4096)"
proof -
  let ?r = "sample_slot_record 1 0" and ?p = "rr_checkpoint (sample_slot_record 2 4096)"
  let ?typed = "\<lambda>w. files_arrays (memory_files w)"
  obtain st where created: "create_slot memory_slot_cng memory_slot_platform ?r sample_slot = (Inr (), st)"
    and usable: "slot_usable memory_ready ?typed ([67, 58, 92] @ kResumeSlotFileName) st"
    and fs: "memory_files (slot_world st) = slot_content (Some ?r)"
    using sample_slot_create by blast
  have ok: "record_ok checksum ?r" by (rule sample_slot_record_ok) simp_all
  have p: "parsed_arrays ?p" using sample_slot_record_arrays by (simp add: record_arrays_def)
  have next_ok: "record_ok checksum (?r\<lparr>rr_checkpoint := ?p\<rparr>)"
    using sample_slot_record_ok [of 2 4096] by (simp add: sample_slot_record_def)
  have step: "validate_checkpoint_transition (pc_checkpoint (rr_checkpoint ?r)) (pc_checkpoint ?p) = success_status"
    using sample_checkpoint_update by (simp add: sample_slot_record_def)
  obtain st1 where opened: "open_bound memory_slot_cng memory_slot_platform (record_binding ?r) st = (Inr ?r, st1)"
    using memory_working.open_works [OF usable fs ok] by blast
  obtain st2 where replaced: "replace_slot memory_slot_cng memory_slot_platform (record_binding ?r) ?p st =
      (Inr (), st2)"
    using memory_working.replace_works [OF usable fs ok step p next_ok] by blast
  have start: "slot_history memory_slot_cng memory_slot_platform ?typed ?r [] (pc_checkpoint (rr_checkpoint ?r)) st"
    by (rule slot_created [where typed = ?typed and st = sample_slot])
      (rule sample_slot_usable(2) sample_slot_record_arrays created)+
  have "slot_history memory_slot_cng memory_slot_platform ?typed ?r
      [(pc_checkpoint (rr_checkpoint ?r), pc_checkpoint (rr_checkpoint ?r))] (sample_checkpoint 2 4096) st2"
    using slot_replaced [OF start record_binding_arrays [OF sample_slot_record_arrays] p opened replaced]
    by (simp add: sample_slot_record_def)
  with resume_slot_life [OF memory_slot.honest_platform_axioms this] show ?thesis by fastforce
qed

end
