(* ===== verification/ImageHash.thy ===== *)
theory ImageHash
  imports Operation
begin

text \<open>
  SHA-256 for images (\<open>ImageFormat/src/sha256.cpp\<close>): the hash of bytes in memory, of a number of zero
  bytes, and of a stream that a callback reads block by block.  The CNG provider is the one of
  \<open>VerifiedDigest\<close>; \<open>hash_all\<close> is also the loop of \<open>CngSha256::update\<close>.
\<close>

section \<open>The code\<close>

definition hash_initialize :: "'s cng_api \<Rightarrow> ('s, nat) prog" where
  "hash_initialize cng =
     bindE (liftE (bcrypt_open_algorithm_provider cng)) (\<lambda>(status, algorithm).
     if \<not> bcrypt_success status then failE (cng_error status) else
     bindE (liftE (bcrypt_get_property cng algorithm BCRYPT_OBJECT_LENGTH))
       (\<lambda>(status, object_length, returned).
     if \<not> bcrypt_success status \<or> returned \<noteq> 4 \<or> object_length = 0 then failE (cng_error status) else
     bindE (liftE (bcrypt_get_property cng algorithm BCRYPT_HASH_LENGTH))
       (\<lambda>(status, hash_length, returned).
     if \<not> bcrypt_success status \<or> returned \<noteq> 4 \<or> hash_length \<noteq> 32 then failE (cng_error status) else
     bindE (liftE (bcrypt_create_hash cng algorithm object_length)) (\<lambda>(status, hash).
     if \<not> bcrypt_success status then failE (cng_error status) else returnE hash))))"

definition hash_finish :: "'s cng_api \<Rightarrow> nat \<Rightarrow> ('s, byte list) prog" where
  "hash_finish cng hash =
     bindE (liftE (bcrypt_finish_hash cng hash 32)) (\<lambda>(status, digest).
     if \<not> bcrypt_success status then failE (cng_error status) else returnE digest)"

definition image_sha256 :: "'s cng_api \<Rightarrow> byte list \<Rightarrow> ('s, byte list) prog" where
  "image_sha256 cng bytes =
     bindE (hash_initialize cng) (\<lambda>hash.
     bindE (hash_all cng hash bytes) (\<lambda>_. hash_finish cng hash))"

abbreviation (input) kZeroBufferSize :: nat where "kZeroBufferSize \<equiv> 1048576"

function hash_zeroes :: "'s cng_api \<Rightarrow> nat \<Rightarrow> u64 \<Rightarrow> ('s, unit) prog" where
  "hash_zeroes cng hash remaining =
     (if remaining > 0
      then
        let amount = min remaining (of_nat kZeroBufferSize) in
        bindE (hash_all cng hash (replicate (unat amount) 0)) (\<lambda>_.
          hash_zeroes cng hash (remaining - amount))
      else returnE ())"
  by pat_completeness auto
termination
proof (relation "measure (\<lambda>(cng, hash, remaining). unat remaining)")
  fix remaining amount :: u64
  assume "remaining > 0" "amount = min remaining (of_nat kZeroBufferSize)"
  then have "0 < amount" "amount \<le> remaining" by (auto simp: min_def)
  then show "((cng, hash, remaining - amount), (cng, hash, remaining)) \<in>
      measure (\<lambda>(cng, hash, remaining). unat remaining)" for cng :: "'s cng_api" and hash :: nat
    using unat_sub [of amount remaining] by (simp add: word_less_nat_alt word_le_nat_alt)
qed simp

declare hash_zeroes.simps [simp del]

definition sha256_zeroes :: "'s cng_api \<Rightarrow> u64 \<Rightarrow> ('s, byte list) prog" where
  "sha256_zeroes cng len =
     bindE (hash_initialize cng) (\<lambda>hash.
     bindE (hash_zeroes cng hash len) (\<lambda>_. hash_finish cng hash))"

text \<open>One step of a loop in blocks: how far it gets.\<close>

lemma block_step:
  fixes off len :: u64 and block :: nat
  assumes "off < len" "0 < block" "block < 2 ^ 64"
  defines "amount \<equiv> min (len - off) (of_nat block)"
  shows "unat amount = min (unat len - unat off) block" "unat (off + amount) = unat off + unat amount"
    "0 < unat amount" "unat off + unat amount \<le> unat len"
proof -
  have b: "unat (of_nat block :: u64) = block" using assms(3) by (rule unat_of_nat_u64)
  have d: "unat (len - off) = unat len - unat off" using assms(1) by (intro unat_sub_u64) (simp add: less_imp_le)
  have lt: "unat off < unat len" using assms(1) by (simp add: word_less_nat_alt)
  show m: "unat amount = min (unat len - unat off) block"
    using b d by (simp add: amount_def min_def word_le_nat_alt)
  then show "0 < unat amount" and le: "unat off + unat amount \<le> unat len" using lt assms(2) by simp_all
  then show "unat (off + amount) = unat off + unat amount"
    using unat_u64_bound [of len] by (intro unat_add_u64) simp
qed

abbreviation (input) kMaximumReadBlock :: nat where "kMaximumReadBlock \<equiv> 33554432"

type_synonym 's block_reader = "u64 \<Rightarrow> nat \<Rightarrow> ('s, byte list) prog"

function hash_blocks :: "'s cng_api \<Rightarrow> nat \<Rightarrow> 's block_reader \<Rightarrow> u64 \<Rightarrow> nat \<Rightarrow> u64 \<Rightarrow> ('s, unit) prog" where
  "hash_blocks cng hash reader len maximum_block_bytes offset =
     (if offset < len \<and> maximum_block_bytes > 0 \<and> maximum_block_bytes \<le> kMaximumReadBlock
      then
        let amount = min (len - offset) (of_nat maximum_block_bytes) in
        bindE (reader offset (unat amount)) (\<lambda>block.
        if length block \<noteq> unat amount then failE (mk_error Verification_failed ERROR_HANDLE_EOF)
        else
          bindE (hash_all cng hash block) (\<lambda>_.
          hash_blocks cng hash reader len maximum_block_bytes (offset + amount)))
      else returnE ())"
  by pat_completeness auto
termination
proof (relation "measure (\<lambda>(cng, hash, reader, len, block, offset). unat len - unat offset)")
  fix cng :: "'s cng_api" and hash :: nat and reader :: "'s block_reader"
    and len :: u64 and block :: nat and offset amount :: u64
  assume a: "offset < len \<and> block > 0 \<and> block \<le> kMaximumReadBlock" "amount = min (len - offset) (of_nat block)"
  then show "((cng, hash, reader, len, block, offset + amount), (cng, hash, reader, len, block, offset)) \<in>
      measure (\<lambda>(cng, hash, reader, len, block, offset). unat len - unat offset)"
    using block_step(2-4) [of offset len block] by (auto simp: word_less_nat_alt)
qed simp

declare hash_blocks.simps [simp del]

text \<open>The callback is \<open>None\<close> when the \<open>std::function\<close> is empty.\<close>

definition sha256_from_reader ::
  "'s cng_api \<Rightarrow> u64 \<Rightarrow> nat \<Rightarrow> 's block_reader option \<Rightarrow> ('s, byte list) prog" where
  "sha256_from_reader cng len maximum_block_bytes reader =
     (case reader of
        None \<Rightarrow> failE (mk_error Invalid_argument ERROR_INVALID_PARAMETER)
      | Some r \<Rightarrow>
        if maximum_block_bytes = 0 \<or> maximum_block_bytes > kMaximumReadBlock
        then failE (mk_error Invalid_argument ERROR_INVALID_PARAMETER)
        else
          bindE (hash_initialize cng) (\<lambda>hash.
          bindE (hash_blocks cng hash r len maximum_block_bytes 0) (\<lambda>_. hash_finish cng hash)))"

section \<open>What is hashed\<close>

text \<open>A provider that always answers, with the digest of what a hash object has absorbed.\<close>

definition cng_alive :: "'s cng_api \<Rightarrow> bool" where
  "cng_alive cng \<longleftrightarrow>
     (\<forall>s. bcrypt_success (fst (fst (bcrypt_open_algorithm_provider cng s)))) \<and>
     (\<forall>a s. \<exists>status len t. bcrypt_get_property cng a BCRYPT_OBJECT_LENGTH s = ((status, len, 4), t) \<and>
       bcrypt_success status \<and> len \<noteq> 0) \<and>
     (\<forall>a s. \<exists>status t. bcrypt_get_property cng a BCRYPT_HASH_LENGTH s = ((status, 32, 4), t) \<and>
       bcrypt_success status) \<and>
     (\<forall>a n s. bcrypt_success (fst (fst (bcrypt_create_hash cng a n s)))) \<and>
     (\<forall>h bs s. bcrypt_success (fst (bcrypt_hash_data cng h bs s))) \<and>
     (\<forall>h n s. bcrypt_success (fst (fst (bcrypt_finish_hash cng h n s))))"

definition hashing_service :: "'s cng_api \<Rightarrow> (byte list \<Rightarrow> byte list) \<Rightarrow> ('s \<Rightarrow> nat \<Rightarrow> byte list) \<Rightarrow> bool" where
  "hashing_service cng H absorbed \<longleftrightarrow> cng_hashes cng H absorbed \<and> cng_alive cng \<and> (\<forall>bs. length (H bs) = 32)"

lemma hash_initialize_success:
  assumes "cng_hashes cng H absorbed" "hash_initialize cng s = (Inr h, t)"
  shows "absorbed t h = []"
  using assms by (auto simp: hash_initialize_def cng_hashes_def bindE_eq_Inr split: if_split_asm)

lemma hash_finish_success:
  assumes "cng_hashes cng H absorbed" "hash_finish cng h s = (Inr digest, t)"
  shows "digest = H (absorbed s h)"
proof -
  from assms(2) obtain status where "bcrypt_finish_hash cng h 32 s = ((status, digest), t)" "bcrypt_success status"
    by (auto simp: hash_finish_def bindE_eq_Inr split: if_split_asm)
  then show ?thesis using assms(1) unfolding cng_hashes_def by blast
qed

lemma hash_zeroes_success:
  assumes "cng_hashes cng H absorbed" "hash_zeroes cng h n s = (Inr u, t)"
  shows "absorbed t h = absorbed s h @ replicate (unat n) 0"
  using assms
proof (induction cng h n arbitrary: s rule: hash_zeroes.induct)
  case (1 cng h n)
  show ?case
  proof (cases "n > 0")
    case True
    let ?m = "min n (of_nat kZeroBufferSize)"
    from "1.prems"(2) True obtain v where step: "hash_all cng h (replicate (unat ?m) 0) s = (Inr (), v)"
      and rest: "hash_zeroes cng h (n - ?m) v = (Inr u, t)"
      by (subst (asm) hash_zeroes.simps) (auto simp: Let_def bindE_eq_Inr)
    have "unat (n - ?m) = unat n - unat ?m" "unat ?m \<le> unat n"
      using min.cobounded1 [of n "of_nat kZeroBufferSize"] unat_sub [of ?m n] by (simp_all add: word_le_nat_alt)
    then have "replicate (unat ?m) 0 @ replicate (unat (n - ?m)) 0 = replicate (unat n) (0 :: byte)"
      by (simp flip: replicate_add)
    then show ?thesis
      using "1.IH" [where x = ?m, OF True refl step "1.prems"(1) rest]
        hash_all_success [OF "1.prems"(1) step] by simp
  next
    case False
    then have "n = 0" by (simp add: word_neq_0_conv [symmetric] del: word_neq_0_conv)
    then show ?thesis using "1.prems" by (simp add: hash_zeroes.simps)
  qed
qed

lemma hash_blocks_success:
  assumes H: "cng_hashes cng H absorbed" and bounds: "0 < block" "block \<le> kMaximumReadBlock"
    and reads: "\<And>off n s bs t. reader off n s = (Inr bs, t) \<Longrightarrow> bs = slice source (unat off) n \<and> (\<forall>h. absorbed t h = absorbed s h)"
    and len: "unat len \<le> length source"
  shows "hash_blocks cng h reader len block off s = (Inr u, t) \<Longrightarrow> off \<le> len \<Longrightarrow>
    absorbed t h = absorbed s h @ slice source (unat off) (unat len - unat off)"
proof (induction "unat len - unat off" arbitrary: off s rule: less_induct)
  case less
  show ?case
  proof (cases "off < len")
    case True
    let ?m = "min (len - off) (of_nat block)"
    have "block < 2 ^ 64" using bounds(2) by simp
    note m = block_step [OF True bounds(1) this]
    from less.prems(1) True bounds obtain bs v w where r: "reader off (unat ?m) s = (Inr bs, v)"
      and step: "hash_all cng h bs v = (Inr (), w)"
      and rest: "hash_blocks cng h reader len block (off + ?m) w = (Inr u, t)"
      by (subst (asm) hash_blocks.simps) (auto simp: Let_def bindE_eq_Inr split: if_split_asm)
    have "off + ?m \<le> len" using m by (simp add: word_le_nat_alt)
    moreover have "unat len - unat (off + ?m) < unat len - unat off" using m(2-4) by linarith
    ultimately have "absorbed t h = absorbed w h @ slice source (unat (off + ?m)) (unat len - unat (off + ?m))"
      using less.hyps [OF _ rest] by blast
    moreover have "absorbed w h = absorbed s h @ slice source (unat off) (unat ?m)"
      using hash_all_success [OF H step] reads [OF r] by simp
    moreover have "unat len - unat off = unat ?m + (unat len - (unat off + unat ?m))" using m by simp
    moreover have "slice source a m @ slice source (a + m) k = slice source a (m + k)" for a m k
      by (simp only: slice_def take_add drop_drop add.commute [of a m])
    ultimately show ?thesis by (simp only: m(2) append_assoc)
  next
    case False
    then show ?thesis using less.prems by (simp add: hash_blocks.simps slice_def)
  qed
qed

text \<open>A service that is alive: the results are the digests of the bytes, of zeroes, of the bytes read.\<close>

lemma hash_initialize_works:
  assumes "cng_alive cng"
  shows "\<exists>h t. hash_initialize cng s = (Inr h, t)"
proof -
  obtain status1 a s1 where 1: "bcrypt_open_algorithm_provider cng s = ((status1, a), s1)"
    by (metis prod.collapse)
  obtain status2 len s2 where 2: "bcrypt_get_property cng a BCRYPT_OBJECT_LENGTH s1 = ((status2, len, 4), s2)"
    "bcrypt_success status2" "len \<noteq> 0"
    using assms unfolding cng_alive_def by blast
  obtain status3 s3 where 3: "bcrypt_get_property cng a BCRYPT_HASH_LENGTH s2 = ((status3, 32, 4), s3)"
    "bcrypt_success status3"
    using assms unfolding cng_alive_def by blast
  obtain status4 h s4 where 4: "bcrypt_create_hash cng a len s3 = ((status4, h), s4)" by (metis prod.collapse)
  have "bcrypt_success status1" "bcrypt_success status4"
    using assms 1 4 unfolding cng_alive_def by (metis fst_conv)+
  with 1 2 3 4 show ?thesis by (simp add: hash_initialize_def bindE_def liftE_def returnE_def)
qed

lemma hash_all_works:
  assumes "cng_alive cng"
  shows "\<exists>t. hash_all cng h bs s = (Inr (), t)"
proof (induction bs arbitrary: s rule: length_induct)
  case (1 bs)
  show ?case
  proof (cases "bs = []")
    case False
    let ?n = "min (length bs) 4294967295"
    obtain status v where step: "bcrypt_hash_data cng h (take ?n bs) s = (status, v)" by force
    then have "bcrypt_success status" using assms unfolding cng_alive_def by (metis fst_conv)
    moreover obtain t where "hash_all cng h (drop ?n bs) v = (Inr (), t)" using 1 False by fastforce
    ultimately show ?thesis
      using False step by (subst hash_all.simps) (simp add: Let_def bindE_def liftE_def)
  qed (simp add: hash_all.simps)
qed

lemma hash_zeroes_works:
  assumes "cng_alive cng"
  shows "\<exists>t. hash_zeroes cng h n s = (Inr (), t)"
  using assms
proof (induction cng h n arbitrary: s rule: hash_zeroes.induct)
  case (1 cng h n)
  let ?m = "min n (of_nat kZeroBufferSize)"
  obtain v where v: "hash_all cng h (replicate (unat ?m) 0) s = (Inr (), v)" using hash_all_works [OF "1.prems"] by blast
  then show ?case
    using "1.IH" [where x = ?m and sa = v, OF _ refl v "1.prems"]
    by (subst hash_zeroes.simps) (auto simp: Let_def bindE_def)
qed

lemma hash_finish_works: "cng_alive cng \<Longrightarrow> \<exists>digest t. hash_finish cng h s = (Inr digest, t)"
  unfolding cng_alive_def hash_finish_def
  by (auto simp: bindE_def liftE_def returnE_def split: prod.split) (metis fst_conv)

lemma image_hashes:
  assumes "hashing_service cng H absorbed"
  shows "\<exists>t. image_sha256 cng bytes s = (Inr (H bytes), t)"
    "\<exists>t. sha256_zeroes cng n s = (Inr (H (replicate (unat n) 0)), t)"
proof -
  have a: "cng_alive cng" and H: "cng_hashes cng H absorbed" using assms by (simp_all add: hashing_service_def)
  obtain h s1 where 1: "hash_initialize cng s = (Inr h, s1)" using hash_initialize_works [OF a] by blast
  note empty = hash_initialize_success [OF H 1]
  obtain s2 where 2: "hash_all cng h bytes s1 = (Inr (), s2)" using hash_all_works [OF a] by blast
  obtain digest s3 where 3: "hash_finish cng h s2 = (Inr digest, s3)" using hash_finish_works [OF a] by blast
  have "digest = H bytes" using hash_finish_success [OF H 3] hash_all_success [OF H 2] empty by simp
  then show "\<exists>t. image_sha256 cng bytes s = (Inr (H bytes), t)"
    using 1 2 3 by (simp add: image_sha256_def bindE_def)
  obtain u2 where 4: "hash_zeroes cng h n s1 = (Inr (), u2)" using hash_zeroes_works [OF a] by blast
  obtain digest' u3 where 5: "hash_finish cng h u2 = (Inr digest', u3)" using hash_finish_works [OF a] by blast
  have "digest' = H (replicate (unat n) 0)"
    using hash_finish_success [OF H 5] hash_zeroes_success [OF H 4] empty by simp
  then show "\<exists>t. sha256_zeroes cng n s = (Inr (H (replicate (unat n) 0)), t)"
    using 1 4 5 by (simp add: sha256_zeroes_def bindE_def)
qed

text \<open>The hash of a stream is the hash of its bytes.\<close>

lemma sha256_from_reader_success:
  assumes H: "cng_hashes cng H absorbed"
    and reads: "\<And>off n s bs t. reader off n s = (Inr bs, t) \<Longrightarrow>
      bs = slice source (unat off) n \<and> (\<forall>h. absorbed t h = absorbed s h)"
    and len: "unat len \<le> length source"
    and run: "sha256_from_reader cng len block (Some reader) s = (Inr digest, t)"
  shows "digest = H (take (unat len) source)"
proof -
  from run obtain h s1 s2 where 1: "hash_initialize cng s = (Inr h, s1)"
    and 2: "hash_blocks cng h reader len block 0 s1 = (Inr (), s2)" and 3: "hash_finish cng h s2 = (Inr digest, t)"
    and bounds: "0 < block" "block \<le> kMaximumReadBlock"
    by (auto simp: sha256_from_reader_def bindE_eq_Inr split: if_split_asm)
  have "absorbed s2 h = slice source 0 (unat len)"
    using hash_blocks_success [OF H bounds reads len 2] hash_initialize_success [OF H 1] by simp
  then show ?thesis using hash_finish_success [OF H 3] by (simp add: slice_def)
qed

end
