(* ===== verification/ImageCompression.thy ===== *)
theory ImageCompression
  imports Operation
begin

unbundle bit_operations_syntax

text \<open>
  The compression of image chunks (\<open>ImageFormat/src/compression.cpp\<close>): one Zstandard frame with a
  checksum, its length and no dictionary.  The library is a parameter: the calls the code makes, where
  a result for which \<open>ZSTD_isError\<close> holds is \<open>None\<close>.
\<close>

abbreviation (input) kImageChunkSize16MiB :: u32 where "kImageChunkSize16MiB \<equiv> 16777216"
abbreviation (input) kImageChunkSize32MiB :: u32 where "kImageChunkSize32MiB \<equiv> 33554432"
abbreviation (input) ZSTD_VERSION_NUMBER :: u32 where "ZSTD_VERSION_NUMBER \<equiv> 10507"

text \<open>The parameters \<open>ZSTD_cParameter\<close> the code sets, by their numbers in \<open>zstd.h\<close>.\<close>

abbreviation (input) ZSTD_c_compressionLevel :: nat where "ZSTD_c_compressionLevel \<equiv> 100"
abbreviation (input) ZSTD_c_contentSizeFlag :: nat where "ZSTD_c_contentSizeFlag \<equiv> 200"
abbreviation (input) ZSTD_c_checksumFlag :: nat where "ZSTD_c_checksumFlag \<equiv> 201"
abbreviation (input) ZSTD_c_dictIDFlag :: nat where "ZSTD_c_dictIDFlag \<equiv> 202"

record 's zstd_api =
  zstd_version_number :: u32
  zstd_compress_bound :: "nat \<Rightarrow> nat option"
  zstd_create_cctx :: "'s \<Rightarrow> nat option \<times> 's"
  zstd_set_parameter :: "nat \<Rightarrow> nat \<Rightarrow> int \<Rightarrow> 's \<Rightarrow> bool \<times> 's"
  zstd_compress2 :: "nat \<Rightarrow> nat \<Rightarrow> byte list \<Rightarrow> 's \<Rightarrow> byte list option \<times> 's"
  zstd_find_frame_size :: "byte list \<Rightarrow> nat option"
  zstd_frame_content_size :: "byte list \<Rightarrow> nat option"
  zstd_dict_id :: "byte list \<Rightarrow> u32"
  zstd_decompress :: "nat \<Rightarrow> byte list \<Rightarrow> byte list option"

section \<open>The code\<close>

definition invalid_profile :: error where
  "invalid_profile = mk_error Invalid_data ERROR_INVALID_DATA"

definition kImageZstandardProfile :: "(nat \<times> int) list" where
  "kImageZstandardProfile =
     [(ZSTD_c_compressionLevel, 3), (ZSTD_c_contentSizeFlag, 1), (ZSTD_c_checksumFlag, 1), (ZSTD_c_dictIDFlag, 0)]"

fun set_parameters :: "'s zstd_api \<Rightarrow> nat \<Rightarrow> (nat \<times> int) list \<Rightarrow> ('s, unit) prog" where
  "set_parameters z ctx [] = returnE ()"
| "set_parameters z ctx ((parameter, v) # rest) =
     bindE (liftE (zstd_set_parameter z ctx parameter v)) (\<lambda>ok.
     if \<not> ok then failE invalid_profile else set_parameters z ctx rest)"

definition compress_zstandard_image_chunk_v1 :: "'s zstd_api \<Rightarrow> byte list \<Rightarrow> ('s, byte list) prog" where
  "compress_zstandard_image_chunk_v1 z uncompressed =
     (if uncompressed = [] \<or> length uncompressed > unat kImageChunkSize32MiB \<or>
         zstd_version_number z \<noteq> ZSTD_VERSION_NUMBER
      then failE (mk_error Invalid_argument ERROR_INVALID_PARAMETER)
      else
        case zstd_compress_bound z (length uncompressed) of
          None \<Rightarrow> failE invalid_profile
        | Some capacity \<Rightarrow>
          if capacity < length uncompressed then failE invalid_profile
          else
            bindE (liftE (zstd_create_cctx z)) (\<lambda>context.
            case context of
              None \<Rightarrow> failE (mk_error Io_failed ERROR_NOT_ENOUGH_MEMORY)
            | Some ctx \<Rightarrow>
              bindE (set_parameters z ctx kImageZstandardProfile) (\<lambda>_.
              bindE (liftE (zstd_compress2 z ctx capacity uncompressed)) (\<lambda>result.
              case result of
                None \<Rightarrow> failE invalid_profile
              | Some compressed \<Rightarrow>
                if compressed = [] \<or> length compressed > capacity then failE invalid_profile
                else returnE compressed))))"

definition decompress_zstandard_image_chunk_v1 :: "'s zstd_api \<Rightarrow> byte list \<Rightarrow> nat \<Rightarrow> byte list result" where
  "decompress_zstandard_image_chunk_v1 z stored expected_uncompressed_length =
     (if stored = [] \<or> expected_uncompressed_length = 0 \<or>
         expected_uncompressed_length > unat kImageChunkSize32MiB \<or>
         length stored \<ge> expected_uncompressed_length \<or> zstd_version_number z \<noteq> ZSTD_VERSION_NUMBER
      then Inl invalid_profile
      else if zstd_find_frame_size z stored \<noteq> Some (length stored)
      then Inl invalid_profile
      else if length stored < 5 \<or> stored ! 4 AND 0x04 = 0
      then Inl invalid_profile
      else if zstd_frame_content_size z stored \<noteq> Some expected_uncompressed_length \<or>
         zstd_dict_id z stored \<noteq> 0
      then Inl invalid_profile
      else
        case zstd_decompress z expected_uncompressed_length stored of
          None \<Rightarrow> Inl invalid_profile
        | Some uncompressed \<Rightarrow>
          if length uncompressed \<noteq> expected_uncompressed_length then Inl invalid_profile
          else Inr uncompressed)"

section \<open>What the library promises\<close>

text \<open>A single frame with checksum, content length and no dictionary that holds the given bytes.\<close>

definition zstd_frame :: "'s zstd_api \<Rightarrow> byte list \<Rightarrow> byte list \<Rightarrow> bool" where
  "zstd_frame z frame bytes \<longleftrightarrow>
     zstd_find_frame_size z frame = Some (length frame) \<and> 5 \<le> length frame \<and> frame ! 4 AND 0x04 \<noteq> 0 \<and>
     zstd_frame_content_size z frame = Some (length bytes) \<and> zstd_dict_id z frame = 0 \<and>
     zstd_decompress z (length bytes) frame = Some bytes"

text \<open>\<open>params_of\<close> are the parameters set on a compression context so far.\<close>

definition zstd_service :: "'s zstd_api \<Rightarrow> ('s \<Rightarrow> nat \<Rightarrow> (nat \<times> int) list) \<Rightarrow> bool" where
  "zstd_service z params_of \<longleftrightarrow>
     zstd_version_number z = ZSTD_VERSION_NUMBER \<and>
     (\<forall>n \<le> unat kImageChunkSize32MiB. \<exists>capacity \<ge> n. zstd_compress_bound z n = Some capacity) \<and>
     (\<forall>s. \<exists>ctx t. zstd_create_cctx z s = (Some ctx, t) \<and> params_of t ctx = []) \<and>
     (\<forall>ctx p v s. (p, v) \<in> set kImageZstandardProfile \<longrightarrow>
       (\<exists>t. zstd_set_parameter z ctx p v s = (True, t) \<and> params_of t ctx = params_of s ctx @ [(p, v)])) \<and>
     (\<forall>ctx capacity bytes s. params_of s ctx = kImageZstandardProfile \<longrightarrow> bytes \<noteq> [] \<longrightarrow>
       zstd_compress_bound z (length bytes) = Some capacity \<longrightarrow>
       (\<exists>frame t. zstd_compress2 z ctx capacity bytes s = (Some frame, t) \<and> zstd_frame z frame bytes \<and>
         length frame \<le> capacity))"

lemma set_parameters_works:
  assumes z: "zstd_service z params_of"
  shows "set ps \<subseteq> set kImageZstandardProfile \<Longrightarrow>
    \<exists>t. set_parameters z ctx ps s = (Inr (), t) \<and> params_of t ctx = params_of s ctx @ ps"
proof (induction ps arbitrary: s)
  case Nil
  show ?case by (simp add: returnE_def)
next
  case (Cons x ps)
  obtain p v where x: "x = (p, v)" by (cases x)
  with Cons.prems have "(p, v) \<in> set kImageZstandardProfile" by simp
  then obtain u where u: "zstd_set_parameter z ctx p v s = (True, u)" "params_of u ctx = params_of s ctx @ [(p, v)]"
    using z unfolding zstd_service_def by blast
  from Cons.prems have "set ps \<subseteq> set kImageZstandardProfile" by simp
  from Cons.IH [OF this, of u] u x show ?case by (auto simp: bindE_def liftE_def)
qed

lemma compress_works:
  assumes z: "zstd_service z params_of" and data: "bytes \<noteq> []" "length bytes \<le> unat kImageChunkSize32MiB"
  shows "\<exists>frame t. compress_zstandard_image_chunk_v1 z bytes s = (Inr frame, t) \<and> zstd_frame z frame bytes"
proof -
  have version: "zstd_version_number z = ZSTD_VERSION_NUMBER" using z by (simp add: zstd_service_def)
  obtain capacity where c: "zstd_compress_bound z (length bytes) = Some capacity" "length bytes \<le> capacity"
    using z data(2) unfolding zstd_service_def by blast
  obtain ctx u where ctx: "zstd_create_cctx z s = (Some ctx, u)" "params_of u ctx = []"
    using z unfolding zstd_service_def by blast
  obtain v where v: "set_parameters z ctx kImageZstandardProfile u = (Inr (), v)"
    "params_of v ctx = kImageZstandardProfile"
    using set_parameters_works [OF z subset_refl, of ctx u] ctx(2) by auto
  obtain frame t where f: "zstd_compress2 z ctx capacity bytes v = (Some frame, t)" "zstd_frame z frame bytes"
      "length frame \<le> capacity"
    using z v(2) data(1) c(1) unfolding zstd_service_def by blast
  from f(2) have "frame \<noteq> []" by (auto simp: zstd_frame_def)
  then have "compress_zstandard_image_chunk_v1 z bytes s = (Inr frame, t)"
    using data version c ctx(1) v(1) f(1,3)
    by (simp add: compress_zstandard_image_chunk_v1_def bindE_def liftE_def returnE_def)
  with f(2) show ?thesis by blast
qed

lemma decompress_frame:
  assumes z: "zstd_service z params_of" and frame: "zstd_frame z frame bytes"
    and data: "bytes \<noteq> []" "length bytes \<le> unat kImageChunkSize32MiB" "length frame < length bytes"
  shows "decompress_zstandard_image_chunk_v1 z frame (length bytes) = Inr bytes"
proof -
  have "zstd_version_number z = ZSTD_VERSION_NUMBER" using z by (simp add: zstd_service_def)
  then show ?thesis
    using frame data by (auto simp: decompress_zstandard_image_chunk_v1_def zstd_frame_def)
qed

lemma decompress_length:
  "decompress_zstandard_image_chunk_v1 z stored n = Inr bytes \<Longrightarrow>
   length bytes = n \<and> 0 < n \<and> n \<le> unat kImageChunkSize32MiB \<and> length stored < n"
  by (auto simp: decompress_zstandard_image_chunk_v1_def split: if_split_asm option.split_asm)

end
