(* ===== verification/TsumugiCrypto.thy ===== *)
theory TsumugiCrypto
  imports Operation
begin

text \<open>
  The password and the encryption of an image (\<open>ImageFormat/src/tsumugi_crypto.cpp\<close>): what a password
  must look like, the key that Argon2id derives from it, and AES-256-GCM by Windows CNG.  Argon2id and
  CNG are parameters: a function, and the calls the code makes, each with its status.  The clearing of
  keys and buffers is not modelled.
\<close>

abbreviation (input) kTsumugiArgon2MemoryKiB :: u32 where "kTsumugiArgon2MemoryKiB \<equiv> 65536"
abbreviation (input) kTsumugiArgon2Iterations :: u32 where "kTsumugiArgon2Iterations \<equiv> 3"
abbreviation (input) kTsumugiArgon2Parallelism :: u32 where "kTsumugiArgon2Parallelism \<equiv> 1"
abbreviation (input) kTsumugiMaximumCryptBytes :: nat where "kTsumugiMaximumCryptBytes \<equiv> 33554432"
abbreviation (input) ULONG_max :: nat where "ULONG_max \<equiv> 4294967295"

record argon2_parameters =
  ar_memory_kib :: u32
  ar_iterations :: u32
  ar_parallelism :: u32
  ar_salt :: "byte list"

record password_assessment =
  pa_accepted :: bool
  pa_weak :: bool

record encrypted_bytes =
  en_ciphertext :: "byte list"
  en_tag :: "byte list"

text \<open>
  \<open>argon2id_hash_raw\<close> with its iterations, memory, parallelism, password and salt; the status 0 is
  \<open>ARGON2_OK\<close>.
\<close>

type_synonym argon2_function =
  "u32 \<Rightarrow> u32 \<Rightarrow> u32 \<Rightarrow> byte list \<Rightarrow> byte list \<Rightarrow> u32 \<times> byte list"

text \<open>
  The CNG calls for AES: an algorithm handle and its mode, the length of the key object, a key handle
  for the bytes of a key, encryption (ciphertext, tag, bytes written) and decryption.
\<close>

record 's aes_api =
  aes_open :: "'s \<Rightarrow> (u32 \<times> nat) \<times> 's"
  aes_set_gcm :: "nat \<Rightarrow> 's \<Rightarrow> u32 \<times> 's"
  aes_object_length :: "nat \<Rightarrow> 's \<Rightarrow> (u32 \<times> u32 \<times> u32) \<times> 's"
  aes_generate_key :: "nat \<Rightarrow> u32 \<Rightarrow> byte list \<Rightarrow> 's \<Rightarrow> (u32 \<times> nat) \<times> 's"
  aes_encrypt :: "nat \<Rightarrow> byte list \<Rightarrow> byte list \<Rightarrow> byte list \<Rightarrow> 's \<Rightarrow> (u32 \<times> byte list \<times> byte list \<times> u32) \<times> 's"
  aes_decrypt :: "nat \<Rightarrow> byte list \<Rightarrow> byte list \<Rightarrow> byte list \<Rightarrow> byte list \<Rightarrow> 's \<Rightarrow> (u32 \<times> byte list \<times> u32) \<times> 's"
  aes_random :: "nat \<Rightarrow> 's \<Rightarrow> (u32 \<times> byte list) \<times> 's"

section \<open>The code\<close>

definition open_aes_key :: "'s aes_api \<Rightarrow> byte list \<Rightarrow> ('s, nat) prog" where
  "open_aes_key aes key =
     bindE (liftE (aes_open aes)) (\<lambda>(status, algorithm).
     if \<not> bcrypt_success status then failE (mk_error Internal_error status) else
     bindE (liftE (aes_set_gcm aes algorithm)) (\<lambda>status.
     if \<not> bcrypt_success status then failE (mk_error Internal_error status) else
     bindE (liftE (aes_object_length aes algorithm)) (\<lambda>(status, object_length, returned).
     if \<not> bcrypt_success status \<or> returned \<noteq> 4 \<or> object_length = 0
     then failE (mk_error Internal_error status) else
     bindE (liftE (aes_generate_key aes algorithm object_length key)) (\<lambda>(status, symmetric_key).
     if \<not> bcrypt_success status then failE (mk_error Internal_error status)
     else returnE symmetric_key))))"

definition validate_crypt_inputs :: "nat \<Rightarrow> nat \<Rightarrow> status" where
  "validate_crypt_inputs data_size aad_size =
     (if data_size > kTsumugiMaximumCryptBytes \<or> data_size > ULONG_max \<or> aad_size > ULONG_max
      then Inl (mk_error Invalid_argument ERROR_INVALID_PARAMETER)
      else success_status)"

definition random_bytes :: "'s aes_api \<Rightarrow> nat \<Rightarrow> ('s, byte list) prog" where
  "random_bytes aes n =
     bindE (liftE (aes_random aes n)) (\<lambda>(status, bytes).
     if \<not> bcrypt_success status then failE (mk_error Internal_error status) else returnE bytes)"

definition generate_tsumugi_salt :: "'s aes_api \<Rightarrow> ('s, byte list) prog" where
  "generate_tsumugi_salt aes = random_bytes aes 16"

definition generate_tsumugi_nonce :: "'s aes_api \<Rightarrow> ('s, byte list) prog" where
  "generate_tsumugi_nonce aes = random_bytes aes 12"

definition assess_tsumugi_password :: "narrow_string \<Rightarrow> password_assessment" where
  "assess_tsumugi_password password =
     (if length password < 8 \<or> length password > 1024 \<or>
         \<not> list_all (\<lambda>b. b \<ge> 0x20 \<and> b \<le> 0x7E) password
      then \<lparr>pa_accepted = False, pa_weak = False\<rparr>
      else
        let lower = (\<lambda>v :: u8. v \<ge> 97 \<and> v \<le> 122);
            upper = (\<lambda>v :: u8. v \<ge> 65 \<and> v \<le> 90);
            digit = (\<lambda>v :: u8. v \<ge> 48 \<and> v \<le> 57);
            symbol = (\<lambda>v. \<not> (lower v \<or> upper v \<or> digit v));
            classes = length (filter (\<lambda>p. list_ex p password) [lower, upper, digit, symbol])
        in \<lparr>pa_accepted = True, pa_weak = length password < 12 \<or> classes < 3\<rparr>)"

definition derive_tsumugi_key_argon2id ::
  "argon2_function \<Rightarrow> narrow_string \<Rightarrow> argon2_parameters \<Rightarrow> byte list result" where
  "derive_tsumugi_key_argon2id argon2 password parameters =
     (if \<not> pa_accepted (assess_tsumugi_password password) \<or> ar_memory_kib parameters < 8 \<or>
         ar_memory_kib parameters > 1048576 \<or> ar_iterations parameters = 0 \<or>
         ar_iterations parameters > 16 \<or> ar_parallelism parameters = 0 \<or> ar_parallelism parameters > 16
      then Inl (mk_error Invalid_argument ERROR_INVALID_PARAMETER)
      else
        case argon2 (ar_iterations parameters) (ar_memory_kib parameters) (ar_parallelism parameters)
            password (ar_salt parameters) of
          (status, key) \<Rightarrow> if status \<noteq> 0 then Inl (mk_error Internal_error status) else Inr key)"

definition encrypt_tsumugi_aes256_gcm ::
  "'s aes_api \<Rightarrow> byte list \<Rightarrow> byte list \<Rightarrow> byte list \<Rightarrow> byte list \<Rightarrow> ('s, encrypted_bytes) prog" where
  "encrypt_tsumugi_aes256_gcm aes key nonce aad plaintext =
     bindE (of_result (validate_crypt_inputs (length plaintext) (length aad))) (\<lambda>_.
     bindE (open_aes_key aes key) (\<lambda>handle.
     bindE (liftE (aes_encrypt aes handle nonce aad plaintext)) (\<lambda>(status, ciphertext, tag, written).
     if \<not> bcrypt_success status \<or> unat written \<noteq> length plaintext
     then failE (mk_error Io_failed status)
     else returnE \<lparr>en_ciphertext = ciphertext, en_tag = tag\<rparr>)))"

definition decrypt_tsumugi_aes256_gcm ::
  "'s aes_api \<Rightarrow> byte list \<Rightarrow> byte list \<Rightarrow> byte list \<Rightarrow> byte list \<Rightarrow> byte list \<Rightarrow> ('s, byte list) prog" where
  "decrypt_tsumugi_aes256_gcm aes key nonce aad ciphertext tag =
     bindE (of_result (validate_crypt_inputs (length ciphertext) (length aad))) (\<lambda>_.
     bindE (open_aes_key aes key) (\<lambda>handle.
     bindE (liftE (aes_decrypt aes handle nonce aad ciphertext tag)) (\<lambda>(status, plaintext, written).
     if \<not> bcrypt_success status \<or> unat written \<noteq> length ciphertext
     then failE (mk_error Verification_failed status)
     else returnE plaintext)))"

section \<open>What the provider promises\<close>

text \<open>
  The documented behaviour of CNG: opening a key works, \<open>key_of\<close> is the key behind a handle;
  encryption is a function \<open>E\<close> that keeps the length, and decryption with the key accepts a ciphertext
  and tag exactly when \<open>E\<close> gives them, and then returns the plaintext.
\<close>

definition aes_opens :: "'s aes_api \<Rightarrow> ('s \<Rightarrow> nat \<Rightarrow> byte list) \<Rightarrow> bool" where
  "aes_opens aes key_of \<longleftrightarrow>
     (\<forall>s. \<exists>status a t. aes_open aes s = ((status, a), t) \<and> bcrypt_success status) \<and>
     (\<forall>a s. \<exists>status t. aes_set_gcm aes a s = (status, t) \<and> bcrypt_success status) \<and>
     (\<forall>a s. \<exists>status len t. aes_object_length aes a s = ((status, len, 4), t) \<and> bcrypt_success status \<and> len \<noteq> 0) \<and>
     (\<forall>a n key s. length key = 32 \<longrightarrow> (\<exists>status h t. aes_generate_key aes a n key s = ((status, h), t) \<and>
       bcrypt_success status \<and> key_of t h = key))"

type_synonym gcm = "byte list \<Rightarrow> byte list \<Rightarrow> byte list \<Rightarrow> byte list \<Rightarrow> byte list \<times> byte list"

definition aes_encrypts :: "'s aes_api \<Rightarrow> ('s \<Rightarrow> nat \<Rightarrow> byte list) \<Rightarrow> gcm \<Rightarrow> bool" where
  "aes_encrypts aes key_of E \<longleftrightarrow>
     (\<forall>h nonce aad p s. \<exists>status w t. aes_encrypt aes h nonce aad p s =
       ((status, fst (E (key_of s h) nonce aad p), snd (E (key_of s h) nonce aad p), w), t) \<and>
       bcrypt_success status \<and> (length p < 2 ^ 32 \<longrightarrow> unat w = length p))"

definition aes_decrypts :: "'s aes_api \<Rightarrow> ('s \<Rightarrow> nat \<Rightarrow> byte list) \<Rightarrow> gcm \<Rightarrow> bool" where
  "aes_decrypts aes key_of E \<longleftrightarrow>
     (\<forall>h nonce aad c tag s. \<exists>status p w t. aes_decrypt aes h nonce aad c tag s = ((status, p, w), t) \<and>
       (bcrypt_success status \<longleftrightarrow> (c, tag) \<in> range (E (key_of s h) nonce aad)) \<and>
       (bcrypt_success status \<longrightarrow> E (key_of s h) nonce aad p = (c, tag) \<and>
         (length c < 2 ^ 32 \<longrightarrow> unat w = length c)))"

definition gcm_scheme :: "gcm \<Rightarrow> bool" where
  "gcm_scheme E \<longleftrightarrow>
     (\<forall>key nonce aad p. length (fst (E key nonce aad p)) = length p \<and> length (snd (E key nonce aad p)) = 16) \<and>
     (\<forall>key nonce aad. inj (E key nonce aad))"

definition aes_service :: "'s aes_api \<Rightarrow> ('s \<Rightarrow> nat \<Rightarrow> byte list) \<Rightarrow> gcm \<Rightarrow> bool" where
  "aes_service aes key_of E \<longleftrightarrow>
     aes_opens aes key_of \<and> aes_encrypts aes key_of E \<and> aes_decrypts aes key_of E \<and> gcm_scheme E"

lemma open_aes_key_works:
  assumes aes: "aes_opens aes key_of" and key: "length key = 32"
  shows "\<exists>h t. open_aes_key aes key s = (Inr h, t) \<and> key_of t h = key"
proof -
  obtain s1 a t1 where 1: "aes_open aes s = ((s1, a), t1)" "bcrypt_success s1"
    using aes unfolding aes_opens_def by blast
  obtain s2 t2 where 2: "aes_set_gcm aes a t1 = (s2, t2)" "bcrypt_success s2"
    using aes unfolding aes_opens_def by blast
  obtain s3 len t3 where 3: "aes_object_length aes a t2 = ((s3, len, 4), t3)" "bcrypt_success s3" "len \<noteq> 0"
    using aes unfolding aes_opens_def by blast
  obtain s4 h t4 where 4: "aes_generate_key aes a len key t3 = ((s4, h), t4)" "bcrypt_success s4" "key_of t4 h = key"
    using aes key unfolding aes_opens_def by blast
  show ?thesis using 1 2 3 4 by (simp add: open_aes_key_def bindE_def liftE_def returnE_def)
qed

lemma gcm_length:
  "gcm_scheme E \<Longrightarrow> length (fst (E key nonce aad p)) = length p"
  "gcm_scheme E \<Longrightarrow> length (snd (E key nonce aad p)) = 16"
  by (simp_all add: gcm_scheme_def)

lemma gcm_inj: "gcm_scheme E \<Longrightarrow> E key nonce aad p = E key nonce aad q \<longleftrightarrow> p = q"
  by (auto simp: gcm_scheme_def inj_eq)

lemma validate_crypt_inputs_ok [simp]:
  "validate_crypt_inputs n m = Inr u \<longleftrightarrow> n \<le> kTsumugiMaximumCryptBytes \<and> m \<le> ULONG_max"
  by (auto simp: validate_crypt_inputs_def)

lemma encrypt_works:
  assumes aes: "aes_service aes key_of E" and key: "length key = 32"
    and bounds: "length p \<le> kTsumugiMaximumCryptBytes" "length aad \<le> ULONG_max"
  shows "\<exists>t. encrypt_tsumugi_aes256_gcm aes key nonce aad p s =
    (Inr \<lparr>en_ciphertext = fst (E key nonce aad p), en_tag = snd (E key nonce aad p)\<rparr>, t)"
proof -
  have opens: "aes_opens aes key_of" and enc: "aes_encrypts aes key_of E"
    using aes by (simp_all add: aes_service_def)
  obtain h u where o: "open_aes_key aes key s = (Inr h, u)" "key_of u h = key"
    using open_aes_key_works [OF opens key] by blast
  have small: "length p < 2 ^ 32" using bounds(1) by simp
  obtain status w t where "aes_encrypt aes h nonce aad p u =
      ((status, fst (E (key_of u h) nonce aad p), snd (E (key_of u h) nonce aad p), w), t)"
    "bcrypt_success status" "length p < 2 ^ 32 \<longrightarrow> unat w = length p"
    using enc unfolding aes_encrypts_def by blast
  then show ?thesis
    using o bounds small
    by (simp add: encrypt_tsumugi_aes256_gcm_def validate_crypt_inputs_def bindE_def liftE_def returnE_def)
qed

lemma decrypt_run:
  assumes aes: "aes_service aes key_of E" and key: "length key = 32"
  shows "\<exists>r t. decrypt_tsumugi_aes256_gcm aes key nonce aad c tag s = (r, t) \<and>
    (\<forall>p. r = Inr p \<longleftrightarrow> length c \<le> kTsumugiMaximumCryptBytes \<and> length aad \<le> ULONG_max \<and>
      E key nonce aad p = (c, tag))"
proof (cases "length c \<le> kTsumugiMaximumCryptBytes \<and> length aad \<le> ULONG_max")
  case False
  then show ?thesis
    by (auto simp: decrypt_tsumugi_aes256_gcm_def validate_crypt_inputs_def bindE_def failE_def)
next
  case bounds: True
  have opens: "aes_opens aes key_of" and dec: "aes_decrypts aes key_of E" and scheme: "gcm_scheme E"
    using aes by (simp_all add: aes_service_def)
  obtain h u where o: "open_aes_key aes key s = (Inr h, u)" "key_of u h = key"
    using open_aes_key_works [OF opens key] by blast
  obtain status q w t where d: "aes_decrypt aes h nonce aad c tag u = ((status, q, w), t)"
    "bcrypt_success status \<longleftrightarrow> (c, tag) \<in> range (E (key_of u h) nonce aad)"
    "bcrypt_success status \<longrightarrow> E (key_of u h) nonce aad q = (c, tag) \<and>
      (length c < 2 ^ 32 \<longrightarrow> unat w = length c)"
    using dec unfolding aes_decrypts_def by blast
  have "length c < 2 ^ 32" using bounds by simp
  with d(3) o(2) have ok: "bcrypt_success status \<Longrightarrow> E key nonce aad q = (c, tag) \<and> unat w = length c" by simp
  show ?thesis
  proof (cases "bcrypt_success status")
    case True
    then have "decrypt_tsumugi_aes256_gcm aes key nonce aad c tag s = (Inr q, t)"
      using o(1) d(1) ok bounds
      by (simp add: decrypt_tsumugi_aes256_gcm_def validate_crypt_inputs_def bindE_def liftE_def returnE_def)
    moreover have "q = p \<longleftrightarrow> E key nonce aad p = (c, tag)" for p
      using ok [OF True] gcm_inj [OF scheme] by metis
    ultimately show ?thesis using bounds by auto
  next
    case False
    then have "decrypt_tsumugi_aes256_gcm aes key nonce aad c tag s = (Inl (mk_error Verification_failed status), t)"
      using o(1) d(1) bounds
      by (simp add: decrypt_tsumugi_aes256_gcm_def validate_crypt_inputs_def bindE_def liftE_def failE_def)
    moreover have "E key nonce aad p \<noteq> (c, tag)" for p
      using False d(2) o(2) by (metis rangeI)
    ultimately show ?thesis by auto
  qed
qed

lemma decrypt_works:
  assumes "aes_service aes key_of E" "length key = 32"
    "length p \<le> kTsumugiMaximumCryptBytes" "length aad \<le> ULONG_max" "E key nonce aad p = (c, tag)"
  shows "\<exists>t. decrypt_tsumugi_aes256_gcm aes key nonce aad c tag s = (Inr p, t)"
proof -
  have "length c = length p" using assms(1,5) gcm_length(1) [of E key nonce aad p] by (simp add: aes_service_def)
  then show ?thesis using decrypt_run [OF assms(1,2), of nonce aad c tag s] assms(3-5) by auto
qed

lemma decrypt_sound:
  assumes "aes_service aes key_of E" "length key = 32"
    "decrypt_tsumugi_aes256_gcm aes key nonce aad c tag s = (Inr p, t)"
  shows "E key nonce aad p = (c, tag)" "length p = length c"
proof -
  show e: "E key nonce aad p = (c, tag)"
    using decrypt_run [OF assms(1,2), of nonce aad c tag s] assms(3) by auto
  show "length p = length c" using assms(1) gcm_length(1) [of E key nonce aad p] e by (simp add: aes_service_def)
qed

end
