(* ===== verification/Tsumugi.thy ===== *)
theory Tsumugi
  imports ImageHash ImageCompression TsumugiCrypto
begin

unbundle bit_operations_syntax

text \<open>
  The image container (\<open>ImageFormat/src/tsumugi.cpp\<close>): a header of 512 bytes, the metadata (a manifest
  and one record per chunk), the stored chunks and a footer.  The enumerations are the integers they
  are stored as; an array is a list of its length.
\<close>

section \<open>The structures\<close>

abbreviation (input) kTsumugiMajorVersion :: u16 where "kTsumugiMajorVersion \<equiv> 1"
abbreviation (input) kTsumugiMinorVersion :: u16 where "kTsumugiMinorVersion \<equiv> 0"
abbreviation (input) kTsumugiHeaderSize :: u32 where "kTsumugiHeaderSize \<equiv> 512"
abbreviation (input) kTsumugiFooterSize :: u32 where "kTsumugiFooterSize \<equiv> 64"
abbreviation (input) kTsumugiMetadataHeaderSize :: u32 where "kTsumugiMetadataHeaderSize \<equiv> 32"
abbreviation (input) kTsumugiChunkRecordSize :: u32 where "kTsumugiChunkRecordSize \<equiv> 112"
abbreviation (input) kTsumugiMaximumChunkCount :: nat where "kTsumugiMaximumChunkCount \<equiv> 1048576"
abbreviation (input) kTsumugiMaximumManifestBytes :: nat where "kTsumugiMaximumManifestBytes \<equiv> 16777216"
abbreviation (input) kTsumugiMaximumMetadataBytes :: nat where "kTsumugiMaximumMetadataBytes \<equiv> 33554432"

abbreviation (input) exact_disk :: u16 where "exact_disk \<equiv> 1"
abbreviation (input) shrink_disk :: u16 where "shrink_disk \<equiv> 2"
abbreviation (input) rescue_disk :: u16 where "rescue_disk \<equiv> 3"

abbreviation (input) compression_none :: u16 where "compression_none \<equiv> 0"
abbreviation (input) compression_zstandard :: u16 where "compression_zstandard \<equiv> 1"

abbreviation (input) kEndianMarker :: u32 where "kEndianMarker \<equiv> 0x01020304"
abbreviation (input) kFeatureEncrypted :: u32 where "kFeatureEncrypted \<equiv> 1"
abbreviation (input) kFeatureUnreadableMap :: u32 where "kFeatureUnreadableMap \<equiv> 2"
abbreviation (input) kFeatureRescueReadEvidence :: u32 where "kFeatureRescueReadEvidence \<equiv> 4"
abbreviation (input) kKnownRequiredFeatures :: u32 where
  "kKnownRequiredFeatures \<equiv> kFeatureEncrypted OR kFeatureUnreadableMap OR kFeatureRescueReadEvidence"
abbreviation (input) kArgon2idKdf :: u32 where "kArgon2idKdf \<equiv> 1"
abbreviation (input) kHeaderMetadataTagOffset :: nat where "kHeaderMetadataTagOffset \<equiv> 172"
abbreviation (input) kHeaderHashOffset :: nat where "kHeaderHashOffset \<equiv> 188"

definition kHeaderMagic :: "byte list" where
  "kHeaderMagic = [0x59, 0x54, 0x53, 0x55, 0x4D, 0x47, 0x1A, 0x0A]"
definition kMetadataMagic :: "byte list" where
  "kMetadataMagic = [0x59, 0x54, 0x4D, 0x45, 0x54, 0x41, 0x1A, 0x0A]"
definition kFooterMagic :: "byte list" where
  "kFooterMagic = [0x59, 0x54, 0x45, 0x4E, 0x44, 0x1A, 0x0D, 0x0A]"
definition kChunkAadMagic :: "byte list" where
  "kChunkAadMagic = [0x59, 0x54, 0x43, 0x48, 0x41, 0x44, 0x1A, 0x0A]"

record image_section =
  is_offset :: u64
  is_length :: u64

record rescue_read_evidence =
  rr_forward_attempts :: u8
  rr_reverse_attempts :: u8
  rr_sector_attempts :: u8
  rr_zero_fill_read_back_verified :: bool
  rr_forward_native_error :: u32
  rr_reverse_native_error :: u32
  rr_sector_native_error :: u32

record build_chunk =
  bc_logical_offset :: u64
  bc_logical_length :: u64
  bc_flags :: u32
  bc_data :: "byte list"
  bc_rescue_read_evidence :: "rescue_read_evidence option"

record encryption_settings =
  es_password :: narrow_string
  es_argon2 :: argon2_parameters
  es_base_nonce :: "byte list"

record build_request =
  br_payload_kind :: u16
  br_source_disk_size :: u64
  br_logical_sector_size :: u32
  br_physical_sector_size :: u32
  br_chunk_size :: u32
  br_compression :: u16
  br_image_id :: "byte list"
  br_manifest :: "byte list"
  br_chunks :: "build_chunk list"
  br_encryption :: "encryption_settings option"

record tsumugi_header =
  th_major_version :: u16
  th_minor_version :: u16
  th_required_features :: u32
  th_payload_kind :: u16
  th_compression :: u16
  th_source_disk_size :: u64
  th_logical_sector_size :: u32
  th_physical_sector_size :: u32
  th_chunk_size :: u32
  th_chunk_count :: u64
  th_data :: image_section
  th_metadata :: image_section
  th_footer :: image_section
  th_argon2 :: argon2_parameters
  th_base_nonce :: "byte list"
  th_image_id :: "byte list"
  th_metadata_tag :: "byte list"
  th_header_hash :: "byte list"

record chunk_record =
  cr_logical_offset :: u64
  cr_logical_length :: u64
  cr_stored_offset :: u64
  cr_stored_length :: u64
  cr_flags :: u32
  cr_compression :: u16
  cr_nonce_counter :: u64
  cr_plaintext_hash :: "byte list"
  cr_authentication_tag :: "byte list"
  cr_rescue_read_evidence :: "rescue_read_evidence option"

record verified_chunk =
  vc_record :: chunk_record
  vc_plaintext :: "byte list"

record tsumugi_inspection =
  ti_header :: tsumugi_header
  ti_manifest :: "byte list"
  ti_chunks :: "verified_chunk list"
  ti_global_hash :: "byte list"
  ti_header_hash_verified :: bool
  ti_metadata_authenticated :: bool
  ti_all_chunks_verified :: bool
  ti_global_hash_verified :: bool

text \<open>The services of the platform and the libraries.\<close>

record 's image_services =
  sv_cng :: "'s cng_api"
  sv_aes :: "'s aes_api"
  sv_zstd :: "'s zstd_api"
  sv_argon2 :: argon2_function

section \<open>Field values\<close>

abbreviation (input) ERROR_PASSWORD_RESTRICTION :: u32 where "ERROR_PASSWORD_RESTRICTION \<equiv> 1325"

definition argument_error :: error where
  "argument_error = mk_error Invalid_argument ERROR_INVALID_PARAMETER"

definition verification_error :: error where
  "verification_error = mk_error Verification_failed ERROR_CRC"

definition all_zero :: "byte list \<Rightarrow> bool" where
  "all_zero bytes \<longleftrightarrow> list_all (\<lambda>b. b = 0) bytes"

definition is_supported_sector_size_pair :: "u32 \<Rightarrow> u32 \<Rightarrow> bool" where
  "is_supported_sector_size_pair logical physical \<longleftrightarrow>
     (let physical_is_power_of_two = physical \<noteq> 0 \<and> physical AND (physical - 1) = 0
      in (logical = 512 \<or> logical = 4096) \<and> physical_is_power_of_two \<and> physical \<ge> logical \<and>
         physical \<le> 65536 \<and> physical mod logical = 0)"

definition valid_payload_kind :: "u16 \<Rightarrow> bool" where
  "valid_payload_kind kind \<longleftrightarrow> kind = exact_disk \<or> kind = shrink_disk \<or> kind = rescue_disk"

definition valid_compression :: "u16 \<Rightarrow> bool" where
  "valid_compression c \<longleftrightarrow> c = compression_none \<or> c = compression_zstandard"

definition valid_chunk_size :: "u32 \<Rightarrow> bool" where
  "valid_chunk_size n \<longleftrightarrow> n = kImageChunkSize16MiB \<or> n = kImageChunkSize32MiB"

definition chunk_is_zero :: "u32 \<Rightarrow> bool" where
  "chunk_is_zero flags \<longleftrightarrow> flags AND 1 \<noteq> 0"

definition chunk_is_unreadable :: "u32 \<Rightarrow> bool" where
  "chunk_is_unreadable flags \<longleftrightarrow> flags AND 2 \<noteq> 0"

definition valid_chunk_flags :: "u32 \<Rightarrow> bool" where
  "valid_chunk_flags v \<longleftrightarrow> v = 0 \<or> v = 1 \<or> v = 3"

definition valid_rescue_read_evidence :: "rescue_read_evidence \<Rightarrow> bool" where
  "valid_rescue_read_evidence e \<longleftrightarrow>
     rr_forward_attempts e \<noteq> 0 \<and> rr_reverse_attempts e \<noteq> 0 \<and> rr_sector_attempts e \<noteq> 0 \<and>
     rr_zero_fill_read_back_verified e"

definition write_rescue_read_evidence :: "byte list \<Rightarrow> rescue_read_evidence \<Rightarrow> byte list" where
  "write_rescue_read_evidence b e =
     (let b = write_little b 96 (rr_forward_attempts e);
          b = write_little b 97 (rr_reverse_attempts e);
          b = write_little b 98 (rr_sector_attempts e);
          b = write_little b 99 (1 :: u8);
          b = write_little b 100 (rr_forward_native_error e);
          b = write_little b 104 (rr_reverse_native_error e)
      in write_little b 108 (rr_sector_native_error e))"

definition write_section :: "byte list \<Rightarrow> nat \<Rightarrow> image_section \<Rightarrow> byte list" where
  "write_section b offset s =
     (let b = write_little b offset (is_offset s)
      in write_little b (offset + 8) (is_length s))"

definition read_section :: "byte list \<Rightarrow> nat \<Rightarrow> image_section" where
  "read_section b offset =
     \<lparr>is_offset = read_little b offset, is_length = read_little b (offset + 8)\<rparr>"

section \<open>Nonces and authenticated data\<close>

definition nonce_for_counter :: "byte list \<Rightarrow> u64 \<Rightarrow> byte list result" where
  "nonce_for_counter base counter =
     (let base_counter = read_little base 4
      in case checked_add base_counter counter of
           None \<Rightarrow> Inl argument_error
         | Some v \<Rightarrow> Inr (write_little base 4 v))"

definition build_chunk_aad :: "byte list \<Rightarrow> u64 \<Rightarrow> chunk_record \<Rightarrow> byte list" where
  "build_chunk_aad image_id chunk_index record =
     (let b = replicate 64 0;
          b = overwrite b 0 kChunkAadMagic;
          b = overwrite b 8 image_id;
          b = write_little b 24 chunk_index;
          b = write_little b 32 (cr_logical_offset record);
          b = write_little b 40 (cr_logical_length record);
          b = write_little b 48 (cr_flags record);
          b = write_little b 52 (cr_compression record)
      in write_little b 56 (cr_stored_length record))"

definition canonical_metadata_aad :: "byte list \<Rightarrow> byte list" where
  "canonical_metadata_aad header =
     overwrite (overwrite header kHeaderMetadataTagOffset (replicate 16 0)) kHeaderHashOffset (replicate 32 0)"

definition calculate_header_hash :: "'s image_services \<Rightarrow> byte list \<Rightarrow> ('s, byte list) prog" where
  "calculate_header_hash sv header =
     (if length header \<noteq> unat kTsumugiHeaderSize then failE argument_error
      else image_sha256 (sv_cng sv) (overwrite header kHeaderHashOffset (replicate 32 0)))"

section \<open>Header and metadata\<close>

definition serialize_header :: "tsumugi_header \<Rightarrow> byte list" where
  "serialize_header h =
     (let b = replicate (unat kTsumugiHeaderSize) 0;
          b = overwrite b 0 kHeaderMagic;
          b = write_little b 8 (th_major_version h);
          b = write_little b 10 (th_minor_version h);
          b = write_little b 12 kTsumugiHeaderSize;
          b = write_little b 16 kEndianMarker;
          b = write_little b 20 (th_required_features h);
          b = write_little b 24 (0 :: u32);
          b = write_little b 28 (th_payload_kind h);
          b = write_little b 30 (th_compression h);
          b = write_little b 32 (th_source_disk_size h);
          b = write_little b 40 (th_logical_sector_size h);
          b = write_little b 44 (th_physical_sector_size h);
          b = write_little b 48 (th_chunk_size h);
          b = write_little b 56 (th_chunk_count h);
          b = write_section b 64 (th_data h);
          b = write_section b 80 (th_metadata h);
          b = write_section b 96 (th_footer h);
          encrypted = th_required_features h AND kFeatureEncrypted \<noteq> 0;
          b = write_little b 112 (ar_memory_kib (th_argon2 h));
          b = write_little b 116 (ar_iterations (th_argon2 h));
          b = write_little b 120 (ar_parallelism (th_argon2 h));
          b = write_little b 124 (if encrypted then kArgon2idKdf else 0);
          b = overwrite b 128 (ar_salt (th_argon2 h));
          b = overwrite b 144 (th_base_nonce h);
          b = overwrite b 156 (th_image_id h);
          b = overwrite b kHeaderMetadataTagOffset (th_metadata_tag h)
      in overwrite b kHeaderHashOffset (th_header_hash h))"

definition read_tsumugi_header :: "byte list \<Rightarrow> tsumugi_header" where
  "read_tsumugi_header b =
     \<lparr>th_major_version = read_little b 8,
      th_minor_version = read_little b 10,
      th_required_features = read_little b 20,
      th_payload_kind = read_little b 28,
      th_compression = read_little b 30,
      th_source_disk_size = read_little b 32,
      th_logical_sector_size = read_little b 40,
      th_physical_sector_size = read_little b 44,
      th_chunk_size = read_little b 48,
      th_chunk_count = read_little b 56,
      th_data = read_section b 64,
      th_metadata = read_section b 80,
      th_footer = read_section b 96,
      th_argon2 = \<lparr>ar_memory_kib = read_little b 112, ar_iterations = read_little b 116,
        ar_parallelism = read_little b 120, ar_salt = slice b 128 16\<rparr>,
      th_base_nonce = slice b 144 12,
      th_image_id = slice b 156 16,
      th_metadata_tag = slice b kHeaderMetadataTagOffset 16,
      th_header_hash = slice b kHeaderHashOffset 32\<rparr>"

definition header_supported :: "tsumugi_header \<Rightarrow> bool" where
  "header_supported h \<longleftrightarrow>
     (let unknown = th_required_features h AND NOT kKnownRequiredFeatures;
          unreadable = th_required_features h AND kFeatureUnreadableMap \<noteq> 0;
          evidence_map = th_required_features h AND kFeatureRescueReadEvidence \<noteq> 0
      in \<not> (unknown \<noteq> 0 \<or> \<not> valid_payload_kind (th_payload_kind h) \<or>
          \<not> valid_compression (th_compression h) \<or> th_source_disk_size h = 0 \<or>
          \<not> is_supported_sector_size_pair (th_logical_sector_size h) (th_physical_sector_size h) \<or>
          th_source_disk_size h mod ucast (th_logical_sector_size h) \<noteq> 0 \<or>
          \<not> valid_chunk_size (th_chunk_size h) \<or>
          unat (th_chunk_count h) > kTsumugiMaximumChunkCount \<or> all_zero (th_image_id h) \<or>
          (unreadable \<and> th_payload_kind h \<noteq> rescue_disk) \<or>
          (evidence_map \<and> (\<not> unreadable \<or> th_payload_kind h \<noteq> rescue_disk))))"

definition check_crypt_fields :: "tsumugi_header \<Rightarrow> u32 \<Rightarrow> status" where
  "check_crypt_fields h kdf =
     (if th_required_features h AND kFeatureEncrypted \<noteq> 0
      then
        if kdf \<noteq> kArgon2idKdf \<or> ar_memory_kib (th_argon2 h) \<noteq> kTsumugiArgon2MemoryKiB \<or>
           ar_iterations (th_argon2 h) \<noteq> kTsumugiArgon2Iterations \<or>
           ar_parallelism (th_argon2 h) \<noteq> kTsumugiArgon2Parallelism \<or>
           all_zero (ar_salt (th_argon2 h)) \<or> all_zero (th_base_nonce h)
        then Inl unsupported_error else success_status
      else
        if kdf \<noteq> 0 \<or> ar_memory_kib (th_argon2 h) \<noteq> 0 \<or> ar_iterations (th_argon2 h) \<noteq> 0 \<or>
           ar_parallelism (th_argon2 h) \<noteq> 0 \<or> \<not> all_zero (ar_salt (th_argon2 h)) \<or>
           \<not> all_zero (th_base_nonce h) \<or> \<not> all_zero (th_metadata_tag h)
        then Inl data_error else success_status)"

definition parse_tsumugi_header :: "'s image_services \<Rightarrow> byte list \<Rightarrow> ('s, tsumugi_header) prog" where
  "parse_tsumugi_header sv img =
     (if length img < unat (kTsumugiHeaderSize + kTsumugiFooterSize) then failE data_error
      else
        let b = take (unat kTsumugiHeaderSize) img in
        if take 8 b \<noteq> kHeaderMagic then failE data_error
        else if read_little b 8 \<noteq> kTsumugiMajorVersion \<or> read_little b 10 \<noteq> kTsumugiMinorVersion
        then failE unsupported_error
        else if read_little b 12 \<noteq> kTsumugiHeaderSize \<or> read_little b 16 \<noteq> kEndianMarker \<or>
          read_little b 24 \<noteq> (0 :: u32) \<or> \<not> all_zero (drop 220 b)
        then failE data_error
        else
          let header = read_tsumugi_header b in
          if \<not> header_supported header then failE unsupported_error
          else
            bindE (of_result (check_crypt_fields header (read_little b 124))) (\<lambda>_.
            bindE (calculate_header_hash sv b) (\<lambda>calculated.
            if calculated \<noteq> th_header_hash header then failE verification_error
            else returnE header)))"

definition validate_sections :: "tsumugi_header \<Rightarrow> nat \<Rightarrow> status" where
  "validate_sections h image_size =
     (if is_offset (th_metadata h) \<noteq> ucast kTsumugiHeaderSize \<or>
         is_length (th_metadata h) < ucast kTsumugiMetadataHeaderSize \<or>
         unat (is_length (th_metadata h)) > kTsumugiMaximumMetadataBytes
      then Inl data_error
      else
        case checked_add (is_offset (th_metadata h)) (is_length (th_metadata h)) of
          None \<Rightarrow> Inl data_error
        | Some metadata_end \<Rightarrow>
          if metadata_end \<noteq> is_offset (th_data h) then Inl data_error
          else
            case checked_add (is_offset (th_data h)) (is_length (th_data h)) of
              None \<Rightarrow> Inl data_error
            | Some data_end \<Rightarrow>
              if data_end \<noteq> is_offset (th_footer h) \<or> is_length (th_footer h) \<noteq> ucast kTsumugiFooterSize
              then Inl data_error
              else
                case checked_add (is_offset (th_footer h)) (is_length (th_footer h)) of
                  None \<Rightarrow> Inl data_error
                | Some footer_end \<Rightarrow>
                  if unat footer_end \<noteq> image_size then Inl data_error else success_status)"

definition write_chunk_record :: "byte list \<Rightarrow> chunk_record \<Rightarrow> byte list" where
  "write_chunk_record b r =
     (let b = write_little b 0 (cr_logical_offset r);
          b = write_little b 8 (cr_logical_length r);
          b = write_little b 16 (cr_stored_offset r);
          b = write_little b 24 (cr_stored_length r);
          b = write_little b 32 (cr_flags r);
          b = write_little b 36 (cr_compression r);
          b = write_little b 40 (cr_nonce_counter r);
          b = overwrite b 48 (cr_plaintext_hash r);
          b = overwrite b 80 (cr_authentication_tag r)
      in case cr_rescue_read_evidence r of
           None \<Rightarrow> b
         | Some e \<Rightarrow> write_rescue_read_evidence b e)"

fun write_chunk_records :: "byte list \<Rightarrow> nat \<Rightarrow> chunk_record list \<Rightarrow> byte list" where
  "write_chunk_records b offset [] = b"
| "write_chunk_records b offset (r # rest) =
     write_chunk_records
       (overwrite b offset (write_chunk_record (slice b offset (unat kTsumugiChunkRecordSize)) r))
       (offset + unat kTsumugiChunkRecordSize) rest"

text \<open>The length both \<open>build_tsumugi_v1\<close> and \<open>build_metadata\<close> compute.\<close>

definition metadata_size :: "nat \<Rightarrow> nat \<Rightarrow> u64 option" where
  "metadata_size manifest_size record_count =
     (case checked_multiply (of_nat record_count) (ucast kTsumugiChunkRecordSize) of
        None \<Rightarrow> None
      | Some records_length \<Rightarrow>
        case checked_add (ucast kTsumugiMetadataHeaderSize) (of_nat manifest_size) of
          None \<Rightarrow> None
        | Some n \<Rightarrow>
          case checked_add n records_length of
            None \<Rightarrow> None
          | Some n \<Rightarrow> if unat n > kTsumugiMaximumMetadataBytes then None else Some n)"

definition build_metadata :: "byte list \<Rightarrow> chunk_record list \<Rightarrow> byte list result" where
  "build_metadata manifest records =
     (case metadata_size (length manifest) (length records) of
        None \<Rightarrow> Inl argument_error
      | Some metadata_length \<Rightarrow>
        let b = replicate (unat metadata_length) 0;
            b = overwrite b 0 kMetadataMagic;
            b = write_little b 8 kTsumugiMajorVersion;
            b = write_little b 10 kTsumugiMinorVersion;
            b = write_little b 12 kTsumugiMetadataHeaderSize;
            b = write_little b 16 (of_nat (length manifest) :: u64);
            b = write_little b 24 (of_nat (length records) :: u64);
            b = overwrite b (unat kTsumugiMetadataHeaderSize) manifest
        in Inr (write_chunk_records b (unat kTsumugiMetadataHeaderSize + length manifest) records))"

section \<open>Building\<close>

definition check_encryption :: "encryption_settings \<Rightarrow> status" where
  "check_encryption e =
     (let parameters = es_argon2 e
      in if \<not> pa_accepted (assess_tsumugi_password (es_password e)) \<or>
            ar_memory_kib parameters \<noteq> kTsumugiArgon2MemoryKiB \<or>
            ar_iterations parameters \<noteq> kTsumugiArgon2Iterations \<or>
            ar_parallelism parameters \<noteq> kTsumugiArgon2Parallelism \<or>
            all_zero (ar_salt parameters) \<or> all_zero (es_base_nonce e)
         then Inl argument_error else success_status)"

fun check_build_chunks :: "build_request \<Rightarrow> u64 \<Rightarrow> bool \<Rightarrow> build_chunk list \<Rightarrow> status" where
  "check_build_chunks request previous_end first [] = success_status"
| "check_build_chunks request previous_end first (chunk # rest) =
     (let byte_stream_payload = br_payload_kind request = shrink_disk;
          zero = chunk_is_zero (bc_flags chunk);
          unreadable = chunk_is_unreadable (bc_flags chunk)
      in if \<not> valid_chunk_flags (bc_flags chunk) \<or> bc_logical_length chunk = 0 \<or>
            bc_logical_length chunk > ucast (br_chunk_size request) \<or>
            (\<not> byte_stream_payload \<and>
             (bc_logical_offset chunk mod ucast (br_logical_sector_size request) \<noteq> 0 \<or>
              bc_logical_length chunk mod ucast (br_logical_sector_size request) \<noteq> 0))
         then Inl argument_error
         else
           case checked_add (bc_logical_offset chunk) (bc_logical_length chunk) of
             None \<Rightarrow> Inl argument_error
           | Some logical_end \<Rightarrow>
             if logical_end > br_source_disk_size request \<or>
                (\<not> first \<and> bc_logical_offset chunk < previous_end) \<or>
                (zero \<and> bc_data chunk \<noteq> []) \<or>
                (\<not> zero \<and> length (bc_data chunk) \<noteq> unat (bc_logical_length chunk))
             then Inl argument_error
             else if unreadable \<and> br_payload_kind request \<noteq> rescue_disk then Inl argument_error
             else if (bc_rescue_read_evidence chunk \<noteq> None) \<noteq> unreadable \<or>
               (case bc_rescue_read_evidence chunk of None \<Rightarrow> False | Some e \<Rightarrow> \<not> valid_rescue_read_evidence e)
             then Inl argument_error
             else check_build_chunks request logical_end False rest)"

definition validate_build_request :: "build_request \<Rightarrow> status" where
  "validate_build_request request =
     (if \<not> valid_payload_kind (br_payload_kind request) \<or> br_source_disk_size request = 0 \<or>
         \<not> is_supported_sector_size_pair (br_logical_sector_size request) (br_physical_sector_size request) \<or>
         br_source_disk_size request mod ucast (br_logical_sector_size request) \<noteq> 0 \<or>
         \<not> valid_chunk_size (br_chunk_size request) \<or> \<not> valid_compression (br_compression request) \<or>
         br_manifest request = [] \<or> length (br_manifest request) > kTsumugiMaximumManifestBytes \<or>
         length (br_chunks request) > kTsumugiMaximumChunkCount \<or> all_zero (br_image_id request)
      then Inl argument_error
      else
        case (case br_encryption request of None \<Rightarrow> success_status | Some e \<Rightarrow> check_encryption e) of
          Inl e \<Rightarrow> Inl e
        | Inr _ \<Rightarrow> check_build_chunks request 0 True (br_chunks request))"

text \<open>The key is \<open>None\<close> when the image is not encrypted.\<close>

definition compress_chunk :: "'s image_services \<Rightarrow> u16 \<Rightarrow> byte list \<Rightarrow> ('s, byte list \<times> u16) prog" where
  "compress_chunk sv compression bytes =
     (if compression = compression_zstandard
      then
        bindE (compress_zstandard_image_chunk_v1 (sv_zstd sv) bytes) (\<lambda>compressed.
        returnE (if length compressed < length bytes then (compressed, compression_zstandard)
                 else (bytes, compression_none)))
      else returnE (bytes, compression_none))"

definition encrypt_chunk ::
  "'s image_services \<Rightarrow> byte list \<Rightarrow> (byte list \<times> byte list) option \<Rightarrow> nat \<Rightarrow> chunk_record \<Rightarrow> byte list \<Rightarrow>
   ('s, chunk_record \<times> byte list) prog" where
  "encrypt_chunk sv image_id crypt index record stored =
     (case crypt of
        None \<Rightarrow> returnE (record, stored)
      | Some (key, base_nonce) \<Rightarrow>
        let record = record\<lparr>cr_nonce_counter := of_nat index + 1\<rparr> in
        bindE (of_result (nonce_for_counter base_nonce (cr_nonce_counter record))) (\<lambda>nonce.
        let aad = build_chunk_aad image_id (of_nat index) record in
        bindE (encrypt_tsumugi_aes256_gcm (sv_aes sv) key nonce aad stored) (\<lambda>encrypted.
        returnE (record\<lparr>cr_authentication_tag := en_tag encrypted\<rparr>, en_ciphertext encrypted))))"

definition store_chunk ::
  "'s image_services \<Rightarrow> build_request \<Rightarrow> (byte list \<times> byte list) option \<Rightarrow> nat \<Rightarrow> u64 \<Rightarrow> build_chunk \<Rightarrow>
   ('s, chunk_record \<times> byte list) prog" where
  "store_chunk sv request crypt index stored_offset chunk =
     (let record = \<lparr>cr_logical_offset = bc_logical_offset chunk, cr_logical_length = bc_logical_length chunk,
            cr_stored_offset = stored_offset, cr_stored_length = 0, cr_flags = bc_flags chunk,
            cr_compression = compression_none, cr_nonce_counter = 0, cr_plaintext_hash = replicate 32 0,
            cr_authentication_tag = replicate 16 0,
            cr_rescue_read_evidence = bc_rescue_read_evidence chunk\<rparr>
      in bindE (if chunk_is_zero (bc_flags chunk) then sha256_zeroes (sv_cng sv) (bc_logical_length chunk)
                else image_sha256 (sv_cng sv) (bc_data chunk)) (\<lambda>digest.
         let record = record\<lparr>cr_plaintext_hash := digest\<rparr> in
         if chunk_is_zero (bc_flags chunk) then returnE (record, [])
         else
           bindE (compress_chunk sv (br_compression request) (bc_data chunk)) (\<lambda>(stored, compression).
           let record = record\<lparr>cr_compression := compression, cr_stored_length := of_nat (length stored)\<rparr>
           in encrypt_chunk sv (br_image_id request) crypt index record stored)))"

fun store_chunks ::
  "'s image_services \<Rightarrow> build_request \<Rightarrow> (byte list \<times> byte list) option \<Rightarrow> u64 \<Rightarrow> nat \<Rightarrow> chunk_record list \<Rightarrow>
   byte list \<Rightarrow> build_chunk list \<Rightarrow> ('s, chunk_record list \<times> byte list) prog" where
  "store_chunks sv request crypt data_start index records stored_data [] = returnE (records, stored_data)"
| "store_chunks sv request crypt data_start index records stored_data (chunk # rest) =
     bindE (store_chunk sv request crypt index (data_start + of_nat (length stored_data)) chunk)
       (\<lambda>(record, stored).
     store_chunks sv request crypt data_start (index + 1) (records @ [record]) (stored_data @ stored) rest)"

definition image_header :: "build_request \<Rightarrow> nat \<Rightarrow> nat \<Rightarrow> tsumugi_header" where
  "image_header request metadata_length data_length =
     (let encrypted = br_encryption request \<noteq> None;
          has_unreadable = list_ex (\<lambda>c. chunk_is_unreadable (bc_flags c)) (br_chunks request);
          metadata = \<lparr>is_offset = ucast kTsumugiHeaderSize, is_length = of_nat metadata_length\<rparr>;
          stored = \<lparr>is_offset = is_offset metadata + is_length metadata, is_length = of_nat data_length\<rparr>;
          footer = \<lparr>is_offset = is_offset stored + is_length stored, is_length = ucast kTsumugiFooterSize\<rparr>
      in \<lparr>th_major_version = kTsumugiMajorVersion, th_minor_version = kTsumugiMinorVersion,
          th_required_features = (if encrypted then kFeatureEncrypted else 0) OR
            (if has_unreadable then kFeatureUnreadableMap else 0) OR
            (if has_unreadable then kFeatureRescueReadEvidence else 0),
          th_payload_kind = br_payload_kind request, th_compression = br_compression request,
          th_source_disk_size = br_source_disk_size request,
          th_logical_sector_size = br_logical_sector_size request,
          th_physical_sector_size = br_physical_sector_size request,
          th_chunk_size = br_chunk_size request, th_chunk_count = of_nat (length (br_chunks request)),
          th_data = stored, th_metadata = metadata, th_footer = footer,
          th_argon2 = (case br_encryption request of
              Some e \<Rightarrow> es_argon2 e
            | None \<Rightarrow> \<lparr>ar_memory_kib = 0, ar_iterations = 0, ar_parallelism = 0, ar_salt = replicate 16 0\<rparr>),
          th_base_nonce = (case br_encryption request of
              Some e \<Rightarrow> es_base_nonce e | None \<Rightarrow> replicate 12 0),
          th_image_id = br_image_id request, th_metadata_tag = replicate 16 0,
          th_header_hash = replicate 32 0\<rparr>)"

definition seal_metadata ::
  "'s image_services \<Rightarrow> (byte list \<times> byte list) option \<Rightarrow> tsumugi_header \<Rightarrow> byte list \<Rightarrow>
   ('s, tsumugi_header \<times> byte list) prog" where
  "seal_metadata sv crypt header metadata =
     (case crypt of
        None \<Rightarrow> returnE (header, metadata)
      | Some (key, base_nonce) \<Rightarrow>
        bindE (of_result (nonce_for_counter (th_base_nonce header) 0)) (\<lambda>nonce.
        let aad = canonical_metadata_aad (serialize_header header) in
        bindE (encrypt_tsumugi_aes256_gcm (sv_aes sv) key nonce aad metadata) (\<lambda>encrypted.
        returnE (header\<lparr>th_metadata_tag := en_tag encrypted\<rparr>, en_ciphertext encrypted))))"

definition build_footer :: "u64 \<Rightarrow> byte list \<Rightarrow> byte list \<Rightarrow> byte list" where
  "build_footer total_length global_hash image_id =
     (let b = replicate (unat kTsumugiFooterSize) 0;
          b = overwrite b 0 kFooterMagic;
          b = write_little b 8 total_length;
          b = overwrite b 16 global_hash
      in overwrite b 48 image_id)"

definition assemble_image ::
  "'s image_services \<Rightarrow> tsumugi_header \<Rightarrow> byte list \<Rightarrow> byte list \<Rightarrow> byte list \<Rightarrow> ('s, byte list) prog" where
  "assemble_image sv header metadata stored_data image_id =
     bindE (calculate_header_hash sv (serialize_header header)) (\<lambda>header_hash.
     let header_bytes = serialize_header (header\<lparr>th_header_hash := header_hash\<rparr>) in
     case checked_add (is_offset (th_footer header)) (ucast kTsumugiFooterSize) of
       None \<Rightarrow> failE argument_error
     | Some total_length \<Rightarrow>
       let img = header_bytes @ metadata @ stored_data in
       bindE (image_sha256 (sv_cng sv) img) (\<lambda>global_hash.
       returnE (img @ build_footer total_length global_hash image_id)))"

definition build_tsumugi_v1 :: "'s image_services \<Rightarrow> build_request \<Rightarrow> ('s, byte list) prog" where
  "build_tsumugi_v1 sv request =
     bindE (of_result (validate_build_request request)) (\<lambda>_.
     bindE (case br_encryption request of
         None \<Rightarrow> returnE None
       | Some e \<Rightarrow>
         bindE (of_result (derive_tsumugi_key_argon2id (sv_argon2 sv) (es_password e) (es_argon2 e)))
           (\<lambda>key. returnE (Some (key, es_base_nonce e)))) (\<lambda>crypt.
     case metadata_size (length (br_manifest request)) (length (br_chunks request)) of
       None \<Rightarrow> failE argument_error
     | Some metadata_bytes \<Rightarrow>
       bindE (store_chunks sv request crypt (ucast kTsumugiHeaderSize + metadata_bytes) 0 [] []
           (br_chunks request)) (\<lambda>(records, stored_data).
       bindE (of_result (build_metadata (br_manifest request) records)) (\<lambda>metadata.
       let header = image_header request (length metadata) (length stored_data) in
       bindE (seal_metadata sv crypt header metadata) (\<lambda>(header, metadata).
       assemble_image sv header metadata stored_data (br_image_id request))))))"

section \<open>Inspecting\<close>

definition read_rescue_read_evidence :: "byte list \<Rightarrow> rescue_read_evidence" where
  "read_rescue_read_evidence b =
     \<lparr>rr_forward_attempts = read_little b 96, rr_reverse_attempts = read_little b 97,
      rr_sector_attempts = read_little b 98,
      rr_zero_fill_read_back_verified = (read_little b 99 = (1 :: u8)),
      rr_forward_native_error = read_little b 100, rr_reverse_native_error = read_little b 104,
      rr_sector_native_error = read_little b 108\<rparr>"

definition read_chunk_record :: "byte list \<Rightarrow> bool \<Rightarrow> chunk_record" where
  "read_chunk_record b evidence_map =
     (let flags = read_little b 32
      in \<lparr>cr_logical_offset = read_little b 0, cr_logical_length = read_little b 8,
          cr_stored_offset = read_little b 16, cr_stored_length = read_little b 24,
          cr_flags = flags, cr_compression = read_little b 36, cr_nonce_counter = read_little b 40,
          cr_plaintext_hash = slice b 48 32, cr_authentication_tag = slice b 80 16,
          cr_rescue_read_evidence =
            (if evidence_map \<and> chunk_is_unreadable flags then Some (read_rescue_read_evidence b) else None)\<rparr>)"

definition serialized_evidence_valid :: "byte list \<Rightarrow> chunk_record \<Rightarrow> bool" where
  "serialized_evidence_valid b record \<longleftrightarrow>
     (case cr_rescue_read_evidence record of
        Some e \<Rightarrow> read_little b 99 = (1 :: u8) \<and> valid_rescue_read_evidence e
      | None \<Rightarrow> all_zero (slice b 96 16))"

text \<open>The end of the logical and of the stored range of an accepted record.\<close>

definition check_chunk_record ::
  "tsumugi_header \<Rightarrow> bool \<Rightarrow> byte list \<Rightarrow> u64 \<Rightarrow> u64 \<Rightarrow> u64 \<Rightarrow> chunk_record \<Rightarrow> (u64 \<times> u64) result" where
  "check_chunk_record header encrypted b index previous_logical_end expected_stored_offset record =
     (let byte_stream_payload = th_payload_kind header = shrink_disk;
          zero = chunk_is_zero (cr_flags record)
      in if \<not> all_zero (slice b 38 2) \<or> \<not> serialized_evidence_valid b record \<or>
            \<not> valid_chunk_flags (cr_flags record) \<or> \<not> valid_compression (cr_compression record) \<or>
            cr_logical_length record = 0 \<or> cr_logical_length record > ucast (th_chunk_size header) \<or>
            (\<not> byte_stream_payload \<and>
             (cr_logical_offset record mod ucast (th_logical_sector_size header) \<noteq> 0 \<or>
              cr_logical_length record mod ucast (th_logical_sector_size header) \<noteq> 0))
         then Inl data_error
         else
           case checked_add (cr_logical_offset record) (cr_logical_length record) of
             None \<Rightarrow> Inl data_error
           | Some logical_end \<Rightarrow>
             if logical_end > th_source_disk_size header \<or>
                (index \<noteq> 0 \<and> cr_logical_offset record < previous_logical_end) \<or>
                cr_stored_offset record \<noteq> expected_stored_offset
             then Inl data_error
             else
               case checked_add (cr_stored_offset record) (cr_stored_length record) of
                 None \<Rightarrow> Inl data_error
               | Some stored_end \<Rightarrow>
                 if stored_end > is_offset (th_footer header) \<or>
                    (zero \<and> (cr_stored_length record \<noteq> 0 \<or> cr_compression record \<noteq> compression_none \<or>
                      cr_nonce_counter record \<noteq> 0 \<or> \<not> all_zero (cr_authentication_tag record))) \<or>
                    (\<not> zero \<and> cr_stored_length record = 0) \<or>
                    (encrypted \<and> \<not> zero \<and> cr_nonce_counter record \<noteq> index + 1) \<or>
                    (\<not> encrypted \<and>
                     (cr_nonce_counter record \<noteq> 0 \<or> \<not> all_zero (cr_authentication_tag record)))
                 then Inl data_error
                 else if chunk_is_unreadable (cr_flags record) \<and> th_payload_kind header \<noteq> rescue_disk
                 then Inl data_error
                 else Inr (logical_end, stored_end))"

text \<open>The loop over the records; \<open>n\<close> of them are left.  It ends with the end of the last stored range.\<close>

fun parse_chunk_records ::
  "tsumugi_header \<Rightarrow> bool \<Rightarrow> byte list \<Rightarrow> nat \<Rightarrow> u64 \<Rightarrow> nat \<Rightarrow> u64 \<Rightarrow> u64 \<Rightarrow> (chunk_record list \<times> u64) result" where
  "parse_chunk_records header encrypted metadata 0 index offset previous_logical_end expected_stored_offset =
     Inr ([], expected_stored_offset)"
| "parse_chunk_records header encrypted metadata (Suc n) index offset previous_logical_end
     expected_stored_offset =
     (let b = slice metadata offset (unat kTsumugiChunkRecordSize);
          record = read_chunk_record b (th_required_features header AND kFeatureRescueReadEvidence \<noteq> 0)
      in case check_chunk_record header encrypted b index previous_logical_end expected_stored_offset record of
           Inl e \<Rightarrow> Inl e
         | Inr (logical_end, stored_end) \<Rightarrow>
           case parse_chunk_records header encrypted metadata n (index + 1)
               (offset + unat kTsumugiChunkRecordSize) logical_end stored_end of
             Inl e \<Rightarrow> Inl e
           | Inr (records, final_stored_end) \<Rightarrow> Inr (record # records, final_stored_end))"

definition parse_metadata ::
  "byte list \<Rightarrow> tsumugi_header \<Rightarrow> bool \<Rightarrow> (byte list \<times> chunk_record list) result" where
  "parse_metadata metadata header encrypted =
     (if length metadata < unat kTsumugiMetadataHeaderSize \<or> take 8 metadata \<noteq> kMetadataMagic \<or>
         read_little metadata 8 \<noteq> kTsumugiMajorVersion \<or> read_little metadata 10 \<noteq> kTsumugiMinorVersion \<or>
         read_little metadata 12 \<noteq> kTsumugiMetadataHeaderSize
      then Inl data_error
      else
        let manifest_length = read_little metadata 16 :: u64; chunk_count = read_little metadata 24 :: u64
        in if manifest_length = 0 \<or> unat manifest_length > kTsumugiMaximumManifestBytes \<or>
              chunk_count \<noteq> th_chunk_count header
           then Inl data_error
           else
             case checked_multiply chunk_count (ucast kTsumugiChunkRecordSize) of
               None \<Rightarrow> Inl data_error
             | Some records_length \<Rightarrow>
             case checked_add (ucast kTsumugiMetadataHeaderSize) manifest_length of
               None \<Rightarrow> Inl data_error
             | Some expected_length \<Rightarrow>
             case checked_add expected_length records_length of
               None \<Rightarrow> Inl data_error
             | Some expected_length \<Rightarrow>
               if unat expected_length \<noteq> length metadata then Inl data_error
               else
                 case parse_chunk_records header encrypted metadata (unat chunk_count) 0
                     (unat kTsumugiMetadataHeaderSize + unat manifest_length) 0 (is_offset (th_data header)) of
                   Inl e \<Rightarrow> Inl e
                 | Inr (records, expected_stored_offset) \<Rightarrow>
                   if expected_stored_offset \<noteq> is_offset (th_footer header) \<or>
                      (th_required_features header AND kFeatureUnreadableMap \<noteq> 0) \<noteq>
                        list_ex (\<lambda>r. chunk_is_unreadable (cr_flags r)) records \<or>
                      (th_required_features header AND kFeatureRescueReadEvidence \<noteq> 0) \<noteq>
                        list_ex (\<lambda>r. cr_rescue_read_evidence r \<noteq> None) records
                   then Inl data_error
                   else Inr (slice metadata (unat kTsumugiMetadataHeaderSize) (unat manifest_length), records))"

definition decrypt_chunk ::
  "'s image_services \<Rightarrow> tsumugi_header \<Rightarrow> byte list option \<Rightarrow> u64 \<Rightarrow> chunk_record \<Rightarrow> byte list \<Rightarrow>
   ('s, byte list) prog" where
  "decrypt_chunk sv header key index record stored =
     (case key of
        None \<Rightarrow> returnE stored
      | Some k \<Rightarrow>
        bindE (of_result (nonce_for_counter (th_base_nonce header) (cr_nonce_counter record))) (\<lambda>nonce.
        decrypt_tsumugi_aes256_gcm (sv_aes sv) k nonce (build_chunk_aad (th_image_id header) index record)
          stored (cr_authentication_tag record)))"

definition expand_chunk :: "'s image_services \<Rightarrow> chunk_record \<Rightarrow> byte list \<Rightarrow> byte list result" where
  "expand_chunk sv record stored =
     (if cr_compression record = compression_zstandard
      then decompress_zstandard_image_chunk_v1 (sv_zstd sv) stored (unat (cr_logical_length record))
      else if length stored \<noteq> unat (cr_logical_length record) then Inl data_error
      else Inr stored)"

definition inspect_chunk ::
  "'s image_services \<Rightarrow> tsumugi_header \<Rightarrow> byte list option \<Rightarrow> byte list \<Rightarrow> u64 \<Rightarrow> chunk_record \<Rightarrow>
   ('s, verified_chunk) prog" where
  "inspect_chunk sv header key img index record =
     (if chunk_is_zero (cr_flags record)
      then
        bindE (sha256_zeroes (sv_cng sv) (cr_logical_length record)) (\<lambda>digest.
        if digest \<noteq> cr_plaintext_hash record then failE verification_error
        else returnE \<lparr>vc_record = record, vc_plaintext = []\<rparr>)
      else
        let stored = slice img (unat (cr_stored_offset record)) (unat (cr_stored_length record)) in
        bindE (decrypt_chunk sv header key index record stored) (\<lambda>stored.
        bindE (of_result (expand_chunk sv record stored)) (\<lambda>plaintext.
        bindE (image_sha256 (sv_cng sv) plaintext) (\<lambda>digest.
        if digest \<noteq> cr_plaintext_hash record then failE verification_error
        else returnE \<lparr>vc_record = record, vc_plaintext = plaintext\<rparr>))))"

fun inspect_chunks ::
  "'s image_services \<Rightarrow> tsumugi_header \<Rightarrow> byte list option \<Rightarrow> byte list \<Rightarrow> u64 \<Rightarrow> verified_chunk list \<Rightarrow>
   chunk_record list \<Rightarrow> ('s, verified_chunk list) prog" where
  "inspect_chunks sv header key img index chunks [] = returnE chunks"
| "inspect_chunks sv header key img index chunks (record # rest) =
     bindE (inspect_chunk sv header key img index record) (\<lambda>chunk.
     inspect_chunks sv header key img (index + 1) (chunks @ [chunk]) rest)"

definition check_footer :: "tsumugi_header \<Rightarrow> byte list \<Rightarrow> nat \<Rightarrow> status" where
  "check_footer header footer image_size =
     (if take 8 footer \<noteq> kFooterMagic \<or> unat (read_little footer 8 :: u64) \<noteq> image_size \<or>
         slice footer 48 16 \<noteq> th_image_id header
      then Inl data_error else success_status)"

text \<open>The key of an encrypted image and its metadata in the clear.\<close>

definition unseal_metadata ::
  "'s image_services \<Rightarrow> tsumugi_header \<Rightarrow> byte list \<Rightarrow> narrow_string option \<Rightarrow>
   ('s, byte list option \<times> byte list) prog" where
  "unseal_metadata sv header img password =
     (let metadata = slice img (unat (is_offset (th_metadata header))) (unat (is_length (th_metadata header)))
      in if th_required_features header AND kFeatureEncrypted = 0 then returnE (None, metadata)
         else
           case password of
             None \<Rightarrow> failE (mk_error Access_denied ERROR_PASSWORD_RESTRICTION)
           | Some pw \<Rightarrow>
             bindE (of_result (derive_tsumugi_key_argon2id (sv_argon2 sv) pw (th_argon2 header))) (\<lambda>key.
             bindE (of_result (nonce_for_counter (th_base_nonce header) 0)) (\<lambda>nonce.
             bindE (decrypt_tsumugi_aes256_gcm (sv_aes sv) key nonce
                 (canonical_metadata_aad (take (unat kTsumugiHeaderSize) img)) metadata
                 (th_metadata_tag header)) (\<lambda>plaintext.
             returnE (Some key, plaintext)))))"

definition inspect_tsumugi_v1 ::
  "'s image_services \<Rightarrow> byte list \<Rightarrow> narrow_string option \<Rightarrow> ('s, tsumugi_inspection) prog" where
  "inspect_tsumugi_v1 sv img password =
     bindE (parse_tsumugi_header sv img) (\<lambda>header.
     bindE (of_result (validate_sections header (length img))) (\<lambda>_.
     let footer = slice img (unat (is_offset (th_footer header))) (unat kTsumugiFooterSize) in
     bindE (of_result (check_footer header footer (length img))) (\<lambda>_.
     bindE (image_sha256 (sv_cng sv) (take (unat (is_offset (th_footer header))) img)) (\<lambda>global_hash.
     if global_hash \<noteq> slice footer 16 32 then failE verification_error
     else
       bindE (unseal_metadata sv header img password) (\<lambda>(key, metadata).
       bindE (of_result (parse_metadata metadata header (key \<noteq> None))) (\<lambda>(manifest, records).
       bindE (inspect_chunks sv header key img 0 [] records) (\<lambda>chunks.
       returnE \<lparr>ti_header = header, ti_manifest = manifest, ti_chunks = chunks,
         ti_global_hash = global_hash, ti_header_hash_verified = True,
         ti_metadata_authenticated = (key \<noteq> None), ti_all_chunks_verified = True,
         ti_global_hash_verified = True\<rparr>)))))))"

end
