(* ===== verification/TsumugiCodec.thy ===== *)
theory TsumugiCodec
  imports Tsumugi
begin

text \<open>
  The bytes of an image: the header, the records and the metadata are read back as they were written.
\<close>

section \<open>The header\<close>

definition header_arrays :: "tsumugi_header \<Rightarrow> bool" where
  "header_arrays h \<longleftrightarrow>
     length (ar_salt (th_argon2 h)) = 16 \<and> length (th_base_nonce h) = 12 \<and> length (th_image_id h) = 16 \<and>
     length (th_metadata_tag h) = 16 \<and> length (th_header_hash h) = 32"

text \<open>The header before its tag and its hash are written.\<close>

definition header_front :: "tsumugi_header \<Rightarrow> byte list" where
  "header_front h = serialize_header (h\<lparr>th_metadata_tag := [], th_header_hash := []\<rparr>)"

lemma overwrite_Nil [simp]: "overwrite b off [] = b"
  by (simp add: overwrite_def)

lemma serialize_header_front:
  "serialize_header h = overwrite (overwrite (header_front h) 172 (th_metadata_tag h)) 188 (th_header_hash h)"
  by (simp add: header_front_def serialize_header_def Let_def)

lemma length_serialize_header [simp]: "length (serialize_header h) = 512"
  by (simp add: serialize_header_def write_section_def Let_def)

lemma length_header_front [simp]: "length (header_front h) = 512"
  by (simp add: header_front_def)

lemma read_overwrite_other [byte_simps]:
  assumes "off + length ys \<le> length bs" "p + LENGTH('a) div 8 \<le> length bs"
    "p + LENGTH('a) div 8 \<le> off \<or> off + length ys \<le> p"
  shows "(read_little (overwrite bs off ys) p :: 'a::len word) = read_little bs p"
  using assms by (simp add: read_little_def slice_overwrite_other)

lemma overwrite_commute:
  assumes "a + length xs \<le> length bs" "b + length ys \<le> length bs" "a + length xs \<le> b"
  shows "overwrite (overwrite bs a xs) b ys = overwrite (overwrite bs b ys) a xs"
  using assms by (intro nth_equalityI) (auto simp: nth_overwrite)

lemma canonical_serialize_header:
  assumes "header_arrays h"
  shows "canonical_metadata_aad (serialize_header h) =
    serialize_header (h\<lparr>th_metadata_tag := replicate 16 0, th_header_hash := replicate 32 0\<rparr>)"
    "overwrite (serialize_header h) 188 (replicate 32 0) =
    serialize_header (h\<lparr>th_header_hash := replicate 32 0\<rparr>)"
proof -
  have l: "length (th_metadata_tag h) = 16" "length (th_header_hash h) = 32"
    using assms by (simp_all add: header_arrays_def)
  have f: "header_front (h\<lparr>th_metadata_tag := x, th_header_hash := y\<rparr>) = header_front h"
    "header_front (h\<lparr>th_header_hash := y\<rparr>) = header_front h" for x y
    by (simp_all add: header_front_def)
  show "overwrite (serialize_header h) 188 (replicate 32 0) =
      serialize_header (h\<lparr>th_header_hash := replicate 32 0\<rparr>)"
    using l by (simp add: serialize_header_front f overwrite_overwrite)
  have "overwrite (overwrite (overwrite (header_front h) 172 (th_metadata_tag h)) 188 (th_header_hash h)) 172 (replicate 16 0)
      = overwrite (overwrite (header_front h) 172 (replicate 16 0)) 188 (th_header_hash h)"
    using l overwrite_commute [of 172 "replicate 16 0" "overwrite (header_front h) 172 (th_metadata_tag h)" 188 "th_header_hash h"]
    by (simp add: overwrite_overwrite)
  then show "canonical_metadata_aad (serialize_header h) =
      serialize_header (h\<lparr>th_metadata_tag := replicate 16 0, th_header_hash := replicate 32 0\<rparr>)"
    using l by (simp add: canonical_metadata_aad_def serialize_header_front f overwrite_overwrite)
qed

lemma read_serialize_header:
  assumes "header_arrays h"
  shows "read_tsumugi_header (serialize_header h) = h"
  using assms
  unfolding read_tsumugi_header_def serialize_header_def write_section_def read_section_def Let_def header_arrays_def
  by (simp add: byte_simps)

lemma serialized_header_fixed:
  "slice (serialize_header h) 0 8 = kHeaderMagic"
  "read_little (serialize_header h) 8 = th_major_version h"
  "read_little (serialize_header h) 10 = th_minor_version h"
  "read_little (serialize_header h) 12 = kTsumugiHeaderSize"
  "read_little (serialize_header h) 16 = kEndianMarker"
  "read_little (serialize_header h) 24 = (0 :: u32)"
  "read_little (serialize_header h) 124 = (if th_required_features h AND kFeatureEncrypted \<noteq> 0 then kArgon2idKdf else 0)"
  "slice (serialize_header h) 220 292 = replicate 292 0"
  if "header_arrays h"
  using that unfolding serialize_header_def write_section_def Let_def header_arrays_def
  by (simp_all add: byte_simps kHeaderMagic_def)

section \<open>Chunk records\<close>

definition chunk_arrays :: "chunk_record \<Rightarrow> bool" where
  "chunk_arrays r \<longleftrightarrow> length (cr_plaintext_hash r) = 32 \<and> length (cr_authentication_tag r) = 16"

definition record_bytes :: "chunk_record \<Rightarrow> byte list" where
  "record_bytes r = write_chunk_record (replicate 112 0) r"

lemma length_write_chunk_record [simp]: "length (write_chunk_record b r) = length b"
  by (simp add: write_chunk_record_def write_rescue_read_evidence_def Let_def split: option.split)

lemma length_record_bytes [simp]: "length (record_bytes r) = 112"
  by (simp add: record_bytes_def)

text \<open>A record as a reader of the format takes it back: its evidence is there when the feature says so.\<close>

definition evidence_consistent :: "bool \<Rightarrow> chunk_record \<Rightarrow> bool" where
  "evidence_consistent evidence_map r \<longleftrightarrow>
     (cr_rescue_read_evidence r \<noteq> None \<longleftrightarrow> evidence_map \<and> chunk_is_unreadable (cr_flags r)) \<and>
     (\<forall>e. cr_rescue_read_evidence r = Some e \<longrightarrow> valid_rescue_read_evidence e)"

lemma read_record_bytes:
  assumes "chunk_arrays r" "evidence_consistent evidence_map r"
  shows "read_chunk_record (record_bytes r) evidence_map = r"
    "serialized_evidence_valid (record_bytes r) r"
    "all_zero (slice (record_bytes r) 38 2)"
proof -
  note defs = record_bytes_def write_chunk_record_def write_rescue_read_evidence_def Let_def
  have flags: "read_little (record_bytes r) 32 = cr_flags r"
    using assms(1) unfolding defs chunk_arrays_def
    by (cases "cr_rescue_read_evidence r") (simp_all add: byte_simps)
  show "read_chunk_record (record_bytes r) evidence_map = r"
  proof (cases "cr_rescue_read_evidence r")
    case None
    then have "\<not> (evidence_map \<and> chunk_is_unreadable (cr_flags r))"
      using assms(2) by (simp add: evidence_consistent_def)
    then show ?thesis
      using None assms(1) unfolding read_chunk_record_def flags Let_def
      unfolding defs chunk_arrays_def by (simp add: byte_simps)
  next
    case (Some e)
    then have "evidence_map \<and> chunk_is_unreadable (cr_flags r)" "rr_zero_fill_read_back_verified e"
      using assms(2) by (auto simp: evidence_consistent_def valid_rescue_read_evidence_def)
    then show ?thesis
      using Some assms(1) unfolding read_chunk_record_def flags Let_def
      unfolding defs chunk_arrays_def read_rescue_read_evidence_def by (simp add: byte_simps)
  qed
  show "serialized_evidence_valid (record_bytes r) r"
    using assms unfolding serialized_evidence_valid_def defs chunk_arrays_def evidence_consistent_def
    by (cases "cr_rescue_read_evidence r") (simp_all add: byte_simps all_zero_def list_all_iff)
  show "all_zero (slice (record_bytes r) 38 2)"
    using assms(1) unfolding defs chunk_arrays_def
    by (cases "cr_rescue_read_evidence r") (simp_all add: byte_simps all_zero_def list_all_iff)
qed

lemma write_chunk_records_append:
  "length p = offset \<Longrightarrow>
   write_chunk_records (p @ replicate (112 * length rs) 0) offset rs = p @ concat (map record_bytes rs)"
proof (induction rs arbitrary: p offset)
  case (Cons r rs)
  let ?b = "p @ replicate (112 * length (r # rs)) 0"
  have split: "?b = p @ replicate 112 0 @ replicate (112 * length rs) 0"
    by (simp flip: replicate_add)
  have "slice ?b offset 112 = replicate 112 0"
    unfolding split using Cons.prems by (simp add: slice_def)
  moreover have "overwrite ?b offset (record_bytes r) = (p @ record_bytes r) @ replicate (112 * length rs) 0"
    using Cons.prems unfolding split by (simp add: overwrite_def)
  ultimately show ?case
    using Cons.IH [of "p @ record_bytes r" "offset + 112"] Cons.prems
    by (simp add: record_bytes_def)
qed simp

section \<open>The metadata\<close>

lemma overwrite_append1: "off + length ys \<le> length xs \<Longrightarrow> overwrite (xs @ zs) off ys = overwrite xs off ys @ zs"
  by (simp add: overwrite_in_bounds)

lemma write_little_append1:
  "off + LENGTH('a) div 8 \<le> length xs \<Longrightarrow>
   write_little (xs @ zs) off (v :: 'a::len word) = write_little xs off v @ zs"
  by (simp add: write_little_def overwrite_append1)

lemma read_little_append1:
  "off + LENGTH('a) div 8 \<le> length xs \<Longrightarrow> (read_little (xs @ zs) off :: 'a::len word) = read_little xs off"
  by (simp add: read_little_def slice_append1)

definition metadata_head :: "nat \<Rightarrow> nat \<Rightarrow> byte list" where
  "metadata_head manifest_size record_count =
     (let b = overwrite (replicate 32 0) 0 kMetadataMagic;
          b = write_little b 8 kTsumugiMajorVersion;
          b = write_little b 10 kTsumugiMinorVersion;
          b = write_little b 12 kTsumugiMetadataHeaderSize;
          b = write_little b 16 (of_nat manifest_size :: u64)
      in write_little b 24 (of_nat record_count :: u64))"

definition metadata_bytes :: "byte list \<Rightarrow> chunk_record list \<Rightarrow> byte list" where
  "metadata_bytes manifest records =
     metadata_head (length manifest) (length records) @ manifest @ concat (map record_bytes records)"

lemma length_metadata_head [simp]: "length (metadata_head m n) = 32"
  by (simp add: metadata_head_def Let_def)

lemma length_record_list: "length (concat (map record_bytes rs)) = 112 * length rs"
  by (induction rs) simp_all

lemma length_metadata_bytes: "length (metadata_bytes m rs) = 32 + length m + 112 * length rs"
  by (simp add: metadata_bytes_def length_record_list)

lemma metadata_head_fields:
  "slice (metadata_head m n) 0 8 = kMetadataMagic"
  "read_little (metadata_head m n) 8 = kTsumugiMajorVersion"
  "read_little (metadata_head m n) 10 = kTsumugiMinorVersion"
  "read_little (metadata_head m n) 12 = kTsumugiMetadataHeaderSize"
  "read_little (metadata_head m n) 16 = (of_nat m :: u64)"
  "read_little (metadata_head m n) 24 = (of_nat n :: u64)"
  unfolding metadata_head_def Let_def by (simp_all add: byte_simps kMetadataMagic_def)

lemma metadata_size_eq:
  assumes "m \<le> kTsumugiMaximumManifestBytes" "n \<le> kTsumugiMaximumChunkCount"
  shows "metadata_size m n =
    (if 32 + m + 112 * n \<le> kTsumugiMaximumMetadataBytes then Some (of_nat (32 + m + 112 * n)) else None)"
proof -
  have u: "unat (of_nat m :: u64) = m" "unat (of_nat n :: u64) = n" using assms by (simp_all add: unat_of_nat_u64)
  have 1: "checked_multiply (of_nat n) (ucast kTsumugiChunkRecordSize) = Some (of_nat (n * 112))"
    using assms u(2) by (subst checked_multiply_unat) simp_all
  have 2: "checked_add (ucast kTsumugiMetadataHeaderSize) (of_nat m) = Some (of_nat (32 + m))"
    using assms u(1) by (subst checked_add_unat) simp_all
  have v: "unat (of_nat (32 + m) :: u64) = 32 + m" "unat (of_nat (n * 112) :: u64) = n * 112"
    using assms by (auto intro: unat_of_nat_u64 simp del: of_nat_add of_nat_mult)
  have "unat (of_nat (32 + m) :: u64) + unat (of_nat (n * 112) :: u64) < 2 ^ 64"
    using assms unfolding v by simp
  then have 3: "checked_add (of_nat (32 + m)) (of_nat (n * 112)) = Some (of_nat (32 + m + n * 112))"
    by (subst checked_add_unat) (simp_all only: of_nat_add)
  have "unat (of_nat (32 + m + n * 112) :: u64) = 32 + m + n * 112"
    using assms by (intro unat_of_nat_u64) simp
  then show ?thesis unfolding metadata_size_def 1 2 option.case 3 by (simp add: mult.commute)
qed

lemma build_metadata_bytes:
  assumes "length m \<le> kTsumugiMaximumManifestBytes" "length rs \<le> kTsumugiMaximumChunkCount"
    "metadata_size (length m) (length rs) = Some n"
  shows "build_metadata m rs = Inr (metadata_bytes m rs)" "unat n = length (metadata_bytes m rs)"
proof -
  from assms have fits: "32 + length m + 112 * length rs \<le> kTsumugiMaximumMetadataBytes"
    and n: "n = of_nat (32 + length m + 112 * length rs)"
    by (auto simp: metadata_size_eq simp del: of_nat_add of_nat_mult split: if_split_asm)
  have u: "unat n = 32 + length m + 112 * length rs" unfolding n using fits by (intro unat_of_nat_u64) simp
  then show "unat n = length (metadata_bytes m rs)" by (simp add: length_metadata_bytes)
  have split: "replicate (unat n) (0 :: byte) =
      replicate 32 0 @ replicate (length m) 0 @ replicate (112 * length rs) 0"
    by (simp only: u replicate_add append_assoc)
  have body: "overwrite (h @ replicate (length m) 0 @ replicate (112 * length rs) 0) 32 m =
      (h @ m) @ replicate (112 * length rs) 0" if "length h = 32" for h :: "byte list"
    using that by (simp add: overwrite_def)
  have magic: "length kMetadataMagic = 8" by (simp add: kMetadataMagic_def)
  have "write_chunk_records ((metadata_head (length m) (length rs) @ m) @ replicate (112 * length rs) 0)
      (32 + length m) rs = metadata_bytes m rs"
    by (subst write_chunk_records_append) (simp_all add: metadata_bytes_def)
  then show "build_metadata m rs = Inr (metadata_bytes m rs)"
    unfolding build_metadata_def assms(3) option.case Let_def split
    by (simp add: overwrite_append1 write_little_append1 magic body metadata_head_def Let_def)
qed

end
