(* ===== verification/TsumugiRecords.thy ===== *)
theory TsumugiRecords
  imports TsumugiCodec
begin

text \<open>
  What the index of an image says when it is accepted: the records in terms of natural numbers, and
  that a chain of such records is what the parser accepts and reads back.
\<close>

section \<open>One record\<close>

definition index_record_ok :: "tsumugi_header \<Rightarrow> bool \<Rightarrow> nat \<Rightarrow> nat \<Rightarrow> nat \<Rightarrow> chunk_record \<Rightarrow> bool" where
  "index_record_ok h encrypted i previous_end expected r \<longleftrightarrow>
     valid_chunk_flags (cr_flags r) \<and> valid_compression (cr_compression r) \<and>
     0 < unat (cr_logical_length r) \<and> unat (cr_logical_length r) \<le> unat (th_chunk_size h) \<and>
     (th_payload_kind h \<noteq> shrink_disk \<longrightarrow>
       cr_logical_offset r mod ucast (th_logical_sector_size h) = 0 \<and>
       cr_logical_length r mod ucast (th_logical_sector_size h) = 0) \<and>
     unat (cr_logical_offset r) + unat (cr_logical_length r) \<le> unat (th_source_disk_size h) \<and>
     (i \<noteq> 0 \<longrightarrow> previous_end \<le> unat (cr_logical_offset r)) \<and>
     unat (cr_stored_offset r) = expected \<and>
     unat (cr_stored_offset r) + unat (cr_stored_length r) \<le> unat (is_offset (th_footer h)) \<and>
     (chunk_is_zero (cr_flags r) \<longrightarrow> cr_stored_length r = 0 \<and> cr_compression r = compression_none \<and>
       cr_nonce_counter r = 0 \<and> all_zero (cr_authentication_tag r)) \<and>
     (\<not> chunk_is_zero (cr_flags r) \<longrightarrow> 0 < unat (cr_stored_length r)) \<and>
     (encrypted \<and> \<not> chunk_is_zero (cr_flags r) \<longrightarrow> cr_nonce_counter r = of_nat i + 1) \<and>
     (\<not> encrypted \<longrightarrow> cr_nonce_counter r = 0 \<and> all_zero (cr_authentication_tag r)) \<and>
     (chunk_is_unreadable (cr_flags r) \<longrightarrow> th_payload_kind h = rescue_disk)"

definition logical_end :: "chunk_record \<Rightarrow> nat" where
  "logical_end r = unat (cr_logical_offset r) + unat (cr_logical_length r)"

definition stored_end :: "chunk_record \<Rightarrow> nat" where
  "stored_end r = unat (cr_stored_offset r) + unat (cr_stored_length r)"

lemma check_chunk_record_sound:
  assumes "check_chunk_record h encrypted b (of_nat i) p x r = Inr (l, s)" "i < 2 ^ 64"
  shows "all_zero (slice b 38 2)" "serialized_evidence_valid b r"
    "index_record_ok h encrypted i (unat p) (unat x) r" "unat l = logical_end r" "unat s = stored_end r"
proof -
  have i: "(of_nat i :: u64) \<noteq> 0 \<longleftrightarrow> i \<noteq> 0" using assms(2) unat_of_nat_u64 [of i] by (metis unat_eq_zero of_nat_0)
  from assms(1) obtain "all_zero (slice b 38 2)" "serialized_evidence_valid b r"
    and le: "checked_add (cr_logical_offset r) (cr_logical_length r) = Some l"
    and se: "checked_add (cr_stored_offset r) (cr_stored_length r) = Some s"
    and rest: "valid_chunk_flags (cr_flags r)" "valid_compression (cr_compression r)" "cr_logical_length r \<noteq> 0"
      "\<not> cr_logical_length r > ucast (th_chunk_size h)"
      "th_payload_kind h = shrink_disk \<or> cr_logical_offset r mod ucast (th_logical_sector_size h) = 0 \<and>
       cr_logical_length r mod ucast (th_logical_sector_size h) = 0"
      "\<not> l > th_source_disk_size h" "\<not> ((of_nat i :: u64) \<noteq> 0 \<and> cr_logical_offset r < p)"
      "cr_stored_offset r = x" "\<not> s > is_offset (th_footer h)"
      "\<not> (chunk_is_zero (cr_flags r) \<and> (cr_stored_length r \<noteq> 0 \<or> cr_compression r \<noteq> compression_none \<or>
        cr_nonce_counter r \<noteq> 0 \<or> \<not> all_zero (cr_authentication_tag r)))"
      "\<not> (\<not> chunk_is_zero (cr_flags r) \<and> cr_stored_length r = 0)"
      "\<not> (encrypted \<and> \<not> chunk_is_zero (cr_flags r) \<and> cr_nonce_counter r \<noteq> of_nat i + 1)"
      "\<not> (\<not> encrypted \<and> (cr_nonce_counter r \<noteq> 0 \<or> \<not> all_zero (cr_authentication_tag r)))"
      "\<not> (chunk_is_unreadable (cr_flags r) \<and> th_payload_kind h \<noteq> rescue_disk)"
    unfolding check_chunk_record_def Let_def
    by (auto split: if_split_asm option.split_asm del: mod_0_imp_dvd)
  then show "all_zero (slice b 38 2)" "serialized_evidence_valid b r" by blast+
  note l = checked_add_SomeD(1) [OF le] and s = checked_add_SomeD(1) [OF se]
  show "unat l = logical_end r" "unat s = stored_end r" by (simp_all add: l s logical_end_def stored_end_def)
  show "index_record_ok h encrypted i (unat p) (unat x) r"
    using rest l s unfolding index_record_ok_def i
    by (auto simp: word_less_nat_alt not_less unat_gt_0 del: mod_0_imp_dvd)
qed

lemma check_chunk_record_complete:
  assumes "all_zero (slice b 38 2)" "serialized_evidence_valid b r"
    "index_record_ok h encrypted i (unat p) (unat x) r" "i < 2 ^ 64"
  obtains l s where "check_chunk_record h encrypted b (of_nat i) p x r = Inr (l, s)"
    "unat l = logical_end r" "unat s = stored_end r"
proof -
  have i: "(of_nat i :: u64) \<noteq> 0 \<longleftrightarrow> i \<noteq> 0" using assms(4) unat_of_nat_u64 [of i] by (metis unat_eq_zero of_nat_0)
  note ok = assms(3) [unfolded index_record_ok_def]
  have le: "checked_add (cr_logical_offset r) (cr_logical_length r) = Some (cr_logical_offset r + cr_logical_length r)"
    using ok unat_u64_bound [of "th_source_disk_size h"] by (intro checked_add_unat) auto
  have se: "checked_add (cr_stored_offset r) (cr_stored_length r) = Some (cr_stored_offset r + cr_stored_length r)"
    using ok unat_u64_bound [of "is_offset (th_footer h)"] by (intro checked_add_unat) auto
  note l = checked_add_SomeD(1) [OF le] and s = checked_add_SomeD(1) [OF se]
  have "\<not> cr_logical_length r > ucast (th_chunk_size h)" "cr_logical_length r \<noteq> 0"
    "\<not> cr_logical_offset r + cr_logical_length r > th_source_disk_size h"
    "\<not> (i \<noteq> 0 \<and> cr_logical_offset r < p)" "cr_stored_offset r = x"
    "\<not> cr_stored_offset r + cr_stored_length r > is_offset (th_footer h)"
    "\<not> (\<not> chunk_is_zero (cr_flags r) \<and> cr_stored_length r = 0)"
    using ok l s by (auto simp: word_less_nat_alt intro: word_unat_eq_iff [THEN iffD2])
  then have "check_chunk_record h encrypted b (of_nat i) p x r =
      Inr (cr_logical_offset r + cr_logical_length r, cr_stored_offset r + cr_stored_length r)"
    using ok assms(1,2) unfolding check_chunk_record_def Let_def le se option.case i
    by (simp cong: conj_cong)
  then show ?thesis using that l s by (simp add: logical_end_def stored_end_def)
qed

lemma word_of_nat_Suc: "(of_nat i :: u64) + 1 = of_nat (Suc i)"
  by simp

section \<open>The chain of the records\<close>

fun records_ok :: "tsumugi_header \<Rightarrow> bool \<Rightarrow> nat \<Rightarrow> nat \<Rightarrow> nat \<Rightarrow> chunk_record list \<Rightarrow> nat \<Rightarrow> bool" where
  "records_ok h encrypted i previous_end expected [] final \<longleftrightarrow> expected = final"
| "records_ok h encrypted i previous_end expected (r # rs) final \<longleftrightarrow>
     index_record_ok h encrypted i previous_end expected r \<and>
     records_ok h encrypted (Suc i) (logical_end r) (stored_end r) rs final"

abbreviation evidence_map :: "tsumugi_header \<Rightarrow> bool" where
  "evidence_map h \<equiv> th_required_features h AND kFeatureRescueReadEvidence \<noteq> 0"

lemma read_chunk_record_consistent:
  "length b = 112 \<Longrightarrow> chunk_arrays (read_chunk_record b ev)"
  "serialized_evidence_valid b (read_chunk_record b ev) \<Longrightarrow> evidence_consistent ev (read_chunk_record b ev)"
  by (auto simp: chunk_arrays_def read_chunk_record_def evidence_consistent_def serialized_evidence_valid_def Let_def)

lemma parse_chunk_records_sound:
  "parse_chunk_records h encrypted md n (of_nat i) off p x = Inr (rs, f) \<Longrightarrow> i + n < 2 ^ 64 \<Longrightarrow>
   off + 112 * n \<le> length md \<Longrightarrow>
   length rs = n \<and> records_ok h encrypted i (unat p) (unat x) rs (unat f) \<and>
   (\<forall>r \<in> set rs. chunk_arrays r \<and> evidence_consistent (evidence_map h) r)"
proof (induction n arbitrary: i off p x rs)
  case (Suc n)
  let ?b = "slice md off 112"
  let ?r = "read_chunk_record ?b (evidence_map h)"
  from Suc.prems(1) obtain l s rs' where c: "check_chunk_record h encrypted ?b (of_nat i) p x ?r = Inr (l, s)"
    and rest: "parse_chunk_records h encrypted md n (of_nat i + 1) (off + 112) l s = Inr (rs', f)"
    and rs: "rs = ?r # rs'"
    by (auto simp: Let_def split: sum.split_asm prod.split_asm)
  have "i < 2 ^ 64" using Suc.prems(2) by simp
  note ok = check_chunk_record_sound [OF c this]
  have "parse_chunk_records h encrypted md n (of_nat (Suc i)) (off + 112) l s = Inr (rs', f)"
    using rest by (simp add: word_of_nat_Suc)
  from Suc.IH [OF this] Suc.prems(2,3) have "length rs' = n"
    "records_ok h encrypted (Suc i) (unat l) (unat s) rs' (unat f)"
    "\<forall>r \<in> set rs'. chunk_arrays r \<and> evidence_consistent (evidence_map h) r" by auto
  moreover have "length ?b = 112" using Suc.prems(3) by simp
  ultimately show ?case using ok read_chunk_record_consistent [of ?b "evidence_map h"] by (simp add: rs)
qed auto

lemma parse_chunk_records_complete:
  "records_ok h encrypted i (unat p) (unat x) rs final \<Longrightarrow> i + length rs < 2 ^ 64 \<Longrightarrow>
   (\<forall>r \<in> set rs. chunk_arrays r \<and> evidence_consistent (evidence_map h) r) \<Longrightarrow>
   (\<And>k. k < length rs \<Longrightarrow> slice md (off + 112 * k) 112 = record_bytes (rs ! k)) \<Longrightarrow>
   \<exists>f. parse_chunk_records h encrypted md (length rs) (of_nat i) off p x = Inr (rs, f) \<and> unat f = final"
proof (induction rs arbitrary: i off p x)
  case (Cons r rs)
  have b: "slice md off 112 = record_bytes r" using Cons.prems(4) [of 0] by simp
  have r: "chunk_arrays r" "evidence_consistent (evidence_map h) r" using Cons.prems(3) by simp_all
  note read = read_record_bytes [OF r]
  have "index_record_ok h encrypted i (unat p) (unat x) r" "i < 2 ^ 64" using Cons.prems(1,2) by simp_all
  from check_chunk_record_complete [OF read(3,2) this] obtain l s where
    c: "check_chunk_record h encrypted (record_bytes r) (of_nat i) p x r = Inr (l, s)"
      "unat l = logical_end r" "unat s = stored_end r" by blast
  have "slice md (off + 112 + 112 * k) 112 = record_bytes (rs ! k)" if "k < length rs" for k
    using Cons.prems(4) [of "Suc k"] that by (simp add: algebra_simps)
  from Cons.IH [OF _ _ _ this, of "Suc i" l s] Cons.prems(1,2,3) c(2,3)
  obtain f where "parse_chunk_records h encrypted md (length rs) (of_nat (Suc i)) (off + 112) l s = Inr (rs, f)"
    "unat f = final" by auto
  then show ?case using c(1) b read(1) by (simp add: Let_def word_of_nat_Suc del: of_nat_Suc)
qed simp

section \<open>The metadata and the sections\<close>

definition features_match :: "tsumugi_header \<Rightarrow> chunk_record list \<Rightarrow> bool" where
  "features_match h rs \<longleftrightarrow>
     (th_required_features h AND kFeatureUnreadableMap \<noteq> 0) = list_ex (\<lambda>r. chunk_is_unreadable (cr_flags r)) rs \<and>
     evidence_map h = list_ex (\<lambda>r. cr_rescue_read_evidence r \<noteq> None) rs"

lemma parse_metadata_sound:
  assumes "parse_metadata md h encrypted = Inr (m, rs)"
  shows "m \<noteq> []" "length rs = unat (th_chunk_count h)" "features_match h rs"
    "records_ok h encrypted 0 0 (unat (is_offset (th_data h))) rs (unat (is_offset (th_footer h)))"
    "\<forall>r \<in> set rs. chunk_arrays r \<and> evidence_consistent (evidence_map h) r"
proof -
  let ?m = "read_little md 16 :: u64" and ?n = "read_little md 24 :: u64"
  from assms obtain k l e where mul: "checked_multiply ?n (ucast kTsumugiChunkRecordSize) = Some k"
    and a1: "checked_add (ucast kTsumugiMetadataHeaderSize) ?m = Some l" and a2: "checked_add l k = Some e"
    and len: "unat e = length md" and m0: "?m \<noteq> 0" and n: "?n = th_chunk_count h"
    and recs: "parse_chunk_records h encrypted md (unat ?n) 0 (32 + unat ?m) 0 (is_offset (th_data h)) =
      Inr (rs, is_offset (th_footer h))" and match: "features_match h rs"
    and m: "m = slice md 32 (unat ?m)"
    unfolding parse_metadata_def Let_def features_match_def
    by (auto split: if_split_asm option.split_asm sum.split_asm prod.split_asm)
  have "unat k = unat ?n * 112" "unat l = 32 + unat ?m" "unat e = unat l + unat k"
    using checked_multiply_SomeD(1) [OF mul] checked_add_SomeD(1) [OF a1] checked_add_SomeD(1) [OF a2]
    by simp_all
  with len have size: "32 + unat ?m + 112 * unat ?n = length md" by simp
  have "0 + unat ?n < 2 ^ 64" "(32 + unat ?m) + 112 * unat ?n \<le> length md"
    using unat_u64_bound [of ?n] size by simp_all
  from parse_chunk_records_sound [of h encrypted md "unat ?n" 0 "32 + unat ?m" 0 "is_offset (th_data h)" rs, OF _ this]
    recs n
  show "length rs = unat (th_chunk_count h)"
    "records_ok h encrypted 0 0 (unat (is_offset (th_data h))) rs (unat (is_offset (th_footer h)))"
    "\<forall>r \<in> set rs. chunk_arrays r \<and> evidence_consistent (evidence_map h) r" by auto
  have "length m = unat ?m" using size by (simp add: m)
  then show "m \<noteq> []" using m0 by (auto simp: unat_eq_zero)
  show "features_match h rs" by (rule match)
qed

lemma slice_append2: "length xs \<le> off \<Longrightarrow> slice (xs @ ys) off n = slice ys (off - length xs) n"
  by (simp add: slice_def)

lemma slice_record_list:
  "k < length rs \<Longrightarrow> slice (concat (map record_bytes rs)) (112 * k) 112 = record_bytes (rs ! k)"
proof (induction rs arbitrary: k)
  case (Cons r rs)
  show ?case
  proof (cases k)
    case 0
    then show ?thesis by (simp add: slice_def)
  next
    case (Suc j)
    then show ?thesis using Cons by (simp add: slice_append2)
  qed
qed simp

lemma parse_metadata_complete:
  assumes m: "m \<noteq> []" "length m \<le> kTsumugiMaximumManifestBytes"
    and n: "length rs \<le> kTsumugiMaximumChunkCount" "th_chunk_count h = of_nat (length rs)"
    and ok: "records_ok h encrypted 0 0 (unat (is_offset (th_data h))) rs (unat (is_offset (th_footer h)))"
    and arrays: "\<forall>r \<in> set rs. chunk_arrays r \<and> evidence_consistent (evidence_map h) r"
    and match: "features_match h rs"
  shows "parse_metadata (metadata_bytes m rs) h encrypted = Inr (m, rs)"
proof -
  let ?md = "metadata_bytes m rs"
  have um: "unat (of_nat (length m) :: u64) = length m" and un: "unat (of_nat (length rs) :: u64) = length rs"
    using m(2) n(1) by (simp_all add: unat_of_nat_u64)
  have fields: "take 8 ?md = kMetadataMagic" "read_little ?md 8 = kTsumugiMajorVersion"
    "read_little ?md 10 = kTsumugiMinorVersion" "read_little ?md 12 = kTsumugiMetadataHeaderSize"
    "read_little ?md 16 = (of_nat (length m) :: u64)" "read_little ?md 24 = (of_nat (length rs) :: u64)"
    using metadata_head_fields [of "length m" "length rs"]
    by (simp_all add: metadata_bytes_def read_little_append1 slice_def)
  obtain k where k: "checked_multiply (of_nat (length rs)) (ucast kTsumugiChunkRecordSize) = Some k"
    "unat k = length rs * 112"
    using un n(1) checked_multiply_unat [of "of_nat (length rs)" "ucast kTsumugiChunkRecordSize"]
      checked_multiply_SomeD(1) [of "of_nat (length rs)" "ucast kTsumugiChunkRecordSize"] by fastforce
  obtain l where l: "checked_add (ucast kTsumugiMetadataHeaderSize) (of_nat (length m)) = Some l"
    "unat l = 32 + length m"
    using um m(2) checked_add_unat [of "ucast kTsumugiMetadataHeaderSize" "of_nat (length m)"]
      checked_add_SomeD(1) [of "ucast kTsumugiMetadataHeaderSize" "of_nat (length m)"] by fastforce
  obtain e where e: "checked_add l k = Some e" "unat e = length ?md"
    using k l n(1) m(2) checked_add_unat [of l k] checked_add_SomeD(1) [of l k]
    by (fastforce simp: length_metadata_bytes)
  have slices: "slice ?md (32 + length m + 112 * i) 112 = record_bytes (rs ! i)" if "i < length rs" for i
    using slice_record_list [OF that]
    by (simp add: metadata_bytes_def slice_append2 del: append_assoc flip: append_assoc)
  have "0 + length rs < 2 ^ 64" using n(1) by simp
  then obtain f where f: "parse_chunk_records h encrypted ?md (length rs) 0 (32 + length m) 0 (is_offset (th_data h)) = Inr (rs, f)"
    "unat f = unat (is_offset (th_footer h))"
    using parse_chunk_records_complete [of h encrypted 0 0 "is_offset (th_data h)" rs _ ?md "32 + length m", OF _ _ arrays slices]
      ok by auto
  then have "f = is_offset (th_footer h)" by (simp add: word_unat_eq_iff)
  moreover have "(of_nat (length m) :: u64) \<noteq> 0" using m(1) um by (metis length_0_conv unat_0)
  moreover have "slice ?md 32 (length m) = m" by (simp add: metadata_bytes_def slice_def)
  moreover have "\<not> length ?md < 32" by (simp add: length_metadata_bytes)
  ultimately show ?thesis
    using match m(2) n f(1) k(1) l(1) e um un
    unfolding parse_metadata_def features_match_def fields Let_def
    by simp
qed

lemma validate_sections_iff:
  "validate_sections h n = Inr u \<longleftrightarrow>
     is_offset (th_metadata h) = 512 \<and> 32 \<le> unat (is_length (th_metadata h)) \<and>
     unat (is_length (th_metadata h)) \<le> kTsumugiMaximumMetadataBytes \<and>
     unat (is_offset (th_data h)) = 512 + unat (is_length (th_metadata h)) \<and>
     unat (is_offset (th_footer h)) = unat (is_offset (th_data h)) + unat (is_length (th_data h)) \<and>
     is_length (th_footer h) = 64 \<and> unat (is_offset (th_footer h)) + 64 = n \<and> n < 2 ^ 64"
  (is "?l \<longleftrightarrow> ?r")
proof
  assume ?l
  then obtain a b c where
    "checked_add (is_offset (th_metadata h)) (is_length (th_metadata h)) = Some a" "a = is_offset (th_data h)"
    "checked_add (is_offset (th_data h)) (is_length (th_data h)) = Some b" "b = is_offset (th_footer h)"
    "checked_add (is_offset (th_footer h)) (is_length (th_footer h)) = Some c" "unat c = n"
    "is_offset (th_metadata h) = 512" "is_length (th_footer h) = 64" "\<not> is_length (th_metadata h) < 32"
    "unat (is_length (th_metadata h)) \<le> kTsumugiMaximumMetadataBytes"
    by (auto simp: validate_sections_def split: if_split_asm option.split_asm)
  then show ?r
    using checked_add_SomeD(1,2) [of "is_offset (th_metadata h)" "is_length (th_metadata h)"]
      checked_add_SomeD(1,2) [of "is_offset (th_data h)" "is_length (th_data h)"]
      checked_add_SomeD(1,2) [of "is_offset (th_footer h)" "is_length (th_footer h)"]
    by (simp add: word_less_nat_alt)
next
  assume r: ?r
  have 1: "checked_add (is_offset (th_metadata h)) (is_length (th_metadata h)) = Some (is_offset (th_data h))"
    using r by (auto simp: checked_add_Some_iff word_unat_eq_iff unat_add_u64)
  have 2: "checked_add (is_offset (th_data h)) (is_length (th_data h)) = Some (is_offset (th_footer h))"
    using r unat_u64_bound [of "is_offset (th_footer h)"] by (auto simp: checked_add_Some_iff word_unat_eq_iff unat_add_u64)
  have 3: "checked_add (is_offset (th_footer h)) (is_length (th_footer h)) = Some (is_offset (th_footer h) + is_length (th_footer h))"
    using r by (intro checked_add_unat) simp
  have "unat (is_offset (th_footer h) + is_length (th_footer h)) = n" using checked_add_SomeD(1) [OF 3] r by simp
  then show ?l using r 1 2 3 by (simp add: validate_sections_def word_less_nat_alt)
qed

end
