(* ===== verification/TsumugiCorrect.thy ===== *)
theory TsumugiCorrect
  imports TsumugiRecords
begin

text \<open>
  Building and inspecting an image, over services that do what their libraries document: what a stored
  chunk is, that it opens again, and what an inspection has checked.
\<close>

locale image_platform =
  fixes sv :: "'s image_services" and H :: "byte list \<Rightarrow> byte list" and absorbed :: "'s \<Rightarrow> nat \<Rightarrow> byte list"
    and key_of :: "'s \<Rightarrow> nat \<Rightarrow> byte list" and E :: gcm and params_of :: "'s \<Rightarrow> nat \<Rightarrow> (nat \<times> int) list"
  assumes hashing: "hashing_service (sv_cng sv) H absorbed"
    and aes: "aes_service (sv_aes sv) key_of E"
    and zstd: "zstd_service (sv_zstd sv) params_of"
    and key_length: "\<And>t m p pw salt. length (snd (sv_argon2 sv t m p pw salt)) = 32"

lemma derived_key_length:
  assumes "image_platform sv H absorbed key_of E params_of"
    "derive_tsumugi_key_argon2id (sv_argon2 sv) pw parameters = Inr key"
  shows "length key = 32"
proof -
  have "key = snd (sv_argon2 sv (ar_iterations parameters) (ar_memory_kib parameters) (ar_parallelism parameters)
      pw (ar_salt parameters))"
    using assms(2) by (auto simp: derive_tsumugi_key_argon2id_def split: if_split_asm prod.split_asm)
  then show ?thesis using image_platform.key_length [OF assms(1)] by simp
qed

section \<open>The request\<close>

definition build_chunk_ok :: "build_request \<Rightarrow> nat \<Rightarrow> nat \<Rightarrow> build_chunk \<Rightarrow> bool" where
  "build_chunk_ok q i previous_end c \<longleftrightarrow>
     valid_chunk_flags (bc_flags c) \<and> 0 < unat (bc_logical_length c) \<and>
     unat (bc_logical_length c) \<le> unat (br_chunk_size q) \<and>
     (br_payload_kind q \<noteq> shrink_disk \<longrightarrow>
       bc_logical_offset c mod ucast (br_logical_sector_size q) = 0 \<and>
       bc_logical_length c mod ucast (br_logical_sector_size q) = 0) \<and>
     unat (bc_logical_offset c) + unat (bc_logical_length c) \<le> unat (br_source_disk_size q) \<and>
     (i \<noteq> 0 \<longrightarrow> previous_end \<le> unat (bc_logical_offset c)) \<and>
     (if chunk_is_zero (bc_flags c) then bc_data c = [] else length (bc_data c) = unat (bc_logical_length c)) \<and>
     (chunk_is_unreadable (bc_flags c) \<longrightarrow> br_payload_kind q = rescue_disk) \<and>
     (bc_rescue_read_evidence c \<noteq> None \<longleftrightarrow> chunk_is_unreadable (bc_flags c)) \<and>
     (\<forall>e. bc_rescue_read_evidence c = Some e \<longrightarrow> valid_rescue_read_evidence e)"

fun build_chunks_ok :: "build_request \<Rightarrow> nat \<Rightarrow> nat \<Rightarrow> build_chunk list \<Rightarrow> bool" where
  "build_chunks_ok q i previous_end [] = True"
| "build_chunks_ok q i previous_end (c # cs) \<longleftrightarrow>
     build_chunk_ok q i previous_end c \<and>
     build_chunks_ok q (Suc i) (unat (bc_logical_offset c) + unat (bc_logical_length c)) cs"

lemma check_build_chunks_sound:
  "check_build_chunks q p (i = 0) cs = Inr u \<Longrightarrow> build_chunks_ok q i (unat p) cs"
proof (induction cs arbitrary: p i)
  case (Cons c cs)
  from Cons.prems obtain l where l: "checked_add (bc_logical_offset c) (bc_logical_length c) = Some l"
    and rest: "check_build_chunks q l False cs = Inr u"
    and ok: "valid_chunk_flags (bc_flags c)" "bc_logical_length c \<noteq> 0"
      "\<not> bc_logical_length c > ucast (br_chunk_size q)"
      "br_payload_kind q = shrink_disk \<or> bc_logical_offset c mod ucast (br_logical_sector_size q) = 0 \<and>
       bc_logical_length c mod ucast (br_logical_sector_size q) = 0"
      "\<not> l > br_source_disk_size q" "\<not> (i \<noteq> 0 \<and> bc_logical_offset c < p)"
      "\<not> (chunk_is_zero (bc_flags c) \<and> bc_data c \<noteq> [])"
      "\<not> (\<not> chunk_is_zero (bc_flags c) \<and> length (bc_data c) \<noteq> unat (bc_logical_length c))"
      "\<not> (chunk_is_unreadable (bc_flags c) \<and> br_payload_kind q \<noteq> rescue_disk)"
      "(bc_rescue_read_evidence c \<noteq> None) = chunk_is_unreadable (bc_flags c)"
      "\<not> (case bc_rescue_read_evidence c of None \<Rightarrow> False | Some e \<Rightarrow> \<not> valid_rescue_read_evidence e)"
    by (auto simp: Let_def split: if_split_asm option.split_asm del: mod_0_imp_dvd)
  have "build_chunks_ok q (Suc i) (unat l) cs" using Cons.IH [of l "Suc i"] rest by simp
  moreover have "build_chunk_ok q i (unat p) c"
    using ok checked_add_SomeD(1) [OF l] unfolding build_chunk_ok_def
    by (auto simp: word_less_nat_alt not_less unat_gt_0 del: mod_0_imp_dvd)
  ultimately show ?case using checked_add_SomeD(1) [OF l] by simp
qed simp

text \<open>The arrays of a request have their lengths.\<close>

definition build_arrays :: "build_request \<Rightarrow> bool" where
  "build_arrays q \<longleftrightarrow> length (br_image_id q) = 16 \<and>
     (\<forall>e. br_encryption q = Some e \<longrightarrow> length (ar_salt (es_argon2 e)) = 16 \<and> length (es_base_nonce e) = 12)"

lemma validate_build_request_sound:
  assumes "validate_build_request q = Inr u"
  shows "valid_payload_kind (br_payload_kind q)" "br_source_disk_size q \<noteq> 0"
    "is_supported_sector_size_pair (br_logical_sector_size q) (br_physical_sector_size q)"
    "br_source_disk_size q mod ucast (br_logical_sector_size q) = 0"
    "valid_chunk_size (br_chunk_size q)" "valid_compression (br_compression q)"
    "br_manifest q \<noteq> []" "length (br_manifest q) \<le> kTsumugiMaximumManifestBytes"
    "length (br_chunks q) \<le> kTsumugiMaximumChunkCount" "\<not> all_zero (br_image_id q)"
    "\<And>e. br_encryption q = Some e \<Longrightarrow> check_encryption e = success_status"
    "build_chunks_ok q 0 0 (br_chunks q)"
proof -
  note def = assms [unfolded validate_build_request_def]
  show "valid_payload_kind (br_payload_kind q)" "br_source_disk_size q \<noteq> 0"
    "is_supported_sector_size_pair (br_logical_sector_size q) (br_physical_sector_size q)"
    "br_source_disk_size q mod ucast (br_logical_sector_size q) = 0"
    "valid_chunk_size (br_chunk_size q)" "valid_compression (br_compression q)"
    "br_manifest q \<noteq> []" "length (br_manifest q) \<le> kTsumugiMaximumManifestBytes"
    "length (br_chunks q) \<le> kTsumugiMaximumChunkCount" "\<not> all_zero (br_image_id q)"
    using def by (simp_all split: if_split_asm)
  show "check_encryption e = success_status" if "br_encryption q = Some e" for e
    using def that by (simp split: if_split_asm sum.split_asm)
  have "check_build_chunks q 0 True (br_chunks q) = Inr u"
    using def by (simp split: if_split_asm sum.split_asm)
  then show "build_chunks_ok q 0 0 (br_chunks q)" using check_build_chunks_sound [of q 0 0] by simp
qed

section \<open>A stored chunk\<close>

definition compressed_as :: "'s zstd_api \<Rightarrow> byte list \<Rightarrow> u16 \<Rightarrow> byte list \<Rightarrow> bool" where
  "compressed_as z bytes compression clear \<longleftrightarrow>
     compression = compression_none \<and> clear = bytes \<or>
     compression = compression_zstandard \<and> zstd_frame z clear bytes \<and> length clear < length bytes"

definition encrypted_as ::
  "gcm \<Rightarrow> byte list \<Rightarrow> (byte list \<times> byte list) option \<Rightarrow> nat \<Rightarrow> byte list \<Rightarrow> chunk_record \<Rightarrow> byte list \<Rightarrow> bool" where
  "encrypted_as E image_id crypt i clear r stored \<longleftrightarrow>
     (case crypt of
        None \<Rightarrow> stored = clear \<and> cr_nonce_counter r = 0 \<and> cr_authentication_tag r = replicate 16 0
      | Some (key, base_nonce) \<Rightarrow>
        cr_nonce_counter r = of_nat i + 1 \<and>
        (\<exists>nonce. nonce_for_counter base_nonce (of_nat i + 1) = Inr nonce \<and>
          E key nonce (build_chunk_aad image_id (of_nat i) r) clear = (stored, cr_authentication_tag r)))"

definition chunk_stored ::
  "'s zstd_api \<Rightarrow> (byte list \<Rightarrow> byte list) \<Rightarrow> gcm \<Rightarrow> byte list \<Rightarrow> (byte list \<times> byte list) option \<Rightarrow> nat \<Rightarrow>
   build_chunk \<Rightarrow> chunk_record \<Rightarrow> byte list \<Rightarrow> bool" where
  "chunk_stored z H E image_id crypt i c r stored \<longleftrightarrow>
     cr_logical_offset r = bc_logical_offset c \<and> cr_logical_length r = bc_logical_length c \<and>
     cr_flags r = bc_flags c \<and> cr_rescue_read_evidence r = bc_rescue_read_evidence c \<and>
     chunk_arrays r \<and> cr_stored_length r = of_nat (length stored) \<and>
     (if chunk_is_zero (bc_flags c)
      then stored = [] \<and> cr_compression r = compression_none \<and> cr_nonce_counter r = 0 \<and>
        cr_authentication_tag r = replicate 16 0 \<and>
        cr_plaintext_hash r = H (replicate (unat (bc_logical_length c)) 0)
      else cr_plaintext_hash r = H (bc_data c) \<and>
        (\<exists>clear. compressed_as z (bc_data c) (cr_compression r) clear \<and>
          length clear = length stored \<and> encrypted_as E image_id crypt i clear r stored))"

lemma compressed_as_length:
  "compressed_as z bytes compression clear \<Longrightarrow> length clear \<le> length bytes"
  "compressed_as z bytes compression clear \<Longrightarrow> bytes \<noteq> [] \<Longrightarrow> clear \<noteq> []"
  by (auto simp: compressed_as_def zstd_frame_def)

lemma aad_ignores [simp]:
  "build_chunk_aad image_id i (r\<lparr>cr_authentication_tag := tag\<rparr>) = build_chunk_aad image_id i r"
  "build_chunk_aad image_id i (r\<lparr>cr_nonce_counter := n\<rparr>) = build_chunk_aad image_id i r"
  by (simp_all add: build_chunk_aad_def)

lemma length_build_chunk_aad [simp]: "length (build_chunk_aad image_id i r) = 64"
  by (simp add: build_chunk_aad_def Let_def)

definition crypt_ok :: "(byte list \<times> byte list) option \<Rightarrow> bool" where
  "crypt_ok crypt \<longleftrightarrow> (\<forall>key base. crypt = Some (key, base) \<longrightarrow> length key = 32)"

context image_platform
begin

lemma hash_run: "image_sha256 (sv_cng sv) bytes s = (Inr d, t) \<Longrightarrow> d = H bytes"
  "sha256_zeroes (sv_cng sv) n s = (Inr d, t) \<Longrightarrow> d = H (replicate (unat n) 0)"
  using image_hashes(1) [OF hashing, of bytes s] image_hashes(2) [OF hashing, of n s] by auto

lemma hash_length: "length (H bytes) = 32"
  using hashing by (simp add: hashing_service_def)

lemma compress_chunk_run:
  assumes "bytes \<noteq> []" "length bytes \<le> unat kImageChunkSize32MiB"
  shows "\<exists>clear compression t. compress_chunk sv c bytes s = (Inr (clear, compression), t) \<and>
    compressed_as (sv_zstd sv) bytes compression clear"
proof (cases "c = compression_zstandard")
  case True
  obtain frame t where "compress_zstandard_image_chunk_v1 (sv_zstd sv) bytes s = (Inr frame, t)"
    "zstd_frame (sv_zstd sv) frame bytes" using compress_works [OF zstd assms] by blast
  then show ?thesis
    using True by (auto simp: compress_chunk_def bindE_def returnE_def compressed_as_def)
qed (simp add: compress_chunk_def returnE_def compressed_as_def)

lemma encrypt_chunk_run:
  assumes crypt: "crypt_ok crypt" and len: "length clear \<le> unat kImageChunkSize32MiB"
    and plain: "cr_nonce_counter r = 0" "cr_authentication_tag r = replicate 16 0"
    and nonce: "\<And>key base. crypt = Some (key, base) \<Longrightarrow> \<exists>n. nonce_for_counter base (of_nat i + 1) = Inr n"
  shows "\<exists>n tag stored t. encrypt_chunk sv image_id crypt i r clear s =
      (Inr (r\<lparr>cr_nonce_counter := n, cr_authentication_tag := tag\<rparr>, stored), t) \<and> length tag = 16 \<and>
    length stored = length clear \<and>
    encrypted_as E image_id crypt i clear (r\<lparr>cr_nonce_counter := n, cr_authentication_tag := tag\<rparr>) stored"
proof (cases crypt)
  case None
  have "r\<lparr>cr_nonce_counter := 0, cr_authentication_tag := replicate 16 0\<rparr> = r" using plain by simp
  then show ?thesis
    using None plain by - (rule exI [of _ 0], rule exI [of _ "replicate 16 0"], rule exI [of _ clear], rule exI [of _ s],
        simp add: encrypt_chunk_def encrypted_as_def returnE_def)
next
  case (Some kb)
  obtain key base where kb: "kb = (key, base)" by (cases kb)
  obtain n where n: "nonce_for_counter base (of_nat i + 1) = Inr n" using nonce Some kb by blast
  have key: "length key = 32" using crypt Some kb by (simp add: crypt_ok_def)
  let ?e = "E key n (build_chunk_aad image_id (of_nat i) r) clear"
  obtain t where t: "encrypt_tsumugi_aes256_gcm (sv_aes sv) key n (build_chunk_aad image_id (of_nat i) r) clear s
      = (Inr \<lparr>en_ciphertext = fst ?e, en_tag = snd ?e\<rparr>, t)"
    using encrypt_works [OF aes key, of clear "build_chunk_aad image_id (of_nat i) r"] len by auto
  have scheme: "gcm_scheme E" using aes by (simp add: aes_service_def)
  show ?thesis
    using Some kb n t gcm_length [OF scheme]
    by - (rule exI [of _ "of_nat i + 1"], rule exI [of _ "snd ?e"], rule exI [of _ "fst ?e"], rule exI [of _ t],
        simp add: encrypt_chunk_def encrypted_as_def bindE_def returnE_def Let_def)
qed

lemma store_chunk_run:
  assumes crypt: "crypt_ok crypt" and ok: "build_chunk_ok q i p c" and size: "valid_chunk_size (br_chunk_size q)"
    and nonce: "\<And>key base. \<not> chunk_is_zero (bc_flags c) \<Longrightarrow> crypt = Some (key, base) \<Longrightarrow>
      \<exists>n. nonce_for_counter base (of_nat i + 1) = Inr n"
  shows "\<exists>r stored t. store_chunk sv q crypt i off c s = (Inr (r, stored), t) \<and> cr_stored_offset r = off \<and>
    chunk_stored (sv_zstd sv) H E (br_image_id q) crypt i c r stored"
proof (cases "chunk_is_zero (bc_flags c)")
  case True
  obtain t where "sha256_zeroes (sv_cng sv) (bc_logical_length c) s =
      (Inr (H (replicate (unat (bc_logical_length c)) 0)), t)"
    using image_hashes(2) [OF hashing] by blast
  then show ?thesis
    using True hash_length
    by (simp add: store_chunk_def Let_def bindE_def returnE_def chunk_stored_def chunk_arrays_def)
next
  case False
  let ?data = "bc_data c"
  have data: "?data \<noteq> []" "length ?data \<le> unat kImageChunkSize32MiB"
    using ok False size by (auto simp: build_chunk_ok_def valid_chunk_size_def)
  obtain u where h: "image_sha256 (sv_cng sv) ?data s = (Inr (H ?data), u)"
    using image_hashes(1) [OF hashing] by blast
  obtain clear compression v where z: "compress_chunk sv (br_compression q) ?data u = (Inr (clear, compression), v)"
    "compressed_as (sv_zstd sv) ?data compression clear"
    using compress_chunk_run [OF data] by blast
  note small = compressed_as_length(1) [OF z(2)]
  let ?r = "\<lparr>cr_logical_offset = bc_logical_offset c, cr_logical_length = bc_logical_length c,
    cr_stored_offset = off, cr_stored_length = of_nat (length clear), cr_flags = bc_flags c,
    cr_compression = compression, cr_nonce_counter = 0, cr_plaintext_hash = H ?data,
    cr_authentication_tag = replicate 16 0, cr_rescue_read_evidence = bc_rescue_read_evidence c\<rparr>"
  have short: "length clear \<le> unat kImageChunkSize32MiB" using small data(2) by simp
  have plain: "cr_nonce_counter ?r = 0" "cr_authentication_tag ?r = replicate 16 0" by simp_all
  obtain n tag stored t where
    e: "encrypt_chunk sv (br_image_id q) crypt i ?r clear v =
        (Inr (?r\<lparr>cr_nonce_counter := n, cr_authentication_tag := tag\<rparr>, stored), t)"
    and rest: "length tag = 16" "length stored = length clear"
      "encrypted_as E (br_image_id q) crypt i clear (?r\<lparr>cr_nonce_counter := n, cr_authentication_tag := tag\<rparr>) stored"
    using encrypt_chunk_run [where image_id = "br_image_id q" and s = v, OF crypt short plain] nonce [OF False]
    by blast
  then show ?thesis
    using False h z hash_length
    by (simp add: store_chunk_def Let_def bindE_def chunk_stored_def chunk_arrays_def) blast
qed

lemma store_chunk_nonce:
  assumes "store_chunk sv q crypt i off c s = (Inr x, t)" "\<not> chunk_is_zero (bc_flags c)" "crypt = Some (key, base)"
  shows "\<exists>n. nonce_for_counter base (of_nat i + 1) = Inr n"
  using assms by (auto simp: store_chunk_def Let_def encrypt_chunk_def bindE_eq_Inr) (rule exI, erule sym)

end

section \<open>The stored chunks\<close>

fun chunks_stored ::
  "'s zstd_api \<Rightarrow> (byte list \<Rightarrow> byte list) \<Rightarrow> gcm \<Rightarrow> byte list \<Rightarrow> (byte list \<times> byte list) option \<Rightarrow> nat \<Rightarrow> u64 \<Rightarrow>
   build_chunk list \<Rightarrow> chunk_record list \<Rightarrow> byte list list \<Rightarrow> bool" where
  "chunks_stored z H E image_id crypt i off [] [] [] = True"
| "chunks_stored z H E image_id crypt i off (c # cs) (r # rs) (b # bs) \<longleftrightarrow>
     chunk_stored z H E image_id crypt i c r b \<and> cr_stored_offset r = off \<and>
     chunks_stored z H E image_id crypt (Suc i) (off + of_nat (length b)) cs rs bs"
| "chunks_stored z H E image_id crypt i off _ _ _ = False"

lemma chunks_stored_lengths:
  "chunks_stored z H E image_id crypt i off cs rs bs \<Longrightarrow> length rs = length cs \<and> length bs = length cs"
  by (induction z H E image_id crypt i off cs rs bs rule: chunks_stored.induct) auto

context image_platform
begin

lemma store_chunks_success:
  assumes crypt: "crypt_ok crypt" and size: "valid_chunk_size (br_chunk_size q)"
  shows "build_chunks_ok q i p cs \<Longrightarrow>
    store_chunks sv q crypt start i records stored cs s = (Inr (records', stored'), t) \<Longrightarrow>
    \<exists>rs bs. records' = records @ rs \<and> stored' = stored @ concat bs \<and>
      chunks_stored (sv_zstd sv) H E (br_image_id q) crypt i (start + of_nat (length stored)) cs rs bs"
proof (induction cs arbitrary: i p records stored s)
  case Nil
  then show ?case by (intro exI [of _ "[]"]) simp
next
  case (Cons c cs)
  let ?off = "start + of_nat (length stored)"
  from Cons.prems(2) obtain r b u where step: "store_chunk sv q crypt i ?off c s = (Inr (r, b), u)"
    and rest: "store_chunks sv q crypt start (Suc i) (records @ [r]) (stored @ b) cs u = (Inr (records', stored'), t)"
    by (auto simp: bindE_eq_Inr split: prod.split_asm)
  have ok: "build_chunk_ok q i p c"
    and oks: "build_chunks_ok q (Suc i) (unat (bc_logical_offset c) + unat (bc_logical_length c)) cs"
    using Cons.prems(1) by simp_all
  have "chunk_stored (sv_zstd sv) H E (br_image_id q) crypt i c r b" "cr_stored_offset r = ?off"
    using store_chunk_run [OF crypt ok size, of ?off s] store_chunk_nonce [OF step] step by auto
  moreover obtain rs bs where "records' = records @ r # rs" "stored' = stored @ b @ concat bs"
    "chunks_stored (sv_zstd sv) H E (br_image_id q) crypt (Suc i) (?off + of_nat (length b)) cs rs bs"
    using Cons.IH [OF oks rest] by (auto simp: add.assoc)
  ultimately show ?case by (intro exI [of _ "r # rs"] exI [of _ "b # bs"]) simp
qed

lemma store_chunks_works:
  assumes crypt: "crypt_ok crypt" and size: "valid_chunk_size (br_chunk_size q)"
    and nonce: "\<And>key base j. crypt = Some (key, base) \<Longrightarrow> j < n \<Longrightarrow> \<exists>x. nonce_for_counter base (of_nat j + 1) = Inr x"
  shows "build_chunks_ok q i p cs \<Longrightarrow> i + length cs \<le> n \<Longrightarrow>
    \<exists>x t. store_chunks sv q crypt start i records stored cs s = (Inr x, t)"
proof (induction cs arbitrary: i p records stored s)
  case Nil
  then show ?case by (simp add: returnE_def)
next
  case (Cons c cs)
  let ?off = "start + of_nat (length stored)"
  have ok: "build_chunk_ok q i p c"
    and oks: "build_chunks_ok q (Suc i) (unat (bc_logical_offset c) + unat (bc_logical_length c)) cs"
    using Cons.prems(1) by simp_all
  obtain r b u where step: "store_chunk sv q crypt i ?off c s = (Inr (r, b), u)"
    using store_chunk_run [OF crypt ok size, of ?off s] nonce Cons.prems(2) by fastforce
  then show ?case
    using Cons.IH [OF oks, of "records @ [r]" "stored @ b" u] Cons.prems(2) by (simp add: bindE_def)
qed

end

section \<open>The records of stored chunks\<close>

text \<open>The fields of a header that the records are checked against.\<close>

definition header_of_request :: "build_request \<Rightarrow> tsumugi_header \<Rightarrow> bool" where
  "header_of_request q h \<longleftrightarrow>
     th_payload_kind h = br_payload_kind q \<and> th_chunk_size h = br_chunk_size q \<and>
     th_logical_sector_size h = br_logical_sector_size q \<and> th_source_disk_size h = br_source_disk_size q \<and>
     th_image_id h = br_image_id q"

lemma stored_length:
  assumes "chunk_stored z H E image_id crypt i c r b" "length b < 2 ^ 64"
  shows "unat (cr_stored_length r) = length b"
  using assms unat_of_nat_u64 by (simp add: chunk_stored_def)

lemma all_zero_replicate [simp]: "all_zero (replicate n 0)"
  by (simp add: all_zero_def list_all_iff)

lemma chunk_stored_record_ok:
  assumes st: "chunk_stored z H E image_id crypt i c r b" and ok: "build_chunk_ok q i p c"
    and h: "header_of_request q h" and len: "length b < 2 ^ 64"
    and fits: "unat (cr_stored_offset r) + length b \<le> unat (is_offset (th_footer h))"
  shows "index_record_ok h (crypt \<noteq> None) i p (unat (cr_stored_offset r)) r"
    "logical_end r = unat (bc_logical_offset c) + unat (bc_logical_length c)"
    "stored_end r = unat (cr_stored_offset r) + length b"
proof -
  note sl = stored_length [OF st len]
  note eqs = h [unfolded header_of_request_def] and st' = st [unfolded chunk_stored_def]
  show "logical_end r = unat (bc_logical_offset c) + unat (bc_logical_length c)"
    "stored_end r = unat (cr_stored_offset r) + length b"
    using st' sl by (simp_all add: logical_end_def stored_end_def)
  have zero: "cr_stored_length r = 0 \<and> cr_compression r = compression_none \<and> cr_nonce_counter r = 0 \<and>
      all_zero (cr_authentication_tag r)" if "chunk_is_zero (bc_flags c)"
    using st' that by simp
  have nonzero: "b \<noteq> [] \<and> valid_compression (cr_compression r) \<and>
      (crypt \<noteq> None \<longrightarrow> cr_nonce_counter r = of_nat i + 1) \<and>
      (crypt = None \<longrightarrow> cr_nonce_counter r = 0 \<and> all_zero (cr_authentication_tag r))"
    if nz: "\<not> chunk_is_zero (bc_flags c)"
  proof -
    obtain clear where clear: "compressed_as z (bc_data c) (cr_compression r) clear" "length clear = length b"
      "encrypted_as E image_id crypt i clear r b" using st' nz by auto
    have "bc_data c \<noteq> []" using ok nz by (auto simp: build_chunk_ok_def)
    then have "b \<noteq> []" using compressed_as_length(2) [OF clear(1)] clear(2) by auto
    moreover have "valid_compression (cr_compression r)"
      using clear(1) by (auto simp: compressed_as_def valid_compression_def)
    ultimately show ?thesis using clear(3) by (auto simp: encrypted_as_def split: option.split_asm)
  qed
  have compression: "valid_compression (cr_compression r)"
    using zero nonzero by (cases "chunk_is_zero (bc_flags c)") (auto simp: valid_compression_def)
  show "index_record_ok h (crypt \<noteq> None) i p (unat (cr_stored_offset r)) r"
    using ok st' zero nonzero compression eqs sl fits
    unfolding index_record_ok_def build_chunk_ok_def
    by (cases "chunk_is_zero (bc_flags c)"; cases "crypt = None") (simp_all del: mod_0_imp_dvd)
qed

lemma chunks_stored_records_ok:
  "chunks_stored z H E image_id crypt i off cs rs bs \<Longrightarrow> build_chunks_ok q i p cs \<Longrightarrow>
   header_of_request q h \<Longrightarrow> unat off + length (concat bs) \<le> unat (is_offset (th_footer h)) \<Longrightarrow>
   records_ok h (crypt \<noteq> None) i p (unat off) rs (unat off + length (concat bs))"
proof (induction z H E image_id crypt i off cs rs bs arbitrary: p rule: chunks_stored.induct)
  case (2 z H E image_id crypt i off c cs r rs b bs)
  have st: "chunk_stored z H E image_id crypt i c r b" and off: "cr_stored_offset r = off"
    and rest: "chunks_stored z H E image_id crypt (Suc i) (off + of_nat (length b)) cs rs bs"
    and ok: "build_chunk_ok q i p c"
    and oks: "build_chunks_ok q (Suc i) (unat (bc_logical_offset c) + unat (bc_logical_length c)) cs"
    using "2.prems"(1,2) by simp_all
  have bound: "unat off + length b + length (concat bs) < 2 ^ 64"
    using "2.prems"(4) unat_u64_bound [of "is_offset (th_footer h)"] by simp
  then have "unat off + unat (of_nat (length b) :: u64) < 2 ^ 64" by (simp add: unat_of_nat_u64)
  then have next_off: "unat (off + of_nat (length b)) = unat off + length b"
    using bound by (simp add: unat_add_u64 unat_of_nat_u64)
  have "length b < 2 ^ 64" "unat (cr_stored_offset r) + length b \<le> unat (is_offset (th_footer h))"
    using bound "2.prems"(4) off by simp_all
  note r = chunk_stored_record_ok [OF st ok "2.prems"(3) this]
  have "unat (off + of_nat (length b)) + length (concat bs) \<le> unat (is_offset (th_footer h))"
    using next_off "2.prems"(4) by simp
  from "2.IH" [OF rest oks "2.prems"(3) this] r off next_off show ?case by (simp add: add.assoc)
qed simp_all

context image_platform
begin

lemma inspect_stored_chunk:
  assumes st: "chunk_stored (sv_zstd sv) H E (th_image_id h) crypt i c r b" and ok: "build_chunk_ok q i p c"
    and size: "valid_chunk_size (br_chunk_size q)" and crypt: "crypt_ok crypt"
    and base: "\<And>key base. crypt = Some (key, base) \<Longrightarrow> th_base_nonce h = base"
    and len: "length b < 2 ^ 64" and img: "slice img (unat (cr_stored_offset r)) (length b) = b"
  shows "\<exists>t. inspect_chunk sv h (map_option fst crypt) img (of_nat i) r s =
    (Inr \<lparr>vc_record = r, vc_plaintext = bc_data c\<rparr>, t)"
proof (cases "chunk_is_zero (bc_flags c)")
  case True
  obtain t where "sha256_zeroes (sv_cng sv) (cr_logical_length r) s =
      (Inr (H (replicate (unat (cr_logical_length r)) 0)), t)"
    using image_hashes(2) [OF hashing] by blast
  moreover have "bc_data c = []" using ok True by (simp add: build_chunk_ok_def)
  ultimately show ?thesis
    using True st by (simp add: inspect_chunk_def bindE_def returnE_def chunk_stored_def)
next
  case False
  note st' = st [unfolded chunk_stored_def]
  obtain clear where clear: "compressed_as (sv_zstd sv) (bc_data c) (cr_compression r) clear"
    "length clear = length b" "encrypted_as E (th_image_id h) crypt i clear r b"
    using st' False by auto
  have data: "bc_data c \<noteq> []" "length (bc_data c) \<le> unat kImageChunkSize32MiB"
    "length (bc_data c) = unat (cr_logical_length r)"
    using ok False size st' by (auto simp: build_chunk_ok_def valid_chunk_size_def)
  have short: "length clear \<le> unat kImageChunkSize32MiB"
    using compressed_as_length(1) [OF clear(1)] data(2) by simp
  have "\<exists>u. decrypt_chunk sv h (map_option fst crypt) (of_nat i) r b s = (Inr clear, u)"
  proof (cases crypt)
    case None
    then show ?thesis using clear(3) by (simp add: decrypt_chunk_def encrypted_as_def returnE_def)
  next
    case (Some kb)
    obtain key nb where kb: "kb = (key, nb)" by (cases kb)
    then obtain n where n: "nonce_for_counter nb (of_nat i + 1) = Inr n" "cr_nonce_counter r = of_nat i + 1"
      "E key n (build_chunk_aad (th_image_id h) (of_nat i) r) clear = (b, cr_authentication_tag r)"
      using clear(3) Some by (auto simp: encrypted_as_def)
    have "length key = 32" using crypt Some kb by (simp add: crypt_ok_def)
    from decrypt_works [OF aes this _ _ n(3)] short obtain t where
      "decrypt_tsumugi_aes256_gcm (sv_aes sv) key n (build_chunk_aad (th_image_id h) (of_nat i) r) b
        (cr_authentication_tag r) s = (Inr clear, t)" by auto
    then show ?thesis using Some kb n base by (simp add: decrypt_chunk_def)
  qed
  then obtain u where u: "decrypt_chunk sv h (map_option fst crypt) (of_nat i) r b s = (Inr clear, u)" by blast
  have expand: "expand_chunk sv r clear = Inr (bc_data c)"
    using clear(1) data decompress_frame [OF zstd _ data(1,2)]
    by (auto simp: compressed_as_def expand_chunk_def)
  obtain t where "image_sha256 (sv_cng sv) (bc_data c) u = (Inr (H (bc_data c)), t)"
    using image_hashes(1) [OF hashing] by blast
  then show ?thesis
    using False st' u expand img stored_length [OF st len]
    by (simp add: inspect_chunk_def bindE_def returnE_def)
qed

end

end
