(* ===== verification/TsumugiRuns.thy ===== *)
theory TsumugiRuns
  imports TsumugiCorrect
begin

text \<open>
  A whole image: the header of a build request is accepted when it is read back, an image that was
  built is inspected to exactly what was put into it, and what every accepted image is worth.
\<close>

lemma of_result_eq_Inr: "of_result r s = (Inr x, t) \<longleftrightarrow> r = Inr x \<and> t = s"
  by auto

section \<open>The header of a request\<close>

lemma image_header_arrays:
  assumes "build_arrays q" "length tag = 16" "length hash = 32"
  shows "header_arrays ((image_header q m n)\<lparr>th_metadata_tag := tag, th_header_hash := hash\<rparr>)"
  using assms by (auto simp: header_arrays_def image_header_def build_arrays_def Let_def split: option.split)

lemma image_header_features:
  "th_required_features (image_header q m n) AND kFeatureEncrypted \<noteq> 0 \<longleftrightarrow> br_encryption q \<noteq> None"
  "th_required_features (image_header q m n) AND kFeatureUnreadableMap \<noteq> 0 \<longleftrightarrow>
     list_ex (\<lambda>c. chunk_is_unreadable (bc_flags c)) (br_chunks q)"
  "th_required_features (image_header q m n) AND kFeatureRescueReadEvidence \<noteq> 0 \<longleftrightarrow>
     list_ex (\<lambda>c. chunk_is_unreadable (bc_flags c)) (br_chunks q)"
  "th_required_features (image_header q m n) AND NOT kKnownRequiredFeatures = 0"
  by (simp_all add: image_header_def Let_def)

lemma header_of_image_header:
  "header_of_request q ((image_header q m n)\<lparr>th_metadata_tag := tag, th_header_hash := hash\<rparr>)"
  by (simp add: header_of_request_def image_header_def Let_def)

lemma unreadable_needs_rescue:
  "build_chunks_ok q i p cs \<Longrightarrow> c \<in> set cs \<Longrightarrow> chunk_is_unreadable (bc_flags c) \<Longrightarrow> br_payload_kind q = rescue_disk"
  by (induction cs arbitrary: i p) (auto simp: build_chunk_ok_def)

lemma image_header_supported:
  assumes "validate_build_request q = Inr u"
  shows "header_supported ((image_header q m n)\<lparr>th_metadata_tag := tag, th_header_hash := hash\<rparr>)"
proof -
  note v = validate_build_request_sound [OF assms]
  have count: "unat (of_nat (length (br_chunks q)) :: u64) \<le> kTsumugiMaximumChunkCount"
    using v(9) by (simp add: unat_of_nat_u64)
  have "list_ex (\<lambda>c. chunk_is_unreadable (bc_flags c)) (br_chunks q) \<Longrightarrow> br_payload_kind q = rescue_disk"
    using unreadable_needs_rescue [OF v(12)] by (auto simp: list_ex_iff)
  with v count image_header_features [of q m n] show ?thesis
    unfolding header_supported_def Let_def by (simp add: image_header_def Let_def)
qed

lemma image_header_crypt:
  assumes "validate_build_request q = Inr u"
    "th_metadata_tag h = replicate 16 0 \<or> br_encryption q \<noteq> None"
    "h = (image_header q m n)\<lparr>th_metadata_tag := tag, th_header_hash := hash\<rparr>"
  shows "check_crypt_fields h (if th_required_features h AND kFeatureEncrypted \<noteq> 0 then kArgon2idKdf else 0) = Inr ()"
proof (cases "br_encryption q")
  case None
  then have "th_required_features h AND kFeatureEncrypted = 0"
    using image_header_features(1) [of q m n] by (simp add: assms(3))
  then show ?thesis using None assms(2,3) by (simp add: check_crypt_fields_def image_header_def Let_def)
next
  case (Some e)
  then have "check_encryption e = success_status" using validate_build_request_sound(11) [OF assms(1)] by blast
  moreover have "th_required_features h AND kFeatureEncrypted \<noteq> 0"
    using Some image_header_features(1) [of q m n] by (simp add: assms(3))
  ultimately show ?thesis
    using Some assms(3)
    by (auto simp: check_crypt_fields_def check_encryption_def image_header_def Let_def split: if_split_asm)
qed

section \<open>Reading a written header\<close>

context image_platform
begin

lemma header_hash_run:
  "length b = 512 \<Longrightarrow> \<exists>t. calculate_header_hash sv b s = (Inr (H (overwrite b 188 (replicate 32 0))), t)"
  using image_hashes(1) [OF hashing] by (simp add: calculate_header_hash_def)

lemma parse_header_complete:
  assumes arrays: "header_arrays h" and version: "th_major_version h = 1" "th_minor_version h = 0"
    and ok: "header_supported h"
      "check_crypt_fields h (if th_required_features h AND kFeatureEncrypted \<noteq> 0 then kArgon2idKdf else 0) = Inr ()"
    and hash: "th_header_hash h = H (serialize_header (h\<lparr>th_header_hash := replicate 32 0\<rparr>))"
    and img: "take 512 img = serialize_header h" "576 \<le> length img"
  shows "\<exists>t. parse_tsumugi_header sv img s = (Inr h, t)"
proof -
  let ?b = "serialize_header h"
  note fixed = serialized_header_fixed [OF arrays]
  have magic: "take 8 ?b = kHeaderMagic" using fixed(1) by (simp add: slice_def)
  have rest: "all_zero (drop 220 ?b)" using fixed(8) by (simp add: slice_def)
  obtain t where "calculate_header_hash sv ?b s = (Inr (th_header_hash h), t)"
    using header_hash_run [of ?b s] canonical_serialize_header(2) [OF arrays] hash by auto
  then show ?thesis
    using magic rest fixed(2-7) version ok img read_serialize_header [OF arrays]
    by (simp add: parse_tsumugi_header_def Let_def bindE_def returnE_def)
qed

lemma parse_header_sound:
  assumes "parse_tsumugi_header sv img s = (Inr h, t)"
  shows "h = read_tsumugi_header (take 512 img)" "576 \<le> length img" "header_supported h"
    "check_crypt_fields h (read_little (take 512 img) 124) = Inr ()"
    "th_header_hash h = H (overwrite (take 512 img) 188 (replicate 32 0))"
proof -
  let ?b = "take 512 img"
  from assms obtain u calculated where h: "h = read_tsumugi_header ?b" "header_supported h"
    "check_crypt_fields h (read_little ?b 124) = Inr ()" "\<not> length img < 576"
    and c: "calculate_header_hash sv ?b s = (Inr calculated, u)" "calculated = th_header_hash h"
    by (auto simp: parse_tsumugi_header_def Let_def bindE_eq_Inr split: if_split_asm)
  then show "h = read_tsumugi_header ?b" "576 \<le> length img" "header_supported h"
    "check_crypt_fields h (read_little ?b 124) = Inr ()" by simp_all
  have "length ?b = 512" using h(4) by simp
  with c header_hash_run [OF this, of s] show "th_header_hash h = H (overwrite ?b 188 (replicate 32 0))" by auto
qed

end

section \<open>A built image\<close>

text \<open>The key and the base nonce with which a request is encrypted.\<close>

definition crypt_of :: "argon2_function \<Rightarrow> build_request \<Rightarrow> (byte list \<times> byte list) option \<Rightarrow> bool" where
  "crypt_of argon2 q crypt \<longleftrightarrow>
     (case br_encryption q of
        None \<Rightarrow> crypt = None
      | Some e \<Rightarrow> \<exists>key. derive_tsumugi_key_argon2id argon2 (es_password e) (es_argon2 e) = Inr key \<and>
          crypt = Some (key, es_base_nonce e))"

definition sealed_as :: "gcm \<Rightarrow> (byte list \<times> byte list) option \<Rightarrow> byte list \<Rightarrow> byte list \<Rightarrow> byte list \<Rightarrow> byte list \<Rightarrow> bool" where
  "sealed_as E crypt aad metadata stored tag \<longleftrightarrow>
     (case crypt of
        None \<Rightarrow> stored = metadata \<and> tag = replicate 16 0
      | Some (key, base) \<Rightarrow>
        \<exists>nonce. nonce_for_counter base 0 = Inr nonce \<and> E key nonce aad metadata = (stored, tag))"

definition image_of ::
  "'s image_services \<Rightarrow> (byte list \<Rightarrow> byte list) \<Rightarrow> gcm \<Rightarrow> build_request \<Rightarrow> (byte list \<times> byte list) option \<Rightarrow>
   chunk_record list \<Rightarrow> byte list list \<Rightarrow> tsumugi_header \<Rightarrow> byte list \<Rightarrow> byte list \<Rightarrow> bool" where
  "image_of sv H E q crypt rs bs h sealed img \<longleftrightarrow>
     (let metadata = metadata_bytes (br_manifest q) rs;
          stored = concat bs;
          front = serialize_header h @ sealed @ stored
      in length metadata \<le> kTsumugiMaximumMetadataBytes \<and> length sealed = length metadata \<and>
         crypt_of (sv_argon2 sv) q crypt \<and>
         chunks_stored (sv_zstd sv) H E (br_image_id q) crypt 0 (of_nat (512 + length metadata)) (br_chunks q) rs bs \<and>
         h = (image_header q (length metadata) (length stored))
           \<lparr>th_metadata_tag := th_metadata_tag h, th_header_hash := th_header_hash h\<rparr> \<and>
         length (th_metadata_tag h) = 16 \<and>
         sealed_as E crypt
           (serialize_header (h\<lparr>th_metadata_tag := replicate 16 0, th_header_hash := replicate 32 0\<rparr>))
           metadata sealed (th_metadata_tag h) \<and>
         th_header_hash h = H (serialize_header (h\<lparr>th_header_hash := replicate 32 0\<rparr>)) \<and>
         img = front @ build_footer (of_nat (length front + 64)) (H front) (br_image_id q))"

lemma crypt_of_ok:
  "image_platform sv H absorbed key_of E params_of \<Longrightarrow> crypt_of (sv_argon2 sv) q crypt \<Longrightarrow> crypt_ok crypt"
  by (auto simp: crypt_of_def crypt_ok_def derived_key_length split: option.split_asm)

lemma chunks_stored_bound:
  "chunks_stored z H E image_id crypt i off cs rs bs \<Longrightarrow> build_chunks_ok q j p cs \<Longrightarrow>
   valid_chunk_size (br_chunk_size q) \<Longrightarrow> length (concat bs) \<le> 33554432 * length cs"
proof (induction z H E image_id crypt i off cs rs bs arbitrary: j p rule: chunks_stored.induct)
  case (2 z H E image_id crypt i off c cs r rs b bs)
  have "length (bc_data c) \<le> 33554432"
    using "2.prems"(2,3) by (auto simp: build_chunk_ok_def valid_chunk_size_def split: if_split_asm)
  moreover have "length b \<le> length (bc_data c)"
    using "2.prems"(1) by (auto simp: chunk_stored_def dest: compressed_as_length(1) split: if_split_asm)
  moreover have "length (concat bs) \<le> 33554432 * length cs"
    using 2 by auto
  ultimately show ?case by simp
qed simp_all

lemma image_header_offsets:
  assumes "512 + m + n + 64 < 2 ^ 64"
  shows "is_offset (th_metadata (image_header q m n)) = 512"
    "unat (is_length (th_metadata (image_header q m n))) = m"
    "unat (is_offset (th_data (image_header q m n))) = 512 + m"
    "unat (is_length (th_data (image_header q m n))) = n"
    "unat (is_offset (th_footer (image_header q m n))) = 512 + m + n"
    "is_length (th_footer (image_header q m n)) = 64"
proof -
  have u: "unat (of_nat m :: u64) = m" "unat (of_nat n :: u64) = n" using assms by (simp_all add: unat_of_nat_u64)
  have d: "unat (512 + of_nat m :: u64) = 512 + m" using assms u by (simp add: unat_add_u64)
  show "is_offset (th_metadata (image_header q m n)) = 512"
    "unat (is_length (th_metadata (image_header q m n))) = m"
    "unat (is_offset (th_data (image_header q m n))) = 512 + m"
    "unat (is_length (th_data (image_header q m n))) = n"
    "is_length (th_footer (image_header q m n)) = 64"
    using u d by (simp_all add: image_header_def Let_def)
  have "unat ((512 + of_nat m) + of_nat n :: u64) = 512 + m + n" using assms u d by (subst unat_add_u64) simp_all
  then show "unat (is_offset (th_footer (image_header q m n))) = 512 + m + n"
    by (simp add: image_header_def Let_def)
qed

lemma image_header_blank:
  assumes "build_arrays q"
  shows "(image_header q m n)\<lparr>th_metadata_tag := replicate 16 0, th_header_hash := replicate 32 0\<rparr> = image_header q m n"
    "canonical_metadata_aad (serialize_header (image_header q m n)) = serialize_header (image_header q m n)"
proof -
  show e: "(image_header q m n)\<lparr>th_metadata_tag := replicate 16 0, th_header_hash := replicate 32 0\<rparr> = image_header q m n"
    by (simp add: image_header_def Let_def)
  have "header_arrays (image_header q m n)"
    using image_header_arrays [OF assms, of "replicate 16 0" "replicate 32 0" m n] unfolding e by simp
  from canonical_serialize_header(1) [OF this]
  show "canonical_metadata_aad (serialize_header (image_header q m n)) = serialize_header (image_header q m n)"
    unfolding e .
qed

context image_platform
begin

lemma nonce_zero: "\<exists>x. nonce_for_counter base 0 = Inr x"
proof -
  have "checked_add (read_little base 4) 0 = Some (read_little base 4)"
    by (subst checked_add_Some_iff) (simp add: unat_u64_bound)
  then show ?thesis by (simp add: nonce_for_counter_def)
qed

lemma seal_metadata_run:
  assumes crypt: "crypt_ok crypt" and len: "length metadata \<le> kTsumugiMaximumMetadataBytes"
    and q: "build_arrays q" "h = image_header q m n"
    and base: "\<forall>key base. crypt = Some (key, base) \<longrightarrow> th_base_nonce h = base"
  shows "\<exists>tag sealed t. seal_metadata sv crypt h metadata s = (Inr (h\<lparr>th_metadata_tag := tag\<rparr>, sealed), t) \<and>
    length tag = 16 \<and> length sealed = length metadata \<and>
    sealed_as E crypt (serialize_header h) metadata sealed tag"
proof (cases crypt)
  case None
  have "h\<lparr>th_metadata_tag := replicate 16 0\<rparr> = h" by (simp add: q(2) image_header_def Let_def)
  then show ?thesis
    using None by - (rule exI [of _ "replicate 16 0"], rule exI [of _ metadata], rule exI [of _ s],
        simp add: seal_metadata_def sealed_as_def returnE_def)
next
  case (Some kb)
  obtain key nb where kb: "kb = (key, nb)" by (cases kb)
  obtain x where x: "nonce_for_counter nb 0 = Inr x" using nonce_zero by blast
  have key: "length key = 32" using crypt Some kb by (simp add: crypt_ok_def)
  have aad: "canonical_metadata_aad (serialize_header h) = serialize_header h"
    using image_header_blank(2) [OF q(1)] q(2) by simp
  let ?e = "E key x (serialize_header h) metadata"
  obtain t where t: "encrypt_tsumugi_aes256_gcm (sv_aes sv) key x (serialize_header h) metadata s
      = (Inr \<lparr>en_ciphertext = fst ?e, en_tag = snd ?e\<rparr>, t)"
    using encrypt_works [OF aes key, of metadata "serialize_header h"] len by auto
  have scheme: "gcm_scheme E" using aes by (simp add: aes_service_def)
  show ?thesis
    using Some kb x t gcm_length [OF scheme] base aad
    by - (rule exI [of _ "snd ?e"], rule exI [of _ "fst ?e"], rule exI [of _ t],
        simp add: seal_metadata_def sealed_as_def bindE_def returnE_def Let_def)
qed

lemma assemble_image_run:
  assumes arrays: "header_arrays h" and fits: "unat (is_offset (th_footer h)) + 64 < 2 ^ 64"
    and len: "unat (is_offset (th_footer h)) = 512 + length metadata + length stored"
    and h': "h' = h\<lparr>th_header_hash := H (serialize_header (h\<lparr>th_header_hash := replicate 32 0\<rparr>))\<rparr>"
    and front: "front = serialize_header h' @ metadata @ stored"
  shows "\<exists>t. assemble_image sv h metadata stored image_id s =
    (Inr (front @ build_footer (of_nat (length front + 64)) (H front) image_id), t)"
proof -
  obtain u where u: "calculate_header_hash sv (serialize_header h) s = (Inr (th_header_hash h'), u)"
    using header_hash_run [of "serialize_header h" s] canonical_serialize_header(2) [OF arrays] h' by auto
  have total: "checked_add (is_offset (th_footer h)) (ucast kTsumugiFooterSize) = Some (is_offset (th_footer h) + 64)"
    using fits by (subst checked_add_unat) simp_all
  have "unat (is_offset (th_footer h) + 64) = length front + 64"
    using checked_add_SomeD(1) [OF total] len front by simp
  moreover have "unat (of_nat (length front + 64) :: u64) = length front + 64"
    using fits len front by (intro unat_of_nat_u64) simp
  ultimately have total': "is_offset (th_footer h) + 64 = of_nat (length front + 64)"
    by (simp add: word_unat_eq_iff)
  obtain t where "image_sha256 (sv_cng sv) front u = (Inr (H front), t)" using image_hashes(1) [OF hashing] by blast
  then show ?thesis
    using u total total' h' front
    by (simp add: assemble_image_def bindE_def returnE_def Let_def)
qed

lemma build_tsumugi_v1_run:
  assumes v: "validate_build_request q = Inr w" and arrays: "build_arrays q"
    and crypt: "crypt_of (sv_argon2 sv) q crypt"
    and mb: "metadata_size (length (br_manifest q)) (length (br_chunks q)) = Some mb"
    and st: "store_chunks sv q crypt (512 + mb) 0 [] [] (br_chunks q) s = (Inr (rs, data), u)"
  shows "\<exists>img bs h sealed t. build_tsumugi_v1 sv q s = (Inr img, t) \<and> image_of sv H E q crypt rs bs h sealed img"
proof -
  note valid = validate_build_request_sound [OF v]
  have ok: "crypt_ok crypt" using crypt_of_ok [OF image_platform_axioms crypt] .
  obtain bs where data: "data = concat bs"
    and cs: "chunks_stored (sv_zstd sv) H E (br_image_id q) crypt 0 (512 + mb) (br_chunks q) rs bs"
    using store_chunks_success [OF ok valid(5,12) st] by auto
  have count: "length rs = length (br_chunks q)" using chunks_stored_lengths [OF cs] by simp
  let ?md = "metadata_bytes (br_manifest q) rs"
  have md: "build_metadata (br_manifest q) rs = Inr ?md" "unat mb = length ?md"
    using build_metadata_bytes [of "br_manifest q" rs mb] valid(8,9) mb count by simp_all
  have short: "length ?md \<le> kTsumugiMaximumMetadataBytes"
    using mb valid(8,9) count by (auto simp: metadata_size_eq length_metadata_bytes split: if_split_asm)
  have start: "512 + mb = of_nat (512 + length ?md)" 
  proof -
    have "mb = of_nat (unat mb)" by simp
    then show ?thesis using md(2) by (metis of_nat_add of_nat_numeral)
  qed
  have "length data \<le> 33554432 * 1048576"
    using chunks_stored_bound [OF cs valid(12,5)] valid(9) by (simp add: data)
  then have bound: "512 + length ?md + length data + 64 < 2 ^ 64" using short by simp
  let ?h0 = "image_header q (length ?md) (length data)"
  note offsets = image_header_offsets [OF bound, of q]
  have base: "\<forall>key nb. crypt = Some (key, nb) \<longrightarrow> th_base_nonce ?h0 = nb"
    using crypt by (auto simp: crypt_of_def image_header_def Let_def split: option.split_asm)
  obtain tag sealed v1 where seal: "seal_metadata sv crypt ?h0 ?md u = (Inr (?h0\<lparr>th_metadata_tag := tag\<rparr>, sealed), v1)"
    "length tag = 16" "length sealed = length ?md" "sealed_as E crypt (serialize_header ?h0) ?md sealed tag"
    using seal_metadata_run [OF ok short arrays refl base, of u] by blast
  let ?h1 = "?h0\<lparr>th_metadata_tag := tag\<rparr>"
  define h where "h = ?h1\<lparr>th_header_hash := H (serialize_header (?h1\<lparr>th_header_hash := replicate 32 0\<rparr>))\<rparr>"
  have "header_arrays ?h1"
    using image_header_arrays [OF arrays seal(2), of "th_header_hash ?h0"] by (simp add: image_header_def Let_def)
  moreover have "unat (is_offset (th_footer ?h1)) + 64 < 2 ^ 64"
    "unat (is_offset (th_footer ?h1)) = 512 + length sealed + length data" using offsets bound seal(3) by simp_all
  ultimately obtain t where asm: "assemble_image sv ?h1 sealed data (br_image_id q) v1 =
      (Inr ((serialize_header h @ sealed @ data) @ build_footer (of_nat (length (serialize_header h @ sealed @ data) + 64))
        (H (serialize_header h @ sealed @ data)) (br_image_id q)), t)"
    using assemble_image_run [OF _ _ _ h_def refl] by blast
  let ?img = "(serialize_header h @ sealed @ data) @ build_footer (of_nat (length (serialize_header h @ sealed @ data) + 64))
      (H (serialize_header h @ sealed @ data)) (br_image_id q)"
  have blank: "h\<lparr>th_metadata_tag := replicate 16 0, th_header_hash := replicate 32 0\<rparr> = ?h0"
    using image_header_blank(1) [OF arrays, of "length ?md" "length data"] by (simp add: h_def)
  have "image_of sv H E q crypt rs bs h sealed ?img"
    using short seal crypt cs start blank data unfolding image_of_def Let_def by (simp add: h_def)
  moreover have "build_tsumugi_v1 sv q s = (Inr ?img, t)"
    using v crypt mb st md seal(1) asm
    by (auto simp: build_tsumugi_v1_def crypt_of_def bindE_def returnE_def Let_def split: option.split_asm)
  ultimately show ?thesis by blast
qed

lemma build_tsumugi_v1_success:
  assumes run: "build_tsumugi_v1 sv q s = (Inr img, t)" and arrays: "build_arrays q"
  shows "validate_build_request q = Inr ()" "\<exists>crypt rs bs h sealed. image_of sv H E q crypt rs bs h sealed img"
proof -
  from run obtain crypt mb rs data u where v: "validate_build_request q = Inr ()"
    and crypt: "crypt_of (sv_argon2 sv) q crypt"
    and mb: "metadata_size (length (br_manifest q)) (length (br_chunks q)) = Some mb"
    and st: "store_chunks sv q crypt (512 + mb) 0 [] [] (br_chunks q) s = (Inr (rs, data), u)"
    by (auto simp: build_tsumugi_v1_def crypt_of_def bindE_eq_Inr of_result_eq_Inr Let_def simp del: of_result_eq
        split: option.split_asm)
  show "validate_build_request q = Inr ()" by (rule v)
  show "\<exists>crypt rs bs h sealed. image_of sv H E q crypt rs bs h sealed img"
    using build_tsumugi_v1_run [OF v arrays crypt mb st] run by fastforce
qed

section \<open>Inspecting a built image\<close>

lemma inspect_chunks_complete:
  "chunks_stored (sv_zstd sv) H E (th_image_id h) crypt i off cs rs bs \<Longrightarrow> build_chunks_ok q i p cs \<Longrightarrow>
   valid_chunk_size (br_chunk_size q) \<Longrightarrow> crypt_ok crypt \<Longrightarrow>
   \<forall>key base. crypt = Some (key, base) \<longrightarrow> th_base_nonce h = base \<Longrightarrow>
   slice img (unat off) (length (concat bs)) = concat bs \<Longrightarrow> unat off + length (concat bs) < 2 ^ 64 \<Longrightarrow>
   \<exists>t. inspect_chunks sv h (map_option fst crypt) img (of_nat i) acc rs s =
     (Inr (acc @ map2 (\<lambda>r c. \<lparr>vc_record = r, vc_plaintext = bc_data c\<rparr>) rs cs), t)"
proof (induction rs arbitrary: i off p cs bs acc s)
  case Nil
  then show ?case by (cases cs) (auto simp: returnE_def)
next
  case (Cons r rs)
  from Cons.prems(1) obtain c cs' b bs' where cs: "cs = c # cs'" "bs = b # bs'"
    by (cases cs; cases bs) auto
  have st: "chunk_stored (sv_zstd sv) H E (th_image_id h) crypt i c r b" and off: "cr_stored_offset r = off"
    and rest: "chunks_stored (sv_zstd sv) H E (th_image_id h) crypt (Suc i) (off + of_nat (length b)) cs' rs bs'"
    using Cons.prems(1) by (simp_all add: cs)
  have ok: "build_chunk_ok q i p c"
    and oks: "build_chunks_ok q (Suc i) (unat (bc_logical_offset c) + unat (bc_logical_length c)) cs'"
    using Cons.prems(2) by (simp_all add: cs)
  have len: "length b < 2 ^ 64" using Cons.prems(7) by (simp add: cs)
  have next_off: "unat (off + of_nat (length b)) = unat off + length b"
    using Cons.prems(7) len by (subst unat_add_u64) (simp_all add: cs unat_of_nat_u64)
  let ?n = "length b" and ?m = "length (concat bs')"
  have all: "slice img (unat off) (?n + ?m) = b @ concat bs'" using Cons.prems(6) by (simp add: cs)
  have "slice img (unat off) ?n = take ?n (slice img (unat off) (?n + ?m))" by (simp add: slice_def min_def)
  then have here: "slice img (unat (cr_stored_offset r)) ?n = b" using all off by simp
  have "slice img (unat off + ?n) ?m = drop ?n (slice img (unat off) (?n + ?m))"
    by (simp add: slice_def drop_take add.commute)
  then have there: "slice img (unat (off + of_nat ?n)) ?m = concat bs'" using all next_off by simp
  obtain u where u: "inspect_chunk sv h (map_option fst crypt) img (of_nat i) r s =
      (Inr \<lparr>vc_record = r, vc_plaintext = bc_data c\<rparr>, u)"
    using inspect_stored_chunk [OF st ok Cons.prems(3,4) _ len here] Cons.prems(5) by blast
  have "unat (off + of_nat ?n) + ?m < 2 ^ 64" using Cons.prems(7) next_off by (simp add: cs)
  from Cons.IH [OF rest oks Cons.prems(3-5) there this, of "acc @ [\<lparr>vc_record = r, vc_plaintext = bc_data c\<rparr>]" u]
  show ?case using u by (auto simp: cs bindE_def word_of_nat_Suc simp del: of_nat_Suc)
qed

lemma chunks_stored_consistent:
  "chunks_stored z H' E' image_id crypt i off cs rs bs \<Longrightarrow> build_chunks_ok q i p cs \<Longrightarrow>
   list_all2 (\<lambda>r c. chunk_arrays r \<and> cr_flags r = bc_flags c \<and>
     cr_rescue_read_evidence r = bc_rescue_read_evidence c \<and>
     (cr_rescue_read_evidence r \<noteq> None \<longleftrightarrow> chunk_is_unreadable (cr_flags r)) \<and>
     (\<forall>e. cr_rescue_read_evidence r = Some e \<longrightarrow> valid_rescue_read_evidence e)) rs cs"
proof (induction rs arbitrary: i off p cs bs)
  case Nil
  then show ?case by (cases cs; cases bs) auto
next
  case (Cons r rs)
  from Cons.prems(1) obtain c cs' b bs' where cs: "cs = c # cs'" "bs = b # bs'"
    by (cases cs; cases bs) auto
  have "chunk_stored z H' E' image_id crypt i c r b" "build_chunk_ok q i p c"
    using Cons.prems by (simp_all add: cs)
  then show ?case
    using Cons by (auto simp: cs chunk_stored_def build_chunk_ok_def)
qed

lemma image_of_features:
  assumes "chunks_stored z H' E' image_id crypt i off (br_chunks q) rs bs" "build_chunks_ok q i p (br_chunks q)"
    "th_required_features h = th_required_features (image_header q m n)"
  shows "features_match h rs" "\<forall>r \<in> set rs. chunk_arrays r \<and> evidence_consistent (evidence_map h) r"
proof -
  note l = chunks_stored_consistent [OF assms(1,2)]
  note f = image_header_features(2,3) [of q m n, folded assms(3)]
  have ex: "list_ex f rs = list_ex g (br_chunks q)"
    if "\<And>r c. cr_flags r = bc_flags c \<Longrightarrow> (cr_rescue_read_evidence r \<noteq> None \<longleftrightarrow> chunk_is_unreadable (cr_flags r)) \<Longrightarrow> f r = g c"
    for f and g :: "build_chunk \<Rightarrow> bool"
  proof -
    have "list_all2 (\<lambda>r c. f r = g c) rs (br_chunks q)"
      by (rule list_all2_mono [OF l]) (use that in blast)
    then show ?thesis by (induction rule: list_all2_induct) auto
  qed
  have "list_ex (\<lambda>r. chunk_is_unreadable (cr_flags r)) rs \<longleftrightarrow>
      list_ex (\<lambda>c. chunk_is_unreadable (bc_flags c)) (br_chunks q)"
    "list_ex (\<lambda>r. cr_rescue_read_evidence r \<noteq> None) rs \<longleftrightarrow>
      list_ex (\<lambda>c. chunk_is_unreadable (bc_flags c)) (br_chunks q)"
    by (rule ex, simp)+
  then show match: "features_match h rs" by (simp add: features_match_def f)
  show "\<forall>r \<in> set rs. chunk_arrays r \<and> evidence_consistent (evidence_map h) r"
  proof
    fix r
    assume "r \<in> set rs"
    then have "chunk_arrays r" "cr_rescue_read_evidence r \<noteq> None \<longleftrightarrow> chunk_is_unreadable (cr_flags r)"
      "\<forall>e. cr_rescue_read_evidence r = Some e \<longrightarrow> valid_rescue_read_evidence e"
      using l by (auto simp: list_all2_conv_all_nth in_set_conv_nth)
    moreover have "cr_rescue_read_evidence r \<noteq> None \<Longrightarrow> evidence_map h"
      using match \<open>r \<in> set rs\<close> by (auto simp: features_match_def list_ex_iff)
    ultimately show "chunk_arrays r \<and> evidence_consistent (evidence_map h) r"
      by (auto simp: evidence_consistent_def)
  qed
qed

lemma build_footer_fields:
  assumes "length hash = 32" "length image_id = 16"
  shows "take 8 (build_footer n hash image_id) = kFooterMagic" "read_little (build_footer n hash image_id) 8 = n"
    "slice (build_footer n hash image_id) 16 32 = hash" "slice (build_footer n hash image_id) 48 16 = image_id"
    "length (build_footer n hash image_id) = 64"
proof -
  have "slice (build_footer n hash image_id) 0 8 = kFooterMagic"
    using assms unfolding build_footer_def Let_def by (simp add: byte_simps kFooterMagic_def)
  then show "take 8 (build_footer n hash image_id) = kFooterMagic" by (simp add: slice_def)
  show "read_little (build_footer n hash image_id) 8 = n"
    "slice (build_footer n hash image_id) 16 32 = hash" "slice (build_footer n hash image_id) 48 16 = image_id"
    "length (build_footer n hash image_id) = 64"
    using assms unfolding build_footer_def Let_def by (simp_all add: byte_simps kFooterMagic_def)
qed

lemma unseal_metadata_complete:
  assumes crypt: "crypt_of (sv_argon2 sv) q crypt" and h: "th_argon2 h = th_argon2 (image_header q m n)"
      "th_base_nonce h = th_base_nonce (image_header q m n)"
      "th_required_features h = th_required_features (image_header q m n)"
    and arrays: "header_arrays h" and front: "take 512 img = serialize_header h"
    and md: "slice img (unat (is_offset (th_metadata h))) (unat (is_length (th_metadata h))) = sealed"
    and sealed: "sealed_as E crypt
      (serialize_header (h\<lparr>th_metadata_tag := replicate 16 0, th_header_hash := replicate 32 0\<rparr>))
      metadata sealed (th_metadata_tag h)" "length metadata \<le> kTsumugiMaximumMetadataBytes"
    and pw: "\<And>e. br_encryption q = Some e \<Longrightarrow> pw = Some (es_password e)"
  shows "\<exists>t. unseal_metadata sv h img pw s = (Inr (map_option fst crypt, metadata), t)"
proof (cases "br_encryption q")
  case None
  then have "crypt = None" using crypt by (simp add: crypt_of_def)
  moreover have "th_required_features h AND kFeatureEncrypted = 0"
    using None image_header_features(1) [of q m n] by (simp add: h(3))
  ultimately show ?thesis
    using md sealed(1) by (simp add: unseal_metadata_def Let_def sealed_as_def returnE_def)
next
  case (Some e)
  then obtain key where key: "derive_tsumugi_key_argon2id (sv_argon2 sv) (es_password e) (es_argon2 e) = Inr key"
    "crypt = Some (key, es_base_nonce e)" using crypt by (auto simp: crypt_of_def)
  have "th_argon2 h = es_argon2 e" "th_base_nonce h = es_base_nonce e"
    using Some h(1,2) by (simp_all add: image_header_def Let_def)
  note args = this
  let ?aad = "serialize_header (h\<lparr>th_metadata_tag := replicate 16 0, th_header_hash := replicate 32 0\<rparr>)"
  obtain x where x: "nonce_for_counter (es_base_nonce e) 0 = Inr x"
    "E key x ?aad metadata = (sealed, th_metadata_tag h)"
    using sealed(1) key(2) by (auto simp: sealed_as_def)
  have "length key = 32" using derived_key_length [OF image_platform_axioms key(1)] .
  from decrypt_works [OF aes this sealed(2) _ x(2)] obtain t where
    t: "decrypt_tsumugi_aes256_gcm (sv_aes sv) key x ?aad sealed (th_metadata_tag h) s = (Inr metadata, t)" by auto
  have "th_required_features h AND kFeatureEncrypted \<noteq> 0"
    using Some image_header_features(1) [of q m n] by (simp add: h(3))
  then show ?thesis
    using key args x t pw [OF Some] md front canonical_serialize_header(1) [OF arrays]
    by (simp add: unseal_metadata_def Let_def bindE_def returnE_def)
qed

lemma inspect_image_of:
  assumes im: "image_of sv H E q crypt rs bs h sealed img"
    and v: "validate_build_request q = Inr w" and arrays: "build_arrays q"
    and pw: "\<And>e. br_encryption q = Some e \<Longrightarrow> pw = Some (es_password e)"
  shows "\<exists>t. inspect_tsumugi_v1 sv img pw s =
    (Inr \<lparr>ti_header = h, ti_manifest = br_manifest q,
      ti_chunks = map2 (\<lambda>r c. \<lparr>vc_record = r, vc_plaintext = bc_data c\<rparr>) rs (br_chunks q),
      ti_global_hash = H (serialize_header h @ sealed @ concat bs), ti_header_hash_verified = True,
      ti_metadata_authenticated = (br_encryption q \<noteq> None), ti_all_chunks_verified = True,
      ti_global_hash_verified = True\<rparr>, t)"
proof -
  note valid = validate_build_request_sound [OF v]
  let ?md = "metadata_bytes (br_manifest q) rs" and ?data = "concat bs"
  let ?front = "serialize_header h @ sealed @ ?data"
  let ?ih = "image_header q (length ?md) (length ?data)"
  from im have short: "length ?md \<le> kTsumugiMaximumMetadataBytes" "length sealed = length ?md"
    and crypt: "crypt_of (sv_argon2 sv) q crypt"
    and cs: "chunks_stored (sv_zstd sv) H E (br_image_id q) crypt 0 (of_nat (512 + length ?md)) (br_chunks q) rs bs"
    and h: "h = ?ih\<lparr>th_metadata_tag := th_metadata_tag h, th_header_hash := th_header_hash h\<rparr>"
    and tag: "length (th_metadata_tag h) = 16"
    and sealed: "sealed_as E crypt
      (serialize_header (h\<lparr>th_metadata_tag := replicate 16 0, th_header_hash := replicate 32 0\<rparr>))
      ?md sealed (th_metadata_tag h)"
    and hash: "th_header_hash h = H (serialize_header (h\<lparr>th_header_hash := replicate 32 0\<rparr>))"
    and img: "img = ?front @ build_footer (of_nat (length ?front + 64)) (H ?front) (br_image_id q)"
    unfolding image_of_def Let_def by blast+
  have ok: "crypt_ok crypt" using crypt_of_ok [OF image_platform_axioms crypt] .
  have count: "length rs = length (br_chunks q)" using chunks_stored_lengths [OF cs] by simp
  have "length ?data \<le> 33554432 * 1048576"
    using chunks_stored_bound [OF cs valid(12,5)] valid(9) by simp
  then have bound: "512 + length ?md + length ?data + 64 < 2 ^ 64" using short by simp
  note fields = arg_cong [OF h, of th_data, simplified] arg_cong [OF h, of th_metadata, simplified]
    arg_cong [OF h, of th_footer, simplified] arg_cong [OF h, of th_argon2, simplified]
    arg_cong [OF h, of th_base_nonce, simplified] arg_cong [OF h, of th_required_features, simplified]
  note more = arg_cong [OF h, of th_major_version, simplified] arg_cong [OF h, of th_minor_version, simplified]
    arg_cong [OF h, of th_chunk_count, simplified] arg_cong [OF h, of th_image_id, simplified]
  have offs: "is_offset (th_metadata h) = 512" "unat (is_length (th_metadata h)) = length ?md"
    "unat (is_offset (th_data h)) = 512 + length ?md" "unat (is_length (th_data h)) = length ?data"
    "unat (is_offset (th_footer h)) = 512 + length ?md + length ?data" "is_length (th_footer h) = 64"
    by (simp_all only: fields image_header_offsets [OF bound])
  have id: "th_image_id h = br_image_id q" "length (br_image_id q) = 16"
    using more(4) arrays by (simp_all add: image_header_def Let_def build_arrays_def)
  note footer = build_footer_fields [OF hash_length id(2), of "of_nat (length ?front + 64)" ?front]
  have front: "length ?front = 512 + length ?md + length ?data" using short by simp
  then have len: "length img = 512 + length ?md + length ?data + 64" using footer(5) by (simp add: img)
  have head: "take 512 img = serialize_header h" by (simp add: img)
  have "header_arrays h" using image_header_arrays [OF arrays tag, of "th_header_hash h"] hash hash_length h by metis
  note harr = this
  have "header_supported h" using image_header_supported [OF v] h by metis
  moreover have "th_metadata_tag h = replicate 16 0 \<or> br_encryption q \<noteq> None"
    using sealed crypt by (auto simp: sealed_as_def crypt_of_def split: option.split_asm)
  note image_header_crypt [OF v this h]
  moreover have "th_major_version h = 1" "th_minor_version h = 0" using more by (simp_all add: image_header_def Let_def)
  ultimately obtain s1 where s1: "parse_tsumugi_header sv img s = (Inr h, s1)"
    using parse_header_complete [OF harr _ _ _ _ hash head] len by auto
  have "32 \<le> length ?md" by (simp add: length_metadata_bytes)
  then have sections: "validate_sections h (length img) = Inr ()"
    using offs short len bound by (simp add: validate_sections_iff)
  have foot: "slice img (unat (is_offset (th_footer h))) 64 = build_footer (of_nat (length ?front + 64)) (H ?front) (br_image_id q)"
    using offs(5) front footer(5) by (simp add: img slice_def)
  have "unat (of_nat (length ?front + 64) :: u64) = length img"
    using bound front len by (subst unat_of_nat_u64) simp_all
  then have check: "check_footer h (slice img (unat (is_offset (th_footer h))) 64) (length img) = Inr ()"
    unfolding foot check_footer_def using footer id by simp
  have prefix: "take (unat (is_offset (th_footer h))) img = ?front" using offs(5) front by (simp add: img)
  obtain s2 where s2: "image_sha256 (sv_cng sv) ?front s1 = (Inr (H ?front), s2)"
    using image_hashes(1) [OF hashing] by blast
  have stored: "slice img (unat (is_offset (th_metadata h))) (unat (is_length (th_metadata h))) = sealed"
    using offs short by (simp add: img slice_def)
  obtain s3 where s3: "unseal_metadata sv h img pw s2 = (Inr (map_option fst crypt, ?md), s3)"
    using unseal_metadata_complete [OF crypt fields(4-6) harr head stored sealed short(1) pw] by blast
  note match = image_of_features [OF cs valid(12) fields(6)]
  have qh: "header_of_request q h" using header_of_image_header h by metis
  have start: "unat (of_nat (512 + length ?md) :: u64) = 512 + length ?md"
    using bound by (intro unat_of_nat_u64) simp
  have recs: "records_ok h (crypt \<noteq> None) 0 0 (unat (is_offset (th_data h))) rs (unat (is_offset (th_footer h)))"
    using chunks_stored_records_ok [OF cs valid(12) qh] offs start by simp
  have "th_chunk_count h = of_nat (length rs)" using more(3) count by (simp add: image_header_def Let_def)
  then have parsed: "parse_metadata ?md h (crypt \<noteq> None) = Inr (br_manifest q, rs)"
    using parse_metadata_complete [OF valid(7,8) _ _ recs match(2,1)] valid(9) count by simp
  have "\<forall>key base. crypt = Some (key, base) \<longrightarrow> th_base_nonce h = base"
    using crypt fields(5) by (auto simp: crypt_of_def image_header_def Let_def split: option.split_asm)
  moreover have "slice img (512 + length ?md) (length ?data) = ?data" using short by (simp add: img slice_def)
  ultimately obtain s4 where s4: "inspect_chunks sv h (map_option fst crypt) img 0 [] rs s3 =
      (Inr (map2 (\<lambda>r c. \<lparr>vc_record = r, vc_plaintext = bc_data c\<rparr>) rs (br_chunks q)), s4)"
    using inspect_chunks_complete [where h = h and img = img and acc = "[]" and s = s3, OF _ valid(12,5) ok] cs id
      start bound by fastforce
  have "map_option fst crypt \<noteq> None \<longleftrightarrow> crypt \<noteq> None" "crypt \<noteq> None \<longleftrightarrow> br_encryption q \<noteq> None"
    using crypt by (auto simp: crypt_of_def split: option.split_asm)
  then show ?thesis
    using s1 sections check prefix s2 s3 s4 parsed foot footer(3)
    by (simp add: inspect_tsumugi_v1_def bindE_def returnE_def Let_def)
qed

end

end
