(* ===== verification/TsumugiImage.thy ===== *)
theory TsumugiImage
  imports TsumugiRuns
begin

text \<open>
  The properties of the image container, and the services of a concrete platform on which they are
  instantiated: the CNG of the digest, a cipher with a tag and a run length compressor.
\<close>

section \<open>What an accepted index says\<close>

lemma records_ok_ordered:
  "records_ok h e i p x rs f \<Longrightarrow>
   sorted_wrt (\<lambda>a b. logical_end a \<le> unat (cr_logical_offset b)) rs \<and>
   (i \<noteq> 0 \<longrightarrow> (\<forall>r \<in> set rs. p \<le> unat (cr_logical_offset r)))"
proof (induction rs arbitrary: i p x)
  case (Cons r rs)
  then have "sorted_wrt (\<lambda>a b. logical_end a \<le> unat (cr_logical_offset b)) rs"
    "\<forall>q \<in> set rs. logical_end r \<le> unat (cr_logical_offset q)" by auto
  moreover have "i \<noteq> 0 \<longrightarrow> p \<le> unat (cr_logical_offset r)" using Cons.prems by (simp add: index_record_ok_def)
  moreover have "unat (cr_logical_offset r) \<le> logical_end r" by (simp add: logical_end_def)
  ultimately show ?case by (auto intro: order_trans)
qed simp

abbreviation stored_sizes :: "chunk_record list \<Rightarrow> nat" where
  "stored_sizes rs \<equiv> sum_list (map (\<lambda>r. unat (cr_stored_length r)) rs)"

lemma records_ok_tile:
  "records_ok h e i p x rs f \<Longrightarrow> f = x + stored_sizes rs \<and>
   (\<forall>k < length rs. unat (cr_stored_offset (rs ! k)) = x + stored_sizes (take k rs))"
proof (induction rs arbitrary: i p x)
  case (Cons r rs)
  have r: "unat (cr_stored_offset r) = x" "stored_end r = x + unat (cr_stored_length r)"
    using Cons.prems by (simp_all add: index_record_ok_def stored_end_def)
  have "records_ok h e (Suc i) (logical_end r) (stored_end r) rs f" using Cons.prems by simp
  from Cons.IH [OF this] r show ?case by (auto simp: nth_Cons' take_Cons')
qed simp

lemma records_ok_each:
  "records_ok h e i p x rs f \<Longrightarrow> k < length rs \<Longrightarrow> \<exists>p' x'. index_record_ok h e (i + k) p' x' (rs ! k)"
proof (induction rs arbitrary: i p x k)
  case (Cons r rs)
  show ?case
  proof (cases k)
    case 0
    then show ?thesis using Cons.prems by auto
  next
    case (Suc j)
    then show ?thesis using Cons.IH [of "Suc i" "logical_end r" "stored_end r" j] Cons.prems by simp
  qed
qed simp

lemma records_ok_inside:
  "records_ok h e i p x rs f \<Longrightarrow>
   \<forall>r \<in> set rs. 0 < unat (cr_logical_length r) \<and> logical_end r \<le> unat (th_source_disk_size h)"
proof (induction rs arbitrary: i p x)
  case (Cons r rs)
  then have "index_record_ok h e i p x r" by simp
  then have "0 < unat (cr_logical_length r) \<and> logical_end r \<le> unat (th_source_disk_size h)"
    unfolding index_record_ok_def logical_end_def by blast
  then show ?case using Cons by auto
qed simp

section \<open>What an inspected chunk says\<close>

text \<open>The metadata in the clear: what is stored, or what the key of the password decrypts.\<close>

definition metadata_opened ::
  "'s image_services \<Rightarrow> gcm \<Rightarrow> tsumugi_header \<Rightarrow> byte list \<Rightarrow> narrow_string option \<Rightarrow> byte list option \<Rightarrow>
   byte list \<Rightarrow> bool" where
  "metadata_opened sv E h img pw key metadata \<longleftrightarrow>
     (let stored = slice img (unat (is_offset (th_metadata h))) (unat (is_length (th_metadata h))) in
      case key of
        None \<Rightarrow> th_required_features h AND kFeatureEncrypted = 0 \<and> metadata = stored
      | Some k \<Rightarrow> th_required_features h AND kFeatureEncrypted \<noteq> 0 \<and>
          (\<exists>w n. pw = Some w \<and> derive_tsumugi_key_argon2id (sv_argon2 sv) w (th_argon2 h) = Inr k \<and>
             nonce_for_counter (th_base_nonce h) 0 = Inr n \<and>
             E k n (canonical_metadata_aad (take 512 img)) metadata = (stored, th_metadata_tag h)))"

definition chunk_verified ::
  "'s image_services \<Rightarrow> (byte list \<Rightarrow> byte list) \<Rightarrow> gcm \<Rightarrow> tsumugi_header \<Rightarrow> byte list option \<Rightarrow> byte list \<Rightarrow>
   nat \<Rightarrow> verified_chunk \<Rightarrow> bool" where
  "chunk_verified sv H E h key img i c \<longleftrightarrow>
     (let r = vc_record c; stored = slice img (unat (cr_stored_offset r)) (unat (cr_stored_length r)) in
      if chunk_is_zero (cr_flags r)
      then vc_plaintext c = [] \<and> cr_plaintext_hash r = H (replicate (unat (cr_logical_length r)) 0)
      else length (vc_plaintext c) = unat (cr_logical_length r) \<and> cr_plaintext_hash r = H (vc_plaintext c) \<and>
        (\<exists>clear. expand_chunk sv r clear = Inr (vc_plaintext c) \<and>
          (case key of
             None \<Rightarrow> clear = stored
           | Some k \<Rightarrow> \<exists>n. nonce_for_counter (th_base_nonce h) (cr_nonce_counter r) = Inr n \<and>
               E k n (build_chunk_aad (th_image_id h) (of_nat i) r) clear = (stored, cr_authentication_tag r))))"

context image_platform
begin

lemma inspect_chunk_sound:
  assumes run: "inspect_chunk sv h key img (of_nat i) r s = (Inr c, t)"
    and key: "\<forall>k. key = Some k \<longrightarrow> length k = 32"
  shows "vc_record c = r" "chunk_verified sv H E h key img i c"
proof -
  let ?stored = "slice img (unat (cr_stored_offset r)) (unat (cr_stored_length r))"
  have "vc_record c = r \<and> chunk_verified sv H E h key img i c"
  proof (cases "chunk_is_zero (cr_flags r)")
    case True
    then show ?thesis
      using run hash_run(2) by (auto simp: inspect_chunk_def bindE_eq_Inr chunk_verified_def Let_def split: if_split_asm)
  next
    case False
    with run obtain clear plain u v d where dec: "decrypt_chunk sv h key (of_nat i) r ?stored s = (Inr clear, u)"
      and plain: "expand_chunk sv r clear = Inr plain"
      and hash: "image_sha256 (sv_cng sv) plain u = (Inr d, v)" "d = cr_plaintext_hash r"
      and c: "c = \<lparr>vc_record = r, vc_plaintext = plain\<rparr>"
      by (auto simp: inspect_chunk_def Let_def bindE_eq_Inr of_result_eq_Inr simp del: of_result_eq
          split: if_split_asm)
    have "length plain = unat (cr_logical_length r)"
      using plain by (auto simp: expand_chunk_def dest: decompress_length split: if_split_asm)
    moreover have "case key of None \<Rightarrow> clear = ?stored
      | Some k \<Rightarrow> \<exists>n. nonce_for_counter (th_base_nonce h) (cr_nonce_counter r) = Inr n \<and>
          E k n (build_chunk_aad (th_image_id h) (of_nat i) r) clear = (?stored, cr_authentication_tag r)"
    proof (cases key)
      case None
      then show ?thesis using dec by (simp add: decrypt_chunk_def)
    next
      case (Some k)
      then show ?thesis
        using dec key decrypt_sound(1) [OF aes]
        by (auto simp: decrypt_chunk_def bindE_eq_Inr of_result_eq_Inr simp del: of_result_eq)
    qed
    ultimately show ?thesis using False c hash_run(1) [OF hash(1)] hash(2) plain by (auto simp: chunk_verified_def Let_def)
  qed
  then show "vc_record c = r" "chunk_verified sv H E h key img i c" by simp_all
qed

lemma inspect_chunks_sound:
  assumes key: "\<forall>k. key = Some k \<longrightarrow> length k = 32"
  shows "inspect_chunks sv h key img (of_nat i) acc rs s = (Inr cs, t) \<Longrightarrow>
    \<exists>new. cs = acc @ new \<and> map vc_record new = rs \<and>
      (\<forall>k < length new. chunk_verified sv H E h key img (i + k) (new ! k))"
proof (induction rs arbitrary: i acc s)
  case (Cons r rs)
  from Cons.prems obtain c u where c: "inspect_chunk sv h key img (of_nat i) r s = (Inr c, u)"
    and rest: "inspect_chunks sv h key img (of_nat (Suc i)) (acc @ [c]) rs u = (Inr cs, t)"
    by (auto simp: bindE_eq_Inr word_of_nat_Suc simp del: of_nat_Suc)
  from Cons.IH [OF rest] obtain new where "cs = acc @ c # new" "map vc_record new = rs"
    "\<forall>k < length new. chunk_verified sv H E h key img (Suc i + k) (new ! k)" by auto
  then show ?case
    using inspect_chunk_sound [OF c key]
    by (intro exI [of _ "c # new"]) (auto simp: nth_Cons' less_Suc_eq_0_disj)
qed simp

lemma unseal_metadata_sound:
  assumes un: "unseal_metadata sv h img pw s = (Inr (key, md), t)"
  shows "metadata_opened sv E h img pw key md"
proof (cases "th_required_features h AND kFeatureEncrypted = 0")
  case True
  then show ?thesis using un by (simp add: unseal_metadata_def metadata_opened_def Let_def)
next
  case False
  with un obtain w k n where w: "pw = Some w" "derive_tsumugi_key_argon2id (sv_argon2 sv) w (th_argon2 h) = Inr k"
    "nonce_for_counter (th_base_nonce h) 0 = Inr n" "key = Some k"
    and dec: "decrypt_tsumugi_aes256_gcm (sv_aes sv) k n (canonical_metadata_aad (take 512 img))
      (slice img (unat (is_offset (th_metadata h))) (unat (is_length (th_metadata h)))) (th_metadata_tag h) s = (Inr md, t)"
    by (cases pw) (auto simp: unseal_metadata_def Let_def bindE_eq_Inr of_result_eq_Inr simp del: of_result_eq)
  from decrypt_sound(1) [OF aes derived_key_length [OF image_platform_axioms w(2)] dec] w False
  show ?thesis by (simp add: metadata_opened_def)
qed

text \<open>What an inspection has established of the container, the index and the chunks.\<close>

lemma inspect_tsumugi_v1_success:
  assumes run: "inspect_tsumugi_v1 sv img pw s = (Inr x, t)"
  obtains key metadata where
    "ti_header x = read_tsumugi_header (take 512 img)" "header_supported (ti_header x)"
    "th_header_hash (ti_header x) = H (overwrite (take 512 img) 188 (replicate 32 0))"
    "validate_sections (ti_header x) (length img) = Inr ()"
    "ti_global_hash x = H (take (unat (is_offset (th_footer (ti_header x)))) img)"
    "ti_global_hash x = slice img (unat (is_offset (th_footer (ti_header x))) + 16) 32"
    "metadata_opened sv E (ti_header x) img pw key metadata"
    "parse_metadata metadata (ti_header x) (key \<noteq> None) = Inr (ti_manifest x, map vc_record (ti_chunks x))"
    "\<forall>k < length (ti_chunks x). chunk_verified sv H E (ti_header x) key img k (ti_chunks x ! k)"
    "ti_metadata_authenticated x = (key \<noteq> None)"
proof -
  from run obtain h s1 where ph: "parse_tsumugi_header sv img s = (Inr h, s1)"
    and sections: "validate_sections h (length img) = Inr ()"
    and rest1: "bindE (image_sha256 (sv_cng sv) (take (unat (is_offset (th_footer h))) img)) (\<lambda>global_hash.
      if global_hash \<noteq> slice (slice img (unat (is_offset (th_footer h))) 64) 16 32 then failE verification_error
      else
        bindE (unseal_metadata sv h img pw) (\<lambda>(key, metadata).
        bindE (of_result (parse_metadata metadata h (key \<noteq> None))) (\<lambda>(manifest, records).
        bindE (inspect_chunks sv h key img 0 [] records) (\<lambda>chunks.
        returnE \<lparr>ti_header = h, ti_manifest = manifest, ti_chunks = chunks,
          ti_global_hash = global_hash, ti_header_hash_verified = True,
          ti_metadata_authenticated = (key \<noteq> None), ti_all_chunks_verified = True,
          ti_global_hash_verified = True\<rparr>)))) s1 = (Inr x, t)"
    by (auto simp: inspect_tsumugi_v1_def Let_def bindE_eq_Inr [of "parse_tsumugi_header sv img"]
        bindE_eq_Inr [of "of_result _"] of_result_eq_Inr simp del: of_result_eq)
  from rest1 obtain d s2 key md s3 m rs cs where
    d: "image_sha256 (sv_cng sv) (take (unat (is_offset (th_footer h))) img) s1 = (Inr d, s2)"
      "d = slice (slice img (unat (is_offset (th_footer h))) 64) 16 32"
    and un: "unseal_metadata sv h img pw s2 = (Inr (key, md), s3)"
    and pm: "parse_metadata md h (key \<noteq> None) = Inr (m, rs)"
    and cs: "inspect_chunks sv h key img (of_nat 0) [] rs s3 = (Inr cs, t)"
    and x: "ti_header x = h" "ti_manifest x = m" "ti_chunks x = cs" "ti_global_hash x = d"
      "ti_metadata_authenticated x = (key \<noteq> None)"
    by (auto simp: bindE_eq_Inr of_result_eq_Inr simp del: of_result_eq split: if_split_asm prod.split_asm)
  have opened: "metadata_opened sv E h img pw key md" by (rule unseal_metadata_sound [OF un])
  then have "\<forall>k. key = Some k \<longrightarrow> length k = 32"
    using derived_key_length [OF image_platform_axioms] by (auto simp: metadata_opened_def split: option.split_asm)
  from inspect_chunks_sound [OF this cs] have rs: "map vc_record cs = rs"
    and verified: "\<forall>k < length cs. chunk_verified sv H E h key img k (cs ! k)" by auto
  have "parse_metadata md h (key \<noteq> None) = Inr (m, map vc_record cs)" using pm rs by simp
  note facts = this parse_header_sound(1,3,5) [OF ph] hash_run(1) [OF d(1)]
  have stored: "d = slice img (unat (is_offset (th_footer h)) + 16) 32" using d(2) by (simp add: slice_slice)
  show ?thesis by (rule that [unfolded x]) (rule facts sections opened verified refl stored)+
qed

end

section \<open>Building succeeds\<close>

text \<open>
  The base nonce leaves room for one counter per chunk: its upper eight bytes are a number that does
  not overflow.
\<close>

definition nonces_fit :: "build_request \<Rightarrow> bool" where
  "nonces_fit q \<longleftrightarrow> (\<forall>e. br_encryption q = Some e \<longrightarrow>
     unat (read_little (es_base_nonce e) 4 :: u64) + length (br_chunks q) < 2 ^ 64)"

locale working_image_platform = image_platform +
  assumes argon2_ok: "\<And>t m p pw salt. fst (sv_argon2 sv t m p pw salt) = 0"
begin

lemma key_derived:
  assumes "check_encryption e = success_status"
  shows "\<exists>key. derive_tsumugi_key_argon2id (sv_argon2 sv) (es_password e) (es_argon2 e) = Inr key"
proof -
  let ?p = "es_argon2 e"
  have "pa_accepted (assess_tsumugi_password (es_password e))" "ar_memory_kib ?p = 65536"
    "ar_iterations ?p = 3" "ar_parallelism ?p = 1"
    using assms by (auto simp: check_encryption_def Let_def split: if_split_asm)
  then show ?thesis
    using argon2_ok [of 3 65536 1 "es_password e" "ar_salt ?p"]
    by (auto simp: derive_tsumugi_key_argon2id_def split: prod.split)
qed

lemma build_completes:
  assumes v: "validate_build_request q = success_status" and arrays: "build_arrays q"
    and fits: "32 + length (br_manifest q) + 112 * length (br_chunks q) \<le> kTsumugiMaximumMetadataBytes"
    and nonces: "nonces_fit q"
  shows "\<exists>img t. build_tsumugi_v1 sv q s = (Inr img, t)"
proof -
  note valid = validate_build_request_sound [OF v]
  obtain crypt where crypt: "crypt_of (sv_argon2 sv) q crypt"
    using key_derived valid(11) by (cases "br_encryption q") (simp add: crypt_of_def, fastforce simp: crypt_of_def)
  have ok: "crypt_ok crypt" using crypt_of_ok [OF image_platform_axioms crypt] .
  obtain mb where mb: "metadata_size (length (br_manifest q)) (length (br_chunks q)) = Some mb"
    using fits valid(8,9) by (simp add: metadata_size_eq del: of_nat_add of_nat_mult)
  have "\<exists>x. nonce_for_counter base (of_nat j + 1) = Inr x"
    if c: "crypt = Some (key, base)" and j: "j < length (br_chunks q)" for key base j
  proof -
    obtain e where e: "br_encryption q = Some e" "base = es_base_nonce e"
      using crypt c by (auto simp: crypt_of_def split: option.split_asm)
    have bound: "unat (read_little base 4 :: u64) + Suc j < 2 ^ 64"
      using nonces e j by (auto simp: nonces_fit_def)
    then have "unat (of_nat j + 1 :: u64) = Suc j" unfolding word_of_nat_Suc by (intro unat_of_nat_u64) simp
    then have "checked_add (read_little base 4) (of_nat j + 1) = Some (read_little base 4 + (of_nat j + 1))"
      using bound by (intro checked_add_unat) simp
    then show ?thesis by (simp add: nonce_for_counter_def)
  qed
  then obtain rs data u where "store_chunks sv q crypt (512 + mb) 0 [] [] (br_chunks q) s = (Inr (rs, data), u)"
    using store_chunks_works [where n = "length (br_chunks q)" and i = 0 and s = s and start = "512 + mb",
        OF ok valid(5) _ valid(12)] by fastforce
  from build_tsumugi_v1_run [OF v arrays crypt mb this] show ?thesis by blast
qed

end

end
