(* ===== verification/TsumugiMemory.thy ===== *)
theory TsumugiMemory
  imports TsumugiImage
begin

text \<open>
  A platform in memory for the image container, with the properties: a CNG whose cipher masks every
  byte and appends a checksum of its inputs, a compressor for runs of one byte, and a key derivation
  by checksum.
\<close>

section \<open>The services\<close>

record image_world =
  iw_absorbed :: "byte list"
  iw_key :: "byte list"
  iw_params :: "(nat \<times> int) list"

definition memory_mask :: "byte list \<Rightarrow> byte list \<Rightarrow> byte list \<Rightarrow> byte list" where
  "memory_mask key nonce bytes = map (\<lambda>b. b XOR hd (checksum (key @ nonce))) bytes"

definition memory_gcm :: gcm where
  "memory_gcm key nonce aad plaintext =
     (memory_mask key nonce plaintext, take 16 (checksum (key @ nonce @ aad @ plaintext)))"

definition memory_aes :: "image_world aes_api" where
  "memory_aes = \<lparr>aes_open = (\<lambda>s. ((0, 1), s)), aes_set_gcm = (\<lambda>a s. (0, s)),
     aes_object_length = (\<lambda>a s. ((0, 256, 4), s)),
     aes_generate_key = (\<lambda>a n key s. ((0, 1), s\<lparr>iw_key := key\<rparr>)),
     aes_encrypt = (\<lambda>h nonce aad p s. let (c, tag) = memory_gcm (iw_key s) nonce aad p
       in ((0, c, tag, of_nat (length p)), s)),
     aes_decrypt = (\<lambda>h nonce aad c tag s.
       let p = memory_mask (iw_key s) nonce c
       in ((if memory_gcm (iw_key s) nonce aad p = (c, tag) then 0 else 0xC000A002, p, of_nat (length c)), s)),
     aes_random = (\<lambda>n s. ((0, replicate n 7), s))\<rparr>"

definition run_frame :: "byte list \<Rightarrow> byte list" where
  "run_frame bytes = [0x28, 0xB5, 0x2F, 0xFD, 4] @
     (if length bytes < 2 ^ 64 \<and> bytes = replicate (length bytes) (hd bytes)
      then 1 # hd bytes # le_bytes 8 (length bytes) else 0 # bytes)"

definition run_contents :: "byte list \<Rightarrow> byte list option" where
  "run_contents frame =
     (case drop 5 frame of
        [] \<Rightarrow> None
      | mode # rest \<Rightarrow>
        if mode = 1 then (case rest of [] \<Rightarrow> None | b # n \<Rightarrow> Some (replicate (le_nat n) b)) else Some rest)"

definition memory_zstd :: "image_world zstd_api" where
  "memory_zstd = \<lparr>zstd_version_number = ZSTD_VERSION_NUMBER, zstd_compress_bound = (\<lambda>n. Some (n + 64)),
     zstd_create_cctx = (\<lambda>s. (Some 1, s\<lparr>iw_params := []\<rparr>)),
     zstd_set_parameter = (\<lambda>ctx p v s. (True, s\<lparr>iw_params := iw_params s @ [(p, v)]\<rparr>)),
     zstd_compress2 = (\<lambda>ctx capacity bytes s. (Some (run_frame bytes), s)),
     zstd_find_frame_size = (\<lambda>frame. Some (length frame)),
     zstd_frame_content_size = (\<lambda>frame. map_option length (run_contents frame)),
     zstd_dict_id = (\<lambda>frame. 0), zstd_decompress = (\<lambda>n frame. run_contents frame)\<rparr>"

definition memory_services :: "image_world image_services" where
  "memory_services = \<lparr>sv_cng = memory_cng iw_absorbed (\<lambda>b s. s\<lparr>iw_absorbed := b\<rparr>), sv_aes = memory_aes,
     sv_zstd = memory_zstd, sv_argon2 = (\<lambda>t m p pw salt. (0, checksum (pw @ salt)))\<rparr>"

lemma length_checksum [simp]: "length (checksum bs) = 32"
  by (simp add: checksum_def)

lemma memory_hashing:
  "hashing_service (memory_cng iw_absorbed (\<lambda>b s. s\<lparr>iw_absorbed := b\<rparr>)) checksum (\<lambda>s h. iw_absorbed s)"
  unfolding hashing_service_def using memory_cng_hashes [of iw_absorbed "\<lambda>b s. s\<lparr>iw_absorbed := b\<rparr>"]
  by (simp add: cng_alive_def memory_cng_def bcrypt_success_def)

lemma memory_mask_twice [simp]: "memory_mask key nonce (memory_mask key nonce p) = p"
  by (induction p) (simp_all add: memory_mask_def xor.assoc)

lemma length_memory_mask [simp]: "length (memory_mask key nonce p) = length p"
  by (simp add: memory_mask_def)

lemma memory_gcm_eq: "memory_gcm key nonce aad p = (c, tag) \<longleftrightarrow>
    p = memory_mask key nonce c \<and> tag = take 16 (checksum (key @ nonce @ aad @ p))"
  unfolding memory_gcm_def by (auto dest: arg_cong [of _ _ "memory_mask key nonce"])

lemma memory_gcm_scheme: "gcm_scheme memory_gcm"
proof -
  have "inj (memory_gcm key nonce aad)" for key nonce aad
  proof (rule injI)
    fix p q
    assume "memory_gcm key nonce aad p = memory_gcm key nonce aad q"
    then have "memory_mask key nonce p = memory_mask key nonce q" by (simp add: memory_gcm_def)
    then show "p = q" by (metis memory_mask_twice)
  qed
  then show ?thesis by (simp add: gcm_scheme_def memory_gcm_def)
qed

lemma memory_aes_service: "aes_service memory_aes (\<lambda>s h. iw_key s) memory_gcm"
proof -
  have "(c, tag) \<in> range (memory_gcm key nonce aad) \<longleftrightarrow>
      memory_gcm key nonce aad (memory_mask key nonce c) = (c, tag)" for key nonce aad c tag
  proof
    assume "(c, tag) \<in> range (memory_gcm key nonce aad)"
    then obtain p where "memory_gcm key nonce aad p = (c, tag)" by fastforce
    then show "memory_gcm key nonce aad (memory_mask key nonce c) = (c, tag)" by (simp add: memory_gcm_eq)
  next
    assume "memory_gcm key nonce aad (memory_mask key nonce c) = (c, tag)"
    then show "(c, tag) \<in> range (memory_gcm key nonce aad)" by (intro image_eqI [OF sym]) simp_all
  qed
  then have "aes_decrypts memory_aes (\<lambda>s h. iw_key s) memory_gcm"
    by (simp add: aes_decrypts_def memory_aes_def bcrypt_success_def Let_def unat_of_nat_u32)
  moreover have "aes_opens memory_aes (\<lambda>s h. iw_key s)"
    by (simp add: aes_opens_def memory_aes_def bcrypt_success_def)
  moreover have "aes_encrypts memory_aes (\<lambda>s h. iw_key s) memory_gcm"
    by (simp add: aes_encrypts_def memory_aes_def bcrypt_success_def Let_def unat_of_nat_u32 split: prod.split)
  ultimately show ?thesis by (simp add: aes_service_def memory_gcm_scheme)
qed

lemma run_contents_frame: "bytes \<noteq> [] \<Longrightarrow> run_contents (run_frame bytes) = Some bytes"
proof -
  have "le_nat (le_bytes 8 n) = n" if "n < 2 ^ 64" for n using that by (simp add: le_nat_le_bytes)
  then show ?thesis by (auto simp: run_contents_def run_frame_def)
qed

lemma memory_zstd_service: "zstd_service memory_zstd (\<lambda>s ctx. iw_params s)"
proof -
  have "run_frame bytes ! 4 = 4" "5 \<le> length (run_frame bytes)" "length (run_frame bytes) \<le> length bytes + 64" for bytes
    by (simp_all add: run_frame_def)
  then have "zstd_frame memory_zstd (run_frame bytes) bytes" if "bytes \<noteq> []" for bytes
    using run_contents_frame [OF that] by (simp add: zstd_frame_def memory_zstd_def)
  then show ?thesis
    using \<open>\<And>bytes. length (run_frame bytes) \<le> length bytes + 64\<close>
    unfolding zstd_service_def by (simp add: memory_zstd_def)
qed

interpretation memory_image: working_image_platform memory_services checksum "\<lambda>s h. iw_absorbed s" "\<lambda>s h. iw_key s"
    memory_gcm "\<lambda>s ctx. iw_params s"
  by unfold_locales
    (simp_all add: memory_services_def memory_hashing memory_aes_service memory_zstd_service)

section \<open>The properties\<close>

text \<open>What a chunk of an inspection says, in the terms of the request that builds it.\<close>

definition chunk_contents :: "verified_chunk \<Rightarrow> build_chunk" where
  "chunk_contents c =
     \<lparr>bc_logical_offset = cr_logical_offset (vc_record c), bc_logical_length = cr_logical_length (vc_record c),
      bc_flags = cr_flags (vc_record c), bc_data = vc_plaintext c,
      bc_rescue_read_evidence = cr_rescue_read_evidence (vc_record c)\<rparr>"

lemma chunks_stored_contents:
  "chunks_stored z H E image_id crypt i off cs rs bs \<Longrightarrow>
   map chunk_contents (map2 (\<lambda>r c. \<lparr>vc_record = r, vc_plaintext = bc_data c\<rparr>) rs cs) = cs"
  by (induction z H E image_id crypt i off cs rs bs rule: chunks_stored.induct)
    (auto simp: chunk_contents_def chunk_stored_def)

text \<open>
  C5.  An image is read back as it was built: whatever the services have done in between, inspecting a
  built image with its password returns the manifest, every chunk with its range, its data and its
  evidence of failed reads, and the disk geometry of the request.
\<close>

theorem tsumugi_roundtrip:
  assumes platform: "image_platform sv H absorbed key_of E params_of"
    and arrays: "build_arrays q" and built: "build_tsumugi_v1 sv q s = (Inr img, t)"
    and password: "\<And>e. br_encryption q = Some e \<Longrightarrow> pw = Some (es_password e)"
  shows "\<exists>x u. inspect_tsumugi_v1 sv img pw s' = (Inr x, u) \<and> ti_manifest x = br_manifest q \<and>
    map chunk_contents (ti_chunks x) = br_chunks q \<and>
    th_payload_kind (ti_header x) = br_payload_kind q \<and>
    th_source_disk_size (ti_header x) = br_source_disk_size q \<and>
    th_logical_sector_size (ti_header x) = br_logical_sector_size q \<and>
    th_physical_sector_size (ti_header x) = br_physical_sector_size q \<and>
    th_image_id (ti_header x) = br_image_id q \<and> ti_metadata_authenticated x = (br_encryption q \<noteq> None)"
proof -
  note v = image_platform.build_tsumugi_v1_success(1) [OF platform built arrays]
  obtain crypt rs bs h sealed where im: "image_of sv H E q crypt rs bs h sealed img"
    using image_platform.build_tsumugi_v1_success(2) [OF platform built arrays] by blast
  from im have h: "\<exists>m n tag hash. h = (image_header q m n)\<lparr>th_metadata_tag := tag, th_header_hash := hash\<rparr>"
    and cs: "\<exists>off. chunks_stored (sv_zstd sv) H E (br_image_id q) crypt 0 off (br_chunks q) rs bs"
    unfolding image_of_def Let_def by blast+
  from h have "th_payload_kind h = br_payload_kind q" "th_source_disk_size h = br_source_disk_size q"
    "th_logical_sector_size h = br_logical_sector_size q" "th_physical_sector_size h = br_physical_sector_size q"
    "th_image_id h = br_image_id q" by (auto simp: image_header_def Let_def)
  then show ?thesis
    using image_platform.inspect_image_of [OF platform im v arrays password] chunks_stored_contents cs by fastforce
qed

text \<open>
  C24.  Building completes: on services that always answer, every valid request whose metadata fits and
  whose nonces do not overflow gives an image.
\<close>

theorem tsumugi_build_completes:
  assumes "working_image_platform sv H absorbed key_of E params_of" "build_arrays q"
    "validate_build_request q = success_status"
    "32 + length (br_manifest q) + 112 * length (br_chunks q) \<le> kTsumugiMaximumMetadataBytes" "nonces_fit q"
  shows "\<exists>img t. build_tsumugi_v1 sv q s = (Inr img, t)"
  by (rule working_image_platform.build_completes [OF assms(1,3,2,4,5)])

text \<open>
  C19.  What an accepted image is worth, whoever made it: the header is the one in its first 512 bytes,
  header and body are the hashed ones, and the sections lie end to end and fill the image, the
  metadata directly behind the header, the data behind the metadata, the footer of 64 bytes behind
  the data.  There is a record for each chunk, the chunks are ordered, disjoint and inside the disk,
  the stored chunks tile the data section, every chunk has the recorded hash and length, and the
  metadata and chunks of an encrypted image decrypt under the key of the password.
\<close>

theorem tsumugi_inspection_sound:
  assumes platform: "image_platform sv H absorbed key_of E params_of"
    and run: "inspect_tsumugi_v1 sv img pw s = (Inr x, t)"
  defines "h \<equiv> ti_header x" and "rs \<equiv> map vc_record (ti_chunks x)" and "metadata_at \<equiv> th_metadata (ti_header x)"
    and "footer \<equiv> unat (is_offset (th_footer (ti_header x)))" and "start \<equiv> unat (is_offset (th_data (ti_header x)))"
  shows "h = read_tsumugi_header (take 512 img) \<and>
    is_offset metadata_at = 512 \<and> 32 \<le> unat (is_length metadata_at) \<and>
    unat (is_length metadata_at) \<le> kTsumugiMaximumMetadataBytes \<and>
    start = 512 + unat (is_length metadata_at) \<and> footer = start + unat (is_length (th_data h)) \<and>
    is_length (th_footer h) = 64 \<and> length rs = unat (th_chunk_count h) \<and>
    length img = footer + 64 \<and> ti_global_hash x = H (take footer img) \<and>
    ti_global_hash x = slice img (footer + 16) 32 \<and>
    th_header_hash h = H (overwrite (take 512 img) 188 (replicate 32 0)) \<and>
    sorted_wrt (\<lambda>a b. logical_end a \<le> unat (cr_logical_offset b)) rs \<and>
    (\<forall>r \<in> set rs. 0 < unat (cr_logical_length r) \<and> logical_end r \<le> unat (th_source_disk_size h)) \<and>
    (\<forall>k < length rs. unat (cr_stored_offset (rs ! k)) = start + stored_sizes (take k rs)) \<and>
    footer = start + stored_sizes rs \<and>
    (\<exists>key metadata. metadata_opened sv E h img pw key metadata \<and>
      ti_metadata_authenticated x = (key \<noteq> None) \<and>
      parse_metadata metadata h (key \<noteq> None) = Inr (ti_manifest x, rs) \<and>
      (\<forall>k < length rs. chunk_verified sv H E h key img k (ti_chunks x ! k)))"
proof -
  obtain key metadata where header: "h = read_tsumugi_header (take 512 img)"
    and head: "th_header_hash h = H (overwrite (take 512 img) 188 (replicate 32 0))"
    and sections: "validate_sections h (length img) = Inr ()"
    and hash: "ti_global_hash x = H (take footer img)" "ti_global_hash x = slice img (footer + 16) 32"
    and opened: "metadata_opened sv E h img pw key metadata" "ti_metadata_authenticated x = (key \<noteq> None)"
    and parsed: "parse_metadata metadata h (key \<noteq> None) = Inr (ti_manifest x, rs)"
    and chunks: "\<forall>k < length (ti_chunks x). chunk_verified sv H E h key img k (ti_chunks x ! k)"
    unfolding h_def rs_def footer_def
    by (rule image_platform.inspect_tsumugi_v1_success [OF platform run], rule that [unfolded h_def rs_def footer_def])
  have ok: "records_ok h (key \<noteq> None) 0 0 start rs footer"
    using parse_metadata_sound(4) [OF parsed] by (simp add: start_def footer_def h_def)
  have inside: "\<forall>r \<in> set rs. 0 < unat (cr_logical_length r) \<and> logical_end r \<le> unat (th_source_disk_size h)"
    by (rule records_ok_inside [OF ok])
  have sects: "is_offset metadata_at = 512" "32 \<le> unat (is_length metadata_at)"
    "unat (is_length metadata_at) \<le> kTsumugiMaximumMetadataBytes" "start = 512 + unat (is_length metadata_at)"
    "footer = start + unat (is_length (th_data h))" "is_length (th_footer h) = 64" "length img = footer + 64"
    using sections by (simp_all add: validate_sections_iff footer_def start_def metadata_at_def h_def)
  have count: "length rs = unat (th_chunk_count h)" by (rule parse_metadata_sound(2) [OF parsed])
  have "length rs = length (ti_chunks x)" by (simp add: rs_def)
  with chunks have verified: "\<forall>k < length rs. chunk_verified sv H E h key img k (ti_chunks x ! k)" by simp
  note tile = records_ok_tile [OF ok] and ordered = records_ok_ordered [OF ok]
  show ?thesis
    by (intro conjI exI [of _ key] exI [of _ metadata] header sects count hash head inside opened parsed verified
        ordered [THEN conjunct1] tile [THEN conjunct1] tile [THEN conjunct2])
qed

lemma nonce_for_counter_inj:
  assumes "length base = 12" "nonce_for_counter base a = Inr n" "nonce_for_counter base b = Inr n"
  shows "a = b"
proof -
  let ?c = "read_little base 4 :: u64"
  have n: "n = write_little base 4 (?c + a)" "n = write_little base 4 (?c + b)"
    using assms(2,3) by (auto simp: nonce_for_counter_def Let_def checked_add_Some_iff split: option.split_asm)
  have "read_little (write_little base 4 v) 4 = v" for v :: u64 using assms(1) by (simp add: byte_simps)
  then have "?c + a = ?c + b" using n by metis
  then show ?thesis by simp
qed

text \<open>
  C20.  No nonce is used twice under the key of an image: the counters of the stored chunks of an accepted
  encrypted image give pairwise different nonces, none of them the one of the metadata.
\<close>

theorem tsumugi_nonces_distinct:
  assumes platform: "image_platform sv H absorbed key_of E params_of"
    and run: "inspect_tsumugi_v1 sv img pw s = (Inr x, t)" and encrypted: "ti_metadata_authenticated x"
    and chunks: "i < j" "j < length (ti_chunks x)"
      "\<not> chunk_is_zero (cr_flags (vc_record (ti_chunks x ! i)))"
      "\<not> chunk_is_zero (cr_flags (vc_record (ti_chunks x ! j)))"
  defines "nonce \<equiv> \<lambda>k. nonce_for_counter (th_base_nonce (ti_header x)) (cr_nonce_counter (vc_record (ti_chunks x ! k)))"
  shows "nonce i \<noteq> nonce j \<and> nonce i \<noteq> nonce_for_counter (th_base_nonce (ti_header x)) 0 \<and>
    nonce j \<noteq> nonce_for_counter (th_base_nonce (ti_header x)) 0"
proof -
  let ?h = "ti_header x" and ?base = "th_base_nonce (ti_header x)" and ?rs = "map vc_record (ti_chunks x)"
  obtain key metadata where h: "?h = read_tsumugi_header (take 512 img)"
    and supported: "header_supported ?h" and sections: "validate_sections ?h (length img) = Inr ()"
    and parsed: "parse_metadata metadata ?h (key \<noteq> None) = Inr (ti_manifest x, ?rs)"
    and chunk: "\<forall>k < length (ti_chunks x). chunk_verified sv H E ?h key img k (ti_chunks x ! k)"
    and auth: "ti_metadata_authenticated x = (key \<noteq> None)"
    by (rule image_platform.inspect_tsumugi_v1_success [OF platform run], rule that)
  obtain k where key: "key = Some k" using auth encrypted by auto
  have "512 \<le> length img" using sections by (simp add: validate_sections_iff)
  then have base: "length ?base = 12" by (simp add: h read_tsumugi_header_def)
  have "length ?rs = unat (th_chunk_count ?h)" by (rule parse_metadata_sound(2) [OF parsed])
  then have count: "length (ti_chunks x) \<le> kTsumugiMaximumChunkCount"
    using supported by (simp add: header_supported_def Let_def)
  have used: "cr_nonce_counter (vc_record (ti_chunks x ! m)) = of_nat (Suc m) \<and> (\<exists>n. nonce m = Inr n)"
    if m: "m < length (ti_chunks x)" "\<not> chunk_is_zero (cr_flags (vc_record (ti_chunks x ! m)))" for m
  proof
    from m(1) have "m < length ?rs" by simp
    from records_ok_each [OF parse_metadata_sound(4) [OF parsed] this] m key
    show "cr_nonce_counter (vc_record (ti_chunks x ! m)) = of_nat (Suc m)"
      unfolding index_record_ok_def by (auto simp: word_of_nat_Suc)
    have "chunk_verified sv H E ?h key img m (ti_chunks x ! m)" using chunk m(1) by blast
    then show "\<exists>n. nonce m = Inr n" using m(2) key by (auto simp: chunk_verified_def nonce_def Let_def)
  qed
  have u: "unat (of_nat (Suc m) :: u64) = Suc m" if "m < length (ti_chunks x)" for m
    using that count by (intro unat_of_nat_u64) simp
  have i: "i < length (ti_chunks x)" using chunks(1,2) by simp
  have ne: "(of_nat (Suc i) :: u64) \<noteq> of_nat (Suc j)" "(of_nat (Suc i) :: u64) \<noteq> 0" "(of_nat (Suc j) :: u64) \<noteq> 0"
    using u [OF i] u [OF chunks(2)] chunks(1) by (metis nat.inject less_irrefl unat_0 nat.distinct(1))+
  show ?thesis
    using used [OF i chunks(3)] used [OF chunks(2,4)] ne nonce_for_counter_inj [OF base]
    unfolding nonce_def by metis
qed

section \<open>An encrypted rescue image\<close>

definition sample_evidence :: rescue_read_evidence where
  "sample_evidence = \<lparr>rr_forward_attempts = 1, rr_reverse_attempts = 1, rr_sector_attempts = 1,
     rr_zero_fill_read_back_verified = True, rr_forward_native_error = ERROR_CRC,
     rr_reverse_native_error = ERROR_SECTOR_NOT_FOUND, rr_sector_native_error = ERROR_READ_FAULT\<rparr>"

definition sample_build :: build_request where
  "sample_build = \<lparr>br_payload_kind = rescue_disk, br_source_disk_size = 4096, br_logical_sector_size = 512,
     br_physical_sector_size = 512, br_chunk_size = kImageChunkSize16MiB, br_compression = compression_zstandard,
     br_image_id = [1, 2, 3, 4, 5, 6, 7, 8, 9, 10, 11, 12, 13, 14, 15, 16], br_manifest = [0x54, 0x53],
     br_chunks =
       [\<lparr>bc_logical_offset = 0, bc_logical_length = 512, bc_flags = 0, bc_data = replicate 512 0x5A,
          bc_rescue_read_evidence = None\<rparr>,
        \<lparr>bc_logical_offset = 512, bc_logical_length = 512, bc_flags = 3, bc_data = [],
          bc_rescue_read_evidence = Some sample_evidence\<rparr>,
        \<lparr>bc_logical_offset = 2048, bc_logical_length = 512, bc_flags = 0, bc_data = replicate 512 7,
          bc_rescue_read_evidence = None\<rparr>],
     br_encryption = Some \<lparr>es_password = [112, 97, 115, 115, 119, 111, 114, 100, 49],
       es_argon2 = \<lparr>ar_memory_kib = 65536, ar_iterations = 3, ar_parallelism = 1, ar_salt = [5, 5, 5, 5, 5, 5, 5, 5, 5, 5, 5, 5, 5, 5, 5, 5]\<rparr>,
       es_base_nonce = [1, 1, 1, 1, 1, 1, 1, 1, 1, 1, 1, 1]\<rparr>\<rparr>"

definition sample_world :: image_world where
  "sample_world = \<lparr>iw_absorbed = [], iw_key = [], iw_params = []\<rparr>"

lemma sample_request_arrays: "build_arrays sample_build"
  by (simp add: sample_build_def build_arrays_def)

lemma sample_request_valid: "validate_build_request sample_build = success_status"
  by (simp add: sample_build_def sample_evidence_def validate_build_request_def Let_def valid_payload_kind_def
      is_supported_sector_size_pair_def valid_chunk_size_def valid_compression_def all_zero_def check_encryption_def
      assess_tsumugi_password_def valid_chunk_flags_def chunk_is_zero_def chunk_is_unreadable_def
      checked_add_def valid_rescue_read_evidence_def)

lemma sample_request_fits:
  "32 + length (br_manifest sample_build) + 112 * length (br_chunks sample_build) \<le> kTsumugiMaximumMetadataBytes"
  "nonces_fit sample_build"
proof -
  show "32 + length (br_manifest sample_build) + 112 * length (br_chunks sample_build) \<le> kTsumugiMaximumMetadataBytes"
    by (simp add: sample_build_def)
  have "unat (read_little [1, 1, 1, 1, 1, 1, 1, 1, 1, 1, 1, 1] 4 :: u64) + 3 < 2 ^ 64"
    by (simp add: read_little_def slice_def)
  then show "nonces_fit sample_build" by (simp add: nonces_fit_def sample_build_def)
qed

text \<open>The password of the request, and what its image is inspected to.\<close>

lemma sample_image:
  obtains img t x u where "build_tsumugi_v1 memory_services sample_build sample_world = (Inr img, t)"
    "inspect_tsumugi_v1 memory_services img (Some [112, 97, 115, 115, 119, 111, 114, 100, 49]) sample_world = (Inr x, u)"
    "map chunk_contents (ti_chunks x) = br_chunks sample_build" "ti_metadata_authenticated x"
proof -
  obtain img t where b: "build_tsumugi_v1 memory_services sample_build sample_world = (Inr img, t)"
    using memory_image.build_completes [OF sample_request_valid sample_request_arrays sample_request_fits] by blast
  note v = memory_image.build_tsumugi_v1_success [OF b sample_request_arrays]
  obtain crypt rs bs h sealed where im: "image_of memory_services checksum memory_gcm sample_build crypt rs bs h sealed img"
    using v(2) by blast
  have pw: "Some [112, 97, 115, 115, 119, 111, 114, 100, 49] = Some (es_password e)"
    if "br_encryption sample_build = Some e" for e using that by (auto simp: sample_build_def)
  have "br_encryption sample_build \<noteq> None" by (simp add: sample_build_def)
  moreover from im obtain off where "chunks_stored (sv_zstd memory_services) checksum memory_gcm
      (br_image_id sample_build) crypt 0 off (br_chunks sample_build) rs bs"
    unfolding image_of_def Let_def by blast
  ultimately show ?thesis
    using that [OF b] memory_image.inspect_image_of [OF im v(1) sample_request_arrays pw, of sample_world]
      chunks_stored_contents by fastforce
qed

theorem tsumugi_roundtrip_witness:
  "\<exists>img t x u. build_tsumugi_v1 memory_services sample_build sample_world = (Inr img, t) \<and>
    inspect_tsumugi_v1 memory_services img (Some [112, 97, 115, 115, 119, 111, 114, 100, 49]) sample_world = (Inr x, u) \<and>
    map chunk_contents (ti_chunks x) = br_chunks sample_build"
proof -
  obtain img t where b: "build_tsumugi_v1 memory_services sample_build sample_world = (Inr img, t)"
    by (rule sample_image)
  have pw: "Some [112, 97, 115, 115, 119, 111, 114, 100, 49] = Some (es_password e)"
    if "br_encryption sample_build = Some e" for e using that by (auto simp: sample_build_def)
  from tsumugi_roundtrip [OF memory_image.image_platform_axioms sample_request_arrays b pw, of sample_world] b
  show ?thesis by blast
qed

theorem tsumugi_build_completes_witness:
  "\<exists>img t. build_tsumugi_v1 memory_services sample_build sample_world = (Inr img, t)"
  by (rule tsumugi_build_completes [OF memory_image.working_image_platform_axioms sample_request_arrays
      sample_request_valid sample_request_fits])

theorem tsumugi_inspection_sound_witness:
  "\<exists>img x u. inspect_tsumugi_v1 memory_services img (Some [112, 97, 115, 115, 119, 111, 114, 100, 49]) sample_world =
      (Inr x, u) \<and> map chunk_contents (ti_chunks x) = br_chunks sample_build \<and>
    ti_header x = read_tsumugi_header (take 512 img) \<and>
    length img = unat (is_offset (th_footer (ti_header x))) + 64 \<and>
    ti_global_hash x = checksum (take (unat (is_offset (th_footer (ti_header x)))) img)"
proof -
  obtain img x u where i: "inspect_tsumugi_v1 memory_services img (Some [112, 97, 115, 115, 119, 111, 114, 100, 49])
      sample_world = (Inr x, u)" "map chunk_contents (ti_chunks x) = br_chunks sample_build"
    by (rule sample_image)
  from tsumugi_inspection_sound [OF memory_image.image_platform_axioms i(1)] i show ?thesis by blast
qed

theorem tsumugi_nonces_distinct_witness:
  "\<exists>img x u. inspect_tsumugi_v1 memory_services img (Some [112, 97, 115, 115, 119, 111, 114, 100, 49]) sample_world =
      (Inr x, u) \<and>
    nonce_for_counter (th_base_nonce (ti_header x)) (cr_nonce_counter (vc_record (ti_chunks x ! 0))) \<noteq>
    nonce_for_counter (th_base_nonce (ti_header x)) (cr_nonce_counter (vc_record (ti_chunks x ! 2)))"
proof -
  obtain img x u where i: "inspect_tsumugi_v1 memory_services img (Some [112, 97, 115, 115, 119, 111, 114, 100, 49])
      sample_world = (Inr x, u)" and c: "map chunk_contents (ti_chunks x) = br_chunks sample_build"
      and auth: "ti_metadata_authenticated x"
    by (rule sample_image)
  have n: "length (ti_chunks x) = 3" using arg_cong [OF c, of length] by (simp add: sample_build_def)
  then have "map (\<lambda>c. cr_flags (vc_record c)) (ti_chunks x) = [0, 3, 0]"
    using arg_cong [OF c, of "map bc_flags"] by (simp add: sample_build_def chunk_contents_def comp_def)
  then have "cr_flags (vc_record (ti_chunks x ! 0)) = 0" "cr_flags (vc_record (ti_chunks x ! 2)) = 0"
    using n by (metis nth_map nth_Cons_0 zero_less_numeral, metis nth_map nth_Cons_0 nth_Cons_Suc lessI numeral_2_eq_2 numeral_3_eq_3)
  then show ?thesis
    using tsumugi_nonces_distinct [OF memory_image.image_platform_axioms i auth, of 0 2] n i
    by (auto simp: chunk_is_zero_def)
qed

end
