(* ===== verification/Spec2Isabelle.thy ===== *)
theory Spec2Isabelle
  imports Prelude Crc32 BlockDevice Gpt GptPlan GptPlanCorrect Mbr DiskIdentity OperationProgress
    VerifiedDigest CloneEngine BootSectors UsedRanges
    OfflineGptClone OfflineGptCloneCorrect CloneLive OfflineGptCloneRuns
    OfflineMbrClone OfflineMbrCloneCorrect
    RescueCopy RescueMap RescueTally RescueCopyCorrect RescueCopyRuns ManualPause
    ShrinkLayout ShrinkLayoutCorrect DirectClonePlan DirectClonePlanCorrect
    Wire Operation OperationCorrect Checkpoint CheckpointCodec CheckpointCorrect
    CheckpointStore CheckpointStoreRuns CheckpointStoreCorrect CheckpointStoreMemory
    ResumeSlot ResumeSlotCorrect ResumeSlotRuns ResumeSlotMemory
    ImageHash ImageCompression TsumugiCrypto Tsumugi TsumugiCodec TsumugiRecords TsumugiCorrect TsumugiRuns
    TsumugiImage TsumugiMemory
begin

text \<open>
  \<^bold>\<open>Y-TEC Tsumugi Drive: the decisions and the data paths of a disk cloner.\<close>

  The program copies whole disks.  It reads the partition table of a source disk, plans which bytes of
  which partition have to be copied, destroys the target's table, copies and reads back every block,
  and commits the new table as the last write; it rescues failing disks sector by sector; it plans the
  layout of a clone onto a smaller disk; and it runs such an engine as one confirmed operation whose
  state survives an interruption in a single checkpoint record; and it stores disks as encrypted,
  compressed images.  This library models those parts
  statement by statement and proves what they guarantee.  Everything that talks to Windows stands
  behind an interface of the program (\<open>ISourceDiskReader\<close>, \<open>IResumeSlotPlatform\<close>, a callback, a
  provider object) and is a parameter here.

  \<^bold>\<open>Parts and how they interact.\<close>  \<open>crc32\<close> protects the GUID partition table; \<open>gpt\<close> and \<open>mbr\<close> parse
  tables and plan writes; \<open>disk_identity\<close> decides that source and target are the reviewed, distinct
  disks; \<open>verified_write_digest\<close> hashes what has been written and read back; the offline clones
  compose all of them; \<open>rescue_copy\<close> shares the device interfaces and the digest, \<open>manual_pause\<close>
  supplies the callbacks through which an engine is paused or cancelled; \<open>shrink_layout\<close> plans;
  \<open>operation\<close> coordinates an engine; \<open>checkpoint\<close> and \<open>resume_slot\<close> keep its state.

  \<^bold>\<open>Conventions.\<close>  Integers keep their width (\<open>u8\<close> to \<open>u64\<close> are words, so sums wrap where the code's
  do); a byte vector is a list of \<open>u8\<close>; \<open>Result<T>\<close> is \<open>error + 'a\<close>, with \<open>Inl\<close> the code and the native
  error, message texts left out.  A routine that touches devices threads an explicit world: its value
  is a function from the world to a result and the new world (\<open>Prelude\<close>: \<open>returnE\<close>, \<open>failE\<close>, \<open>bindE\<close>,
  \<open>guardE\<close>).  C++ loops are recursive functions on the remaining counter or on the list that is walked.  No
  definition uses fuel: each \<open>function\<close> has a termination proof from the code's own counters.
  \<open>forward_pass\<close> tests for a block size of zero, which \<open>validate_request\<close> has excluded before, so the
  code's loop and the model agree on every call that is reached.

  \<^bold>\<open>Theories and sources.\<close>  (\<open>CloneCore/\<close>, \<open>MigrationCore/\<close>, \<open>OperationCore/\<close> and \<open>ImageFormat/\<close> are under \<open>src/src/\<close>.)

  \<^item> \<open>Prelude\<close>: integers, little-endian reads and writes, errors (\<open>CloneCore/error.h\<close>), the result and
    effect combinators with their rules, and the list lemmas the components share.
  \<^item> \<open>Crc32\<close>: \<open>CloneCore/src/crc32.cpp\<close>.  One changed byte changes the checksum.
  \<^item> \<open>BlockDevice\<close>: \<open>block_device.h\<close> as records of operations; the locales \<open>source_image\<close> and
    \<open>target_image\<close> state what a device promises, and are interpreted on the memory devices of
    \<open>tests/Integration/synthetic_gpt_clone_tests.cpp\<close>.
  \<^item> \<open>Gpt\<close>, \<open>GptPlan\<close>, \<open>GptPlanCorrect\<close>: \<open>gpt.cpp\<close>.  What \<open>parse_gpt\<close> accepts is well formed; a planned
    table is read back as planned; its writes are disjoint; and no prefix of them short of the commit
    makes an acceptable table.
  \<^item> \<open>Mbr\<close>: \<open>mbr.cpp\<close>, with the same properties for the legacy table.
  \<^item> \<open>DiskIdentity\<close>: \<open>disk_identity.cpp\<close>.  When a pair of disks is accepted, and that it is a pair.
  \<^item> \<open>OperationProgress\<close>: \<open>operation_progress.h\<close>, the callbacks; one that throws answers \<open>None\<close>.
  \<^item> \<open>VerifiedDigest\<close>: \<open>verified_write_digest.cpp\<close> over an abstract hash provider.  The digest is the
    hash of an evidence string that determines the sequence of writes.
  \<^item> \<open>BootSectors\<close>, \<open>UsedRanges\<close>, \<open>CloneEngine\<close>: the part that \<open>offline_gpt_clone.cpp\<close> and
    \<open>offline_mbr_clone.cpp\<close> have in common: file systems by boot sector, the answer of the used range
    provider, and copying with read-back.  The locale \<open>clone_world\<close> holds the program logic of the
    copy; \<open>CloneLive\<close> extends it to \<open>reliable_world\<close>, in which every routine succeeds.
  \<^item> \<open>OfflineGptClone\<close>, \<open>OfflineGptCloneCorrect\<close>, \<open>OfflineGptCloneRuns\<close>: \<open>offline_gpt_clone.cpp\<close>.  After
    a success the target is exactly the planned image, of an NTFS volume the bytes that the provider
    reported; after a failure it is either untouched or
    without a valid table until the commit; between working devices the clone succeeds.
  \<^item> \<open>OfflineMbrClone\<close>, \<open>OfflineMbrCloneCorrect\<close>: the same for \<open>offline_mbr_clone.cpp\<close>.
  \<^item> \<open>RescueCopy\<close>, \<open>RescueMap\<close>, \<open>RescueTally\<close>, \<open>RescueCopyCorrect\<close>, \<open>RescueCopyRuns\<close>: \<open>rescue_copy.cpp\<close>.
    The map of missing ranges stays ordered, disjoint and in step with the counters; the target ends
    with the source's bytes outside the map and zeroes inside; only devices can make a rescue fail.
    The locale \<open>rescue_world\<close> is interpreted on the failing disk of \<open>rescue_copy_tests.cpp\<close>.
  \<^item> \<open>ManualPause\<close>: \<open>manual_pause.cpp\<close>.  Every method is one critical section and, after the lock is
    released, one emission; a run of the controller is an inductive step relation that interleaves
    operator and worker in both.  Its invariant (every change is numbered in the order of the lock and
    delivered once, in an order the threads decide), that a paused engine stands still, and that the
    wait ends once no pause is requested.
  \<^item> \<open>ShrinkLayout\<close>, \<open>ShrinkLayoutCorrect\<close>: \<open>MigrationCore/src/shrink_layout.cpp\<close>.  Where the planner
    puts which partition, how it hands out the surplus, and when it refuses; every source partition is
    taken over once, at no less than \<open>least_bytes\<close>.
  \<^item> \<open>DirectClonePlan\<close>, \<open>DirectClonePlanCorrect\<close>: \<open>MigrationCore/src/direct_clone_plan.cpp\<close>, which plans a
    direct clone with that planner: when it is exact or shrinks, what it copies and how, and that
    after the layout nothing can go wrong.
  \<^item> \<open>Wire\<close>: the \<open>append_\<close> functions of \<open>operation.cpp\<close> and \<open>checkpoint.cpp\<close> and the bounded readers of
    \<open>checkpoint.cpp\<close>.  The locale \<open>codec\<close> (a reader that inverts a writer and accepts nothing else) is
    interpreted on every field type.
  \<^item> \<open>Operation\<close>, \<open>OperationCorrect\<close>: \<open>operation.cpp\<close> and \<open>sha256.cpp\<close>.  The order of validation,
    reidentification, confirmation, execution and verification; the hashed bytes determine the plan.
  \<^item> \<open>Checkpoint\<close>, \<open>CheckpointCodec\<close>, \<open>CheckpointCorrect\<close>: \<open>checkpoint.cpp\<close>.  The record format and the
    accepted updates: one checkpoint has one byte string, and a sequence of updates only moves forward.
  \<^item> \<open>CheckpointStore\<close>, \<open>CheckpointStoreRuns\<close>, \<open>CheckpointStoreCorrect\<close>, \<open>CheckpointStoreMemory\<close>: the file
    operations of \<open>checkpoint.cpp\<close>, over the Windows file functions (\<open>checkpoint_files\<close>), whose documented
    behaviour is the locale \<open>checkpoint_disk\<close>, interpreted on a volume in memory.  The file refines a cell
    for one checkpoint whatever calls fail, and a file that is no checkpoint is never touched.  The one
    exception is proved as well: when \<open>ReplaceFileW\<close> fails with \<open>ERROR_UNABLE_TO_MOVE_REPLACEMENT\<close>, the
    stage is the only copy left and the failure path deletes it.
  \<^item> \<open>ResumeSlot\<close>, \<open>ResumeSlotCorrect\<close>, \<open>ResumeSlotRuns\<close>, \<open>ResumeSlotMemory\<close>: \<open>resume_slot.cpp\<close>.
    Against any platform that observes honestly (locale \<open>honest_platform\<close>) the slot refines a store
    with one cell; on one that also obeys (locale \<open>working_platform\<close>) every allowed request succeeds.
    Both are interpreted on the in-memory platform of \<open>resume_slot_tests.cpp\<close>.
  \<^item> \<open>ImageHash\<close>, \<open>ImageCompression\<close>, \<open>TsumugiCrypto\<close>: \<open>sha256.cpp\<close>, \<open>compression.cpp\<close> and
    \<open>tsumugi_crypto.cpp\<close> under \<open>src/src/ImageFormat/src\<close>, over CNG, Zstandard and Argon2id, whose
    documented behaviour is stated as \<open>hashing_service\<close>, \<open>zstd_service\<close> and \<open>aes_service\<close>.
  \<^item> \<open>Tsumugi\<close>, \<open>TsumugiCodec\<close>, \<open>TsumugiRecords\<close>, \<open>TsumugiCorrect\<close>, \<open>TsumugiRuns\<close>, \<open>TsumugiImage\<close>,
    \<open>TsumugiMemory\<close>: \<open>tsumugi.cpp\<close>, the image container.  A built image is inspected to exactly what was
    put into it; every accepted image, whoever made it, is whole, ordered and hashed; and no nonce occurs
    twice under a key.  The locales \<open>image_platform\<close> and \<open>working_image_platform\<close> are interpreted on
    services in memory.

  \<^bold>\<open>Parameters.\<close>  The CNG hash provider (\<open>cng_api\<close>), the GUID and signature generators, the used range
  provider, the devices, the callbacks and the slot platform are arguments.  Where a theorem needs
  something of them it says so in a named predicate (\<open>hash_provider\<close>, \<open>clone_world\<close>, ...), and its
  witness instantiates them with concrete functions.

  \<^bold>\<open>Not modelled.\<close>  The Windows layer (device enumeration and IOCTLs, VSS, DISM, boot repair, the
  platform behind the resume slot), the user interfaces, the migration engine
  that drives external tools, and vendored code: each is calls into code outside the repository with little
  decision of its own, or rests on such calls.  Memory exhaustion, object lifetime and message texts
  are left out everywhere.
\<close>

end
